(* ===== verification/Go_Base.thy ===== *)
theory Go_Base
  imports Main "HOL-Library.Word"
begin

text \<open>
  Shared vocabulary of the development: Go error values and fallible results, the 64-bit
  wrap-around of \<open>int\<close> and \<open>time.Duration\<close>, the part of \<open>time.Time\<close> the program uses,
  and generic lemmas on lists that several components need.

  \<^item> A Go function returning \<open>(T, error)\<close> whose value is discarded on error is modelled with
    the sum type \<open>'a res\<close> (\<open>Inl\<close> for the error). Where the source keeps using the value that
    came back beside an error, the pair \<open>'a \<times> gerror option\<close> itself is modelled.
  \<^item> A \<open>time.Time\<close> is an instant in nanoseconds since the Go zero time (1 January of year 1,
    00:00 UTC) together with the offset of its location: comparisons use the instant, the
    calendar accessors use instant plus offset.
\<close>

named_theorems go_simps \<open>defining equations of the Go base operations\<close>
named_theorems res_intros \<open>introduction rules for fallible results\<close>

section \<open>Errors and results\<close>

type_synonym gerror = string
type_synonym 'a res = "gerror + 'a"
type_synonym 'a gopair = "'a \<times> gerror option"

definition rbind :: "'a res \<Rightarrow> ('a \<Rightarrow> 'b res) \<Rightarrow> 'b res" where
  "rbind m f = (case m of Inl e \<Rightarrow> Inl e | Inr x \<Rightarrow> f x)"

text \<open>\<open>v, err := op; if err != nil { return ..., err }\<close>\<close>

definition tryv :: "'a gopair \<Rightarrow> 'a res" where
  "tryv p = (case snd p of None \<Rightarrow> Inr (fst p) | Some e \<Rightarrow> Inl e)"

definition guard_res :: "bool \<Rightarrow> gerror \<Rightarrow> unit res" where
  "guard_res b e = (if b then Inl e else Inr ())"

section \<open>Machine integers\<close>

text \<open>Two's complement wrap-around of a 64-bit signed integer.\<close>

definition wrap64 :: "int \<Rightarrow> int" where
  "wrap64 x = (x + 2 ^ 63) mod 2 ^ 64 - 2 ^ 63"

definition int64_ok :: "int \<Rightarrow> bool" where
  "int64_ok x \<longleftrightarrow> - (2 ^ 63) \<le> x \<and> x < 2 ^ 63"

text \<open>Go's \<open>/\<close> on integers truncates towards zero. The caller rules out a zero divisor, on which
  the program panics.\<close>

definition go_div :: "int \<Rightarrow> int \<Rightarrow> int" where
  "go_div a b = wrap64 (sgn a * sgn b * (\<bar>a\<bar> div \<bar>b\<bar>))"

section \<open>Time\<close>

record gtime =
  t_ns :: int
  t_off :: int

abbreviation second_ns :: int where "second_ns \<equiv> 1000000000"
abbreviation minute_ns :: int where "minute_ns \<equiv> 60 * 1000000000"
abbreviation hour_ns :: int where "hour_ns \<equiv> 3600 * 1000000000"
abbreviation day_ns :: int where "day_ns \<equiv> 86400 * 1000000000"

definition time_zero :: gtime where
  "time_zero = \<lparr>t_ns = 0, t_off = 0\<rparr>"

definition time_IsZero :: "gtime \<Rightarrow> bool" where
  "time_IsZero t \<longleftrightarrow> t_ns t = 0"

definition time_Before :: "gtime \<Rightarrow> gtime \<Rightarrow> bool" where
  "time_Before a b \<longleftrightarrow> t_ns a < t_ns b"

definition time_After :: "gtime \<Rightarrow> gtime \<Rightarrow> bool" where
  "time_After a b \<longleftrightarrow> t_ns b < t_ns a"

definition time_Add :: "gtime \<Rightarrow> int \<Rightarrow> gtime" where
  "time_Add t d = t\<lparr>t_ns := t_ns t + d\<rparr>"

text \<open>\<open>Sub\<close> saturates at the largest and smallest duration.\<close>

definition time_Sub :: "gtime \<Rightarrow> gtime \<Rightarrow> int" where
  "time_Sub a b = max (- (2 ^ 63)) (min (2 ^ 63 - 1) (t_ns a - t_ns b))"

definition time_UTC :: "gtime \<Rightarrow> gtime" where
  "time_UTC t = t\<lparr>t_off := 0\<rparr>"

text \<open>\<open>Truncate\<close> rounds the instant down to a multiple of \<open>d\<close> since the zero time and keeps the
  location.\<close>

definition time_Truncate :: "gtime \<Rightarrow> int \<Rightarrow> gtime" where
  "time_Truncate t d = (if d \<le> 0 then t else t\<lparr>t_ns := t_ns t - t_ns t mod d\<rparr>)"

text \<open>The calendar day of a time in its own location: what \<open>Format("2006-01-02")\<close> prints, as a
  day number.\<close>

definition day_label :: "gtime \<Rightarrow> int" where
  "day_label t = (t_ns t + t_off t) div day_ns"

definition time_Hour :: "gtime \<Rightarrow> int" where
  "time_Hour t = ((t_ns t + t_off t) mod day_ns) div hour_ns"

definition time_Minute :: "gtime \<Rightarrow> int" where
  "time_Minute t = ((t_ns t + t_off t) mod hour_ns) div minute_ns"

section \<open>Lemmas on results\<close>

lemma rbind_Inl [simp]: "rbind (Inl e) f = Inl e"
  by (simp add: rbind_def)

lemma rbind_Inr [simp]: "rbind (Inr x) f = f x"
  by (simp add: rbind_def)

lemma rbind_eq_Inr: "rbind m f = Inr y \<longleftrightarrow> (\<exists>x. m = Inr x \<and> f x = Inr y)"
  by (cases m) simp_all

lemma rbind_InrE [elim!]:
  assumes "rbind m f = Inr y"
  obtains x where "m = Inr x" and "f x = Inr y"
  using assms by (auto simp: rbind_eq_Inr)

lemma rbind_eq_Inl: "rbind m f = Inl e \<longleftrightarrow> m = Inl e \<or> (\<exists>x. m = Inr x \<and> f x = Inl e)"
  by (cases m) simp_all

lemma tryv_eq_Inr: "tryv p = Inr x \<longleftrightarrow> p = (x, None)"
  by (cases p) (auto simp: tryv_def split: option.splits)

lemma tryv_eq_Inl: "tryv p = Inl e \<longleftrightarrow> snd p = Some e"
  by (auto simp: tryv_def split: option.splits)

lemma tryv_simps [simp]: "tryv (x, None) = Inr x" "tryv (x, Some e) = Inl e"
  by (simp_all add: tryv_def)

lemma guard_res_eq [simp]:
  "guard_res b e = Inr u \<longleftrightarrow> \<not> b"
  "guard_res b e = Inl e' \<longleftrightarrow> b \<and> e' = e"
  by (auto simp: guard_res_def)

lemma guard_res_simps [simp]: "guard_res True e = Inl e" "guard_res False e = Inr ()"
  by (simp_all add: guard_res_def)

section \<open>Lemmas on machine integers\<close>

lemma wrap64_id: "int64_ok x \<Longrightarrow> wrap64 x = x"
  by (simp add: wrap64_def int64_ok_def)

lemma wrap64_range: "int64_ok (wrap64 x)"
  by (simp add: wrap64_def int64_ok_def)

text \<open>\<open>wrap64\<close> is the signed reading of the 64-bit word.\<close>

lemma wrap64_sint: "wrap64 x = sint (word_of_int x :: 64 word)"
  by (simp add: wrap64_def sint_sbintrunc' signed_take_bit_eq_take_bit_shift take_bit_eq_mod)

lemma go_div_nonneg:
  assumes "0 \<le> a" "0 < b" "int64_ok a"
  shows "go_div a b = a div b"
proof -
  have le: "a div b \<le> a" using zdiv_mono2 [of a 1 b] assms by simp
  have "0 \<le> a div b" using assms by (simp add: pos_imp_zdiv_nonneg_iff)
  with le assms have "int64_ok (a div b)" by (simp add: int64_ok_def)
  moreover have "sgn a * sgn b * (\<bar>a\<bar> div \<bar>b\<bar>) = a div b"
    using assms by (cases "a = 0") (simp_all add: sgn_if)
  ultimately show ?thesis by (simp add: go_div_def wrap64_id)
qed

section \<open>Lemmas on time\<close>

lemmas time_defs = time_IsZero_def time_Before_def time_After_def time_Add_def time_Sub_def
  time_UTC_def time_Truncate_def time_zero_def

lemma t_ns_Add [simp]: "t_ns (time_Add t d) = t_ns t + d"
  by (simp add: time_Add_def)

lemma t_off_Add [simp]: "t_off (time_Add t d) = t_off t"
  by (simp add: time_Add_def)

lemma time_Sub_range: "int64_ok (time_Sub a b)"
  by (simp add: time_Sub_def int64_ok_def)

lemma time_Sub_exact: "int64_ok (t_ns a - t_ns b) \<Longrightarrow> time_Sub a b = t_ns a - t_ns b"
  by (simp add: time_Sub_def int64_ok_def)

lemma time_Sub_pos: "0 < time_Sub a b \<longleftrightarrow> time_After a b"
  by (auto simp: time_Sub_def time_After_def)

lemma minute_of_day_bounds:
  "0 \<le> time_Hour t * 60 + time_Minute t" "time_Hour t * 60 + time_Minute t < 1440"
proof -
  have h: "0 \<le> time_Hour t" "time_Hour t < 24"
    by (simp_all add: time_Hour_def)
  have m: "0 \<le> time_Minute t" "time_Minute t < 60"
    by (simp_all add: time_Minute_def)
  show "0 \<le> time_Hour t * 60 + time_Minute t" "time_Hour t * 60 + time_Minute t < 1440"
    using h m by linarith+
qed

section \<open>Lemmas on lists\<close>

lemma last_n_append:
  "n \<le> length xs \<Longrightarrow> drop (length (xs @ [y]) - Suc n) (xs @ [y]) = drop (length xs - n) xs @ [y]"
  by simp

lemma sum_list_map_update:
  fixes f :: "'a \<Rightarrow> 'b::ab_group_add"
  assumes "i < length xs"
  shows "sum_list (map f (xs[i := y])) = sum_list (map f xs) - f (xs ! i) + f y"
  using assms
proof (induction xs arbitrary: i)
  case Nil
  then show ?case by simp
next
  case (Cons x xs)
  then show ?case by (cases i) simp_all
qed

text \<open>What lies beyond an element of a list sorted by a strict order.\<close>

lemma filter_beyond:
  assumes "sorted_wrt R xs" "m < length xs" "\<And>a b. R a b \<Longrightarrow> \<not> R b a"
  shows "filter (R (xs ! m)) xs = drop (Suc m) xs"
  using assms(1,2)
proof (induction xs arbitrary: m)
  case (Cons x xs)
  show ?case
  proof (cases m)
    case 0
    then show ?thesis using Cons.prems assms(3) by (auto intro: filter_True)
  next
    case (Suc m')
    then have "R x (xs ! m')" using Cons.prems by simp
    then have "\<not> R (xs ! m') x" by (rule assms(3))
    then show ?thesis using Cons Suc by simp
  qed
qed simp

end
