(* ===== verification/Decimal_Ops.thy ===== *)
theory Decimal_Ops
  imports Complex_Main Go_Base
begin

text \<open>
  The interface of \<open>github.com/govalues/decimal\<close> the program computes with. The package is not
  part of the repository, so its operations are a parameter of the model: a record of functions
  over an abstract type \<open>'d\<close> that every definition using decimals takes as an argument.

  \<open>decimal_laws D val rnd\<close> states what the package documents: a decimal denotes a rational
  number; comparison, sign, negation, absolute value and floor are exact; addition, subtraction,
  multiplication and division return the correctly rounded result, which is exact whenever it fits
  in 19 significant digits; an operation fails only when the result does not fit, on division by
  zero, and on the square root of a negative number. Rounding is a monotone function that fixes
  every decimal. \<open>rat_ops\<close> is an instance of the laws, used to run the model on concrete inputs.
\<close>

record 'd decimal_ops =
  d_zero :: 'd
  d_one :: 'd
  d_new :: "int \<Rightarrow> 'd"
  d_add :: "'d \<Rightarrow> 'd \<Rightarrow> 'd gopair"
  d_sub :: "'d \<Rightarrow> 'd \<Rightarrow> 'd gopair"
  d_mul :: "'d \<Rightarrow> 'd \<Rightarrow> 'd gopair"
  d_quo :: "'d \<Rightarrow> 'd \<Rightarrow> 'd gopair"
  d_sqrt :: "'d \<Rightarrow> 'd gopair"
  d_of_float :: "rat \<Rightarrow> 'd gopair"
  d_parse :: "string \<Rightarrow> 'd gopair"
  d_neg :: "'d \<Rightarrow> 'd"
  d_abs :: "'d \<Rightarrow> 'd"
  d_floor :: "'d \<Rightarrow> 'd"
  d_cmp :: "'d \<Rightarrow> 'd \<Rightarrow> int"
  d_Sign :: "'d \<Rightarrow> int"
  d_IsZero :: "'d \<Rightarrow> bool"
  d_IsPos :: "'d \<Rightarrow> bool"
  d_IsNeg :: "'d \<Rightarrow> bool"
  d_Less :: "'d \<Rightarrow> 'd \<Rightarrow> bool"

section \<open>The documented laws\<close>

text \<open>Numbers with at most 19 digits, of which at most 19 after the point.\<close>

definition representable :: "rat \<Rightarrow> bool" where
  "representable q \<longleftrightarrow> (\<exists>m s. \<bar>m\<bar> < 10 ^ 19 \<and> s \<le> (19::nat) \<and> q = of_int m / 10 ^ s)"

definition rounds_to :: "('d \<Rightarrow> rat) \<Rightarrow> (rat \<Rightarrow> rat) \<Rightarrow> 'd gopair \<Rightarrow> rat \<Rightarrow> bool" where
  "rounds_to val rnd p q \<longleftrightarrow>
     (snd p = None \<longrightarrow> val (fst p) = rnd q) \<and> (representable q \<longrightarrow> snd p = None)"

definition rounding :: "('d \<Rightarrow> rat) \<Rightarrow> (rat \<Rightarrow> rat) \<Rightarrow> bool" where
  "rounding val rnd \<longleftrightarrow>
     mono rnd \<and> (\<forall>q. representable q \<longrightarrow> rnd q = q) \<and> (\<forall>x. rnd (val x) = val x)"

definition decimal_arith :: "'d decimal_ops \<Rightarrow> ('d \<Rightarrow> rat) \<Rightarrow> (rat \<Rightarrow> rat) \<Rightarrow> bool" where
  "decimal_arith D val rnd \<longleftrightarrow>
     (\<forall>a b. rounds_to val rnd (d_add D a b) (val a + val b)) \<and>
     (\<forall>a b. rounds_to val rnd (d_sub D a b) (val a - val b)) \<and>
     (\<forall>a b. rounds_to val rnd (d_mul D a b) (val a * val b)) \<and>
     (\<forall>a b. val b \<noteq> 0 \<longrightarrow> rounds_to val rnd (d_quo D a b) (val a / val b)) \<and>
     (\<forall>a b. val b = 0 \<longrightarrow> snd (d_quo D a b) \<noteq> None) \<and>
     (\<forall>a. 0 \<le> val a \<longrightarrow> snd (d_sqrt D a) = None \<and> 0 \<le> val (fst (d_sqrt D a)) \<and>
        (val (fst (d_sqrt D a)) = 0 \<longleftrightarrow> val a = 0)) \<and>
     (\<forall>a. val a < 0 \<longrightarrow> snd (d_sqrt D a) \<noteq> None) \<and>
     (\<forall>q. rounds_to val rnd (d_of_float D q) q)"

definition decimal_exact :: "'d decimal_ops \<Rightarrow> ('d \<Rightarrow> rat) \<Rightarrow> bool" where
  "decimal_exact D val \<longleftrightarrow>
     val (d_zero D) = 0 \<and> val (d_one D) = 1 \<and>
     (\<forall>n. int64_ok n \<longrightarrow> val (d_new D n) = of_int n) \<and>
     (\<forall>a. val (d_neg D a) = - val a) \<and> (\<forall>a. val (d_abs D a) = \<bar>val a\<bar>) \<and>
     (\<forall>a. val (d_floor D a) = of_int \<lfloor>val a\<rfloor>) \<and>
     (\<forall>a b. d_cmp D a b = (if val a < val b then -1 else if val a = val b then 0 else 1)) \<and>
     (\<forall>a. d_Sign D a = (if val a < 0 then -1 else if val a = 0 then 0 else 1)) \<and>
     (\<forall>a. d_IsZero D a \<longleftrightarrow> val a = 0) \<and> (\<forall>a. d_IsPos D a \<longleftrightarrow> 0 < val a) \<and>
     (\<forall>a. d_IsNeg D a \<longleftrightarrow> val a < 0) \<and> (\<forall>a b. d_Less D a b \<longleftrightarrow> val a < val b)"

definition decimal_laws :: "'d decimal_ops \<Rightarrow> ('d \<Rightarrow> rat) \<Rightarrow> (rat \<Rightarrow> rat) \<Rightarrow> bool" where
  "decimal_laws D val rnd \<longleftrightarrow> rounding val rnd \<and> decimal_arith D val rnd \<and> decimal_exact D val"

section \<open>Exact rational arithmetic as an instance\<close>

primrec isqrt_upto :: "nat \<Rightarrow> nat \<Rightarrow> nat" where
  "isqrt_upto 0 n = 0"
| "isqrt_upto (Suc k) n = (if Suc k * Suc k \<le> n then Suc k else isqrt_upto k n)"

definition rat_sqrt :: "rat \<Rightarrow> rat" where
  "rat_sqrt q = (let n = nat \<lceil>q\<rceil> in of_nat (isqrt_upto n n))"

definition rat_ops :: "rat decimal_ops" where
  "rat_ops = \<lparr>d_zero = 0, d_one = 1, d_new = of_int,
     d_add = (\<lambda>a b. (a + b, None)), d_sub = (\<lambda>a b. (a - b, None)),
     d_mul = (\<lambda>a b. (a * b, None)),
     d_quo = (\<lambda>a b. if b = 0 then (0, Some ''division by zero'') else (a / b, None)),
     d_sqrt = (\<lambda>a. if a < 0 then (0, Some ''square root of a negative'') else (rat_sqrt a, None)),
     d_of_float = (\<lambda>q. (q, None)),
     d_parse = (\<lambda>s. (of_nat (length s), None)),
     d_neg = uminus, d_abs = abs, d_floor = (\<lambda>a. of_int \<lfloor>a\<rfloor>),
     d_cmp = (\<lambda>a b. if a < b then -1 else if a = b then 0 else 1),
     d_Sign = (\<lambda>a. if a < 0 then -1 else if a = 0 then 0 else 1),
     d_IsZero = (\<lambda>a. a = 0), d_IsPos = (\<lambda>a. 0 < a), d_IsNeg = (\<lambda>a. a < 0),
     d_Less = (<)\<rparr>"

section \<open>Consequences of the laws\<close>

lemma representable_of_int: "\<bar>m\<bar> < 10 ^ 19 \<Longrightarrow> representable (of_int m)"
  unfolding representable_def by (rule exI [of _ m], rule exI [of _ 0]) simp

lemma representable_zero [simp]: "representable 0"
  using representable_of_int [of 0] by simp

lemma representable_one [simp]: "representable 1"
  using representable_of_int [of 1] by simp

lemma decimal_lawsD:
  assumes "decimal_laws D val rnd"
  shows "rounding val rnd" "decimal_arith D val rnd" "decimal_exact D val"
  using assms by (simp_all add: decimal_laws_def)

lemma rnd_mono: "decimal_laws D val rnd \<Longrightarrow> p \<le> q \<Longrightarrow> rnd p \<le> rnd q"
  by (auto simp: decimal_laws_def rounding_def mono_def)

lemma rnd_val: "decimal_laws D val rnd \<Longrightarrow> rnd (val x) = val x"
  by (simp add: decimal_laws_def rounding_def)

lemma rnd_representable: "decimal_laws D val rnd \<Longrightarrow> representable q \<Longrightarrow> rnd q = q"
  by (simp add: decimal_laws_def rounding_def)

lemma rnd_zero: "decimal_laws D val rnd \<Longrightarrow> rnd 0 = 0"
  by (rule rnd_representable) simp_all

lemma rnd_nonneg: "decimal_laws D val rnd \<Longrightarrow> 0 \<le> q \<Longrightarrow> 0 \<le> rnd q"
  using rnd_mono [of D val rnd 0 q] rnd_zero [of D val rnd] by simp

lemma rnd_nonpos: "decimal_laws D val rnd \<Longrightarrow> q \<le> 0 \<Longrightarrow> rnd q \<le> 0"
  using rnd_mono [of D val rnd q 0] rnd_zero [of D val rnd] by simp

lemma rnd_le_val: "decimal_laws D val rnd \<Longrightarrow> q \<le> val x \<Longrightarrow> rnd q \<le> val x"
  using rnd_mono [of D val rnd q "val x"] rnd_val [of D val rnd x] by simp

lemma val_le_rnd: "decimal_laws D val rnd \<Longrightarrow> val x \<le> q \<Longrightarrow> val x \<le> rnd q"
  using rnd_mono [of D val rnd "val x" q] rnd_val [of D val rnd x] by simp

text \<open>Value of a successful operation.\<close>

lemma arith_rounds:
  assumes "decimal_laws D val rnd"
  shows "rounds_to val rnd (d_add D a b) (val a + val b)"
    "rounds_to val rnd (d_sub D a b) (val a - val b)"
    "rounds_to val rnd (d_mul D a b) (val a * val b)"
    "val b \<noteq> 0 \<Longrightarrow> rounds_to val rnd (d_quo D a b) (val a / val b)"
    "val b = 0 \<Longrightarrow> snd (d_quo D a b) \<noteq> None"
    "rounds_to val rnd (d_of_float D q) q"
  using decimal_lawsD(2) [OF assms] unfolding decimal_arith_def by blast+

lemma rounds_toD: "rounds_to val rnd (r, None) q \<Longrightarrow> val r = rnd q"
  by (simp add: rounds_to_def)

lemma val_add: "decimal_laws D val rnd \<Longrightarrow> d_add D a b = (r, None) \<Longrightarrow> val r = rnd (val a + val b)"
  using arith_rounds(1) [of D val rnd a b] by (simp add: rounds_toD)

lemma val_sub: "decimal_laws D val rnd \<Longrightarrow> d_sub D a b = (r, None) \<Longrightarrow> val r = rnd (val a - val b)"
  using arith_rounds(2) [of D val rnd a b] by (simp add: rounds_toD)

lemma val_mul: "decimal_laws D val rnd \<Longrightarrow> d_mul D a b = (r, None) \<Longrightarrow> val r = rnd (val a * val b)"
  using arith_rounds(3) [of D val rnd a b] by (simp add: rounds_toD)

lemma quo_divisor: "decimal_laws D val rnd \<Longrightarrow> d_quo D a b = (r, None) \<Longrightarrow> val b \<noteq> 0"
  using arith_rounds(5) [of D val rnd b a] by auto

lemma val_quo: "decimal_laws D val rnd \<Longrightarrow> d_quo D a b = (r, None) \<Longrightarrow> val r = rnd (val a / val b)"
  using arith_rounds(4) [of D val rnd b a] quo_divisor [of D val rnd a b r] by (simp add: rounds_toD)

text \<open>An operation whose exact result is representable succeeds with that result.\<close>

lemma add_exact:
  assumes "decimal_laws D val rnd" "representable (val a + val b)"
  shows "\<exists>r. d_add D a b = (r, None) \<and> val r = val a + val b"
proof -
  have "snd (d_add D a b) = None" using arith_rounds [OF assms(1)] assms(2) by (simp add: rounds_to_def)
  then obtain r where "d_add D a b = (r, None)" by (metis prod.collapse)
  then show ?thesis using val_add [OF assms(1)] rnd_representable [OF assms] by simp
qed

lemma sub_exact:
  assumes "decimal_laws D val rnd" "representable (val a - val b)"
  shows "\<exists>r. d_sub D a b = (r, None) \<and> val r = val a - val b"
proof -
  have "snd (d_sub D a b) = None" using arith_rounds [OF assms(1)] assms(2) by (simp add: rounds_to_def)
  then obtain r where "d_sub D a b = (r, None)" by (metis prod.collapse)
  then show ?thesis using val_sub [OF assms(1)] rnd_representable [OF assms] by simp
qed

lemma mul_exact:
  assumes "decimal_laws D val rnd" "representable (val a * val b)"
  shows "\<exists>r. d_mul D a b = (r, None) \<and> val r = val a * val b"
proof -
  have "snd (d_mul D a b) = None" using arith_rounds [OF assms(1)] assms(2) by (simp add: rounds_to_def)
  then obtain r where "d_mul D a b = (r, None)" by (metis prod.collapse)
  then show ?thesis using val_mul [OF assms(1)] rnd_representable [OF assms] by simp
qed

text \<open>Exact operations.\<close>

lemma dec_exact:
  assumes "decimal_laws D val rnd"
  shows "val (d_zero D) = 0" "val (d_one D) = 1"
    "int64_ok n \<Longrightarrow> val (d_new D n) = of_int n"
    "val (d_neg D a) = - val a" "val (d_abs D a) = \<bar>val a\<bar>"
    "val (d_floor D a) = of_int \<lfloor>val a\<rfloor>"
    "d_cmp D a b = (if val a < val b then -1 else if val a = val b then 0 else 1)"
    "d_Sign D a = (if val a < 0 then -1 else if val a = 0 then 0 else 1)"
    "d_IsZero D a \<longleftrightarrow> val a = 0" "d_IsPos D a \<longleftrightarrow> 0 < val a" "d_IsNeg D a \<longleftrightarrow> val a < 0"
    "d_Less D a b \<longleftrightarrow> val a < val b"
  using assms by (simp_all add: decimal_laws_def decimal_exact_def)

lemma dec_cmp:
  assumes "decimal_laws D val rnd"
  shows "d_cmp D a b < 0 \<longleftrightarrow> val a < val b" "d_cmp D a b \<le> 0 \<longleftrightarrow> val a \<le> val b"
    "0 < d_cmp D a b \<longleftrightarrow> val b < val a" "0 \<le> d_cmp D a b \<longleftrightarrow> val b \<le> val a"
    "d_cmp D a b = 0 \<longleftrightarrow> val a = val b"
  using dec_exact(7) [OF assms, of a b] by (simp_all split: if_splits)

lemma sqrt_laws:
  assumes "decimal_laws D val rnd"
  shows "0 \<le> val a \<Longrightarrow> snd (d_sqrt D a) = None"
    "0 \<le> val a \<Longrightarrow> 0 \<le> val (fst (d_sqrt D a))"
    "0 \<le> val a \<Longrightarrow> val (fst (d_sqrt D a)) = 0 \<longleftrightarrow> val a = 0"
    "val a < 0 \<Longrightarrow> snd (d_sqrt D a) \<noteq> None"
  using decimal_lawsD(2) [OF assms] unfolding decimal_arith_def by blast+

lemma sqrt_nonneg:
  assumes "decimal_laws D val rnd" "d_sqrt D a = (r, None)"
  shows "0 \<le> val a" "0 \<le> val r" "val r = 0 \<longleftrightarrow> val a = 0"
proof -
  show a: "0 \<le> val a" using sqrt_laws(4) [OF assms(1), of a] assms(2) by fastforce
  show "0 \<le> val r" "val r = 0 \<longleftrightarrow> val a = 0"
    using sqrt_laws(2,3) [OF assms(1) a] assms(2) by simp_all
qed

section \<open>The instance satisfies the laws\<close>

lemma isqrt_upto_pos: "0 < k \<Longrightarrow> 0 < n \<Longrightarrow> 0 < isqrt_upto k n"
proof (induction k)
  case (Suc k)
  then show ?case by (cases k) auto
qed simp

lemma rat_sqrt_zero_iff: "0 \<le> q \<Longrightarrow> rat_sqrt q = 0 \<longleftrightarrow> q = 0"
  using isqrt_upto_pos [of "nat \<lceil>q\<rceil>" "nat \<lceil>q\<rceil>"]
  by (cases "q = 0") (auto simp: rat_sqrt_def Let_def)

lemma rat_sqrt_nonneg: "0 \<le> rat_sqrt q"
  by (simp add: rat_sqrt_def Let_def)

lemma rat_ops_laws: "decimal_laws rat_ops id id"
  by (simp add: decimal_laws_def rounding_def decimal_arith_def decimal_exact_def rounds_to_def
      rat_ops_def mono_def rat_sqrt_nonneg rat_sqrt_zero_iff)

end
