(* ===== verification/Market_Types.thy ===== *)
theory Market_Types
  imports Decimal_Ops
begin

text \<open>
  The shared domain types of \<open>src/strategy/types/types.go\<close>, the candle resolutions of
  \<open>src/candles/handler.go\<close> with their durations (\<open>src/strategy/barfeed.go\<close>), and the run messages
  of \<open>src/strategy/messages.go\<close>.
\<close>

section \<open>Signals, observations and bars\<close>

datatype Signal = SignalHold | SignalBuy | SignalSell

fun Signal_String :: "Signal \<Rightarrow> string" where
  "Signal_String SignalBuy = ''BUY''"
| "Signal_String SignalSell = ''SELL''"
| "Signal_String SignalHold = ''HOLD''"

datatype Message = Stop | Pause | Resume

record 'd YieldObservation =
  yo_Time :: gtime
  yo_BondID :: string
  yo_YTM :: 'd
  yo_BenchmarkYield :: 'd
  yo_Price :: 'd

definition YieldObservation_Spread :: "'d decimal_ops \<Rightarrow> 'd YieldObservation \<Rightarrow> 'd res" where
  "YieldObservation_Spread D ob = tryv (d_sub D (yo_YTM ob) (yo_BenchmarkYield ob))"

record 'd Bar =
  bar_Time :: gtime
  bar_Open :: 'd
  bar_High :: 'd
  bar_Low :: 'd
  bar_Close :: 'd
  bar_Volume :: 'd
  bar_OpenYTM :: 'd
  bar_HighYTM :: 'd
  bar_LowYTM :: 'd
  bar_CloseYTM :: 'd
  bar_BenchmarkYield :: 'd

definition Bar_TrueRange :: "'d decimal_ops \<Rightarrow> 'd Bar \<Rightarrow> 'd \<Rightarrow> 'd res" where
  "Bar_TrueRange D b prevClose =
     rbind (tryv (d_sub D (bar_High b) (bar_Low b))) (\<lambda>hl.
     if d_IsZero D prevClose then Inr hl
     else rbind (tryv (d_sub D (bar_High b) prevClose)) (\<lambda>hp.
          rbind (tryv (d_sub D (bar_Low b) prevClose)) (\<lambda>lp.
            let m = d_abs D hp;
                m = (if d_cmp D (d_abs D lp) m > 0 then d_abs D lp else m)
            in Inr (if d_cmp D m hl > 0 then m else hl))))"

section \<open>Resolutions\<close>

type_synonym Resolution = string

definition Resolution_Validate :: "Resolution \<Rightarrow> gerror option" where
  "Resolution_Validate r =
     (if r \<in> {''1m'', ''5m'', ''15m'', ''1h'', ''4h'', ''1d''} then None
      else Some ''invalid resolution'')"

definition ResolutionDuration :: "Resolution \<Rightarrow> int" where
  "ResolutionDuration r =
     (if r = ''1m'' then minute_ns
      else if r = ''5m'' then 5 * minute_ns
      else if r = ''15m'' then 15 * minute_ns
      else if r = ''1h'' then hour_ns
      else if r = ''4h'' then 4 * hour_ns
      else if r = ''1d'' then day_ns
      else 0)"

section \<open>Properties\<close>

lemma ResolutionDuration_bounds: "0 \<le> ResolutionDuration r" "ResolutionDuration r \<le> day_ns"
  by (simp_all add: ResolutionDuration_def)

lemma ResolutionDuration_pos_iff: "0 < ResolutionDuration r \<longleftrightarrow> Resolution_Validate r = None"
  by (auto simp: ResolutionDuration_def Resolution_Validate_def)

text \<open>What a successful true range is: the range itself on the first bar, otherwise the largest of
  the range and the two gaps.\<close>

lemma Bar_TrueRange_first:
  assumes "decimal_laws D val rnd" "val pc = 0" "Bar_TrueRange D b pc = Inr tr"
  shows "val tr = rnd (val (bar_High b) - val (bar_Low b))"
  using assms by (auto simp: Bar_TrueRange_def tryv_eq_Inr dec_exact [OF assms(1)] val_sub)

lemma Bar_TrueRange_max:
  assumes L: "decimal_laws D val rnd" and pc: "val pc \<noteq> 0" and R: "Bar_TrueRange D b pc = Inr tr"
  shows "val tr = max (rnd (val (bar_High b) - val (bar_Low b)))
           (max \<bar>rnd (val (bar_High b) - val pc)\<bar> \<bar>rnd (val (bar_Low b) - val pc)\<bar>)"
proof -
  have "\<not> d_IsZero D pc" using pc dec_exact [OF L] by simp
  with R obtain hl hp lp where
    ops: "d_sub D (bar_High b) (bar_Low b) = (hl, None)" "d_sub D (bar_High b) pc = (hp, None)"
      "d_sub D (bar_Low b) pc = (lp, None)"
    and tr: "tr = (let m = (if d_cmp D (d_abs D lp) (d_abs D hp) > 0 then d_abs D lp else d_abs D hp)
                   in if d_cmp D m hl > 0 then m else hl)"
    unfolding Bar_TrueRange_def Let_def by (auto simp: tryv_eq_Inr)
  have vals: "val hl = rnd (val (bar_High b) - val (bar_Low b))" "val hp = rnd (val (bar_High b) - val pc)"
    "val lp = rnd (val (bar_Low b) - val pc)"
    using val_sub [OF L] ops by blast+
  show ?thesis
    unfolding tr Let_def vals [symmetric] dec_cmp [OF L] dec_exact [OF L]
    by (simp add: max_def dec_exact [OF L])
qed

end
