(* ===== verification/Decision_Model.thy ===== *)
theory Decision_Model
  imports Market_Types
begin

text \<open>
  Orders and decision rows as the live runs produce them: the market-order request handed to the
  exchange client, the \<open>strategy.Decision\<close> row of \<open>src/strategy/decision.go\<close>, the client order
  identifiers built there, \<open>MustParseUUID\<close> of \<open>src/strategy/uuid.go\<close> and \<open>LookupAssetID\<close> of
  \<open>src/strategy/market_api.go\<close>. UUIDs are their printed form; parsing one and drawing a fresh one
  belong to a third-party package and are parameters.
\<close>

section \<open>Requests and rows\<close>

datatype Side = SIDE_BUY | SIDE_SELL

fun Side_string :: "Side \<Rightarrow> string" where
  "Side_string SIDE_BUY = ''BUY''"
| "Side_string SIDE_SELL = ''SELL''"

record 'd OrderRequest =
  oreq_Book :: string
  oreq_Side :: Side
  oreq_Quantity :: 'd
  oreq_InverseLeverage :: 'd
  oreq_FromGlobal :: bool
  oreq_ClientOrderID :: string

datatype DecisionKind = DecisionKindOpen | DecisionKindClose | DecisionKindExtend

record 'd DecisionRow =
  dr_RunID :: string
  dr_Seq :: int
  dr_StrategyType :: string
  dr_OrderBookID :: string
  dr_Asset :: string
  dr_Side :: string
  dr_Signal :: string
  dr_Quantity :: 'd
  dr_Price :: 'd
  dr_Leverage :: 'd
  dr_InverseLeverage :: 'd
  dr_FromGlobal :: bool
  dr_Kind :: DecisionKind
  dr_Reason :: string
  dr_ReasonDetail :: string
  dr_CreatedAt :: gtime
  dr_ClientOrderID :: string

section \<open>Identifiers\<close>

definition uuid_Nil :: string where
  "uuid_Nil = ''00000000-0000-0000-0000-000000000000''"

definition MustParseUUID :: "(string \<Rightarrow> string gopair) \<Rightarrow> string \<Rightarrow> string" where
  "MustParseUUID parse i =
     (if i = [] then uuid_Nil
      else case parse i of (u, None) \<Rightarrow> u | (u, Some e) \<Rightarrow> uuid_Nil)"

definition BuildClientOrderID :: "string \<Rightarrow> string \<Rightarrow> string \<Rightarrow> string" where
  "BuildClientOrderID strategyName runID fresh = strategyName @ ''.'' @ runID @ ''.'' @ fresh"

definition BuildClientOrderIDPrefix :: "string \<Rightarrow> string \<Rightarrow> string" where
  "BuildClientOrderIDPrefix strategyName runID = strategyName @ ''.'' @ runID @ ''.''"

definition LookupAssetID ::
  "bool \<Rightarrow> (string \<Rightarrow> string gopair) \<Rightarrow> string \<Rightarrow> string res" where
  "LookupAssetID hasClient baseAssetID orderBookID =
     (if \<not> hasClient then Inl ''market API client is not configured''
      else if orderBookID = uuid_Nil then Inl ''order book ID is required''
      else rbind (tryv (baseAssetID orderBookID)) (\<lambda>assetID.
        if assetID = [] then Inl ''order book returned an empty base asset ID'' else Inr assetID))"

text \<open>Whether an order's client identifier starts with a prefix, which is how the exchange selects
  the orders of one run.\<close>

definition has_prefix :: "string \<Rightarrow> string \<Rightarrow> bool" where
  "has_prefix p s \<longleftrightarrow> take (length p) s = p"

definition no_dot :: "string \<Rightarrow> bool" where
  "no_dot s \<longleftrightarrow> CHR ''.'' \<notin> set s"

section \<open>Properties\<close>

lemma has_prefix_iff: "has_prefix p s \<longleftrightarrow> (\<exists>t. s = p @ t)"
  unfolding has_prefix_def by (metis append_eq_conv_conj append_take_drop_id)

lemma has_prefix_append [simp]: "has_prefix p (p @ t)"
  by (simp add: has_prefix_def)

text \<open>Splitting at the first dot is unambiguous.\<close>

lemma dot_split:
  "no_dot a \<Longrightarrow> no_dot b \<Longrightarrow> a @ CHR ''.'' # x = b @ CHR ''.'' # y \<Longrightarrow> a = b \<and> x = y"
proof (induction a arbitrary: b)
  case Nil
  then show ?case by (cases b) (auto simp: no_dot_def)
next
  case (Cons c a)
  then show ?case by (cases b) (auto simp: no_dot_def)
qed

lemma LookupAssetID_nonempty: "LookupAssetID h f b = Inr a \<Longrightarrow> a \<noteq> []"
  by (auto simp: LookupAssetID_def split: if_splits)

text \<open>The prefix a restarted run lists its orders by selects exactly that run's orders: an
  identifier built by any strategy for any run carries the prefix if and only if strategy and run
  coincide (names and run identifiers contain no dot).\<close>

theorem client_order_id_prefix_exact:
  assumes "no_dot n" "no_dot n'" "no_dot r" "no_dot r'"
  shows "has_prefix (BuildClientOrderIDPrefix n r) (BuildClientOrderID n' r' u) \<longleftrightarrow> n = n' \<and> r = r'"
proof
  assume "has_prefix (BuildClientOrderIDPrefix n r) (BuildClientOrderID n' r' u)"
  then obtain t where t: "n' @ CHR ''.'' # (r' @ CHR ''.'' # u) = n @ CHR ''.'' # (r @ CHR ''.'' # t)"
    by (auto simp: has_prefix_iff BuildClientOrderIDPrefix_def BuildClientOrderID_def)
  with dot_split [OF assms(2,1) t] dot_split [OF assms(4,3)] show "n = n' \<and> r = r'" by blast
next
  assume "n = n' \<and> r = r'"
  then show "has_prefix (BuildClientOrderIDPrefix n r) (BuildClientOrderID n' r' u)"
    by (simp add: has_prefix_iff BuildClientOrderIDPrefix_def BuildClientOrderID_def)
qed

theorem client_order_id_prefix_exact_witness:
  "has_prefix (BuildClientOrderIDPrefix ''twap'' ''r1'') (BuildClientOrderID ''twap'' ''r1'' ''x'') \<and>
   \<not> has_prefix (BuildClientOrderIDPrefix ''twap'' ''r1'') (BuildClientOrderID ''twap'' ''r12'' ''x'')"
  using client_order_id_prefix_exact [of "''twap''" "''twap''" "''r1''" "''r1''" "''x''"]
    client_order_id_prefix_exact [of "''twap''" "''twap''" "''r1''" "''r12''" "''x''"]
  by (simp add: no_dot_def)

end
