(* ===== verification/Rolling_Window.thy ===== *)
theory Rolling_Window
  imports Market_Types
begin

text \<open>
  The fixed-size rolling window of \<open>src/strategy/window/rolling.go\<close>: a circular buffer with a
  Welford mean and sum of squared deviations, and an exact running sum. \<open>Rolling_Add\<close> returns the
  window the method leaves behind together with its error: several fields are assigned before a
  later step can fail, and callers such as the imbalance gate ignore the error.

  The locale \<open>fifo_window\<close> is the contract the window (and the closed-bar cache of the candle
  registry) promises its clients: the contents are the most recent values, oldest first.
\<close>

section \<open>The window\<close>

record 'd Rolling =
  rw_size :: nat
  rw_buf :: "'d list"
  rw_head :: nat
  rw_count :: nat
  rw_mean :: 'd
  rw_m2 :: 'd
  rw_sum :: 'd

definition minWindowSize :: int where
  "minWindowSize = 2"

definition NewRollingWindow :: "'d decimal_ops \<Rightarrow> int \<Rightarrow> 'd Rolling" where
  "NewRollingWindow D sz =
     (let sz = (if sz < minWindowSize then minWindowSize else sz)
      in \<lparr>rw_size = nat sz, rw_buf = replicate (nat sz) (d_zero D), rw_head = 0, rw_count = 0,
          rw_mean = d_zero D, rw_m2 = d_zero D, rw_sum = d_zero D\<rparr>)"

text \<open>One fallible call inside a method that mutates its receiver: the first function gives the
  receiver left behind when the call fails, the second continues.\<close>

definition gstep ::
  "'a gopair \<Rightarrow> ('a \<Rightarrow> 's) \<Rightarrow> ('a \<Rightarrow> 's \<times> gerror option) \<Rightarrow> 's \<times> gerror option" where
  "gstep p onerr k = (case snd p of Some e \<Rightarrow> (onerr (fst p), Some e) | None \<Rightarrow> k (fst p))"

definition Rolling_Add_fill :: "'d decimal_ops \<Rightarrow> 'd \<Rightarrow> 'd Rolling \<Rightarrow> 'd Rolling \<times> gerror option" where
  "Rolling_Add_fill D value w0 =
     (let w = w0\<lparr>rw_count := rw_count w0 + 1\<rparr> in
      gstep (d_sub D value (rw_mean w)) (\<lambda>_. w) (\<lambda>delta.
      gstep (d_quo D delta (d_new D (int (rw_count w)))) (\<lambda>_. w) (\<lambda>inc.
      gstep (d_add D (rw_mean w) inc) (\<lambda>m. w\<lparr>rw_mean := m\<rparr>) (\<lambda>m.
      let w = w\<lparr>rw_mean := m\<rparr> in
      gstep (d_sub D value (rw_mean w)) (\<lambda>_. w) (\<lambda>diff.
      gstep (d_mul D delta diff) (\<lambda>_. w) (\<lambda>prod.
      gstep (d_add D (rw_m2 w) prod) (\<lambda>q. w\<lparr>rw_m2 := q\<rparr>) (\<lambda>q.
      let w = w\<lparr>rw_m2 := q, rw_buf := (rw_buf w)[rw_head w := value],
                rw_head := (rw_head w + 1) mod rw_size w\<rparr> in
      gstep (d_add D (rw_sum w) value) (\<lambda>s. w\<lparr>rw_sum := s\<rparr>) (\<lambda>s.
      (w\<lparr>rw_sum := s\<rparr>, None)))))))))"

definition Rolling_Add_full :: "'d decimal_ops \<Rightarrow> 'd \<Rightarrow> 'd Rolling \<Rightarrow> 'd Rolling \<times> gerror option" where
  "Rolling_Add_full D value w =
     (let oldest = rw_buf w ! rw_head w; oldMean = rw_mean w in
      gstep (d_sub D value oldest) (\<lambda>_. w) (\<lambda>diff.
      gstep (d_quo D diff (d_new D (int (rw_size w)))) (\<lambda>_. w) (\<lambda>inc.
      gstep (d_add D (rw_mean w) inc) (\<lambda>m. w\<lparr>rw_mean := m\<rparr>) (\<lambda>m.
      let w = w\<lparr>rw_mean := m\<rparr> in
      gstep (d_sub D value (rw_mean w)) (\<lambda>_. w) (\<lambda>valueMean.
      gstep (d_sub D oldest oldMean) (\<lambda>_. w) (\<lambda>oldestOldMean.
      gstep (d_add D valueMean oldestOldMean) (\<lambda>_. w) (\<lambda>term2.
      gstep (d_mul D diff term2) (\<lambda>_. w) (\<lambda>prod.
      gstep (d_add D (rw_m2 w) prod) (\<lambda>q. w\<lparr>rw_m2 := q\<rparr>) (\<lambda>q.
      let w = w\<lparr>rw_m2 := (if d_IsNeg D q then d_zero D else q),
                rw_buf := (rw_buf w)[rw_head w := value],
                rw_head := (rw_head w + 1) mod rw_size w\<rparr> in
      gstep (d_add D (rw_sum w) value) (\<lambda>s. w\<lparr>rw_sum := s\<rparr>) (\<lambda>s.
      let w = w\<lparr>rw_sum := s\<rparr> in
      gstep (d_sub D (rw_sum w) oldest) (\<lambda>s. w\<lparr>rw_sum := s\<rparr>) (\<lambda>s.
      (w\<lparr>rw_sum := s\<rparr>, None))))))))))))"

definition Rolling_Add :: "'d decimal_ops \<Rightarrow> 'd \<Rightarrow> 'd Rolling \<Rightarrow> 'd Rolling \<times> gerror option" where
  "Rolling_Add D value w =
     (if rw_count w < rw_size w then Rolling_Add_fill D value w else Rolling_Add_full D value w)"

definition Rolling_Ready :: "'d Rolling \<Rightarrow> bool" where
  "Rolling_Ready w \<longleftrightarrow> rw_count w = rw_size w"

definition Rolling_Mean :: "'d Rolling \<Rightarrow> 'd" where
  "Rolling_Mean w = rw_mean w"

definition Rolling_Sum :: "'d Rolling \<Rightarrow> 'd" where
  "Rolling_Sum w = rw_sum w"

definition Rolling_Variance :: "'d decimal_ops \<Rightarrow> 'd Rolling \<Rightarrow> 'd res" where
  "Rolling_Variance D w =
     (if int (rw_count w) < minWindowSize then Inr (d_zero D)
      else tryv (d_quo D (rw_m2 w) (d_new D (int (rw_count w) - 1))))"

definition Rolling_StdDev :: "'d decimal_ops \<Rightarrow> 'd Rolling \<Rightarrow> 'd res" where
  "Rolling_StdDev D w = rbind (Rolling_Variance D w) (\<lambda>v. tryv (d_sqrt D v))"

definition Rolling_ZScore :: "'d decimal_ops \<Rightarrow> 'd Rolling \<Rightarrow> 'd \<Rightarrow> 'd \<Rightarrow> 'd res" where
  "Rolling_ZScore D w value minStdDev =
     rbind (Rolling_StdDev D w) (\<lambda>sd.
     if d_Less D sd minStdDev then Inr (d_zero D)
     else rbind (tryv (d_sub D value (rw_mean w))) (\<lambda>num. tryv (d_quo D num sd)))"

text \<open>A client's loop \<open>for _, v := range vs { if err := w.Add(v); err != nil { return err } }\<close>.\<close>

fun Rolling_feed :: "'d decimal_ops \<Rightarrow> 'd list \<Rightarrow> 'd Rolling \<Rightarrow> 'd Rolling res" where
  "Rolling_feed D [] w = Inr w"
| "Rolling_feed D (v # vs) w =
     (case Rolling_Add D v w of (w', None) \<Rightarrow> Rolling_feed D vs w' | (w', Some e) \<Rightarrow> Inl e)"

section \<open>Abstraction and invariant\<close>

text \<open>The values in the window, oldest first.\<close>

definition Rolling_contents :: "'d Rolling \<Rightarrow> 'd list" where
  "Rolling_contents w =
     (if rw_count w < rw_size w then take (rw_count w) (rw_buf w)
      else drop (rw_head w) (rw_buf w) @ take (rw_head w) (rw_buf w))"

definition Rolling_inv :: "'d Rolling \<Rightarrow> bool" where
  "Rolling_inv w \<longleftrightarrow> 2 \<le> rw_size w \<and> length (rw_buf w) = rw_size w \<and> rw_head w < rw_size w \<and>
     rw_count w \<le> rw_size w \<and> (rw_count w < rw_size w \<longrightarrow> rw_head w = rw_count w)"

definition last_n :: "nat \<Rightarrow> 'a list \<Rightarrow> 'a list" where
  "last_n n xs = drop (length xs - n) xs"

lemma last_n_last_n: "last_n n (last_n n xs @ ys) = last_n n (xs @ ys)"
proof (cases "length xs \<le> n")
  case True
  then show ?thesis by (simp add: last_n_def)
next
  case False
  have "drop (length ys) (drop (length xs - n) (xs @ ys)) = drop (length xs + length ys - n) (xs @ ys)"
    using False by (simp add: add.commute)
  then show ?thesis using False by (simp add: last_n_def)
qed

lemma length_last_n: "length (last_n n xs) = min n (length xs)"
  by (simp add: last_n_def)

lemma last_n_short: "length xs \<le> n \<Longrightarrow> last_n n xs = xs"
  by (simp add: last_n_def)

lemma last_n_snoc_full: "length xs = n \<Longrightarrow> 0 < n \<Longrightarrow> last_n n (xs @ [x]) = tl xs @ [x]"
  by (cases xs) (simp_all add: last_n_def)

section \<open>The contract of a bounded most-recent-values buffer\<close>

locale fifo_window =
  fixes add :: "'v \<Rightarrow> 'w \<Rightarrow> 'w"
    and ok :: "'v \<Rightarrow> 'w \<Rightarrow> bool"
    and contents :: "'w \<Rightarrow> 'v list"
    and cap :: "'w \<Rightarrow> nat"
    and inv :: "'w \<Rightarrow> bool"
  assumes contents_add: "inv w \<Longrightarrow> ok v w \<Longrightarrow> contents (add v w) = last_n (cap w) (contents w @ [v])"
    and cap_add: "inv w \<Longrightarrow> ok v w \<Longrightarrow> cap (add v w) = cap w"
    and inv_add: "inv w \<Longrightarrow> ok v w \<Longrightarrow> inv (add v w)"
    and length_contents: "inv w \<Longrightarrow> length (contents w) \<le> cap w"
begin

text \<open>A run of additions, none of which fails.\<close>

fun all_ok :: "'v list \<Rightarrow> 'w \<Rightarrow> bool" where
  "all_ok [] w = True"
| "all_ok (v # vs) w = (ok v w \<and> all_ok vs (add v w))"

lemma inv_fold: "inv w \<Longrightarrow> all_ok vs w \<Longrightarrow> inv (fold add vs w) \<and> cap (fold add vs w) = cap w"
  by (induction vs arbitrary: w) (auto simp: inv_add cap_add)

lemma contents_fold:
  "inv w \<Longrightarrow> all_ok vs w \<Longrightarrow> contents (fold add vs w) = last_n (cap w) (contents w @ vs)"
proof (induction vs arbitrary: w)
  case Nil
  then show ?case using length_contents [of w] by (simp add: last_n_def)
next
  case (Cons v vs)
  then have ok: "ok v w" "all_ok vs (add v w)" by auto
  have "contents (fold add (v # vs) w) = last_n (cap w) (last_n (cap w) (contents w @ [v]) @ vs)"
    using Cons.IH [OF inv_add [OF Cons.prems(1) ok(1)] ok(2)] Cons.prems(1) ok
    by (simp add: contents_add cap_add)
  also have "\<dots> = last_n (cap w) (contents w @ v # vs)"
    by (simp add: last_n_last_n)
  finally show ?case .
qed

lemma full_after_cap:
  "inv w \<Longrightarrow> all_ok vs w \<Longrightarrow> cap w \<le> length vs \<Longrightarrow> contents (fold add vs w) = last_n (cap w) vs"
  by (simp add: contents_fold last_n_def)

end

section \<open>Lemmas\<close>

lemma gstep_eq_ok: "gstep p f k = (s, None) \<longleftrightarrow> (\<exists>v. p = (v, None) \<and> k v = (s, None))"
  by (cases p) (auto simp: gstep_def split: option.splits)

lemma gstep_simps [simp]: "gstep (v, None) f k = k v" "gstep (v, Some e) f k = (f v, Some e)"
  by (simp_all add: gstep_def)

lemma NewRollingWindow_inv: "Rolling_inv (NewRollingWindow D n)"
  by (auto simp: Rolling_inv_def NewRollingWindow_def minWindowSize_def Let_def)

lemma NewRollingWindow_contents: "Rolling_contents (NewRollingWindow D n) = []"
  by (auto simp: Rolling_contents_def NewRollingWindow_def minWindowSize_def Let_def)

text \<open>What a successful addition computes, branch by branch.\<close>

lemma Rolling_Add_fill_ok:
  assumes "Rolling_Add_fill D v w = (w', None)"
  obtains delta inc m diff prod q s where
    "d_sub D v (rw_mean w) = (delta, None)" "d_quo D delta (d_new D (int (rw_count w + 1))) = (inc, None)"
    "d_add D (rw_mean w) inc = (m, None)" "d_sub D v m = (diff, None)" "d_mul D delta diff = (prod, None)"
    "d_add D (rw_m2 w) prod = (q, None)" "d_add D (rw_sum w) v = (s, None)"
    "w' = w\<lparr>rw_count := rw_count w + 1, rw_mean := m, rw_m2 := q, rw_buf := (rw_buf w)[rw_head w := v],
        rw_head := (rw_head w + 1) mod rw_size w, rw_sum := s\<rparr>"
  using assms that unfolding Rolling_Add_fill_def Let_def gstep_eq_ok by (auto simp: gstep_eq_ok)

lemma Rolling_Add_full_ok:
  assumes "Rolling_Add_full D v w = (w', None)"
  obtains diff inc m vm om t prod q s s' where
    "d_sub D v (rw_buf w ! rw_head w) = (diff, None)" "d_quo D diff (d_new D (int (rw_size w))) = (inc, None)"
    "d_add D (rw_mean w) inc = (m, None)" "d_sub D v m = (vm, None)"
    "d_sub D (rw_buf w ! rw_head w) (rw_mean w) = (om, None)" "d_add D vm om = (t, None)"
    "d_mul D diff t = (prod, None)" "d_add D (rw_m2 w) prod = (q, None)"
    "d_add D (rw_sum w) v = (s, None)" "d_sub D s (rw_buf w ! rw_head w) = (s', None)"
    "w' = w\<lparr>rw_mean := m, rw_m2 := (if d_IsNeg D q then d_zero D else q),
        rw_buf := (rw_buf w)[rw_head w := v], rw_head := (rw_head w + 1) mod rw_size w, rw_sum := s'\<rparr>"
  using assms that unfolding Rolling_Add_full_def Let_def gstep_eq_ok by (auto simp: gstep_eq_ok)

lemmas Rolling_Add_cases = Rolling_Add_fill_ok Rolling_Add_full_ok

lemma Rolling_Add_size: "Rolling_Add D v w = (w', None) \<Longrightarrow> rw_size w' = rw_size w"
  by (auto simp: Rolling_Add_def split: if_splits elim!: Rolling_Add_cases)

text \<open>Every field but the head, buffer, count and size is irrelevant to the contents, so the ring
  arithmetic is done once for both branches.\<close>

lemma ring_inv_fill:
  assumes "Rolling_inv w" "rw_count w < rw_size w"
  shows "Rolling_inv (w\<lparr>rw_count := rw_count w + 1, rw_mean := m, rw_m2 := q,
           rw_buf := (rw_buf w)[rw_head w := v], rw_head := (rw_head w + 1) mod rw_size w, rw_sum := s\<rparr>)"
  using assms by (auto simp: Rolling_inv_def)

lemma ring_inv_full:
  assumes "Rolling_inv w" "\<not> rw_count w < rw_size w"
  shows "Rolling_inv (w\<lparr>rw_mean := m, rw_m2 := q,
           rw_buf := (rw_buf w)[rw_head w := v], rw_head := (rw_head w + 1) mod rw_size w, rw_sum := s\<rparr>)"
  using assms by (auto simp: Rolling_inv_def)

lemma Rolling_Add_inv:
  assumes "Rolling_inv w" "Rolling_Add D v w = (w', None)"
  shows "Rolling_inv w'"
proof (cases "rw_count w < rw_size w")
  case True
  with assms have "Rolling_Add_fill D v w = (w', None)" by (simp add: Rolling_Add_def)
  then show ?thesis by (rule Rolling_Add_fill_ok) (simp only: ring_inv_fill [OF assms(1) True])
next
  case False
  with assms have "Rolling_Add_full D v w = (w', None)" by (simp add: Rolling_Add_def)
  then show ?thesis by (rule Rolling_Add_full_ok) (simp only: ring_inv_full [OF assms(1) False])
qed

lemma length_Rolling_contents: "Rolling_inv w \<Longrightarrow> length (Rolling_contents w) = rw_count w"
  by (auto simp: Rolling_inv_def Rolling_contents_def)

lemma ring_contents_fill:
  assumes "Rolling_inv w" "rw_count w < rw_size w"
  shows "Rolling_contents (w\<lparr>rw_count := rw_count w + 1, rw_mean := m, rw_m2 := q,
           rw_buf := (rw_buf w)[rw_head w := v], rw_head := (rw_head w + 1) mod rw_size w, rw_sum := s\<rparr>)
         = Rolling_contents w @ [v]"
proof (cases "rw_count w + 1 < rw_size w")
  case True
  then show ?thesis
    using assms by (simp add: Rolling_inv_def Rolling_contents_def take_Suc_conv_app_nth)
next
  case False
  then have "rw_count w + 1 = rw_size w" using assms by simp
  then show ?thesis
    using assms take_Suc_conv_app_nth [of "rw_count w" "(rw_buf w)[rw_count w := v]"]
    by (simp add: Rolling_inv_def Rolling_contents_def)
qed

lemma ring_contents_full:
  assumes "Rolling_inv w" "\<not> rw_count w < rw_size w"
  shows "Rolling_contents (w\<lparr>rw_mean := m, rw_m2 := q,
           rw_buf := (rw_buf w)[rw_head w := v], rw_head := (rw_head w + 1) mod rw_size w, rw_sum := s\<rparr>)
         = tl (Rolling_contents w) @ [v]"
proof -
  let ?h = "rw_head w" and ?b = "rw_buf w"
  have h: "?h < length ?b" "length ?b = rw_size w" using assms by (auto simp: Rolling_inv_def)
  have tl: "tl (Rolling_contents w) = drop (Suc ?h) ?b @ take ?h ?b"
    using assms h by (simp add: Rolling_contents_def Cons_nth_drop_Suc [symmetric])
  show ?thesis
  proof (cases "Suc ?h < rw_size w")
    case True
    then show ?thesis
      using assms h tl by (simp add: Rolling_contents_def take_Suc_conv_app_nth)
  next
    case False
    then have "Suc ?h = rw_size w" using h by simp
    then show ?thesis
      using assms h tl take_Suc_conv_app_nth [of ?h "?b[?h := v]"]
      by (simp add: Rolling_contents_def)
  qed
qed

lemma Rolling_contents_hd:
  "Rolling_inv w \<Longrightarrow> \<not> rw_count w < rw_size w \<Longrightarrow>
     Rolling_contents w = (rw_buf w ! rw_head w) # tl (Rolling_contents w)"
  by (simp add: Rolling_contents_def Rolling_inv_def Cons_nth_drop_Suc [symmetric])

lemma Rolling_Add_contents:
  assumes "Rolling_inv w" "Rolling_Add D v w = (w', None)"
  shows "Rolling_contents w' =
    (if rw_count w < rw_size w then Rolling_contents w @ [v] else tl (Rolling_contents w) @ [v])"
proof (cases "rw_count w < rw_size w")
  case True
  with assms have "Rolling_Add_fill D v w = (w', None)" by (simp add: Rolling_Add_def)
  then show ?thesis
    by (rule Rolling_Add_fill_ok) (simp only: ring_contents_fill [OF assms(1) True] True if_True)
next
  case False
  with assms have "Rolling_Add_full D v w = (w', None)" by (simp add: Rolling_Add_def)
  then show ?thesis
    by (rule Rolling_Add_full_ok) (simp only: ring_contents_full [OF assms(1) False] False if_False)
qed

lemma Rolling_Add_last_n:
  assumes "Rolling_inv w" "Rolling_Add D v w = (w', None)"
  shows "Rolling_contents w' = last_n (rw_size w) (Rolling_contents w @ [v])"
proof (cases "rw_count w < rw_size w")
  case True
  then show ?thesis
    using Rolling_Add_contents [OF assms] length_Rolling_contents [OF assms(1)]
    by (simp add: last_n_short)
next
  case False
  moreover have "length (Rolling_contents w) = rw_size w" "0 < rw_size w"
    using False assms(1) length_Rolling_contents [OF assms(1)] by (auto simp: Rolling_inv_def)
  ultimately show ?thesis
    using Rolling_Add_contents [OF assms] by (simp add: last_n_snoc_full)
qed

interpretation rolling: fifo_window "\<lambda>v w. fst (Rolling_Add D v w)"
  "\<lambda>v w. snd (Rolling_Add D v w) = None" Rolling_contents rw_size Rolling_inv
  for D :: "'d decimal_ops"
proof (unfold_locales, goal_cases)
  case (1 w v)
  then show ?case
    using Rolling_Add_last_n [of w D v "fst (Rolling_Add D v w)"] by (simp add: prod_eq_iff)
next
  case (2 w v)
  then show ?case
    using Rolling_Add_size [of D v w "fst (Rolling_Add D v w)"] by (simp add: prod_eq_iff)
next
  case (3 w v)
  then show ?case
    using Rolling_Add_inv [of w D v "fst (Rolling_Add D v w)"] by (simp add: prod_eq_iff)
next
  case (4 w)
  then show ?case by (simp add: length_Rolling_contents) (simp add: Rolling_inv_def)
qed

section \<open>The running sum is exact\<close>

text \<open>Values with at most \<open>s\<close> decimal places and magnitude at most \<open>M\<close> units in the last place.\<close>

definition on_grid :: "('d \<Rightarrow> rat) \<Rightarrow> nat \<Rightarrow> int \<Rightarrow> 'd \<Rightarrow> bool" where
  "on_grid val s M x \<longleftrightarrow> (\<exists>m. \<bar>m\<bar> \<le> M \<and> val x = of_int m / 10 ^ s)"

definition val_sum :: "('d \<Rightarrow> rat) \<Rightarrow> 'd list \<Rightarrow> rat" where
  "val_sum val xs = sum_list (map val xs)"

lemma val_sum_simps [simp]:
  "val_sum val [] = 0" "val_sum val (x # xs) = val x + val_sum val xs"
  "val_sum val (xs @ ys) = val_sum val xs + val_sum val ys"
  by (simp_all add: val_sum_def)

lemma val_sum_grid:
  assumes "\<forall>x\<in>set xs. on_grid val s M x"
  shows "\<exists>m. \<bar>m\<bar> \<le> int (length xs) * M \<and> val_sum val xs = of_int m / 10 ^ s"
  using assms
proof (induction xs)
  case Nil
  show ?case by (rule exI [of _ 0]) simp
next
  case (Cons x xs)
  then obtain m where m: "\<bar>m\<bar> \<le> int (length xs) * M" "val_sum val xs = of_int m / 10 ^ s" by auto
  from Cons.prems obtain k where k: "\<bar>k\<bar> \<le> M" "val x = of_int k / 10 ^ s" by (auto simp: on_grid_def)
  show ?case
    using m k by (intro exI [of _ "k + m"]) (auto simp: add_divide_distrib algebra_simps)
qed

lemma val_sum_representable:
  assumes "\<forall>x\<in>set xs. on_grid val s M x" "int (length xs) * M < 10 ^ 19" "s \<le> 19"
  shows "representable (val_sum val xs)"
  using val_sum_grid [OF assms(1)] assms(2,3) unfolding representable_def by (meson le_less_trans)

lemma Rolling_Add_sum:
  assumes L: "decimal_laws D val rnd" and inv: "Rolling_inv w" and add: "Rolling_Add D v w = (w', None)"
    and grid: "\<forall>x\<in>set (Rolling_contents w @ [v]). on_grid val s M x"
    and bound: "(int (rw_size w) + 1) * M < 10 ^ 19" "s \<le> 19" "0 \<le> M"
    and sum: "val (rw_sum w) = val_sum val (Rolling_contents w)"
  shows "val (rw_sum w') = val_sum val (Rolling_contents w')"
proof -
  let ?xs = "Rolling_contents w"
  have len: "length ?xs \<le> rw_size w"
    using inv length_Rolling_contents [OF inv] by (simp add: Rolling_inv_def)
  have rep: "representable (val_sum val (?xs @ [v]))"
  proof (rule val_sum_representable [OF grid _ bound(2)])
    have "int (length (?xs @ [v])) * M \<le> (int (rw_size w) + 1) * M"
      using len bound(3) by (intro mult_right_mono) auto
    then show "int (length (?xs @ [v])) * M < 10 ^ 19" using bound(1) by linarith
  qed
  have plus: "val r = val_sum val (?xs @ [v])" if "d_add D (rw_sum w) v = (r, None)" for r
    using val_add [OF L that] sum rnd_representable [OF L rep] by simp
  show ?thesis
  proof (cases "rw_count w < rw_size w")
    case True
    with add have "Rolling_Add_fill D v w = (w', None)" by (simp add: Rolling_Add_def)
    then have "d_add D (rw_sum w) v = (rw_sum w', None)" by (rule Rolling_Add_fill_ok) simp
    then show ?thesis using plus Rolling_Add_contents [OF inv add] True by simp
  next
    case False
    let ?o = "rw_buf w ! rw_head w"
    from False add have "Rolling_Add_full D v w = (w', None)" by (simp add: Rolling_Add_def)
    then obtain r where r: "d_add D (rw_sum w) v = (r, None)" "d_sub D r ?o = (rw_sum w', None)"
      by (rule Rolling_Add_full_ok) simp
    have hd: "?xs = ?o # tl ?xs" by (rule Rolling_contents_hd [OF inv False])
    have eq: "val_sum val (?xs @ [v]) - val ?o = val_sum val (tl ?xs @ [v])"
      by (subst hd) simp
    have "representable (val_sum val (tl ?xs @ [v]))"
    proof (rule val_sum_representable [OF _ _ bound(2)])
      show "\<forall>x\<in>set (tl ?xs @ [v]). on_grid val s M x"
        using grid by (cases ?xs) auto
      have "int (length (tl ?xs @ [v])) * M \<le> (int (rw_size w) + 1) * M"
        using len bound(3) by (intro mult_right_mono) auto
      then show "int (length (tl ?xs @ [v])) * M < 10 ^ 19" using bound(1) by linarith
    qed
    then have "rnd (val_sum val (tl ?xs @ [v])) = val_sum val (tl ?xs @ [v])"
      by (rule rnd_representable [OF L])
    moreover have "val (rw_sum w') = rnd (val_sum val (tl ?xs @ [v]))"
      unfolding eq [symmetric] plus [OF r(1), symmetric] by (rule val_sub [OF L r(2)])
    ultimately show ?thesis using Rolling_Add_contents [OF inv add] False by simp
  qed
qed

section \<open>Welford's update in exact arithmetic\<close>

definition val_sqsum :: "('d \<Rightarrow> rat) \<Rightarrow> 'd list \<Rightarrow> rat" where
  "val_sqsum val xs = sum_list (map (\<lambda>x. val x * val x) xs)"

definition sq_dev :: "('d \<Rightarrow> rat) \<Rightarrow> rat \<Rightarrow> 'd list \<Rightarrow> rat" where
  "sq_dev val m xs = sum_list (map (\<lambda>x. (val x - m) * (val x - m)) xs)"

lemma val_sqsum_simps [simp]:
  "val_sqsum val [] = 0" "val_sqsum val (x # xs) = val x * val x + val_sqsum val xs"
  "val_sqsum val (xs @ ys) = val_sqsum val xs + val_sqsum val ys"
  by (simp_all add: val_sqsum_def)

lemma sq_dev_expand:
  "sq_dev val m xs = val_sqsum val xs - 2 * m * val_sum val xs + of_nat (length xs) * m * m"
  by (induction xs) (simp_all add: sq_dev_def algebra_simps)

lemma sq_dev_nonneg: "0 \<le> sq_dev val m xs"
  by (induction xs) (simp_all add: sq_dev_def)

text \<open>The statistics the window keeps, in the division-free form that the updates preserve.\<close>

definition welford :: "('d \<Rightarrow> rat) \<Rightarrow> 'd Rolling \<Rightarrow> bool" where
  "welford val w \<longleftrightarrow>
     val (rw_mean w) * of_nat (rw_count w) = val_sum val (Rolling_contents w) \<and>
     val (rw_m2 w) = val_sqsum val (Rolling_contents w) - val (rw_mean w) * val_sum val (Rolling_contents w)"

lemma welford_m2:
  assumes "welford val w" "length (Rolling_contents w) = rw_count w"
  shows "val (rw_m2 w) = sq_dev val (val (rw_mean w)) (Rolling_contents w)"
proof -
  let ?m = "val (rw_mean w)" and ?xs = "Rolling_contents w"
  have S: "?m * of_nat (rw_count w) = val_sum val ?xs" using assms(1) by (simp add: welford_def)
  have "of_nat (length ?xs) * ?m * ?m = ?m * val_sum val ?xs"
    using assms(2) by (simp add: S [symmetric])
  then show ?thesis using assms(1) by (simp only: sq_dev_expand welford_def)
qed

lemma welford_fill_alg:
  fixes m n S Q v :: rat
  assumes "m * n = S" "m' * (n + 1) = S + v"
  shows "(Q - m * S) + (v - m) * (v - m') = (Q + v * v) - m' * (S + v)"
proof -
  have "m * (S + v) = m * (m' * (n + 1))" by (simp add: assms(2))
  also have "\<dots> = m' * (m * n + m)" by (simp add: algebra_simps)
  finally have "m * (S + v) = m' * (S + m)" by (simp add: assms(1))
  then show ?thesis by (simp add: algebra_simps)
qed

lemma welford_full_alg:
  fixes m n S Q v x :: rat
  assumes "m * n = S" "m' * n = S + v - x"
  shows "(Q - m * S) + (v - x) * ((v - m') + (x - m)) = (Q + v * v - x * x) - m' * (S + v - x)"
proof -
  have "m * (S + v - x) = m * (m' * n)" by (simp add: assms(2))
  also have "\<dots> = m' * (m * n)" by (simp add: algebra_simps)
  finally have "m * (S + v - x) = m' * S" by (simp add: assms(1))
  then show ?thesis by (simp add: algebra_simps)
qed

lemma contents_m2 [simp]: "Rolling_contents (w\<lparr>rw_m2 := q\<rparr>) = Rolling_contents w"
  by (simp add: Rolling_contents_def)

lemma NewRollingWindow_fields:
  "rw_mean (NewRollingWindow D n) = d_zero D" "rw_m2 (NewRollingWindow D n) = d_zero D"
  "rw_sum (NewRollingWindow D n) = d_zero D" "rw_count (NewRollingWindow D n) = 0"
  "rw_size (NewRollingWindow D n) = nat (max 2 n)"
  by (simp_all add: NewRollingWindow_def minWindowSize_def max_def Let_def)

lemma welford_new:
  assumes "decimal_laws D val id"
  shows "welford val (NewRollingWindow D n)"
  using dec_exact(1) [OF assms]
  by (simp add: welford_def NewRollingWindow_contents NewRollingWindow_fields)

lemma welford_Add_fill:
  assumes L: "decimal_laws D val id" and inv: "Rolling_inv w" and add: "Rolling_Add D v w = (w', None)"
    and lt: "rw_count w < rw_size w" and sz: "int64_ok (int (rw_size w))" and st: "welford val w"
  shows "welford val w'"
proof -
  let ?S = "val_sum val (Rolling_contents w)" and ?Q = "val_sqsum val (Rolling_contents w)"
    and ?m = "val (rw_mean w)" and ?n = "of_nat (rw_count w) :: rat"
  from lt add have "Rolling_Add_fill D v w = (w', None)" by (simp add: Rolling_Add_def)
  then obtain delta inc diff p where
    ops: "d_sub D v (rw_mean w) = (delta, None)" "d_quo D delta (d_new D (int (rw_count w + 1))) = (inc, None)"
      "d_add D (rw_mean w) inc = (rw_mean w', None)" "d_sub D v (rw_mean w') = (diff, None)"
      "d_mul D delta diff = (p, None)" "d_add D (rw_m2 w) p = (rw_m2 w', None)"
    and cnt: "rw_count w' = rw_count w + 1"
    by (rule Rolling_Add_fill_ok) simp
  have cont: "Rolling_contents w' = Rolling_contents w @ [v]"
    using Rolling_Add_contents [OF inv add] lt by simp
  have ok: "int64_ok (int (rw_count w + 1))" using lt sz by (simp add: int64_ok_def)
  have n1: "val (d_new D (int (rw_count w + 1))) = ?n + 1" using dec_exact(3) [OF L ok] by simp
  have m': "val (rw_mean w') = ?m + (val v - ?m) / (?n + 1)"
    using val_sub [OF L ops(1)] val_quo [OF L ops(2)] val_add [OF L ops(3)] n1 by simp
  have S: "?m * ?n = ?S" and q: "val (rw_m2 w) = ?Q - ?m * ?S" using st by (simp_all add: welford_def)
  have nz: "?n + 1 \<noteq> 0" using of_nat_0_le_iff [of "rw_count w", where 'a = rat] by linarith
  have S': "val (rw_mean w') * (?n + 1) = ?S + val v"
  proof -
    have "val (rw_mean w') * (?n + 1) = ?m * (?n + 1) + (val v - ?m)"
      unfolding m' distrib_right [of ?m] using nz by simp
    then show ?thesis by (simp add: S [symmetric] ring_distribs)
  qed
  have "val (rw_m2 w') = val (rw_m2 w) + (val v - ?m) * (val v - val (rw_mean w'))"
    using val_sub [OF L ops(1)] val_sub [OF L ops(4)] val_mul [OF L ops(5)] val_add [OF L ops(6)] by simp
  then have "val (rw_m2 w') = (?Q + val v * val v) - val (rw_mean w') * (?S + val v)"
    unfolding q welford_fill_alg [OF S S'] .
  then show ?thesis using S' cnt by (simp add: welford_def cont add.commute)
qed

lemma welford_Add_full:
  assumes L: "decimal_laws D val id" and inv: "Rolling_inv w" and add: "Rolling_Add D v w = (w', None)"
    and ge: "\<not> rw_count w < rw_size w" and sz: "int64_ok (int (rw_size w))" and st: "welford val w"
  shows "welford val w'"
proof -
  let ?S = "val_sum val (Rolling_contents w)" and ?Q = "val_sqsum val (Rolling_contents w)"
    and ?m = "val (rw_mean w)" and ?n = "of_nat (rw_size w) :: rat" and ?o = "rw_buf w ! rw_head w"
  from ge add have "Rolling_Add_full D v w = (w', None)" by (simp add: Rolling_Add_def)
  then obtain diff inc vm om t p q where
    ops: "d_sub D v ?o = (diff, None)" "d_quo D diff (d_new D (int (rw_size w))) = (inc, None)"
      "d_add D (rw_mean w) inc = (rw_mean w', None)" "d_sub D v (rw_mean w') = (vm, None)"
      "d_sub D ?o (rw_mean w) = (om, None)" "d_add D vm om = (t, None)" "d_mul D diff t = (p, None)"
      "d_add D (rw_m2 w) p = (q, None)"
    and m2: "rw_m2 w' = (if d_IsNeg D q then d_zero D else q)" and cnt: "rw_count w' = rw_count w"
    by (rule Rolling_Add_full_ok) simp
  have eqn: "rw_count w = rw_size w" "0 < rw_size w" using inv ge by (simp_all add: Rolling_inv_def)
  let ?xs = "Rolling_contents w"
  have hd: "?xs = ?o # tl ?xs" by (rule Rolling_contents_hd [OF inv ge])
  have cont: "Rolling_contents w' = tl ?xs @ [v]" using Rolling_Add_contents [OF inv add] ge by simp
  have S1: "val_sum val (Rolling_contents w') = ?S + val v - val ?o"
    unfolding cont by (subst (2) hd) simp
  have Q1: "val_sqsum val (Rolling_contents w') = ?Q + val v * val v - val ?o * val ?o"
    unfolding cont by (subst (2) hd) simp
  have S: "?m * ?n = ?S" and qq: "val (rw_m2 w) = ?Q - ?m * ?S" using st eqn by (simp_all add: welford_def)
  have m': "val (rw_mean w') = ?m + (val v - val ?o) / ?n"
    using val_sub [OF L ops(1)] val_quo [OF L ops(2)] val_add [OF L ops(3)] dec_exact(3) [OF L sz] by simp
  have S': "val (rw_mean w') * ?n = ?S + val v - val ?o"
  proof -
    have "val (rw_mean w') * ?n = ?m * ?n + (val v - val ?o)"
      unfolding m' distrib_right [of ?m] using eqn by simp
    then show ?thesis by (simp add: S)
  qed
  have "val q = val (rw_m2 w) + (val v - val ?o) * ((val v - val (rw_mean w')) + (val ?o - ?m))"
    using val_sub [OF L ops(1)] val_sub [OF L ops(4)] val_sub [OF L ops(5)] val_add [OF L ops(6)]
      val_mul [OF L ops(7)] val_add [OF L ops(8)] by simp
  then have vq: "val q = val_sqsum val (Rolling_contents w') - val (rw_mean w') * val_sum val (Rolling_contents w')"
    unfolding qq welford_full_alg [OF S S'] S1 Q1 .
  have st': "welford val (w'\<lparr>rw_m2 := q\<rparr>)"
    using vq S' S1 cnt eqn by (simp add: welford_def)
  have inv': "Rolling_inv w'" by (rule Rolling_Add_inv [OF inv add])
  have "0 \<le> val q"
    using welford_m2 [OF st'] length_Rolling_contents [OF inv'] sq_dev_nonneg by simp
  then have "rw_m2 w' = q" using m2 dec_exact(11) [OF L] by simp
  then show ?thesis using st' unfolding welford_def by simp
qed

lemma welford_Add:
  assumes "decimal_laws D val id" "Rolling_inv w" "Rolling_Add D v w = (w', None)"
    "int64_ok (int (rw_size w))" "welford val w"
  shows "welford val w'"
  by (cases "rw_count w < rw_size w")
    (rule welford_Add_fill [OF assms(1-3) _ assms(4,5)] welford_Add_full [OF assms(1-3) _ assms(4,5)];
      assumption)+

section \<open>Feeding a window\<close>

lemma Rolling_feed_fold:
  "Rolling_feed D vs w = Inr w' \<Longrightarrow>
     rolling.all_ok D vs w \<and> w' = fold (\<lambda>v w. fst (Rolling_Add D v w)) vs w"
  by (induction vs arbitrary: w) (auto split: prod.splits option.splits)

lemma Rolling_feed_inv: "Rolling_inv w \<Longrightarrow> Rolling_feed D vs w = Inr w' \<Longrightarrow> Rolling_inv w' \<and> rw_size w' = rw_size w"
  using Rolling_feed_fold [of D vs w w'] rolling.inv_fold [of w D vs] by simp

lemma Rolling_feed_contents:
  "Rolling_inv w \<Longrightarrow> Rolling_feed D vs w = Inr w' \<Longrightarrow>
     Rolling_contents w' = last_n (rw_size w) (Rolling_contents w @ vs)"
  using Rolling_feed_fold [of D vs w w'] rolling.contents_fold [of w D vs] by simp

lemma Rolling_feed_Cons_ok:
  assumes "Rolling_feed D (v # vs) w = Inr w'"
  obtains w1 where "Rolling_Add D v w = (w1, None)" "Rolling_feed D vs w1 = Inr w'"
  using assms by (auto split: prod.splits option.splits)

lemma Rolling_feed_welford:
  assumes "decimal_laws D val id"
  shows "Rolling_inv w \<Longrightarrow> int64_ok (int (rw_size w)) \<Longrightarrow> welford val w \<Longrightarrow>
     Rolling_feed D vs w = Inr w' \<Longrightarrow> welford val w'"
proof (induction vs arbitrary: w)
  case Nil
  then show ?case by simp
next
  case (Cons v vs)
  from Cons.prems(4) obtain w1 where w1: "Rolling_Add D v w = (w1, None)" "Rolling_feed D vs w1 = Inr w'"
    by (rule Rolling_feed_Cons_ok)
  show ?case
    using Cons.prems w1 Rolling_Add_size [OF w1(1)]
    by (intro Cons.IH [OF Rolling_Add_inv [OF _ w1(1)] _ welford_Add [OF assms _ w1(1)] w1(2)]) simp_all
qed

lemma Rolling_feed_sum:
  assumes L: "decimal_laws D val rnd" and M: "(int (rw_size w) + 1) * M < 10 ^ 19" "s \<le> 19" "0 \<le> M"
  shows "Rolling_inv w \<Longrightarrow> \<forall>x\<in>set (Rolling_contents w @ vs). on_grid val s M x \<Longrightarrow>
     val (rw_sum w) = val_sum val (Rolling_contents w) \<Longrightarrow> Rolling_feed D vs w = Inr w' \<Longrightarrow>
     val (rw_sum w') = val_sum val (Rolling_contents w')"
  using M(1)
proof (induction vs arbitrary: w)
  case Nil
  then show ?case by simp
next
  case (Cons v vs)
  from Cons.prems(4) obtain w1 where w1: "Rolling_Add D v w = (w1, None)" "Rolling_feed D vs w1 = Inr w'"
    by (rule Rolling_feed_Cons_ok)
  note inv = Cons.prems(1)
  have g: "\<forall>x\<in>set (Rolling_contents w1 @ vs). on_grid val s M x"
    using Cons.prems(2) Rolling_Add_contents [OF inv w1(1)]
    by (cases "Rolling_contents w") (auto split: if_splits)
  show ?case
  proof (rule Cons.IH [OF Rolling_Add_inv [OF inv w1(1)] g _ w1(2)])
    show "val (rw_sum w1) = val_sum val (Rolling_contents w1)"
      by (rule Rolling_Add_sum [OF L inv w1(1) _ Cons.prems(5) M(2,3) Cons.prems(3)])
        (use Cons.prems(2) in auto)
    show "(int (rw_size w1) + 1) * M < 10 ^ 19" using Cons.prems(5) Rolling_Add_size [OF w1(1)] by simp
  qed
qed

section \<open>What the window promises\<close>

lemmas Rolling_eval = Rolling_Add_def Rolling_Add_fill_def Rolling_Add_full_def NewRollingWindow_def
  minWindowSize_def rat_ops_def Let_def

lemma Rolling_feed_example:
  "Rolling_feed rat_ops [1, 2, 6] (NewRollingWindow rat_ops 2) =
     Inr \<lparr>rw_size = 2, rw_buf = [6, 2], rw_head = 1, rw_count = 2, rw_mean = 4, rw_m2 = 8, rw_sum = 8\<rparr>"
  by (simp add: Rolling_eval numeral_2_eq_2)

text \<open>A rolling window that has accepted the values \<open>vs\<close> holds exactly the most recent
  \<open>max 2 n\<close> of them, oldest first, and reports \<open>Ready\<close> exactly when that many have arrived.\<close>

theorem rolling_window_most_recent:
  assumes "Rolling_feed D vs (NewRollingWindow D n) = Inr w"
  shows "Rolling_contents w = last_n (nat (max 2 n)) vs \<and>
    (Rolling_Ready w \<longleftrightarrow> nat (max 2 n) \<le> length vs)"
proof -
  have c: "Rolling_contents w = last_n (nat (max 2 n)) vs"
    using Rolling_feed_contents [OF NewRollingWindow_inv assms]
    by (simp add: NewRollingWindow_contents NewRollingWindow_fields)
  have w: "Rolling_inv w" "rw_size w = nat (max 2 n)"
    using Rolling_feed_inv [OF NewRollingWindow_inv assms] by (simp_all add: NewRollingWindow_fields)
  then have "rw_count w = min (nat (max 2 n)) (length vs)"
    using length_Rolling_contents [of w] c by (simp add: length_last_n)
  with c w show ?thesis by (simp add: Rolling_Ready_def min_def)
qed

theorem rolling_window_most_recent_witness:
  "\<exists>w. Rolling_feed rat_ops [1, 2, 6] (NewRollingWindow rat_ops 2) = Inr w \<and>
     Rolling_contents w = [2, 6] \<and> Rolling_Ready w"
  using rolling_window_most_recent [OF Rolling_feed_example] Rolling_feed_example
  by (simp add: last_n_def)

text \<open>\<open>Sum\<close> is the exact total of the values in the window: for values with at most \<open>s\<close> decimal
  places whose magnitude leaves room for one more than a full window, no rounding error enters the
  incrementally maintained sum, however many values have passed through.\<close>

theorem rolling_sum_exact:
  assumes L: "decimal_laws D val rnd"
    and "Rolling_feed D vs (NewRollingWindow D n) = Inr w"
    and "\<forall>x\<in>set vs. on_grid val s M x" "s \<le> 19" "0 \<le> M" "(max 2 n + 1) * M < 10 ^ 19"
  shows "val (Rolling_Sum w) = val_sum val (Rolling_contents w)"
proof -
  have pos: "0 \<le> max 2 n" by simp
  have "val (rw_sum w) = val_sum val (Rolling_contents w)"
    by (rule Rolling_feed_sum [OF L _ assms(4,5) NewRollingWindow_inv _ _ assms(2)])
      (use assms(3,6) dec_exact(1) [OF L] pos in \<open>simp_all add: NewRollingWindow_fields NewRollingWindow_contents\<close>)
  then show ?thesis by (simp add: Rolling_Sum_def)
qed

theorem rolling_sum_exact_witness:
  "decimal_laws rat_ops id id \<and>
   (\<exists>w. Rolling_feed rat_ops [1, 2, 6] (NewRollingWindow rat_ops 2) = Inr w \<and>
      Rolling_Sum w = val_sum id (Rolling_contents w))"
proof -
  have g: "\<forall>x\<in>set [1, 2, 6 :: rat]. on_grid id 0 6 x"
    unfolding on_grid_def by (auto intro: exI [of _ 1] exI [of _ 2] exI [of _ 6])
  show ?thesis
    using rolling_sum_exact [OF rat_ops_laws Rolling_feed_example g] rat_ops_laws Rolling_feed_example
    by simp
qed

text \<open>C35: With exact arithmetic the incremental update is Welford's: after any accepted sequence the
  mean is the average of the window's values and \<open>m2\<close> their sum of squared deviations, so the
  guard against a negative \<open>m2\<close> never fires for an algebraic reason.\<close>

theorem rolling_welford_correct:
  assumes L: "decimal_laws D val id" and n: "int64_ok n"
    and F: "Rolling_feed D vs (NewRollingWindow D n) = Inr w"
  shows "val (Rolling_Mean w) * of_nat (length (Rolling_contents w)) = val_sum val (Rolling_contents w) \<and>
    val (rw_m2 w) = sq_dev val (val (Rolling_Mean w)) (Rolling_contents w)"
proof -
  have inv: "Rolling_inv w" using Rolling_feed_inv [OF NewRollingWindow_inv F] by simp
  have "int64_ok (int (rw_size (NewRollingWindow D n)))"
    using n by (simp add: NewRollingWindow_fields int64_ok_def)
  then have st: "welford val w"
    by (rule Rolling_feed_welford [OF L NewRollingWindow_inv _ welford_new [OF L] F])
  show ?thesis
    using st welford_m2 [OF st] length_Rolling_contents [OF inv] by (simp add: Rolling_Mean_def welford_def)
qed

theorem rolling_welford_correct_witness:
  "decimal_laws rat_ops id id \<and>
   (\<exists>w. Rolling_feed rat_ops [1, 2, 6] (NewRollingWindow rat_ops 2) = Inr w \<and>
      Rolling_Mean w = 4 \<and> rw_m2 w = sq_dev id 4 (Rolling_contents w))"
proof -
  have ok: "int64_ok 2" by (simp add: int64_ok_def)
  show ?thesis
    using rolling_welford_correct [OF rat_ops_laws ok Rolling_feed_example] rat_ops_laws Rolling_feed_example
    by (simp add: Rolling_Mean_def)
qed

end
