(* ===== verification/Exec_Model.thy ===== *)
theory Exec_Model
  imports Decision_Model Rolling_Window
begin

text \<open>
  The shared executor of the execution strategies, \<open>src/strategy/exec/exec.go\<close>: order entries, the
  persisted run state and its view interface, and the operations that place orders, apply order
  updates, reconcile and import orders after a restart, record decisions and checkpoint state.

  \<^item> \<open>RunStateView\<close> is the Go interface as a record of functions; \<open>ForEachOrders\<close> is represented
    by the list of entries it visits. \<open>RunState_view\<close> is the implementation by \<open>RunState\<close>.
  \<^item> The exchange client, the stores and the clock answer through \<open>ExecEnv\<close>; what the executor asks
    of them is returned as a list of effects, in the order of the calls.
  \<^item> \<open>encoding/json\<close> on the run state goes through the decimal package's own encoding, so marshalling
    is a parameter of the view.
\<close>

section \<open>Statuses, entries and run state\<close>

definition IsTerminal :: "string \<Rightarrow> bool" where
  "IsTerminal status \<longleftrightarrow> status = ''FILLED'' \<or> status = ''CANCELLED''"

definition OrderStatusOpen :: string where
  "OrderStatusOpen = ''OPEN''"

definition DoraclientSide :: "Signal \<Rightarrow> Side" where
  "DoraclientSide signal = (if signal = SignalSell then SIDE_SELL else SIDE_BUY)"

record 'd OrderEntry =
  oe_OrderID :: string
  oe_ClientOrderID :: string
  oe_Requested :: 'd
  oe_Filled :: 'd
  oe_Status :: string

record 'd OrderFillEvent =
  ev_ClientOrderID :: string
  ev_Status :: string
  ev_Filled :: 'd

record 'd RunState =
  TotalFilled :: 'd
  TotalSubmitted :: 'd
  ChunksProcessed :: int
  Orders :: "'d OrderEntry list"
  Buckets :: "'d list"

definition RunState_zero :: "'d decimal_ops \<Rightarrow> 'd RunState" where
  "RunState_zero D = \<lparr>TotalFilled = d_zero D, TotalSubmitted = d_zero D, ChunksProcessed = 0,
     Orders = [], Buckets = []\<rparr>"

section \<open>The view interface and its implementation\<close>

record ('s, 'd) RunStateView =
  v_AppendOrder :: "'d OrderEntry \<Rightarrow> 's \<Rightarrow> 's \<times> int"
  v_FindOrderByClientID :: "string \<Rightarrow> 's \<Rightarrow> 'd OrderEntry option"
  v_SetOrder :: "int \<Rightarrow> 'd \<Rightarrow> string \<Rightarrow> 's \<Rightarrow> 's"
  v_AddTotalSubmitted :: "'d \<Rightarrow> 's \<Rightarrow> 's"
  v_AddTotalFilled :: "'d \<Rightarrow> 's \<Rightarrow> 's"
  v_ForEachOrders :: "'s \<Rightarrow> 'd OrderEntry list"
  v_Marshal :: "'s \<Rightarrow> string gopair"

definition AppendOrder :: "'d OrderEntry \<Rightarrow> 'd RunState \<Rightarrow> 'd RunState \<times> int" where
  "AppendOrder e s = (s\<lparr>Orders := Orders s @ [e]\<rparr>, int (length (Orders s @ [e])) - 1)"

fun find_client :: "string \<Rightarrow> 'd OrderEntry list \<Rightarrow> 'd OrderEntry option" where
  "find_client c [] = None"
| "find_client c (e # es) = (if oe_ClientOrderID e = c then Some e else find_client c es)"

definition FindOrderByClientID :: "string \<Rightarrow> 'd RunState \<Rightarrow> 'd OrderEntry option" where
  "FindOrderByClientID c s = find_client c (Orders s)"

definition SetOrder :: "int \<Rightarrow> 'd \<Rightarrow> string \<Rightarrow> 'd RunState \<Rightarrow> 'd RunState" where
  "SetOrder idx filledQty status s =
     (if idx < 0 \<or> int (length (Orders s)) \<le> idx then s
      else s\<lparr>Orders := (Orders s)[nat idx := (Orders s ! nat idx)\<lparr>oe_Filled := filledQty, oe_Status := status\<rparr>]\<rparr>)"

definition AddTotalSubmitted :: "'d decimal_ops \<Rightarrow> 'd \<Rightarrow> 'd RunState \<Rightarrow> 'd RunState" where
  "AddTotalSubmitted D d s = s\<lparr>TotalSubmitted := fst (d_add D (TotalSubmitted s) d)\<rparr>"

definition AddTotalFilled :: "'d decimal_ops \<Rightarrow> 'd \<Rightarrow> 'd RunState \<Rightarrow> 'd RunState" where
  "AddTotalFilled D d s = s\<lparr>TotalFilled := fst (d_add D (TotalFilled s) d)\<rparr>"

definition RunState_view ::
  "'d decimal_ops \<Rightarrow> ('d RunState \<Rightarrow> string gopair) \<Rightarrow> ('d RunState, 'd) RunStateView" where
  "RunState_view D marshal = \<lparr>v_AppendOrder = AppendOrder, v_FindOrderByClientID = FindOrderByClientID,
     v_SetOrder = SetOrder, v_AddTotalSubmitted = AddTotalSubmitted D, v_AddTotalFilled = AddTotalFilled D,
     v_ForEachOrders = Orders, v_Marshal = marshal\<rparr>"

text \<open>The three \<open>UnmarshalState\<close> functions (executor, TWAP, VWAP) are the same.\<close>

definition UnmarshalState ::
  "'d decimal_ops \<Rightarrow> (string \<Rightarrow> 'd RunState gopair) \<Rightarrow> string \<Rightarrow> 'd RunState res" where
  "UnmarshalState D unmarshal raw = (if raw = [] then Inr (RunState_zero D) else tryv (unmarshal raw))"

section \<open>The executor\<close>

record Executor =
  ex_Name :: string
  ex_RunID :: string
  ex_Market :: bool
  ex_Records :: bool
  ex_Store :: bool

record DoraOrder =
  do_OrderId :: string
  do_ClientOrderId :: "string option"
  do_OriginalQuantity :: string
  do_Status :: string

record 'd ExecEnv =
  env_CreateMarketOrder :: "'d OrderRequest \<Rightarrow> string gopair"
  env_GetOrderFilledStatus :: "string \<Rightarrow> (string \<times> 'd) gopair"
  env_ListOrders :: "string \<Rightarrow> DoraOrder list gopair"
  env_SaveState :: "string \<Rightarrow> gerror option"
  env_LoadState :: "string gopair"
  env_SaveDecision :: "'d DecisionRow \<Rightarrow> gerror option"
  env_NewV7 :: string
  env_ParseUUID :: "string \<Rightarrow> string gopair"
  env_Now :: gtime

datatype 'd Effect =
    EOrder "'d OrderRequest" "string gopair"
  | EState string "gerror option"
  | EDecision "'d DecisionRow" "gerror option"

definition SaveState ::
  "('s, 'd) RunStateView \<Rightarrow> 'd ExecEnv \<Rightarrow> Executor \<Rightarrow> 's \<Rightarrow> 'd Effect list" where
  "SaveState V E e state =
     (if \<not> ex_Store e then []
      else case v_Marshal V state of
          (raw, Some err) \<Rightarrow> []
        | (raw, None) \<Rightarrow> [EState raw (env_SaveState E raw)])"

definition LoadState :: "'d ExecEnv \<Rightarrow> Executor \<Rightarrow> string res" where
  "LoadState E e = (if \<not> ex_Store e then Inr [] else tryv (env_LoadState E))"

definition PlaceOrder ::
  "('s, 'd) RunStateView \<Rightarrow> 'd decimal_ops \<Rightarrow> 'd ExecEnv \<Rightarrow> Executor \<Rightarrow> 's \<Rightarrow> string \<Rightarrow> Signal \<Rightarrow> 'd \<Rightarrow>
     's \<times> (string \<times> string) res \<times> 'd Effect list" where
  "PlaceOrder V D E e state bondID signal quantity =
     (let clientOrderID = BuildClientOrderID (ex_Name e) (ex_RunID e) (env_NewV7 E);
          req = \<lparr>oreq_Book = bondID, oreq_Side = DoraclientSide signal, oreq_Quantity = quantity,
                 oreq_InverseLeverage = d_one D, oreq_FromGlobal = False,
                 oreq_ClientOrderID = clientOrderID\<rparr>;
          resp = env_CreateMarketOrder E req;
          eff = [EOrder req resp]
      in case resp of
           (orderID, Some err) \<Rightarrow> (state, Inl err, eff)
         | (orderID, None) \<Rightarrow>
             if orderID = [] then (state, Inl ''dora returned empty order id'', eff)
             else
               let state = fst (v_AppendOrder V \<lparr>oe_OrderID = orderID, oe_ClientOrderID = clientOrderID,
                     oe_Requested = quantity, oe_Filled = d_zero D, oe_Status = OrderStatusOpen\<rparr> state);
                   state = v_AddTotalSubmitted V quantity state
               in (state, Inr (orderID, clientOrderID), eff))"

text \<open>The scan of \<open>ProcessOrderUpdate\<close> keeps the last entry with the client identifier: previous
  fill, whether it was terminal, and its index (\<open>-1\<close> when there is none).\<close>

fun scan_orders :: "string \<Rightarrow> 'd OrderEntry list \<Rightarrow> int \<Rightarrow> 'd \<times> bool \<times> int \<Rightarrow> 'd \<times> bool \<times> int" where
  "scan_orders c [] i acc = acc"
| "scan_orders c (e # es) i acc =
     scan_orders c es (i + 1)
       (if oe_ClientOrderID e = c then (oe_Filled e, IsTerminal (oe_Status e), i) else acc)"

text \<open>How a terminal status enters the running total: the full fill on the transition, the growth
  afterwards. Shared by the update and the reconcile paths.\<close>

definition settle ::
  "('s, 'd) RunStateView \<Rightarrow> 'd decimal_ops \<Rightarrow> bool \<Rightarrow> 'd \<Rightarrow> 'd \<Rightarrow> 's \<Rightarrow> 's" where
  "settle V D wasTerminal prevFilled filled state =
     (if \<not> wasTerminal then v_AddTotalFilled V filled state
      else let delta = fst (d_sub D filled prevFilled)
           in if d_Sign D delta > 0 then v_AddTotalFilled V delta state else state)"

definition ProcessOrderUpdate ::
  "('s, 'd) RunStateView \<Rightarrow> 'd decimal_ops \<Rightarrow> 'd ExecEnv \<Rightarrow> Executor \<Rightarrow> 's \<Rightarrow> 'd OrderFillEvent \<Rightarrow>
     's \<times> 'd Effect list" where
  "ProcessOrderUpdate V D E e state evt =
     (case v_FindOrderByClientID V (ev_ClientOrderID evt) state of
        None \<Rightarrow> (state, [])
      | Some _ \<Rightarrow>
          (case scan_orders (ev_ClientOrderID evt) (v_ForEachOrders V state) 0 (d_zero D, False, -1) of
             (prevFilled, wasTerminal, idx) \<Rightarrow>
               if idx = -1 then (state, [])
               else
                 let state = v_SetOrder V idx (ev_Filled evt) (ev_Status evt) state;
                     state = (if IsTerminal (ev_Status evt)
                              then settle V D wasTerminal prevFilled (ev_Filled evt) state
                              else state)
                 in (state, SaveState V E e state)))"

definition RecordDecision ::
  "'d decimal_ops \<Rightarrow> 'd ExecEnv \<Rightarrow> Executor \<Rightarrow> Signal \<Rightarrow> string \<Rightarrow> 'd \<Rightarrow> string \<Rightarrow> gtime \<Rightarrow> int \<Rightarrow>
     'd Effect list" where
  "RecordDecision D E e signal bondID quantity clientOrderID atTime seq =
     (if \<not> ex_Records e then []
      else let d = \<lparr>dr_RunID = ex_RunID e, dr_Seq = seq, dr_StrategyType = ex_Name e,
             dr_OrderBookID = MustParseUUID (env_ParseUUID E) bondID,
             dr_Asset = MustParseUUID (env_ParseUUID E) bondID,
             dr_Side = Signal_String signal, dr_Signal = Signal_String signal,
             dr_Quantity = quantity, dr_Price = d_zero D, dr_Leverage = d_zero D,
             dr_InverseLeverage = d_zero D, dr_FromGlobal = False, dr_Kind = DecisionKindOpen,
             dr_Reason = ex_Name e @ ''_execution'', dr_ReasonDetail = [], dr_CreatedAt = atTime,
             dr_ClientOrderID = clientOrderID\<rparr>
           in [EDecision d (env_SaveDecision E d)])"

text \<open>One callback of \<open>ReconcilePendingOrders\<close>, for the entry \<open>o\<close> visited at index \<open>i\<close>.\<close>

definition reconcile_one ::
  "('s, 'd) RunStateView \<Rightarrow> 'd decimal_ops \<Rightarrow> 'd ExecEnv \<Rightarrow> nat \<times> 'd OrderEntry \<Rightarrow> 's \<Rightarrow> 's" where
  "reconcile_one V D E io state =
     (case io of (i, ent) \<Rightarrow>
        if IsTerminal (oe_Status ent) then state
        else case env_GetOrderFilledStatus E (oe_OrderID ent) of
            (r, Some err) \<Rightarrow> state
          | ((status, filledQty), None) \<Rightarrow>
              let (prevFilled, wasTerminal) =
                    (if i < length (v_ForEachOrders V state)
                     then (oe_Filled (v_ForEachOrders V state ! i),
                           IsTerminal (oe_Status (v_ForEachOrders V state ! i)))
                     else (d_zero D, False));
                  state = v_SetOrder V (int i) filledQty status state
              in if IsTerminal status then settle V D wasTerminal prevFilled filledQty state else state)"

definition ReconcilePendingOrders ::
  "('s, 'd) RunStateView \<Rightarrow> 'd decimal_ops \<Rightarrow> 'd ExecEnv \<Rightarrow> Executor \<Rightarrow> 's \<Rightarrow> 's \<times> 'd Effect list" where
  "ReconcilePendingOrders V D E e state =
     (if \<not> ex_Market e then (state, [])
      else let state = fold (reconcile_one V D E) (enumerate 0 (v_ForEachOrders V state)) state
           in (state, SaveState V E e state))"

text \<open>One iteration of the import loop: the state and the number of orders imported so far.\<close>

definition import_one ::
  "('s, 'd) RunStateView \<Rightarrow> 'd decimal_ops \<Rightarrow> DoraOrder \<Rightarrow> 's \<times> nat \<Rightarrow> 's \<times> nat" where
  "import_one V D ord st =
     (case st of (state, imported) \<Rightarrow>
        let clientID = (case do_ClientOrderId ord of None \<Rightarrow> [] | Some c \<Rightarrow> c)
        in if clientID = [] then (state, imported)
           else case v_FindOrderByClientID V clientID state of
               Some _ \<Rightarrow> (state, imported)
             | None \<Rightarrow>
                 (case d_parse D (do_OriginalQuantity ord) of
                    (reqQty, Some perr) \<Rightarrow> (state, imported)
                  | (reqQty, None) \<Rightarrow>
                      (v_AddTotalSubmitted V reqQty
                         (fst (v_AppendOrder V \<lparr>oe_OrderID = do_OrderId ord, oe_ClientOrderID = clientID,
                            oe_Requested = reqQty, oe_Filled = d_zero D, oe_Status = do_Status ord\<rparr> state)),
                       imported + 1)))"

definition ImportOrphanedOrders ::
  "('s, 'd) RunStateView \<Rightarrow> 'd decimal_ops \<Rightarrow> 'd ExecEnv \<Rightarrow> Executor \<Rightarrow> 's \<Rightarrow> string \<Rightarrow>
     's \<times> 'd Effect list" where
  "ImportOrphanedOrders V D E e state prefix =
     (if \<not> ex_Market e \<or> prefix = [] then (state, [])
      else case env_ListOrders E prefix of
          (orders, Some err) \<Rightarrow> (state, [])
        | (orders, None) \<Rightarrow>
            if orders = [] then (state, [])
            else case fold (import_one V D) orders (state, 0) of
                (state', imported) \<Rightarrow>
                  (state', if 0 < imported then SaveState V E e state' else []))"

section \<open>Settled quantity\<close>

text \<open>What the running total of fills should be: the fills of the orders in a terminal status.\<close>

definition settled :: "('d \<Rightarrow> rat) \<Rightarrow> 'd OrderEntry list \<Rightarrow> rat" where
  "settled val es = val_sum val (map oe_Filled (filter (\<lambda>e. IsTerminal (oe_Status e)) es))"

definition fills_on_grid :: "('d \<Rightarrow> rat) \<Rightarrow> nat \<Rightarrow> int \<Rightarrow> 'd OrderEntry list \<Rightarrow> bool" where
  "fills_on_grid val g M es \<longleftrightarrow> (\<forall>e\<in>set es. on_grid val g M (oe_Filled e))"

definition client_ids :: "'d OrderEntry list \<Rightarrow> string list" where
  "client_ids es = map oe_ClientOrderID es"

text \<open>An update respects settlement when it does not take an order back out of a terminal status
  and does not lower a settled fill.\<close>

definition update_ok :: "('d \<Rightarrow> rat) \<Rightarrow> 'd OrderEntry list \<Rightarrow> 'd OrderFillEvent \<Rightarrow> bool" where
  "update_ok val es evt \<longleftrightarrow>
     (\<forall>e\<in>set es. oe_ClientOrderID e = ev_ClientOrderID evt \<longrightarrow> IsTerminal (oe_Status e) \<longrightarrow>
        IsTerminal (ev_Status evt) \<and> val (oe_Filled e) \<le> val (ev_Filled evt))"

definition set_entry :: "'d \<Rightarrow> string \<Rightarrow> nat \<Rightarrow> 'd OrderEntry list \<Rightarrow> 'd OrderEntry list" where
  "set_entry q st i es = es[i := (es ! i)\<lparr>oe_Filled := q, oe_Status := st\<rparr>]"

lemma settled_sum_list:
  "settled val es = sum_list (map (\<lambda>e. if IsTerminal (oe_Status e) then val (oe_Filled e) else 0) es)"
  by (induction es) (simp_all add: settled_def)

lemma settled_append: "settled val (es @ fs) = settled val es + settled val fs"
  by (simp add: settled_def)

lemma settled_set_entry:
  "i < length es \<Longrightarrow> settled val (set_entry q st i es) =
     settled val es - (if IsTerminal (oe_Status (es ! i)) then val (oe_Filled (es ! i)) else 0)
       + (if IsTerminal st then val q else 0)"
  by (simp add: settled_sum_list set_entry_def sum_list_map_update)

lemma length_set_entry [simp]: "length (set_entry q st i es) = length es"
  by (simp add: set_entry_def)

lemma client_ids_set_entry [simp]: "i < length es \<Longrightarrow> client_ids (set_entry q st i es) = client_ids es"
  by (simp add: client_ids_def set_entry_def map_update list_update_same_conv)

lemma fills_on_grid_set_entry:
  "fills_on_grid val g M es \<Longrightarrow> on_grid val g M q \<Longrightarrow> fills_on_grid val g M (set_entry q st i es)"
  unfolding fills_on_grid_def set_entry_def
  by (auto dest!: subsetD [OF set_update_subset_insert])

lemma settled_representable:
  assumes "fills_on_grid val g M es" "int (length es) * M < 10 ^ 19" "g \<le> 19" "0 \<le> M"
  shows "representable (settled val es)"
  unfolding settled_def
proof (rule val_sum_representable)
  let ?fs = "map oe_Filled (filter (\<lambda>e. IsTerminal (oe_Status e)) es)"
  show "\<forall>x\<in>set ?fs. on_grid val g M x" using assms(1) by (auto simp: fills_on_grid_def)
  have "int (length ?fs) * M \<le> int (length es) * M" using assms(4) by (intro mult_right_mono) simp_all
  then show "int (length ?fs) * M < 10 ^ 19" using assms(2) by linarith
qed (rule assms(3))

lemma grid_diff_representable:
  assumes "on_grid val g M x" "on_grid val g M y" "2 * M < 10 ^ 19" "g \<le> 19"
  shows "representable (val x - val y)"
proof -
  obtain a b where ab: "\<bar>a\<bar> \<le> M" "val x = of_int a / 10 ^ g" "\<bar>b\<bar> \<le> M" "val y = of_int b / 10 ^ g"
    using assms(1,2) by (auto simp: on_grid_def)
  have "\<bar>a - b\<bar> < 10 ^ 19" using ab(1,3) assms(3) by linarith
  moreover have "val x - val y = of_int (a - b) / 10 ^ g" using ab by (simp add: diff_divide_distrib)
  ultimately show ?thesis using assms(4) unfolding representable_def by blast
qed

lemma fst_add_exact:
  "decimal_laws D val rnd \<Longrightarrow> representable (val a + val b) \<Longrightarrow> val (fst (d_add D a b)) = val a + val b"
  using add_exact by fastforce

lemma fst_sub_exact:
  "decimal_laws D val rnd \<Longrightarrow> representable (val a - val b) \<Longrightarrow> val (fst (d_sub D a b)) = val a - val b"
  using sub_exact by fastforce

section \<open>Scanning and finding\<close>

lemma find_client_None: "find_client c es = None \<longleftrightarrow> c \<notin> set (client_ids es)"
  by (induction es) (auto simp: client_ids_def)

lemma scan_orders_none: "c \<notin> set (client_ids es) \<Longrightarrow> scan_orders c es i acc = acc"
  by (induction es arbitrary: i acc) (auto simp: client_ids_def)

lemma scan_orders_at:
  "distinct (client_ids es) \<Longrightarrow> k < length es \<Longrightarrow> oe_ClientOrderID (es ! k) = c \<Longrightarrow>
     scan_orders c es i acc = (oe_Filled (es ! k), IsTerminal (oe_Status (es ! k)), i + int k)"
proof (induction es arbitrary: i k acc)
  case Nil
  then show ?case by simp
next
  case (Cons e es)
  show ?case
  proof (cases k)
    case 0
    with Cons.prems have "c \<notin> set (client_ids es)" by (auto simp: client_ids_def)
    with 0 Cons.prems show ?thesis by (simp add: scan_orders_none)
  next
    case (Suc j)
    with Cons.prems have "oe_ClientOrderID e \<noteq> c" by (auto simp: client_ids_def)
    with Suc Cons.prems Cons.IH [of j] show ?thesis by (simp add: client_ids_def)
  qed
qed

section \<open>The contract of a run-state view\<close>

locale run_state_view =
  fixes D :: "'d decimal_ops"
    and V :: "('s, 'd) RunStateView"
    and filled :: "'s \<Rightarrow> 'd"
    and submitted :: "'s \<Rightarrow> 'd"
  assumes append_orders: "v_ForEachOrders V (fst (v_AppendOrder V ent s)) = v_ForEachOrders V s @ [ent]"
    and append_totals: "filled (fst (v_AppendOrder V ent s)) = filled s"
      "submitted (fst (v_AppendOrder V ent s)) = submitted s"
    and find_order: "v_FindOrderByClientID V c s = find_client c (v_ForEachOrders V s)"
    and set_order: "i < length (v_ForEachOrders V s) \<Longrightarrow>
      v_ForEachOrders V (v_SetOrder V (int i) q st s) = set_entry q st i (v_ForEachOrders V s)"
    and set_totals: "filled (v_SetOrder V j q st s) = filled s"
      "submitted (v_SetOrder V j q st s) = submitted s"
    and add_filled: "filled (v_AddTotalFilled V q s) = fst (d_add D (filled s) q)"
      "submitted (v_AddTotalFilled V q s) = submitted s"
      "v_ForEachOrders V (v_AddTotalFilled V q s) = v_ForEachOrders V s"
    and add_submitted: "submitted (v_AddTotalSubmitted V q s) = fst (d_add D (submitted s) q)"
      "filled (v_AddTotalSubmitted V q s) = filled s"
      "v_ForEachOrders V (v_AddTotalSubmitted V q s) = v_ForEachOrders V s"
begin

lemma settle_orders: "v_ForEachOrders V (settle V D w p q s) = v_ForEachOrders V s"
  and settle_submitted: "submitted (settle V D w p q s) = submitted s"
  by (simp_all add: settle_def Let_def add_filled)

text \<open>Setting an entry and settling it keeps the total in step with the entries.\<close>

lemma settle_set_entry:
  assumes L: "decimal_laws D val rnd" and i: "i < length es"
    and tot: "val (filled s) = settled val es"
    and ok: "IsTerminal (oe_Status (es ! i)) \<Longrightarrow> IsTerminal st \<and> val (oe_Filled (es ! i)) \<le> val q"
    and grid: "fills_on_grid val g M es" "on_grid val g M q"
    and bound: "int (length es + 1) * M < 10 ^ 19" "g \<le> 19" "0 \<le> M"
  shows "val (filled (if IsTerminal st then settle V D (IsTerminal (oe_Status (es ! i))) (oe_Filled (es ! i)) q s
                      else s)) = settled val (set_entry q st i es)"
proof -
  have rep: "representable (settled val (set_entry q st i es))"
  proof (rule settled_representable [OF fills_on_grid_set_entry [OF grid] _ bound(2,3)])
    have "int (length es) * M \<le> int (length es + 1) * M" using bound(3) by (intro mult_right_mono) simp_all
    then show "int (length (set_entry q st i es)) * M < 10 ^ 19" using bound(1) by simp
  qed
  show ?thesis
  proof (cases "IsTerminal (oe_Status (es ! i))")
    case False
    then show ?thesis
      using tot rep settled_set_entry [OF i, of val q st] fst_add_exact [OF L, of "filled s" q]
      by (cases "IsTerminal st") (simp_all add: settle_def add_filled)
  next
    case True
    with ok have st: "IsTerminal st" and le: "val (oe_Filled (es ! i)) \<le> val q" by simp_all
    let ?p = "oe_Filled (es ! i)" and ?d = "fst (d_sub D q (oe_Filled (es ! i)))"
    have "on_grid val g M ?p" using grid(1) i by (simp add: fills_on_grid_def)
    moreover have "2 * M \<le> int (length es + 1) * M" using i bound(3) by (intro mult_right_mono) simp_all
    ultimately have delta: "val ?d = val q - val ?p"
      using grid_diff_representable [of val g M q ?p] grid(2) bound
      by (intro fst_sub_exact [OF L]) linarith
    have upd: "settled val (set_entry q st i es) = val (filled s) + val ?d"
      using settled_set_entry [OF i, of val q st] True st tot delta by simp
    show ?thesis
      using True st le delta rep upd dec_exact(8) [OF L, of ?d] fst_add_exact [OF L, of "filled s" ?d]
      by (simp add: settle_def Let_def add_filled)
  qed
qed

lemma process_unknown:
  "ev_ClientOrderID evt \<notin> set (client_ids (v_ForEachOrders V s)) \<Longrightarrow>
     ProcessOrderUpdate V D E e s evt = (s, [])"
  by (simp add: ProcessOrderUpdate_def find_order find_client_None [THEN iffD2])

lemma process_known:
  assumes "distinct (client_ids (v_ForEachOrders V s))" "k < length (v_ForEachOrders V s)"
    "oe_ClientOrderID (v_ForEachOrders V s ! k) = ev_ClientOrderID evt"
  shows "fst (ProcessOrderUpdate V D E e s evt) =
    (let ent = v_ForEachOrders V s ! k; s1 = v_SetOrder V (int k) (ev_Filled evt) (ev_Status evt) s
     in if IsTerminal (ev_Status evt) then settle V D (IsTerminal (oe_Status ent)) (oe_Filled ent) (ev_Filled evt) s1
        else s1)"
proof -
  have "ev_ClientOrderID evt \<in> set (client_ids (v_ForEachOrders V s))"
    using assms(3) nth_mem [OF assms(2)] unfolding client_ids_def by (metis image_eqI list.set_map)
  then obtain x where "v_FindOrderByClientID V (ev_ClientOrderID evt) s = Some x"
    using find_client_None [of "ev_ClientOrderID evt" "v_ForEachOrders V s"] by (auto simp: find_order)
  then show ?thesis
    by (simp add: ProcessOrderUpdate_def scan_orders_at [OF assms] Let_def)
qed

text \<open>An update touches at most the entry with its client identifier.\<close>

lemma process_orders:
  assumes "distinct (client_ids (v_ForEachOrders V s))"
  shows "client_ids (v_ForEachOrders V (fst (ProcessOrderUpdate V D E e s evt))) = client_ids (v_ForEachOrders V s)"
    and "submitted (fst (ProcessOrderUpdate V D E e s evt)) = submitted s"
proof (atomize (full), cases "ev_ClientOrderID evt \<in> set (client_ids (v_ForEachOrders V s))")
  case False
  then show "client_ids (v_ForEachOrders V (fst (ProcessOrderUpdate V D E e s evt))) =
      client_ids (v_ForEachOrders V s) \<and> submitted (fst (ProcessOrderUpdate V D E e s evt)) = submitted s"
    by (simp add: process_unknown)
next
  case True
  then obtain k where "k < length (v_ForEachOrders V s)"
    "oe_ClientOrderID (v_ForEachOrders V s ! k) = ev_ClientOrderID evt"
    by (auto simp: client_ids_def in_set_conv_nth)
  then show "client_ids (v_ForEachOrders V (fst (ProcessOrderUpdate V D E e s evt))) =
      client_ids (v_ForEachOrders V s) \<and> submitted (fst (ProcessOrderUpdate V D E e s evt)) = submitted s"
    by (simp add: process_known [OF assms] Let_def settle_orders settle_submitted set_order set_totals)
qed

lemma process_settles:
  assumes L: "decimal_laws D val rnd" and dist: "distinct (client_ids (v_ForEachOrders V s))"
    and tot: "val (filled s) = settled val (v_ForEachOrders V s)"
    and ok: "update_ok val (v_ForEachOrders V s) evt"
    and grid: "fills_on_grid val g M (v_ForEachOrders V s)" "on_grid val g M (ev_Filled evt)"
    and bound: "int (length (v_ForEachOrders V s) + 1) * M < 10 ^ 19" "g \<le> 19" "0 \<le> M"
  shows "val (filled (fst (ProcessOrderUpdate V D E e s evt))) =
           settled val (v_ForEachOrders V (fst (ProcessOrderUpdate V D E e s evt))) \<and>
         fills_on_grid val g M (v_ForEachOrders V (fst (ProcessOrderUpdate V D E e s evt)))"
proof (cases "ev_ClientOrderID evt \<in> set (client_ids (v_ForEachOrders V s))")
  case False
  then show ?thesis using tot grid by (simp add: process_unknown)
next
  case True
  let ?es = "v_ForEachOrders V s"
  obtain k where k: "k < length ?es" "oe_ClientOrderID (?es ! k) = ev_ClientOrderID evt"
    using True by (auto simp: client_ids_def in_set_conv_nth)
  have "IsTerminal (oe_Status (?es ! k)) \<Longrightarrow>
      IsTerminal (ev_Status evt) \<and> val (oe_Filled (?es ! k)) \<le> val (ev_Filled evt)"
    using ok k(2) nth_mem [OF k(1)] unfolding update_ok_def by blast
  from settle_set_entry [OF L k(1) _ this grid bound,
      of "v_SetOrder V (int k) (ev_Filled evt) (ev_Status evt) s"]
  show ?thesis
    using tot fills_on_grid_set_entry [OF grid]
    by (simp add: process_known [OF dist k] Let_def settle_orders set_order [OF k(1)] set_totals split: if_splits)
qed

end

lemma set_order_RunState:
  "i < length (Orders s) \<Longrightarrow> Orders (SetOrder (int i) q st s) = set_entry q st i (Orders s)"
  by (simp add: SetOrder_def set_entry_def)

interpretation rs: run_state_view D "RunState_view D marshal" TotalFilled TotalSubmitted
  for D :: "'d decimal_ops" and marshal
  by unfold_locales
    (simp_all add: RunState_view_def AppendOrder_def FindOrderByClientID_def SetOrder_def
      AddTotalFilled_def AddTotalSubmitted_def set_entry_def)

end
