(* ===== verification/Exec_Props.thy ===== *)
theory Exec_Props
  imports Exec_Model
begin

text \<open>
  Correctness of the executor: the effect of placing an order on every branch, the agreement of the
  running total of fills with the settled entries over arbitrary histories of placements, updates
  and reconciliations, the import of orphaned orders, and two histories on which the total departs
  from the entries.
\<close>

section \<open>Histories of the executor\<close>

text \<open>The states a run reaches from the zero state when order updates respect settlement, fills have
  at most \<open>g\<close> decimals and magnitude \<open>M\<close>, and at most \<open>N\<close> orders are placed. Client order
  identifiers are fresh, as the time-ordered UUID they end in makes them.\<close>

inductive exec_reach ::
  "'d decimal_ops \<Rightarrow> ('d \<Rightarrow> rat) \<Rightarrow> nat \<Rightarrow> int \<Rightarrow> nat \<Rightarrow> ('d RunState, 'd) RunStateView \<Rightarrow> Executor \<Rightarrow>
     'd RunState \<Rightarrow> bool"
  for D val g M N V e where
  start: "exec_reach D val g M N V e (RunState_zero D)"
| place: "exec_reach D val g M N V e s \<Longrightarrow> length (Orders s) < N \<Longrightarrow>
    BuildClientOrderID (ex_Name e) (ex_RunID e) (env_NewV7 E) \<notin> set (client_ids (Orders s)) \<Longrightarrow>
    exec_reach D val g M N V e (fst (PlaceOrder V D E e s bond sig q))"
| update: "exec_reach D val g M N V e s \<Longrightarrow> update_ok val (Orders s) evt \<Longrightarrow>
    on_grid val g M (ev_Filled evt) \<Longrightarrow>
    exec_reach D val g M N V e (fst (ProcessOrderUpdate V D E e s evt))"
| reconcile: "exec_reach D val g M N V e s \<Longrightarrow>
    (\<forall>i st q. env_GetOrderFilledStatus E i = ((st, q), None) \<longrightarrow> on_grid val g M q) \<Longrightarrow>
    exec_reach D val g M N V e (fst (ReconcilePendingOrders V D E e s))"
| progress: "exec_reach D val g M N V e s \<Longrightarrow> exec_reach D val g M N V e (s\<lparr>ChunksProcessed := c\<rparr>)"

definition exec_inv :: "('d \<Rightarrow> rat) \<Rightarrow> nat \<Rightarrow> int \<Rightarrow> nat \<Rightarrow> 'd RunState \<Rightarrow> bool" where
  "exec_inv val g M N s \<longleftrightarrow> distinct (client_ids (Orders s)) \<and> length (Orders s) \<le> N \<and>
     fills_on_grid val g M (Orders s) \<and> val (TotalFilled s) = settled val (Orders s)"

section \<open>Reconciliation through the view\<close>

context run_state_view
begin

lemma reconcile_one_skip: "IsTerminal (oe_Status ent) \<Longrightarrow> reconcile_one V D E (i, ent) s = s"
  by (simp add: reconcile_one_def)

lemma reconcile_one_error:
  "snd (env_GetOrderFilledStatus E (oe_OrderID ent)) = Some err \<Longrightarrow> reconcile_one V D E (i, ent) s = s"
  by (cases "env_GetOrderFilledStatus E (oe_OrderID ent)") (auto simp: reconcile_one_def)

lemma reconcile_one_known:
  assumes "i < length (v_ForEachOrders V s)" "v_ForEachOrders V s ! i = ent" "\<not> IsTerminal (oe_Status ent)"
    "env_GetOrderFilledStatus E (oe_OrderID ent) = ((st, q), None)"
  shows "reconcile_one V D E (i, ent) s =
    (let s1 = v_SetOrder V (int i) q st s
     in if IsTerminal st then settle V D False (oe_Filled ent) q s1 else s1)"
  using assms by (simp add: reconcile_one_def Let_def)

text \<open>Every callback either leaves the state alone or rewrites the visited entry.\<close>

lemma reconcile_one_cases:
  assumes "i < length (v_ForEachOrders V s)" "v_ForEachOrders V s ! i = ent"
  obtains (same) "reconcile_one V D E (i, ent) s = s"
  | (set) st q where "\<not> IsTerminal (oe_Status ent)"
      "env_GetOrderFilledStatus E (oe_OrderID ent) = ((st, q), None)"
proof (cases "IsTerminal (oe_Status ent)")
  case True
  then show ?thesis using same reconcile_one_skip by blast
next
  case False
  obtain r err where r: "env_GetOrderFilledStatus E (oe_OrderID ent) = (r, err)" by fastforce
  obtain st q where "r = (st, q)" by fastforce
  with r False same set reconcile_one_error [of E ent] show ?thesis by (cases err) auto
qed

lemma reconcile_one_orders:
  assumes "i < length (v_ForEachOrders V s)" "v_ForEachOrders V s ! i = ent"
  shows "client_ids (v_ForEachOrders V (reconcile_one V D E (i, ent) s)) = client_ids (v_ForEachOrders V s) \<and>
    (\<forall>j. j \<noteq> i \<longrightarrow> v_ForEachOrders V (reconcile_one V D E (i, ent) s) ! j = v_ForEachOrders V s ! j) \<and>
    length (v_ForEachOrders V (reconcile_one V D E (i, ent) s)) = length (v_ForEachOrders V s)"
proof (rule reconcile_one_cases [OF assms, where E = E])
  assume "reconcile_one V D E (i, ent) s = s"
  then show ?thesis by simp
next
  fix st q
  assume "\<not> IsTerminal (oe_Status ent)" "env_GetOrderFilledStatus E (oe_OrderID ent) = ((st, q), None)"
  then show ?thesis
    using assms by (simp add: reconcile_one_known Let_def settle_orders set_order)
      (simp add: set_entry_def)
qed

lemma reconcile_one_settles:
  assumes L: "decimal_laws D val rnd" and i: "i < length (v_ForEachOrders V s)" "v_ForEachOrders V s ! i = ent"
    and tot: "val (filled s) = settled val (v_ForEachOrders V s)"
    and grid: "fills_on_grid val g M (v_ForEachOrders V s)"
      "\<forall>o' st q. env_GetOrderFilledStatus E o' = ((st, q), None) \<longrightarrow> on_grid val g M q"
    and bound: "int (length (v_ForEachOrders V s) + 1) * M < 10 ^ 19" "g \<le> 19" "0 \<le> M"
  shows "val (filled (reconcile_one V D E (i, ent) s)) =
           settled val (v_ForEachOrders V (reconcile_one V D E (i, ent) s)) \<and>
         fills_on_grid val g M (v_ForEachOrders V (reconcile_one V D E (i, ent) s))"
proof (rule reconcile_one_cases [OF i, where E = E])
  assume "reconcile_one V D E (i, ent) s = s"
  then show ?thesis using tot grid by simp
next
  fix st q
  assume set: "\<not> IsTerminal (oe_Status ent)" "env_GetOrderFilledStatus E (oe_OrderID ent) = ((st, q), None)"
  let ?es = "v_ForEachOrders V s"
  have q: "on_grid val g M q" using grid(2) set(2) by blast
  have "val (filled (if IsTerminal st then settle V D (IsTerminal (oe_Status (?es ! i))) (oe_Filled (?es ! i)) q
           (v_SetOrder V (int i) q st s) else v_SetOrder V (int i) q st s)) = settled val (set_entry q st i ?es)"
    using set(1) i(2) tot by (intro settle_set_entry [OF L i(1) _ _ grid(1) q bound]) (simp_all add: set_totals)
  then show ?thesis
    using set i fills_on_grid_set_entry [OF grid(1) q, of st i]
    by (simp add: reconcile_one_known [OF i set] Let_def settle_orders set_order split: if_splits)
qed

text \<open>The pass visits each entry as it was when the pass began.\<close>

lemma reconcile_fold:
  assumes "decimal_laws D val rnd" "int (n + 1) * M < 10 ^ 19" "g \<le> 19" "0 \<le> M"
    "\<forall>o' st q. env_GetOrderFilledStatus E o' = ((st, q), None) \<longrightarrow> on_grid val g M q"
  shows "distinct (map fst ies) \<Longrightarrow> length (v_ForEachOrders V s) = n \<Longrightarrow>
    (\<forall>(i, ent)\<in>set ies. i < n \<and> v_ForEachOrders V s ! i = ent) \<Longrightarrow>
    val (filled s) = settled val (v_ForEachOrders V s) \<Longrightarrow> fills_on_grid val g M (v_ForEachOrders V s) \<Longrightarrow>
    (let s' = fold (reconcile_one V D E) ies s
     in client_ids (v_ForEachOrders V s') = client_ids (v_ForEachOrders V s) \<and>
        val (filled s') = settled val (v_ForEachOrders V s') \<and> fills_on_grid val g M (v_ForEachOrders V s'))"
proof (induction ies arbitrary: s)
  case Nil
  then show ?case by (simp add: Let_def)
next
  case (Cons ie ies)
  obtain i ent where ie: "ie = (i, ent)" by fastforce
  let ?s = "reconcile_one V D E (i, ent) s"
  have i: "i < length (v_ForEachOrders V s)" "v_ForEachOrders V s ! i = ent" using Cons.prems ie by auto
  note one = reconcile_one_orders [OF i, of E]
  have "\<forall>(j, x)\<in>set ies. j < n \<and> v_ForEachOrders V ?s ! j = x"
  proof (clarify, intro conjI)
    fix j x assume jx: "(j, x) \<in> set ies"
    then have "j \<noteq> i" using Cons.prems(1) ie by force
    with jx Cons.prems(3) one show "j < n" "v_ForEachOrders V ?s ! j = x" by auto
  qed
  moreover have "val (filled ?s) = settled val (v_ForEachOrders V ?s)" "fills_on_grid val g M (v_ForEachOrders V ?s)"
    using reconcile_one_settles [OF assms(1) i Cons.prems(4,5) assms(5) _ assms(3,4)] assms(2) Cons.prems(2)
    by simp_all
  ultimately show ?case
    using Cons.IH [of ?s] Cons.prems(1,2) one ie by (simp add: Let_def)
qed

end

section \<open>Single operations on the run state\<close>

abbreviation rsv :: "'d decimal_ops \<Rightarrow> ('d RunState \<Rightarrow> string gopair) \<Rightarrow> ('d RunState, 'd) RunStateView" where
  "rsv D marshal \<equiv> RunState_view D marshal"

lemma view_orders [simp]: "v_ForEachOrders (RunState_view D m) = Orders"
  by (simp add: RunState_view_def)

lemma view_marshal [simp]: "v_Marshal (RunState_view D m) = m"
  by (simp add: RunState_view_def)

lemma SaveState_no_order: "EOrder r p \<notin> set (SaveState V E e s)"
  by (auto simp: SaveState_def split: prod.splits option.splits if_splits)

lemma RecordDecision_no_order: "EOrder r p \<notin> set (RecordDecision D E e sg b q c t n)"
  by (simp add: RecordDecision_def Let_def)

lemma enumerate_facts:
  "distinct (map fst (enumerate 0 xs))" "\<forall>(i, x)\<in>set (enumerate 0 xs). i < length xs \<and> xs ! i = x"
  by (auto simp: in_set_enumerate_eq)

lemma exec_inv_zero: "decimal_laws D val rnd \<Longrightarrow> exec_inv val g M N (RunState_zero D)"
  using dec_exact(1) [of D val rnd]
  by (simp add: exec_inv_def RunState_zero_def settled_def fills_on_grid_def client_ids_def)

lemma exec_inv_chunks [simp]: "exec_inv val g M N (s\<lparr>ChunksProcessed := c\<rparr>) = exec_inv val g M N s"
  by (simp add: exec_inv_def)

text \<open>The state after placing an order: unchanged on an error or an empty identifier, otherwise one
  open entry more.\<close>

lemma PlaceOrder_state:
  "fst (PlaceOrder (rsv D m) D E e s bond sig q) =
     (let cid = BuildClientOrderID (ex_Name e) (ex_RunID e) (env_NewV7 E);
          resp = env_CreateMarketOrder E \<lparr>oreq_Book = bond, oreq_Side = DoraclientSide sig, oreq_Quantity = q,
            oreq_InverseLeverage = d_one D, oreq_FromGlobal = False, oreq_ClientOrderID = cid\<rparr>
      in if snd resp \<noteq> None \<or> fst resp = [] then s
         else s\<lparr>Orders := Orders s @ [\<lparr>oe_OrderID = fst resp, oe_ClientOrderID = cid, oe_Requested = q,
                  oe_Filled = d_zero D, oe_Status = OrderStatusOpen\<rparr>],
                TotalSubmitted := fst (d_add D (TotalSubmitted s) q)\<rparr>)"
  by (auto simp: PlaceOrder_def RunState_view_def AppendOrder_def AddTotalSubmitted_def Let_def
      split: prod.splits option.splits)

lemma on_grid_zero: "decimal_laws D val rnd \<Longrightarrow> 0 \<le> M \<Longrightarrow> on_grid val g M (d_zero D)"
  using dec_exact(1) [of D val rnd] unfolding on_grid_def by (auto intro!: exI [of _ 0])

lemma exec_inv_place:
  assumes L: "decimal_laws D val rnd" and "exec_inv val g M N s" "length (Orders s) < N" "0 \<le> M"
    "BuildClientOrderID (ex_Name e) (ex_RunID e) (env_NewV7 E) \<notin> set (client_ids (Orders s))"
  shows "exec_inv val g M N (fst (PlaceOrder (rsv D m) D E e s bond sig q))"
  using assms on_grid_zero [OF L assms(4)]
  by (auto simp: PlaceOrder_state Let_def exec_inv_def settled_append fills_on_grid_def client_ids_def
      OrderStatusOpen_def settled_def IsTerminal_def)

lemma bound_mono:
  fixes M :: int
  assumes "int (N + 1) * M < 10 ^ 19" "n \<le> N" "0 \<le> M"
  shows "int (n + 1) * M < 10 ^ 19"
proof -
  have "int (n + 1) * M \<le> int (N + 1) * M" using assms(2,3) by (intro mult_right_mono) simp_all
  then show ?thesis using assms(1) by linarith
qed

lemma length_client_ids: "client_ids xs = client_ids ys \<Longrightarrow> length xs = length ys"
  unfolding client_ids_def by (rule map_eq_imp_length_eq)

lemma exec_inv_update:
  assumes L: "decimal_laws D val rnd" and inv: "exec_inv val g M N s"
    and "update_ok val (Orders s) evt" "on_grid val g M (ev_Filled evt)"
    and b: "int (N + 1) * M < 10 ^ 19" "g \<le> 19" "0 \<le> M"
  shows "exec_inv val g M N (fst (ProcessOrderUpdate (rsv D m) D E e s evt))"
proof -
  have i: "distinct (client_ids (Orders s))" "length (Orders s) \<le> N" "fills_on_grid val g M (Orders s)"
    "val (TotalFilled s) = settled val (Orders s)"
    using inv by (simp_all add: exec_inv_def)
  have ids: "client_ids (Orders (fst (ProcessOrderUpdate (rsv D m) D E e s evt))) = client_ids (Orders s)"
    using rs.process_orders(1) [of D m s E e evt] i(1) by simp
  show ?thesis
    using rs.process_settles [OF L, of m s evt g M E e] i assms(3,4) bound_mono [OF b(1) i(2) b(3)] b(2,3)
      ids length_client_ids [OF ids]
    by (simp add: exec_inv_def)
qed

lemma exec_inv_reconcile:
  assumes L: "decimal_laws D val rnd" and inv: "exec_inv val g M N s"
    and E: "\<forall>i st q. env_GetOrderFilledStatus E i = ((st, q), None) \<longrightarrow> on_grid val g M q"
    and b: "int (N + 1) * M < 10 ^ 19" "g \<le> 19" "0 \<le> M"
  shows "exec_inv val g M N (fst (ReconcilePendingOrders (rsv D m) D E e s))"
proof (cases "ex_Market e")
  case False
  then show ?thesis using inv by (simp add: ReconcilePendingOrders_def)
next
  case True
  have i: "distinct (client_ids (Orders s))" "length (Orders s) \<le> N" "fills_on_grid val g M (Orders s)"
    "val (TotalFilled s) = settled val (Orders s)"
    using inv by (simp_all add: exec_inv_def)
  let ?s = "fold (reconcile_one (rsv D m) D E) (enumerate 0 (Orders s)) s"
  from rs.reconcile_fold [OF L bound_mono [OF b(1) i(2) b(3)] b(2,3) E, of "enumerate 0 (Orders s)" m s]
  have "client_ids (Orders ?s) = client_ids (Orders s) \<and> val (TotalFilled ?s) = settled val (Orders ?s) \<and>
      fills_on_grid val g M (Orders ?s)"
    using i enumerate_facts [of "Orders s"] by (simp add: Let_def)
  then show ?thesis
    using True i length_client_ids [of "Orders ?s" "Orders s"]
    by (simp add: ReconcilePendingOrders_def Let_def exec_inv_def)
qed

lemma exec_reach_inv:
  assumes "decimal_laws D val rnd" "int (N + 1) * M < 10 ^ 19" "g \<le> 19" "0 \<le> M"
  shows "exec_reach D val g M N (rsv D m) e s \<Longrightarrow> exec_inv val g M N s"
proof (induction rule: exec_reach.induct)
  case start
  show ?case by (rule exec_inv_zero [OF assms(1)])
next
  case (place s E bond sig q)
  then show ?case using exec_inv_place [OF assms(1)] assms(4) by blast
next
  case (update s evt E)
  then show ?case using exec_inv_update [OF assms(1)] assms(2-) by blast
next
  case (reconcile s E)
  then show ?case using exec_inv_reconcile [OF assms(1)] assms(2-) by blast
next
  case (progress s c)
  then show ?case by simp
qed

section \<open>Importing orders\<close>

definition importable :: "'d decimal_ops \<Rightarrow> DoraOrder \<Rightarrow> bool" where
  "importable D ord \<longleftrightarrow> (case do_ClientOrderId ord of None \<Rightarrow> False | Some c \<Rightarrow> c \<noteq> []) \<and>
     snd (d_parse D (do_OriginalQuantity ord)) = None"

definition dora_client_id :: "DoraOrder \<Rightarrow> string" where
  "dora_client_id ord = (case do_ClientOrderId ord of None \<Rightarrow> [] | Some c \<Rightarrow> c)"

lemma import_one_state:
  "import_one (rsv D m) D ord (s, n) =
     (if importable D ord \<and> dora_client_id ord \<notin> set (client_ids (Orders s))
      then (s\<lparr>Orders := Orders s @ [\<lparr>oe_OrderID = do_OrderId ord, oe_ClientOrderID = dora_client_id ord,
                oe_Requested = fst (d_parse D (do_OriginalQuantity ord)), oe_Filled = d_zero D,
                oe_Status = do_Status ord\<rparr>],
              TotalSubmitted := fst (d_add D (TotalSubmitted s) (fst (d_parse D (do_OriginalQuantity ord))))\<rparr>, n + 1)
      else (s, n))"
proof (cases "d_parse D (do_OriginalQuantity ord)")
  case (Pair q err)
  have find: "find_client c (Orders s) = None \<longleftrightarrow> c \<notin> set (client_ids (Orders s))" for c
    by (rule find_client_None)
  show ?thesis
  proof (cases "dora_client_id ord = []")
    case True
    then show ?thesis by (auto simp: import_one_def importable_def dora_client_id_def split: option.splits)
  next
    case False
    with Pair find [of "dora_client_id ord"] show ?thesis
      by (cases err; cases "find_client (dora_client_id ord) (Orders s)")
        (auto simp: import_one_def importable_def dora_client_id_def RunState_view_def AppendOrder_def
          FindOrderByClientID_def AddTotalSubmitted_def Let_def split: option.splits)
  qed
qed

lemma import_fold:
  "distinct (client_ids (Orders s)) \<Longrightarrow> fold (import_one (rsv D m) D) ords (s, n) = (s', n') \<Longrightarrow>
     distinct (client_ids (Orders s')) \<and>
     set (client_ids (Orders s')) =
       set (client_ids (Orders s)) \<union> dora_client_id ` {ord \<in> set ords. importable D ord} \<and>
     (\<exists>new. Orders s' = Orders s @ new \<and> n' = n + length new) \<and> TotalFilled s' = TotalFilled s"
proof (induction ords arbitrary: s n)
  case Nil
  then show ?case by simp
next
  case (Cons ord ords)
  obtain s1 n1 where s1: "import_one (rsv D m) D ord (s, n) = (s1, n1)" by fastforce
  have step: "distinct (client_ids (Orders s1)) \<and>
      set (client_ids (Orders s1)) = set (client_ids (Orders s)) \<union> dora_client_id ` {ord' \<in> {ord}. importable D ord'} \<and>
      (\<exists>new. Orders s1 = Orders s @ new \<and> n1 = n + length new) \<and> TotalFilled s1 = TotalFilled s"
    using s1 Cons.prems(1) unfolding import_one_state
    by (auto simp: client_ids_def split: if_splits)
  have "fold (import_one (rsv D m) D) ords (s1, n1) = (s', n')" using Cons.prems(2) s1 by simp
  from Cons.IH [OF _ this] step show ?case by auto
qed

text \<open>Importing again finds every importable order present.\<close>

lemma import_fold_known:
  "\<forall>ord\<in>set ords. importable D ord \<longrightarrow> dora_client_id ord \<in> set (client_ids (Orders s)) \<Longrightarrow>
     fold (import_one (rsv D m) D) ords (s, n) = (s, n)"
  by (induction ords) (auto simp: import_one_state)

lemma ImportOrphanedOrders_listed:
  assumes "ex_Market e" "pre \<noteq> []" "env_ListOrders E pre = (ords, None)"
  shows "fst (ImportOrphanedOrders (rsv D m) D E e s pre) = fst (fold (import_one (rsv D m) D) ords (s, 0))"
  using assms by (auto simp: ImportOrphanedOrders_def split: prod.splits)

lemma reconcile_all_terminal:
  assumes "\<forall>ent\<in>set (Orders s). IsTerminal (oe_Status ent)"
  shows "fst (ReconcilePendingOrders (rsv D m) D E e s) = s"
proof -
  have "fold (reconcile_one (rsv D m) D E) ies s = s" if "\<forall>(i, ent)\<in>set ies. IsTerminal (oe_Status ent)" for ies
    using that by (induction ies) (auto simp: rs.reconcile_one_skip)
  moreover have "\<forall>(i, ent)\<in>set (enumerate 0 (Orders s)). IsTerminal (oe_Status ent)"
    using assms by (auto simp: in_set_enumerate_eq)
  ultimately show ?thesis by (simp add: ReconcilePendingOrders_def Let_def)
qed

section \<open>A concrete run\<close>

definition sample_exec :: Executor where
  "sample_exec = \<lparr>ex_Name = ''vwap'', ex_RunID = ''r1'', ex_Market = True, ex_Records = False, ex_Store = False\<rparr>"

definition sample_orphan :: DoraOrder where
  "sample_orphan = \<lparr>do_OrderId = ''o9'', do_ClientOrderId = Some ''vwap.r1.b'',
     do_OriginalQuantity = ''123'', do_Status = ''FILLED''\<rparr>"

definition sample_env :: "rat ExecEnv" where
  "sample_env = \<lparr>env_CreateMarketOrder = (\<lambda>r. (''o1'', None)),
     env_GetOrderFilledStatus = (\<lambda>i. ((''FILLED'', 3), None)),
     env_ListOrders = (\<lambda>pre. ([sample_orphan], None)),
     env_SaveState = (\<lambda>raw. None), env_LoadState = ([], None), env_SaveDecision = (\<lambda>d. None),
     env_NewV7 = ''a'', env_ParseUUID = (\<lambda>i. (i, None)), env_Now = time_zero\<rparr>"

lemmas sample_defs = sample_exec_def sample_env_def sample_orphan_def rat_ops_def

lemma sample_orphan_facts:
  "importable rat_ops sample_orphan = True" "dora_client_id sample_orphan = ''vwap.r1.b''"
  "ex_Market sample_exec = True" "env_ListOrders sample_env pre = ([sample_orphan], None)"
  "{ord \<in> set [sample_orphan]. importable rat_ops ord} = {sample_orphan}"
  by (auto simp: sample_defs importable_def dora_client_id_def)

lemma set_singleton_distinct: "distinct xs \<and> set xs = {a} \<longleftrightarrow> xs = [a]"
proof (cases xs)
  case (Cons x ys)
  then show ?thesis by (cases ys) auto
qed simp

lemma zero_client_ids: "client_ids (Orders (RunState_zero D)) = []"
  by (simp add: RunState_zero_def client_ids_def)

lemma sample_place:
  "fst (PlaceOrder (rsv rat_ops m) rat_ops sample_env sample_exec (RunState_zero rat_ops) ''b'' SignalBuy 5) =
     \<lparr>TotalFilled = 0, TotalSubmitted = 5, ChunksProcessed = 0,
      Orders = [\<lparr>oe_OrderID = ''o1'', oe_ClientOrderID = ''vwap.r1.a'', oe_Requested = 5, oe_Filled = 0,
        oe_Status = ''OPEN''\<rparr>], Buckets = []\<rparr>"
  by (simp add: PlaceOrder_state sample_defs RunState_zero_def BuildClientOrderID_def OrderStatusOpen_def Let_def)

section \<open>What the executor promises\<close>

text \<open>C1: Over every history of placements, order updates that respect settlement, and
  reconciliations, the running total \<open>TotalFilled\<close> that sizes the next order equals the sum of the
  fills of the orders in a terminal status, and client order identifiers stay unique.\<close>

theorem total_filled_is_settled:
  assumes "decimal_laws D val rnd" "exec_reach D val g M N (RunState_view D m) e s"
    "int (N + 1) * M < 10 ^ 19" "g \<le> 19" "0 \<le> M"
  shows "val (TotalFilled s) = settled val (Orders s) \<and> distinct (client_ids (Orders s))"
  using exec_reach_inv [OF assms(1,3-5,2)] by (simp add: exec_inv_def)

theorem total_filled_is_settled_witness:
  "decimal_laws rat_ops id id \<and>
   (\<exists>s. exec_reach rat_ops id 0 9 4 (RunState_view rat_ops (\<lambda>_. ([], None))) sample_exec s \<and>
      TotalFilled s = 4 \<and> settled id (Orders s) = 4)"
proof -
  let ?V = "RunState_view rat_ops (\<lambda>_. ([], None))" and ?s0 = "RunState_zero rat_ops"
    and ?ev = "\<lparr>ev_ClientOrderID = ''vwap.r1.a'', ev_Status = ''FILLED'', ev_Filled = 4 :: rat\<rparr>"
  let ?s1 = "fst (PlaceOrder ?V rat_ops sample_env sample_exec ?s0 ''b'' SignalBuy 5)"
  let ?s2 = "fst (ProcessOrderUpdate ?V rat_ops sample_env sample_exec ?s1 ?ev)"
  have r1: "exec_reach rat_ops id 0 9 4 ?V sample_exec ?s1"
    by (rule exec_reach.place [OF exec_reach.start]) (simp_all add: RunState_zero_def client_ids_def)
  have r2: "exec_reach rat_ops id 0 9 4 ?V sample_exec ?s2"
  proof (rule exec_reach.update [OF r1])
    show "update_ok id (Orders ?s1) ?ev"
      unfolding sample_place by (simp add: update_ok_def IsTerminal_def)
    show "on_grid id 0 9 (ev_Filled ?ev)"
      unfolding on_grid_def by (rule exI [of _ 4]) simp
  qed
  have s2: "TotalFilled ?s2 = 4"
    unfolding sample_place
    by (simp add: ProcessOrderUpdate_def RunState_view_def FindOrderByClientID_def SetOrder_def
        AddTotalFilled_def settle_def IsTerminal_def SaveState_def sample_defs Let_def)
  show ?thesis
    using total_filled_is_settled [OF rat_ops_laws r2] s2 r2 rat_ops_laws by auto
qed

text \<open>Placing an order sends exactly one market order, for the requested quantity, at leverage 1,
  from the isolated account, with a client identifier of this run; on a failure, or when the
  exchange answers without an order identifier, the run state is untouched; otherwise one open
  entry is appended, the submitted total grows by the quantity and the filled total is unchanged.\<close>

theorem place_order_branches:
  "case PlaceOrder (RunState_view D m) D E e s bond sig q of (s', r, eff) \<Rightarrow>
     (\<exists>req resp. eff = [EOrder req resp] \<and> oreq_Quantity req = q \<and> oreq_Side req = DoraclientSide sig \<and>
        oreq_InverseLeverage req = d_one D \<and> \<not> oreq_FromGlobal req \<and>
        has_prefix (BuildClientOrderIDPrefix (ex_Name e) (ex_RunID e)) (oreq_ClientOrderID req)) \<and>
     (case r of
        Inl err \<Rightarrow> s' = s
      | Inr (oid, cid) \<Rightarrow> oid \<noteq> [] \<and> TotalFilled s' = TotalFilled s \<and>
          TotalSubmitted s' = fst (d_add D (TotalSubmitted s) q) \<and>
          Orders s' = Orders s @ [\<lparr>oe_OrderID = oid, oe_ClientOrderID = cid, oe_Requested = q,
             oe_Filled = d_zero D, oe_Status = OrderStatusOpen\<rparr>])"
  by (auto simp: PlaceOrder_def RunState_view_def AppendOrder_def AddTotalSubmitted_def Let_def
      BuildClientOrderID_def BuildClientOrderIDPrefix_def has_prefix_def split: prod.splits option.splits)

text \<open>Importing orphaned orders records every order the exchange lists for the run that has a
  client identifier and a readable quantity, never twice, keeps the known entries in place, and
  a second import of the same list changes nothing.\<close>

theorem import_orphans_complete:
  assumes "ex_Market e" "pre \<noteq> []" "env_ListOrders E pre = (ords, None)" "distinct (client_ids (Orders s))"
    and s'_def: "s' = fst (ImportOrphanedOrders (RunState_view D m) D E e s pre)"
  shows "distinct (client_ids (Orders s')) \<and>
    set (client_ids (Orders s')) =
      set (client_ids (Orders s)) \<union> dora_client_id ` {ord \<in> set ords. importable D ord} \<and>
    (\<exists>new. Orders s' = Orders s @ new) \<and>
    fst (ImportOrphanedOrders (RunState_view D m) D E e s' pre) = s'"
proof -
  obtain n' where f: "fold (import_one (RunState_view D m) D) ords (s, 0) = (s', n')"
    using ImportOrphanedOrders_listed [OF assms(1-3), of D m s] s'_def by (metis prod.collapse)
  note imp = import_fold [OF assms(4) f]
  have "fold (import_one (RunState_view D m) D) ords (s', 0) = (s', 0)"
    using imp by (intro import_fold_known) auto
  then show ?thesis
    using imp ImportOrphanedOrders_listed [OF assms(1-3), of D m s'] by auto
qed

theorem import_orphans_complete_witness:
  "client_ids (Orders (fst (ImportOrphanedOrders (RunState_view rat_ops (\<lambda>_. ([], None))) rat_ops sample_env
     sample_exec (RunState_zero rat_ops) ''vwap.r1.''))) = [''vwap.r1.b'']"
proof -
  let ?s' = "fst (ImportOrphanedOrders (RunState_view rat_ops (\<lambda>_. ([], None))) rat_ops sample_env
     sample_exec (RunState_zero rat_ops) ''vwap.r1.'')"
  have "distinct (client_ids (Orders ?s')) \<and> set (client_ids (Orders ?s')) = {''vwap.r1.b''}"
    using import_orphans_complete [of sample_exec "''vwap.r1.''" sample_env
        "[sample_orphan]" "RunState_zero rat_ops" ?s' rat_ops "\<lambda>_. ([], None)"]
    unfolding sample_orphan_facts zero_client_ids by (simp add: sample_orphan_facts)
  then show ?thesis by (simp only: set_singleton_distinct)
qed

text \<open>An orphaned order that the exchange already reports as settled is imported with a zero fill
  and a terminal status, and the reconciliation that follows skips terminal entries: whatever the
  exchange answers, its fill never enters \<open>TotalFilled\<close>, so the run will trade that quantity again.\<close>

theorem orphan_settled_fill_lost:
  assumes "ex_Market e" "pre \<noteq> []" "env_ListOrders E pre = ([ord], None)"
    and "importable D ord" "dora_client_id ord \<notin> set (client_ids (Orders s))" "IsTerminal (do_Status ord)"
    and "\<forall>ent\<in>set (Orders s). IsTerminal (oe_Status ent)"
  shows "let s1 = fst (ImportOrphanedOrders (RunState_view D m) D E e s pre);
             s2 = fst (ReconcilePendingOrders (RunState_view D m) D E' e s1)
         in Orders s2 = Orders s @ [\<lparr>oe_OrderID = do_OrderId ord, oe_ClientOrderID = dora_client_id ord,
              oe_Requested = fst (d_parse D (do_OriginalQuantity ord)), oe_Filled = d_zero D,
              oe_Status = do_Status ord\<rparr>] \<and> TotalFilled s2 = TotalFilled s"
proof -
  let ?s1 = "fst (ImportOrphanedOrders (RunState_view D m) D E e s pre)"
  have s1: "Orders ?s1 = Orders s @ [\<lparr>oe_OrderID = do_OrderId ord, oe_ClientOrderID = dora_client_id ord,
              oe_Requested = fst (d_parse D (do_OriginalQuantity ord)), oe_Filled = d_zero D,
              oe_Status = do_Status ord\<rparr>]" "TotalFilled ?s1 = TotalFilled s"
    using ImportOrphanedOrders_listed [OF assms(1-3), of D m s] assms(4,5) by (simp_all add: import_one_state)
  have "fst (ReconcilePendingOrders (RunState_view D m) D E' e ?s1) = ?s1"
    by (rule reconcile_all_terminal) (use s1 assms(6,7) in auto)
  then show ?thesis using s1 by (simp add: Let_def)
qed

theorem orphan_settled_fill_lost_witness:
  "TotalFilled (fst (ReconcilePendingOrders (RunState_view rat_ops (\<lambda>_. ([], None))) rat_ops sample_env sample_exec
     (fst (ImportOrphanedOrders (RunState_view rat_ops (\<lambda>_. ([], None))) rat_ops sample_env sample_exec
        (RunState_zero rat_ops) ''vwap.r1.'')))) = 0"
  using orphan_settled_fill_lost [of sample_exec "''vwap.r1.''" sample_env
      "hd (fst (env_ListOrders sample_env []))" rat_ops "RunState_zero rat_ops" "\<lambda>_. ([], None)" sample_env]
  by (simp add: sample_defs RunState_zero_def client_ids_def importable_def dora_client_id_def IsTerminal_def Let_def)

text \<open>An update that takes a settled order back to an in-flight status (a late \<open>PARTIAL_FILL\<close>) is
  accepted, and the next terminal update then counts the whole fill a second time.\<close>

theorem late_partial_fill_double_counts:
  assumes "distinct (client_ids (Orders s))" "k < length (Orders s)"
    and "oe_ClientOrderID (Orders s ! k) = c" "IsTerminal (oe_Status (Orders s ! k))"
    and "\<not> IsTerminal (ev_Status ev1)" "ev_ClientOrderID ev1 = c"
    and "IsTerminal (ev_Status ev2)" "ev_ClientOrderID ev2 = c"
  shows "let s1 = fst (ProcessOrderUpdate (RunState_view D m) D E e s ev1);
             s2 = fst (ProcessOrderUpdate (RunState_view D m) D E' e s1 ev2)
         in Orders s2 = set_entry (ev_Filled ev2) (ev_Status ev2) k (Orders s) \<and>
            TotalFilled s2 = fst (d_add D (TotalFilled s) (ev_Filled ev2))"
proof -
  let ?s1 = "fst (ProcessOrderUpdate (RunState_view D m) D E e s ev1)"
  have "?s1 = SetOrder (int k) (ev_Filled ev1) (ev_Status ev1) s"
    using rs.process_known [of D m s k ev1 E e] assms by (simp add: Let_def RunState_view_def)
  then have s1: "Orders ?s1 = set_entry (ev_Filled ev1) (ev_Status ev1) k (Orders s)"
      "TotalFilled ?s1 = TotalFilled s"
    using assms(2) by (simp_all add: set_order_RunState) (simp add: SetOrder_def)
  have k1: "oe_ClientOrderID (Orders ?s1 ! k) = c" "\<not> IsTerminal (oe_Status (Orders ?s1 ! k))"
    using s1 assms(2,3,5) by (simp_all add: set_entry_def)
  have "fst (ProcessOrderUpdate (RunState_view D m) D E' e ?s1 ev2) =
      AddTotalFilled D (ev_Filled ev2) (SetOrder (int k) (ev_Filled ev2) (ev_Status ev2) ?s1)"
    using rs.process_known [of D m ?s1 k ev2 E' e] assms s1 k1
    by (simp add: Let_def RunState_view_def settle_def)
  then show ?thesis
    using s1 assms(2) by (simp add: Let_def AddTotalFilled_def SetOrder_def set_entry_def)
qed

theorem late_partial_fill_double_counts_witness:
  "let V = RunState_view rat_ops (\<lambda>_. ([], None));
       s = \<lparr>TotalFilled = 4, TotalSubmitted = 5, ChunksProcessed = 1,
            Orders = [\<lparr>oe_OrderID = ''o1'', oe_ClientOrderID = ''c'', oe_Requested = 5, oe_Filled = 4 :: rat,
              oe_Status = ''FILLED''\<rparr>], Buckets = []\<rparr>;
       s1 = fst (ProcessOrderUpdate V rat_ops sample_env sample_exec s
              \<lparr>ev_ClientOrderID = ''c'', ev_Status = ''PARTIAL_FILL'', ev_Filled = 3\<rparr>);
       s2 = fst (ProcessOrderUpdate V rat_ops sample_env sample_exec s1
              \<lparr>ev_ClientOrderID = ''c'', ev_Status = ''FILLED'', ev_Filled = 4\<rparr>)
   in TotalFilled s2 = 8 \<and> settled id (Orders s2) = 4"
  using late_partial_fill_double_counts [of "\<lparr>TotalFilled = 4, TotalSubmitted = 5, ChunksProcessed = 1,
            Orders = [\<lparr>oe_OrderID = ''o1'', oe_ClientOrderID = ''c'', oe_Requested = 5, oe_Filled = 4 :: rat,
              oe_Status = ''FILLED''\<rparr>], Buckets = []\<rparr>" 0 "''c''"
      "\<lparr>ev_ClientOrderID = ''c'', ev_Status = ''PARTIAL_FILL'', ev_Filled = 3\<rparr>"
      "\<lparr>ev_ClientOrderID = ''c'', ev_Status = ''FILLED'', ev_Filled = 4\<rparr>" rat_ops "\<lambda>_. ([], None)"
      sample_env sample_exec sample_env]
  by (simp add: Let_def client_ids_def IsTerminal_def set_entry_def settled_def sample_defs)

end
