(* ===== verification/Stats_Model.thy ===== *)
theory Stats_Model
  imports Rolling_Window
begin

text \<open>
  The statistics of \<open>src/strategy/stats/\<close>: the annualised Sharpe ratio (\<open>stats.go\<close>) and the summary
  of a backtest's closed trades (\<open>summarise.go\<close>).

  \<^item> The map of daily profits is keyed by the printed date; \<open>day_label\<close> numbers the same dates.
  \<^item> The loop over the days of the window is a recursive function with its termination proof.
  \<^item> What is shown: total, win and loss counts and maximum drawdown are the declarative ones, the
    daily series handed to the Sharpe ratio carries all of the profit when the window is in UTC,
    and what it drops when the window carries a negative zone offset.
\<close>

section \<open>Sharpe ratio\<close>

definition AnnualTradingDays :: rat where
  "AnnualTradingDays = 36525 / 100"

fun sum_loop :: "'d decimal_ops \<Rightarrow> 'd \<Rightarrow> 'd list \<Rightarrow> 'd res" where
  "sum_loop D acc [] = Inr acc"
| "sum_loop D acc (p # ps) = rbind (tryv (d_add D acc p)) (\<lambda>s. sum_loop D s ps)"

fun sq_dev_loop :: "'d decimal_ops \<Rightarrow> 'd \<Rightarrow> 'd \<Rightarrow> 'd list \<Rightarrow> 'd res" where
  "sq_dev_loop D mean acc [] = Inr acc"
| "sq_dev_loop D mean acc (p # ps) =
     rbind (tryv (d_sub D p mean)) (\<lambda>d.
     rbind (tryv (d_mul D d d)) (\<lambda>sq.
     rbind (tryv (d_add D acc sq)) (\<lambda>v. sq_dev_loop D mean v ps)))"

definition Sharpe :: "'d decimal_ops \<Rightarrow> 'd list \<Rightarrow> 'd res" where
  "Sharpe D pnls =
     (if length pnls < 2 then Inr (d_zero D)
      else
        rbind (sum_loop D (d_zero D) pnls) (\<lambda>total.
        rbind (tryv (d_quo D total (d_new D (int (length pnls))))) (\<lambda>mean.
        rbind (sq_dev_loop D mean (d_zero D) pnls) (\<lambda>variance.
        rbind (tryv (d_quo D variance (d_new D (int (length pnls) - 1)))) (\<lambda>variance.
        rbind (tryv (d_sqrt D variance)) (\<lambda>sd.
        if d_IsZero D sd then Inr (d_zero D)
        else
          rbind (tryv (d_of_float D AnnualTradingDays)) (\<lambda>tradingDays.
          rbind (tryv (d_sqrt D tradingDays)) (\<lambda>sqrtDays.
          rbind (tryv (d_quo D mean sd)) (\<lambda>ratio.
          tryv (d_mul D ratio sqrtDays))))))))))"

section \<open>Summary of closed trades\<close>

record 'd PnLPoint =
  pp_PnL :: 'd
  pp_CloseTime :: gtime

record 'd Summary =
  TotalPnL :: 'd
  WinCount :: int
  LossCount :: int
  MaxDrawdown :: 'd
  SharpeRatio :: 'd

definition Summary_zero :: "'d decimal_ops \<Rightarrow> 'd Summary" where
  "Summary_zero D = \<lparr>TotalPnL = d_zero D, WinCount = 0, LossCount = 0, MaxDrawdown = d_zero D,
     SharpeRatio = d_zero D\<rparr>"

text \<open>The variables of the loop over the trades.\<close>

record 'd sum_acc =
  sa_res :: "'d Summary"
  sa_equity :: 'd
  sa_peak :: 'd
  sa_daily :: "int \<rightharpoonup> 'd"

definition summ_step :: "'d decimal_ops \<Rightarrow> 'd PnLPoint \<Rightarrow> 'd sum_acc \<Rightarrow> 'd sum_acc res" where
  "summ_step D t a =
     rbind (tryv (d_add D (TotalPnL (sa_res a)) (pp_PnL t))) (\<lambda>total.
     let dateStr = day_label (pp_CloseTime t);
         current = (case sa_daily a dateStr of Some c \<Rightarrow> c | None \<Rightarrow> d_zero D) in
     rbind (tryv (d_add D current (pp_PnL t))) (\<lambda>day.
     let res = (sa_res a)\<lparr>TotalPnL := total\<rparr>;
         res = (if d_IsPos D (pp_PnL t) then res\<lparr>WinCount := WinCount res + 1\<rparr>
                else if d_IsNeg D (pp_PnL t) then res\<lparr>LossCount := LossCount res + 1\<rparr>
                else res) in
     rbind (tryv (d_add D (sa_equity a) (pp_PnL t))) (\<lambda>equity.
     let peak = (if d_cmp D equity (sa_peak a) > 0 then equity else sa_peak a) in
     rbind (tryv (d_sub D peak equity)) (\<lambda>dd.
     let res = (if d_cmp D dd (MaxDrawdown res) > 0 then res\<lparr>MaxDrawdown := dd\<rparr> else res)
     in Inr \<lparr>sa_res = res, sa_equity = equity, sa_peak = peak, sa_daily = (sa_daily a)(dateStr \<mapsto> day)\<rparr>))))"

fun summ_loop :: "'d decimal_ops \<Rightarrow> 'd PnLPoint list \<Rightarrow> 'd sum_acc \<Rightarrow> 'd sum_acc res" where
  "summ_loop D [] a = Inr a"
| "summ_loop D (t # ts) a = rbind (summ_step D t a) (summ_loop D ts)"

function day_series :: "'d decimal_ops \<Rightarrow> (int \<rightharpoonup> 'd) \<Rightarrow> gtime \<Rightarrow> gtime \<Rightarrow> 'd list" where
  "day_series D m d endDay =
     (if time_After d endDay then []
      else (case m (day_label d) of Some p \<Rightarrow> p | None \<Rightarrow> d_zero D)
             # day_series D m (time_Add d day_ns) endDay)"
  by pat_completeness auto
termination
  by (relation "measure (\<lambda>(D, m, d, e). nat (t_ns e - t_ns d + 1))") (auto simp: time_After_def)

declare day_series.simps [simp del]

definition summ_init :: "'d decimal_ops \<Rightarrow> 'd sum_acc" where
  "summ_init D = \<lparr>sa_res = Summary_zero D, sa_equity = d_zero D, sa_peak = d_zero D,
     sa_daily = Map.empty\<rparr>"

definition Summarise :: "'d decimal_ops \<Rightarrow> 'd PnLPoint list \<Rightarrow> gtime \<Rightarrow> gtime \<Rightarrow> 'd Summary res" where
  "Summarise D trades start finish =
     (if time_IsZero start \<or> time_IsZero finish then Inl ''summarise: start and end must be non-zero''
      else if time_Before finish start then Inl ''summarise: end is before start''
      else if trades = [] then Inr (Summary_zero D)
      else
        rbind (summ_loop D trades (summ_init D)) (\<lambda>a.
        let startDay = time_Truncate start day_ns;
            endDay = time_Truncate finish day_ns;
            dailyPnLs = day_series D (sa_daily a) startDay endDay in
        rbind (Sharpe D dailyPnLs) (\<lambda>ratio.
        Inr ((sa_res a)\<lparr>SharpeRatio := ratio\<rparr>))))"

section \<open>Declarative readings\<close>

definition pnls :: "'d PnLPoint list \<Rightarrow> 'd list" where
  "pnls ts = map pp_PnL ts"

definition equity_at :: "('d \<Rightarrow> rat) \<Rightarrow> 'd list \<Rightarrow> nat \<Rightarrow> rat" where
  "equity_at val ps k = val_sum val (take k ps)"

definition is_max_drawdown :: "('d \<Rightarrow> rat) \<Rightarrow> 'd list \<Rightarrow> rat \<Rightarrow> bool" where
  "is_max_drawdown val ps d \<longleftrightarrow>
     (\<forall>j\<le>length ps. \<forall>i\<le>j. equity_at val ps i - equity_at val ps j \<le> d) \<and>
     (\<exists>j\<le>length ps. \<exists>i\<le>j. equity_at val ps i - equity_at val ps j = d)"

definition is_peak :: "('d \<Rightarrow> rat) \<Rightarrow> 'd list \<Rightarrow> rat \<Rightarrow> bool" where
  "is_peak val ps p \<longleftrightarrow>
     (\<forall>i\<le>length ps. equity_at val ps i \<le> p) \<and> (\<exists>i\<le>length ps. equity_at val ps i = p)"

definition day_total :: "('d \<Rightarrow> rat) \<Rightarrow> 'd PnLPoint list \<Rightarrow> int \<Rightarrow> rat" where
  "day_total val ts k = val_sum val (pnls (filter (\<lambda>t. day_label (pp_CloseTime t) = k) ts))"

definition day_val :: "('d \<Rightarrow> rat) \<Rightarrow> (int \<rightharpoonup> 'd) \<Rightarrow> int \<Rightarrow> rat" where
  "day_val val m k = (case m k of Some p \<Rightarrow> val p | None \<Rightarrow> 0)"

text \<open>The invariant of the trade loop after the trades \<open>ts\<close>.\<close>

definition summ_inv :: "'d decimal_ops \<Rightarrow> ('d \<Rightarrow> rat) \<Rightarrow> 'd PnLPoint list \<Rightarrow> 'd sum_acc \<Rightarrow> bool" where
  "summ_inv D val ts a \<longleftrightarrow>
     val (TotalPnL (sa_res a)) = val_sum val (pnls ts) \<and>
     WinCount (sa_res a) = int (length (filter (\<lambda>p. 0 < val p) (pnls ts))) \<and>
     LossCount (sa_res a) = int (length (filter (\<lambda>p. val p < 0) (pnls ts))) \<and>
     val (sa_equity a) = val_sum val (pnls ts) \<and>
     is_peak val (pnls ts) (val (sa_peak a)) \<and>
     is_max_drawdown val (pnls ts) (val (MaxDrawdown (sa_res a))) \<and>
     (\<forall>k. day_val val (sa_daily a) k = day_total val ts k)"

section \<open>Equity, peak and drawdown one trade later\<close>

lemma equity_at_snoc: "i \<le> length ps \<Longrightarrow> equity_at val (ps @ [p]) i = equity_at val ps i"
  by (simp add: equity_at_def)

lemma equity_at_all: "equity_at val (ps @ [p]) (Suc (length ps)) = val_sum val ps + val p"
  by (simp add: equity_at_def)

lemma equity_at_length: "equity_at val ps (length ps) = val_sum val ps"
  by (simp add: equity_at_def)

lemma is_peak_Nil: "is_peak val [] 0"
  by (simp add: is_peak_def equity_at_def)

lemma is_max_drawdown_Nil: "is_max_drawdown val [] 0"
  by (simp add: is_max_drawdown_def equity_at_def)

lemma is_peak_snoc:
  assumes "is_peak val ps pk"
  shows "is_peak val (ps @ [p]) (max pk (val_sum val ps + val p))"
proof -
  have ub: "equity_at val (ps @ [p]) i \<le> max pk (val_sum val ps + val p)" if "i \<le> Suc (length ps)" for i
    using that assms by (cases "i = Suc (length ps)")
      (auto simp: is_peak_def equity_at_all equity_at_snoc le_Suc_eq max.coboundedI1)
  obtain i where "i \<le> length ps" "equity_at val ps i = pk" using assms by (auto simp: is_peak_def)
  then have "\<exists>i\<le>Suc (length ps). equity_at val (ps @ [p]) i = max pk (val_sum val ps + val p)"
    by (cases "pk \<le> val_sum val ps + val p")
      (auto simp: max_def equity_at_snoc intro: exI [of _ i] exI [of _ "Suc (length ps)"] simp: equity_at_all)
  with ub show ?thesis by (simp add: is_peak_def)
qed

lemma is_max_drawdown_snoc:
  assumes dd: "is_max_drawdown val ps d" and pk: "is_peak val (ps @ [p]) pk"
  shows "is_max_drawdown val (ps @ [p]) (max d (pk - (val_sum val ps + val p)))"
proof -
  let ?e = "equity_at val (ps @ [p])" and ?m = "max d (pk - (val_sum val ps + val p))"
  have ub: "?e i - ?e j \<le> ?m" if "j \<le> Suc (length ps)" "i \<le> j" for i j
  proof (cases "j = Suc (length ps)")
    case True
    then have "?e i \<le> pk" using that pk by (simp add: is_peak_def)
    with True show ?thesis by (simp add: equity_at_all le_max_iff_disj)
  next
    case False
    then have "j \<le> length ps" "i \<le> length ps" using that by simp_all
    then show ?thesis using dd that(2) by (simp add: is_max_drawdown_def equity_at_snoc le_max_iff_disj)
  qed
  have "\<exists>j\<le>Suc (length ps). \<exists>i\<le>j. ?e i - ?e j = ?m"
  proof (cases "pk - (val_sum val ps + val p) \<le> d")
    case True
    obtain j i where "j \<le> length ps" "i \<le> j" "equity_at val ps i - equity_at val ps j = d"
      using dd by (auto simp: is_max_drawdown_def)
    then show ?thesis using True
      by (intro exI [of _ j] conjI exI [of _ i]) (simp_all add: equity_at_snoc max_def)
  next
    case False
    obtain i where "i \<le> Suc (length ps)" "?e i = pk" using pk by (auto simp: is_peak_def)
    then show ?thesis using False
      by (intro exI [of _ "Suc (length ps)"] conjI exI [of _ i]) (simp_all add: equity_at_all max_def)
  qed
  with ub show ?thesis by (simp add: is_max_drawdown_def)
qed

lemma equity_representable:
  assumes "\<forall>p\<in>set ps. on_grid val g M p" "int (length ps) * M < 10 ^ 19" "g \<le> 19" "0 \<le> M"
  shows "\<exists>m. \<bar>m\<bar> \<le> int (length ps) * M \<and> equity_at val ps i = of_int m / 10 ^ g"
proof -
  have "\<forall>p\<in>set (take i ps). on_grid val g M p" using assms(1) by (auto dest: in_set_takeD)
  from val_sum_grid [OF this] obtain m where m: "\<bar>m\<bar> \<le> int (length (take i ps)) * M"
    "equity_at val ps i = of_int m / 10 ^ g" by (auto simp: equity_at_def)
  have "int (length (take i ps)) * M \<le> int (length ps) * M"
    using assms(4) by (intro mult_right_mono) auto
  with m show ?thesis by (intro exI [of _ m]) linarith
qed


section \<open>The trade loop\<close>

lemma day_total_snoc:
  "day_total val (ts @ [t]) k =
     day_total val ts k + (if day_label (pp_CloseTime t) = k then val (pp_PnL t) else 0)"
  by (simp add: day_total_def pnls_def)

lemma day_total_representable:
  assumes "\<forall>p\<in>set (pnls ts). on_grid val g M p" "int (length ts) * M < 10 ^ 19" "g \<le> 19" "0 \<le> M"
  shows "representable (day_total val ts k)"
  unfolding day_total_def
proof (rule val_sum_representable [OF _ _ assms(3)])
  let ?f = "filter (\<lambda>t. day_label (pp_CloseTime t) = k) ts"
  show "\<forall>x\<in>set (pnls ?f). on_grid val g M x" using assms(1) by (auto simp: pnls_def)
  have "int (length (pnls ?f)) * M \<le> int (length ts) * M"
    using assms(4) by (intro mult_right_mono) (simp_all add: pnls_def)
  then show "int (length (pnls ?f)) * M < 10 ^ 19" using assms(2) by linarith
qed

lemma half_bound:
  fixes n M B :: int
  assumes "2 * n * M < B" "0 \<le> n" "0 \<le> M"
  shows "n * M < B"
proof -
  have "0 \<le> n * M" using assms(2,3) by simp
  moreover have "2 * n * M = n * M + n * M" by simp
  ultimately show ?thesis using assms(1) by linarith
qed

lemma drawdown_representable:
  assumes "\<forall>p\<in>set ps. on_grid val g M p" "2 * int (length ps) * M < 10 ^ 19" "g \<le> 19" "0 \<le> M"
    and "is_peak val ps pk"
  shows "representable (pk - val_sum val ps)"
proof -
  have lt: "int (length ps) * M < 10 ^ 19" using half_bound [OF assms(2) _ assms(4)] by simp
  obtain i where "equity_at val ps i = pk" using assms(5) by (auto simp: is_peak_def)
  then obtain m where m: "\<bar>m\<bar> \<le> int (length ps) * M" "pk = of_int m / 10 ^ g"
    using equity_representable [OF assms(1) lt assms(3,4)] by metis
  obtain n where n: "\<bar>n\<bar> \<le> int (length ps) * M" "val_sum val ps = of_int n / 10 ^ g"
    using equity_representable [OF assms(1) lt assms(3,4), of "length ps"] by (auto simp: equity_at_length)
  have "\<bar>m - n\<bar> < 10 ^ 19" using m(1) n(1) assms(2) by linarith
  moreover have "pk - val_sum val ps = of_int (m - n) / 10 ^ g" using m n by (simp add: diff_divide_distrib)
  ultimately show ?thesis using assms(3) unfolding representable_def by blast
qed

lemma summ_inv_init: "decimal_laws D val rnd \<Longrightarrow> summ_inv D val [] (summ_init D)"
  by (simp add: summ_inv_def summ_init_def Summary_zero_def pnls_def dec_exact(1) is_peak_Nil
      is_max_drawdown_Nil day_val_def day_total_def)

lemma summ_step_ok:
  assumes L: "decimal_laws D val rnd" and inv: "summ_inv D val ts a"
    and grid: "\<forall>p\<in>set (pnls (ts @ [t])). on_grid val g M p"
    and bound: "2 * int (length (ts @ [t])) * M < 10 ^ 19" "g \<le> 19" "0 \<le> M"
  shows "\<exists>a'. summ_step D t a = Inr a' \<and> summ_inv D val (ts @ [t]) a'"
proof -
  let ?p = "pp_PnL t" and ?ps = "pnls ts" and ?k = "day_label (pp_CloseTime t)"
  let ?cur = "case sa_daily a ?k of Some c \<Rightarrow> c | None \<Rightarrow> d_zero D"
  have snoc: "pnls (ts @ [t]) = ?ps @ [?p]" by (simp add: pnls_def)
  have lt: "int (length (ts @ [t])) * M < 10 ^ 19"
    using half_bound [OF bound(1) _ bound(3)] by simp
  have rep: "representable (val_sum val ?ps + val ?p)"
    using val_sum_representable [OF grid] lt bound(2) by (simp add: pnls_def)
  obtain total where total: "d_add D (TotalPnL (sa_res a)) ?p = (total, None)"
      "val total = val_sum val ?ps + val ?p"
    using add_exact [OF L, of "TotalPnL (sa_res a)" ?p] inv rep by (auto simp: summ_inv_def)
  obtain equity where equity: "d_add D (sa_equity a) ?p = (equity, None)"
      "val equity = val_sum val ?ps + val ?p"
    using add_exact [OF L, of "sa_equity a" ?p] inv rep by (auto simp: summ_inv_def)
  have cur: "val ?cur = day_total val ts ?k"
  proof -
    have "day_val val (sa_daily a) ?k = day_total val ts ?k" using inv by (simp add: summ_inv_def)
    then show ?thesis using dec_exact(1) [OF L] by (simp add: day_val_def split: option.splits)
  qed
  obtain day where day: "d_add D ?cur ?p = (day, None)" "val day = day_total val ts ?k + val ?p"
    using add_exact [OF L, of ?cur ?p] cur day_total_representable [OF grid lt bound(2,3), of ?k]
    by (auto simp: day_total_snoc)
  let ?peak = "if d_cmp D equity (sa_peak a) > 0 then equity else sa_peak a"
  have pv: "val ?peak = max (val (sa_peak a)) (val_sum val ?ps + val ?p)"
    using equity(2) by (simp add: dec_cmp [OF L] max_def)
  have pk: "is_peak val (?ps @ [?p]) (val ?peak)"
    unfolding pv using inv by (intro is_peak_snoc) (simp add: summ_inv_def)
  have "representable (val ?peak - val equity)"
    using drawdown_representable [OF grid _ bound(2,3)] bound(1) pk equity(2)
    by (simp add: pnls_def)
  then obtain dd where dd: "d_sub D ?peak equity = (dd, None)" "val dd = val ?peak - val equity"
    using sub_exact [OF L, of ?peak equity] by auto
  have mdd: "is_max_drawdown val (?ps @ [?p])
      (val (if d_cmp D dd (MaxDrawdown (sa_res a)) > 0 then dd else MaxDrawdown (sa_res a)))"
  proof -
    have "is_max_drawdown val (?ps @ [?p])
        (max (val (MaxDrawdown (sa_res a))) (val ?peak - (val_sum val ?ps + val ?p)))"
      using inv pk by (intro is_max_drawdown_snoc) (simp_all add: summ_inv_def)
    then show ?thesis using dd(2) equity(2) by (simp add: dec_cmp [OF L] max_def split: if_splits)
  qed
  have ex: "d_IsPos D ?p \<longleftrightarrow> 0 < val ?p" "d_IsNeg D ?p \<longleftrightarrow> val ?p < 0" by (rule dec_exact [OF L])+
  show ?thesis
    unfolding summ_step_def Let_def total(1) day(1) equity(1)
    using dd(1) inv total(2) equity(2) day(2) pk mdd ex unfolding summ_inv_def snoc
    by (auto simp: day_val_def day_total_snoc split: if_splits)
qed

lemma summ_loop_ok:
  assumes L: "decimal_laws D val rnd" and inv: "summ_inv D val ts a"
    and grid: "\<forall>p\<in>set (pnls (ts @ us)). on_grid val g M p"
    and bound: "2 * int (length (ts @ us)) * M < 10 ^ 19" "g \<le> 19" "0 \<le> M"
  shows "\<exists>a'. summ_loop D us a = Inr a' \<and> summ_inv D val (ts @ us) a'"
  using inv grid bound(1)
proof (induction us arbitrary: ts a)
  case Nil
  then show ?case by simp
next
  case (Cons u us)
  have le: "2 * int (length (ts @ [u])) * M \<le> 2 * int (length (ts @ u # us)) * M"
    using bound(3) by (intro mult_right_mono) simp_all
  have "\<forall>p\<in>set (pnls (ts @ [u])). on_grid val g M p" using Cons.prems(2) by (simp add: pnls_def)
  from summ_step_ok [OF L Cons.prems(1) this _ bound(2,3)] le Cons.prems(3)
  obtain b where b: "summ_step D u a = Inr b" "summ_inv D val (ts @ [u]) b" by auto
  from Cons.IH [OF b(2)] Cons.prems(2,3) b(1) show ?case by simp
qed

section \<open>The daily series\<close>

lemma day_label_succ: "day_label (time_Add d day_ns) = day_label d + 1"
  by (simp add: day_label_def)

text \<open>The series lists the days from that of \<open>d\<close>, one per started day of the window.\<close>

lemma day_series_eq:
  "day_series D m d e =
     map (\<lambda>i. case m (day_label d + int i) of Some p \<Rightarrow> p | None \<Rightarrow> d_zero D)
       [0..<nat ((t_ns e - t_ns d) div day_ns + 1)]"
proof (induction D m d e rule: day_series.induct)
  case (1 D m d e)
  show ?case
  proof (cases "time_After d e")
    case True
    then have "(t_ns e - t_ns d) div day_ns < 0" by (simp add: time_After_def)
    then show ?thesis using True by (simp add: day_series.simps [of D m d])
  next
    case False
    define n where "n = nat ((t_ns e - t_ns d) div day_ns)"
    have nn: "0 \<le> (t_ns e - t_ns d) div day_ns" using False by (simp add: time_After_def)
    have step: "(t_ns e - (t_ns d + day_ns)) div day_ns = (t_ns e - t_ns d) div day_ns - 1"
      using div_mult_self1 [of day_ns "t_ns e - t_ns d" "-1"] by (simp add: algebra_simps)
    have "nat ((t_ns e - t_ns d) div day_ns + 1) = Suc n"
      "nat ((t_ns e - t_ns (time_Add d day_ns)) div day_ns + 1) = n"
      using nn step by (simp_all add: n_def nat_add_distrib)
    then show ?thesis
      using 1 False day_label_succ [of d]
      by (simp add: day_series.simps [of D m d] upt_conv_Cons map_Suc_upt [symmetric]
          comp_def algebra_simps del: upt_Suc)
  qed
qed


lemma val_sum_map_upt: "val_sum val (map f [0..<n]) = (\<Sum>i<n. val (f i))"
  by (induction n) simp_all

lemma sum_day_total:
  "(\<Sum>i<n. day_total val ts (l + int i)) =
     val_sum val (pnls (filter (\<lambda>t. l \<le> day_label (pp_CloseTime t) \<and> day_label (pp_CloseTime t) < l + int n) ts))"
proof (induction ts)
  case Nil
  then show ?case by (simp add: day_total_def pnls_def)
next
  case (Cons t ts)
  let ?k = "day_label (pp_CloseTime t)"
  have split: "day_total val (t # ts) j = day_total val ts j + (if ?k = j then val (pp_PnL t) else 0)" for j
    by (simp add: day_total_def pnls_def)
  have eq: "(?k = l + int i) = (i = nat (?k - l) \<and> l \<le> ?k)" for i by auto
  have "(\<Sum>i<n. if ?k = l + int i then val (pp_PnL t) else 0) =
      (if l \<le> ?k \<and> ?k < l + int n then val (pp_PnL t) else 0)"
    unfolding eq by (cases "l \<le> ?k") (auto simp: sum.delta nat_less_iff)
  then show ?case using Cons by (simp add: split sum.distrib pnls_def)
qed

lemma val_sum_day_series:
  assumes L: "decimal_laws D val rnd" and inv: "summ_inv D val ts a"
  shows "val_sum val (day_series D (sa_daily a) d e) =
    val_sum val (pnls (filter (\<lambda>t. day_label d \<le> day_label (pp_CloseTime t) \<and>
      day_label (pp_CloseTime t) < day_label d + int (nat ((t_ns e - t_ns d) div day_ns + 1))) ts))"
proof -
  have "val (case sa_daily a k of Some p \<Rightarrow> p | None \<Rightarrow> d_zero D) = day_total val ts k" for k
  proof -
    have "day_val val (sa_daily a) k = day_total val ts k" using inv by (simp add: summ_inv_def)
    then show ?thesis using dec_exact(1) [OF L] by (simp add: day_val_def split: option.splits)
  qed
  then show ?thesis unfolding day_series_eq val_sum_map_upt by (simp only: sum_day_total)
qed

text \<open>Labels and lengths of the series for a window with one zone offset.\<close>

lemma truncated_days:
  "day_label (time_Truncate t day_ns) = t_ns t div day_ns + t_off t div day_ns"
  "(t_ns (time_Truncate f day_ns) - t_ns (time_Truncate t day_ns)) div day_ns = t_ns f div day_ns - t_ns t div day_ns"
proof -
  have gen: "(a * d + c) div d = a + c div d" "(a * d - b * d) div d = a - b" if "d \<noteq> 0" for a b c d :: int
    using that by (simp, simp flip: left_diff_distrib)
  have tr: "t_ns (time_Truncate t d) = t_ns t div d * d" if "0 < d" for t d
    using that by (simp add: time_Truncate_def minus_mod_eq_div_mult)
  have "t_off (time_Truncate t day_ns) = t_off t" by (simp add: time_Truncate_def)
  then show "day_label (time_Truncate t day_ns) = t_ns t div day_ns + t_off t div day_ns"
    using gen(1) [of day_ns "t_ns t div day_ns" "t_off t"] tr [of day_ns t] by (simp only: day_label_def)
  show "(t_ns (time_Truncate f day_ns) - t_ns (time_Truncate t day_ns)) div day_ns =
      t_ns f div day_ns - t_ns t div day_ns"
    using gen(2) [of day_ns "t_ns f div day_ns" "t_ns t div day_ns"] tr [of day_ns f] tr [of day_ns t]
    by (simp only:)
qed

section \<open>Sharpe ratio\<close>

lemma sum_loop_exact:
  assumes L: "decimal_laws D val rnd" and grid: "\<forall>p\<in>set (ps @ qs). on_grid val g M p"
    and bound: "int (length (ps @ qs)) * M < 10 ^ 19" "g \<le> 19" "0 \<le> M" and acc: "val acc = val_sum val ps"
  shows "\<exists>r. sum_loop D acc qs = Inr r \<and> val r = val_sum val (ps @ qs)"
  using grid bound(1) acc
proof (induction qs arbitrary: ps acc)
  case Nil
  then show ?case by simp
next
  case (Cons q qs)
  have "int (length (ps @ [q])) * M \<le> int (length (ps @ q # qs)) * M"
    using bound(3) by (intro mult_right_mono) simp_all
  then have "representable (val_sum val (ps @ [q]))"
    using Cons.prems(1,2) by (intro val_sum_representable [OF _ _ bound(2)]) auto
  then obtain r where r: "d_add D acc q = (r, None)" "val r = val_sum val (ps @ [q])"
    using add_exact [OF L, of acc q] Cons.prems(3) by auto
  from Cons.IH [of "ps @ [q]" r] Cons.prems r show ?case by simp
qed

lemma Sharpe_value:
  assumes L: "decimal_laws D val rnd" and n: "int64_ok (int (length ps))"
    and S: "Sharpe D ps = Inr r" and sl: "sum_loop D (d_zero D) ps = Inr tot"
  shows "val r = 0 \<or> (\<exists>c e. 0 < c \<and> 0 \<le> e \<and> val r = rnd (rnd (rnd (val tot / of_nat (length ps)) / c) * e))"
proof (cases "length ps < 2")
  case True
  with S show ?thesis using dec_exact(1) [OF L] by (simp add: Sharpe_def)
next
  case False
  with S sl obtain mean v0 v sd where
    mean: "d_quo D tot (d_new D (int (length ps))) = (mean, None)"
    and sd: "d_sqrt D v = (sd, None)"
    and rest: "(if d_IsZero D sd then Inr (d_zero D)
        else rbind (tryv (d_of_float D AnnualTradingDays)) (\<lambda>tradingDays.
          rbind (tryv (d_sqrt D tradingDays)) (\<lambda>sqrtDays.
          rbind (tryv (d_quo D mean sd)) (\<lambda>ratio. tryv (d_mul D ratio sqrtDays))))) = Inr r"
    unfolding Sharpe_def by (auto simp: tryv_eq_Inr)
  have m: "val mean = rnd (val tot / of_nat (length ps))"
    using val_quo [OF L mean] dec_exact(3) [OF L n] by simp
  show ?thesis
  proof (cases "d_IsZero D sd")
    case True
    with rest show ?thesis using dec_exact(1) [OF L] by simp
  next
    case False
    with rest obtain td sq ratio where
      sq: "d_sqrt D td = (sq, None)" and ratio: "d_quo D mean sd = (ratio, None)" "d_mul D ratio sq = (r, None)"
      by (auto simp: tryv_eq_Inr)
    have "0 < val sd" using sqrt_nonneg(2) [OF L sd] False dec_exact(9) [OF L, of sd] by simp
    moreover have "0 \<le> val sq" using sqrt_nonneg(2) [OF L sq] .
    ultimately show ?thesis
      using val_mul [OF L ratio(2)] val_quo [OF L ratio(1)] m by metis
  qed
qed

section \<open>A concrete window\<close>

definition sample_day :: "int \<Rightarrow> gtime" where
  "sample_day k = \<lparr>t_ns = k * day_ns, t_off = 0\<rparr>"

definition sample_trades :: "rat PnLPoint list" where
  "sample_trades = [\<lparr>pp_PnL = 7, pp_CloseTime = sample_day 10\<rparr>, \<lparr>pp_PnL = -4, pp_CloseTime = sample_day 11\<rparr>]"

lemma sample_trades_grid: "\<forall>t\<in>set sample_trades. on_grid id 0 9 (pp_PnL t)"
  by (auto simp: sample_trades_def on_grid_def intro: exI [of _ 7] exI [of _ "-4"])

lemma sample_summ_loop:
  "summ_loop rat_ops sample_trades (summ_init rat_ops) =
     Inr \<lparr>sa_res = \<lparr>TotalPnL = 3, WinCount = 1, LossCount = 1, MaxDrawdown = 4, SharpeRatio = 0\<rparr>,
       sa_equity = 3, sa_peak = 7, sa_daily = [10 \<mapsto> 7, 11 \<mapsto> -4]\<rparr>"
  by (simp add: sample_trades_def summ_init_def Summary_zero_def summ_step_def rat_ops_def day_label_def
      sample_day_def)

lemma sample_Sharpe: "\<exists>r. Sharpe rat_ops [7, -4] = Inr r"
  by (cases "rat_sqrt (121 / 2) = 0") (simp_all add: Sharpe_def rat_ops_def AnnualTradingDays_def)

section \<open>What the statistics promise\<close>

text \<open>For a non-empty list of trades whose profits fit the decimal format, a summary reports the
  exact total profit, the number of trades with positive and with negative profit (a zero profit is
  neither), and the maximum drawdown: the largest fall of cumulative profit from an earlier level
  (the starting level 0 included) to a later one. The loop over the trades never fails there.\<close>

theorem summarise_correct:
  assumes "decimal_laws D val rnd" "trades \<noteq> []"
    and "\<forall>t\<in>set trades. on_grid val g M (pp_PnL t)" "2 * int (length trades) * M < 10 ^ 19" "g \<le> 19" "0 \<le> M"
    and "\<not> time_IsZero start" "\<not> time_IsZero finish" "\<not> time_Before finish start"
  shows "\<exists>a. summ_loop D trades (summ_init D) = Inr a \<and>
    (\<forall>s. Summarise D trades start finish = Inr s \<longrightarrow>
      val (TotalPnL s) = val_sum val (map pp_PnL trades) \<and>
      WinCount s = int (length (filter (\<lambda>t. 0 < val (pp_PnL t)) trades)) \<and>
      LossCount s = int (length (filter (\<lambda>t. val (pp_PnL t) < 0) trades)) \<and>
      is_max_drawdown val (map pp_PnL trades) (val (MaxDrawdown s)))"
proof -
  obtain a where a: "summ_loop D trades (summ_init D) = Inr a" "summ_inv D val trades a"
    using summ_loop_ok [OF assms(1) summ_inv_init [OF assms(1)], of trades g M] assms(3-6) by (auto simp: pnls_def)
  have "sa_res a = s\<lparr>SharpeRatio := SharpeRatio (sa_res a)\<rparr>" if "Summarise D trades start finish = Inr s" for s
    using that a(1) assms(2,7-9) by (auto simp: Summarise_def Let_def)
  then show ?thesis
    using a by (auto simp: summ_inv_def pnls_def filter_map comp_def intro!: exI [of _ a])
      (metis Summary.select_convs Summary.surjective Summary.update_convs(5))+
qed

theorem summarise_correct_witness:
  "decimal_laws rat_ops id id \<and> (\<exists>s. Summarise rat_ops sample_trades (sample_day 10) (sample_day 11) = Inr s \<and>
     TotalPnL s = 3 \<and> WinCount s = 1 \<and> LossCount s = 1 \<and> is_max_drawdown id [7, -4] (MaxDrawdown s))"
proof -
  have times: "\<not> time_IsZero (sample_day 10)" "\<not> time_IsZero (sample_day 11)"
      "\<not> time_Before (sample_day 11) (sample_day 10)"
    by (simp_all add: time_defs sample_day_def)
  have ne: "sample_trades \<noteq> []" and len: "2 * int (length sample_trades) * 9 < 10 ^ 19"
    by (simp_all add: sample_trades_def)
  have two: "nat ((t_ns (sample_day 11) - t_ns (sample_day 10)) div day_ns + 1) = 2"
    by (simp add: sample_day_def)
  have ser: "day_series rat_ops [10 \<mapsto> 7, 11 \<mapsto> -4] (time_Truncate (sample_day 10) day_ns)
      (time_Truncate (sample_day 11) day_ns) = [7, -4]"
    unfolding day_series_eq truncated_days by (simp add: sample_day_def upt_rec)
  obtain r where r: "Sharpe rat_ops [7, -4] = Inr r" using sample_Sharpe by blast
  have S: "Summarise rat_ops sample_trades (sample_day 10) (sample_day 11) =
      Inr \<lparr>TotalPnL = 3, WinCount = 1, LossCount = 1, MaxDrawdown = 4, SharpeRatio = r\<rparr>"
    using times ne r ser by (simp add: Summarise_def sample_summ_loop Let_def)
  show ?thesis
    using summarise_correct [OF rat_ops_laws ne sample_trades_grid len _ _ times] S rat_ops_laws
    by (auto simp: sample_trades_def)
qed

text \<open>When the window and the closing times are in UTC and every trade closes inside the window,
  the daily series from which the Sharpe ratio is computed carries exactly the total profit.\<close>

theorem daily_series_complete:
  assumes L: "decimal_laws D val rnd" and grid: "\<forall>t\<in>set trades. on_grid val g M (pp_PnL t)"
    and bound: "2 * int (length trades) * M < 10 ^ 19" "g \<le> 19" "0 \<le> M"
    and loop: "summ_loop D trades (summ_init D) = Inr a"
    and utc: "t_off start = 0" "t_off finish = 0"
    and inside: "\<forall>t\<in>set trades. t_off (pp_CloseTime t) = 0 \<and>
      t_ns start \<le> t_ns (pp_CloseTime t) \<and> t_ns (pp_CloseTime t) \<le> t_ns finish"
  shows "val_sum val (day_series D (sa_daily a) (time_Truncate start day_ns) (time_Truncate finish day_ns)) =
    val_sum val (map pp_PnL trades)"
proof -
  have inv: "summ_inv D val trades a"
    using summ_loop_ok [OF L summ_inv_init [OF L], of trades g M] grid bound loop by (auto simp: pnls_def)
  have "filter (\<lambda>t. day_label (time_Truncate start day_ns) \<le> day_label (pp_CloseTime t) \<and>
      day_label (pp_CloseTime t) < day_label (time_Truncate start day_ns) +
        int (nat ((t_ns (time_Truncate finish day_ns) - t_ns (time_Truncate start day_ns)) div day_ns + 1))) trades
      = trades"
  proof (rule filter_True, rule ballI)
    fix t assume "t \<in> set trades"
    with inside have o: "t_off (pp_CloseTime t) = 0" and i: "t_ns start \<le> t_ns (pp_CloseTime t)"
      "t_ns (pp_CloseTime t) \<le> t_ns finish" by auto
    from i(1) have "t_ns start div day_ns \<le> t_ns (pp_CloseTime t) div day_ns" by (rule zdiv_mono1) simp
    moreover from i(2) have "t_ns (pp_CloseTime t) div day_ns \<le> t_ns finish div day_ns" by (rule zdiv_mono1) simp
    ultimately show "day_label (time_Truncate start day_ns) \<le> day_label (pp_CloseTime t) \<and>
      day_label (pp_CloseTime t) < day_label (time_Truncate start day_ns) +
        int (nat ((t_ns (time_Truncate finish day_ns) - t_ns (time_Truncate start day_ns)) div day_ns + 1))"
      unfolding truncated_days using utc o by (simp add: day_label_def)
  qed
  then show ?thesis unfolding val_sum_day_series [OF L inv] by (simp add: pnls_def)
qed

theorem daily_series_complete_witness:
  "\<exists>a. summ_loop rat_ops sample_trades (summ_init rat_ops) = Inr a \<and>
     val_sum id (day_series rat_ops (sa_daily a) (time_Truncate (sample_day 9) day_ns)
       (time_Truncate (sample_day 12) day_ns)) = 3"
  using daily_series_complete [OF rat_ops_laws sample_trades_grid _ _ _ sample_summ_loop,
      of "sample_day 9" "sample_day 12"]
  unfolding sample_summ_loop by (auto simp: sample_trades_def sample_day_def)

text \<open>When the window carries a negative zone offset, the series prints its days one calendar day
  early while trades are keyed by their UTC date: whatever the profit recorded for the last UTC day
  of the window, the series (hence the Sharpe ratio) is the same as if it had not been recorded.\<close>

theorem negative_offset_drops_last_day:
  assumes "- day_ns \<le> t_off start" "t_off start < 0" "t_ns start \<le> t_ns finish"
  shows "day_series D (m(day_label (time_UTC finish) \<mapsto> p)) (time_Truncate start day_ns) (time_Truncate finish day_ns) =
    day_series D (m(day_label (time_UTC finish) := None)) (time_Truncate start day_ns) (time_Truncate finish day_ns)"
proof -
  have off: "t_off start div day_ns = -1" using assms(1,2) by (intro int_div_pos_eq [of _ _ _ "t_off start + day_ns"]) simp_all
  have "t_ns start div day_ns \<le> t_ns finish div day_ns" using assms(3) by (rule zdiv_mono1) simp
  then show ?thesis
    unfolding day_series_eq truncated_days off by (auto simp: day_label_def time_UTC_def)
qed

theorem negative_offset_drops_last_day_witness:
  "day_series rat_ops [11 \<mapsto> 5] (time_Truncate \<lparr>t_ns = 10 * day_ns, t_off = - 5 * hour_ns\<rparr> day_ns)
      (time_Truncate (sample_day 11) day_ns) = [0, 0]"
  using negative_offset_drops_last_day [of "\<lparr>t_ns = 10 * day_ns, t_off = - 5 * hour_ns\<rparr>" "sample_day 11"
      rat_ops Map.empty 5]
  unfolding day_series_eq truncated_days
  by (simp add: sample_day_def day_label_def time_UTC_def rat_ops_def upt_rec)

text \<open>the Sharpe ratio has the sign of the total profit: it is not negative when the daily
  profits sum to at least zero and not positive when they sum to at most zero.\<close>

theorem sharpe_sign:
  assumes L: "decimal_laws D val rnd" and grid: "\<forall>p\<in>set ps. on_grid val g M p"
    and bound: "int (length ps) * M < 10 ^ 19" "g \<le> 19" "0 \<le> M" "int64_ok (int (length ps))"
    and S: "Sharpe D ps = Inr r"
  shows "(0 \<le> val_sum val ps \<longrightarrow> 0 \<le> val r) \<and> (val_sum val ps \<le> 0 \<longrightarrow> val r \<le> 0)"
proof -
  obtain tot where t: "sum_loop D (d_zero D) ps = Inr tot" "val tot = val_sum val ps"
    using sum_loop_exact [OF L, of "[]" ps g M "d_zero D"] grid bound dec_exact(1) [OF L] by auto
  consider "val r = 0" | c e where "0 < c" "0 \<le> e"
      "val r = rnd (rnd (rnd (val_sum val ps / of_nat (length ps)) / c) * e)"
    using Sharpe_value [OF L bound(4) S t(1)] t(2) by auto
  then show ?thesis
  proof cases
    case 2
    have "0 \<le> val r" if "0 \<le> val_sum val ps"
      unfolding 2(3) using that 2(1,2) by (intro rnd_nonneg [OF L] mult_nonneg_nonneg divide_nonneg_nonneg) simp_all
    moreover have "val r \<le> 0" if "val_sum val ps \<le> 0"
      unfolding 2(3) using that 2(1,2)
      by (intro rnd_nonpos [OF L] mult_nonpos_nonneg divide_nonpos_pos rnd_nonpos [OF L] divide_nonpos_nonneg) simp_all
    ultimately show ?thesis by blast
  qed simp
qed

theorem sharpe_sign_witness:
  "\<exists>r. Sharpe rat_ops [7, -4] = Inr r \<and> 0 \<le> r"
proof -
  obtain r where r: "Sharpe rat_ops [7, -4] = Inr r" using sample_Sharpe by blast
  have "\<forall>p\<in>set [7, -4]. on_grid id 0 9 p"
    by (auto simp: on_grid_def intro: exI [of _ 7] exI [of _ "-4"])
  with r show ?thesis using sharpe_sign [OF rat_ops_laws _ _ _ _ _ r, of 0 9] by (simp add: int64_ok_def)
qed

end
