(* ===== verification/Exec_Loop.thy ===== *)
theory Exec_Loop
  imports Exec_Model
begin

text \<open>
  What the execution strategies TWAP and VWAP (\<open>src/strategy/twap/strategy.go\<close>,
  \<open>src/strategy/vwap/strategy.go\<close>) have in common: the fields of their \<open>Strategy\<close> structs, the wrappers
  around the executor, and the events of their \<open>select\<close> loops.

  \<^item> Each event carries the answers of the outside world during its handling (\<open>ExecEnv\<close>); its \<open>env_Now\<close>
    is the clock the handler reads.
  \<^item> The locale \<open>slot_scheduler\<close> is the contract of a dispatch loop that walks over a fixed number of
    time slots: what one event may do. Its lemmas bound a whole run; both strategies interpret it.
\<close>

section \<open>Strategy state\<close>

record ('c, 'd) ExecStrategy =
  xs_cfg :: 'c
  xs_exec :: Executor
  xs_paused :: bool
  xs_cancelled :: bool
  xs_updates :: bool
  xs_state :: "'d RunState"
  xs_decSeq :: int

datatype 'd LoopEvent =
    CtxDone
  | Msg Message
  | OrderUpdate "'d OrderFillEvent"
  | UpdatesClosed
  | TimerFired

type_synonym 'd event = "'d ExecEnv \<times> 'd LoopEvent"

datatype outcome = Running | Returned "gerror option" | Panicked

section \<open>Wrappers around the executor\<close>

definition loadState ::
  "'d decimal_ops \<Rightarrow> (string \<Rightarrow> 'd RunState gopair) \<Rightarrow> 'd ExecEnv \<Rightarrow> ('c, 'd, 'z) ExecStrategy_scheme \<Rightarrow>
     ('c, 'd, 'z) ExecStrategy_scheme" where
  "loadState D unmarshal E s =
     (case LoadState E (xs_exec s) of
        Inl err \<Rightarrow> s
      | Inr raw \<Rightarrow>
          if raw = [] then s
          else (case UnmarshalState D unmarshal raw of
              Inl err \<Rightarrow> s
            | Inr state \<Rightarrow> s\<lparr>xs_state := state\<rparr>))"

definition processOrderUpdate ::
  "'d decimal_ops \<Rightarrow> ('d RunState \<Rightarrow> string gopair) \<Rightarrow> 'd ExecEnv \<Rightarrow> 'd OrderFillEvent \<Rightarrow>
     ('c, 'd, 'z) ExecStrategy_scheme \<Rightarrow> ('c, 'd, 'z) ExecStrategy_scheme \<times> 'd Effect list" where
  "processOrderUpdate D marshal E evt s =
     (case ProcessOrderUpdate (RunState_view D marshal) D E (xs_exec s) (xs_state s) evt of
        (stateCopy, eff) \<Rightarrow> (s\<lparr>xs_state := stateCopy\<rparr>, eff))"

definition saveState ::
  "'d decimal_ops \<Rightarrow> ('d RunState \<Rightarrow> string gopair) \<Rightarrow> 'd ExecEnv \<Rightarrow>
     ('c, 'd, 'z) ExecStrategy_scheme \<Rightarrow> 'd Effect list" where
  "saveState D marshal E s = SaveState (RunState_view D marshal) E (xs_exec s) (xs_state s)"

text \<open>\<open>placeChunk\<close> and \<open>placeBucket\<close>: nothing changes when the order fails.\<close>

definition place_slice ::
  "'d decimal_ops \<Rightarrow> ('d RunState \<Rightarrow> string gopair) \<Rightarrow> 'd ExecEnv \<Rightarrow> string \<Rightarrow> Signal \<Rightarrow> 'd \<Rightarrow>
     ('c, 'd, 'z) ExecStrategy_scheme \<Rightarrow> ('c, 'd, 'z) ExecStrategy_scheme \<times> 'd Effect list" where
  "place_slice D marshal E assetID signal sz s =
     (case PlaceOrder (RunState_view D marshal) D E (xs_exec s) (xs_state s) assetID signal sz of
        (stateCopy, Inl err, eff) \<Rightarrow> (s, eff)
      | (stateCopy, Inr (orderID, clientOrderID), eff) \<Rightarrow>
          let s = s\<lparr>xs_state := stateCopy, xs_decSeq := wrap64 (xs_decSeq s + 1)\<rparr> in
          (s, eff @ RecordDecision D E (xs_exec s) signal assetID sz clientOrderID (time_UTC (env_Now E)) (xs_decSeq s)
                @ saveState D marshal E s))"

definition handle_message :: "Message \<Rightarrow> ('c, 'd, 'z) ExecStrategy_scheme \<Rightarrow> ('c, 'd, 'z) ExecStrategy_scheme" where
  "handle_message msg s =
     (case msg of
        Pause \<Rightarrow> s\<lparr>xs_paused := True\<rparr>
      | Resume \<Rightarrow> s\<lparr>xs_paused := False\<rparr>
      | Stop \<Rightarrow> s\<lparr>xs_cancelled := True\<rparr>)"

definition set_processed :: "int \<Rightarrow> ('c, 'd, 'z) ExecStrategy_scheme \<Rightarrow> ('c, 'd, 'z) ExecStrategy_scheme" where
  "set_processed n s = s\<lparr>xs_state := (xs_state s)\<lparr>ChunksProcessed := n\<rparr>\<rparr>"

definition side_signal :: "string \<Rightarrow> Signal" where
  "side_signal side = (if side = ''sell'' then SignalSell else SignalBuy)"

text \<open>The loop that skips slots whose time has passed, checkpointing each.\<close>

function skip_missed ::
  "'d decimal_ops \<Rightarrow> ('d RunState \<Rightarrow> string gopair) \<Rightarrow> 'd ExecEnv \<Rightarrow> (int \<Rightarrow> gtime) \<Rightarrow> int \<Rightarrow> int \<Rightarrow>
     ('c, 'd, 'z) ExecStrategy_scheme \<Rightarrow> int \<times> ('c, 'd, 'z) ExecStrategy_scheme \<times> 'd Effect list" where
  "skip_missed D marshal E sched limit k s =
     (if k < limit \<and> \<not> time_Before (env_Now E) (sched k)
      then let s = set_processed (k + 1) s in
           (case skip_missed D marshal E sched limit (k + 1) s of
              (k', s', eff) \<Rightarrow> (k', s', saveState D marshal E s @ eff))
      else (k, s, []))"
  by pat_completeness auto
termination
  by (relation "measure (\<lambda>(D, m, E, sched, limit, k, s). nat (limit - k))") auto

declare skip_missed.simps [simp del]

text \<open>\<open>encoding/json\<close> decodes the \<open>int\<close> field \<open>ChunksProcessed\<close> to a value of that type or fails.\<close>

definition decodes_int :: "(string \<Rightarrow> 'd RunState gopair) \<Rightarrow> bool" where
  "decodes_int unmarshal \<longleftrightarrow> (\<forall>raw st. unmarshal raw = (st, None) \<longrightarrow> int64_ok (ChunksProcessed st))"

section \<open>Running a list of events\<close>

primrec run_events :: "('e \<Rightarrow> 'l \<Rightarrow> 'l \<times> 'f list) \<Rightarrow> 'e list \<Rightarrow> 'l \<Rightarrow> 'l \<times> 'f list" where
  "run_events step [] l = (l, [])"
| "run_events step (e # es) l =
     (case step e l of (l1, f1) \<Rightarrow> case run_events step es l1 of (l2, f2) \<Rightarrow> (l2, f1 @ f2))"

definition is_order :: "'d Effect \<Rightarrow> bool" where
  "is_order f = (case f of EOrder _ _ \<Rightarrow> True | _ \<Rightarrow> False)"

definition is_timer :: "'d event \<Rightarrow> bool" where
  "is_timer e \<longleftrightarrow> (case snd e of TimerFired \<Rightarrow> True | _ \<Rightarrow> False)"

definition order_count :: "'d Effect list \<Rightarrow> int" where
  "order_count fs = int (length (filter is_order fs))"

definition order_qtys :: "'d Effect list \<Rightarrow> 'd list" where
  "order_qtys fs = concat (map (\<lambda>f. case f of EOrder req _ \<Rightarrow> [oreq_Quantity req] | _ \<Rightarrow> []) fs)"

section \<open>Lemmas on the wrappers\<close>

lemma order_count_simps [simp]:
  "order_count [] = 0" "order_count (f # fs) = (if is_order f then 1 else 0) + order_count fs"
  "order_count (fs @ gs) = order_count fs + order_count gs"
  by (simp_all add: order_count_def)

lemma order_qtys_simps [simp]:
  "order_qtys [] = []" "order_qtys (fs @ gs) = order_qtys fs @ order_qtys gs"
  "order_qtys (EOrder req r # fs) = oreq_Quantity req # order_qtys fs"
  "order_qtys (EState raw x # fs) = order_qtys fs" "order_qtys (EDecision d x # fs) = order_qtys fs"
  by (simp_all add: order_qtys_def)

lemma order_count_qtys: "order_count fs = int (length (order_qtys fs))"
  by (induction fs) (auto simp: order_qtys_def is_order_def split: Effect.splits)

lemma SaveState_no_qtys [simp]: "order_qtys (SaveState V E e s) = []"
  by (auto simp: SaveState_def split: prod.splits option.splits)

lemma saveState_no_qtys [simp]: "order_qtys (saveState D m E s) = []"
  by (simp add: saveState_def)

lemma RecordDecision_no_qtys [simp]: "order_qtys (RecordDecision D E e sig b q c t n) = []"
  by (simp add: RecordDecision_def Let_def)

lemma ProcessOrderUpdate_no_order: "order_qtys (snd (ProcessOrderUpdate V D E e s evt)) = []"
  by (auto simp: ProcessOrderUpdate_def Let_def split: prod.splits option.splits)

lemma ProcessOrderUpdate_processed:
  "ChunksProcessed (fst (ProcessOrderUpdate (RunState_view D m) D E e s evt)) = ChunksProcessed s"
  by (auto simp: ProcessOrderUpdate_def RunState_view_def SetOrder_def settle_def AddTotalFilled_def Let_def
      split: prod.splits option.splits)

lemma processOrderUpdate_frame:
  assumes "processOrderUpdate D m E evt s = (s', eff)"
  shows "ChunksProcessed (xs_state s') = ChunksProcessed (xs_state s)" "xs_cfg s' = xs_cfg s"
    "xs_exec s' = xs_exec s" "ExecStrategy.more s' = ExecStrategy.more s" "order_qtys eff = []"
  using assms ProcessOrderUpdate_processed [of D m E "xs_exec s" "xs_state s" evt]
    ProcessOrderUpdate_no_order [of "RunState_view D m" D E "xs_exec s" "xs_state s" evt]
  by (auto simp: processOrderUpdate_def split: prod.splits)

lemma reconcile_frame:
  "ChunksProcessed (fst (ReconcilePendingOrders (RunState_view D m) D E e s)) = ChunksProcessed s"
  "order_qtys (snd (ReconcilePendingOrders (RunState_view D m) D E e s)) = []"
proof -
  have one: "ChunksProcessed (reconcile_one (RunState_view D m) D E io st) = ChunksProcessed st" for io st
    by (auto simp: reconcile_one_def RunState_view_def SetOrder_def settle_def AddTotalFilled_def Let_def
        split: prod.splits option.splits)
  have "ChunksProcessed (fold (reconcile_one (RunState_view D m) D E) ies st) = ChunksProcessed st" for ies st
    by (induction ies arbitrary: st) (simp_all add: one)
  then show "ChunksProcessed (fst (ReconcilePendingOrders (RunState_view D m) D E e s)) = ChunksProcessed s"
    "order_qtys (snd (ReconcilePendingOrders (RunState_view D m) D E e s)) = []"
    by (simp_all add: ReconcilePendingOrders_def Let_def)
qed

text \<open>What loading leaves: the persisted state when there is a readable one.\<close>

lemma loadState_frame:
  "xs_cfg (loadState D u E s) = xs_cfg s" "xs_exec (loadState D u E s) = xs_exec s"
  "ExecStrategy.more (loadState D u E s) = ExecStrategy.more s"
  by (auto simp: loadState_def split: sum.splits)

lemma loadState_processed:
  assumes "int64_ok (ChunksProcessed (xs_state s))" "decodes_int u"
  shows "int64_ok (ChunksProcessed (xs_state (loadState D u E s)))"
  using assms by (auto simp: decodes_int_def loadState_def UnmarshalState_def tryv_eq_Inr split: sum.splits)

text \<open>Placing a slice sends one order, of the given size, and touches only the run state and the
  decision counter.\<close>

lemma PlaceOrder_one_order:
  "order_qtys (snd (snd (PlaceOrder V D E e s b sig q))) = [q]"
  by (auto simp: PlaceOrder_def Let_def split: prod.splits option.splits)

lemma PlaceOrder_processed:
  "ChunksProcessed (fst (PlaceOrder (RunState_view D m) D E e s b sig q)) = ChunksProcessed s"
  by (auto simp: PlaceOrder_def RunState_view_def AppendOrder_def AddTotalSubmitted_def Let_def
      split: prod.splits option.splits)

lemma place_slice_frame:
  assumes "place_slice D m E b sig q s = (s', eff)"
  shows "ChunksProcessed (xs_state s') = ChunksProcessed (xs_state s)" "xs_cfg s' = xs_cfg s"
    "xs_exec s' = xs_exec s" "xs_paused s' = xs_paused s" "ExecStrategy.more s' = ExecStrategy.more s"
    "order_qtys eff = [q]"
  using assms PlaceOrder_one_order [of "RunState_view D m" D E "xs_exec s" "xs_state s" b sig q]
    PlaceOrder_processed [of D m E "xs_exec s" "xs_state s" b sig q]
  by (auto simp: place_slice_def Let_def split: prod.splits sum.splits)

lemma set_processed_simps [simp]:
  "ChunksProcessed (xs_state (set_processed n s)) = n" "xs_cfg (set_processed n s) = xs_cfg s"
  "xs_exec (set_processed n s) = xs_exec s" "xs_paused (set_processed n s) = xs_paused s"
  "ExecStrategy.more (set_processed n s) = ExecStrategy.more s"
  "TotalFilled (xs_state (set_processed n s)) = TotalFilled (xs_state s)"
  "TotalSubmitted (xs_state (set_processed n s)) = TotalSubmitted (xs_state s)"
  "Orders (xs_state (set_processed n s)) = Orders (xs_state s)"
  by (simp_all add: set_processed_def)

lemma handle_message_simps [simp]:
  "xs_state (handle_message msg s) = xs_state s" "xs_cfg (handle_message msg s) = xs_cfg s"
  "xs_exec (handle_message msg s) = xs_exec s" "ExecStrategy.more (handle_message msg s) = ExecStrategy.more s"
  by (simp_all add: handle_message_def split: Message.split)

text \<open>The skip loop ends at the first slot that is not yet due (or at the limit), consumes exactly
  the slots that are due, and sends no order.\<close>

lemma skip_missed_result:
  assumes "skip_missed D m E sched limit k s = (k', s', eff)" "k \<le> limit"
  shows "k \<le> k' \<and> k' \<le> limit \<and> (\<forall>i. k \<le> i \<and> i < k' \<longrightarrow> \<not> time_Before (env_Now E) (sched i)) \<and>
    (k' < limit \<longrightarrow> time_Before (env_Now E) (sched k')) \<and> order_qtys eff = [] \<and>
    s' = (if k' = k then s else set_processed k' s)"
  using assms
proof (induction D m E sched limit k s arbitrary: eff rule: skip_missed.induct)
  case (1 D m E sched limit k s)
  show ?case
  proof (cases "k < limit \<and> \<not> time_Before (env_Now E) (sched k)")
    case False
    with 1(2,3) show ?thesis by (auto simp: skip_missed.simps [of D m E sched limit k s])
  next
    case True
    obtain e1 where rec: "skip_missed D m E sched limit (k + 1) (set_processed (k + 1) s) = (k', s', e1)"
      and eff: "eff = saveState D m E (set_processed (k + 1) s) @ e1"
      using 1(2) True by (auto simp: skip_missed.simps [of D m E sched limit k s] Let_def split: prod.splits)
    from 1(1) [OF True refl rec] True have
      ih: "k + 1 \<le> k'" "k' \<le> limit" "\<forall>i. k + 1 \<le> i \<and> i < k' \<longrightarrow> \<not> time_Before (env_Now E) (sched i)"
      "k' < limit \<longrightarrow> time_Before (env_Now E) (sched k')" "order_qtys e1 = []"
      "s' = (if k' = k + 1 then set_processed (k + 1) s else set_processed k' (set_processed (k + 1) s))"
      by auto
    have "\<not> time_Before (env_Now E) (sched i)" if "k \<le> i" "i < k'" for i
      using ih(3) True that by (cases "i = k") auto
    then show ?thesis using ih eff by (auto simp: set_processed_def)
  qed
qed

section \<open>The contract of a slot scheduler\<close>

locale slot_scheduler =
  fixes step :: "'e \<Rightarrow> 'l \<Rightarrow> 'l \<times> 'd Effect list"
    and slot :: "'l \<Rightarrow> int"
    and limit :: "'l \<Rightarrow> int"
    and running :: "'l \<Rightarrow> bool"
    and tick :: "'e \<Rightarrow> bool"
    and paused :: "'l \<Rightarrow> bool"
    and wf :: "'l \<Rightarrow> bool"
  assumes stopped: "\<not> running l \<Longrightarrow> step e l = (l, [])"
    and wf_step: "wf l \<Longrightarrow> wf (fst (step e l))"
    and wf_slot: "wf l \<Longrightarrow> running l \<Longrightarrow> slot l < limit l"
    and limit_const: "limit (fst (step e l)) = limit l"
    and idle: "running l \<Longrightarrow> \<not> tick e \<Longrightarrow>
      slot (fst (step e l)) = slot l \<and> order_qtys (snd (step e l)) = []"
    and ticked: "wf l \<Longrightarrow> running l \<Longrightarrow> tick e \<Longrightarrow>
      slot (fst (step e l)) = slot l + 1 \<and> length (order_qtys (snd (step e l))) \<le> 1 \<or>
      \<not> running (fst (step e l)) \<and> slot (fst (step e l)) = slot l \<and> order_qtys (snd (step e l)) = []"
    and barred: "running l \<Longrightarrow> paused l \<Longrightarrow> order_qtys (snd (step e l)) = []"
begin

lemma step_progress:
  assumes "wf l" "step e l = (l1, f1)"
  shows "slot l \<le> slot l1 \<and> wf l1 \<and> limit l1 = limit l \<and>
    int (length (order_qtys f1)) \<le> slot l1 - slot l \<and> (slot l \<le> limit l \<longrightarrow> slot l1 \<le> limit l)"
proof (cases "running l")
  case False
  then show ?thesis using stopped [of l e] assms by auto
next
  case True
  have lim: "limit l1 = limit l" using limit_const [of e l] assms(2) by simp
  have wf1: "wf l1" using wf_step [OF assms(1), of e] assms(2) by simp
  show ?thesis
    using idle [OF True, of e] ticked [OF assms(1) True, of e] wf_slot [OF assms(1) True] assms(2) lim wf1
    by (cases "tick e") auto
qed

text \<open>A run of any length sends at most one order per slot it moves over, and never moves past the
  limit.\<close>

lemma run_bound:
  assumes "wf l" "slot l \<le> limit l" "run_events step es l = (l', fs)"
  shows "slot l \<le> slot l' \<and> slot l' \<le> limit l \<and> limit l' = limit l \<and>
    int (length (order_qtys fs)) \<le> slot l' - slot l \<and> wf l'"
  using assms
proof (induction es arbitrary: l fs)
  case Nil
  then show ?case by simp
next
  case (Cons e es)
  obtain l1 f1 f2 where s: "step e l = (l1, f1)" "run_events step es l1 = (l', f2)" "fs = f1 @ f2"
    using Cons.prems(3) by (auto split: prod.splits)
  note p = step_progress [OF Cons.prems(1) s(1)]
  from Cons.IH [of l1 f2] p s Cons.prems(2) show ?case by auto
qed

lemma run_stopped: "\<not> running l \<Longrightarrow> run_events step es l = (l, [])"
  by (induction es) (simp_all add: stopped)

text \<open>Enough timer events end the run.\<close>

lemma run_ends:
  assumes "wf l" "limit l - slot l \<le> int (length (filter tick es))" "run_events step es l = (l', fs)"
  shows "\<not> running l'"
  using assms
proof (induction es arbitrary: l fs)
  case Nil
  then show ?case using wf_slot [of l] by auto
next
  case (Cons e es)
  obtain l1 f1 f2 where s: "step e l = (l1, f1)" "run_events step es l1 = (l', f2)" "fs = f1 @ f2"
    using Cons.prems(3) by (auto split: prod.splits)
  note p = step_progress [OF Cons.prems(1) s(1)]
  show ?case
  proof (cases "running l1")
    case False
    then show ?thesis using run_stopped [of l1 es] s(2) by simp
  next
    case True
    then have "running l" using stopped [of l e] s(1) by fastforce
    then have "limit l1 - slot l1 \<le> int (length (filter tick es))"
      using ticked [of l e] s(1) True p Cons.prems(1,2) by (cases "tick e") auto
    then show ?thesis using Cons.IH [of l1 f2] p s(2) by blast
  qed
qed

end

end
