(* ===== verification/Twap_Model.thy ===== *)
theory Twap_Model
  imports Exec_Loop
begin

text \<open>
  The TWAP strategy: \<open>src/strategy/twap/config.go\<close> and \<open>src/strategy/twap/strategy.go\<close>. Durations are
  64-bit nanosecond counts, so the products of \<open>NumChunks\<close> and \<open>scheduledTime\<close> wrap; \<open>NumChunks\<close> has
  the value \<open>None\<close> where the source divides by zero and panics. The dispatch loop is a step function
  over the events of the \<open>select\<close>.
\<close>

section \<open>Configuration\<close>

record 'd TwapConfig =
  tc_OrderBookID :: string
  tc_TotalAmount :: 'd
  tc_Side :: string
  tc_StartTime :: gtime
  tc_EndTime :: gtime
  tc_IntervalSeconds :: int

definition Twap_DefaultConfig :: "'d decimal_ops \<Rightarrow> 'd TwapConfig" where
  "Twap_DefaultConfig D = \<lparr>tc_OrderBookID = [], tc_TotalAmount = d_zero D, tc_Side = [],
     tc_StartTime = time_zero, tc_EndTime = time_zero, tc_IntervalSeconds = 300\<rparr>"

definition Twap_Validate :: "'d decimal_ops \<Rightarrow> 'd TwapConfig \<Rightarrow> gtime \<Rightarrow> gerror option" where
  "Twap_Validate D c now =
     (if tc_OrderBookID c = [] then Some ''order_book_id is required''
      else if d_IsZero D (tc_TotalAmount c) \<or> d_IsNeg D (tc_TotalAmount c) then Some ''total_amount must be positive''
      else if tc_Side c \<noteq> ''buy'' \<and> tc_Side c \<noteq> ''sell'' then Some ''side must be buy or sell''
      else if time_IsZero (tc_StartTime c) \<or> time_IsZero (tc_EndTime c)
        then Some ''start_time and end_time are required''
      else if \<not> time_After (tc_EndTime c) (tc_StartTime c) then Some ''end_time must be strictly after start_time''
      else if \<not> time_After (tc_EndTime c) now then Some ''end_time must be in the future''
      else if tc_IntervalSeconds c \<le> 0 then Some ''interval_seconds must be positive''
      else None)"

definition twap_interval :: "'d TwapConfig \<Rightarrow> int" where
  "twap_interval c = wrap64 (tc_IntervalSeconds c * second_ns)"

definition NumChunks :: "'d TwapConfig \<Rightarrow> int option" where
  "NumChunks c =
     (let duration = time_Sub (tc_EndTime c) (tc_StartTime c); interval = twap_interval c
      in if duration \<le> 0 then Some 0
         else if interval = 0 then None
         else let n = go_div duration interval in Some (if n = 0 then 1 else n))"

definition twap_scheduledTime :: "'d TwapConfig \<Rightarrow> int \<Rightarrow> gtime" where
  "twap_scheduledTime c i = time_Add (tc_StartTime c) (wrap64 (i * twap_interval c))"

section \<open>Strategy\<close>

type_synonym 'd TwapStrategy = "('d TwapConfig, 'd) ExecStrategy"

definition Twap_New :: "'d decimal_ops \<Rightarrow> 'd TwapConfig \<Rightarrow> bool \<Rightarrow> bool \<Rightarrow> bool \<Rightarrow> bool \<Rightarrow> int \<Rightarrow> 'd TwapStrategy" where
  "Twap_New D cfg market records store updates seq =
     \<lparr>xs_cfg = cfg, xs_exec = \<lparr>ex_Name = ''twap'', ex_RunID = uuid_Nil, ex_Market = market, ex_Records = records,
        ex_Store = store\<rparr>, xs_paused = False, xs_cancelled = False, xs_updates = updates,
      xs_state = RunState_zero D, xs_decSeq = seq\<rparr>"

definition Twap_reconcilePendingOrders ::
  "'d decimal_ops \<Rightarrow> ('d RunState \<Rightarrow> string gopair) \<Rightarrow> 'd ExecEnv \<Rightarrow> 'd TwapStrategy \<Rightarrow>
     'd TwapStrategy \<times> 'd Effect list" where
  "Twap_reconcilePendingOrders D marshal E s =
     (case ReconcilePendingOrders (RunState_view D marshal) D E (xs_exec s) (xs_state s) of
        (stateCopy, eff) \<Rightarrow> (s\<lparr>xs_state := stateCopy\<rparr>, eff))"

definition computeChunkSize ::
  "'d decimal_ops \<Rightarrow> 'd TwapConfig \<Rightarrow> int \<Rightarrow> 'd \<Rightarrow> 'd \<Rightarrow> int \<Rightarrow> 'd res" where
  "computeChunkSize D cfg numChunks totalSubmitted totalFilled chunksProcessed =
     (let remaining = wrap64 (numChunks - chunksProcessed) in
      if remaining \<le> 0 then Inr (d_zero D)
      else rbind (tryv (d_sub D (tc_TotalAmount cfg) totalFilled)) (\<lambda>delta.
        let delta = (if \<not> d_IsPos D delta then d_zero D else delta)
        in tryv (d_quo D delta (d_new D remaining))))"

definition placeChunk ::
  "'d decimal_ops \<Rightarrow> ('d RunState \<Rightarrow> string gopair) \<Rightarrow> 'd ExecEnv \<Rightarrow> string \<Rightarrow> Signal \<Rightarrow> 'd \<Rightarrow>
     'd TwapStrategy \<Rightarrow> 'd TwapStrategy \<times> 'd Effect list" where
  "placeChunk D marshal E assetID signal chunkSize s = place_slice D marshal E assetID signal chunkSize s"

section \<open>Dispatch loop\<close>

record 'd TwapLoop =
  tl_strat :: "'d TwapStrategy"
  tl_chunksProcessed :: int
  tl_numChunks :: int
  tl_baseChunkSize :: 'd
  tl_status :: outcome

definition twap_chunk ::
  "'d decimal_ops \<Rightarrow> 'd TwapLoop \<Rightarrow> 'd" where
  "twap_chunk D l =
     (let s = tl_strat l in
      case computeChunkSize D (xs_cfg s) (tl_numChunks l) (TotalSubmitted (xs_state s)) (TotalFilled (xs_state s))
          (tl_chunksProcessed l) of
        Inl cErr \<Rightarrow> tl_baseChunkSize l
      | Inr chunkSize \<Rightarrow> chunkSize)"

definition twap_timer ::
  "'d decimal_ops \<Rightarrow> ('d RunState \<Rightarrow> string gopair) \<Rightarrow> 'd ExecEnv \<Rightarrow> 'd TwapLoop \<Rightarrow> 'd TwapLoop \<times> 'd Effect list" where
  "twap_timer D marshal E l =
     (let s = tl_strat l; cfg = xs_cfg s in
      if time_After (env_Now E) (tc_EndTime cfg) then (l\<lparr>tl_status := Returned None\<rparr>, [])
      else
        case (if xs_paused s then (s, [])
              else placeChunk D marshal E (tc_OrderBookID cfg) (side_signal (tc_Side cfg)) (twap_chunk D l) s) of
          (s, eff) \<Rightarrow>
            let cp = wrap64 (tl_chunksProcessed l + 1);
                s = set_processed cp s;
                eff = eff @ saveState D marshal E s
            in (l\<lparr>tl_strat := s, tl_chunksProcessed := cp,
                  tl_status := (if cp \<ge> tl_numChunks l then Returned None else Running)\<rparr>, eff))"

definition twap_step ::
  "'d decimal_ops \<Rightarrow> ('d RunState \<Rightarrow> string gopair) \<Rightarrow> 'd event \<Rightarrow> 'd TwapLoop \<Rightarrow> 'd TwapLoop \<times> 'd Effect list" where
  "twap_step D marshal e l =
     (if tl_status l \<noteq> Running then (l, [])
      else case e of (E, ev) \<Rightarrow>
        (case ev of
           CtxDone \<Rightarrow> (l\<lparr>tl_status := Returned None\<rparr>, [])
         | Msg msg \<Rightarrow> (l\<lparr>tl_strat := handle_message msg (tl_strat l)\<rparr>, [])
         | OrderUpdate evt \<Rightarrow>
             if \<not> xs_updates (tl_strat l) then (l, [])
             else (case processOrderUpdate D marshal E evt (tl_strat l) of
                 (s, eff) \<Rightarrow> (l\<lparr>tl_strat := s\<rparr>, eff))
         | UpdatesClosed \<Rightarrow> (l\<lparr>tl_strat := (tl_strat l)\<lparr>xs_updates := False\<rparr>\<rparr>, [])
         | TimerFired \<Rightarrow> twap_timer D marshal E l))"

text \<open>\<open>Run\<close> and \<open>run\<close> up to the dispatch loop.\<close>

definition Twap_Run ::
  "'d decimal_ops \<Rightarrow> ('d RunState \<Rightarrow> string gopair) \<Rightarrow> (string \<Rightarrow> 'd RunState gopair) \<Rightarrow> 'd ExecEnv \<Rightarrow> string \<Rightarrow>
     'd TwapStrategy \<Rightarrow> 'd TwapLoop \<times> 'd Effect list" where
  "Twap_Run D marshal unmarshal E runID s =
     (let stop = (\<lambda>s st eff. (\<lparr>tl_strat = s, tl_chunksProcessed = ChunksProcessed (xs_state s), tl_numChunks = 0,
            tl_baseChunkSize = d_zero D, tl_status = st\<rparr>, eff)) in
      if \<not> ex_Market (xs_exec s) then stop s (Returned (Some ''twap: market API client not configured'')) []
      else
        let s = s\<lparr>xs_exec := (xs_exec s)\<lparr>ex_RunID := runID\<rparr>\<rparr>;
            s = loadState D unmarshal E s in
        (case Twap_reconcilePendingOrders D marshal E s of (s, eff) \<Rightarrow>
          (case NumChunks (xs_cfg s) of
             None \<Rightarrow> stop s Panicked eff
           | Some numChunks \<Rightarrow>
              if numChunks = 0 then stop s (Returned (Some ''twap: no chunks in execution window'')) eff
              else (case d_quo D (tc_TotalAmount (xs_cfg s)) (d_new D numChunks) of
                 (base, Some err) \<Rightarrow> stop s (Returned (Some err)) eff
               | (base, None) \<Rightarrow>
                  (case skip_missed D marshal E (twap_scheduledTime (xs_cfg s)) numChunks
                      (ChunksProcessed (xs_state s)) s of
                     (cp, s, eff2) \<Rightarrow>
                       (\<lparr>tl_strat = s, tl_chunksProcessed = cp, tl_numChunks = numChunks, tl_baseChunkSize = base,
                         tl_status = (if cp \<ge> numChunks then Returned None else Running)\<rparr>, eff @ eff2))))))"

section \<open>Chunks and their times\<close>

text \<open>The interval is the configured one as long as its nanoseconds fit a duration.\<close>

lemma twap_interval_exact:
  "0 < tc_IntervalSeconds c \<Longrightarrow> tc_IntervalSeconds c * second_ns < 2 ^ 63 \<Longrightarrow>
     twap_interval c = tc_IntervalSeconds c * second_ns"
  by (simp add: twap_interval_def wrap64_id int64_ok_def)

lemma NumChunks_cases:
  assumes "0 < twap_interval c" "time_After (tc_EndTime c) (tc_StartTime c)"
  defines "d \<equiv> time_Sub (tc_EndTime c) (tc_StartTime c)"
  shows "NumChunks c = Some (max 1 (d div twap_interval c))" "0 < d" "int64_ok d"
proof -
  show d: "0 < d" "int64_ok d" using assms by (simp_all add: time_Sub_pos time_Sub_range)
  then have "go_div d (twap_interval c) = d div twap_interval c" "0 \<le> d div twap_interval c"
    using assms(1) by (simp_all add: go_div_nonneg pos_imp_zdiv_nonneg_iff)
  then show "NumChunks c = Some (max 1 (d div twap_interval c))"
    using assms(1) d unfolding NumChunks_def d_def Let_def by auto
qed

section \<open>Chunk sizes\<close>

lemma computeChunkSize_bounds:
  assumes L: "decimal_laws D val rnd" and r: "computeChunkSize D cfg n ts filled cp = Inr sz"
    and delta: "d_sub D (tc_TotalAmount cfg) filled = (delta, None)"
  shows "0 \<le> val sz \<and> val sz \<le> max 0 (val delta)"
proof (cases "wrap64 (n - cp) \<le> 0")
  case True
  with r show ?thesis using dec_exact(1) [OF L] by (simp add: computeChunkSize_def)
next
  case False
  let ?dl = "if \<not> d_IsPos D delta then d_zero D else delta"
  have v: "val ?dl = max 0 (val delta)" using dec_exact(10) [OF L, of delta] dec_exact(1) [OF L] by simp
  from False r delta have q: "d_quo D ?dl (d_new D (wrap64 (n - cp))) = (sz, None)"
    by (auto simp: computeChunkSize_def Let_def tryv_eq_Inr)
  have pos: "1 \<le> (of_int (wrap64 (n - cp)) :: rat)" using False by simp
  have sz: "val sz = rnd (val ?dl / of_int (wrap64 (n - cp)))"
    using val_quo [OF L q] dec_exact(3) [OF L wrap64_range, of "n - cp"] by simp
  have "0 \<le> val ?dl" unfolding v by simp
  moreover from this have "val ?dl / of_int (wrap64 (n - cp)) \<le> val ?dl / 1"
    using pos by (intro divide_left_mono) simp_all
  ultimately show ?thesis
    using sz pos rnd_nonneg [OF L] rnd_le_val [OF L, of _ ?dl] v by simp
qed

text \<open>With one chunk left its size is the whole remainder.\<close>

lemma computeChunkSize_last:
  assumes L: "decimal_laws D val rnd" and n: "n = cp + 1"
    and rep: "representable (val (tc_TotalAmount cfg) - val filled)" "val filled \<le> val (tc_TotalAmount cfg)"
  shows "\<exists>sz. computeChunkSize D cfg n ts filled cp = Inr sz \<and> val sz = val (tc_TotalAmount cfg) - val filled"
proof -
  obtain delta where d: "d_sub D (tc_TotalAmount cfg) filled = (delta, None)"
      "val delta = val (tc_TotalAmount cfg) - val filled"
    using sub_exact [OF L rep(1)] by auto
  let ?dl = "if \<not> d_IsPos D delta then d_zero D else delta"
  have v: "val ?dl = val delta"
    using dec_exact(10) [OF L, of delta] dec_exact(1) [OF L] d(2) rep(2) by simp
  have one: "val (d_new D 1) = 1" using dec_exact(3) [OF L, of 1] by (simp add: int64_ok_def)
  have "rounds_to val rnd (d_quo D ?dl (d_new D 1)) (val ?dl / val (d_new D 1))"
    by (rule arith_rounds(4) [OF L]) (simp add: one)
  then obtain sz where sz: "d_quo D ?dl (d_new D 1) = (sz, None)"
    using rep(1) v d(2) one by (cases "d_quo D ?dl (d_new D 1)") (auto simp: rounds_to_def)
  have "val sz = val delta" using val_quo [OF L sz] one v rnd_val [OF L, of delta] by simp
  moreover have "wrap64 (n - cp) = 1" using n by (simp add: wrap64_def)
  ultimately show ?thesis using d sz by (auto simp: computeChunkSize_def Let_def)
qed

section \<open>The dispatch loop is a slot scheduler\<close>

text \<open>A loop state is well formed when its counters are \<open>int\<close> values and it has chunks left while it
  runs; the counter then never wraps.\<close>

definition twap_wf :: "'d TwapLoop \<Rightarrow> bool" where
  "twap_wf l \<longleftrightarrow> int64_ok (tl_chunksProcessed l) \<and> int64_ok (tl_numChunks l) \<and>
     (tl_status l = Running \<longrightarrow> tl_chunksProcessed l < tl_numChunks l)"

lemma twap_wf_succ:
  "twap_wf l \<Longrightarrow> tl_status l = Running \<Longrightarrow>
     wrap64 (tl_chunksProcessed l + 1) = tl_chunksProcessed l + 1 \<and> int64_ok (tl_chunksProcessed l + 1)"
  by (simp add: twap_wf_def int64_ok_def wrap64_id)

lemma twap_timer_slot:
  assumes t: "twap_timer D m E l = (l', eff)" and ne: "\<not> time_After (env_Now E) (tc_EndTime (xs_cfg (tl_strat l)))"
    and w: "wrap64 (tl_chunksProcessed l + 1) = tl_chunksProcessed l + 1"
  shows "tl_numChunks l' = tl_numChunks l" "tl_chunksProcessed l' = tl_chunksProcessed l + 1"
    "order_qtys eff = (if xs_paused (tl_strat l) then [] else [twap_chunk D l])"
    "tl_status l' = (if tl_numChunks l \<le> tl_chunksProcessed l + 1 then Returned None else Running)"
    "ChunksProcessed (xs_state (tl_strat l')) = tl_chunksProcessed l + 1"
    "xs_cfg (tl_strat l') = xs_cfg (tl_strat l)"
proof -
  let ?s = "tl_strat l"
  obtain s1 e1 where p: "(if xs_paused ?s then (?s, [])
      else placeChunk D m E (tc_OrderBookID (xs_cfg ?s)) (side_signal (tc_Side (xs_cfg ?s))) (twap_chunk D l) ?s)
      = (s1, e1)" by fastforce
  have q: "order_qtys e1 = (if xs_paused ?s then [] else [twap_chunk D l])" "xs_cfg s1 = xs_cfg ?s"
    using p place_slice_frame(2,6) [of D m E] unfolding placeChunk_def by (auto split: if_splits)
  have t': "l' = l\<lparr>tl_strat := set_processed (tl_chunksProcessed l + 1) s1,
      tl_chunksProcessed := tl_chunksProcessed l + 1,
      tl_status := (if tl_numChunks l \<le> tl_chunksProcessed l + 1 then Returned None else Running)\<rparr>"
    "eff = e1 @ saveState D m E (set_processed (tl_chunksProcessed l + 1) s1)"
    using t ne unfolding twap_timer_def Let_def p w by simp_all
  show "tl_numChunks l' = tl_numChunks l" "tl_chunksProcessed l' = tl_chunksProcessed l + 1"
    "order_qtys eff = (if xs_paused (tl_strat l) then [] else [twap_chunk D l])"
    "tl_status l' = (if tl_numChunks l \<le> tl_chunksProcessed l + 1 then Returned None else Running)"
    "ChunksProcessed (xs_state (tl_strat l')) = tl_chunksProcessed l + 1"
    "xs_cfg (tl_strat l') = xs_cfg (tl_strat l)"
    unfolding t' by (simp_all add: q)
qed

lemma twap_timer_after_end:
  "time_After (env_Now E) (tc_EndTime (xs_cfg (tl_strat l))) \<Longrightarrow>
     twap_timer D m E l = (l\<lparr>tl_status := Returned None\<rparr>, [])"
  by (simp add: twap_timer_def Let_def)

lemma twap_timer_paused:
  "xs_paused (tl_strat l) \<Longrightarrow> order_qtys (snd (twap_timer D m E l)) = []"
  by (simp add: twap_timer_def Let_def)

lemma twap_timer_limit: "tl_numChunks (fst (twap_timer D m E l)) = tl_numChunks l"
  by (simp add: twap_timer_def Let_def split: prod.split)

lemma twap_step_other:
  assumes "tl_status l = Running" "\<not> is_timer e"
  shows "tl_chunksProcessed (fst (twap_step D m e l)) = tl_chunksProcessed l"
    "tl_numChunks (fst (twap_step D m e l)) = tl_numChunks l"
    "order_qtys (snd (twap_step D m e l)) = []"
  using assms processOrderUpdate_frame [of D m]
  by (auto simp: twap_step_def is_timer_def split: LoopEvent.splits prod.splits)

lemma twap_step_timer:
  assumes "tl_status l = Running" "is_timer e"
  shows "twap_step D m e l = twap_timer D m (fst e) l"
  using assms by (auto simp: twap_step_def is_timer_def split: LoopEvent.splits prod.splits)

lemma twap_step_wf:
  assumes "twap_wf l"
  shows "twap_wf (fst (twap_step D m e l))"
proof (cases "tl_status l = Running \<and> is_timer e")
  case False
  then show ?thesis
    using assms twap_step_other [of l e D m] by (cases "tl_status l = Running") (auto simp: twap_wf_def twap_step_def)
next
  case True
  then have r: "tl_status l = Running" and st: "twap_step D m e l = twap_timer D m (fst e) l"
    by (simp_all add: twap_step_timer)
  show ?thesis
  proof (cases "time_After (env_Now (fst e)) (tc_EndTime (xs_cfg (tl_strat l)))")
    case True
    then show ?thesis using assms st by (simp add: twap_timer_after_end twap_wf_def)
  next
    case False
    obtain l' eff where t: "twap_timer D m (fst e) l = (l', eff)" by fastforce
    note w = twap_wf_succ [OF assms r]
    show ?thesis
      using twap_timer_slot [OF t False] w st t assms by (simp add: twap_wf_def)
  qed
qed

interpretation twap: slot_scheduler "twap_step D m" tl_chunksProcessed tl_numChunks
    "\<lambda>l. tl_status l = Running" is_timer "\<lambda>l. xs_paused (tl_strat l)" twap_wf
  for D :: "'d decimal_ops" and m
proof (unfold_locales, goal_cases)
  case (1 l e)
  then show ?case by (simp add: twap_step_def)
next
  case (2 l e)
  then show ?case by (rule twap_step_wf)
next
  case (3 l)
  then show ?case by (simp add: twap_wf_def)
next
  case (4 e l)
  show ?case
    using twap_step_other(2) [of l e D m] twap_step_timer [of l e D m] twap_timer_limit [of D m "fst e" l]
    by (cases "tl_status l = Running"; cases "is_timer e") (simp_all add: twap_step_def)
next
  case (5 l e)
  then show ?case by (simp add: twap_step_other)
next
  case (6 l e)
  obtain l' eff where t: "twap_timer D m (fst e) l = (l', eff)" by fastforce
  show ?case
    using 6 twap_timer_slot [OF t] twap_timer_after_end [of "fst e" l D m] twap_wf_succ [of l] t
    by (cases "time_After (env_Now (fst e)) (tc_EndTime (xs_cfg (tl_strat l)))") (auto simp: twap_step_timer)
next
  case (7 l e)
  then show ?case
    using twap_step_other(3) [of l e D m] twap_step_timer [of l e D m] twap_timer_paused [of l D m "fst e"]
    by (cases "is_timer e") simp_all
qed

section \<open>Starting a run\<close>

lemma NumChunks_int64: "NumChunks c = Some n \<Longrightarrow> int64_ok n"
  by (auto simp: NumChunks_def Let_def go_div_def wrap64_range split: if_splits) (simp_all add: int64_ok_def)

lemma Twap_Run_running:
  assumes "Twap_Run D m u E runID s = (l, eff)" "tl_status l = Running"
  obtains s1 eff1 eff2 where
    "Twap_reconcilePendingOrders D m E (loadState D u E (s\<lparr>xs_exec := (xs_exec s)\<lparr>ex_RunID := runID\<rparr>\<rparr>)) = (s1, eff1)"
    "NumChunks (xs_cfg s1) = Some (tl_numChunks l)"
    "skip_missed D m E (twap_scheduledTime (xs_cfg s1)) (tl_numChunks l) (ChunksProcessed (xs_state s1)) s1 =
       (tl_chunksProcessed l, tl_strat l, eff2)"
    "eff = eff1 @ eff2" "tl_chunksProcessed l < tl_numChunks l" "tl_numChunks l \<noteq> 0"
  using assms unfolding Twap_Run_def Let_def
  by (auto split: if_splits prod.splits option.splits)

lemma twap_reconcile_frame:
  assumes "Twap_reconcilePendingOrders D m E s = (s1, eff)"
  shows "xs_cfg s1 = xs_cfg s" "ChunksProcessed (xs_state s1) = ChunksProcessed (xs_state s)" "order_qtys eff = []"
  using assms reconcile_frame [of D m E "xs_exec s" "xs_state s"]
  by (auto simp: Twap_reconcilePendingOrders_def split: prod.splits)

lemma Twap_Run_start:
  assumes run: "Twap_Run D m u E runID s = (l, eff)" and r: "tl_status l = Running"
    and st: "int64_ok (ChunksProcessed (xs_state s))" "decodes_int u"
  shows "twap_wf l" "order_qtys eff = []" "xs_cfg (tl_strat l) = xs_cfg s"
    "NumChunks (xs_cfg s) = Some (tl_numChunks l)"
    "time_Before (env_Now E) (twap_scheduledTime (xs_cfg s) (tl_chunksProcessed l))"
    "\<forall>i. ChunksProcessed (xs_state (loadState D u E s)) \<le> i \<and> i < tl_chunksProcessed l \<longrightarrow>
       \<not> time_Before (env_Now E) (twap_scheduledTime (xs_cfg s) i)"
proof -
  let ?s0 = "s\<lparr>xs_exec := (xs_exec s)\<lparr>ex_RunID := runID\<rparr>\<rparr>"
  obtain s1 eff1 eff2 where
    rec: "Twap_reconcilePendingOrders D m E (loadState D u E ?s0) = (s1, eff1)"
    and n: "NumChunks (xs_cfg s1) = Some (tl_numChunks l)"
    and skip: "skip_missed D m E (twap_scheduledTime (xs_cfg s1)) (tl_numChunks l) (ChunksProcessed (xs_state s1)) s1 =
       (tl_chunksProcessed l, tl_strat l, eff2)"
    and eff: "eff = eff1 @ eff2" and lt: "tl_chunksProcessed l < tl_numChunks l"
    using Twap_Run_running [OF run r] by blast
  note rf = twap_reconcile_frame [OF rec]
  have ld: "xs_state (loadState D u E ?s0) = xs_state (loadState D u E s)"
    by (auto simp: loadState_def LoadState_def split: sum.splits)
  have cfg: "xs_cfg s1 = xs_cfg s" using rf(1) by (simp add: loadState_frame)
  have cp: "ChunksProcessed (xs_state s1) = ChunksProcessed (xs_state (loadState D u E s))" using rf(2) ld by simp
  have ok: "int64_ok (ChunksProcessed (xs_state s1))" unfolding cp by (rule loadState_processed [OF st])
  have num: "int64_ok (tl_numChunks l)" by (rule NumChunks_int64 [OF n])
  have le: "ChunksProcessed (xs_state s1) \<le> tl_numChunks l"
    using skip lt by (cases "ChunksProcessed (xs_state s1) \<le> tl_numChunks l")
      (auto simp: skip_missed.simps [of _ _ _ _ _ "ChunksProcessed (xs_state s1)"])
  note sk = skip_missed_result [OF skip le]
  show "order_qtys eff = []" using eff rf(3) sk by simp
  show "xs_cfg (tl_strat l) = xs_cfg s" using sk cfg by auto
  show "NumChunks (xs_cfg s) = Some (tl_numChunks l)" using n cfg by simp
  show "time_Before (env_Now E) (twap_scheduledTime (xs_cfg s) (tl_chunksProcessed l))" using sk lt cfg by simp
  show "\<forall>i. ChunksProcessed (xs_state (loadState D u E s)) \<le> i \<and> i < tl_chunksProcessed l \<longrightarrow>
       \<not> time_Before (env_Now E) (twap_scheduledTime (xs_cfg s) i)" using sk cfg cp by simp
  show "twap_wf l" using ok num lt sk by (auto simp: twap_wf_def int64_ok_def)
qed

end
