(* ===== verification/Twap_Props.thy ===== *)
theory Twap_Props
  imports Twap_Model Exec_Props
begin

text \<open>
  What the TWAP strategy promises: how many orders a run can send and that it ends, where a restarted
  run resumes, the sizes of its orders, that a full last fill completes the target, when its slots
  lie inside the window, and two behaviours of the code to be aware of (an interval whose
  nanoseconds wrap to zero, and a last slice that ignores orders still in flight).
\<close>

section \<open>One tick\<close>

lemma place_slice_ok:
  assumes "env_CreateMarketOrder E \<lparr>oreq_Book = b, oreq_Side = DoraclientSide sig, oreq_Quantity = q,
      oreq_InverseLeverage = d_one D, oreq_FromGlobal = False,
      oreq_ClientOrderID = BuildClientOrderID (ex_Name (xs_exec s)) (ex_RunID (xs_exec s)) (env_NewV7 E)\<rparr> = (oid, None)"
    and "oid \<noteq> []"
  shows "xs_state (fst (place_slice D m E b sig q s)) = (xs_state s)\<lparr>
      Orders := Orders (xs_state s) @ [\<lparr>oe_OrderID = oid,
        oe_ClientOrderID = BuildClientOrderID (ex_Name (xs_exec s)) (ex_RunID (xs_exec s)) (env_NewV7 E),
        oe_Requested = q, oe_Filled = d_zero D, oe_Status = OrderStatusOpen\<rparr>],
      TotalSubmitted := fst (d_add D (TotalSubmitted (xs_state s)) q)\<rparr>"
  using assms
  by (simp add: place_slice_def PlaceOrder_def RunState_view_def AppendOrder_def AddTotalSubmitted_def Let_def)

lemma processOrderUpdate_state:
  "xs_state (fst (processOrderUpdate D m E evt s)) =
     fst (ProcessOrderUpdate (RunState_view D m) D E (xs_exec s) (xs_state s) evt)"
  by (simp add: processOrderUpdate_def split: prod.split)

lemma twap_tick_state:
  assumes "\<not> time_After (env_Now E) (tc_EndTime (xs_cfg (tl_strat l)))" "\<not> xs_paused (tl_strat l)"
  shows "xs_state (tl_strat (fst (twap_timer D m E l))) =
    (xs_state (fst (place_slice D m E (tc_OrderBookID (xs_cfg (tl_strat l)))
       (side_signal (tc_Side (xs_cfg (tl_strat l)))) (twap_chunk D l) (tl_strat l))))
    \<lparr>ChunksProcessed := wrap64 (tl_chunksProcessed l + 1)\<rparr>"
  using assms by (auto simp: twap_timer_def placeChunk_def Let_def set_processed_def split: prod.splits)

section \<open>A concrete strategy\<close>

definition twap_cfg :: "rat TwapConfig" where
  "twap_cfg = \<lparr>tc_OrderBookID = ''b'', tc_TotalAmount = 10, tc_Side = ''buy'',
     tc_StartTime = \<lparr>t_ns = 1000 * second_ns, t_off = 0\<rparr>, tc_EndTime = \<lparr>t_ns = 1600 * second_ns, t_off = 0\<rparr>,
     tc_IntervalSeconds = 300\<rparr>"

definition twap_env :: "int \<Rightarrow> rat ExecEnv" where
  "twap_env now = sample_env\<lparr>env_Now := \<lparr>t_ns = now * second_ns, t_off = 0\<rparr>\<rparr>"

abbreviation no_marshal :: "rat RunState \<Rightarrow> string gopair" where
  "no_marshal \<equiv> \<lambda>_. ([], None)"

definition no_unmarshal :: "string \<Rightarrow> rat RunState gopair" where
  "no_unmarshal raw = (RunState_zero rat_ops, Some ''bad json'')"

definition twap_strat :: "rat TwapStrategy" where
  "twap_strat = Twap_New rat_ops twap_cfg True False False True 0"

definition twap_loop :: "rat TwapLoop" where
  "twap_loop = \<lparr>tl_strat = twap_strat\<lparr>xs_exec := (xs_exec twap_strat)\<lparr>ex_RunID := ''r1''\<rparr>\<rparr>, tl_chunksProcessed = 0,
     tl_numChunks = 2, tl_baseChunkSize = 5, tl_status = Running\<rparr>"

lemmas twap_sample_defs = twap_cfg_def twap_env_def twap_strat_def twap_loop_def Twap_New_def sample_env_def

lemma twap_cfg_chunks: "NumChunks twap_cfg = Some 2"
  by (simp add: NumChunks_def twap_cfg_def twap_interval_def time_Sub_def wrap64_def go_div_def Let_def)

lemma twap_sample_run: "Twap_Run rat_ops no_marshal no_unmarshal (twap_env 500) ''r1'' twap_strat = (twap_loop, [])"
proof -
  have early: "time_Before (env_Now (twap_env 500)) (twap_scheduledTime twap_cfg 0)"
    by (simp add: twap_sample_defs twap_scheduledTime_def twap_interval_def wrap64_def time_defs)
  have ld: "loadState rat_ops no_unmarshal (twap_env 500) s = s" if "\<not> ex_Store (xs_exec s)" for s :: "rat TwapStrategy"
    using that by (simp add: loadState_def LoadState_def)
  let ?s = "twap_strat\<lparr>xs_exec := (xs_exec twap_strat)\<lparr>ex_RunID := ''r1''\<rparr>\<rparr>"
  have rec: "Twap_reconcilePendingOrders rat_ops no_marshal (twap_env 500) ?s = (?s, [])"
    by (simp add: Twap_reconcilePendingOrders_def ReconcilePendingOrders_def twap_strat_def Twap_New_def
        RunState_view_def RunState_zero_def SaveState_def)
  have facts: "xs_cfg ?s = twap_cfg" "ex_Market (xs_exec twap_strat)" "\<not> ex_Store (xs_exec ?s)"
    "ChunksProcessed (xs_state twap_strat) = 0" "xs_cfg twap_strat = twap_cfg" "tc_TotalAmount twap_cfg = 10"
    by (simp_all add: twap_strat_def Twap_New_def RunState_zero_def twap_cfg_def)
  have sk: "skip_missed rat_ops no_marshal (twap_env 500) (twap_scheduledTime twap_cfg) 2 0 ?s = (0, ?s, [])"
    using early by (simp add: skip_missed.simps)
  have q: "d_quo rat_ops 10 (d_new rat_ops 2) = (5, None)" by (simp add: rat_ops_def)
  show ?thesis
    unfolding Twap_Run_def Let_def ld [OF facts(3)] rec
    by (simp add: facts twap_cfg_chunks sk q twap_loop_def)
qed

lemma twap_loop_wf: "twap_wf twap_loop"
  by (simp add: twap_wf_def twap_loop_def int64_ok_def)

definition twap_last :: "rat TwapLoop" where
  "twap_last = twap_loop\<lparr>tl_chunksProcessed := 1\<rparr>"

lemma twap_last_facts:
  "twap_wf twap_last" "tl_status twap_last = Running" "tl_numChunks twap_last = tl_chunksProcessed twap_last + 1"
  "\<not> xs_paused (tl_strat twap_last)" "xs_cfg (tl_strat twap_last) = twap_cfg" "tc_TotalAmount twap_cfg = 10"
  "\<not> time_After (env_Now (twap_env 1300)) (tc_EndTime (xs_cfg (tl_strat twap_last)))"
  "xs_state (tl_strat twap_last) = RunState_zero rat_ops"
  "fst (env_CreateMarketOrder (twap_env 1300) req) \<noteq> [] \<and> snd (env_CreateMarketOrder (twap_env 1300) req) = None"
  "BuildClientOrderID (ex_Name (xs_exec (tl_strat twap_last))) (ex_RunID (xs_exec (tl_strat twap_last)))
     (env_NewV7 (twap_env 1300)) = ''twap.r1.a''"
  by (simp_all add: twap_last_def twap_sample_defs twap_wf_def int64_ok_def time_After_def BuildClientOrderID_def)

lemma zero_totals: "TotalFilled (RunState_zero rat_ops) = 0" "TotalSubmitted (RunState_zero rat_ops) = 0"
  "Orders (RunState_zero D) = []"
  by (simp_all add: RunState_zero_def rat_ops_def)

lemma representable_ten: "representable 10"
  using representable_of_int [of 10] by simp

lemma no_unmarshal_int: "decodes_int no_unmarshal"
  by (simp add: decodes_int_def no_unmarshal_def)

section \<open>What TWAP promises\<close>

text \<open>C38: Starting a TWAP run sends no order; while the dispatch loop handles any sequence of events it
  sends at most one order per chunk slot it moves over, never moves past the number of chunks,
  and once the timer has fired for every remaining slot the run has returned.\<close>

theorem twap_orders_bounded:
  assumes "Twap_Run D marshal unmarshal E runID s = (l, eff0)" "tl_status l = Running"
    and "int64_ok (ChunksProcessed (xs_state s))"
    and "decodes_int unmarshal"
    and "run_events (twap_step D marshal) evs l = (l', fs)"
  shows "order_qtys eff0 = [] \<and> tl_chunksProcessed l \<le> tl_chunksProcessed l' \<and>
    tl_chunksProcessed l' \<le> tl_numChunks l \<and>
    int (length (order_qtys fs)) \<le> tl_chunksProcessed l' - tl_chunksProcessed l \<and>
    (tl_numChunks l - tl_chunksProcessed l \<le> int (length (filter is_timer evs)) \<longrightarrow> tl_status l' \<noteq> Running)"
proof -
  note st = Twap_Run_start [OF assms(1-4)]
  have "tl_chunksProcessed l \<le> tl_numChunks l" using st(1) assms(2) by (simp add: twap_wf_def)
  from twap.run_bound [OF st(1) this assms(5)] twap.run_ends [OF st(1) _ assms(5)] st(2)
  show ?thesis by auto
qed

theorem twap_orders_bounded_witness:
  "\<exists>l' fs. run_events (twap_step rat_ops no_marshal) [(twap_env 1000, TimerFired), (twap_env 1300, TimerFired)] twap_loop
     = (l', fs) \<and> tl_status l' \<noteq> Running \<and> length (order_qtys fs) \<le> 2"
proof -
  obtain l' fs where r: "run_events (twap_step rat_ops no_marshal)
      [(twap_env 1000, TimerFired), (twap_env 1300, TimerFired)] twap_loop = (l', fs)" by fastforce
  have c: "tl_numChunks twap_loop = 2" "tl_chunksProcessed twap_loop = 0" "tl_status twap_loop = Running"
    "int64_ok (ChunksProcessed (xs_state twap_strat))"
    by (simp_all add: twap_loop_def twap_strat_def Twap_New_def RunState_zero_def int64_ok_def)
  have "tl_status l' \<noteq> Running \<and> length (order_qtys fs) \<le> 2"
    using twap_orders_bounded [OF twap_sample_run c(3,4) no_unmarshal_int r] c(1,2) by (auto simp: is_timer_def)
  with r show ?thesis by blast
qed

text \<open>a run (fresh or restarted) resumes at the first slot that is not yet due: every slot between
  the persisted position and the resume position was due at start-up and is skipped, the next slot
  lies in the future, and the position left in the run state is the resume position.\<close>

theorem twap_resumes_at_next_slot:
  assumes "Twap_Run D marshal unmarshal E runID s = (l, eff0)" "tl_status l = Running"
    and "int64_ok (ChunksProcessed (xs_state s))"
    and "decodes_int unmarshal"
  shows "time_Before (env_Now E) (twap_scheduledTime (xs_cfg s) (tl_chunksProcessed l)) \<and>
    (\<forall>i. ChunksProcessed (xs_state (loadState D unmarshal E s)) \<le> i \<and> i < tl_chunksProcessed l \<longrightarrow>
       \<not> time_Before (env_Now E) (twap_scheduledTime (xs_cfg s) i)) \<and>
    NumChunks (xs_cfg s) = Some (tl_numChunks l)"
  using Twap_Run_start [OF assms] by blast

theorem twap_resumes_at_next_slot_witness:
  "time_Before (env_Now (twap_env 500)) (twap_scheduledTime twap_cfg 0) \<and> NumChunks twap_cfg = Some 2"
proof -
  have c: "tl_status twap_loop = Running" "int64_ok (ChunksProcessed (xs_state twap_strat))"
    "xs_cfg twap_strat = twap_cfg" "tl_chunksProcessed twap_loop = 0" "tl_numChunks twap_loop = 2"
    by (simp_all add: twap_loop_def twap_strat_def Twap_New_def RunState_zero_def int64_ok_def)
  show ?thesis
    using twap_resumes_at_next_slot [OF twap_sample_run c(1,2) no_unmarshal_int] c(3-5) by simp
qed

text \<open>A valid configuration whose interval fits in a 64-bit duration has at least one chunk, and the
  scheduled times of its chunks are the start time plus a whole number of intervals, all at or
  after the start and strictly before the end of the window.\<close>

theorem twap_slots_inside_window:
  assumes v: "Twap_Validate D c now = None" and fit: "tc_IntervalSeconds c * second_ns < 2 ^ 63"
  shows "\<exists>n. NumChunks c = Some n \<and> 1 \<le> n \<and>
    (\<forall>i. 0 \<le> i \<and> i < n \<longrightarrow>
       t_ns (twap_scheduledTime c i) = t_ns (tc_StartTime c) + i * (tc_IntervalSeconds c * second_ns) \<and>
       t_ns (tc_StartTime c) \<le> t_ns (twap_scheduledTime c i) \<and> t_ns (twap_scheduledTime c i) < t_ns (tc_EndTime c))"
proof -
  have pos: "0 < tc_IntervalSeconds c" and aft: "time_After (tc_EndTime c) (tc_StartTime c)"
    using v by (simp_all add: Twap_Validate_def split: if_splits)
  let ?iv = "twap_interval c" and ?d = "time_Sub (tc_EndTime c) (tc_StartTime c)"
  have iv: "?iv = tc_IntervalSeconds c * second_ns" by (rule twap_interval_exact [OF pos fit])
  then have ivpos: "0 < ?iv" using pos by simp
  note n = NumChunks_cases [OF ivpos aft]
  have dle: "?d \<le> t_ns (tc_EndTime c) - t_ns (tc_StartTime c)"
    using aft by (simp add: time_Sub_def time_After_def)
  have "t_ns (twap_scheduledTime c i) = t_ns (tc_StartTime c) + i * ?iv \<and>
      t_ns (tc_StartTime c) \<le> t_ns (twap_scheduledTime c i) \<and> t_ns (twap_scheduledTime c i) < t_ns (tc_EndTime c)"
    if i: "0 \<le> i" "i < max 1 (?d div ?iv)" for i
  proof -
    have lt: "i * ?iv < ?d"
    proof (cases "i = 0")
      case True
      then show ?thesis using n(2) by simp
    next
      case False
      then have "i + 1 \<le> ?d div ?iv" using i by simp
      then have "(i + 1) * ?iv \<le> ?d div ?iv * ?iv" using ivpos by (intro mult_right_mono) simp_all
      also have "\<dots> \<le> ?d" using pos_mod_sign [OF ivpos, of ?d] by (simp flip: minus_mod_eq_div_mult)
      finally show ?thesis using ivpos by (simp add: algebra_simps)
    qed
    moreover have "0 \<le> i * ?iv" using i(1) ivpos by simp
    ultimately have "wrap64 (i * ?iv) = i * ?iv" using n(3) by (intro wrap64_id) (simp add: int64_ok_def)
    then show ?thesis using lt dle i(1) ivpos by (simp add: twap_scheduledTime_def)
  qed
  then show ?thesis unfolding iv [symmetric] using n(1) max.cobounded1 by blast
qed

theorem twap_slots_inside_window_witness:
  "\<exists>n. NumChunks twap_cfg = Some n \<and> 1 \<le> n"
proof -
  have "Twap_Validate rat_ops twap_cfg time_zero = None"
    by (simp add: Twap_Validate_def twap_cfg_def rat_ops_def time_defs)
  from twap_slots_inside_window [OF this] show ?thesis by (auto simp: twap_cfg_def)
qed

text \<open>An order placed by an unpaused tick inside the window is never negative and never larger than
  what remains to be filled, rounding included, whatever has been filled so far; and the tick sends
  exactly that one order.\<close>

theorem twap_chunk_within_remaining:
  assumes L: "decimal_laws D val rnd" and wf: "twap_wf l" "tl_status l = Running"
    and t: "twap_step D marshal (E, TimerFired) l = (l', fs)"
    and live: "\<not> xs_paused (tl_strat l)" "\<not> time_After (env_Now E) (tc_EndTime (xs_cfg (tl_strat l)))"
    and sz: "computeChunkSize D (xs_cfg (tl_strat l)) (tl_numChunks l) (TotalSubmitted (xs_state (tl_strat l)))
      (TotalFilled (xs_state (tl_strat l))) (tl_chunksProcessed l) = Inr q"
    and delta: "d_sub D (tc_TotalAmount (xs_cfg (tl_strat l))) (TotalFilled (xs_state (tl_strat l))) = (delta, None)"
  shows "order_qtys fs = [q] \<and> 0 \<le> val q \<and> val q \<le> max 0 (val delta)"
proof -
  have "twap_timer D marshal E l = (l', fs)" using t wf(2) by (simp add: twap_step_def)
  from twap_timer_slot(3) [OF this live(2)] twap_wf_succ [OF wf]
  have "order_qtys fs = [q]" using live(1) sz by (simp add: twap_chunk_def Let_def)
  then show ?thesis using computeChunkSize_bounds [OF L sz delta] by simp
qed

theorem twap_chunk_within_remaining_witness:
  "\<exists>l' fs q. twap_step rat_ops no_marshal (twap_env 1000, TimerFired) twap_loop = (l', fs) \<and> order_qtys fs = [q] \<and>
     0 \<le> q \<and> q \<le> 10"
proof -
  obtain l' fs where t: "twap_step rat_ops no_marshal (twap_env 1000, TimerFired) twap_loop = (l', fs)" by fastforce
  have live: "\<not> xs_paused (tl_strat twap_loop)" "tl_status twap_loop = Running"
      "\<not> time_After (env_Now (twap_env 1000)) (tc_EndTime (xs_cfg (tl_strat twap_loop)))"
    by (simp_all add: twap_sample_defs time_After_def)
  have sz: "computeChunkSize rat_ops (xs_cfg (tl_strat twap_loop)) (tl_numChunks twap_loop)
      (TotalSubmitted (xs_state (tl_strat twap_loop))) (TotalFilled (xs_state (tl_strat twap_loop)))
      (tl_chunksProcessed twap_loop) = Inr 5"
    by (simp add: twap_sample_defs computeChunkSize_def RunState_zero_def wrap64_def rat_ops_def)
  have delta: "d_sub rat_ops (tc_TotalAmount (xs_cfg (tl_strat twap_loop))) (TotalFilled (xs_state (tl_strat twap_loop)))
      = (10, None)"
    by (simp add: twap_sample_defs RunState_zero_def rat_ops_def)
  show ?thesis
    using twap_chunk_within_remaining [OF rat_ops_laws twap_loop_wf live(2) t live(1,3) sz delta] t by auto
qed

text \<open>The last chunk is the exact remainder: when it is placed and the exchange then reports it
  filled, the filled total equals the target amount, for amounts on a decimal grid.\<close>

theorem twap_last_chunk_completes:
  assumes L: "decimal_laws D val rnd" and wf: "twap_wf l" "tl_status l = Running"
    and last: "tl_numChunks l = tl_chunksProcessed l + 1"
    and live: "\<not> xs_paused (tl_strat l)" "\<not> time_After (env_Now E) (tc_EndTime (xs_cfg (tl_strat l)))"
    and ok: "\<And>req. fst (env_CreateMarketOrder E req) \<noteq> [] \<and> snd (env_CreateMarketOrder E req) = None"
    and rep: "representable (val (tc_TotalAmount (xs_cfg (tl_strat l))))"
      "representable (val (tc_TotalAmount (xs_cfg (tl_strat l))) - val (TotalFilled (xs_state (tl_strat l))))"
      "val (TotalFilled (xs_state (tl_strat l))) \<le> val (tc_TotalAmount (xs_cfg (tl_strat l)))"
    and fresh: "distinct (client_ids (Orders (xs_state (tl_strat l))))"
      "BuildClientOrderID (ex_Name (xs_exec (tl_strat l))) (ex_RunID (xs_exec (tl_strat l))) (env_NewV7 E) = c"
      "c \<notin> set (client_ids (Orders (xs_state (tl_strat l))))"
  shows "\<exists>q l' fs. twap_step D marshal (E, TimerFired) l = (l', fs) \<and> order_qtys fs = [q] \<and> tl_status l' = Returned None \<and>
    val (TotalFilled (xs_state (fst (processOrderUpdate D marshal E'
      \<lparr>ev_ClientOrderID = c, ev_Status = ''FILLED'', ev_Filled = q\<rparr> (tl_strat l'))))) =
    val (tc_TotalAmount (xs_cfg (tl_strat l)))"
proof -
  let ?s = "tl_strat l" and ?T = "tc_TotalAmount (xs_cfg (tl_strat l))"
  obtain q where q: "computeChunkSize D (xs_cfg ?s) (tl_numChunks l) (TotalSubmitted (xs_state ?s))
      (TotalFilled (xs_state ?s)) (tl_chunksProcessed l) = Inr q" "val q = val ?T - val (TotalFilled (xs_state ?s))"
    using computeChunkSize_last [OF L last rep(2,3)] by blast
  have ch: "twap_chunk D l = q" using q(1) by (simp add: twap_chunk_def Let_def)
  obtain l' fs where t: "twap_timer D marshal E l = (l', fs)" by fastforce
  note slot = twap_timer_slot [OF t live(2)] twap_wf_succ [OF wf]
  obtain oid where oid: "\<And>req. req = \<lparr>oreq_Book = tc_OrderBookID (xs_cfg ?s),
        oreq_Side = DoraclientSide (side_signal (tc_Side (xs_cfg ?s))), oreq_Quantity = q,
        oreq_InverseLeverage = d_one D, oreq_FromGlobal = False, oreq_ClientOrderID = c\<rparr> \<Longrightarrow>
      env_CreateMarketOrder E req = (oid, None)" "oid \<noteq> []"
    using ok by (metis prod.collapse)
  let ?ent = "\<lparr>oe_OrderID = oid, oe_ClientOrderID = c, oe_Requested = q, oe_Filled = d_zero D, oe_Status = OrderStatusOpen\<rparr>"
  have st: "xs_state (tl_strat l') = (xs_state ?s)\<lparr>Orders := Orders (xs_state ?s) @ [?ent],
      TotalSubmitted := fst (d_add D (TotalSubmitted (xs_state ?s)) q),
      ChunksProcessed := wrap64 (tl_chunksProcessed l + 1)\<rparr>"
    using twap_tick_state [OF live(2,1), of D marshal] t ch fresh(2)
      place_slice_ok [of E _ _ q D ?s oid marshal] oid by simp
  let ?k = "length (Orders (xs_state ?s))"
  have nth: "Orders (xs_state (tl_strat l')) ! ?k = ?ent" and len: "?k < length (Orders (xs_state (tl_strat l')))"
    and dist: "distinct (client_ids (Orders (xs_state (tl_strat l'))))"
    using fresh unfolding st by (simp_all add: client_ids_def)
  have "fst (ProcessOrderUpdate (RunState_view D marshal) D E' (xs_exec (tl_strat l')) (xs_state (tl_strat l'))
      \<lparr>ev_ClientOrderID = c, ev_Status = ''FILLED'', ev_Filled = q\<rparr>) =
      AddTotalFilled D q (SetOrder (int ?k) q ''FILLED'' (xs_state (tl_strat l')))"
    using rs.process_known [of D marshal "xs_state (tl_strat l')" ?k
        "\<lparr>ev_ClientOrderID = c, ev_Status = ''FILLED'', ev_Filled = q\<rparr>" E' "xs_exec (tl_strat l')"] dist len nth
    by (simp add: RunState_view_def Let_def settle_def IsTerminal_def OrderStatusOpen_def)
  then have "TotalFilled (xs_state (fst (processOrderUpdate D marshal E'
      \<lparr>ev_ClientOrderID = c, ev_Status = ''FILLED'', ev_Filled = q\<rparr> (tl_strat l')))) =
      fst (d_add D (TotalFilled (xs_state ?s)) q)"
    using processOrderUpdate_state [of D marshal E' _ "tl_strat l'"] st
    by (simp only:) (simp add: AddTotalFilled_def SetOrder_def)
  moreover have "val (fst (d_add D (TotalFilled (xs_state ?s)) q)) = val ?T"
    using fst_add_exact [OF L, of "TotalFilled (xs_state ?s)" q] q(2) rep(1) by simp
  moreover have "twap_step D marshal (E, TimerFired) l = (l', fs)" using t wf(2) by (simp add: twap_step_def)
  moreover have "order_qtys fs = [q]" "tl_status l' = Returned None" using slot last live(1) ch by simp_all
  ultimately show ?thesis by auto
qed

theorem twap_last_chunk_completes_witness:
  "\<exists>q l' fs. twap_step rat_ops no_marshal (twap_env 1300, TimerFired) twap_last = (l', fs) \<and> order_qtys fs = [q] \<and>
     tl_status l' = Returned None \<and>
     TotalFilled (xs_state (fst (processOrderUpdate rat_ops no_marshal (twap_env 1301)
       \<lparr>ev_ClientOrderID = ''twap.r1.a'', ev_Status = ''FILLED'', ev_Filled = q\<rparr> (tl_strat l')))) = 10"
  using twap_last_chunk_completes [OF rat_ops_laws twap_last_facts(1-4,7,9) _ _ _ _ twap_last_facts(10),
      of no_marshal "twap_env 1301"]
  by (simp add: twap_last_facts(5,6,8) zero_totals client_ids_def representable_ten)

text \<open>The last slice is sized from the settled fills alone: if earlier slices are still in flight,
  the submitted total after the last tick exceeds the target by exactly the quantity in flight.\<close>

theorem twap_in_flight_oversubmits:
  assumes L: "decimal_laws D val rnd" and wf: "twap_wf l" "tl_status l = Running"
    and last: "tl_numChunks l = tl_chunksProcessed l + 1"
    and live: "\<not> xs_paused (tl_strat l)" "\<not> time_After (env_Now E) (tc_EndTime (xs_cfg (tl_strat l)))"
    and ok: "\<And>req. fst (env_CreateMarketOrder E req) \<noteq> [] \<and> snd (env_CreateMarketOrder E req) = None"
    and rep: "representable (val (tc_TotalAmount (xs_cfg (tl_strat l))) - val (TotalFilled (xs_state (tl_strat l))))"
      "val (TotalFilled (xs_state (tl_strat l))) \<le> val (tc_TotalAmount (xs_cfg (tl_strat l)))"
      "representable (val (TotalSubmitted (xs_state (tl_strat l))) +
         (val (tc_TotalAmount (xs_cfg (tl_strat l))) - val (TotalFilled (xs_state (tl_strat l)))))"
  shows "val (TotalSubmitted (xs_state (tl_strat (fst (twap_step D marshal (E, TimerFired) l))))) =
    val (tc_TotalAmount (xs_cfg (tl_strat l))) +
    (val (TotalSubmitted (xs_state (tl_strat l))) - val (TotalFilled (xs_state (tl_strat l))))"
proof -
  let ?s = "tl_strat l" and ?T = "tc_TotalAmount (xs_cfg (tl_strat l))"
  obtain q where q: "computeChunkSize D (xs_cfg ?s) (tl_numChunks l) (TotalSubmitted (xs_state ?s))
      (TotalFilled (xs_state ?s)) (tl_chunksProcessed l) = Inr q" "val q = val ?T - val (TotalFilled (xs_state ?s))"
    using computeChunkSize_last [OF L last rep(1,2)] by blast
  have ch: "twap_chunk D l = q" using q(1) by (simp add: twap_chunk_def Let_def)
  let ?req = "\<lparr>oreq_Book = tc_OrderBookID (xs_cfg ?s),
        oreq_Side = DoraclientSide (side_signal (tc_Side (xs_cfg ?s))), oreq_Quantity = q,
        oreq_InverseLeverage = d_one D, oreq_FromGlobal = False,
        oreq_ClientOrderID = BuildClientOrderID (ex_Name (xs_exec ?s)) (ex_RunID (xs_exec ?s)) (env_NewV7 E)\<rparr>"
  have "env_CreateMarketOrder E ?req = (fst (env_CreateMarketOrder E ?req), None)"
    using ok [of ?req] by (metis prod.collapse)
  from place_slice_ok [OF this, of marshal] ok [of ?req]
  have "TotalSubmitted (xs_state (tl_strat (fst (twap_timer D marshal E l)))) =
      fst (d_add D (TotalSubmitted (xs_state ?s)) q)"
    using twap_tick_state [OF live(2,1), of D marshal] ch by simp
  then show ?thesis
    using fst_add_exact [OF L, of "TotalSubmitted (xs_state ?s)" q] q(2) rep(3) wf(2)
    by (simp add: twap_step_def)
qed

theorem twap_in_flight_oversubmits_witness:
  "let l = twap_last\<lparr>tl_strat := (tl_strat twap_last)\<lparr>xs_state := (RunState_zero rat_ops)\<lparr>TotalSubmitted := 5\<rparr>\<rparr>\<rparr>
   in TotalSubmitted (xs_state (tl_strat (fst (twap_step rat_ops no_marshal (twap_env 1300, TimerFired) l)))) = 15"
proof -
  let ?l = "twap_last\<lparr>tl_strat := (tl_strat twap_last)\<lparr>xs_state := (RunState_zero rat_ops)\<lparr>TotalSubmitted := 5\<rparr>\<rparr>\<rparr>"
  have f: "twap_wf ?l" "tl_status ?l = Running" "tl_numChunks ?l = tl_chunksProcessed ?l + 1"
      "\<not> xs_paused (tl_strat ?l)" "\<not> time_After (env_Now (twap_env 1300)) (tc_EndTime (xs_cfg (tl_strat ?l)))"
    using twap_last_facts by (simp_all add: twap_wf_def)
  have "representable 15" using representable_of_int [of 15] by simp
  then show ?thesis
    using twap_in_flight_oversubmits [OF rat_ops_laws f twap_last_facts(9), of no_marshal]
    by (simp add: twap_last_facts(5,6) zero_totals representable_ten Let_def)
qed

text \<open>A configuration that passes validation can still crash the run: an interval of \<open>2 ^ 55\<close> seconds
  is a positive \<open>int\<close> whose nanoseconds wrap to zero, and counting the chunks then divides by zero.\<close>

theorem twap_interval_overflow_panics:
  assumes "Twap_Validate D (xs_cfg s) now = None" "tc_IntervalSeconds (xs_cfg s) = 2 ^ 55" "ex_Market (xs_exec s)"
  shows "tl_status (fst (Twap_Run D marshal unmarshal E runID s)) = Panicked"
proof -
  have aft: "time_After (tc_EndTime (xs_cfg s)) (tc_StartTime (xs_cfg s))"
    using assms(1) by (simp add: Twap_Validate_def split: if_splits)
  have "twap_interval (xs_cfg s) = 0" using assms(2) by (simp add: twap_interval_def wrap64_def)
  moreover have "\<not> time_Sub (tc_EndTime (xs_cfg s)) (tc_StartTime (xs_cfg s)) \<le> 0"
    using aft time_Sub_pos [of "tc_EndTime (xs_cfg s)" "tc_StartTime (xs_cfg s)"] by simp
  ultimately have n: "NumChunks (xs_cfg s) = None" by (simp add: NumChunks_def Let_def)
  obtain s1 eff where rec: "Twap_reconcilePendingOrders D marshal E
      (loadState D unmarshal E (s\<lparr>xs_exec := (xs_exec s)\<lparr>ex_RunID := runID\<rparr>\<rparr>)) = (s1, eff)" by fastforce
  have "xs_cfg s1 = xs_cfg s" using twap_reconcile_frame(1) [OF rec] by (simp add: loadState_frame)
  then show ?thesis using assms(3) n rec by (simp add: Twap_Run_def Let_def)
qed

theorem twap_interval_overflow_panics_witness:
  "tl_status (fst (Twap_Run rat_ops no_marshal no_unmarshal (twap_env 500) ''r1''
     (twap_strat\<lparr>xs_cfg := twap_cfg\<lparr>tc_IntervalSeconds := 2 ^ 55\<rparr>\<rparr>))) = Panicked"
proof -
  have "Twap_Validate rat_ops (twap_cfg\<lparr>tc_IntervalSeconds := 2 ^ 55\<rparr>) time_zero = None"
    by (simp add: Twap_Validate_def twap_cfg_def rat_ops_def time_defs)
  then show ?thesis
    by (intro twap_interval_overflow_panics [of _ _ time_zero]) (simp_all add: twap_strat_def Twap_New_def)
qed

end
