(* ===== verification/Vwap_Model.thy ===== *)
theory Vwap_Model
  imports Exec_Loop
begin

text \<open>
  The VWAP strategy: \<open>src/strategy/vwap/config.go\<close>, \<open>src/strategy/vwap/schedule.go\<close> and
  \<open>src/strategy/vwap/strategy.go\<close>.

  \<^item> The trade store is outside the repository's core: \<open>stream\<close> gives the trades a query delivers and
    whether the context was cancelled before the stream ended.
  \<^item> Where the source indexes a slice outside its range (a negative persisted position) the
    model's value is \<open>None\<close>, the panic.
  \<^item> Errors of the decimal package that the source discards are discarded here too: the value that
    came back beside the error is used.
\<close>

section \<open>Configuration\<close>

record 'd VwapConfig =
  vc_OrderBookID :: string
  vc_TotalAmount :: 'd
  vc_Side :: string
  vc_StartTime :: gtime
  vc_EndTime :: gtime
  vc_WindowDays :: int
  vc_BucketMinutes :: int

definition Vwap_DefaultConfig :: "'d decimal_ops \<Rightarrow> 'd VwapConfig" where
  "Vwap_DefaultConfig D = \<lparr>vc_OrderBookID = [], vc_TotalAmount = d_zero D, vc_Side = [],
     vc_StartTime = time_zero, vc_EndTime = time_zero, vc_WindowDays = 30, vc_BucketMinutes = 5\<rparr>"

definition Vwap_Validate :: "'d decimal_ops \<Rightarrow> 'd VwapConfig \<Rightarrow> gtime \<Rightarrow> gerror option" where
  "Vwap_Validate D c now =
     (if vc_OrderBookID c = [] then Some ''order_book_id is required''
      else if d_IsZero D (vc_TotalAmount c) \<or> d_IsNeg D (vc_TotalAmount c) then Some ''total_amount must be positive''
      else if vc_Side c \<noteq> ''buy'' \<and> vc_Side c \<noteq> ''sell'' then Some ''side must be buy or sell''
      else if time_IsZero (vc_StartTime c) \<or> time_IsZero (vc_EndTime c)
        then Some ''start_time and end_time are required''
      else if \<not> time_After (vc_EndTime c) (vc_StartTime c) then Some ''end_time must be strictly after start_time''
      else if \<not> time_After (vc_EndTime c) now then Some ''end_time must be in the future''
      else if vc_WindowDays c \<le> 0 then Some ''window_days must be positive''
      else if vc_BucketMinutes c \<le> 0 then Some ''bucket_minutes must be positive''
      else None)"

definition vwap_bucketSize :: "'d VwapConfig \<Rightarrow> int" where
  "vwap_bucketSize c = wrap64 (vc_BucketMinutes c * minute_ns)"

definition NumBuckets :: "'d VwapConfig \<Rightarrow> int" where
  "NumBuckets c =
     (let duration = time_Sub (vc_EndTime c) (vc_StartTime c); bucket = vwap_bucketSize c
      in if duration \<le> 0 \<or> bucket \<le> 0 then 0
         else let n = go_div duration bucket in if n = 0 then 1 else n)"

definition vwap_scheduledTime :: "'d VwapConfig \<Rightarrow> int \<Rightarrow> gtime" where
  "vwap_scheduledTime c i = time_Add (vc_StartTime c) (wrap64 (i * vwap_bucketSize c))"

section \<open>Schedule\<close>

definition minutesSinceMidnight :: "gtime \<Rightarrow> int" where
  "minutesSinceMidnight t = time_Hour t * 60 + time_Minute t"

record 'd HistTrade =
  ht_Time :: gtime
  ht_Quantity :: 'd

record 'd TradeFeed =
  tf_trades :: "'d HistTrade list"
  tf_cancelled :: bool

definition vol_get :: "'d decimal_ops \<Rightarrow> (int \<rightharpoonup> 'd) \<Rightarrow> int \<Rightarrow> 'd" where
  "vol_get D m k = (case m k of Some v \<Rightarrow> v | None \<Rightarrow> d_zero D)"

definition adv_add :: "'d decimal_ops \<Rightarrow> int \<Rightarrow> 'd HistTrade \<Rightarrow> (int \<rightharpoonup> 'd) \<Rightarrow> (int \<rightharpoonup> 'd)" where
  "adv_add D bucketMinutes t volumes =
     (let idx = go_div (minutesSinceMidnight (time_UTC (ht_Time t))) bucketMinutes
      in volumes(idx \<mapsto> fst (d_add D (vol_get D volumes idx) (ht_Quantity t))))"

definition aggregateADVByBucket ::
  "'d decimal_ops \<Rightarrow> (gtime \<Rightarrow> gtime \<Rightarrow> 'd TradeFeed) \<Rightarrow> gtime \<Rightarrow> gtime \<Rightarrow> int \<Rightarrow> (int \<rightharpoonup> 'd)" where
  "aggregateADVByBucket D stream start finish bucketMinutes =
     (let feed = stream start finish;
          volumes = fold (adv_add D bucketMinutes) (tf_trades feed) Map.empty
      in if tf_cancelled feed then volumes
         else
           let windowDays = go_div (time_Sub finish start) day_ns;
               windowDays = (if windowDays \<le> 0 then 1 else windowDays)
           in (\<lambda>k. map_option (\<lambda>v. fst (d_quo D v (d_new D windowDays))) (volumes k)))"

definition bucket_index :: "'d VwapConfig \<Rightarrow> int \<Rightarrow> int" where
  "bucket_index cfg i = go_div (minutesSinceMidnight (vwap_scheduledTime cfg i)) (vc_BucketMinutes cfg)"

definition sum_ignoring :: "'d decimal_ops \<Rightarrow> 'd list \<Rightarrow> 'd" where
  "sum_ignoring D xs = fold (\<lambda>x acc. fst (d_add D acc x)) xs (d_zero D)"

definition Schedule_Total :: "'d decimal_ops \<Rightarrow> 'd list \<Rightarrow> 'd" where
  "Schedule_Total D buckets = sum_ignoring D buckets"

fun alloc_loop :: "'d decimal_ops \<Rightarrow> 'd \<Rightarrow> 'd list \<Rightarrow> 'd list res" where
  "alloc_loop D scale [] = Inr []"
| "alloc_loop D scale (vol # vols) =
     rbind (tryv (d_mul D vol scale)) (\<lambda>amt.
     rbind (alloc_loop D scale vols) (\<lambda>rest. Inr (d_floor D amt # rest)))"

text \<open>The last bucket takes what the others leave.\<close>

definition close_schedule :: "'d decimal_ops \<Rightarrow> 'd \<Rightarrow> 'd list \<Rightarrow> 'd list" where
  "close_schedule D total_amount firsts =
     firsts @ [fst (d_sub D total_amount (sum_ignoring D firsts))]"

definition BuildSchedule ::
  "'d decimal_ops \<Rightarrow> (gtime \<Rightarrow> gtime \<Rightarrow> 'd TradeFeed) \<Rightarrow> gtime \<Rightarrow> 'd VwapConfig \<Rightarrow> 'd list res" where
  "BuildSchedule D stream clock cfg =
     (let buckets = NumBuckets cfg in
      if buckets = 0 then Inl ''vwap: no buckets in execution window''
      else
        let now = time_UTC clock;
            historyStart = time_Add now (- (vc_WindowDays cfg * day_ns));
            advVolumes = aggregateADVByBucket D stream historyStart now (vc_BucketMinutes cfg);
            vols = map (\<lambda>i. vol_get D advVolumes (bucket_index cfg (int i))) [0..<nat buckets];
            totalADV = sum_ignoring D vols
        in if d_IsZero D totalADV
           then rbind (tryv (d_quo D (vc_TotalAmount cfg) (d_new D buckets))) (\<lambda>perBucket.
             Inr (close_schedule D (vc_TotalAmount cfg) (replicate (nat buckets - 1) (d_floor D perBucket))))
           else rbind (tryv (d_quo D (vc_TotalAmount cfg) totalADV)) (\<lambda>scale.
             rbind (alloc_loop D scale vols) (\<lambda>out.
             Inr (close_schedule D (vc_TotalAmount cfg) (butlast out)))))"

section \<open>Strategy\<close>

record 'd VwapStrategy = "('d VwapConfig, 'd) ExecStrategy" +
  vs_schedule :: "'d list"
  vs_store :: bool

definition Vwap_New ::
  "'d decimal_ops \<Rightarrow> 'd VwapConfig \<Rightarrow> bool \<Rightarrow> bool \<Rightarrow> bool \<Rightarrow> bool \<Rightarrow> bool \<Rightarrow> int \<Rightarrow> 'd VwapStrategy" where
  "Vwap_New D cfg market records store updates trades seq =
     \<lparr>xs_cfg = cfg, xs_exec = \<lparr>ex_Name = ''vwap'', ex_RunID = uuid_Nil, ex_Market = market, ex_Records = records,
        ex_Store = store\<rparr>, xs_paused = False, xs_cancelled = False, xs_updates = updates,
      xs_state = RunState_zero D, xs_decSeq = seq, vs_schedule = [], vs_store = trades\<rparr>"

definition Vwap_reconcilePendingOrders ::
  "'d decimal_ops \<Rightarrow> ('d RunState \<Rightarrow> string gopair) \<Rightarrow> 'd ExecEnv \<Rightarrow> 'd VwapStrategy \<Rightarrow>
     'd VwapStrategy \<times> 'd Effect list" where
  "Vwap_reconcilePendingOrders D marshal E s =
     (let V = RunState_view D marshal;
          prefix = BuildClientOrderIDPrefix ''vwap'' (ex_RunID (xs_exec s)) in
      case ImportOrphanedOrders V D E (xs_exec s) (xs_state s) prefix of (st1, eff1) \<Rightarrow>
      case ReconcilePendingOrders V D E (xs_exec s) st1 of (st2, eff2) \<Rightarrow>
        (s\<lparr>xs_state := st2\<rparr>, eff1 @ eff2))"

definition loadSchedule ::
  "'d decimal_ops \<Rightarrow> (gtime \<Rightarrow> gtime \<Rightarrow> 'd TradeFeed) \<Rightarrow> 'd ExecEnv \<Rightarrow> 'd VwapStrategy \<Rightarrow> 'd VwapStrategy res" where
  "loadSchedule D stream E s =
     (if \<not> vs_store s then Inl ''vwap: trade history store not configured''
      else rbind (tryv (env_ParseUUID E (vc_OrderBookID (xs_cfg s)))) (\<lambda>orderBookID.
           rbind (BuildSchedule D stream (env_Now E) (xs_cfg s)) (\<lambda>sched.
           Inr (s\<lparr>vs_schedule := sched\<rparr>))))"

definition computeBucketSize ::
  "'d decimal_ops \<Rightarrow> 'd VwapConfig \<Rightarrow> 'd list \<Rightarrow> int \<Rightarrow> int \<Rightarrow> 'd \<Rightarrow> 'd \<Rightarrow> int \<Rightarrow> 'd gopair option" where
  "computeBucketSize D cfg sched numBuckets bucketIdx totalSubmitted totalFilled chunksProcessed =
     (if numBuckets \<le> bucketIdx \<or> bucketIdx < chunksProcessed then Some (d_zero D, None)
      else
        let remaining = wrap64 (numBuckets - chunksProcessed) in
        if remaining \<le> 0 then Some (d_zero D, None)
        else if chunksProcessed < 0 \<or> int (length sched) < numBuckets then None
        else
          let remainingSched = sum_ignoring D (take (nat numBuckets - nat chunksProcessed) (drop (nat chunksProcessed) sched)) in
          if d_IsZero D remainingSched then Some (d_zero D, None)
          else (case d_sub D (vc_TotalAmount cfg) totalFilled of
              (remainingQty, Some err) \<Rightarrow> Some (d_zero D, Some err)
            | (remainingQty, None) \<Rightarrow>
                if \<not> d_IsPos D remainingQty then Some (d_zero D, None)
                else (case d_mul D (sched ! nat bucketIdx) remainingQty of
                    (numerator, Some err) \<Rightarrow> Some (d_zero D, Some err)
                  | (numerator, None) \<Rightarrow> Some (d_quo D numerator remainingSched))))"

definition placeBucket ::
  "'d decimal_ops \<Rightarrow> ('d RunState \<Rightarrow> string gopair) \<Rightarrow> 'd ExecEnv \<Rightarrow> string \<Rightarrow> Signal \<Rightarrow> 'd \<Rightarrow>
     'd VwapStrategy \<Rightarrow> 'd VwapStrategy \<times> 'd Effect list" where
  "placeBucket D marshal E assetID signal bucketSize s = place_slice D marshal E assetID signal bucketSize s"

section \<open>Dispatch loop\<close>

record 'd VwapLoop =
  vl_strat :: "'d VwapStrategy"
  vl_nextBucket :: int
  vl_numBuckets :: int
  vl_status :: outcome

definition vwap_size :: "'d decimal_ops \<Rightarrow> 'd VwapLoop \<Rightarrow> 'd gopair option" where
  "vwap_size D l =
     (let s = vl_strat l in
      computeBucketSize D (xs_cfg s) (vs_schedule s) (vl_numBuckets l) (vl_nextBucket l) (TotalSubmitted (xs_state s))
        (TotalFilled (xs_state s)) (ChunksProcessed (xs_state s)))"

text \<open>\<open>handleBucketTick\<close> together with the loop's own increment and exit.\<close>

definition handleBucketTick ::
  "'d decimal_ops \<Rightarrow> ('d RunState \<Rightarrow> string gopair) \<Rightarrow> 'd ExecEnv \<Rightarrow> 'd VwapLoop \<Rightarrow> 'd VwapLoop \<times> 'd Effect list" where
  "handleBucketTick D marshal E l =
     (let s = vl_strat l; cfg = xs_cfg s in
      case (if xs_paused s then Some (s, [])
            else map_option (\<lambda>p. placeBucket D marshal E (vc_OrderBookID cfg) (side_signal (vc_Side cfg)) (fst p) s)
              (vwap_size D l)) of
        None \<Rightarrow> (l\<lparr>vl_status := Panicked\<rparr>, [])
      | Some (s, eff) \<Rightarrow>
          let nb = wrap64 (vl_nextBucket l + 1);
              s = set_processed nb s;
              eff = eff @ saveState D marshal E s
          in (l\<lparr>vl_strat := s, vl_nextBucket := nb,
                vl_status := (if nb \<ge> vl_numBuckets l then Returned None else Running)\<rparr>, eff))"

definition vwap_step ::
  "'d decimal_ops \<Rightarrow> ('d RunState \<Rightarrow> string gopair) \<Rightarrow> 'd event \<Rightarrow> 'd VwapLoop \<Rightarrow> 'd VwapLoop \<times> 'd Effect list" where
  "vwap_step D marshal e l =
     (if vl_status l \<noteq> Running then (l, [])
      else case e of (E, ev) \<Rightarrow>
        (case ev of
           CtxDone \<Rightarrow> (l\<lparr>vl_status := Returned None\<rparr>, [])
         | Msg msg \<Rightarrow> (l\<lparr>vl_strat := handle_message msg (vl_strat l)\<rparr>, [])
         | OrderUpdate evt \<Rightarrow>
             if \<not> xs_updates (vl_strat l) then (l, [])
             else (case processOrderUpdate D marshal E evt (vl_strat l) of
                 (s, eff) \<Rightarrow> (l\<lparr>vl_strat := s\<rparr>, eff))
         | UpdatesClosed \<Rightarrow> (l\<lparr>vl_strat := (vl_strat l)\<lparr>xs_updates := False\<rparr>\<rparr>, [])
         | TimerFired \<Rightarrow> handleBucketTick D marshal E l))"

definition Vwap_Run ::
  "'d decimal_ops \<Rightarrow> ('d RunState \<Rightarrow> string gopair) \<Rightarrow> (string \<Rightarrow> 'd RunState gopair) \<Rightarrow>
     (gtime \<Rightarrow> gtime \<Rightarrow> 'd TradeFeed) \<Rightarrow> 'd ExecEnv \<Rightarrow> string \<Rightarrow> 'd VwapStrategy \<Rightarrow> 'd VwapLoop \<times> 'd Effect list" where
  "Vwap_Run D marshal unmarshal stream E runID s =
     (let stop = (\<lambda>s st eff. (\<lparr>vl_strat = s, vl_nextBucket = ChunksProcessed (xs_state s), vl_numBuckets = 0,
            vl_status = st\<rparr>, eff)) in
      if \<not> ex_Market (xs_exec s) then stop s (Returned (Some ''vwap: market API client not configured'')) []
      else
        let s = s\<lparr>xs_exec := (xs_exec s)\<lparr>ex_RunID := runID\<rparr>\<rparr>;
            s = loadState D unmarshal E s in
        (case Vwap_reconcilePendingOrders D marshal E s of (s, eff) \<Rightarrow>
          (case loadSchedule D stream E s of
             Inl err \<Rightarrow> stop s (Returned (Some (''vwap: load schedule: '' @ err))) eff
           | Inr s \<Rightarrow>
              let numBuckets = int (length (vs_schedule s)); cp = ChunksProcessed (xs_state s);
                  ts = TotalSubmitted (xs_state s) in
              if numBuckets = 0 then stop s (Returned (Some ''vwap: empty schedule'')) eff
              else (case computeBucketSize D (xs_cfg s) (vs_schedule s) numBuckets cp ts ts cp of
                  None \<Rightarrow> stop s Panicked eff
                | Some (q, Some err) \<Rightarrow> stop s (Returned (Some err)) eff
                | Some (q, None) \<Rightarrow>
                    (case skip_missed D marshal E (vwap_scheduledTime (xs_cfg s)) numBuckets cp s of
                       (nb, s, eff2) \<Rightarrow>
                         (\<lparr>vl_strat = s, vl_nextBucket = nb, vl_numBuckets = numBuckets,
                           vl_status = (if nb \<ge> numBuckets then Returned None else Running)\<rparr>, eff @ eff2))))))"

section \<open>The dispatch loop is a slot scheduler\<close>

text \<open>Well-formed loop states: the loop position is the persisted position and lies inside the
  schedule while the loop runs, so indexing never leaves the slice.\<close>

definition vwap_wf :: "'d VwapLoop \<Rightarrow> bool" where
  "vwap_wf l \<longleftrightarrow> int64_ok (vl_numBuckets l) \<and> 0 \<le> vl_nextBucket l \<and> vl_status l \<noteq> Panicked \<and>
     int (length (vs_schedule (vl_strat l))) = vl_numBuckets l \<and>
     ChunksProcessed (xs_state (vl_strat l)) = vl_nextBucket l \<and>
     (vl_status l = Running \<longrightarrow> vl_nextBucket l < vl_numBuckets l)"

lemma vwap_wf_succ:
  "vwap_wf l \<Longrightarrow> vl_status l = Running \<Longrightarrow> wrap64 (vl_nextBucket l + 1) = vl_nextBucket l + 1"
  by (rule wrap64_id) (simp add: vwap_wf_def int64_ok_def)

lemma vwap_size_total: "vwap_wf l \<Longrightarrow> vwap_size D l \<noteq> None"
  by (auto simp: vwap_size_def computeBucketSize_def vwap_wf_def Let_def split: prod.splits option.splits)

lemma place_slice_schedule: "place_slice D m E b sig q s = (s', eff) \<Longrightarrow> vs_schedule s' = vs_schedule s"
  by (auto simp: place_slice_def Let_def split: prod.splits sum.splits)

lemma vwap_tick:
  assumes wf: "vwap_wf l" "vl_status l = Running" and t: "handleBucketTick D m E l = (l', eff)"
  shows "vl_numBuckets l' = vl_numBuckets l" "vl_nextBucket l' = vl_nextBucket l + 1"
    "order_qtys eff = (if xs_paused (vl_strat l) then [] else [fst (the (vwap_size D l))])"
    "vl_status l' = (if vl_numBuckets l \<le> vl_nextBucket l + 1 then Returned None else Running)"
    "vwap_wf l'" "xs_cfg (vl_strat l') = xs_cfg (vl_strat l)"
proof -
  let ?s = "vl_strat l"
  obtain p where p: "vwap_size D l = Some p" using vwap_size_total [OF wf(1), of D] by blast
  obtain s1 e1 where pl: "(if xs_paused ?s then Some (?s, [])
      else map_option (\<lambda>p. placeBucket D m E (vc_OrderBookID (xs_cfg ?s)) (side_signal (vc_Side (xs_cfg ?s))) (fst p) ?s)
        (vwap_size D l)) = Some (s1, e1)"
    using p by (cases "xs_paused ?s") (simp_all, metis prod.collapse)
  have q: "order_qtys e1 = (if xs_paused ?s then [] else [fst p])" "xs_cfg s1 = xs_cfg ?s"
      "vs_schedule s1 = vs_schedule ?s"
    using pl p unfolding placeBucket_def
    by (auto split: if_splits dest: place_slice_frame(2,6) place_slice_schedule)
  have t': "l' = l\<lparr>vl_strat := set_processed (vl_nextBucket l + 1) s1, vl_nextBucket := vl_nextBucket l + 1,
      vl_status := (if vl_numBuckets l \<le> vl_nextBucket l + 1 then Returned None else Running)\<rparr>"
    "eff = e1 @ saveState D m E (set_processed (vl_nextBucket l + 1) s1)"
    using t unfolding handleBucketTick_def Let_def pl vwap_wf_succ [OF wf] by simp_all
  have sch: "vs_schedule (set_processed k s1) = vs_schedule s1" for k by (simp add: set_processed_def)
  show "vl_numBuckets l' = vl_numBuckets l" "vl_nextBucket l' = vl_nextBucket l + 1"
    "order_qtys eff = (if xs_paused (vl_strat l) then [] else [fst (the (vwap_size D l))])"
    "vl_status l' = (if vl_numBuckets l \<le> vl_nextBucket l + 1 then Returned None else Running)"
    "xs_cfg (vl_strat l') = xs_cfg (vl_strat l)" "vwap_wf l'"
    unfolding t' using wf by (simp_all add: q p vwap_wf_def sch)
qed

lemma handleBucketTick_frame:
  "vl_numBuckets (fst (handleBucketTick D m E l)) = vl_numBuckets l"
  "xs_paused (vl_strat l) \<Longrightarrow> order_qtys (snd (handleBucketTick D m E l)) = []"
  by (simp_all add: handleBucketTick_def Let_def split: prod.split option.split)

lemma handle_message_schedule: "vs_schedule (handle_message msg s) = vs_schedule s"
  by (simp add: handle_message_def split: Message.split)

lemma processOrderUpdate_schedule:
  "processOrderUpdate D m E evt s = (s', eff) \<Longrightarrow> vs_schedule s' = vs_schedule s"
  by (auto simp: processOrderUpdate_def split: prod.splits)

lemma vwap_step_other:
  assumes "vl_status l = Running" "\<not> is_timer e"
  shows "vl_nextBucket (fst (vwap_step D m e l)) = vl_nextBucket l"
    "vl_numBuckets (fst (vwap_step D m e l)) = vl_numBuckets l"
    "order_qtys (snd (vwap_step D m e l)) = []"
    "vwap_wf l \<Longrightarrow> vwap_wf (fst (vwap_step D m e l))"
  using assms
  by (auto simp: vwap_step_def is_timer_def vwap_wf_def handle_message_schedule split: LoopEvent.splits prod.splits
      dest: processOrderUpdate_frame(1,5) processOrderUpdate_schedule)

lemma vwap_step_timer:
  "vl_status l = Running \<Longrightarrow> is_timer e \<Longrightarrow> vwap_step D m e l = handleBucketTick D m (fst e) l"
  by (auto simp: vwap_step_def is_timer_def split: LoopEvent.splits prod.splits)

lemma vwap_step_stopped: "vl_status l \<noteq> Running \<Longrightarrow> vwap_step D m e l = (l, [])"
  by (simp add: vwap_step_def)

interpretation vwap: slot_scheduler "vwap_step D m" vl_nextBucket vl_numBuckets
    "\<lambda>l. vl_status l = Running" is_timer "\<lambda>l. xs_paused (vl_strat l)" vwap_wf
  for D :: "'d decimal_ops" and m
proof (unfold_locales, goal_cases)
  case (1 l e)
  then show ?case by (simp add: vwap_step_def)
next
  case (2 l e)
  obtain l' eff where t: "handleBucketTick D m (fst e) l = (l', eff)" by fastforce
  show ?case
    using 2 vwap_tick(5) [OF 2 _ t] t vwap_step_other(4) [of l e D m] vwap_step_timer [of l e D m]
    by (cases "vl_status l = Running"; cases "is_timer e") (simp_all add: vwap_step_stopped)
next
  case (3 l)
  then show ?case by (simp add: vwap_wf_def)
next
  case (4 e l)
  show ?case
    using vwap_step_other(2) [of l e D m] vwap_step_timer [of l e D m] handleBucketTick_frame(1) [of D m "fst e" l]
    by (cases "vl_status l = Running"; cases "is_timer e") (simp_all add: vwap_step_stopped)
next
  case (5 l e)
  then show ?case by (simp add: vwap_step_other)
next
  case (6 l e)
  obtain l' eff where t: "handleBucketTick D m (fst e) l = (l', eff)" by fastforce
  show ?case using 6 vwap_tick(2,3) [OF 6(1,2) t] t by (simp add: vwap_step_timer)
next
  case (7 l e)
  then show ?case
    using vwap_step_other(3) [of l e D m] vwap_step_timer [of l e D m] handleBucketTick_frame(2) [of l D m "fst e"]
    by (cases "is_timer e") simp_all
qed

end
