(* ===== verification/Vwap_Props.thy ===== *)
theory Vwap_Props
  imports Vwap_Model Twap_Props
begin

text \<open>
  What the VWAP strategy promises: the schedule adds up to the target amount, a bucket's order stays
  within the remaining quantity and the last bucket takes all of it, and a run sends at most one
  order per bucket, never panics and ends. Two behaviours of the code are recorded as well: a bucket
  with no allocation still sends an order of size zero, and buckets are looked up by local time of
  day while the volumes are collected by UTC time of day.
\<close>

section \<open>Sums with discarded errors\<close>

lemma fold_add_exact:
  assumes L: "decimal_laws D val rnd" and grid: "\<forall>x\<in>set (ys @ xs). on_grid val g M x"
    and bound: "int (length (ys @ xs)) * M < 10 ^ 19" "g \<le> 19" "0 \<le> M" and acc: "val acc = val_sum val ys"
  shows "val (fold (\<lambda>x acc. fst (d_add D acc x)) xs acc) = val_sum val (ys @ xs)"
  using grid bound(1) acc
proof (induction xs arbitrary: ys acc)
  case Nil
  then show ?case by simp
next
  case (Cons x xs)
  have "int (length (ys @ [x])) * M \<le> int (length (ys @ x # xs)) * M"
    using bound(3) by (intro mult_right_mono) simp_all
  then have "representable (val_sum val (ys @ [x]))"
    using Cons.prems(1,2) by (intro val_sum_representable [OF _ _ bound(2)]) auto
  then have "val (fst (d_add D acc x)) = val_sum val (ys @ [x])"
    using fst_add_exact [OF L, of acc x] Cons.prems(3) by simp
  then show ?case using Cons.IH [of "ys @ [x]"] Cons.prems by simp
qed

lemma sum_ignoring_exact:
  assumes "decimal_laws D val rnd" "\<forall>x\<in>set xs. on_grid val g M x" "int (length xs) * M < 10 ^ 19" "g \<le> 19" "0 \<le> M"
  shows "val (sum_ignoring D xs) = val_sum val xs"
  using fold_add_exact [OF assms(1), of "[]" xs g M "d_zero D"] assms dec_exact(1) [OF assms(1)]
  by (simp add: sum_ignoring_def)

section \<open>The schedule\<close>

lemma alloc_loop_result:
  assumes L: "decimal_laws D val rnd"
  shows "alloc_loop D scale vols = Inr out \<Longrightarrow>
    length out = length vols \<and> (\<forall>b\<in>set out. \<exists>k::int. val b = of_int k)"
  using dec_exact(6) [OF L] by (induction vols arbitrary: out) fastforce+

lemma NumBuckets_nonneg: "0 \<le> NumBuckets c"
proof (cases "0 < time_Sub (vc_EndTime c) (vc_StartTime c) \<and> 0 < vwap_bucketSize c")
  case True
  then have "go_div (time_Sub (vc_EndTime c) (vc_StartTime c)) (vwap_bucketSize c) =
      time_Sub (vc_EndTime c) (vc_StartTime c) div vwap_bucketSize c"
    by (simp add: go_div_nonneg time_Sub_range)
  then show ?thesis using True by (simp add: NumBuckets_def Let_def pos_imp_zdiv_nonneg_iff)
qed (auto simp: NumBuckets_def Let_def)

lemma NumBuckets_int64: "int64_ok (NumBuckets c)"
  by (auto simp: NumBuckets_def Let_def go_div_def wrap64_range) (simp_all add: int64_ok_def)

lemma BuildSchedule_shape:
  assumes L: "decimal_laws D val rnd" and b: "BuildSchedule D stream clock cfg = Inr sched"
  obtains firsts where "sched = close_schedule D (vc_TotalAmount cfg) firsts"
    "int (length firsts) + 1 = NumBuckets cfg" "\<forall>x\<in>set firsts. \<exists>k::int. val x = of_int k"
proof -
  let ?n = "nat (NumBuckets cfg)"
  have ne: "NumBuckets cfg \<noteq> 0" using b by (auto simp: BuildSchedule_def)
  with NumBuckets_nonneg [of cfg] have len: "int (?n - 1) + 1 = NumBuckets cfg" by simp
  have floor: "\<exists>k::int. val (d_floor D x) = of_int k" for x using dec_exact(6) [OF L] by blast
  consider per where "sched = close_schedule D (vc_TotalAmount cfg) (replicate (?n - 1) (d_floor D per))"
    | vols scale out where "length vols = ?n" "alloc_loop D scale vols = Inr out"
      "sched = close_schedule D (vc_TotalAmount cfg) (butlast out)"
  proof -
    let ?vols = "map (\<lambda>i. vol_get D (aggregateADVByBucket D stream (time_Add (time_UTC clock) (- (vc_WindowDays cfg * day_ns)))
      (time_UTC clock) (vc_BucketMinutes cfg)) (bucket_index cfg (int i))) [0..<?n]"
    define vols where "vols = ?vols"
    have len: "length vols = ?n" by (simp add: vols_def)
    have eq: "BuildSchedule D stream clock cfg =
        (if d_IsZero D (sum_ignoring D vols)
         then rbind (tryv (d_quo D (vc_TotalAmount cfg) (d_new D (NumBuckets cfg)))) (\<lambda>perBucket.
           Inr (close_schedule D (vc_TotalAmount cfg) (replicate (?n - 1) (d_floor D perBucket))))
         else rbind (tryv (d_quo D (vc_TotalAmount cfg) (sum_ignoring D vols))) (\<lambda>scale.
           rbind (alloc_loop D scale vols) (\<lambda>out. Inr (close_schedule D (vc_TotalAmount cfg) (butlast out)))))"
      using ne by (simp add: BuildSchedule_def Let_def vols_def)
    show ?thesis
    proof (cases "d_IsZero D (sum_ignoring D vols)")
      case True
      then show ?thesis using b that(1) by (auto simp: eq)
    next
      case False
      then obtain scale out where "alloc_loop D scale vols = Inr out"
          "sched = close_schedule D (vc_TotalAmount cfg) (butlast out)"
        using b by (auto simp: eq)
      then show ?thesis using that(2) [OF len] by blast
    qed
  qed
  then show ?thesis
  proof cases
    case 1
    then show ?thesis using that [of "replicate (?n - 1) (d_floor D per)"] len floor by auto
  next
    case 2
    then show ?thesis
      using that [of "butlast out"] len alloc_loop_result [OF L 2(2)] by (auto dest: in_set_butlastD)
  qed
qed

lemma remainder_representable:
  assumes "on_grid val g M T" "a = of_int k" "\<bar>k\<bar> \<le> K" "M + K * 10 ^ g < 10 ^ 19" "g \<le> 19"
  shows "representable (val T - a)"
proof -
  obtain t where t: "\<bar>t\<bar> \<le> M" "val T = of_int t / 10 ^ g" using assms(1) by (auto simp: on_grid_def)
  have "\<bar>k\<bar> * 10 ^ g \<le> K * 10 ^ g" using assms(3) by (intro mult_right_mono) simp_all
  moreover have "\<bar>t - k * 10 ^ g\<bar> \<le> \<bar>t\<bar> + \<bar>k\<bar> * 10 ^ g"
    using abs_triangle_ineq4 [of t "k * 10 ^ g"] by (simp add: abs_mult)
  ultimately have "\<bar>t - k * 10 ^ g\<bar> < 10 ^ 19" using t(1) assms(4) by linarith
  moreover have "val T - a = of_int (t - k * 10 ^ g) / 10 ^ g" using t(2) assms(2) by (simp add: field_simps)
  ultimately show ?thesis using assms(5) unfolding representable_def by blast
qed

lemma close_schedule_sum:
  assumes L: "decimal_laws D val rnd" and T: "on_grid val g M T"
    and whole: "\<forall>x\<in>set xs. \<exists>k::int. val x = of_int k" "\<forall>x\<in>set xs. \<bar>val x\<bar> \<le> of_int B"
    and bound: "M + int (length xs) * B * 10 ^ g < 10 ^ 19" "g \<le> 19" "0 \<le> B" "0 \<le> M"
  shows "val_sum val (close_schedule D T xs) = val T"
proof -
  have grid: "\<forall>x\<in>set xs. on_grid val 0 B x"
    using whole by (fastforce simp: on_grid_def simp flip: of_int_abs)
  have "int (length xs) * B * 1 \<le> int (length xs) * B * 10 ^ g"
    using bound(3) by (intro mult_left_mono) simp_all
  then have lt: "int (length xs) * B < 10 ^ 19" using bound(1,4) by linarith
  obtain k where k: "\<bar>k\<bar> \<le> int (length xs) * B" "val_sum val xs = of_int k"
    using val_sum_grid [OF grid] by auto
  have s: "val (sum_ignoring D xs) = val_sum val xs" by (rule sum_ignoring_exact [OF L grid lt]) (simp_all add: bound)
  have "val (fst (d_sub D T (sum_ignoring D xs))) = val T - val_sum val xs"
    using fst_sub_exact [OF L, of T "sum_ignoring D xs"] remainder_representable [OF T k(2,1) bound(1,2)] s by simp
  then show ?thesis by (simp add: close_schedule_def)
qed

section \<open>Bucket sizes\<close>

lemma computeBucketSize_cases:
  assumes "computeBucketSize D cfg sched n i ts filled i = Some (q, e)"
  obtains (zero) "q = d_zero D"
  | (share) rq num where "d_sub D (vc_TotalAmount cfg) filled = (rq, None)" "d_IsPos D rq"
      "\<not> d_IsZero D (sum_ignoring D (take (nat n - nat i) (drop (nat i) sched)))"
      "d_mul D (sched ! nat i) rq = (num, None)"
      "d_quo D num (sum_ignoring D (take (nat n - nat i) (drop (nat i) sched))) = (q, e)"
  using assms unfolding computeBucketSize_def Let_def
  by (auto split: if_splits prod.splits option.splits)

lemma suffix_sum_bounds:
  assumes "i < length sched" "\<forall>b\<in>set sched. 0 \<le> val b"
  shows "val (sched ! i) \<le> val_sum val (drop i sched)" "0 \<le> val_sum val (drop i sched)"
proof -
  have nn: "0 \<le> val_sum val (drop k sched)" for k
  proof -
    have "0 \<le> val_sum val xs" if "\<forall>b\<in>set xs. 0 \<le> val b" for xs using that by (induction xs) simp_all
    then show ?thesis using assms(2) by (meson in_set_dropD)
  qed
  show "0 \<le> val_sum val (drop i sched)" by (rule nn)
  show "val (sched ! i) \<le> val_sum val (drop i sched)"
    using assms(1) nn [of "Suc i"] by (simp add: Cons_nth_drop_Suc [symmetric])
qed

lemma bucket_share:
  assumes L: "decimal_laws D val rnd" and b: "0 \<le> val b" "val b \<le> R" "0 < R" and rq: "0 < val rq"
    and num: "d_mul D b rq = (num, None)" "representable (val b * val rq)"
    and q: "d_quo D num r = (q, None)" "val r = R"
  shows "0 \<le> val q \<and> val q \<le> val rq \<and> (val b = R \<longrightarrow> val q = val rq)"
proof -
  have n: "val num = val b * val rq" using val_mul [OF L num(1)] rnd_representable [OF L num(2)] by simp
  have v: "val q = rnd (val b * val rq / R)" using val_quo [OF L q(1)] n q(2) by simp
  have "val b * val rq \<le> R * val rq" using b(2) rq by (intro mult_right_mono) simp_all
  then have "val b * val rq / R \<le> val rq" using b(3) by (simp add: pos_divide_le_eq mult.commute)
  then have "val q \<le> val rq" unfolding v by (rule rnd_le_val [OF L])
  moreover have "0 \<le> val q" unfolding v using b rq by (intro rnd_nonneg [OF L]) simp
  moreover have "val q = val rq" if "val b = R" unfolding v using that b(3) rnd_val [OF L, of rq] by simp
  ultimately show ?thesis by blast
qed

section \<open>Starting a run\<close>

lemma import_frame:
  "ChunksProcessed (fst (ImportOrphanedOrders (RunState_view D m) D E e s p)) = ChunksProcessed s"
  "order_qtys (snd (ImportOrphanedOrders (RunState_view D m) D E e s p)) = []"
proof -
  have one: "ChunksProcessed (fst (import_one (RunState_view D m) D ord st)) = ChunksProcessed (fst st)" for ord st
    by (auto simp: import_one_def RunState_view_def AppendOrder_def AddTotalSubmitted_def Let_def
        split: prod.splits option.splits)
  have fld: "ChunksProcessed (fst (fold (import_one (RunState_view D m) D) ords st)) = ChunksProcessed (fst st)"
    for ords st by (induction ords arbitrary: st) (simp_all add: one)
  show "ChunksProcessed (fst (ImportOrphanedOrders (RunState_view D m) D E e s p)) = ChunksProcessed s"
    using fld [of _ "(s, 0)"]
    by (auto simp: ImportOrphanedOrders_def split: prod.splits option.splits) (metis fst_conv)+
  show "order_qtys (snd (ImportOrphanedOrders (RunState_view D m) D E e s p)) = []"
    by (auto simp: ImportOrphanedOrders_def split: prod.splits option.splits)
qed

lemma vwap_reconcile_frame:
  assumes "Vwap_reconcilePendingOrders D m E s = (s1, eff)"
  shows "xs_cfg s1 = xs_cfg s" "ChunksProcessed (xs_state s1) = ChunksProcessed (xs_state s)" "order_qtys eff = []"
  using assms import_frame [of D m E "xs_exec s" "xs_state s" "BuildClientOrderIDPrefix ''vwap'' (ex_RunID (xs_exec s))"]
    reconcile_frame [of D m E "xs_exec s"]
  by (auto simp: Vwap_reconcilePendingOrders_def Let_def split: prod.splits) (metis fst_conv snd_conv)+

lemma Vwap_Run_running:
  assumes "Vwap_Run D m u stream E runID s = (l, eff)" "vl_status l = Running"
  obtains s1 eff1 s2 eff2 where
    "Vwap_reconcilePendingOrders D m E (loadState D u E (s\<lparr>xs_exec := (xs_exec s)\<lparr>ex_RunID := runID\<rparr>\<rparr>)) = (s1, eff1)"
    "loadSchedule D stream E s1 = Inr s2" "vl_numBuckets l = int (length (vs_schedule s2))"
    "skip_missed D m E (vwap_scheduledTime (xs_cfg s2)) (vl_numBuckets l) (ChunksProcessed (xs_state s2)) s2 =
       (vl_nextBucket l, vl_strat l, eff2)"
    "eff = eff1 @ eff2" "vl_nextBucket l < vl_numBuckets l"
  using assms unfolding Vwap_Run_def Let_def
  by (auto split: if_splits prod.splits option.splits sum.splits)

lemma Vwap_Run_start:
  assumes L: "decimal_laws D val rnd" and run: "Vwap_Run D m u stream E runID s = (l, eff)" and r: "vl_status l = Running"
    and pos: "0 \<le> ChunksProcessed (xs_state (loadState D u E s))"
  shows "vwap_wf l" "order_qtys eff = []" "vl_numBuckets l = NumBuckets (xs_cfg s)"
    "BuildSchedule D stream (env_Now E) (xs_cfg s) = Inr (vs_schedule (vl_strat l))"
    "time_Before (env_Now E) (vwap_scheduledTime (xs_cfg s) (vl_nextBucket l))"
proof -
  let ?s0 = "s\<lparr>xs_exec := (xs_exec s)\<lparr>ex_RunID := runID\<rparr>\<rparr>"
  obtain s1 eff1 s2 eff2 where
    rec: "Vwap_reconcilePendingOrders D m E (loadState D u E ?s0) = (s1, eff1)"
    and ls: "loadSchedule D stream E s1 = Inr s2" and num: "vl_numBuckets l = int (length (vs_schedule s2))"
    and skip: "skip_missed D m E (vwap_scheduledTime (xs_cfg s2)) (vl_numBuckets l) (ChunksProcessed (xs_state s2)) s2 =
       (vl_nextBucket l, vl_strat l, eff2)"
    and eff: "eff = eff1 @ eff2" and lt: "vl_nextBucket l < vl_numBuckets l"
    using Vwap_Run_running [OF run r] by blast
  note rf = vwap_reconcile_frame [OF rec]
  have ld: "xs_state (loadState D u E ?s0) = xs_state (loadState D u E s)"
    by (auto simp: loadState_def LoadState_def split: sum.splits)
  have s2: "xs_cfg s2 = xs_cfg s" "xs_state s2 = xs_state s1" "BuildSchedule D stream (env_Now E) (xs_cfg s) = Inr (vs_schedule s2)"
    using ls rf(1) by (auto simp: loadSchedule_def loadState_frame split: if_splits)
  have cp: "0 \<le> ChunksProcessed (xs_state s2)" using s2(2) rf(2) ld pos by simp
  obtain firsts where "vs_schedule s2 = close_schedule D (vc_TotalAmount (xs_cfg s)) firsts"
    "int (length firsts) + 1 = NumBuckets (xs_cfg s)" using BuildSchedule_shape [OF L s2(3)] by blast
  then show n: "vl_numBuckets l = NumBuckets (xs_cfg s)" using num by (simp add: close_schedule_def)
  have le: "ChunksProcessed (xs_state s2) \<le> vl_numBuckets l"
    using skip lt by (cases "ChunksProcessed (xs_state s2) \<le> vl_numBuckets l")
      (auto simp: skip_missed.simps [of _ _ _ _ _ "ChunksProcessed (xs_state s2)"])
  note sk = skip_missed_result [OF skip le]
  have sch: "vs_schedule (vl_strat l) = vs_schedule s2"
    using sk by (auto simp: set_processed_def split: if_splits)
  show "order_qtys eff = []" using eff rf(3) sk by simp
  show "BuildSchedule D stream (env_Now E) (xs_cfg s) = Inr (vs_schedule (vl_strat l))" using s2(3) sch by simp
  show "time_Before (env_Now E) (vwap_scheduledTime (xs_cfg s) (vl_nextBucket l))" using sk lt s2(1) by simp
  have "ChunksProcessed (xs_state (vl_strat l)) = vl_nextBucket l" using sk by (auto split: if_splits)
  then show "vwap_wf l" using r lt num sch sk cp n NumBuckets_int64 [of "xs_cfg s"] by (auto simp: vwap_wf_def)
qed

section \<open>Minutes of the day\<close>

lemma unit_split:
  fixes y u :: int
  assumes "0 < u"
  shows "y mod (u * 1440) div (u * 60) = y div u mod 1440 div 60" "y mod (u * 60) div u = y div u mod 60"
proof -
  have r: "0 \<le> y mod u" "y mod u < u" using assms by simp_all
  have q: "(u * k + y mod u) div u = k" for k using r assms by simp
  have "(u * k + y mod u) div (u * 60) = k div 60" for k
    using q [of k] zdiv_zmult2_eq [of 60 "u * k + y mod u" u] by simp
  then show "y mod (u * 1440) div (u * 60) = y div u mod 1440 div 60"
    using zmod_zmult2_eq [of 1440 y u] by simp
  show "y mod (u * 60) div u = y div u mod 60"
    using zmod_zmult2_eq [of 60 y u] q by simp
qed

lemma minutesSinceMidnight_eq: "minutesSinceMidnight x = (t_ns x + t_off x) div minute_ns mod 1440"
proof -
  let ?y = "t_ns x + t_off x" and ?u = "60 * 1000000000 :: int"
  have "time_Hour x = ?y div ?u mod 1440 div 60"
    using unit_split(1) [of ?u ?y] by (simp add: time_Hour_def)
  moreover have "time_Minute x = ?y div ?u mod 60"
    using unit_split(2) [of ?u ?y] by (simp add: time_Minute_def)
  moreover have "z mod 1440 div 60 * 60 + z mod 60 = z mod 1440" for z :: int
    using mod_mod_cancel [of 60 1440 z] div_mult_mod_eq [of "z mod 1440" 60] by simp
  ultimately show ?thesis unfolding minutesSinceMidnight_def by simp
qed

section \<open>A concrete strategy\<close>

definition vwap_cfg :: "rat VwapConfig" where
  "vwap_cfg = \<lparr>vc_OrderBookID = ''b'', vc_TotalAmount = 7, vc_Side = ''sell'',
     vc_StartTime = \<lparr>t_ns = 6000 * second_ns, t_off = 0\<rparr>, vc_EndTime = \<lparr>t_ns = 6600 * second_ns, t_off = 0\<rparr>,
     vc_WindowDays = 30, vc_BucketMinutes = 5\<rparr>"

definition no_trades :: "gtime \<Rightarrow> gtime \<Rightarrow> rat TradeFeed" where
  "no_trades a b = \<lparr>tf_trades = [], tf_cancelled = False\<rparr>"

definition vwap_loop :: "rat list \<Rightarrow> rat VwapLoop" where
  "vwap_loop sched = \<lparr>vl_strat = (Vwap_New rat_ops vwap_cfg True False False True True 0)\<lparr>
       xs_exec := \<lparr>ex_Name = ''vwap'', ex_RunID = ''r1'', ex_Market = True, ex_Records = False, ex_Store = False\<rparr>,
       vs_schedule := sched\<rparr>,
     vl_nextBucket = 0, vl_numBuckets = int (length sched), vl_status = Running\<rparr>"

definition vwap_env :: "int \<Rightarrow> rat ExecEnv" where
  "vwap_env now = (twap_env now)\<lparr>env_ListOrders := (\<lambda>pre. ([], None))\<rparr>"

lemma vwap_cfg_amount: "vc_TotalAmount vwap_cfg = 7"
  by (simp add: vwap_cfg_def)

lemma vwap_cfg_buckets: "NumBuckets vwap_cfg = 2"
  by (simp add: NumBuckets_def vwap_cfg_def vwap_bucketSize_def time_Sub_def wrap64_def go_div_def Let_def)

lemma vwap_sample_schedule: "BuildSchedule rat_ops no_trades clock vwap_cfg = Inr [3, 4]"
proof -
  have fl: "\<lfloor>7 / 2 :: rat\<rfloor> = 3" by (simp add: floor_eq_iff)
  have z: "vol_get rat_ops (aggregateADVByBucket rat_ops no_trades a b k) i = 0" for a b k i
    by (simp add: vol_get_def aggregateADVByBucket_def no_trades_def Let_def rat_ops_def)
  show ?thesis
    by (simp add: BuildSchedule_def vwap_cfg_buckets Let_def z sum_ignoring_def close_schedule_def upt_rec numeral_2_eq_2)
      (simp add: rat_ops_def vwap_cfg_def fl)
qed

lemma vwap_loop_wf: "sched \<noteq> [] \<Longrightarrow> length sched < 10 \<Longrightarrow> vwap_wf (vwap_loop sched)"
  by (simp add: vwap_wf_def vwap_loop_def Vwap_New_def RunState_zero_def int64_ok_def)

lemma vwap_loop_facts:
  "vl_status (vwap_loop sched) = Running" "\<not> xs_paused (vl_strat (vwap_loop sched))"
  "vl_nextBucket (vwap_loop sched) = 0" "vl_numBuckets (vwap_loop sched) = int (length sched)"
  "vs_schedule (vl_strat (vwap_loop sched)) = sched" "xs_cfg (vl_strat (vwap_loop sched)) = vwap_cfg"
  "TotalFilled (xs_state (vl_strat (vwap_loop sched))) = 0"
  "TotalSubmitted (xs_state (vl_strat (vwap_loop sched))) = 0"
  by (simp_all add: vwap_loop_def Vwap_New_def RunState_zero_def rat_ops_def)

definition vwap_strat :: "rat VwapStrategy" where
  "vwap_strat = Vwap_New rat_ops vwap_cfg True False False True True 0"

lemma vwap_sample_run:
  "Vwap_Run rat_ops no_marshal no_unmarshal no_trades (vwap_env 500) ''r1'' vwap_strat = (vwap_loop [3, 4], [])"
proof -
  let ?s = "vwap_strat\<lparr>xs_exec := (xs_exec vwap_strat)\<lparr>ex_RunID := ''r1''\<rparr>\<rparr>"
  let ?l = "?s\<lparr>vs_schedule := [3, 4]\<rparr>"
  have f: "ex_Market (xs_exec vwap_strat)" "xs_cfg vwap_strat = vwap_cfg" "xs_state vwap_strat = RunState_zero rat_ops"
      "vs_store vwap_strat" "ChunksProcessed (RunState_zero rat_ops) = 0"
    by (simp_all add: vwap_strat_def Vwap_New_def RunState_zero_def)
  have ld: "loadState rat_ops no_unmarshal (vwap_env 500) ?s = ?s"
    by (simp add: loadState_def LoadState_def vwap_strat_def Vwap_New_def)
  have rec: "Vwap_reconcilePendingOrders rat_ops no_marshal (vwap_env 500) ?s = (?s, [])"
    by (simp add: Vwap_reconcilePendingOrders_def ImportOrphanedOrders_def ReconcilePendingOrders_def SaveState_def
        vwap_env_def vwap_strat_def Vwap_New_def RunState_view_def RunState_zero_def Let_def)
  have "env_ParseUUID (vwap_env 500) (vc_OrderBookID vwap_cfg) = (''b'', None)"
    by (simp add: vwap_env_def twap_env_def sample_env_def vwap_cfg_def)
  then have ls: "loadSchedule rat_ops no_trades (vwap_env 500) ?s = Inr ?l"
    by (simp add: loadSchedule_def f vwap_sample_schedule)
  have cb: "computeBucketSize rat_ops vwap_cfg [3, 4] 2 0 0 0 0 = Some (3, None)"
    by (simp add: computeBucketSize_def sum_ignoring_def Let_def wrap64_def) (simp add: rat_ops_def vwap_cfg_def)
  have early: "time_Before (env_Now (vwap_env 500)) (vwap_scheduledTime vwap_cfg 0)"
    by (simp add: vwap_env_def twap_env_def vwap_cfg_def vwap_scheduledTime_def vwap_bucketSize_def wrap64_def time_defs)
  have sk: "skip_missed rat_ops no_marshal (vwap_env 500) (vwap_scheduledTime vwap_cfg) 2 0 ?l = (0, ?l, [])"
    using early by (simp add: skip_missed.simps)
  have lp: "vwap_loop [3, 4] = \<lparr>vl_strat = ?l, vl_nextBucket = 0, vl_numBuckets = 2, vl_status = Running\<rparr>"
    by (simp add: vwap_loop_def vwap_strat_def Vwap_New_def)
  show ?thesis
    unfolding Vwap_Run_def Let_def ld rec prod.case ls sum.case lp
    using cb by (simp add: f sk zero_totals)
qed

section \<open>What VWAP promises\<close>

text \<open>C39: A built schedule has one entry per bucket of the window, every entry but the last is a whole
  number, and the entries add up to the target amount exactly, whether the volumes were used or the
  even fallback.\<close>

theorem vwap_schedule_sums_to_total:
  assumes L: "decimal_laws D val rnd" and b: "BuildSchedule D stream clock cfg = Inr sched"
    and T: "on_grid val g M (vc_TotalAmount cfg)" and B: "\<forall>x\<in>set (butlast sched). \<bar>val x\<bar> \<le> of_int B"
    and bound: "M + int (length sched) * B * 10 ^ g < 10 ^ 19" "g \<le> 19" "0 \<le> B" "0 \<le> M"
  shows "int (length sched) = NumBuckets cfg \<and> val_sum val sched = val (vc_TotalAmount cfg) \<and>
    (\<forall>x\<in>set (butlast sched). \<exists>k::int. val x = of_int k)"
proof -
  obtain firsts where f: "sched = close_schedule D (vc_TotalAmount cfg) firsts"
    "int (length firsts) + 1 = NumBuckets cfg" "\<forall>x\<in>set firsts. \<exists>k::int. val x = of_int k"
    using BuildSchedule_shape [OF L b] by blast
  have bl: "butlast sched = firsts" using f(1) by (simp add: close_schedule_def)
  have "int (length firsts) * (B * 10 ^ g) \<le> int (length sched) * (B * 10 ^ g)"
    using f(1) bound(3) by (intro mult_right_mono) (simp_all add: close_schedule_def)
  then have "M + int (length firsts) * B * 10 ^ g < 10 ^ 19" using bound(1) by (simp add: mult.assoc)
  from close_schedule_sum [OF L T f(3) _ this bound(2-4)] B bl
  have "val_sum val sched = val (vc_TotalAmount cfg)" by (simp add: f(1))
  then show ?thesis using f bl by (simp add: close_schedule_def)
qed

theorem vwap_schedule_sums_to_total_witness:
  "\<exists>sched. BuildSchedule rat_ops no_trades time_zero vwap_cfg = Inr sched \<and> length sched = 2 \<and> val_sum id sched = 7"
proof -
  have "on_grid id 0 9 (vc_TotalAmount vwap_cfg)" unfolding on_grid_def by (rule exI [of _ 7]) (simp add: vwap_cfg_def)
  from vwap_schedule_sums_to_total [OF rat_ops_laws vwap_sample_schedule [of time_zero] this, of 9] vwap_cfg_buckets
  show ?thesis by (auto simp: vwap_sample_schedule vwap_cfg_amount)
qed

text \<open>The order of an unpaused bucket tick is never negative and never exceeds what remains to be
  filled, and when no later bucket has an allocation it is exactly what remains, provided the
  product of bucket and remainder is representable.\<close>

theorem vwap_bucket_within_remaining:
  assumes L: "decimal_laws D val rnd" and wf: "vwap_wf l" "vl_status l = Running"
    and t: "vwap_step D marshal (E, TimerFired) l = (l', fs)" and live: "\<not> xs_paused (vl_strat l)"
    and sched: "\<forall>x\<in>set (vs_schedule (vl_strat l)). on_grid val g M x \<and> 0 \<le> val x"
      "vl_numBuckets l * M < 10 ^ 19" "g \<le> 19" "0 \<le> M"
    and rq: "d_sub D (vc_TotalAmount (xs_cfg (vl_strat l))) (TotalFilled (xs_state (vl_strat l))) = (rq, None)"
    and prod: "representable (val (vs_schedule (vl_strat l) ! nat (vl_nextBucket l)) * val rq)"
    and sz: "vwap_size D l = Some (q, None)"
  shows "order_qtys fs = [q] \<and> 0 \<le> val q \<and> val q \<le> max 0 (val rq) \<and>
    (0 < val rq \<and> 0 < val (vs_schedule (vl_strat l) ! nat (vl_nextBucket l)) \<and>
     val_sum val (drop (nat (vl_nextBucket l) + 1) (vs_schedule (vl_strat l))) = 0 \<longrightarrow> val q = val rq)"
proof -
  let ?sc = "vs_schedule (vl_strat l)" and ?i = "nat (vl_nextBucket l)" and ?n = "nat (vl_numBuckets l)"
  have tick: "handleBucketTick D marshal E l = (l', fs)" using t wf(2) by (simp add: vwap_step_def)
  have fs: "order_qtys fs = [q]" using vwap_tick(3) [OF wf tick] live sz by simp
  have idx: "?i < length ?sc" "?n = length ?sc" and cp: "ChunksProcessed (xs_state (vl_strat l)) = vl_nextBucket l"
    using wf by (auto simp: vwap_wf_def)
  let ?R = "sum_ignoring D (take (?n - ?i) (drop ?i ?sc))"
  have tk: "take (?n - ?i) (drop ?i ?sc) = drop ?i ?sc" using idx by simp
  have "int (length (drop ?i ?sc)) * M \<le> vl_numBuckets l * M"
    using sched(4) wf(1) by (intro mult_right_mono) (auto simp: vwap_wf_def)
  then have R: "val ?R = val_sum val (drop ?i ?sc)"
    unfolding tk using sched by (intro sum_ignoring_exact [OF L, of _ g M]) (auto dest: in_set_dropD)
  note suf = suffix_sum_bounds [OF idx(1), of val]
  have tail: "val_sum val (drop ?i ?sc) = val (?sc ! ?i) + val_sum val (drop (?i + 1) ?sc)"
    using idx(1) by (simp add: Cons_nth_drop_Suc [symmetric])
  have c: "computeBucketSize D (xs_cfg (vl_strat l)) ?sc (vl_numBuckets l) (vl_nextBucket l)
      (TotalSubmitted (xs_state (vl_strat l))) (TotalFilled (xs_state (vl_strat l))) (vl_nextBucket l) = Some (q, None)"
    using sz cp by (simp add: vwap_size_def Let_def)
  have pos: "0 < val rq \<longleftrightarrow> d_IsPos D rq" using dec_exact(10) [OF L] by simp
  have nz: "val ?R = 0 \<longleftrightarrow> d_IsZero D ?R" using dec_exact(9) [OF L] by simp
  show ?thesis
  proof (cases "d_IsPos D rq \<and> \<not> d_IsZero D ?R")
    case True
    then have "d_mul D (?sc ! ?i) rq = (fst (d_mul D (?sc ! ?i) rq), None)"
      using mul_exact [OF L prod] by fastforce
    then have qq: "d_quo D (fst (d_mul D (?sc ! ?i) rq)) ?R = (q, None)"
      using c True rq wf idx int64_ok_def unfolding computeBucketSize_def Let_def
      by (auto simp: vwap_wf_def wrap64_id int64_ok_def split: if_splits prod.splits)
    have "0 < val ?R" using True nz R suf sched(1) by fastforce
    then have "0 \<le> val q \<and> val q \<le> val rq \<and> (val (?sc ! ?i) = val ?R \<longrightarrow> val q = val rq)"
      using bucket_share [OF L _ _ _ _ _ prod qq refl] \<open>d_mul D (?sc ! ?i) rq = _\<close> True pos R suf sched(1) idx(1) nth_mem
      by metis
    then show ?thesis using fs R tail by auto
  next
    case False
    then have "q = d_zero D"
      using c rq wf unfolding computeBucketSize_def Let_def by (auto split: if_splits)
    moreover have "\<not> (0 < val rq \<and> 0 < val (?sc ! ?i))" using False pos nz R suf sched(1) by fastforce
    ultimately show ?thesis using fs dec_exact(1) [OF L] by auto
  qed
qed

theorem vwap_bucket_within_remaining_witness:
  "\<exists>l' fs. vwap_step rat_ops no_marshal (vwap_env 6000, TimerFired) (vwap_loop [3, 4]) = (l', fs) \<and> order_qtys fs = [3]"
proof -
  let ?l = "vwap_loop [3, 4]"
  obtain l' fs where t: "vwap_step rat_ops no_marshal (vwap_env 6000, TimerFired) ?l = (l', fs)" by fastforce
  have grid: "\<forall>x\<in>set (vs_schedule (vl_strat ?l)). on_grid id 0 9 x \<and> 0 \<le> id x"
    by (auto simp: vwap_loop_facts on_grid_def intro: exI [of _ 3] exI [of _ 4])
  have rq: "d_sub rat_ops (vc_TotalAmount (xs_cfg (vl_strat ?l))) (TotalFilled (xs_state (vl_strat ?l))) = (7, None)"
    by (simp add: vwap_loop_facts vwap_cfg_amount) (simp add: rat_ops_def)
  have rep: "representable (id (vs_schedule (vl_strat ?l) ! nat (vl_nextBucket ?l)) * id 7)"
    using representable_of_int [of 21] by (simp add: vwap_loop_facts)
  have sz: "vwap_size rat_ops ?l = Some (3, None)"
    by (simp add: vwap_size_def vwap_loop_facts computeBucketSize_def sum_ignoring_def Let_def wrap64_def vwap_cfg_amount)
      (simp add: rat_ops_def vwap_loop_def Vwap_New_def RunState_zero_def)
  show ?thesis
    using vwap_bucket_within_remaining [OF rat_ops_laws vwap_loop_wf vwap_loop_facts(1) t vwap_loop_facts(2) grid
        _ _ _ rq rep sz] t by (simp add: vwap_loop_facts)
qed

text \<open>A VWAP run that reaches its loop has the buckets of the built schedule, resumes at a bucket
  that is not yet due, sends at most one order per bucket it moves over whatever events arrive,
  never panics, and has returned once the timer fired for every remaining bucket.\<close>

theorem vwap_orders_bounded:
  assumes "decimal_laws D val rnd" "Vwap_Run D marshal unmarshal stream E runID s = (l, eff0)" "vl_status l = Running"
    and "0 \<le> ChunksProcessed (xs_state (loadState D unmarshal E s))"
    and "run_events (vwap_step D marshal) evs l = (l', fs)"
  shows "order_qtys eff0 = [] \<and> vl_numBuckets l = NumBuckets (xs_cfg s) \<and>
    time_Before (env_Now E) (vwap_scheduledTime (xs_cfg s) (vl_nextBucket l)) \<and>
    vl_nextBucket l \<le> vl_nextBucket l' \<and> vl_nextBucket l' \<le> vl_numBuckets l \<and>
    int (length (order_qtys fs)) \<le> vl_nextBucket l' - vl_nextBucket l \<and> vl_status l' \<noteq> Panicked \<and>
    (vl_numBuckets l - vl_nextBucket l \<le> int (length (filter is_timer evs)) \<longrightarrow> vl_status l' \<noteq> Running)"
proof -
  note st = Vwap_Run_start [OF assms(1-4)]
  have "vl_nextBucket l \<le> vl_numBuckets l" using st(1) assms(3) by (simp add: vwap_wf_def)
  from vwap.run_bound [OF st(1) this assms(5)] vwap.run_ends [OF st(1) _ assms(5)] st(2-5)
  show ?thesis by (auto simp: vwap_wf_def)
qed

theorem vwap_orders_bounded_witness:
  "\<exists>l' fs. run_events (vwap_step rat_ops no_marshal) [(vwap_env 6000, TimerFired), (vwap_env 6300, TimerFired)]
     (vwap_loop [3, 4]) = (l', fs) \<and> vl_status l' \<noteq> Running \<and> vl_status l' \<noteq> Panicked \<and> length (order_qtys fs) \<le> 2"
proof -
  obtain l' fs where r: "run_events (vwap_step rat_ops no_marshal)
      [(vwap_env 6000, TimerFired), (vwap_env 6300, TimerFired)] (vwap_loop [3, 4]) = (l', fs)" by fastforce
  have "0 \<le> ChunksProcessed (xs_state (loadState rat_ops no_unmarshal (vwap_env 500) vwap_strat))"
    by (simp add: loadState_def LoadState_def vwap_strat_def Vwap_New_def RunState_zero_def)
  from vwap_orders_bounded [OF rat_ops_laws vwap_sample_run vwap_loop_facts(1) this r]
  show ?thesis using r by (auto simp: vwap_loop_facts is_timer_def)
qed

text \<open>A bucket with a zero allocation is not skipped: an unpaused tick sends a market order of
  quantity zero for it.\<close>

theorem vwap_zero_bucket_sends_order:
  assumes L: "decimal_laws D val rnd" and wf: "vwap_wf l" "vl_status l = Running"
    and live: "\<not> xs_paused (vl_strat l)"
    and zero: "val (vs_schedule (vl_strat l) ! nat (vl_nextBucket l)) = 0"
  shows "\<exists>q. order_qtys (snd (vwap_step D marshal (E, TimerFired) l)) = [q] \<and> val q = 0"
proof -
  obtain q e where sz: "vwap_size D l = Some (q, e)" using vwap_size_total [OF wf(1), of D] by auto
  obtain l' fs where t: "handleBucketTick D marshal E l = (l', fs)" by fastforce
  have "order_qtys fs = [q]" using vwap_tick(3) [OF wf t] live sz by simp
  moreover have "vwap_step D marshal (E, TimerFired) l = (l', fs)" using t wf(2) by (simp add: vwap_step_def)
  moreover have "val q = 0"
  proof -
    have "computeBucketSize D (xs_cfg (vl_strat l)) (vs_schedule (vl_strat l)) (vl_numBuckets l) (vl_nextBucket l)
        (TotalSubmitted (xs_state (vl_strat l))) (TotalFilled (xs_state (vl_strat l))) (vl_nextBucket l) = Some (q, e)"
      using sz wf(1) by (simp add: vwap_size_def vwap_wf_def Let_def)
    then show ?thesis
    proof (cases rule: computeBucketSize_cases)
      case zero
      then show ?thesis using dec_exact(1) [OF L] by simp
    next
      case (share rq num)
      have n: "val num = 0" using val_mul [OF L share(4)] zero rnd_zero [OF L] by simp
      let ?R = "sum_ignoring D (take (nat (vl_numBuckets l) - nat (vl_nextBucket l))
          (drop (nat (vl_nextBucket l)) (vs_schedule (vl_strat l))))"
      have "val ?R \<noteq> 0" using share(3) dec_exact(9) [OF L] by simp
      then have "rounds_to val rnd (q, e) 0" using arith_rounds(4) [OF L, of ?R num] share(5) n by simp
      then show ?thesis using rnd_zero [OF L] by (simp add: rounds_to_def)
    qed
  qed
  ultimately show ?thesis by auto
qed

theorem vwap_zero_bucket_sends_order_witness:
  "\<exists>q. order_qtys (snd (vwap_step rat_ops no_marshal (vwap_env 6000, TimerFired) (vwap_loop [0, 7]))) = [q] \<and> q = 0"
  using vwap_zero_bucket_sends_order [OF rat_ops_laws vwap_loop_wf vwap_loop_facts(1,2),
      of "[0, 7]" no_marshal "vwap_env 6000"]
  by (simp add: vwap_loop_facts)

text \<open>The volume of a bucket is looked up by the start time's local time of day, while trades are
  recorded under their UTC time of day: for a start time with an offset of \<open>k\<close> minutes the bucket
  starting at UTC minute \<open>u\<close> reads the volumes of minute \<open>(u + k) mod 1440\<close>.\<close>

theorem vwap_bucket_index_local:
  assumes "t_off (vc_StartTime cfg) = k * minute_ns"
  shows "bucket_index cfg i =
    go_div ((minutesSinceMidnight (time_UTC (vwap_scheduledTime cfg i)) + k) mod 1440) (vc_BucketMinutes cfg)"
proof -
  let ?t = "vwap_scheduledTime cfg i"
  have off: "t_off ?t = k * minute_ns" using assms by (simp add: vwap_scheduledTime_def)
  have "(t_ns ?t + k * minute_ns) div minute_ns = t_ns ?t div minute_ns + k" by simp
  then have "minutesSinceMidnight ?t = (t_ns ?t div minute_ns + k) mod 1440"
    unfolding minutesSinceMidnight_eq off by (simp only:)
  also have "\<dots> = (minutesSinceMidnight (time_UTC ?t) + k) mod 1440"
    unfolding minutesSinceMidnight_eq by (simp add: time_UTC_def mod_simps)
  finally show ?thesis by (simp add: bucket_index_def)
qed

theorem vwap_bucket_index_local_witness:
  "bucket_index (vwap_cfg\<lparr>vc_StartTime := \<lparr>t_ns = 6000 * second_ns, t_off = 60 * minute_ns\<rparr>\<rparr>) 0 = 32"
  using vwap_bucket_index_local [of "vwap_cfg\<lparr>vc_StartTime := \<lparr>t_ns = 6000 * second_ns, t_off = 60 * minute_ns\<rparr>\<rparr>" 60 0]
  by (simp add: minutesSinceMidnight_def vwap_scheduledTime_def vwap_bucketSize_def time_UTC_def time_Hour_def
      time_Minute_def wrap64_def vwap_cfg_def time_Add_def go_div_def)

end
