(* ===== verification/Bar_Feed.thy ===== *)
theory Bar_Feed
  imports Rolling_Window
begin

text \<open>
  The bar feed: the bar closer of \<open>src/strategy/barfeed.go\<close> and the shared candle registry of
  \<open>src/strategy/candle_registry.go\<close>.

  \<^item> The closer's goroutine is a function of the stream of candle updates it reads: the pending candle
    and the bars sent so far. Stopping it early cuts the stream.
  \<^item> A registry entry holds the closed-bar cache, the reference count, the subscriber channels (buffer,
    capacity, closed flag) and the set of unsubscribe functions that have not been called yet: the
    state of their \<open>sync.Once\<close>. The locks make subscribe, unsubscribe and the forwarding of one bar
    atomic steps.
  \<^item> The cache satisfies the contract of a most-recent-values buffer.
\<close>

section \<open>Bar closer\<close>

record 'd Candle =
  cd_OrderBookID :: string
  cd_StartTimestamp :: gtime
  cd_Open :: 'd
  cd_High :: 'd
  cd_Low :: 'd
  cd_Close :: 'd
  cd_Volume :: 'd
  cd_OpenYTM :: 'd
  cd_HighYTM :: 'd
  cd_LowYTM :: 'd
  cd_CloseYTM :: 'd

definition BarFromCandle :: "'d decimal_ops \<Rightarrow> 'd Candle \<Rightarrow> 'd Bar" where
  "BarFromCandle D c = \<lparr>bar_Time = time_UTC (cd_StartTimestamp c), bar_Open = cd_Open c, bar_High = cd_High c,
     bar_Low = cd_Low c, bar_Close = cd_Close c, bar_Volume = cd_Volume c, bar_OpenYTM = cd_OpenYTM c,
     bar_HighYTM = cd_HighYTM c, bar_LowYTM = cd_LowYTM c, bar_CloseYTM = cd_CloseYTM c,
     bar_BenchmarkYield = d_zero D\<rparr>"

type_synonym 'd closer = "'d Candle option \<times> 'd Bar list"

definition closer_step :: "'d decimal_ops \<Rightarrow> 'd Candle \<Rightarrow> 'd closer \<Rightarrow> 'd closer" where
  "closer_step D e st =
     (case st of
        (None, out) \<Rightarrow> (Some e, out)
      | (Some pending, out) \<Rightarrow>
          if time_Before (cd_StartTimestamp e) (cd_StartTimestamp pending) then (Some pending, out)
          else if time_After (cd_StartTimestamp e) (cd_StartTimestamp pending)
            then (Some e, out @ [BarFromCandle D pending])
          else (Some e, out))"

text \<open>The loop over the batches of the input channel.\<close>

definition closer_loop :: "'d decimal_ops \<Rightarrow> 'd Candle list list \<Rightarrow> 'd closer" where
  "closer_loop D batches = fold (\<lambda>batch st. fold (closer_step D) batch st) batches (None, [])"

section \<open>Candle registry\<close>

definition closedBarCacheCap :: nat where
  "closedBarCacheCap = 4096"

definition subscriberChanBase :: nat where
  "subscriberChanBase = 16"

record 'd chan =
  ch_buf :: "'d Bar list"
  ch_cap :: nat
  ch_closed :: bool

record 'd registryEntry =
  re_refs :: int
  re_cache :: "'d Bar list"
  re_subscribers :: "string \<rightharpoonup> 'd chan"
  re_pending_unsub :: "string set"

type_synonym 'd registry = "string \<rightharpoonup> 'd registryEntry"

definition entry_key :: "string \<Rightarrow> Resolution \<Rightarrow> string" where
  "entry_key book resolution = book @ ''|'' @ resolution"

definition new_entry :: "'d registryEntry" where
  "new_entry = \<lparr>re_refs = 0, re_cache = [], re_subscribers = Map.empty, re_pending_unsub = {}\<rparr>"

definition cache_add :: "'d Bar \<Rightarrow> 'd Bar list \<Rightarrow> 'd Bar list" where
  "cache_add bar cache =
     (let cache = cache @ [bar]; n = length cache
      in if closedBarCacheCap < n then drop (n - closedBarCacheCap) cache else cache)"

text \<open>\<open>SubscribeBars\<close>: \<open>newHandler\<close> and \<open>subscribe\<close> are the answers of the candle source, \<open>subID\<close> the fresh
  identifier.\<close>

definition SubscribeBars ::
  "gerror option \<Rightarrow> gerror option \<Rightarrow> string \<Rightarrow> string \<Rightarrow> Resolution \<Rightarrow> 'd registry \<Rightarrow> 'd registry \<times> gerror option" where
  "SubscribeBars newHandler subscribe subID book resolution r =
     (case Resolution_Validate resolution of
        Some err \<Rightarrow> (r, Some err)
      | None \<Rightarrow>
          let key = entry_key book resolution;
              got = (case r key of
                  Some e \<Rightarrow> Inr e
                | None \<Rightarrow> (case newHandler of
                    Some err \<Rightarrow> Inl err
                  | None \<Rightarrow> (case subscribe of Some err \<Rightarrow> Inl err | None \<Rightarrow> Inr new_entry)))
          in case got of
              Inl err \<Rightarrow> (r, Some err)
            | Inr e \<Rightarrow>
                let snap = re_cache e;
                    ch = \<lparr>ch_buf = snap, ch_cap = length snap + subscriberChanBase, ch_closed = False\<rparr>;
                    e = e\<lparr>re_subscribers := (re_subscribers e)(subID \<mapsto> ch), re_refs := re_refs e + 1,
                          re_pending_unsub := insert subID (re_pending_unsub e)\<rparr>
                in (r(key \<mapsto> e), None))"

definition unsubscribe :: "string \<Rightarrow> string \<Rightarrow> 'd registry \<Rightarrow> 'd registry" where
  "unsubscribe key subID r =
     (case r key of
        None \<Rightarrow> r
      | Some e \<Rightarrow>
          if subID \<notin> re_pending_unsub e then r
          else
            let e = e\<lparr>re_subscribers := (re_subscribers e)(subID := None),
                      re_pending_unsub := re_pending_unsub e - {subID}, re_refs := re_refs e - 1\<rparr>
            in if re_refs e = 0 then r(key := None) else r(key \<mapsto> e))"

definition chan_send :: "'d Bar \<Rightarrow> 'd chan \<Rightarrow> 'd chan" where
  "chan_send bar ch = (if length (ch_buf ch) < ch_cap ch then ch\<lparr>ch_buf := ch_buf ch @ [bar]\<rparr> else ch)"

definition forward_bar :: "'d Bar \<Rightarrow> 'd registryEntry \<Rightarrow> 'd registryEntry" where
  "forward_bar bar e = e\<lparr>re_cache := cache_add bar (re_cache e),
     re_subscribers := (\<lambda>s. map_option (chan_send bar) (re_subscribers e s))\<rparr>"

definition end_stream :: "'d registryEntry \<Rightarrow> 'd registryEntry" where
  "end_stream e = e\<lparr>re_subscribers := Map.empty\<rparr>"

definition HandlerCount :: "'d registry \<Rightarrow> nat" where
  "HandlerCount r = card (dom r)"

text \<open>The histories of a registry.\<close>

inductive reg_reach :: "'d registry \<Rightarrow> bool" where
  start: "reg_reach Map.empty"
| sub: "reg_reach r \<Longrightarrow> \<forall>key e. r key = Some e \<longrightarrow> subID \<notin> re_pending_unsub e \<Longrightarrow>
    reg_reach (fst (SubscribeBars nh sb subID book res r))"
| unsub: "reg_reach r \<Longrightarrow> reg_reach (unsubscribe key subID r)"
| forward: "reg_reach r \<Longrightarrow> r key = Some e \<Longrightarrow> reg_reach (r(key \<mapsto> forward_bar bar e))"
| ended: "reg_reach r \<Longrightarrow> r key = Some e \<Longrightarrow> reg_reach (r(key \<mapsto> end_stream e))"

definition entry_ok :: "'d registryEntry \<Rightarrow> bool" where
  "entry_ok e \<longleftrightarrow> finite (re_pending_unsub e) \<and> re_refs e = int (card (re_pending_unsub e)) \<and> re_pending_unsub e \<noteq> {} \<and>
     dom (re_subscribers e) \<subseteq> re_pending_unsub e \<and> length (re_cache e) \<le> closedBarCacheCap"

section \<open>The closer\<close>

abbreviation start_ns :: "'d Candle \<Rightarrow> int" where
  "start_ns c \<equiv> t_ns (cd_StartTimestamp c)"

definition closer_of :: "'d decimal_ops \<Rightarrow> 'd Candle list \<Rightarrow> 'd closer" where
  "closer_of D es = fold (closer_step D) es (None, [])"

lemma closer_loop_concat: "closer_loop D batches = closer_of D (concat batches)"
proof -
  have "fold (\<lambda>batch st. fold (closer_step D) batch st) bs st = fold (closer_step D) (concat bs) st" for bs st
    by (induction bs arbitrary: st) simp_all
  then show ?thesis by (simp add: closer_loop_def closer_of_def)
qed

lemma closer_of_simps [simp]:
  "closer_of D [] = (None, [])" "closer_of D (es @ [e]) = closer_step D e (closer_of D es)"
  "closer_of D [e] = (Some e, [])"
  by (simp_all add: closer_of_def closer_step_def)

lemma bar_time_candle [simp]: "t_ns (bar_Time (BarFromCandle D c)) = start_ns c"
  by (simp add: BarFromCandle_def time_UTC_def)

lemma closer_step_cases:
  "closer_step D e (Some p, out) =
     (if start_ns e < start_ns p then (Some p, out)
      else if start_ns p < start_ns e then (Some e, out @ [BarFromCandle D p]) else (Some e, out))"
  by (simp add: closer_step_def time_Before_def time_After_def)

text \<open>The pending candle is the newest seen, and the bars sent are strictly increasing and older.\<close>

lemma closer_inv:
  assumes "closer_of D es = (p, out)"
  shows "sorted_wrt (<) (map (t_ns \<circ> bar_Time) out) \<and>
    (case p of None \<Rightarrow> es = [] \<and> out = []
     | Some c \<Rightarrow> c \<in> set es \<and> (\<forall>e\<in>set es. start_ns e \<le> start_ns c) \<and> (\<forall>b\<in>set out. t_ns (bar_Time b) < start_ns c)) \<and>
    (\<forall>b\<in>set out. \<exists>e\<in>set es. b = BarFromCandle D e)"
  using assms
proof (induction es arbitrary: p out rule: rev_induct)
  case Nil
  then show ?case by simp
next
  case (snoc e es)
  obtain p0 out0 where st: "closer_of D es = (p0, out0)" by fastforce
  note ih = snoc.IH [OF st]
  show ?case
  proof (cases p0)
    case None
    then show ?thesis using ih snoc.prems st by (auto simp: closer_step_def)
  next
    case (Some c)
    have "closer_step D e (Some c, out0) = (p, out)" using snoc.prems st Some by simp
    then show ?thesis
      using ih Some unfolding closer_step_cases
      by (auto simp: sorted_wrt_append split: if_splits) (force+)
  qed
qed

lemma closer_replay:
  assumes "closer_of D es = (Some c, out)" "\<forall>e\<in>set rs. start_ns e \<le> start_ns c"
  shows "\<exists>c'. closer_of D (es @ rs) = (Some c', out) \<and> start_ns c' = start_ns c"
  using assms(2)
proof (induction rs rule: rev_induct)
  case Nil
  then show ?case using assms(1) by simp
next
  case (snoc r rs)
  then obtain c' where c': "closer_of D (es @ rs) = (Some c', out)" "start_ns c' = start_ns c" by auto
  have "closer_of D (es @ rs @ [r]) = closer_step D r (Some c', out)"
    using closer_of_simps(2) [of D "es @ rs" r] c'(1) by simp
  then show ?case using c'(2) snoc.prems by (auto simp: closer_step_cases)
qed

text \<open>On an ordered stream: one bar per superseded timestamp, carrying its last update.\<close>

definition last_update :: "'d Candle list \<Rightarrow> int \<Rightarrow> 'd Candle" where
  "last_update es t = last (filter (\<lambda>e. start_ns e = t) es)"

lemma last_update_snoc:
  "last_update (es @ [e]) t = (if start_ns e = t then e else last_update es t)"
  by (simp add: last_update_def)

lemma remdups_adj_snoc_last:
  "remdups_adj (xs @ [x]) = (if xs \<noteq> [] \<and> last xs = x then remdups_adj xs else remdups_adj xs @ [x])"
proof (cases "xs = []")
  case False
  then obtain ys y where "xs = ys @ [y]" by (metis rev_exhaust)
  then show ?thesis by (simp add: remdups_adj_append_two)
qed simp

lemma strict_remdups_adj: "sorted (xs :: int list) \<Longrightarrow> sorted_wrt (<) (remdups_adj xs)"
proof (induction xs rule: rev_induct)
  case (snoc x xs)
  have le: "y \<le> x" if "y \<in> set xs" for y using snoc.prems that by (simp add: sorted_append)
  have lst: "y \<le> last xs" if "y \<in> set xs" for y
    using snoc.prems that by (cases xs rule: rev_cases) (auto simp: sorted_append)
  show ?case
    using snoc le lst by (auto simp: remdups_adj_snoc_last sorted_append sorted_wrt_append order_less_le)
      (metis last_in_set order_antisym empty_iff list.set(1))
qed simp

lemma butlast_remdups_less:
  assumes "sorted (xs :: int list)" "xs \<noteq> []" "t \<in> set (butlast (remdups_adj xs))"
  shows "t < last xs"
proof -
  have "remdups_adj xs = butlast (remdups_adj xs) @ [last xs]"
    using assms(2) append_butlast_last_id [of "remdups_adj xs"] by simp
  then show ?thesis using strict_remdups_adj [OF assms(1)] assms(3) by (metis list.set_intros(1) sorted_wrt_append)
qed

lemma closer_ordered:
  assumes "sorted (map start_ns es)" "es \<noteq> []"
  shows "closer_of D es = (Some (last es),
    map (\<lambda>t. BarFromCandle D (last_update es t)) (butlast (remdups_adj (map start_ns es))))"
  using assms
proof (induction es rule: rev_induct)
  case Nil
  then show ?case by simp
next
  case (snoc e es)
  show ?case
  proof (cases "es = []")
    case True
    then show ?thesis by (simp add: closer_step_def)
  next
    case False
    let ?ts = "remdups_adj (map start_ns es)"
    have srt: "sorted (map start_ns es)" "\<forall>x\<in>set es. start_ns x \<le> start_ns e"
      using snoc.prems(1) by (auto simp: sorted_append)
    have lastts: "last (map start_ns es) = start_ns (last es)" using False by (simp add: last_map)
    have ne: "?ts \<noteq> []" and lts: "last ?ts = start_ns (last es)"
      using False lastts by simp_all
    note ih = snoc.IH [OF srt(1) False]
    have le: "start_ns (last es) \<le> start_ns e" using srt(2) False by simp
    have lastupd: "last_update es (start_ns (last es)) = last es"
      using False by (cases es rule: rev_cases) (simp_all add: last_update_def)
    show ?thesis
    proof (cases "start_ns (last es) = start_ns e")
      case True
      have lt: "t < start_ns e" if "t \<in> set (butlast ?ts)" for t
        using butlast_remdups_less [OF srt(1) _ that] \<open>es \<noteq> []\<close> True lastts by simp
      have ts': "remdups_adj (map start_ns (es @ [e])) = ?ts"
        using True False lastts by (simp add: remdups_adj_snoc_last)
      have "map (\<lambda>t. BarFromCandle D (last_update es t)) (butlast ?ts) =
          map (\<lambda>t. BarFromCandle D (last_update (es @ [e]) t)) (butlast ?ts)"
        by (rule map_cong [OF refl]) (use lt in \<open>force simp: last_update_snoc\<close>)
      then show ?thesis unfolding closer_of_simps(2) ih ts' using True by (simp add: closer_step_cases)
    next
      case False
      have lt: "t \<noteq> start_ns e" if tin: "t \<in> set ?ts" for t
      proof -
        obtain x where "x \<in> set es" "t = start_ns x" using tin by auto
        moreover have "start_ns x \<le> start_ns (last es)" if "x \<in> set es" for x
          using srt(1) that by (cases es rule: rev_cases) (auto simp: sorted_append)
        ultimately show ?thesis using le False by force
      qed
      have ts': "remdups_adj (map start_ns (es @ [e])) = ?ts @ [start_ns e]"
        using False lastts by (simp add: remdups_adj_snoc_last)
      have eq: "map (\<lambda>t. BarFromCandle D (last_update es t)) ?ts =
          map (\<lambda>t. BarFromCandle D (last_update (es @ [e]) t)) ?ts"
        by (rule map_cong [OF refl]) (use lt in \<open>auto simp: last_update_snoc\<close>)
      have "?ts = butlast ?ts @ [start_ns (last es)]" using ne lts append_butlast_last_id by metis
      then have "map (\<lambda>t. BarFromCandle D (last_update es t)) ?ts =
          map (\<lambda>t. BarFromCandle D (last_update es t)) (butlast ?ts) @ [BarFromCandle D (last es)]"
        by (metis (no_types, lifting) lastupd list.simps(8,9) map_append)
      then show ?thesis
        unfolding closer_of_simps(2) ih ts' using eq False le by (simp add: closer_step_cases)
    qed
  qed
qed

section \<open>The cache is a most-recent-values buffer\<close>

interpretation bar_cache: fifo_window cache_add "\<lambda>_ _. True" "\<lambda>c. c" "\<lambda>_. closedBarCacheCap"
    "\<lambda>c. length c \<le> closedBarCacheCap"
  by unfold_locales (auto simp: cache_add_def last_n_def Let_def)

lemma bar_cache_all_ok: "bar_cache.all_ok bs c"
  by (induction bs arbitrary: c) simp_all

section \<open>The registry\<close>

lemma entry_ok_forward: "entry_ok e \<Longrightarrow> entry_ok (forward_bar bar e)"
  by (auto simp: entry_ok_def forward_bar_def cache_add_def Let_def dom_def)

lemma entry_ok_end: "entry_ok e \<Longrightarrow> entry_ok (end_stream e)"
  by (simp add: entry_ok_def end_stream_def)

lemma SubscribeBars_ok:
  assumes "\<forall>key e. r key = Some e \<longrightarrow> entry_ok e" "\<forall>key e. r key = Some e \<longrightarrow> subID \<notin> re_pending_unsub e"
    "fst (SubscribeBars nh sb subID book res r) key = Some e"
  shows "entry_ok e"
proof -
  have new: "entry_ok (e0\<lparr>re_subscribers := (re_subscribers e0)(subID \<mapsto> ch), re_refs := re_refs e0 + 1,
      re_pending_unsub := insert subID (re_pending_unsub e0)\<rparr>)"
    if "entry_ok e0 \<or> e0 = new_entry" "subID \<notin> re_pending_unsub e0" for e0 ch
    using that by (auto simp: entry_ok_def new_entry_def dom_def)
  show ?thesis
    using assms
    by (auto simp: SubscribeBars_def Let_def split: option.splits if_splits intro!: new) (simp add: new_entry_def)
qed

lemma unsubscribe_ok:
  assumes "\<forall>key e. r key = Some e \<longrightarrow> entry_ok e" "unsubscribe k subID r key = Some e"
  shows "entry_ok e"
proof -
  have dec: "entry_ok (e0\<lparr>re_subscribers := (re_subscribers e0)(subID := None),
      re_pending_unsub := re_pending_unsub e0 - {subID}, re_refs := re_refs e0 - 1\<rparr>)"
    if "entry_ok e0" "subID \<in> re_pending_unsub e0" "re_refs e0 - 1 \<noteq> 0" for e0
  proof -
    have "card (re_pending_unsub e0 - {subID}) = card (re_pending_unsub e0) - 1"
      using that by (simp add: entry_ok_def)
    moreover have "0 < card (re_pending_unsub e0)" using that by (auto simp: entry_ok_def card_gt_0_iff)
    moreover from this that have "card (re_pending_unsub e0 - {subID}) \<noteq> 0" by (auto simp: entry_ok_def)
    then have "re_pending_unsub e0 - {subID} \<noteq> {}" by (metis card.empty)
    ultimately show ?thesis using that by (auto simp: entry_ok_def dom_def)
  qed
  show ?thesis
    using assms dec by (auto simp: unsubscribe_def Let_def split: option.splits if_splits)
qed

lemma reg_reach_ok: "reg_reach r \<Longrightarrow> r key = Some e \<Longrightarrow> entry_ok e"
proof (induction arbitrary: key e rule: reg_reach.induct)
  case start
  then show ?case by simp
next
  case (sub r subID nh sb book res)
  from SubscribeBars_ok [OF _ sub.hyps(2) sub.prems] sub.IH show ?case by blast
next
  case (unsub r k subID)
  from unsubscribe_ok [OF _ unsub.prems] unsub.IH show ?case by blast
next
  case (forward r k e' bar)
  then show ?case by (auto simp: entry_ok_forward split: if_splits)
next
  case (ended r k e')
  then show ?case by (auto simp: entry_ok_end split: if_splits)
qed

lemma forward_many:
  "re_cache (fold forward_bar bs e) = fold cache_add bs (re_cache e)"
  "re_subscribers e s = Some ch \<Longrightarrow> re_subscribers (fold forward_bar bs e) s = Some (fold chan_send bs ch)"
  by (induction bs arbitrary: e ch) (simp_all add: forward_bar_def)

lemma chan_send_room:
  "length (ch_buf ch) + length bs \<le> ch_cap ch \<Longrightarrow> fold chan_send bs ch = ch\<lparr>ch_buf := ch_buf ch @ bs\<rparr>"
  by (induction bs arbitrary: ch) (simp_all add: chan_send_def)

section \<open>A concrete stream\<close>

definition sample_candle :: "int \<Rightarrow> rat \<Rightarrow> rat Candle" where
  "sample_candle t c = \<lparr>cd_OrderBookID = ''b'', cd_StartTimestamp = \<lparr>t_ns = t, t_off = 0\<rparr>, cd_Open = 1, cd_High = 2,
     cd_Low = 1, cd_Close = c, cd_Volume = 5, cd_OpenYTM = 0, cd_HighYTM = 0, cd_LowYTM = 0, cd_CloseYTM = 0\<rparr>"

definition sample_bar :: "int \<Rightarrow> rat \<Rightarrow> rat Bar" where
  "sample_bar t c = BarFromCandle rat_ops (sample_candle t c)"

section \<open>What the feed promises\<close>

text \<open>C40: Whatever the stream of candle updates and however it is batched, the closer emits bars with
  strictly increasing start times, each of them one of the updates received, and all older than the
  newest update seen; and when history is replayed (any updates not newer than what was seen,
  as after a reconnect) nothing is emitted a second time.\<close>

theorem closer_emits_each_bar_once:
  assumes "closer_loop D batches = (p, out)"
    and "\<forall>e\<in>set (concat replay). \<exists>e0\<in>set (concat batches). start_ns e \<le> start_ns e0"
  shows "sorted_wrt (<) (map (t_ns \<circ> bar_Time) out) \<and>
    (\<forall>b\<in>set out. (\<exists>e\<in>set (concat batches). b = BarFromCandle D e) \<and>
       (\<exists>e\<in>set (concat batches). t_ns (bar_Time b) < start_ns e)) \<and>
    snd (closer_loop D (batches @ replay)) = out"
proof -
  have of: "closer_of D (concat batches) = (p, out)" using assms(1) by (simp add: closer_loop_concat)
  note inv = closer_inv [OF of]
  show ?thesis
  proof (cases p)
    case None
    then have e: "concat batches = []" "out = []" using inv by simp_all
    then have "concat replay = []" using assms(2) unfolding e by (cases "concat replay") auto
    then show ?thesis unfolding closer_loop_concat concat_append e by (simp only: e) simp
  next
    case (Some c)
    have "\<forall>e\<in>set (concat replay). start_ns e \<le> start_ns c" using inv Some assms(2) by fastforce
    from closer_replay [OF of [unfolded Some] this] obtain c' where
      "closer_of D (concat batches @ concat replay) = (Some c', out)" by blast
    moreover have "c \<in> set (concat batches)" "\<forall>b\<in>set out. t_ns (bar_Time b) < start_ns c" using inv Some by simp_all
    ultimately show ?thesis
      using inv unfolding closer_loop_concat concat_append by (metis snd_conv)
  qed
qed

theorem closer_emits_each_bar_once_witness:
  "snd (closer_loop rat_ops ([[sample_candle 1 3, sample_candle 1 4], [sample_candle 2 5]] @ [[sample_candle 1 3]])) =
     [sample_bar 1 4]"
proof -
  have l: "closer_loop rat_ops [[sample_candle 1 3, sample_candle 1 4], [sample_candle 2 5]] =
      (Some (sample_candle 2 5), [sample_bar 1 4])"
    by (simp add: closer_loop_def closer_step_def sample_bar_def) (simp add: sample_candle_def time_Before_def time_After_def)
  show ?thesis
    using closer_emits_each_bar_once [OF l, of "[[sample_candle 1 3]]"] by (simp add: sample_candle_def)
qed

text \<open>on a stream ordered by start time the closer emits exactly one bar per start time except the
  newest, in order, each carrying the last update received for its start time.\<close>

theorem closer_emits_final_updates:
  assumes "sorted (map start_ns (concat batches))" "concat batches \<noteq> []"
  shows "snd (closer_loop D batches) =
    map (\<lambda>t. BarFromCandle D (last (filter (\<lambda>e. start_ns e = t) (concat batches))))
      (butlast (remdups_adj (map start_ns (concat batches))))"
  using closer_ordered [OF assms] by (simp add: closer_loop_concat last_update_def)

theorem closer_emits_final_updates_witness:
  "snd (closer_loop rat_ops [[sample_candle 1 3, sample_candle 1 4], [sample_candle 2 5]]) = [sample_bar 1 4]"
  using closer_emits_final_updates [of "[[sample_candle 1 3, sample_candle 1 4], [sample_candle 2 5]]" rat_ops]
  by (simp add: sample_candle_def sample_bar_def)

text \<open>In every reachable registry, a live entry's reference count is the number of unsubscribe
  functions not yet called and is at least one, every open subscriber channel belongs to one of
  them, and the cache holds at most its cap: a stream is kept exactly as long as someone holds it,
  and calling an unsubscribe function twice is harmless.\<close>

theorem registry_refcount_exact:
  assumes "reg_reach r" "r key = Some e"
  shows "re_refs e = int (card (re_pending_unsub e)) \<and> 1 \<le> re_refs e \<and>
    dom (re_subscribers e) \<subseteq> re_pending_unsub e \<and> length (re_cache e) \<le> closedBarCacheCap \<and>
    unsubscribe key subID (unsubscribe key subID r) = unsubscribe key subID r"
proof -
  have ok: "entry_ok e" by (rule reg_reach_ok [OF assms])
  then have "1 \<le> re_refs e" by (auto simp: entry_ok_def Suc_le_eq card_gt_0_iff)
  moreover have "unsubscribe key subID (unsubscribe key subID r) = unsubscribe key subID r"
    by (auto simp: unsubscribe_def Let_def split: option.split)
  ultimately show ?thesis using ok by (simp add: entry_ok_def)
qed

theorem registry_refcount_exact_witness:
  "\<exists>e. fst (SubscribeBars None None ''s1'' ''b'' ''1m'' Map.empty) ''b|1m'' = Some (e :: rat registryEntry) \<and> re_refs e = 1"
proof -
  let ?r = "fst (SubscribeBars None None ''s1'' ''b'' ''1m'' Map.empty) :: rat registry"
  have reach: "reg_reach ?r" by (rule reg_reach.sub [OF reg_reach.start]) simp
  obtain e where e: "?r ''b|1m'' = Some e" "re_pending_unsub e = {''s1''}"
    by (auto simp: SubscribeBars_def Resolution_Validate_def entry_key_def new_entry_def Let_def)
  show ?thesis using registry_refcount_exact [OF reach e(1)] e by simp
qed

text \<open>A subscriber joining a running stream misses nothing the cache still holds and gets nothing
  twice: its channel holds the most recent bars forwarded before it joined (up to the cap), followed
  by every bar forwarded afterwards, as long as it is not more than the slack behind.\<close>

theorem late_subscriber_no_gap:
  assumes "Resolution_Validate res = None" "r (entry_key book res) = Some (fold forward_bar hist new_entry)"
    and "SubscribeBars nh sb subID book res r = (r', None)" "r' (entry_key book res) = Some e"
    and "length bs \<le> subscriberChanBase"
  shows "\<exists>ch. re_subscribers (fold forward_bar bs e) subID = Some ch \<and>
    ch_buf ch = last_n closedBarCacheCap hist @ bs \<and> \<not> ch_closed ch"
proof -
  let ?old = "fold forward_bar hist new_entry :: 'a registryEntry"
  have cache: "re_cache ?old = last_n closedBarCacheCap hist"
    using bar_cache.contents_fold [of "[]" hist] bar_cache_all_ok [of hist "[]"]
    by (simp add: forward_many new_entry_def)
  let ?ch = "\<lparr>ch_buf = re_cache ?old, ch_cap = length (re_cache ?old) + subscriberChanBase, ch_closed = False\<rparr>"
  have "re_subscribers e subID = Some ?ch"
    using assms(1-4) by (auto simp: SubscribeBars_def Let_def)
  then have "re_subscribers (fold forward_bar bs e) subID = Some (fold chan_send bs ?ch)" by (rule forward_many)
  then show ?thesis using chan_send_room [of ?ch bs] assms(5) cache by simp
qed

theorem late_subscriber_no_gap_witness:
  "\<exists>ch. re_subscribers (fold forward_bar [sample_bar 2 5] (the (fst (SubscribeBars None None ''s2'' ''b'' ''1m''
      [''b|1m'' \<mapsto> fold forward_bar [sample_bar 1 4] new_entry]) ''b|1m''))) ''s2'' = Some ch \<and>
     ch_buf ch = [sample_bar 1 4, sample_bar 2 5]"
proof -
  let ?r = "[''b|1m'' \<mapsto> fold forward_bar [sample_bar 1 4] new_entry]"
  have v: "Resolution_Validate ''1m'' = None" "entry_key ''b'' ''1m'' = ''b|1m''"
    by (simp_all add: Resolution_Validate_def entry_key_def)
  obtain r' where r': "SubscribeBars None None ''s2'' ''b'' ''1m'' ?r = (r', None)"
    by (simp add: SubscribeBars_def v Let_def)
  then obtain e where e: "r' ''b|1m'' = Some e" by (auto simp: SubscribeBars_def v Let_def)
  show ?thesis
    using late_subscriber_no_gap [of "''1m''" ?r "''b''" "[sample_bar 1 4]" None None "''s2''" r' e "[sample_bar 2 5]"] v r' e
    by (auto simp: subscriberChanBase_def last_n_def closedBarCacheCap_def)
qed

end
