(* ===== verification/Portfolio.thy ===== *)
theory Portfolio
  imports Market_Types "HOL-Library.Multiset"
begin

text \<open>
  Reading the initial balances from the exchange's portfolio, \<open>src/strategy/portfolio.go\<close>. Go iterates
  over the nested account maps in an unspecified order, so the accounts are given as the list of
  (asset, account) pairs in the order of one iteration; what does not depend on that order is stated
  over all permutations.
\<close>

record AccountV2 =
  ac_IsGlobal :: bool
  ac_Available :: string
  ac_Borrowed :: string

record 'd AccountBalance =
  ab_USD :: 'd
  ab_Bond :: 'd

definition AccountBalance_zero :: "'d decimal_ops \<Rightarrow> 'd AccountBalance" where
  "AccountBalance_zero D = \<lparr>ab_USD = d_zero D, ab_Bond = d_zero D\<rparr>"

definition AccountBalance_isZero :: "'d decimal_ops \<Rightarrow> 'd AccountBalance \<Rightarrow> bool" where
  "AccountBalance_isZero D b \<longleftrightarrow> d_IsZero D (ab_USD b) \<and> d_IsZero D (ab_Bond b)"

text \<open>The effect of one matching account on the balance gathered so far.\<close>

definition account_bond :: "'d decimal_ops \<Rightarrow> AccountV2 \<Rightarrow> 'd res" where
  "account_bond D acct =
     rbind (tryv (d_parse D (ac_Available acct))) (\<lambda>avail.
     rbind (if ac_Borrowed acct \<noteq> [] then tryv (d_parse D (ac_Borrowed acct)) else Inr (d_zero D)) (\<lambda>borrowed.
     Inr (if \<not> d_IsZero D borrowed then d_neg D borrowed else avail)))"

fun scan_accounts ::
  "'d decimal_ops \<Rightarrow> bool \<Rightarrow> string \<Rightarrow> string \<Rightarrow> (string \<times> AccountV2) list \<Rightarrow> 'd AccountBalance \<times> bool \<Rightarrow>
     ('d AccountBalance \<times> bool) res" where
  "scan_accounts D wantGlobal base quote [] st = Inr st"
| "scan_accounts D wantGlobal base quote ((assetID, acct) # rest) (bal, found) =
     (if ac_IsGlobal acct \<noteq> wantGlobal then scan_accounts D wantGlobal base quote rest (bal, found)
      else if assetID = quote then
        rbind (tryv (d_parse D (ac_Available acct))) (\<lambda>avail.
          scan_accounts D wantGlobal base quote rest (bal\<lparr>ab_USD := avail\<rparr>, True))
      else if assetID = base then
        rbind (account_bond D acct) (\<lambda>bond.
          scan_accounts D wantGlobal base quote rest (bal\<lparr>ab_Bond := bond\<rparr>, True))
      else scan_accounts D wantGlobal base quote rest (bal, found))"

definition findBalancesInAccounts ::
  "'d decimal_ops \<Rightarrow> (string \<times> AccountV2) list \<Rightarrow> bool \<Rightarrow> string \<Rightarrow> string \<Rightarrow> 'd AccountBalance option res" where
  "findBalancesInAccounts D accounts wantGlobal base quote =
     rbind (scan_accounts D wantGlobal base quote accounts (AccountBalance_zero D, False)) (\<lambda>(bal, found).
     Inr (if \<not> found \<or> AccountBalance_isZero D bal then None else Some bal))"

definition findAccountAndBalance ::
  "'d decimal_ops \<Rightarrow> (string \<times> AccountV2) list \<Rightarrow> bool \<Rightarrow> string \<Rightarrow> string \<Rightarrow> 'd AccountBalance option res" where
  "findAccountAndBalance D accounts fromGlobalPosition base quote =
     rbind (findBalancesInAccounts D accounts fromGlobalPosition base quote) (\<lambda>r.
     case r of
       Some bal \<Rightarrow> Inr (Some bal)
     | None \<Rightarrow> if \<not> fromGlobalPosition then findBalancesInAccounts D accounts True base quote else Inr None)"

definition signalFromBondQty :: "'d decimal_ops \<Rightarrow> 'd \<Rightarrow> Signal" where
  "signalFromBondQty D bondQty =
     (if d_IsPos D bondQty then SignalBuy else if d_IsNeg D bondQty then SignalSell else SignalHold)"

definition InitialBalancesFromPortfolio ::
  "'d decimal_ops \<Rightarrow> (string \<times> AccountV2) list \<Rightarrow> bool \<Rightarrow> string \<Rightarrow> string \<Rightarrow>
     ('d AccountBalance \<times> Signal) option res" where
  "InitialBalancesFromPortfolio D accounts fromGlobalPosition base quote =
     (if accounts = [] then Inr None
      else rbind (findAccountAndBalance D accounts fromGlobalPosition base quote) (\<lambda>r.
        Inr (map_option (\<lambda>bal. (bal, signalFromBondQty D (ab_Bond bal))) r)))"

section \<open>Reading the accounts\<close>

definition matching :: "bool \<Rightarrow> string \<Rightarrow> (string \<times> AccountV2) list \<Rightarrow> AccountV2 list" where
  "matching g asset accounts = map snd (filter (\<lambda>(a, acct). ac_IsGlobal acct = g \<and> a = asset) accounts)"

lemma matching_simps [simp]:
  "matching g asset [] = []"
  "matching g asset ((a, acct) # rest) =
     (if ac_IsGlobal acct = g \<and> a = asset then acct # matching g asset rest else matching g asset rest)"
  by (simp_all add: matching_def)

lemma matching_perm: "mset xs = mset ys \<Longrightarrow> mset (matching g asset xs) = mset (matching g asset ys)"
  by (simp add: matching_def)

text \<open>A scan without parse errors keeps, for each asset, the last matching account.\<close>

lemma scan_accounts_last:
  assumes "base \<noteq> quote"
    and "\<forall>acct\<in>set (matching g quote accounts). \<exists>v. d_parse D (ac_Available acct) = (v, None)"
    and "\<forall>acct\<in>set (matching g base accounts). \<exists>v. account_bond D acct = Inr v"
  shows "scan_accounts D g base quote accounts (bal, found) =
    Inr (\<lparr>ab_USD = (if matching g quote accounts = [] then ab_USD bal
             else fst (d_parse D (ac_Available (last (matching g quote accounts))))),
          ab_Bond = (if matching g base accounts = [] then ab_Bond bal
             else projr (account_bond D (last (matching g base accounts))))\<rparr>,
         found \<or> matching g quote accounts \<noteq> [] \<or> matching g base accounts \<noteq> [])"
  using assms(2,3)
proof (induction accounts arbitrary: bal found)
  case Nil
  then show ?case by (cases bal) simp
next
  case (Cons x rest)
  obtain a acct where x: "x = (a, acct)" by (cases x)
  show ?case
  proof (cases "ac_IsGlobal acct = g \<and> (a = quote \<or> a = base)")
    case False
    then show ?thesis using Cons x by auto
  next
    case True
    then show ?thesis using Cons x assms(1) by (cases "a = quote") (auto simp: Cons.IH)
  qed
qed

section \<open>What the portfolio reader promises\<close>

text \<open>If every asset has at most one account of the requested kind, the balances read do not depend
  on the order in which the account maps are iterated: the cash is the available quote asset, the
  bond quantity is minus the borrowed amount when there is debt and the available amount otherwise.\<close>

theorem balances_order_independent:
  assumes "base \<noteq> quote" "mset accounts = mset accounts'"
    and "matching g quote accounts = [q]" "d_parse D (ac_Available q) = (usd, None)"
    and "matching g base accounts = [b]" "account_bond D b = Inr bond"
  shows "findBalancesInAccounts D accounts' g base quote =
    Inr (if d_IsZero D usd \<and> d_IsZero D bond then None else Some \<lparr>ab_USD = usd, ab_Bond = bond\<rparr>)"
proof -
  have "matching g quote accounts' = [q]" "matching g base accounts' = [b]"
    using matching_perm [OF assms(2), of g quote] matching_perm [OF assms(2), of g base] assms(3,5) by simp_all
  then show ?thesis
    using scan_accounts_last [OF assms(1), of g accounts' D "AccountBalance_zero D" False] assms(4,6)
    by (simp add: findBalancesInAccounts_def AccountBalance_isZero_def)
qed

theorem balances_order_independent_witness:
  "findBalancesInAccounts rat_ops
     [(''bond'', \<lparr>ac_IsGlobal = True, ac_Available = ''a'', ac_Borrowed = ''bb''\<rparr>),
      (''usd'', \<lparr>ac_IsGlobal = True, ac_Available = ''ccc'', ac_Borrowed = []\<rparr>)] True ''bond'' ''usd'' =
   Inr (Some \<lparr>ab_USD = 3, ab_Bond = -2\<rparr>)"
  using balances_order_independent [of "''bond''" "''usd''"
      "[(''usd'', \<lparr>ac_IsGlobal = True, ac_Available = ''ccc'', ac_Borrowed = []\<rparr>),
        (''bond'', \<lparr>ac_IsGlobal = True, ac_Available = ''a'', ac_Borrowed = ''bb''\<rparr>)]"
      "[(''bond'', \<lparr>ac_IsGlobal = True, ac_Available = ''a'', ac_Borrowed = ''bb''\<rparr>),
        (''usd'', \<lparr>ac_IsGlobal = True, ac_Available = ''ccc'', ac_Borrowed = []\<rparr>)]" True
      "\<lparr>ac_IsGlobal = True, ac_Available = ''ccc'', ac_Borrowed = []\<rparr>" rat_ops 3
      "\<lparr>ac_IsGlobal = True, ac_Available = ''a'', ac_Borrowed = ''bb''\<rparr>" "-2"]
  by (simp add: account_bond_def rat_ops_def add_mset_commute)

text \<open>When two isolated accounts hold the quote asset the cash read is that of whichever the
  iteration visits last: two orders of the same accounts give different balances.\<close>

theorem isolated_cash_order_dependent:
  assumes "base \<noteq> quote" "\<not> ac_IsGlobal a1" "\<not> ac_IsGlobal a2"
    and "d_parse D (ac_Available a1) = (usd, None)" "d_parse D (ac_Available a2) = (other, None)"
    and "\<not> d_IsZero D usd" "\<not> d_IsZero D other" "usd \<noteq> other"
  shows "findBalancesInAccounts D [(quote, a1), (quote, a2)] False base quote \<noteq>
    findBalancesInAccounts D [(quote, a2), (quote, a1)] False base quote"
  using assms by (simp add: findBalancesInAccounts_def AccountBalance_isZero_def AccountBalance_zero_def)

theorem isolated_cash_order_dependent_witness:
  "findBalancesInAccounts rat_ops
      [(''usd'', \<lparr>ac_IsGlobal = False, ac_Available = ''a'', ac_Borrowed = []\<rparr>),
       (''usd'', \<lparr>ac_IsGlobal = False, ac_Available = ''bb'', ac_Borrowed = []\<rparr>)] False ''bond'' ''usd'' \<noteq>
   findBalancesInAccounts rat_ops
      [(''usd'', \<lparr>ac_IsGlobal = False, ac_Available = ''bb'', ac_Borrowed = []\<rparr>),
       (''usd'', \<lparr>ac_IsGlobal = False, ac_Available = ''a'', ac_Borrowed = []\<rparr>)] False ''bond'' ''usd''"
  by (rule isolated_cash_order_dependent [where usd = 1 and other = 2]) (simp_all add: rat_ops_def)

text \<open>for a leveraged run, isolated balances win over global ones and global balances are used only
  when there is no isolated information; the reported signal is the sign of the bond quantity.\<close>

theorem isolated_falls_back_to_global:
  assumes "decimal_laws D val rnd" "accounts \<noteq> []"
    and "InitialBalancesFromPortfolio D accounts False base quote = Inr (Some (bal, sig))"
  shows "(findBalancesInAccounts D accounts False base quote = Inr (Some bal) \<or>
      findBalancesInAccounts D accounts False base quote = Inr None \<and>
      findBalancesInAccounts D accounts True base quote = Inr (Some bal)) \<and>
    sig = (if 0 < val (ab_Bond bal) then SignalBuy else if val (ab_Bond bal) < 0 then SignalSell else SignalHold)"
  using assms(2,3) dec_exact(10,11) [OF assms(1)]
  by (auto simp: InitialBalancesFromPortfolio_def findAccountAndBalance_def signalFromBondQty_def split: option.splits)

theorem isolated_falls_back_to_global_witness:
  "findBalancesInAccounts rat_ops
     [(''usd'', \<lparr>ac_IsGlobal = True, ac_Available = ''a'', ac_Borrowed = []\<rparr>)] True ''bond'' ''usd'' =
   Inr (Some \<lparr>ab_USD = 1, ab_Bond = 0\<rparr>)"
proof -
  let ?acc = "[(''usd'', \<lparr>ac_IsGlobal = True, ac_Available = ''a'', ac_Borrowed = []\<rparr>)]"
  have i: "InitialBalancesFromPortfolio rat_ops ?acc False ''bond'' ''usd'' =
      Inr (Some (\<lparr>ab_USD = 1, ab_Bond = 0\<rparr>, SignalHold))"
    by (simp add: InitialBalancesFromPortfolio_def findAccountAndBalance_def findBalancesInAccounts_def
        AccountBalance_isZero_def AccountBalance_zero_def signalFromBondQty_def rat_ops_def)
  have n: "findBalancesInAccounts rat_ops ?acc False ''bond'' ''usd'' = Inr None"
    by (simp add: findBalancesInAccounts_def)
  show ?thesis using isolated_falls_back_to_global [OF rat_ops_laws _ i] n by simp
qed

end
