(* ===== verification/Benchmark.thy ===== *)
theory Benchmark
  imports Rolling_Window
begin

text \<open>
  Benchmark yields: tenor parsing and date keys (\<open>src/fred/benchmark.go\<close>) and the in-memory cache of
  daily observations the mean-reversion strategy keeps (\<open>setBenchmarkObservations\<close>,
  \<open>cachedBenchmarkYield\<close>, \<open>mergeBenchmarkObservations\<close>, \<open>getBenchmarkYield\<close> in
  \<open>src/strategy/meanreversion/\<close>).

  \<^item> \<open>sort.Search\<close> is the binary search of the standard library, with its termination proof.
  \<^item> Strings are taken as ASCII, where \<open>strings.ToUpper\<close> and \<open>strings.TrimSpace\<close> work on bytes.
  \<^item> \<open>sort.Slice\<close> is modelled by a stable sort; the order it leaves equal dates in is unspecified, and
    the statements are about caches without equal dates.
  \<^item> The FRED client is a parameter: the answer of one fetch.
\<close>

section \<open>Tenors and dates\<close>

definition ascii_upper :: "char \<Rightarrow> char" where
  "ascii_upper c = (if 97 \<le> (of_char c :: nat) \<and> (of_char c :: nat) \<le> 122 then char_of ((of_char c :: nat) - 32) else c)"

definition is_space :: "char \<Rightarrow> bool" where
  "is_space c \<longleftrightarrow> (of_char c :: nat) = 32 \<or> (9 \<le> (of_char c :: nat) \<and> (of_char c :: nat) \<le> 13)"

definition TrimSpace :: "string \<Rightarrow> string" where
  "TrimSpace s = rev (dropWhile is_space (rev (dropWhile is_space s)))"

definition TrimSuffixS :: "string \<Rightarrow> string" where
  "TrimSuffixS s = (if s \<noteq> [] \<and> last s = CHR ''S'' then butlast s else s)"

definition NormalizeTenor :: "string \<Rightarrow> string" where
  "NormalizeTenor value =
     TrimSuffixS (filter (\<lambda>c. c \<noteq> CHR '' '') (filter (\<lambda>c. c \<noteq> CHR ''_'') (filter (\<lambda>c. c \<noteq> CHR ''-'')
       (map ascii_upper (TrimSpace value)))))"

record BenchmarkTenor =
  bt_Code :: string
  bt_Aliases :: "string list"
  bt_Months :: nat

text \<open>Tenors are numbers of months here; the source has the same table in years.\<close>

definition benchmarkTenors :: "BenchmarkTenor list" where
  "benchmarkTenors = [
    \<lparr>bt_Code = ''1M'', bt_Aliases = [''1MO'', ''1MON'', ''1MONTH''], bt_Months = 1\<rparr>,
    \<lparr>bt_Code = ''3M'', bt_Aliases = [''3MO'', ''3MON'', ''3MONTH''], bt_Months = 3\<rparr>,
    \<lparr>bt_Code = ''6M'', bt_Aliases = [''6MO'', ''6MON'', ''6MONTH''], bt_Months = 6\<rparr>,
    \<lparr>bt_Code = ''1Y'', bt_Aliases = [''1YR'', ''1YEAR''], bt_Months = 12\<rparr>,
    \<lparr>bt_Code = ''2Y'', bt_Aliases = [''2YR'', ''2YEAR''], bt_Months = 24\<rparr>,
    \<lparr>bt_Code = ''3Y'', bt_Aliases = [''3YR'', ''3YEAR''], bt_Months = 36\<rparr>,
    \<lparr>bt_Code = ''5Y'', bt_Aliases = [''5YR'', ''5YEAR''], bt_Months = 60\<rparr>,
    \<lparr>bt_Code = ''7Y'', bt_Aliases = [''7YR'', ''7YEAR''], bt_Months = 84\<rparr>,
    \<lparr>bt_Code = ''10Y'', bt_Aliases = [''10YR'', ''10YEAR''], bt_Months = 120\<rparr>,
    \<lparr>bt_Code = ''20Y'', bt_Aliases = [''20YR'', ''20YEAR''], bt_Months = 240\<rparr>,
    \<lparr>bt_Code = ''30Y'', bt_Aliases = [''30YR'', ''30YEAR''], bt_Months = 360\<rparr>]"

fun find_tenor :: "string \<Rightarrow> BenchmarkTenor list \<Rightarrow> nat option" where
  "find_tenor n [] = None"
| "find_tenor n (t # ts) = (if n = bt_Code t \<or> n \<in> set (bt_Aliases t) then Some (bt_Months t) else find_tenor n ts)"

definition NormalizeDate :: "gtime \<Rightarrow> gtime" where
  "NormalizeDate ts = \<lparr>t_ns = t_ns ts - t_ns ts mod day_ns, t_off = 0\<rparr>"

definition ParseBenchmarkTenor :: "string \<Rightarrow> nat res" where
  "ParseBenchmarkTenor value =
     (case find_tenor (NormalizeTenor value) benchmarkTenors of
        Some m \<Rightarrow> Inr m
      | None \<Rightarrow> Inl ''unsupported tenor'')"

definition SeriesForTenor :: "nat \<Rightarrow> string res" where
  "SeriesForTenor t =
     (case [1 \<mapsto> ''DGS1MO'', 3 \<mapsto> ''DGS3MO'', 6 \<mapsto> ''DGS6MO'', 12 \<mapsto> ''DGS1'', 24 \<mapsto> ''DGS2'', 36 \<mapsto> ''DGS3'', 60 \<mapsto> ''DGS5'', 84 \<mapsto> ''DGS7'', 120 \<mapsto> ''DGS10'', 240 \<mapsto> ''DGS20'', 360 \<mapsto> ''DGS30''] t of
        Some s \<Rightarrow> Inr s
      | None \<Rightarrow> Inl ''fred: no exact series for tenor'')"

section \<open>The cache of observations\<close>

record 'd Observation =
  ob_Date :: gtime
  ob_Yield :: 'd

function sort_search :: "(nat \<Rightarrow> bool) \<Rightarrow> nat \<Rightarrow> nat \<Rightarrow> nat" where
  "sort_search f i j =
     (if i < j
      then let h = (i + j) div 2 in if \<not> f h then sort_search f (h + 1) j else sort_search f i h
      else i)"
  by pat_completeness auto
termination
  by (relation "measure (\<lambda>(f, i, j). j - i)") auto

declare sort_search.simps [simp del]

definition normalise_obs :: "'d Observation list \<Rightarrow> 'd Observation list" where
  "normalise_obs obs = map (\<lambda>ob. \<lparr>ob_Date = NormalizeDate (ob_Date ob), ob_Yield = ob_Yield ob\<rparr>) obs"

definition setBenchmarkObservations :: "'d Observation list \<Rightarrow> 'd Observation list" where
  "setBenchmarkObservations obs = normalise_obs obs"

definition cachedBenchmarkYield ::
  "'d decimal_ops \<Rightarrow> 'd Observation list \<Rightarrow> gtime \<Rightarrow> 'd \<times> gtime \<times> bool" where
  "cachedBenchmarkYield D cache ts =
     (let target = NormalizeDate ts in
      if cache = [] then (d_zero D, time_zero, False)
      else
        let idx = sort_search (\<lambda>i. time_After (ob_Date (cache ! i)) target) 0 (length cache) in
        if idx = 0 then (d_zero D, time_zero, False)
        else (ob_Yield (cache ! (idx - 1)), ob_Date (cache ! (idx - 1)), True))"

text \<open>Appending the observations whose date is not present, in order.\<close>

definition append_new :: "'d Observation list \<Rightarrow> 'd Observation list \<Rightarrow> 'd Observation list" where
  "append_new cache obs =
     fold (\<lambda>ob acc. if ob_Date ob \<in> ob_Date ` set acc then acc else acc @ [ob]) obs cache"

definition mergeBenchmarkObservations ::
  "'d Observation list \<Rightarrow> 'd Observation list \<Rightarrow> 'd Observation list" where
  "mergeBenchmarkObservations cache obs =
     (let normalised = normalise_obs obs in
      if cache = [] then normalised
      else sort_key (\<lambda>ob. t_ns (ob_Date ob)) (append_new cache normalised))"

text \<open>\<open>getBenchmarkYield\<close>: \<open>client\<close> is the answer of \<open>getBenchmarkYieldClient\<close>, \<open>fetch\<close> that of the FRED
  request for a tenor and a date range. The result is the yield, the cache and the errors to record.\<close>

definition getBenchmarkYield ::
  "'d decimal_ops \<Rightarrow> string \<Rightarrow> gerror option \<Rightarrow> (nat \<Rightarrow> gtime \<Rightarrow> gtime \<Rightarrow> 'd Observation list gopair) \<Rightarrow>
     'd Observation list \<Rightarrow> gtime \<Rightarrow> 'd \<times> 'd Observation list \<times> gerror list" where
  "getBenchmarkYield D tenorStr client fetch cache ts =
     (case cachedBenchmarkYield D cache ts of (yield, date, ok) \<Rightarrow>
        let normedTS = NormalizeDate ts; stale = (if ok then yield else d_zero D) in
        if ok \<and> \<not> time_Before date normedTS then (yield, cache, [])
        else (case ParseBenchmarkTenor tenorStr of
            Inl err \<Rightarrow> (stale, cache, [err])
          | Inr tenor \<Rightarrow>
              (case client of
                 Some err \<Rightarrow> (stale, cache, [err])
               | None \<Rightarrow>
                  (case fetch tenor (time_Add normedTS (- (10 * day_ns))) normedTS of
                     (obs, Some err) \<Rightarrow> (stale, cache, [err])
                   | (obs, None) \<Rightarrow>
                      if obs = [] then (stale, cache, [])
                      else
                        let cache' = mergeBenchmarkObservations cache obs in
                        (case cachedBenchmarkYield D cache' ts of
                           (yield', _, ok') \<Rightarrow> (if ok' then yield' else d_zero D, cache', []))))))"

section \<open>Binary search\<close>

lemma sort_search_spec:
  "\<forall>a b. a \<le> b \<longrightarrow> f a \<longrightarrow> b < n \<longrightarrow> f b \<Longrightarrow> i \<le> j \<Longrightarrow> j \<le> n \<Longrightarrow>
    \<forall>k<i. \<not> f k \<Longrightarrow> \<forall>k. j \<le> k \<and> k < n \<longrightarrow> f k \<Longrightarrow>
    sort_search f i j \<le> n \<and> (\<forall>k. k < sort_search f i j \<longrightarrow> \<not> f k) \<and> (\<forall>k. sort_search f i j \<le> k \<and> k < n \<longrightarrow> f k)"
proof (induction f i j rule: sort_search.induct)
  case (1 f i j)
  note mono = "1.prems"(1)
  show ?case
  proof (cases "i < j")
    case False
    then have "sort_search f i j = i" by (simp add: sort_search.simps [of f i j])
    moreover have "i = j" using False "1.prems"(2) by simp
    ultimately show ?thesis using "1.prems" by simp
  next
    case True
    let ?h = "(i + j) div 2"
    have h: "i \<le> ?h" "?h < j" "?h \<le> n" "?h + 1 \<le> j" using True "1.prems"(3) by auto
    show ?thesis
    proof (cases "f ?h")
      case fh: True
      have "\<forall>k. ?h \<le> k \<and> k < n \<longrightarrow> f k" using fh mono by blast
      with "1.IH"(2) [OF True refl _ mono h(1,3) "1.prems"(4)] fh
      have "sort_search f i ?h \<le> n \<and> (\<forall>k. k < sort_search f i ?h \<longrightarrow> \<not> f k) \<and>
          (\<forall>k. sort_search f i ?h \<le> k \<and> k < n \<longrightarrow> f k)" by blast
      moreover have "sort_search f i j = sort_search f i ?h" using True fh by (simp add: sort_search.simps [of f i j] Let_def)
      ultimately show ?thesis by simp
    next
      case fh: False
      have "\<forall>k<?h + 1. \<not> f k" using fh mono h(2) "1.prems"(3)
        by (metis Suc_eq_plus1 less_Suc_eq_le order_less_le_trans)
      with "1.IH"(1) [OF True refl fh mono h(4) "1.prems"(3) _ "1.prems"(5)]
      have "sort_search f (?h + 1) j \<le> n \<and> (\<forall>k. k < sort_search f (?h + 1) j \<longrightarrow> \<not> f k) \<and>
          (\<forall>k. sort_search f (?h + 1) j \<le> k \<and> k < n \<longrightarrow> f k)" by blast
      moreover have "sort_search f i j = sort_search f (?h + 1) j" using True fh by (simp add: sort_search.simps [of f i j] Let_def)
      ultimately show ?thesis by simp
    qed
  qed
qed

abbreviation ob_ns :: "'d Observation \<Rightarrow> int" where
  "ob_ns ob \<equiv> t_ns (ob_Date ob)"

lemma cachedBenchmarkYield_spec:
  assumes srt: "sorted (map ob_ns cache)"
  shows "case cachedBenchmarkYield D cache ts of (y, d, ok) \<Rightarrow>
    (if ok then \<exists>ob\<in>set cache. y = ob_Yield ob \<and> d = ob_Date ob \<and> ob_ns ob \<le> t_ns (NormalizeDate ts) \<and>
         (\<forall>ob'\<in>set cache. ob_ns ob' \<le> t_ns (NormalizeDate ts) \<longrightarrow> ob_ns ob' \<le> ob_ns ob)
     else \<forall>ob\<in>set cache. t_ns (NormalizeDate ts) < ob_ns ob)"
proof (cases "cache = []")
  case True
  then show ?thesis by (simp add: cachedBenchmarkYield_def)
next
  case False
  let ?T = "t_ns (NormalizeDate ts)" and ?f = "\<lambda>i. time_After (ob_Date (cache ! i)) (NormalizeDate ts)"
  let ?i = "sort_search ?f 0 (length cache)"
  have le: "ob_ns (cache ! a) \<le> ob_ns (cache ! b)" if "a \<le> b" "b < length cache" for a b
    using sorted_nth_mono [OF srt that(1)] that by simp
  have "\<forall>a b. a \<le> b \<longrightarrow> ?f a \<longrightarrow> b < length cache \<longrightarrow> ?f b"
    using le by (force simp: time_After_def)
  from sort_search_spec [OF this, of 0 "length cache"]
  have s: "?i \<le> length cache" "\<forall>k<?i. ob_ns (cache ! k) \<le> ?T" "\<forall>k. ?i \<le> k \<and> k < length cache \<longrightarrow> ?T < ob_ns (cache ! k)"
    by (simp_all add: time_After_def not_less)
  show ?thesis
  proof (cases "?i = 0")
    case True
    then show ?thesis using s(3) False by (auto simp: cachedBenchmarkYield_def Let_def in_set_conv_nth)
  next
    case i: False
    let ?ob = "cache ! (?i - 1)"
    have "?ob \<in> set cache" "ob_ns ?ob \<le> ?T" using s i by simp_all
    moreover have "ob_ns ob' \<le> ob_ns ?ob" if "ob' \<in> set cache" "ob_ns ob' \<le> ?T" for ob'
    proof -
      obtain k where k: "k < length cache" "ob' = cache ! k" using \<open>ob' \<in> set cache\<close> by (auto simp: in_set_conv_nth)
      then have "k < ?i" using s(3) that(2) by (meson linorder_not_less)
      then show ?thesis using le [of k "?i - 1"] s(1) i k by simp
    qed
    ultimately show ?thesis using i False by (auto simp: cachedBenchmarkYield_def Let_def)
  qed
qed

section \<open>Merging\<close>

text \<open>A cache in good order: dates are midnights in UTC, strictly ascending.\<close>

definition cache_ok :: "'d Observation list \<Rightarrow> bool" where
  "cache_ok cache \<longleftrightarrow> sorted_wrt (<) (map ob_ns cache) \<and> (\<forall>ob\<in>set cache. ob_Date ob = NormalizeDate (ob_Date ob))"

lemma NormalizeDate_idem: "NormalizeDate (NormalizeDate t) = NormalizeDate t"
  by (simp add: NormalizeDate_def mod_diff_eq)

lemma NormalizeDate_le: "t_ns (NormalizeDate t) \<le> t_ns t"
  by (simp add: NormalizeDate_def)

lemma normal_date_eq:
  "ob_Date a = NormalizeDate (ob_Date a) \<Longrightarrow> ob_Date b = NormalizeDate (ob_Date b) \<Longrightarrow>
     ob_Date a = ob_Date b \<longleftrightarrow> ob_ns a = ob_ns b"
  by (metis NormalizeDate_def)

lemma append_new_simps:
  "append_new cache [] = cache"
  "append_new cache (ob # obs) = append_new (if ob_Date ob \<in> ob_Date ` set cache then cache else cache @ [ob]) obs"
  by (simp_all add: append_new_def)

lemma append_new_props:
  assumes "distinct (map ob_Date cache)"
  shows "distinct (map ob_Date (append_new cache obs)) \<and>
    ob_Date ` set (append_new cache obs) = ob_Date ` set cache \<union> ob_Date ` set obs \<and>
    set cache \<subseteq> set (append_new cache obs) \<and> set (append_new cache obs) \<subseteq> set cache \<union> set obs"
  using assms
proof (induction obs arbitrary: cache)
  case Nil
  then show ?case by (simp add: append_new_simps)
next
  case (Cons ob obs)
  let ?c = "if ob_Date ob \<in> ob_Date ` set cache then cache else cache @ [ob]"
  have "distinct (map ob_Date ?c)" using Cons.prems by auto
  from Cons.IH [OF this] show ?case by (auto simp: append_new_simps split: if_splits)
qed

lemma distinct_sorted_strict:
  "sorted (xs :: int list) \<Longrightarrow> distinct xs \<Longrightarrow> sorted_wrt (<) xs"
  by (simp add: strict_sorted_iff)

lemma merge_ok:
  assumes c: "cache_ok cache" "cache \<noteq> []"
  shows "cache_ok (mergeBenchmarkObservations cache obs) \<and>
    ob_Date ` set (mergeBenchmarkObservations cache obs) = ob_Date ` set cache \<union> (NormalizeDate \<circ> ob_Date) ` set obs \<and>
    set cache \<subseteq> set (mergeBenchmarkObservations cache obs)"
proof -
  let ?n = "normalise_obs obs" and ?a = "append_new cache (normalise_obs obs)"
  have dist: "distinct (map ob_ns cache)" and nrm: "\<forall>ob\<in>set cache. ob_Date ob = NormalizeDate (ob_Date ob)"
    using c(1) by (auto simp: cache_ok_def strict_sorted_iff)
  have "inj_on t_ns (ob_Date ` set cache)" using nrm by (auto simp: inj_on_def) (metis NormalizeDate_def)
  have dd: "distinct (map ob_Date cache)"
    using dist by (simp add: distinct_map inj_on_def)
  note ap = append_new_props [OF dd, of ?n]
  have nn: "\<forall>ob\<in>set ?n. ob_Date ob = NormalizeDate (ob_Date ob)"
    by (auto simp: normalise_obs_def NormalizeDate_idem)
  have na: "\<forall>ob\<in>set ?a. ob_Date ob = NormalizeDate (ob_Date ob)" using ap nrm nn by blast
  have "distinct (map ob_ns ?a)"
    using ap na by (auto simp: distinct_map inj_on_def) (metis normal_date_eq)
  then have "distinct (map ob_ns (sort_key ob_ns ?a))" by (simp add: distinct_map)
  moreover have "sorted (map ob_ns (sort_key ob_ns ?a))" by simp
  ultimately have st: "sorted_wrt (<) (map ob_ns (sort_key ob_ns ?a))" by (rule distinct_sorted_strict [rotated])
  have dates: "ob_Date ` set ?n = (NormalizeDate \<circ> ob_Date) ` set obs" by (auto simp: normalise_obs_def image_iff)
  show ?thesis using st na ap dates c(2) by (simp add: mergeBenchmarkObservations_def Let_def cache_ok_def)
qed

lemma normalise_ok: "cache_ok (normalise_obs obs) \<longleftrightarrow> sorted_wrt (<) (map ob_ns (normalise_obs obs))"
  by (auto simp: cache_ok_def normalise_obs_def NormalizeDate_idem)

section \<open>What the benchmark cache promises\<close>

text \<open>on a cache in good order the binary search returns the yield of the latest observation dated
  on or before the day of the query, and reports a miss exactly when every observation is later:
  no future yield is ever used.\<close>

theorem cached_yield_is_latest_prior:
  assumes "cache_ok cache"
  shows "case cachedBenchmarkYield D cache ts of (y, d, ok) \<Rightarrow>
    (if ok then \<exists>ob\<in>set cache. y = ob_Yield ob \<and> d = ob_Date ob \<and> ob_ns ob \<le> t_ns (NormalizeDate ts) \<and>
         (\<forall>ob'\<in>set cache. ob_ns ob' \<le> t_ns (NormalizeDate ts) \<longrightarrow> ob_ns ob' \<le> ob_ns ob)
     else \<forall>ob\<in>set cache. t_ns (NormalizeDate ts) < ob_ns ob)"
  by (rule cachedBenchmarkYield_spec) (use assms in \<open>simp add: cache_ok_def strict_sorted_iff\<close>)

theorem cached_yield_is_latest_prior_witness:
  "case cachedBenchmarkYield rat_ops [\<lparr>ob_Date = \<lparr>t_ns = day_ns, t_off = 0\<rparr>, ob_Yield = 4\<rparr>]
     \<lparr>t_ns = 2 * day_ns, t_off = 0\<rparr> of (y, d, ok) \<Rightarrow> ok \<longrightarrow> y = 4"
proof -
  have "cache_ok [\<lparr>ob_Date = \<lparr>t_ns = day_ns, t_off = 0\<rparr>, ob_Yield = 4 :: rat\<rparr>]"
    by (simp add: cache_ok_def NormalizeDate_def)
  from cached_yield_is_latest_prior [OF this, where D = rat_ops and ts = "\<lparr>t_ns = 2 * day_ns, t_off = 0\<rparr>"]
  show ?thesis by (auto split: prod.splits)
qed

text \<open>Merging fetched observations into a non-empty cache keeps it in good order, keeps every
  observation it had (a date already present keeps its yield), and adds exactly the missing
  dates; merging the same observations again changes no date.\<close>

theorem merge_keeps_cache_order:
  assumes "cache_ok cache" "cache \<noteq> []"
  shows "let c' = mergeBenchmarkObservations cache obs in
    cache_ok c' \<and> set cache \<subseteq> set c' \<and>
    ob_Date ` set c' = ob_Date ` set cache \<union> (NormalizeDate \<circ> ob_Date) ` set obs \<and>
    ob_Date ` set (mergeBenchmarkObservations c' obs) = ob_Date ` set c'"
proof -
  let ?c = "mergeBenchmarkObservations cache obs"
  note m = merge_ok [OF assms, of obs]
  have "?c \<noteq> []" using m assms(2) by auto
  with m merge_ok [of ?c obs] show ?thesis by (auto simp: Let_def)
qed

theorem merge_keeps_cache_order_witness:
  "let c = [\<lparr>ob_Date = \<lparr>t_ns = 2 * day_ns, t_off = 0\<rparr>, ob_Yield = 4 :: rat\<rparr>];
       c' = mergeBenchmarkObservations c [\<lparr>ob_Date = \<lparr>t_ns = day_ns + 5, t_off = 0\<rparr>, ob_Yield = 3\<rparr>]
   in cache_ok c' \<and> set c \<subseteq> set c'"
proof -
  have "cache_ok [\<lparr>ob_Date = \<lparr>t_ns = 2 * day_ns, t_off = 0\<rparr>, ob_Yield = 4 :: rat\<rparr>]"
    by (simp add: cache_ok_def NormalizeDate_def)
  from merge_keeps_cache_order [OF this] show ?thesis unfolding Let_def by blast
qed

text \<open>Whatever the tenor parser, the client and the fetch answer, the benchmark yield handed to a
  bar is zero or the yield of an observation dated on or before the bar's day, the cache stays in
  good order, and no observation it held is lost.\<close>

theorem benchmark_yield_no_lookahead:
  assumes c: "cache_ok cache" and f: "\<And>tn a b obs. fetch tn a b = (obs, None) \<Longrightarrow> cache_ok (normalise_obs obs)"
    and g: "getBenchmarkYield D tenorStr client fetch cache ts = (y, cache', errs)"
  shows "cache_ok cache' \<and> set cache \<subseteq> set cache' \<and>
    (y = d_zero D \<or> (\<exists>ob\<in>set cache'. y = ob_Yield ob \<and> ob_ns ob \<le> t_ns ts))"
proof -
  have prior: "(if ok then y else d_zero D) = d_zero D \<or> (\<exists>ob\<in>set ch. (if ok then y else d_zero D) = ob_Yield ob \<and> ob_ns ob \<le> t_ns ts)"
    if "cache_ok ch" "cachedBenchmarkYield D ch ts = (y, d, ok)" for ch y d ok
  proof -
    have srt: "sorted (map ob_ns ch)" using that(1) by (simp add: cache_ok_def strict_sorted_iff)
    show ?thesis
      using cachedBenchmarkYield_spec [OF srt, where D = D and ts = ts] that(2) NormalizeDate_le [of ts]
      by (auto split: if_splits intro: order_trans)
  qed
  have mo: "cache_ok (mergeBenchmarkObservations cache obs) \<and> set cache \<subseteq> set (mergeBenchmarkObservations cache obs)"
    if "fetch tn a b = (obs, None)" for tn a b obs
    using merge_ok [OF c, of obs] f [OF that] by (cases "cache = []") (auto simp: mergeBenchmarkObservations_def Let_def)
  obtain y0 d0 ok0 where c0: "cachedBenchmarkYield D cache ts = (y0, d0, ok0)" by (cases "cachedBenchmarkYield D cache ts")
  have "cache' = cache \<and> y = (if ok0 then y0 else d_zero D) \<or>
      (\<exists>tn a b obs. fetch tn a b = (obs, None) \<and> cache' = mergeBenchmarkObservations cache obs \<and>
         (\<exists>y1 d1 ok1. cachedBenchmarkYield D cache' ts = (y1, d1, ok1) \<and> y = (if ok1 then y1 else d_zero D)))"
    using g c0 unfolding getBenchmarkYield_def Let_def
    by (auto split: if_splits sum.splits option.splits prod.splits) (blast+)
  then consider "cache' = cache" "y = (if ok0 then y0 else d_zero D)"
    | tn a b obs y1 d1 ok1 where "fetch tn a b = (obs, None)" "cache' = mergeBenchmarkObservations cache obs"
      "cachedBenchmarkYield D cache' ts = (y1, d1, ok1)" "y = (if ok1 then y1 else d_zero D)" by blast
  then show ?thesis
  proof cases
    case 1
    then show ?thesis using prior [OF c c0] c by simp
  next
    case 2
    note m = mo [OF 2(1)]
    then have "cache_ok cache'" "set cache \<subseteq> set cache'" using 2(2) by simp_all
    with prior [OF this(1) 2(3)] 2(4) show ?thesis by simp
  qed
qed

theorem benchmark_yield_no_lookahead_witness:
  "\<exists>y c e. getBenchmarkYield rat_ops ''2Y'' None (\<lambda>tn a b. ([], None))
     [\<lparr>ob_Date = \<lparr>t_ns = day_ns, t_off = 0\<rparr>, ob_Yield = 4\<rparr>] \<lparr>t_ns = 2 * day_ns, t_off = 0\<rparr> = (y, c, e) \<and> cache_ok c"
proof -
  let ?c = "[\<lparr>ob_Date = \<lparr>t_ns = day_ns, t_off = 0\<rparr>, ob_Yield = 4 :: rat\<rparr>]" and ?t = "\<lparr>t_ns = 2 * day_ns, t_off = 0\<rparr>"
  have c: "cache_ok ?c" by (simp add: cache_ok_def NormalizeDate_def)
  obtain y c' e where g: "getBenchmarkYield rat_ops ''2Y'' None (\<lambda>tn a b. ([], None)) ?c ?t = (y, c', e)"
    by (cases "getBenchmarkYield rat_ops ''2Y'' None (\<lambda>tn a b. ([], None)) ?c ?t")
  have "cache_ok c'"
    using benchmark_yield_no_lookahead [OF c _ g] by (simp add: cache_ok_def normalise_obs_def)
  then show ?thesis using g by blast
qed

text \<open>every code and every alias of the tenor table parses to the tenor of its row, and every tenor
  the parser can return has a FRED series.\<close>

theorem tenor_table_parses:
  "list_all (\<lambda>t. list_all (\<lambda>n. ParseBenchmarkTenor n = Inr (bt_Months t)) (bt_Code t # bt_Aliases t)) benchmarkTenors \<and>
   (\<forall>v m. ParseBenchmarkTenor v = Inr m \<longrightarrow> (\<exists>s. SeriesForTenor m = Inr s))"
proof
  show "list_all (\<lambda>t. list_all (\<lambda>n. ParseBenchmarkTenor n = Inr (bt_Months t)) (bt_Code t # bt_Aliases t)) benchmarkTenors"
    by code_simp
  have f: "find_tenor n ts = Some m \<Longrightarrow> m \<in> bt_Months ` set ts" for n ts m
    by (induction ts) (auto split: if_splits)
  have "\<exists>s. SeriesForTenor m = Inr s" if "m \<in> bt_Months ` set benchmarkTenors" for m
    using that by (auto simp: benchmarkTenors_def SeriesForTenor_def)
  then show "\<forall>v m. ParseBenchmarkTenor v = Inr m \<longrightarrow> (\<exists>s. SeriesForTenor m = Inr s)"
    using f by (auto simp: ParseBenchmarkTenor_def split: option.splits)
qed

theorem tenor_table_parses_witness:
  "ParseBenchmarkTenor '' 10-years '' = Inr 120 \<and> (\<exists>s. SeriesForTenor 120 = Inr s)"
proof -
  have "ParseBenchmarkTenor '' 10-years '' = Inr 120" by code_simp
  then show ?thesis using tenor_table_parses by blast
qed

end
