(* ===== verification/MR_Model.thy ===== *)
theory MR_Model
  imports Exec_Model Portfolio Benchmark
begin

text \<open>
  The mean-reversion strategy: \<open>src/strategy/meanreversion/strategy.go\<close>, \<open>imbalance.go\<close>,
  \<open>balances.go\<close> and the types of \<open>types.go\<close>.

  \<^item> The \<open>Strategy\<close> struct is a record; \<open>Update\<close>, \<open>ShouldExit\<close> and the order paths return the record they
    leave behind, also on errors. Locks only make each of them atomic.
  \<^item> The exchange client, the decision store, the benchmark client and the clock answer through \<open>MREnv\<close>;
    orders and recorded decisions are returned as effects, in order.
  \<^item> The run loop is a step function over the events of its \<open>select\<close>; its logger is taken to be set.
\<close>

section \<open>Configuration, decisions and state\<close>

record 'd MRConfig =
  mc_LookbackWindow :: int
  mc_Resolution :: Resolution
  mc_EntryZScore :: 'd
  mc_ExitZScore :: 'd
  mc_StopLossZScore :: 'd
  mc_MinStdDev :: 'd
  mc_MaxPositionSize :: 'd
  mc_OrderBookID :: string
  mc_Tenor :: string
  mc_InitialBalance :: 'd
  mc_Leverage :: 'd
  mc_ImbalanceWindow :: int
  mc_ImbalanceThreshold :: 'd

record 'd MRDecision =
  md_time :: gtime
  md_bondID :: string
  md_YTM :: 'd
  md_BenchmarkYield :: 'd
  md_Spread :: 'd
  md_RollingMean :: 'd
  md_RollingStdDev :: 'd
  md_ZScore :: 'd
  md_price :: 'd
  md_signal :: Signal
  md_positionSize :: 'd
  md_reason :: string

record 'd MRStrategy =
  ms_cfg :: "'d MRConfig"
  ms_window :: "'d Rolling"
  ms_imbWin :: "'d Rolling option"
  ms_isRunning :: bool
  ms_paused :: bool
  ms_cancelled :: bool
  ms_benchmarkObservations :: "'d Observation list"
  ms_errs :: "gerror list"
  ms_balancesInitialized :: bool
  ms_bondQty :: 'd
  ms_usdBal :: 'd
  ms_lastPrice :: 'd
  ms_openSignal :: Signal
  ms_runID :: string
  ms_collateralWeight :: 'd
  ms_baseAssetID :: string
  ms_lastStopZ :: 'd
  ms_lastStopPnL :: 'd
  ms_lastStopTriggered :: bool
  ms_decisionStore :: bool
  ms_decisionSeq :: int

record 'd MREnv =
  me_CreateMarketOrder :: "'d OrderRequest \<Rightarrow> string gopair"
  me_AssetPosition :: "string \<Rightarrow> ('d \<times> 'd) gopair"
  me_QuoteAssetID :: "string gopair"
  me_GetPortfolioV2 :: "(string \<times> AccountV2) list option gopair"
  me_SaveDecision :: "'d DecisionRow \<Rightarrow> gerror option"
  me_NewV7 :: string
  me_ParseUUID :: "string \<Rightarrow> string gopair"
  me_Now :: gtime
  me_String :: "'d \<Rightarrow> string"
  me_fredClient :: "gerror option"
  me_fredFetch :: "nat \<Rightarrow> gtime \<Rightarrow> gtime \<Rightarrow> 'd Observation list gopair"

definition MR_New :: "'d decimal_ops \<Rightarrow> 'd MRConfig \<Rightarrow> bool \<Rightarrow> int \<Rightarrow> 'd MRStrategy" where
  "MR_New D cfg store seq =
     (let cfg = (if d_IsZero D (mc_Leverage cfg) then cfg\<lparr>mc_Leverage := d_one D\<rparr> else cfg);
          cfg = (if mc_Resolution cfg = [] then cfg\<lparr>mc_Resolution := ''1h''\<rparr> else cfg)
      in \<lparr>ms_cfg = cfg, ms_window = NewRollingWindow D (mc_LookbackWindow cfg),
          ms_imbWin = (if mc_ImbalanceWindow cfg > 0 then Some (NewRollingWindow D (mc_ImbalanceWindow cfg)) else None),
          ms_isRunning = False, ms_paused = False, ms_cancelled = False, ms_benchmarkObservations = [], ms_errs = [],
          ms_balancesInitialized = False, ms_bondQty = d_zero D, ms_usdBal = d_zero D, ms_lastPrice = d_zero D,
          ms_openSignal = SignalHold, ms_runID = uuid_Nil, ms_collateralWeight = d_one D, ms_baseAssetID = [],
          ms_lastStopZ = d_zero D, ms_lastStopPnL = d_zero D, ms_lastStopTriggered = False,
          ms_decisionStore = store, ms_decisionSeq = seq\<rparr>)"

section \<open>Trade-imbalance gate\<close>

record 'd TradeEvent =
  te_Quantity :: 'd
  te_Price :: 'd
  te_Side :: string

definition applyTrade :: "'d decimal_ops \<Rightarrow> 'd TradeEvent \<Rightarrow> 'd MRStrategy \<Rightarrow> 'd MRStrategy" where
  "applyTrade D ev s =
     (case ms_imbWin s of
        None \<Rightarrow> s
      | Some w \<Rightarrow>
          if te_Side ev = ''BUY'' then s\<lparr>ms_imbWin := Some (fst (Rolling_Add D (te_Quantity ev) w))\<rparr>
          else if te_Side ev = ''SELL'' then s\<lparr>ms_imbWin := Some (fst (Rolling_Add D (d_neg D (te_Quantity ev)) w))\<rparr>
          else s)"

definition imbalanceAllows :: "'d decimal_ops \<Rightarrow> 'd MRStrategy \<Rightarrow> Signal \<Rightarrow> bool" where
  "imbalanceAllows D s sig =
     (if mc_ImbalanceWindow (ms_cfg s) \<le> 0 then True
      else case ms_imbWin s of
          None \<Rightarrow> True
        | Some w \<Rightarrow>
            if \<not> Rolling_Ready w then True
            else
              let net = Rolling_Sum w; thr = mc_ImbalanceThreshold (ms_cfg s) in
              (case sig of
                 SignalBuy \<Rightarrow> d_cmp D net (d_neg D thr) \<ge> 0
               | SignalSell \<Rightarrow> d_cmp D net thr \<le> 0
               | SignalHold \<Rightarrow> True))"

section \<open>Signals\<close>

definition zAgainstWindow :: "'d decimal_ops \<Rightarrow> 'd MRStrategy \<Rightarrow> 'd \<Rightarrow> 'd option" where
  "zAgainstWindow D s spread =
     (if \<not> Rolling_Ready (ms_window s) then None
      else case Rolling_StdDev D (ms_window s) of
          Inl _ \<Rightarrow> None
        | Inr stdDev \<Rightarrow>
            if d_cmp D stdDev (mc_MinStdDev (ms_cfg s)) < 0 then None
            else (case rbind (tryv (d_sub D spread (Rolling_Mean (ms_window s)))) (\<lambda>num. tryv (d_quo D num stdDev)) of
                Inl _ \<Rightarrow> None
              | Inr z \<Rightarrow> Some z))"

definition intrabarZ :: "'d decimal_ops \<Rightarrow> 'd MRStrategy \<Rightarrow> 'd \<Rightarrow> 'd \<Rightarrow> 'd option" where
  "intrabarZ D s ytm bench =
     (case d_sub D ytm bench of (spread, None) \<Rightarrow> zAgainstWindow D s spread | _ \<Rightarrow> None)"

definition entry_signal :: "'d decimal_ops \<Rightarrow> 'd MRConfig \<Rightarrow> 'd \<Rightarrow> Signal" where
  "entry_signal D cfg z =
     (if d_cmp D z (mc_EntryZScore cfg) \<ge> 0 then SignalBuy
      else if d_cmp D z (d_neg D (mc_EntryZScore cfg)) \<le> 0 then SignalSell
      else SignalHold)"

definition entry_size :: "'d decimal_ops \<Rightarrow> 'd MRConfig \<Rightarrow> Signal \<Rightarrow> 'd \<Rightarrow> 'd res" where
  "entry_size D cfg sig z =
     (if sig = SignalHold then Inr (d_zero D)
      else
        rbind (tryv (d_sub D (d_abs D z) (mc_EntryZScore cfg))) (\<lambda>excess.
        rbind (tryv (d_quo D excess (mc_EntryZScore cfg))) (\<lambda>sz.
        Inr (if d_cmp D sz (mc_MaxPositionSize cfg) > 0 then mc_MaxPositionSize cfg else sz))))"

text \<open>The statistics \<open>Update\<close> computes before it adds the bar to the window.\<close>

definition bar_z :: "'d decimal_ops \<Rightarrow> 'd MRConfig \<Rightarrow> 'd Rolling \<Rightarrow> 'd \<Rightarrow> 'd \<Rightarrow> 'd res" where
  "bar_z D cfg w spread stdDev =
     (if Rolling_Ready w \<and> d_cmp D stdDev (mc_MinStdDev cfg) \<ge> 0
      then rbind (tryv (d_sub D spread (Rolling_Mean w))) (\<lambda>num. tryv (d_quo D num stdDev))
      else Inr (d_zero D))"

definition bar_stats :: "'d decimal_ops \<Rightarrow> 'd MRConfig \<Rightarrow> 'd Rolling \<Rightarrow> 'd Bar \<Rightarrow> ('d \<times> 'd \<times> 'd) res" where
  "bar_stats D cfg w bar =
     rbind (tryv (d_sub D (bar_CloseYTM bar) (bar_BenchmarkYield bar))) (\<lambda>spread.
     rbind (Rolling_StdDev D w) (\<lambda>stdDev.
     rbind (bar_z D cfg w spread stdDev) (\<lambda>zScore.
     Inr (spread, stdDev, zScore))))"

definition Update :: "'d decimal_ops \<Rightarrow> 'd Bar \<Rightarrow> 'd MRStrategy \<Rightarrow> 'd MRStrategy \<times> 'd MRDecision res" where
  "Update D bar s0 =
     (let s = s0\<lparr>ms_lastPrice := bar_Close bar\<rparr>; w = ms_window s; cfg = ms_cfg s in
      case bar_stats D cfg w bar of
        Inl err \<Rightarrow> (s, Inl err)
      | Inr (spread, stdDev, zScore) \<Rightarrow>
          (case Rolling_Add D spread w of
             (w', Some err) \<Rightarrow> (s\<lparr>ms_window := w'\<rparr>, Inl err)
           | (w', None) \<Rightarrow>
               let sig = entry_signal D cfg zScore;
                   d = \<lparr>md_time = bar_Time bar, md_bondID = ms_baseAssetID s, md_YTM = bar_CloseYTM bar,
                        md_BenchmarkYield = bar_BenchmarkYield bar, md_Spread = spread, md_RollingMean = Rolling_Mean w,
                        md_RollingStdDev = stdDev, md_ZScore = zScore, md_price = bar_Close bar, md_signal = sig,
                        md_positionSize = d_zero D,
                        md_reason = (if sig = SignalHold then ''warming_up'' else ''z_score_entry'')\<rparr>
               in (s\<lparr>ms_window := w'\<rparr>,
                   rbind (entry_size D cfg sig zScore) (\<lambda>sz. Inr (d\<lparr>md_positionSize := sz\<rparr>)))))"

definition recordStopLoss :: "'d decimal_ops \<Rightarrow> 'd \<Rightarrow> 'd MRStrategy \<Rightarrow> 'd MRStrategy" where
  "recordStopLoss D z s = s\<lparr>ms_lastStopZ := z, ms_lastStopPnL := d_zero D, ms_lastStopTriggered := True\<rparr>"

definition LastStopLossTrigger :: "'d MRStrategy \<Rightarrow> 'd \<times> 'd \<times> bool" where
  "LastStopLossTrigger s = (ms_lastStopZ s, ms_lastStopPnL s, ms_lastStopTriggered s)"

definition takes_profit :: "'d decimal_ops \<Rightarrow> 'd MRConfig \<Rightarrow> Signal \<Rightarrow> 'd \<Rightarrow> bool" where
  "takes_profit D cfg openSignal z =
     (case openSignal of
        SignalBuy \<Rightarrow> d_cmp D z (mc_ExitZScore cfg) \<le> 0
      | SignalSell \<Rightarrow> d_cmp D z (d_neg D (mc_ExitZScore cfg)) \<ge> 0
      | SignalHold \<Rightarrow> False)"

definition stops_out :: "'d decimal_ops \<Rightarrow> 'd MRConfig \<Rightarrow> Signal \<Rightarrow> 'd \<Rightarrow> bool" where
  "stops_out D cfg openSignal z =
     (d_IsPos D (mc_StopLossZScore cfg) \<and>
      (case openSignal of
         SignalBuy \<Rightarrow> d_cmp D z (mc_StopLossZScore cfg) \<ge> 0
       | SignalSell \<Rightarrow> d_cmp D z (d_neg D (mc_StopLossZScore cfg)) \<le> 0
       | SignalHold \<Rightarrow> False))"

definition ShouldExit :: "'d decimal_ops \<Rightarrow> Signal \<Rightarrow> 'd \<Rightarrow> 'd MRStrategy \<Rightarrow> 'd MRStrategy \<times> bool \<times> string" where
  "ShouldExit D openSignal z s =
     (if takes_profit D (ms_cfg s) openSignal z then (s, True, ''take_profit'')
      else if stops_out D (ms_cfg s) openSignal z then (recordStopLoss D z s, True, ''stop_loss'')
      else (s, False, []))"

section \<open>Sizing and orders\<close>

definition effective_capital :: "'d decimal_ops \<Rightarrow> 'd MRStrategy \<Rightarrow> 'd res" where
  "effective_capital D s =
     rbind (tryv (d_mul D (mc_InitialBalance (ms_cfg s)) (ms_collateralWeight s))) (\<lambda>c.
     tryv (d_mul D c (mc_Leverage (ms_cfg s))))"

definition cappedOrderQuantity ::
  "'d decimal_ops \<Rightarrow> 'd MRStrategy \<Rightarrow> 'd \<Rightarrow> 'd \<Rightarrow> 'd \<Rightarrow> 'd option res" where
  "cappedOrderQuantity D s positionSize currentPosition price =
     (if d_IsNeg D positionSize then Inl ''position size must be non-negative''
      else if d_IsZero D price then Inl ''price must be non-zero''
      else
        let currentPosition = (if d_IsNeg D currentPosition then d_zero D else currentPosition) in
        rbind (effective_capital D s) (\<lambda>effectiveCapital.
        rbind (tryv (d_mul D effectiveCapital positionSize)) (\<lambda>budget.
        if \<not> d_IsPos D budget then Inr None
        else
          rbind (tryv (d_mul D currentPosition price)) (\<lambda>positionValue.
          if d_cmp D positionValue effectiveCapital \<ge> 0 then Inr None
          else
            rbind (tryv (d_sub D effectiveCapital positionValue)) (\<lambda>remainingBudget.
            let budget = (if d_cmp D budget remainingBudget > 0 then remainingBudget else budget) in
            rbind (tryv (d_quo D budget price)) (\<lambda>quantity.
            let quantity = d_floor D quantity in
            Inr (if d_IsZero D quantity then None else Some quantity)))))))"

definition currentPosition :: "'d decimal_ops \<Rightarrow> 'd MREnv \<Rightarrow> string \<Rightarrow> 'd res" where
  "currentPosition D E assetID =
     (if TrimSpace assetID = [] then Inl ''asset ID is required''
      else rbind (tryv (me_AssetPosition E assetID)) (\<lambda>(long, short).
        Inr (if d_IsZero D long \<and> d_IsZero D short then d_zero D
             else if d_IsZero D short then long
             else d_neg D short)))"

definition recordDecision :: "'d MREnv \<Rightarrow> 'd DecisionRow \<Rightarrow> 'd MRStrategy \<Rightarrow> 'd MRStrategy \<times> 'd Effect list" where
  "recordDecision E d s =
     (if \<not> ms_decisionStore s then (s, [])
      else
        let s = s\<lparr>ms_decisionSeq := wrap64 (ms_decisionSeq s + 1)\<rparr>;
            d = d\<lparr>dr_RunID := ms_runID s, dr_Seq := ms_decisionSeq s, dr_StrategyType := ''mean_reversion'',
                  dr_CreatedAt := (if time_IsZero (dr_CreatedAt d) then time_UTC (me_Now E) else dr_CreatedAt d)\<rparr>
        in (s, [EDecision d (me_SaveDecision E d)]))"

text \<open>The fields both order paths fill in.\<close>

definition decision_row ::
  "'d decimal_ops \<Rightarrow> 'd MREnv \<Rightarrow> 'd MRStrategy \<Rightarrow> string \<Rightarrow> Side \<Rightarrow> string \<Rightarrow> 'd \<Rightarrow> 'd \<Rightarrow> 'd \<Rightarrow> DecisionKind \<Rightarrow>
     string \<Rightarrow> string \<Rightarrow> string \<Rightarrow> 'd DecisionRow" where
  "decision_row D E s assetID side sig qty price il kind reason detail cid =
     \<lparr>dr_RunID = [], dr_Seq = 0, dr_StrategyType = [], dr_OrderBookID = mc_OrderBookID (ms_cfg s),
      dr_Asset = MustParseUUID (me_ParseUUID E) assetID, dr_Side = Side_string side, dr_Signal = sig,
      dr_Quantity = qty, dr_Price = price, dr_Leverage = mc_Leverage (ms_cfg s), dr_InverseLeverage = il,
      dr_FromGlobal = False, dr_Kind = kind, dr_Reason = reason, dr_ReasonDetail = detail,
      dr_CreatedAt = time_zero, dr_ClientOrderID = cid\<rparr>"

definition set_flat :: "'d decimal_ops \<Rightarrow> bool \<Rightarrow> 'd MRStrategy \<Rightarrow> 'd MRStrategy" where
  "set_flat D useTracked s =
     (if useTracked then s\<lparr>ms_bondQty := d_zero D, ms_openSignal := SignalHold\<rparr> else s\<lparr>ms_openSignal := SignalHold\<rparr>)"

definition market_request :: "'d MREnv \<Rightarrow> 'd MRStrategy \<Rightarrow> Side \<Rightarrow> 'd \<Rightarrow> 'd \<Rightarrow> 'd OrderRequest" where
  "market_request E s side qty il =
     \<lparr>oreq_Book = mc_OrderBookID (ms_cfg s), oreq_Side = side, oreq_Quantity = qty, oreq_InverseLeverage = il,
      oreq_FromGlobal = False,
      oreq_ClientOrderID = BuildClientOrderID ''mean_reversion'' (ms_runID s) (me_NewV7 E)\<rparr>"

definition close_request :: "'d decimal_ops \<Rightarrow> 'd MREnv \<Rightarrow> 'd MRStrategy \<Rightarrow> 'd \<Rightarrow> 'd OrderRequest" where
  "close_request D E s qty =
     market_request E s (if d_IsNeg D qty then SIDE_BUY else SIDE_SELL) (if d_IsNeg D qty then d_neg D qty else qty)
       (case d_quo D (d_one D) (mc_Leverage (ms_cfg s)) of (v, None) \<Rightarrow> v | (_, Some _) \<Rightarrow> d_one D)"

text \<open>Sending the closing order: a failed order heals the tracking state when the live position is zero.\<close>

definition close_order ::
  "'d decimal_ops \<Rightarrow> 'd MREnv \<Rightarrow> string \<Rightarrow> 'd OrderRequest \<Rightarrow> 'd MRStrategy \<Rightarrow>
     'd MRStrategy \<times> gerror option \<times> 'd Effect list" where
  "close_order D E assetID req s =
     (let useTracked = ms_balancesInitialized s; resp = me_CreateMarketOrder E req in
      case snd resp of
        Some err \<Rightarrow>
          (case currentPosition D E assetID of
             Inr liveQty \<Rightarrow>
               if d_IsZero D liveQty then (set_flat D useTracked s, None, [EOrder req resp])
               else (s, Some err, [EOrder req resp])
           | Inl _ \<Rightarrow> (s, Some err, [EOrder req resp]))
      | None \<Rightarrow>
          let closeSignal = (if oreq_Side req = SIDE_BUY then SignalBuy else SignalSell) in
          (case recordDecision E (decision_row D E s assetID (oreq_Side req) (Signal_String closeSignal)
               (oreq_Quantity req) (ms_lastPrice s) (oreq_InverseLeverage req) DecisionKindClose ''z_score_exit''
               ''close: spread reverted to mean'' (oreq_ClientOrderID req)) s of
             (s, eff) \<Rightarrow> (set_flat D useTracked s, None, EOrder req resp # eff)))"

definition closePosition ::
  "'d decimal_ops \<Rightarrow> 'd MREnv \<Rightarrow> string \<Rightarrow> 'd MRStrategy \<Rightarrow> 'd MRStrategy \<times> gerror option \<times> 'd Effect list" where
  "closePosition D E assetID s =
     (case (if ms_balancesInitialized s then Inr (ms_bondQty s) else currentPosition D E assetID) of
        Inl err \<Rightarrow> (s, Some err, [])
      | Inr qty \<Rightarrow>
          if d_IsZero D qty then (set_flat D (ms_balancesInitialized s) s, None, [])
          else close_order D E assetID (close_request D E s qty) s)"

definition apply_fill :: "'d decimal_ops \<Rightarrow> Side \<Rightarrow> 'd \<Rightarrow> 'd \<Rightarrow> 'd MRStrategy \<Rightarrow> 'd MRStrategy" where
  "apply_fill D side quantity price s =
     (let s = (if side = SIDE_BUY
               then s\<lparr>ms_bondQty := fst (d_add D (ms_bondQty s) quantity),
                      ms_usdBal := fst (d_sub D (ms_usdBal s) (fst (d_mul D quantity price)))\<rparr>
               else s\<lparr>ms_bondQty := fst (d_sub D (ms_bondQty s) quantity),
                      ms_usdBal := fst (d_add D (ms_usdBal s) (fst (d_mul D quantity price)))\<rparr>)
      in s\<lparr>ms_openSignal := signalFromBondQty D (ms_bondQty s)\<rparr>)"

text \<open>Sending the opening order and booking its fill.\<close>

definition open_order ::
  "'d decimal_ops \<Rightarrow> 'd MREnv \<Rightarrow> 'd MRDecision \<Rightarrow> string \<Rightarrow> 'd OrderRequest \<Rightarrow> 'd MRStrategy \<Rightarrow>
     'd MRStrategy \<times> bool res \<times> 'd Effect list" where
  "open_order D E decision assetID req s =
     (let resp = me_CreateMarketOrder E req in
      case snd resp of
        Some err \<Rightarrow> (s, Inl err, [EOrder req resp])
      | None \<Rightarrow>
          (case recordDecision E (decision_row D E s assetID (oreq_Side req) (Signal_String (md_signal decision))
               (oreq_Quantity req) (md_price decision) (oreq_InverseLeverage req) DecisionKindOpen ''z_score_entry''
               (''z-score entry: z='' @ me_String E (md_ZScore decision) @ '' signal='' @
                  Signal_String (md_signal decision)) (oreq_ClientOrderID req)) s of
             (s', eff) \<Rightarrow>
               (if ms_balancesInitialized s then apply_fill D (oreq_Side req) (oreq_Quantity req) (md_price decision) s'
                else s'\<lparr>ms_openSignal := md_signal decision\<rparr>,
                Inr True, EOrder req resp # eff)))"

definition open_quantity ::
  "'d decimal_ops \<Rightarrow> 'd MREnv \<Rightarrow> 'd MRDecision \<Rightarrow> string \<Rightarrow> 'd MRStrategy \<Rightarrow> 'd option res" where
  "open_quantity D E decision assetID s =
     rbind (if ms_balancesInitialized s then Inr (ms_bondQty s) else currentPosition D E assetID) (\<lambda>position.
     if d_IsZero D (md_price decision) then Inl ''cannot execute decision: price is zero''
     else cappedOrderQuantity D s (md_positionSize decision) position (md_price decision))"

definition executeDecision ::
  "'d decimal_ops \<Rightarrow> 'd MREnv \<Rightarrow> 'd MRDecision \<Rightarrow> string \<Rightarrow> 'd MRStrategy \<Rightarrow>
     'd MRStrategy \<times> bool res \<times> 'd Effect list" where
  "executeDecision D E decision assetID s =
     (if md_signal decision = SignalHold then (s, Inr False, [])
      else
        case open_quantity D E decision assetID s of
          Inl err \<Rightarrow> (s, Inl err, [])
        | Inr None \<Rightarrow> (s, Inr False, [])
        | Inr (Some quantity) \<Rightarrow>
            if d_IsZero D quantity then (s, Inr False, [])
            else
              let side = (if md_signal decision = SignalSell then SIDE_SELL else SIDE_BUY) in
              (case tryv (d_quo D (d_one D) (mc_Leverage (ms_cfg s))) of
                 Inl err \<Rightarrow> (s, Inl err, [])
               | Inr inverseLeverage \<Rightarrow>
                   open_order D E decision assetID (market_request E s side quantity inverseLeverage) s))"

section \<open>Starting balances\<close>

definition initializeBalancesFromPortfolio ::
  "'d decimal_ops \<Rightarrow> (string \<times> AccountV2) list \<Rightarrow> string \<Rightarrow> string \<Rightarrow> bool \<Rightarrow> 'd MRStrategy \<Rightarrow> 'd MRStrategy" where
  "initializeBalancesFromPortfolio D accounts base quote fromGlobal s =
     (case InitialBalancesFromPortfolio D accounts fromGlobal base quote of
        Inl err \<Rightarrow> s\<lparr>ms_errs := ms_errs s @ [''initialise balances: '' @ err]\<rparr>
      | Inr None \<Rightarrow> s
      | Inr (Some (bal, sig)) \<Rightarrow>
          s\<lparr>ms_usdBal := ab_USD bal, ms_bondQty := ab_Bond bal,
            ms_cfg := (if \<not> d_IsZero D (ab_USD bal) then (ms_cfg s)\<lparr>mc_InitialBalance := ab_USD bal\<rparr> else ms_cfg s),
            ms_openSignal := sig\<rparr>)"

definition initializeBalances :: "'d decimal_ops \<Rightarrow> 'd MREnv \<Rightarrow> string \<Rightarrow> 'd MRStrategy \<Rightarrow> 'd MRStrategy" where
  "initializeBalances D E base s =
     (case me_QuoteAssetID E of
        (_, Some err) \<Rightarrow> s\<lparr>ms_errs := ms_errs s @ [''initialise balances: get quote asset: '' @ err]\<rparr>
      | (quote, None) \<Rightarrow>
          (case me_GetPortfolioV2 E of
             (Some accounts, None) \<Rightarrow>
               (initializeBalancesFromPortfolio D accounts base quote False s)\<lparr>ms_balancesInitialized := True\<rparr>
           | _ \<Rightarrow>
               let s = (case me_AssetPosition E base of
                   (_, Some err) \<Rightarrow> s\<lparr>ms_errs := ms_errs s @ [''initialise balances: get bond position: '' @ err]\<rparr>
                 | ((avail, borrowed), None) \<Rightarrow>
                     s\<lparr>ms_bondQty := (if \<not> d_IsZero D borrowed then d_neg D borrowed else avail)\<rparr>);
                   s = (case me_AssetPosition E quote of
                   (_, Some err) \<Rightarrow> s\<lparr>ms_errs := ms_errs s @ [''initialise balances: get USD balance: '' @ err]\<rparr>
                 | ((usd, _), None) \<Rightarrow>
                     s\<lparr>ms_usdBal := usd,
                       ms_cfg := (if \<not> d_IsZero D usd then (ms_cfg s)\<lparr>mc_InitialBalance := usd\<rparr> else ms_cfg s)\<rparr>)
               in s\<lparr>ms_balancesInitialized := True, ms_openSignal := signalFromBondQty D (ms_bondQty s)\<rparr>))"

end
