(* ===== verification/MR_Loop.thy ===== *)
theory MR_Loop
  imports MR_Model Exec_Loop Bar_Feed
begin

text \<open>
  The live loop of the mean-reversion strategy: \<open>Run\<close> and \<open>run\<close> of
  \<open>src/strategy/meanreversion/strategy.go\<close> with \<open>requireCandleCoverage\<close> (\<open>historical_data.go\<close>),
  \<open>subscribeTrades\<close> and \<open>netImbalance\<close> (\<open>imbalance.go\<close>).

  \<^item> \<open>MR_Run\<close> is everything before the \<open>for\<close> loop; the answers of the exchange, the candle store and the
    feed are the fields of \<open>MRSetup\<close>.
  \<^item> \<open>mr_step\<close> is one pass of the \<open>select\<close>: the event that was ready, with the answers the outside world
    gives while it is handled. A prices message is the list of its entries in the order the map
    iteration takes them, each with its own answers.
  \<^item> The locale \<open>guarded_loop\<close> is the contract of such a loop: an invariant every event keeps and a bound
    on the orders one event sends.
\<close>

section \<open>Events\<close>

record 'd AssetPrice =
  ap_AssetID :: string
  ap_Price :: 'd
  ap_YTM :: "'d option"
  ap_Time :: gtime

datatype 'd MREvent =
    MRCtxDone
  | MRMsg Message
  | MRBar "'d MREnv" "'d Bar"
  | MRPrices "('d MREnv \<times> 'd AssetPrice) list"
  | MRTrade "'d TradeEvent"
  | MRTradesClosed
  | MRTick

record 'd MRLoop =
  ml_strat :: "'d MRStrategy"
  ml_assetID :: string
  ml_trades :: bool
  ml_done :: bool

section \<open>Handlers\<close>

definition log_err :: "gerror option \<Rightarrow> 'd MRStrategy \<Rightarrow> 'd MRStrategy" where
  "log_err err s = (case err of None \<Rightarrow> s | Some e \<Rightarrow> s\<lparr>ms_errs := ms_errs s @ [e]\<rparr>)"

definition benchmark_at :: "'d decimal_ops \<Rightarrow> 'd MREnv \<Rightarrow> gtime \<Rightarrow> 'd MRStrategy \<Rightarrow> 'd \<times> 'd MRStrategy" where
  "benchmark_at D E ts s =
     (case getBenchmarkYield D (mc_Tenor (ms_cfg s)) (me_fredClient E) (me_fredFetch E)
        (ms_benchmarkObservations s) ts of
        (y, cache, errs) \<Rightarrow> (y, s\<lparr>ms_benchmarkObservations := cache, ms_errs := ms_errs s @ errs\<rparr>))"

definition exit_position ::
  "'d decimal_ops \<Rightarrow> 'd MREnv \<Rightarrow> string \<Rightarrow> Signal \<Rightarrow> 'd \<Rightarrow> 'd MRStrategy \<Rightarrow> 'd MRStrategy \<times> 'd Effect list" where
  "exit_position D E assetID openSignal z s =
     (case ShouldExit D openSignal z s of
        (s, False, _) \<Rightarrow> (s, [])
      | (s, True, reason) \<Rightarrow>
          (case closePosition D E assetID s of (s, err, eff) \<Rightarrow> (log_err err s, eff)))"

definition handle_bar ::
  "'d decimal_ops \<Rightarrow> 'd MREnv \<Rightarrow> string \<Rightarrow> 'd Bar \<Rightarrow> 'd MRStrategy \<Rightarrow> 'd MRStrategy \<times> 'd Effect list" where
  "handle_bar D E assetID bar s0 =
     (case benchmark_at D E (time_Add (bar_Time bar) (ResolutionDuration (mc_Resolution (ms_cfg s0)))) s0 of
        (bench, s) \<Rightarrow>
          let windowReadyBeforeUpdate = Rolling_Ready (ms_window s) in
          (case Update D (bar\<lparr>bar_BenchmarkYield := bench\<rparr>) s of
             (s, Inl err) \<Rightarrow> (s, [])
           | (s, Inr decision) \<Rightarrow>
               if ms_paused s then (s, [])
               else
                 let currentOpenSignal = ms_openSignal s in
                 if currentOpenSignal \<noteq> SignalHold then
                   if windowReadyBeforeUpdate then exit_position D E assetID currentOpenSignal (md_ZScore decision) s
                   else (s, [])
                 else if md_signal decision = SignalHold then (s, [])
                 else if \<not> imbalanceAllows D s (md_signal decision) then (s, [])
                 else (case executeDecision D E decision assetID s of
                     (s, Inl err, eff) \<Rightarrow> (log_err (Some err) s, eff)
                   | (s, Inr _, eff) \<Rightarrow> (s, eff))))"

definition handle_price ::
  "'d decimal_ops \<Rightarrow> 'd MREnv \<Rightarrow> string \<Rightarrow> 'd AssetPrice \<Rightarrow> 'd MRStrategy \<Rightarrow> 'd MRStrategy \<times> 'd Effect list" where
  "handle_price D E assetID px s =
     (case ap_YTM px of
        None \<Rightarrow> (s, [])
      | Some ytm \<Rightarrow>
          if ap_AssetID px \<noteq> assetID then (s, [])
          else (case benchmark_at D E (ap_Time px) s of
              (bench, s) \<Rightarrow>
                let s = s\<lparr>ms_lastPrice := ap_Price px\<rparr>; open = ms_openSignal s in
                if ms_paused s \<or> open = SignalHold then (s, [])
                else (case intrabarZ D s ytm bench of
                    None \<Rightarrow> (s, [])
                  | Some z \<Rightarrow> exit_position D E assetID open z s)))"

definition handle_prices ::
  "'d decimal_ops \<Rightarrow> string \<Rightarrow> ('d MREnv \<times> 'd AssetPrice) list \<Rightarrow> 'd MRStrategy \<Rightarrow> 'd MRStrategy \<times> 'd Effect list" where
  "handle_prices D assetID pxs s = run_events (\<lambda>(E, px). handle_price D E assetID px) pxs s"

definition mr_message :: "Message \<Rightarrow> 'd MRStrategy \<Rightarrow> 'd MRStrategy" where
  "mr_message msg s =
     (case msg of
        Pause \<Rightarrow> s\<lparr>ms_paused := True\<rparr>
      | Resume \<Rightarrow> s\<lparr>ms_paused := False\<rparr>
      | Stop \<Rightarrow> s\<lparr>ms_cancelled := True\<rparr>)"

definition mr_step :: "'d decimal_ops \<Rightarrow> 'd MREvent \<Rightarrow> 'd MRLoop \<Rightarrow> 'd MRLoop \<times> 'd Effect list" where
  "mr_step D ev l =
     (if ml_done l then (l, [])
      else
        case ev of
          MRCtxDone \<Rightarrow> (l\<lparr>ml_done := True, ml_strat := (ml_strat l)\<lparr>ms_isRunning := False\<rparr>\<rparr>, [])
        | MRMsg msg \<Rightarrow> (l\<lparr>ml_strat := mr_message msg (ml_strat l)\<rparr>, [])
        | MRBar E bar \<Rightarrow>
            (case handle_bar D E (ml_assetID l) bar (ml_strat l) of (s, eff) \<Rightarrow> (l\<lparr>ml_strat := s\<rparr>, eff))
        | MRPrices pxs \<Rightarrow>
            (case handle_prices D (ml_assetID l) pxs (ml_strat l) of (s, eff) \<Rightarrow> (l\<lparr>ml_strat := s\<rparr>, eff))
        | MRTrade t \<Rightarrow> if ml_trades l then (l\<lparr>ml_strat := applyTrade D t (ml_strat l)\<rparr>, []) else (l, [])
        | MRTradesClosed \<Rightarrow> (l\<lparr>ml_trades := False\<rparr>, [])
        | MRTick \<Rightarrow> (l, []))"

section \<open>Starting a run\<close>

record 'd MRSetup =
  su_env :: "'d MREnv"
  su_client :: bool
  su_subscribePrices :: "gerror option"
  su_BaseAssetID :: "string \<Rightarrow> string gopair"
  su_AssetCollateralWeight :: "string \<Rightarrow> 'd gopair"
  su_candleFeed :: bool
  su_candleStore :: "gerror option"
  su_CandleRange :: "(gtime option \<times> gtime option) gopair"
  su_SubscribeBars :: "string \<Rightarrow> Resolution \<Rightarrow> gtime \<Rightarrow> gerror option"
  su_tradeStream :: bool

definition requireCandleCoverage :: "'d MRSetup \<Rightarrow> gerror option" where
  "requireCandleCoverage S =
     (if su_candleStore S \<noteq> None then None
      else case su_CandleRange S of
          (_, Some err) \<Rightarrow> None
        | ((lo, hi), None) \<Rightarrow>
            if lo = None \<and> hi = None then Some ''no candle data for order book'' else None)"

definition subscribeTrades :: "'d MRSetup \<Rightarrow> 'd MRStrategy \<Rightarrow> bool" where
  "subscribeTrades S s \<longleftrightarrow> \<not> (mc_ImbalanceWindow (ms_cfg s) \<le> 0 \<or> \<not> su_tradeStream S)"

definition netImbalance :: "'d decimal_ops \<Rightarrow> 'd MRStrategy \<Rightarrow> 'd \<times> bool" where
  "netImbalance D s =
     (case ms_imbWin s of
        None \<Rightarrow> (d_zero D, False)
      | Some w \<Rightarrow> if Rolling_Ready w then (Rolling_Sum w, True) else (d_zero D, False))"

definition run_setup :: "'d decimal_ops \<Rightarrow> 'd MRSetup \<Rightarrow> 'd MRStrategy \<Rightarrow> 'd MRStrategy \<times> 'd MRLoop res" where
  "run_setup D S s =
     (let ob = mc_OrderBookID (ms_cfg s) in
      case LookupAssetID (su_client S) (su_BaseAssetID S) ob of
        Inl err \<Rightarrow> (s, Inl (''error looking up asset ID: '' @ err))
      | Inr assetID \<Rightarrow>
          let s = s\<lparr>ms_baseAssetID := assetID\<rparr>;
              s = (case su_AssetCollateralWeight S assetID of
                     (_, Some _) \<Rightarrow> s | (cw, None) \<Rightarrow> s\<lparr>ms_collateralWeight := cw\<rparr>)
          in if \<not> su_candleFeed S then (s, Inl ''candle feed not configured'')
             else (case ParseBenchmarkTenor (mc_Tenor (ms_cfg s)) of
                 Inl err \<Rightarrow> (s, Inl (''tenor is required for mean_reversion: '' @ err))
               | Inr _ \<Rightarrow>
                   (case requireCandleCoverage S of
                      Some err \<Rightarrow> (s, Inl err)
                    | None \<Rightarrow>
                        let warmup = wrap64 (wrap64 (mc_LookbackWindow (ms_cfg s) + 1) *
                                             ResolutionDuration (mc_Resolution (ms_cfg s))) in
                        (case su_SubscribeBars S ob (mc_Resolution (ms_cfg s))
                             (time_Add (time_UTC (me_Now (su_env S))) (wrap64 (- warmup))) of
                           Some err \<Rightarrow> (s, Inl (''failed to subscribe to bars: '' @ err))
                         | None \<Rightarrow>
                             let s' = initializeBalances D (su_env S) assetID s in
                             (s', Inr \<lparr>ml_strat = s', ml_assetID = assetID, ml_trades = subscribeTrades S s,
                                       ml_done = False\<rparr>)))))"

definition MR_Run :: "'d decimal_ops \<Rightarrow> 'd MRSetup \<Rightarrow> string \<Rightarrow> 'd MRStrategy \<Rightarrow> 'd MRStrategy \<times> 'd MRLoop res" where
  "MR_Run D S runID s0 =
     (let s = s0\<lparr>ms_runID := runID\<rparr> in
      if ms_isRunning s then (s, Inl ''strategy is already running'')
      else if \<not> su_client S then (s, Inl ''mean_reversion: market API client not configured: use WithMarketAPIClient'')
      else
        let s = s\<lparr>ms_cancelled := False\<rparr> in
        case su_subscribePrices S of
          Some err \<Rightarrow> (s, Inl (''failed to subscribe to prices: '' @ err))
        | None \<Rightarrow>
            (case run_setup D S (s\<lparr>ms_isRunning := True\<rparr>) of
               (s, Inl err) \<Rightarrow> (s\<lparr>ms_isRunning := False\<rparr>, Inl err)
             | (s, Inr l) \<Rightarrow> (s, Inr l)))"

section \<open>The contract of a guarded loop\<close>

text \<open>A loop step keeps an invariant, sends at most \<open>weight e\<close> orders for an event, and stays silent
  while \<open>quiet\<close>, which only a \<open>wake\<close> event ends.\<close>

locale guarded_loop =
  fixes step :: "'e \<Rightarrow> 'l \<Rightarrow> 'l \<times> 'd Effect list"
    and inv :: "'l \<Rightarrow> bool"
    and weight :: "'e \<Rightarrow> nat"
    and quiet :: "'l \<Rightarrow> bool"
    and wake :: "'e \<Rightarrow> bool"
  assumes inv_step: "inv l \<Longrightarrow> inv (fst (step e l))"
    and step_orders: "length (order_qtys (snd (step e l))) \<le> weight e"
    and quiet_step: "quiet l \<Longrightarrow> \<not> wake e \<Longrightarrow> quiet (fst (step e l)) \<and> order_qtys (snd (step e l)) = []"
begin

lemma run_inv: "inv l \<Longrightarrow> inv (fst (run_events step es l))"
  by (induction es arbitrary: l) (auto simp: split_beta inv_step)

lemma run_orders: "length (order_qtys (snd (run_events step es l))) \<le> sum_list (map weight es)"
proof (induction es arbitrary: l)
  case (Cons e es)
  show ?case using step_orders [of e l] Cons [of "fst (step e l)"] by (simp add: split_beta add_mono)
qed simp

lemma run_quiet:
  "quiet l \<Longrightarrow> \<forall>e\<in>set es. \<not> wake e \<Longrightarrow>
     quiet (fst (run_events step es l)) \<and> order_qtys (snd (run_events step es l)) = []"
proof (induction es arbitrary: l)
  case (Cons e es)
  then show ?case using quiet_step [of l e] by (simp add: split_beta)
qed simp

end

lemma run_events_append:
  "run_events step (es @ fs) l =
     (case run_events step es l of (l1, f1) \<Rightarrow> case run_events step fs l1 of (l2, f2) \<Rightarrow> (l2, f1 @ f2))"
  by (induction es arbitrary: l) (auto simp: split_beta)

end
