(* ===== verification/MR_Props.thy ===== *)
theory MR_Props
  imports MR_Loop
begin

text \<open>
  Properties of the mean-reversion strategy: the signal rule of \<open>Update\<close>, order sizing, closing, the
  trade-imbalance gate, and the invariants of the live loop. The library lemmas come first, then the
  sample values the witnesses run on, then the theorems with their witnesses.
\<close>

section \<open>Signals\<close>

lemma bar_stats_ok:
  assumes "bar_stats D cfg w bar = Inr (spread, sd, z)"
  shows "d_sub D (bar_CloseYTM bar) (bar_BenchmarkYield bar) = (spread, None)" "Rolling_StdDev D w = Inr sd"
    "bar_z D cfg w spread sd = Inr z"
  using assms by (auto simp: bar_stats_def rbind_eq_Inr tryv_eq_Inr)

lemma Update_ok:
  assumes "Update D bar s = (s', Inr d)"
  obtains w' where "bar_stats D (ms_cfg s) (ms_window s) bar = Inr (md_Spread d, md_RollingStdDev d, md_ZScore d)"
    "Rolling_Add D (md_Spread d) (ms_window s) = (w', None)" "s' = s\<lparr>ms_lastPrice := bar_Close bar, ms_window := w'\<rparr>"
    "entry_size D (ms_cfg s) (md_signal d) (md_ZScore d) = Inr (md_positionSize d)"
    "md_signal d = entry_signal D (ms_cfg s) (md_ZScore d)" "md_price d = bar_Close bar" "md_time d = bar_Time bar"
    "md_bondID d = ms_baseAssetID s"
proof (cases "bar_stats D (ms_cfg s) (ms_window s) bar")
  case (Inl e)
  then show thesis using assms by (simp add: Update_def Let_def)
next
  case (Inr a)
  obtain spread sd z where a: "a = (spread, sd, z)" by (cases a)
  obtain w' e where w: "Rolling_Add D spread (ms_window s) = (w', e)" by (cases "Rolling_Add D spread (ms_window s)")
  show thesis
    using assms Inr a w by (cases e) (auto simp: Update_def Let_def rbind_eq_Inr intro: that)
qed

lemma Update_frame:
  assumes "Update D bar s = (s', r)"
  obtains w where "s' = s\<lparr>ms_lastPrice := bar_Close bar, ms_window := w\<rparr>"
proof -
  show thesis
  proof (cases "bar_stats D (ms_cfg s) (ms_window s) bar")
  case (Inl e)
  then have "s' = s\<lparr>ms_lastPrice := bar_Close bar, ms_window := ms_window s\<rparr>"
    using assms by (cases s) (auto simp: Update_def Let_def)
  then show thesis by (rule that)
next
  case (Inr a)
  obtain spread sd z where a: "a = (spread, sd, z)" by (cases a)
  obtain w' e where w: "Rolling_Add D spread (ms_window s) = (w', e)" by (cases "Rolling_Add D spread (ms_window s)")
  show thesis
    using assms Inr a w by (cases e) (auto simp: Update_def Let_def intro: that)
  qed
qed

lemma bar_z_val:
  assumes L: "decimal_laws D val rnd" and "bar_z D cfg w spread sd = Inr z"
  shows "val z = (if Rolling_Ready w \<and> val (mc_MinStdDev cfg) \<le> val sd
    then rnd (rnd (val spread - val (Rolling_Mean w)) / val sd) else 0)"
proof (cases "Rolling_Ready w \<and> d_cmp D sd (mc_MinStdDev cfg) \<ge> 0")
  case True
  then obtain num where "d_sub D spread (Rolling_Mean w) = (num, None)" "d_quo D num sd = (z, None)"
    using assms(2) by (auto simp: bar_z_def rbind_eq_Inr tryv_eq_Inr)
  then show ?thesis using True val_sub [OF L] val_quo [OF L] by (simp add: dec_cmp [OF L])
next
  case False
  then show ?thesis using assms(2) dec_exact(1) [OF L] by (auto simp: bar_z_def dec_cmp [OF L])
qed

lemma entry_signal_val:
  assumes "decimal_laws D val rnd"
  shows "entry_signal D cfg z =
    (if val (mc_EntryZScore cfg) \<le> val z then SignalBuy
     else if val z \<le> - val (mc_EntryZScore cfg) then SignalSell else SignalHold)"
  by (simp add: entry_signal_def dec_cmp [OF assms] dec_exact [OF assms])

lemma entry_size_val:
  assumes L: "decimal_laws D val rnd" and "entry_size D cfg sig z = Inr q"
  shows "val q = (if sig = SignalHold then 0
    else min (val (mc_MaxPositionSize cfg)) (rnd (rnd (\<bar>val z\<bar> - val (mc_EntryZScore cfg)) / val (mc_EntryZScore cfg))))"
  using assms(2)
  by (auto simp: entry_size_def rbind_eq_Inr tryv_eq_Inr dec_cmp [OF L] dec_exact [OF L] min_def val_sub [OF L] val_quo [OF L]
      split: if_splits)

section \<open>Sizing\<close>

lemma effective_capital_val:
  assumes "decimal_laws D val rnd" "effective_capital D s = Inr c"
  shows "val c = rnd (rnd (val (mc_InitialBalance (ms_cfg s)) * val (ms_collateralWeight s)) * val (mc_Leverage (ms_cfg s)))"
  using assms by (auto simp: effective_capital_def rbind_eq_Inr tryv_eq_Inr val_mul)

lemma capped_ok:
  assumes L: "decimal_laws D val rnd" and "cappedOrderQuantity D s sz pos price = Inr (Some q)"
  obtains c where "effective_capital D s = Inr c" "0 \<le> val sz" "val price \<noteq> 0" "0 < rnd (val c * val sz)"
    "rnd (max 0 (val pos) * val price) < val c" "val q \<noteq> 0"
    "val q = of_int \<lfloor>rnd (min (rnd (val c * val sz)) (rnd (val c - rnd (max 0 (val pos) * val price))) / val price)\<rfloor>"
proof -
  let ?p = "if d_IsNeg D pos then d_zero D else pos"
  have p: "val ?p = max 0 (val pos)" using dec_exact [OF L] by (auto simp: max_def)
  from assms(2) obtain c where c: "effective_capital D s = Inr c" and g: "\<not> d_IsNeg D sz" "\<not> d_IsZero D price"
    by (auto simp: cappedOrderQuantity_def Let_def rbind_eq_Inr split: if_splits)
  from assms(2) c g obtain b where b: "d_mul D c sz = (b, None)" "d_IsPos D b"
    by (auto simp: cappedOrderQuantity_def Let_def rbind_eq_Inr tryv_eq_Inr simp del: split_paired_Ex split: if_splits)
  from assms(2) c g b obtain v where v: "d_mul D ?p price = (v, None)" "\<not> d_cmp D v c \<ge> 0"
    by (auto simp: cappedOrderQuantity_def Let_def rbind_eq_Inr tryv_eq_Inr simp del: split_paired_Ex split: if_splits)
  let ?buy = "\<lambda>r. rbind (tryv (d_quo D (if d_cmp D b r > 0 then r else b) price))
      (\<lambda>x. Inr (if d_IsZero D (d_floor D x) then None else Some (d_floor D x)))"
  have "cappedOrderQuantity D s sz pos price = rbind (tryv (d_sub D c v)) ?buy"
    using c g b v by (simp add: cappedOrderQuantity_def Let_def)
  with assms(2) have "rbind (tryv (d_sub D c v)) ?buy = Inr (Some q)" by simp
  then obtain r where r0: "tryv (d_sub D c v) = Inr r" and buy: "?buy r = Inr (Some q)" by (rule rbind_InrE)
  from buy obtain x where x0: "tryv (d_quo D (if d_cmp D b r > 0 then r else b) price) = Inr x"
    and fx: "(Inr (if d_IsZero D (d_floor D x) then None else Some (d_floor D x)) :: 'a option res) = Inr (Some q)"
    by (rule rbind_InrE)
  have r: "d_sub D c v = (r, None)" using r0 by (simp add: tryv_eq_Inr)
  have x: "d_quo D (if d_cmp D b r > 0 then r else b) price = (x, None)" using x0 by (simp only: tryv_eq_Inr)
  from fx have q: "q = d_floor D x" "\<not> d_IsZero D q" by (auto split: if_split_asm)
  have vb: "val b = rnd (val c * val sz)" "val v = rnd (max 0 (val pos) * val price)" "val r = rnd (val c - val v)"
    using val_mul [OF L b(1)] val_mul [OF L v(1)] val_sub [OF L r] p by simp_all
  have m: "val (if d_cmp D b r > 0 then r else b) = min (val b) (val r)" by (simp add: dec_cmp [OF L] min_def)
  have pos: "0 \<le> val sz" "val price \<noteq> 0" "0 < val b" "val v < val c" "val q \<noteq> 0"
    using g b(2) v(2) q(2) dec_exact(9-11) [OF L] dec_cmp(4) [OF L, of v c] by auto
  have "val q = of_int \<lfloor>rnd (min (val b) (val r) / val price)\<rfloor>"
    using val_quo [OF L x] m q(1) dec_exact(6) [OF L] by simp
  then show thesis
    by (intro that [OF c]) (use pos vb in simp_all)
qed

section \<open>What the order paths change\<close>

lemma recordDecision_frame:
  assumes "recordDecision E d s = (s', eff)"
  obtains n where "s' = s\<lparr>ms_decisionSeq := n\<rparr>" "order_qtys eff = []"
proof (cases "ms_decisionStore s")
  case True
  then show thesis using assms by (auto simp: recordDecision_def Let_def intro: that)
next
  case False
  then have "s' = s\<lparr>ms_decisionSeq := ms_decisionSeq s\<rparr>" "order_qtys eff = []"
    using assms by (simp_all add: recordDecision_def)
  then show thesis by (rule that)
qed

lemma close_order_result:
  assumes "close_order D E a req s = (s', err, eff)"
  obtains n where "s' = s \<and> err \<noteq> None \<or> err = None \<and> s' = set_flat D (ms_balancesInitialized s) (s\<lparr>ms_decisionSeq := n\<rparr>)"
    "order_qtys eff = [oreq_Quantity req]"
proof (cases "snd (me_CreateMarketOrder E req)")
  case (Some e)
  then show thesis
    using assms
    by (cases "currentPosition D E a")
      (auto simp: close_order_def Let_def intro!: that [of "ms_decisionSeq s"] dest!: sym [of "Some e"]
        split: if_split_asm)
next
  case None
  obtain s1 f where r: "recordDecision E (decision_row D E s a (oreq_Side req)
      (Signal_String (if oreq_Side req = SIDE_BUY then SignalBuy else SignalSell)) (oreq_Quantity req) (ms_lastPrice s)
      (oreq_InverseLeverage req) DecisionKindClose ''z_score_exit'' ''close: spread reverted to mean''
      (oreq_ClientOrderID req)) s = (s1, f)" by (rule prod.exhaust)
  from r obtain n where "s1 = s\<lparr>ms_decisionSeq := n\<rparr>" "order_qtys f = []" by (rule recordDecision_frame)
  then show thesis
    using assms None r by (auto simp: close_order_def Let_def intro!: that [of n])
qed

lemma closePosition_result:
  assumes "closePosition D E a s = (s', err, eff)"
  obtains n where "s' = s \<and> err \<noteq> None \<or> err = None \<and> s' = set_flat D (ms_balancesInitialized s) (s\<lparr>ms_decisionSeq := n\<rparr>)"
    "length (order_qtys eff) \<le> 1"
proof (cases "if ms_balancesInitialized s then Inr (ms_bondQty s) else currentPosition D E a")
  case (Inl e)
  then show thesis using assms by (auto simp: closePosition_def intro!: that [of "ms_decisionSeq s"])
next
  case (Inr q)
  show thesis
  proof (cases "d_IsZero D q")
    case True
    then show thesis using assms Inr by (auto simp: closePosition_def intro!: that [of "ms_decisionSeq s"])
  next
    case False
    then have "close_order D E a (close_request D E s q) s = (s', err, eff)"
      using assms Inr by (simp add: closePosition_def)
    then show thesis by (rule close_order_result) (use that in auto)
  qed
qed

lemma open_order_result:
  assumes "open_order D E d a req s = (s', r, eff)"
  obtains n where
    "s' = s \<or> ms_balancesInitialized s \<and> s' = apply_fill D (oreq_Side req) (oreq_Quantity req) (md_price d) (s\<lparr>ms_decisionSeq := n\<rparr>) \<or>
     \<not> ms_balancesInitialized s \<and> s' = s\<lparr>ms_decisionSeq := n, ms_openSignal := md_signal d\<rparr>"
    "order_qtys eff = [oreq_Quantity req]" "EOrder req (me_CreateMarketOrder E req) \<in> set eff"
    "\<And>req' resp. EOrder req' resp \<in> set eff \<Longrightarrow> req' = req"
proof (cases "snd (me_CreateMarketOrder E req)")
  case (Some e)
  then show thesis using assms by (auto simp: open_order_def Let_def intro!: that [of "ms_decisionSeq s"])
next
  case None
  obtain s1 f where rd: "recordDecision E (decision_row D E s a (oreq_Side req) (Signal_String (md_signal d))
      (oreq_Quantity req) (md_price d) (oreq_InverseLeverage req) DecisionKindOpen ''z_score_entry''
      (''z-score entry: z='' @ me_String E (md_ZScore d) @ '' signal='' @ Signal_String (md_signal d))
      (oreq_ClientOrderID req)) s = (s1, f)" by (rule prod.exhaust)
  from rd obtain n where n: "s1 = s\<lparr>ms_decisionSeq := n\<rparr>" "order_qtys f = []" by (rule recordDecision_frame)
  have "EOrder req' resp \<notin> set f" for req' resp
    using rd by (auto simp: recordDecision_def Let_def split: if_split_asm)
  then show thesis
    using assms None rd n by (auto simp: open_order_def Let_def intro!: that [of n] split: if_split_asm)
qed

lemma executeDecision_cases:
  assumes "executeDecision D E d a s = (s', r, eff)"
  obtains (idle) "s' = s" "eff = []"
    | (order) q il where "md_signal d \<noteq> SignalHold" "open_quantity D E d a s = Inr (Some q)" "\<not> d_IsZero D q"
      "open_order D E d a (market_request E s (if md_signal d = SignalSell then SIDE_SELL else SIDE_BUY) q il) s = (s', r, eff)"
  using assms unfolding executeDecision_def Let_def
  by (auto split: if_split_asm sum.splits option.splits)

section \<open>The loop invariant\<close>

text \<open>The open signal is the sign of the tracked position. The first premise holds for every decimal
  package (\<open>signal_of_zero\<close>).\<close>

definition synced :: "'d decimal_ops \<Rightarrow> 'd MRStrategy \<Rightarrow> bool" where
  "synced D s \<longleftrightarrow> (signalFromBondQty D (d_zero D) = SignalHold \<longrightarrow> ms_balancesInitialized s \<longrightarrow>
     ms_openSignal s = signalFromBondQty D (ms_bondQty s))"

text \<open>What a handler may do: keep the tracked position and the signal in step, leave the configuration
  and the pause flag alone, and send at most one order, none while paused.\<close>

definition tame :: "'d decimal_ops \<Rightarrow> 'd MRStrategy \<Rightarrow> 'd MRStrategy \<times> 'd Effect list \<Rightarrow> bool" where
  "tame D s r \<longleftrightarrow> (synced D s \<longrightarrow> synced D (fst r)) \<and> ms_paused (fst r) = ms_paused s \<and> ms_cfg (fst r) = ms_cfg s \<and>
     length (order_qtys (snd r)) \<le> 1 \<and> (ms_paused s \<longrightarrow> order_qtys (snd r) = [])"

lemma tameI:
  "(synced D s \<Longrightarrow> synced D s') \<Longrightarrow> ms_paused s' = ms_paused s \<Longrightarrow> ms_cfg s' = ms_cfg s \<Longrightarrow>
   length (order_qtys eff) \<le> 1 \<Longrightarrow> (ms_paused s \<Longrightarrow> order_qtys eff = []) \<Longrightarrow> tame D s (s', eff)"
  by (simp add: tame_def)

lemma tame_silent: "synced D s' \<longleftrightarrow> synced D s \<Longrightarrow> ms_paused s' = ms_paused s \<Longrightarrow> ms_cfg s' = ms_cfg s \<Longrightarrow> tame D s (s', [])"
  by (simp add: tame_def)

lemma tame_trans:
  "synced D s1 \<longleftrightarrow> synced D s \<Longrightarrow> ms_paused s1 = ms_paused s \<Longrightarrow> ms_cfg s1 = ms_cfg s \<Longrightarrow> tame D s1 r \<Longrightarrow> tame D s r"
  by (auto simp: tame_def)

lemma synced_simps [simp]:
  "synced D (s\<lparr>ms_decisionSeq := n\<rparr>) = synced D s" "synced D (s\<lparr>ms_errs := x\<rparr>) = synced D s"
  "synced D (s\<lparr>ms_lastPrice := d\<rparr>) = synced D s" "synced D (s\<lparr>ms_window := w\<rparr>) = synced D s"
  "synced D (s\<lparr>ms_benchmarkObservations := obs\<rparr>) = synced D s" "synced D (s\<lparr>ms_imbWin := iw\<rparr>) = synced D s"
  "synced D (s\<lparr>ms_paused := b\<rparr>) = synced D s" "synced D (s\<lparr>ms_cancelled := b\<rparr>) = synced D s"
  "synced D (s\<lparr>ms_isRunning := b\<rparr>) = synced D s" "synced D (recordStopLoss D z s) = synced D s"
  "ms_paused (recordStopLoss D z s) = ms_paused s" "ms_cfg (recordStopLoss D z s) = ms_cfg s"
  by (simp_all add: synced_def recordStopLoss_def)

lemma synced_untracked: "\<not> ms_balancesInitialized s \<Longrightarrow> synced D s"
  by (simp add: synced_def)

lemma set_flat_simps [simp]:
  "ms_paused (set_flat D b s) = ms_paused s" "ms_cfg (set_flat D b s) = ms_cfg s"
  "ms_balancesInitialized (set_flat D b s) = ms_balancesInitialized s"
  "ms_openSignal (set_flat D b s) = SignalHold" "ms_bondQty (set_flat D True s) = d_zero D"
  by (simp_all add: set_flat_def)

lemma signal_of_zero: "decimal_laws D val rnd \<Longrightarrow> signalFromBondQty D (d_zero D) = SignalHold"
  using dec_exact(1,10,11) [of D val rnd] by (simp add: signalFromBondQty_def)

lemma synced_set_flat: "synced D (set_flat D (ms_balancesInitialized s) s)"
  by (auto simp: synced_def set_flat_def)

lemma apply_fill_simps [simp]:
  "ms_paused (apply_fill D side q p s) = ms_paused s" "ms_cfg (apply_fill D side q p s) = ms_cfg s"
  "ms_balancesInitialized (apply_fill D side q p s) = ms_balancesInitialized s" "synced D (apply_fill D side q p s)"
  by (simp_all add: apply_fill_def synced_def Let_def)

lemma log_err_simps [simp]:
  "synced D (log_err e s) = synced D s" "ms_paused (log_err e s) = ms_paused s" "ms_cfg (log_err e s) = ms_cfg s"
  by (simp_all add: log_err_def split: option.split)

lemma benchmark_at_frame:
  assumes "benchmark_at D E ts s = (y, s')"
  obtains obs errs where "s' = s\<lparr>ms_benchmarkObservations := obs, ms_errs := errs\<rparr>"
  using assms by (auto simp: benchmark_at_def split: prod.splits intro: that)

lemma ShouldExit_frame:
  assumes "ShouldExit D sig z s = (s', b, reason)"
  shows "s' = s \<or> s' = recordStopLoss D z s"
  using assms by (auto simp: ShouldExit_def split: if_split_asm)

lemma closePosition_tame:
  assumes "closePosition D E a s = (s', err, eff)" "\<not> ms_paused s"
  shows "tame D s (log_err err s', eff)"
  using assms(1)
proof (rule closePosition_result)
  fix n assume s': "s' = s \<and> err \<noteq> None \<or> err = None \<and> s' = set_flat D (ms_balancesInitialized s) (s\<lparr>ms_decisionSeq := n\<rparr>)"
    and eff: "length (order_qtys eff) \<le> 1"
  have "synced D (set_flat D (ms_balancesInitialized s) (s\<lparr>ms_decisionSeq := n\<rparr>))"
    using synced_set_flat [of D "s\<lparr>ms_decisionSeq := n\<rparr>"] by simp
  then show ?thesis using s' eff assms(2) by (intro tameI) auto
qed

lemma exit_position_tame:
  assumes "\<not> ms_paused s"
  shows "tame D s (exit_position D E a sig z s)"
proof -
  obtain s1 b reason where e: "ShouldExit D sig z s = (s1, b, reason)" by (rule prod_cases3)
  have s1: "synced D s1 = synced D s" "ms_paused s1 = ms_paused s" "ms_cfg s1 = ms_cfg s"
    using ShouldExit_frame [OF e] by auto
  show ?thesis
  proof (cases b)
    case True
    obtain s2 err eff where c: "closePosition D E a s1 = (s2, err, eff)" by (rule prod_cases3)
    have "tame D s1 (log_err err s2, eff)" using closePosition_tame [OF c] s1(2) assms by simp
    then show ?thesis using True c e tame_trans [OF s1] by (simp add: exit_position_def)
  next
    case False
    then show ?thesis using e s1 by (auto simp: exit_position_def intro: tame_silent)
  qed
qed

lemma executeDecision_tame:
  assumes "executeDecision D E d a s = (s', r, eff)" "\<not> ms_paused s"
  shows "tame D s (s', eff)"
  using assms(1)
proof (cases rule: executeDecision_cases)
  case idle
  then show ?thesis by (simp add: tame_silent)
next
  case (order q il)
  from order(4) show ?thesis
  proof (rule open_order_result)
    fix n assume "s' = s \<or> ms_balancesInitialized s \<and> s' = apply_fill D
        (oreq_Side (market_request E s (if md_signal d = SignalSell then SIDE_SELL else SIDE_BUY) q il))
        (oreq_Quantity (market_request E s (if md_signal d = SignalSell then SIDE_SELL else SIDE_BUY) q il)) (md_price d)
        (s\<lparr>ms_decisionSeq := n\<rparr>) \<or> \<not> ms_balancesInitialized s \<and> s' = s\<lparr>ms_decisionSeq := n, ms_openSignal := md_signal d\<rparr>"
      "order_qtys eff = [oreq_Quantity (market_request E s (if md_signal d = SignalSell then SIDE_SELL else SIDE_BUY) q il)]"
    then show ?thesis using assms(2) by (intro tameI) (auto intro: synced_untracked)
  qed
qed

lemma handle_bar_tame:
  shows "tame D s (handle_bar D E a bar s)"
proof -
  obtain y s1 where b: "benchmark_at D E (time_Add (bar_Time bar) (ResolutionDuration (mc_Resolution (ms_cfg s)))) s = (y, s1)"
    by (rule prod.exhaust)
  obtain s2 r where u: "Update D (bar\<lparr>bar_BenchmarkYield := y\<rparr>) s1 = (s2, r)" by (rule prod.exhaust)
  from b obtain obs errs where s1: "s1 = s\<lparr>ms_benchmarkObservations := obs, ms_errs := errs\<rparr>" by (rule benchmark_at_frame)
  from u obtain w where s2: "s2 = s1\<lparr>ms_lastPrice := bar_Close (bar\<lparr>bar_BenchmarkYield := y\<rparr>), ms_window := w\<rparr>" by (rule Update_frame)
  have fr: "synced D s2 = synced D s" "ms_paused s2 = ms_paused s" "ms_cfg s2 = ms_cfg s" by (simp_all add: s1 s2)
  show ?thesis
  proof (cases r)
    case (Inl e)
    then show ?thesis using b u fr by (simp add: handle_bar_def Let_def tame_silent)
  next
    case (Inr d)
    obtain s3 rr eff where x: "executeDecision D E d a s2 = (s3, rr, eff)" by (rule prod_cases3)
    have ex: "tame D s2 (s3, eff)" if "\<not> ms_paused s2" using executeDecision_tame [OF x that] .
    then have ex': "tame D s2 (log_err e s3, eff)" if "\<not> ms_paused s2" for e using that by (simp add: tame_def)
    have ep: "tame D s2 (exit_position D E a sig z s2)" if "\<not> ms_paused s2" for sig z
      using exit_position_tame [OF that] .
    have "tame D s2 (handle_bar D E a bar s)"
      using b u Inr x ex ex' ep by (cases rr) (simp_all add: handle_bar_def Let_def tame_silent)
    then show ?thesis by (rule tame_trans [OF fr])
  qed
qed

lemma handle_price_tame:
  shows "tame D s (handle_price D E a px s)"
proof -
  obtain y s1 where b: "benchmark_at D E (ap_Time px) s = (y, s1)" by (rule prod.exhaust)
  from b obtain obs errs where s1: "s1 = s\<lparr>ms_benchmarkObservations := obs, ms_errs := errs\<rparr>" by (rule benchmark_at_frame)
  let ?s = "s1\<lparr>ms_lastPrice := ap_Price px\<rparr>"
  have fr: "synced D ?s = synced D s" "ms_paused ?s = ms_paused s" "ms_cfg ?s = ms_cfg s" by (simp_all add: s1)
  have ep: "tame D s (exit_position D E a sig z ?s)" if "\<not> ms_paused ?s" for sig z
    using exit_position_tame [OF that] by (rule tame_trans [OF fr])
  show ?thesis
    using b fr ep by (auto simp: handle_price_def Let_def intro: tame_silent split: option.split)
qed

lemma handle_prices_result:
  shows "(synced D s \<longrightarrow> synced D (fst (handle_prices D a pxs s))) \<and>
    ms_paused (fst (handle_prices D a pxs s)) = ms_paused s \<and> ms_cfg (fst (handle_prices D a pxs s)) = ms_cfg s \<and>
    length (order_qtys (snd (handle_prices D a pxs s))) \<le> length pxs \<and>
    (ms_paused s \<longrightarrow> order_qtys (snd (handle_prices D a pxs s)) = [])"
proof (induction pxs arbitrary: s)
  case Nil
  then show ?case by (simp add: handle_prices_def)
next
  case (Cons ep pxs)
  obtain E px where ep: "ep = (E, px)" by (rule prod.exhaust)
  let ?r = "handle_price D E a px s"
  have t: "tame D s ?r" by (rule handle_price_tame)
  have r: "handle_prices D a (ep # pxs) s =
      (fst (handle_prices D a pxs (fst ?r)), snd ?r @ snd (handle_prices D a pxs (fst ?r)))"
    by (simp add: handle_prices_def ep split_beta)
  show ?case using t Cons [of "fst ?r"] unfolding r tame_def by auto
qed

lemma applyTrade_frame [simp]:
  "synced D (applyTrade D t s) = synced D s" "ms_paused (applyTrade D t s) = ms_paused s"
  "ms_cfg (applyTrade D t s) = ms_cfg s"
  by (simp_all add: applyTrade_def split: option.split)

definition mr_weight :: "'d MREvent \<Rightarrow> nat" where
  "mr_weight ev = (case ev of MRBar _ _ \<Rightarrow> 1 | MRPrices pxs \<Rightarrow> length pxs | _ \<Rightarrow> 0)"

definition mr_quiet :: "'d MRLoop \<Rightarrow> bool" where
  "mr_quiet l \<longleftrightarrow> ml_done l \<or> ms_paused (ml_strat l)"

definition mr_wakes :: "'d MREvent \<Rightarrow> bool" where
  "mr_wakes ev \<longleftrightarrow> (case ev of MRMsg Resume \<Rightarrow> True | _ \<Rightarrow> False)"

lemma mr_step_result:
  shows "synced D (ml_strat l) \<Longrightarrow> synced D (ml_strat (fst (mr_step D e l)))"
    and "ms_cfg (ml_strat (fst (mr_step D e l))) = ms_cfg (ml_strat l)"
    and "length (order_qtys (snd (mr_step D e l))) \<le> mr_weight e"
    and "mr_quiet l \<Longrightarrow> \<not> mr_wakes e \<Longrightarrow> mr_quiet (fst (mr_step D e l)) \<and> order_qtys (snd (mr_step D e l)) = []"
  using handle_bar_tame [where D = D] handle_prices_result [where D = D]
  by (auto simp: mr_step_def mr_weight_def mr_quiet_def mr_wakes_def mr_message_def tame_def split_beta
      split: MREvent.split Message.split)

interpretation mr: guarded_loop "mr_step D" "\<lambda>l. synced D (ml_strat l)" mr_weight mr_quiet mr_wakes
  for D :: "'d decimal_ops"
  using mr_step_result [where D = D] by unfold_locales auto

section \<open>Starting a run\<close>

lemma initializeBalances_synced:
  assumes "ms_openSignal s = signalFromBondQty D (ms_bondQty s)"
  shows "synced D (initializeBalances D E base s)"
proof -
  have pf: "ms_openSignal (initializeBalancesFromPortfolio D acc base q g s) =
      signalFromBondQty D (ms_bondQty (initializeBalancesFromPortfolio D acc base q g s))" for acc q g
    using assms by (auto simp: initializeBalancesFromPortfolio_def InitialBalancesFromPortfolio_def rbind_eq_Inr
        split: sum.split option.split if_split_asm)
  have un: "synced D (s\<lparr>ms_errs := x\<rparr>)" for x using assms by (simp add: synced_def)
  show ?thesis
    by (auto simp: initializeBalances_def Let_def synced_def pf assms split: prod.split option.split)
qed

lemma run_setup_ok:
  assumes "run_setup D S s = (s', Inr l)"
  obtains a cw where "ml_strat l = initializeBalances D (su_env S) a (s\<lparr>ms_baseAssetID := a, ms_collateralWeight := cw\<rparr>)"
    "ml_assetID l = a" "\<not> ml_done l" "s' = ml_strat l"
proof -
  obtain a where la: "LookupAssetID (su_client S) (su_BaseAssetID S) (mc_OrderBookID (ms_cfg s)) = Inr a"
    using assms by (cases "LookupAssetID (su_client S) (su_BaseAssetID S) (mc_OrderBookID (ms_cfg s))")
      (simp_all add: run_setup_def)
  obtain c e where cw: "su_AssetCollateralWeight S a = (c, e)" by (rule prod.exhaust)
  have k: "(case su_AssetCollateralWeight S a of (_, Some _) \<Rightarrow> s\<lparr>ms_baseAssetID := a\<rparr>
      | (cw, None) \<Rightarrow> s\<lparr>ms_baseAssetID := a, ms_collateralWeight := cw\<rparr>) =
    s\<lparr>ms_baseAssetID := a, ms_collateralWeight := (if e = None then c else ms_collateralWeight s)\<rparr>"
    using cw by (cases e) simp_all
  show thesis
    by (rule that [of a "if e = None then c else ms_collateralWeight s"])
      (use assms la k in \<open>auto simp: run_setup_def Let_def split: if_split_asm sum.splits option.splits\<close>)
qed

lemma MR_Run_ok:
  assumes "MR_Run D S r s0 = (s, Inr l)" "ms_openSignal s0 = signalFromBondQty D (ms_bondQty s0)"
  shows "synced D (ml_strat l)" "\<not> ml_done l"
proof -
  have "run_setup D S (s0\<lparr>ms_runID := r, ms_cancelled := False, ms_isRunning := True\<rparr>) = (s, Inr l)"
    using assms(1) by (auto simp: MR_Run_def Let_def split: if_split_asm option.splits sum.splits prod.splits)
  then obtain a cw where l: "ml_strat l = initializeBalances D (su_env S) a
      (s0\<lparr>ms_runID := r, ms_cancelled := False, ms_isRunning := True, ms_baseAssetID := a, ms_collateralWeight := cw\<rparr>)"
    and d: "\<not> ml_done l" by (rule run_setup_ok)
  show "synced D (ml_strat l)" unfolding l by (rule initializeBalances_synced) (simp add: assms(2))
  show "\<not> ml_done l" by (rule d)
qed

lemma MR_New_fields [simp]:
  "ms_openSignal (MR_New D cfg store seq) = SignalHold" "ms_bondQty (MR_New D cfg store seq) = d_zero D"
  "ms_window (MR_New D cfg store seq) = NewRollingWindow D (mc_LookbackWindow cfg)"
  "ms_imbWin (MR_New D cfg store seq) =
     (if mc_ImbalanceWindow cfg > 0 then Some (NewRollingWindow D (mc_ImbalanceWindow cfg)) else None)"
  "mc_ImbalanceWindow (ms_cfg (MR_New D cfg store seq)) = mc_ImbalanceWindow cfg"
  "mc_ImbalanceThreshold (ms_cfg (MR_New D cfg store seq)) = mc_ImbalanceThreshold cfg"
  by (simp_all add: MR_New_def Let_def)

section \<open>Trade flow\<close>

text \<open>The signed quantities of a tape: buys positive, sells negative, other sides skipped.\<close>

definition signed_flow :: "'d decimal_ops \<Rightarrow> 'd TradeEvent list \<Rightarrow> 'd list" where
  "signed_flow D ts = concat (map (\<lambda>t. if te_Side t = ''BUY'' then [te_Quantity t]
     else if te_Side t = ''SELL'' then [d_neg D (te_Quantity t)] else []) ts)"

lemma applyTrades_window:
  assumes "ms_imbWin s = Some w" "Rolling_feed D (signed_flow D ts) w = Inr w'"
  shows "ms_imbWin (fold (applyTrade D) ts s) = Some w' \<and> ms_cfg (fold (applyTrade D) ts s) = ms_cfg s"
  using assms
proof (induction ts arbitrary: s w)
  case Nil
  then show ?case by (simp add: signed_flow_def)
next
  case (Cons t ts)
  show ?case
  proof (cases "te_Side t = ''BUY'' \<or> te_Side t = ''SELL''")
    case False
    then show ?thesis using Cons by (simp add: applyTrade_def signed_flow_def)
  next
    case True
    define v where "v = (if te_Side t = ''BUY'' then te_Quantity t else d_neg D (te_Quantity t))"
    have f: "signed_flow D (t # ts) = v # signed_flow D ts" using True by (auto simp: signed_flow_def v_def)
    obtain w1 where w1: "Rolling_Add D v w = (w1, None)" "Rolling_feed D (signed_flow D ts) w1 = Inr w'"
      using Cons.prems(2) unfolding f by (rule Rolling_feed_Cons_ok)
    have "applyTrade D t s = s\<lparr>ms_imbWin := Some w1\<rparr>"
      using True Cons.prems(1) w1(1) by (auto simp: applyTrade_def v_def)
    then show ?thesis using Cons.IH [of "s\<lparr>ms_imbWin := Some w1\<rparr>" w1] w1(2) by simp
  qed
qed

end
