(* ===== verification/MR_Correct.thy ===== *)
theory MR_Correct
  imports MR_Props
begin

text \<open>
  The correctness theorems of the mean-reversion strategy, each with its witness: signal rule, sizing,
  closing, the imbalance gate, and the safety of the live loop.
\<close>

section \<open>Sample values\<close>

definition mr_cfg :: "rat MRConfig" where
  "mr_cfg = \<lparr>mc_LookbackWindow = 2, mc_Resolution = ''1h'', mc_EntryZScore = 2, mc_ExitZScore = 1 / 2,
     mc_StopLossZScore = 4, mc_MinStdDev = 1 / 2, mc_MaxPositionSize = 1, mc_OrderBookID = ''book'', mc_Tenor = ''10Y'',
     mc_InitialBalance = 100, mc_Leverage = 1, mc_ImbalanceWindow = 2, mc_ImbalanceThreshold = 0\<rparr>"

definition mr_env :: "rat MREnv" where
  "mr_env = \<lparr>me_CreateMarketOrder = (\<lambda>_. (''oid'', None)), me_AssetPosition = (\<lambda>_. ((0, 0), None)),
     me_QuoteAssetID = (''usd'', None), me_GetPortfolioV2 = (None, None), me_SaveDecision = (\<lambda>_. None),
     me_NewV7 = ''u'', me_ParseUUID = (\<lambda>s. (s, None)), me_Now = time_zero, me_String = (\<lambda>_. []),
     me_fredClient = Some ''no key'', me_fredFetch = (\<lambda>_ _ _. ([], None))\<rparr>"

text \<open>A strategy whose window holds the spreads 1 and 3: mean 2, standard deviation 1 (the sample package
  rounds the root of 2 down).\<close>

definition mr_window :: "rat Rolling" where
  "mr_window = \<lparr>rw_size = 2, rw_buf = [1, 3], rw_head = 0, rw_count = 2, rw_mean = 2, rw_m2 = 2, rw_sum = 4\<rparr>"

definition mr_strat :: "rat MRStrategy" where
  "mr_strat = (MR_New rat_ops mr_cfg False 0)\<lparr>ms_window := mr_window, ms_balancesInitialized := True\<rparr>"

definition mr_bar :: "rat \<Rightarrow> rat Bar" where
  "mr_bar y = \<lparr>bar_Time = time_zero, bar_Open = 10, bar_High = 10, bar_Low = 10, bar_Close = 10, bar_Volume = 0,
     bar_OpenYTM = y, bar_HighYTM = y, bar_LowYTM = y, bar_CloseYTM = y, bar_BenchmarkYield = 0\<rparr>"

definition mr_setup :: "rat MRSetup" where
  "mr_setup = \<lparr>su_env = mr_env, su_client = True, su_subscribePrices = None, su_BaseAssetID = (\<lambda>_. (''bond'', None)),
     su_AssetCollateralWeight = (\<lambda>_. (1, None)), su_candleFeed = True, su_candleStore = None,
     su_CandleRange = ((Some time_zero, Some time_zero), None), su_SubscribeBars = (\<lambda>_ _ _. None),
     su_tradeStream = True\<rparr>"

lemma mr_window_sd: "Rolling_StdDev rat_ops mr_window = Inr 1"
  by (simp add: Rolling_StdDev_def Rolling_Variance_def mr_window_def minWindowSize_def rat_ops_def rat_sqrt_def
      numeral_2_eq_2 Let_def)

lemma mr_strat_fields:
  "ms_window mr_strat = mr_window" "ms_balancesInitialized mr_strat" "ms_openSignal mr_strat = SignalHold"
  "ms_cfg mr_strat = mr_cfg" "ms_bondQty mr_strat = 0" "ms_collateralWeight mr_strat = 1" "\<not> ms_paused mr_strat"
  by (simp_all add: mr_strat_def MR_New_def mr_cfg_def rat_ops_def)

lemma mr_bar_stats: "bar_stats rat_ops mr_cfg mr_window (mr_bar y) = Inr (y, 1, y - 2)"
  by (simp add: bar_stats_def bar_z_def mr_window_sd Rolling_Ready_def Rolling_Mean_def)
    (simp add: mr_bar_def mr_window_def mr_cfg_def rat_ops_def Rolling_Mean_def)

section \<open>Signal and size\<close>

text \<open>The decision of a bar scores its spread against the window as it was before the bar: below
  \<open>LookbackWindow\<close> bars or below the minimum deviation the z-score is zero and, for a positive entry
  threshold, the signal is hold; otherwise the bar buys at or above the entry threshold, sells at or
  below its negation, with a size that grows with the excess and is capped. The bar's own spread
  enters the window afterwards.\<close>

theorem update_signal_rule:
  assumes L: "decimal_laws D val rnd" and u: "Update D bar s = (s', Inr d)" and inv: "Rolling_inv (ms_window s)"
    and entry: "0 < val (mc_EntryZScore (ms_cfg s))"
  shows "val (md_Spread d) = rnd (val (bar_CloseYTM bar) - val (bar_BenchmarkYield bar)) \<and>
    Rolling_StdDev D (ms_window s) = Inr (md_RollingStdDev d) \<and>
    val (md_ZScore d) = (if Rolling_Ready (ms_window s) \<and> val (mc_MinStdDev (ms_cfg s)) \<le> val (md_RollingStdDev d)
      then rnd (rnd (val (md_Spread d) - val (Rolling_Mean (ms_window s))) / val (md_RollingStdDev d)) else 0) \<and>
    md_signal d = (if val (mc_EntryZScore (ms_cfg s)) \<le> val (md_ZScore d) then SignalBuy
      else if val (md_ZScore d) \<le> - val (mc_EntryZScore (ms_cfg s)) then SignalSell else SignalHold) \<and>
    (\<not> Rolling_Ready (ms_window s) \<longrightarrow> md_signal d = SignalHold) \<and>
    val (md_positionSize d) = (if md_signal d = SignalHold then 0 else
      min (val (mc_MaxPositionSize (ms_cfg s)))
        (rnd (rnd (\<bar>val (md_ZScore d)\<bar> - val (mc_EntryZScore (ms_cfg s))) / val (mc_EntryZScore (ms_cfg s))))) \<and>
    Rolling_contents (ms_window s') = last_n (rw_size (ms_window s)) (Rolling_contents (ms_window s) @ [md_Spread d])"
  using u
proof (rule Update_ok)
  fix w' assume st: "bar_stats D (ms_cfg s) (ms_window s) bar = Inr (md_Spread d, md_RollingStdDev d, md_ZScore d)"
    and w': "Rolling_Add D (md_Spread d) (ms_window s) = (w', None)"
    and s': "s' = s\<lparr>ms_lastPrice := bar_Close bar, ms_window := w'\<rparr>"
    and sz: "entry_size D (ms_cfg s) (md_signal d) (md_ZScore d) = Inr (md_positionSize d)"
    and sg: "md_signal d = entry_signal D (ms_cfg s) (md_ZScore d)"
  note b = bar_stats_ok [OF st]
  have z: "val (md_ZScore d) = (if Rolling_Ready (ms_window s) \<and> val (mc_MinStdDev (ms_cfg s)) \<le> val (md_RollingStdDev d)
      then rnd (rnd (val (md_Spread d) - val (Rolling_Mean (ms_window s))) / val (md_RollingStdDev d)) else 0)"
    by (rule bar_z_val [OF L b(3)])
  have sig: "md_signal d = (if val (mc_EntryZScore (ms_cfg s)) \<le> val (md_ZScore d) then SignalBuy
      else if val (md_ZScore d) \<le> - val (mc_EntryZScore (ms_cfg s)) then SignalSell else SignalHold)"
    unfolding sg by (rule entry_signal_val [OF L])
  have hold: "\<not> Rolling_Ready (ms_window s) \<longrightarrow> md_signal d = SignalHold" using z sig entry by simp
  show ?thesis
    by (intro conjI z sig hold entry_size_val [OF L sz] b(2) val_sub [OF L b(1)])
      (simp add: s' Rolling_Add_last_n [OF inv w'])
qed

theorem update_signal_rule_witness:
  "\<exists>s' d. Update rat_ops (mr_bar 5) mr_strat = (s', Inr d) \<and> md_signal d = SignalBuy \<and> md_positionSize d = 1 / 2"
proof -
  have u: "\<exists>s' d. Update rat_ops (mr_bar 5) mr_strat = (s', Inr d) \<and> md_ZScore d = 3"
    using mr_bar_stats [of 5] mr_strat_fields(1,4)
    by (simp add: Update_def Let_def Rolling_Add_def mr_window_def Rolling_Add_full_def gstep_def)
      (simp add: entry_size_def entry_signal_def mr_cfg_def rat_ops_def)
  then obtain s' d where d: "Update rat_ops (mr_bar 5) mr_strat = (s', Inr d)" "md_ZScore d = 3" by blast
  have inv: "Rolling_inv (ms_window mr_strat)" by (simp add: mr_strat_fields mr_window_def Rolling_inv_def)
  show ?thesis
    using update_signal_rule [OF rat_ops_laws d(1) inv] d
    by (intro exI [of _ s'] exI [of _ d]) (simp add: mr_strat_fields mr_cfg_def)
qed

text \<open>C5: A capped order quantity is the whole number of bonds the budget buys, where the budget is the
  smaller of the requested share of the effective capital and what the open position leaves of it.
  Without rounding, and for a positive price, the order and the long position together never cost
  more than the effective capital \<open>InitialBalance * collateralWeight * Leverage\<close>.\<close>

theorem capped_quantity_within_capital:
  assumes L: "decimal_laws D val rnd" and q: "cappedOrderQuantity D s sz pos price = Inr (Some q)"
    and price: "0 < val price"
  shows "\<exists>c k. effective_capital D s = Inr c \<and> val q = of_int k \<and> 1 \<le> k \<and>
    k = \<lfloor>rnd (min (rnd (val c * val sz)) (rnd (val c - rnd (max 0 (val pos) * val price))) / val price)\<rfloor> \<and>
    (rnd = id \<longrightarrow> val c = val (mc_InitialBalance (ms_cfg s)) * val (ms_collateralWeight s) * val (mc_Leverage (ms_cfg s)) \<and>
       val q * val price \<le> val c * val sz \<and> val q * val price + max 0 (val pos) * val price \<le> val c)"
  using L q
proof (rule capped_ok)
  fix c assume c: "effective_capital D s = Inr c" and sz: "0 \<le> val sz" and b: "0 < rnd (val c * val sz)"
    and v: "rnd (max 0 (val pos) * val price) < val c" and nz: "val q \<noteq> 0"
    and vq: "val q = of_int \<lfloor>rnd (min (rnd (val c * val sz)) (rnd (val c - rnd (max 0 (val pos) * val price))) / val price)\<rfloor>"
  let ?m = "min (rnd (val c * val sz)) (rnd (val c - rnd (max 0 (val pos) * val price)))"
  let ?k = "\<lfloor>rnd (?m / val price)\<rfloor>"
  have "0 \<le> rnd (?m / val price)"
    using b v price by (intro rnd_nonneg [OF L] divide_nonneg_pos) (simp_all add: rnd_nonneg [OF L])
  then have k: "1 \<le> ?k" using nz vq by (cases "?k = 0") (simp, linarith)
  have ex: "val q * val price \<le> val c * val sz \<and> val q * val price + max 0 (val pos) * val price \<le> val c" if "rnd = id"
  proof -
    have "val q \<le> min (val c * val sz) (val c - max 0 (val pos) * val price) / val price"
      unfolding vq using that by simp
    then have "val q * val price \<le> min (val c * val sz) (val c - max 0 (val pos) * val price)"
      using price by (simp add: pos_le_divide_eq)
    then show ?thesis by auto
  qed
  show ?thesis
    using c vq k ex effective_capital_val [OF L c] by (intro exI [of _ c] exI [of _ ?k]) simp
qed

theorem capped_quantity_within_capital_witness:
  "cappedOrderQuantity rat_ops mr_strat (1 / 2) 3 8 = Inr (Some 6) \<and> 6 * 8 + max 0 3 * 8 \<le> (100 :: rat)"
proof -
  have f: "\<lfloor>25 / 4 :: rat\<rfloor> = 6" by (simp add: floor_eq_iff)
  have q: "cappedOrderQuantity rat_ops mr_strat (1 / 2) 3 8 = Inr (Some 6)"
    using f by (simp add: cappedOrderQuantity_def effective_capital_def mr_strat_fields mr_cfg_def rat_ops_def Let_def)
  show ?thesis
    using capped_quantity_within_capital [OF rat_ops_laws q] q
    by (simp add: effective_capital_def mr_strat_fields mr_cfg_def rat_ops_def)
qed

section \<open>Closing\<close>

lemma close_order_exact:
  assumes L: "decimal_laws D val rnd" and co: "close_order D E a req s = (s', err, eff)" and t: "ms_balancesInitialized s"
  shows "EOrder req (me_CreateMarketOrder E req) \<in> set eff \<and> order_qtys eff = [oreq_Quantity req] \<and>
    (if snd (me_CreateMarketOrder E req) = None \<or> (\<exists>q. currentPosition D E a = Inr q \<and> val q = 0)
     then err = None \<and> val (ms_bondQty s') = 0 \<and> ms_openSignal s' = SignalHold
     else s' = s \<and> err = snd (me_CreateMarketOrder E req))"
proof (cases "snd (me_CreateMarketOrder E req)")
  case (Some e)
  show ?thesis
  proof (cases "\<exists>q. currentPosition D E a = Inr q \<and> d_IsZero D q")
    case True
    then have "s' = set_flat D True s \<and> err = None \<and> eff = [EOrder req (me_CreateMarketOrder E req)]"
      using co t Some by (auto simp: close_order_def Let_def)
    then show ?thesis using True dec_exact(1,9) [OF L] by auto
  next
    case False
    then have "s' = s \<and> err = Some e \<and> eff = [EOrder req (me_CreateMarketOrder E req)]"
      using co Some by (auto simp: close_order_def Let_def split: sum.splits)
    then show ?thesis using False Some dec_exact(9) [OF L] by simp
  qed
next
  case None
  have q: "order_qtys eff = [oreq_Quantity req]" using co by (rule close_order_result)
  have "\<exists>s1 f. eff = EOrder req (me_CreateMarketOrder E req) # f \<and> err = None \<and> s' = set_flat D True s1"
    using co t None by (auto simp: close_order_def Let_def split_beta)
  then show ?thesis using None q dec_exact(1) [OF L] by auto
qed

text \<open>C4: Closing a tracked position, by a strategy whose balances were initialised: a tracked quantity of zero sends nothing and
  clears the signal; otherwise exactly one order goes out, on the opposite side and for the whole position. If the exchange
  accepts it the strategy is flat afterwards; if it refuses, the strategy is flat when the live position is zero and otherwise
  keeps its position and its signal and reports the error.\<close>

theorem close_position_exact:
  assumes L: "decimal_laws D val rnd" and t: "ms_balancesInitialized s"
    and c: "closePosition D E a s = (s', err, eff)"
  shows "if val (ms_bondQty s) = 0 then eff = [] \<and> err = None \<and> ms_openSignal s' = SignalHold
    else \<exists>req resp. EOrder req resp \<in> set eff \<and> order_qtys eff = [oreq_Quantity req] \<and>
      resp = me_CreateMarketOrder E req \<and> val (oreq_Quantity req) = \<bar>val (ms_bondQty s)\<bar> \<and>
      oreq_Side req = (if val (ms_bondQty s) < 0 then SIDE_BUY else SIDE_SELL) \<and> oreq_Book req = mc_OrderBookID (ms_cfg s) \<and>
      (if snd resp = None \<or> (\<exists>q. currentPosition D E a = Inr q \<and> val q = 0)
       then err = None \<and> val (ms_bondQty s') = 0 \<and> ms_openSignal s' = SignalHold
       else s' = s \<and> err = snd resp)"
proof (cases "val (ms_bondQty s) = 0")
  case True
  then show ?thesis using c t dec_exact(9) [OF L] by (auto simp: closePosition_def)
next
  case False
  define req where "req = close_request D E s (ms_bondQty s)"
  have co: "close_order D E a req s = (s', err, eff)"
    using c t False dec_exact(9) [OF L] by (simp add: closePosition_def req_def)
  have r: "val (oreq_Quantity req) = \<bar>val (ms_bondQty s)\<bar>" "oreq_Book req = mc_OrderBookID (ms_cfg s)"
    "oreq_Side req = (if val (ms_bondQty s) < 0 then SIDE_BUY else SIDE_SELL)"
    using dec_exact(4,11) [OF L] by (auto simp: req_def close_request_def market_request_def)
  have e: "EOrder req (me_CreateMarketOrder E req) \<in> set eff" "order_qtys eff = [oreq_Quantity req]"
    and s': "if snd (me_CreateMarketOrder E req) = None \<or> (\<exists>q. currentPosition D E a = Inr q \<and> val q = 0)
       then err = None \<and> val (ms_bondQty s') = 0 \<and> ms_openSignal s' = SignalHold
       else s' = s \<and> err = snd (me_CreateMarketOrder E req)"
    using close_order_exact [OF L co t] by blast+
  have "\<exists>req resp. EOrder req resp \<in> set eff \<and> order_qtys eff = [oreq_Quantity req] \<and>
      resp = me_CreateMarketOrder E req \<and> val (oreq_Quantity req) = \<bar>val (ms_bondQty s)\<bar> \<and>
      oreq_Side req = (if val (ms_bondQty s) < 0 then SIDE_BUY else SIDE_SELL) \<and> oreq_Book req = mc_OrderBookID (ms_cfg s) \<and>
      (if snd resp = None \<or> (\<exists>q. currentPosition D E a = Inr q \<and> val q = 0)
       then err = None \<and> val (ms_bondQty s') = 0 \<and> ms_openSignal s' = SignalHold
       else s' = s \<and> err = snd resp)"
    by (intro exI [of _ req] exI [of _ "me_CreateMarketOrder E req"] conjI e r s' refl)
  then show ?thesis by (simp only: False if_False)
qed

theorem close_position_exact_witness:
  "\<exists>s' eff req. closePosition rat_ops mr_env ''bond'' (mr_strat\<lparr>ms_bondQty := -7, ms_openSignal := SignalSell\<rparr>) = (s', None, eff) \<and>
     EOrder req (''oid'', None) \<in> set eff \<and> oreq_Quantity req = 7 \<and> oreq_Side req = SIDE_BUY \<and> ms_bondQty s' = 0"
proof -
  let ?s = "mr_strat\<lparr>ms_bondQty := -7, ms_openSignal := SignalSell\<rparr>"
  have t: "ms_balancesInitialized ?s" by (simp add: mr_strat_fields)
  obtain s' err eff where c: "closePosition rat_ops mr_env ''bond'' ?s = (s', err, eff)" by (rule prod_cases3)
  show ?thesis
    using close_position_exact [OF rat_ops_laws t c] c by (auto simp: mr_env_def)
qed

section \<open>The imbalance gate\<close>

lemma imbalanceAllows_window:
  assumes L: "decimal_laws D val rnd" and "0 < mc_ImbalanceWindow (ms_cfg s)" "ms_imbWin s = Some w"
  shows "imbalanceAllows D s SignalBuy \<longleftrightarrow>
      (\<not> Rolling_Ready w \<or> - val (mc_ImbalanceThreshold (ms_cfg s)) \<le> val (Rolling_Sum w))"
    "imbalanceAllows D s SignalSell \<longleftrightarrow>
      (\<not> Rolling_Ready w \<or> val (Rolling_Sum w) \<le> val (mc_ImbalanceThreshold (ms_cfg s)))"
  using assms(2,3) by (simp_all add: imbalanceAllows_def dec_cmp [OF L] dec_exact(4) [OF L] Let_def)

text \<open>After any tape of trades the gate compares the exact net signed quantity of the most recent
  \<open>ImbalanceWindow\<close> (at least two) buys and sells with the threshold: a buy is blocked by net selling
  beyond it, a sell by net buying beyond it, and nothing is blocked before that many have been seen.\<close>

theorem imbalance_gate_exact:
  assumes L: "decimal_laws D val rnd" and n: "0 < mc_ImbalanceWindow cfg"
    and f: "Rolling_feed D (signed_flow D ts) (NewRollingWindow D (mc_ImbalanceWindow cfg)) = Inr w"
    and grid: "\<forall>x\<in>set (signed_flow D ts). on_grid val g M x"
    and M: "g \<le> 19" "0 \<le> M" "(max 2 (mc_ImbalanceWindow cfg) + 1) * M < 10 ^ 19"
    and s: "s = fold (applyTrade D) ts (MR_New D cfg store seq)"
    and net: "net = val_sum val (last_n (nat (max 2 (mc_ImbalanceWindow cfg))) (signed_flow D ts))"
  shows "(imbalanceAllows D s SignalBuy \<longleftrightarrow>
      length (signed_flow D ts) < nat (max 2 (mc_ImbalanceWindow cfg)) \<or> - val (mc_ImbalanceThreshold cfg) \<le> net) \<and>
    (imbalanceAllows D s SignalSell \<longleftrightarrow>
      length (signed_flow D ts) < nat (max 2 (mc_ImbalanceWindow cfg)) \<or> net \<le> val (mc_ImbalanceThreshold cfg))"
proof -
  let ?w0 = "NewRollingWindow D (mc_ImbalanceWindow cfg)" and ?N = "nat (max 2 (mc_ImbalanceWindow cfg))"
  have pos: "0 \<le> max 2 (mc_ImbalanceWindow cfg)" by simp
  have w: "ms_imbWin s = Some w" "ms_cfg s = ms_cfg (MR_New D cfg store seq)"
    using applyTrades_window [OF _ f, of "MR_New D cfg store seq"] n s by simp_all
  have c: "Rolling_contents w = last_n ?N (signed_flow D ts)" and i: "Rolling_inv w" "rw_size w = ?N"
    using Rolling_feed_contents [OF NewRollingWindow_inv f] Rolling_feed_inv [OF NewRollingWindow_inv f]
    by (simp_all add: NewRollingWindow_contents NewRollingWindow_fields)
  have r: "Rolling_Ready w \<longleftrightarrow> \<not> length (signed_flow D ts) < ?N"
    using length_Rolling_contents [OF i(1)] c i(2) by (auto simp: Rolling_Ready_def length_last_n)
  have "val (rw_sum w) = val_sum val (Rolling_contents w)"
    by (rule Rolling_feed_sum [OF L _ M(1,2) NewRollingWindow_inv _ _ f])
      (use grid M(3) dec_exact(1) [OF L] pos in \<open>simp_all add: NewRollingWindow_fields NewRollingWindow_contents\<close>)
  then have "val (Rolling_Sum w) = net" by (simp add: Rolling_Sum_def c net)
  then show ?thesis
    using imbalanceAllows_window [OF L _ w(1)] w(2) n r by simp
qed

theorem imbalance_gate_exact_witness:
  "\<exists>s. s = fold (applyTrade rat_ops) [\<lparr>te_Quantity = 5, te_Price = 1, te_Side = ''BUY''\<rparr>,
       \<lparr>te_Quantity = 1, te_Price = 1, te_Side = ''BUY''\<rparr>, \<lparr>te_Quantity = 2, te_Price = 1, te_Side = ''SELL''\<rparr>]
       (MR_New rat_ops mr_cfg False 0) \<and> \<not> imbalanceAllows rat_ops s SignalBuy \<and> imbalanceAllows rat_ops s SignalSell"
proof -
  let ?ts = "[\<lparr>te_Quantity = 5, te_Price = 1, te_Side = ''BUY''\<rparr>,
       \<lparr>te_Quantity = 1, te_Price = 1, te_Side = ''BUY''\<rparr>, \<lparr>te_Quantity = 2, te_Price = 1, te_Side = ''SELL''\<rparr>] :: rat TradeEvent list"
  have sf: "signed_flow rat_ops ?ts = [5, 1, -2]" by (simp add: signed_flow_def rat_ops_def)
  have "\<exists>w. Rolling_feed rat_ops [5, 1, -2] (NewRollingWindow rat_ops 2) = Inr w"
    by (simp add: Rolling_eval numeral_2_eq_2)
  then obtain w where f: "Rolling_feed rat_ops (signed_flow rat_ops ?ts) (NewRollingWindow rat_ops (mc_ImbalanceWindow mr_cfg)) = Inr w"
    by (auto simp: sf mr_cfg_def)
  have g: "\<forall>x\<in>set (signed_flow rat_ops ?ts). on_grid id 0 5 x"
    unfolding sf on_grid_def by (auto intro: exI [of _ 5] exI [of _ 1] exI [of _ "-2"])
  have n: "0 < mc_ImbalanceWindow mr_cfg" "(max 2 (mc_ImbalanceWindow mr_cfg) + 1) * 5 < 10 ^ 19" by (simp_all add: mr_cfg_def)
  show ?thesis
    using imbalance_gate_exact [OF rat_ops_laws n(1) f g _ _ n(2) refl refl, of False 0]
    by (simp add: sf mr_cfg_def last_n_def)
qed

section \<open>The live loop\<close>

lemma signal_val:
  assumes "decimal_laws D val rnd"
  shows "signalFromBondQty D q = (if 0 < val q then SignalBuy else if val q < 0 then SignalSell else SignalHold)"
  by (simp add: signalFromBondQty_def dec_exact [OF assms])

text \<open>Over every run and every sequence of events, the open signal is the sign of the tracked bond
  position as soon as balances are tracked, and the orders sent number at most one per bar and one per
  price entry.\<close>

theorem open_signal_tracks_position:
  assumes L: "decimal_laws D val rnd" and run: "MR_Run D S runID (MR_New D cfg store seq) = (s, Inr l)"
    and evs: "run_events (mr_step D) evs l = (l', fs)"
  shows "(ms_balancesInitialized (ml_strat l') \<longrightarrow> ms_openSignal (ml_strat l') =
      (if 0 < val (ms_bondQty (ml_strat l')) then SignalBuy
       else if val (ms_bondQty (ml_strat l')) < 0 then SignalSell else SignalHold)) \<and>
    length (order_qtys fs) \<le> sum_list (map mr_weight evs)"
proof -
  have "synced D (ml_strat l)" by (rule MR_Run_ok(1) [OF run]) (simp add: signal_of_zero [OF L])
  then have "synced D (ml_strat l')" using mr.run_inv [of D l evs] evs by simp
  then show ?thesis
    using mr.run_orders [of D evs l] evs signal_of_zero [OF L] by (simp add: synced_def signal_val [OF L])
qed

lemma mr_setup_runs:
  "\<exists>s l. MR_Run rat_ops mr_setup ''r'' (MR_New rat_ops mr_cfg False 0) = (s, Inr l) \<and> ms_balancesInitialized (ml_strat l)"
proof -
  have m: "ParseBenchmarkTenor ''10Y'' = Inr 120" by code_simp
  have n: "''book'' \<noteq> uuid_Nil" by (simp add: uuid_Nil_def)
  show ?thesis
    by (simp add: MR_Run_def run_setup_def Let_def LookupAssetID_def requireCandleCoverage_def mr_setup_def
        MR_New_def mr_cfg_def m n initializeBalances_def mr_env_def rat_ops_def)
qed

theorem open_signal_tracks_position_witness:
  "\<exists>s l. MR_Run rat_ops mr_setup ''r'' (MR_New rat_ops mr_cfg False 0) = (s, Inr l) \<and>
     ms_openSignal (ml_strat (fst (run_events (mr_step rat_ops) [MRMsg Pause, MRTick] l))) =
       (if 0 < ms_bondQty (ml_strat (fst (run_events (mr_step rat_ops) [MRMsg Pause, MRTick] l))) then SignalBuy
        else if ms_bondQty (ml_strat (fst (run_events (mr_step rat_ops) [MRMsg Pause, MRTick] l))) < 0 then SignalSell
        else SignalHold)"
proof -
  obtain s l where r: "MR_Run rat_ops mr_setup ''r'' (MR_New rat_ops mr_cfg False 0) = (s, Inr l)"
    and b: "ms_balancesInitialized (ml_strat l)" using mr_setup_runs by blast
  have b': "ms_balancesInitialized (ml_strat (fst (run_events (mr_step rat_ops) [MRMsg Pause, MRTick] l)))"
    using b by (simp add: mr_step_def mr_message_def)
  show ?thesis
    using open_signal_tracks_position [OF rat_ops_laws r surjective_pairing, of "[MRMsg Pause, MRTick]"] r b'
    by (intro exI [of _ s] exI [of _ l]) (simp only: simp_thms id_apply)
qed

text \<open>C6: A paused strategy sends nothing: whatever bars, prices, trades and messages arrive after a pause,
  no order goes out before a resume.\<close>

theorem pause_silences_orders:
  assumes evs: "run_events (mr_step D) evs l = (l1, f1)" and "\<forall>e\<in>set later. \<not> mr_wakes e"
    and "run_events (mr_step D) (evs @ MRMsg Pause # later) l = (l2, f2)"
  shows "order_qtys f2 = order_qtys f1"
proof -
  have q: "mr_quiet (fst (mr_step D (MRMsg Pause) l1))" "snd (mr_step D (MRMsg Pause) l1) = []"
    by (simp_all add: mr_step_def mr_quiet_def mr_message_def)
  have "order_qtys (snd (run_events (mr_step D) (MRMsg Pause # later) l1)) = []"
    using mr.run_quiet [OF q(1) assms(2)] q(2) by (simp add: split_beta)
  then show ?thesis using evs assms(3) by (auto simp: run_events_append split_beta)
qed

theorem pause_silences_orders_witness:
  "order_qtys (snd (run_events (mr_step rat_ops) ([] @ MRMsg Pause # [MRBar mr_env (mr_bar 5), MRTick])
     \<lparr>ml_strat = mr_strat, ml_assetID = ''bond'', ml_trades = False, ml_done = False\<rparr>)) = []"
proof -
  let ?l = "\<lparr>ml_strat = mr_strat, ml_assetID = ''bond'', ml_trades = False, ml_done = False\<rparr>"
  have w: "\<forall>e\<in>set [MRBar mr_env (mr_bar 5), MRTick]. \<not> mr_wakes e" by (simp add: mr_wakes_def)
  have e: "run_events (mr_step rat_ops) [] ?l = (?l, [])" by simp
  show ?thesis
    using pause_silences_orders [OF e w] by (metis order_qtys_simps(1) prod.collapse)
qed

section \<open>What a bar may do\<close>

lemma sizing_frame:
  assumes "ms_cfg s' = ms_cfg s" "ms_collateralWeight s' = ms_collateralWeight s" "ms_imbWin s' = ms_imbWin s"
  shows "cappedOrderQuantity D s' sz pos price = cappedOrderQuantity D s sz pos price"
    "imbalanceAllows D s' sig = imbalanceAllows D s sig"
  unfolding cappedOrderQuantity_def effective_capital_def imbalanceAllows_def assms by (rule refl)+

text \<open>The decision a bar's handler works with, and the state it works on.\<close>

lemma handle_bar_cases:
  assumes "handle_bar D E a bar s = (s', fs)" "fs \<noteq> []"
  obtains y s1 s2 d where
    "benchmark_at D E (time_Add (bar_Time bar) (ResolutionDuration (mc_Resolution (ms_cfg s)))) s = (y, s1)"
    "Update D (bar\<lparr>bar_BenchmarkYield := y\<rparr>) s1 = (s2, Inr d)" "\<not> ms_paused s" "ms_window s1 = ms_window s"
    "ms_cfg s1 = ms_cfg s" "ms_cfg s2 = ms_cfg s" "ms_collateralWeight s2 = ms_collateralWeight s" "ms_imbWin s2 = ms_imbWin s"
    "ms_openSignal s2 = ms_openSignal s"
    "ms_openSignal s \<noteq> SignalHold \<and> Rolling_Ready (ms_window s) \<or>
     ms_openSignal s = SignalHold \<and> imbalanceAllows D s2 (md_signal d) \<and>
       (\<exists>r s3. executeDecision D E d a s2 = (s3, r, fs))"
proof -
  obtain y s1 where b: "benchmark_at D E (time_Add (bar_Time bar) (ResolutionDuration (mc_Resolution (ms_cfg s)))) s = (y, s1)"
    by (rule prod.exhaust)
  obtain s2 r where u: "Update D (bar\<lparr>bar_BenchmarkYield := y\<rparr>) s1 = (s2, r)" by (rule prod.exhaust)
  from b obtain obs errs where s1: "s1 = s\<lparr>ms_benchmarkObservations := obs, ms_errs := errs\<rparr>" by (rule benchmark_at_frame)
  from u obtain w where s2: "s2 = s1\<lparr>ms_lastPrice := bar_Close (bar\<lparr>bar_BenchmarkYield := y\<rparr>), ms_window := w\<rparr>" by (rule Update_frame)
  have fr: "ms_paused s2 = ms_paused s" "ms_window s1 = ms_window s" "ms_cfg s1 = ms_cfg s" "ms_cfg s2 = ms_cfg s"
    "ms_collateralWeight s2 = ms_collateralWeight s" "ms_imbWin s2 = ms_imbWin s" "ms_openSignal s2 = ms_openSignal s"
    by (simp_all add: s1 s2)
  from assms b u obtain d where r: "r = Inr d" by (cases r) (auto simp: handle_bar_def)
  have p: "\<not> ms_paused s2" using assms b u r by (auto simp: handle_bar_def Let_def)
  obtain s3 rr eff where x: "executeDecision D E d a s2 = (s3, rr, eff)" by (rule prod_cases3)
  have "ms_openSignal s \<noteq> SignalHold \<and> Rolling_Ready (ms_window s) \<or>
     ms_openSignal s = SignalHold \<and> imbalanceAllows D s2 (md_signal d) \<and> fs = eff"
    using assms b u r p fr x
    by (cases rr; cases "ms_openSignal s = SignalHold"; cases "Rolling_Ready (ms_window s)";
        cases "imbalanceAllows D s2 (md_signal d)"; cases "md_signal d = SignalHold")
      (simp_all add: handle_bar_def Let_def)
  then show thesis using b u r p fr x by (intro that [of y s1 s2 d]) auto
qed

lemma handle_bar_entry:
  fixes D :: "'d decimal_ops"
  assumes b: "handle_bar D E a bar s = (s', fs)" and o: "EOrder req resp \<in> set fs" and flat: "ms_openSignal s = SignalHold"
  obtains y s1 and d :: "'d MRDecision" and pos where
    "benchmark_at D E (time_Add (bar_Time bar) (ResolutionDuration (mc_Resolution (ms_cfg s)))) s = (y, s1)"
    "bar_stats D (ms_cfg s) (ms_window s) (bar\<lparr>bar_BenchmarkYield := y\<rparr>) = Inr (md_Spread d, md_RollingStdDev d, md_ZScore d)"
    "md_signal d = entry_signal D (ms_cfg s) (md_ZScore d)" "md_signal d \<noteq> SignalHold" "\<not> ms_paused s"
    "imbalanceAllows D s (md_signal d)" "oreq_Side req = (if md_signal d = SignalSell then SIDE_SELL else SIDE_BUY)"
    "cappedOrderQuantity D s (md_positionSize d) pos (bar_Close bar) = Inr (Some (oreq_Quantity req))"
proof -
  have ne: "fs \<noteq> []" using o by auto
  obtain y s1 s2 d r s3 where y: "benchmark_at D E (time_Add (bar_Time bar) (ResolutionDuration (mc_Resolution (ms_cfg s)))) s = (y, s1)"
    and u: "Update D (bar\<lparr>bar_BenchmarkYield := y\<rparr>) s1 = (s2, Inr d)" and p: "\<not> ms_paused s"
    and fr: "ms_window s1 = ms_window s" "ms_cfg s1 = ms_cfg s"
    and fr2: "ms_cfg s2 = ms_cfg s" "ms_collateralWeight s2 = ms_collateralWeight s" "ms_imbWin s2 = ms_imbWin s"
    and g: "imbalanceAllows D s2 (md_signal d)" and x: "executeDecision D E d a s2 = (s3, r, fs)"
    using handle_bar_cases [OF b ne] flat by metis
  obtain st: "bar_stats D (ms_cfg s) (ms_window s) (bar\<lparr>bar_BenchmarkYield := y\<rparr>) =
        Inr (md_Spread d, md_RollingStdDev d, md_ZScore d)"
    and sg: "md_signal d = entry_signal D (ms_cfg s) (md_ZScore d)" and pr: "md_price d = bar_Close bar"
    using u unfolding fr [symmetric] by (rule Update_ok) simp
  obtain q il where hold: "md_signal d \<noteq> SignalHold" and oq: "open_quantity D E d a s2 = Inr (Some q)"
    and oo: "open_order D E d a (market_request E s2 (if md_signal d = SignalSell then SIDE_SELL else SIDE_BUY) q il) s2 = (s3, r, fs)"
    using x ne by (cases rule: executeDecision_cases) auto
  have req: "req = market_request E s2 (if md_signal d = SignalSell then SIDE_SELL else SIDE_BUY) q il"
    using oo by (rule open_order_result) (use o in blast)
  obtain pos where cap: "cappedOrderQuantity D s2 (md_positionSize d) pos (bar_Close bar) = Inr (Some q)"
    using oq pr by (auto simp: open_quantity_def rbind_eq_Inr split: if_split_asm)
  show thesis
    by (rule that [of y s1 d pos])
      (use y st sg hold p g cap sizing_frame [OF fr2, of D] in \<open>simp_all add: req market_request_def\<close>)
qed

text \<open>C3: A flat strategy opens a position on a bar only when it is not paused, its window is full and not
  flat, the z-score of the bar's spread (against the benchmark of the bar's close) reaches the entry
  threshold in magnitude, and the imbalance gate allows that direction; the order is on the side of
  the z-score and its quantity is a capped order quantity at the bar's close.\<close>

theorem entries_only_on_signal:
  fixes D :: "'d decimal_ops"
  assumes L: "decimal_laws D val rnd" and b: "handle_bar D E a bar s = (s', fs)" and o: "EOrder req resp \<in> set fs"
    and flat: "ms_openSignal s = SignalHold" and entry: "0 < val (mc_EntryZScore (ms_cfg s))"
  shows "\<not> ms_paused s \<and> Rolling_Ready (ms_window s) \<and>
    (\<exists>y sd z sz pos.
       y = fst (benchmark_at D E (time_Add (bar_Time bar) (ResolutionDuration (mc_Resolution (ms_cfg s)))) s) \<and>
       Rolling_StdDev D (ms_window s) = Inr sd \<and> val (mc_MinStdDev (ms_cfg s)) \<le> val sd \<and>
       val z = rnd (rnd (rnd (val (bar_CloseYTM bar) - val y) - val (Rolling_Mean (ms_window s))) / val sd) \<and>
       val (mc_EntryZScore (ms_cfg s)) \<le> \<bar>val z\<bar> \<and>
       oreq_Side req = (if 0 < val z then SIDE_BUY else SIDE_SELL) \<and>
       imbalanceAllows D s (if 0 < val z then SignalBuy else SignalSell) \<and>
       cappedOrderQuantity D s sz pos (bar_Close bar) = Inr (Some (oreq_Quantity req)))"
proof -
  obtain y s1 and d :: "'d MRDecision" and pos where y: "benchmark_at D E (time_Add (bar_Time bar) (ResolutionDuration (mc_Resolution (ms_cfg s)))) s = (y, s1)"
    and st: "bar_stats D (ms_cfg s) (ms_window s) (bar\<lparr>bar_BenchmarkYield := y\<rparr>) = Inr (md_Spread d, md_RollingStdDev d, md_ZScore d)"
    and sg: "md_signal d = entry_signal D (ms_cfg s) (md_ZScore d)" and hold: "md_signal d \<noteq> SignalHold" and p: "\<not> ms_paused s"
    and g: "imbalanceAllows D s (md_signal d)" and side: "oreq_Side req = (if md_signal d = SignalSell then SIDE_SELL else SIDE_BUY)"
    and cp: "cappedOrderQuantity D s (md_positionSize d) pos (bar_Close bar) = Inr (Some (oreq_Quantity req))"
    using b o flat by (rule handle_bar_entry)
  note bs = bar_stats_ok [OF st]
  have z: "val (md_ZScore d) = (if Rolling_Ready (ms_window s) \<and> val (mc_MinStdDev (ms_cfg s)) \<le> val (md_RollingStdDev d)
      then rnd (rnd (val (md_Spread d) - val (Rolling_Mean (ms_window s))) / val (md_RollingStdDev d)) else 0)"
    by (rule bar_z_val [OF L bs(3)])
  have sp: "val (md_Spread d) = rnd (val (bar_CloseYTM bar) - val y)" using val_sub [OF L bs(1)] by simp
  have big: "val (mc_EntryZScore (ms_cfg s)) \<le> \<bar>val (md_ZScore d)\<bar>"
    and sig: "md_signal d = (if 0 < val (md_ZScore d) then SignalBuy else SignalSell)"
    using sg hold entry by (auto simp: entry_signal_val [OF L] split: if_split_asm)
  have z0: "val (md_ZScore d) \<noteq> 0" using big entry by auto
  have rdy: "Rolling_Ready (ms_window s)" "val (mc_MinStdDev (ms_cfg s)) \<le> val (md_RollingStdDev d)"
    using z z0 by (auto split: if_split_asm)
  have zv: "val (md_ZScore d) = rnd (rnd (rnd (val (bar_CloseYTM bar) - val y) - val (Rolling_Mean (ms_window s))) / val (md_RollingStdDev d))"
    using z rdy sp by simp
  have yv: "y = fst (benchmark_at D E (time_Add (bar_Time bar) (ResolutionDuration (mc_Resolution (ms_cfg s)))) s)"
    by (simp add: y)
  have sd: "oreq_Side req = (if 0 < val (md_ZScore d) then SIDE_BUY else SIDE_SELL)" using side sig by simp
  have im: "imbalanceAllows D s (if 0 < val (md_ZScore d) then SignalBuy else SignalSell)" using g unfolding sig .
  show ?thesis using p rdy(1) yv bs(2) rdy(2) zv big sd im cp by blast
qed

lemma mr_benchmark: "benchmark_at rat_ops mr_env ts mr_strat = (0, mr_strat\<lparr>ms_errs := [''no key'']\<rparr>)"
proof -
  have m: "ParseBenchmarkTenor ''10Y'' = Inr 120" by code_simp
  show ?thesis
    by (simp add: benchmark_at_def getBenchmarkYield_def cachedBenchmarkYield_def Let_def mr_strat_def MR_New_def mr_cfg_def
        mr_env_def m rat_ops_def)
qed

lemma mr_entry_order:
  "\<exists>s' req. handle_bar rat_ops mr_env ''bond'' (mr_bar 5) mr_strat = (s', [EOrder req (''oid'', None)])"
proof -
  have b: "(mr_bar 5)\<lparr>bar_BenchmarkYield := 0\<rparr> = mr_bar 5" by (simp add: mr_bar_def)
  have i: "\<lfloor>5 :: rat\<rfloor> = 5" by simp
  show ?thesis
    using mr_bar_stats [of 5] mr_strat_fields
    by (simp add: handle_bar_def mr_benchmark b Update_def Let_def Rolling_Add_def mr_window_def Rolling_Add_full_def)
      (simp add: entry_size_def entry_signal_def mr_cfg_def rat_ops_def gstep_def Let_def imbalanceAllows_def
        Rolling_Ready_def mr_bar_def mr_strat_def MR_New_def executeDecision_def open_quantity_def cappedOrderQuantity_def effective_capital_def
        open_order_def mr_env_def recordDecision_def NewRollingWindow_def minWindowSize_def)
qed

theorem entries_only_on_signal_witness:
  "\<exists>s' req. handle_bar rat_ops mr_env ''bond'' (mr_bar 5) mr_strat = (s', [EOrder req (''oid'', None)]) \<and>
     (\<exists>z sz pos. z = (5 - 0 - 2 :: rat) / 1 \<and> oreq_Side req = SIDE_BUY \<and>
       cappedOrderQuantity rat_ops mr_strat sz pos 10 = Inr (Some (oreq_Quantity req)))"
proof -
  obtain s' req where h: "handle_bar rat_ops mr_env ''bond'' (mr_bar 5) mr_strat = (s', [EOrder req (''oid'', None)])"
    using mr_entry_order by blast
  have f: "ms_openSignal mr_strat = SignalHold" "0 < id (mc_EntryZScore (ms_cfg mr_strat))"
    by (simp_all add: mr_strat_fields mr_cfg_def)
  have m: "Rolling_Mean (ms_window mr_strat) = 2" "Rolling_StdDev rat_ops (ms_window mr_strat) = Inr 1"
    "bar_CloseYTM (mr_bar 5) = 5" "bar_Close (mr_bar 5) = 10"
    by (simp_all add: mr_strat_fields mr_window_sd) (simp_all add: mr_window_def Rolling_Mean_def mr_bar_def)
  show ?thesis
    using entries_only_on_signal [OF rat_ops_laws h _ f(1) f(2)] h m by (auto simp: mr_benchmark)
qed

text \<open>In a flat market an open position is always closed by the next bar, whatever the bar's spread: a
  deviation below \<open>MinStdDev\<close> makes the bar's z-score zero, which every non-negative exit threshold
  reads as a completed reversion. The tick path scores the same market as unknown and does nothing.\<close>

theorem flat_market_forces_exit:
  assumes L: "decimal_laws D val rnd" and u: "Update D bar s = (s', Inr d)"
    and sd: "Rolling_StdDev D (ms_window s) = Inr sd" "val sd < val (mc_MinStdDev (ms_cfg s))"
    and ex: "0 \<le> val (mc_ExitZScore (ms_cfg s))" and op: "sig \<noteq> SignalHold"
  shows "ShouldExit D sig (md_ZScore d) s' = (s', True, ''take_profit'') \<and> intrabarZ D s ytm bench = None"
proof -
  have cfg: "ms_cfg s' = ms_cfg s" using u by (rule Update_frame) simp
  have "bar_stats D (ms_cfg s) (ms_window s) bar = Inr (md_Spread d, md_RollingStdDev d, md_ZScore d)"
    using u by (rule Update_ok)
  note bs = bar_stats_ok [OF this]
  have z: "val (md_ZScore d) = 0" using bar_z_val [OF L bs(3)] bs(2) sd by simp
  have "takes_profit D (ms_cfg s') sig (md_ZScore d)"
    using z ex op cfg by (cases sig) (simp_all add: takes_profit_def dec_cmp [OF L] dec_exact(4) [OF L])
  moreover have "intrabarZ D s ytm bench = None"
    using sd dec_cmp(1) [OF L] by (auto simp: intrabarZ_def zAgainstWindow_def split: prod.split option.split)
  ultimately show ?thesis by (simp add: ShouldExit_def)
qed

theorem flat_market_forces_exit_witness:
  "\<exists>s' d. Update rat_ops (mr_bar 9) (mr_strat\<lparr>ms_cfg := mr_cfg\<lparr>mc_MinStdDev := 2\<rparr>\<rparr>) = (s', Inr d) \<and>
     ShouldExit rat_ops SignalBuy (md_ZScore d) s' = (s', True, ''take_profit'')"
proof -
  let ?c = "mr_cfg\<lparr>mc_MinStdDev := 2\<rparr>"
  let ?s = "mr_strat\<lparr>ms_cfg := ?c\<rparr>"
  have st: "bar_stats rat_ops ?c mr_window (mr_bar 9) = Inr (9, 1, 0)"
    by (simp add: bar_stats_def bar_z_def mr_window_sd) (simp add: mr_bar_def mr_cfg_def rat_ops_def)
  have "\<exists>s' d. Update rat_ops (mr_bar 9) ?s = (s', Inr d)"
    using st mr_strat_fields(1)
    by (simp add: Update_def Let_def Rolling_Add_def mr_window_def Rolling_Add_full_def gstep_def)
      (simp add: entry_size_def entry_signal_def mr_cfg_def rat_ops_def)
  then obtain s' d where u: "Update rat_ops (mr_bar 9) ?s = (s', Inr d)" by blast
  have sd: "Rolling_StdDev rat_ops (ms_window ?s) = Inr 1" by (simp add: mr_strat_fields mr_window_sd)
  show ?thesis
    using flat_market_forces_exit [OF rat_ops_laws u sd, of SignalBuy] u by (auto simp: mr_cfg_def)
qed

text \<open>Starting a strategy that is already running is refused, but only after its run id was replaced:
  the decisions of the run in progress are recorded under the refused id.\<close>

lemma rerun_rebinds_run_id:
  assumes "ms_isRunning s"
  shows "MR_Run D S r s = (s\<lparr>ms_runID := r\<rparr>, Inl ''strategy is already running'')"
  using assms by (simp add: MR_Run_def Let_def)

end
