(* ===== verification/MR_Backtest.thy ===== *)
theory MR_Backtest
  imports MR_Props Stats_Model
begin

text \<open>
  The mean-reversion backtest: \<open>src/strategy/meanreversion/backtest.go\<close>, the record types of
  \<open>types.go\<close>, and the loading of its inputs (\<open>Backtest\<close> in \<open>strategy.go\<close>, \<open>getBars\<close>,
  \<open>checkCandleCoverage\<close>, \<open>PreflightBacktest\<close> and \<open>loadTicks\<close> in \<open>historical_data.go\<close>).

  \<^item> The variables of \<open>Run\<close> are the record \<open>BTState\<close>. The two cursors into the trade and tick slices are
    the remaining suffixes; \<open>openTrade\<close>, a pointer nothing writes through, is the record it points to.
  \<^item> Each phase of the bar loop is a function on the state; an error ends the run, as the code returns it.
  \<^item> The context is a predicate on the bar index: whether it is cancelled when that bar is about to start.
  \<^item> Writing the result rows (\<open>streamTrades\<close>) only copies the two lists of the result to a store and is left
    out.
\<close>

section \<open>Records\<close>

record 'd TradeRecord =
  tr_Time :: gtime
  tr_BondID :: string
  tr_Signal :: Signal
  tr_Spread :: 'd
  tr_PositionSize :: 'd
  tr_ZScore :: 'd
  tr_Price :: 'd
  tr_Quantity :: 'd
  tr_EntryBalance :: 'd

record 'd ClosedTrade =
  ct_BondID :: string
  ct_OpenTime :: gtime
  ct_CloseTime :: gtime
  ct_Signal :: Signal
  ct_ExitSignal :: Signal
  ct_EntrySpread :: 'd
  ct_ExitSpread :: 'd
  ct_EntryZScore :: 'd
  ct_ExitZScore :: 'd
  ct_PositionSize :: 'd
  ct_PnL :: 'd
  ct_ExitReason :: string
  ct_EntryPrice :: 'd
  ct_ExitPrice :: 'd
  ct_Quantity :: 'd
  ct_EntryBalance :: 'd

record 'd BacktestResult =
  br_ClosedTrades :: "'d ClosedTrade list"
  br_TradeRecords :: "'d TradeRecord list"
  br_Summary :: "'d Summary"

record 'd TapeTrade =
  tt_Time :: gtime
  tt_Price :: 'd
  tt_Quantity :: 'd
  tt_Side :: string

record 'd Backtester =
  bt_ticks :: "'d AssetPrice list"
  bt_TradeFrom :: gtime
  bt_TradeTo :: gtime

record 'd BTState =
  bs_strat :: "'d MRStrategy"
  bs_closed :: "'d ClosedTrade list"
  bs_records :: "'d TradeRecord list"
  bs_open :: "'d TradeRecord option"
  bs_last :: "'d MRDecision"
  bs_balance :: 'd
  bs_trades :: "'d TapeTrade list"
  bs_ticks :: "'d AssetPrice list"
  bs_prevTicks :: bool

section \<open>Helpers\<close>

fun tickWindow :: "'d AssetPrice list \<Rightarrow> gtime \<Rightarrow> gtime \<Rightarrow> 'd AssetPrice list \<times> 'd AssetPrice list" where
  "tickWindow [] since till = ([], [])"
| "tickWindow (t # ts) since till =
     (if \<not> time_After (ap_Time t) till
      then (case tickWindow ts since till of (rest, out) \<Rightarrow> (rest, if time_After (ap_Time t) since then t # out else out))
      else (t # ts, []))"

fun ingestTradesUpTo :: "'d decimal_ops \<Rightarrow> 'd TapeTrade list \<Rightarrow> gtime \<Rightarrow> 'd MRStrategy \<Rightarrow> 'd TapeTrade list \<times> 'd MRStrategy" where
  "ingestTradesUpTo D [] ts s = ([], s)"
| "ingestTradesUpTo D (t # rest) ts s =
     (if \<not> time_After (tt_Time t) ts
      then ingestTradesUpTo D rest ts
             (applyTrade D \<lparr>te_Quantity = tt_Quantity t, te_Price = tt_Price t, te_Side = tt_Side t\<rparr> s)
      else (t # rest, s))"

definition adverseExtreme :: "'d decimal_ops \<Rightarrow> Signal \<Rightarrow> 'd Bar \<Rightarrow> 'd option" where
  "adverseExtreme D openSignal bar =
     (case openSignal of
        SignalBuy \<Rightarrow> if d_IsZero D (bar_HighYTM bar) then None else Some (bar_HighYTM bar)
      | SignalSell \<Rightarrow> if d_IsZero D (bar_LowYTM bar) then None else Some (bar_LowYTM bar)
      | SignalHold \<Rightarrow> None)"

definition computePnL :: "'d decimal_ops \<Rightarrow> 'd ClosedTrade \<Rightarrow> 'd res" where
  "computePnL D ct =
     rbind (tryv (d_mul D (ct_EntryPrice ct) (ct_Quantity ct))) (\<lambda>costBasis.
     rbind (tryv (d_mul D (ct_ExitPrice ct) (ct_Quantity ct))) (\<lambda>proceeds.
     case ct_Signal ct of
       SignalBuy \<Rightarrow> tryv (d_sub D proceeds costBasis)
     | SignalSell \<Rightarrow> tryv (d_sub D costBasis proceeds)
     | SignalHold \<Rightarrow> Inr (d_zero D)))"

text \<open>The cash after closing, the exit record and the closed trade: the code of the three ways to close
  (bar, tick, end of history).\<close>

definition exit_cash :: "'d decimal_ops \<Rightarrow> Signal \<Rightarrow> 'd \<Rightarrow> 'd \<Rightarrow> 'd \<Rightarrow> 'd res" where
  "exit_cash D sig price qty bal =
     (case sig of
        SignalBuy \<Rightarrow> rbind (tryv (d_mul D price qty)) (\<lambda>proceeds. tryv (d_add D bal proceeds))
      | SignalSell \<Rightarrow> rbind (tryv (d_mul D price qty)) (\<lambda>cost. tryv (d_sub D bal cost))
      | SignalHold \<Rightarrow> Inr bal)"

definition exit_record :: "'d decimal_ops \<Rightarrow> 'd TradeRecord \<Rightarrow> gtime \<Rightarrow> 'd \<Rightarrow> 'd \<Rightarrow> 'd \<Rightarrow> 'd TradeRecord" where
  "exit_record D openTrade time spread z price =
     \<lparr>tr_Time = time, tr_BondID = tr_BondID openTrade, tr_Signal = tr_Signal openTrade, tr_Spread = spread,
      tr_PositionSize = tr_PositionSize openTrade, tr_ZScore = z, tr_Price = price, tr_Quantity = tr_Quantity openTrade,
      tr_EntryBalance = d_zero D\<rparr>"

definition closed_trade ::
  "'d decimal_ops \<Rightarrow> 'd TradeRecord \<Rightarrow> gtime \<Rightarrow> Signal \<Rightarrow> 'd \<Rightarrow> 'd \<Rightarrow> string \<Rightarrow> 'd \<Rightarrow> 'd ClosedTrade res" where
  "closed_trade D openTrade time exitSignal spread z reason price =
     (let ct = \<lparr>ct_BondID = tr_BondID openTrade, ct_OpenTime = tr_Time openTrade, ct_CloseTime = time, ct_Signal = tr_Signal openTrade,
        ct_ExitSignal = exitSignal, ct_EntrySpread = tr_Spread openTrade, ct_ExitSpread = spread,
        ct_EntryZScore = tr_ZScore openTrade, ct_ExitZScore = z, ct_PositionSize = tr_PositionSize openTrade, ct_PnL = d_zero D,
        ct_ExitReason = reason, ct_EntryPrice = tr_Price openTrade, ct_ExitPrice = price, ct_Quantity = tr_Quantity openTrade,
        ct_EntryBalance = tr_EntryBalance openTrade\<rparr>
      in rbind (computePnL D ct) (\<lambda>pnl. Inr (ct\<lparr>ct_PnL := pnl\<rparr>)))"

definition close_trade ::
  "'d decimal_ops \<Rightarrow> 'd TradeRecord \<Rightarrow> gtime \<Rightarrow> Signal \<Rightarrow> 'd \<Rightarrow> 'd \<Rightarrow> string \<Rightarrow> 'd \<Rightarrow> 'd BTState \<Rightarrow> 'd BTState res" where
  "close_trade D openTrade time exitSignal spread z reason price st =
     rbind (exit_cash D (tr_Signal openTrade) price (tr_Quantity openTrade) (bs_balance st)) (\<lambda>bal.
     rbind (closed_trade D openTrade time exitSignal spread z reason price) (\<lambda>ct.
     Inr (st\<lparr>bs_records := bs_records st @ [exit_record D openTrade time spread z price], bs_closed := bs_closed st @ [ct],
             bs_balance := bal, bs_open := None\<rparr>)))"

definition closeOnTick ::
  "'d decimal_ops \<Rightarrow> 'd TradeRecord \<Rightarrow> 'd AssetPrice \<Rightarrow> 'd \<Rightarrow> 'd \<Rightarrow> Signal \<Rightarrow> string \<Rightarrow> 'd BTState \<Rightarrow> 'd BTState res" where
  "closeOnTick D openTrade tick spread exitZ exitSignal reason st =
     close_trade D openTrade (ap_Time tick) exitSignal spread exitZ reason (ap_Price tick) st"

section \<open>The phases of a bar\<close>

definition bt_update :: "'d decimal_ops \<Rightarrow> int \<Rightarrow> 'd Bar \<Rightarrow> 'd BTState \<Rightarrow> 'd BTState res" where
  "bt_update D res bar st =
     (case ingestTradesUpTo D (bs_trades st) (time_Add (bar_Time bar) res) (bs_strat st) of
        (rest, s) \<Rightarrow>
          (case Update D bar s of
             (s, Inl err) \<Rightarrow> Inl err
           | (s, Inr decision) \<Rightarrow> Inr (st\<lparr>bs_trades := rest, bs_strat := s, bs_last := decision\<rparr>)))"

text \<open>Which exit a bar takes: the adverse extreme when no ticks covered the bar and it triggers, else the
  close decision. The result is the strategy (a stop is recorded in it), whether to exit, the reason,
  the z-score, and the spread of an adverse exit.\<close>

definition exit_choice ::
  "'d decimal_ops \<Rightarrow> 'd MRStrategy \<Rightarrow> 'd TradeRecord \<Rightarrow> 'd Bar \<Rightarrow> 'd MRDecision \<Rightarrow> bool \<Rightarrow>
     ('d MRStrategy \<times> bool \<times> string \<times> 'd \<times> 'd option) res" where
  "exit_choice D s openTrade bar decision prevWindowHadTicks =
     (case ShouldExit D (tr_Signal openTrade) (md_ZScore decision) s of
        (s, shouldExit, exitReason) \<Rightarrow>
          let plain = (s, shouldExit, exitReason, md_ZScore decision, None) in
          if prevWindowHadTicks then Inr plain
          else (case adverseExtreme D (tr_Signal openTrade) bar of
              None \<Rightarrow> Inr plain
            | Some adverseYTM \<Rightarrow>
                rbind (tryv (d_sub D adverseYTM (bar_BenchmarkYield bar))) (\<lambda>adverseSpread.
                case zAgainstWindow D s adverseSpread of
                  None \<Rightarrow> Inr plain
                | Some z \<Rightarrow>
                    (case ShouldExit D (tr_Signal openTrade) z s of
                       (s, True, reason) \<Rightarrow> Inr (s, True, reason, z, Some adverseSpread)
                     | (s, False, _) \<Rightarrow> Inr (s, shouldExit, exitReason, md_ZScore decision, None)))))"

definition bar_exit :: "'d decimal_ops \<Rightarrow> int \<Rightarrow> 'd Bar \<Rightarrow> 'd BTState \<Rightarrow> ('d BTState \<times> bool) res" where
  "bar_exit D res bar st =
     (let decision = bs_last st in
      case bs_open st of
        None \<Rightarrow> Inr (st, False)
      | Some openTrade \<Rightarrow>
          rbind (exit_choice D (bs_strat st) openTrade bar decision (bs_prevTicks st)) (\<lambda>(s, shouldExit, reason, exitZ, adverse).
          let st = st\<lparr>bs_strat := s\<rparr> in
          if \<not> shouldExit then Inr (st, False)
          else
            let exitPrice = (if adverse = None then md_price decision
                             else if tr_Signal openTrade = SignalBuy then bar_Low bar else bar_High bar);
                exitSpread = (case adverse of None \<Rightarrow> md_Spread decision | Some a \<Rightarrow> a)
            in rbind (close_trade D openTrade (time_Add (md_time decision) res) (md_signal decision) exitSpread exitZ reason
                 exitPrice st) (\<lambda>st. Inr (st, True))))"

definition in_window :: "'d Backtester \<Rightarrow> int \<Rightarrow> 'd Bar \<Rightarrow> bool" where
  "in_window b res bar \<longleftrightarrow>
     (time_IsZero (bt_TradeFrom b) \<or> \<not> time_Before (bar_Time bar) (bt_TradeFrom b)) \<and>
     (time_IsZero (bt_TradeTo b) \<or> \<not> time_After (time_Add (bar_Time bar) res) (bt_TradeTo b))"

definition entry_record :: "int \<Rightarrow> 'd MRDecision \<Rightarrow> 'd \<Rightarrow> 'd \<Rightarrow> 'd TradeRecord" where
  "entry_record res decision qty bal =
     \<lparr>tr_Time = time_Add (md_time decision) res, tr_BondID = md_bondID decision, tr_Signal = md_signal decision,
      tr_Spread = md_Spread decision, tr_PositionSize = md_positionSize decision, tr_ZScore = md_ZScore decision,
      tr_Price = md_price decision, tr_Quantity = qty, tr_EntryBalance = bal\<rparr>"

definition entry_cash :: "'d decimal_ops \<Rightarrow> Signal \<Rightarrow> 'd \<Rightarrow> 'd \<Rightarrow> 'd res" where
  "entry_cash D sig cashFlow bal =
     (case sig of
        SignalBuy \<Rightarrow> tryv (d_sub D bal cashFlow)
      | SignalSell \<Rightarrow> tryv (d_add D bal cashFlow)
      | SignalHold \<Rightarrow> Inr bal)"

definition bar_entry :: "'d decimal_ops \<Rightarrow> 'd Backtester \<Rightarrow> int \<Rightarrow> 'd Bar \<Rightarrow> bool \<Rightarrow> 'd BTState \<Rightarrow> 'd BTState res" where
  "bar_entry D b res bar closedThisBar st =
     (let decision = bs_last st in
      if bs_open st = None \<and> \<not> closedThisBar \<and> md_signal decision \<noteq> SignalHold \<and>
         imbalanceAllows D (bs_strat st) (md_signal decision) \<and> in_window b res bar
      then
        rbind (tryv (d_mul D (bs_balance st) (md_positionSize decision))) (\<lambda>budget.
        rbind (tryv (d_quo D budget (md_price decision))) (\<lambda>qty.
        let qty = d_floor D qty in
        if d_IsZero D qty then Inr st
        else
          let rec = entry_record res decision qty (bs_balance st) in
          rbind (tryv (d_mul D (md_price decision) qty)) (\<lambda>cashFlow.
          rbind (entry_cash D (md_signal decision) cashFlow (bs_balance st)) (\<lambda>bal.
          Inr (st\<lparr>bs_records := bs_records st @ [rec], bs_open := Some rec, bs_balance := bal\<rparr>)))))
      else Inr st)"

fun tick_loop :: "'d decimal_ops \<Rightarrow> 'd Bar \<Rightarrow> 'd TradeRecord \<Rightarrow> 'd AssetPrice list \<Rightarrow> 'd BTState \<Rightarrow> 'd BTState res" where
  "tick_loop D bar openTrade [] st = Inr st"
| "tick_loop D bar openTrade (tick # ticks) st =
     (case ap_YTM tick of
        None \<Rightarrow> tick_loop D bar openTrade ticks st
      | Some ytm \<Rightarrow>
          rbind (tryv (d_sub D ytm (bar_BenchmarkYield bar))) (\<lambda>spread.
          case zAgainstWindow D (bs_strat st) spread of
            None \<Rightarrow> tick_loop D bar openTrade ticks st
          | Some z \<Rightarrow>
              (case ShouldExit D (tr_Signal openTrade) z (bs_strat st) of
                 (s, stop, reason) \<Rightarrow>
                   if stop then closeOnTick D openTrade tick spread z (md_signal (bs_last st)) reason (st\<lparr>bs_strat := s\<rparr>)
                   else tick_loop D bar openTrade ticks (st\<lparr>bs_strat := s\<rparr>))))"

definition barsAhead :: int where
  "barsAhead = 2"

definition next_close :: "int \<Rightarrow> 'd Bar \<Rightarrow> 'd Bar list \<Rightarrow> gtime" where
  "next_close res bar later =
     (case later of [] \<Rightarrow> time_Add (bar_Time bar) (res * barsAhead) | nxt # _ \<Rightarrow> time_Add (bar_Time nxt) res)"

definition bar_ticks :: "'d decimal_ops \<Rightarrow> int \<Rightarrow> 'd Bar \<Rightarrow> gtime \<Rightarrow> 'd BTState \<Rightarrow> 'd BTState res" where
  "bar_ticks D res bar nextClose st =
     (case bs_open st of
        None \<Rightarrow> Inr st
      | Some openTrade \<Rightarrow>
          (case tickWindow (bs_ticks st) (time_Add (bar_Time bar) res) nextClose of
             (rest, win) \<Rightarrow> tick_loop D bar openTrade win (st\<lparr>bs_ticks := rest, bs_prevTicks := win \<noteq> []\<rparr>)))"

section \<open>The run\<close>

definition bt_bar :: "'d decimal_ops \<Rightarrow> 'd Backtester \<Rightarrow> int \<Rightarrow> 'd Bar \<Rightarrow> 'd Bar list \<Rightarrow> 'd BTState \<Rightarrow> 'd BTState res" where
  "bt_bar D b res bar later st =
     rbind (bt_update D res bar st) (\<lambda>st.
     rbind (bar_exit D res bar st) (\<lambda>(st, closedThisBar).
     rbind (bar_entry D b res bar closedThisBar st) (\<lambda>st.
     bar_ticks D res bar (next_close res bar later) st)))"

fun bt_loop ::
  "'d decimal_ops \<Rightarrow> 'd Backtester \<Rightarrow> int \<Rightarrow> (nat \<Rightarrow> bool) \<Rightarrow> nat \<Rightarrow> 'd Bar list \<Rightarrow> 'd BTState \<Rightarrow> 'd BTState res" where
  "bt_loop D b res cancelled i [] st = Inr st"
| "bt_loop D b res cancelled i (bar # later) st =
     (if cancelled i then Inl ''backtest cancelled by user''
      else rbind (bt_bar D b res bar later st) (bt_loop D b res cancelled (i + 1) later))"

text \<open>The close at the end of history; the balance is only computed to report an error.\<close>

definition force_close :: "'d decimal_ops \<Rightarrow> int \<Rightarrow> 'd Bar list \<Rightarrow> 'd BTState \<Rightarrow> 'd BTState res" where
  "force_close D res bars st =
     (case bs_open st of
        None \<Rightarrow> Inr st
      | Some openTrade \<Rightarrow>
          if bars = [] then Inr st
          else
            let lst = last bars; decision = bs_last st in
            rbind (tryv (d_sub D (bar_CloseYTM lst) (bar_BenchmarkYield lst))) (\<lambda>lastSpread.
            close_trade D openTrade (time_Add (bar_Time lst) res) (md_signal decision) lastSpread (md_ZScore decision)
              ''force_close'' (md_price decision) st))"

definition loadTrades :: "'d MRStrategy \<Rightarrow> (gtime \<Rightarrow> gtime \<Rightarrow> 'd TapeTrade list) option \<Rightarrow> 'd Bar list \<Rightarrow> 'd TapeTrade list" where
  "loadTrades s store bars =
     (case store of
        None \<Rightarrow> []
      | Some stream \<Rightarrow>
          if mc_ImbalanceWindow (ms_cfg s) \<le> 0 \<or> bars = [] then []
          else stream (bar_Time (hd bars)) (bar_Time (last bars)))"

definition mr_summarise ::
  "'d decimal_ops \<Rightarrow> 'd ClosedTrade list \<Rightarrow> 'd TradeRecord list \<Rightarrow> gtime \<Rightarrow> gtime \<Rightarrow> 'd BacktestResult res" where
  "mr_summarise D trades records start finish =
     rbind (Summarise D (map (\<lambda>t. \<lparr>pp_PnL = ct_PnL t, pp_CloseTime = ct_CloseTime t\<rparr>) trades) start finish) (\<lambda>summary.
     Inr \<lparr>br_ClosedTrades = trades, br_TradeRecords = records, br_Summary = summary\<rparr>)"

definition MRDecision_zero :: "'d decimal_ops \<Rightarrow> 'd MRDecision" where
  "MRDecision_zero D = \<lparr>md_time = time_zero, md_bondID = [], md_YTM = d_zero D, md_BenchmarkYield = d_zero D,
     md_Spread = d_zero D, md_RollingMean = d_zero D, md_RollingStdDev = d_zero D, md_ZScore = d_zero D,
     md_price = d_zero D, md_signal = SignalHold, md_positionSize = d_zero D, md_reason = []\<rparr>"

definition bt_start ::
  "'d decimal_ops \<Rightarrow> 'd Backtester \<Rightarrow> (gtime \<Rightarrow> gtime \<Rightarrow> 'd TapeTrade list) option \<Rightarrow> 'd MRStrategy \<Rightarrow> 'd Bar list \<Rightarrow> 'd \<Rightarrow> 'd BTState" where
  "bt_start D b store s bars capital =
     \<lparr>bs_strat = s, bs_closed = [], bs_records = [], bs_open = None, bs_last = MRDecision_zero D, bs_balance = capital,
      bs_trades = loadTrades s store bars, bs_ticks = bt_ticks b, bs_prevTicks = False\<rparr>"

definition Backtester_Run ::
  "'d decimal_ops \<Rightarrow> 'd Backtester \<Rightarrow> (gtime \<Rightarrow> gtime \<Rightarrow> 'd TapeTrade list) option \<Rightarrow> (nat \<Rightarrow> bool) \<Rightarrow> 'd MRStrategy \<Rightarrow>
     'd Bar list \<Rightarrow> 'd BacktestResult res" where
  "Backtester_Run D b store cancelled s bars =
     rbind (effective_capital D s) (\<lambda>capital.
     let res = ResolutionDuration (mc_Resolution (ms_cfg s)) in
     rbind (bt_loop D b res cancelled 0 bars (bt_start D b store s bars capital)) (\<lambda>st.
     rbind (force_close D res bars st) (\<lambda>st.
     let start = (if bars = [] then time_zero else bar_Time (hd bars));
         finish = (if bars = [] then time_zero else bar_Time (last bars));
         start = (if time_IsZero (bt_TradeFrom b) then start else bt_TradeFrom b);
         finish = (if time_IsZero (bt_TradeTo b) then finish else bt_TradeTo b)
     in mr_summarise D (bs_closed st) (bs_records st) start finish)))"

section \<open>Loading the inputs\<close>

text \<open>What the stores and clients answer.\<close>

record 'd MRHistory =
  hi_env :: "'d MREnv"
  hi_client :: bool
  hi_BaseAssetID :: "string \<Rightarrow> string gopair"
  hi_injectedStore :: bool
  hi_candleStore :: "gerror option"
  hi_CandleRange :: "(gtime option \<times> gtime option) gopair"
  hi_LoadCandlesBucketed :: "string \<Rightarrow> Resolution \<Rightarrow> gtime \<Rightarrow> gtime \<Rightarrow> 'd Candle list gopair"
  hi_priceStore :: "gerror option"
  hi_LoadHistoricalPrices :: "string \<Rightarrow> gtime \<Rightarrow> gtime \<Rightarrow> 'd AssetPrice list gopair"
  hi_trades :: "(gtime \<Rightarrow> gtime \<Rightarrow> 'd TapeTrade list) option"

definition sourceBarDuration :: int where
  "sourceBarDuration = minute_ns"

definition checkCandleCoverage :: "'d MRHistory \<Rightarrow> gtime \<Rightarrow> gtime \<Rightarrow> gerror option" where
  "checkCandleCoverage H dataStart finish =
     (case hi_CandleRange H of
        (_, Some err) \<Rightarrow> Some (''load candle range: '' @ err)
      | ((Some lo, Some hi), None) \<Rightarrow>
          if time_After lo dataStart \<or> time_Before (time_Add hi sourceBarDuration) finish
          then Some ''no candle coverage'' else None
      | (_, None) \<Rightarrow> Some ''no candle coverage'')"

text \<open>The window loaded for a backtest: the warm-up before the start, the end floored to the grid.\<close>

definition warmup_start :: "'d MRConfig \<Rightarrow> int \<Rightarrow> gtime \<Rightarrow> gtime" where
  "warmup_start cfg res start = time_Add start (wrap64 (wrap64 (- wrap64 (mc_LookbackWindow cfg + 1)) * res))"

definition load_end :: "int \<Rightarrow> gtime \<Rightarrow> gtime" where
  "load_end res finish = time_Truncate (time_UTC finish) res"

definition PreflightBacktest :: "'d MRHistory \<Rightarrow> 'd MRConfig \<Rightarrow> gtime \<Rightarrow> gtime \<Rightarrow> gerror option" where
  "PreflightBacktest H cfg start finish =
     (if \<not> hi_injectedStore H then None
      else
        let res = ResolutionDuration (mc_Resolution cfg) in
        if res = 0 then Some ''unknown resolution''
        else checkCandleCoverage H (warmup_start cfg res start) (load_end res finish))"

definition usable_bars :: "'d decimal_ops \<Rightarrow> int \<Rightarrow> 'd Observation list \<Rightarrow> 'd Candle list \<Rightarrow> 'd Bar list" where
  "usable_bars D res cache loaded = concat (map (\<lambda>c.
     if d_IsZero D (cd_CloseYTM c) then []
     else let bar = BarFromCandle D c in
          (case cachedBenchmarkYield D cache (time_Add (bar_Time bar) res) of
             (y, _, ok) \<Rightarrow> if ok then [bar\<lparr>bar_BenchmarkYield := y\<rparr>] else [])) loaded)"

definition getBars ::
  "'d decimal_ops \<Rightarrow> 'd MRHistory \<Rightarrow> gtime \<Rightarrow> gtime \<Rightarrow> 'd MRStrategy \<Rightarrow> 'd MRStrategy \<times> 'd Bar list res" where
  "getBars D H start finish s =
     (let cfg = ms_cfg s; res = ResolutionDuration (mc_Resolution cfg) in
      if res = 0 then (s, Inl ''unknown resolution'')
      else
        let dataStart = warmup_start cfg res start; loadEnd = load_end res finish in
        case rbind (case hi_candleStore H of Some err \<Rightarrow> Inl err | None \<Rightarrow> Inr ()) (\<lambda>_.
             rbind (case checkCandleCoverage H dataStart loadEnd of Some err \<Rightarrow> Inl err | None \<Rightarrow> Inr ()) (\<lambda>_.
             rbind (ParseBenchmarkTenor (mc_Tenor cfg)) (\<lambda>tenor.
             rbind (case me_fredClient (hi_env H) of Some err \<Rightarrow> Inl err | None \<Rightarrow> Inr ()) (\<lambda>_.
             tryv (me_fredFetch (hi_env H) tenor dataStart loadEnd))))) of
          Inl err \<Rightarrow> (s, Inl err)
        | Inr obs \<Rightarrow>
            let s = s\<lparr>ms_benchmarkObservations := setBenchmarkObservations obs\<rparr> in
            (s, rbind (tryv (hi_LoadCandlesBucketed H (mc_OrderBookID cfg) (mc_Resolution cfg) dataStart loadEnd)) (\<lambda>loaded.
                let bars = usable_bars D res (ms_benchmarkObservations s) loaded in
                if loaded \<noteq> [] \<and> bars = [] then Inl ''no usable candles for order book'' else Inr bars)))"

definition loadTicks :: "'d MRHistory \<Rightarrow> 'd MRStrategy \<Rightarrow> string \<Rightarrow> 'd Bar list \<Rightarrow> 'd AssetPrice list" where
  "loadTicks H s assetID bars =
     (if bars = [] \<or> hi_priceStore H \<noteq> None then []
      else
        let res = ResolutionDuration (mc_Resolution (ms_cfg s)) in
        (case hi_LoadHistoricalPrices H assetID (bar_Time (hd bars)) (time_Add (bar_Time (last bars)) res) of
           (_, Some _) \<Rightarrow> [] | (ticks, None) \<Rightarrow> ticks))"

definition MR_Backtest ::
  "'d decimal_ops \<Rightarrow> 'd MRHistory \<Rightarrow> (nat \<Rightarrow> bool) \<Rightarrow> gtime \<Rightarrow> gtime \<Rightarrow> 'd MRStrategy \<Rightarrow> 'd BacktestResult res" where
  "MR_Backtest D H cancelled start finish s =
     (let now = me_Now (hi_env H) in
      if time_Before (time_UTC finish) (time_UTC start) then Inl ''end date must be after start date''
      else if time_After (time_UTC start) (time_UTC now) \<or> time_After (time_UTC finish) (time_UTC now)
      then Inl ''start and end date must be in the past''
      else
        rbind (ParseBenchmarkTenor (mc_Tenor (ms_cfg s))) (\<lambda>_.
        case getBars D H start finish s of
          (s, Inl err) \<Rightarrow> Inl err
        | (s, Inr bars) \<Rightarrow>
            rbind (LookupAssetID (hi_client H) (hi_BaseAssetID H) (mc_OrderBookID (ms_cfg s))) (\<lambda>assetID.
            let s = s\<lparr>ms_baseAssetID := assetID\<rparr> in
            Backtester_Run D \<lparr>bt_ticks = loadTicks H s assetID bars, bt_TradeFrom = start, bt_TradeTo = finish\<rparr>
              (hi_trades H) cancelled s bars)))"

end
