(* ===== verification/MR_Backtest_Props.thy ===== *)
theory MR_Backtest_Props
  imports MR_Backtest
begin

text \<open>
  Properties of the mean-reversion backtest. The locale \<open>ledger_invariant\<close> is the contract between the
  bar loop and its ledger (closed trades, records, open trade, balance): a property that survives one
  close and one entry holds of every run. It is interpreted for the pairing of the records, the
  trading window and the cash accounting.
\<close>

section \<open>What a phase does to the ledger\<close>

definition ledger :: "'d BTState \<Rightarrow> 'd ClosedTrade list \<times> 'd TradeRecord list \<times> 'd TradeRecord option \<times> 'd" where
  "ledger st = (bs_closed st, bs_records st, bs_open st, bs_balance st)"

lemma ledger_simps [simp]:
  "ledger (st\<lparr>bs_strat := s\<rparr>) = ledger st" "ledger (st\<lparr>bs_ticks := ts\<rparr>) = ledger st"
  "ledger (st\<lparr>bs_prevTicks := p\<rparr>) = ledger st" "ledger (st\<lparr>bs_trades := tt\<rparr>) = ledger st"
  "ledger (st\<lparr>bs_last := d\<rparr>) = ledger st"
  by (simp_all add: ledger_def)

lemma bt_update_ledger:
  assumes "bt_update D res bar st = Inr st'"
  shows "ledger st' = ledger st" "md_time (bs_last st') = bar_Time bar"
proof -
  obtain rest s where i: "ingestTradesUpTo D (bs_trades st) (time_Add (bar_Time bar) res) (bs_strat st) = (rest, s)"
    by (rule prod.exhaust)
  obtain s' r where u: "Update D bar s = (s', r)" by (rule prod.exhaust)
  from assms i u obtain d where r: "r = Inr d" and st': "st' = st\<lparr>bs_trades := rest, bs_strat := s', bs_last := d\<rparr>"
    by (cases r) (auto simp: bt_update_def)
  show "ledger st' = ledger st" by (simp add: st')
  have "md_time d = bar_Time bar" using u unfolding r by (rule Update_ok)
  then show "md_time (bs_last st') = bar_Time bar" by (simp add: st')
qed

lemma close_trade_ok:
  assumes "close_trade D tr t sig spread z reason price st = Inr st'"
  obtains bal ct where "exit_cash D (tr_Signal tr) price (tr_Quantity tr) (bs_balance st) = Inr bal"
    "closed_trade D tr t sig spread z reason price = Inr ct"
    "st' = st\<lparr>bs_records := bs_records st @ [exit_record D tr t spread z price], bs_closed := bs_closed st @ [ct],
             bs_balance := bal, bs_open := None\<rparr>"
  using assms by (auto simp: close_trade_def rbind_eq_Inr intro: that)

lemma closed_trade_ok:
  assumes "closed_trade D tr t sig spread z reason price = Inr ct"
  shows "ct_BondID ct = tr_BondID tr" "ct_OpenTime ct = tr_Time tr" "ct_CloseTime ct = t" "ct_Signal ct = tr_Signal tr"
    "ct_EntrySpread ct = tr_Spread tr" "ct_ExitSpread ct = spread" "ct_EntryZScore ct = tr_ZScore tr" "ct_ExitZScore ct = z"
    "ct_PositionSize ct = tr_PositionSize tr" "ct_EntryPrice ct = tr_Price tr" "ct_ExitPrice ct = price"
    "ct_Quantity ct = tr_Quantity tr" "ct_EntryBalance ct = tr_EntryBalance tr" "computePnL D ct = Inr (ct_PnL ct)"
  using assms by (auto simp: closed_trade_def Let_def rbind_eq_Inr computePnL_def)

lemma bar_exit_cases:
  assumes "bar_exit D res bar st = Inr (st', c)"
  obtains (kept) s where "st' = st\<lparr>bs_strat := s\<rparr>" "\<not> c"
    | (closed) tr s sig spread z reason price where "bs_open st = Some tr" "c"
      "close_trade D tr (time_Add (md_time (bs_last st)) res) sig spread z reason price (st\<lparr>bs_strat := s\<rparr>) = Inr st'"
proof (cases "bs_open st")
  case None
  then have "st' = st\<lparr>bs_strat := bs_strat st\<rparr>" "\<not> c" using assms by (simp_all add: bar_exit_def)
  then show thesis by (rule kept)
next
  case (Some tr)
  then obtain s e reason z adv where x: "exit_choice D (bs_strat st) tr bar (bs_last st) (bs_prevTicks st) = Inr (s, e, reason, z, adv)"
    using assms by (auto simp: bar_exit_def Let_def rbind_eq_Inr)
  show thesis
  proof (cases e)
    case True
    then show thesis using assms Some x by (auto simp: bar_exit_def Let_def rbind_eq_Inr intro: closed)
  next
    case False
    then have "st' = st\<lparr>bs_strat := s\<rparr>" "\<not> c" using assms Some x by (auto simp: bar_exit_def Let_def)
    then show thesis by (rule kept)
  qed
qed

lemma bar_entry_cases:
  assumes "bar_entry D b res bar c st = Inr st'"
  obtains (idle) "st' = st"
    | (opened) qty cash bal where "bs_open st = None" "\<not> c" "md_signal (bs_last st) \<noteq> SignalHold" "in_window b res bar"
      "imbalanceAllows D (bs_strat st) (md_signal (bs_last st))"
      "d_mul D (md_price (bs_last st)) qty = (cash, None)"
      "entry_cash D (md_signal (bs_last st)) cash (bs_balance st) = Inr bal"
      "st' = st\<lparr>bs_records := bs_records st @ [entry_record res (bs_last st) qty (bs_balance st)],
        bs_open := Some (entry_record res (bs_last st) qty (bs_balance st)), bs_balance := bal\<rparr>"
proof -
  let ?d = "bs_last st"
  let ?go = "bs_open st = None \<and> \<not> c \<and> md_signal ?d \<noteq> SignalHold \<and> imbalanceAllows D (bs_strat st) (md_signal ?d) \<and>
    in_window b res bar"
  show thesis
  proof (cases ?go)
    case False
    then have "st' = st" using assms by (auto simp: bar_entry_def Let_def)
    then show thesis by (rule idle)
  next
    case True
    then obtain bud q where q: "d_mul D (bs_balance st) (md_positionSize ?d) = (bud, None)" "d_quo D bud (md_price ?d) = (q, None)"
      using assms by (auto simp: bar_entry_def Let_def rbind_eq_Inr tryv_eq_Inr)
    show thesis
    proof (cases "d_IsZero D (d_floor D q)")
      case z: True
      then have "st' = st" using assms True q by (simp add: bar_entry_def Let_def)
      then show thesis by (rule idle)
    next
      case z: False
      then obtain cash bal where "d_mul D (md_price ?d) (d_floor D q) = (cash, None)"
        "entry_cash D (md_signal ?d) cash (bs_balance st) = Inr bal"
        "st' = st\<lparr>bs_records := bs_records st @ [entry_record res ?d (d_floor D q) (bs_balance st)],
          bs_open := Some (entry_record res ?d (d_floor D q) (bs_balance st)), bs_balance := bal\<rparr>"
        using assms True q by (auto simp: bar_entry_def Let_def rbind_eq_Inr tryv_eq_Inr)
      then show thesis using True by (intro opened) auto
    qed
  qed
qed

lemma tick_loop_cases:
  fixes D :: "'d decimal_ops"
  assumes "tick_loop D bar tr ticks st = Inr st'"
  obtains (kept) s where "st' = st\<lparr>bs_strat := s\<rparr>"
    | (closed) tick and s :: "'d MRStrategy" and sig spread z reason where "tick \<in> set ticks"
      "close_trade D tr (ap_Time tick) sig spread z reason (ap_Price tick) (st\<lparr>bs_strat := s\<rparr>) = Inr st'"
  using assms
proof (induction ticks arbitrary: st thesis)
  case Nil
  then have "st' = st\<lparr>bs_strat := bs_strat st\<rparr>" by simp
  then show ?case by (rule Nil.prems(1))
next
  case (Cons tick ticks)
  have go: thesis if r: "tick_loop D bar tr ticks (st\<lparr>bs_strat := s\<rparr>) = Inr st'" for s
  proof (rule Cons.IH [OF _ _ r])
    fix s1 assume "st' = st\<lparr>bs_strat := s, bs_strat := s1\<rparr>"
    then have "st' = st\<lparr>bs_strat := s1\<rparr>" by simp
    then show thesis by (rule Cons.prems(1))
  next
    fix t s1 sig spread z reason
    assume "t \<in> set ticks" "close_trade D tr (ap_Time t) sig spread z reason (ap_Price t) (st\<lparr>bs_strat := s, bs_strat := s1\<rparr>) = Inr st'"
    then show thesis by (intro Cons.prems(2) [of t sig spread z reason s1]) simp_all
  qed
  have same: "st = st\<lparr>bs_strat := bs_strat st\<rparr>" by simp
  show ?case
  proof (cases "ap_YTM tick")
    case None
    then show ?thesis using Cons.prems(3) go [of "bs_strat st"] by simp
  next
    case (Some ytm)
    then obtain spread where sp: "d_sub D ytm (bar_BenchmarkYield bar) = (spread, None)"
      using Cons.prems(3) by (auto simp: rbind_eq_Inr tryv_eq_Inr)
    show ?thesis
    proof (cases "zAgainstWindow D (bs_strat st) spread")
      case None
      then show ?thesis using Cons.prems(3) Some sp go [of "bs_strat st"] by simp
    next
      case z: (Some z)
      obtain s stop reason where e: "ShouldExit D (tr_Signal tr) z (bs_strat st) = (s, stop, reason)" by (rule prod_cases3)
      show ?thesis
      proof (cases stop)
        case True
        then have "close_trade D tr (ap_Time tick) (md_signal (bs_last st)) spread z reason (ap_Price tick) (st\<lparr>bs_strat := s\<rparr>) = Inr st'"
          using Cons.prems(3) Some sp z e by (simp add: closeOnTick_def)
        then show ?thesis by (intro Cons.prems(2) [of tick]) simp_all
      next
        case False
        then show ?thesis using Cons.prems(3) Some sp z e go [of s] by simp
      qed
    qed
  qed
qed

lemma tickWindow_times:
  assumes "tickWindow ts a b = (rest, win)" "t \<in> set win"
  shows "t_ns a < t_ns (ap_Time t) \<and> t_ns (ap_Time t) \<le> t_ns b"
  using assms
proof (induction ts arbitrary: rest win)
  case (Cons x ts)
  then show ?case by (cases "tickWindow ts a b") (auto simp: time_After_def split: if_split_asm)
qed simp

lemma bar_ticks_cases:
  fixes D :: "'d decimal_ops"
  assumes "bar_ticks D res bar nc st = Inr st'"
  obtains (kept) "ledger st' = ledger st"
    | (closed) tr and tick :: "'d AssetPrice" and st1 sig spread z reason where "bs_open st = Some tr" "ledger st1 = ledger st"
      "t_ns (bar_Time bar) + res < t_ns (ap_Time tick)" "t_ns (ap_Time tick) \<le> t_ns nc"
      "close_trade D tr (ap_Time tick) sig spread z reason (ap_Price tick) st1 = Inr st'"
proof (cases "bs_open st")
  case None
  then show thesis using assms by (intro kept) (simp add: bar_ticks_def)
next
  case (Some tr)
  obtain rest win where w: "tickWindow (bs_ticks st) (time_Add (bar_Time bar) res) nc = (rest, win)" by (rule prod.exhaust)
  have "tick_loop D bar tr win (st\<lparr>bs_ticks := rest, bs_prevTicks := win \<noteq> []\<rparr>) = Inr st'"
    using assms Some w by (simp add: bar_ticks_def)
  then show thesis
  proof (cases rule: tick_loop_cases)
    case (kept s)
    then show thesis by (intro that(1)) simp
  next
    case (closed tick s sig spread z reason)
    show thesis
      by (rule that(2) [OF Some _ _ _ closed(2)]) (use tickWindow_times [OF w closed(1)] in simp_all)
  qed
qed

section \<open>The contract of the ledger\<close>

locale ledger_invariant =
  fixes D :: "'d decimal_ops" and b :: "'d Backtester" and res :: int and P :: "'d BTState \<Rightarrow> bool"
  assumes P_ledger: "P st \<Longrightarrow> ledger st' = ledger st \<Longrightarrow> P st'"
    and P_close: "P st \<Longrightarrow> bs_open st = Some tr \<Longrightarrow> close_trade D tr t sig spread z reason price st = Inr st' \<Longrightarrow> P st'"
    and P_open: "P st \<Longrightarrow> bs_open st = None \<Longrightarrow> md_signal d \<noteq> SignalHold \<Longrightarrow> in_window b res bar \<Longrightarrow>
      md_time d = bar_Time bar \<Longrightarrow> d_mul D (md_price d) qty = (cash, None) \<Longrightarrow>
      entry_cash D (md_signal d) cash (bs_balance st) = Inr bal \<Longrightarrow>
      P (st\<lparr>bs_records := bs_records st @ [entry_record res d qty (bs_balance st)],
            bs_open := Some (entry_record res d qty (bs_balance st)), bs_balance := bal\<rparr>)"
begin

lemma bar_keeps:
  assumes "P st" "bt_bar D b res bar later st = Inr st'"
  shows "P st'"
proof -
  obtain st1 st2 c st3 where p: "bt_update D res bar st = Inr st1" "bar_exit D res bar st1 = Inr (st2, c)"
    "bar_entry D b res bar c st2 = Inr st3" "bar_ticks D res bar (next_close res bar later) st3 = Inr st'"
    using assms(2) by (auto simp: bt_bar_def rbind_eq_Inr)
  note u = bt_update_ledger [OF p(1)]
  have P1: "P st1" by (rule P_ledger [OF assms(1) u(1)])
  have P2: "P st2 \<and> bs_last st2 = bs_last st1"
    using p(2)
  proof (cases rule: bar_exit_cases)
    case (kept s)
    then show ?thesis using P_ledger [OF P1, of st2] by simp
  next
    case (closed tr s sig spread z reason price)
    have "P (st1\<lparr>bs_strat := s\<rparr>)" by (rule P_ledger [OF P1]) simp
    moreover have "bs_last st2 = bs_last st1" using closed(3) by (rule close_trade_ok) simp
    ultimately show ?thesis using P_close [OF _ _ closed(3)] closed(1) by simp
  qed
  have P3: "P st3"
    using p(3)
  proof (cases rule: bar_entry_cases)
    case idle
    then show ?thesis using P2 by simp
  next
    case (opened qty cash bal)
    show ?thesis unfolding opened(8)
      by (rule P_open [OF conjunct1 [OF P2] opened(1,3,4) _ opened(6,7)]) (simp add: P2 u(2))
  qed
  show ?thesis
    using p(4)
  proof (cases rule: bar_ticks_cases)
    case kept
    then show ?thesis by (rule P_ledger [OF P3])
  next
    case (closed tr tick st4 sig spread z reason)
    have "P st4" by (rule P_ledger [OF P3 closed(2)])
    moreover have "bs_open st4 = Some tr" using closed(1,2) by (simp add: ledger_def)
    ultimately show ?thesis using closed(5) by (rule P_close)
  qed
qed

lemma loop_keeps: "P st \<Longrightarrow> bt_loop D b res cancelled i bars st = Inr st' \<Longrightarrow> P st'"
  by (induction bars arbitrary: i st) (auto simp: rbind_eq_Inr split: if_split_asm dest: bar_keeps)

lemma run_keeps:
  assumes "P st" "bt_loop D b res cancelled i bars st = Inr st1" "force_close D res bars st1 = Inr st2"
  shows "P st2"
proof -
  have "P st1" by (rule loop_keeps [OF assms(1,2)])
  then show ?thesis
    using assms(3) by (cases "bs_open st1") (auto simp: force_close_def Let_def rbind_eq_Inr split: if_split_asm dest: P_close)
qed

end

section \<open>The trading window\<close>

text \<open>The opening times a trading window allows: an entry is stamped at the close of its bar.\<close>

definition window_time :: "'d Backtester \<Rightarrow> int \<Rightarrow> gtime \<Rightarrow> bool" where
  "window_time b res t \<longleftrightarrow>
     (time_IsZero (bt_TradeFrom b) \<or> t_ns (bt_TradeFrom b) + res \<le> t_ns t) \<and>
     (time_IsZero (bt_TradeTo b) \<or> t_ns t \<le> t_ns (bt_TradeTo b))"

section \<open>The order of the records\<close>

definition times :: "'d TradeRecord list \<Rightarrow> int list" where
  "times rs = map (t_ns \<circ> tr_Time) rs"

lemma times_simps [simp]: "times [] = []" "times (r # rs) = t_ns (tr_Time r) # times rs" "times (rs @ rs') = times rs @ times rs'"
  by (simp_all add: times_def)

lemma close_trade_times:
  assumes "close_trade D tr t sig spread z reason price st = Inr st'"
  shows "times (bs_records st') = times (bs_records st) @ [t_ns t]"
  using assms by (rule close_trade_ok) (simp add: exit_record_def)

text \<open>One bar appends records stamped at its close, then at most one stamped inside its tick window.\<close>

lemma bar_times:
  assumes "bt_bar D b res bar later st = Inr st'"
  obtains xs ys where "times (bs_records st') = times (bs_records st) @ xs @ ys"
    "\<forall>x\<in>set xs. x = t_ns (bar_Time bar) + res" "length ys \<le> 1"
    "\<forall>y\<in>set ys. t_ns (bar_Time bar) + res < y \<and> y \<le> t_ns (next_close res bar later)"
    "bs_open st' \<noteq> None \<Longrightarrow> ys = []"
proof -
  obtain st1 st2 c st3 where p: "bt_update D res bar st = Inr st1" "bar_exit D res bar st1 = Inr (st2, c)"
    "bar_entry D b res bar c st2 = Inr st3" "bar_ticks D res bar (next_close res bar later) st3 = Inr st'"
    using assms by (auto simp: bt_bar_def rbind_eq_Inr)
  note u = bt_update_ledger [OF p(1)]
  let ?c = "t_ns (bar_Time bar) + res"
  have e: "\<exists>xs. times (bs_records st2) = times (bs_records st) @ xs \<and> (\<forall>x\<in>set xs. x = ?c) \<and> bs_last st2 = bs_last st1"
    using p(2)
  proof (cases rule: bar_exit_cases)
    case (kept s)
    then show ?thesis using u(1) by (auto simp: ledger_def)
  next
    case (closed tr s sig spread z reason price)
    have "bs_last st2 = bs_last st1" using closed(3) by (rule close_trade_ok) simp
    then show ?thesis using close_trade_times [OF closed(3)] u by (auto simp: ledger_def)
  qed
  then obtain xs where xs: "times (bs_records st2) = times (bs_records st) @ xs" "\<forall>x\<in>set xs. x = ?c" "bs_last st2 = bs_last st1"
    by blast
  have "\<exists>xs'. times (bs_records st3) = times (bs_records st2) @ xs' \<and> (\<forall>x\<in>set xs'. x = ?c)"
    using p(3) by (cases rule: bar_entry_cases) (auto simp: entry_record_def xs(3) u(2))
  then obtain xs' where xs': "times (bs_records st3) = times (bs_records st2) @ xs'" "\<forall>x\<in>set xs'. x = ?c" by blast
  have "\<exists>ys. times (bs_records st') = times (bs_records st3) @ ys \<and> length ys \<le> 1 \<and>
      (\<forall>y\<in>set ys. ?c < y \<and> y \<le> t_ns (next_close res bar later)) \<and> (bs_open st' \<noteq> None \<longrightarrow> ys = [])"
    using p(4)
  proof (cases rule: bar_ticks_cases)
    case kept
    then show ?thesis by (auto simp: ledger_def)
  next
    case (closed tr tick st4 sig spread z reason)
    have "bs_open st' = None" using closed(5) by (rule close_trade_ok) simp
    then show ?thesis using close_trade_times [OF closed(5)] closed by (auto simp: ledger_def)
  qed
  then show thesis using xs xs' by (elim exE conjE) (rule that [of "xs @ xs'"], auto)
qed

text \<open>The contract of a bar loop that stamps what it appends: at the close of the bar, then at most once inside
  the bar's tick window, after which no position is open. For bars in chronological order the stamps stay in
  chronological order, and none is later than the close of the last bar while a position is open.\<close>

locale stamped_loop =
  fixes bar_step :: "'d Bar \<Rightarrow> 'd Bar list \<Rightarrow> 's \<Rightarrow> 's res" and loop :: "nat \<Rightarrow> 'd Bar list \<Rightarrow> 's \<Rightarrow> 's res"
    and stamps :: "'s \<Rightarrow> int list" and holds :: "'s \<Rightarrow> bool" and res :: int
  assumes loop_Nil: "loop i [] st = Inr st' \<Longrightarrow> st' = st"
    and loop_Cons: "loop i (bar # later) st = Inr st' \<Longrightarrow> \<exists>st1. bar_step bar later st = Inr st1 \<and> loop (i + 1) later st1 = Inr st'"
    and bar_stamps: "bar_step bar later st = Inr st' \<Longrightarrow> \<exists>xs ys. stamps st' = stamps st @ xs @ ys \<and>
      (\<forall>x\<in>set xs. x = t_ns (bar_Time bar) + res) \<and> length ys \<le> 1 \<and>
      (\<forall>y\<in>set ys. t_ns (bar_Time bar) + res < y \<and> y \<le> t_ns (next_close res bar later)) \<and> (holds st' \<longrightarrow> ys = [])"
begin

lemma loop_times:
  assumes "loop i bars st = Inr st'" "sorted (map (t_ns \<circ> bar_Time) bars)" "sorted (stamps st)"
    "bars \<noteq> [] \<Longrightarrow> \<forall>x\<in>set (stamps st). x \<le> t_ns (bar_Time (hd bars)) + res"
  shows "sorted (stamps st') \<and>
    (bars \<noteq> [] \<longrightarrow> holds st' \<longrightarrow> (\<forall>x\<in>set (stamps st'). x \<le> t_ns (bar_Time (last bars)) + res))"
  using assms
proof (induction bars arbitrary: i st)
  case Nil
  then show ?case using loop_Nil by blast
next
  case (Cons bar later)
  obtain st1 where b1: "bar_step bar later st = Inr st1" and r: "loop (i + 1) later st1 = Inr st'"
    using loop_Cons [OF Cons.prems(1)] by blast
  obtain xs ys where t: "stamps st1 = stamps st @ xs @ ys"
    "\<forall>x\<in>set xs. x = t_ns (bar_Time bar) + res" "length ys \<le> 1"
    "\<forall>y\<in>set ys. t_ns (bar_Time bar) + res < y \<and> y \<le> t_ns (next_close res bar later)" "holds st1 \<longrightarrow> ys = []"
    using bar_stamps [OF b1] by blast
  have old: "\<forall>x\<in>set (stamps st). x \<le> t_ns (bar_Time bar) + res" using Cons.prems(4) by simp
  have xs: "sorted xs" using t(2) by (induction xs) auto
  have ys: "sorted ys" using t(3) by (cases ys) auto
  have s1: "sorted (stamps st1)"
    unfolding t(1) sorted_append using Cons.prems(3) xs ys old t(2,4) by fastforce
  show ?case
  proof (cases later)
    case Nil
    have "x \<le> t_ns (bar_Time bar) + res" if "x \<in> set (stamps st1)" "holds st1" for x
      using that(1) old t(2) t(5) that(2) unfolding t(1) by fastforce
    then show ?thesis using loop_Nil [of _ st1 st'] r s1 Nil by auto
  next
    case (Cons nxt rest)
    have "\<forall>x\<in>set (stamps st1). x \<le> t_ns (bar_Time (hd later)) + res"
      using old t(2,4) Cons.prems(2) unfolding t(1) by (fastforce simp: next_close_def Cons)
    then show ?thesis using Cons.IH [OF r _ s1] Cons.prems(2) Cons by simp
  qed
qed

end

interpretation bt_stamped: stamped_loop "bt_bar D b res" "bt_loop D b res cancelled" "\<lambda>st. times (bs_records st)"
    "\<lambda>st. bs_open st \<noteq> None" res
  for D :: "'d decimal_ops" and b :: "'d Backtester" and res :: int and cancelled :: "nat \<Rightarrow> bool"
proof (unfold_locales, goal_cases)
  case (3 bar later st st')
  then show ?case by (rule bar_times) blast
qed (auto simp: rbind_eq_Inr split: if_split_asm)

end
