(* ===== verification/Trade_Book.thy ===== *)
theory Trade_Book
  imports Stats_Model
begin

text \<open>
  An abstract specification of a simulated account: a cash balance, at most one open position, and the
  profits realised so far. The backtests of the strategies refine it.

  \<^item> \<open>book_step\<close> opens a position (a purchase takes its cost out of the cash, a short sale pays it in) or
    closes the open one at some price.
  \<^item> The locale \<open>book_refinement\<close> is the contract of an implementation: each of its steps is a sequence of
    book steps on the abstracted state. What holds of every book then holds of every implementation run.
\<close>

section \<open>The book\<close>

type_synonym holding = "Signal \<times> rat \<times> rat"

record book =
  bk_cash :: rat
  bk_open :: "holding option"
  bk_pnl :: "rat list"

definition direction :: "Signal \<Rightarrow> rat" where
  "direction sig = (case sig of SignalBuy \<Rightarrow> 1 | SignalSell \<Rightarrow> - 1 | SignalHold \<Rightarrow> 0)"

inductive book_step :: "book \<Rightarrow> book \<Rightarrow> bool" where
  enter: "sig \<noteq> SignalHold \<Longrightarrow> bk_open b = None \<Longrightarrow>
    book_step b (b\<lparr>bk_cash := bk_cash b - direction sig * (price * qty), bk_open := Some (sig, price, qty)\<rparr>)"
| leave: "bk_open b = Some (sig, price, qty) \<Longrightarrow>
    book_step b (b\<lparr>bk_cash := bk_cash b + direction sig * (x * qty), bk_open := None,
      bk_pnl := bk_pnl b @ [direction sig * (qty * (x - price))]\<rparr>)"

inductive_cases book_stepE: "book_step b b'"

text \<open>Cash plus the open position at its entry price.\<close>

definition book_value :: "book \<Rightarrow> rat" where
  "book_value b = bk_cash b + (case bk_open b of None \<Rightarrow> 0 | Some (sig, price, qty) \<Rightarrow> direction sig * (price * qty))"

section \<open>Conservation\<close>

lemma book_step_conserves:
  "book_step b b' \<Longrightarrow> book_value b' - sum_list (bk_pnl b') = book_value b - sum_list (bk_pnl b)"
  by (induction rule: book_step.induct) (simp_all add: book_value_def algebra_simps)

lemma book_steps_conserve:
  "book_step\<^sup>*\<^sup>* b b' \<Longrightarrow> book_value b' - sum_list (bk_pnl b') = book_value b - sum_list (bk_pnl b)"
  by (induction rule: rtranclp_induct) (simp_all add: book_step_conserves)

lemma book_steps_extend: "book_step\<^sup>*\<^sup>* b b' \<Longrightarrow> \<exists>ps. bk_pnl b' = bk_pnl b @ ps"
  by (induction rule: rtranclp_induct) (auto elim!: book_stepE)

section \<open>Refinement\<close>

locale book_refinement =
  fixes step :: "'s \<Rightarrow> 's \<Rightarrow> bool" and abs_book :: "'s \<Rightarrow> book"
  assumes refines: "step s s' \<Longrightarrow> book_step\<^sup>*\<^sup>* (abs_book s) (abs_book s')"
begin

lemma run_refines: "step\<^sup>*\<^sup>* s s' \<Longrightarrow> book_step\<^sup>*\<^sup>* (abs_book s) (abs_book s')"
  by (induction rule: rtranclp_induct) (auto dest: refines)

lemma run_conserves:
  assumes "step\<^sup>*\<^sup>* s s'" "bk_open (abs_book s) = None" "bk_pnl (abs_book s) = []"
  shows "book_value (abs_book s') = bk_cash (abs_book s) + sum_list (bk_pnl (abs_book s'))"
  using book_steps_conserve [OF run_refines [OF assms(1)]] assms(2,3) by (simp add: book_value_def)

end

section \<open>The summary of an account\<close>

text \<open>In exact arithmetic the summary reports the sum of the profits it was given.\<close>

lemma summ_step_total:
  assumes L: "decimal_laws D val id" and "summ_step D t a = Inr a'"
  shows "val (TotalPnL (sa_res a')) = val (TotalPnL (sa_res a)) + val (pp_PnL t)"
proof -
  obtain tot where t: "d_add D (TotalPnL (sa_res a)) (pp_PnL t) = (tot, None)"
    using assms(2) by (auto simp: summ_step_def rbind_eq_Inr tryv_eq_Inr)
  have "TotalPnL (sa_res a') = tot"
    using assms(2) t by (auto simp: summ_step_def Let_def rbind_eq_Inr tryv_eq_Inr split: if_split_asm)
  then show ?thesis using val_add [OF L t] by simp
qed

lemma summ_loop_total:
  assumes L: "decimal_laws D val id"
  shows "summ_loop D ts a = Inr a' \<Longrightarrow> val (TotalPnL (sa_res a')) = val (TotalPnL (sa_res a)) + val_sum val (map pp_PnL ts)"
proof (induction ts arbitrary: a)
  case (Cons t ts)
  then obtain a1 where "summ_step D t a = Inr a1" "summ_loop D ts a1 = Inr a'" by (auto simp: rbind_eq_Inr)
  then show ?case using Cons.IH summ_step_total [OF L] by fastforce
qed simp

lemma Summarise_total:
  assumes L: "decimal_laws D val id" and "Summarise D ts start finish = Inr r"
  shows "val (TotalPnL r) = val_sum val (map pp_PnL ts)"
proof (cases "ts = []")
  case True
  then show ?thesis using assms(2) dec_exact(1) [OF L] by (auto simp: Summarise_def Summary_zero_def split: if_split_asm)
next
  case False
  then obtain a where a: "summ_loop D ts (summ_init D) = Inr a" and r: "TotalPnL r = TotalPnL (sa_res a)"
    using assms(2) by (auto simp: Summarise_def Let_def rbind_eq_Inr split: if_split_asm)
  then show ?thesis using summ_loop_total [OF L a] dec_exact(1) [OF L] by (simp add: summ_init_def Summary_zero_def)
qed

end
