(* ===== verification/MR_Backtest_Correct.thy ===== *)
theory MR_Backtest_Correct
  imports MR_Backtest_Props MR_Correct Trade_Book
begin

text \<open>
  The correctness theorems of the mean-reversion backtest: the pairing and order of its records, the
  trading window, and the cash accounting.
\<close>

section \<open>Pairing of the records\<close>

definition entry_of :: "'d ClosedTrade \<Rightarrow> 'd TradeRecord" where
  "entry_of ct = \<lparr>tr_Time = ct_OpenTime ct, tr_BondID = ct_BondID ct, tr_Signal = ct_Signal ct, tr_Spread = ct_EntrySpread ct,
     tr_PositionSize = ct_PositionSize ct, tr_ZScore = ct_EntryZScore ct, tr_Price = ct_EntryPrice ct,
     tr_Quantity = ct_Quantity ct, tr_EntryBalance = ct_EntryBalance ct\<rparr>"

definition exit_of :: "'d decimal_ops \<Rightarrow> 'd ClosedTrade \<Rightarrow> 'd TradeRecord" where
  "exit_of D ct = \<lparr>tr_Time = ct_CloseTime ct, tr_BondID = ct_BondID ct, tr_Signal = ct_Signal ct, tr_Spread = ct_ExitSpread ct,
     tr_PositionSize = ct_PositionSize ct, tr_ZScore = ct_ExitZScore ct, tr_Price = ct_ExitPrice ct,
     tr_Quantity = ct_Quantity ct, tr_EntryBalance = d_zero D\<rparr>"

definition round_trips :: "'d decimal_ops \<Rightarrow> 'd ClosedTrade list \<Rightarrow> 'd TradeRecord list" where
  "round_trips D cts = concat (map (\<lambda>ct. [entry_of ct, exit_of D ct]) cts)"

definition paired :: "'d decimal_ops \<Rightarrow> 'd BTState \<Rightarrow> bool" where
  "paired D st \<longleftrightarrow> bs_records st = round_trips D (bs_closed st) @ (case bs_open st of None \<Rightarrow> [] | Some tr \<Rightarrow> [tr])"

lemma closed_trade_records:
  assumes "closed_trade D tr t sig spread z reason price = Inr ct"
  shows "entry_of ct = tr" "exit_of D ct = exit_record D tr t spread z price"
  using closed_trade_ok [OF assms] by (simp_all add: entry_of_def exit_of_def exit_record_def)

interpretation bt_paired: ledger_invariant D b res "paired D"
  for D :: "'d decimal_ops" and b :: "'d Backtester" and res :: int
proof (unfold_locales, goal_cases)
  case (1 st st')
  then show ?case by (simp add: paired_def ledger_def)
next
  case (2 st tr t sig spread z reason price st')
  from 2(3) show ?case
    by (rule close_trade_ok) (use 2(1,2) in \<open>simp add: paired_def round_trips_def closed_trade_records\<close>)
next
  case (3 st d bar qty cash bal)
  then show ?case by (simp add: paired_def)
qed

section \<open>The trading window\<close>

definition windowed :: "'d Backtester \<Rightarrow> int \<Rightarrow> 'd BTState \<Rightarrow> bool" where
  "windowed b res st \<longleftrightarrow> (\<forall>ct\<in>set (bs_closed st). window_time b res (ct_OpenTime ct)) \<and>
     (\<forall>tr. bs_open st = Some tr \<longrightarrow> window_time b res (tr_Time tr))"

interpretation bt_windowed: ledger_invariant D b res "windowed b res"
  for D :: "'d decimal_ops" and b :: "'d Backtester" and res :: int
proof (unfold_locales, goal_cases)
  case (1 st st')
  then show ?case by (simp add: windowed_def ledger_def)
next
  case (2 st tr t sig spread z reason price st')
  from 2(3) show ?case
    by (rule close_trade_ok) (use 2(1,2) in \<open>auto simp: windowed_def closed_trade_ok(2)\<close>)
next
  case (3 st d bar qty cash bal)
  then show ?case
    by (auto simp: windowed_def window_time_def entry_record_def in_window_def time_Before_def time_After_def)
qed

section \<open>Cash\<close>

text \<open>Signed cash flow of holding a position entered at its entry price.\<close>

definition held :: "('d \<Rightarrow> rat) \<Rightarrow> 'd TradeRecord \<Rightarrow> rat" where
  "held val tr = (if tr_Signal tr = SignalBuy then val (tr_Price tr) * val (tr_Quantity tr)
     else - (val (tr_Price tr) * val (tr_Quantity tr)))"

definition trade_pnl :: "('d \<Rightarrow> rat) \<Rightarrow> 'd ClosedTrade \<Rightarrow> rat" where
  "trade_pnl val ct = (if ct_Signal ct = SignalBuy then val (ct_Quantity ct) * (val (ct_ExitPrice ct) - val (ct_EntryPrice ct))
     else val (ct_Quantity ct) * (val (ct_EntryPrice ct) - val (ct_ExitPrice ct)))"

fun entry_chain :: "('d \<Rightarrow> rat) \<Rightarrow> rat \<Rightarrow> 'd ClosedTrade list \<Rightarrow> bool" where
  "entry_chain val c [] = True"
| "entry_chain val c (ct # cts) = (val (ct_EntryBalance ct) = c \<and> entry_chain val (c + val (ct_PnL ct)) cts)"

lemma entry_chain_snoc:
  "entry_chain val c (cts @ [ct]) \<longleftrightarrow> entry_chain val c cts \<and> val (ct_EntryBalance ct) = c + val_sum val (map ct_PnL cts)"
  by (induction cts arbitrary: c) (auto simp: algebra_simps)

lemma entry_chain_nth:
  "entry_chain val c cts \<Longrightarrow> k < length cts \<Longrightarrow> val (ct_EntryBalance (cts ! k)) = c + val_sum val (map ct_PnL (take k cts))"
proof (induction cts arbitrary: c k)
  case (Cons ct cts)
  then show ?case by (cases k) (auto simp: algebra_simps)
qed simp

text \<open>The accounts: every trade was entered with the starting cash plus the profits before it, every profit
  is the one of its prices, and the balance is the starting cash plus all profits, less what the open
  position ties up.\<close>

definition cash_ok :: "('d \<Rightarrow> rat) \<Rightarrow> rat \<Rightarrow> 'd ClosedTrade list \<Rightarrow> 'd TradeRecord option \<Rightarrow> 'd \<Rightarrow> bool" where
  "cash_ok val c cts opn bal \<longleftrightarrow>
     entry_chain val c cts \<and> (\<forall>ct\<in>set cts. val (ct_PnL ct) = trade_pnl val ct) \<and>
     val bal = c + val_sum val (map ct_PnL cts) - (case opn of None \<Rightarrow> 0 | Some tr \<Rightarrow> held val tr) \<and>
     (\<forall>tr. opn = Some tr \<longrightarrow> tr_Signal tr \<noteq> SignalHold \<and> val (tr_EntryBalance tr) = c + val_sum val (map ct_PnL cts))"

definition accounted :: "'d decimal_ops \<Rightarrow> ('d \<Rightarrow> rat) \<Rightarrow> rat \<Rightarrow> 'd BTState \<Rightarrow> bool" where
  "accounted D val c st \<longleftrightarrow> (decimal_laws D val id \<longrightarrow> cash_ok val c (bs_closed st) (bs_open st) (bs_balance st))"

lemma computePnL_val:
  assumes L: "decimal_laws D val id" and "computePnL D ct = Inr p" "ct_Signal ct \<noteq> SignalHold"
  shows "val p = trade_pnl val ct"
proof -
  obtain cb pr where m: "d_mul D (ct_EntryPrice ct) (ct_Quantity ct) = (cb, None)"
      "d_mul D (ct_ExitPrice ct) (ct_Quantity ct) = (pr, None)"
    and p: "ct_Signal ct = SignalBuy \<and> d_sub D pr cb = (p, None) \<or> ct_Signal ct = SignalSell \<and> d_sub D cb pr = (p, None)"
    using assms(2,3) by (cases "ct_Signal ct") (auto simp: computePnL_def rbind_eq_Inr tryv_eq_Inr)
  show ?thesis
    using p val_mul [OF L m(1)] val_mul [OF L m(2)] val_sub [OF L, of pr cb p] val_sub [OF L, of cb pr p]
    by (auto simp: trade_pnl_def algebra_simps)
qed

lemma exit_cash_val:
  assumes L: "decimal_laws D val id" and "exit_cash D sig price qty bal = Inr bal'" "sig \<noteq> SignalHold"
  shows "val bal' = val bal + (if sig = SignalBuy then val price * val qty else - (val price * val qty))"
  using assms(2,3) val_mul [OF L] val_sub [OF L] val_add [OF L]
  by (cases sig) (auto simp: exit_cash_def rbind_eq_Inr tryv_eq_Inr)

lemma accounted_close:
  assumes "accounted D val c st" "bs_open st = Some tr" "close_trade D tr t sig spread z reason price st = Inr st'"
  shows "accounted D val c st'"
  using assms(3)
proof (rule close_trade_ok)
  fix bal ct assume cash: "exit_cash D (tr_Signal tr) price (tr_Quantity tr) (bs_balance st) = Inr bal"
    and ct: "closed_trade D tr t sig spread z reason price = Inr ct"
    and st': "st' = st\<lparr>bs_records := bs_records st @ [exit_record D tr t spread z price], bs_closed := bs_closed st @ [ct],
             bs_balance := bal, bs_open := None\<rparr>"
  note k = closed_trade_ok [OF ct]
  have "cash_ok val c (bs_closed st') (bs_open st') (bs_balance st')" if L: "decimal_laws D val id"
  proof -
    let ?S = "c + val_sum val (map ct_PnL (bs_closed st))"
    have h: "entry_chain val c (bs_closed st)" "\<forall>ct\<in>set (bs_closed st). val (ct_PnL ct) = trade_pnl val ct"
      "val (bs_balance st) = ?S - held val tr" "tr_Signal tr \<noteq> SignalHold" "val (tr_EntryBalance tr) = ?S"
      using assms(1,2) L by (simp_all add: accounted_def cash_ok_def)
    have p: "val (ct_PnL ct) = trade_pnl val ct" using computePnL_val [OF L k(14)] h(4) k(4) by simp
    have b: "val bal = ?S + val (ct_PnL ct)"
      unfolding p using exit_cash_val [OF L cash h(4)] h(3) k(4,10-12)
      by (cases "tr_Signal tr = SignalBuy") (simp_all add: trade_pnl_def held_def algebra_simps)
    show ?thesis using h p b k(13) by (simp add: st' cash_ok_def entry_chain_snoc)
  qed
  then show ?thesis by (simp add: accounted_def)
qed

lemma accounted_open:
  assumes "accounted D val c st" "bs_open st = None" "md_signal d \<noteq> SignalHold"
    and m: "d_mul D (md_price d) qty = (cash, None)" and e: "entry_cash D (md_signal d) cash (bs_balance st) = Inr bal"
  shows "accounted D val c (st\<lparr>bs_records := rs, bs_open := Some (entry_record res d qty (bs_balance st)), bs_balance := bal\<rparr>)"
proof -
  let ?tr = "entry_record res d qty (bs_balance st)"
  have "cash_ok val c (bs_closed st) (Some ?tr) bal" if L: "decimal_laws D val id"
  proof -
    have "val bal = val (bs_balance st) - held val ?tr"
      using e assms(3) val_mul [OF L m] val_sub [OF L] val_add [OF L]
      by (cases "md_signal d") (auto simp: entry_cash_def tryv_eq_Inr held_def entry_record_def)
    then show ?thesis using assms(1-3) L by (simp add: accounted_def cash_ok_def) (simp add: entry_record_def)
  qed
  then show ?thesis by (simp add: accounted_def)
qed

interpretation bt_accounted: ledger_invariant D b res "accounted D val c"
  for D :: "'d decimal_ops" and b :: "'d Backtester" and res :: int and val :: "'d \<Rightarrow> rat" and c :: rat
proof (unfold_locales, goal_cases)
  case (1 st st')
  then show ?case by (simp add: accounted_def ledger_def)
next
  case (2 st tr t sig spread z reason price st')
  then show ?case by (rule accounted_close)
next
  case (3 st d bar qty cash bal)
  then show ?case by (intro accounted_open)
qed

section \<open>Runs\<close>

lemma Backtester_Run_ok:
  assumes "Backtester_Run D b store cancelled s bars = Inr r"
  obtains c st1 st2 start finish where "effective_capital D s = Inr c"
    "bt_loop D b (ResolutionDuration (mc_Resolution (ms_cfg s))) cancelled 0 bars (bt_start D b store s bars c) = Inr st1"
    "force_close D (ResolutionDuration (mc_Resolution (ms_cfg s))) bars st1 = Inr st2"
    "br_ClosedTrades r = bs_closed st2" "br_TradeRecords r = bs_records st2"
    "Summarise D (map (\<lambda>t. \<lparr>pp_PnL = ct_PnL t, pp_CloseTime = ct_CloseTime t\<rparr>) (bs_closed st2)) start finish = Inr (br_Summary r)"
    "bs_open st2 = None"
proof -
  let ?res = "ResolutionDuration (mc_Resolution (ms_cfg s))"
  obtain c st1 st2 where c: "effective_capital D s = Inr c"
    and l: "bt_loop D b ?res cancelled 0 bars (bt_start D b store s bars c) = Inr st1"
    and f: "force_close D ?res bars st1 = Inr st2"
    using assms by (auto simp: Backtester_Run_def Let_def rbind_eq_Inr)
  define start where "start = (if time_IsZero (bt_TradeFrom b) then if bars = [] then time_zero else bar_Time (hd bars) else bt_TradeFrom b)"
  define finish where "finish = (if time_IsZero (bt_TradeTo b) then if bars = [] then time_zero else bar_Time (last bars) else bt_TradeTo b)"
  have m: "mr_summarise D (bs_closed st2) (bs_records st2) start finish = Inr r"
    using assms c l f by (simp add: Backtester_Run_def Let_def start_def finish_def)
  have nil: "bs_open st1 = None" if "bars = []" using l that by (auto simp: bt_start_def)
  have o: "bs_open st2 = None"
    using f nil by (cases "bs_open st1")
      (auto simp: force_close_def Let_def rbind_eq_Inr split: if_split_asm elim!: close_trade_ok)
  show thesis by (rule that [OF c l f]) (use m o in \<open>auto simp: mr_summarise_def rbind_eq_Inr\<close>)
qed

lemma start_ok:
  "paired D (bt_start D b store s bars c)" "windowed b res (bt_start D b store s bars c)"
  "accounted D val (val c) (bt_start D b store s bars c)" "bs_records (bt_start D b store s bars c) = []"
  by (simp_all add: bt_start_def paired_def windowed_def accounted_def cash_ok_def round_trips_def)

section \<open>Sample run\<close>

definition bt_at :: "int \<Rightarrow> rat \<Rightarrow> rat \<Rightarrow> rat Bar" where
  "bt_at h y p = \<lparr>bar_Time = \<lparr>t_ns = h * hour_ns, t_off = 0\<rparr>, bar_Open = p, bar_High = p, bar_Low = p, bar_Close = p,
     bar_Volume = 0, bar_OpenYTM = y, bar_HighYTM = y, bar_LowYTM = y, bar_CloseYTM = y, bar_BenchmarkYield = 0\<rparr>"

definition bt_bars :: "rat Bar list" where
  "bt_bars = [bt_at 24 1 10, bt_at 25 3 10, bt_at 26 5 10, bt_at 27 3 12]"

definition bt_sample :: "rat Backtester" where
  "bt_sample = \<lparr>bt_ticks = [], bt_TradeFrom = \<lparr>t_ns = 26 * hour_ns, t_off = 0\<rparr>, bt_TradeTo = \<lparr>t_ns = 28 * hour_ns, t_off = 0\<rparr>\<rparr>"

lemma bt_sample_value:
  "(case Backtester_Run rat_ops bt_sample None (\<lambda>_. False) (MR_New rat_ops mr_cfg False 0) bt_bars of
      Inl _ \<Rightarrow> False | Inr r \<Rightarrow> length (br_ClosedTrades r) = 1 \<and> TotalPnL (br_Summary r) = 10)"
  by code_simp

lemma bt_sample_runs:
  obtains r where "Backtester_Run rat_ops bt_sample None (\<lambda>_. False) (MR_New rat_ops mr_cfg False 0) bt_bars = Inr r"
    "length (br_ClosedTrades r) = 1" "TotalPnL (br_Summary r) = 10"
  using bt_sample_value by (auto split: sum.splits)

section \<open>Theorems\<close>

text \<open>The trade records of a finished backtest are exactly the entry and exit records of its closed
  trades, one round trip after the other: one position at a time, none left open. For bars in
  chronological order the records are in chronological order, with ticks and the final close included.\<close>

theorem backtest_round_trips:
  assumes r: "Backtester_Run D b store cancelled s bars = Inr r" and srt: "sorted (map (t_ns \<circ> bar_Time) bars)"
  shows "br_TradeRecords r = round_trips D (br_ClosedTrades r) \<and> sorted (times (br_TradeRecords r))"
  using r
proof (rule Backtester_Run_ok)
  fix c st1 st2 start finish
  let ?res = "ResolutionDuration (mc_Resolution (ms_cfg s))" and ?st = "bt_start D b store s bars c"
  assume l: "bt_loop D b ?res cancelled 0 bars ?st = Inr st1" and f: "force_close D ?res bars st1 = Inr st2"
    and cl: "br_ClosedTrades r = bs_closed st2" "br_TradeRecords r = bs_records st2" and o: "bs_open st2 = None"
  have p: "bs_records st2 = round_trips D (bs_closed st2)"
    using bt_paired.run_keeps [OF start_ok(1) l f] o by (simp add: paired_def)
  have t: "sorted (times (bs_records st1)) \<and> (bars \<noteq> [] \<longrightarrow> bs_open st1 \<noteq> None \<longrightarrow>
      (\<forall>x\<in>set (times (bs_records st1)). x \<le> t_ns (bar_Time (last bars)) + ?res))"
    by (rule bt_stamped.loop_times [OF l srt]) (simp_all add: start_ok(4))
  have "sorted (times (bs_records st2))"
  proof (cases "bs_open st1 = None \<or> bars = []")
    case True
    then have "st2 = st1" using f by (auto simp: force_close_def split: option.splits)
    then show ?thesis using t by simp
  next
    case False
    then obtain tr sig spread z reason price where
      "close_trade D tr (time_Add (bar_Time (last bars)) ?res) sig spread z reason price st1 = Inr st2"
      using f by (auto simp: force_close_def Let_def rbind_eq_Inr)
    then show ?thesis using close_trade_times [of D] t False by (fastforce simp: sorted_append)
  qed
  then show ?thesis using p cl by simp
qed

theorem backtest_round_trips_witness:
  "\<exists>r. Backtester_Run rat_ops bt_sample None (\<lambda>_. False) (MR_New rat_ops mr_cfg False 0) bt_bars = Inr r \<and>
     length (br_TradeRecords r) = 2 \<and> sorted (times (br_TradeRecords r))"
proof -
  obtain r where r: "Backtester_Run rat_ops bt_sample None (\<lambda>_. False) (MR_New rat_ops mr_cfg False 0) bt_bars = Inr r"
    "length (br_ClosedTrades r) = 1" by (rule bt_sample_runs)
  have s: "sorted (map (t_ns \<circ> bar_Time) bt_bars)" by (simp add: bt_bars_def bt_at_def)
  have "length (round_trips rat_ops cts) = 2 * length cts" for cts by (induction cts) (simp_all add: round_trips_def)
  then show ?thesis using backtest_round_trips [OF r(1) s] r by auto
qed

text \<open>Every position of a backtest with a trading window opens at the close of a bar that starts inside
  the window and closes by its end: its entry lies in \<open>(TradeFrom, TradeTo]\<close>.\<close>

theorem backtest_entries_in_window:
  assumes r: "Backtester_Run D b store cancelled s bars = Inr r" and ct: "ct \<in> set (br_ClosedTrades r)"
    and res: "Resolution_Validate (mc_Resolution (ms_cfg s)) = None"
    and w: "\<not> time_IsZero (bt_TradeFrom b)" "\<not> time_IsZero (bt_TradeTo b)"
  shows "t_ns (bt_TradeFrom b) < t_ns (ct_OpenTime ct) \<and> t_ns (ct_OpenTime ct) \<le> t_ns (bt_TradeTo b)"
  using r
proof (rule Backtester_Run_ok)
  fix c st1 st2 start finish
  let ?res = "ResolutionDuration (mc_Resolution (ms_cfg s))"
  assume l: "bt_loop D b ?res cancelled 0 bars (bt_start D b store s bars c) = Inr st1"
    and f: "force_close D ?res bars st1 = Inr st2" and cl: "br_ClosedTrades r = bs_closed st2"
  have "window_time b ?res (ct_OpenTime ct)"
    using bt_windowed.run_keeps [OF start_ok(2) l f] ct cl by (simp add: windowed_def)
  then show ?thesis using w res ResolutionDuration_pos_iff [of "mc_Resolution (ms_cfg s)"] by (simp add: window_time_def)
qed

theorem backtest_entries_in_window_witness:
  "\<exists>r ct. Backtester_Run rat_ops bt_sample None (\<lambda>_. False) (MR_New rat_ops mr_cfg False 0) bt_bars = Inr r \<and>
     br_ClosedTrades r = [ct] \<and> 26 * hour_ns < t_ns (ct_OpenTime ct) \<and> t_ns (ct_OpenTime ct) \<le> 28 * hour_ns"
proof -
  obtain r where r: "Backtester_Run rat_ops bt_sample None (\<lambda>_. False) (MR_New rat_ops mr_cfg False 0) bt_bars = Inr r"
    "length (br_ClosedTrades r) = 1" by (rule bt_sample_runs)
  obtain ct where ct: "br_ClosedTrades r = [ct]" using r(2) by (cases "br_ClosedTrades r") auto
  have v: "Resolution_Validate (mc_Resolution (ms_cfg (MR_New rat_ops mr_cfg False 0))) = None"
    by (simp add: MR_New_def mr_cfg_def rat_ops_def Resolution_Validate_def Let_def)
  show ?thesis
    using backtest_entries_in_window [OF r(1) _ v, of ct] ct r(1) by (auto simp: bt_sample_def time_IsZero_def)
qed

text \<open>C16: Cash is conserved in exact arithmetic, that is, when no operation on decimals rounds: the balance a trade is entered
  with is the effective capital plus the profits of the trades before it, each profit is the quantity times the favourable
  price move, and the reported total is their sum.\<close>

theorem backtest_accounting:
  assumes L: "decimal_laws D val id" and r: "Backtester_Run D b store cancelled s bars = Inr r"
    and c: "effective_capital D s = Inr c"
  shows "(\<forall>k. k < length (br_ClosedTrades r) \<longrightarrow>
      val (ct_EntryBalance (br_ClosedTrades r ! k)) = val c + val_sum val (map ct_PnL (take k (br_ClosedTrades r)))) \<and>
    (\<forall>ct\<in>set (br_ClosedTrades r). val (ct_PnL ct) = trade_pnl val ct) \<and>
    val (TotalPnL (br_Summary r)) = val_sum val (map ct_PnL (br_ClosedTrades r))"
  using r
proof (rule Backtester_Run_ok)
  fix c' st1 st2 start finish
  let ?res = "ResolutionDuration (mc_Resolution (ms_cfg s))"
  assume c': "effective_capital D s = Inr c'" and l: "bt_loop D b ?res cancelled 0 bars (bt_start D b store s bars c') = Inr st1"
    and f: "force_close D ?res bars st1 = Inr st2" and cl: "br_ClosedTrades r = bs_closed st2"
    and sm: "Summarise D (map (\<lambda>t. \<lparr>pp_PnL = ct_PnL t, pp_CloseTime = ct_CloseTime t\<rparr>) (bs_closed st2)) start finish = Inr (br_Summary r)"
  have "cash_ok val (val c) (bs_closed st2) (bs_open st2) (bs_balance st2)"
    using bt_accounted.run_keeps [OF start_ok(3) l f, of val] L c c' by (simp add: accounted_def)
  then have a: "entry_chain val (val c) (bs_closed st2)" "\<forall>ct\<in>set (bs_closed st2). val (ct_PnL ct) = trade_pnl val ct"
    by (simp_all add: cash_ok_def)
  show ?thesis
    using entry_chain_nth [OF a(1)] a(2) Summarise_total [OF L sm] by (simp add: cl comp_def)
qed

theorem backtest_accounting_witness:
  "\<exists>r. Backtester_Run rat_ops bt_sample None (\<lambda>_. False) (MR_New rat_ops mr_cfg False 0) bt_bars = Inr r \<and>
     ct_EntryBalance (br_ClosedTrades r ! 0) = 100 \<and> val_sum id (map ct_PnL (br_ClosedTrades r)) = 10"
proof -
  obtain r where r: "Backtester_Run rat_ops bt_sample None (\<lambda>_. False) (MR_New rat_ops mr_cfg False 0) bt_bars = Inr r"
    "length (br_ClosedTrades r) = 1" "TotalPnL (br_Summary r) = 10" by (rule bt_sample_runs)
  have c: "effective_capital rat_ops (MR_New rat_ops mr_cfg False 0) = Inr 100"
    by (simp add: effective_capital_def MR_New_def mr_cfg_def rat_ops_def Let_def)
  show ?thesis using backtest_accounting [OF rat_ops_laws r(1) c] r by auto
qed

text \<open>A bar the backtest replays carries a benchmark yield that was observed on or before the day of the
  bar's close, and a non-zero closing yield.\<close>

theorem backtest_bars_no_lookahead:
  assumes L: "decimal_laws D val rnd" and g: "getBars D H start finish s = (s', Inr bars)" and bar: "bar \<in> set bars"
    and fetch: "\<And>tn a b obs. me_fredFetch (hi_env H) tn a b = (obs, None) \<Longrightarrow> cache_ok (normalise_obs obs)"
  shows "val (bar_CloseYTM bar) \<noteq> 0 \<and> (\<exists>ob\<in>set (ms_benchmarkObservations s'). bar_BenchmarkYield bar = ob_Yield ob \<and>
    ob_ns ob \<le> t_ns (bar_Time bar) + ResolutionDuration (mc_Resolution (ms_cfg s)))"
proof -
  let ?res = "ResolutionDuration (mc_Resolution (ms_cfg s))"
  obtain tn a b obs loaded where f: "me_fredFetch (hi_env H) tn a b = (obs, None)"
    and s': "ms_benchmarkObservations s' = normalise_obs obs" and bars: "bars = usable_bars D ?res (normalise_obs obs) loaded"
    using g by (auto simp: getBars_def Let_def rbind_eq_Inr tryv_eq_Inr setBenchmarkObservations_def
        split: if_split_asm sum.splits option.splits)
  obtain cd y d where cd: "cd \<in> set loaded" "\<not> d_IsZero D (cd_CloseYTM cd)"
    "cachedBenchmarkYield D (normalise_obs obs) (time_Add (bar_Time (BarFromCandle D cd)) ?res) = (y, d, True)"
    "bar = (BarFromCandle D cd)\<lparr>bar_BenchmarkYield := y\<rparr>"
    using bar unfolding bars by (auto simp: usable_bars_def Let_def split: if_split_asm prod.splits) metis
  let ?t = "time_Add (bar_Time (BarFromCandle D cd)) ?res"
  have "sorted (map ob_ns (normalise_obs obs))" using fetch [OF f] by (simp add: cache_ok_def strict_sorted_iff)
  then obtain ob where ob: "ob \<in> set (normalise_obs obs)" "y = ob_Yield ob" "ob_ns ob \<le> t_ns (NormalizeDate ?t)"
    using cachedBenchmarkYield_spec [of "normalise_obs obs", where D = D and ts = ?t] cd(3) by auto
  have le: "ob_ns ob \<le> t_ns ?t" using ob(3) NormalizeDate_le [of ?t] by (rule order_trans)
  have v: "bar_BenchmarkYield bar = ob_Yield ob" "t_ns (bar_Time bar) + ?res = t_ns ?t" "bar_CloseYTM bar = cd_CloseYTM cd"
    using ob(2) by (simp_all add: cd(4) BarFromCandle_def)
  have nz: "val (bar_CloseYTM bar) \<noteq> 0" using cd(2) dec_exact(9) [OF L] v(3) by simp
  have "\<exists>ob\<in>set (ms_benchmarkObservations s'). bar_BenchmarkYield bar = ob_Yield ob \<and> ob_ns ob \<le> t_ns (bar_Time bar) + ?res"
    unfolding s' v(2) by (rule bexI [OF _ ob(1)], rule conjI [OF v(1) le])
  with nz show ?thesis by blast
qed

definition bt_history :: "rat MRHistory" where
  "bt_history = \<lparr>hi_env = mr_env\<lparr>me_fredClient := None,
       me_fredFetch := (\<lambda>_ _ _. ([\<lparr>ob_Date = time_zero, ob_Yield = 4\<rparr>], None))\<rparr>,
     hi_client = True, hi_BaseAssetID = (\<lambda>_. (''bond'', None)), hi_injectedStore = True, hi_candleStore = None,
     hi_CandleRange = ((Some time_zero, Some \<lparr>t_ns = 48 * hour_ns, t_off = 0\<rparr>), None),
     hi_LoadCandlesBucketed = (\<lambda>_ _ _ _. ([\<lparr>cd_OrderBookID = ''book'', cd_StartTimestamp = \<lparr>t_ns = 24 * hour_ns, t_off = 0\<rparr>,
        cd_Open = 1, cd_High = 1, cd_Low = 1, cd_Close = 1, cd_Volume = 0, cd_OpenYTM = 5, cd_HighYTM = 5, cd_LowYTM = 5,
        cd_CloseYTM = 5\<rparr>], None)),
     hi_priceStore = None, hi_LoadHistoricalPrices = (\<lambda>_ _ _. ([], None)), hi_trades = None\<rparr>"

lemma bt_history_bars:
  "case snd (getBars rat_ops bt_history \<lparr>t_ns = 24 * hour_ns, t_off = 0\<rparr> \<lparr>t_ns = 26 * hour_ns, t_off = 0\<rparr>
      (MR_New rat_ops mr_cfg False 0)) of Inl _ \<Rightarrow> False | Inr bars \<Rightarrow> length bars = 1"
  by code_simp

theorem backtest_bars_no_lookahead_witness:
  "\<exists>s' bar. getBars rat_ops bt_history \<lparr>t_ns = 24 * hour_ns, t_off = 0\<rparr> \<lparr>t_ns = 26 * hour_ns, t_off = 0\<rparr>
      (MR_New rat_ops mr_cfg False 0) = (s', Inr [bar]) \<and> bar_CloseYTM bar \<noteq> 0 \<and>
     bar_BenchmarkYield bar \<in> ob_Yield ` set (ms_benchmarkObservations s')"
proof -
  let ?g = "getBars rat_ops bt_history \<lparr>t_ns = 24 * hour_ns, t_off = 0\<rparr> \<lparr>t_ns = 26 * hour_ns, t_off = 0\<rparr>
      (MR_New rat_ops mr_cfg False 0)"
  obtain bars where b: "snd ?g = Inr bars" "length bars = 1" using bt_history_bars by (auto split: sum.splits)
  obtain bar where bar: "bars = [bar]" using b(2) by (cases bars) auto
  have g: "?g = (fst ?g, Inr [bar])" using b(1) bar by (metis prod.collapse)
  have f: "cache_ok (normalise_obs obs)" if "me_fredFetch (hi_env bt_history) tn a b = (obs, None)" for tn a b obs
  proof -
    have "obs = [\<lparr>ob_Date = time_zero, ob_Yield = 4\<rparr>]" using that by (simp add: bt_history_def)
    then show ?thesis by (simp add: cache_ok_def normalise_obs_def NormalizeDate_idem)
  qed
  show ?thesis using backtest_bars_no_lookahead [OF rat_ops_laws g _ f] g by fastforce
qed

end
