(* ===== verification/BO_Model.thy ===== *)
theory BO_Model
  imports MR_Loop
begin

text \<open>
  The breakout / volatility-compression strategy: \<open>src/strategy/breakout/strategy.go\<close>, the decision
  type of \<open>types.go\<close> and the exit bands of \<open>backtest.go\<close> that the live loop shares.

  \<^item> The \<open>Strategy\<close> struct is the record \<open>BOStrategy\<close>; \<open>BO_Update\<close> returns the record it leaves behind also
    when it fails half-way through the windows.
  \<^item> The exchange, the decision store and the clock answer through \<open>MREnv\<close>, as for the mean-reversion
    strategy; the events of the \<open>select\<close> loop are the same.
  \<^item> \<open>balancesInitialized\<close> is a field of the record because the order paths read it; no code of the package
    ever sets it.
\<close>

section \<open>Configuration, decisions and state\<close>

record 'd BOConfig =
  bc_ShortVolWindow :: int
  bc_LongVolWindow :: int
  bc_CompressionThreshold :: 'd
  bc_ATRWindow :: int
  bc_BreakoutATRMultiple :: 'd
  bc_ConfirmationBars :: int
  bc_StopLossATR :: 'd
  bc_TakeProfitATR :: 'd
  bc_MinLongVolFloor :: 'd
  bc_OBVTrendThreshold :: 'd
  bc_OBVWindow :: int
  bc_Resolution :: Resolution
  bc_OrderBookID :: string
  bc_InitialBalance :: 'd
  bc_Leverage :: 'd

record 'd BODecision =
  bd_time :: gtime
  bd_bondID :: string
  bd_price :: 'd
  bd_signal :: Signal
  bd_positionSize :: 'd
  bd_reason :: string
  bd_ShortVol :: 'd
  bd_LongVol :: 'd
  bd_CompressionRatio :: 'd
  bd_ATR :: 'd
  bd_BreakoutLevel :: 'd
  bd_CompressionArmed :: bool
  bd_BarsAboveTrigger :: int
  bd_ArmedCompressionRatio :: 'd

record 'd BOStrategy =
  bo_cfg :: "'d BOConfig"
  bo_shortVolWin :: "'d Rolling"
  bo_longVolWin :: "'d Rolling"
  bo_atrWin :: "'d Rolling"
  bo_lastPrice :: 'd
  bo_compressionArmed :: bool
  bo_armedCompressionRatio :: 'd
  bo_barsAboveTrigger :: int
  bo_barsBelowTrigger :: int
  bo_decisionStore :: bool
  bo_decisionSeq :: int
  bo_baseAssetID :: string
  bo_runID :: string
  bo_cancelled :: bool
  bo_isRunning :: bool
  bo_openSignal :: Signal
  bo_balancesInitialized :: bool
  bo_bondQty :: 'd
  bo_entryPrice :: 'd
  bo_entryATR :: 'd
  bo_paused :: bool
  bo_obvSum :: 'd
  bo_obvPrevPrice :: 'd
  bo_obvWindow :: "'d Rolling option"
  bo_errs :: "gerror list"

definition BO_New :: "'d decimal_ops \<Rightarrow> 'd BOConfig \<Rightarrow> bool \<Rightarrow> int \<Rightarrow> 'd BOStrategy" where
  "BO_New D cfg store seq =
     (let cfg = (if d_IsZero D (bc_Leverage cfg) then cfg\<lparr>bc_Leverage := d_one D\<rparr> else cfg)
      in \<lparr>bo_cfg = cfg, bo_shortVolWin = NewRollingWindow D (bc_ShortVolWindow cfg),
          bo_longVolWin = NewRollingWindow D (bc_LongVolWindow cfg), bo_atrWin = NewRollingWindow D (bc_ATRWindow cfg),
          bo_lastPrice = d_zero D, bo_compressionArmed = False, bo_armedCompressionRatio = d_zero D,
          bo_barsAboveTrigger = 0, bo_barsBelowTrigger = 0, bo_decisionStore = store, bo_decisionSeq = seq,
          bo_baseAssetID = [], bo_runID = uuid_Nil, bo_cancelled = False, bo_isRunning = False,
          bo_openSignal = SignalHold, bo_balancesInitialized = False, bo_bondQty = d_zero D, bo_entryPrice = d_zero D,
          bo_entryATR = d_zero D, bo_paused = False, bo_obvSum = d_zero D, bo_obvPrevPrice = d_zero D,
          bo_obvWindow = (if bc_OBVWindow cfg > 0 then Some (NewRollingWindow D (bc_OBVWindow cfg)) else None),
          bo_errs = []\<rparr>)"

section \<open>On-balance volume\<close>

definition BO_OBV :: "'d BOStrategy \<Rightarrow> 'd" where
  "BO_OBV s = (case bo_obvWindow s of Some w \<Rightarrow> Rolling_Sum w | None \<Rightarrow> bo_obvSum s)"

definition obv_delta :: "'d decimal_ops \<Rightarrow> 'd \<Rightarrow> 'd TradeEvent \<Rightarrow> 'd" where
  "obv_delta D prevPrice ev =
     (if te_Side ev = ''BUY'' then te_Quantity ev
      else if te_Side ev = ''SELL'' then d_neg D (te_Quantity ev)
      else if d_IsZero D prevPrice then te_Quantity ev
      else if d_cmp D (te_Price ev) prevPrice = 1 then te_Quantity ev
      else if d_cmp D (te_Price ev) prevPrice = - 1 then d_neg D (te_Quantity ev)
      else d_zero D)"

definition applyTradeEvent :: "'d decimal_ops \<Rightarrow> 'd TradeEvent \<Rightarrow> 'd BOStrategy \<Rightarrow> 'd BOStrategy" where
  "applyTradeEvent D ev s =
     (case bo_obvWindow s of
        Some w \<Rightarrow>
          if te_Side ev = ''BUY'' then s\<lparr>bo_obvWindow := Some (fst (Rolling_Add D (te_Quantity ev) w))\<rparr>
          else if te_Side ev = ''SELL'' then s\<lparr>bo_obvWindow := Some (fst (Rolling_Add D (d_neg D (te_Quantity ev)) w))\<rparr>
          else s
      | None \<Rightarrow>
          s\<lparr>bo_obvSum := fst (d_add D (bo_obvSum s) (obv_delta D (bo_obvPrevPrice s) ev)), bo_obvPrevPrice := te_Price ev\<rparr>)"

section \<open>Signals\<close>

definition ingestObservation ::
  "'d decimal_ops \<Rightarrow> 'd Bar \<Rightarrow> 'd \<Rightarrow> 'd BOStrategy \<Rightarrow> 'd BOStrategy \<times> gerror option" where
  "ingestObservation D bar prevClose s =
     (case Bar_TrueRange D bar prevClose of
        Inl err \<Rightarrow> (s, Some err)
      | Inr tr \<Rightarrow>
          (case Rolling_Add D tr (bo_atrWin s) of
             (w, Some err) \<Rightarrow> (s\<lparr>bo_atrWin := w\<rparr>, Some err)
           | (w, None) \<Rightarrow>
               let s = s\<lparr>bo_atrWin := w\<rparr> in
               (case Rolling_Add D (bar_Close bar) (bo_shortVolWin s) of
                  (w, Some err) \<Rightarrow> (s\<lparr>bo_shortVolWin := w\<rparr>, Some err)
                | (w, None) \<Rightarrow>
                    let s = s\<lparr>bo_shortVolWin := w\<rparr> in
                    (case Rolling_Add D (bar_Close bar) (bo_longVolWin s) of
                       (w, Some err) \<Rightarrow> (s\<lparr>bo_longVolWin := w\<rparr>, Some err)
                     | (w, None) \<Rightarrow> (s\<lparr>bo_longVolWin := w, bo_lastPrice := bar_Close bar\<rparr>, None)))))"

definition rollingStats :: "'d decimal_ops \<Rightarrow> 'd BOStrategy \<Rightarrow> ('d \<times> 'd \<times> 'd) res" where
  "rollingStats D s =
     rbind (Rolling_StdDev D (bo_shortVolWin s)) (\<lambda>shortVol.
     rbind (Rolling_StdDev D (bo_longVolWin s)) (\<lambda>longVol.
     Inr (shortVol, longVol, Rolling_Mean (bo_atrWin s))))"

definition compressionRatio :: "'d decimal_ops \<Rightarrow> 'd \<Rightarrow> 'd \<Rightarrow> 'd res" where
  "compressionRatio D shortVol longVol =
     (if d_IsZero D longVol then Inr (d_zero D) else tryv (d_quo D shortVol longVol))"

definition resetArmed :: "'d BOStrategy \<Rightarrow> 'd BOStrategy" where
  "resetArmed s = s\<lparr>bo_compressionArmed := False, bo_barsAboveTrigger := 0, bo_barsBelowTrigger := 0\<rparr>"

text \<open>The trigger levels: nothing when one of the three operations fails.\<close>

definition trigger_levels :: "'d decimal_ops \<Rightarrow> 'd BOConfig \<Rightarrow> 'd \<Rightarrow> 'd \<Rightarrow> ('d \<times> 'd) option" where
  "trigger_levels D cfg prevPrice atr =
     (case d_mul D (bc_BreakoutATRMultiple cfg) atr of
        (_, Some _) \<Rightarrow> None
      | (kTimesATR, None) \<Rightarrow>
          (case d_add D prevPrice kTimesATR of
             (_, Some _) \<Rightarrow> None
           | (triggerHigh, None) \<Rightarrow>
               (case d_sub D prevPrice kTimesATR of
                  (_, Some _) \<Rightarrow> None
                | (triggerLow, None) \<Rightarrow> Some (triggerHigh, triggerLow))))"

definition breakout_entry :: "'d decimal_ops \<Rightarrow> Signal \<Rightarrow> 'd BOStrategy \<Rightarrow> 'd BODecision \<Rightarrow> 'd BODecision" where
  "breakout_entry D sig s d =
     d\<lparr>bd_signal := sig, bd_reason := ''compression_breakout'', bd_positionSize := d_one D,
       bd_ArmedCompressionRatio := bo_armedCompressionRatio s\<rparr>"

definition evaluateBreakout ::
  "'d decimal_ops \<Rightarrow> 'd \<Rightarrow> 'd \<Rightarrow> 'd \<Rightarrow> 'd BOStrategy \<Rightarrow> 'd BODecision \<Rightarrow> 'd BOStrategy \<times> 'd BODecision" where
  "evaluateBreakout D price prevPrice atr s d =
     (case trigger_levels D (bo_cfg s) prevPrice atr of
        None \<Rightarrow> (s, d)
      | Some (triggerHigh, triggerLow) \<Rightarrow>
          let d = d\<lparr>bd_BreakoutLevel := triggerHigh\<rparr> in
          if d_cmp D price triggerHigh > 0 then
            let s = s\<lparr>bo_barsAboveTrigger := wrap64 (bo_barsAboveTrigger s + 1)\<rparr>;
                d = d\<lparr>bd_BarsAboveTrigger := bo_barsAboveTrigger s\<rparr>
            in if bo_barsAboveTrigger s \<ge> bc_ConfirmationBars (bo_cfg s)
               then (resetArmed s, breakout_entry D SignalBuy s d) else (s, d)
          else if d_cmp D price triggerLow < 0 then
            let s = s\<lparr>bo_barsBelowTrigger := wrap64 (bo_barsBelowTrigger s + 1)\<rparr>
            in if bo_barsBelowTrigger s \<ge> bc_ConfirmationBars (bo_cfg s)
               then (resetArmed s, breakout_entry D SignalSell s d) else (s, d)
          else (s, d))"

definition applyVolumeFilter :: "'d decimal_ops \<Rightarrow> 'd BOStrategy \<Rightarrow> 'd BODecision \<Rightarrow> 'd BODecision" where
  "applyVolumeFilter D s d =
     (if bc_OBVWindow (bo_cfg s) = 0 then d
      else
        let obv = BO_OBV s; threshold = bc_OBVTrendThreshold (bo_cfg s) in
        (case bd_signal d of
           SignalBuy \<Rightarrow>
             if d_cmp D obv threshold \<le> 0 then d\<lparr>bd_signal := SignalHold, bd_positionSize := d_zero D\<rparr> else d
         | SignalSell \<Rightarrow>
             if d_cmp D (d_neg D obv) threshold \<le> 0 then d\<lparr>bd_signal := SignalHold, bd_positionSize := d_zero D\<rparr> else d
         | SignalHold \<Rightarrow> d))"

text \<open>The decision before any signal is evaluated.\<close>

definition BODecision_zero :: "'d decimal_ops \<Rightarrow> 'd BODecision" where
  "BODecision_zero D =
     \<lparr>bd_time = time_zero, bd_bondID = [], bd_price = d_zero D, bd_signal = SignalHold, bd_positionSize = d_zero D,
      bd_reason = [], bd_ShortVol = d_zero D, bd_LongVol = d_zero D, bd_CompressionRatio = d_zero D, bd_ATR = d_zero D,
      bd_BreakoutLevel = d_zero D, bd_CompressionArmed = False, bd_BarsAboveTrigger = 0,
      bd_ArmedCompressionRatio = d_zero D\<rparr>"

text \<open>Arming on a compressed market.\<close>

definition arm :: "'d decimal_ops \<Rightarrow> 'd \<Rightarrow> 'd BOStrategy \<Rightarrow> 'd BOStrategy" where
  "arm D ratio s =
     (if d_cmp D ratio (bc_CompressionThreshold (bo_cfg s)) < 0
      then s\<lparr>bo_armedCompressionRatio := (if bo_compressionArmed s then bo_armedCompressionRatio s else ratio),
             bo_compressionArmed := True\<rparr>
      else s)"

definition BO_signal ::
  "'d decimal_ops \<Rightarrow> 'd Bar \<Rightarrow> 'd \<Rightarrow> 'd BOStrategy \<Rightarrow> 'd BODecision \<Rightarrow> 'd BOStrategy \<times> 'd BODecision res" where
  "BO_signal D bar prevClose s d =
     (case rollingStats D s of
        Inl err \<Rightarrow> (s, Inl err)
      | Inr (shortVol, longVol, atr) \<Rightarrow>
          let d = d\<lparr>bd_ShortVol := shortVol, bd_LongVol := longVol, bd_ATR := atr\<rparr> in
          if d_cmp D longVol (bc_MinLongVolFloor (bo_cfg s)) < 0
          then (s, Inr (d\<lparr>bd_signal := SignalHold, bd_reason := ''vol_too_low''\<rparr>))
          else
            (case compressionRatio D shortVol longVol of
               Inl err \<Rightarrow> (s, Inl err)
             | Inr ratio \<Rightarrow>
                 let d = d\<lparr>bd_CompressionRatio := ratio\<rparr>;
                     s = arm D ratio s;
                     d = (if d_cmp D ratio (bc_CompressionThreshold (bo_cfg s)) < 0 then d\<lparr>bd_CompressionArmed := True\<rparr> else d)
                 in if \<not> bo_compressionArmed s
                    then (s, Inr (d\<lparr>bd_signal := SignalHold, bd_reason := ''no_signal_yet''\<rparr>))
                    else (case evaluateBreakout D (bar_Close bar) prevClose atr s d of
                        (s, d) \<Rightarrow> (s, Inr (applyVolumeFilter D s d)))))"

definition BO_Update :: "'d decimal_ops \<Rightarrow> 'd Bar \<Rightarrow> 'd BOStrategy \<Rightarrow> 'd BOStrategy \<times> 'd BODecision res" where
  "BO_Update D bar s =
     (let prevClose = bo_lastPrice s in
      case ingestObservation D bar prevClose s of
        (s, Some err) \<Rightarrow> (s, Inl err)
      | (s, None) \<Rightarrow>
          let d = (BODecision_zero D)\<lparr>bd_time := bar_Time bar, bd_bondID := bo_baseAssetID s, bd_price := bar_Close bar,
                     bd_CompressionArmed := bo_compressionArmed s, bd_BarsAboveTrigger := bo_barsAboveTrigger s\<rparr>
          in if \<not> Rolling_Ready (bo_longVolWin s)
             then (s, Inr (d\<lparr>bd_signal := SignalHold, bd_reason := ''warming_up''\<rparr>))
             else BO_signal D bar prevClose s d)"

section \<open>Exit bands\<close>

definition bandLevel :: "'d decimal_ops \<Rightarrow> 'd \<Rightarrow> 'd \<Rightarrow> 'd \<Rightarrow> bool \<Rightarrow> 'd option" where
  "bandLevel D entryPrice entryATR multiplier wantAbove =
     (if \<not> d_IsPos D multiplier then None
      else case d_mul D multiplier entryATR of
          (_, Some _) \<Rightarrow> None
        | (distance, None) \<Rightarrow>
            (case (if wantAbove then d_add D entryPrice distance else d_sub D entryPrice distance) of
               (_, Some _) \<Rightarrow> None
             | (level, None) \<Rightarrow> Some level))"

definition exitPriceCrosses :: "'d decimal_ops \<Rightarrow> 'd \<Rightarrow> 'd \<Rightarrow> 'd \<Rightarrow> 'd \<Rightarrow> bool \<Rightarrow> bool option" where
  "exitPriceCrosses D entryPrice entryATR multiplier currentPrice wantAbove =
     (case bandLevel D entryPrice entryATR multiplier wantAbove of
        None \<Rightarrow> None
      | Some level \<Rightarrow> Some (if wantAbove then d_cmp D currentPrice level \<ge> 0 else d_cmp D currentPrice level \<le> 0))"

definition isReversal :: "Signal \<Rightarrow> Signal \<Rightarrow> bool" where
  "isReversal openSig current \<longleftrightarrow> openSig \<noteq> current \<and> current \<noteq> SignalHold"

text \<open>One band of \<open>liveCheckSLTP\<close>: the multiplier is enabled and the price has crossed.\<close>

definition band_hit :: "'d decimal_ops \<Rightarrow> 'd \<Rightarrow> 'd \<Rightarrow> 'd \<Rightarrow> 'd \<Rightarrow> bool \<Rightarrow> bool" where
  "band_hit D multiplier entryPrice entryATR price wantAbove \<longleftrightarrow>
     d_IsPos D multiplier \<and> exitPriceCrosses D entryPrice entryATR multiplier price wantAbove = Some True"

definition liveCheckSLTP ::
  "'d decimal_ops \<Rightarrow> Signal \<Rightarrow> 'd \<Rightarrow> 'd \<Rightarrow> 'd \<Rightarrow> 'd BOConfig \<Rightarrow> string option" where
  "liveCheckSLTP D openSig entryPrice entryATR currentPrice cfg =
     (if d_IsZero D entryATR then None
      else
        case openSig of
          SignalBuy \<Rightarrow>
            if band_hit D (bc_StopLossATR cfg) entryPrice entryATR currentPrice False then Some ''stop_loss''
            else if band_hit D (bc_TakeProfitATR cfg) entryPrice entryATR currentPrice True then Some ''take_profit''
            else None
        | SignalSell \<Rightarrow>
            if band_hit D (bc_StopLossATR cfg) entryPrice entryATR currentPrice True then Some ''stop_loss''
            else if band_hit D (bc_TakeProfitATR cfg) entryPrice entryATR currentPrice False then Some ''take_profit''
            else None
        | SignalHold \<Rightarrow> None)"

end
