(* ===== verification/BO_Loop.thy ===== *)
theory BO_Loop
  imports BO_Model
begin

text \<open>
  Orders and the live loop of the breakout strategy: \<open>executeDecision\<close>, \<open>closePosition\<close>, \<open>runLoop\<close> and
  \<open>Run\<close> of \<open>src/strategy/breakout/strategy.go\<close>.

  \<open>bo_step\<close> is one pass of the \<open>select\<close>, \<open>BO_Run\<close> everything before the loop. A closed trade channel stays
  ready and changes nothing, so it is an event without effect.
\<close>

section \<open>Orders\<close>

definition BO_currentPosition :: "'d MREnv \<Rightarrow> string \<Rightarrow> 'd res" where
  "BO_currentPosition E assetID = rbind (tryv (me_AssetPosition E assetID)) (\<lambda>(available, _). Inr available)"

definition positionOrFetch :: "'d decimal_ops \<Rightarrow> 'd MREnv \<Rightarrow> string \<Rightarrow> 'd BOStrategy \<Rightarrow> 'd \<times> bool" where
  "positionOrFetch D E assetID s =
     (if bo_balancesInitialized s then (bo_bondQty s, True)
      else case BO_currentPosition E assetID of Inl _ \<Rightarrow> (d_zero D, False) | Inr pos \<Rightarrow> (pos, False))"

definition BO_cappedOrderQuantity :: "'d decimal_ops \<Rightarrow> 'd \<Rightarrow> 'd \<Rightarrow> 'd \<Rightarrow> 'd option res" where
  "BO_cappedOrderQuantity D fraction position price =
     rbind (tryv (d_mul D position fraction)) (\<lambda>budget.
     rbind (tryv (d_quo D budget price)) (\<lambda>qty.
     let qty = d_floor D qty in Inr (if d_IsZero D qty then None else Some qty)))"

definition BO_recordDecision :: "'d MREnv \<Rightarrow> 'd DecisionRow \<Rightarrow> 'd BOStrategy \<Rightarrow> 'd BOStrategy \<times> 'd Effect list" where
  "BO_recordDecision E d s =
     (if \<not> bo_decisionStore s then (s, [])
      else
        let s = s\<lparr>bo_decisionSeq := wrap64 (bo_decisionSeq s + 1)\<rparr>;
            d = d\<lparr>dr_RunID := bo_runID s, dr_Seq := bo_decisionSeq s, dr_StrategyType := ''breakout'',
                  dr_CreatedAt := (if time_IsZero (dr_CreatedAt d) then time_UTC (me_Now E) else dr_CreatedAt d)\<rparr>
        in (s, [EDecision d (me_SaveDecision E d)]))"

definition BO_decision_row ::
  "'d decimal_ops \<Rightarrow> 'd MREnv \<Rightarrow> 'd BOStrategy \<Rightarrow> string \<Rightarrow> Side \<Rightarrow> string \<Rightarrow> 'd \<Rightarrow> 'd \<Rightarrow> 'd \<Rightarrow> DecisionKind \<Rightarrow>
     string \<Rightarrow> string \<Rightarrow> string \<Rightarrow> 'd DecisionRow" where
  "BO_decision_row D E s assetID side sig qty price il kind reason detail cid =
     \<lparr>dr_RunID = [], dr_Seq = 0, dr_StrategyType = [], dr_OrderBookID = bc_OrderBookID (bo_cfg s),
      dr_Asset = MustParseUUID (me_ParseUUID E) assetID, dr_Side = Side_string side, dr_Signal = sig,
      dr_Quantity = qty, dr_Price = price, dr_Leverage = bc_Leverage (bo_cfg s), dr_InverseLeverage = il,
      dr_FromGlobal = False, dr_Kind = kind, dr_Reason = reason, dr_ReasonDetail = detail,
      dr_CreatedAt = time_zero, dr_ClientOrderID = cid\<rparr>"

definition BO_request :: "'d MREnv \<Rightarrow> 'd BOStrategy \<Rightarrow> Side \<Rightarrow> 'd \<Rightarrow> 'd \<Rightarrow> 'd OrderRequest" where
  "BO_request E s side qty il =
     \<lparr>oreq_Book = bc_OrderBookID (bo_cfg s), oreq_Side = side, oreq_Quantity = qty, oreq_InverseLeverage = il,
      oreq_FromGlobal = False, oreq_ClientOrderID = BuildClientOrderID ''breakout'' (bo_runID s) (me_NewV7 E)\<rparr>"

definition BO_apply_fill :: "'d decimal_ops \<Rightarrow> bool \<Rightarrow> Side \<Rightarrow> 'd \<Rightarrow> 'd BODecision \<Rightarrow> 'd BOStrategy \<Rightarrow> 'd BOStrategy" where
  "BO_apply_fill D useTracked side quantity decision s =
     (let s = (if useTracked then
                 let s = (if side = SIDE_BUY then s\<lparr>bo_bondQty := fst (d_add D (bo_bondQty s) quantity)\<rparr>
                          else s\<lparr>bo_bondQty := fst (d_sub D (bo_bondQty s) quantity)\<rparr>)
                 in s\<lparr>bo_openSignal := (if d_IsPos D (bo_bondQty s) then SignalBuy
                                        else if d_IsNeg D (bo_bondQty s) then SignalSell else SignalHold)\<rparr>
               else s\<lparr>bo_openSignal := bd_signal decision\<rparr>)
      in s\<lparr>bo_entryPrice := bd_price decision, bo_entryATR := bd_ATR decision\<rparr>)"

definition BO_open_order ::
  "'d decimal_ops \<Rightarrow> 'd MREnv \<Rightarrow> 'd BODecision \<Rightarrow> string \<Rightarrow> bool \<Rightarrow> 'd OrderRequest \<Rightarrow> 'd BOStrategy \<Rightarrow>
     'd BOStrategy \<times> bool res \<times> 'd Effect list" where
  "BO_open_order D E decision assetID useTracked req s =
     (let resp = me_CreateMarketOrder E req in
      case snd resp of
        Some err \<Rightarrow> (s, Inl err, [EOrder req resp])
      | None \<Rightarrow>
          (case BO_recordDecision E (BO_decision_row D E s assetID (oreq_Side req) (Signal_String (bd_signal decision))
               (oreq_Quantity req) (bd_price decision) (oreq_InverseLeverage req) DecisionKindOpen (bd_reason decision)
               (''breakout entry: signal='' @ Signal_String (bd_signal decision) @ '' compression='' @
                  me_String E (bd_CompressionRatio decision)) (oreq_ClientOrderID req)) s of
             (s, eff) \<Rightarrow>
               (BO_apply_fill D useTracked (oreq_Side req) (oreq_Quantity req) decision s, Inr True, EOrder req resp # eff)))"

definition BO_executeDecision ::
  "'d decimal_ops \<Rightarrow> 'd MREnv \<Rightarrow> 'd BODecision \<Rightarrow> string \<Rightarrow> 'd BOStrategy \<Rightarrow>
     'd BOStrategy \<times> bool res \<times> 'd Effect list" where
  "BO_executeDecision D E decision assetID s =
     (if bd_signal decision = SignalHold then (s, Inr False, [])
      else if d_IsZero D (bd_price decision) then (s, Inl ''cannot execute decision: price is zero'', [])
      else
        case positionOrFetch D E assetID s of
          (position, useTracked) \<Rightarrow>
            (case BO_cappedOrderQuantity D (bd_positionSize decision) position (bd_price decision) of
               Inl err \<Rightarrow> (s, Inl err, [])
             | Inr None \<Rightarrow> (s, Inr False, [])
             | Inr (Some quantity) \<Rightarrow>
                 let side = (if bd_signal decision = SignalSell then SIDE_SELL else SIDE_BUY) in
                 (case tryv (d_quo D (d_one D) (bc_Leverage (bo_cfg s))) of
                    Inl err \<Rightarrow> (s, Inl (''compute inverse leverage: '' @ err), [])
                  | Inr inverseLeverage \<Rightarrow>
                      BO_open_order D E decision assetID useTracked (BO_request E s side quantity inverseLeverage) s)))"

definition BO_set_flat :: "'d decimal_ops \<Rightarrow> 'd BOStrategy \<Rightarrow> 'd BOStrategy" where
  "BO_set_flat D s = s\<lparr>bo_openSignal := SignalHold, bo_entryPrice := d_zero D, bo_entryATR := d_zero D\<rparr>"

definition BO_close_order ::
  "'d decimal_ops \<Rightarrow> 'd MREnv \<Rightarrow> string \<Rightarrow> string \<Rightarrow> 'd OrderRequest \<Rightarrow> 'd BOStrategy \<Rightarrow>
     'd BOStrategy \<times> gerror option \<times> 'd Effect list" where
  "BO_close_order D E assetID reason req s =
     (let resp = me_CreateMarketOrder E req in
      case snd resp of
        Some err \<Rightarrow> (s, Some err, [EOrder req resp])
      | None \<Rightarrow>
          let closeSignal = (if oreq_Side req = SIDE_BUY then SignalBuy else SignalSell) in
          (case BO_recordDecision E (BO_decision_row D E s assetID (oreq_Side req) (Signal_String closeSignal)
               (oreq_Quantity req) (bo_lastPrice s) (oreq_InverseLeverage req) DecisionKindClose reason
               (''close: '' @ reason) (oreq_ClientOrderID req)) s of
             (s, eff) \<Rightarrow>
               (BO_set_flat D (if bo_balancesInitialized s then s\<lparr>bo_bondQty := d_zero D\<rparr> else s), None,
                EOrder req resp # eff)))"

definition BO_closePosition ::
  "'d decimal_ops \<Rightarrow> 'd MREnv \<Rightarrow> string \<Rightarrow> string \<Rightarrow> 'd BOStrategy \<Rightarrow> 'd BOStrategy \<times> gerror option \<times> 'd Effect list" where
  "BO_closePosition D E assetID reason s =
     (if bo_openSignal s = SignalHold then (s, None, [])
      else
        let side = (if bo_openSignal s = SignalSell then SIDE_BUY else SIDE_SELL);
            il = (case d_quo D (d_one D) (bc_Leverage (bo_cfg s)) of (v, None) \<Rightarrow> v | (_, Some _) \<Rightarrow> d_one D) in
        if bo_balancesInitialized s
        then BO_close_order D E assetID reason (BO_request E s side (d_abs D (bo_bondQty s)) il) s
        else
          case BO_currentPosition E assetID of
            Inl err \<Rightarrow> (s, Some err, [])
          | Inr qty \<Rightarrow>
              if d_IsZero D qty then (BO_set_flat D s, None, [])
              else BO_close_order D E assetID reason (BO_request E s side qty il) s)"

section \<open>The loop\<close>

definition recordErr :: "gerror option \<Rightarrow> 'd BOStrategy \<Rightarrow> 'd BOStrategy" where
  "recordErr err s = (case err of None \<Rightarrow> s | Some e \<Rightarrow> s\<lparr>bo_errs := bo_errs s @ [e]\<rparr>)"

definition BO_close :: "'d decimal_ops \<Rightarrow> 'd MREnv \<Rightarrow> string \<Rightarrow> string \<Rightarrow> 'd BOStrategy \<Rightarrow> 'd BOStrategy \<times> 'd Effect list" where
  "BO_close D E assetID reason s = (case BO_closePosition D E assetID reason s of (s, err, eff) \<Rightarrow> (recordErr err s, eff))"

definition BO_handle_bar ::
  "'d decimal_ops \<Rightarrow> 'd MREnv \<Rightarrow> string \<Rightarrow> 'd Bar \<Rightarrow> 'd BOStrategy \<Rightarrow> 'd BOStrategy \<times> 'd Effect list" where
  "BO_handle_bar D E assetID bar s0 =
     (case BO_Update D bar s0 of
        (s, Inl err) \<Rightarrow> (s, [])
      | (s, Inr decision) \<Rightarrow>
          if bo_paused s0 then (s, [])
          else if bo_openSignal s0 \<noteq> SignalHold then
            if isReversal (bo_openSignal s0) (bd_signal decision) then BO_close D E assetID ''breakout_reversal'' s
            else (s, [])
          else if bd_signal decision \<noteq> SignalHold then
            (case BO_executeDecision D E decision assetID s of
               (s, Inl err, eff) \<Rightarrow> (recordErr (Some err) s, eff)
             | (s, Inr _, eff) \<Rightarrow> (s, eff))
          else (s, []))"

definition BO_handle_price ::
  "'d decimal_ops \<Rightarrow> 'd MREnv \<Rightarrow> string \<Rightarrow> 'd AssetPrice \<Rightarrow> 'd BOStrategy \<Rightarrow> 'd BOStrategy \<times> 'd Effect list" where
  "BO_handle_price D E assetID px s =
     (if ap_AssetID px \<noteq> assetID then (s, [])
      else if bo_paused s \<or> bo_openSignal s = SignalHold then (s, [])
      else case liveCheckSLTP D (bo_openSignal s) (bo_entryPrice s) (bo_entryATR s) (ap_Price px) (bo_cfg s) of
          None \<Rightarrow> (s, [])
        | Some reason \<Rightarrow> BO_close D E assetID reason s)"

definition BO_handle_prices ::
  "'d decimal_ops \<Rightarrow> string \<Rightarrow> ('d MREnv \<times> 'd AssetPrice) list \<Rightarrow> 'd BOStrategy \<Rightarrow> 'd BOStrategy \<times> 'd Effect list" where
  "BO_handle_prices D assetID pxs s = run_events (\<lambda>(E, px). BO_handle_price D E assetID px) pxs s"

definition bo_message :: "Message \<Rightarrow> 'd BOStrategy \<Rightarrow> 'd BOStrategy" where
  "bo_message msg s =
     (case msg of
        Stop \<Rightarrow> s\<lparr>bo_cancelled := True\<rparr>
      | Pause \<Rightarrow> s\<lparr>bo_paused := True\<rparr>
      | Resume \<Rightarrow> s\<lparr>bo_paused := False\<rparr>)"

record 'd BOLoop =
  bl_strat :: "'d BOStrategy"
  bl_assetID :: string
  bl_trades :: bool
  bl_done :: bool

definition bo_step :: "'d decimal_ops \<Rightarrow> 'd MREvent \<Rightarrow> 'd BOLoop \<Rightarrow> 'd BOLoop \<times> 'd Effect list" where
  "bo_step D ev l =
     (if bl_done l then (l, [])
      else
        case ev of
          MRCtxDone \<Rightarrow> (l\<lparr>bl_done := True, bl_strat := (bl_strat l)\<lparr>bo_isRunning := False\<rparr>\<rparr>, [])
        | MRMsg msg \<Rightarrow> (l\<lparr>bl_strat := bo_message msg (bl_strat l)\<rparr>, [])
        | MRBar E bar \<Rightarrow>
            (case BO_handle_bar D E (bl_assetID l) bar (bl_strat l) of (s, eff) \<Rightarrow> (l\<lparr>bl_strat := s\<rparr>, eff))
        | MRPrices pxs \<Rightarrow>
            (case BO_handle_prices D (bl_assetID l) pxs (bl_strat l) of (s, eff) \<Rightarrow> (l\<lparr>bl_strat := s\<rparr>, eff))
        | MRTrade t \<Rightarrow> if bl_trades l then (l\<lparr>bl_strat := applyTradeEvent D t (bl_strat l)\<rparr>, []) else (l, [])
        | MRTradesClosed \<Rightarrow> (l, [])
        | MRTick \<Rightarrow> (l, []))"

section \<open>Starting a run\<close>

definition BO_subscribeTrades :: "'d MRSetup \<Rightarrow> 'd BOStrategy \<Rightarrow> bool" where
  "BO_subscribeTrades S s \<longleftrightarrow> \<not> (bc_OBVWindow (bo_cfg s) = 0 \<or> \<not> su_tradeStream S)"

definition BO_setup :: "'d decimal_ops \<Rightarrow> 'd MRSetup \<Rightarrow> 'd BOStrategy \<Rightarrow> 'd BOStrategy \<times> 'd BOLoop res" where
  "BO_setup D S s =
     (case LookupAssetID (su_client S) (su_BaseAssetID S) (bc_OrderBookID (bo_cfg s)) of
        Inl err \<Rightarrow> (s, Inl (''lookup asset ID: '' @ err))
      | Inr assetID \<Rightarrow>
          let s = s\<lparr>bo_baseAssetID := assetID\<rparr> in
          if \<not> su_candleFeed S then (s, Inl ''candle feed not configured'')
          else (case requireCandleCoverage S of
              Some err \<Rightarrow> (s, Inl err)
            | None \<Rightarrow>
                let warmup = wrap64 (wrap64 (bc_LongVolWindow (bo_cfg s) + 1) * ResolutionDuration (bc_Resolution (bo_cfg s))) in
                (case su_SubscribeBars S (bc_OrderBookID (bo_cfg s)) (bc_Resolution (bo_cfg s))
                     (time_Add (time_UTC (me_Now (su_env S))) (wrap64 (- warmup))) of
                   Some err \<Rightarrow> (s, Inl (''failed to subscribe to bars: '' @ err))
                 | None \<Rightarrow> (s, Inr \<lparr>bl_strat = s, bl_assetID = assetID, bl_trades = BO_subscribeTrades S s, bl_done = False\<rparr>))))"

definition BO_Run :: "'d decimal_ops \<Rightarrow> 'd MRSetup \<Rightarrow> string \<Rightarrow> 'd BOStrategy \<Rightarrow> 'd BOStrategy \<times> 'd BOLoop res" where
  "BO_Run D S runID s =
     (if bo_isRunning s then (s, Inl ''strategy is already running'')
      else if \<not> su_client S then (s, Inl ''breakout: market API client is not configured'')
      else
        let s = s\<lparr>bo_runID := runID, bo_cancelled := False\<rparr> in
        case su_subscribePrices S of
          Some err \<Rightarrow> (s, Inl (''subscribe to prices: '' @ err))
        | None \<Rightarrow>
            (case BO_setup D S (s\<lparr>bo_isRunning := True\<rparr>) of
               (s, Inl err) \<Rightarrow> (s\<lparr>bo_isRunning := False\<rparr>, Inl err)
             | (s, Inr l) \<Rightarrow> (s, Inr l)))"

end
