(* ===== verification/BO_Backtest.thy ===== *)
theory BO_Backtest
  imports BO_Loop MR_Backtest
begin

text \<open>
  The breakout backtest: \<open>src/strategy/breakout/backtest.go\<close>, its record types (\<open>types.go\<close>), and the
  loading of its inputs (\<open>Backtest\<close> in \<open>strategy.go\<close>, \<open>getBars\<close>, \<open>PreflightBacktest\<close> and \<open>loadTicks\<close> in
  \<open>historical_data.go\<close>).

  The layout follows the mean-reversion backtest: the variables of \<open>Run\<close> are the record \<open>BOState\<close>, each
  phase of a bar is a function on it, and the two cursors are the remaining suffixes of the slices.
  The code of \<open>tickWindow\<close>, of the trading-window test and of \<open>checkCandleCoverage\<close> is the same text in
  both packages and shares its definition. Copying the result rows to a store (\<open>streamTrades\<close>) is left out.
\<close>

section \<open>Records\<close>

record 'd BOTradeRecord =
  btr_Time :: gtime
  btr_BondID :: string
  btr_Signal :: Signal
  btr_Price :: 'd
  btr_Quantity :: 'd
  btr_PositionSize :: 'd
  btr_CompressionRatio :: 'd
  btr_EntryATR :: 'd

record 'd BOClosedTrade =
  bct_BondID :: string
  bct_OpenTime :: gtime
  bct_CloseTime :: gtime
  bct_Signal :: Signal
  bct_ExitSignal :: Signal
  bct_EntryPrice :: 'd
  bct_ExitPrice :: 'd
  bct_Quantity :: 'd
  bct_PositionSize :: 'd
  bct_PnL :: 'd
  bct_ExitReason :: string
  bct_EntryCompressionRatio :: 'd
  bct_ExitCompressionRatio :: 'd

record 'd BOResult =
  bor_ClosedTrades :: "'d BOClosedTrade list"
  bor_TradeRecords :: "'d BOTradeRecord list"
  bor_Summary :: "'d Summary"

record 'd BOState =
  bx_strat :: "'d BOStrategy"
  bx_closed :: "'d BOClosedTrade list"
  bx_records :: "'d BOTradeRecord list"
  bx_open :: "'d BOTradeRecord option"
  bx_last :: "'d BODecision"
  bx_balance :: 'd
  bx_trades :: "'d TapeTrade list"
  bx_ticks :: "'d AssetPrice list"
  bx_prevTicks :: bool

section \<open>Exits\<close>

definition isStopBandHit :: "'d decimal_ops \<Rightarrow> 'd BOTradeRecord \<Rightarrow> 'd \<Rightarrow> 'd BOConfig \<Rightarrow> bool" where
  "isStopBandHit D tr price cfg \<longleftrightarrow> d_IsPos D (bc_StopLossATR cfg) \<and>
     exitPriceCrosses D (btr_Price tr) (btr_EntryATR tr) (bc_StopLossATR cfg) price (btr_Signal tr = SignalSell) = Some True"

definition isTPBandHit :: "'d decimal_ops \<Rightarrow> 'd BOTradeRecord \<Rightarrow> 'd \<Rightarrow> 'd BOConfig \<Rightarrow> bool" where
  "isTPBandHit D tr price cfg \<longleftrightarrow> d_IsPos D (bc_TakeProfitATR cfg) \<and>
     exitPriceCrosses D (btr_Price tr) (btr_EntryATR tr) (bc_TakeProfitATR cfg) price (btr_Signal tr = SignalBuy) = Some True"

definition breakoutStopFill :: "'d decimal_ops \<Rightarrow> Signal \<Rightarrow> 'd \<Rightarrow> 'd \<Rightarrow> 'd" where
  "breakoutStopFill D openSignal level opn =
     (if openSignal = SignalBuy then (if d_cmp D opn level < 0 then opn else level)
      else if d_cmp D opn level > 0 then opn else level)"

definition breakoutTPFill :: "'d decimal_ops \<Rightarrow> Signal \<Rightarrow> 'd \<Rightarrow> 'd \<Rightarrow> 'd" where
  "breakoutTPFill D openSignal level opn =
     (if openSignal = SignalBuy then (if d_cmp D opn level > 0 then opn else level)
      else if d_cmp D opn level < 0 then opn else level)"

text \<open>\<open>level, _ := bandLevel(...)\<close>: the zero decimal when there is no level.\<close>

definition band_or_zero :: "'d decimal_ops \<Rightarrow> 'd option \<Rightarrow> 'd" where
  "band_or_zero D l = (case l of None \<Rightarrow> d_zero D | Some x \<Rightarrow> x)"

definition exitForBar ::
  "'d decimal_ops \<Rightarrow> 'd BOConfig \<Rightarrow> 'd BOTradeRecord \<Rightarrow> 'd Bar \<Rightarrow> 'd BODecision \<Rightarrow> ('d \<times> string) option" where
  "exitForBar D cfg tr bar decision =
     (let adverse = (if btr_Signal tr = SignalSell then bar_High bar else bar_Low bar);
          favorable = (if btr_Signal tr = SignalSell then bar_Low bar else bar_High bar)
      in if isStopBandHit D tr adverse cfg
         then Some (breakoutStopFill D (btr_Signal tr)
                (band_or_zero D (bandLevel D (btr_Price tr) (btr_EntryATR tr) (bc_StopLossATR cfg) (btr_Signal tr = SignalSell)))
                (bar_Open bar), ''stop_loss'')
         else if isTPBandHit D tr favorable cfg
         then Some (breakoutTPFill D (btr_Signal tr)
                (band_or_zero D (bandLevel D (btr_Price tr) (btr_EntryATR tr) (bc_TakeProfitATR cfg) (btr_Signal tr = SignalBuy)))
                (bar_Open bar), ''take_profit'')
         else if isReversal (btr_Signal tr) (bd_signal decision) then Some (bd_price decision, ''reversal'')
         else None)"

definition BO_computePnL :: "'d decimal_ops \<Rightarrow> 'd BOClosedTrade \<Rightarrow> 'd res" where
  "BO_computePnL D ct =
     rbind (tryv (d_mul D (bct_EntryPrice ct) (bct_Quantity ct))) (\<lambda>costBasis.
     rbind (tryv (d_mul D (bct_ExitPrice ct) (bct_Quantity ct))) (\<lambda>proceeds.
     case bct_Signal ct of
       SignalBuy \<Rightarrow> tryv (d_sub D proceeds costBasis)
     | SignalSell \<Rightarrow> tryv (d_sub D costBasis proceeds)
     | SignalHold \<Rightarrow> Inr (d_zero D)))"

text \<open>The closed trade both \<open>closeAtPrice\<close> and the forced close build.\<close>

definition BO_closed ::
  "'d decimal_ops \<Rightarrow> 'd BOTradeRecord \<Rightarrow> 'd BODecision \<Rightarrow> string \<Rightarrow> 'd BOClosedTrade res" where
  "BO_closed D tr decision reason =
     (let ct = \<lparr>bct_BondID = btr_BondID tr, bct_OpenTime = btr_Time tr, bct_CloseTime = bd_time decision,
        bct_Signal = btr_Signal tr, bct_ExitSignal = bd_signal decision, bct_EntryPrice = btr_Price tr,
        bct_ExitPrice = bd_price decision, bct_Quantity = btr_Quantity tr, bct_PositionSize = btr_PositionSize tr,
        bct_PnL = d_zero D, bct_ExitReason = reason, bct_EntryCompressionRatio = btr_CompressionRatio tr,
        bct_ExitCompressionRatio = bd_CompressionRatio decision\<rparr>
      in rbind (BO_computePnL D ct) (\<lambda>pnl. Inr (ct\<lparr>bct_PnL := pnl\<rparr>)))"

definition closeAtPrice ::
  "'d decimal_ops \<Rightarrow> 'd BOTradeRecord \<Rightarrow> 'd BODecision \<Rightarrow> 'd \<Rightarrow> string \<Rightarrow> ('d BOClosedTrade \<times> 'd) res" where
  "closeAtPrice D tr decision balance reason =
     rbind (tryv (d_mul D (bd_price decision) (btr_Quantity tr))) (\<lambda>cashFlow.
     rbind (case btr_Signal tr of
              SignalBuy \<Rightarrow> tryv (d_add D balance cashFlow)
            | SignalSell \<Rightarrow> tryv (d_sub D balance cashFlow)
            | SignalHold \<Rightarrow> Inr balance) (\<lambda>newBalance.
     rbind (BO_closed D tr decision reason) (\<lambda>ct. Inr (ct, newBalance))))"

definition BO_close_trade ::
  "'d decimal_ops \<Rightarrow> 'd BOTradeRecord \<Rightarrow> 'd BODecision \<Rightarrow> string \<Rightarrow> 'd BOState \<Rightarrow> 'd BOState res" where
  "BO_close_trade D tr decision reason st =
     rbind (closeAtPrice D tr decision (bx_balance st) reason) (\<lambda>(ct, newBalance).
     Inr (st\<lparr>bx_balance := newBalance, bx_closed := bx_closed st @ [ct], bx_open := None\<rparr>))"

section \<open>The phases of a bar\<close>

fun BO_ingestTradesUpTo ::
  "'d decimal_ops \<Rightarrow> 'd TapeTrade list \<Rightarrow> gtime \<Rightarrow> 'd BOStrategy \<Rightarrow> 'd TapeTrade list \<times> 'd BOStrategy" where
  "BO_ingestTradesUpTo D [] ts s = ([], s)"
| "BO_ingestTradesUpTo D (t # rest) ts s =
     (if \<not> time_After (tt_Time t) ts
      then BO_ingestTradesUpTo D rest ts
             (applyTradeEvent D \<lparr>te_Quantity = tt_Quantity t, te_Price = tt_Price t, te_Side = tt_Side t\<rparr> s)
      else (t # rest, s))"

definition BO_bt_update :: "'d decimal_ops \<Rightarrow> int \<Rightarrow> 'd Bar \<Rightarrow> 'd BOState \<Rightarrow> 'd BOState res" where
  "BO_bt_update D res bar st =
     (case BO_ingestTradesUpTo D (bx_trades st) (time_Add (bar_Time bar) res) (bx_strat st) of
        (rest, s) \<Rightarrow>
          (case BO_Update D bar s of
             (s, Inl err) \<Rightarrow> Inl err
           | (s, Inr decision) \<Rightarrow> Inr (st\<lparr>bx_trades := rest, bx_strat := s, bx_last := decision\<rparr>)))"

definition reversal_record :: "'d BOTradeRecord \<Rightarrow> 'd BODecision \<Rightarrow> 'd BOTradeRecord" where
  "reversal_record tr d = \<lparr>btr_Time = bd_time d, btr_BondID = btr_BondID tr, btr_Signal = btr_Signal tr, btr_Price = bd_price d,
     btr_Quantity = btr_Quantity tr, btr_PositionSize = btr_Quantity tr, btr_CompressionRatio = btr_CompressionRatio tr,
     btr_EntryATR = btr_EntryATR tr\<rparr>"

definition BO_bar_exit :: "'d decimal_ops \<Rightarrow> int \<Rightarrow> 'd Bar \<Rightarrow> 'd BOTradeRecord \<Rightarrow> 'd BOState \<Rightarrow> 'd BOState res" where
  "BO_bar_exit D res bar tr st =
     (let decision = bx_last st;
          choice = (if bx_prevTicks st
                    then if isReversal (btr_Signal tr) (bd_signal decision) then Some (bd_price decision, ''reversal'') else None
                    else exitForBar D (bo_cfg (bx_strat st)) tr bar decision)
      in case choice of
           None \<Rightarrow> Inr st
         | Some (fillPrice, reason) \<Rightarrow>
             let d = decision\<lparr>bd_price := fillPrice, bd_time := time_Add (bar_Time bar) res\<rparr>;
                 st = (if reason = ''reversal'' then st\<lparr>bx_records := bx_records st @ [reversal_record tr d]\<rparr> else st)
             in BO_close_trade D tr d reason st)"

definition BO_entry_record :: "int \<Rightarrow> 'd BODecision \<Rightarrow> 'd \<Rightarrow> 'd BOTradeRecord" where
  "BO_entry_record res decision qty =
     \<lparr>btr_Time = time_Add (bd_time decision) res, btr_BondID = bd_bondID decision, btr_Signal = bd_signal decision,
      btr_Price = bd_price decision, btr_Quantity = qty, btr_PositionSize = qty,
      btr_CompressionRatio = bd_ArmedCompressionRatio decision, btr_EntryATR = bd_ATR decision\<rparr>"

definition BO_bar_entry :: "'d decimal_ops \<Rightarrow> 'd Backtester \<Rightarrow> int \<Rightarrow> 'd Bar \<Rightarrow> 'd BOState \<Rightarrow> 'd BOState res" where
  "BO_bar_entry D b res bar st =
     (let decision = bx_last st in
      if bd_signal decision \<noteq> SignalHold \<and> in_window b res bar
      then
        rbind (tryv (d_mul D (bx_balance st) (bd_positionSize decision))) (\<lambda>budget.
        rbind (tryv (d_quo D budget (bd_price decision))) (\<lambda>qty.
        let qty = d_floor D qty in
        if d_IsZero D qty then Inr st
        else
          let rec = BO_entry_record res decision qty in
          rbind (tryv (d_mul D (bd_price decision) qty)) (\<lambda>cashFlow.
          rbind (entry_cash D (bd_signal decision) cashFlow (bx_balance st)) (\<lambda>bal.
          Inr (st\<lparr>bx_records := bx_records st @ [rec], bx_open := Some rec, bx_balance := bal\<rparr>)))))
      else Inr st)"

fun BO_tick_loop :: "'d decimal_ops \<Rightarrow> 'd BOTradeRecord \<Rightarrow> 'd AssetPrice list \<Rightarrow> 'd BOState \<Rightarrow> 'd BOState res" where
  "BO_tick_loop D tr [] st = Inr st"
| "BO_tick_loop D tr (tick # ticks) st =
     (case liveCheckSLTP D (btr_Signal tr) (btr_Price tr) (btr_EntryATR tr) (ap_Price tick) (bo_cfg (bx_strat st)) of
        Some reason \<Rightarrow> BO_close_trade D tr ((bx_last st)\<lparr>bd_price := ap_Price tick, bd_time := ap_Time tick\<rparr>) reason st
      | None \<Rightarrow> BO_tick_loop D tr ticks st)"

definition BO_bar_ticks :: "'d decimal_ops \<Rightarrow> int \<Rightarrow> 'd Bar \<Rightarrow> gtime \<Rightarrow> 'd BOState \<Rightarrow> 'd BOState res" where
  "BO_bar_ticks D res bar nextClose st =
     (case bx_open st of
        None \<Rightarrow> Inr st
      | Some tr \<Rightarrow>
          (case tickWindow (bx_ticks st) (time_Add (bar_Time bar) res) nextClose of
             (rest, win) \<Rightarrow> BO_tick_loop D tr win (st\<lparr>bx_ticks := rest, bx_prevTicks := win \<noteq> []\<rparr>)))"

section \<open>The run\<close>

definition BO_bt_bar ::
  "'d decimal_ops \<Rightarrow> 'd Backtester \<Rightarrow> int \<Rightarrow> 'd Bar \<Rightarrow> 'd Bar list \<Rightarrow> 'd BOState \<Rightarrow> 'd BOState res" where
  "BO_bt_bar D b res bar later st =
     rbind (BO_bt_update D res bar st) (\<lambda>st.
     rbind (case bx_open st of Some tr \<Rightarrow> BO_bar_exit D res bar tr st | None \<Rightarrow> BO_bar_entry D b res bar st) (\<lambda>st.
     BO_bar_ticks D res bar (next_close res bar later) st))"

fun BO_bt_loop ::
  "'d decimal_ops \<Rightarrow> 'd Backtester \<Rightarrow> int \<Rightarrow> (nat \<Rightarrow> bool) \<Rightarrow> nat \<Rightarrow> 'd Bar list \<Rightarrow> 'd BOState \<Rightarrow> 'd BOState res" where
  "BO_bt_loop D b res cancelled i [] st = Inr st"
| "BO_bt_loop D b res cancelled i (bar # later) st =
     (if cancelled i then Inl ''backtest cancelled by user''
      else rbind (BO_bt_bar D b res bar later st) (BO_bt_loop D b res cancelled (i + 1) later))"

text \<open>The forced close at the end of history; the new balance is computed and dropped.\<close>

definition BO_force_close :: "'d decimal_ops \<Rightarrow> int \<Rightarrow> 'd Bar list \<Rightarrow> 'd BOState \<Rightarrow> 'd BOState res" where
  "BO_force_close D res bars st =
     (case bx_open st of
        None \<Rightarrow> Inr st
      | Some tr \<Rightarrow>
          if bars = [] then Inr st
          else
            let d = (bx_last st)\<lparr>bd_time := time_Add (bar_Time (last bars)) res\<rparr>;
                rec = \<lparr>btr_Time = bd_time d, btr_BondID = btr_BondID tr, btr_Signal = btr_Signal tr, btr_Price = bd_price d,
                  btr_Quantity = btr_Quantity tr, btr_PositionSize = btr_Quantity tr,
                  btr_CompressionRatio = btr_CompressionRatio tr, btr_EntryATR = d_zero D\<rparr>
            in rbind (closeAtPrice D tr d (bx_balance st) ''strategy_exit'') (\<lambda>(ct, _).
               Inr (st\<lparr>bx_records := bx_records st @ [rec], bx_closed := bx_closed st @ [ct]\<rparr>)))"

definition BO_loadTrades ::
  "'d BOStrategy \<Rightarrow> (gtime \<Rightarrow> gtime \<Rightarrow> 'd TapeTrade list) option \<Rightarrow> 'd Bar list \<Rightarrow> 'd TapeTrade list" where
  "BO_loadTrades s store bars =
     (case store of
        None \<Rightarrow> []
      | Some stream \<Rightarrow>
          if bc_OBVWindow (bo_cfg s) = 0 \<or> bars = [] then []
          else stream (bar_Time (hd bars)) (bar_Time (last bars)))"

definition computeSummary :: "'d decimal_ops \<Rightarrow> 'd BOClosedTrade list \<Rightarrow> gtime \<Rightarrow> gtime \<Rightarrow> 'd Summary res" where
  "computeSummary D cts start finish =
     Summarise D (map (\<lambda>t. \<lparr>pp_PnL = bct_PnL t, pp_CloseTime = bct_CloseTime t\<rparr>) cts) start finish"

definition BO_bt_start ::
  "'d decimal_ops \<Rightarrow> 'd Backtester \<Rightarrow> (gtime \<Rightarrow> gtime \<Rightarrow> 'd TapeTrade list) option \<Rightarrow> 'd BOStrategy \<Rightarrow> 'd Bar list \<Rightarrow> 'd \<Rightarrow> 'd BOState" where
  "BO_bt_start D b store s bars capital =
     \<lparr>bx_strat = s, bx_closed = [], bx_records = [], bx_open = None, bx_last = BODecision_zero D, bx_balance = capital,
      bx_trades = BO_loadTrades s store bars, bx_ticks = bt_ticks b, bx_prevTicks = False\<rparr>"

definition BO_Backtester_Run ::
  "'d decimal_ops \<Rightarrow> 'd Backtester \<Rightarrow> (gtime \<Rightarrow> gtime \<Rightarrow> 'd TapeTrade list) option \<Rightarrow> (nat \<Rightarrow> bool) \<Rightarrow> 'd BOStrategy \<Rightarrow>
     'd Bar list \<Rightarrow> 'd BOResult res" where
  "BO_Backtester_Run D b store cancelled s bars =
     (if bars = []
      then Inr \<lparr>bor_ClosedTrades = [], bor_TradeRecords = [],
        bor_Summary = \<lparr>TotalPnL = d_zero D, WinCount = 0, LossCount = 0, MaxDrawdown = d_zero D, SharpeRatio = d_zero D\<rparr>\<rparr>
      else
        rbind (tryv (d_mul D (bc_InitialBalance (bo_cfg s)) (bc_Leverage (bo_cfg s)))) (\<lambda>capital.
        let res = ResolutionDuration (bc_Resolution (bo_cfg s)) in
        rbind (BO_bt_loop D b res cancelled 0 bars (BO_bt_start D b store s bars capital)) (\<lambda>st.
        rbind (BO_force_close D res bars st) (\<lambda>st.
        let start = (if time_IsZero (bt_TradeFrom b) then bar_Time (hd bars) else bt_TradeFrom b);
            finish = (if time_IsZero (bt_TradeTo b) then bar_Time (last bars) else bt_TradeTo b)
        in rbind (computeSummary D (bx_closed st) start finish) (\<lambda>summary.
           Inr \<lparr>bor_ClosedTrades = bx_closed st, bor_TradeRecords = bx_records st, bor_Summary = summary\<rparr>)))))"

section \<open>Loading the inputs\<close>

definition BO_warmup_start :: "'d BOConfig \<Rightarrow> int \<Rightarrow> gtime \<Rightarrow> gtime" where
  "BO_warmup_start cfg res start = time_Add start (wrap64 (wrap64 (- wrap64 (bc_LongVolWindow cfg + 1)) * res))"

definition BO_PreflightBacktest :: "'d MRHistory \<Rightarrow> 'd BOConfig \<Rightarrow> gtime \<Rightarrow> gtime \<Rightarrow> gerror option" where
  "BO_PreflightBacktest H cfg start finish =
     (if \<not> hi_injectedStore H then None
      else
        let res = ResolutionDuration (bc_Resolution cfg) in
        if res = 0 then Some ''unknown resolution''
        else checkCandleCoverage H (BO_warmup_start cfg res start) (load_end res finish))"

definition BO_getBars :: "'d decimal_ops \<Rightarrow> 'd MRHistory \<Rightarrow> gtime \<Rightarrow> gtime \<Rightarrow> 'd BOConfig \<Rightarrow> 'd Bar list res" where
  "BO_getBars D H start finish cfg =
     (let res = ResolutionDuration (bc_Resolution cfg) in
      if res = 0 then Inl ''unknown resolution''
      else
        let dataStart = BO_warmup_start cfg res start; loadEnd = load_end res finish in
        rbind (case hi_candleStore H of Some err \<Rightarrow> Inl err | None \<Rightarrow> Inr ()) (\<lambda>_.
        rbind (case checkCandleCoverage H dataStart loadEnd of Some err \<Rightarrow> Inl err | None \<Rightarrow> Inr ()) (\<lambda>_.
        case hi_LoadCandlesBucketed H (bc_OrderBookID cfg) (bc_Resolution cfg) dataStart loadEnd of
          (_, Some err) \<Rightarrow> Inl (''load candles: '' @ err)
        | (loaded, None) \<Rightarrow> Inr (map (BarFromCandle D) loaded))))"

definition BO_loadTicks :: "'d MRHistory \<Rightarrow> 'd BOConfig \<Rightarrow> string \<Rightarrow> 'd Bar list \<Rightarrow> 'd AssetPrice list" where
  "BO_loadTicks H cfg assetID bars =
     (if bars = [] \<or> hi_priceStore H \<noteq> None then []
      else
        let res = ResolutionDuration (bc_Resolution cfg) in
        (case hi_LoadHistoricalPrices H assetID (bar_Time (hd bars)) (time_Add (bar_Time (last bars)) res) of
           (_, Some _) \<Rightarrow> [] | (ticks, None) \<Rightarrow> ticks))"

definition BO_Backtest ::
  "'d decimal_ops \<Rightarrow> 'd MRHistory \<Rightarrow> (nat \<Rightarrow> bool) \<Rightarrow> gtime \<Rightarrow> gtime \<Rightarrow> 'd BOStrategy \<Rightarrow> 'd BOResult res" where
  "BO_Backtest D H cancelled start finish s =
     (let now = me_Now (hi_env H) in
      if time_Before (time_UTC finish) (time_UTC start) then Inl ''end date must be after start date''
      else if time_After (time_UTC start) (time_UTC now) \<or> time_After (time_UTC finish) (time_UTC now)
      then Inl ''start and end date must be in the past''
      else
        rbind (BO_getBars D H start finish (bo_cfg s)) (\<lambda>bars.
        rbind (LookupAssetID (hi_client H) (hi_BaseAssetID H) (bc_OrderBookID (bo_cfg s))) (\<lambda>assetID.
        let s = s\<lparr>bo_baseAssetID := assetID\<rparr> in
        BO_Backtester_Run D \<lparr>bt_ticks = BO_loadTicks H (bo_cfg s) assetID bars, bt_TradeFrom = start, bt_TradeTo = finish\<rparr>
          (hi_trades H) cancelled s bars)))"

end
