(* ===== verification/BO_Props.thy ===== *)
theory BO_Props
  imports BO_Loop MR_Props
begin

text \<open>
  Lemmas on the breakout strategy: what one bar changes (\<open>BO_Update_frame\<close>, \<open>BO_Update_counters\<close>), the
  invariant of the live loop, and the interpretations of \<open>guarded_loop\<close> for it: \<open>bo\<close>, where a pause keeps
  the loop quiet, and \<open>bo_flat\<close>, where an account without bonds does.
\<close>

section \<open>What a bar leaves alone\<close>

definition BO_frame where
  "BO_frame s = (bo_cfg s, bo_openSignal s, bo_balancesInitialized s, bo_bondQty s, bo_entryPrice s, bo_entryATR s,
     bo_paused s, bo_isRunning s, bo_runID s, bo_obvWindow s, bo_obvSum s)"

lemma ingestObservation_frame:
  "BO_frame (fst (ingestObservation D bar pc s)) = BO_frame s"
  "bo_compressionArmed (fst (ingestObservation D bar pc s)) = bo_compressionArmed s"
  "bo_barsAboveTrigger (fst (ingestObservation D bar pc s)) = bo_barsAboveTrigger s"
  "bo_barsBelowTrigger (fst (ingestObservation D bar pc s)) = bo_barsBelowTrigger s"
  by (auto simp: ingestObservation_def BO_frame_def Let_def split: sum.split prod.split option.split)

lemma arm_frame [simp]:
  "BO_frame (arm D r s) = BO_frame s" "bo_barsAboveTrigger (arm D r s) = bo_barsAboveTrigger s"
  "bo_barsBelowTrigger (arm D r s) = bo_barsBelowTrigger s" "bo_cfg (arm D r s) = bo_cfg s"
  "bo_compressionArmed (arm D r s) \<longleftrightarrow> bo_compressionArmed s \<or> d_cmp D r (bc_CompressionThreshold (bo_cfg s)) < 0"
  by (simp_all add: arm_def BO_frame_def)

lemma evaluateBreakout_frame: "BO_frame (fst (evaluateBreakout D p pp atr s d)) = BO_frame s"
  by (auto simp: evaluateBreakout_def BO_frame_def resetArmed_def Let_def split: option.split prod.split)

lemma BO_Update_split:
  "BO_Update D bar s = (s', r) \<Longrightarrow> s' = fst (ingestObservation D bar (bo_lastPrice s) s) \<or>
     (\<exists>d. Rolling_Ready (bo_longVolWin (fst (ingestObservation D bar (bo_lastPrice s) s))) \<and>
       BO_signal D bar (bo_lastPrice s) (fst (ingestObservation D bar (bo_lastPrice s) s)) d = (s', r))"
  by (auto simp: BO_Update_def Let_def split: prod.splits option.splits if_splits)

lemma BO_signal_split:
  assumes "BO_signal D bar pc s d = (s', r)"
  obtains (same) "s' = s"
    | (armed) ratio where "s' = arm D ratio s" "\<not> bo_compressionArmed (arm D ratio s)"
    | (eval) ratio atr d1 where "bo_compressionArmed (arm D ratio s)"
      "s' = fst (evaluateBreakout D (bar_Close bar) pc atr (arm D ratio s) d1)"
proof (cases "rollingStats D s")
  case (Inl e)
  then show thesis using assms by (intro same) (simp add: BO_signal_def)
next
  case (Inr st)
  obtain sv lv atr where st: "st = (sv, lv, atr)" by (rule prod_cases3)
  show thesis
  proof (cases "d_cmp D lv (bc_MinLongVolFloor (bo_cfg s)) < 0")
    case True
    then show thesis using assms Inr st by (intro same) (simp add: BO_signal_def Let_def)
  next
    case floor: False
    show thesis
    proof (cases "compressionRatio D sv lv")
      case (Inl e)
      then show thesis using assms Inr st floor by (intro same) (simp add: BO_signal_def Let_def)
    next
      case r: (Inr ratio)
      show thesis
      proof (cases "bo_compressionArmed (arm D ratio s)")
        case True
        show thesis
          by (rule eval [OF True, of atr "let d = d\<lparr>bd_ShortVol := sv, bd_LongVol := lv, bd_ATR := atr, bd_CompressionRatio := ratio\<rparr>
              in if d_cmp D ratio (bc_CompressionThreshold (bo_cfg s)) < 0 then d\<lparr>bd_CompressionArmed := True\<rparr> else d"])
            (use assms Inr st floor r True in \<open>auto simp: BO_signal_def Let_def simp del: arm_frame(5) split: prod.splits if_splits\<close>)
      next
        case False
        then show thesis using assms Inr st floor r
          by (intro armed [of ratio]) (simp_all add: BO_signal_def Let_def del: arm_frame(5))
      qed
    qed
  qed
qed

lemma BO_Update_frame:
  assumes "BO_Update D bar s = (s', r)"
  shows "BO_frame s' = BO_frame s"
proof -
  let ?i = "fst (ingestObservation D bar (bo_lastPrice s) s)"
  from BO_Update_split [OF assms] show ?thesis
  proof
    assume "s' = ?i"
    then show ?thesis by (simp add: ingestObservation_frame)
  next
    assume "\<exists>d. Rolling_Ready (bo_longVolWin ?i) \<and> BO_signal D bar (bo_lastPrice s) ?i d = (s', r)"
    then obtain d where "BO_signal D bar (bo_lastPrice s) ?i d = (s', r)" by blast
    then show ?thesis
      by (cases rule: BO_signal_split) (simp_all add: ingestObservation_frame evaluateBreakout_frame)
  qed
qed

section \<open>The confirmation counters\<close>

definition counters_ok :: "'d BOStrategy \<Rightarrow> bool" where
  "counters_ok s \<longleftrightarrow> int64_ok (bc_ConfirmationBars (bo_cfg s)) \<and>
     0 \<le> bo_barsAboveTrigger s \<and> bo_barsAboveTrigger s < max 1 (bc_ConfirmationBars (bo_cfg s)) \<and>
     0 \<le> bo_barsBelowTrigger s \<and> bo_barsBelowTrigger s < max 1 (bc_ConfirmationBars (bo_cfg s)) \<and>
     (\<not> bo_compressionArmed s \<longrightarrow> bo_barsAboveTrigger s = 0 \<and> bo_barsBelowTrigger s = 0)"

lemma counter_no_wrap:
  "int64_ok c \<Longrightarrow> 0 \<le> n \<Longrightarrow> n < max 1 c \<Longrightarrow> wrap64 (n + 1) = n + 1"
  by (rule wrap64_id) (auto simp: int64_ok_def max_def split: if_splits)

lemma evaluateBreakout_counters:
  assumes "counters_ok s" "bo_compressionArmed s"
  shows "counters_ok (fst (evaluateBreakout D p pp atr s d))"
proof (cases "trigger_levels D (bo_cfg s) pp atr")
  case None
  then show ?thesis using assms by (simp add: evaluateBreakout_def)
next
  case (Some hl)
  note w = counter_no_wrap [of "bc_ConfirmationBars (bo_cfg s)"]
  show ?thesis
    using Some assms w [of "bo_barsAboveTrigger s"] w [of "bo_barsBelowTrigger s"]
    by (cases hl) (auto simp: evaluateBreakout_def counters_ok_def resetArmed_def Let_def)
qed

lemma BO_frame_cfg: "BO_frame s' = BO_frame s \<Longrightarrow> bo_cfg s' = bo_cfg s"
  by (simp add: BO_frame_def)

lemma BO_Update_counters:
  assumes "BO_Update D bar s = (s', r)" "counters_ok s"
  shows "counters_ok s'"
proof -
  let ?i = "fst (ingestObservation D bar (bo_lastPrice s) s)"
  have i: "counters_ok ?i"
    using assms(2) BO_frame_cfg [OF ingestObservation_frame(1) [of D bar "bo_lastPrice s" s]]
    by (simp add: counters_ok_def ingestObservation_frame)
  then have a: "counters_ok (arm D q ?i)" for q by (simp add: counters_ok_def)
  from BO_Update_split [OF assms(1)] show ?thesis
  proof
    assume "\<exists>d. Rolling_Ready (bo_longVolWin ?i) \<and> BO_signal D bar (bo_lastPrice s) ?i d = (s', r)"
    then obtain d where "BO_signal D bar (bo_lastPrice s) ?i d = (s', r)" by blast
    then show ?thesis
      by (cases rule: BO_signal_split) (use i a evaluateBreakout_counters [OF a] in \<open>simp_all del: arm_frame(5)\<close>)
  qed (use i in simp)
qed

section \<open>The invariant of the live loop\<close>

text \<open>The counters are in range, positions are always read from the exchange, and a flat strategy carries
  no entry state.\<close>

definition bo_inv :: "'d decimal_ops \<Rightarrow> 'd BOStrategy \<Rightarrow> bool" where
  "bo_inv D s \<longleftrightarrow> counters_ok s \<and> \<not> bo_balancesInitialized s \<and>
     (bo_openSignal s = SignalHold \<longrightarrow> bo_entryPrice s = d_zero D \<and> bo_entryATR s = d_zero D)"

definition BO_signal_state where
  "BO_signal_state s = (bo_cfg s, bo_compressionArmed s, bo_barsAboveTrigger s, bo_barsBelowTrigger s,
     bo_balancesInitialized s, bo_paused s)"

lemma BO_signal_state_inv:
  "BO_signal_state s' = BO_signal_state s \<Longrightarrow> bo_inv D s \<Longrightarrow>
     (bo_openSignal s' = SignalHold \<longrightarrow> bo_entryPrice s' = d_zero D \<and> bo_entryATR s' = d_zero D) \<Longrightarrow> bo_inv D s'"
  by (simp add: BO_signal_state_def bo_inv_def counters_ok_def)

lemma recordErr_state [simp]:
  "BO_signal_state (recordErr e s) = BO_signal_state s" "bo_openSignal (recordErr e s) = bo_openSignal s"
  "bo_entryPrice (recordErr e s) = bo_entryPrice s" "bo_entryATR (recordErr e s) = bo_entryATR s"
  by (simp_all add: recordErr_def BO_signal_state_def split: option.split)

lemma BO_recordDecision_state:
  assumes "BO_recordDecision E d s = (s', eff)"
  shows "BO_signal_state s' = BO_signal_state s" "bo_openSignal s' = bo_openSignal s" "bo_entryPrice s' = bo_entryPrice s"
    "bo_entryATR s' = bo_entryATR s" "order_qtys eff = []"
  using assms by (auto simp: BO_recordDecision_def BO_signal_state_def Let_def split: if_splits)

text \<open>A closing attempt either leaves the strategy as it was or flattens it.\<close>

lemma BO_close_order_result:
  assumes "BO_close_order D E a reason req s = (s', err, eff)"
  shows "BO_signal_state s' = BO_signal_state s \<and> order_qtys eff = [oreq_Quantity req] \<and>
    (s' = s \<or> bo_openSignal s' = SignalHold \<and> bo_entryPrice s' = d_zero D \<and> bo_entryATR s' = d_zero D)"
proof (cases "snd (me_CreateMarketOrder E req)")
  case None
  obtain row where r: "s' = BO_set_flat D (let s = fst (BO_recordDecision E row s) in
      if bo_balancesInitialized s then s\<lparr>bo_bondQty := d_zero D\<rparr> else s)"
    "eff = EOrder req (me_CreateMarketOrder E req) # snd (BO_recordDecision E row s)"
    using assms None by (auto simp: BO_close_order_def Let_def split_beta)
  note d = BO_recordDecision_state [OF prod.collapse [symmetric, of "BO_recordDecision E row s"]]
  show ?thesis
    using d(1) d(5) by (simp add: r BO_set_flat_def Let_def BO_signal_state_def)
next
  case (Some e)
  then show ?thesis using assms by (auto simp: BO_close_order_def Let_def)
qed

lemma BO_closePosition_result:
  assumes "BO_closePosition D E a reason s = (s', err, eff)"
  shows "BO_signal_state s' = BO_signal_state s \<and> length (order_qtys eff) \<le> 1 \<and>
    (s' = s \<or> bo_openSignal s' = SignalHold \<and> bo_entryPrice s' = d_zero D \<and> bo_entryATR s' = d_zero D)"
proof -
  have "s' = s \<and> eff = [] \<or> s' = BO_set_flat D s \<and> eff = [] \<or> (\<exists>req. BO_close_order D E a reason req s = (s', err, eff))"
    using assms by (auto simp: BO_closePosition_def Let_def split: if_splits sum.splits)
  then show ?thesis
    by (elim disjE exE) (simp add: BO_signal_state_def, simp add: BO_set_flat_def BO_signal_state_def,
        drule BO_close_order_result, simp)
qed

lemma BO_close_result:
  assumes "BO_close D E a reason s = (s', eff)" "bo_inv D s"
  shows "bo_inv D s' \<and> length (order_qtys eff) \<le> 1 \<and> bo_paused s' = bo_paused s"
proof -
  obtain s1 err where c: "BO_closePosition D E a reason s = (s1, err, eff)" "s' = recordErr err s1"
    using assms(1) by (auto simp: BO_close_def split: prod.splits)
  note r = BO_closePosition_result [OF c(1)]
  have "bo_openSignal s1 = SignalHold \<longrightarrow> bo_entryPrice s1 = d_zero D \<and> bo_entryATR s1 = d_zero D"
    using conjunct2 [OF conjunct2 [OF r]] assms(2) by (auto simp: bo_inv_def)
  then have i: "bo_inv D s1" by (rule BO_signal_state_inv [OF conjunct1 [OF r] assms(2)])
  have "bo_inv D s'" by (rule BO_signal_state_inv [OF _ i]) (use i in \<open>simp_all add: c(2) bo_inv_def\<close>)
  moreover have "bo_paused s' = bo_paused s"
    using r by (simp add: c(2) recordErr_def BO_signal_state_def split: option.split)
  ultimately show ?thesis using r by simp
qed

lemma BO_open_order_result:
  assumes "BO_open_order D E dec a False req s = (s', r, eff)" "bd_signal dec \<noteq> SignalHold"
  shows "BO_signal_state s' = BO_signal_state s \<and> order_qtys eff = [oreq_Quantity req] \<and>
    (s' = s \<or> bo_openSignal s' = bd_signal dec)"
proof (cases "snd (me_CreateMarketOrder E req)")
  case None
  obtain row where r: "s' = BO_apply_fill D False (oreq_Side req) (oreq_Quantity req) dec (fst (BO_recordDecision E row s))"
    "eff = EOrder req (me_CreateMarketOrder E req) # snd (BO_recordDecision E row s)"
    using assms None by (auto simp: BO_open_order_def Let_def split_beta)
  note d = BO_recordDecision_state [OF prod.collapse [symmetric, of "BO_recordDecision E row s"]]
  show ?thesis using d(1) d(5) by (simp add: r BO_apply_fill_def BO_signal_state_def)
next
  case (Some e)
  then show ?thesis using assms by (auto simp: BO_open_order_def Let_def)
qed

lemma BO_executeDecision_result:
  assumes "BO_executeDecision D E dec a s = (s', r, eff)" "\<not> bo_balancesInitialized s"
  shows "BO_signal_state s' = BO_signal_state s \<and> length (order_qtys eff) \<le> 1 \<and>
    (s' = s \<or> bo_openSignal s' = bd_signal dec \<and> bd_signal dec \<noteq> SignalHold)"
proof -
  have "s' = s \<and> eff = [] \<or>
      bd_signal dec \<noteq> SignalHold \<and> (\<exists>req. BO_open_order D E dec a False req s = (s', r, eff))"
    using assms by (auto simp: BO_executeDecision_def positionOrFetch_def Let_def split: if_splits sum.splits option.splits)
  then show ?thesis using BO_open_order_result by fastforce
qed

section \<open>One event\<close>

lemma BO_frame_inv:
  assumes "BO_Update D bar s = (s', r)" "bo_inv D s"
  shows "bo_inv D s'" "bo_paused s' = bo_paused s" "bo_openSignal s' = bo_openSignal s"
proof -
  note f = BO_Update_frame [OF assms(1)]
  show "bo_inv D s'"
    using assms(2) f BO_Update_counters [OF assms(1)] by (simp add: bo_inv_def BO_frame_def)
  show "bo_paused s' = bo_paused s" "bo_openSignal s' = bo_openSignal s" using f by (simp_all add: BO_frame_def)
qed

definition tame_bo :: "'d decimal_ops \<Rightarrow> nat \<Rightarrow> 'd BOStrategy \<Rightarrow> 'd BOStrategy \<times> 'd Effect list \<Rightarrow> bool" where
  "tame_bo D n s p \<longleftrightarrow> bo_inv D (fst p) \<and> length (order_qtys (snd p)) \<le> n \<and> bo_paused (fst p) = bo_paused s \<and>
     (bo_paused s \<longrightarrow> order_qtys (snd p) = [])"

lemma BO_handle_bar_tame:
  assumes "bo_inv D s"
  shows "tame_bo D 1 s (BO_handle_bar D E a bar s)"
proof -
  obtain s1 r where u: "BO_Update D bar s = (s1, r)" by (rule prod.exhaust)
  note i = BO_frame_inv [OF u assms]
  have ex: "bo_inv D (fst (BO_executeDecision D E d a s1)) \<and> length (order_qtys (snd (snd (BO_executeDecision D E d a s1)))) \<le> 1 \<and>
      bo_paused (fst (BO_executeDecision D E d a s1)) = bo_paused s" for d
  proof -
    obtain s2 q eff where e: "BO_executeDecision D E d a s1 = (s2, q, eff)" by (rule prod_cases3)
    have x: "BO_signal_state s2 = BO_signal_state s1 \<and> length (order_qtys eff) \<le> 1 \<and>
        (s2 = s1 \<or> bo_openSignal s2 = bd_signal d \<and> bd_signal d \<noteq> SignalHold)"
      by (rule BO_executeDecision_result [OF e]) (use i(1) in \<open>simp add: bo_inv_def\<close>)
    have "bo_inv D s2" by (rule BO_signal_state_inv [OF conjunct1 [OF x] i(1)]) (use x i(1) in \<open>auto simp: bo_inv_def\<close>)
    then show ?thesis using x i(2) by (simp add: e BO_signal_state_def)
  qed
  have re: "bo_inv D (recordErr e s2) = bo_inv D s2" "bo_paused (recordErr e s2) = bo_paused s2" for e and s2 :: "'a BOStrategy"
    by (simp_all add: recordErr_def bo_inv_def counters_ok_def split: option.split)
  have cl: "tame_bo D 1 s (BO_close D E a reason s1)" if "\<not> bo_paused s" for reason
    using BO_close_result [OF prod.collapse [symmetric] i(1)] that i(2) by (simp add: tame_bo_def)
  show ?thesis
  proof (cases r)
    case (Inl e)
    then show ?thesis using u i by (simp add: BO_handle_bar_def tame_bo_def)
  next
    case (Inr d)
    then show ?thesis
      using u i ex [of d] re cl by (auto simp: BO_handle_bar_def tame_bo_def split: prod.split sum.split)
  qed
qed

lemma BO_handle_price_tame:
  assumes "bo_inv D s"
  shows "tame_bo D 1 s (BO_handle_price D E a px s)"
  using assms BO_close_result [OF prod.collapse [symmetric] assms]
  by (auto simp: BO_handle_price_def tame_bo_def split: option.split)

lemma BO_handle_prices_tame:
  assumes "bo_inv D s"
  shows "tame_bo D (length pxs) s (BO_handle_prices D a pxs s)"
  using assms
proof (induction pxs arbitrary: s)
  case (Cons p pxs)
  obtain E px where p: "p = (E, px)" by (rule prod.exhaust)
  have h: "tame_bo D 1 s (BO_handle_price D E a px s)" by (rule BO_handle_price_tame [OF Cons.prems])
  then have "bo_inv D (fst (BO_handle_price D E a px s))" by (simp add: tame_bo_def)
  then show ?case
    using h Cons.IH [of "fst (BO_handle_price D E a px s)"] p
    by (auto simp: BO_handle_prices_def tame_bo_def split_beta)
qed (simp add: BO_handle_prices_def tame_bo_def)

definition bo_quiet :: "'d decimal_ops \<Rightarrow> 'd BOLoop \<Rightarrow> bool" where
  "bo_quiet D l \<longleftrightarrow> bl_done l \<or> bo_inv D (bl_strat l) \<and> bo_paused (bl_strat l)"


text \<open>The number of orders does not depend on the invariant.\<close>

lemma BO_open_order_qtys: "order_qtys (snd (snd (BO_open_order D E dec a t req s))) = [oreq_Quantity req]"
  using BO_recordDecision_state(5) [OF prod.collapse [symmetric]]
  by (auto simp: BO_open_order_def Let_def split_beta split: option.split)

lemma BO_executeDecision_orders: "length (order_qtys (snd (snd (BO_executeDecision D E dec a s)))) \<le> 1"
  by (auto simp: BO_executeDecision_def Let_def BO_open_order_qtys split: prod.split sum.split option.split)

lemma BO_close_orders: "length (order_qtys (snd (BO_close D E a reason s))) \<le> 1"
proof -
  obtain s1 err eff where c: "BO_closePosition D E a reason s = (s1, err, eff)" by (rule prod_cases3)
  show ?thesis using BO_closePosition_result [OF c] by (simp add: BO_close_def c)
qed

lemma BO_handle_bar_orders: "length (order_qtys (snd (BO_handle_bar D E a bar s))) \<le> Suc 0"
proof -
  obtain s1 r where u: "BO_Update D bar s = (s1, r)" by (rule prod.exhaust)
  show ?thesis
    using u BO_close_orders [of D E a "''breakout_reversal''" s1] BO_executeDecision_orders [of D E _ a s1]
    by (cases r) (auto simp: BO_handle_bar_def split_beta split: sum.split)
qed

lemma BO_handle_prices_orders: "length (order_qtys (snd (BO_handle_prices D a pxs s))) \<le> length pxs"
proof (induction pxs arbitrary: s)
  case (Cons p pxs)
  obtain E px where p: "p = (E, px)" by (rule prod.exhaust)
  have h: "length (order_qtys (snd (BO_handle_price D E a px s))) \<le> 1"
    using BO_close_orders [of D E a _ s] by (auto simp: BO_handle_price_def split: option.split)
  then show ?case
    using Cons.IH [of "fst (BO_handle_price D E a px s)"] p by (simp add: BO_handle_prices_def split_beta)
qed (simp add: BO_handle_prices_def)

lemma bo_inv_obv: "bo_inv D (applyTradeEvent D t s) = bo_inv D s" "bo_paused (applyTradeEvent D t s) = bo_paused s"
  "bo_openSignal (applyTradeEvent D t s) = bo_openSignal s"
  by (simp_all add: applyTradeEvent_def bo_inv_def counters_ok_def split: option.split)

lemma bo_step_result:
  shows "bo_inv D (bl_strat l) \<Longrightarrow> bo_inv D (bl_strat (fst (bo_step D e l)))"
    and "length (order_qtys (snd (bo_step D e l))) \<le> mr_weight e"
    and "bo_quiet D l \<Longrightarrow> \<not> mr_wakes e \<Longrightarrow> bo_quiet D (fst (bo_step D e l)) \<and> order_qtys (snd (bo_step D e l)) = []"
proof -
  note bar = BO_handle_bar_tame [of D "bl_strat l", unfolded tame_bo_def]
  note pxs = BO_handle_prices_tame [of D "bl_strat l", unfolded tame_bo_def]
  have upd: "bo_inv D (s\<lparr>bo_isRunning := x\<rparr>) = bo_inv D s" "bo_inv D (bo_message m s) = bo_inv D s" for x m and s :: "'a BOStrategy"
    by (simp_all add: bo_inv_def counters_ok_def bo_message_def split: Message.split)
  have msg: "bo_paused s \<Longrightarrow> \<not> mr_wakes (MRMsg m :: 'a MREvent) \<Longrightarrow> bo_paused (bo_message m s)" for m and s :: "'a BOStrategy"
    by (simp add: bo_message_def mr_wakes_def split: Message.splits)
  show "bo_inv D (bl_strat l) \<Longrightarrow> bo_inv D (bl_strat (fst (bo_step D e l)))"
    using bar pxs by (simp add: bo_step_def split_beta upd bo_inv_obv split: MREvent.split)
  show "length (order_qtys (snd (bo_step D e l))) \<le> mr_weight e"
    by (simp add: bo_step_def mr_weight_def split_beta BO_handle_bar_orders BO_handle_prices_orders split: MREvent.split)
  show "bo_quiet D l \<Longrightarrow> \<not> mr_wakes e \<Longrightarrow> bo_quiet D (fst (bo_step D e l)) \<and> order_qtys (snd (bo_step D e l)) = []"
    using bar pxs
    by (auto simp: bo_step_def bo_quiet_def split_beta upd bo_inv_obv msg split: MREvent.split)
qed

interpretation bo: guarded_loop "bo_step D" "\<lambda>l. bo_inv D (bl_strat l)" mr_weight "bo_quiet D" mr_wakes
  for D :: "'d decimal_ops"
  using bo_step_result [where D = D] by unfold_locales auto

section \<open>An account without bonds\<close>

definition reports_no_bonds :: "('d \<Rightarrow> rat) \<Rightarrow> 'd MREvent \<Rightarrow> bool" where
  "reports_no_bonds val e \<longleftrightarrow>
     (case e of MRBar E _ \<Rightarrow> (\<forall>a av bor. me_AssetPosition E a = ((av, bor), None) \<longrightarrow> val av = 0) | _ \<Rightarrow> True)"

definition bo_idle :: "'d decimal_ops \<Rightarrow> ('d \<Rightarrow> rat) \<Rightarrow> (rat \<Rightarrow> rat) \<Rightarrow> 'd BOLoop \<Rightarrow> bool" where
  "bo_idle D val rnd l \<longleftrightarrow> decimal_laws D val rnd \<and> bo_openSignal (bl_strat l) = SignalHold \<and>
     \<not> bo_balancesInitialized (bl_strat l)"

lemma BO_capped_zero:
  assumes "decimal_laws D val rnd" "val position = 0" "val price \<noteq> 0"
    "BO_cappedOrderQuantity D fraction position price = Inr q"
  shows "q = None"
proof -
  obtain b x where "d_mul D position fraction = (b, None)" "d_quo D b price = (x, None)"
    and q: "q = (if d_IsZero D (d_floor D x) then None else Some (d_floor D x))"
    using assms(4) by (auto simp: BO_cappedOrderQuantity_def Let_def rbind_eq_Inr tryv_eq_Inr)
  then have "val x = rnd (rnd 0 / val price)"
    using val_mul [OF assms(1)] val_quo [OF assms(1)] assms(2,3) by simp
  then show ?thesis using rnd_zero [OF assms(1)] by (simp add: q dec_exact [OF assms(1)])
qed

lemma BO_executeDecision_no_bonds:
  assumes "decimal_laws D val rnd" "\<not> bo_balancesInitialized s"
    "\<forall>a av bor. me_AssetPosition E a = ((av, bor), None) \<longrightarrow> val av = 0"
  shows "fst (BO_executeDecision D E d a s) = s" "snd (snd (BO_executeDecision D E d a s)) = []"
proof -
  obtain p t where pf: "positionOrFetch D E a s = (p, t)" by (rule prod.exhaust)
  then have "val p = 0"
    using assms dec_exact(1) [OF assms(1)]
    by (auto simp: positionOrFetch_def BO_currentPosition_def tryv_eq_Inr rbind_eq_Inr split: sum.splits)
  then have q: "BO_cappedOrderQuantity D fr p price = Inr x \<Longrightarrow> \<not> d_IsZero D price \<Longrightarrow> x = None" for fr price x
    using BO_capped_zero [OF assms(1)] dec_exact(9) [OF assms(1)] by blast
  show "fst (BO_executeDecision D E d a s) = s" "snd (snd (BO_executeDecision D E d a s)) = []"
    by (auto simp: BO_executeDecision_def pf Let_def split: sum.split option.split dest: q)
qed

lemma BO_handle_bar_no_bonds:
  assumes "decimal_laws D val rnd" "bo_openSignal s = SignalHold" "\<not> bo_balancesInitialized s"
    "\<forall>a av bor. me_AssetPosition E a = ((av, bor), None) \<longrightarrow> val av = 0"
  shows "bo_openSignal (fst (BO_handle_bar D E a bar s)) = SignalHold"
    "\<not> bo_balancesInitialized (fst (BO_handle_bar D E a bar s))" "order_qtys (snd (BO_handle_bar D E a bar s)) = []"
proof -
  obtain s1 r where u: "BO_Update D bar s = (s1, r)" by (rule prod.exhaust)
  have f: "bo_openSignal s1 = SignalHold" "\<not> bo_balancesInitialized s1"
    using BO_Update_frame [OF u] assms(2,3) by (simp_all add: BO_frame_def)
  have x: "fst (BO_executeDecision D E d a s1) = s1" "snd (snd (BO_executeDecision D E d a s1)) = []" for d
    by (rule BO_executeDecision_no_bonds [OF assms(1) f(2) assms(4)])+
  have re: "bo_openSignal (recordErr e s2) = bo_openSignal s2" "bo_balancesInitialized (recordErr e s2) = bo_balancesInitialized s2"
    for e and s2 :: "'a BOStrategy"
    by (simp_all add: recordErr_def split: option.split)
  have k: "BO_handle_bar D E a bar s = (s1, []) \<or> (\<exists>m. BO_handle_bar D E a bar s = (recordErr (Some m) s1, []))"
  proof (cases r)
    case (Inl m)
    then show ?thesis using u by (simp add: BO_handle_bar_def)
  next
    case (Inr d)
    obtain q where "BO_executeDecision D E d a s1 = (s1, q, [])" using x [of d] by (metis prod.collapse)
    then show ?thesis using u Inr assms(2) by (cases q) (auto simp: BO_handle_bar_def)
  qed
  then show "bo_openSignal (fst (BO_handle_bar D E a bar s)) = SignalHold"
    "\<not> bo_balancesInitialized (fst (BO_handle_bar D E a bar s))" "order_qtys (snd (BO_handle_bar D E a bar s)) = []"
    using f re by auto
qed

lemma BO_handle_prices_idle: "bo_openSignal s = SignalHold \<Longrightarrow> BO_handle_prices D a pxs s = (s, [])"
  by (induction pxs) (auto simp: BO_handle_prices_def BO_handle_price_def)

interpretation bo_flat: guarded_loop "bo_step D" "\<lambda>l. bo_inv D (bl_strat l)" mr_weight "bo_idle D val rnd"
    "\<lambda>e. \<not> reports_no_bonds val e"
  for D :: "'d decimal_ops" and val rnd
proof (unfold_locales, goal_cases)
  case (3 l e)
  note h = BO_handle_bar_no_bonds [of D val rnd "bl_strat l"]
  show ?case
    using 3 h by (auto simp: bo_step_def bo_idle_def reports_no_bonds_def split_beta BO_handle_prices_idle bo_message_def
        applyTradeEvent_def split: MREvent.splits Message.split option.split)
qed (use bo_step_result [where D = D] in auto)

section \<open>Starting a run\<close>

lemma BO_New_inv: "int64_ok (bc_ConfirmationBars cfg) \<Longrightarrow> bo_inv D (BO_New D cfg store seq)"
  by (simp add: BO_New_def Let_def bo_inv_def counters_ok_def)

lemma BO_Run_ok:
  assumes "BO_Run D S r s0 = (s, Inr l)" "bo_inv D s0"
  shows "bo_inv D (bl_strat l)" "\<not> bl_done l" "bo_openSignal (bl_strat l) = bo_openSignal s0" "bo_cfg (bl_strat l) = bo_cfg s0"
proof -
  let ?s = "s0\<lparr>bo_runID := r, bo_cancelled := False, bo_isRunning := True\<rparr>"
  have "BO_setup D S ?s = (s, Inr l)"
    using assms(1) by (auto simp: BO_Run_def Let_def split: if_splits option.splits prod.splits sum.splits)
  then obtain a where "bl_strat l = ?s\<lparr>bo_baseAssetID := a\<rparr>" "\<not> bl_done l"
    by (auto simp: BO_setup_def Let_def split: if_splits option.splits sum.splits)
  then show "bo_inv D (bl_strat l)" "\<not> bl_done l" "bo_openSignal (bl_strat l) = bo_openSignal s0" "bo_cfg (bl_strat l) = bo_cfg s0"
    using assms(2) by (simp_all add: bo_inv_def counters_ok_def)
qed

end
