(* ===== verification/BO_Correct.thy ===== *)
theory BO_Correct
  imports BO_Props
begin

text \<open>
  The correctness theorems of the live breakout strategy: when a bar gives a signal, the bounds of the
  confirmation counters over every run, and what its order paths do with the position the exchange
  reports.
\<close>

section \<open>When a bar gives a signal\<close>

text \<open>The market is compressed, or was and the strategy is still armed; the trigger levels of a bar; the
  volume confirms a direction.\<close>

definition bo_compressed :: "'d decimal_ops \<Rightarrow> 'd BOStrategy \<Rightarrow> bool" where
  "bo_compressed D s \<longleftrightarrow>
     (case rollingStats D s of
        Inl _ \<Rightarrow> False
      | Inr (shortVol, longVol, _) \<Rightarrow>
          \<not> d_cmp D longVol (bc_MinLongVolFloor (bo_cfg s)) < 0 \<and>
          (case compressionRatio D shortVol longVol of
             Inl _ \<Rightarrow> False
           | Inr ratio \<Rightarrow> bo_compressionArmed s \<or> d_cmp D ratio (bc_CompressionThreshold (bo_cfg s)) < 0))"

definition bo_trigger :: "'d decimal_ops \<Rightarrow> 'd BOStrategy \<Rightarrow> 'd \<Rightarrow> ('d \<times> 'd) option" where
  "bo_trigger D s prev =
     (case rollingStats D s of Inl _ \<Rightarrow> None | Inr (_, _, atr) \<Rightarrow> trigger_levels D (bo_cfg s) prev atr)"

definition obv_confirms :: "('d \<Rightarrow> rat) \<Rightarrow> 'd BOStrategy \<Rightarrow> Signal \<Rightarrow> bool" where
  "obv_confirms val s sig \<longleftrightarrow> bc_OBVWindow (bo_cfg s) = 0 \<or>
     (case sig of
        SignalBuy \<Rightarrow> val (bc_OBVTrendThreshold (bo_cfg s)) < val (BO_OBV s)
      | SignalSell \<Rightarrow> val (BO_OBV s) < - val (bc_OBVTrendThreshold (bo_cfg s))
      | SignalHold \<Rightarrow> True)"

definition raw_signal :: "'d decimal_ops \<Rightarrow> 'd \<Rightarrow> ('d \<times> 'd) option \<Rightarrow> 'd BOStrategy \<Rightarrow> Signal" where
  "raw_signal D price trig s =
     (case trig of
        None \<Rightarrow> SignalHold
      | Some (hi, lo) \<Rightarrow>
          if 0 < d_cmp D price hi then
            (if bc_ConfirmationBars (bo_cfg s) \<le> bo_barsAboveTrigger s + 1 then SignalBuy else SignalHold)
          else if d_cmp D price lo < 0 then
            (if bc_ConfirmationBars (bo_cfg s) \<le> bo_barsBelowTrigger s + 1 then SignalSell else SignalHold)
          else SignalHold)"

lemma evaluateBreakout_signal:
  assumes "bd_signal d = SignalHold" "counters_ok s"
  shows "bd_signal (snd (evaluateBreakout D p pp atr s d)) = raw_signal D p (trigger_levels D (bo_cfg s) pp atr) s"
    "raw_signal D p (trigger_levels D (bo_cfg s) pp atr) s \<noteq> SignalHold \<Longrightarrow>
       fst (evaluateBreakout D p pp atr s d) = resetArmed (fst (evaluateBreakout D p pp atr s d))"
proof -
  have w: "wrap64 (bo_barsAboveTrigger s + 1) = bo_barsAboveTrigger s + 1"
    "wrap64 (bo_barsBelowTrigger s + 1) = bo_barsBelowTrigger s + 1"
    using counter_no_wrap [of "bc_ConfirmationBars (bo_cfg s)"] assms(2) by (simp_all add: counters_ok_def)
  show "bd_signal (snd (evaluateBreakout D p pp atr s d)) = raw_signal D p (trigger_levels D (bo_cfg s) pp atr) s"
    "raw_signal D p (trigger_levels D (bo_cfg s) pp atr) s \<noteq> SignalHold \<Longrightarrow>
       fst (evaluateBreakout D p pp atr s d) = resetArmed (fst (evaluateBreakout D p pp atr s d))"
    using assms(1) w
    by (auto simp: evaluateBreakout_def raw_signal_def breakout_entry_def resetArmed_def Let_def split: option.split)
qed

lemma applyVolumeFilter_signal:
  assumes "decimal_laws D val rnd"
  shows "bd_signal (applyVolumeFilter D s d) = (if obv_confirms val s (bd_signal d) then bd_signal d else SignalHold)"
  by (cases "bd_signal d") (auto simp: applyVolumeFilter_def obv_confirms_def Let_def dec_cmp [OF assms] dec_exact [OF assms])

lemma BO_frame_obv: "BO_frame s' = BO_frame s \<Longrightarrow> obv_confirms val s' sig = obv_confirms val s sig"
  by (auto simp: BO_frame_def obv_confirms_def BO_OBV_def split: Signal.split option.split)

lemma BO_signal_value:
  assumes L: "decimal_laws D val rnd" and r: "BO_signal D bar pc s d0 = (s', Inr d)" and c: "counters_ok s"
    and h: "bd_signal d0 = SignalHold"
  shows "bd_signal d = (let sig = raw_signal D (bar_Close bar) (bo_trigger D s pc) s
      in if bo_compressed D s \<and> obv_confirms val s sig then sig else SignalHold)"
    "bd_signal d \<noteq> SignalHold \<Longrightarrow> s' = resetArmed s'"
proof -
  obtain sv lv atr where st: "rollingStats D s = Inr (sv, lv, atr)"
    using r by (cases "rollingStats D s") (auto simp: BO_signal_def)
  have "bd_signal d = (let sig = raw_signal D (bar_Close bar) (bo_trigger D s pc) s
      in if bo_compressed D s \<and> obv_confirms val s sig then sig else SignalHold) \<and>
    (bd_signal d \<noteq> SignalHold \<longrightarrow> s' = resetArmed s')"
  proof (cases "d_cmp D lv (bc_MinLongVolFloor (bo_cfg s)) < 0")
    case True
    then show ?thesis using r st by (auto simp: BO_signal_def bo_compressed_def Let_def)
  next
    case floor: False
    obtain ratio where rt: "compressionRatio D sv lv = Inr ratio"
      using r st floor by (cases "compressionRatio D sv lv") (auto simp: BO_signal_def Let_def)
    show ?thesis
    proof (cases "bo_compressionArmed (arm D ratio s)")
      case False
      then have "\<not> bo_compressed D s" using st floor rt by (simp add: bo_compressed_def)
      then show ?thesis using False r st floor rt by (auto simp: BO_signal_def Let_def)
    next
      case True
      let ?a = "arm D ratio s"
      have comp: "bo_compressed D s" using True st floor rt by (simp add: bo_compressed_def)
      obtain d1 where e: "s' = fst (evaluateBreakout D (bar_Close bar) pc atr ?a d1)"
        "d = applyVolumeFilter D s' (snd (evaluateBreakout D (bar_Close bar) pc atr ?a d1))" "bd_signal d1 = SignalHold"
        using r st floor rt True h by (auto simp: BO_signal_def Let_def split_beta simp del: arm_frame(5) split: if_splits)
      have ca: "counters_ok ?a" using c by (simp add: counters_ok_def)
      have t: "raw_signal D p (trigger_levels D (bo_cfg s) pc atr) ?a = raw_signal D p (bo_trigger D s pc) s" for p
        by (simp add: raw_signal_def bo_trigger_def st)
      have "BO_frame s' = BO_frame s" by (simp add: e(1) evaluateBreakout_frame)
      note o = BO_frame_obv [OF this]
      show ?thesis
        using evaluateBreakout_signal [OF e(3) ca, of D "bar_Close bar" pc atr] applyVolumeFilter_signal [OF L, of s'] comp
        by (simp add: e(2) t o Let_def e(1) [symmetric])
    qed
  qed
  then show "bd_signal d = (let sig = raw_signal D (bar_Close bar) (bo_trigger D s pc) s
      in if bo_compressed D s \<and> obv_confirms val s sig then sig else SignalHold)"
    "bd_signal d \<noteq> SignalHold \<Longrightarrow> s' = resetArmed s'" by blast+
qed

text \<open>C27: A bar gives a BUY signal exactly when the long window is full, the market is or was compressed above
  the volatility floor, the close lies above the upper trigger, enough closes have done so since the
  strategy was armed, and the volume confirms; a SELL signal mirrors it at the lower trigger. Every
  signal disarms the strategy and clears both counters.\<close>

theorem breakout_signal_rule:
  assumes L: "decimal_laws D val rnd" and u: "BO_Update D bar s = (s', Inr d)" and c: "counters_ok s"
    and i: "ingestObservation D bar (bo_lastPrice s) s = (s1, None)"
  shows "(bd_signal d = SignalBuy \<longleftrightarrow> Rolling_Ready (bo_longVolWin s1) \<and> bo_compressed D s1 \<and>
      (\<exists>hi lo. bo_trigger D s1 (bo_lastPrice s) = Some (hi, lo) \<and> val hi < val (bar_Close bar)) \<and>
      bc_ConfirmationBars (bo_cfg s) \<le> bo_barsAboveTrigger s + 1 \<and> obv_confirms val s SignalBuy) \<and>
    (bd_signal d = SignalSell \<longleftrightarrow> Rolling_Ready (bo_longVolWin s1) \<and> bo_compressed D s1 \<and>
      (\<exists>hi lo. bo_trigger D s1 (bo_lastPrice s) = Some (hi, lo) \<and> val (bar_Close bar) \<le> val hi \<and> val (bar_Close bar) < val lo) \<and>
      bc_ConfirmationBars (bo_cfg s) \<le> bo_barsBelowTrigger s + 1 \<and> obv_confirms val s SignalSell) \<and>
    (bd_signal d \<noteq> SignalHold \<longrightarrow> \<not> bo_compressionArmed s' \<and> bo_barsAboveTrigger s' = 0 \<and> bo_barsBelowTrigger s' = 0)"
proof -
  have f: "BO_frame s1 = BO_frame s" "bo_barsAboveTrigger s1 = bo_barsAboveTrigger s" "bo_barsBelowTrigger s1 = bo_barsBelowTrigger s"
    "bo_compressionArmed s1 = bo_compressionArmed s"
    using ingestObservation_frame [of D bar "bo_lastPrice s" s] by (simp_all add: i)
  have cf: "bo_cfg s1 = bo_cfg s" by (rule BO_frame_cfg [OF f(1)])
  have c1: "counters_ok s1" using c by (simp add: counters_ok_def f cf)
  show ?thesis
  proof (cases "Rolling_Ready (bo_longVolWin s1)")
    case False
    then show ?thesis using u i by (auto simp: BO_Update_def Let_def)
  next
    case True
    then obtain d0 where s: "BO_signal D bar (bo_lastPrice s) s1 d0 = (s', Inr d)" "bd_signal d0 = SignalHold"
      using u i by (auto simp: BO_Update_def Let_def BODecision_zero_def)
    note v = BO_signal_value [OF L s(1) c1 s(2)]
    have "bd_signal d \<noteq> SignalHold \<longrightarrow> \<not> bo_compressionArmed s' \<and> bo_barsAboveTrigger s' = 0 \<and> bo_barsBelowTrigger s' = 0"
      using v(2) by (metis (no_types, lifting) BOStrategy.select_convs(6,8,9) BOStrategy.surjective BOStrategy.update_convs(6,8,9) resetArmed_def)
    then show ?thesis
      using v(1) True BO_frame_obv [OF f(1), of val]
      by (auto simp: raw_signal_def Let_def f cf dec_cmp [OF L] split: option.splits if_splits)
  qed
qed

section \<open>Concrete runs\<close>

definition bo_cfg0 :: "int \<Rightarrow> rat BOConfig" where
  "bo_cfg0 n = \<lparr>bc_ShortVolWindow = 2, bc_LongVolWindow = 2, bc_CompressionThreshold = 2, bc_ATRWindow = 2,
     bc_BreakoutATRMultiple = 1, bc_ConfirmationBars = n, bc_StopLossATR = 1, bc_TakeProfitATR = 2, bc_MinLongVolFloor = 0,
     bc_OBVTrendThreshold = 0, bc_OBVWindow = 0, bc_Resolution = ''1h'', bc_OrderBookID = ''book'', bc_InitialBalance = 100,
     bc_Leverage = 1\<rparr>"

text \<open>A bar that opens and has its low at the first price, its high and close at the second.\<close>

definition bo_bar :: "int \<Rightarrow> rat \<Rightarrow> rat \<Rightarrow> rat Bar" where
  "bo_bar h lo c = \<lparr>bar_Time = \<lparr>t_ns = h * hour_ns, t_off = 0\<rparr>, bar_Open = lo, bar_High = c, bar_Low = lo, bar_Close = c,
     bar_Volume = 0, bar_OpenYTM = 0, bar_HighYTM = 0, bar_LowYTM = 0, bar_CloseYTM = 0, bar_BenchmarkYield = 0\<rparr>"

definition bo_env :: "rat \<Rightarrow> rat \<Rightarrow> rat MREnv" where
  "bo_env av bor = \<lparr>me_CreateMarketOrder = (\<lambda>_. (''oid'', None)), me_AssetPosition = (\<lambda>_. ((av, bor), None)),
     me_QuoteAssetID = (''usd'', None), me_GetPortfolioV2 = (None, None), me_SaveDecision = (\<lambda>_. None),
     me_NewV7 = ''u'', me_ParseUUID = (\<lambda>s. (s, None)), me_Now = time_zero, me_String = (\<lambda>_. []),
     me_fredClient = Some ''no key'', me_fredFetch = (\<lambda>_ _ _. ([], None))\<rparr>"

definition bo_setup :: "rat MRSetup" where
  "bo_setup = \<lparr>su_env = bo_env 0 0, su_client = True, su_subscribePrices = None, su_BaseAssetID = (\<lambda>_. (''bond'', None)),
     su_AssetCollateralWeight = (\<lambda>_. (1, None)), su_candleFeed = True, su_candleStore = None,
     su_CandleRange = ((Some time_zero, Some time_zero), None), su_SubscribeBars = (\<lambda>_ _ _. None),
     su_tradeStream = True\<rparr>"

text \<open>The strategy after the given bars, and the signals it gave.\<close>

fun bo_feed :: "rat Bar list \<Rightarrow> rat BOStrategy \<Rightarrow> rat BOStrategy \<times> Signal list" where
  "bo_feed [] s = (s, [])"
| "bo_feed (b # bs) s =
     (case BO_Update rat_ops b s of
        (s, Inl _) \<Rightarrow> (s, [])
      | (s, Inr d) \<Rightarrow> (case bo_feed bs s of (s', sigs) \<Rightarrow> (s', bd_signal d # sigs)))"

definition bo_warm :: "int \<Rightarrow> rat BOStrategy" where
  "bo_warm n = fst (bo_feed [bo_bar 0 10 10, bo_bar 1 10 10] (BO_New rat_ops (bo_cfg0 n) False 0))"

lemma bo_run0:
  obtains s l where "BO_Run rat_ops bo_setup ''r'' (BO_New rat_ops (bo_cfg0 n) False 0) = (s, Inr l)"
    "bl_assetID l = ''bond''" "bo_openSignal (bl_strat l) = SignalHold" "\<not> bo_balancesInitialized (bl_strat l)"
proof -
  have "\<exists>s l. BO_Run rat_ops bo_setup ''r'' (BO_New rat_ops (bo_cfg0 n) False 0) = (s, Inr l) \<and> bl_assetID l = ''bond'' \<and>
      bo_openSignal (bl_strat l) = SignalHold \<and> \<not> bo_balancesInitialized (bl_strat l)"
    by (simp add: BO_Run_def BO_setup_def bo_setup_def BO_New_def bo_cfg0_def Let_def LookupAssetID_def uuid_Nil_def
        requireCandleCoverage_def rat_ops_def)
  then show thesis using that by blast
qed

theorem breakout_signal_rule_witness:
  "case BO_Update rat_ops (bo_bar 2 10 12) (bo_warm 1) of
     (s', Inl _) \<Rightarrow> False
   | (s', Inr d) \<Rightarrow> bd_signal d = SignalBuy \<and> \<not> bo_compressionArmed s' \<and> bo_barsAboveTrigger s' = 0"
proof -
  let ?s = "bo_warm 1" and ?b = "bo_bar 2 10 12"
  have ok: "\<not> isl (snd (BO_Update rat_ops ?b ?s))" "snd (ingestObservation rat_ops ?b (bo_lastPrice ?s) ?s) = None"
    by code_simp+
  then obtain s' d s1 where u: "BO_Update rat_ops ?b ?s = (s', Inr d)"
    and i: "ingestObservation rat_ops ?b (bo_lastPrice ?s) ?s = (s1, None)"
    by (metis prod.collapse isl_def sum.collapse(2) sum.disc_eq_case(1))
  have c: "counters_ok ?s" unfolding counters_ok_def int64_ok_def by code_simp
  have s1: "s1 = fst (ingestObservation rat_ops ?b (bo_lastPrice ?s) ?s)" by (simp add: i)
  have "Rolling_Ready (bo_longVolWin s1)" "bo_compressed rat_ops s1" unfolding s1 by code_simp+
  moreover have "bo_trigger rat_ops s1 (bo_lastPrice ?s) = Some (11, 9)" unfolding s1 by code_simp
  moreover have "bc_ConfirmationBars (bo_cfg ?s) \<le> bo_barsAboveTrigger ?s + 1" "bc_OBVWindow (bo_cfg ?s) = 0" by code_simp+
  moreover have "bar_Close ?b = 12" by (simp add: bo_bar_def)
  ultimately show ?thesis
    using breakout_signal_rule [OF rat_ops_laws u c i] by (simp add: u obv_confirms_def)
qed

text \<open>The closes beyond the trigger are not required to be consecutive: with two confirmations required,
  a close above the trigger, then one inside the band, then one above it give the signal.\<close>

theorem breakout_confirmation_not_consecutive:
  "snd (bo_feed [bo_bar 2 10 12, bo_bar 3 12 12, bo_bar 4 12 15] (bo_warm 2)) = [SignalHold, SignalHold, SignalBuy]"
  by code_simp

section \<open>Over a whole run\<close>

text \<open>In every state a run can reach, both confirmation counters stay below the number of confirmations (so
  they never wrap), a strategy that is not armed has counted nothing, a flat strategy carries no entry
  price or ATR, and at most one order is sent per bar and per price entry.\<close>

theorem breakout_counters_bounded:
  assumes "int64_ok (bc_ConfirmationBars cfg)" "BO_Run D S r (BO_New D cfg store seq) = (s, Inr l)"
    "run_events (bo_step D) evs l = (l', fs)"
  shows "let t = bl_strat l'; n = max 1 (bc_ConfirmationBars (bo_cfg t)) in
    bo_barsAboveTrigger t \<in> {0..<n} \<and> bo_barsBelowTrigger t \<in> {0..<n} \<and>
    (bo_compressionArmed t \<or> bo_barsAboveTrigger t = 0 \<and> bo_barsBelowTrigger t = 0) \<and>
    (bo_openSignal t = SignalHold \<longrightarrow> bo_entryPrice t = d_zero D \<and> bo_entryATR t = d_zero D) \<and>
    length (order_qtys fs) \<le> sum_list (map mr_weight evs)"
proof -
  have "bo_inv D (bl_strat l)" by (rule BO_Run_ok(1) [OF assms(2) BO_New_inv [OF assms(1)]])
  then have "bo_inv D (bl_strat l')" using bo.run_inv [of D l evs] assms(3) by simp
  then show ?thesis
    using bo.run_orders [of D evs l] assms(3) by (auto simp: bo_inv_def counters_ok_def Let_def)
qed

theorem breakout_counters_bounded_witness:
  "\<exists>s l. BO_Run rat_ops bo_setup ''r'' (BO_New rat_ops (bo_cfg0 2) False 0) = (s, Inr l) \<and>
     length (order_qtys (snd (run_events (bo_step rat_ops) [MRMsg Pause, MRTick] l))) \<le> 0"
proof (rule bo_run0 [of 2])
  fix s l assume r: "BO_Run rat_ops bo_setup ''r'' (BO_New rat_ops (bo_cfg0 2) False 0) = (s, Inr l)"
  have "int64_ok (bc_ConfirmationBars (bo_cfg0 2))" by (simp add: bo_cfg0_def int64_ok_def)
  from breakout_counters_bounded [OF this r surjective_pairing, of "[MRMsg Pause, MRTick]"] r show ?thesis
    by (intro exI [of _ s] exI [of _ l]) (simp add: Let_def mr_weight_def)
qed

text \<open>A live run never opens its first position: order sizes are a fraction of the bond position the exchange
  reports, so as long as the account holds no bonds no sequence of bars, prices, trades and messages makes
  the strategy send an order.\<close>

theorem breakout_never_opens_flat:
  assumes "decimal_laws D val rnd" "int64_ok (bc_ConfirmationBars cfg)" "BO_Run D S r (BO_New D cfg store seq) = (s, Inr l)"
    "run_events (bo_step D) evs l = (l', fs)" "\<forall>e\<in>set evs. reports_no_bonds val e"
  shows "order_qtys fs = [] \<and> bo_openSignal (bl_strat l') = SignalHold"
proof -
  note o = BO_Run_ok [OF assms(3) BO_New_inv [OF assms(2)]]
  have "bo_openSignal (BO_New D cfg store seq) = SignalHold" by (simp add: BO_New_def Let_def)
  then have "bo_idle D val rnd l" using o(1,3) assms(1) by (simp add: bo_idle_def bo_inv_def)
  then show ?thesis using bo_flat.run_quiet [of D val rnd l evs] assms(4,5) by (simp add: bo_idle_def)
qed

theorem breakout_never_opens_flat_witness:
  "\<exists>s l. BO_Run rat_ops bo_setup ''r'' (BO_New rat_ops (bo_cfg0 1) False 0) = (s, Inr l) \<and>
     order_qtys (snd (run_events (bo_step rat_ops)
       (map (MRBar (bo_env 0 0)) [bo_bar 0 10 10, bo_bar 1 10 10, bo_bar 2 10 12]) l)) = []"
proof (rule bo_run0 [of 1])
  let ?e = "map (MRBar (bo_env 0 0)) [bo_bar 0 10 10, bo_bar 1 10 10, bo_bar 2 10 12]"
  fix s l assume r: "BO_Run rat_ops bo_setup ''r'' (BO_New rat_ops (bo_cfg0 1) False 0) = (s, Inr l)"
  have c: "int64_ok (bc_ConfirmationBars (bo_cfg0 1))" by (simp add: bo_cfg0_def int64_ok_def)
  have n: "\<forall>e\<in>set ?e. reports_no_bonds id e" by (simp add: reports_no_bonds_def bo_env_def)
  from breakout_never_opens_flat [OF rat_ops_laws c r surjective_pairing n] r show ?thesis by blast
qed

section \<open>Closing\<close>

lemma BO_close_order_exact:
  assumes "BO_close_order D E a reason req s = (s', err, eff)"
  obtains rest where "eff = EOrder req (me_CreateMarketOrder E req) # rest" "order_qtys rest = []"
    "err = None \<longleftrightarrow> snd (me_CreateMarketOrder E req) = None" "err = None \<longrightarrow> bo_openSignal s' = SignalHold"
    "err \<noteq> None \<longrightarrow> s' = s"
proof (cases "snd (me_CreateMarketOrder E req)")
  case None
  then obtain row where "eff = EOrder req (me_CreateMarketOrder E req) # snd (BO_recordDecision E row s)" "err = None"
    "bo_openSignal s' = SignalHold"
    using assms by (auto simp: BO_close_order_def BO_set_flat_def Let_def split_beta)
  then show thesis
    using None BO_recordDecision_state(5) [OF prod.collapse [symmetric], of E row s]
    by (intro that [of "snd (BO_recordDecision E row s)"]) simp_all
next
  case (Some e)
  then have "s' = s \<and> err = Some e \<and> eff = [EOrder req (me_CreateMarketOrder E req)]"
    using assms by (auto simp: BO_close_order_def Let_def)
  then show thesis using Some by (intro that [of "[]"]) simp_all
qed

text \<open>Closing reads the available position of the exchange: it sends exactly one order for that amount on
  the side opposite to the open signal when the amount is not zero, and otherwise sends nothing and
  forgets the position. A short position has no available bonds, only borrowed ones, so it is never
  bought back.\<close>

theorem breakout_close_uses_available:
  assumes "decimal_laws D val rnd" "\<not> bo_balancesInitialized s" "bo_openSignal s \<noteq> SignalHold"
    "me_AssetPosition E a = ((available, borrowed), None)" "BO_closePosition D E a reason s = (s', err, eff)"
  shows "if val available = 0 then eff = [] \<and> err = None \<and> bo_openSignal s' = SignalHold
    else (\<exists>req resp rest. eff = EOrder req resp # rest \<and> order_qtys rest = [] \<and> oreq_Quantity req = available \<and>
      oreq_Side req = (if bo_openSignal s = SignalSell then SIDE_BUY else SIDE_SELL) \<and>
      (err = None \<longleftrightarrow> snd resp = None) \<and> (err = None \<longrightarrow> bo_openSignal s' = SignalHold) \<and> (err \<noteq> None \<longrightarrow> s' = s))"
proof -
  have z: "d_IsZero D available \<longleftrightarrow> val available = 0" by (rule dec_exact(9) [OF assms(1)])
  have cur: "BO_currentPosition E a = Inr available" by (simp add: BO_currentPosition_def assms(4))
  show ?thesis
  proof (cases "val available = 0")
    case True
    then show ?thesis using assms(2,3,5) cur z by (auto simp: BO_closePosition_def BO_set_flat_def Let_def)
  next
    case False
    obtain il where c: "BO_close_order D E a reason (BO_request E s (if bo_openSignal s = SignalSell then SIDE_BUY else SIDE_SELL)
        available il) s = (s', err, eff)"
      using assms(2,3,5) cur z False by (auto simp: BO_closePosition_def Let_def)
    obtain req where c: "BO_close_order D E a reason req s = (s', err, eff)" and q: "oreq_Quantity req = available"
      "oreq_Side req = (if bo_openSignal s = SignalSell then SIDE_BUY else SIDE_SELL)"
      by (rule that [OF c]) (simp_all add: BO_request_def)
    obtain rest where r: "eff = EOrder req (me_CreateMarketOrder E req) # rest" "order_qtys rest = []"
      "err = None \<longleftrightarrow> snd (me_CreateMarketOrder E req) = None" "err = None \<longrightarrow> bo_openSignal s' = SignalHold"
      "err \<noteq> None \<longrightarrow> s' = s"
      using c by (rule BO_close_order_exact)
    show ?thesis unfolding if_not_P [OF False]
      by (rule exI [of _ req], rule exI [of _ "me_CreateMarketOrder E req"], rule exI [of _ rest]) (use q r in blast)
  qed
qed

theorem breakout_close_uses_available_witness:
  "case BO_closePosition rat_ops (bo_env 0 50) ''bond'' ''stop_loss'' ((bo_warm 1)\<lparr>bo_openSignal := SignalSell\<rparr>) of
     (s', err, eff) \<Rightarrow> eff = [] \<and> bo_openSignal s' = SignalHold"
proof -
  let ?s = "(bo_warm 1)\<lparr>bo_openSignal := SignalSell\<rparr>"
  obtain s' err eff where c: "BO_closePosition rat_ops (bo_env 0 50) ''bond'' ''stop_loss'' ?s = (s', err, eff)"
    by (rule prod_cases3)
  have b: "\<not> bo_balancesInitialized ?s" by code_simp
  have p: "me_AssetPosition (bo_env 0 50) ''bond'' = ((0, 50), None)" by (simp add: bo_env_def)
  from breakout_close_uses_available [OF rat_ops_laws b _ p c] c show ?thesis by simp
qed

end
