(* ===== verification/BO_Backtest_Correct.thy ===== *)
theory BO_Backtest_Correct
  imports BO_Backtest BO_Correct Trade_Book MR_Backtest_Props
begin

text \<open>
  The correctness theorems of the breakout backtest: its account refines the abstract trade book of
  \<open>Trade_Book\<close> (interpretation \<open>bo_book\<close>), its trades follow each other in time inside the trading window,
  and its exits agree with the checks of the live loop.
\<close>

section \<open>What a phase does\<close>

lemma BO_closed_ok:
  assumes "BO_closed D tr d reason = Inr ct"
  shows "bct_OpenTime ct = btr_Time tr" "bct_CloseTime ct = bd_time d" "bct_Signal ct = btr_Signal tr"
    "bct_EntryPrice ct = btr_Price tr" "bct_ExitPrice ct = bd_price d" "bct_Quantity ct = btr_Quantity tr"
    "bct_ExitReason ct = reason" "BO_computePnL D ct = Inr (bct_PnL ct)"
  using assms by (auto simp: BO_closed_def Let_def rbind_eq_Inr BO_computePnL_def)

lemma BO_close_trade_ok:
  assumes "BO_close_trade D tr d reason st = Inr st'"
  obtains ct bal where "closeAtPrice D tr d (bx_balance st) reason = Inr (ct, bal)" "BO_closed D tr d reason = Inr ct"
    "st' = st\<lparr>bx_balance := bal, bx_closed := bx_closed st @ [ct], bx_open := None\<rparr>"
  using assms by (auto simp: BO_close_trade_def closeAtPrice_def rbind_eq_Inr intro: that)

lemma BO_tick_loop_cases:
  assumes "BO_tick_loop D tr ticks st = Inr st'"
  obtains (kept) "st' = st"
    | (closed) tick reason where "tick \<in> set ticks"
      "BO_close_trade D tr ((bx_last st)\<lparr>bd_price := ap_Price tick, bd_time := ap_Time tick\<rparr>) reason st = Inr st'"
  using assms
proof (induction ticks arbitrary: thesis)
  case (Cons tick ticks)
  show ?case
  proof (cases "liveCheckSLTP D (btr_Signal tr) (btr_Price tr) (btr_EntryATR tr) (ap_Price tick) (bo_cfg (bx_strat st))")
    case None
    then have r: "BO_tick_loop D tr ticks st = Inr st'" using Cons.prems(3) by simp
    show ?thesis
    proof (rule Cons.IH [OF _ _ r])
      fix t reason assume "t \<in> set ticks" "BO_close_trade D tr ((bx_last st)\<lparr>bd_price := ap_Price t, bd_time := ap_Time t\<rparr>) reason st = Inr st'"
      then show thesis by (intro Cons.prems(2) [of t reason]) simp_all
    qed (rule Cons.prems(1))
  next
    case (Some reason)
    then show ?thesis using Cons.prems(3) by (intro Cons.prems(2) [of tick reason]) simp_all
  qed
qed simp

definition BO_ledger where
  "BO_ledger st = (bx_closed st, bx_open st, bx_balance st)"

lemma BO_bt_update_ledger:
  assumes "BO_bt_update D res bar st = Inr st'"
  shows "BO_ledger st' = BO_ledger st" "bd_time (bx_last st') = bar_Time bar"
proof -
  obtain rest s where i: "BO_ingestTradesUpTo D (bx_trades st) (time_Add (bar_Time bar) res) (bx_strat st) = (rest, s)"
    by (rule prod.exhaust)
  obtain s' r where u: "BO_Update D bar s = (s', r)" by (rule prod.exhaust)
  from assms i u obtain d where r: "r = Inr d" and st': "st' = st\<lparr>bx_trades := rest, bx_strat := s', bx_last := d\<rparr>"
    by (cases r) (auto simp: BO_bt_update_def)
  show "BO_ledger st' = BO_ledger st" by (simp add: st' BO_ledger_def)
  have e: "bd_time (snd (evaluateBreakout D p pp atr x dd)) = bd_time dd" for p pp atr and x :: "'a BOStrategy" and dd
    by (auto simp: evaluateBreakout_def breakout_entry_def Let_def split: option.split prod.split)
  have v: "bd_time (applyVolumeFilter D x dd) = bd_time dd" for x :: "'a BOStrategy" and dd
    by (auto simp: applyVolumeFilter_def Let_def split: Signal.split)
  have "bd_time d = bar_Time bar"
    using u unfolding r BO_Update_def BO_signal_def Let_def
    by (auto simp: v e split_beta split: if_splits prod.splits option.splits sum.splits)
  then show "bd_time (bx_last st') = bar_Time bar" by (simp add: st')
qed

lemma BO_bar_exit_cases:
  fixes D :: "'d decimal_ops"
  assumes "BO_bar_exit D res bar tr st = Inr st'"
  obtains (kept) "st' = st"
    | (closed) d and st1 :: "'d BOState" and reason where "bd_time d = time_Add (bar_Time bar) res" "BO_ledger st1 = BO_ledger st"
      "BO_close_trade D tr d reason st1 = Inr st'"
proof -
  define choice where "choice = (if bx_prevTicks st
      then if isReversal (btr_Signal tr) (bd_signal (bx_last st)) then Some (bd_price (bx_last st), ''reversal'') else None
      else exitForBar D (bo_cfg (bx_strat st)) tr bar (bx_last st))"
  show thesis
  proof (cases choice)
    case None
    then show thesis using assms by (intro kept) (simp add: BO_bar_exit_def Let_def choice_def)
  next
    case (Some fr)
    obtain fill reason where fr: "fr = (fill, reason)" by (rule prod.exhaust)
    let ?d = "(bx_last st)\<lparr>bd_price := fill, bd_time := time_Add (bar_Time bar) res\<rparr>"
    show thesis
      by (rule closed [of ?d "if reason = ''reversal'' then st\<lparr>bx_records := bx_records st @ [reversal_record tr ?d]\<rparr> else st" reason])
        (use assms Some fr in \<open>auto simp: BO_bar_exit_def Let_def choice_def BO_ledger_def split: if_splits\<close>)
  qed
qed

lemma BO_bar_entry_cases:
  assumes "BO_bar_entry D b res bar st = Inr st'"
  obtains (idle) "st' = st"
    | (opened) qty cash bal where "bd_signal (bx_last st) \<noteq> SignalHold" "in_window b res bar"
      "d_mul D (bd_price (bx_last st)) qty = (cash, None)"
      "entry_cash D (bd_signal (bx_last st)) cash (bx_balance st) = Inr bal"
      "st' = st\<lparr>bx_records := bx_records st @ [BO_entry_record res (bx_last st) qty],
        bx_open := Some (BO_entry_record res (bx_last st) qty), bx_balance := bal\<rparr>"
proof (cases "bd_signal (bx_last st) \<noteq> SignalHold \<and> in_window b res bar")
  case False
  then show thesis using assms by (intro idle) (auto simp: BO_bar_entry_def Let_def)
next
  case True
  then obtain bud q where q: "d_mul D (bx_balance st) (bd_positionSize (bx_last st)) = (bud, None)"
      "d_quo D bud (bd_price (bx_last st)) = (q, None)"
    using assms by (auto simp: BO_bar_entry_def Let_def rbind_eq_Inr tryv_eq_Inr)
  show thesis
  proof (cases "d_IsZero D (d_floor D q)")
    case z: True
    then show thesis using assms True q by (intro idle) (simp add: BO_bar_entry_def Let_def)
  next
    case z: False
    then show thesis using assms True q
      by (auto simp: BO_bar_entry_def Let_def rbind_eq_Inr tryv_eq_Inr intro: opened)
  qed
qed

lemma BO_bar_ticks_cases:
  fixes D :: "'d decimal_ops"
  assumes "BO_bar_ticks D res bar nc st = Inr st'"
  obtains (kept) "BO_ledger st' = BO_ledger st"
    | (closed) tr d and st1 :: "'d BOState" and reason where "bx_open st = Some tr" "BO_ledger st1 = BO_ledger st"
      "t_ns (bar_Time bar) + res < t_ns (bd_time d)" "t_ns (bd_time d) \<le> t_ns nc" "BO_close_trade D tr d reason st1 = Inr st'"
proof (cases "bx_open st")
  case None
  then show thesis using assms by (intro kept) (simp add: BO_bar_ticks_def)
next
  case (Some tr)
  obtain rest win where w: "tickWindow (bx_ticks st) (time_Add (bar_Time bar) res) nc = (rest, win)" by (rule prod.exhaust)
  let ?st = "st\<lparr>bx_ticks := rest, bx_prevTicks := win \<noteq> []\<rparr>"
  have "BO_tick_loop D tr win ?st = Inr st'" using assms Some w by (simp add: BO_bar_ticks_def)
  then show thesis
  proof (cases rule: BO_tick_loop_cases)
    case kept
    then show thesis by (intro that(1)) (simp add: BO_ledger_def)
  next
    case (closed tick reason)
    show thesis
      by (rule that(2) [OF Some _ _ _ closed(2)]) (use tickWindow_times [OF w closed(1)] in \<open>simp_all add: BO_ledger_def\<close>)
  qed
qed

lemma BO_bt_bar_phases:
  assumes "BO_bt_bar D b res bar later st = Inr st'"
  obtains st1 st2 where "BO_bt_update D res bar st = Inr st1"
    "(case bx_open st1 of Some tr \<Rightarrow> BO_bar_exit D res bar tr st1 | None \<Rightarrow> BO_bar_entry D b res bar st1) = Inr st2"
    "BO_bar_ticks D res bar (next_close res bar later) st2 = Inr st'"
  using assms by (auto simp: BO_bt_bar_def rbind_eq_Inr)

section \<open>The account refines the trade book\<close>

definition BO_book :: "('d \<Rightarrow> rat) \<Rightarrow> 'd BOState \<Rightarrow> book" where
  "BO_book val st = \<lparr>bk_cash = val (bx_balance st),
     bk_open = map_option (\<lambda>tr. (btr_Signal tr, val (btr_Price tr), val (btr_Quantity tr))) (bx_open st),
     bk_pnl = map (val \<circ> bct_PnL) (bx_closed st)\<rparr>"

lemma BO_book_ledger: "BO_ledger st' = BO_ledger st \<Longrightarrow> BO_book val st' = BO_book val st"
  by (simp add: BO_ledger_def BO_book_def)

lemma BO_computePnL_val:
  assumes L: "decimal_laws D val id" and p: "BO_computePnL D ct = Inr p"
  shows "val p = direction (bct_Signal ct) * (val (bct_Quantity ct) * (val (bct_ExitPrice ct) - val (bct_EntryPrice ct)))"
proof -
  obtain cb pr where m: "d_mul D (bct_EntryPrice ct) (bct_Quantity ct) = (cb, None)"
      "d_mul D (bct_ExitPrice ct) (bct_Quantity ct) = (pr, None)"
    using p by (auto simp: BO_computePnL_def rbind_eq_Inr tryv_eq_Inr)
  show ?thesis
    using p m val_mul [OF L m(1)] val_mul [OF L m(2)] val_sub [OF L, of pr cb p] val_sub [OF L, of cb pr p] dec_exact(1) [OF L]
    by (cases "bct_Signal ct") (auto simp: BO_computePnL_def tryv_eq_Inr direction_def algebra_simps)
qed

lemma closeAtPrice_val:
  assumes L: "decimal_laws D val id" and c: "closeAtPrice D tr d bal reason = Inr (ct, bal')"
  shows "val bal' = val bal + direction (btr_Signal tr) * (val (bd_price d) * val (btr_Quantity tr))"
    "val (bct_PnL ct) = direction (btr_Signal tr) * (val (btr_Quantity tr) * (val (bd_price d) - val (btr_Price tr)))"
proof -
  obtain cf where m: "d_mul D (bd_price d) (btr_Quantity tr) = (cf, None)" and ct: "BO_closed D tr d reason = Inr ct"
    using c by (auto simp: closeAtPrice_def rbind_eq_Inr tryv_eq_Inr)
  show "val bal' = val bal + direction (btr_Signal tr) * (val (bd_price d) * val (btr_Quantity tr))"
    using c m val_mul [OF L m] val_add [OF L, of bal cf bal'] val_sub [OF L, of bal cf bal']
    by (cases "btr_Signal tr") (auto simp: closeAtPrice_def rbind_eq_Inr tryv_eq_Inr direction_def)
  show "val (bct_PnL ct) = direction (btr_Signal tr) * (val (btr_Quantity tr) * (val (bd_price d) - val (btr_Price tr)))"
    using BO_computePnL_val [OF L BO_closed_ok(8) [OF ct]] BO_closed_ok [OF ct] by simp
qed

lemma BO_close_trade_book:
  assumes L: "decimal_laws D val id" and c: "BO_close_trade D tr d reason st = Inr st'" and o: "bx_open st = Some tr"
  shows "book_step (BO_book val st) (BO_book val st')"
  using c
proof (rule BO_close_trade_ok)
  fix ct bal assume k: "closeAtPrice D tr d (bx_balance st) reason = Inr (ct, bal)"
    and st': "st' = st\<lparr>bx_balance := bal, bx_closed := bx_closed st @ [ct], bx_open := None\<rparr>"
  show ?thesis
    using book_step.leave [of "BO_book val st" "btr_Signal tr" "val (btr_Price tr)" "val (btr_Quantity tr)" "val (bd_price d)"] o
    by (simp add: BO_book_def st' closeAtPrice_val [OF L k])
qed

lemma entry_cash_direction:
  assumes "decimal_laws D val id" "entry_cash D sig cf bal = Inr bal'"
  shows "val bal' = val bal - direction sig * val cf"
  using assms(2) val_sub [OF assms(1)] val_add [OF assms(1)]
  by (cases sig) (auto simp: entry_cash_def tryv_eq_Inr direction_def)

definition BO_bar_step :: "'d decimal_ops \<Rightarrow> ('d \<Rightarrow> rat) \<Rightarrow> 'd Backtester \<Rightarrow> int \<Rightarrow> 'd BOState \<Rightarrow> 'd BOState \<Rightarrow> bool" where
  "BO_bar_step D val b res st st' \<longleftrightarrow> decimal_laws D val id \<and> (\<exists>bar later. BO_bt_bar D b res bar later st = Inr st')"

interpretation bo_book: book_refinement "BO_bar_step D val b res" "BO_book val"
  for D :: "'d decimal_ops" and val b res
proof (unfold_locales, goal_cases)
  case (1 st st')
  then obtain bar later where L: "decimal_laws D val id" and bar: "BO_bt_bar D b res bar later st = Inr st'"
    by (auto simp: BO_bar_step_def)
  obtain st1 st2 where p: "BO_bt_update D res bar st = Inr st1"
    "(case bx_open st1 of Some tr \<Rightarrow> BO_bar_exit D res bar tr st1 | None \<Rightarrow> BO_bar_entry D b res bar st1) = Inr st2"
    "BO_bar_ticks D res bar (next_close res bar later) st2 = Inr st'"
    using bar by (rule BO_bt_bar_phases)
  have close: "book_step\<^sup>*\<^sup>* (BO_book val s) (BO_book val s')"
    if "BO_close_trade D tr d reason sm = Inr s'" "BO_ledger sm = BO_ledger s" "bx_open s = Some tr" for tr d reason sm s s'
    using BO_close_trade_book [OF L that(1)] BO_book_ledger [OF that(2), of val] that(2,3) by (simp add: BO_ledger_def)
  have "BO_book val st1 = BO_book val st" by (rule BO_book_ledger [OF BO_bt_update_ledger(1) [OF p(1)]])
  moreover have "book_step\<^sup>*\<^sup>* (BO_book val st1) (BO_book val st2)"
  proof (cases "bx_open st1")
    case None
    then have "BO_bar_entry D b res bar st1 = Inr st2" using p(2) by simp
    then show ?thesis
    proof (cases rule: BO_bar_entry_cases)
      case (opened qty cash bal)
      have "book_step (BO_book val st1) (BO_book val st2)"
        using book_step.enter [OF opened(1), of "BO_book val st1" "val (bd_price (bx_last st1))" "val qty"] None
          entry_cash_direction [OF L opened(4)] val_mul [OF L opened(3)]
        by (simp add: BO_book_def opened(5) BO_entry_record_def)
      then show ?thesis by (rule r_into_rtranclp)
    qed simp
  next
    case (Some tr)
    then have "BO_bar_exit D res bar tr st1 = Inr st2" using p(2) by simp
    then show ?thesis by (cases rule: BO_bar_exit_cases) (use close Some in auto)
  qed
  moreover have "book_step\<^sup>*\<^sup>* (BO_book val st2) (BO_book val st')"
    using p(3) by (cases rule: BO_bar_ticks_cases) (use close BO_book_ledger [of st' st2 val] in auto)
  ultimately show ?case by simp
qed

lemma BO_bt_loop_steps:
  assumes "decimal_laws D val id"
  shows "BO_bt_loop D b res cancelled i bars st = Inr st' \<Longrightarrow> (BO_bar_step D val b res)\<^sup>*\<^sup>* st st'"
proof (induction bars arbitrary: i st)
  case (Cons bar later)
  then obtain st1 where b1: "BO_bt_bar D b res bar later st = Inr st1" and r: "BO_bt_loop D b res cancelled (i + 1) later st1 = Inr st'"
    by (auto simp: rbind_eq_Inr split: if_splits)
  have "BO_bar_step D val b res st st1" using assms b1 by (auto simp: BO_bar_step_def)
  then show ?case using Cons.IH [OF r] by (rule converse_rtranclp_into_rtranclp)
qed simp

text \<open>The closing step at the end of history, whose new balance the code drops.\<close>

lemma BO_force_close_book:
  assumes L: "decimal_laws D val id" and f: "BO_force_close D res bars st = Inr st'" and ne: "bars \<noteq> []"
  obtains b' where "book_step\<^sup>*\<^sup>* (BO_book val st) b'" "bk_open b' = None" "bk_pnl b' = map (val \<circ> bct_PnL) (bx_closed st')"
proof (cases "bx_open st")
  case None
  then show thesis using f that [of "BO_book val st"] by (simp add: BO_force_close_def BO_book_def)
next
  case (Some tr)
  then obtain d ct bal where c: "closeAtPrice D tr d (bx_balance st) ''strategy_exit'' = Inr (ct, bal)"
    and st': "bx_closed st' = bx_closed st @ [ct]"
    using f ne by (auto simp: BO_force_close_def Let_def rbind_eq_Inr)
  have s: "BO_close_trade D tr d ''strategy_exit'' st =
      Inr (st\<lparr>bx_balance := bal, bx_closed := bx_closed st @ [ct], bx_open := None\<rparr>)"
    by (simp add: BO_close_trade_def c)
  have "book_step\<^sup>*\<^sup>* (BO_book val st) (BO_book val (st\<lparr>bx_balance := bal, bx_closed := bx_closed st @ [ct], bx_open := None\<rparr>))"
    by (rule r_into_rtranclp) (rule BO_close_trade_book [OF L s Some])
  then show thesis by (rule that) (simp_all add: BO_book_def st')
qed

lemma BO_Backtester_Run_ok:
  assumes "BO_Backtester_Run D b store cancelled s bars = Inr r" "bars \<noteq> []"
  obtains c st1 st2 start finish where "d_mul D (bc_InitialBalance (bo_cfg s)) (bc_Leverage (bo_cfg s)) = (c, None)"
    "BO_bt_loop D b (ResolutionDuration (bc_Resolution (bo_cfg s))) cancelled 0 bars (BO_bt_start D b store s bars c) = Inr st1"
    "BO_force_close D (ResolutionDuration (bc_Resolution (bo_cfg s))) bars st1 = Inr st2"
    "bor_ClosedTrades r = bx_closed st2" "computeSummary D (bx_closed st2) start finish = Inr (bor_Summary r)"
  using assms by (auto simp: BO_Backtester_Run_def Let_def rbind_eq_Inr tryv_eq_Inr)

text \<open>C28: A breakout backtest over at least one bar, in exact arithmetic, that is, when no operation on decimals rounds, is a
  history of the abstract trade book: it starts with the capital \<open>InitialBalance * Leverage\<close>, opens and closes one position at
  a time, ends flat, and the profits of its closed trades are those of the book. Its final cash is the capital plus all
  profits, and that sum is the total the summary reports.\<close>

theorem breakout_backtest_refines_book:
  assumes L: "decimal_laws D val id" and r: "BO_Backtester_Run D b store cancelled s bars = Inr r" and ne: "bars \<noteq> []"
  shows "\<exists>c b'. c = val (bc_InitialBalance (bo_cfg s)) * val (bc_Leverage (bo_cfg s)) \<and>
    book_step\<^sup>*\<^sup>* \<lparr>bk_cash = c, bk_open = None, bk_pnl = []\<rparr> b' \<and> bk_open b' = None \<and>
    bk_pnl b' = map (val \<circ> bct_PnL) (bor_ClosedTrades r) \<and> bk_cash b' = c + sum_list (bk_pnl b') \<and>
    val (TotalPnL (bor_Summary r)) = sum_list (bk_pnl b')"
  using r ne
proof (rule BO_Backtester_Run_ok)
  let ?res = "ResolutionDuration (bc_Resolution (bo_cfg s))"
  fix c st1 st2 start finish
  assume c: "d_mul D (bc_InitialBalance (bo_cfg s)) (bc_Leverage (bo_cfg s)) = (c, None)"
    and l: "BO_bt_loop D b ?res cancelled 0 bars (BO_bt_start D b store s bars c) = Inr st1"
    and f: "BO_force_close D ?res bars st1 = Inr st2" and cl: "bor_ClosedTrades r = bx_closed st2"
    and sm: "computeSummary D (bx_closed st2) start finish = Inr (bor_Summary r)"
  obtain b' where b': "book_step\<^sup>*\<^sup>* (BO_book val st1) b'" "bk_open b' = None" "bk_pnl b' = map (val \<circ> bct_PnL) (bx_closed st2)"
    by (rule BO_force_close_book [OF L f ne])
  let ?b0 = "\<lparr>bk_cash = val c, bk_open = None, bk_pnl = []\<rparr>"
  have "BO_book val (BO_bt_start D b store s bars c) = ?b0" by (simp add: BO_bt_start_def BO_book_def)
  then have steps: "book_step\<^sup>*\<^sup>* ?b0 b'"
    using bo_book.run_refines [OF BO_bt_loop_steps [OF L l]] b'(1) by (simp add: rtranclp_trans)
  then have "bk_cash b' = val c + sum_list (bk_pnl b')"
    using book_steps_conserve [OF steps] b'(2) by (simp add: book_value_def)
  moreover have "val (TotalPnL (bor_Summary r)) = sum_list (bk_pnl b')"
    using Summarise_total [OF L sm [unfolded computeSummary_def]] by (simp add: b'(3) val_sum_def comp_def)
  moreover have "val c = val (bc_InitialBalance (bo_cfg s)) * val (bc_Leverage (bo_cfg s))" using val_mul [OF L c] by simp
  ultimately show ?thesis using steps b'(2,3) cl by (intro exI [of _ "val c"] exI [of _ b']) simp
qed

section \<open>Time\<close>

text \<open>The opening and closing times of the trades, in the order of the ledger.\<close>

definition trade_times :: "'d BOClosedTrade list \<Rightarrow> 'd BOTradeRecord option \<Rightarrow> int list" where
  "trade_times cts opn = concat (map (\<lambda>ct. [t_ns (bct_OpenTime ct), t_ns (bct_CloseTime ct)]) cts) @
     (case opn of None \<Rightarrow> [] | Some tr \<Rightarrow> [t_ns (btr_Time tr)])"

abbreviation ledger_times where "ledger_times st \<equiv> trade_times (bx_closed st) (bx_open st)"

lemma BO_close_trade_times:
  assumes "BO_close_trade D tr d reason st = Inr st'" "bx_open st = Some tr"
  shows "ledger_times st' = ledger_times st @ [t_ns (bd_time d)]" "bx_open st' = None" "bx_last st' = bx_last st"
  using assms(1) by (rule BO_close_trade_ok, use assms(2) BO_closed_ok in \<open>fastforce simp: trade_times_def\<close>)+

lemma BO_ledger_times: "BO_ledger st' = BO_ledger st \<Longrightarrow> ledger_times st' = ledger_times st"
  by (simp add: BO_ledger_def)

lemma BO_bar_times:
  assumes "BO_bt_bar D b res bar later st = Inr st'"
  obtains xs ys where "ledger_times st' = ledger_times st @ xs @ ys" "\<forall>x\<in>set xs. x = t_ns (bar_Time bar) + res"
    "length xs \<le> 1" "length ys \<le> 1" "\<forall>y\<in>set ys. t_ns (bar_Time bar) + res < y \<and> y \<le> t_ns (next_close res bar later)"
    "bx_open st' \<noteq> None \<longrightarrow> ys = []"
proof -
  obtain st1 st2 where p: "BO_bt_update D res bar st = Inr st1"
    "(case bx_open st1 of Some tr \<Rightarrow> BO_bar_exit D res bar tr st1 | None \<Rightarrow> BO_bar_entry D b res bar st1) = Inr st2"
    "BO_bar_ticks D res bar (next_close res bar later) st2 = Inr st'"
    using assms by (rule BO_bt_bar_phases)
  note u = BO_bt_update_ledger [OF p(1)]
  let ?c = "t_ns (bar_Time bar) + res"
  have "\<exists>xs. ledger_times st2 = ledger_times st1 @ xs \<and> (\<forall>x\<in>set xs. x = ?c) \<and> length xs \<le> 1"
  proof (cases "bx_open st1")
    case None
    then have "BO_bar_entry D b res bar st1 = Inr st2" using p(2) by simp
    then show ?thesis
      by (cases rule: BO_bar_entry_cases) (use None u(2) in \<open>auto simp: trade_times_def BO_entry_record_def\<close>)
  next
    case (Some tr)
    then have "BO_bar_exit D res bar tr st1 = Inr st2" using p(2) by simp
    then show ?thesis
    proof (cases rule: BO_bar_exit_cases)
      case (closed d sm reason)
      have "bx_open sm = Some tr" using closed(2) Some by (simp add: BO_ledger_def)
      then show ?thesis using BO_close_trade_times(1) [OF closed(3)] closed(1) BO_ledger_times [OF closed(2)] by simp
    qed simp
  qed
  then obtain xs where xs: "ledger_times st2 = ledger_times st1 @ xs" "\<forall>x\<in>set xs. x = ?c" "length xs \<le> 1" by blast
  have "\<exists>ys. ledger_times st' = ledger_times st2 @ ys \<and> length ys \<le> 1 \<and>
      (\<forall>y\<in>set ys. ?c < y \<and> y \<le> t_ns (next_close res bar later)) \<and> (bx_open st' \<noteq> None \<longrightarrow> ys = [])"
    using p(3)
  proof (cases rule: BO_bar_ticks_cases)
    case kept
    then show ?thesis using BO_ledger_times [OF kept] by simp
  next
    case (closed tr d sm reason)
    have o: "bx_open sm = Some tr" using closed(1,2) by (simp add: BO_ledger_def)
    show ?thesis
      using BO_close_trade_times [OF closed(5) o] BO_ledger_times [OF closed(2)] closed(3,4) by simp
  qed
  then show thesis using xs that [of xs] BO_ledger_times [OF u(1)] by auto
qed

interpretation bo_stamped: stamped_loop "BO_bt_bar D b res" "BO_bt_loop D b res cancelled" ledger_times
    "\<lambda>st. bx_open st \<noteq> None" res
  for D :: "'d decimal_ops" and b :: "'d Backtester" and res :: int and cancelled :: "nat \<Rightarrow> bool"
proof (unfold_locales, goal_cases)
  case (3 bar later st st')
  then show ?case by (rule BO_bar_times) blast
qed (auto simp: rbind_eq_Inr split: if_split_asm)

definition BO_windowed :: "'d Backtester \<Rightarrow> int \<Rightarrow> 'd BOState \<Rightarrow> bool" where
  "BO_windowed b res st \<longleftrightarrow> (\<forall>ct\<in>set (bx_closed st). window_time b res (bct_OpenTime ct)) \<and>
     (\<forall>tr. bx_open st = Some tr \<longrightarrow> window_time b res (btr_Time tr))"

lemma BO_windowed_ledger: "BO_ledger st' = BO_ledger st \<Longrightarrow> BO_windowed b res st' = BO_windowed b res st"
  by (simp add: BO_ledger_def BO_windowed_def)

lemma BO_windowed_close:
  assumes "BO_close_trade D tr d reason st1 = Inr st'" "BO_ledger st1 = BO_ledger st" "bx_open st = Some tr" "BO_windowed b res st"
  shows "BO_windowed b res st'"
  using assms(1)
  by (rule BO_close_trade_ok) (use assms(2-4) BO_closed_ok(1) in \<open>fastforce simp: BO_windowed_def BO_ledger_def\<close>)

lemma BO_bar_windowed:
  assumes "BO_bt_bar D b res bar later st = Inr st'" "BO_windowed b res st"
  shows "BO_windowed b res st'"
proof -
  obtain st1 st2 where p: "BO_bt_update D res bar st = Inr st1"
    "(case bx_open st1 of Some tr \<Rightarrow> BO_bar_exit D res bar tr st1 | None \<Rightarrow> BO_bar_entry D b res bar st1) = Inr st2"
    "BO_bar_ticks D res bar (next_close res bar later) st2 = Inr st'"
    using assms(1) by (rule BO_bt_bar_phases)
  note u = BO_bt_update_ledger [OF p(1)]
  have w1: "BO_windowed b res st1" using assms(2) BO_windowed_ledger [OF u(1)] by simp
  have w2: "BO_windowed b res st2"
  proof (cases "bx_open st1")
    case None
    then have "BO_bar_entry D b res bar st1 = Inr st2" using p(2) by simp
    then show ?thesis
      by (cases rule: BO_bar_entry_cases) (use w1 u(2) in \<open>auto simp: BO_windowed_def window_time_def BO_entry_record_def
        in_window_def time_Before_def time_After_def\<close>)
  next
    case (Some tr)
    then have "BO_bar_exit D res bar tr st1 = Inr st2" using p(2) by simp
    then show ?thesis by (cases rule: BO_bar_exit_cases) (use w1 Some BO_windowed_close in auto)
  qed
  show ?thesis
    using p(3) by (cases rule: BO_bar_ticks_cases) (use w2 BO_windowed_ledger BO_windowed_close in blast)+
qed

lemma BO_loop_windowed: "BO_bt_loop D b res cancelled i bars st = Inr st' \<Longrightarrow> BO_windowed b res st \<Longrightarrow> BO_windowed b res st'"
  by (induction bars arbitrary: i st) (auto simp: rbind_eq_Inr split: if_split_asm dest: BO_bar_windowed)

lemma BO_force_close_cases:
  assumes "BO_force_close D res bars st = Inr st'"
  obtains (kept) "st' = st" "bx_open st = None \<or> bars = []"
    | (closed) tr d ct where "bx_open st = Some tr" "bars \<noteq> []" "bd_time d = time_Add (bar_Time (last bars)) res"
      "BO_closed D tr d ''strategy_exit'' = Inr ct" "bx_closed st' = bx_closed st @ [ct]"
proof (cases "bx_open st = None \<or> bars = []")
  case True
  then show thesis using assms by (intro kept) (auto simp: BO_force_close_def split: option.splits)
next
  case False
  then obtain tr where o: "bx_open st = Some tr" "bars \<noteq> []" by auto
  let ?d = "(bx_last st)\<lparr>bd_time := time_Add (bar_Time (last bars)) res\<rparr>"
  from assms o obtain ct where "BO_closed D tr ?d ''strategy_exit'' = Inr ct" "bx_closed st' = bx_closed st @ [ct]"
    by (auto simp: BO_force_close_def closeAtPrice_def Let_def rbind_eq_Inr)
  then show thesis using o by (intro closed [of tr ?d ct]) simp_all
qed

text \<open>The trades of a breakout backtest never overlap: over bars in chronological order, opening and closing
  times alternate in chronological order, through tick exits, bar exits and the forced close alike, and
  every position is opened inside the trading window.\<close>

theorem breakout_trades_chronological:
  assumes r: "BO_Backtester_Run D b store cancelled s bars = Inr r" and srt: "sorted (map (t_ns \<circ> bar_Time) bars)"
  shows "sorted (concat (map (\<lambda>ct. [t_ns (bct_OpenTime ct), t_ns (bct_CloseTime ct)]) (bor_ClosedTrades r))) \<and>
    (\<forall>ct\<in>set (bor_ClosedTrades r). window_time b (ResolutionDuration (bc_Resolution (bo_cfg s))) (bct_OpenTime ct))"
proof (cases "bars = []")
  case True
  then show ?thesis using r by (auto simp: BO_Backtester_Run_def)
next
  case ne: False
  let ?res = "ResolutionDuration (bc_Resolution (bo_cfg s))"
  obtain c st1 st2 where l: "BO_bt_loop D b ?res cancelled 0 bars (BO_bt_start D b store s bars c) = Inr st1"
    and f: "BO_force_close D ?res bars st1 = Inr st2" and cl: "bor_ClosedTrades r = bx_closed st2"
    using r ne by (rule BO_Backtester_Run_ok)
  have t: "sorted (ledger_times st1) \<and> (bars \<noteq> [] \<longrightarrow> bx_open st1 \<noteq> None \<longrightarrow>
      (\<forall>x\<in>set (ledger_times st1). x \<le> t_ns (bar_Time (last bars)) + ?res))"
    by (rule bo_stamped.loop_times [OF l srt]) (simp_all add: BO_bt_start_def trade_times_def)
  have w: "BO_windowed b ?res st1"
    by (rule BO_loop_windowed [OF l]) (simp add: BO_bt_start_def BO_windowed_def)
  from f show ?thesis
  proof (cases rule: BO_force_close_cases)
    case kept
    then show ?thesis using t w ne by (auto simp: cl trade_times_def BO_windowed_def)
  next
    case (closed tr d ct)
    have e: "concat (map (\<lambda>ct. [t_ns (bct_OpenTime ct), t_ns (bct_CloseTime ct)]) (bx_closed st2)) =
        ledger_times st1 @ [t_ns (bar_Time (last bars)) + ?res]"
      using closed BO_closed_ok [OF closed(4)] by (simp add: trade_times_def)
    have "\<forall>ct\<in>set (bx_closed st2). window_time b ?res (bct_OpenTime ct)"
      using w closed(1,5) BO_closed_ok(1) [OF closed(4)] by (auto simp: BO_windowed_def)
    then show ?thesis using t closed(1,2) unfolding cl e sorted_append by auto
  qed
qed

section \<open>Exits\<close>

text \<open>For a position with a non-zero entry ATR, the check of the live loop and of the tick replay on a price is
  the check the bar replay makes on the extremes of a bar: the stop band first, then the profit band.\<close>

theorem breakout_exit_equivalence:
  assumes "\<not> d_IsZero D (btr_EntryATR tr)" "btr_Signal tr \<noteq> SignalHold"
  shows "liveCheckSLTP D (btr_Signal tr) (btr_Price tr) (btr_EntryATR tr) price cfg =
    (if isStopBandHit D tr price cfg then Some ''stop_loss''
     else if isTPBandHit D tr price cfg then Some ''take_profit'' else None)"
  using assms by (cases "btr_Signal tr") (simp_all add: liveCheckSLTP_def band_hit_def isStopBandHit_def isTPBandHit_def)

text \<open>With a zero entry ATR they differ: the live check never exits, the bar replay stops the position out as
  soon as the adverse extreme touches the entry price.\<close>

theorem breakout_zero_atr_divergence:
  assumes L: "decimal_laws D val rnd" and z: "val (btr_EntryATR tr) = 0" and sl: "0 < val (bc_StopLossATR cfg)"
    and sig: "btr_Signal tr = SignalBuy" and low: "val (bar_Low bar) \<le> val (btr_Price tr)"
    and rep: "representable (val (btr_Price tr))"
  shows "liveCheckSLTP D (btr_Signal tr) (btr_Price tr) (btr_EntryATR tr) x cfg = None \<and>
    (\<exists>fill. exitForBar D cfg tr bar d = Some (fill, ''stop_loss''))"
proof -
  obtain z' where m: "d_mul D (bc_StopLossATR cfg) (btr_EntryATR tr) = (z', None)" "val z' = 0"
    using mul_exact [OF L, of "bc_StopLossATR cfg" "btr_EntryATR tr"] z by auto
  obtain lv where "d_sub D (btr_Price tr) z' = (lv, None)" "val lv = val (btr_Price tr)"
    using sub_exact [OF L, of "btr_Price tr" z'] m(2) rep by auto
  then have "isStopBandHit D tr (bar_Low bar) cfg"
    using sl sig low m by (auto simp: isStopBandHit_def exitPriceCrosses_def bandLevel_def dec_exact [OF L] dec_cmp [OF L]
        split: prod.split option.split)
  then show ?thesis using z sig dec_exact(9) [OF L] by (simp add: liveCheckSLTP_def exitForBar_def Let_def)
qed

text \<open>An exit on a bar is a stop, a profit or a reversal, in that order of precedence. A stop needs the adverse
  extreme to reach the stop level and fills at that level or at the open, whichever is worse; a profit needs
  the favourable extreme and fills at its level or at the open, whichever is better; a reversal fills at the
  close.\<close>

theorem breakout_exit_fill:
  assumes L: "decimal_laws D val rnd" and e: "exitForBar D cfg tr bar d = Some (fill, reason)" and "btr_Signal tr \<noteq> SignalHold"
  shows "(\<exists>lv. reason = ''stop_loss'' \<and> bandLevel D (btr_Price tr) (btr_EntryATR tr) (bc_StopLossATR cfg) (btr_Signal tr = SignalSell) = Some lv \<and>
      (if btr_Signal tr = SignalBuy then val (bar_Low bar) \<le> val lv \<and> val fill = min (val lv) (val (bar_Open bar))
       else val lv \<le> val (bar_High bar) \<and> val fill = max (val lv) (val (bar_Open bar)))) \<or>
    (\<exists>lv. reason = ''take_profit'' \<and> bandLevel D (btr_Price tr) (btr_EntryATR tr) (bc_TakeProfitATR cfg) (btr_Signal tr = SignalBuy) = Some lv \<and>
      (if btr_Signal tr = SignalBuy then val lv \<le> val (bar_High bar) \<and> val fill = max (val lv) (val (bar_Open bar))
       else val (bar_Low bar) \<le> val lv \<and> val fill = min (val lv) (val (bar_Open bar)))) \<or>
    (reason = ''reversal'' \<and> fill = bd_price d \<and> isReversal (btr_Signal tr) (bd_signal d))"
proof -
  let ?adv = "if btr_Signal tr = SignalSell then bar_High bar else bar_Low bar"
  let ?fav = "if btr_Signal tr = SignalSell then bar_Low bar else bar_High bar"
  note c = dec_cmp [OF L]
  consider (stop) "isStopBandHit D tr ?adv cfg" | (tp) "\<not> isStopBandHit D tr ?adv cfg" "isTPBandHit D tr ?fav cfg"
    | (rev) "\<not> isStopBandHit D tr ?adv cfg" "\<not> isTPBandHit D tr ?fav cfg" by blast
  then show ?thesis
  proof cases
    case stop
    then obtain lv where lv: "bandLevel D (btr_Price tr) (btr_EntryATR tr) (bc_StopLossATR cfg) (btr_Signal tr = SignalSell) = Some lv"
      "if btr_Signal tr = SignalSell then 0 \<le> d_cmp D ?adv lv else d_cmp D ?adv lv \<le> 0"
      by (auto simp: isStopBandHit_def exitPriceCrosses_def split: option.splits)
    have "reason = ''stop_loss''" "fill = breakoutStopFill D (btr_Signal tr) lv (bar_Open bar)"
      using e stop lv(1) by (auto simp: exitForBar_def Let_def band_or_zero_def)
    then show ?thesis using lv assms(3) by (cases "btr_Signal tr") (auto simp: breakoutStopFill_def c)
  next
    case tp
    then obtain lv where lv: "bandLevel D (btr_Price tr) (btr_EntryATR tr) (bc_TakeProfitATR cfg) (btr_Signal tr = SignalBuy) = Some lv"
      "if btr_Signal tr = SignalBuy then 0 \<le> d_cmp D ?fav lv else d_cmp D ?fav lv \<le> 0"
      by (auto simp: isTPBandHit_def exitPriceCrosses_def split: option.splits)
    have "reason = ''take_profit''" "fill = breakoutTPFill D (btr_Signal tr) lv (bar_Open bar)"
      using e tp lv(1) by (auto simp: exitForBar_def Let_def band_or_zero_def)
    then show ?thesis using lv assms(3) by (cases "btr_Signal tr") (auto simp: breakoutTPFill_def c)
  next
    case rev
    then show ?thesis using e by (auto simp: exitForBar_def Let_def split: if_splits)
  qed
qed

section \<open>A sample run\<close>

definition bo_days :: "rat Bar list" where
  "bo_days = [bo_bar 24 10 10, bo_bar 25 10 10, bo_bar 26 10 12, bo_bar 27 10 13]"

definition bo_sample :: "rat Backtester" where
  "bo_sample = \<lparr>bt_ticks = [], bt_TradeFrom = \<lparr>t_ns = 26 * hour_ns, t_off = 0\<rparr>, bt_TradeTo = \<lparr>t_ns = 28 * hour_ns, t_off = 0\<rparr>\<rparr>"

lemma bo_sample_value:
  "(case BO_Backtester_Run rat_ops bo_sample None (\<lambda>_. False) (BO_New rat_ops (bo_cfg0 1) False 0) bo_days of
      Inl _ \<Rightarrow> False
    | Inr r \<Rightarrow> map bct_PnL (bor_ClosedTrades r) = [- 16] \<and> map (t_ns \<circ> bct_OpenTime) (bor_ClosedTrades r) = [27 * hour_ns])"
  by code_simp

lemma bo_sample_runs:
  obtains r where "BO_Backtester_Run rat_ops bo_sample None (\<lambda>_. False) (BO_New rat_ops (bo_cfg0 1) False 0) bo_days = Inr r"
    "map bct_PnL (bor_ClosedTrades r) = [- 16]" "map (t_ns \<circ> bct_OpenTime) (bor_ClosedTrades r) = [27 * hour_ns]"
  using bo_sample_value by (auto split: sum.splits)

theorem breakout_backtest_refines_book_witness:
  "\<exists>r b'. BO_Backtester_Run rat_ops bo_sample None (\<lambda>_. False) (BO_New rat_ops (bo_cfg0 1) False 0) bo_days = Inr r \<and>
     book_step\<^sup>*\<^sup>* \<lparr>bk_cash = 100, bk_open = None, bk_pnl = []\<rparr> b' \<and> bk_cash b' = 84 \<and> TotalPnL (bor_Summary r) = - 16"
proof (rule bo_sample_runs)
  fix r assume r: "BO_Backtester_Run rat_ops bo_sample None (\<lambda>_. False) (BO_New rat_ops (bo_cfg0 1) False 0) bo_days = Inr r"
    and p: "map bct_PnL (bor_ClosedTrades r) = [- 16]"
  have ne: "bo_days \<noteq> []" by (simp add: bo_days_def)
  have cfg: "bc_InitialBalance (bo_cfg (BO_New rat_ops (bo_cfg0 1) False 0)) = 100" "bc_Leverage (bo_cfg (BO_New rat_ops (bo_cfg0 1) False 0)) = 1"
    by code_simp+
  show ?thesis using breakout_backtest_refines_book [OF rat_ops_laws r ne] r p by (auto simp: cfg)
qed

theorem breakout_trades_chronological_witness:
  "\<exists>r. BO_Backtester_Run rat_ops bo_sample None (\<lambda>_. False) (BO_New rat_ops (bo_cfg0 1) False 0) bo_days = Inr r \<and>
     sorted (concat (map (\<lambda>ct. [t_ns (bct_OpenTime ct), t_ns (bct_CloseTime ct)]) (bor_ClosedTrades r)))"
proof (rule bo_sample_runs)
  fix r assume r: "BO_Backtester_Run rat_ops bo_sample None (\<lambda>_. False) (BO_New rat_ops (bo_cfg0 1) False 0) bo_days = Inr r"
  have "sorted (map (t_ns \<circ> bar_Time) bo_days)" by (simp add: bo_days_def bo_bar_def)
  from breakout_trades_chronological [OF r this] r show ?thesis by blast
qed

definition bo_long :: "rat \<Rightarrow> rat BOTradeRecord" where
  "bo_long atr = \<lparr>btr_Time = time_zero, btr_BondID = ''bond'', btr_Signal = SignalBuy, btr_Price = 12, btr_Quantity = 8,
     btr_PositionSize = 8, btr_CompressionRatio = 0, btr_EntryATR = atr\<rparr>"

theorem breakout_exit_equivalence_witness:
  "liveCheckSLTP rat_ops SignalBuy 12 1 10 (bo_cfg0 1) = Some ''stop_loss''"
proof -
  have h: "\<not> d_IsZero rat_ops (btr_EntryATR (bo_long 1))" "btr_Signal (bo_long 1) \<noteq> SignalHold"
    by (simp_all add: bo_long_def rat_ops_def)
  have "isStopBandHit rat_ops (bo_long 1) 10 (bo_cfg0 1)" by code_simp
  then show ?thesis using breakout_exit_equivalence [OF h, of 10 "bo_cfg0 1"] by (simp add: bo_long_def)
qed

theorem breakout_exit_fill_witness:
  "case exitForBar rat_ops (bo_cfg0 1) (bo_long 1) (bo_bar 0 10 13) (BODecision_zero rat_ops) of
     None \<Rightarrow> False | Some (fill, reason) \<Rightarrow> reason = ''stop_loss'' \<and> fill = 10"
proof -
  have v: "case exitForBar rat_ops (bo_cfg0 1) (bo_long 1) (bo_bar 0 10 13) (BODecision_zero rat_ops) of
     None \<Rightarrow> False | Some (fill, reason) \<Rightarrow> reason = ''stop_loss''" by code_simp
  then obtain fill where e: "exitForBar rat_ops (bo_cfg0 1) (bo_long 1) (bo_bar 0 10 13) (BODecision_zero rat_ops) = Some (fill, ''stop_loss'')"
    by (auto split: option.splits)
  have l: "bandLevel rat_ops (btr_Price (bo_long 1)) (btr_EntryATR (bo_long 1)) (bc_StopLossATR (bo_cfg0 1)) (btr_Signal (bo_long 1) = SignalSell) = Some 11"
    by code_simp
  have s: "btr_Signal (bo_long 1) = SignalBuy" "bar_Open (bo_bar 0 10 13) = 10" by (simp_all add: bo_long_def bo_bar_def)
  have "fill = min 11 10" using breakout_exit_fill [OF rat_ops_laws e] l s by auto
  then show ?thesis by (simp add: e)
qed

end
