(* ===== verification/Deployment_Store.thy ===== *)
theory Deployment_Store
  imports Go_Base "HOL-Library.List_Lexorder" "HOL-Library.Char_ord" "HOL-Library.Product_Lexorder"
begin

text \<open>
  The store of deployments (\<open>internal/agent/deployment/deployment.go\<close> and \<open>postgres.go\<close>): the rows of
  the table \<open>agent.deployments\<close> and the statements the program runs on them.

  \<^item> The columns \<open>order_book_id\<close>, \<open>resolution\<close>, \<open>instance_id\<close>, \<open>stopped_reason\<close> and
    \<open>hotswapped_from_revision\<close> are nullable: \<open>None\<close>. \<open>scanDeployment\<close> reads the first two straight into
    Go strings, which the driver refuses for a null.
  \<^item> The partial unique index on the strategy of running rows and the primary key are checked on every
    statement; a violation leaves the table as it was.
  \<^item> The database is reachable or not (\<open>db_up\<close>); when it is not, every statement fails. The instant
    \<open>now()\<close> is an argument. \<open>params\<close> is kept decoded. Foreign keys are left out.
  \<^item> The text of a page cursor is made by \<open>enc\<close> and read by \<open>dec\<close> (base64 around JSON).
\<close>

section \<open>Rows\<close>

datatype Status = StatusRunning | StatusStopped | StatusCrashed | StatusHalted

record Deployment =
  d_ID :: string
  d_StrategyID :: string
  d_Revision :: string
  d_UserID :: string
  d_OrderBookID :: string
  d_Resolution :: string
  d_Params :: "(string \<times> string) list"
  d_Status :: Status
  d_InstanceID :: string
  d_StartedAt :: "gtime option"
  d_StoppedAt :: "gtime option"
  d_StoppedReason :: string
  d_RestartCount :: int
  d_HotswappedAt :: "gtime option"
  d_HotswappedFromRev :: string
  d_CandleCount :: int
  d_WarmupCandles :: int
  d_CreatedAt :: gtime
  d_UpdatedAt :: gtime

record dep_row =
  r_id :: string
  r_strategy :: string
  r_revision :: string
  r_user :: string
  r_order_book :: "string option"
  r_resolution :: "string option"
  r_params :: "(string \<times> string) list"
  r_status :: Status
  r_instance :: "string option"
  r_started :: "gtime option"
  r_stopped :: "gtime option"
  r_reason :: "string option"
  r_restarts :: int
  r_swapped :: "gtime option"
  r_swapped_from :: "string option"
  r_candles :: int
  r_warmup :: int
  r_created :: gtime
  r_updated :: gtime

record dep_db =
  db_up :: bool
  db_rows :: "dep_row list"

definition ErrNotFound :: gerror where
  "ErrNotFound = ''deployment: not found''"

definition ErrAlreadyRunning :: gerror where
  "ErrAlreadyRunning = ''deployment: strategy already has an active deployment''"

definition err_db :: gerror where
  "err_db = ''database unavailable''"

definition err_unique :: gerror where
  "err_unique = ''unique violation''"

definition unnull :: "string option \<Rightarrow> string" where
  "unnull x = (case x of None \<Rightarrow> '''' | Some s \<Rightarrow> s)"

definition nullableString :: "string \<Rightarrow> string option" where
  "nullableString s = (if s = '''' then None else Some s)"

definition scanDeployment :: "dep_row \<Rightarrow> Deployment res" where
  "scanDeployment r =
     (case (r_order_book r, r_resolution r) of
        (Some ob, Some res) \<Rightarrow> Inr \<lparr>d_ID = r_id r, d_StrategyID = r_strategy r, d_Revision = r_revision r,
          d_UserID = r_user r, d_OrderBookID = ob, d_Resolution = res, d_Params = r_params r,
          d_Status = r_status r, d_InstanceID = unnull (r_instance r), d_StartedAt = r_started r,
          d_StoppedAt = r_stopped r, d_StoppedReason = unnull (r_reason r), d_RestartCount = r_restarts r,
          d_HotswappedAt = r_swapped r, d_HotswappedFromRev = unnull (r_swapped_from r),
          d_CandleCount = r_candles r, d_WarmupCandles = r_warmup r, d_CreatedAt = r_created r,
          d_UpdatedAt = r_updated r\<rparr>
      | _ \<Rightarrow> Inl ''cannot scan NULL into *string'')"

fun scan_all :: "dep_row list \<Rightarrow> Deployment list res" where
  "scan_all [] = Inr []"
| "scan_all (r # rs) = rbind (scanDeployment r) (\<lambda>d. rbind (scan_all rs) (\<lambda>ds. Inr (d # ds)))"

section \<open>Constraints\<close>

definition running_strategies :: "dep_row list \<Rightarrow> string list" where
  "running_strategies rs = map r_strategy (filter (\<lambda>r. r_status r = StatusRunning) rs)"

definition constraints :: "dep_row list \<Rightarrow> bool" where
  "constraints rs \<longleftrightarrow> distinct (map r_id rs) \<and> distinct (running_strategies rs)"

section \<open>Statements\<close>

definition row_is :: "string \<Rightarrow> string \<Rightarrow> dep_row \<Rightarrow> bool" where
  "row_is i user r \<longleftrightarrow> r_id r = i \<and> r_user r = user"

definition row_insert :: "dep_row \<Rightarrow> dep_db \<Rightarrow> dep_db \<times> gerror option" where
  "row_insert r db =
     (if \<not> db_up db then (db, Some err_db)
      else if \<not> constraints (db_rows db @ [r]) then (db, Some ErrAlreadyRunning)
      else (db\<lparr>db_rows := db_rows db @ [r]\<rparr>, None))"

definition Create :: "string \<Rightarrow> gtime \<Rightarrow> Deployment \<Rightarrow> dep_db \<Rightarrow> dep_db \<times> gerror option" where
  "Create new_id now d db =
     row_insert \<lparr>r_id = (if d_ID d = '''' then new_id else d_ID d), r_strategy = d_StrategyID d,
       r_revision = d_Revision d, r_user = d_UserID d, r_order_book = Some (d_OrderBookID d),
       r_resolution = Some (d_Resolution d), r_params = d_Params d, r_status = d_Status d,
       r_instance = nullableString (d_InstanceID d), r_started = d_StartedAt d, r_stopped = None,
       r_reason = None, r_restarts = 0, r_swapped = None, r_swapped_from = None, r_candles = 0,
       r_warmup = d_WarmupCandles d, r_created = now, r_updated = now\<rparr> db"

definition Get :: "string \<Rightarrow> string \<Rightarrow> dep_db \<Rightarrow> Deployment res" where
  "Get i user db =
     (if \<not> db_up db then Inl err_db
      else case filter (row_is i user) (db_rows db) of
             [] \<Rightarrow> Inl ErrNotFound
           | r # _ \<Rightarrow> scanDeployment r)"

text \<open>An update of the row of an identifier and its owner, with the number of rows affected.\<close>

definition row_update :: "string \<Rightarrow> string \<Rightarrow> (dep_row \<Rightarrow> dep_row) \<Rightarrow> dep_db \<Rightarrow> dep_db \<times> gerror option" where
  "row_update i user f db =
     (if \<not> db_up db then (db, Some err_db)
      else if \<not> list_ex (row_is i user) (db_rows db) then (db, Some ErrNotFound)
      else let rs = map (\<lambda>r. if row_is i user r then f r else r) (db_rows db)
           in if constraints rs then (db\<lparr>db_rows := rs\<rparr>, None) else (db, Some err_unique))"

definition status_row :: "gtime \<Rightarrow> Status \<Rightarrow> string \<Rightarrow> dep_row \<Rightarrow> dep_row" where
  "status_row now st reason r = r\<lparr>r_status := st, r_reason := Some reason,
     r_stopped := (if st \<in> {StatusStopped, StatusCrashed} \<and> r_stopped r = None then Some now else r_stopped r),
     r_updated := now\<rparr>"

definition UpdateStatus :: "gtime \<Rightarrow> string \<Rightarrow> string \<Rightarrow> Status \<Rightarrow> string \<Rightarrow> dep_db \<Rightarrow> dep_db \<times> gerror option" where
  "UpdateStatus now i user st reason = row_update i user (status_row now st reason)"

definition SetInstance :: "gtime \<Rightarrow> string \<Rightarrow> string \<Rightarrow> string \<Rightarrow> dep_db \<Rightarrow> dep_db \<times> gerror option" where
  "SetInstance now i user inst = row_update i user (\<lambda>r. r\<lparr>r_instance := Some inst, r_updated := now\<rparr>)"

definition Store_HotSwap :: "gtime \<Rightarrow> string \<Rightarrow> string \<Rightarrow> string \<Rightarrow> dep_db \<Rightarrow> dep_db \<times> gerror option" where
  "Store_HotSwap now i user newRevision = row_update i user (\<lambda>r. r\<lparr>r_revision := newRevision,
     r_swapped_from := Some (r_revision r), r_swapped := Some now, r_updated := now\<rparr>)"

definition IncRestart :: "gtime \<Rightarrow> string \<Rightarrow> string \<Rightarrow> dep_db \<Rightarrow> dep_db \<times> gerror option" where
  "IncRestart now i user = row_update i user (\<lambda>r. r\<lparr>r_restarts := r_restarts r + 1, r_updated := now\<rparr>)"

definition SetCandleCount :: "gtime \<Rightarrow> string \<Rightarrow> string \<Rightarrow> int \<Rightarrow> dep_db \<Rightarrow> dep_db \<times> gerror option" where
  "SetCandleCount now i user n = row_update i user (\<lambda>r. r\<lparr>r_candles := n, r_updated := now\<rparr>)"

definition UpdateWarmupCandles :: "gtime \<Rightarrow> string \<Rightarrow> string \<Rightarrow> int \<Rightarrow> dep_db \<Rightarrow> dep_db \<times> gerror option" where
  "UpdateWarmupCandles now i user w = row_update i user (\<lambda>r. r\<lparr>r_warmup := w, r_updated := now\<rparr>)"

definition HasActive :: "string \<Rightarrow> dep_db \<Rightarrow> bool res" where
  "HasActive strategyID db =
     (if db_up db then Inr (list_ex (\<lambda>r. r_strategy r = strategyID \<and> r_status r = StatusRunning) (db_rows db))
      else Inl err_db)"

section \<open>Lists and pages\<close>

definition row_key :: "dep_row \<Rightarrow> int \<times> string" where
  "row_key r = (t_ns (r_created r), r_id r)"

definition ListRunning :: "dep_db \<Rightarrow> Deployment list res" where
  "ListRunning db =
     (if db_up db
      then scan_all (rev (sort_key (\<lambda>r. t_ns (r_created r)) (filter (\<lambda>r. r_status r = StatusRunning) (db_rows db))))
      else Inl err_db)"

record Page =
  pg_Limit :: int
  pg_Cursor :: string

definition EffectiveLimit :: "Page \<Rightarrow> int" where
  "EffectiveLimit p = (if pg_Limit p \<le> 0 \<or> 100 < pg_Limit p then 50 else pg_Limit p)"

definition deploymentPage :: "(gtime \<Rightarrow> string \<Rightarrow> string) \<Rightarrow> Deployment list \<Rightarrow> nat \<Rightarrow> Deployment list \<times> string" where
  "deploymentPage enc out limit =
     (if length out \<le> limit then (out, '''')
      else (take limit out, enc (d_CreatedAt (out ! (limit - 1))) (d_ID (out ! (limit - 1)))))"

definition wanted :: "string \<Rightarrow> string \<Rightarrow> dep_row \<Rightarrow> bool" where
  "wanted strategyID user r \<longleftrightarrow> r_user r = user \<and> (strategyID \<noteq> '''' \<longrightarrow> r_strategy r = strategyID)"

definition decode_cursor :: "(string \<Rightarrow> (gtime \<times> string) option) \<Rightarrow> string \<Rightarrow> (gtime \<times> string) option" where
  "decode_cursor dec cursor = (if cursor = '''' then None else dec cursor)"

definition after_cursor :: "(gtime \<times> string) option \<Rightarrow> dep_row \<Rightarrow> bool" where
  "after_cursor c r \<longleftrightarrow> (case c of None \<Rightarrow> True | Some (t, i) \<Rightarrow> row_key r < (t_ns t, i))"

definition Store_List :: "(gtime \<Rightarrow> string \<Rightarrow> string) \<Rightarrow> (string \<Rightarrow> (gtime \<times> string) option) \<Rightarrow>
    string \<Rightarrow> string \<Rightarrow> Page \<Rightarrow> dep_db \<Rightarrow> (Deployment list \<times> string) res" where
  "Store_List enc dec strategyID user p db =
     (let limit = nat (EffectiveLimit p);
          sel = filter (\<lambda>r. wanted strategyID user r \<and> after_cursor (decode_cursor dec (pg_Cursor p)) r) (db_rows db)
      in if \<not> db_up db then Inl err_db
         else rbind (scan_all (take (limit + 1) (rev (sort_key row_key sel))))
                (\<lambda>out. Inr (deploymentPage enc out limit)))"

end
