(* ===== verification/Deployment_Props.thy ===== *)
theory Deployment_Props
  imports Deployment_Store
begin

text \<open>
  Lemmas and properties of the deployment store: what a statement changes, that walking the pages of
  a listing visits every deployment of a user once and in order, and what a null column does to a
  listing.
\<close>

section \<open>Scanning\<close>

definition readable :: "dep_row \<Rightarrow> bool" where
  "readable r \<longleftrightarrow> r_order_book r \<noteq> None \<and> r_resolution r \<noteq> None"

definition the_dep :: "dep_row \<Rightarrow> Deployment" where
  "the_dep r = projr (scanDeployment r)"

lemma scan_readable: "readable r \<Longrightarrow> scanDeployment r = Inr (the_dep r)"
  by (auto simp: readable_def the_dep_def scanDeployment_def)

lemma scan_unreadable: "\<not> readable r \<Longrightarrow> scanDeployment r = Inl ''cannot scan NULL into *string''"
  by (auto simp: readable_def scanDeployment_def split: option.splits)

lemma the_dep_simps:
  assumes "readable r"
  shows "d_ID (the_dep r) = r_id r" "d_CreatedAt (the_dep r) = r_created r" "d_UserID (the_dep r) = r_user r"
    "d_Status (the_dep r) = r_status r" "d_Resolution (the_dep r) = the (r_resolution r)"
    "d_OrderBookID (the_dep r) = the (r_order_book r)" "d_StrategyID (the_dep r) = r_strategy r"
    "d_Revision (the_dep r) = r_revision r" "d_CandleCount (the_dep r) = r_candles r"
    "d_WarmupCandles (the_dep r) = r_warmup r" "d_Params (the_dep r) = r_params r"
  using assms by (auto simp: readable_def the_dep_def scanDeployment_def)

lemma scan_all_readable: "list_all readable rs \<Longrightarrow> scan_all rs = Inr (map the_dep rs)"
  by (induction rs) (simp_all add: scan_readable)

lemma scan_all_unreadable:
  "\<not> list_all readable rs \<Longrightarrow> scan_all rs = Inl ''cannot scan NULL into *string''"
proof (induction rs)
  case (Cons r rs)
  show ?case
  proof (cases "readable r")
    case True
    then show ?thesis using Cons by (simp add: scan_readable)
  qed (simp add: scan_unreadable)
qed simp

section \<open>Statements\<close>

lemma row_update_cases:
  obtains (failed) e where "row_update i user f db = (db, Some e)"
  | (updated) "row_update i user f db = (db\<lparr>db_rows := map (\<lambda>r. if row_is i user r then f r else r) (db_rows db)\<rparr>, None)"
    "constraints (map (\<lambda>r. if row_is i user r then f r else r) (db_rows db))" "db_up db"
  by (cases "db_up db"; cases "list_ex (row_is i user) (db_rows db)";
      cases "constraints (map (\<lambda>r. if row_is i user r then f r else r) (db_rows db))")
    (auto simp: row_update_def Let_def)

lemma row_update_constraints:
  "constraints (db_rows db) \<Longrightarrow> constraints (db_rows (fst (row_update i user f db)))"
  by (rule row_update_cases [of i user f db]) simp_all

lemma row_update_up [simp]: "db_up (fst (row_update i user f db)) = db_up db"
  by (rule row_update_cases [of i user f db]) simp_all

lemma row_insert_constraints:
  "constraints (db_rows db) \<Longrightarrow> constraints (db_rows (fst (row_insert r db)))"
  by (simp add: row_insert_def)

text \<open>The statements that leave identifier, strategy and status alone always satisfy the constraints.\<close>

definition keeps_keys :: "(dep_row \<Rightarrow> dep_row) \<Rightarrow> bool" where
  "keeps_keys f \<longleftrightarrow> (\<forall>r. r_id (f r) = r_id r \<and> r_strategy (f r) = r_strategy r \<and> r_status (f r) = r_status r)"

lemma constraints_keeps:
  assumes "keeps_keys f"
  shows "constraints (map (\<lambda>r. if P r then f r else r) rs) = constraints rs"
proof -
  have "map r_id (map (\<lambda>r. if P r then f r else r) rs) = map r_id rs"
    using assms by (simp add: keeps_keys_def)
  moreover have "running_strategies (map (\<lambda>r. if P r then f r else r) rs) = running_strategies rs"
    using assms by (induction rs) (simp_all add: running_strategies_def keeps_keys_def)
  ultimately show ?thesis by (simp only: constraints_def)
qed

lemma filter_row_unique:
  assumes "distinct (map r_id rs)" "r \<in> set rs" "row_is i user r"
  shows "filter (row_is i user) rs = [r]"
  using assms
proof (induction rs)
  case (Cons x xs)
  show ?case
  proof (cases "x = r")
    case True
    have "filter (row_is i user) xs = []"
      using Cons.prems True by (auto simp: filter_empty_conv row_is_def image_iff)
    then show ?thesis using True Cons.prems(3) by simp
  next
    case False
    then have "r_id x \<noteq> r_id r" using Cons.prems by (auto simp: image_iff)
    then show ?thesis using Cons False by (auto simp: row_is_def)
  qed
qed simp

section \<open>Pages\<close>

definition newest_first :: "string \<Rightarrow> string \<Rightarrow> dep_db \<Rightarrow> dep_row list" where
  "newest_first strategyID user db = rev (sort_key row_key (filter (wanted strategyID user) (db_rows db)))"

lemma newest_first_strict:
  assumes "distinct (map r_id (db_rows db))"
  shows "sorted_wrt (\<lambda>a b. row_key b < row_key a) (newest_first s u db)"
proof -
  let ?xs = "sort_key row_key (filter (wanted s u) (db_rows db))"
  have "distinct (map row_key (db_rows db))"
    using assms by (auto simp: distinct_map row_key_def inj_on_def)
  then have "distinct (map row_key (filter (wanted s u) (db_rows db)))" by (rule distinct_map_filter)
  then have "inj_on row_key (set ?xs)" "distinct ?xs" by (simp_all add: distinct_map)
  then have "distinct (map row_key ?xs)" by (simp add: distinct_map)
  moreover have "sorted (map row_key ?xs)" by simp
  ultimately have "sorted_wrt (<) (map row_key ?xs)" by (simp add: strict_sorted_iff)
  then show ?thesis by (simp add: newest_first_def sorted_wrt_map sorted_wrt_rev)
qed

lemma newest_first_filter:
  "rev (sort_key row_key (filter (\<lambda>r. wanted s u r \<and> Q r) (db_rows db))) = filter Q (newest_first s u db)"
proof -
  have "filter Q (rev (sort_key row_key (filter (wanted s u) (db_rows db)))) =
      rev (sort_key row_key (filter Q (filter (wanted s u) (db_rows db))))"
    by (simp only: filter_sort rev_filter [symmetric])
  then show ?thesis by (simp add: newest_first_def conj_commute)
qed

lemma filter_below:
  assumes "sorted_wrt (\<lambda>a b. k b < k a) xs" "m < length xs"
  shows "filter (\<lambda>r. k r < (k (xs ! m) :: 'b :: linorder)) xs = drop (Suc m) xs"
  by (rule filter_beyond [OF assms]) (rule less_not_sym)

lemma Store_List_page:
  assumes "db_up db" "list_all readable (newest_first s u db)"
    and rows: "filter (after_cursor (decode_cursor dec c)) (newest_first s u db) = drop m (newest_first s u db)"
  shows "Store_List enc dec s u \<lparr>pg_Limit = l, pg_Cursor = c\<rparr> db =
    Inr (deploymentPage enc (map the_dep (take (nat (EffectiveLimit \<lparr>pg_Limit = l, pg_Cursor = c\<rparr>) + 1)
      (drop m (newest_first s u db)))) (nat (EffectiveLimit \<lparr>pg_Limit = l, pg_Cursor = c\<rparr>)))"
proof -
  have "list_all readable (take n (drop m (newest_first s u db)))" for n
    using assms(2) by (auto simp: list_all_iff dest!: in_set_takeD in_set_dropD)
  then show ?thesis using assms(1)
    by (simp add: Store_List_def Let_def newest_first_filter rows scan_all_readable)
qed

text \<open>Walking the pages: the client asks for the next page with the cursor of the last one until the
  cursor is empty.\<close>

fun walk_pages :: "(gtime \<Rightarrow> string \<Rightarrow> string) \<Rightarrow> (string \<Rightarrow> (gtime \<times> string) option) \<Rightarrow> string \<Rightarrow> string \<Rightarrow> int \<Rightarrow>
    nat \<Rightarrow> string \<Rightarrow> dep_db \<Rightarrow> Deployment list res" where
  "walk_pages enc dec s u l 0 c db = Inl ''more pages''"
| "walk_pages enc dec s u l (Suc n) c db =
     rbind (Store_List enc dec s u \<lparr>pg_Limit = l, pg_Cursor = c\<rparr> db) (\<lambda>(items, next_c).
       if next_c = '''' then Inr items
       else rbind (walk_pages enc dec s u l n next_c db) (\<lambda>rest. Inr (items @ rest)))"

definition cursor_laws :: "(gtime \<Rightarrow> string \<Rightarrow> string) \<Rightarrow> (string \<Rightarrow> (gtime \<times> string) option) \<Rightarrow> bool" where
  "cursor_laws enc dec \<longleftrightarrow> (\<forall>t i. enc t i \<noteq> '''' \<and> dec (enc t i) = Some (t, i))"

lemma EffectiveLimit_bounds: "1 \<le> EffectiveLimit p" "EffectiveLimit p \<le> 100"
  by (auto simp: EffectiveLimit_def)

lemma walk_pages_from:
  fixes l :: int
  assumes "db_up db" "constraints (db_rows db)" "list_all readable (newest_first s u db)" "cursor_laws enc dec"
    and "filter (after_cursor (decode_cursor dec c)) (newest_first s u db) = drop m (newest_first s u db)"
    and "length (newest_first s u db) - m < n"
  shows "walk_pages enc dec s u l n c db = Inr (map the_dep (drop m (newest_first s u db)))"
  using assms(5,6)
proof (induction n arbitrary: c m)
  case (Suc n)
  let ?all = "newest_first s u db"
  define k where "k = nat (EffectiveLimit \<lparr>pg_Limit = l, pg_Cursor = c\<rparr>)"
  have k: "0 < k" using EffectiveLimit_bounds(1) [of "\<lparr>pg_Limit = l, pg_Cursor = c\<rparr>"] by (simp add: k_def)
  note page = Store_List_page [OF assms(1,3) Suc.prems(1), where l = l and enc = enc, folded k_def]
  show ?case
  proof (cases "length ?all - m \<le> k")
    case True
    then show ?thesis using page by (simp add: deploymentPage_def)
  next
    case False
    define x where "x = ?all ! (m + k - 1)"
    have ix: "m + k - 1 < length ?all" "Suc (m + k - 1) = m + k" using False k by simp_all
    have x: "drop m ?all ! (k - 1) = x" using False k by (simp add: x_def)
    have "readable x" using assms(3) ix(1) by (simp add: list_all_iff x_def)
    note dx = the_dep_simps(1,2) [OF this]
    have "Store_List enc dec s u \<lparr>pg_Limit = l, pg_Cursor = c\<rparr> db =
        Inr (map the_dep (take k (drop m ?all)), enc (r_created x) (r_id x))"
      using page False k x dx by (simp add: deploymentPage_def take_map min_def)
    moreover have "filter (after_cursor (decode_cursor dec (enc (r_created x) (r_id x)))) ?all = drop (m + k) ?all"
    proof -
      have "after_cursor (decode_cursor dec (enc (r_created x) (r_id x))) = (\<lambda>r. row_key r < row_key x)"
        using assms(4) by (auto simp: cursor_laws_def decode_cursor_def after_cursor_def row_key_def)
      then show ?thesis
        using filter_below [OF newest_first_strict ix(1)] assms(2) ix(2) by (simp add: constraints_def x_def)
    qed
    ultimately show ?thesis
      using Suc.IH [of "enc (r_created x) (r_id x)" "m + k"] Suc.prems(2) k False assms(4)
      by (simp add: cursor_laws_def flip: map_append) (simp add: add.commute flip: drop_drop)
  qed
qed simp

text \<open>A client that follows the cursors of a listing, with any page size, gets every deployment of the
  user (of one strategy, if asked for) exactly once, newest first, and stops after at most as many
  pages as there are deployments.\<close>

theorem paging_visits_all:
  assumes "db_up db" "constraints (db_rows db)" "list_all readable (db_rows db)" "cursor_laws enc dec"
  shows "walk_pages enc dec strategyID user limit (Suc (length (db_rows db))) '''' db =
      Inr (map the_dep (newest_first strategyID user db)) \<and>
    set (newest_first strategyID user db) = {r \<in> set (db_rows db). wanted strategyID user r} \<and>
    sorted_wrt (\<lambda>a b. row_key b < row_key a) (newest_first strategyID user db)"
proof -
  let ?all = "newest_first strategyID user db"
  have set: "set ?all = {r \<in> set (db_rows db). wanted strategyID user r}" by (auto simp: newest_first_def)
  have "list_all readable ?all" using assms(3) set by (auto simp: list_all_iff)
  moreover have "filter (after_cursor (decode_cursor dec '''')) ?all = drop 0 ?all"
    by (simp add: decode_cursor_def after_cursor_def)
  moreover have "length ?all \<le> length (db_rows db)" by (simp add: newest_first_def)
  ultimately have "walk_pages enc dec strategyID user limit (Suc (length (db_rows db))) '''' db = Inr (map the_dep ?all)"
    using walk_pages_from [OF assms(1,2) _ assms(4), of strategyID user "''''" 0] by (simp del: walk_pages.simps)
  then show ?thesis using set newest_first_strict assms(2) by (auto simp: constraints_def)
qed

text \<open>One running row whose resolution or order book is null makes the listing of all running
  deployments fail, because the scan refuses the null.\<close>

theorem null_column_blocks_listing:
  assumes "db_up db" "r \<in> set (db_rows db)" "r_status r = StatusRunning" "r_resolution r = None \<or> r_order_book r = None"
  shows "ListRunning db = Inl ''cannot scan NULL into *string''"
proof -
  have "\<not> list_all readable (rev (sort_key (\<lambda>r. t_ns (r_created r)) (filter (\<lambda>r. r_status r = StatusRunning) (db_rows db))))"
    using assms(2-4) by (auto simp: list_all_iff readable_def)
  then show ?thesis using assms(1) by (simp add: ListRunning_def scan_all_unreadable)
qed

section \<open>Examples\<close>

definition sample_row :: "string \<Rightarrow> int \<Rightarrow> dep_row" where
  "sample_row i t = \<lparr>r_id = i, r_strategy = ''s'' @ i, r_revision = ''v1'', r_user = ''u'', r_order_book = Some ''B'',
     r_resolution = Some ''1m'', r_params = [], r_status = StatusRunning, r_instance = None, r_started = None,
     r_stopped = None, r_reason = None, r_restarts = 0, r_swapped = None, r_swapped_from = None, r_candles = 0,
     r_warmup = 0, r_created = \<lparr>t_ns = t, t_off = 0\<rparr>, r_updated = \<lparr>t_ns = t, t_off = 0\<rparr>\<rparr>"

definition sample_db :: dep_db where
  "sample_db = \<lparr>db_up = True, db_rows = [sample_row ''a'' 1, sample_row ''b'' 2, sample_row ''c'' 3]\<rparr>"

text \<open>A cursor text for the examples: the digits of the instant and the offset in unary, then the
  identifier.\<close>

definition unary :: "int \<Rightarrow> string" where
  "unary t = (if t < 0 then ''-'' else ''+'') @ replicate (nat \<bar>t\<bar>) CHR ''1'' @ ''.''"

fun read_ones :: "string \<Rightarrow> nat \<times> string" where
  "read_ones (c # cs) = (if c = CHR ''1'' then (case read_ones cs of (n, r) \<Rightarrow> (Suc n, r)) else (0, cs))"
| "read_ones [] = (0, [])"

definition read_unary :: "string \<Rightarrow> int \<times> string" where
  "read_unary s = (case s of [] \<Rightarrow> (0, []) | c # cs \<Rightarrow>
     (case read_ones cs of (n, r) \<Rightarrow> (if c = CHR ''-'' then - int n else int n, r)))"

definition sample_enc :: "gtime \<Rightarrow> string \<Rightarrow> string" where
  "sample_enc t i = unary (t_ns t) @ unary (t_off t) @ i"

definition sample_dec :: "string \<Rightarrow> (gtime \<times> string) option" where
  "sample_dec s = (case read_unary s of (n, r) \<Rightarrow> (case read_unary r of (f, i) \<Rightarrow> Some (\<lparr>t_ns = n, t_off = f\<rparr>, i)))"

lemma read_unary_unary: "read_unary (unary t @ s) = (t, s)"
proof -
  have "read_ones (replicate n CHR ''1'' @ CHR ''.'' # s) = (n, s)" for n by (induction n) simp_all
  then show ?thesis by (simp add: read_unary_def unary_def)
qed

lemma sample_cursor_laws: "cursor_laws sample_enc sample_dec"
proof -
  have "unary t \<noteq> ''''" for t by (simp add: unary_def)
  then show ?thesis by (simp add: cursor_laws_def sample_enc_def sample_dec_def read_unary_unary)
qed

lemma sample_db_ok: "db_up sample_db" "constraints (db_rows sample_db)" "list_all readable (db_rows sample_db)"
  by (simp_all add: sample_db_def sample_row_def constraints_def running_strategies_def readable_def)

lemma sample_newest_first:
  "newest_first '''' ''u'' sample_db = [sample_row ''c'' 3, sample_row ''b'' 2, sample_row ''a'' 1]"
  by (simp add: newest_first_def sample_db_def sample_row_def wanted_def row_key_def)

theorem paging_visits_all_witness:
  "walk_pages sample_enc sample_dec '''' ''u'' 1 4 '''' sample_db =
     Inr (map the_dep [sample_row ''c'' 3, sample_row ''b'' 2, sample_row ''a'' 1])"
proof -
  have "Suc (length (db_rows sample_db)) = 4" by (simp add: sample_db_def)
  then show ?thesis
    using paging_visits_all [OF sample_db_ok sample_cursor_laws, of "''''" "''u''" 1] sample_newest_first
    by (simp del: walk_pages.simps)
qed

theorem null_column_blocks_listing_witness:
  "ListRunning (sample_db\<lparr>db_rows := [(sample_row ''a'' 1)\<lparr>r_resolution := None\<rparr>, sample_row ''b'' 2]\<rparr>) =
     Inl ''cannot scan NULL into *string''"
  using null_column_blocks_listing [of "sample_db\<lparr>db_rows := [(sample_row ''a'' 1)\<lparr>r_resolution := None\<rparr>, sample_row ''b'' 2]\<rparr>"
      "(sample_row ''a'' 1)\<lparr>r_resolution := None\<rparr>"]
  by (simp add: sample_db_def sample_row_def)

end
