(* ===== verification/Ws_Broker.thy ===== *)
theory Ws_Broker
  imports Go_Base
begin

text \<open>
  The market-data broker of the agent (\<open>internal/agent/wsbroker/broker.go\<close>): one websocket
  connection whose notifications are fanned out to subscribers with bounded buffers.

  \<^item> A \<open>*Subscription\<close> is a pointer into \<open>br_heap\<close>; pointer 0 is \<open>nil\<close>. The slice \<open>b.subs\<close> is a
    backing array of \<open>br_arrays\<close> (number \<open>br_aid\<close>) and a length \<open>br_len\<close>, because \<open>Unsubscribe\<close> shifts
    the array in place while \<open>dispatch\<close> may still be reading it through an older slice header.
  \<^item> A buffered channel is the list of the frames in it with a closed flag; sending on a closed
    channel is the error \<open>panic_closed\<close>.
  \<^item> \<open>dispatch\<close> holds the lock only while it copies the slice header. What other goroutines do to the
    broker before its iteration \<open>i\<close> is the argument \<open>env i\<close>; without interference it is the
    identity.
  \<^item> A raw JSON message is its text together with what \<open>json.Unmarshal\<close> reads into its
    \<open>start_timestamp\<close> field (\<open>None\<close> when decoding fails, \<open>''''\<close> when the field is absent). The
    envelope of a notification is taken as decoded; an undecodable one changes nothing.
  \<^item> Writing a subscribe request to a connection is an entry of \<open>br_writes\<close>; a failed write is only
    logged by the code. Logging is left out.
\<close>

section \<open>Data\<close>

record RawMessage =
  rm_text :: string
  rm_start :: "string option"

record Frame =
  fr_Type :: string
  fr_OrderBookID :: string
  fr_Resolution :: string
  fr_AssetID :: string
  fr_Raw :: RawMessage

record Subscription =
  sub_OrderBookID :: string
  sub_Resolution :: string
  sub_AssetID :: string
  sub_TypeFilter :: "string list"
  sub_Channels :: "string list"
  sub_buf :: "Frame list"
  sub_closed :: bool

datatype request = ReqCandles string string | ReqTrades string | ReqPrices string

record Broker =
  br_heap :: "nat \<rightharpoonup> Subscription"
  br_next :: nat
  br_arrays :: "nat list list"
  br_aid :: nat
  br_len :: nat
  br_frameCb :: "nat list"
  br_conn :: "nat option"
  br_stopped :: bool
  br_subscribedKeys :: "string list"
  br_pendingCandle :: "string \<rightharpoonup> RawMessage"
  br_pendingTS :: "string \<rightharpoonup> string"
  br_lastSentTS :: "string \<rightharpoonup> string"
  br_writes :: "(nat \<times> request) list"

definition defaultFrameBuffer :: nat where
  "defaultFrameBuffer = 64"

definition SubscribeAllOrderBooks :: string where
  "SubscribeAllOrderBooks = ''*''"

definition panic_closed :: gerror where
  "panic_closed = ''panic: send on closed channel''"

text \<open>Reading a missing key of a Go map of strings gives the empty string.\<close>

definition map_str :: "(string \<rightharpoonup> string) \<Rightarrow> string \<Rightarrow> string" where
  "map_str m k = (case m k of None \<Rightarrow> '''' | Some s \<Rightarrow> s)"

definition Broker_New :: "string \<Rightarrow> string \<Rightarrow> Broker res" where
  "Broker_New url apiKey =
     (if url = '''' then Inl ''wsbroker: URL is required''
      else if apiKey = '''' then Inl ''wsbroker: APIKey is required''
      else Inr \<lparr>br_heap = Map.empty, br_next = 1, br_arrays = [[]], br_aid = 0, br_len = 0,
        br_frameCb = [], br_conn = None, br_stopped = False, br_subscribedKeys = [],
        br_pendingCandle = Map.empty, br_pendingTS = Map.empty, br_lastSentTS = Map.empty,
        br_writes = []\<rparr>)"

section \<open>Matching frames\<close>

definition typeAllowed :: "Subscription \<Rightarrow> string \<Rightarrow> bool" where
  "typeAllowed s t =
     (if sub_TypeFilter s \<noteq> [] then t \<in> set (sub_TypeFilter s)
      else if sub_Channels s \<noteq> [] then t \<in> set (sub_Channels s)
      else True)"

definition book_differs :: "Subscription \<Rightarrow> Frame \<Rightarrow> bool" where
  "book_differs s f \<longleftrightarrow> sub_OrderBookID s \<noteq> '''' \<and> sub_OrderBookID s \<noteq> SubscribeAllOrderBooks \<and>
     sub_OrderBookID s \<noteq> fr_OrderBookID f"

definition matches :: "Subscription \<Rightarrow> Frame \<Rightarrow> bool" where
  "matches s f =
     (if \<not> typeAllowed s (fr_Type f) then False
      else if fr_Type f = ''candle'' then
        (if book_differs s f then False
         else if sub_Resolution s \<noteq> '''' \<and> sub_Resolution s \<noteq> fr_Resolution f then False
         else True)
      else if fr_Type f = ''trade'' then \<not> book_differs s f
      else if fr_Type f = ''price'' then
        \<not> (sub_AssetID s \<noteq> '''' \<and> sub_AssetID s \<noteq> fr_AssetID f)
      else False)"

section \<open>The slice of subscribers\<close>

definition subs_of :: "Broker \<Rightarrow> nat list" where
  "subs_of b = take (br_len b) (br_arrays b ! br_aid b)"

text \<open>\<open>append\<close> writes into the spare capacity of the array, or copies to a larger one. How much
  larger is up to the Go runtime: \<open>grow\<close>.\<close>

definition append_sub :: "(nat \<Rightarrow> nat) \<Rightarrow> nat \<Rightarrow> Broker \<Rightarrow> Broker" where
  "append_sub grow p b =
     (let arr = br_arrays b ! br_aid b; n = br_len b in
      if n < length arr
      then b\<lparr>br_arrays := (br_arrays b)[br_aid b := arr[n := p]], br_len := Suc n\<rparr>
      else b\<lparr>br_arrays := br_arrays b @ [take n arr @ p # replicate (grow n) 0],
             br_aid := length (br_arrays b), br_len := Suc n\<rparr>)"

text \<open>\<open>append(s[:i], s[i+1:]...)\<close> moves the tail down by one place and leaves the last slot as it
  was.\<close>

definition shift_down :: "nat \<Rightarrow> nat \<Rightarrow> nat list \<Rightarrow> nat list" where
  "shift_down i n arr = take i arr @ take (n - Suc i) (drop (Suc i) arr) @ drop (n - 1) arr"

fun index_from :: "nat \<Rightarrow> nat \<Rightarrow> nat list \<Rightarrow> nat option" where
  "index_from i p [] = None"
| "index_from i p (x # xs) = (if x = p then Some i else index_from (Suc i) p xs)"

definition close_sub :: "nat \<Rightarrow> Broker \<Rightarrow> Broker" where
  "close_sub p b = b\<lparr>br_heap := (br_heap b)(p := map_option (\<lambda>s. s\<lparr>sub_closed := True\<rparr>) (br_heap b p))\<rparr>"

definition Unsubscribe :: "nat \<Rightarrow> Broker \<Rightarrow> Broker" where
  "Unsubscribe p b =
     (case index_from 0 p (subs_of b) of
        None \<Rightarrow> b
      | Some i \<Rightarrow> close_sub p (b\<lparr>
          br_arrays := (br_arrays b)[br_aid b := shift_down i (br_len b) (br_arrays b ! br_aid b)],
          br_len := br_len b - 1\<rparr>))"

section \<open>Subscribing\<close>

definition new_sub :: "Subscription \<Rightarrow> Broker \<Rightarrow> nat \<times> Broker" where
  "new_sub s b = (br_next b, b\<lparr>br_heap := (br_heap b)(br_next b \<mapsto> s), br_next := Suc (br_next b)\<rparr>)"

definition add_key :: "string \<Rightarrow> Broker \<Rightarrow> Broker" where
  "add_key k b = b\<lparr>br_subscribedKeys := br_subscribedKeys b @ [k]\<rparr>"

definition write_req :: "request \<Rightarrow> Broker \<Rightarrow> Broker" where
  "write_req r b = (case br_conn b of None \<Rightarrow> b | Some c \<Rightarrow> b\<lparr>br_writes := br_writes b @ [(c, r)]\<rparr>)"

definition candle_key :: "string \<Rightarrow> string \<Rightarrow> string" where
  "candle_key orderBookID resolution = orderBookID @ '':'' @ resolution"

definition trades_key :: "string \<Rightarrow> string" where
  "trades_key orderBookID = ''trades:'' @ orderBookID"

definition prices_key :: "string \<Rightarrow> string" where
  "prices_key assetID = ''prices:'' @ assetID"

definition Subscribe :: "(nat \<Rightarrow> nat) \<Rightarrow> string \<Rightarrow> string \<Rightarrow> string list \<Rightarrow> Broker \<Rightarrow> nat \<times> Broker" where
  "Subscribe grow orderBookID resolution channels b =
     (let (p, b1) = new_sub \<lparr>sub_OrderBookID = orderBookID, sub_Resolution = resolution,
            sub_AssetID = '''', sub_TypeFilter = channels, sub_Channels = channels, sub_buf = [],
            sub_closed = False\<rparr> b;
          b2 = append_sub grow p b1;
          subKey = candle_key orderBookID resolution;
          alreadySubbed = (subKey \<in> set (br_subscribedKeys b2));
          b3 = (if \<not> alreadySubbed \<and> orderBookID \<noteq> SubscribeAllOrderBooks then add_key subKey b2
                else b2);
          b4 = (if \<not> alreadySubbed \<and> orderBookID \<noteq> SubscribeAllOrderBooks
                then write_req (ReqCandles orderBookID resolution) b3 else b3)
      in (p, b4))"

definition registerSub :: "(nat \<Rightarrow> nat) \<Rightarrow> nat \<Rightarrow> string \<Rightarrow> Broker \<Rightarrow> bool \<times> Broker" where
  "registerSub grow p subKey b =
     (let b1 = append_sub grow p b;
          already = (subKey \<in> set (br_subscribedKeys b1))
      in (already, if \<not> already then add_key subKey b1 else b1))"

definition SubscribeTrades :: "(nat \<Rightarrow> nat) \<Rightarrow> string \<Rightarrow> Broker \<Rightarrow> nat \<times> Broker" where
  "SubscribeTrades grow orderBookID b =
     (let (p, b1) = new_sub \<lparr>sub_OrderBookID = orderBookID, sub_Resolution = '''',
            sub_AssetID = '''', sub_TypeFilter = [''trade''], sub_Channels = [], sub_buf = [],
            sub_closed = False\<rparr> b;
          (already, b2) = registerSub grow p (trades_key orderBookID) b1
      in (p, if \<not> already then write_req (ReqTrades orderBookID) b2 else b2))"

definition SubscribePrices :: "(nat \<Rightarrow> nat) \<Rightarrow> string \<Rightarrow> Broker \<Rightarrow> nat \<times> Broker" where
  "SubscribePrices grow assetID b =
     (let (p, b1) = new_sub \<lparr>sub_OrderBookID = '''', sub_Resolution = '''',
            sub_AssetID = assetID, sub_TypeFilter = [''price''], sub_Channels = [], sub_buf = [],
            sub_closed = False\<rparr> b;
          (already, b2) = registerSub grow p (prices_key assetID) b1
      in (p, if \<not> already then write_req (ReqPrices assetID) b2 else b2))"

definition OnFrame :: "nat \<Rightarrow> Broker \<Rightarrow> Broker" where
  "OnFrame cb b = b\<lparr>br_frameCb := br_frameCb b @ [cb]\<rparr>"

definition Broker_Stop :: "Broker \<Rightarrow> Broker" where
  "Broker_Stop b = (if br_stopped b then b else b\<lparr>br_stopped := True\<rparr>)"

section \<open>Connecting\<close>

fun strip_prefix :: "string \<Rightarrow> string \<Rightarrow> string option" where
  "strip_prefix [] s = Some s"
| "strip_prefix (c # cs) [] = None"
| "strip_prefix (c # cs) (d # ds) = (if c = d then strip_prefix cs ds else None)"

text \<open>\<open>strings.SplitN(key, ":", 2)\<close> with the test for two parts.\<close>

fun split_colon :: "string \<Rightarrow> (string \<times> string) option" where
  "split_colon [] = None"
| "split_colon (c # cs) =
     (if c = CHR '':'' then Some ([], cs)
      else map_option (\<lambda>(a, r). (c # a, r)) (split_colon cs))"

definition key_request :: "string \<Rightarrow> request option" where
  "key_request key =
     (case strip_prefix ''trades:'' key of
        Some orderBookID \<Rightarrow> Some (ReqTrades orderBookID)
      | None \<Rightarrow> (case strip_prefix ''prices:'' key of
          Some assetID \<Rightarrow> Some (ReqPrices assetID)
        | None \<Rightarrow> map_option (\<lambda>(ob, res). ReqCandles ob res) (split_colon key)))"

text \<open>The part of \<open>connectAndRead\<close> after a successful dial: the connection is stored and every
  recorded key is sent again.\<close>

definition connected :: "nat \<Rightarrow> Broker \<Rightarrow> Broker" where
  "connected c b =
     (let b1 = b\<lparr>br_conn := Some c\<rparr>
      in b1\<lparr>br_writes := br_writes b1 @ map (Pair c) (List.map_filter key_request (br_subscribedKeys b1))\<rparr>)"

section \<open>Dispatching frames\<close>

definition send_frame :: "nat \<Rightarrow> Frame \<Rightarrow> Broker \<Rightarrow> Broker res" where
  "send_frame p f b =
     (case br_heap b p of
        None \<Rightarrow> Inl ''panic: nil pointer dereference''
      | Some s \<Rightarrow>
          if \<not> matches s f then Inr b
          else if sub_closed s then Inl panic_closed
          else if length (sub_buf s) < defaultFrameBuffer
          then Inr (b\<lparr>br_heap := (br_heap b)(p \<mapsto> s\<lparr>sub_buf := sub_buf s @ [f]\<rparr>)\<rparr>)
          else Inr b)"

fun dispatch_loop :: "(nat \<Rightarrow> Broker \<Rightarrow> Broker) \<Rightarrow> Frame \<Rightarrow> nat \<Rightarrow> nat \<Rightarrow> nat \<Rightarrow> Broker \<Rightarrow> Broker res" where
  "dispatch_loop env f a i 0 b = Inr b"
| "dispatch_loop env f a i (Suc k) b =
     (let b1 = env i b
      in rbind (send_frame (br_arrays b1 ! a ! i) f b1) (\<lambda>b2. dispatch_loop env f a (Suc i) k b2))"

definition dispatch :: "(nat \<Rightarrow> Broker \<Rightarrow> Broker) \<Rightarrow> Frame \<Rightarrow> Broker \<Rightarrow> Broker res" where
  "dispatch env f b = dispatch_loop env f (br_aid b) 0 (br_len b) b"

abbreviation quiet :: "nat \<Rightarrow> Broker \<Rightarrow> Broker" where
  "quiet \<equiv> (\<lambda>_ b. b)"

section \<open>Notifications\<close>

text \<open>\<open>advanceCandle\<close>: the state machine of one order book and resolution. The result is the candle
  to emit, if any.\<close>

definition advanceCandle :: "string \<Rightarrow> string \<Rightarrow> RawMessage \<Rightarrow> string \<Rightarrow> RawMessage option \<Rightarrow> Broker \<Rightarrow>
    Broker \<times> (RawMessage \<times> string) option" where
  "advanceCandle obID resolution newInProgress newTS bootstrap b =
     (let dedupKey = candle_key obID resolution;
          cached = br_pendingCandle b dedupKey;
          cachedTS = map_str (br_pendingTS b) dedupKey;
          refreshed = b\<lparr>br_pendingCandle := (br_pendingCandle b)(dedupKey \<mapsto> newInProgress),
                        br_pendingTS := (br_pendingTS b)(dedupKey \<mapsto> newTS)\<rparr>
      in case bootstrap of
           Some boot \<Rightarrow>
             (let bootTS = (case rm_start boot of None \<Rightarrow> '''' | Some t \<Rightarrow> t) in
              if bootTS \<noteq> '''' \<and> map_str (br_lastSentTS b) dedupKey = bootTS then (refreshed, None)
              else (refreshed\<lparr>br_lastSentTS := (br_lastSentTS b)(dedupKey \<mapsto> bootTS)\<rparr>, Some (boot, bootTS)))
         | None \<Rightarrow>
             (case cached of
                None \<Rightarrow> (refreshed, None)
              | Some closedCandle \<Rightarrow>
                  if cachedTS = newTS
                  then (b\<lparr>br_pendingCandle := (br_pendingCandle b)(dedupKey \<mapsto> newInProgress)\<rparr>, None)
                  else if cachedTS \<noteq> '''' \<and> map_str (br_lastSentTS b) dedupKey = cachedTS
                  then (refreshed, None)
                  else (refreshed\<lparr>br_lastSentTS := (br_lastSentTS b)(dedupKey \<mapsto> cachedTS)\<rparr>,
                        Some (closedCandle, cachedTS))))"

text \<open>One order book of a \<open>/charts/candles\<close> notification; \<open>None\<close> stands for an array that does not
  decode. The parts are the candle in progress, its start and, in a snapshot of two or more, the
  candle before it.\<close>

definition candle_parts :: "RawMessage list option \<Rightarrow> (RawMessage \<times> string \<times> RawMessage option) option" where
  "candle_parts arr =
     (case arr of
        None \<Rightarrow> None
      | Some candles \<Rightarrow>
          if candles = [] then None
          else let newInProgress = (if 2 \<le> length candles then candles ! (length candles - 1) else candles ! 0);
                   bootstrap = (if 2 \<le> length candles then Some (candles ! (length candles - 2)) else None)
               in case rm_start newInProgress of
                    None \<Rightarrow> None
                  | Some newTS \<Rightarrow> if newTS = '''' then None else Some (newInProgress, newTS, bootstrap))"

definition candle_frame :: "string \<Rightarrow> string \<Rightarrow> RawMessage \<Rightarrow> Frame" where
  "candle_frame obID resolution raw = \<lparr>fr_Type = ''candle'', fr_OrderBookID = obID,
     fr_Resolution = resolution, fr_AssetID = '''', fr_Raw = raw\<rparr>"

definition candle_entry :: "(nat \<Rightarrow> Broker \<Rightarrow> Broker) \<Rightarrow> string \<Rightarrow> string \<times> RawMessage list option \<Rightarrow>
    Broker \<Rightarrow> Broker res" where
  "candle_entry env resolution entry b =
     (case candle_parts (snd entry) of
        None \<Rightarrow> Inr b
      | Some (newInProgress, newTS, bootstrap) \<Rightarrow>
          (case advanceCandle (fst entry) resolution newInProgress newTS bootstrap b of
             (b1, None) \<Rightarrow> Inr b1
           | (b1, Some (emitCandle, emitTS)) \<Rightarrow>
               dispatch env (candle_frame (fst entry) resolution emitCandle) b1))"

text \<open>The entries of a notification come in the order in which Go ranges over the decoded map.\<close>

fun handleCandleNotification :: "(nat \<Rightarrow> Broker \<Rightarrow> Broker) \<Rightarrow> string \<Rightarrow> (string \<times> RawMessage list option) list \<Rightarrow>
    Broker \<Rightarrow> Broker res" where
  "handleCandleNotification env resolution [] b = Inr b"
| "handleCandleNotification env resolution (e # es) b =
     rbind (candle_entry env resolution e b) (handleCandleNotification env resolution es)"

fun handleTradeNotification :: "(nat \<Rightarrow> Broker \<Rightarrow> Broker) \<Rightarrow> (string \<times> RawMessage) list \<Rightarrow> Broker \<Rightarrow> Broker res" where
  "handleTradeNotification env [] b = Inr b"
| "handleTradeNotification env ((ob, raw) # ts) b =
     rbind (dispatch env \<lparr>fr_Type = ''trade'', fr_OrderBookID = ob, fr_Resolution = '''', fr_AssetID = '''',
              fr_Raw = raw\<rparr> b) (handleTradeNotification env ts)"

fun handlePriceNotification :: "(nat \<Rightarrow> Broker \<Rightarrow> Broker) \<Rightarrow> (string \<times> RawMessage) list \<Rightarrow> Broker \<Rightarrow> Broker res" where
  "handlePriceNotification env [] b = Inr b"
| "handlePriceNotification env ((asset, raw) # ps) b =
     rbind (dispatch env \<lparr>fr_Type = ''price'', fr_OrderBookID = '''', fr_Resolution = '''', fr_AssetID = asset,
              fr_Raw = raw\<rparr> b) (handlePriceNotification env ps)"

datatype notification =
    CandleNote string "(string \<times> RawMessage list option) list"
  | TradeNote "(string \<times> RawMessage) list"
  | PriceNote "(string \<times> RawMessage) list"
  | OtherNote

definition handle_note :: "(nat \<Rightarrow> Broker \<Rightarrow> Broker) \<Rightarrow> notification \<Rightarrow> Broker \<Rightarrow> Broker res" where
  "handle_note env n b =
     (case n of
        CandleNote resolution es \<Rightarrow> handleCandleNotification env resolution es b
      | TradeNote ts \<Rightarrow> handleTradeNotification env ts b
      | PriceNote ps \<Rightarrow> handlePriceNotification env ps b
      | OtherNote \<Rightarrow> Inr b)"

section \<open>The connection loop\<close>

text \<open>One round of \<open>Start\<close>: what its first \<open>select\<close> sees, how the connection attempt goes (a failed
  dial, or a session that reads notifications until the read fails: \<open>connectAndRead\<close> returns only
  with an error), and what ends the wait for the backoff. The outcome \<open>None\<close> means that the loop is
  still running.\<close>

datatype signal = No_signal | Ctx_done | Stop_called

datatype attempt = Dial_fails | Session nat "notification list"

fun read_notes :: "(nat \<Rightarrow> Broker \<Rightarrow> Broker) \<Rightarrow> notification list \<Rightarrow> Broker \<Rightarrow> Broker res" where
  "read_notes env [] b = Inr b"
| "read_notes env (n # ns) b = rbind (handle_note env n b) (read_notes env ns)"

definition connectAndRead :: "(nat \<Rightarrow> Broker \<Rightarrow> Broker) \<Rightarrow> attempt \<Rightarrow> Broker \<Rightarrow> Broker res" where
  "connectAndRead env a b =
     (case a of Dial_fails \<Rightarrow> Inr b | Session c ns \<Rightarrow> read_notes env ns (connected c b))"

fun Broker_Start :: "(nat \<Rightarrow> Broker \<Rightarrow> Broker) \<Rightarrow> (signal \<times> attempt \<times> signal) list \<Rightarrow> Broker \<Rightarrow>
    (Broker \<times> unit res option) res" where
  "Broker_Start env [] b = Inr (b, None)"
| "Broker_Start env ((first, a, waiting) # rounds) b =
     (case first of
        Ctx_done \<Rightarrow> Inr (b, Some (Inl ''context canceled''))
      | Stop_called \<Rightarrow> Inr (b, Some (Inr ()))
      | No_signal \<Rightarrow> rbind (connectAndRead env a b) (\<lambda>b1.
          case waiting of
            Ctx_done \<Rightarrow> Inr (b1, Some (Inl ''context canceled''))
          | Stop_called \<Rightarrow> Inr (b1, Some (Inr ()))
          | No_signal \<Rightarrow> Broker_Start env rounds b1))"

text \<open>The receiving side of a subscription channel, as its consumer sees it.\<close>

definition recv_frame :: "nat \<Rightarrow> Broker \<Rightarrow> Broker \<times> Frame option" where
  "recv_frame p b =
     (case br_heap b p of
        None \<Rightarrow> (b, None)
      | Some s \<Rightarrow> (case sub_buf s of
          [] \<Rightarrow> (b, None)
        | f # fs \<Rightarrow> (b\<lparr>br_heap := (br_heap b)(p \<mapsto> s\<lparr>sub_buf := fs\<rparr>)\<rparr>, Some f)))"

end
