(* ===== verification/Agent_Host.thy ===== *)
theory Agent_Host
  imports Complex_Main Ws_Broker
begin

text \<open>
  What a WASM plugin of a live deployment can reach: the safety kernel
  (\<open>internal/agent/safety/caps.go\<close>), the order broker (\<open>internal/agent/orderbroker/broker.go\<close>) and the
  host functions that use them (\<open>internal/agent/orchestrator/livehost.go\<close>).

  \<^item> The tables of the kernel are a record; \<open>sk_up\<close> tells whether the database answers. The kernel
    treats every query error as "no row".
  \<^item> A \<open>float64\<close> is a rational, an infinity or NaN; \<open>rnd\<close> rounds a rational to a float. Its reading of a
    decimal text, \<open>big.Rat.SetString\<close>, is the argument \<open>setString\<close>.
  \<^item> The reason of a denial is kept as a value instead of a formatted text. Logging is left out; an
    audit record is the effect \<open>Audit\<close> with its action.
  \<^item> The exchange's answer to an order is the argument \<open>create\<close>, with a flag telling whether an HTTP
    response came with an error.
  \<^item> The memory of the plugin: a host function gets the text it read (\<open>None\<close> for a bad range) and
    returns the text it writes; \<open>decode\<close> and \<open>marshal\<close> are the JSON codecs of the framework's types.
\<close>

section \<open>Floating point\<close>

datatype f64 = Fin rat | PInf | NInf | NaN

fun f_sgn :: "f64 \<Rightarrow> rat" where
  "f_sgn (Fin a) = sgn a"
| "f_sgn PInf = 1"
| "f_sgn NInf = - 1"
| "f_sgn NaN = 0"

definition f_mul :: "(rat \<Rightarrow> f64) \<Rightarrow> f64 \<Rightarrow> f64 \<Rightarrow> f64" where
  "f_mul rnd x y =
     (case (x, y) of
        (Fin a, Fin b) \<Rightarrow> rnd (a * b)
      | (NaN, _) \<Rightarrow> NaN
      | (_, NaN) \<Rightarrow> NaN
      | _ \<Rightarrow> (if f_sgn x * f_sgn y = 0 then NaN else if f_sgn x * f_sgn y > 0 then PInf else NInf))"

fun f_gt :: "f64 \<Rightarrow> f64 \<Rightarrow> bool" where
  "f_gt NaN y = False"
| "f_gt x NaN = False"
| "f_gt PInf y = (y \<noteq> PInf)"
| "f_gt x PInf = False"
| "f_gt NInf y = False"
| "f_gt x NInf = True"
| "f_gt (Fin a) (Fin b) = (b < a)"

definition parseDecimal :: "(rat \<Rightarrow> f64) \<Rightarrow> (string \<Rightarrow> rat option) \<Rightarrow> string \<Rightarrow> f64" where
  "parseDecimal rnd setString s = (case setString s of None \<Rightarrow> Fin 0 | Some r \<Rightarrow> rnd r)"

section \<open>The safety kernel\<close>

record Caps =
  MaxOpenOrders :: int
  MaxNotionalPerOrder :: f64
  MaxTotalNotional :: f64
  MaxOrdersPerMinute :: int

definition Caps_Defaults :: Caps where
  "Caps_Defaults = \<lparr>MaxOpenOrders = 50, MaxNotionalPerOrder = Fin 100000, MaxTotalNotional = Fin 1000000,
     MaxOrdersPerMinute = 60\<rparr>"

record OrderCheck =
  oc_Quantity :: f64
  oc_Price :: f64
  oc_OpenOrders :: int

record kernel =
  sk_up :: bool
  sk_caps :: "string \<rightharpoonup> Caps"
  sk_switches :: "string \<rightharpoonup> bool \<times> string option"
  sk_counter :: "(string \<times> gtime \<times> int) list"

datatype denial =
    UserHalted string
  | OpenOrdersCap int int
  | NotionalCap f64 f64
  | RateCap int int

definition CapsFor :: "string \<Rightarrow> kernel \<Rightarrow> Caps" where
  "CapsFor user k = (if sk_up k then (case sk_caps k user of None \<Rightarrow> Caps_Defaults | Some c \<Rightarrow> c) else Caps_Defaults)"

definition SetCaps :: "string \<Rightarrow> Caps \<Rightarrow> kernel \<Rightarrow> kernel res" where
  "SetCaps user c k = (if sk_up k then Inr (k\<lparr>sk_caps := (sk_caps k)(user \<mapsto> c)\<rparr>) else Inl ''database unavailable'')"

definition IsHalted :: "string \<Rightarrow> kernel \<Rightarrow> bool \<times> string" where
  "IsHalted user k =
     (if sk_up k then
        (case sk_switches k user of
           None \<Rightarrow> (False, '''')
         | Some (halted, reason) \<Rightarrow> (halted, case reason of None \<Rightarrow> '''' | Some r \<Rightarrow> r))
      else (False, ''''))"

definition Halt :: "string \<Rightarrow> string \<Rightarrow> kernel \<Rightarrow> kernel res" where
  "Halt user reason k =
     (if sk_up k then Inr (k\<lparr>sk_switches := (sk_switches k)(user \<mapsto> (True, Some reason))\<rparr>)
      else Inl ''database unavailable'')"

definition Kernel_Resume :: "string \<Rightarrow> kernel \<Rightarrow> kernel res" where
  "Kernel_Resume user k =
     (if sk_up k
      then Inr (k\<lparr>sk_switches := (sk_switches k)(user := map_option (\<lambda>_. (False, None)) (sk_switches k user))\<rparr>)
      else Inl ''database unavailable'')"

text \<open>The sum is cast to a 32-bit integer by the query; a sum out of range is a query error.\<close>

definition OrdersInLastMinute :: "gtime \<Rightarrow> string \<Rightarrow> kernel \<Rightarrow> int" where
  "OrdersInLastMinute now user k =
     (if sk_up k then
        (let n = sum_list (map (\<lambda>(_, _, c). c)
                   (filter (\<lambda>(u, t, c). u = user \<and> t_ns now - 60 * second_ns < t_ns t) (sk_counter k)))
         in if - (2 ^ 31) \<le> n \<and> n < 2 ^ 31 then n else 0)
      else 0)"

definition CheckOrder :: "(rat \<Rightarrow> f64) \<Rightarrow> gtime \<Rightarrow> string \<Rightarrow> OrderCheck \<Rightarrow> kernel \<Rightarrow> denial option" where
  "CheckOrder rnd now user oc k =
     (let (halted, haltReason) = IsHalted user k in
      if halted then Some (UserHalted haltReason)
      else let caps = CapsFor user k in
           if MaxOpenOrders caps \<le> oc_OpenOrders oc then Some (OpenOrdersCap (oc_OpenOrders oc) (MaxOpenOrders caps))
           else let notional = f_mul rnd (oc_Quantity oc) (oc_Price oc) in
                if f_gt notional (MaxNotionalPerOrder caps) then Some (NotionalCap notional (MaxNotionalPerOrder caps))
                else let count = OrdersInLastMinute now user k in
                     if MaxOrdersPerMinute caps \<le> count then Some (RateCap count (MaxOrdersPerMinute caps))
                     else None)"

section \<open>The order broker\<close>

datatype 'a outcome = Ok 'a | Err gerror | Panic gerror

record Intent =
  it_OrderBookID :: string
  it_Side :: string
  it_Quantity :: string
  it_Type :: string
  it_Price :: string
  it_InverseLeverage :: string
  it_FromGlobalPosition :: bool

record CreateOrderRequest =
  cr_quantity :: string
  cr_leverage :: string
  cr_kind :: string
  cr_side :: string
  cr_fromGlobal :: bool
  cr_book :: string
  cr_clientOrderID :: string
  cr_price :: "string option"

datatype api_result = ApiOrder "string option" | ApiError gerror bool

text \<open>\<open>strings.ToUpper\<close> and \<open>strings.EqualFold\<close> on ASCII text.\<close>

definition upper_char :: "char \<Rightarrow> char" where
  "upper_char c = (let n = of_char c :: nat in if 97 \<le> n \<and> n \<le> 122 then char_of (n - 32) else c)"

definition ToUpper :: "string \<Rightarrow> string" where
  "ToUpper s = map upper_char s"

definition EqualFold :: "string \<Rightarrow> string \<Rightarrow> bool" where
  "EqualFold s t \<longleftrightarrow> ToUpper s = ToUpper t"

definition nil_response :: gerror where
  "nil_response = ''panic: nil pointer dereference of the HTTP response''"

text \<open>The request sent, if any, and the result: the order and client order identifiers.\<close>

definition SubmitOrder :: "(CreateOrderRequest \<Rightarrow> api_result) \<Rightarrow> string res \<Rightarrow> string \<Rightarrow> string \<Rightarrow> string \<Rightarrow> Intent \<Rightarrow>
    CreateOrderRequest option \<times> (string \<times> string) outcome" where
  "SubmitOrder create uuid userID strategyID apiKey intent =
     (if apiKey = '''' then (None, Err ''orderbroker: empty API key'')
      else if it_OrderBookID intent = '''' \<or> it_Quantity intent = '''' \<or> it_Side intent = '''' \<or> it_Type intent = ''''
      then (None, Err ''orderbroker: missing required intent field'')
      else case uuid of
             Inl e \<Rightarrow> (None, Err e)
           | Inr i \<Rightarrow>
               (let clientOrderID = ''dora-agent_'' @ userID @ ''_'' @ strategyID @ ''_'' @ i;
                    req = \<lparr>cr_quantity = it_Quantity intent,
                      cr_leverage = (if it_InverseLeverage intent = '''' then ''1'' else it_InverseLeverage intent),
                      cr_kind = ToUpper (it_Type intent), cr_side = ToUpper (it_Side intent),
                      cr_fromGlobal = it_FromGlobalPosition intent, cr_book = it_OrderBookID intent,
                      cr_clientOrderID = clientOrderID,
                      cr_price = (if EqualFold (it_Type intent) ''limit'' \<and> it_Price intent \<noteq> ''''
                                  then Some (it_Price intent) else None)\<rparr>
                in (Some req, case create req of
                      ApiError e response \<Rightarrow> (if response then Err e else Panic nil_response)
                    | ApiOrder None \<Rightarrow> Err ''orderbroker: empty order id in response''
                    | ApiOrder (Some orderID) \<Rightarrow> Ok (orderID, clientOrderID))))"

definition CancelOrder :: "(string \<Rightarrow> (gerror \<times> bool) option) \<Rightarrow> string \<Rightarrow> string \<Rightarrow> unit outcome" where
  "CancelOrder cancel apiKey orderID =
     (if apiKey = '''' then Err ''orderbroker: empty API key''
      else if orderID = '''' then Err ''orderbroker: empty order ID''
      else case cancel orderID of
             Some (e, response) \<Rightarrow> (if response then Err e else Panic nil_response)
           | None \<Rightarrow> Ok ())"

section \<open>The state of a live host\<close>

record liveHostState =
  hs_userID :: string
  hs_strategyID :: string
  hs_deployment :: string
  hs_orderBook :: string
  hs_apiKey :: string
  hs_candleCh :: "nat option"
  hs_tradeCh :: "nat option"
  hs_priceCh :: "nat option"
  hs_cfgJSON :: string
  hs_hasOrders :: bool
  hs_hasStore :: bool
  hs_candleCount :: int
  hs_lastCandleAt :: gtime
  hs_lastCandle :: string
  hs_lastDecisionAt :: gtime
  hs_lastDecision :: string
  hs_buyCount :: int
  hs_sellCount :: int
  hs_persistInterval :: int
  hs_lastPersist :: gtime
  hs_assetID :: string
  hs_resolution :: string
  hs_warmup :: int
  hs_preamble :: bool

datatype host_effect =
    Audit string
  | SendOrder CreateOrderRequest
  | SendCancel string
  | PersistCount int

datatype host_result = HDone | HError gerror | HBytes string | HPanic gerror

section \<open>Orders of the plugin\<close>

record Fill =
  fl_OrderID :: string
  fl_Price :: string
  fl_Quantity :: string

record host_env =
  he_now :: gtime
  he_rnd :: "rat \<Rightarrow> f64"
  he_setString :: "string \<Rightarrow> rat option"
  he_decode :: "string \<Rightarrow> Intent res"
  he_uuid :: "string res"
  he_create :: "CreateOrderRequest \<Rightarrow> api_result"
  he_cancel :: "string \<Rightarrow> (gerror \<times> bool) option"

definition note_decision :: "gtime \<Rightarrow> string \<Rightarrow> string \<Rightarrow> liveHostState \<Rightarrow> liveHostState" where
  "note_decision now inBytes side st =
     (let st1 = st\<lparr>hs_lastDecisionAt := now, hs_lastDecision := inBytes\<rparr>
      in if EqualFold side ''buy'' then st1\<lparr>hs_buyCount := hs_buyCount st1 + 1\<rparr>
         else if EqualFold side ''sell'' then st1\<lparr>hs_sellCount := hs_sellCount st1 + 1\<rparr>
         else st1)"

definition submitOrderLive :: "host_env \<Rightarrow> kernel \<Rightarrow> string option \<Rightarrow> liveHostState \<Rightarrow>
    liveHostState \<times> host_effect list \<times> Fill outcome" where
  "submitOrderLive env k mem st =
     (case mem of
        None \<Rightarrow> (st, [], Err ''invalid input memory'')
      | Some inBytes \<Rightarrow>
     (case he_decode env inBytes of
        Inl e \<Rightarrow> (st, [], Err e)
      | Inr intent \<Rightarrow>
     if hs_preamble st then (st, [Audit ''order.denied''], Err ''preamble_no_orders'')
     else
       (let openOrders = OrdersInLastMinute (he_now env) (hs_userID st) k in
        case CheckOrder (he_rnd env) (he_now env) (hs_userID st)
               \<lparr>oc_Quantity = parseDecimal (he_rnd env) (he_setString env) (it_Quantity intent),
                oc_Price = parseDecimal (he_rnd env) (he_setString env) (it_Price intent),
                oc_OpenOrders = openOrders\<rparr> k of
          Some reason \<Rightarrow> (st, [Audit ''order.denied''], Err ''safety'')
        | None \<Rightarrow>
            if \<not> hs_hasOrders st then (st, [], Err ''no order broker wired'')
            else
              (case SubmitOrder (he_create env) (he_uuid env) (hs_userID st) (hs_strategyID st) (hs_apiKey st)
                      (intent\<lparr>it_OrderBookID := hs_orderBook st\<rparr>) of
                 (sent, res) \<Rightarrow>
                   (let effs = (case sent of None \<Rightarrow> [] | Some req \<Rightarrow> [SendOrder req]) in
                    case res of
                      Panic e \<Rightarrow> (st, effs, Panic e)
                    | Err e \<Rightarrow> (st, effs @ [Audit ''order.denied''], Err e)
                    | Ok (orderID, clientOrderID) \<Rightarrow>
                        (note_decision (he_now env) inBytes (it_Side intent) st, effs @ [Audit ''order.submitted''],
                         Ok \<lparr>fl_OrderID = orderID, fl_Price = it_Price intent, fl_Quantity = it_Quantity intent\<rparr>))))))"

definition fit :: "nat \<Rightarrow> string \<Rightarrow> gerror \<Rightarrow> host_result" where
  "fit outLen b e = (if outLen < length b then HError e else HBytes b)"

definition hostSubmitOrder :: "host_env \<Rightarrow> kernel \<Rightarrow> (Fill \<Rightarrow> string) \<Rightarrow> nat \<Rightarrow> string option \<Rightarrow> liveHostState \<Rightarrow>
    liveHostState \<times> host_effect list \<times> host_result" where
  "hostSubmitOrder env k marshal outLen mem st =
     (case submitOrderLive env k mem st of
        (st1, effs, Panic e) \<Rightarrow> (st1, effs, HPanic e)
      | (st1, effs, Err e) \<Rightarrow> (st1, effs, HError e)
      | (st1, effs, Ok fill) \<Rightarrow> (st1, effs, fit outLen (marshal fill) ''fill JSON exceeds buffer''))"

definition hostCancelOrder :: "host_env \<Rightarrow> string option \<Rightarrow> liveHostState \<Rightarrow>
    liveHostState \<times> host_effect list \<times> host_result" where
  "hostCancelOrder env mem st =
     (case mem of
        None \<Rightarrow> (st, [], HError ''invalid input memory'')
      | Some orderID \<Rightarrow>
          if hs_preamble st then (st, [], HError ''preamble_no_orders'')
          else if \<not> hs_hasOrders st then (st, [], HError ''no order broker wired'')
          else let effs = (if hs_apiKey st \<noteq> '''' \<and> orderID \<noteq> '''' then [SendCancel orderID] else []) in
               (case CancelOrder (he_cancel env) (hs_apiKey st) orderID of
                  Panic e \<Rightarrow> (st, effs, HPanic e)
                | Err e \<Rightarrow> (st, effs, HError e)
                | Ok _ \<Rightarrow> (st, effs @ [Audit ''order.cancelled''], HDone)))"

definition hostGetConfig :: "nat \<Rightarrow> liveHostState \<Rightarrow> host_result" where
  "hostGetConfig bufLen st = fit bufLen (hs_cfgJSON st) ''config JSON exceeds buffer''"

section \<open>Events for the plugin\<close>

datatype liveEvent = LiveEvent string string

datatype sel = SelCtx | SelCandle | SelTrade | SelPrice

datatype next_result = Blocked | Done | Event liveEvent

definition allClosed :: "liveHostState \<Rightarrow> bool" where
  "allClosed st \<longleftrightarrow> hs_candleCh st = None \<and> hs_tradeCh st = None \<and> hs_priceCh st = None"

text \<open>Receiving from a channel: a frame, the end of a closed and drained channel, or blocking. A nil
  channel blocks.\<close>

datatype recv_result = RecvBlock | RecvClosed | RecvFrame Frame Broker

definition recv :: "nat option \<Rightarrow> Broker \<Rightarrow> recv_result" where
  "recv ch b =
     (case ch of
        None \<Rightarrow> RecvBlock
      | Some p \<Rightarrow> (case br_heap b p of
          None \<Rightarrow> RecvBlock
        | Some s \<Rightarrow> (case sub_buf s of
            f # fs \<Rightarrow> RecvFrame f (b\<lparr>br_heap := (br_heap b)(p \<mapsto> s\<lparr>sub_buf := fs\<rparr>)\<rparr>)
          | [] \<Rightarrow> if sub_closed s then RecvClosed else RecvBlock)))"

definition sel_chan :: "sel \<Rightarrow> liveHostState \<Rightarrow> nat option" where
  "sel_chan s st = (case s of SelCtx \<Rightarrow> None | SelCandle \<Rightarrow> hs_candleCh st | SelTrade \<Rightarrow> hs_tradeCh st
     | SelPrice \<Rightarrow> hs_priceCh st)"

definition drop_chan :: "sel \<Rightarrow> liveHostState \<Rightarrow> liveHostState" where
  "drop_chan s st = (case s of SelCtx \<Rightarrow> st | SelCandle \<Rightarrow> st\<lparr>hs_candleCh := None\<rparr>
     | SelTrade \<Rightarrow> st\<lparr>hs_tradeCh := None\<rparr> | SelPrice \<Rightarrow> st\<lparr>hs_priceCh := None\<rparr>)"

text \<open>\<open>frameCandleJSON\<close> and \<open>frameEventJSON\<close> unwrap the message or fail on invalid JSON: \<open>payload\<close>. The
  candle case alone looks at the type of the frame.\<close>

definition frame_event :: "(RawMessage \<Rightarrow> string option) \<Rightarrow> sel \<Rightarrow> Frame \<Rightarrow> liveEvent option" where
  "frame_event payload s f =
     (case s of
        SelCtx \<Rightarrow> None
      | SelCandle \<Rightarrow> (if fr_Type f \<noteq> ''candle'' then None else map_option (LiveEvent ''candle'') (payload (fr_Raw f)))
      | SelTrade \<Rightarrow> map_option (LiveEvent ''trade'') (payload (fr_Raw f))
      | SelPrice \<Rightarrow> map_option (LiveEvent ''price'') (payload (fr_Raw f)))"

text \<open>The loop of \<open>nextEvent\<close>. Which ready case the \<open>select\<close> takes is decided by \<open>pick\<close>, which returns
  \<open>None\<close> when no case is ready; taking a case that is not ready blocks. The measure of the loop is the
  number of buffered frames and of channels not yet dropped.\<close>

definition pending_frames :: "nat option \<Rightarrow> Broker \<Rightarrow> nat" where
  "pending_frames ch b = (case ch of None \<Rightarrow> 0 | Some p \<Rightarrow>
     Suc (case br_heap b p of None \<Rightarrow> 0 | Some s \<Rightarrow> length (sub_buf s)))"

definition event_measure :: "liveHostState \<times> Broker \<Rightarrow> nat" where
  "event_measure x = pending_frames (hs_candleCh (fst x)) (snd x) + pending_frames (hs_tradeCh (fst x)) (snd x)
     + pending_frames (hs_priceCh (fst x)) (snd x)"

lemma recv_RecvFrame:
  assumes "recv ch b = RecvFrame f b'"
  obtains p s fs where "ch = Some p" "br_heap b p = Some s" "sub_buf s = f # fs"
    "b' = b\<lparr>br_heap := (br_heap b)(p \<mapsto> s\<lparr>sub_buf := fs\<rparr>)\<rparr>"
  using assms by (auto simp: recv_def split: option.splits list.splits if_splits)

lemma pending_recv:
  assumes "recv ch b = RecvFrame f b'"
  shows "pending_frames ch' b' \<le> pending_frames ch' b" "pending_frames ch b' < pending_frames ch b"
  using assms by (auto elim!: recv_RecvFrame simp: pending_frames_def split: option.splits if_splits)

lemma event_measure_recv:
  assumes "recv (sel_chan s st) b = RecvFrame f b'"
  shows "event_measure (st, b') < event_measure (st, b)"
proof -
  note le = pending_recv(1) [OF assms]
  have "pending_frames (sel_chan s st) b' < pending_frames (sel_chan s st) b" by (rule pending_recv(2) [OF assms])
  then show ?thesis using le [of "hs_candleCh st"] le [of "hs_tradeCh st"] le [of "hs_priceCh st"] assms
    by (cases s) (simp_all add: event_measure_def sel_chan_def recv_def)
qed

lemma event_measure_drop:
  assumes "recv (sel_chan s st) b = RecvClosed"
  shows "event_measure (drop_chan s st, b) < event_measure (st, b)"
  using assms by (cases s) (auto simp: event_measure_def sel_chan_def drop_chan_def recv_def pending_frames_def
      split: option.splits)

function next_loop :: "(liveHostState \<Rightarrow> Broker \<Rightarrow> sel option) \<Rightarrow> (RawMessage \<Rightarrow> string option) \<Rightarrow>
    liveHostState \<Rightarrow> Broker \<Rightarrow> liveHostState \<times> Broker \<times> next_result" where
  "next_loop pick payload st b =
     (case pick st b of
        None \<Rightarrow> (st, b, Blocked)
      | Some s \<Rightarrow>
          if s = SelCtx then (st, b, Done)
          else (case recv (sel_chan s st) b of
                  RecvBlock \<Rightarrow> (st, b, Blocked)
                | RecvClosed \<Rightarrow>
                    if allClosed (drop_chan s st) then (drop_chan s st, b, Done)
                    else next_loop pick payload (drop_chan s st) b
                | RecvFrame f b' \<Rightarrow>
                    (case frame_event payload s f of
                       None \<Rightarrow> next_loop pick payload st b'
                     | Some ev \<Rightarrow> (st, b', Event ev))))"
  by pat_completeness auto
termination
  by (relation "measure (\<lambda>(pick, payload, st, b). event_measure (st, b))")
    (auto simp: event_measure_recv event_measure_drop)

declare next_loop.simps [simp del]

definition nextEvent :: "(liveHostState \<Rightarrow> Broker \<Rightarrow> sel option) \<Rightarrow> (RawMessage \<Rightarrow> string option) \<Rightarrow>
    liveHostState \<Rightarrow> Broker \<Rightarrow> liveHostState \<times> Broker \<times> next_result" where
  "nextEvent pick payload st b = (if allClosed st then (st, b, Done) else next_loop pick payload st b)"

definition recordCandleDelivery :: "gtime \<Rightarrow> string \<Rightarrow> liveHostState \<Rightarrow> liveHostState \<times> host_effect list" where
  "recordCandleDelivery now data st =
     (let count = wrap64 (hs_candleCount st + 1);
          st1 = st\<lparr>hs_candleCount := count, hs_lastCandleAt := now, hs_lastCandle := data\<rparr>
      in if hs_hasStore st1 \<and> 0 < hs_persistInterval st1 \<and>
            (count mod hs_persistInterval st1 = 0 \<or>
             (\<not> time_IsZero (hs_lastPersist st1) \<and> 30 * second_ns \<le> time_Sub now (hs_lastPersist st1)))
         then (st1\<lparr>hs_lastPersist := now\<rparr>, [PersistCount count])
         else (st1, []))"

definition hostNextEvent :: "gtime \<Rightarrow> (liveHostState \<Rightarrow> Broker \<Rightarrow> sel option) \<Rightarrow> (RawMessage \<Rightarrow> string option) \<Rightarrow>
    (liveEvent \<Rightarrow> string) \<Rightarrow> nat \<Rightarrow> liveHostState \<Rightarrow> Broker \<Rightarrow>
    liveHostState \<times> Broker \<times> host_effect list \<times> host_result option" where
  "hostNextEvent now pick payload marshal bufLen st b =
     (case nextEvent pick payload (st\<lparr>hs_preamble := False\<rparr>) b of
        (st1, b1, Blocked) \<Rightarrow> (st1, b1, [], None)
      | (st1, b1, Done) \<Rightarrow> (st1, b1, [], Some HDone)
      | (st1, b1, Event ev) \<Rightarrow>
          if bufLen < length (marshal ev) then (st1, b1, [], Some (HError ''event JSON exceeds buffer''))
          else (case ev of LiveEvent ty data \<Rightarrow>
                  if ty = ''candle''
                  then (case recordCandleDelivery now data st1 of (st2, effs) \<Rightarrow> (st2, b1, effs, Some (HBytes (marshal ev))))
                  else (st1, b1, [], Some (HBytes (marshal ev)))))"

end
