(* ===== verification/Agent_Host_Props.thy ===== *)
theory Agent_Host_Props
  imports Agent_Host
begin

text \<open>
  What the host functions of a live deployment guarantee: under which conditions an order of the
  plugin reaches the exchange, that the kill switch and the preamble stop orders, that the event pump
  returns and loses no usable frame, and how far the persisted candle count may lag behind.
\<close>

section \<open>Orders\<close>

definition orders_sent :: "host_effect list \<Rightarrow> CreateOrderRequest list" where
  "orders_sent effs = List.map_filter (\<lambda>e. case e of SendOrder r \<Rightarrow> Some r | _ \<Rightarrow> None) effs"

lemma orders_sent_simps [simp]:
  "orders_sent [] = []" "orders_sent (Audit a # es) = orders_sent es" "orders_sent (SendOrder r # es) = r # orders_sent es"
  "orders_sent (SendCancel i # es) = orders_sent es" "orders_sent (PersistCount n # es) = orders_sent es"
  "orders_sent (es @ es') = orders_sent es @ orders_sent es'"
  by (simp_all add: orders_sent_def map_filter_simps map_filter_def)

lemma CheckOrder_None:
  "CheckOrder rnd now user oc k = None \<longleftrightarrow> \<not> fst (IsHalted user k) \<and>
     oc_OpenOrders oc < MaxOpenOrders (CapsFor user k) \<and>
     \<not> f_gt (f_mul rnd (oc_Quantity oc) (oc_Price oc)) (MaxNotionalPerOrder (CapsFor user k)) \<and>
     OrdersInLastMinute now user k < MaxOrdersPerMinute (CapsFor user k)"
  by (auto simp: CheckOrder_def Let_def split: prod.splits)

lemma ToUpper_limit: "ToUpper ''limit'' = ''LIMIT''"
  by code_simp

lemma SubmitOrder_sent:
  assumes "SubmitOrder create uuid user strat key intent = (Some req, r)"
  shows "key \<noteq> ''''" "it_OrderBookID intent \<noteq> ''''" "it_Quantity intent \<noteq> ''''" "cr_book req = it_OrderBookID intent"
    "cr_quantity req = it_Quantity intent" "cr_side req = ToUpper (it_Side intent)"
    "cr_kind req = ToUpper (it_Type intent)" "cr_fromGlobal req = it_FromGlobalPosition intent"
    "cr_price req \<noteq> None \<longrightarrow> cr_kind req = ''LIMIT''"
  using assms by (auto simp: SubmitOrder_def Let_def EqualFold_def ToUpper_limit split: if_splits sum.splits)

lemma submitOrderLive_sent:
  assumes "submitOrderLive env k mem st = (st', effs, res)" "orders_sent effs \<noteq> []"
  obtains inBytes intent req where "mem = Some inBytes" "he_decode env inBytes = Inr intent" "\<not> hs_preamble st"
    "CheckOrder (he_rnd env) (he_now env) (hs_userID st)
       \<lparr>oc_Quantity = parseDecimal (he_rnd env) (he_setString env) (it_Quantity intent),
        oc_Price = parseDecimal (he_rnd env) (he_setString env) (it_Price intent),
        oc_OpenOrders = OrdersInLastMinute (he_now env) (hs_userID st) k\<rparr> k = None"
    "orders_sent effs = [req]"
    "fst (SubmitOrder (he_create env) (he_uuid env) (hs_userID st) (hs_strategyID st) (hs_apiKey st)
       (intent\<lparr>it_OrderBookID := hs_orderBook st\<rparr>)) = Some req"
  using assms
  by (auto simp: submitOrderLive_def Let_def split: option.splits sum.splits if_splits prod.splits outcome.splits)

text \<open>C25: An order of a plugin reaches the exchange only after the preamble, when what the kernel reads is no active
  kill switch for the user, when the orders of the last minute are below both the cap on open orders
  and the cap on orders per minute, and when the rounded product of quantity and price is not above the cap on notional; it is one
  order, for the order book of the deployment whatever the plugin asked for, with the plugin's
  quantity and side, and it carries a price only if it is a limit order. This is what the code checks, not more: with the
  database down the kernel reads no kill switch, a market order comes without a price and so with a notional of zero, and the
  cap on the total notional is compared with nothing.\<close>

theorem live_order_gate:
  assumes "submitOrderLive env k mem st = (st', effs, res)" "orders_sent effs \<noteq> []"
  shows "\<exists>inBytes intent req. mem = Some inBytes \<and> he_decode env inBytes = Inr intent \<and> orders_sent effs = [req] \<and>
    \<not> hs_preamble st \<and> \<not> fst (IsHalted (hs_userID st) k) \<and> hs_apiKey st \<noteq> '''' \<and>
    OrdersInLastMinute (he_now env) (hs_userID st) k <
      min (MaxOpenOrders (CapsFor (hs_userID st) k)) (MaxOrdersPerMinute (CapsFor (hs_userID st) k)) \<and>
    \<not> f_gt (f_mul (he_rnd env) (parseDecimal (he_rnd env) (he_setString env) (it_Quantity intent))
          (parseDecimal (he_rnd env) (he_setString env) (it_Price intent)))
        (MaxNotionalPerOrder (CapsFor (hs_userID st) k)) \<and>
    cr_book req = hs_orderBook st \<and> cr_quantity req = it_Quantity intent \<and>
    cr_side req = ToUpper (it_Side intent) \<and> (cr_price req \<noteq> None \<longrightarrow> cr_kind req = ''LIMIT'')"
proof -
  obtain inBytes intent req where I: "mem = Some inBytes" "he_decode env inBytes = Inr intent" "\<not> hs_preamble st"
    "CheckOrder (he_rnd env) (he_now env) (hs_userID st)
       \<lparr>oc_Quantity = parseDecimal (he_rnd env) (he_setString env) (it_Quantity intent),
        oc_Price = parseDecimal (he_rnd env) (he_setString env) (it_Price intent),
        oc_OpenOrders = OrdersInLastMinute (he_now env) (hs_userID st) k\<rparr> k = None"
    "orders_sent effs = [req]"
    "fst (SubmitOrder (he_create env) (he_uuid env) (hs_userID st) (hs_strategyID st) (hs_apiKey st)
       (intent\<lparr>it_OrderBookID := hs_orderBook st\<rparr>)) = Some req"
    using submitOrderLive_sent [OF assms] by metis
  obtain r where "SubmitOrder (he_create env) (he_uuid env) (hs_userID st) (hs_strategyID st) (hs_apiKey st)
       (intent\<lparr>it_OrderBookID := hs_orderBook st\<rparr>) = (Some req, r)" using I(6) by (metis prod.collapse)
  note S = SubmitOrder_sent [OF this]
  show ?thesis using I(1-5) S by (auto simp: CheckOrder_None)
qed

section \<open>The kill switch\<close>

datatype kernel_op = KSetCaps string Caps | KHalt string string | KResume string | KCount string gtime int

definition kernel_op :: "kernel_op \<Rightarrow> kernel \<Rightarrow> kernel res" where
  "kernel_op op k = (case op of KSetCaps u c \<Rightarrow> SetCaps u c k | KHalt u r \<Rightarrow> Halt u r k | KResume u \<Rightarrow> Kernel_Resume u k
     | KCount u t n \<Rightarrow> Inr (k\<lparr>sk_counter := sk_counter k @ [(u, t, n)]\<rparr>))"

fun kernel_ops :: "kernel_op list \<Rightarrow> kernel \<Rightarrow> kernel res" where
  "kernel_ops [] k = Inr k"
| "kernel_ops (op # ops) k = rbind (kernel_op op k) (kernel_ops ops)"

lemma kernel_op_halted:
  assumes "kernel_op op k = Inr k'" "op \<noteq> KResume user" "sk_up k" "fst (IsHalted user k)"
  shows "sk_up k' \<and> fst (IsHalted user k')"
  using assms by (cases op) (auto simp: kernel_op_def SetCaps_def Halt_def Kernel_Resume_def IsHalted_def
      split: if_splits option.splits)

lemma kernel_ops_halted:
  "kernel_ops ops k = Inr k' \<Longrightarrow> KResume user \<notin> set ops \<Longrightarrow> sk_up k \<Longrightarrow> fst (IsHalted user k) \<Longrightarrow>
     fst (IsHalted user k')"
proof (induction ops arbitrary: k)
  case (Cons op ops)
  then obtain k1 where k1: "kernel_op op k = Inr k1" "kernel_ops ops k1 = Inr k'" by auto
  have "op \<noteq> KResume user" using Cons.prems(2) by auto
  then have "sk_up k1 \<and> fst (IsHalted user k1)" using kernel_op_halted [OF k1(1)] Cons.prems(3,4) by blast
  then show ?case using Cons.IH [OF k1(2)] Cons.prems by simp
qed simp

text \<open>C26: Once a user is halted, and until the switch of that user is cleared, no order of the user's
  plugins reaches the exchange, whatever else happens to caps, counters and other users, as long as
  the database answers.\<close>

theorem kill_switch_stops_orders:
  assumes "Halt user reason k0 = Inr k1" "kernel_ops ops k1 = Inr k" "KResume user \<notin> set ops" "hs_userID st = user"
  shows "orders_sent (fst (snd (submitOrderLive env k mem st))) = []"
proof (rule ccontr)
  have "sk_up k1" "fst (IsHalted user k1)" using assms(1) by (auto simp: Halt_def IsHalted_def split: if_splits)
  then have "fst (IsHalted user k)" using kernel_ops_halted [OF assms(2,3)] by simp
  obtain st' effs res where run: "submitOrderLive env k mem st = (st', effs, res)" by (metis prod_cases3)
  assume "orders_sent (fst (snd (submitOrderLive env k mem st))) \<noteq> []"
  then have "orders_sent effs \<noteq> []" by (simp add: run)
  from submitOrderLive_sent [OF run this] have "\<not> fst (IsHalted (hs_userID st) k)" by (metis CheckOrder_None)
  with \<open>fst (IsHalted user k)\<close> assms(4) show False by simp
qed

text \<open>The notional cap does not bind an order without a price, as every market order may be: the price
  reads as zero. Neither does the cap on the total notional, which no check reads; and while the
  database does not answer, no kill switch is seen.\<close>

theorem market_orders_uncapped:
  assumes "he_setString env '''' = None" "he_rnd env 0 = Fin 0" "MaxNotionalPerOrder (CapsFor user k) = Fin c" "0 \<le> c"
  shows "CheckOrder (he_rnd env) now user
      \<lparr>oc_Quantity = parseDecimal (he_rnd env) (he_setString env) q,
       oc_Price = parseDecimal (he_rnd env) (he_setString env) '''', oc_OpenOrders = n\<rparr> k \<noteq> Some (NotionalCap x y)"
proof -
  have "\<not> f_gt (f_mul (he_rnd env) z (Fin 0)) (Fin c)" for z
    using assms(2,4) by (cases z) (simp_all add: f_mul_def)
  then show ?thesis using assms(1,3)
    by (auto simp: CheckOrder_def Let_def parseDecimal_def split: prod.splits)
qed

theorem kill_switch_fails_open:
  assumes "\<not> sk_up k"
  shows "IsHalted user k = (False, '''')" "OrdersInLastMinute now user k = 0" "CapsFor user k = Caps_Defaults"
  using assms by (simp_all add: IsHalted_def OrdersInLastMinute_def CapsFor_def)

text \<open>An order whose call to the exchange fails without a response makes the host function panic, since
  the broker closes the body of the missing response.\<close>

theorem submit_network_error_panics:
  assumes "SubmitOrder create uuid user strat key intent = (Some req, r)" "create req = ApiError e False"
  shows "r = Panic nil_response"
  using assms by (auto simp: SubmitOrder_def Let_def split: if_splits sum.splits)

section \<open>The preamble\<close>

datatype host_call =
    CallSubmit host_env kernel "Fill \<Rightarrow> string" nat "string option"
  | CallCancel host_env "string option"
  | CallNext gtime "liveHostState \<Rightarrow> Broker \<Rightarrow> sel option" "RawMessage \<Rightarrow> string option" "liveEvent \<Rightarrow> string" nat

definition host_call :: "host_call \<Rightarrow> liveHostState \<times> Broker \<Rightarrow> (liveHostState \<times> Broker) \<times> host_effect list" where
  "host_call c x =
     (case c of
        CallSubmit env k marshal outLen mem \<Rightarrow>
          (case hostSubmitOrder env k marshal outLen mem (fst x) of (st, effs, _) \<Rightarrow> ((st, snd x), effs))
      | CallCancel env mem \<Rightarrow> (case hostCancelOrder env mem (fst x) of (st, effs, _) \<Rightarrow> ((st, snd x), effs))
      | CallNext now pick payload marshal bufLen \<Rightarrow>
          (case hostNextEvent now pick payload marshal bufLen (fst x) (snd x) of (st, b, effs, _) \<Rightarrow> ((st, b), effs)))"

fun host_calls :: "host_call list \<Rightarrow> liveHostState \<times> Broker \<Rightarrow> (liveHostState \<times> Broker) \<times> host_effect list" where
  "host_calls [] x = (x, [])"
| "host_calls (c # cs) x =
     (case host_call c x of (x1, effs) \<Rightarrow> (case host_calls cs x1 of (x2, effs2) \<Rightarrow> (x2, effs @ effs2)))"

fun is_next :: "host_call \<Rightarrow> bool" where
  "is_next (CallNext now pick payload marshal bufLen) = True"
| "is_next _ = False"

definition exchange_call :: "host_effect \<Rightarrow> bool" where
  "exchange_call e \<longleftrightarrow> (case e of SendOrder r \<Rightarrow> True | SendCancel i \<Rightarrow> True | _ \<Rightarrow> False)"

lemma preamble_submit:
  assumes "hs_preamble st"
  shows "fst (hostSubmitOrder env k marshal outLen mem st) = st"
    and "list_all (\<lambda>e. \<not> exchange_call e) (fst (snd (hostSubmitOrder env k marshal outLen mem st)))"
    and "fst (hostCancelOrder env mem st) = st" "fst (snd (hostCancelOrder env mem st)) = []"
  using assms by (auto simp: hostSubmitOrder_def submitOrderLive_def hostCancelOrder_def exchange_call_def
      split: option.splits sum.splits)

lemma preamble_call:
  assumes "hs_preamble (fst x)" "\<not> is_next c"
  shows "fst (host_call c x) = x" "list_all (\<lambda>e. \<not> exchange_call e) (snd (host_call c x))"
  using assms preamble_submit [of "fst x"]
  by (cases c; simp add: host_call_def split: prod.split; metis fst_conv snd_conv prod.collapse list.pred_inject(1))+

text \<open>From its start until its first request for an event, a plugin can call the order functions as
  often as it likes: nothing is sent to the exchange and the state of the deployment does not change.\<close>

theorem preamble_sends_nothing:
  assumes "hs_preamble st" "list_all (\<lambda>c. \<not> is_next c) cs"
  shows "fst (host_calls cs (st, b)) = (st, b) \<and> list_all (\<lambda>e. \<not> exchange_call e) (snd (host_calls cs (st, b)))"
  using assms(2)
proof (induction cs)
  case (Cons c cs)
  then show ?case using preamble_call [of "(st, b)" c] assms(1)
    by (cases "host_call c (st, b)") (auto split: prod.splits)
qed simp

section \<open>The event pump\<close>

definition queue :: "sel \<Rightarrow> liveHostState \<Rightarrow> Broker \<Rightarrow> Frame list" where
  "queue s st b = (case sel_chan s st of None \<Rightarrow> [] | Some p \<Rightarrow>
     (case br_heap b p of None \<Rightarrow> [] | Some t \<Rightarrow> sub_buf t))"

definition separate :: "liveHostState \<Rightarrow> bool" where
  "separate st \<longleftrightarrow> (\<forall>s s' p. sel_chan s st = Some p \<longrightarrow> sel_chan s' st = Some p \<longrightarrow> s = s')"

lemma queue_recv:
  assumes "recv (sel_chan s st) b = RecvFrame f b'" "separate st"
  shows "queue s st b = f # queue s st b'" "s' \<noteq> s \<Longrightarrow> queue s' st b' = queue s' st b"
proof -
  obtain p t fs where p: "sel_chan s st = Some p" "br_heap b p = Some t" "sub_buf t = f # fs"
    "b' = b\<lparr>br_heap := (br_heap b)(p \<mapsto> t\<lparr>sub_buf := fs\<rparr>)\<rparr>" using assms(1) by (rule recv_RecvFrame)
  then show "queue s st b = f # queue s st b'" by (simp add: queue_def)
  show "queue s' st b' = queue s' st b" if "s' \<noteq> s"
  proof (cases "sel_chan s' st")
    case (Some q)
    then have "q \<noteq> p" using assms(2) p(1) that by (auto simp: separate_def)
    then show ?thesis using Some p(4) by (simp add: queue_def)
  qed (simp add: queue_def)
qed

lemma sel_chan_drop:
  assumes "s \<noteq> SelCtx"
  shows "sel_chan s' (drop_chan s st) = (if s' = s then None else sel_chan s' st)"
  using assms by (cases s; cases s') (simp_all add: sel_chan_def drop_chan_def)

lemma separate_drop:
  assumes "separate st"
  shows "separate (drop_chan s st)"
proof (cases "s = SelCtx")
  case True
  then show ?thesis using assms by (simp add: drop_chan_def)
next
  case False
  then show ?thesis using assms unfolding separate_def by (auto simp: sel_chan_drop split: if_splits)
qed

lemma queue_drop:
  assumes "recv (sel_chan s st) b = RecvClosed"
  shows "queue s' (drop_chan s st) b = queue s' st b"
proof -
  have "s \<noteq> SelCtx" using assms by (auto simp: sel_chan_def recv_def)
  moreover have "queue s st b = []" using assms
    by (auto simp: queue_def recv_def split: option.splits list.splits)
  ultimately show ?thesis by (cases "s' = s") (simp_all add: queue_def sel_chan_drop)
qed

text \<open>How the queues move on: unusable frames are dropped from their fronts, and one usable frame makes
  the event, if there is one.\<close>

definition pumped :: "(RawMessage \<Rightarrow> string option) \<Rightarrow> (sel \<Rightarrow> Frame list) \<Rightarrow> next_result \<Rightarrow> (sel \<Rightarrow> Frame list) \<Rightarrow> bool" where
  "pumped payload q r q' \<longleftrightarrow> (\<exists>bad used. (\<forall>s. q s = bad s @ used s @ q' s) \<and>
     (\<forall>s. \<forall>f\<in>set (bad s). frame_event payload s f = None) \<and>
     (case r of
        Event ev \<Rightarrow> (\<exists>s f. frame_event payload s f = Some ev \<and> used = (\<lambda>_. [])(s := [f]))
      | _ \<Rightarrow> used = (\<lambda>_. [])))"

lemma pumped_refl: "r \<in> {Blocked, Done} \<Longrightarrow> pumped payload q r q"
  unfolding pumped_def by (rule exI [of _ "\<lambda>_. []"], rule exI [of _ "\<lambda>_. []"]) auto

lemma pumped_skip:
  assumes "pumped payload (q(s := q1)) r q'" "q s = f # q1" "frame_event payload s f = None"
  shows "pumped payload q r q'"
proof -
  from assms(1) obtain bad used where B: "\<forall>s'. (q(s := q1)) s' = bad s' @ used s' @ q' s'"
    "\<forall>s. \<forall>f\<in>set (bad s). frame_event payload s f = None"
    "case r of Event ev \<Rightarrow> (\<exists>s f. frame_event payload s f = Some ev \<and> used = (\<lambda>_. [])(s := [f])) | _ \<Rightarrow> used = (\<lambda>_. [])"
    unfolding pumped_def by blast
  let ?bad = "bad(s := f # bad s)"
  have "q s' = ?bad s' @ used s' @ q' s'" for s'
    using B(1) [rule_format, of s'] assms(2) by (cases "s' = s") auto
  moreover have "\<forall>s'. \<forall>f\<in>set (?bad s'). frame_event payload s' f = None" using B(2) assms(3) by auto
  ultimately show ?thesis using B(3) unfolding pumped_def by blast
qed

lemma next_loop_pumped:
  assumes "separate st"
  shows "pumped payload (\<lambda>s. queue s st b) (snd (snd (next_loop pick payload st b)))
    (\<lambda>s. queue s (fst (next_loop pick payload st b)) (fst (snd (next_loop pick payload st b))))"
  using assms
proof (induction pick payload st b rule: next_loop.induct)
  case (1 pick payload st b)
  show ?case
  proof (cases "pick st b")
    case None
    then show ?thesis by (simp add: next_loop.simps [of pick payload st b] pumped_refl)
  next
    case pick: (Some s)
    show ?thesis
    proof (cases "s = SelCtx")
      case True
      then show ?thesis using pick by (simp add: next_loop.simps [of pick payload st b] pumped_refl)
    next
      case ctx: False
      show ?thesis
      proof (cases "recv (sel_chan s st) b")
        case RecvBlock
        then show ?thesis using pick ctx by (simp add: next_loop.simps [of pick payload st b] pumped_refl)
      next
        case RecvClosed
        note Q = queue_drop [OF RecvClosed]
        show ?thesis
        proof (cases "allClosed (drop_chan s st)")
          case True
          then show ?thesis using pick ctx RecvClosed Q
            by (simp add: next_loop.simps [of pick payload st b] pumped_refl)
        next
          case False
          then show ?thesis using "1.IH"(1) [OF pick ctx RecvClosed False] separate_drop [OF "1.prems"] Q
            by (simp add: next_loop.simps [of pick payload st b] pick ctx RecvClosed)
        qed
      next
        case (RecvFrame f b')
        note Q = queue_recv [OF RecvFrame "1.prems"]
        have q: "(\<lambda>s'. queue s' st b') = (\<lambda>s'. queue s' st b)(s := queue s st b')" using Q(2) by auto
        show ?thesis
        proof (cases "frame_event payload s f")
          case None
          then show ?thesis using "1.IH"(2) [OF pick ctx RecvFrame None "1.prems"] Q(1) q
            by (simp add: next_loop.simps [of pick payload st b] pick ctx RecvFrame)
              (rule pumped_skip [of payload _ s "queue s st b'" _ _ f], simp_all)
        next
          case (Some ev)
          have "queue s' st b = ((\<lambda>_. [])(s := [f])) s' @ queue s' st b'" for s'
            using Q by (cases "s' = s") auto
          then have "pumped payload (\<lambda>s. queue s st b) (Event ev) (\<lambda>s. queue s st b')"
            unfolding pumped_def using Some
            by (intro exI [of _ "\<lambda>_. []"] exI [of _ "(\<lambda>_. [])(s := [f])"]) auto
          then show ?thesis by (simp add: next_loop.simps [of pick payload st b] pick ctx RecvFrame Some)
        qed
      qed
    qed
  qed
qed

text \<open>A scheduler that takes a ready case, or the cancelled context, whenever there is one.\<close>

definition fair :: "(liveHostState \<Rightarrow> Broker \<Rightarrow> sel option) \<Rightarrow> bool" where
  "fair pick \<longleftrightarrow> (\<forall>st b. (\<forall>s. recv (sel_chan s st) b = RecvBlock) \<or>
     (\<exists>s. pick st b = Some s \<and> (s = SelCtx \<or> recv (sel_chan s st) b \<noteq> RecvBlock)))"

lemma next_loop_stops:
  assumes "fair pick"
  shows "(snd (snd (next_loop pick payload st b)) = Blocked \<longrightarrow>
      (\<forall>s. recv (sel_chan s (fst (next_loop pick payload st b))) (fst (snd (next_loop pick payload st b))) = RecvBlock)) \<and>
    (snd (snd (next_loop pick payload st b)) = Done \<longrightarrow> allClosed (fst (next_loop pick payload st b)) \<or>
      pick (fst (next_loop pick payload st b)) (fst (snd (next_loop pick payload st b))) = Some SelCtx)"
  using assms
proof (induction pick payload st b rule: next_loop.induct)
  case (1 pick payload st b)
  note unfold = next_loop.simps [of pick payload st b]
  have F: "(\<forall>s. recv (sel_chan s st) b = RecvBlock) \<or>
      (\<exists>s. pick st b = Some s \<and> (s = SelCtx \<or> recv (sel_chan s st) b \<noteq> RecvBlock))"
    using "1.prems" by (simp add: fair_def)
  show ?case
  proof (cases "pick st b")
    case None
    then show ?thesis using F by (simp add: unfold)
  next
    case pick: (Some s)
    show ?thesis
    proof (cases "s = SelCtx")
      case True
      then show ?thesis using pick by (simp add: unfold)
    next
      case ctx: False
      show ?thesis
      proof (cases "recv (sel_chan s st) b")
        case RecvBlock
        then show ?thesis using pick ctx F by (auto simp: unfold)
      next
        case RecvClosed
        then show ?thesis using "1.IH"(1) [OF pick ctx RecvClosed _ "1.prems"] pick ctx
          by (cases "allClosed (drop_chan s st)") (simp_all add: unfold)
      next
        case (RecvFrame f b')
        then show ?thesis using "1.IH"(2) [OF pick ctx RecvFrame _ "1.prems"] pick ctx
          by (cases "frame_event payload s f") (simp_all add: unfold)
      qed
    qed
  qed
qed

lemma blocked_queues: "recv (sel_chan s st) b = RecvBlock \<Longrightarrow> queue s st b = []"
  by (auto simp: queue_def recv_def split: option.splits list.splits)

lemma closed_queues: "allClosed st \<Longrightarrow> queue s st b = []"
  by (cases s) (simp_all add: queue_def sel_chan_def allClosed_def)

text \<open>A request for the next event of a deployment returns: the loop ends for every state of the
  channels and every scheduler. It drops only frames that are not usable and consumes at most one
  usable frame, the one it returns; under a fair scheduler it waits only when every channel is open
  and empty or gone, ends only when all channels are gone or the deployment is cancelled, and
  returns an event whenever a usable frame is queued and the deployment is not cancelled.\<close>

theorem next_event_returns:
  assumes sep: "separate st" and fair: "fair pick" and run: "nextEvent pick payload st b = (st', b', r)"
  shows "pumped payload (\<lambda>s. queue s st b) r (\<lambda>s. queue s st' b') \<and>
    (r = Blocked \<longrightarrow> (\<forall>s. recv (sel_chan s st') b' = RecvBlock)) \<and>
    (r = Done \<longrightarrow> allClosed st' \<or> pick st' b' = Some SelCtx) \<and>
    ((\<exists>s f. f \<in> set (queue s st b) \<and> frame_event payload s f \<noteq> None) \<and> (\<forall>st b. pick st b \<noteq> Some SelCtx) \<longrightarrow>
       (\<exists>ev. r = Event ev))"
proof (cases "allClosed st")
  case True
  then have eqs: "st' = st" "b' = b" "r = Done" using run by (simp_all add: nextEvent_def)
  show ?thesis using True by (simp add: eqs pumped_refl closed_queues)
next
  case False
  then have loop: "next_loop pick payload st b = (st', b', r)" using run by (simp add: nextEvent_def)
  have P: "pumped payload (\<lambda>s. queue s st b) r (\<lambda>s. queue s st' b')"
    using next_loop_pumped [OF sep, of payload b pick] by (simp add: loop)
  have S: "r = Blocked \<longrightarrow> (\<forall>s. recv (sel_chan s st') b' = RecvBlock)"
    "r = Done \<longrightarrow> allClosed st' \<or> pick st' b' = Some SelCtx"
    using next_loop_stops [OF fair, of payload st b] by (simp_all add: loop)
  have "\<exists>ev. r = Event ev" if usable: "f \<in> set (queue s st b)" "frame_event payload s f \<noteq> None"
    and live: "\<forall>st b. pick st b \<noteq> Some SelCtx" for s f
  proof (cases r)
    case Blocked
    then have "queue s st' b' = []" using S(1) blocked_queues by blast
    then show ?thesis using P usable Blocked unfolding pumped_def by fastforce
  next
    case Done
    then have "queue s st' b' = []" using S(2) live closed_queues by blast
    then show ?thesis using P usable Done unfolding pumped_def by fastforce
  qed simp
  with P S show ?thesis by blast
qed

section \<open>The persisted candle count\<close>

fun deliveries :: "(gtime \<times> string) list \<Rightarrow> liveHostState \<Rightarrow> liveHostState \<times> host_effect list" where
  "deliveries [] st = (st, [])"
| "deliveries ((now, data) # ds) st =
     (case recordCandleDelivery now data st of (st1, effs) \<Rightarrow>
        (case deliveries ds st1 of (st2, effs2) \<Rightarrow> (st2, effs @ effs2)))"

fun last_persisted :: "int \<Rightarrow> host_effect list \<Rightarrow> int" where
  "last_persisted n [] = n"
| "last_persisted n (e # es) = last_persisted (case e of PersistCount m \<Rightarrow> m | _ \<Rightarrow> n) es"

lemma last_persisted_append: "last_persisted n (es @ es') = last_persisted (last_persisted n es) es'"
  by (induction es arbitrary: n) simp_all

lemma mod_gap:
  fixes c p k :: int
  assumes "0 < k" "p \<le> c" "\<forall>x. p < x \<and> x \<le> c \<longrightarrow> x mod k \<noteq> 0"
  shows "c - p < k"
proof (rule ccontr)
  assume "\<not> c - p < k"
  let ?x = "p + (k - p mod k)"
  have "p < ?x" "?x \<le> p + k" using assms(1) by simp_all
  moreover have "?x mod k = 0"
  proof -
    have "?x = k * (p div k + 1)" by (simp add: minus_mod_eq_mult_div distrib_left)
    then show ?thesis by (simp only: mod_mult_self1_is_0)
  qed
  ultimately show False using assms(3) \<open>\<not> c - p < k\<close> by auto
qed

lemma recordCandleDelivery_count:
  assumes "hs_candleCount st < 2 ^ 63 - 1" "0 \<le> hs_candleCount st" "recordCandleDelivery now data st = (st1, effs)"
  shows "hs_candleCount st1 = hs_candleCount st + 1" "hs_hasStore st1 = hs_hasStore st"
    "hs_persistInterval st1 = hs_persistInterval st" "effs \<in> {[], [PersistCount (hs_candleCount st + 1)]}"
    "hs_hasStore st \<Longrightarrow> 0 < hs_persistInterval st \<Longrightarrow> (hs_candleCount st + 1) mod hs_persistInterval st = 0 \<Longrightarrow>
       effs = [PersistCount (hs_candleCount st + 1)]"
proof -
  have "int64_ok (hs_candleCount st + 1)" using assms(1,2) by (simp add: int64_ok_def)
  then have "wrap64 (hs_candleCount st + 1) = hs_candleCount st + 1" by (rule wrap64_id)
  then show "hs_candleCount st1 = hs_candleCount st + 1" "hs_hasStore st1 = hs_hasStore st"
    "hs_persistInterval st1 = hs_persistInterval st" "effs \<in> {[], [PersistCount (hs_candleCount st + 1)]}"
    "hs_hasStore st \<Longrightarrow> 0 < hs_persistInterval st \<Longrightarrow> (hs_candleCount st + 1) mod hs_persistInterval st = 0 \<Longrightarrow>
       effs = [PersistCount (hs_candleCount st + 1)]"
    using assms(3) by (auto simp: recordCandleDelivery_def Let_def split: if_splits)
qed

lemma deliveries_gap:
  assumes "hs_hasStore st" "0 < hs_persistInterval st" "0 \<le> hs_candleCount st"
    and "hs_candleCount st + int (length ds) < 2 ^ 63" "p \<le> hs_candleCount st"
    and "\<forall>x. p < x \<and> x \<le> hs_candleCount st \<longrightarrow> x mod hs_persistInterval st \<noteq> 0"
    and "deliveries ds st = (st', effs)"
  shows "hs_candleCount st' = hs_candleCount st + int (length ds) \<and> last_persisted p effs \<le> hs_candleCount st' \<and>
    (\<forall>x. last_persisted p effs < x \<and> x \<le> hs_candleCount st' \<longrightarrow> x mod hs_persistInterval st \<noteq> 0)"
  using assms
proof (induction ds arbitrary: st p effs)
  case (Cons d ds)
  obtain now data where d: "d = (now, data)" by (cases d)
  obtain st1 e1 where s1: "recordCandleDelivery now data st = (st1, e1)" by (metis surj_pair)
  obtain st2 e2 where s2: "deliveries ds st1 = (st2, e2)" by (metis surj_pair)
  have eqs: "st' = st2" "effs = e1 @ e2" using Cons.prems(7) by (simp_all add: d s1 s2)
  have "hs_candleCount st < 2 ^ 63 - 1" using Cons.prems(4) by simp
  note R = recordCandleDelivery_count [OF this Cons.prems(3) s1]
  let ?p = "last_persisted p e1"
  have p: "?p \<le> hs_candleCount st1" using R(1,4) Cons.prems(5) by auto
  have gap: "\<forall>x. ?p < x \<and> x \<le> hs_candleCount st1 \<longrightarrow> x mod hs_persistInterval st1 \<noteq> 0"
  proof (cases "e1 = []")
    case True
    then have "(hs_candleCount st + 1) mod hs_persistInterval st \<noteq> 0" using R(5) Cons.prems(1,2) by auto
    then show ?thesis using True R(1,3) Cons.prems(6) by (auto simp: le_less zless_add1_eq)
  qed (use R(1,4) in auto)
  from Cons.IH [of st1 ?p e2] Cons.prems(1-4) R(1-3) p gap s2 show ?case
    by (simp add: eqs last_persisted_append)
qed simp

text \<open>The candle count last handed to the store lags behind the count of candles delivered by less than
  the persist interval (30), whatever the clock shows, when the host started from the persisted
  count.\<close>

theorem candle_count_loss_bounded:
  assumes "hs_hasStore st" "0 < hs_persistInterval st" "0 \<le> hs_candleCount st"
    and "hs_candleCount st + int (length ds) < 2 ^ 63" "deliveries ds st = (st', effs)"
  shows "hs_candleCount st' = hs_candleCount st + int (length ds) \<and>
    0 \<le> hs_candleCount st' - last_persisted (hs_candleCount st) effs \<and>
    hs_candleCount st' - last_persisted (hs_candleCount st) effs < hs_persistInterval st"
proof -
  note G = deliveries_gap [OF assms(1-4) order_refl _ assms(5)]
  then show ?thesis using mod_gap [OF assms(2), of "last_persisted (hs_candleCount st) effs" "hs_candleCount st'"] by auto
qed

section \<open>Examples\<close>

definition sample_host :: liveHostState where
  "sample_host = \<lparr>hs_userID = ''u'', hs_strategyID = ''s'', hs_deployment = ''d'', hs_orderBook = ''B'', hs_apiKey = ''k'',
     hs_candleCh = Some 1, hs_tradeCh = None, hs_priceCh = None, hs_cfgJSON = '''', hs_hasOrders = True,
     hs_hasStore = True, hs_candleCount = 0, hs_lastCandleAt = time_zero, hs_lastCandle = '''',
     hs_lastDecisionAt = time_zero, hs_lastDecision = '''', hs_buyCount = 0, hs_sellCount = 0,
     hs_persistInterval = 2, hs_lastPersist = time_zero, hs_assetID = '''', hs_resolution = ''1m'', hs_warmup = 0,
     hs_preamble = False\<rparr>"

definition sample_kernel :: kernel where
  "sample_kernel = \<lparr>sk_up = True, sk_caps = Map.empty, sk_switches = Map.empty, sk_counter = []\<rparr>"

definition sample_env :: host_env where
  "sample_env = \<lparr>he_now = \<lparr>t_ns = 100, t_off = 0\<rparr>, he_rnd = Fin,
     he_setString = (\<lambda>s. if s = ''5'' then Some 5 else if s = ''9'' then Some 9 else None),
     he_decode = (\<lambda>_. Inr \<lparr>it_OrderBookID = ''X'', it_Side = ''buy'', it_Quantity = ''5'', it_Type = ''market'',
       it_Price = '''', it_InverseLeverage = '''', it_FromGlobalPosition = False\<rparr>),
     he_uuid = Inr ''7'', he_create = (\<lambda>_. ApiOrder (Some ''o1'')), he_cancel = (\<lambda>_. None)\<rparr>"

lemma sample_submit:
  "orders_sent (fst (snd (submitOrderLive sample_env sample_kernel (Some ''m'') sample_host))) =
     [\<lparr>cr_quantity = ''5'', cr_leverage = ''1'', cr_kind = ''MARKET'', cr_side = ''BUY'', cr_fromGlobal = False,
       cr_book = ''B'', cr_clientOrderID = ''dora-agent_u_s_7'', cr_price = None\<rparr>]"
  by code_simp

theorem live_order_gate_witness:
  "\<exists>intent req. orders_sent (fst (snd (submitOrderLive sample_env sample_kernel (Some ''m'') sample_host))) = [req] \<and>
     he_decode sample_env ''m'' = Inr intent \<and> cr_book req = ''B'' \<and> cr_quantity req = it_Quantity intent"
proof -
  obtain st' effs res where run: "submitOrderLive sample_env sample_kernel (Some ''m'') sample_host = (st', effs, res)"
    by (metis prod_cases3)
  have "orders_sent effs \<noteq> []" using sample_submit by (simp add: run)
  from live_order_gate [OF run this] obtain inBytes intent req
    where "Some ''m'' = Some inBytes" "he_decode sample_env inBytes = Inr intent" "orders_sent effs = [req]"
      "cr_book req = hs_orderBook sample_host" "cr_quantity req = it_Quantity intent" by blast
  moreover have "hs_orderBook sample_host = ''B''" by (simp add: sample_host_def)
  ultimately show ?thesis unfolding run by auto
qed

theorem kill_switch_stops_orders_witness:
  "\<exists>k1 k. Halt ''u'' ''stop'' sample_kernel = Inr k1 \<and> kernel_ops [KSetCaps ''u'' Caps_Defaults, KResume ''v''] k1 = Inr k \<and>
     orders_sent (fst (snd (submitOrderLive sample_env k (Some ''m'') sample_host))) = []"
proof -
  obtain k1 where k1: "Halt ''u'' ''stop'' sample_kernel = Inr k1" by (simp add: Halt_def sample_kernel_def)
  obtain k where k: "kernel_ops [KSetCaps ''u'' Caps_Defaults, KResume ''v''] k1 = Inr k"
    using k1 by (auto simp: Halt_def sample_kernel_def kernel_op_def SetCaps_def Kernel_Resume_def split: if_splits)
  have "hs_userID sample_host = ''u''" "KResume ''u'' \<notin> set [KSetCaps ''u'' Caps_Defaults, KResume ''v'']"
    by (simp_all add: sample_host_def)
  then show ?thesis using kill_switch_stops_orders [OF k1 k, of sample_host sample_env "Some ''m''"] k1 k by blast
qed

theorem market_orders_uncapped_witness:
  "CheckOrder (he_rnd sample_env) (he_now sample_env) ''u''
     \<lparr>oc_Quantity = parseDecimal (he_rnd sample_env) (he_setString sample_env) ''9'',
      oc_Price = parseDecimal (he_rnd sample_env) (he_setString sample_env) '''', oc_OpenOrders = 0\<rparr> sample_kernel
     \<noteq> Some (NotionalCap (Fin 0) (Fin 100000))"
  using market_orders_uncapped [of sample_env "''u''" sample_kernel 100000]
  by (simp add: sample_env_def sample_kernel_def CapsFor_def Caps_Defaults_def)

theorem submit_network_error_panics_witness:
  "snd (SubmitOrder (\<lambda>_. ApiError ''timeout'' False) (Inr ''7'') ''u'' ''s'' ''k''
     \<lparr>it_OrderBookID = ''B'', it_Side = ''buy'', it_Quantity = ''5'', it_Type = ''market'', it_Price = '''',
      it_InverseLeverage = '''', it_FromGlobalPosition = False\<rparr>) = Panic nil_response"
proof -
  let ?r = "SubmitOrder (\<lambda>_. ApiError ''timeout'' False) (Inr ''7'') ''u'' ''s'' ''k''
     \<lparr>it_OrderBookID = ''B'', it_Side = ''buy'', it_Quantity = ''5'', it_Type = ''market'', it_Price = '''',
      it_InverseLeverage = '''', it_FromGlobalPosition = False\<rparr>"
  obtain req r where "?r = (Some req, r)" by (simp add: SubmitOrder_def Let_def)
  then show ?thesis using submit_network_error_panics [of "\<lambda>_. ApiError ''timeout'' False"] by simp
qed

definition sample_feed :: Broker where
  "sample_feed = \<lparr>br_heap = [1 \<mapsto> \<lparr>sub_OrderBookID = ''B'', sub_Resolution = ''1m'', sub_AssetID = '''',
       sub_TypeFilter = [''candle''], sub_Channels = [''candle''],
       sub_buf = [candle_frame ''B'' ''1m'' \<lparr>rm_text = '''', rm_start = None\<rparr>,
         candle_frame ''B'' ''1m'' \<lparr>rm_text = ''c'', rm_start = None\<rparr>], sub_closed = False\<rparr>],
     br_next = 2, br_arrays = [[1]], br_aid = 0, br_len = 1, br_frameCb = [], br_conn = None, br_stopped = False,
     br_subscribedKeys = [], br_pendingCandle = Map.empty, br_pendingTS = Map.empty, br_lastSentTS = Map.empty,
     br_writes = []\<rparr>"

theorem preamble_sends_nothing_witness:
  "list_all (\<lambda>e. \<not> exchange_call e) (snd (host_calls [CallSubmit sample_env sample_kernel (\<lambda>_. '''') 9 (Some ''m''),
     CallCancel sample_env (Some ''o1'')] (sample_host\<lparr>hs_preamble := True\<rparr>, sample_feed)))"
  using preamble_sends_nothing [of "sample_host\<lparr>hs_preamble := True\<rparr>"
      "[CallSubmit sample_env sample_kernel (\<lambda>_. '''') 9 (Some ''m''), CallCancel sample_env (Some ''o1'')]" sample_feed] by simp

definition first_ready :: "liveHostState \<Rightarrow> Broker \<Rightarrow> sel option" where
  "first_ready st b =
     (if recv (hs_candleCh st) b \<noteq> RecvBlock then Some SelCandle
      else if recv (hs_tradeCh st) b \<noteq> RecvBlock then Some SelTrade
      else if recv (hs_priceCh st) b \<noteq> RecvBlock then Some SelPrice else None)"

lemma fair_first_ready: "fair first_ready"
proof -
  have "recv None b = RecvBlock" for b by (simp add: recv_def)
  then have "recv (sel_chan s st) b = RecvBlock" if "first_ready st b = None" for s st b
    using that by (cases s) (auto simp: first_ready_def sel_chan_def split: if_splits)
  moreover have "recv (sel_chan s st) b \<noteq> RecvBlock" if "first_ready st b = Some s" for s st b
    using that by (auto simp: first_ready_def sel_chan_def split: if_splits)
  ultimately show ?thesis unfolding fair_def by (metis not_None_eq)
qed

definition nonempty_text :: "RawMessage \<Rightarrow> string option" where
  "nonempty_text r = (if rm_text r = '''' then None else Some (rm_text r))"

theorem next_event_returns_witness:
  "\<exists>ev. snd (snd (nextEvent first_ready nonempty_text sample_host sample_feed)) = Event ev"
proof -
  obtain st' b' r where run: "nextEvent first_ready nonempty_text sample_host sample_feed = (st', b', r)"
    by (metis prod_cases3)
  have sep: "separate sample_host"
    by (auto simp: separate_def sel_chan_def sample_host_def split: sel.splits)
  have "candle_frame ''B'' ''1m'' \<lparr>rm_text = ''c'', rm_start = None\<rparr> \<in> set (queue SelCandle sample_host sample_feed)"
    by (simp add: queue_def sel_chan_def sample_host_def sample_feed_def)
  moreover have "frame_event nonempty_text SelCandle (candle_frame ''B'' ''1m'' \<lparr>rm_text = ''c'', rm_start = None\<rparr>) \<noteq> None"
    by (simp add: frame_event_def candle_frame_def nonempty_text_def)
  moreover have "first_ready st b \<noteq> Some SelCtx" for st b by (simp add: first_ready_def)
  ultimately have "\<exists>ev. r = Event ev" using next_event_returns [OF sep fair_first_ready run] by blast
  then show ?thesis by (simp add: run)
qed

theorem candle_count_loss_bounded_witness:
  "hs_candleCount (fst (deliveries (replicate 3 (time_zero, ''c'')) sample_host)) -
     last_persisted 0 (snd (deliveries (replicate 3 (time_zero, ''c'')) sample_host)) < 2"
  using candle_count_loss_bounded [of sample_host "replicate 3 (time_zero, ''c'')", OF _ _ _ _ surjective_pairing]
  by (simp add: sample_host_def del: deliveries.simps)

end
