(* ===== verification/Orchestrator.thy ===== *)
theory Orchestrator
  imports Agent_Host Deployment_Store
begin

text \<open>
  The lifecycle of live deployments (\<open>internal/agent/orchestrator/lifecycle.go\<close>, \<open>restart.go\<close> and
  \<open>orchestrator.go\<close>).

  \<^item> A \<open>*liveInstance\<close> is a tag; \<open>or_insts\<close> holds the instances whose goroutine is alive and \<open>or_live\<close> is
    the map \<open>liveInstances\<close> from deployment identifiers to tags.
  \<^item> \<open>Deploy\<close> takes the lock twice: \<open>deploy_check\<close> is the part up to the duplicate check,
    \<open>deploy_start\<close> the rest. Other operations may run in between.
  \<^item> The exit of the plugin's \<open>_start\<close> is an argument: a clean return, the error with \<open>exit_code(0)\<close>, or
    another error. \<open>finish_run\<close> is the rest of \<open>runLive\<close>, with the deferred teardown.
  \<^item> Loading and instantiating a module (the registry over wazero), marshalling the configuration,
    the clock and the growth of slices are the fields of \<open>deploy_env\<close>; \<open>de_ctxDone\<close> tells that the
    context of the call is cancelled, which makes every statement on the store fail.
  \<^item> Logging is left out. The only use of the audit sink here, a record of the failure, is left out too.
\<close>

section \<open>The restart budget\<close>

record RestartConfig =
  rc_Window :: int
  rc_MaxRestarts :: int

record RestartBudget =
  rb_cfg :: RestartConfig
  rb_resets :: "gtime list"

definition NewRestartBudget :: "RestartConfig \<Rightarrow> RestartBudget" where
  "NewRestartBudget cfg = \<lparr>rb_cfg = cfg, rb_resets = []\<rparr>"

definition Budget_Allow :: "gtime \<Rightarrow> RestartBudget \<Rightarrow> RestartBudget \<times> bool" where
  "Budget_Allow now b =
     (let cutoff = time_Add now (wrap64 (- rc_Window (rb_cfg b)));
          live = filter (\<lambda>t. time_After t cutoff) (rb_resets b)
      in if rc_MaxRestarts (rb_cfg b) \<le> int (length live) then (b\<lparr>rb_resets := live\<rparr>, False)
         else (b\<lparr>rb_resets := live @ [now]\<rparr>, True))"

definition Budget_Reset :: "RestartBudget \<Rightarrow> RestartBudget" where
  "Budget_Reset b = b\<lparr>rb_resets := []\<rparr>"

section \<open>Configuration and state\<close>

record orch_cfg =
  og_hasBroker :: bool
  og_hasStore :: bool
  og_hasKernel :: bool
  og_hasOrders :: bool
  og_restart :: RestartConfig
  og_resolver :: "(Deployment \<Rightarrow> (string \<times> string) res) option"

text \<open>\<open>New\<close>: the artifact store and the registry must be given; restart defaults are filled in.\<close>

definition Orch_New :: "bool \<Rightarrow> bool \<Rightarrow> orch_cfg \<Rightarrow> orch_cfg res" where
  "Orch_New hasArtifacts hasRegistry cfg =
     (if \<not> hasArtifacts then Inl ''orchestrator: nil Store''
      else if \<not> hasRegistry then Inl ''orchestrator: nil Registry''
      else Inr (cfg\<lparr>og_restart := \<lparr>rc_Window = (if rc_Window (og_restart cfg) = 0 then 60 * second_ns else rc_Window (og_restart cfg)),
             rc_MaxRestarts = (if rc_MaxRestarts (og_restart cfg) = 0 then 3 else rc_MaxRestarts (og_restart cfg))\<rparr>\<rparr>))"

record DeployConfig =
  dc_DeploymentID :: string
  dc_StrategyID :: string
  dc_Revision :: string
  dc_UserID :: string
  dc_OrderBookID :: string
  dc_DoraAPIKey :: string
  dc_WasmRef :: string
  dc_Resolution :: string
  dc_ManifestHash :: string
  dc_WarmupCandles :: int
  dc_Params :: "(string \<times> string) list"

record Manifest =
  mf_Channels :: "string list"
  mf_AssetIDs :: "string list"
  mf_Warmup :: int

record liveInstance =
  li_deploymentID :: string
  li_budget :: RestartBudget
  li_sub :: nat
  li_subTrades :: nat
  li_subPrices :: nat
  li_state :: liveHostState
  li_cancelled :: bool

record orch =
  or_live :: "string \<rightharpoonup> nat"
  or_insts :: "nat \<rightharpoonup> liveInstance"
  or_nextTag :: nat
  or_db :: dep_db
  or_broker :: Broker
  or_kernel :: kernel

record deploy_env =
  de_now :: gtime
  de_grow :: "nat \<Rightarrow> nat"
  de_cfgJSON :: "string res"
  de_load :: "string \<Rightarrow> string \<Rightarrow> Manifest res"
  de_instantiate :: "Manifest \<Rightarrow> gerror option"
  de_ctxDone :: bool

definition validateForLive :: "DeployConfig \<Rightarrow> gerror option" where
  "validateForLive c =
     (if dc_DeploymentID c = '''' then Some ''orchestrator: DeploymentID is required''
      else if dc_OrderBookID c = '''' then Some ''orchestrator: OrderBookID is required''
      else if dc_Resolution c = '''' then Some ''orchestrator: Resolution is required''
      else None)"

definition hasChannel :: "Manifest \<Rightarrow> string \<Rightarrow> bool" where
  "hasChannel m want \<longleftrightarrow> want \<in> set (mf_Channels m)"

text \<open>A statement and a query under a context that may be cancelled.\<close>

definition ctx_stmt :: "bool \<Rightarrow> (dep_db \<Rightarrow> dep_db \<times> gerror option) \<Rightarrow> dep_db \<Rightarrow> dep_db \<times> gerror option" where
  "ctx_stmt ctxDone f db = (if ctxDone then (db, Some ''context canceled'') else f db)"

definition ctx_get :: "bool \<Rightarrow> string \<Rightarrow> string \<Rightarrow> dep_db \<Rightarrow> Deployment res" where
  "ctx_get ctxDone i user db = (if ctxDone then Inl ''context canceled'' else Get i user db)"

section \<open>Deploying\<close>

definition pointer :: "nat \<Rightarrow> nat option" where
  "pointer p = (if p = 0 then None else Some p)"

definition buildLiveHostState :: "orch_cfg \<Rightarrow> deploy_env \<Rightarrow> DeployConfig \<Rightarrow> nat \<Rightarrow> nat \<Rightarrow> nat \<Rightarrow> Manifest \<Rightarrow>
    string \<Rightarrow> dep_db \<Rightarrow> liveHostState" where
  "buildLiveHostState cfg env dc sub subTrades subPrices m cfgJSON db =
     \<lparr>hs_userID = dc_UserID dc, hs_strategyID = dc_StrategyID dc, hs_deployment = dc_DeploymentID dc,
      hs_orderBook = dc_OrderBookID dc, hs_apiKey = dc_DoraAPIKey dc, hs_candleCh = Some sub,
      hs_tradeCh = pointer subTrades, hs_priceCh = pointer subPrices, hs_cfgJSON = cfgJSON,
      hs_hasOrders = og_hasOrders cfg, hs_hasStore = og_hasStore cfg,
      hs_candleCount = (case ctx_get (de_ctxDone env) (dc_DeploymentID dc) (dc_UserID dc) db of
         Inl _ \<Rightarrow> 0 | Inr d \<Rightarrow> d_CandleCount d),
      hs_lastCandleAt = time_zero, hs_lastCandle = '''', hs_lastDecisionAt = time_zero, hs_lastDecision = '''',
      hs_buyCount = 0, hs_sellCount = 0, hs_persistInterval = 30, hs_lastPersist = time_zero,
      hs_assetID = (case mf_AssetIDs m of [] \<Rightarrow> '''' | a # _ \<Rightarrow> a), hs_resolution = dc_Resolution dc,
      hs_warmup = dc_WarmupCandles dc, hs_preamble = True\<rparr>"

definition syncWarmupCandles :: "deploy_env \<Rightarrow> DeployConfig \<Rightarrow> int \<Rightarrow> dep_db \<Rightarrow> dep_db" where
  "syncWarmupCandles env dc warmup db =
     (if warmup \<le> 0 then db
      else fst (ctx_stmt (de_ctxDone env)
             (UpdateWarmupCandles (de_now env) (dc_DeploymentID dc) (dc_UserID dc) warmup) db))"

definition deploy_check :: "orch_cfg \<Rightarrow> DeployConfig \<Rightarrow> orch \<Rightarrow> gerror option" where
  "deploy_check cfg dc o1 =
     (case validateForLive dc of
        Some e \<Rightarrow> Some e
      | None \<Rightarrow>
          if \<not> og_hasBroker cfg then Some ''orchestrator: nil WsBroker''
          else if \<not> og_hasStore cfg then Some ''orchestrator: nil DeployStore''
          else if or_live o1 (dc_DeploymentID dc) \<noteq> None then Some ''orchestrator: already running''
          else None)"

definition deploy_start :: "orch_cfg \<Rightarrow> deploy_env \<Rightarrow> DeployConfig \<Rightarrow> orch \<Rightarrow> orch \<times> gerror option" where
  "deploy_start cfg env dc o1 =
     (let (sub, b1) = Subscribe (de_grow env) (dc_OrderBookID dc) (dc_Resolution dc) [''candle''] (or_broker o1) in
      case de_cfgJSON env of
        Inl e \<Rightarrow> (o1\<lparr>or_broker := Unsubscribe sub b1\<rparr>, Some e)
      | Inr cfgJSON \<Rightarrow>
     (case de_load env (dc_WasmRef dc) (dc_ManifestHash dc) of
        Inl e \<Rightarrow> (o1\<lparr>or_broker := Unsubscribe sub b1\<rparr>, Some e)
      | Inr m \<Rightarrow>
          (let (subTrades, b2) = (if hasChannel m ''trade'' then SubscribeTrades (de_grow env) (dc_OrderBookID dc) b1
                                  else (0, b1));
               (subPrices, b3) = (if hasChannel m ''price'' \<and> mf_AssetIDs m \<noteq> []
                                  then SubscribePrices (de_grow env) (hd (mf_AssetIDs m)) b2 else (0, b2));
               deployCfg = (if 0 < mf_Warmup m then dc\<lparr>dc_WarmupCandles := mf_Warmup m\<rparr> else dc);
               state = buildLiveHostState cfg env deployCfg sub subTrades subPrices m cfgJSON (or_db o1)
           in case de_instantiate env m of
                Some e \<Rightarrow> (o1\<lparr>or_broker := Unsubscribe subPrices (Unsubscribe subTrades (Unsubscribe sub b3))\<rparr>, Some e)
              | None \<Rightarrow>
                  (o1\<lparr>or_insts := (or_insts o1)(or_nextTag o1 \<mapsto>
                        \<lparr>li_deploymentID = dc_DeploymentID dc, li_budget = NewRestartBudget (og_restart cfg),
                         li_sub = sub, li_subTrades = subTrades, li_subPrices = subPrices, li_state = state,
                         li_cancelled = False\<rparr>),
                      or_live := (or_live o1)(dc_DeploymentID dc \<mapsto> or_nextTag o1),
                      or_nextTag := Suc (or_nextTag o1),
                      or_broker := b3,
                      or_db := syncWarmupCandles env dc (mf_Warmup m) (or_db o1)\<rparr>, None))))"

definition Deploy :: "orch_cfg \<Rightarrow> deploy_env \<Rightarrow> DeployConfig \<Rightarrow> orch \<Rightarrow> orch \<times> gerror option" where
  "Deploy cfg env dc o1 =
     (case deploy_check cfg dc o1 of Some e \<Rightarrow> (o1, Some e) | None \<Rightarrow> deploy_start cfg env dc o1)"

section \<open>The end of a run\<close>

datatype run_exit = ExitClean | ExitCode0 | ExitError

definition teardownLive :: "nat \<Rightarrow> orch \<Rightarrow> orch" where
  "teardownLive tag o1 =
     (case or_insts o1 tag of
        None \<Rightarrow> o1
      | Some li \<Rightarrow> o1\<lparr>or_broker := Unsubscribe (li_subPrices li) (Unsubscribe (li_subTrades li)
                        (if li_sub li \<noteq> 0 then Unsubscribe (li_sub li) (or_broker o1) else or_broker o1)),
                      or_live := (or_live o1)(li_deploymentID li := None),
                      or_insts := (or_insts o1)(tag := None)\<rparr>)"

definition persistCandleCount :: "gtime \<Rightarrow> bool \<Rightarrow> liveHostState \<Rightarrow> dep_db \<Rightarrow> dep_db" where
  "persistCandleCount now ctxDone st db =
     fst (ctx_stmt ctxDone (SetCandleCount now (hs_deployment st) (hs_userID st) (max 0 (hs_candleCount st))) db)"

definition buildRestartConfig :: "bool \<Rightarrow> liveInstance \<Rightarrow> dep_db \<Rightarrow> DeployConfig" where
  "buildRestartConfig ctxDone li db =
     (let st = li_state li;
          c = \<lparr>dc_DeploymentID = li_deploymentID li, dc_StrategyID = hs_strategyID st, dc_Revision = '''',
               dc_UserID = hs_userID st, dc_OrderBookID = hs_orderBook st, dc_DoraAPIKey = hs_apiKey st,
               dc_WasmRef = '''', dc_Resolution = '''', dc_ManifestHash = '''', dc_WarmupCandles = 0, dc_Params = []\<rparr>
      in case ctx_get ctxDone (li_deploymentID li) (hs_userID st) db of
           Inl _ \<Rightarrow> c
         | Inr d \<Rightarrow> c\<lparr>dc_WasmRef := d_Revision d, dc_Resolution := d_Resolution d, dc_Params := d_Params d,
                      dc_WarmupCandles := d_WarmupCandles d\<rparr>)"

definition handleRunError :: "orch_cfg \<Rightarrow> deploy_env \<Rightarrow> nat \<Rightarrow> liveInstance \<Rightarrow> orch \<Rightarrow> orch" where
  "handleRunError cfg env tag li o1 =
     (let now = de_now env; done = li_cancelled li; i = li_deploymentID li; user = hs_userID (li_state li);
          (budget, ok) = Budget_Allow now (li_budget li);
          o2 = o1\<lparr>or_insts := (or_insts o1)(tag \<mapsto> li\<lparr>li_budget := budget\<rparr>)\<rparr>
      in if \<not> ok
         then o2\<lparr>or_db := fst (ctx_stmt done (UpdateStatus now i user StatusCrashed ''restart budget exhausted'') (or_db o2))\<rparr>
         else let o3 = o2\<lparr>or_db := persistCandleCount now done (li_state li) (or_db o2)\<rparr>
              in case Deploy cfg (env\<lparr>de_ctxDone := done\<rparr>) (buildRestartConfig done li (or_db o3)) o3 of
                   (o4, Some e) \<Rightarrow>
                     (let db1 = fst (ctx_stmt done (IncRestart now i user) (or_db o4))
                      in o4\<lparr>or_db := fst (ctx_stmt done (UpdateStatus now i user StatusCrashed ''in-process restart failed'') db1)\<rparr>)
                 | (o4, None) \<Rightarrow> o4\<lparr>or_db := fst (ctx_stmt done (IncRestart now i user) (or_db o4))\<rparr>)"

definition finish_run :: "orch_cfg \<Rightarrow> deploy_env \<Rightarrow> nat \<Rightarrow> run_exit \<Rightarrow> orch \<Rightarrow> orch" where
  "finish_run cfg env tag exit o1 =
     (case or_insts o1 tag of
        None \<Rightarrow> o1
      | Some li \<Rightarrow> teardownLive tag
          (case exit of
             ExitClean \<Rightarrow> o1
           | ExitCode0 \<Rightarrow> o1\<lparr>or_db := fst (UpdateStatus (de_now env) (li_deploymentID li) (hs_userID (li_state li))
                                StatusStopped ''clean exit'' (or_db o1))\<rparr>
           | ExitError \<Rightarrow> handleRunError cfg env tag li o1))"

section \<open>Stopping, resuming, swapping\<close>

definition cancel_run :: "nat \<Rightarrow> orch \<Rightarrow> orch" where
  "cancel_run tag o1 = o1\<lparr>or_insts := (or_insts o1)(tag := map_option (\<lambda>li. li\<lparr>li_cancelled := True\<rparr>) (or_insts o1 tag))\<rparr>"

text \<open>\<open>Stop\<close> waits for the goroutine: \<open>ended\<close> is how it ends, \<open>None\<close> that the caller's context expires
  first.\<close>

definition Orch_Stop :: "orch_cfg \<Rightarrow> deploy_env \<Rightarrow> run_exit option \<Rightarrow> string \<Rightarrow> string \<Rightarrow> orch \<Rightarrow> orch \<times> gerror option" where
  "Orch_Stop cfg env ended i user o1 =
     (case or_live o1 i of
        None \<Rightarrow>
          (case ctx_stmt (de_ctxDone env) (UpdateStatus (de_now env) i user StatusStopped ''not running'') (or_db o1) of
             (db, e) \<Rightarrow> (o1\<lparr>or_db := db\<rparr>, e))
      | Some tag \<Rightarrow>
          (case ended of
             None \<Rightarrow> (cancel_run tag o1, Some ''orchestrator: stop timed out'')
           | Some exit \<Rightarrow>
               (let o2 = finish_run cfg env tag exit (cancel_run tag o1) in
                case UpdateStatus (de_now env) i user StatusStopped ''user stop'' (or_db o2) of
                  (db, e) \<Rightarrow> (o2\<lparr>or_db := db\<rparr>, e))))"

definition resolveVersion :: "orch_cfg \<Rightarrow> Deployment \<Rightarrow> (string \<times> string) res" where
  "resolveVersion cfg d =
     (case og_resolver cfg of
        Some f \<Rightarrow> f d
      | None \<Rightarrow> if d_Revision d = '''' then Inl ''orchestrator: deployment has no revision; wire VersionResolver''
                else Inr (d_Revision d, d_Revision d))"

definition deployConfigFromRow :: "Deployment \<Rightarrow> string \<Rightarrow> string \<Rightarrow> string \<Rightarrow> DeployConfig" where
  "deployConfigFromRow d apiKey wasmRef manifestHash =
     \<lparr>dc_DeploymentID = d_ID d, dc_StrategyID = d_StrategyID d, dc_Revision = d_Revision d, dc_UserID = d_UserID d,
      dc_OrderBookID = d_OrderBookID d, dc_DoraAPIKey = apiKey, dc_WasmRef = wasmRef, dc_Resolution = d_Resolution d,
      dc_ManifestHash = manifestHash, dc_WarmupCandles = d_WarmupCandles d, dc_Params = d_Params d\<rparr>"

definition Orch_Resume :: "orch_cfg \<Rightarrow> deploy_env \<Rightarrow> string \<Rightarrow> string \<Rightarrow> string \<Rightarrow> orch \<Rightarrow> orch \<times> gerror option" where
  "Orch_Resume cfg env i user apiKey o1 =
     (case ctx_get (de_ctxDone env) i user (or_db o1) of
        Inl e \<Rightarrow> (o1, Some e)
      | Inr d \<Rightarrow>
          if d_Resolution d = '''' then (o1, Some ''orchestrator: resume: no resolution'')
          else if d_OrderBookID d = '''' then (o1, Some ''orchestrator: resume: no order_book_id'')
          else (case resolveVersion cfg d of
                  Inl e \<Rightarrow> (o1, Some e)
                | Inr (wasmRef, manifestHash) \<Rightarrow>
                    (case ctx_stmt (de_ctxDone env) (UpdateStatus (de_now env) i user StatusRunning '''') (or_db o1) of
                       (db, Some e) \<Rightarrow> (o1\<lparr>or_db := db\<rparr>, Some e)
                     | (db, None) \<Rightarrow> Deploy cfg env (deployConfigFromRow d apiKey wasmRef manifestHash) (o1\<lparr>or_db := db\<rparr>))))"

definition Orch_HotSwap :: "orch_cfg \<Rightarrow> deploy_env \<Rightarrow> run_exit \<Rightarrow> string \<Rightarrow> string \<Rightarrow> string \<Rightarrow> string \<Rightarrow> string \<Rightarrow>
    string \<Rightarrow> string \<Rightarrow> orch \<Rightarrow> orch \<times> gerror option" where
  "Orch_HotSwap cfg env exit i user newRevision newWasmRef newManifestHash apiKey orderBookID o1 =
     (let o2 = (case or_live o1 i of
                  None \<Rightarrow> o1
                | Some tag \<Rightarrow> finish_run cfg env tag exit (cancel_run tag o1))
      in case ctx_stmt (de_ctxDone env) (Store_HotSwap (de_now env) i user newRevision) (or_db o2) of
           (db, Some e) \<Rightarrow> (o2\<lparr>or_db := db\<rparr>, Some e)
         | (db, None) \<Rightarrow>
             Deploy cfg env \<lparr>dc_DeploymentID = i, dc_StrategyID = '''', dc_Revision = newRevision, dc_UserID = user,
               dc_OrderBookID = orderBookID, dc_DoraAPIKey = apiKey, dc_WasmRef = newWasmRef, dc_Resolution = '''',
               dc_ManifestHash = newManifestHash, dc_WarmupCandles = 0, dc_Params = []\<rparr> (o2\<lparr>or_db := db\<rparr>))"

section \<open>Recovery on boot\<close>

definition recover_row :: "orch_cfg \<Rightarrow> deploy_env \<Rightarrow> (string \<Rightarrow> string res) \<Rightarrow> Deployment \<Rightarrow> orch \<times> nat \<Rightarrow> orch \<times> nat" where
  "recover_row cfg env key d x =
     (let o1 = fst x;
          mark = (\<lambda>st reason. (o1\<lparr>or_db := fst (ctx_stmt (de_ctxDone env)
             (UpdateStatus (de_now env) (d_ID d) (d_UserID d) st reason) (or_db o1))\<rparr>, snd x))
      in if og_hasKernel cfg \<and> fst (IsHalted (d_UserID d) (or_kernel o1)) then mark StatusHalted ''kill switch active on boot''
         else case key (d_UserID d) of
                Inl _ \<Rightarrow> mark StatusCrashed ''key decrypt failed''
              | Inr apiKey \<Rightarrow>
                  (case resolveVersion cfg d of
                     Inl _ \<Rightarrow> x
                   | Inr (wasmRef, manifestHash) \<Rightarrow>
                       if d_Resolution d = '''' then mark StatusCrashed ''missing resolution on deployment row''
                       else if d_OrderBookID d = '''' then mark StatusCrashed ''missing order_book_id on deployment row''
                       else (case Deploy cfg env (deployConfigFromRow d apiKey wasmRef manifestHash) o1 of
                               (o2, Some _) \<Rightarrow> (o2, snd x)
                             | (o2, None) \<Rightarrow> (o2, Suc (snd x)))))"

definition Orch_Recover :: "orch_cfg \<Rightarrow> deploy_env \<Rightarrow> (string \<Rightarrow> string res) option \<Rightarrow> orch \<Rightarrow> orch \<times> nat res" where
  "Orch_Recover cfg env key o1 =
     (if \<not> og_hasStore cfg then (o1, Inl ''orchestrator: nil DeployStore'')
      else case key of
             None \<Rightarrow> (o1, Inl ''orchestrator: nil KeyProvider'')
           | Some k \<Rightarrow>
               (case (if de_ctxDone env then Inl ''context canceled'' else ListRunning (or_db o1)) of
                  Inl e \<Rightarrow> (o1, Inl e)
                | Inr rows \<Rightarrow> (case fold (recover_row cfg env k) rows (o1, 0) of (o2, n) \<Rightarrow> (o2, Inr n))))"

definition IsRunning :: "string \<Rightarrow> orch \<Rightarrow> bool" where
  "IsRunning i o1 \<longleftrightarrow> or_live o1 i \<noteq> None"

definition Orch_Stats :: "string \<Rightarrow> orch \<Rightarrow> (int \<times> gtime \<times> string \<times> gtime \<times> string \<times> int \<times> int) option" where
  "Orch_Stats i o1 =
     (case or_live o1 i of
        None \<Rightarrow> None
      | Some tag \<Rightarrow> map_option (\<lambda>li. let st = li_state li in (hs_candleCount st, hs_lastCandleAt st, hs_lastCandle st,
          hs_lastDecisionAt st, hs_lastDecision st, hs_buyCount st, hs_sellCount st)) (or_insts o1 tag))"

end
