(* ===== verification/Ws_Broker_Props.thy ===== *)
theory Ws_Broker_Props
  imports Ws_Broker
begin

text \<open>
  Invariant of the market-data broker and the lemmas on its operations: the in-place slice
  operations implement appending to and removing from a list, every operation keeps the invariant,
  and an undisturbed dispatch delivers a frame to exactly the matching subscribers.
\<close>

section \<open>Invariant\<close>

definition broker_inv :: "Broker \<Rightarrow> bool" where
  "broker_inv b \<longleftrightarrow>
     br_aid b < length (br_arrays b) \<and> br_len b \<le> length (br_arrays b ! br_aid b) \<and>
     distinct (subs_of b) \<and> distinct (br_subscribedKeys b) \<and> 0 < br_next b \<and>
     set (subs_of b) \<subseteq> dom (br_heap b) \<and> dom (br_heap b) \<subseteq> {0<..<br_next b} \<and>
     (\<forall>s\<in>ran (br_heap b). length (sub_buf s) \<le> defaultFrameBuffer) \<and>
     (\<forall>p s. br_heap b p = Some s \<longrightarrow> (sub_closed s \<longleftrightarrow> p \<notin> set (subs_of b)))"

lemma broker_invD:
  assumes "broker_inv b"
  shows "br_aid b < length (br_arrays b)" "br_len b \<le> length (br_arrays b ! br_aid b)"
    "distinct (subs_of b)" "distinct (br_subscribedKeys b)"
    "p \<in> set (subs_of b) \<Longrightarrow> \<exists>s. br_heap b p = Some s \<and> \<not> sub_closed s"
    "br_heap b p = Some s \<Longrightarrow> 0 < p \<and> p < br_next b \<and> length (sub_buf s) \<le> defaultFrameBuffer \<and>
       (sub_closed s \<longleftrightarrow> p \<notin> set (subs_of b))"
    "br_heap b (br_next b) = None" "br_next b \<notin> set (subs_of b)" "0 < br_next b"
  using assms unfolding broker_inv_def by (auto simp: ran_def subset_iff domIff)

lemma broker_invI:
  assumes "br_aid b < length (br_arrays b)" "br_len b \<le> length (br_arrays b ! br_aid b)"
    "distinct (subs_of b)" "distinct (br_subscribedKeys b)" "0 < br_next b"
    "\<And>p. p \<in> set (subs_of b) \<Longrightarrow> br_heap b p \<noteq> None"
    "\<And>p s. br_heap b p = Some s \<Longrightarrow> 0 < p \<and> p < br_next b \<and> length (sub_buf s) \<le> defaultFrameBuffer \<and>
       (sub_closed s \<longleftrightarrow> p \<notin> set (subs_of b))"
  shows "broker_inv b"
  using assms unfolding broker_inv_def by (auto simp: ran_def)

section \<open>The slice implements a list\<close>

lemma length_subs_of: "br_len b \<le> length (br_arrays b ! br_aid b) \<Longrightarrow> length (subs_of b) = br_len b"
  by (simp add: subs_of_def)

lemma subs_append:
  assumes "br_aid b < length (br_arrays b)" "br_len b \<le> length (br_arrays b ! br_aid b)"
  shows "subs_of (append_sub grow p b) = subs_of b @ [p]"
    and "br_aid (append_sub grow p b) < length (br_arrays (append_sub grow p b))"
    and "br_len (append_sub grow p b) \<le>
      length (br_arrays (append_sub grow p b) ! br_aid (append_sub grow p b))"
  using assms by (auto simp: append_sub_def subs_of_def Let_def take_Suc_conv_app_nth)

lemma index_from_None: "index_from i p xs = None \<longleftrightarrow> p \<notin> set xs"
  by (induction xs arbitrary: i) auto

lemma index_from_Some:
  "index_from i p xs = Some j \<Longrightarrow> i \<le> j \<and> j - i < length xs \<and> remove1 p xs = take (j - i) xs @ drop (Suc (j - i)) xs"
proof (induction xs arbitrary: i)
  case (Cons x xs)
  show ?case
  proof (cases "x = p")
    case False
    with Cons.prems have "index_from (Suc i) p xs = Some j" by simp
    with Cons.IH [OF this] False show ?thesis by (cases j) (auto simp: Suc_diff_le)
  qed (use Cons.prems in auto)
qed simp

lemma take_shift_down:
  assumes "i < n" "n \<le> length arr"
  shows "take (n - 1) (shift_down i n arr) = take i (take n arr) @ drop (Suc i) (take n arr)"
    and "length (shift_down i n arr) = length arr"
proof -
  obtain m where n: "n = Suc (i + m)" using assms less_iff_Suc_add by auto
  show "take (n - 1) (shift_down i n arr) = take i (take n arr) @ drop (Suc i) (take n arr)"
    using assms by (auto simp: n shift_down_def drop_take min_def)
  show "length (shift_down i n arr) = length arr" using assms by (auto simp: n shift_down_def min_def)
qed

lemma subs_Unsubscribe:
  assumes "br_aid b < length (br_arrays b)" "br_len b \<le> length (br_arrays b ! br_aid b)"
  shows "subs_of (Unsubscribe p b) = remove1 p (subs_of b)"
    and "br_aid (Unsubscribe p b) < length (br_arrays (Unsubscribe p b))"
    and "br_len (Unsubscribe p b) \<le> length (br_arrays (Unsubscribe p b) ! br_aid (Unsubscribe p b))"
proof -
  have "subs_of (Unsubscribe p b) = remove1 p (subs_of b) \<and>
      br_aid (Unsubscribe p b) < length (br_arrays (Unsubscribe p b)) \<and>
      br_len (Unsubscribe p b) \<le> length (br_arrays (Unsubscribe p b) ! br_aid (Unsubscribe p b))"
  proof (cases "index_from 0 p (subs_of b)")
    case None
    then have "p \<notin> set (subs_of b)" by (rule index_from_None [THEN iffD1])
    with None show ?thesis using assms by (simp add: Unsubscribe_def remove1_idem)
  next
    case (Some i)
    from index_from_Some [OF Some] assms have i: "i < br_len b"
      and r: "remove1 p (subs_of b) = take i (subs_of b) @ drop (Suc i) (subs_of b)"
      by (simp_all add: length_subs_of)
    have "br_len b - 1 \<le> length (br_arrays b ! br_aid b)" using assms by linarith
    then show ?thesis using i r assms Some
      by (simp add: Unsubscribe_def close_sub_def subs_of_def take_shift_down take_shift_down [simplified])
  qed
  then show "subs_of (Unsubscribe p b) = remove1 p (subs_of b)"
    and "br_aid (Unsubscribe p b) < length (br_arrays (Unsubscribe p b))"
    and "br_len (Unsubscribe p b) \<le> length (br_arrays (Unsubscribe p b) ! br_aid (Unsubscribe p b))"
    by blast+
qed

lemma Unsubscribe_heap:
  "br_heap (Unsubscribe p b) =
     (if p \<in> set (subs_of b) then (br_heap b)(p := map_option (\<lambda>s. s\<lparr>sub_closed := True\<rparr>) (br_heap b p))
      else br_heap b)"
proof (cases "index_from 0 p (subs_of b)")
  case None
  then have "p \<notin> set (subs_of b)" by (rule index_from_None [THEN iffD1])
  with None show ?thesis by (simp add: Unsubscribe_def)
next
  case (Some i)
  then have "p \<in> set (subs_of b)" using index_from_None [of 0 p "subs_of b"] by simp
  with Some show ?thesis by (simp add: Unsubscribe_def close_sub_def)
qed

lemma Unsubscribe_frame [simp]:
  "br_next (Unsubscribe p b) = br_next b" "br_subscribedKeys (Unsubscribe p b) = br_subscribedKeys b"
  "br_conn (Unsubscribe p b) = br_conn b" "br_writes (Unsubscribe p b) = br_writes b"
  "br_pendingCandle (Unsubscribe p b) = br_pendingCandle b" "br_pendingTS (Unsubscribe p b) = br_pendingTS b"
  "br_lastSentTS (Unsubscribe p b) = br_lastSentTS b"
  by (simp_all add: Unsubscribe_def close_sub_def split: option.splits)

lemma append_sub_frame [simp]:
  "br_heap (append_sub grow p b) = br_heap b" "br_next (append_sub grow p b) = br_next b"
  "br_subscribedKeys (append_sub grow p b) = br_subscribedKeys b" "br_conn (append_sub grow p b) = br_conn b"
  "br_writes (append_sub grow p b) = br_writes b"
  by (simp_all add: append_sub_def Let_def)

lemma inv_Unsubscribe:
  assumes "broker_inv b"
  shows "broker_inv (Unsubscribe p b)"
proof -
  note D = broker_invD [OF assms]
  note S = subs_Unsubscribe [OF D(1,2), of p]
  have set: "set (subs_of (Unsubscribe p b)) = set (subs_of b) - {p}" using S(1) D(3) by simp
  have "length (sub_buf s) \<le> defaultFrameBuffer \<and> (sub_closed s \<longleftrightarrow> q \<notin> set (subs_of (Unsubscribe p b))) \<and>
      0 < q \<and> q < br_next b"
    if "br_heap (Unsubscribe p b) q = Some s" for q s
  proof -
    from that obtain s0 where "br_heap b q = Some s0" "sub_buf s = sub_buf s0"
      "sub_closed s \<longleftrightarrow> (q = p \<and> p \<in> set (subs_of b)) \<or> sub_closed s0"
      by (auto simp: Unsubscribe_heap split: if_splits)
    then show ?thesis using D(6) [of q s0] set by auto
  qed
  moreover have "set (subs_of (Unsubscribe p b)) \<subseteq> dom (br_heap (Unsubscribe p b))"
    using D(5) set by (auto simp: Unsubscribe_heap)
  ultimately show ?thesis
    using D(3,4,9) S by (auto simp: broker_inv_def ran_def distinct_remove1)
qed

section \<open>Subscribing keeps the invariant\<close>

lemma inv_add_sub:
  fixes b :: Broker and s :: Subscription and grow :: "nat \<Rightarrow> nat"
  assumes "broker_inv b" "sub_buf s = []" "\<not> sub_closed s"
  defines "b' \<equiv> append_sub grow (fst (new_sub s b)) (snd (new_sub s b))"
  shows "broker_inv b'" "subs_of b' = subs_of b @ [br_next b]"
    "br_heap b' = (br_heap b)(br_next b \<mapsto> s)"
proof -
  note D = broker_invD [OF assms(1)]
  let ?b1 = "snd (new_sub s b)"
  have b1: "br_aid ?b1 < length (br_arrays ?b1)" "br_len ?b1 \<le> length (br_arrays ?b1 ! br_aid ?b1)"
    using D(1,2) by (simp_all add: new_sub_def)
  note S = subs_append [OF b1, of grow "br_next b"]
  have eq: "b' = append_sub grow (br_next b) ?b1" by (simp add: b'_def new_sub_def)
  show subs: "subs_of b' = subs_of b @ [br_next b]"
    using S(1) eq by (simp add: subs_of_def new_sub_def)
  show heap: "br_heap b' = (br_heap b)(br_next b \<mapsto> s)" using eq by (simp add: new_sub_def)
  have rest: "br_next b' = Suc (br_next b)" "br_subscribedKeys b' = br_subscribedKeys b"
    using eq by (simp_all add: new_sub_def)
  have "0 < q \<and> q < Suc (br_next b) \<and> length (sub_buf t) \<le> defaultFrameBuffer \<and>
      (sub_closed t \<longleftrightarrow> q \<notin> set (subs_of b'))" if "br_heap b' q = Some t" for q t
    using that D(6) [of q t] D(9) assms(2,3) by (auto simp: heap subs split: if_splits)
  moreover have "set (subs_of b') \<subseteq> dom (br_heap b')" using D(5) by (auto simp: heap subs)
  ultimately show "broker_inv b'"
    unfolding broker_inv_def using S(2,3) D(3,4,8) eq subs rest by (auto simp: ran_def)
qed

lemma add_key_simps [simp]:
  "br_heap (add_key k b) = br_heap b" "subs_of (add_key k b) = subs_of b" "br_next (add_key k b) = br_next b"
  "br_conn (add_key k b) = br_conn b" "br_writes (add_key k b) = br_writes b"
  "br_subscribedKeys (add_key k b) = br_subscribedKeys b @ [k]"
  by (simp_all add: add_key_def subs_of_def)

lemma write_req_simps [simp]:
  "br_heap (write_req r b) = br_heap b" "subs_of (write_req r b) = subs_of b" "br_next (write_req r b) = br_next b"
  "br_conn (write_req r b) = br_conn b" "br_subscribedKeys (write_req r b) = br_subscribedKeys b"
  "br_arrays (write_req r b) = br_arrays b" "br_aid (write_req r b) = br_aid b" "br_len (write_req r b) = br_len b"
  by (simp_all add: write_req_def subs_of_def split: option.splits)

lemma inv_add_key: "broker_inv b \<Longrightarrow> k \<notin> set (br_subscribedKeys b) \<Longrightarrow> broker_inv (add_key k b)"
  unfolding broker_inv_def by (simp add: add_key_def subs_of_def)

lemma inv_write_req: "broker_inv b \<Longrightarrow> broker_inv (write_req r b)"
  unfolding broker_inv_def by simp

text \<open>What every kind of subscription has in common: a fresh pointer, registered last, whose channel
  is open and empty.\<close>

definition subscribed :: "Subscription \<Rightarrow> Broker \<Rightarrow> nat \<times> Broker \<Rightarrow> bool" where
  "subscribed s b r \<longleftrightarrow> fst r = br_next b \<and> broker_inv (snd r) \<and> subs_of (snd r) = subs_of b @ [br_next b] \<and>
     br_heap (snd r) = (br_heap b)(br_next b \<mapsto> s) \<and> br_next (snd r) = Suc (br_next b)"

lemma Subscribe_subscribed:
  assumes "broker_inv b"
  shows "subscribed \<lparr>sub_OrderBookID = ob, sub_Resolution = res, sub_AssetID = '''', sub_TypeFilter = chs,
      sub_Channels = chs, sub_buf = [], sub_closed = False\<rparr> b (Subscribe grow ob res chs b)"
  using inv_add_sub [OF assms, of "\<lparr>sub_OrderBookID = ob, sub_Resolution = res, sub_AssetID = '''', sub_TypeFilter = chs,
      sub_Channels = chs, sub_buf = [], sub_closed = False\<rparr>" grow]
  by (auto simp: subscribed_def Subscribe_def Let_def new_sub_def intro!: inv_write_req inv_add_key)

lemma SubscribeTrades_subscribed:
  assumes "broker_inv b"
  shows "subscribed \<lparr>sub_OrderBookID = ob, sub_Resolution = '''', sub_AssetID = '''', sub_TypeFilter = [''trade''],
      sub_Channels = [], sub_buf = [], sub_closed = False\<rparr> b (SubscribeTrades grow ob b)"
  using inv_add_sub [OF assms, of "\<lparr>sub_OrderBookID = ob, sub_Resolution = '''', sub_AssetID = '''',
      sub_TypeFilter = [''trade''], sub_Channels = [], sub_buf = [], sub_closed = False\<rparr>" grow]
  by (auto simp: subscribed_def SubscribeTrades_def registerSub_def Let_def new_sub_def
      intro!: inv_write_req inv_add_key)

lemma SubscribePrices_subscribed:
  assumes "broker_inv b"
  shows "subscribed \<lparr>sub_OrderBookID = '''', sub_Resolution = '''', sub_AssetID = asset, sub_TypeFilter = [''price''],
      sub_Channels = [], sub_buf = [], sub_closed = False\<rparr> b (SubscribePrices grow asset b)"
  using inv_add_sub [OF assms, of "\<lparr>sub_OrderBookID = '''', sub_Resolution = '''', sub_AssetID = asset,
      sub_TypeFilter = [''price''], sub_Channels = [], sub_buf = [], sub_closed = False\<rparr>" grow]
  by (auto simp: subscribed_def SubscribePrices_def registerSub_def Let_def new_sub_def
      intro!: inv_write_req inv_add_key)

section \<open>An undisturbed dispatch\<close>

text \<open>The specification: every matching subscriber with room in its buffer gets the frame at the end,
  nothing else changes.\<close>

definition deliver :: "Frame \<Rightarrow> Subscription \<Rightarrow> Subscription" where
  "deliver f s = (if matches s f \<and> length (sub_buf s) < defaultFrameBuffer
     then s\<lparr>sub_buf := sub_buf s @ [f]\<rparr> else s)"

definition fan_out :: "Frame \<Rightarrow> Broker \<Rightarrow> Broker" where
  "fan_out f b = b\<lparr>br_heap := (\<lambda>p. if p \<in> set (subs_of b) then map_option (deliver f) (br_heap b p) else br_heap b p)\<rparr>"

lemma matches_buf: "matches (s\<lparr>sub_buf := fs\<rparr>) f = matches s f"
  by (cases s) (simp only: matches_def typeAllowed_def book_differs_def Subscription.select_convs
      Subscription.update_convs)

lemma deliver_simps [simp]:
  "sub_closed (deliver f s) = sub_closed s" "matches (deliver f s) g = matches s g"
  by (simp_all add: deliver_def matches_buf)

lemma fan_out_simps [simp]:
  "subs_of (fan_out f b) = subs_of b" "br_arrays (fan_out f b) = br_arrays b" "br_len (fan_out f b) = br_len b"
  "br_aid (fan_out f b) = br_aid b" "br_next (fan_out f b) = br_next b"
  "br_subscribedKeys (fan_out f b) = br_subscribedKeys b" "br_conn (fan_out f b) = br_conn b" "br_pendingCandle (fan_out f b) = br_pendingCandle b"
  "br_pendingTS (fan_out f b) = br_pendingTS b" "br_lastSentTS (fan_out f b) = br_lastSentTS b"
  by (simp_all add: fan_out_def subs_of_def)

lemma send_frame_open:
  assumes "br_heap b p = Some s" "\<not> sub_closed s"
  shows "send_frame p f b = Inr (b\<lparr>br_heap := (br_heap b)(p \<mapsto> deliver f s)\<rparr>)"
proof -
  have "b\<lparr>br_heap := (br_heap b)(p \<mapsto> s)\<rparr> = b" using assms(1) by (simp add: fun_upd_idem)
  then show ?thesis using assms by (simp add: send_frame_def deliver_def)
qed

lemma dispatch_loop_quiet:
  assumes "i + k \<le> length (br_arrays b ! a)" "distinct (take k (drop i (br_arrays b ! a)))"
    and "\<And>p. p \<in> set (take k (drop i (br_arrays b ! a))) \<Longrightarrow> \<exists>s. br_heap b p = Some s \<and> \<not> sub_closed s"
  shows "dispatch_loop quiet f a i k b = Inr (b\<lparr>br_heap :=
    (\<lambda>p. if p \<in> set (take k (drop i (br_arrays b ! a))) then map_option (deliver f) (br_heap b p) else br_heap b p)\<rparr>)"
  using assms
proof (induction k arbitrary: i b)
  case (Suc k)
  let ?arr = "br_arrays b ! a"
  have split: "take (Suc k) (drop i ?arr) = ?arr ! i # take k (drop (Suc i) ?arr)"
    using Suc.prems(1) by (simp add: Cons_nth_drop_Suc [symmetric])
  obtain s where s: "br_heap b (?arr ! i) = Some s" "\<not> sub_closed s"
    using Suc.prems(3) [of "?arr ! i"] by (auto simp: split)
  define b1 where "b1 = b\<lparr>br_heap := (br_heap b)(?arr ! i \<mapsto> deliver f s)\<rparr>"
  have step: "send_frame (?arr ! i) f b = Inr b1" using send_frame_open [OF s] by (simp add: b1_def)
  have arr: "br_arrays b1 = br_arrays b" by (simp add: b1_def)
  have new: "?arr ! i \<notin> set (take k (drop (Suc i) ?arr))" using Suc.prems(2) by (simp add: split)
  have "dispatch_loop quiet f a (Suc i) k b1 = Inr (b1\<lparr>br_heap :=
      (\<lambda>p. if p \<in> set (take k (drop (Suc i) ?arr)) then map_option (deliver f) (br_heap b1 p) else br_heap b1 p)\<rparr>)"
    using Suc.IH [of "Suc i" b1] Suc.prems new by (force simp: split arr b1_def)
  then show ?case using s new by (simp add: step split) (auto simp: b1_def fun_eq_iff)
qed simp

lemma dispatch_quiet:
  assumes "broker_inv b"
  shows "dispatch quiet f b = Inr (fan_out f b)"
  using dispatch_loop_quiet [of 0 "br_len b" b "br_aid b" f] broker_invD(1-5) [OF assms]
  by (simp add: dispatch_def fan_out_def subs_of_def)

lemma inv_fan_out:
  assumes "broker_inv b"
  shows "broker_inv (fan_out f b)"
proof -
  note D = broker_invD [OF assms]
  have "0 < p \<and> p < br_next b \<and> length (sub_buf s) \<le> defaultFrameBuffer \<and> (sub_closed s \<longleftrightarrow> p \<notin> set (subs_of b))"
    if h: "br_heap (fan_out f b) p = Some s" for p s
  proof -
    from h obtain t where "br_heap b p = Some t" "s = t \<or> s = deliver f t"
      by (auto simp: fan_out_def split: if_splits)
    moreover have "length (sub_buf (deliver f t)) \<le> defaultFrameBuffer"
      if "length (sub_buf t) \<le> defaultFrameBuffer" using that by (simp add: deliver_def)
    ultimately show ?thesis using D(6) [of p t] by auto
  qed
  moreover have "br_heap (fan_out f b) p \<noteq> None" if "p \<in> set (subs_of b)" for p
    using D(5) [OF that] by (auto simp: fan_out_def)
  ultimately show ?thesis using D(1-4,9) by (intro broker_invI) simp_all
qed

end
