(* ===== verification/Ws_Broker_Correct.thy ===== *)
theory Ws_Broker_Correct
  imports Ws_Broker_Props
begin

text \<open>
  What the subscribers of the market-data broker can rely on: which candles reach a subscriber and in
  which order, how a reconnect restores the requests, that the slice of subscribers behaves as a
  list, and what happens when a subscriber leaves in the middle of a dispatch.
\<close>

section \<open>The candle machine of one order book and resolution\<close>

text \<open>What the broker remembers of one key: the candle in progress, its start, and the start of the
  candle sent last.\<close>

definition candle_view :: "Broker \<Rightarrow> string \<Rightarrow> RawMessage option \<times> string \<times> string" where
  "candle_view b k = (br_pendingCandle b k, map_str (br_pendingTS b) k, map_str (br_lastSentTS b) k)"

definition ts_of :: "RawMessage \<Rightarrow> string" where
  "ts_of c = (case rm_start c of None \<Rightarrow> '''' | Some t \<Rightarrow> t)"

fun candle_step :: "RawMessage \<times> string \<times> RawMessage option \<Rightarrow> RawMessage option \<times> string \<times> string \<Rightarrow>
    (RawMessage option \<times> string \<times> string) \<times> (RawMessage \<times> string) option" where
  "candle_step (new, ts, Some boot) (cached, cachedTS, last_sent) =
     (if ts_of boot \<noteq> '''' \<and> last_sent = ts_of boot then ((Some new, ts, last_sent), None)
      else ((Some new, ts, ts_of boot), Some (boot, ts_of boot)))"
| "candle_step (new, ts, None) (None, cachedTS, last_sent) = ((Some new, ts, last_sent), None)"
| "candle_step (new, ts, None) (Some cached, cachedTS, last_sent) =
     (if cachedTS = ts then ((Some new, cachedTS, last_sent), None)
      else if cachedTS \<noteq> '''' \<and> last_sent = cachedTS then ((Some new, ts, last_sent), None)
      else ((Some new, ts, cachedTS), Some (cached, cachedTS)))"

fun candle_run :: "(RawMessage \<times> string \<times> RawMessage option) list \<Rightarrow> RawMessage option \<times> string \<times> string \<Rightarrow>
    (RawMessage \<times> string) list" where
  "candle_run [] v = []"
| "candle_run (u # us) v =
     (case snd (candle_step u v) of None \<Rightarrow> [] | Some x \<Rightarrow> [x]) @ candle_run us (fst (candle_step u v))"

lemma map_str_upd [simp]: "map_str (m(k \<mapsto> v)) k' = (if k' = k then v else map_str m k')"
  by (simp add: map_str_def)

lemma advanceCandle_step:
  fixes ob res
  defines "k \<equiv> candle_key ob res"
  shows "snd (advanceCandle ob res new ts boot b) = snd (candle_step (new, ts, boot) (candle_view b k))"
    and "candle_view (fst (advanceCandle ob res new ts boot b)) k' =
      (if k' = k then fst (candle_step (new, ts, boot) (candle_view b k)) else candle_view b k')"
    and "br_heap (fst (advanceCandle ob res new ts boot b)) = br_heap b"
    and "subs_of (fst (advanceCandle ob res new ts boot b)) = subs_of b"
  by (cases boot; cases "br_pendingCandle b k";
      auto simp: advanceCandle_def candle_view_def ts_of_def Let_def k_def [symmetric] subs_of_def)+

lemma inv_advanceCandle: "broker_inv b \<Longrightarrow> broker_inv (fst (advanceCandle ob res new ts boot b))"
  unfolding broker_inv_def
  by (simp add: advanceCandle_step) (simp add: advanceCandle_def Let_def split: option.splits)

section \<open>The order of the candles of one key\<close>

text \<open>What the exchange sends for one key, with \<open>tm\<close> the instant a timestamp denotes and \<open>S\<close> the starts
  seen so far: the candle in progress never goes back in time, and a snapshot carries the latest
  closed candle, so that no candle seen before lies between it and the one in progress.\<close>

fun feed_ok :: "(string \<Rightarrow> int) \<Rightarrow> string set \<Rightarrow> (RawMessage \<times> string \<times> RawMessage option) list \<Rightarrow> bool" where
  "feed_ok tm S [] \<longleftrightarrow> True"
| "feed_ok tm S ((new, ts, None) # us) \<longleftrightarrow> ts \<noteq> '''' \<and> (\<forall>x\<in>S. tm x \<le> tm ts) \<and> feed_ok tm (insert ts S) us"
| "feed_ok tm S ((new, ts, Some boot) # us) \<longleftrightarrow> ts \<noteq> '''' \<and> (\<forall>x\<in>S. tm x \<le> tm ts) \<and>
     ts_of boot \<noteq> '''' \<and> tm (ts_of boot) < tm ts \<and> (\<forall>x\<in>S. tm x < tm ts \<longrightarrow> tm x \<le> tm (ts_of boot)) \<and>
     feed_ok tm (insert ts (insert (ts_of boot) S)) us"

definition view_ok :: "(string \<Rightarrow> int) \<Rightarrow> string set \<Rightarrow> RawMessage option \<times> string \<times> string \<Rightarrow> bool" where
  "view_ok tm S v \<longleftrightarrow> (case v of (cached, cachedTS, last_sent) \<Rightarrow>
     (cached = None \<longleftrightarrow> S = {}) \<and>
     (S \<noteq> {} \<longrightarrow> cachedTS \<in> S \<and> cachedTS \<noteq> '''' \<and> (\<forall>x\<in>S. tm x \<le> tm cachedTS)) \<and>
     (last_sent \<noteq> '''' \<longrightarrow> last_sent \<in> S \<and> tm last_sent < tm cachedTS))"

lemma candle_step_ordered:
  assumes "inj tm" "view_ok tm S (cached, cachedTS, last_sent)" "feed_ok tm S ((new, ts, boot) # us)"
  shows "view_ok tm (case boot of None \<Rightarrow> insert ts S | Some c \<Rightarrow> insert ts (insert (ts_of c) S))
      (fst (candle_step (new, ts, boot) (cached, cachedTS, last_sent)))"
    and "snd (candle_step (new, ts, boot) (cached, cachedTS, last_sent)) = Some (c, t) \<Longrightarrow>
      t \<noteq> '''' \<and> (last_sent \<noteq> '''' \<longrightarrow> tm last_sent < tm t) \<and>
      snd (snd (fst (candle_step (new, ts, boot) (cached, cachedTS, last_sent)))) = t"
    and "snd (candle_step (new, ts, boot) (cached, cachedTS, last_sent)) = None \<Longrightarrow>
      snd (snd (fst (candle_step (new, ts, boot) (cached, cachedTS, last_sent)))) = last_sent"
proof -
  have inj: "tm x = tm y \<longleftrightarrow> x = y" for x y using assms(1) by (auto dest: injD)
  show "view_ok tm (case boot of None \<Rightarrow> insert ts S | Some c \<Rightarrow> insert ts (insert (ts_of c) S))
      (fst (candle_step (new, ts, boot) (cached, cachedTS, last_sent)))"
    using assms(2,3) by (cases boot; cases cached)
      (auto simp: view_ok_def inj order_less_le intro: order_trans)
  have before: "last_sent \<in> S \<and> tm last_sent < tm ts \<and> tm last_sent < tm cachedTS" if "last_sent \<noteq> ''''"
  proof -
    have "\<forall>x\<in>S. tm x \<le> tm ts" using assms(3) by (cases boot) simp_all
    moreover have "last_sent \<in> S" "tm last_sent < tm cachedTS" "cachedTS \<in> S"
      using assms(2) that by (auto simp: view_ok_def)
    ultimately show ?thesis by fastforce
  qed
  show "t \<noteq> '''' \<and> (last_sent \<noteq> '''' \<longrightarrow> tm last_sent < tm t) \<and>
      snd (snd (fst (candle_step (new, ts, boot) (cached, cachedTS, last_sent)))) = t"
    if "snd (candle_step (new, ts, boot) (cached, cachedTS, last_sent)) = Some (c, t)"
  proof (cases boot)
    case None
    then show ?thesis using assms(2,3) that before
      by (cases cached) (auto simp: view_ok_def split: if_splits)
  next
    case (Some c')
    then have "\<forall>x\<in>S. tm x < tm ts \<longrightarrow> tm x \<le> tm (ts_of c')" "t = ts_of c'" "last_sent \<noteq> t" "t \<noteq> ''''"
      using assms(3) that by (auto split: if_splits)
    then show ?thesis using Some that before inj [of last_sent t] by (auto simp: order_less_le split: if_splits)
  qed
  show "snd (snd (fst (candle_step (new, ts, boot) (cached, cachedTS, last_sent)))) = last_sent"
    if "snd (candle_step (new, ts, boot) (cached, cachedTS, last_sent)) = None"
    using that by (cases boot; cases cached) (auto split: if_splits)
qed

lemma candle_run_ordered:
  assumes "inj tm" "view_ok tm S v" "feed_ok tm S us"
  shows "sorted_wrt (<) (map (tm \<circ> snd) (candle_run us v)) \<and>
    (snd (snd v) \<noteq> '''' \<longrightarrow> (\<forall>x\<in>set (candle_run us v). tm (snd (snd v)) < tm (snd x)))"
  using assms(2,3)
proof (induction us arbitrary: S v)
  case (Cons u us)
  obtain new ts boot where u: "u = (new, ts, boot)" by (cases u) auto
  obtain cached cachedTS last_sent where v: "v = (cached, cachedTS, last_sent)" by (cases v) auto
  let ?S = "case boot of None \<Rightarrow> insert ts S | Some c \<Rightarrow> insert ts (insert (ts_of c) S)"
  obtain v' e where step: "candle_step (new, ts, boot) (cached, cachedTS, last_sent) = (v', e)"
    by (metis surj_pair)
  note facts = candle_step_ordered [OF assms(1) Cons.prems [unfolded u v], unfolded step fst_conv snd_conv]
  have "feed_ok tm ?S us" using Cons.prems(2) by (cases boot) (simp_all add: u)
  with facts(1) have IH: "sorted_wrt (<) (map (tm \<circ> snd) (candle_run us v'))"
      "snd (snd v') \<noteq> '''' \<Longrightarrow> x \<in> set (candle_run us v') \<Longrightarrow> tm (snd (snd v')) < tm (snd x)" for x
    using Cons.IH [of ?S v'] by blast+
  show ?case
  proof (cases e)
    case None
    then show ?thesis using IH facts(3) by (simp add: u v step comp_def)
  next
    case (Some x)
    then have "snd x \<noteq> ''''" "last_sent \<noteq> '''' \<Longrightarrow> tm last_sent < tm (snd x)" "snd (snd v') = snd x"
      using facts(2) [of "fst x" "snd x"] by auto
    moreover from this have "tm (snd x) < tm (snd y)" if "y \<in> set (candle_run us v')" for y
      using IH(2) [of y] that by simp
    moreover have "tm last_sent < tm (snd y)" if "y \<in> set (candle_run us v')" "last_sent \<noteq> ''''" for y
      using calculation that by (meson less_trans)
    ultimately show ?thesis using Some IH(1) by (auto simp: u v step comp_def)
  qed
qed simp

text \<open>The candles that close, as a reference: of the updates in progress, the last one of every start
  that is followed by another start.\<close>

fun closed_of :: "(RawMessage \<times> string) list \<Rightarrow> (RawMessage \<times> string) list" where
  "closed_of (x # y # us) = (if snd x \<noteq> snd y then [x] else []) @ closed_of (y # us)"
| "closed_of us = []"

lemma candle_run_closed:
  assumes "inj tm" "view_ok tm S (Some c, ts, last_sent)" "feed_ok tm S us"
    and "\<forall>u\<in>set us. snd (snd u) = None"
  shows "candle_run us (Some c, ts, last_sent) = closed_of ((c, ts) # map (\<lambda>u. (fst u, fst (snd u))) us)"
  using assms(2-)
proof (induction us arbitrary: S c ts last_sent)
  case (Cons u us)
  obtain new t where u: "u = (new, t, None)" using Cons.prems(3) by (cases u) auto
  note step = candle_step_ordered [OF assms(1) Cons.prems(1), of new t None us]
  have fresh: "\<not> (ts \<noteq> '''' \<and> last_sent = ts)" using Cons.prems(1) by (auto simp: view_ok_def)
  let ?v = "fst (candle_step u (Some c, ts, last_sent))"
  have "view_ok tm (insert t S) ?v" "feed_ok tm (insert t S) us"
    using step(1) Cons.prems(2) by (simp_all add: u)
  moreover obtain l where "?v = (Some new, t, l)" using fresh by (cases "ts = t") (auto simp: u)
  ultimately show ?case using Cons.IH [of "insert t S" new t l] Cons.prems(3) fresh by (auto simp: u)
qed simp

section \<open>From notifications to a subscriber\<close>

definition updates_for :: "string \<Rightarrow> string \<Rightarrow> notification list \<Rightarrow> (RawMessage \<times> string \<times> RawMessage option) list" where
  "updates_for ob res ns = concat (map (\<lambda>n. case n of
     CandleNote r es \<Rightarrow> (if r = res
       then List.map_filter (\<lambda>e. if fst e = ob then candle_parts (snd e) else None) es else [])
   | _ \<Rightarrow> []) ns)"

definition plain_id :: "string \<Rightarrow> bool" where
  "plain_id ob \<longleftrightarrow> CHR '':'' \<notin> set ob"

definition plain_note :: "notification \<Rightarrow> bool" where
  "plain_note n \<longleftrightarrow> (case n of CandleNote r es \<Rightarrow> list_all (\<lambda>e. plain_id (fst e)) es | _ \<Rightarrow> True)"

lemma candle_key_inj:
  assumes "plain_id ob" "plain_id ob'" "candle_key ob res = candle_key ob' res'"
  shows "ob = ob'" "res = res'"
proof -
  have "ob = ob' \<and> res = res'"
    using assms unfolding candle_key_def plain_id_def
  proof (induction ob arbitrary: ob')
    case Nil
    then show ?case by (cases ob') auto
  next
    case (Cons a ob)
    then show ?case by (cases ob') auto
  qed
  then show "ob = ob'" "res = res'" by simp_all
qed

text \<open>A subscription to the candles of one order book at one resolution.\<close>

definition candle_sub :: "string \<Rightarrow> string \<Rightarrow> Subscription \<Rightarrow> bool" where
  "candle_sub ob res s \<longleftrightarrow> sub_OrderBookID s = ob \<and> sub_Resolution s = res \<and> sub_TypeFilter s = [''candle''] \<and>
     ob \<noteq> '''' \<and> ob \<noteq> SubscribeAllOrderBooks \<and> res \<noteq> ''''"

lemma candle_sub_matches:
  "candle_sub ob res s \<Longrightarrow> matches s f \<longleftrightarrow> fr_Type f = ''candle'' \<and> fr_OrderBookID f = ob \<and> fr_Resolution f = res"
  unfolding candle_sub_def matches_def typeAllowed_def book_differs_def by auto

lemma candle_sub_deliver [simp]: "candle_sub ob res (deliver f s) = candle_sub ob res s"
  by (simp add: candle_sub_def deliver_def)

text \<open>How a broker moves on, as seen by such a subscription: the candles it is sent and the view of its
  key.\<close>

definition feeds :: "string \<Rightarrow> string \<Rightarrow> nat \<Rightarrow> (RawMessage \<times> string \<times> RawMessage option) list \<Rightarrow> Broker \<Rightarrow> Broker \<Rightarrow> bool" where
  "feeds ob res p us b b' \<longleftrightarrow> broker_inv b' \<and> p \<in> set (subs_of b') \<and>
     candle_view b' (candle_key ob res) = fold (\<lambda>u v. fst (candle_step u v)) us (candle_view b (candle_key ob res)) \<and>
     br_heap b' p = map_option (fold deliver
       (map (candle_frame ob res \<circ> fst) (candle_run us (candle_view b (candle_key ob res))))) (br_heap b p)"

lemma candle_run_append:
  "candle_run (us @ us') v = candle_run us v @ candle_run us' (fold (\<lambda>u v. fst (candle_step u v)) us v)"
  by (induction us arbitrary: v) simp_all

lemma feeds_trans: "feeds ob res p us b b' \<Longrightarrow> feeds ob res p us' b' b'' \<Longrightarrow> feeds ob res p (us @ us') b b''"
  by (auto simp: feeds_def candle_run_append option.map_comp comp_def)

lemma feeds_refl: "broker_inv b \<Longrightarrow> p \<in> set (subs_of b) \<Longrightarrow> feeds ob res p [] b b"
  by (simp add: feeds_def map_option_case split: option.splits)

lemma candle_view_fan_out [simp]: "candle_view (fan_out f b) k = candle_view b k"
  by (simp add: candle_view_def)

lemma feeds_fan_out:
  assumes "broker_inv b" "p \<in> set (subs_of b)" "br_heap b p = Some s" "\<not> matches s f"
  shows "feeds ob res p [] b (fan_out f b)"
proof -
  have "br_heap (fan_out f b) p = Some s" using assms by (simp add: fan_out_def deliver_def)
  then show ?thesis using assms inv_fan_out [OF assms(1), of f] by (simp add: feeds_def)
qed

lemma candle_entry_feeds:
  assumes inv: "broker_inv b" and p: "p \<in> set (subs_of b)" "br_heap b p = Some s" "candle_sub ob res s"
    and ids: "plain_id ob" "plain_id (fst e)"
  shows "\<exists>b'. candle_entry quiet r e b = Inr b' \<and>
    feeds ob res p (if r = res \<and> fst e = ob then (case candle_parts (snd e) of None \<Rightarrow> [] | Some u \<Rightarrow> [u]) else []) b b'"
proof (cases "candle_parts (snd e)")
  case None
  then show ?thesis using feeds_refl [OF inv p(1)] by (simp add: candle_entry_def)
next
  case (Some u)
  obtain new ts boot where u: "u = (new, ts, boot)" by (cases u) auto
  obtain b1 em where adv: "advanceCandle (fst e) r new ts boot b = (b1, em)" by (metis surj_pair)
  note A = advanceCandle_step [of "fst e" r new ts boot b, unfolded adv fst_conv snd_conv]
  have inv1: "broker_inv b1" using inv_advanceCandle [OF inv, of "fst e" r new ts boot] by (simp add: adv)
  let ?f = "\<lambda>c. candle_frame (fst e) r c"
  define b' where "b' = (case em of None \<Rightarrow> b1 | Some (c, t) \<Rightarrow> fan_out (?f c) b1)"
  have run: "candle_entry quiet r e b = Inr b'"
    by (auto simp: candle_entry_def Some u adv b'_def dispatch_quiet [OF inv1] split: option.splits)
  have inv': "broker_inv b'" "p \<in> set (subs_of b')" "candle_view b' k = candle_view b1 k" for k
    using inv1 p(1) A(4) inv_fan_out [OF inv1] by (auto simp: b'_def split: option.splits)
  have match: "matches s (?f c) \<longleftrightarrow> fst e = ob \<and> r = res" for c
    by (simp add: candle_sub_matches [OF p(3)] candle_frame_def)
  have heap': "br_heap b' p = Some (case em of None \<Rightarrow> s | Some (c, t) \<Rightarrow> deliver (?f c) s)"
    using A(3,4) p(1,2) by (auto simp: b'_def fan_out_def split: option.splits)
  show ?thesis
  proof (cases "r = res \<and> fst e = ob")
    case True
    then show ?thesis using run inv' A heap' p(2)
      by (auto simp: feeds_def Some u candle_frame_def split: option.splits)
  next
    case False
    then have "candle_key ob res \<noteq> candle_key (fst e) r" using candle_key_inj ids by metis
    moreover have "br_heap b' p = Some s" using heap' match False
      by (auto simp: deliver_def split: option.splits)
    ultimately show ?thesis using run inv' A(2) False p(2) by (auto simp: feeds_def)
  qed
qed

lemma feeds_sub:
  assumes "feeds ob res p us b b'" "br_heap b p = Some s" "candle_sub ob res s"
  shows "\<exists>s'. br_heap b' p = Some s' \<and> candle_sub ob res s'"
proof -
  have "candle_sub ob res (fold deliver fs s) = candle_sub ob res s" for fs
    by (induction fs arbitrary: s) simp_all
  then show ?thesis using assms by (auto simp: feeds_def)
qed

text \<open>A sequence of steps each of which feeds the subscription feeds it the concatenation.\<close>

lemma candle_note_feeds:
  assumes "broker_inv b" "p \<in> set (subs_of b)" "br_heap b p = Some s" "candle_sub ob res s"
    and "plain_id ob" "list_all (\<lambda>e. plain_id (fst e)) es"
  shows "\<exists>b'. handleCandleNotification quiet r es b = Inr b' \<and>
    feeds ob res p (if r = res then List.map_filter (\<lambda>e. if fst e = ob then candle_parts (snd e) else None) es
      else []) b b'"
  using assms(1-4,6)
proof (induction es arbitrary: b s)
  case Nil
  then show ?case using feeds_refl [of b p ob res] by (simp add: map_filter_simps)
next
  case (Cons e es)
  let ?u = "if r = res \<and> fst e = ob then (case candle_parts (snd e) of None \<Rightarrow> [] | Some u \<Rightarrow> [u]) else []"
  obtain b1 where b1: "candle_entry quiet r e b = Inr b1" "feeds ob res p ?u b b1"
    using candle_entry_feeds [OF Cons.prems(1-4) assms(5), of e r] Cons.prems(5) by auto
  obtain s1 where s1: "br_heap b1 p = Some s1" "candle_sub ob res s1"
    using feeds_sub [OF b1(2) Cons.prems(3,4)] by blast
  have "broker_inv b1" "p \<in> set (subs_of b1)" using b1(2) by (simp_all add: feeds_def)
  from Cons.IH [OF this s1] Cons.prems(5) obtain b2
    where "handleCandleNotification quiet r es b1 = Inr b2"
      and "feeds ob res p (if r = res then List.map_filter (\<lambda>e. if fst e = ob then candle_parts (snd e) else None) es
        else []) b1 b2" by auto
  with feeds_trans [OF b1(2) this(2)] b1(1) show ?case
    by (auto simp: map_filter_simps split: option.splits if_splits)
qed

lemma other_frame_feeds:
  assumes "broker_inv b" "p \<in> set (subs_of b)" "br_heap b p = Some s" "candle_sub ob res s"
    and "fr_Type f \<noteq> ''candle''"
  shows "dispatch quiet f b = Inr (fan_out f b)" "feeds ob res p [] b (fan_out f b)"
    "br_heap (fan_out f b) p = Some s"
  using assms dispatch_quiet [OF assms(1)] feeds_fan_out [OF assms(1-3), of f] candle_sub_matches [OF assms(4), of f]
  by (simp_all add: fan_out_def deliver_def)

lemma trade_note_feeds:
  assumes "broker_inv b" "p \<in> set (subs_of b)" "br_heap b p = Some s" "candle_sub ob res s"
  shows "\<exists>b'. handleTradeNotification quiet ts b = Inr b' \<and> feeds ob res p [] b b'"
  using assms
proof (induction ts arbitrary: b)
  case Nil
  then show ?case using feeds_refl [of b p ob res] by simp
next
  case (Cons t ts)
  let ?f = "\<lparr>fr_Type = ''trade'', fr_OrderBookID = fst t, fr_Resolution = '''', fr_AssetID = '''', fr_Raw = snd t\<rparr>"
  have "fr_Type ?f \<noteq> ''candle''" by simp
  note F = other_frame_feeds [OF Cons.prems this]
  with Cons.IH [of "fan_out ?f b"] Cons.prems inv_fan_out [OF Cons.prems(1), of ?f]
  obtain b' where "handleTradeNotification quiet ts (fan_out ?f b) = Inr b'" "feeds ob res p [] (fan_out ?f b) b'"
    by auto
  with F(1) feeds_trans [OF F(2) this(2)] show ?case by (cases t) simp
qed

lemma price_note_feeds:
  assumes "broker_inv b" "p \<in> set (subs_of b)" "br_heap b p = Some s" "candle_sub ob res s"
  shows "\<exists>b'. handlePriceNotification quiet ts b = Inr b' \<and> feeds ob res p [] b b'"
  using assms
proof (induction ts arbitrary: b)
  case Nil
  then show ?case using feeds_refl [of b p ob res] by simp
next
  case (Cons t ts)
  let ?f = "\<lparr>fr_Type = ''price'', fr_OrderBookID = '''', fr_Resolution = '''', fr_AssetID = fst t, fr_Raw = snd t\<rparr>"
  have "fr_Type ?f \<noteq> ''candle''" by simp
  note F = other_frame_feeds [OF Cons.prems this]
  with Cons.IH [of "fan_out ?f b"] Cons.prems inv_fan_out [OF Cons.prems(1), of ?f]
  obtain b' where "handlePriceNotification quiet ts (fan_out ?f b) = Inr b'" "feeds ob res p [] (fan_out ?f b) b'"
    by auto
  with F(1) feeds_trans [OF F(2) this(2)] show ?case by (cases t) simp
qed

lemma read_notes_feeds:
  assumes "broker_inv b" "p \<in> set (subs_of b)" "br_heap b p = Some s" "candle_sub ob res s"
    and "plain_id ob" "list_all plain_note ns"
  shows "\<exists>b'. read_notes quiet ns b = Inr b' \<and> feeds ob res p (updates_for ob res ns) b b'"
  using assms(1-4,6)
proof (induction ns arbitrary: b s)
  case Nil
  then show ?case using feeds_refl [of b p ob res] by (simp add: updates_for_def)
next
  case (Cons n ns)
  have "\<exists>b'. handle_note quiet n b = Inr b' \<and> feeds ob res p (updates_for ob res [n]) b b'"
    using candle_note_feeds [OF Cons.prems(1-4) assms(5)] trade_note_feeds [OF Cons.prems(1-4)]
      price_note_feeds [OF Cons.prems(1-4)] feeds_refl [OF Cons.prems(1,2)] Cons.prems(5)
    by (cases n) (auto simp: handle_note_def updates_for_def plain_note_def)
  then obtain b1 where b1: "handle_note quiet n b = Inr b1" "feeds ob res p (updates_for ob res [n]) b b1" by blast
  obtain s1 where s1: "br_heap b1 p = Some s1" "candle_sub ob res s1"
    using feeds_sub [OF b1(2) Cons.prems(3,4)] by blast
  have "broker_inv b1" "p \<in> set (subs_of b1)" using b1(2) by (simp_all add: feeds_def)
  from Cons.IH [OF this s1] Cons.prems(5) obtain b2
    where "read_notes quiet ns b1 = Inr b2" "feeds ob res p (updates_for ob res ns) b1 b2" by auto
  with feeds_trans [OF b1(2) this(2)] b1(1) show ?case by (auto simp: updates_for_def)
qed

lemma fold_deliver_buf:
  assumes "list_all (matches s) fs" "length (sub_buf s) \<le> defaultFrameBuffer"
  shows "sub_buf (fold deliver fs s) = take defaultFrameBuffer (sub_buf s @ fs)"
  using assms
proof (induction fs arbitrary: s)
  case (Cons f fs)
  show ?case
  proof (cases "length (sub_buf s) < defaultFrameBuffer")
    case True
    then have "sub_buf (deliver f s) = sub_buf s @ [f]" using Cons.prems by (simp add: deliver_def)
    then show ?thesis using Cons.IH [of "deliver f s"] Cons.prems True by (simp add: list_all_iff)
  next
    case False
    then have "deliver f s = s" by (simp add: deliver_def)
    then show ?thesis using Cons.IH [of s] Cons.prems False by simp
  qed
qed simp

section \<open>Sequences of operations\<close>

datatype broker_op =
    OpSubscribe string string "string list"
  | OpTrades string
  | OpPrices string
  | OpUnsubscribe nat
  | OpNote notification
  | OpRecv nat
  | OpConnect nat
  | OpOnFrame nat
  | OpStop

definition broker_op :: "(nat \<Rightarrow> nat) \<Rightarrow> broker_op \<Rightarrow> Broker \<Rightarrow> Broker res" where
  "broker_op grow op b =
     (case op of
        OpSubscribe ob res chs \<Rightarrow> Inr (snd (Subscribe grow ob res chs b))
      | OpTrades ob \<Rightarrow> Inr (snd (SubscribeTrades grow ob b))
      | OpPrices asset \<Rightarrow> Inr (snd (SubscribePrices grow asset b))
      | OpUnsubscribe p \<Rightarrow> Inr (Unsubscribe p b)
      | OpNote n \<Rightarrow> handle_note quiet n b
      | OpRecv p \<Rightarrow> Inr (fst (recv_frame p b))
      | OpConnect c \<Rightarrow> Inr (connected c b)
      | OpOnFrame cb \<Rightarrow> Inr (OnFrame cb b)
      | OpStop \<Rightarrow> Inr (Broker_Stop b))"

fun broker_ops :: "(nat \<Rightarrow> nat) \<Rightarrow> broker_op list \<Rightarrow> Broker \<Rightarrow> Broker res" where
  "broker_ops grow [] b = Inr b"
| "broker_ops grow (op # ops) b = rbind (broker_op grow op b) (broker_ops grow ops)"

text \<open>The specification of the set of subscribers: a counter of handles and a list of the live ones.\<close>

fun spec_op :: "broker_op \<Rightarrow> nat \<times> nat list \<Rightarrow> nat \<times> nat list" where
  "spec_op (OpSubscribe ob res chs) (n, ps) = (Suc n, ps @ [n])"
| "spec_op (OpTrades ob) (n, ps) = (Suc n, ps @ [n])"
| "spec_op (OpPrices asset) (n, ps) = (Suc n, ps @ [n])"
| "spec_op (OpUnsubscribe p) (n, ps) = (n, remove1 p ps)"
| "spec_op _ (n, ps) = (n, ps)"

text \<open>The requests a sequence of operations has asked the exchange for.\<close>

fun op_request :: "broker_op \<Rightarrow> request option" where
  "op_request (OpSubscribe ob res chs) = (if ob = SubscribeAllOrderBooks then None else Some (ReqCandles ob res))"
| "op_request (OpTrades ob) = Some (ReqTrades ob)"
| "op_request (OpPrices asset) = Some (ReqPrices asset)"
| "op_request _ = None"

fun request_key :: "request \<Rightarrow> string" where
  "request_key (ReqCandles ob res) = candle_key ob res"
| "request_key (ReqTrades ob) = trades_key ob"
| "request_key (ReqPrices asset) = prices_key asset"

definition same_slots :: "Broker \<Rightarrow> Broker \<Rightarrow> bool" where
  "same_slots b b' \<longleftrightarrow> broker_inv b' \<and> br_next b' = br_next b \<and> subs_of b' = subs_of b \<and>
     br_subscribedKeys b' = br_subscribedKeys b"

lemma same_slots_trans: "same_slots b b' \<Longrightarrow> same_slots b' b'' \<Longrightarrow> same_slots b b''"
  by (simp add: same_slots_def)

lemma advanceCandle_slots: "broker_inv b \<Longrightarrow> same_slots b (fst (advanceCandle ob res new ts boot b))"
  using inv_advanceCandle [of b ob res new ts boot] advanceCandle_step(4) [of ob res new ts boot b]
  by (simp add: same_slots_def) (simp add: advanceCandle_def Let_def split: option.splits)

lemma dispatch_slots: "broker_inv b \<Longrightarrow> \<exists>b'. dispatch quiet f b = Inr b' \<and> same_slots b b'"
  using dispatch_quiet [of b f] inv_fan_out [of b f] by (auto simp: same_slots_def)

lemma candle_entry_slots: "broker_inv b \<Longrightarrow> \<exists>b'. candle_entry quiet r e b = Inr b' \<and> same_slots b b'"
proof (cases "candle_parts (snd e)")
  case (Some u)
  assume inv: "broker_inv b"
  obtain new ts boot where u: "u = (new, ts, boot)" by (cases u) auto
  obtain b1 em where adv: "advanceCandle (fst e) r new ts boot b = (b1, em)" by (metis surj_pair)
  have b1: "same_slots b b1" using advanceCandle_slots [OF inv, of "fst e" r new ts boot] by (simp add: adv)
  then have "broker_inv b1" by (simp add: same_slots_def)
  note D = dispatch_slots [OF this]
  show ?thesis
  proof (cases em)
    case None
    then show ?thesis using b1 by (simp add: candle_entry_def Some u adv)
  next
    case (Some x)
    obtain b2 where "dispatch quiet (candle_frame (fst e) r (fst x)) b1 = Inr b2" "same_slots b1 b2" using D by blast
    then show ?thesis using same_slots_trans [OF b1] Some \<open>candle_parts (snd e) = Some u\<close>
      by (cases x) (simp add: candle_entry_def u adv)
  qed
qed (simp add: candle_entry_def same_slots_def)

lemma rbind_slots:
  assumes "\<exists>b1. m = Inr b1 \<and> same_slots b b1"
    and "\<And>b1. broker_inv b1 \<Longrightarrow> \<exists>b2. k b1 = Inr b2 \<and> same_slots b1 b2"
  shows "\<exists>b2. rbind m k = Inr b2 \<and> same_slots b b2"
proof -
  from assms(1) obtain b1 where b1: "m = Inr b1" "same_slots b b1" by blast
  then have "broker_inv b1" by (simp add: same_slots_def)
  then obtain b2 where "k b1 = Inr b2" "same_slots b1 b2" using assms(2) by blast
  then show ?thesis using b1 same_slots_trans by auto
qed

lemma handle_note_slots:
  assumes "broker_inv b"
  shows "\<exists>b'. handle_note quiet n b = Inr b' \<and> same_slots b b'"
proof -
  have refl: "same_slots b b" if "broker_inv b" for b using that by (simp add: same_slots_def)
  have "\<exists>b'. handleCandleNotification quiet r es b = Inr b' \<and> same_slots b b'" if "broker_inv b" for r es b
    using that
  proof (induction es arbitrary: b)
    case (Cons e es)
    then show ?case by (simp add: rbind_slots [OF candle_entry_slots [OF Cons.prems]])
  qed (simp add: refl)
  moreover have "\<exists>b'. handleTradeNotification quiet ts b = Inr b' \<and> same_slots b b'" if "broker_inv b" for ts b
    using that
  proof (induction ts arbitrary: b)
    case (Cons t ts)
    then show ?case by (cases t) (simp add: rbind_slots [OF dispatch_slots [OF Cons.prems]])
  qed (simp add: refl)
  moreover have "\<exists>b'. handlePriceNotification quiet ts b = Inr b' \<and> same_slots b b'" if "broker_inv b" for ts b
    using that
  proof (induction ts arbitrary: b)
    case (Cons t ts)
    then show ?case by (cases t) (simp add: rbind_slots [OF dispatch_slots [OF Cons.prems]])
  qed (simp add: refl)
  ultimately show ?thesis using assms refl [OF assms] by (cases n) (simp_all add: handle_note_def)
qed

lemma recv_slots:
  assumes "broker_inv b"
  shows "same_slots b (fst (recv_frame p b))"
proof (cases "br_heap b p")
  case (Some s)
  then show ?thesis
  proof (cases "sub_buf s")
    case (Cons f fs)
    let ?b = "b\<lparr>br_heap := (br_heap b)(p \<mapsto> s\<lparr>sub_buf := fs\<rparr>)\<rparr>"
    note D = broker_invD [OF assms]
    have subs: "subs_of ?b = subs_of b" by (simp add: subs_of_def)
    have "broker_inv ?b"
    proof (rule broker_invI)
      show "br_heap ?b q \<noteq> None" if "q \<in> set (subs_of ?b)" for q using that D(5) by (auto simp: subs)
      show "0 < q \<and> q < br_next ?b \<and> length (sub_buf t) \<le> defaultFrameBuffer \<and> (sub_closed t \<longleftrightarrow> q \<notin> set (subs_of ?b))"
        if "br_heap ?b q = Some t" for q t
        using that D(6) [of q] D(6) [OF Some] Cons by (auto simp: subs split: if_splits)
    qed (use D subs in simp_all)
    then show ?thesis using Some Cons subs by (simp add: recv_frame_def same_slots_def)
  qed (use assms Some in \<open>simp add: recv_frame_def same_slots_def\<close>)
qed (use assms in \<open>simp add: recv_frame_def same_slots_def\<close>)

lemma connected_slots: "broker_inv b \<Longrightarrow> same_slots b (connected c b)"
  by (simp add: same_slots_def broker_inv_def connected_def Let_def subs_of_def)

lemma subscribe_keys:
  "set (br_subscribedKeys (snd (Subscribe grow ob res chs b))) = set (br_subscribedKeys b) \<union>
     request_key ` set_option (op_request (OpSubscribe ob res chs))"
  "set (br_subscribedKeys (snd (SubscribeTrades grow ob b))) = insert (trades_key ob) (set (br_subscribedKeys b))"
  "set (br_subscribedKeys (snd (SubscribePrices grow asset b))) = insert (prices_key asset) (set (br_subscribedKeys b))"
  by (auto simp: Subscribe_def SubscribeTrades_def SubscribePrices_def registerSub_def new_sub_def Let_def)

lemma broker_op_refines:
  assumes "broker_inv b"
  shows "\<exists>b'. broker_op grow op b = Inr b' \<and> broker_inv b' \<and>
    (br_next b', subs_of b') = spec_op op (br_next b, subs_of b) \<and>
    set (br_subscribedKeys b') = set (br_subscribedKeys b) \<union> request_key ` set_option (op_request op)"
proof (cases op)
  case (OpSubscribe ob res chs)
  then show ?thesis using Subscribe_subscribed [OF assms, of ob res chs grow] subscribe_keys(1) [of grow ob res chs b]
    by (simp add: broker_op_def subscribed_def)
next
  case (OpTrades ob)
  then show ?thesis using SubscribeTrades_subscribed [OF assms, of ob grow]
    by (simp add: broker_op_def subscribed_def subscribe_keys)
next
  case (OpPrices asset)
  then show ?thesis using SubscribePrices_subscribed [OF assms, of asset grow]
    by (simp add: broker_op_def subscribed_def subscribe_keys)
next
  case (OpUnsubscribe p)
  then show ?thesis using inv_Unsubscribe [OF assms, of p] subs_Unsubscribe(1) [OF broker_invD(1,2) [OF assms], of p]
    by (simp add: broker_op_def)
next
  case (OpNote n)
  then show ?thesis using handle_note_slots [OF assms, of n] by (auto simp: broker_op_def same_slots_def)
next
  case (OpRecv p)
  then show ?thesis using recv_slots [OF assms, of p] by (simp add: broker_op_def same_slots_def)
next
  case (OpConnect c)
  then show ?thesis using connected_slots [OF assms, of c] by (simp add: broker_op_def same_slots_def)
next
  case (OpOnFrame cb)
  then show ?thesis using assms by (simp add: broker_op_def OnFrame_def broker_inv_def subs_of_def)
next
  case OpStop
  then show ?thesis using assms by (simp add: broker_op_def Broker_Stop_def broker_inv_def subs_of_def)
qed

lemma broker_ops_refine:
  assumes "broker_inv b"
  shows "\<exists>b'. broker_ops grow ops b = Inr b' \<and> broker_inv b' \<and>
    (br_next b', subs_of b') = fold spec_op ops (br_next b, subs_of b) \<and>
    set (br_subscribedKeys b') = set (br_subscribedKeys b) \<union> request_key ` set (List.map_filter op_request ops)"
  using assms
proof (induction ops arbitrary: b)
  case (Cons op ops)
  from broker_op_refines [OF Cons.prems, of grow op] obtain b1 where b1: "broker_op grow op b = Inr b1"
    "broker_inv b1" "(br_next b1, subs_of b1) = spec_op op (br_next b, subs_of b)"
    "set (br_subscribedKeys b1) = set (br_subscribedKeys b) \<union> request_key ` set_option (op_request op)" by blast
  from Cons.IH [OF b1(2)] obtain b2 where "broker_ops grow ops b1 = Inr b2" "broker_inv b2"
    "(br_next b2, subs_of b2) = fold spec_op ops (spec_op op (br_next b, subs_of b))"
    "set (br_subscribedKeys b2) = set (br_subscribedKeys b1) \<union> request_key ` set (List.map_filter op_request ops)"
    unfolding b1(3) by blast
  with b1 show ?case by (auto simp: map_filter_simps split: option.splits)
qed (simp add: map_filter_simps)

lemma Broker_New_ok:
  assumes "Broker_New url key = Inr b"
  shows "broker_inv b" "br_next b = 1" "subs_of b = []" "br_subscribedKeys b = []" "candle_view b k = (None, '''', '''')"
  using assms by (auto simp: Broker_New_def broker_inv_def subs_of_def candle_view_def map_str_def split: if_splits)

section \<open>Restoring the requests after a reconnect\<close>

lemma strip_prefix_append [simp]: "strip_prefix xs (xs @ ys) = Some ys"
  by (induction xs) simp_all

lemma split_colon_append: "plain_id ob \<Longrightarrow> split_colon (ob @ CHR '':'' # res) = Some (ob, res)"
  by (induction ob) (auto simp: plain_id_def)

lemma strip_prefix_Some: "strip_prefix xs ys = Some zs \<longleftrightarrow> ys = xs @ zs"
  by (induction xs ys rule: strip_prefix.induct) auto

text \<open>The identifiers for which the keys are unambiguous: no colon in an order book identifier, and no
  order book called like the prefix of another kind of key.\<close>

fun clear_request :: "request \<Rightarrow> bool" where
  "clear_request (ReqCandles ob res) \<longleftrightarrow> plain_id ob \<and> ob \<noteq> ''trades'' \<and> ob \<noteq> ''prices''"
| "clear_request _ \<longleftrightarrow> True"

lemma colon_split:
  assumes "plain_id a" "plain_id b" "a @ CHR '':'' # x = b @ CHR '':'' # y"
  shows "a = b"
  using candle_key_inj(1) [OF assms(1,2), of x y] assms(3) by (simp add: candle_key_def)

lemma strip_prefix_key:
  assumes "plain_id ob" "plain_id pre" "ob \<noteq> pre"
  shows "strip_prefix (pre @ '':'') (candle_key ob res) = None"
  using colon_split [OF assms(1,2), of res] assms(3)
  by (cases "strip_prefix (pre @ '':'') (candle_key ob res)") (auto simp: strip_prefix_Some candle_key_def)

lemma key_request_key: "clear_request r \<Longrightarrow> key_request (request_key r) = Some r"
proof (cases r)
  case (ReqCandles ob res)
  assume "clear_request r"
  with ReqCandles have ob: "plain_id ob" "ob \<noteq> ''trades''" "ob \<noteq> ''prices''" by simp_all
  have "plain_id ''trades''" "plain_id ''prices''" by (simp_all add: plain_id_def)
  from strip_prefix_key [OF ob(1) this(1) ob(2), of res] strip_prefix_key [OF ob(1) this(2) ob(3), of res]
  have "strip_prefix ''trades:'' (candle_key ob res) = None" "strip_prefix ''prices:'' (candle_key ob res) = None"
    by simp_all
  then show ?thesis using ReqCandles ob by (simp add: key_request_def candle_key_def split_colon_append)
next
  case (ReqTrades ob)
  then show ?thesis by (simp add: key_request_def trades_key_def)
next
  case (ReqPrices asset)
  then show ?thesis by (simp add: key_request_def prices_key_def)
qed

lemma map_filter_keys:
  assumes "distinct ks" "set ks = request_key ` R" "\<forall>r\<in>R. clear_request r"
  shows "distinct (List.map_filter key_request ks)" "set (List.map_filter key_request ks) = R"
proof -
  have val: "\<exists>r\<in>R. k = request_key r \<and> key_request k = Some r" if "k \<in> set ks" for k
    using that assms(2,3) key_request_key by auto
  show "set (List.map_filter key_request ks) = R"
    using val assms(2,3) key_request_key by (force simp: map_filter_def)
  have "inj_on key_request (set ks)" using val by (auto simp: inj_on_def) (metis option.inject)
  moreover have "filter (\<lambda>k. key_request k \<noteq> None) ks = ks" using val by (intro filter_True) auto
  ultimately have "distinct (map (the \<circ> key_request) ks)" using assms(1) val
    by (auto simp: distinct_map inj_on_def) (metis option.sel)
  then show "distinct (List.map_filter key_request ks)"
    using \<open>filter (\<lambda>k. key_request k \<noteq> None) ks = ks\<close> by (simp add: map_filter_def)
qed

section \<open>Dispatching while a subscriber leaves\<close>

lemma dispatch_loop_append:
  "dispatch_loop env f a i (k + m) b = rbind (dispatch_loop env f a i k b) (dispatch_loop env f a (i + k) m)"
proof (induction k arbitrary: i b)
  case (Suc k)
  show ?case
    by (cases "send_frame (br_arrays (env i b) ! a ! i) f (env i b)") (simp_all add: Let_def Suc.IH)
qed simp

lemma dispatch_loop_cong:
  "(\<And>j. i \<le> j \<Longrightarrow> j < i + k \<Longrightarrow> env j = env' j) \<Longrightarrow> dispatch_loop env f a i k b = dispatch_loop env' f a i k b"
proof (induction k arbitrary: i b)
  case (Suc k)
  have "env i = env' i" using Suc.prems [of i] by simp
  moreover have "dispatch_loop env f a (Suc i) k = dispatch_loop env' f a (Suc i) k"
    using Suc.prems by (intro ext Suc.IH) auto
  ultimately show ?case by simp
qed simp

lemma matches_closed: "matches (s\<lparr>sub_closed := c\<rparr>) f = matches s f"
  by (cases s) (simp only: matches_def typeAllowed_def book_differs_def Subscription.select_convs
      Subscription.update_convs)

lemma shift_down_last: "n = Suc i \<Longrightarrow> shift_down i n arr = arr"
  by (simp add: shift_down_def)

lemma index_from_last: "p \<notin> set ps \<Longrightarrow> index_from i p (ps @ [p]) = Some (i + length ps)"
  by (induction ps arbitrary: i) auto

lemma Unsubscribe_last:
  assumes "subs_of b = ps @ [p]" "p \<notin> set ps" "br_len b \<le> length (br_arrays b ! br_aid b)"
    "br_aid b < length (br_arrays b)"
  shows "br_arrays (Unsubscribe p b) = br_arrays b"
proof -
  have "br_len b = Suc (length ps)" using length_subs_of [OF assms(3)] assms(1) by simp
  then show ?thesis using assms(1,2,4) index_from_last [OF assms(2), of 0]
    by (simp add: Unsubscribe_def close_sub_def shift_down_last)
qed

lemma dispatch_env_once:
  assumes "\<And>i. i \<noteq> j \<Longrightarrow> env i = (\<lambda>b. b)"
  shows "dispatch_loop env f a 0 (j + Suc m) b =
    rbind (dispatch_loop quiet f a 0 j b) (\<lambda>b1. dispatch_loop quiet f a j (Suc m) (env j b1))"
proof -
  have "dispatch_loop env f a 0 j = dispatch_loop quiet f a 0 j"
    using assms by (intro ext dispatch_loop_cong) auto
  moreover have "dispatch_loop env f a (Suc j) m = dispatch_loop quiet f a (Suc j) m"
    using assms by (intro ext dispatch_loop_cong) auto
  ultimately show ?thesis unfolding dispatch_loop_append
    by (cases "dispatch_loop quiet f a 0 j b") (simp_all add: Let_def)
qed

text \<open>While the broker iterates over its snapshot of the subscribers, the last one of them leaves
  before its turn comes and the frame matches it: its channel is closed but still in the array, and
  the send panics.\<close>

theorem dispatch_unsubscribe_panics:
  assumes inv: "broker_inv b" and subs: "subs_of b = ps @ [p]" and j: "j \<le> length ps"
    and s: "br_heap b p = Some s" "matches s f"
  shows "dispatch (\<lambda>i. if i = j then Unsubscribe p else (\<lambda>b. b)) f b = Inl panic_closed"
proof -
  note D = broker_invD [OF inv]
  let ?a = "br_aid b" and ?env = "\<lambda>i. if i = j then Unsubscribe p else (\<lambda>b. b)"
  let ?arr = "br_arrays b ! ?a"
  obtain m where m: "length ps = j + m" using j le_iff_add by blast
  have n: "br_len b = j + Suc m" using length_subs_of [OF D(2)] subs m by simp
  have arr: "take (j + Suc m) ?arr = ps @ [p]" using subs n by (simp add: subs_of_def)
  have len: "j + Suc m \<le> length ?arr" using D(2) n by simp
  have p: "p \<notin> set ps" "distinct ps" using D(3) subs by simp_all
  have parts: "take j ?arr = take j ps" "take m (drop j ?arr) = drop j ps" "?arr ! (j + m) = p"
  proof -
    have "take j (take (j + Suc m) ?arr) = take j ps" using arr m by simp
    then show "take j ?arr = take j ps" by simp
    have "take m (drop j (take (j + Suc m) ?arr)) = drop j ps" using arr m by simp
    then show "take m (drop j ?arr) = drop j ps" by (simp add: take_drop min_def)
    have "take (j + Suc m) ?arr ! (j + m) = p" using arr m by (simp add: nth_append)
    then show "?arr ! (j + m) = p" by simp
  qed
  have open_subs: "\<exists>s. br_heap b q = Some s \<and> \<not> sub_closed s" if "q \<in> set ps" for q using D(5) subs that by simp
  define b1 where "b1 = b\<lparr>br_heap := (\<lambda>q. if q \<in> set (take j ps) then map_option (deliver f) (br_heap b q) else br_heap b q)\<rparr>"
  have first: "dispatch_loop quiet f ?a 0 j b = Inr b1"
    using dispatch_loop_quiet [of 0 j b ?a f] parts(1) len p(2) open_subs in_set_takeD [of _ j ps]
    by (simp add: b1_def)
  define b2 where "b2 = Unsubscribe p b1"
  have b1: "br_arrays b1 = br_arrays b" "br_aid b1 = ?a" "subs_of b1 = ps @ [p]" "br_len b1 = br_len b"
    "br_heap b1 p = Some s" using s(1) p(1) subs in_set_takeD [of p j ps] by (auto simp: b1_def subs_of_def)
  have b2: "br_arrays b2 = br_arrays b" "br_heap b2 p = Some (s\<lparr>sub_closed := True\<rparr>)"
    "q \<noteq> p \<Longrightarrow> br_heap b2 q = br_heap b1 q" for q
    using Unsubscribe_last [of b1 ps p] b1 p(1) D(1,2) by (simp_all add: b2_def Unsubscribe_heap)
  have open2: "\<exists>s. br_heap b2 q = Some s \<and> \<not> sub_closed s" if "q \<in> set (drop j ps)" for q
  proof -
    have q: "q \<in> set ps" "q \<noteq> p" using that p(1) in_set_dropD by fastforce+
    with open_subs [OF q(1)] b2(3) [OF q(2)] show ?thesis by (auto simp: b1_def)
  qed
  have "p \<notin> set (drop j ps)" using p(1) in_set_dropD by fastforce
  then have "dispatch_loop quiet f ?a j (m + 1) b2 = Inl panic_closed"
    unfolding dispatch_loop_append
    using dispatch_loop_quiet [of j m b2 ?a f] b2(1,2) parts len p(2) open2 s(2)
    by (simp add: send_frame_def matches_closed)
  then show ?thesis using dispatch_env_once [of j ?env f ?a m b] first
    by (simp add: dispatch_def n b2_def)
qed

section \<open>The feed of a candle subscription\<close>

lemma candle_view_Subscribe: "candle_view (snd (Subscribe grow ob res chs b)) k = candle_view b k"
proof -
  have "candle_view (append_sub grow p b) k = candle_view b k" for p b
    by (simp add: append_sub_def candle_view_def Let_def)
  moreover have "candle_view (add_key key b) k = candle_view b k" for key b
    by (simp add: add_key_def candle_view_def)
  moreover have "candle_view (write_req r b) k = candle_view b k" for r b
    by (simp add: write_req_def candle_view_def split: option.splits)
  ultimately show ?thesis by (simp add: Subscribe_def new_sub_def Let_def) (simp add: candle_view_def)
qed

lemma candle_run_stamps:
  assumes "list_all (\<lambda>u. fst (snd u) = ts_of (fst u)) us" "\<forall>c. fst v = Some c \<longrightarrow> fst (snd v) = ts_of c"
  shows "\<forall>x\<in>set (candle_run us v). snd x = ts_of (fst x)"
  using assms
proof (induction us arbitrary: v)
  case (Cons u us)
  obtain new ts boot where u: "u = (new, ts, boot)" by (cases u) auto
  obtain cached cachedTS last_sent where v: "v = (cached, cachedTS, last_sent)" by (cases v) auto
  have new: "ts = ts_of new" using Cons.prems(1) by (simp add: u)
  have "\<forall>c. fst (fst (candle_step u v)) = Some c \<longrightarrow> fst (snd (fst (candle_step u v))) = ts_of c"
    and "\<forall>x. snd (candle_step u v) = Some x \<longrightarrow> snd x = ts_of (fst x)"
    using Cons.prems(2) new by (cases boot; cases cached; simp add: u v)+
  with Cons.IH [of "fst (candle_step u v)"] Cons.prems(1) show ?case by (auto split: option.splits)
qed simp

lemma updates_for_stamps: "list_all (\<lambda>u. fst (snd u) = ts_of (fst u)) (updates_for ob res ns)"
proof -
  have "fst (snd u) = ts_of (fst u)" if "candle_parts arr = Some u" for arr u
    using that by (auto simp: candle_parts_def ts_of_def Let_def split: option.splits if_splits)
  then show ?thesis
    by (auto simp: list_all_iff updates_for_def map_filter_def split: notification.splits if_splits)
qed

lemma candle_run_first:
  assumes "inj tm" "feed_ok tm {} ((new, ts, boot) # us)" "\<forall>u\<in>set us. snd (snd u) = None"
  shows "candle_run ((new, ts, boot) # us) (None, '''', '''') =
    (case boot of None \<Rightarrow> [] | Some c \<Rightarrow> [(c, ts_of c)]) @ closed_of (map (\<lambda>u. (fst u, fst (snd u))) ((new, ts, boot) # us))"
proof -
  have "view_ok tm {} (None, '''', '''')" by (simp add: view_ok_def)
  note step = candle_step_ordered(1) [OF assms(1) this assms(2)]
  show ?thesis
  proof (cases boot)
    case None
    with step assms show ?thesis using candle_run_closed [OF assms(1), of "{ts}" new ts "''''" us] by simp
  next
    case (Some c)
    have "[] \<noteq> ts_of c" using assms(2) Some by auto
    with Some step assms show ?thesis
      using candle_run_closed [OF assms(1), of "insert ts {ts_of c}" new ts "ts_of c" us] by simp
  qed
qed

lemma feed_of_subscription:
  assumes b1: "broker_inv b1" "p \<in> set (subs_of b1)" "br_heap b1 p = Some s" and cs: "candle_sub ob res s"
    and empty: "sub_buf s = []" and view: "candle_view b1 (candle_key ob res) = (None, [], [])"
    and ids: "plain_id ob" "list_all plain_note ns"
    and feed: "inj tm" "feed_ok tm {} (updates_for ob res ns)"
  shows "\<exists>b2 s' sent. read_notes quiet ns b1 = Inr b2 \<and> br_heap b2 p = Some s' \<and>
    sub_buf s' = take defaultFrameBuffer (map (candle_frame ob res) sent) \<and>
    sorted_wrt (<) (map (tm \<circ> ts_of) sent) \<and>
    (\<forall>c ts boot us. updates_for ob res ns = (c, ts, boot) # us \<and> (\<forall>u\<in>set us. snd (snd u) = None) \<longrightarrow>
       sent = (case boot of None \<Rightarrow> [] | Some c \<Rightarrow> [c]) @
         map fst (closed_of (map (\<lambda>u. (fst u, fst (snd u))) (updates_for ob res ns))))"
proof -
  let ?us = "updates_for ob res ns" and ?v = "(None, [], []) :: RawMessage option \<times> string \<times> string"
  obtain b2 where b2: "read_notes quiet ns b1 = Inr b2" "feeds ob res p ?us b1 b2"
    using read_notes_feeds [OF b1 cs ids] by blast
  define sent where "sent = map fst (candle_run ?us ?v)"
  have heap: "br_heap b2 p = Some (fold deliver (map (candle_frame ob res) sent) s)"
    using b2(2) b1(3) view by (simp add: feeds_def sent_def)
  have "list_all (matches s) (map (candle_frame ob res) sent)"
    by (simp add: list_all_iff candle_sub_matches [OF cs] candle_frame_def)
  then have buf: "sub_buf (fold deliver (map (candle_frame ob res) sent) s) =
      take defaultFrameBuffer (map (candle_frame ob res) sent)"
    using fold_deliver_buf [of s] empty by simp
  have stamps: "\<forall>x\<in>set (candle_run ?us ?v). snd x = ts_of (fst x)"
    using candle_run_stamps [OF updates_for_stamps, of ?v] by simp
  have "view_ok tm {} ?v" by (simp add: view_ok_def)
  from candle_run_ordered [OF feed(1) this feed(2)]
  have "sorted_wrt (<) (map (tm \<circ> snd) (candle_run ?us ?v))" by blast
  moreover have "map (tm \<circ> snd) (candle_run ?us ?v) = map (tm \<circ> ts_of) sent"
    using stamps by (simp add: sent_def)
  ultimately have ord: "sorted_wrt (<) (map (tm \<circ> ts_of) sent)" by simp
  have "sent = (case boot of None \<Rightarrow> [] | Some c \<Rightarrow> [c]) @
      map fst (closed_of (map (\<lambda>u. (fst u, fst (snd u))) ?us))"
    if "?us = (c, ts, boot) # us" "\<forall>u\<in>set us. snd (snd u) = None" for c ts boot us
    using candle_run_first [OF feed(1), of c ts boot us] feed(2) that
    by (simp only: sent_def that(1)) (auto split: option.splits)
  with b2(1) heap buf ord show ?thesis by blast
qed

text \<open>C36: A deployment that subscribes to the candles of one order book at one resolution, before any of
  them was seen, and whose connection carries notifications in which the candles of that book and resolution come in the order
  of their start, finds in its channel, while nobody reads, exactly candles of that book and resolution in strictly increasing
  order of their start: the first 64 of those sent, the later ones are dropped. As long as no snapshot follows the first one,
  those sent are the candle of the first snapshot followed by the last update of every candle that has been superseded. Two times of
  candles are the same only as the same text, and identifiers of order books have no separator in them.\<close>

theorem live_candle_feed:
  assumes inv: "broker_inv b" and new: "candle_view b (candle_key ob res) = (None, [], [])"
    and ids: "ob \<noteq> []" "ob \<noteq> SubscribeAllOrderBooks" "res \<noteq> []" "plain_id ob" "list_all plain_note ns"
    and sub: "Subscribe grow ob res [''candle''] b = (p, b1)"
    and feed: "inj tm" "feed_ok tm {} (updates_for ob res ns)"
  shows "\<exists>b2 s' sent. read_notes quiet ns b1 = Inr b2 \<and> br_heap b2 p = Some s' \<and>
    sub_buf s' = take defaultFrameBuffer (map (candle_frame ob res) sent) \<and>
    sorted_wrt (<) (map (tm \<circ> ts_of) sent) \<and>
    (\<forall>c ts boot us. updates_for ob res ns = (c, ts, boot) # us \<and> (\<forall>u\<in>set us. snd (snd u) = None) \<longrightarrow>
       sent = (case boot of None \<Rightarrow> [] | Some c \<Rightarrow> [c]) @
         map fst (closed_of (map (\<lambda>u. (fst u, fst (snd u))) (updates_for ob res ns))))"
proof -
  let ?s = "\<lparr>sub_OrderBookID = ob, sub_Resolution = res, sub_AssetID = [], sub_TypeFilter = [''candle''],
      sub_Channels = [''candle''], sub_buf = [], sub_closed = False\<rparr>"
  have "subscribed ?s b (p, b1)"
    using Subscribe_subscribed [OF inv, of ob res "[''candle'']" grow] by (simp add: sub)
  then have b1: "broker_inv b1" "p \<in> set (subs_of b1)" "br_heap b1 p = Some ?s" by (simp_all add: subscribed_def)
  have "candle_sub ob res ?s" using ids by (simp add: candle_sub_def)
  moreover have "candle_view b1 (candle_key ob res) = (None, [], [])"
    using candle_view_Subscribe [of grow ob res "[''candle'']" b "candle_key ob res"] sub new by simp
  ultimately show ?thesis using feed_of_subscription [OF b1 _ _ _ ids(4,5) feed] by simp
qed

section \<open>Properties of operation sequences\<close>

text \<open>Whatever sequence of subscriptions, departures, notifications, receipts and reconnects a broker
  goes through, as long as no subscriber leaves in the middle of a dispatch: it never panics, its
  slice with in-place removal holds exactly the subscribers that the list specification holds, their
  channels and no others are open, and no buffer exceeds its 64 places.\<close>

theorem broker_refines_list:
  assumes "Broker_New url key = Inr b0"
  shows "\<exists>b. broker_ops grow ops b0 = Inr b \<and> (br_next b, subs_of b) = fold spec_op ops (1, []) \<and>
    set (subs_of b) \<subseteq> dom (br_heap b) \<and>
    (\<forall>p s. br_heap b p = Some s \<longrightarrow> (sub_closed s \<longleftrightarrow> p \<notin> set (subs_of b)) \<and> length (sub_buf s) \<le> defaultFrameBuffer)"
proof -
  note N = Broker_New_ok [OF assms]
  from broker_ops_refine [OF N(1), of grow ops] obtain b where b: "broker_ops grow ops b0 = Inr b" "broker_inv b"
    "(br_next b, subs_of b) = fold spec_op ops (1, [])" unfolding N(2,3) by blast
  note D = broker_invD [OF b(2)]
  have "set (subs_of b) \<subseteq> dom (br_heap b)" using D(5) by auto
  with b D(6) show ?thesis by blast
qed

text \<open>After a reconnect the broker sends the exchange exactly the requests of all subscriptions ever
  made, each once: the key recorded for a subscription determines its request. Identifiers of order
  books must not contain a colon nor be named like the prefixes of the other kinds of key.\<close>

theorem reconnect_restores_requests:
  assumes "Broker_New url key = Inr b0" and "\<forall>r\<in>set (List.map_filter op_request ops). clear_request r"
  shows "\<exists>b rs. broker_ops grow ops b0 = Inr b \<and>
    br_writes (connected c b) = br_writes b @ map (Pair c) rs \<and> distinct rs \<and>
    set rs = set (List.map_filter op_request ops)"
proof -
  note N = Broker_New_ok [OF assms(1)]
  from broker_ops_refine [OF N(1), of grow ops] obtain b where b: "broker_ops grow ops b0 = Inr b" "broker_inv b"
    "set (br_subscribedKeys b) = request_key ` set (List.map_filter op_request ops)" unfolding N(4) by auto
  from map_filter_keys [OF broker_invD(4) [OF b(2)] b(3) assms(2)] b(1) show ?thesis
    by (auto simp: connected_def Let_def)
qed

section \<open>Examples\<close>

definition sample_broker :: Broker where
  "sample_broker = \<lparr>br_heap = Map.empty, br_next = 1, br_arrays = [[]], br_aid = 0, br_len = 0,
     br_frameCb = [], br_conn = None, br_stopped = False, br_subscribedKeys = [],
     br_pendingCandle = Map.empty, br_pendingTS = Map.empty, br_lastSentTS = Map.empty, br_writes = []\<rparr>"

definition sample_raw :: "string \<Rightarrow> string \<Rightarrow> RawMessage" where
  "sample_raw t x = \<lparr>rm_text = x, rm_start = Some t\<rparr>"

lemma sample_broker_new: "Broker_New ''wss'' ''k'' = Inr sample_broker"
  by (simp add: Broker_New_def sample_broker_def)

lemmas sample_broker_ok = Broker_New_ok [OF sample_broker_new]

theorem broker_refines_list_witness:
  "\<exists>b. broker_ops (\<lambda>_. 1) [OpSubscribe ''B'' ''1m'' [''candle''], OpTrades ''B'', OpUnsubscribe 1] sample_broker = Inr b \<and>
     (br_next b, subs_of b) = (3, [2])"
  using broker_refines_list [OF sample_broker_new, of "\<lambda>_. 1"
      "[OpSubscribe ''B'' ''1m'' [''candle''], OpTrades ''B'', OpUnsubscribe 1]"]
  by (auto simp: numeral_eq_Suc)

theorem reconnect_restores_requests_witness:
  "\<exists>b rs. broker_ops (\<lambda>_. 0) [OpSubscribe ''B'' ''1m'' [''candle''], OpTrades ''B'', OpUnsubscribe 1] sample_broker = Inr b \<and>
     br_writes (connected 7 b) = br_writes b @ map (Pair 7) rs \<and> distinct rs \<and>
     set rs = {ReqCandles ''B'' ''1m'', ReqTrades ''B''}"
proof -
  let ?ops = "[OpSubscribe ''B'' ''1m'' [''candle''], OpTrades ''B'', OpUnsubscribe 1]"
  have "set (List.map_filter op_request ?ops) = {ReqCandles ''B'' ''1m'', ReqTrades ''B''}"
    by (simp add: map_filter_simps SubscribeAllOrderBooks_def)
  then show ?thesis
    using reconnect_restores_requests [OF sample_broker_new, of ?ops "\<lambda>_. 0" 7] by (simp add: plain_id_def)
qed

definition sample_subscribed :: Broker where
  "sample_subscribed = snd (Subscribe (\<lambda>_. 0) ''B'' ''1m'' [''candle''] sample_broker)"

lemma sample_subscribed_ok:
  "broker_inv sample_subscribed" "subs_of sample_subscribed = [1]"
  "br_heap sample_subscribed 1 = Some \<lparr>sub_OrderBookID = ''B'', sub_Resolution = ''1m'', sub_AssetID = '''',
     sub_TypeFilter = [''candle''], sub_Channels = [''candle''], sub_buf = [], sub_closed = False\<rparr>"
  "Subscribe (\<lambda>_. 0) ''B'' ''1m'' [''candle''] sample_broker = (1, sample_subscribed)"
  using Subscribe_subscribed [OF sample_broker_ok(1), of "''B''" "''1m''" "[''candle'']" "\<lambda>_. 0"] sample_broker_ok(2,3)
  by (simp_all add: subscribed_def sample_subscribed_def prod_eq_iff)

theorem dispatch_unsubscribe_panics_witness:
  "dispatch (\<lambda>i. if i = 0 then Unsubscribe 1 else (\<lambda>b. b)) (candle_frame ''B'' ''1m'' (sample_raw ''t'' ''x''))
     sample_subscribed = Inl panic_closed"
  using dispatch_unsubscribe_panics [OF sample_subscribed_ok(1), of "[]" 1 0] sample_subscribed_ok(2,3)
  by (simp add: candle_frame_def matches_def typeAllowed_def book_differs_def)

definition sample_clock :: "string \<Rightarrow> int" where
  "sample_clock s = int (foldr (\<lambda>c n. Suc (of_char c) + 257 * n) s 0)"

lemma base_split:
  fixes a b m n :: nat
  assumes "a < 256" "b < 256" "Suc a + 257 * m = Suc b + 257 * n"
  shows "a = b" "m = n"
proof -
  have "(Suc a + 257 * m) mod 257 = Suc a" "(Suc b + 257 * n) mod 257 = Suc b"
    using assms(1,2) by (simp_all only: mod_mult_self2 mod_less)
  then show "a = b" unfolding assms(3) by simp
  then show "m = n" using assms(3) by simp
qed

lemma inj_sample_clock: "inj sample_clock"
proof -
  let ?f = "\<lambda>s :: string. foldr (\<lambda>c n. Suc (of_char c) + 257 * n) s 0"
  have "?f s = ?f t \<Longrightarrow> s = t" for s t
  proof (induction s arbitrary: t)
    case Nil
    then show ?case by (cases t) simp_all
  next
    case (Cons c s)
    then obtain d u where t: "t = d # u" by (cases t) auto
    have lt: "(of_char c :: nat) < 256" "(of_char d :: nat) < 256" by simp_all
    have "Suc (of_char c) + 257 * ?f s = Suc (of_char d) + 257 * ?f u" using Cons.prems by (simp only: t foldr.simps comp_apply)
    from base_split [OF lt this] have "(of_char c :: nat) = of_char d" "?f s = ?f u" .
    then show ?case using Cons.IH t by simp
  qed
  then show ?thesis by (auto simp: inj_def sample_clock_def)
qed

definition sample_notes :: "notification list" where
  "sample_notes = [CandleNote ''1m'' [(''B'', Some [sample_raw ''1'' ''a'', sample_raw ''2'' ''b''])],
     CandleNote ''5m'' [(''B'', Some [sample_raw ''1'' ''z''])],
     CandleNote ''1m'' [(''B'', Some [sample_raw ''2'' ''c''])], TradeNote [(''B'', sample_raw ''1'' ''t'')],
     CandleNote ''1m'' [(''B'', Some [sample_raw ''3'' ''d''])]]"

lemma sample_updates:
  "updates_for ''B'' ''1m'' sample_notes = [(sample_raw ''2'' ''b'', ''2'', Some (sample_raw ''1'' ''a'')),
     (sample_raw ''2'' ''c'', ''2'', None), (sample_raw ''3'' ''d'', ''3'', None)]"
  by (simp add: updates_for_def sample_notes_def map_filter_simps candle_parts_def sample_raw_def)

lemma sample_notes_ok:
  "list_all plain_note sample_notes" "feed_ok sample_clock {} (updates_for ''B'' ''1m'' sample_notes)"
proof -
  show "list_all plain_note sample_notes"
    by (simp add: sample_notes_def plain_note_def plain_id_def)
  show "feed_ok sample_clock {} (updates_for ''B'' ''1m'' sample_notes)"
    by (simp add: sample_updates ts_of_def sample_raw_def sample_clock_def)
qed

theorem live_candle_feed_witness:
  "\<exists>b2 s. read_notes quiet sample_notes sample_subscribed = Inr b2 \<and> br_heap b2 1 = Some s \<and>
     sub_buf s = map (candle_frame ''B'' ''1m'') [sample_raw ''1'' ''a'', sample_raw ''2'' ''c'']"
  using live_candle_feed [OF sample_broker_ok(1) sample_broker_ok(5) _ _ _ _ sample_notes_ok(1) sample_subscribed_ok(4)
      inj_sample_clock sample_notes_ok(2)]
  by (auto simp: sample_updates plain_id_def SubscribeAllOrderBooks_def defaultFrameBuffer_def)

end
