(* ===== verification/Orchestrator_Props.thy ===== *)
theory Orchestrator_Props
  imports Orchestrator Ws_Broker_Correct Deployment_Props
begin

text \<open>
  The invariant of the orchestrator and the lemmas on its operations. What the orchestrator needs of
  the market-data broker is the locale \<open>fanout\<close>: a subscription adds a fresh handle, leaving removes
  it. The accounting of handles is proved there once and holds for the broker by interpretation.
\<close>

section \<open>The interface of the broker\<close>

locale fanout =
  fixes finv :: "'b \<Rightarrow> bool"
    and listed :: "'b \<Rightarrow> nat list"
    and subscriptions :: "('b \<Rightarrow> nat \<times> 'b) set"
    and leave :: "nat \<Rightarrow> 'b \<Rightarrow> 'b"
  assumes subscribe_law: "finv b \<Longrightarrow> f \<in> subscriptions \<Longrightarrow>
      finv (snd (f b)) \<and> set (listed (snd (f b))) = insert (fst (f b)) (set (listed b)) \<and>
      fst (f b) \<notin> set (listed b) \<and> fst (f b) \<noteq> 0"
    and leave_law: "finv b \<Longrightarrow> finv (leave p b) \<and> set (listed (leave p b)) = set (listed b) - {p}"
    and nil_law: "finv b \<Longrightarrow> 0 \<notin> set (listed b)"
begin

lemma subscribe_optional:
  assumes "finv b" "f \<in> subscriptions" "(if c then f b else (0, b)) = (p, b')"
  shows "finv b'" "set (listed b') = set (listed b) \<union> ({p} - {0})" "p \<notin> set (listed b)"
  using assms subscribe_law [OF assms(1,2)] nil_law [OF assms(1)] by (auto split: if_splits)

lemma leave_three:
  assumes "finv b"
  shows "finv (leave r (leave q (leave p b)))" "set (listed (leave r (leave q (leave p b)))) = set (listed b) - {p, q, r}"
proof -
  note L1 = leave_law [OF assms, of p]
  note L2 = leave_law [OF conjunct1 [OF L1], of q]
  note L3 = leave_law [OF conjunct1 [OF L2], of r]
  show "finv (leave r (leave q (leave p b)))" using L3 by simp
  show "set (listed (leave r (leave q (leave p b)))) = set (listed b) - {p, q, r}" using L1 L2 L3 by auto
qed

text \<open>Three subscriptions, two of them optional, that are given up again leave nothing behind.\<close>

lemma subscribe_three:
  assumes "finv b" "f \<in> subscriptions" "g \<in> subscriptions" "h \<in> subscriptions"
    and "f b = (p, b1)" "(if c then g b1 else (0, b1)) = (q, b2)" "(if d then h b2 else (0, b2)) = (r, b3)"
  shows "finv b3" "set (listed b3) = set (listed b) \<union> ({p, q, r} - {0})" "({p, q, r} - {0}) \<inter> set (listed b) = {}"
    "p \<noteq> 0"
    and "set (listed (leave r (leave q (leave p b3)))) = set (listed b)"
proof -
  have 1: "finv b1" "set (listed b1) = insert p (set (listed b))" "p \<notin> set (listed b)" "p \<noteq> 0"
    using subscribe_law [OF assms(1,2)] by (simp_all add: assms(5))
  note 2 = subscribe_optional [OF 1(1) assms(3,6)]
  note 3 = subscribe_optional [OF 2(1) assms(4,7)]
  show fin: "finv b3" by (rule 3(1))
  show set: "set (listed b3) = set (listed b) \<union> ({p, q, r} - {0})" using 1 2 3 by auto
  show "({p, q, r} - {0}) \<inter> set (listed b) = {}" using 1 2 3 by auto
  show "p \<noteq> 0" by (rule 1(4))
  have "{p, q, r} \<inter> set (listed b) = {}" using 1 2 3 by auto
  then show "set (listed (leave r (leave q (leave p b3)))) = set (listed b)"
    using leave_three(2) [OF fin] set by auto
qed

end

definition broker_subscriptions :: "(Broker \<Rightarrow> nat \<times> Broker) set" where
  "broker_subscriptions = {f. (\<exists>grow ob res chs. f = Subscribe grow ob res chs) \<or>
     (\<exists>grow ob. f = SubscribeTrades grow ob) \<or> (\<exists>grow asset. f = SubscribePrices grow asset)}"

lemma broker_subscriptionsI [simp]:
  "Subscribe grow ob res chs \<in> broker_subscriptions" "SubscribeTrades grow ob \<in> broker_subscriptions"
  "SubscribePrices grow asset \<in> broker_subscriptions"
  unfolding broker_subscriptions_def by blast+

interpretation fan: fanout broker_inv subs_of broker_subscriptions Unsubscribe
proof
  fix b and f :: "Broker \<Rightarrow> nat \<times> Broker"
  assume inv: "broker_inv b" and "f \<in> broker_subscriptions"
  then have "\<exists>s. subscribed s b (f b)"
    using Subscribe_subscribed SubscribeTrades_subscribed SubscribePrices_subscribed
    by (auto simp: broker_subscriptions_def) blast+
  then show "broker_inv (snd (f b)) \<and> set (subs_of (snd (f b))) = insert (fst (f b)) (set (subs_of b)) \<and>
      fst (f b) \<notin> set (subs_of b) \<and> fst (f b) \<noteq> 0"
    using broker_invD(8,9) [OF inv] by (auto simp: subscribed_def)
next
  fix b p
  assume "broker_inv b"
  then show "broker_inv (Unsubscribe p b) \<and> set (subs_of (Unsubscribe p b)) = set (subs_of b) - {p}"
    using inv_Unsubscribe [of b p] subs_Unsubscribe(1) [of b p] broker_invD(1-3) [of b] by simp
next
  fix b
  assume "broker_inv b"
  then show "0 \<notin> set (subs_of b)" using broker_invD(5,6) by blast
qed

section \<open>Invariant of the orchestrator\<close>

definition inst_subs :: "liveInstance \<Rightarrow> nat set" where
  "inst_subs li = {li_sub li, li_subTrades li, li_subPrices li} - {0}"

definition orch_ok :: "orch \<Rightarrow> bool" where
  "orch_ok o1 \<longleftrightarrow> broker_inv (or_broker o1) \<and>
     (\<forall>i tag. or_live o1 i = Some tag \<longrightarrow> (\<exists>li. or_insts o1 tag = Some li \<and> li_deploymentID li = i)) \<and>
     (\<forall>tag li. or_insts o1 tag = Some li \<longrightarrow>
        or_live o1 (li_deploymentID li) = Some tag \<and> tag < or_nextTag o1 \<and> li_sub li \<noteq> 0) \<and>
     (\<forall>t li t' li'. or_insts o1 t = Some li \<longrightarrow> or_insts o1 t' = Some li' \<longrightarrow> t \<noteq> t' \<longrightarrow> inst_subs li \<inter> inst_subs li' = {}) \<and>
     set (subs_of (or_broker o1)) = (\<Union>li\<in>ran (or_insts o1). inst_subs li)"

lemma orch_okD:
  assumes "orch_ok o1"
  shows "broker_inv (or_broker o1)"
    "or_live o1 i = Some tag \<Longrightarrow> \<exists>li. or_insts o1 tag = Some li \<and> li_deploymentID li = i"
    "or_insts o1 tag = Some li \<Longrightarrow> or_live o1 (li_deploymentID li) = Some tag \<and> tag < or_nextTag o1 \<and> li_sub li \<noteq> 0"
    "or_insts o1 t = Some li \<Longrightarrow> or_insts o1 t' = Some li' \<Longrightarrow> t \<noteq> t' \<Longrightarrow> inst_subs li \<inter> inst_subs li' = {}"
    "set (subs_of (or_broker o1)) = (\<Union>li\<in>ran (or_insts o1). inst_subs li)"
    "or_insts o1 (or_nextTag o1) = None"
  using assms unfolding orch_ok_def by (blast, blast, blast, blast, blast) (metis assms less_irrefl not_None_eq orch_ok_def)

lemma orch_okI:
  assumes "broker_inv (or_broker o1)"
    and "\<And>i tag. or_live o1 i = Some tag \<Longrightarrow> \<exists>li. or_insts o1 tag = Some li \<and> li_deploymentID li = i"
    and "\<And>tag li. or_insts o1 tag = Some li \<Longrightarrow>
        or_live o1 (li_deploymentID li) = Some tag \<and> tag < or_nextTag o1 \<and> li_sub li \<noteq> 0"
    and "\<And>t li t' li'. or_insts o1 t = Some li \<Longrightarrow> or_insts o1 t' = Some li' \<Longrightarrow> t \<noteq> t' \<Longrightarrow> inst_subs li \<inter> inst_subs li' = {}"
    and "set (subs_of (or_broker o1)) = (\<Union>li\<in>ran (or_insts o1). inst_subs li)"
  shows "orch_ok o1"
  using assms unfolding orch_ok_def by blast

section \<open>Deploying\<close>

definition started :: "DeployConfig \<Rightarrow> orch \<Rightarrow> liveInstance \<Rightarrow> orch \<Rightarrow> bool" where
  "started dc o1 li o2 \<longleftrightarrow> (\<exists>b db. o2 = o1\<lparr>or_insts := (or_insts o1)(or_nextTag o1 \<mapsto> li),
       or_live := (or_live o1)(dc_DeploymentID dc \<mapsto> or_nextTag o1), or_nextTag := Suc (or_nextTag o1),
       or_broker := b, or_db := db\<rparr> \<and> broker_inv b \<and> li_deploymentID li = dc_DeploymentID dc \<and> li_sub li \<noteq> 0 \<and>
     inst_subs li \<inter> set (subs_of (or_broker o1)) = {} \<and>
     set (subs_of b) = set (subs_of (or_broker o1)) \<union> inst_subs li)"

definition rejected :: "orch \<Rightarrow> orch \<Rightarrow> bool" where
  "rejected o1 o2 \<longleftrightarrow> (\<exists>b. o2 = o1\<lparr>or_broker := b\<rparr> \<and> broker_inv b \<and>
     set (subs_of b) = set (subs_of (or_broker o1)))"

lemma deploy_start_cases:
  assumes inv: "broker_inv (or_broker o1)"
  obtains (failed) o2 e where "deploy_start cfg env dc o1 = (o2, Some e)" "rejected o1 o2"
  | (running) o2 li where "deploy_start cfg env dc o1 = (o2, None)" "started dc o1 li o2"
proof -
  define f where "f = Subscribe (de_grow env) (dc_OrderBookID dc) (dc_Resolution dc) [''candle'']"
  define g where "g = SubscribeTrades (de_grow env) (dc_OrderBookID dc)"
  have mem: "f \<in> broker_subscriptions" "g \<in> broker_subscriptions"
    "SubscribePrices (de_grow env) a \<in> broker_subscriptions" for a
    by (simp_all add: f_def g_def)
  obtain p b1 where p: "f (or_broker o1) = (p, b1)" by (metis surj_pair)
  note S = fan.subscribe_law [OF inv mem(1), unfolded p fst_conv snd_conv]
  have leave: "rejected o1 (o1\<lparr>or_broker := Unsubscribe p b1\<rparr>)"
    using fan.leave_law [of b1 p] S by (auto simp: rejected_def)
  show thesis
  proof (cases "de_cfgJSON env")
    case (Inl e)
    then show thesis using failed [OF _ leave] p by (simp add: deploy_start_def f_def)
  next
    case json: (Inr js)
    show thesis
    proof (cases "de_load env (dc_WasmRef dc) (dc_ManifestHash dc)")
      case (Inl e)
      then show thesis using failed [OF _ leave] p json by (simp add: deploy_start_def f_def)
    next
      case load: (Inr m)
      define h where "h = SubscribePrices (de_grow env) (hd (mf_AssetIDs m))"
      obtain q b2 where q: "(if hasChannel m ''trade'' then g b1 else (0, b1)) = (q, b2)" by (metis surj_pair)
      obtain r b3 where r: "(if hasChannel m ''price'' \<and> mf_AssetIDs m \<noteq> [] then h b2 else (0, b2)) = (r, b3)"
        by (metis surj_pair)
      have "h \<in> broker_subscriptions" using mem(3) by (simp add: h_def)
      note T = fan.subscribe_three [OF inv mem(1,2) this p q r]
      note unfold = deploy_start_def f_def [symmetric] g_def [symmetric] h_def [symmetric] Let_def
        p json load q r prod.case sum.case option.case
      show thesis
      proof (cases "de_instantiate env m")
        case (Some e)
        have "rejected o1 (o1\<lparr>or_broker := Unsubscribe r (Unsubscribe q (Unsubscribe p b3))\<rparr>)"
          using fan.leave_three(1) [OF T(1), of r q p] T(5) by (auto simp: rejected_def)
        from failed [OF _ this] show thesis by (simp only: unfold Some)
      next
        case None
        let ?dc = "if 0 < mf_Warmup m then dc\<lparr>dc_WarmupCandles := mf_Warmup m\<rparr> else dc"
        let ?li = "\<lparr>li_deploymentID = dc_DeploymentID dc, li_budget = NewRestartBudget (og_restart cfg),
          li_sub = p, li_subTrades = q, li_subPrices = r,
          li_state = buildLiveHostState cfg env ?dc p q r m js (or_db o1), li_cancelled = False\<rparr>"
        let ?o2 = "o1\<lparr>or_insts := (or_insts o1)(or_nextTag o1 \<mapsto> ?li),
          or_live := (or_live o1)(dc_DeploymentID dc \<mapsto> or_nextTag o1), or_nextTag := Suc (or_nextTag o1),
          or_broker := b3, or_db := syncWarmupCandles env dc (mf_Warmup m) (or_db o1)\<rparr>"
        have "started dc o1 ?li ?o2" using T by (auto simp: started_def inst_subs_def)
        from running [OF _ this] show thesis by (simp only: unfold None)
      qed
    qed
  qed
qed

lemma orch_ok_rejected:
  assumes "orch_ok o1" "rejected o1 o2"
  shows "orch_ok o2"
proof -
  from assms(2) obtain b where "o2 = o1\<lparr>or_broker := b\<rparr>" "broker_inv b" "set (subs_of b) = set (subs_of (or_broker o1))"
    by (auto simp: rejected_def)
  with assms(1) show ?thesis by (simp add: orch_ok_def)
qed

lemma orch_ok_db: "orch_ok (o1\<lparr>or_db := db\<rparr>) = orch_ok o1"
  by (simp add: orch_ok_def)

lemma orch_ok_started:
  assumes ok: "orch_ok o1" and free: "or_live o1 (dc_DeploymentID dc) = None" and "started dc o1 li o2"
  shows "orch_ok o2"
proof -
  from assms(3) obtain b db where o2: "o2 = o1\<lparr>or_insts := (or_insts o1)(or_nextTag o1 \<mapsto> li),
       or_live := (or_live o1)(dc_DeploymentID dc \<mapsto> or_nextTag o1), or_nextTag := Suc (or_nextTag o1),
       or_broker := b, or_db := db\<rparr>" and b: "broker_inv b" "li_deploymentID li = dc_DeploymentID dc" "li_sub li \<noteq> 0"
     "inst_subs li \<inter> set (subs_of (or_broker o1)) = {}"
     "set (subs_of b) = set (subs_of (or_broker o1)) \<union> inst_subs li" by (auto simp: started_def)
  note D = orch_okD [OF ok]
  have new: "or_insts o1 (or_nextTag o1) = None" by (rule D(6))
  have "inst_subs li \<inter> inst_subs li' = {}" if "or_insts o1 t = Some li'" for t li'
    using b(4) D(5) that by (auto simp: ran_def)
  moreover have "ran ((or_insts o1)(or_nextTag o1 \<mapsto> li)) = insert li (ran (or_insts o1))" using new by simp
  moreover have "li_deploymentID li' \<noteq> dc_DeploymentID dc" if "or_insts o1 t = Some li'" for t li'
    using D(3) [OF that] free by auto
  moreover have "or_live o1 i \<noteq> Some (or_nextTag o1)" for i using D(2) [of i "or_nextTag o1"] new by auto
  ultimately show ?thesis
    unfolding orch_ok_def o2 using b D(2,3,4,5)
    by (auto simp: less_Suc_eq split: if_splits)
qed

lemma deploy_check_free: "deploy_check cfg dc o1 = None \<Longrightarrow> or_live o1 (dc_DeploymentID dc) = None"
  by (auto simp: deploy_check_def split: option.splits if_splits)

lemma Deploy_cases:
  assumes "orch_ok o1"
  obtains (refused) e where "Deploy cfg env dc o1 = (o1, Some e)" "deploy_check cfg dc o1 = Some e"
  | (failed) o2 e where "Deploy cfg env dc o1 = (o2, Some e)" "deploy_check cfg dc o1 = None" "rejected o1 o2"
  | (running) o2 li where "Deploy cfg env dc o1 = (o2, None)" "deploy_check cfg dc o1 = None" "started dc o1 li o2"
proof (cases "deploy_check cfg dc o1")
  case (Some e)
  then show thesis using refused [of e] by (simp add: Deploy_def)
next
  case None
  show thesis
    by (rule deploy_start_cases [OF orch_okD(1) [OF assms], of cfg env dc])
      (use None failed running in \<open>simp_all add: Deploy_def\<close>)
qed

lemma Deploy_ok: "orch_ok o1 \<Longrightarrow> orch_ok (fst (Deploy cfg env dc o1))"
  by (rule Deploy_cases [of o1 cfg env dc])
    (auto intro: orch_ok_rejected orch_ok_started dest: deploy_check_free)

section \<open>The end of a run\<close>

lemma Deploy_duplicate:
  assumes "or_live o1 (dc_DeploymentID dc) \<noteq> None"
  shows "\<exists>e. Deploy cfg env dc o1 = (o1, Some e)"
  using assms deploy_check_free [of cfg dc o1] by (cases "deploy_check cfg dc o1") (auto simp: Deploy_def)

lemma buildRestartConfig_id: "dc_DeploymentID (buildRestartConfig done li db) = li_deploymentID li"
  by (simp add: buildRestartConfig_def Let_def split: sum.splits)

text \<open>While the failed instance is still registered, the restart is refused as a duplicate: all that
  changes are the budget and the row.\<close>

lemma handleRunError_shape:
  assumes "or_live o1 (li_deploymentID li) \<noteq> None"
  shows "handleRunError cfg env tag li o1 =
    (let now = de_now env; done = li_cancelled li; i = li_deploymentID li; user = hs_userID (li_state li);
         (budget, ok) = Budget_Allow now (li_budget li);
         db1 = persistCandleCount now done (li_state li) (or_db o1);
         db2 = fst (ctx_stmt done (IncRestart now i user) db1)
     in o1\<lparr>or_insts := (or_insts o1)(tag \<mapsto> li\<lparr>li_budget := budget\<rparr>),
           or_db := (if ok then fst (ctx_stmt done (UpdateStatus now i user StatusCrashed ''in-process restart failed'') db2)
             else fst (ctx_stmt done (UpdateStatus now i user StatusCrashed ''restart budget exhausted'') (or_db o1)))\<rparr>)"
proof -
  obtain budget ok where B: "Budget_Allow (de_now env) (li_budget li) = (budget, ok)" by (metis surj_pair)
  let ?o3 = "o1\<lparr>or_insts := (or_insts o1)(tag \<mapsto> li\<lparr>li_budget := budget\<rparr>),
    or_db := persistCandleCount (de_now env) (li_cancelled li) (li_state li) (or_db o1)\<rparr>"
  have "or_live ?o3 (dc_DeploymentID (buildRestartConfig (li_cancelled li) li (or_db ?o3))) \<noteq> None"
    using assms by (simp add: buildRestartConfig_id)
  from Deploy_duplicate [OF this, of cfg "env\<lparr>de_ctxDone := li_cancelled li\<rparr>"]
  obtain e where "Deploy cfg (env\<lparr>de_ctxDone := li_cancelled li\<rparr>)
      (buildRestartConfig (li_cancelled li) li (or_db ?o3)) ?o3 = (?o3, Some e)" by blast
  then show ?thesis by (cases ok) (simp_all add: handleRunError_def Let_def B)
qed

lemma orch_ok_touch:
  assumes "orch_ok o1" "or_insts o1 tag = Some li" "li_deploymentID li' = li_deploymentID li"
    "li_sub li' = li_sub li" "li_subTrades li' = li_subTrades li" "li_subPrices li' = li_subPrices li"
  shows "orch_ok (o1\<lparr>or_insts := (or_insts o1)(tag \<mapsto> li')\<rparr>)"
proof -
  note D = orch_okD [OF assms(1)]
  have subs: "inst_subs li' = inst_subs li" using assms(4-6) by (simp add: inst_subs_def)
  have "(\<Union>x\<in>ran ((or_insts o1)(tag \<mapsto> li')). inst_subs x) = (\<Union>x\<in>ran (or_insts o1). inst_subs x)"
  proof -
    have "(\<Union>x\<in>ran m. inst_subs x) = (\<Union>t. case m t of None \<Rightarrow> {} | Some x \<Rightarrow> inst_subs x)" for m :: "nat \<rightharpoonup> liveInstance"
      by (auto simp: ran_def split: option.splits) (metis option.simps(5))+
    then show ?thesis using assms(2) subs by (auto split: option.splits if_splits intro!: SUP_cong)
  qed
  then show ?thesis
    unfolding orch_ok_def using D(1-5) assms(2-4) subs D(2) [of _ tag] by (auto split: if_splits)
qed

lemma ran_delete:
  assumes "m tag = Some li" "\<And>t x. m t = Some x \<Longrightarrow> t \<noteq> tag \<Longrightarrow> f x \<inter> f li = {}"
  shows "(\<Union>x\<in>ran (m(tag := None)). f x) = (\<Union>x\<in>ran m. f x) - f li"
proof (rule set_eqI)
  fix e
  have "e \<in> (\<Union>x\<in>ran (m(tag := None)). f x) \<longleftrightarrow> (\<exists>t x. t \<noteq> tag \<and> m t = Some x \<and> e \<in> f x)"
    by (auto simp: ran_def split: if_splits)
  also have "\<dots> \<longleftrightarrow> (\<exists>t x. m t = Some x \<and> e \<in> f x) \<and> e \<notin> f li"
    using assms by (metis disjoint_iff option.inject)
  finally show "e \<in> (\<Union>x\<in>ran (m(tag := None)). f x) \<longleftrightarrow> e \<in> (\<Union>x\<in>ran m. f x) - f li"
    by (auto simp: ran_def)
qed

definition torn_down :: "nat \<Rightarrow> string \<Rightarrow> orch \<Rightarrow> orch \<Rightarrow> bool" where
  "torn_down tag i o1 o2 \<longleftrightarrow> or_live o2 = (or_live o1)(i := None) \<and> or_insts o2 = (or_insts o1)(tag := None) \<and>
     or_nextTag o2 = or_nextTag o1 \<and> or_kernel o2 = or_kernel o1"

lemma teardown_ok:
  assumes "orch_ok o1" "or_insts o1 tag = Some li"
  shows "orch_ok (teardownLive tag o1)" "torn_down tag (li_deploymentID li) o1 (teardownLive tag o1)"
    "or_db (teardownLive tag o1) = or_db o1"
proof -
  note D = orch_okD [OF assms(1)]
  have sub: "li_sub li \<noteq> 0" using D(3) [OF assms(2)] by simp
  define b where "b = Unsubscribe (li_subPrices li) (Unsubscribe (li_subTrades li) (Unsubscribe (li_sub li) (or_broker o1)))"
  have b: "broker_inv b" "set (subs_of b) = set (subs_of (or_broker o1)) - inst_subs li"
    using fan.leave_three [OF D(1), of "li_subPrices li" "li_subTrades li" "li_sub li"] fan.nil_law [OF D(1)]
    by (auto simp: b_def inst_subs_def)
  have eq: "teardownLive tag o1 = o1\<lparr>or_broker := b, or_live := (or_live o1)(li_deploymentID li := None),
      or_insts := (or_insts o1)(tag := None)\<rparr>"
    using assms(2) sub by (simp add: teardownLive_def b_def)
  have only: "or_live o1 i = Some tag \<Longrightarrow> i = li_deploymentID li" for i using D(2) [of i tag] assms(2) by auto
  have others: "t = tag" if "or_insts o1 t = Some li'" "li_deploymentID li' = li_deploymentID li" for t li'
    using D(3) [OF that(1)] D(3) [OF assms(2)] that(2) by simp
  have subs: "set (subs_of b) = (\<Union>x\<in>ran ((or_insts o1)(tag := None)). inst_subs x)"
    using ran_delete [of "or_insts o1" tag li inst_subs, OF assms(2)] D(4) [OF _ assms(2)] b(2) D(5) by simp
  show "orch_ok (teardownLive tag o1)"
    unfolding eq
  proof (rule orch_okI, goal_cases)
    case (2 i t)
    then have "or_live o1 i = Some t" "i \<noteq> li_deploymentID li" by (auto split: if_splits)
    then show ?case using D(2) [of i t] only by (cases "t = tag") auto
  next
    case (3 t li')
    then have "or_insts o1 t = Some li'" "t \<noteq> tag" by (auto split: if_splits)
    then show ?case using D(3) [of t li'] others [of t li'] by auto
  next
    case (4 t li1 t' li2)
    then show ?case using D(4) [of t li1 t' li2] by (auto split: if_splits)
  qed (use b(1) subs in simp_all)
  show "torn_down tag (li_deploymentID li) o1 (teardownLive tag o1)" "or_db (teardownLive tag o1) = or_db o1"
    by (simp_all add: eq torn_down_def)
qed

end
