(* ===== verification/Orchestrator_Correct.thy ===== *)
theory Orchestrator_Correct
  imports Orchestrator_Props Agent_Host_Props
begin

text \<open>
  Properties of the lifecycle of live deployments: no handle of the broker is leaked over any sequence
  of operations, what a crash, a hot swap and a recovery do, what two concurrent deploys of one
  deployment do, and the bound of the restart budget.
\<close>

section \<open>Every operation keeps the invariant\<close>

lemma handleRunError_ok:
  assumes "orch_ok o1" "or_insts o1 tag = Some li"
  obtains budget db where "handleRunError cfg env tag li o1 =
      o1\<lparr>or_insts := (or_insts o1)(tag \<mapsto> li\<lparr>li_budget := budget\<rparr>), or_db := db\<rparr>"
    "orch_ok (handleRunError cfg env tag li o1)"
proof -
  have live: "or_live o1 (li_deploymentID li) \<noteq> None" using orch_okD(3) [OF assms] by simp
  obtain budget ok where B: "Budget_Allow (de_now env) (li_budget li) = (budget, ok)" by (metis surj_pair)
  have "\<exists>db. handleRunError cfg env tag li o1 =
      o1\<lparr>or_insts := (or_insts o1)(tag \<mapsto> li\<lparr>li_budget := budget\<rparr>), or_db := db\<rparr>"
    unfolding handleRunError_shape [OF live] Let_def B prod.case by (rule exI, rule refl)
  then obtain db where eq: "handleRunError cfg env tag li o1 =
      o1\<lparr>or_insts := (or_insts o1)(tag \<mapsto> li\<lparr>li_budget := budget\<rparr>), or_db := db\<rparr>" by blast
  have "orch_ok (o1\<lparr>or_insts := (or_insts o1)(tag \<mapsto> li\<lparr>li_budget := budget\<rparr>)\<rparr>)"
    using orch_ok_touch [OF assms, of "li\<lparr>li_budget := budget\<rparr>"] by simp
  then have "orch_ok (handleRunError cfg env tag li o1)"
    unfolding eq by (subst orch_ok_db)
  with eq that show thesis by blast
qed

lemma finish_run_ok:
  assumes "orch_ok o1" "or_insts o1 tag = Some li"
  shows "orch_ok (finish_run cfg env tag exit o1)"
    "torn_down tag (li_deploymentID li) o1 (finish_run cfg env tag exit o1)"
    "exit = ExitError \<Longrightarrow> or_db (finish_run cfg env tag exit o1) = or_db (handleRunError cfg env tag li o1)"
proof -
  have "orch_ok (finish_run cfg env tag exit o1) \<and> torn_down tag (li_deploymentID li) o1 (finish_run cfg env tag exit o1) \<and>
    (exit = ExitError \<longrightarrow> or_db (finish_run cfg env tag exit o1) = or_db (handleRunError cfg env tag li o1))"
  proof (cases exit)
    case ExitClean
    then show ?thesis using teardown_ok [OF assms] assms(2) by (simp add: finish_run_def)
  next
    case ExitCode0
    define db where "db = fst (UpdateStatus (de_now env) (li_deploymentID li) (hs_userID (li_state li))
      StatusStopped ''clean exit'' (or_db o1))"
    have "orch_ok (o1\<lparr>or_db := db\<rparr>)" using assms(1) orch_ok_db by blast
    from teardown_ok [OF this, of tag li] assms(2) ExitCode0 show ?thesis
      by (simp add: finish_run_def db_def torn_down_def)
  next
    case ExitError
    obtain budget db where E: "handleRunError cfg env tag li o1 =
        o1\<lparr>or_insts := (or_insts o1)(tag \<mapsto> li\<lparr>li_budget := budget\<rparr>), or_db := db\<rparr>"
      "orch_ok (handleRunError cfg env tag li o1)" using handleRunError_ok [OF assms] by blast
    from teardown_ok [OF E(2), of tag "li\<lparr>li_budget := budget\<rparr>"] assms(2) ExitError show ?thesis
      by (simp add: finish_run_def E(1) torn_down_def)
  qed
  then show "orch_ok (finish_run cfg env tag exit o1)"
    "torn_down tag (li_deploymentID li) o1 (finish_run cfg env tag exit o1)"
    "exit = ExitError \<Longrightarrow> or_db (finish_run cfg env tag exit o1) = or_db (handleRunError cfg env tag li o1)" by blast+
qed

lemma cancel_run_ok:
  assumes "orch_ok o1" "or_live o1 i = Some tag"
  obtains li where "or_insts o1 tag = Some li" "li_deploymentID li = i" "orch_ok (cancel_run tag o1)"
    "or_insts (cancel_run tag o1) tag = Some (li\<lparr>li_cancelled := True\<rparr>)"
    "or_live (cancel_run tag o1) = or_live o1" "or_kernel (cancel_run tag o1) = or_kernel o1"
proof -
  obtain li where li: "or_insts o1 tag = Some li" "li_deploymentID li = i" using orch_okD(2) [OF assms] by blast
  have "orch_ok (cancel_run tag o1)"
    using orch_ok_touch [OF assms(1) li(1), of "li\<lparr>li_cancelled := True\<rparr>"] li by (simp add: cancel_run_def)
  with li that show thesis by (simp add: cancel_run_def)
qed

lemma cancel_finish_ok:
  assumes "orch_ok o1" "or_live o1 i = Some tag"
  shows "orch_ok (finish_run cfg env tag exit (cancel_run tag o1))"
    "or_live (finish_run cfg env tag exit (cancel_run tag o1)) = (or_live o1)(i := None)"
    "or_insts (finish_run cfg env tag exit (cancel_run tag o1)) = (or_insts o1)(tag := None)"
proof -
  obtain li where C: "or_insts o1 tag = Some li" "li_deploymentID li = i" "orch_ok (cancel_run tag o1)"
    "or_insts (cancel_run tag o1) tag = Some (li\<lparr>li_cancelled := True\<rparr>)"
    "or_live (cancel_run tag o1) = or_live o1" using cancel_run_ok [OF assms] by blast
  note F = finish_run_ok [OF C(3,4), where cfg = cfg and env = env and exit = exit]
  show "orch_ok (finish_run cfg env tag exit (cancel_run tag o1))" by (rule F(1))
  show "or_live (finish_run cfg env tag exit (cancel_run tag o1)) = (or_live o1)(i := None)"
    "or_insts (finish_run cfg env tag exit (cancel_run tag o1)) = (or_insts o1)(tag := None)"
    using F(2) C(2,5) by (simp_all add: torn_down_def cancel_run_def)
qed

lemma Orch_Stop_ok: "orch_ok o1 \<Longrightarrow> orch_ok (fst (Orch_Stop cfg env ended i user o1))"
proof (cases "or_live o1 i")
  case None
  assume "orch_ok o1"
  with None show ?thesis by (simp add: Orch_Stop_def orch_ok_db split: prod.splits)
next
  case (Some tag)
  assume ok: "orch_ok o1"
  show ?thesis
  proof (cases ended)
    case None
    then show ?thesis using cancel_run_ok [OF ok Some] Some by (auto simp: Orch_Stop_def)
  next
    case (Some exit)
    then show ?thesis using cancel_finish_ok(1) [OF ok \<open>or_live o1 i = Some tag\<close>, of cfg env exit] \<open>or_live o1 i = Some tag\<close>
      by (simp add: Orch_Stop_def Let_def orch_ok_db split: prod.splits)
  qed
qed

lemma Orch_Resume_ok:
  assumes "orch_ok o1"
  shows "orch_ok (fst (Orch_Resume cfg env i user apiKey o1))"
proof -
  have "orch_ok (fst (Deploy cfg env dc (o1\<lparr>or_db := db\<rparr>)))" for dc db
    using Deploy_ok assms orch_ok_db by blast
  then show ?thesis using assms
    by (simp add: Orch_Resume_def orch_ok_db split: sum.splits option.splits prod.splits)
qed

lemma HotSwap_stopped:
  fixes cfg :: orch_cfg and env :: deploy_env and exit :: run_exit and i :: string and o1 :: orch
  assumes "orch_ok o1"
  defines "o2 \<equiv> (case or_live o1 i of None \<Rightarrow> o1 | Some tag \<Rightarrow> finish_run cfg env tag exit (cancel_run tag o1))"
  shows "orch_ok o2" "or_live o2 i = None"
  using assms(1) cancel_finish_ok [OF assms(1), of i] by (auto simp: o2_def split: option.splits)

lemma Orch_HotSwap_refused:
  "\<exists>o3 db e. Orch_HotSwap cfg env exit i user revision wasm hash apiKey ob o1 = (o3\<lparr>or_db := db\<rparr>, Some e) \<and>
     o3 = (case or_live o1 i of None \<Rightarrow> o1 | Some tag \<Rightarrow> finish_run cfg env tag exit (cancel_run tag o1))"
proof -
  have "\<exists>e. Deploy cfg env dc o2 = (o2, Some e)" if "dc_Resolution dc = ''''" for dc o2
    using that by (auto simp: Deploy_def deploy_check_def validateForLive_def)
  then show ?thesis
    by (auto simp: Orch_HotSwap_def Let_def split: option.splits prod.splits) (metis DeployConfig.select_convs(8))+
qed

definition recoverable :: "orch_cfg \<Rightarrow> orch \<Rightarrow> Deployment \<Rightarrow> bool" where
  "recoverable cfg o1 d \<longleftrightarrow> d_Resolution d \<noteq> '''' \<and> d_OrderBookID d \<noteq> '''' \<and>
     \<not> (og_hasKernel cfg \<and> fst (IsHalted (d_UserID d) (or_kernel o1)))"

lemma recover_row_cases:
  obtains (marked) db where "recover_row cfg env key d x = ((fst x)\<lparr>or_db := db\<rparr>, snd x)"
  | (skipped) "recover_row cfg env key d x = x"
  | (deployed) dc o2 r where "recoverable cfg (fst x) d" "dc_DeploymentID dc = d_ID d"
      "Deploy cfg env dc (fst x) = (o2, r)"
      "recover_row cfg env key d x = (o2, if r = None then Suc (snd x) else snd x)"
proof (cases "og_hasKernel cfg \<and> fst (IsHalted (d_UserID d) (or_kernel (fst x)))")
  case True
  then show thesis using marked by (simp add: recover_row_def Let_def)
next
  case running: False
  show thesis
  proof (cases "key (d_UserID d)")
    case (Inl e)
    then show thesis using marked running by (simp add: recover_row_def Let_def)
  next
    case key: (Inr apiKey)
    show thesis
    proof (cases "resolveVersion cfg d")
      case (Inl e)
      then show thesis using skipped running key by (simp add: recover_row_def Let_def)
    next
      case (Inr v)
      obtain wasm hash where v: "resolveVersion cfg d = Inr (wasm, hash)" using Inr by (cases v) auto
      show thesis
      proof (cases "d_Resolution d = '''' \<or> d_OrderBookID d = ''''")
        case True
        then show thesis using marked running key v
          by (cases "d_Resolution d = ''''") (simp_all add: recover_row_def Let_def)
      next
        case False
        obtain o2 r where D: "Deploy cfg env (deployConfigFromRow d apiKey wasm hash) (fst x) = (o2, r)" by (metis surj_pair)
        have "recoverable cfg (fst x) d" using running False by (simp add: recoverable_def)
        moreover have "recover_row cfg env key d x = (o2, if r = None then Suc (snd x) else snd x)"
          using running key v False D by (cases r) (auto simp: recover_row_def Let_def)
        ultimately show thesis using deployed [OF _ _ D] by (simp add: deployConfigFromRow_def)
      qed
    qed
  qed
qed

lemma recover_row_ok:
  assumes "orch_ok (fst x)"
  shows "orch_ok (fst (recover_row cfg env key d x))"
proof (cases rule: recover_row_cases [of cfg env key d x])
  case (deployed dc o2 r)
  then show ?thesis using Deploy_ok [OF assms, of cfg env dc] by simp
qed (use assms in \<open>simp_all add: orch_ok_db\<close>)

lemma Orch_Recover_ok:
  assumes "orch_ok o1"
  shows "orch_ok (fst (Orch_Recover cfg env key o1))"
proof -
  have "orch_ok (fst x) \<Longrightarrow> orch_ok (fst (fold (recover_row cfg env k) rows x))" for k rows x
    by (induction rows arbitrary: x) (simp_all add: recover_row_ok)
  from this [of "(o1, 0)"] assms show ?thesis
    by (auto simp: Orch_Recover_def split: option.splits sum.splits prod.splits) (metis fst_conv)+
qed

section \<open>Sequences of operations\<close>

datatype orch_op =
    ODeploy deploy_env DeployConfig
  | OExit deploy_env nat run_exit
  | OStop deploy_env "run_exit option" string string
  | OResume deploy_env string string string
  | OHotSwap deploy_env run_exit string string string string string string string
  | ORecover deploy_env "(string \<Rightarrow> string res) option"
  | OStore dep_db
  | OKernel kernel
  | OBroker broker_op

definition feed_op :: "broker_op \<Rightarrow> bool" where
  "feed_op op \<longleftrightarrow> (case op of OpNote _ \<Rightarrow> True | OpRecv _ \<Rightarrow> True | OpConnect _ \<Rightarrow> True | OpOnFrame _ \<Rightarrow> True
     | OpStop \<Rightarrow> True | _ \<Rightarrow> False)"

text \<open>The store and the kernel may change in any way between operations, and the broker by its traffic.
  A panic of the broker would end the process; without a departure in the middle of a dispatch there
  is none.\<close>

definition orch_op :: "orch_cfg \<Rightarrow> orch_op \<Rightarrow> orch \<Rightarrow> orch" where
  "orch_op cfg op o1 =
     (case op of
        ODeploy env dc \<Rightarrow> fst (Deploy cfg env dc o1)
      | OExit env tag exit \<Rightarrow> finish_run cfg env tag exit o1
      | OStop env ended i user \<Rightarrow> fst (Orch_Stop cfg env ended i user o1)
      | OResume env i user apiKey \<Rightarrow> fst (Orch_Resume cfg env i user apiKey o1)
      | OHotSwap env exit i user revision wasm hash apiKey ob \<Rightarrow>
          fst (Orch_HotSwap cfg env exit i user revision wasm hash apiKey ob o1)
      | ORecover env key \<Rightarrow> fst (Orch_Recover cfg env key o1)
      | OStore db \<Rightarrow> o1\<lparr>or_db := db\<rparr>
      | OKernel k \<Rightarrow> o1\<lparr>or_kernel := k\<rparr>
      | OBroker bop \<Rightarrow> (if feed_op bop then (case broker_op (\<lambda>_. 0) bop (or_broker o1) of
            Inl _ \<Rightarrow> o1 | Inr b \<Rightarrow> o1\<lparr>or_broker := b\<rparr>) else o1))"

lemma orch_ok_broker:
  "orch_ok o1 \<Longrightarrow> broker_inv b \<Longrightarrow> subs_of b = subs_of (or_broker o1) \<Longrightarrow> orch_ok (o1\<lparr>or_broker := b\<rparr>)"
  by (simp add: orch_ok_def)

lemma orch_op_ok:
  assumes "orch_ok o1"
  shows "orch_ok (orch_op cfg op o1)"
proof (cases op)
  case (OExit env tag exit)
  show ?thesis
  proof (cases "or_insts o1 tag")
    case None
    then show ?thesis using OExit assms by (simp add: orch_op_def finish_run_def)
  next
    case (Some li)
    then show ?thesis using OExit finish_run_ok(1) [OF assms Some] by (simp add: orch_op_def)
  qed
next
  case (OHotSwap env exit i user revision wasm hash apiKey ob)
  then show ?thesis using Orch_HotSwap_refused [of cfg env exit i user revision wasm hash apiKey ob o1]
      HotSwap_stopped(1) [OF assms, where cfg = cfg and env = env and exit = exit and i = i]
    by (auto simp: orch_op_def orch_ok_db)
next
  case (OBroker bop)
  from broker_op_refines [OF orch_okD(1) [OF assms], of "\<lambda>_. 0" bop] obtain b where
    b: "broker_op (\<lambda>_. 0) bop (or_broker o1) = Inr b" "broker_inv b"
      "(br_next b, subs_of b) = spec_op bop (br_next (or_broker o1), subs_of (or_broker o1))" by blast
  have "subs_of b = subs_of (or_broker o1)" if "feed_op bop" using that b(3) by (cases bop) (simp_all add: feed_op_def)
  then show ?thesis using OBroker b(1,2) assms orch_ok_broker by (simp add: orch_op_def)
next
  case (OStore db)
  then show ?thesis using assms by (simp add: orch_op_def orch_ok_db)
next
  case (OKernel k)
  then show ?thesis using assms by (simp add: orch_op_def orch_ok_def)
qed (use assms in \<open>simp_all add: orch_op_def Deploy_ok Orch_Stop_ok Orch_Resume_ok Orch_Recover_ok\<close>)

lemma orch_ops_ok: "orch_ok o1 \<Longrightarrow> orch_ok (fold (orch_op cfg) ops o1)"
  by (induction ops arbitrary: o1) (simp_all add: orch_op_ok)

definition idle :: "orch \<Rightarrow> bool" where
  "idle o1 \<longleftrightarrow> or_live o1 = Map.empty \<and> or_insts o1 = Map.empty \<and> broker_inv (or_broker o1) \<and> subs_of (or_broker o1) = []"

lemma idle_ok: "idle o1 \<Longrightarrow> orch_ok o1"
  by (simp add: idle_def orch_ok_def)

text \<open>C18: Over every sequence of deploys, exits, stops, resumes, hot swaps and recoveries, one after the
  other, with any behaviour of the modules, the store and the market data: the running instances are
  exactly those registered, at most one per deployment, and the subscriptions of the broker are
  exactly theirs, each owned by one instance. No failure path leaks a subscription or an instance.\<close>

theorem orchestrator_no_leaks:
  assumes "idle o0" and o1_def: "o1 = fold (orch_op cfg) ops o0"
  shows "(\<forall>i tag. or_live o1 i = Some tag \<longleftrightarrow> (\<exists>li. or_insts o1 tag = Some li \<and> li_deploymentID li = i)) \<and>
    set (subs_of (or_broker o1)) = (\<Union>li\<in>ran (or_insts o1). inst_subs li) \<and>
    (\<forall>t li t' li'. or_insts o1 t = Some li \<and> or_insts o1 t' = Some li' \<and> t \<noteq> t' \<longrightarrow> inst_subs li \<inter> inst_subs li' = {}) \<and>
    (\<forall>t li. or_insts o1 t = Some li \<longrightarrow>
       (\<exists>s. br_heap (or_broker o1) (li_sub li) = Some s \<and> \<not> sub_closed s))"
proof -
  have ok: "orch_ok o1" unfolding o1_def using assms(1) idle_ok orch_ops_ok by blast
  note D = orch_okD [OF ok]
  have "\<exists>s. br_heap (or_broker o1) (li_sub li) = Some s \<and> \<not> sub_closed s" if li: "or_insts o1 t = Some li" for t li
  proof -
    have "li_sub li \<in> inst_subs li" using D(3) [OF li] by (simp add: inst_subs_def)
    then have "li_sub li \<in> set (subs_of (or_broker o1))" using li by (auto simp: D(5) ran_def)
    then show ?thesis using broker_invD(5) [OF D(1)] by blast
  qed
  moreover have "or_live o1 i = Some tag \<longleftrightarrow> (\<exists>li. or_insts o1 tag = Some li \<and> li_deploymentID li = i)" for i tag
    using D(2) [of i tag] D(3) by blast
  ultimately show ?thesis using D(4,5) by blast
qed

section \<open>What a crash does\<close>

lemma constraints_stop:
  assumes "constraints rs" "st \<noteq> StatusRunning"
  shows "constraints (map (\<lambda>r. if P r then status_row now st reason r else r) rs)"
proof -
  let ?g = "\<lambda>r. if P r then status_row now st reason r else r"
  have ids: "map r_id (map ?g rs) = map r_id rs" by (simp add: status_row_def)
  have "running_strategies (map ?g rs) = map r_strategy (filter (\<lambda>r. \<not> P r) (filter (\<lambda>r. r_status r = StatusRunning) rs))"
    using assms(2) by (induction rs) (simp_all add: running_strategies_def status_row_def)
  moreover have "distinct (map r_strategy (filter (\<lambda>r. r_status r = StatusRunning) rs))"
    using assms(1) by (simp add: constraints_def running_strategies_def)
  ultimately have "distinct (running_strategies (map ?g rs))" by (simp only: distinct_map_filter)
  then show ?thesis using assms(1) by (simp only: constraints_def ids)
qed

lemma UpdateStatus_stop:
  assumes "db_up db" "constraints (db_rows db)" "list_ex (row_is i user) (db_rows db)" "st \<noteq> StatusRunning"
  shows "UpdateStatus now i user st reason db =
    (db\<lparr>db_rows := map (\<lambda>r. if row_is i user r then status_row now st reason r else r) (db_rows db)\<rparr>, None)"
  using assms constraints_stop [OF assms(2,4)] by (simp add: UpdateStatus_def row_update_def Let_def)

lemma row_update_keeps_rows:
  assumes "keeps_keys f" "\<And>r. r_user (f r) = r_user r"
  shows "list_ex (row_is i user) (db_rows (fst (row_update j u f db))) = list_ex (row_is i user) (db_rows db)"
proof -
  have "row_is i user (if P then f r else r) = row_is i user r" for P r
    using assms by (simp add: row_is_def keeps_keys_def)
  then have "list_ex (row_is i user) (map (\<lambda>r. if row_is j u r then f r else r) rs) = list_ex (row_is i user) rs" for rs
    by (induction rs) simp_all
  then show ?thesis by (rule_tac row_update_cases [of j u f db]) simp_all
qed

text \<open>C37: The in-process restart of a crashed deployment never happens: the failed instance is still
  registered when the orchestrator tries to deploy again, so that the attempt is refused as a
  duplicate. Whatever the restart budget says, the instance is gone afterwards, no new one runs, and
  the row says crashed.\<close>

theorem crash_never_restarts:
  assumes "orch_ok o1" "or_insts o1 tag = Some li" and o2_def: "o2 = finish_run cfg env tag ExitError o1"
  shows "or_insts o2 = (or_insts o1)(tag := None) \<and> \<not> IsRunning (li_deploymentID li) o2 \<and>
    (\<not> li_cancelled li \<and> db_up (or_db o1) \<and> constraints (db_rows (or_db o1)) \<and>
       list_ex (row_is (li_deploymentID li) (hs_userID (li_state li))) (db_rows (or_db o1)) \<longrightarrow>
     (\<forall>r\<in>set (db_rows (or_db o2)). row_is (li_deploymentID li) (hs_userID (li_state li)) r \<longrightarrow> r_status r = StatusCrashed))"
proof -
  let ?i = "li_deploymentID li" and ?u = "hs_userID (li_state li)" and ?now = "de_now env"
  note F = finish_run_ok [OF assms(1,2), where exit = ExitError and cfg = cfg and env = env, folded o2_def]
  have shape: "or_insts o2 = (or_insts o1)(tag := None)" "\<not> IsRunning ?i o2"
    using F(2) by (simp_all add: torn_down_def IsRunning_def)
  have live: "or_live o1 ?i \<noteq> None" using orch_okD(3) [OF assms(1,2)] by simp
  have "\<forall>r\<in>set (db_rows (or_db o2)). row_is ?i ?u r \<longrightarrow> r_status r = StatusCrashed"
    if "\<not> li_cancelled li" "db_up (or_db o1)" "constraints (db_rows (or_db o1))" "list_ex (row_is ?i ?u) (db_rows (or_db o1))"
  proof -
    define db1 where "db1 = persistCandleCount ?now False (li_state li) (or_db o1)"
    define db2 where "db2 = fst (IncRestart ?now ?i ?u db1)"
    obtain budget ok where B: "Budget_Allow ?now (li_budget li) = (budget, ok)" by (metis surj_pair)
    have crashed: "\<forall>r\<in>set (db_rows (fst (UpdateStatus ?now ?i ?u StatusCrashed reason db))). row_is ?i ?u r \<longrightarrow> r_status r = StatusCrashed"
      if "db_up db" "constraints (db_rows db)" "list_ex (row_is ?i ?u) (db_rows db)" for db reason
      using UpdateStatus_stop [OF that, of StatusCrashed ?now reason]
      by (auto simp: status_row_def row_is_def split: if_splits)
    have keep: "keeps_keys (\<lambda>r. r\<lparr>r_candles := n, r_updated := ?now\<rparr>)" "keeps_keys (\<lambda>r. r\<lparr>r_restarts := r_restarts r + 1, r_updated := ?now\<rparr>)" for n
      by (simp_all add: keeps_keys_def)
    have "db_up db2" "constraints (db_rows db2)" "list_ex (row_is ?i ?u) (db_rows db2)"
      using that row_update_keeps_rows [OF keep(1)] row_update_keeps_rows [OF keep(2)]
      by (simp_all add: db2_def db1_def IncRestart_def persistCandleCount_def SetCandleCount_def ctx_stmt_def
          row_update_constraints)
    note C2 = crashed [OF this] and C1 = crashed [OF that(2-4)]
    have "or_db o2 = (if ok then fst (UpdateStatus ?now ?i ?u StatusCrashed ''in-process restart failed'' db2)
        else fst (UpdateStatus ?now ?i ?u StatusCrashed ''restart budget exhausted'' (or_db o1)))"
      using that(1) F(3) by (simp add: handleRunError_shape [OF live] Let_def B db1_def db2_def ctx_stmt_def)
    then show ?thesis using C1 C2 by (cases ok) simp_all
  qed
  with shape show ?thesis by blast
qed

text \<open>A hot swap always fails: the configuration it deploys has no resolution. The old instance is gone
  by then, so that the deployment no longer runs, whatever its row says.\<close>

theorem hotswap_always_fails:
  assumes "orch_ok o1"
  shows "snd (Orch_HotSwap cfg env exit i user revision wasm hash apiKey ob o1) \<noteq> None \<and>
    \<not> IsRunning i (fst (Orch_HotSwap cfg env exit i user revision wasm hash apiKey ob o1))"
proof -
  obtain o3 db e where H: "Orch_HotSwap cfg env exit i user revision wasm hash apiKey ob o1 = (o3\<lparr>or_db := db\<rparr>, Some e)"
    "o3 = (case or_live o1 i of None \<Rightarrow> o1 | Some tag \<Rightarrow> finish_run cfg env tag exit (cancel_run tag o1))"
    using Orch_HotSwap_refused [of cfg env exit i user revision wasm hash apiKey ob o1] by blast
  then show ?thesis
    using HotSwap_stopped(2) [OF assms, where cfg = cfg and env = env and exit = exit and i = i]
    by (simp add: IsRunning_def)
qed

section \<open>Two deploys at once\<close>

text \<open>Two deploys of one deployment that both pass the duplicate check before either registers its
  instance both start. The map keeps the second; when the first one ends, its teardown removes the
  entry of the second, which goes on running and can no longer be stopped.\<close>

theorem concurrent_deploys_orphan:
  assumes ok: "orch_ok o1" and check: "deploy_check cfg dc o1 = None"
    and s1: "deploy_start cfg env1 dc o1 = (o2, None)" and s2: "deploy_start cfg env2 dc o2 = (o3, None)"
  shows "\<exists>t1 t2 li2. t1 \<noteq> t2 \<and> or_insts o3 t1 \<noteq> None \<and> or_insts o3 t2 = Some li2 \<and>
    li_deploymentID li2 = dc_DeploymentID dc \<and>
    \<not> IsRunning (dc_DeploymentID dc) (finish_run cfg env3 t1 ExitClean o3) \<and>
    (\<forall>env ended user. or_insts (fst (Orch_Stop cfg env ended (dc_DeploymentID dc) user
       (finish_run cfg env3 t1 ExitClean o3))) t2 = Some li2)"
proof -
  let ?i = "dc_DeploymentID dc" and ?t = "or_nextTag o1"
  obtain li1 where 1: "started dc o1 li1 o2"
    using s1 by (rule_tac deploy_start_cases [OF orch_okD(1) [OF ok], of cfg env1 dc]) auto
  then have inv2: "broker_inv (or_broker o2)" by (auto simp: started_def)
  obtain li2 where 2: "started dc o2 li2 o3"
    using s2 by (rule_tac deploy_start_cases [OF inv2, of cfg env2 dc]) auto
  have tag2: "or_nextTag o2 = Suc ?t" "or_insts o2 ?t = Some li1" "li_deploymentID li1 = ?i"
    using 1 by (auto simp: started_def)
  have o3: "or_insts o3 (Suc ?t) = Some li2" "or_insts o3 ?t = Some li1" "li_deploymentID li2 = ?i"
    using 2 tag2 by (auto simp: started_def)
  define o4 where "o4 = finish_run cfg env3 ?t ExitClean o3"
  have o4: "or_live o4 ?i = None" "or_insts o4 (Suc ?t) = Some li2"
    using o3 tag2(3) by (simp_all add: o4_def finish_run_def teardownLive_def)
  have "or_insts (fst (Orch_Stop cfg env ended ?i user o4)) (Suc ?t) = Some li2" for env ended user
    using o4 by (simp add: Orch_Stop_def split: prod.splits)
  moreover have "\<not> IsRunning ?i o4" using o4(1) by (simp add: IsRunning_def)
  moreover have "?t \<noteq> Suc ?t" by simp
  ultimately show ?thesis using o3 unfolding o4_def by (metis option.distinct(1))
qed

section \<open>Recovery\<close>

lemma Deploy_live:
  assumes "orch_ok o1"
  shows "or_kernel (fst (Deploy cfg env dc o1)) = or_kernel o1"
    "or_live (fst (Deploy cfg env dc o1)) =
       (if snd (Deploy cfg env dc o1) = None then (or_live o1)(dc_DeploymentID dc \<mapsto> or_nextTag o1) else or_live o1)"
  by (rule Deploy_cases [OF assms, of cfg env dc]; auto simp: started_def rejected_def)+

lemma recover_row_live:
  assumes "orch_ok (fst x)"
  shows "or_kernel (fst (recover_row cfg env key d x)) = or_kernel (fst x)"
    and "snd (recover_row cfg env key d x) \<le> Suc (snd x)"
    and "or_live (fst (recover_row cfg env key d x)) i \<noteq> None \<Longrightarrow> or_live (fst x) i = None \<Longrightarrow>
      i = d_ID d \<and> recoverable cfg (fst x) d"
proof -
  have "or_kernel (fst (recover_row cfg env key d x)) = or_kernel (fst x) \<and>
    snd (recover_row cfg env key d x) \<le> Suc (snd x) \<and>
    (or_live (fst (recover_row cfg env key d x)) i \<noteq> None \<longrightarrow> or_live (fst x) i = None \<longrightarrow>
      i = d_ID d \<and> recoverable cfg (fst x) d)" for i
  proof (cases rule: recover_row_cases [of cfg env key d x])
    case (deployed dc o2 r)
    then show ?thesis using Deploy_live [OF assms, of cfg env dc] by (auto split: if_splits)
  qed auto
  then show "or_kernel (fst (recover_row cfg env key d x)) = or_kernel (fst x)"
    and "snd (recover_row cfg env key d x) \<le> Suc (snd x)"
    and "or_live (fst (recover_row cfg env key d x)) i \<noteq> None \<Longrightarrow> or_live (fst x) i = None \<Longrightarrow>
      i = d_ID d \<and> recoverable cfg (fst x) d" by blast+
qed

text \<open>The recovery on boot starts only deployments that the store lists as running, whose user is not
  halted and whose resolution and order book are known, and at most one per listed row.\<close>

theorem recover_starts_only_allowed:
  assumes "orch_ok o1" "Orch_Recover cfg env key o1 = (o2, Inr n)"
  shows "\<exists>rows. ListRunning (or_db o1) = Inr rows \<and> n \<le> length rows \<and>
    (\<forall>i. IsRunning i o2 \<and> \<not> IsRunning i o1 \<longrightarrow> (\<exists>d\<in>set rows. d_ID d = i \<and> recoverable cfg o1 d))"
proof -
  obtain k rows where k: "key = Some k" "ListRunning (or_db o1) = Inr rows"
    "fold (recover_row cfg env k) rows (o1, 0) = (o2, n)"
    using assms(2) by (auto simp: Orch_Recover_def split: if_splits option.splits sum.splits prod.splits)
  have "orch_ok (fst x) \<Longrightarrow> snd (fold (recover_row cfg env k) ds x) \<le> snd x + length ds \<and>
    (\<forall>i. or_live (fst (fold (recover_row cfg env k) ds x)) i \<noteq> None \<and> or_live (fst x) i = None \<longrightarrow>
      (\<exists>d\<in>set ds. d_ID d = i \<and> recoverable cfg (fst x) d))" for ds x
  proof (induction ds arbitrary: x)
    case (Cons d ds)
    let ?y = "recover_row cfg env k d x"
    note R = recover_row_live [OF Cons.prems, where cfg = cfg and env = env and key = k and d = d]
    note IH = Cons.IH [OF recover_row_ok [OF Cons.prems, of cfg env k d]]
    have same: "recoverable cfg (fst ?y) d' = recoverable cfg (fst x) d'" for d'
      using R(1) by (simp add: recoverable_def)
    have "\<exists>d'\<in>set (d # ds). d_ID d' = i \<and> recoverable cfg (fst x) d'"
      if "or_live (fst (fold (recover_row cfg env k) ds ?y)) i \<noteq> None" "or_live (fst x) i = None" for i
    proof (cases "or_live (fst ?y) i")
      case None
      then have "\<exists>d'\<in>set ds. d_ID d' = i \<and> recoverable cfg (fst ?y) d'" using IH that(1) by blast
      then show ?thesis by (auto simp: same)
    next
      case (Some t)
      then show ?thesis using R(3) [of i] that(2) by auto
    qed
    moreover have "snd (fold (recover_row cfg env k) ds ?y) \<le> snd x + length (d # ds)" using IH R(2) by simp
    ultimately show ?case by auto
  qed auto
  from this [of "(o1, 0)" rows] show ?thesis using assms(1) k by (auto simp: IsRunning_def)
qed

section \<open>The restart budget\<close>

fun allow_run :: "gtime list \<Rightarrow> RestartBudget \<Rightarrow> (gtime \<times> bool) list" where
  "allow_run [] b = []"
| "allow_run (t # ts) b = (case Budget_Allow t b of (b', ok) \<Rightarrow> (t, ok) # allow_run ts b')"

definition in_span :: "int \<Rightarrow> int \<Rightarrow> gtime list \<Rightarrow> gtime list" where
  "in_span w t us = filter (\<lambda>u. t - w < t_ns u \<and> t_ns u \<le> t) us"

text \<open>The history of the granted restarts, of which the budget remembers those not yet evicted.\<close>

lemma allow_run_bound:
  assumes "0 \<le> w" "w < 2 ^ 63" "rc_Window (rb_cfg b) = w" "rc_MaxRestarts (rb_cfg b) = m"
    and "sorted (map t_ns (hist @ ts))"
    and "\<forall>u\<in>set ts. filter (\<lambda>x. t_ns u - w < t_ns x) hist = filter (\<lambda>x. t_ns u - w < t_ns x) (rb_resets b)"
    and "\<forall>t. int (length (in_span w t hist)) \<le> max 0 m"
  shows "int (length (in_span w t (hist @ map fst (filter snd (allow_run ts b))))) \<le> max 0 m"
  using assms(3-)
proof (induction ts arbitrary: b hist)
  case (Cons now ts)
  have wrap: "wrap64 (- w) = - w" using assms(1,2) by (intro wrap64_id) (simp add: int64_ok_def)
  define live where "live = filter (\<lambda>x. t_ns now - w < t_ns x) (rb_resets b)"
  have hist_live: "filter (\<lambda>x. t_ns now - w < t_ns x) hist = live" using Cons.prems(4) by (simp add: live_def)
  have later: "t_ns now \<le> t_ns u" if "u \<in> set ts" for u using Cons.prems(3) that by (auto simp: sorted_append)
  have before: "t_ns x \<le> t_ns now" if "x \<in> set hist" for x using Cons.prems(3) that by (auto simp: sorted_append)
  have sub: "filter (\<lambda>x. t_ns u - w < t_ns x) hist = filter (\<lambda>x. t_ns u - w < t_ns x) live" if "u \<in> set ts" for u
  proof -
    have "filter (\<lambda>x. t_ns u - w < t_ns x) hist = filter (\<lambda>x. t_ns u - w < t_ns x) (filter (\<lambda>x. t_ns now - w < t_ns x) hist)"
      using later [OF that] by (simp, intro filter_cong) auto
    then show ?thesis by (simp add: hist_live)
  qed
  have allow: "Budget_Allow now b = (if m \<le> int (length live) then (b\<lparr>rb_resets := live\<rparr>, False)
      else (b\<lparr>rb_resets := live @ [now]\<rparr>, True))"
    using Cons.prems(1,2) wrap by (simp add: Budget_Allow_def Let_def live_def time_After_def)
  show ?case
  proof (cases "m \<le> int (length live)")
    case True
    have "sorted (map t_ns (hist @ ts))" using Cons.prems(3) by (auto simp: sorted_append)
    then show ?thesis using Cons.IH [of "b\<lparr>rb_resets := live\<rparr>" hist] Cons.prems(1,2,5) True sub by (simp add: allow)
  next
    case False
    have "int (length (in_span w u (hist @ [now]))) \<le> max 0 m" for u
    proof (cases "u - w < t_ns now \<and> t_ns now \<le> u")
      case True
      have "in_span w u hist = filter (\<lambda>x. u - w < t_ns x \<and> t_ns x \<le> u) live"
        using True by (simp add: in_span_def flip: hist_live) (intro filter_cong, auto)
      then have "length (in_span w u hist) \<le> length live" by simp
      then show ?thesis using True False by (simp add: in_span_def)
    next
      case False
      then have "in_span w u (hist @ [now]) = in_span w u hist" by (auto simp: in_span_def)
      then show ?thesis using Cons.prems(5) by simp
    qed
    then show ?thesis
      using Cons.IH [of "b\<lparr>rb_resets := live @ [now]\<rparr>" "hist @ [now]"] Cons.prems(1-3) False sub by (simp add: allow)
  qed
qed simp

text \<open>However often it is asked, a restart budget grants at most its maximum in any window of its length,
  as long as the clock does not run backwards; and a new budget grants its first request whenever the
  maximum is positive.\<close>

theorem restart_budget_bounded:
  assumes "0 \<le> rc_Window cfg" "rc_Window cfg < 2 ^ 63" "sorted (map t_ns ts)"
  shows "int (length (in_span (rc_Window cfg) t (map fst (filter snd (allow_run ts (NewRestartBudget cfg)))))) \<le> max 0 (rc_MaxRestarts cfg) \<and>
    (0 < rc_MaxRestarts cfg \<longrightarrow> snd (Budget_Allow now (NewRestartBudget cfg)))"
proof
  show "int (length (in_span (rc_Window cfg) t (map fst (filter snd (allow_run ts (NewRestartBudget cfg)))))) \<le> max 0 (rc_MaxRestarts cfg)"
    using allow_run_bound [OF assms(1,2), of "NewRestartBudget cfg" "rc_MaxRestarts cfg" "[]" ts t] assms(3)
    by (simp add: NewRestartBudget_def in_span_def)
  show "0 < rc_MaxRestarts cfg \<longrightarrow> snd (Budget_Allow now (NewRestartBudget cfg))"
    by (simp add: Budget_Allow_def NewRestartBudget_def)
qed

section \<open>Examples\<close>

definition sample_orch :: orch where
  "sample_orch = \<lparr>or_live = Map.empty, or_insts = Map.empty, or_nextTag = 0,
     or_db = \<lparr>db_up = True, db_rows = [sample_row ''d'' 1]\<rparr>, or_broker = sample_broker, or_kernel = sample_kernel\<rparr>"

definition sample_cfg :: orch_cfg where
  "sample_cfg = \<lparr>og_hasBroker = True, og_hasStore = True, og_hasKernel = True, og_hasOrders = True,
     og_restart = \<lparr>rc_Window = 60, rc_MaxRestarts = 1\<rparr>, og_resolver = None\<rparr>"

definition sample_deploy_env :: deploy_env where
  "sample_deploy_env = \<lparr>de_now = \<lparr>t_ns = 5, t_off = 0\<rparr>, de_grow = (\<lambda>_. 0), de_cfgJSON = Inr '''',
     de_load = (\<lambda>_ _. Inr \<lparr>mf_Channels = [''candle''], mf_AssetIDs = [], mf_Warmup = 0\<rparr>),
     de_instantiate = (\<lambda>_. None), de_ctxDone = False\<rparr>"

definition sample_dc :: DeployConfig where
  "sample_dc = \<lparr>dc_DeploymentID = ''d'', dc_StrategyID = ''s'', dc_Revision = ''v1'', dc_UserID = ''u'',
     dc_OrderBookID = ''B'', dc_DoraAPIKey = ''k'', dc_WasmRef = ''w'', dc_Resolution = ''1m'', dc_ManifestHash = ''h'',
     dc_WarmupCandles = 0, dc_Params = []\<rparr>"

lemma sample_orch_idle: "idle sample_orch"
  using sample_broker_ok(1,3) by (simp add: idle_def sample_orch_def)

lemma sample_check: "deploy_check sample_cfg sample_dc sample_orch = None"
  by (simp add: deploy_check_def validateForLive_def sample_dc_def sample_cfg_def sample_orch_def)

lemma sample_start: "\<exists>o2. deploy_start sample_cfg sample_deploy_env sample_dc o1 = (o2, None) \<and>
    or_insts o2 (or_nextTag o1) \<noteq> None \<and> or_db o2 = or_db o1"
  by (simp add: deploy_start_def sample_deploy_env_def hasChannel_def syncWarmupCandles_def Let_def split: prod.splits)

lemma sample_running:
  obtains o2 li where "Deploy sample_cfg sample_deploy_env sample_dc sample_orch = (o2, None)" "orch_ok o2"
    "or_insts o2 0 = Some li" "or_db o2 = or_db sample_orch" "started sample_dc sample_orch li o2"
proof -
  obtain o2 where o2: "deploy_start sample_cfg sample_deploy_env sample_dc sample_orch = (o2, None)"
    "or_db o2 = or_db sample_orch" using sample_start [of sample_orch] by blast
  then have D: "Deploy sample_cfg sample_deploy_env sample_dc sample_orch = (o2, None)"
    by (simp add: Deploy_def sample_check)
  have ok: "orch_ok o2" using Deploy_ok [OF idle_ok [OF sample_orch_idle], of sample_cfg sample_deploy_env sample_dc] by (simp add: D)
  obtain li where "started sample_dc sample_orch li o2"
    using o2(1) orch_okD(1) [OF idle_ok [OF sample_orch_idle]]
    by (rule_tac deploy_start_cases [of sample_orch sample_cfg sample_deploy_env sample_dc]) auto
  moreover from this have "or_insts o2 0 = Some li" by (auto simp: started_def sample_orch_def)
  ultimately show thesis using that D ok o2(2) by blast
qed

theorem orchestrator_no_leaks_witness:
  "\<exists>o1. o1 = fold (orch_op sample_cfg) [ODeploy sample_deploy_env sample_dc] sample_orch \<and>
     or_live o1 ''d'' = Some 0 \<and> set (subs_of (or_broker o1)) = (\<Union>li\<in>ran (or_insts o1). inst_subs li)"
proof -
  obtain o2 li where R: "Deploy sample_cfg sample_deploy_env sample_dc sample_orch = (o2, None)"
    "started sample_dc sample_orch li o2" by (rule sample_running)
  have eq: "o2 = fold (orch_op sample_cfg) [ODeploy sample_deploy_env sample_dc] sample_orch"
    using R(1) by (simp add: orch_op_def)
  have "or_live o2 ''d'' = Some 0" using R(2) by (auto simp: started_def sample_orch_def sample_dc_def)
  moreover note orchestrator_no_leaks [OF sample_orch_idle eq]
  ultimately show ?thesis using eq by blast
qed

theorem crash_never_restarts_witness:
  "\<exists>o1 o2. Deploy sample_cfg sample_deploy_env sample_dc sample_orch = (o1, None) \<and>
     o2 = finish_run sample_cfg sample_deploy_env 0 ExitError o1 \<and> \<not> IsRunning ''d'' o2 \<and>
     (\<forall>r\<in>set (db_rows (or_db o2)). row_is ''d'' ''u'' r \<longrightarrow> r_status r = StatusCrashed)"
proof -
  obtain o1 li where R: "Deploy sample_cfg sample_deploy_env sample_dc sample_orch = (o1, None)" "orch_ok o1"
    "or_insts o1 0 = Some li" "or_db o1 = or_db sample_orch" "started sample_dc sample_orch li o1" by (rule sample_running)
  have li: "li_deploymentID li = ''d''" using R(5) by (auto simp: started_def sample_dc_def)
  have "deploy_start sample_cfg sample_deploy_env sample_dc sample_orch = (o1, None)"
    using R(1) by (simp add: Deploy_def sample_check)
  then have st: "hs_userID (li_state li) = ''u''" "\<not> li_cancelled li"
    using R(3) by (auto simp: deploy_start_def sample_deploy_env_def hasChannel_def
        sample_dc_def sample_orch_def buildLiveHostState_def Let_def split: prod.splits)
  have db: "db_up (or_db o1)" "constraints (db_rows (or_db o1))" "list_ex (row_is ''d'' ''u'') (db_rows (or_db o1))"
    by (simp_all add: R(4) sample_orch_def constraints_def running_strategies_def row_is_def sample_row_def)
  note C = crash_never_restarts [OF R(2,3) refl, of sample_cfg sample_deploy_env, unfolded li st(1)]
  from C db st(2) have "\<not> IsRunning ''d'' (finish_run sample_cfg sample_deploy_env 0 ExitError o1)"
    "\<forall>r\<in>set (db_rows (or_db (finish_run sample_cfg sample_deploy_env 0 ExitError o1))). row_is ''d'' ''u'' r \<longrightarrow> r_status r = StatusCrashed"
    by simp_all
  with R(1) show ?thesis by blast
qed

theorem hotswap_always_fails_witness:
  "snd (Orch_HotSwap sample_cfg sample_deploy_env ExitClean ''d'' ''u'' ''v2'' ''w'' ''h'' ''k'' ''B'' sample_orch) \<noteq> None"
  using hotswap_always_fails [OF idle_ok [OF sample_orch_idle]] by blast

theorem concurrent_deploys_orphan_witness:
  "\<exists>o2 o3 t1 t2. deploy_start sample_cfg sample_deploy_env sample_dc sample_orch = (o2, None) \<and>
     deploy_start sample_cfg sample_deploy_env sample_dc o2 = (o3, None) \<and> t1 \<noteq> t2 \<and>
     \<not> IsRunning ''d'' (finish_run sample_cfg sample_deploy_env t1 ExitClean o3)"
proof -
  obtain o2 where o2: "deploy_start sample_cfg sample_deploy_env sample_dc sample_orch = (o2, None)"
    using sample_start [of sample_orch] by blast
  obtain o3 where o3: "deploy_start sample_cfg sample_deploy_env sample_dc o2 = (o3, None)"
    using sample_start [of o2] by blast
  have "dc_DeploymentID sample_dc = ''d''" by (simp add: sample_dc_def)
  then show ?thesis
    using concurrent_deploys_orphan [OF idle_ok [OF sample_orch_idle] sample_check o2 o3, of sample_deploy_env] o2 o3
    by metis
qed

theorem recover_starts_only_allowed_witness:
  "\<exists>o2 n. Orch_Recover sample_cfg sample_deploy_env (Some (\<lambda>_. Inr ''k'')) sample_orch = (o2, Inr n) \<and> n \<le> 1"
proof -
  have "ListRunning (or_db sample_orch) = Inr [the_dep (sample_row ''d'' 1)]"
    by (simp add: ListRunning_def sample_orch_def sample_row_def the_dep_def scanDeployment_def)
  moreover obtain o2 n where "fold (recover_row sample_cfg sample_deploy_env (\<lambda>_. Inr ''k'')) [the_dep (sample_row ''d'' 1)]
      (sample_orch, 0) = (o2, n)" by (metis surj_pair)
  moreover have "og_hasStore sample_cfg" "\<not> de_ctxDone sample_deploy_env" by (simp_all add: sample_cfg_def sample_deploy_env_def)
  ultimately have run: "Orch_Recover sample_cfg sample_deploy_env (Some (\<lambda>_. Inr ''k'')) sample_orch = (o2, Inr n)"
    by (simp add: Orch_Recover_def)
  from recover_starts_only_allowed [OF idle_ok [OF sample_orch_idle] run]
  show ?thesis using \<open>ListRunning (or_db sample_orch) = Inr [the_dep (sample_row ''d'' 1)]\<close> run by auto
qed

theorem restart_budget_bounded_witness:
  "length (in_span 60 50 (map fst (filter snd (allow_run [\<lparr>t_ns = 1, t_off = 0\<rparr>, \<lparr>t_ns = 9, t_off = 0\<rparr>]
     (NewRestartBudget \<lparr>rc_Window = 60, rc_MaxRestarts = 1\<rparr>))))) \<le> 1"
  using restart_budget_bounded [of "\<lparr>rc_Window = 60, rc_MaxRestarts = 1\<rparr>"
      "[\<lparr>t_ns = 1, t_off = 0\<rparr>, \<lparr>t_ns = 9, t_off = 0\<rparr>]" 50] by simp

section \<open>The candle channel of a new instance\<close>

lemma candle_view_subscribe_frames:
  "candle_view (snd (SubscribeTrades grow ob b)) k = candle_view b k"
  "candle_view (snd (SubscribePrices grow asset b)) k = candle_view b k"
proof -
  have "candle_view (append_sub grow q c) k = candle_view c k" "candle_view (add_key key c) k = candle_view c k"
    "candle_view (write_req r c) k = candle_view c k" for q c key r
    by (simp_all add: append_sub_def add_key_def write_req_def candle_view_def Let_def split: option.splits)
  then show "candle_view (snd (SubscribeTrades grow ob b)) k = candle_view b k"
    "candle_view (snd (SubscribePrices grow asset b)) k = candle_view b k"
    by (simp_all add: SubscribeTrades_def SubscribePrices_def registerSub_def new_sub_def Let_def) (simp_all add: candle_view_def)
qed

lemma SubscribeTrades_frame:
  assumes "broker_inv b" "p < br_next b" "SubscribeTrades grow ob b = (q, b2)"
  shows "broker_inv b2 \<and> br_heap b2 p = br_heap b p \<and> p < br_next b2 \<and> candle_view b2 k = candle_view b k"
  using SubscribeTrades_subscribed [OF assms(1), of ob grow] candle_view_subscribe_frames(1) [of grow ob b k] assms(2,3)
  by (auto simp: subscribed_def)

lemma SubscribePrices_frame:
  assumes "broker_inv b" "p < br_next b" "SubscribePrices grow asset b = (q, b2)"
  shows "broker_inv b2 \<and> br_heap b2 p = br_heap b p \<and> p < br_next b2 \<and> candle_view b2 k = candle_view b k"
  using SubscribePrices_subscribed [OF assms(1), of asset grow] candle_view_subscribe_frames(2) [of grow asset b k] assms(2,3)
  by (auto simp: subscribed_def)

text \<open>What a successful deploy leaves for the candle channel of the new instance.\<close>

lemma Deploy_candle_channel:
  assumes ok: "orch_ok o1" and run: "Deploy cfg env dc o1 = (o2, None)" and all: "dc_OrderBookID dc \<noteq> SubscribeAllOrderBooks"
  obtains tag li s where "or_live o2 (dc_DeploymentID dc) = Some tag" "or_insts o2 tag = Some li" "hs_preamble (li_state li)"
    "hs_candleCh (li_state li) = Some (li_sub li)" "li_sub li \<in> set (subs_of (or_broker o2))"
    "br_heap (or_broker o2) (li_sub li) = Some s" "candle_sub (dc_OrderBookID dc) (dc_Resolution dc) s" "sub_buf s = []"
    "candle_view (or_broker o2) k = candle_view (or_broker o1) k"
proof -
  let ?ob = "dc_OrderBookID dc" and ?res = "dc_Resolution dc"
  note inv = orch_okD(1) [OF ok]
  have check: "deploy_check cfg dc o1 = None" and start: "deploy_start cfg env dc o1 = (o2, None)"
    using run by (auto simp: Deploy_def split: option.splits)
  have ids: "?ob \<noteq> ''''" "?res \<noteq> ''''"
    using check by (auto simp: deploy_check_def validateForLive_def split: option.splits if_splits)
  obtain p b1 where p: "Subscribe (de_grow env) ?ob ?res [''candle''] (or_broker o1) = (p, b1)" by (metis surj_pair)
  define s where "s = \<lparr>sub_OrderBookID = ?ob, sub_Resolution = ?res, sub_AssetID = '''', sub_TypeFilter = [''candle''],
      sub_Channels = [''candle''], sub_buf = [], sub_closed = False\<rparr>"
  have S: "subscribed s (or_broker o1) (p, b1)"
    using Subscribe_subscribed [OF inv, of ?ob ?res "[''candle'']" "de_grow env"] by (simp add: p s_def)
  then have b1: "broker_inv b1" "br_heap b1 p = Some s" "p < br_next b1" by (auto simp: subscribed_def)
  have v1: "candle_view b1 k = candle_view (or_broker o1) k"
    using candle_view_Subscribe [of "de_grow env" ?ob ?res "[''candle'']" "or_broker o1" k] by (simp add: p)
  obtain js m where json: "de_cfgJSON env = Inr js" and load: "de_load env (dc_WasmRef dc) (dc_ManifestHash dc) = Inr m"
    using start by (auto simp: deploy_start_def p split: sum.splits)
  obtain q b2 where q: "(if hasChannel m ''trade'' then SubscribeTrades (de_grow env) ?ob b1 else (0, b1)) = (q, b2)"
    by (metis surj_pair)
  obtain r b3 where r: "(if hasChannel m ''price'' \<and> mf_AssetIDs m \<noteq> []
      then SubscribePrices (de_grow env) (hd (mf_AssetIDs m)) b2 else (0, b2)) = (r, b3)" by (metis surj_pair)
  have b2: "broker_inv b2 \<and> br_heap b2 p = Some s \<and> p < br_next b2 \<and> candle_view b2 k = candle_view b1 k"
    using q b1 SubscribeTrades_frame [OF b1(1,3)] by (auto split: if_splits)
  then have b3: "br_heap b3 p = Some s" "candle_view b3 k = candle_view b2 k"
    using r SubscribePrices_frame [of b2 p] by (auto split: if_splits)
  have inst: "de_instantiate env m = None"
    using start by (auto simp: deploy_start_def p json load q r Let_def split: option.splits)
  define li where "li = the (or_insts o2 (or_nextTag o1))"
  have o2: "or_live o2 (dc_DeploymentID dc) = Some (or_nextTag o1)" "or_insts o2 (or_nextTag o1) = Some li"
    "or_broker o2 = b3" "li_sub li = p" "hs_candleCh (li_state li) = Some p" "hs_preamble (li_state li)"
    using start by (auto simp: deploy_start_def p json load q r inst Let_def li_def buildLiveHostState_def)
  have "orch_ok o2" using Deploy_ok [OF ok, of cfg env dc] run by simp
  note D = orch_okD [OF this]
  have "p \<in> inst_subs li" using D(3) [OF o2(2)] o2(4) by (simp add: inst_subs_def)
  then have "p \<in> set (subs_of (or_broker o2))" using o2(2) by (auto simp: D(5) ran_def)
  moreover have "candle_sub ?ob ?res s" using ids all by (simp add: candle_sub_def s_def)
  moreover have "sub_buf s = []" by (simp add: s_def)
  ultimately show thesis using that [OF o2(1,2,6)] o2 b3 b2 v1 by simp
qed

end
