(* ===== verification/Page_Stream.thy ===== *)
theory Page_Stream
  imports Go_Base
begin

text \<open>
  The event source of a plugin backtest: the page streams of
  \<open>internal/agent/backtest/pagestream.go\<close>, each with its prefetching goroutine, and the merge of three of
  them by time in \<open>mergestream.go\<close>.

  \<^item> A stream is the record \<open>pageStream\<close>: the fields its consumer uses, its three channels of
    capacity one, and where its prefetcher stands (\<open>prefetcher\<close>). A fetch returns an error or rows with the
    cursor of the next page; the type of the rows is a parameter, what counts is their time.
  \<^item> The consumer, \<open>mergeStream.next\<close>, is cut into the steps that touch a channel (\<open>mergePc\<close>), so that the
    three prefetchers may run between any two of them. \<open>merge_act\<close> performs one action of one of
    the goroutines and is \<open>None\<close> when that action would block.
  \<^item> Selecting among ready cases is a choice of the action: a prefetcher may take the case of a
    cancelled context or closed stop channel, and the consumer any wake-up.
\<close>

section \<open>Page streams\<close>

record 'p srow =
  sr_ts :: gtime
  sr_payload :: 'p

record 'p streamPage =
  pg_rows :: "'p srow list"
  pg_cursor :: string
  pg_done :: bool
  pg_err :: "gerror option"

text \<open>A prefetcher is about to fetch from a cursor, to park a page, to wake the merge after parking, to
  wait for the demand of its consumer, or has returned.\<close>

datatype 'p prefetcher =
    PfFetch string
  | PfPark "'p streamPage"
  | PfWake "'p streamPage"
  | PfWait string
  | PfExit

record 'p pageStream =
  ps_rows :: "'p srow list"
  ps_idx :: nat
  ps_done :: bool
  ps_err :: "gerror option"
  ps_cursor :: string
  ps_nextCh :: "'p streamPage option"
  ps_reqNextCh :: bool
  ps_wakeCh :: bool
  ps_stopped :: bool
  ps_pf :: "'p prefetcher"

type_synonym 'p fetcher = "string \<Rightarrow> ('p srow list \<times> string) res"

definition newPageStream :: "string \<Rightarrow> 'p pageStream" where
  "newPageStream startCursor = \<lparr>ps_rows = [], ps_idx = 0, ps_done = False, ps_err = None, ps_cursor = startCursor,
     ps_nextCh = None, ps_reqNextCh = False, ps_wakeCh = False, ps_stopped = False, ps_pf = PfFetch startCursor\<rparr>"

definition fetched_page :: "('p srow list \<times> string) res \<Rightarrow> 'p streamPage" where
  "fetched_page r =
     (case r of
        Inl e \<Rightarrow> \<lparr>pg_rows = [], pg_cursor = '''', pg_done = False, pg_err = Some e\<rparr>
      | Inr (rows, next) \<Rightarrow>
          if rows = [] then \<lparr>pg_rows = [], pg_cursor = '''', pg_done = True, pg_err = None\<rparr>
          else \<lparr>pg_rows = rows, pg_cursor = next, pg_done = False, pg_err = None\<rparr>)"

definition last_page :: "'p streamPage \<Rightarrow> bool" where
  "last_page page \<longleftrightarrow> pg_done page \<or> pg_err page \<noteq> None"

text \<open>One step of \<open>prefetch\<close>. With \<open>stop\<close> it takes the case of the cancelled context or of the stop
  channel.\<close>

definition prefetch_step :: "'p fetcher \<Rightarrow> bool \<Rightarrow> bool \<Rightarrow> 'p pageStream \<Rightarrow> 'p pageStream option" where
  "prefetch_step fetch ctxDone stop ps =
     (let halt = (if ctxDone \<or> ps_stopped ps then Some (ps\<lparr>ps_pf := PfExit\<rparr>) else None) in
      case ps_pf ps of
        PfFetch cursor \<Rightarrow> Some (ps\<lparr>ps_pf := PfPark (fetched_page (fetch cursor))\<rparr>)
      | PfPark page \<Rightarrow>
          if stop then halt
          else if ps_nextCh ps = None then Some (ps\<lparr>ps_nextCh := Some page, ps_pf := PfWake page\<rparr>) else None
      | PfWake page \<Rightarrow>
          Some (ps\<lparr>ps_wakeCh := True, ps_pf := (if last_page page then PfExit else PfWait (pg_cursor page))\<rparr>)
      | PfWait cursor \<Rightarrow>
          if stop then halt
          else if ps_reqNextCh ps then Some (ps\<lparr>ps_reqNextCh := False, ps_pf := PfFetch cursor\<rparr>) else None
      | PfExit \<Rightarrow> None)"

definition installPage :: "'p streamPage \<Rightarrow> 'p pageStream \<Rightarrow> 'p pageStream" where
  "installPage np ps = ps\<lparr>ps_rows := pg_rows np, ps_cursor := pg_cursor np, ps_done := pg_done np,
     ps_err := pg_err np, ps_idx := 0, ps_reqNextCh := True\<rparr>"

text \<open>The non-blocking receive at the start of \<open>peek\<close> and \<open>isDone\<close>.\<close>

definition drain :: "'p pageStream \<Rightarrow> 'p pageStream" where
  "drain ps =
     (if length (ps_rows ps) \<le> ps_idx ps
      then (case ps_nextCh ps of
              Some np \<Rightarrow> installPage np (ps\<lparr>ps_nextCh := None\<rparr>)
            | None \<Rightarrow> ps)
      else ps)"

datatype 'p peeked = PeekErr gerror | PeekRow "'p srow" | PeekNone

definition head_row :: "'p pageStream \<Rightarrow> 'p peeked" where
  "head_row ps =
     (case ps_err ps of
        Some e \<Rightarrow> PeekErr e
      | None \<Rightarrow> if ps_idx ps < length (ps_rows ps) then PeekRow (ps_rows ps ! ps_idx ps) else PeekNone)"

definition peek :: "'p pageStream \<Rightarrow> 'p pageStream \<times> 'p peeked" where
  "peek ps = (let ps1 = drain ps in (ps1, head_row ps1))"

definition consume :: "'p pageStream \<Rightarrow> 'p pageStream" where
  "consume ps = (if ps_idx ps < length (ps_rows ps) then ps\<lparr>ps_idx := Suc (ps_idx ps)\<rparr> else ps)"

definition isDone :: "'p pageStream \<Rightarrow> 'p pageStream \<times> bool" where
  "isDone ps = (let ps1 = drain ps in (ps1, ps_done ps1))"

definition parkedRows :: "'p pageStream \<Rightarrow> nat" where
  "parkedRows ps = length (ps_rows ps) - ps_idx ps"

section \<open>The merge\<close>

datatype eventKind = kindCandle | kindTrade | kindPrice

type_synonym 'p event = "eventKind \<times> 'p srow"

text \<open>The local variables of one pass over the streams.\<close>

record 'p scan =
  sc_pick :: "'p event option"
  sc_firstErr :: "gerror option"
  sc_allFin :: bool
  sc_liveWait :: bool

definition scan_start :: "'p scan" where
  "scan_start = \<lparr>sc_pick = None, sc_firstErr = None, sc_allFin = True, sc_liveWait = False\<rparr>"

text \<open>Where \<open>next\<close> stands: peeking a stream, asking twice whether it is done (for \<open>liveWait\<close> and for
  \<open>allFin\<close>), deciding, blocked in the select, or returned with an event, at the end, or with an error.\<close>

datatype 'p mergePc =
    MPeek eventKind "'p scan"
  | MLive eventKind "'p scan"
  | MFin eventKind "'p scan"
  | MDecide "'p scan"
  | MBlock
  | MReturn "'p event option res"

record 'p mergeStream =
  ms_stream :: "eventKind \<Rightarrow> 'p pageStream"
  ms_pc :: "'p mergePc"
  ms_ctxDone :: bool
  ms_out :: "'p event list"

definition newMergeStream :: "'p mergeStream" where
  "newMergeStream = \<lparr>ms_stream = (\<lambda>_. newPageStream ''''), ms_pc = MPeek kindCandle scan_start, ms_ctxDone = False,
     ms_out = []\<rparr>"

definition after_stream :: "eventKind \<Rightarrow> 'p scan \<Rightarrow> 'p mergePc" where
  "after_stream k sc =
     (case k of kindCandle \<Rightarrow> MPeek kindTrade sc | kindTrade \<Rightarrow> MPeek kindPrice sc | kindPrice \<Rightarrow> MDecide sc)"

definition note_row :: "eventKind \<Rightarrow> 'p srow \<Rightarrow> 'p scan \<Rightarrow> 'p scan" where
  "note_row k row sc =
     (case sc_pick sc of
        None \<Rightarrow> sc\<lparr>sc_pick := Some (k, row)\<rparr>
      | Some (_, earliest) \<Rightarrow> if time_Before (sr_ts row) (sr_ts earliest) then sc\<lparr>sc_pick := Some (k, row)\<rparr> else sc)"

definition note_err :: "gerror \<Rightarrow> 'p scan \<Rightarrow> 'p scan" where
  "note_err e sc = (if sc_firstErr sc = None then sc\<lparr>sc_firstErr := Some e\<rparr> else sc)"

definition set_stream :: "eventKind \<Rightarrow> 'p pageStream \<Rightarrow> 'p mergePc \<Rightarrow> 'p mergeStream \<Rightarrow> 'p mergeStream" where
  "set_stream k ps pc m = m\<lparr>ms_stream := (ms_stream m)(k := ps), ms_pc := pc\<rparr>"

text \<open>One step of \<open>next\<close>; \<open>None\<close> when it has to wait or has returned.\<close>

definition next_step :: "'p mergeStream \<Rightarrow> 'p mergeStream option" where
  "next_step m =
     (case ms_pc m of
        MPeek k sc \<Rightarrow>
          (case peek (ms_stream m k) of
             (ps, PeekErr e) \<Rightarrow> Some (set_stream k ps (after_stream k (note_err e sc)) m)
           | (ps, PeekRow row) \<Rightarrow> Some (set_stream k ps (MFin k (note_row k row sc)) m)
           | (ps, PeekNone) \<Rightarrow> Some (set_stream k ps (MLive k sc) m))
      | MLive k sc \<Rightarrow>
          (case isDone (ms_stream m k) of
             (ps, d) \<Rightarrow> Some (set_stream k ps (MFin k (if d then sc else sc\<lparr>sc_liveWait := True\<rparr>)) m))
      | MFin k sc \<Rightarrow>
          (case isDone (ms_stream m k) of
             (ps, d) \<Rightarrow> Some (set_stream k ps (after_stream k (if d then sc else sc\<lparr>sc_allFin := False\<rparr>)) m))
      | MDecide sc \<Rightarrow>
          (case sc_pick sc of
             Some (k, row) \<Rightarrow>
               if \<not> sc_liveWait sc
               then Some (set_stream k (consume (ms_stream m k)) (MReturn (Inr (Some (k, row)))) m
                      \<lparr>ms_out := ms_out m @ [(k, row)]\<rparr>)
               else if sc_allFin sc
               then Some (m\<lparr>ms_pc := MReturn (case sc_firstErr sc of Some e \<Rightarrow> Inl e | None \<Rightarrow> Inr None)\<rparr>)
               else Some (m\<lparr>ms_pc := MBlock\<rparr>)
           | None \<Rightarrow>
               if sc_allFin sc
               then Some (m\<lparr>ms_pc := MReturn (case sc_firstErr sc of Some e \<Rightarrow> Inl e | None \<Rightarrow> Inr None)\<rparr>)
               else Some (m\<lparr>ms_pc := MBlock\<rparr>))
      | MBlock \<Rightarrow> None
      | MReturn r \<Rightarrow> None)"

text \<open>The actions: a step of a prefetcher or of \<open>next\<close>, a case of its blocking select, the next call of
  \<open>next\<close> after an event, the cancellation of the context, and \<open>close\<close>.\<close>

datatype merge_action =
    APrefetch eventKind bool
  | ANext
  | AWake eventKind
  | ACtxDone
  | ACall
  | ACancel
  | AClose

fun merge_act :: "(eventKind \<Rightarrow> 'p fetcher) \<Rightarrow> merge_action \<Rightarrow> 'p mergeStream \<Rightarrow> 'p mergeStream option" where
  "merge_act fetch (APrefetch k stop) m =
     map_option (\<lambda>ps. m\<lparr>ms_stream := (ms_stream m)(k := ps)\<rparr>)
       (prefetch_step (fetch k) (ms_ctxDone m) stop (ms_stream m k))"
| "merge_act fetch ANext m = next_step m"
| "merge_act fetch (AWake k) m =
     (if ms_pc m = MBlock \<and> ps_wakeCh (ms_stream m k)
      then Some (set_stream k ((ms_stream m k)\<lparr>ps_wakeCh := False\<rparr>) (MPeek kindCandle scan_start) m) else None)"
| "merge_act fetch ACtxDone m =
     (if ms_pc m = MBlock \<and> ms_ctxDone m then Some (m\<lparr>ms_pc := MReturn (Inl ''context canceled'')\<rparr>) else None)"
| "merge_act fetch ACall m =
     (case ms_pc m of MReturn (Inr (Some ev)) \<Rightarrow> Some (m\<lparr>ms_pc := MPeek kindCandle scan_start\<rparr>) | _ \<Rightarrow> None)"
| "merge_act fetch ACancel m = Some (m\<lparr>ms_ctxDone := True\<rparr>)"
| "merge_act fetch AClose m =
     Some (m\<lparr>ms_ctxDone := True, ms_stream := (\<lambda>k. (ms_stream m k)\<lparr>ps_stopped := True\<rparr>)\<rparr>)"

fun merge_acts :: "(eventKind \<Rightarrow> 'p fetcher) \<Rightarrow> merge_action list \<Rightarrow> 'p mergeStream \<Rightarrow> 'p mergeStream option" where
  "merge_acts fetch [] m = Some m"
| "merge_acts fetch (a # as) m = Option.bind (merge_act fetch a m) (merge_acts fetch as)"

end
