(* ===== verification/History_Store.thy ===== *)
theory History_Store
  imports Complex_Main Page_Stream "HOL-Library.List_Lexorder" "HOL-Library.Char_ord" "HOL-Library.Product_Lexorder"
begin

text \<open>
  The history tables a backtest reads, \<open>internal/agent/store/history_store.go\<close>: the opaque cursor, the
  keyset queries for trades and prices, and the query that folds one-minute candles into buckets.

  \<^item> A table is a list of rows; a query is written as it is in SQL, with the order, the keyset
    predicate and the limit. \<open>ht_up\<close> tells whether the database answers.
  \<^item> A column that is not declared \<open>not null\<close> is an option; reading a null into a Go string is an
    error. Numeric columns are rationals, which the program keeps as their text.
  \<^item> Base64 is a pair of functions; the 44 bytes inside are written out.
\<close>

section \<open>Cursors\<close>

definition unix_epoch_ns :: int where
  "unix_epoch_ns = 62135596800 * second_ns"

definition UnixNano :: "gtime \<Rightarrow> int" where
  "UnixNano t = wrap64 (t_ns t - unix_epoch_ns)"

definition be64 :: "int \<Rightarrow> int list" where
  "be64 u = map (\<lambda>k. u div 256 ^ k mod 256) [7, 6, 5, 4, 3, 2, 1, 0]"

definition unbe64 :: "int list \<Rightarrow> int" where
  "unbe64 bs = foldl (\<lambda>u b. u * 256 + b) 0 bs"

definition cursorBytes :: nat where
  "cursorBytes = 44"

definition nilUUID :: string where
  "nilUUID = ''00000000-0000-0000-0000-000000000000''"

definition bytes_of :: "string \<Rightarrow> int list" where
  "bytes_of s = map of_char s"

definition string_of :: "int list \<Rightarrow> string" where
  "string_of bs = map char_of bs"

definition encodeCursor :: "(int list \<Rightarrow> string) \<Rightarrow> gtime \<Rightarrow> string \<Rightarrow> string" where
  "encodeCursor b64 ts i = b64 (take cursorBytes (be64 (UnixNano ts mod 2 ^ 64) @ bytes_of i @ replicate 36 0))"

definition decodeCursor :: "(string \<Rightarrow> int list option) \<Rightarrow> string \<Rightarrow> (gtime \<times> string) res" where
  "decodeCursor unb64 s =
     (case unb64 s of
        None \<Rightarrow> Inl ''history: cursor decode''
      | Some b \<Rightarrow>
          if length b < cursorBytes then Inl ''history: cursor too short''
          else (let u = unbe64 (take 8 b) in
                if 2 ^ 63 - 1 < u then Inl ''history: cursor timestamp overflow''
                else Inr (\<lparr>t_ns = unix_epoch_ns + u, t_off = 0\<rparr>, string_of (drop 8 (take cursorBytes b)))))"

section \<open>Tables\<close>

record hist_trade =
  ht_TransactionID :: string
  ht_OrderBookID :: string
  ht_OrderID :: string
  ht_OrderSeq :: int
  ht_UserID :: string
  ht_Asset0 :: string
  ht_Price :: rat
  ht_Quantity0 :: rat
  ht_Side :: string
  ht_Aggressor :: bool
  ht_CreatedAt :: gtime

record hist_price =
  hp_AssetID :: string
  hp_Price :: "rat option"
  hp_YTM :: "rat option"
  hp_Timestamp :: gtime

record hist_candle =
  hc_OrderBookID :: string
  hc_Start :: gtime
  hc_Open :: "rat option"
  hc_High :: "rat option"
  hc_Low :: "rat option"
  hc_Close :: "rat option"
  hc_Volume :: "rat option"
  hc_OpenYtm :: "rat option"
  hc_HighYtm :: "rat option"
  hc_LowYtm :: "rat option"
  hc_CloseYtm :: "rat option"

record hist_db =
  hd_up :: bool
  hd_trades :: "hist_trade list"
  hd_prices :: "hist_price list"
  hd_candles :: "hist_candle list"
  hd_b64 :: "int list \<Rightarrow> string"
  hd_unb64 :: "string \<Rightarrow> int list option"

definition scan_null :: gerror where
  "scan_null = ''cannot scan NULL into *string''"

section \<open>Keyset pages\<close>

definition inst_id :: "gtime \<Rightarrow> string \<Rightarrow> int \<times> string" where
  "inst_id t i = (t_ns t, i)"

text \<open>\<open>WHERE start <= t AND t < end AND (t, id) > cursor ORDER BY t, id LIMIT n\<close>.\<close>

definition keyset_page :: "('r \<Rightarrow> int \<times> string) \<Rightarrow> gtime \<Rightarrow> gtime \<Rightarrow> gtime \<times> string \<Rightarrow> nat \<Rightarrow> 'r list \<Rightarrow> 'r list" where
  "keyset_page key start end from n rows =
     take n (sort_key key (filter (\<lambda>r. t_ns start \<le> fst (key r) \<and> fst (key r) < t_ns end \<and>
        inst_id (fst from) (snd from) < key r) rows))"

text \<open>The lower bound of a page: the decoded cursor, or just before the window.\<close>

definition page_from :: "(string \<Rightarrow> int list option) \<Rightarrow> gtime \<Rightarrow> string \<Rightarrow> (gtime \<times> string) res" where
  "page_from unb64 start cursor =
     (if cursor \<noteq> '''' then decodeCursor unb64 cursor else Inr (time_Add start (- 1), nilUUID))"

definition next_cursor :: "(int list \<Rightarrow> string) \<Rightarrow> ('r \<Rightarrow> gtime) \<Rightarrow> ('r \<Rightarrow> string) \<Rightarrow> 'r list \<Rightarrow> string" where
  "next_cursor b64 ts i out = (if out = [] then '''' else encodeCursor b64 (ts (last out)) (i (last out)))"

definition FetchTrades :: "hist_db \<Rightarrow> string \<Rightarrow> gtime \<Rightarrow> gtime \<Rightarrow> string \<Rightarrow> nat \<Rightarrow> (hist_trade list \<times> string) res" where
  "FetchTrades db orderBookID start end cursor batchSize =
     rbind (page_from (hd_unb64 db) start cursor) (\<lambda>from.
       if \<not> hd_up db then Inl ''history: fetch trades''
       else let out = keyset_page (\<lambda>t. inst_id (ht_CreatedAt t) (ht_TransactionID t)) start end from batchSize
                        (filter (\<lambda>t. ht_OrderBookID t = orderBookID) (hd_trades db))
            in Inr (out, next_cursor (hd_b64 db) ht_CreatedAt ht_TransactionID out))"

text \<open>\<open>rows.Scan\<close> fails at the first row with a null.\<close>

definition price_complete :: "hist_price \<Rightarrow> bool" where
  "price_complete p \<longleftrightarrow> hp_Price p \<noteq> None \<and> hp_YTM p \<noteq> None"

definition FetchPrices :: "hist_db \<Rightarrow> string \<Rightarrow> gtime \<Rightarrow> gtime \<Rightarrow> string \<Rightarrow> nat \<Rightarrow> (hist_price list \<times> string) res" where
  "FetchPrices db assetID start end cursor batchSize =
     rbind (page_from (hd_unb64 db) start cursor) (\<lambda>from.
       if \<not> hd_up db then Inl ''history: fetch prices''
       else let out = keyset_page (\<lambda>p. inst_id (hp_Timestamp p) (hp_AssetID p)) start end from batchSize
                        (filter (\<lambda>p. hp_AssetID p = assetID) (hd_prices db))
            in if list_all price_complete out
               then Inr (out, next_cursor (hd_b64 db) hp_Timestamp hp_AssetID out)
               else Inl scan_null)"

section \<open>Folding candles\<close>

definition resolutionSeconds :: "string \<Rightarrow> int option" where
  "resolutionSeconds r =
     map_of [(''1m'', 60), (''5m'', 300), (''15m'', 900), (''1h'', 3600), (''4h'', 14400), (''1d'', 86400), (''7d'', 604800)] r"

text \<open>\<open>floor(extract(epoch from t) / s) * s\<close> as an instant.\<close>

definition bucket_start :: "int \<Rightarrow> int \<Rightarrow> int" where
  "bucket_start s t = unix_epoch_ns + (t - unix_epoch_ns) div (s * second_ns) * (s * second_ns)"

definition sql_max :: "rat option list \<Rightarrow> rat option" where
  "sql_max xs = (case List.map_filter id xs of [] \<Rightarrow> None | y # ys \<Rightarrow> Some (foldl max y ys))"

definition sql_min :: "rat option list \<Rightarrow> rat option" where
  "sql_min xs = (case List.map_filter id xs of [] \<Rightarrow> None | y # ys \<Rightarrow> Some (foldl min y ys))"

definition sql_sum :: "rat option list \<Rightarrow> rat option" where
  "sql_sum xs = (case List.map_filter id xs of [] \<Rightarrow> None | y # ys \<Rightarrow> Some (foldl (+) y ys))"

definition coalesce :: "'a option \<Rightarrow> 'a option \<Rightarrow> 'a option" where
  "coalesce x y = (case x of None \<Rightarrow> y | Some a \<Rightarrow> Some a)"

text \<open>The bucket grid from the window's first bucket to that of its last microsecond.\<close>

definition bucket_grid :: "int \<Rightarrow> gtime \<Rightarrow> gtime \<Rightarrow> int list" where
  "bucket_grid s start end =
     (let b0 = bucket_start s (t_ns start); b1 = bucket_start s (t_ns end - 1000) in
      if b1 < b0 then [] else map (\<lambda>i. b0 + int i * (s * second_ns)) [0..<nat ((b1 - b0) div (s * second_ns)) + 1])"

text \<open>One row of \<open>agg\<close>: the minutes of a bucket folded; all null for an empty one.\<close>

definition fold_bucket :: "string \<Rightarrow> int \<Rightarrow> hist_candle list \<Rightarrow> hist_candle" where
  "fold_bucket book g rs =
     \<lparr>hc_OrderBookID = book, hc_Start = \<lparr>t_ns = g, t_off = 0\<rparr>,
      hc_Open = (if rs = [] then None else hc_Open (hd rs)), hc_High = sql_max (map hc_High rs),
      hc_Low = sql_min (map hc_Low rs), hc_Close = (if rs = [] then None else hc_Close (last rs)),
      hc_Volume = sql_sum (map hc_Volume rs),
      hc_OpenYtm = (if rs = [] then None else hc_OpenYtm (hd rs)), hc_HighYtm = sql_max (map hc_HighYtm rs),
      hc_LowYtm = sql_min (map hc_LowYtm rs), hc_CloseYtm = (if rs = [] then None else hc_CloseYtm (last rs))\<rparr>"

definition bucket_rows :: "int \<Rightarrow> hist_candle list \<Rightarrow> int \<Rightarrow> hist_candle list" where
  "bucket_rows s raw g =
     sort_key (\<lambda>c. t_ns (hc_Start c)) (filter (\<lambda>c. bucket_start s (t_ns (hc_Start c)) = g) raw)"

text \<open>The lateral join gives an empty bucket the columns of the last non-empty bucket before it, if any,
  and a zero volume.\<close>

definition forward_fill :: "hist_candle option \<Rightarrow> hist_candle \<Rightarrow> hist_candle" where
  "forward_fill p a = a\<lparr>hc_Open := coalesce (hc_Open a) (Option.bind p hc_Open),
     hc_High := coalesce (hc_High a) (Option.bind p hc_High), hc_Low := coalesce (hc_Low a) (Option.bind p hc_Low),
     hc_Close := coalesce (hc_Close a) (Option.bind p hc_Close), hc_Volume := coalesce (hc_Volume a) (Some 0),
     hc_OpenYtm := coalesce (hc_OpenYtm a) (Option.bind p hc_OpenYtm),
     hc_HighYtm := coalesce (hc_HighYtm a) (Option.bind p hc_HighYtm),
     hc_LowYtm := coalesce (hc_LowYtm a) (Option.bind p hc_LowYtm),
     hc_CloseYtm := coalesce (hc_CloseYtm a) (Option.bind p hc_CloseYtm)\<rparr>"

fun fill_buckets :: "string \<Rightarrow> int \<Rightarrow> hist_candle list \<Rightarrow> hist_candle option \<Rightarrow> int list \<Rightarrow> hist_candle list" where
  "fill_buckets book s raw prev [] = []"
| "fill_buckets book s raw prev (g # gs) =
     (let rs = bucket_rows s raw g; a = fold_bucket book g rs in
      if rs = [] then forward_fill prev a # fill_buckets book s raw prev gs
      else forward_fill None a # fill_buckets book s raw (Some a) gs)"

text \<open>The result of \<open>fetchCandlesSQL\<close> without its keyset and limit.\<close>

definition candle_rows :: "hist_db \<Rightarrow> string \<Rightarrow> int \<Rightarrow> gtime \<Rightarrow> gtime \<Rightarrow> hist_candle list" where
  "candle_rows db book s start end =
     (let raw = filter (\<lambda>c. hc_OrderBookID c = book \<and> t_ns start \<le> t_ns (hc_Start c) \<and> t_ns (hc_Start c) < t_ns end)
                  (hd_candles db)
      in if s \<le> 60 then sort_key (\<lambda>c. t_ns (hc_Start c)) raw else fill_buckets book s raw None (bucket_grid s start end))"

definition candle_complete :: "hist_candle \<Rightarrow> bool" where
  "candle_complete c \<longleftrightarrow> hc_Open c \<noteq> None \<and> hc_High c \<noteq> None \<and> hc_Low c \<noteq> None \<and> hc_Close c \<noteq> None \<and>
     hc_Volume c \<noteq> None \<and> hc_OpenYtm c \<noteq> None \<and> hc_HighYtm c \<noteq> None \<and> hc_LowYtm c \<noteq> None \<and> hc_CloseYtm c \<noteq> None"

definition FetchCandles :: "hist_db \<Rightarrow> string \<Rightarrow> gtime \<Rightarrow> gtime \<Rightarrow> string \<Rightarrow> string \<Rightarrow> nat \<Rightarrow>
    (hist_candle list \<times> string) res" where
  "FetchCandles db orderBookID start end resolution cursor batchSize =
     (case resolutionSeconds resolution of
        None \<Rightarrow> Inl ''history: unknown resolution''
      | Some s \<Rightarrow> rbind (page_from (hd_unb64 db) start cursor) (\<lambda>from.
          if \<not> hd_up db then Inl ''history: fetch candles''
          else let out = take batchSize (filter (\<lambda>c. t_ns (fst from) < t_ns (hc_Start c))
                           (candle_rows db orderBookID s start end))
               in if list_all candle_complete out
                  then Inr (out, next_cursor (hd_b64 db) hc_Start (\<lambda>_. '''') out)
                  else Inl scan_null))"

section \<open>Draining a paged fetch\<close>

text \<open>\<open>fetchAll\<close> of the backtest starter follows cursors until an empty one; a fetch that never
  gives one makes it run forever, which is \<open>None\<close>.\<close>

partial_function (option) fetchAll_from :: "(string \<Rightarrow> ('r list \<times> string) res) \<Rightarrow> string \<Rightarrow> 'r list \<Rightarrow> 'r list res option" where
  "fetchAll_from page cursor all =
     (case page cursor of
        Inl e \<Rightarrow> Some (Inl e)
      | Inr (rows, next) \<Rightarrow>
          if next = '''' then Some (Inr (all @ rows)) else fetchAll_from page next (all @ rows))"

definition fetchAll :: "(string \<Rightarrow> ('r list \<times> string) res) \<Rightarrow> 'r list res option" where
  "fetchAll page = fetchAll_from page '''' []"

end
