(* ===== verification/Page_Stream_Props.thy ===== *)
theory Page_Stream_Props
  imports Page_Stream
begin

text \<open>
  The invariant of one page stream and its prefetcher under every interleaving: no page is lost,
  demand signals are never dropped, and a wake-up is pending whenever a page arrived that the merge has
  not looked at. Then the order in which a scan of the three streams picks a row.
\<close>

named_theorems ps_defs \<open>definitions of the operations of a page stream\<close>

lemmas [ps_defs] = installPage_def drain_def head_row_def peek_def consume_def isDone_def last_page_def

section \<open>What a fetcher serves\<close>

text \<open>The pages a fetcher serves from a cursor and how they end: at an empty page, or with an error.\<close>

inductive serves :: "'p fetcher \<Rightarrow> string \<Rightarrow> 'p srow list list \<Rightarrow> gerror option \<Rightarrow> bool" for fetch where
  serves_fail: "fetch c = Inl e \<Longrightarrow> serves fetch c [] (Some e)"
| serves_end: "fetch c = Inr ([], n) \<Longrightarrow> serves fetch c [] None"
| serves_more: "fetch c = Inr (p, n) \<Longrightarrow> p \<noteq> [] \<Longrightarrow> serves fetch n ps e \<Longrightarrow> serves fetch c (p # ps) e"

inductive_simps serves_Cons: "serves fetch c (p # ps) e"
inductive_cases servesE: "serves fetch c ps e"

definition page_serves :: "'p fetcher \<Rightarrow> 'p streamPage \<Rightarrow> 'p srow list list \<Rightarrow> gerror option \<Rightarrow> bool" where
  "page_serves fetch pg ahead e \<longleftrightarrow>
     (if last_page pg then pg_rows pg = [] \<and> ahead = [] \<and> e = pg_err pg \<and> (pg_done pg \<longleftrightarrow> pg_err pg = None)
      else pg_rows pg \<noteq> [] \<and> (\<exists>qs. ahead = pg_rows pg # qs \<and> serves fetch (pg_cursor pg) qs e))"

lemma page_serves_fetched:
  assumes "serves fetch c ahead e"
  shows "page_serves fetch (fetched_page (fetch c)) ahead e"
  using assms by (cases rule: servesE) (auto simp: page_serves_def fetched_page_def last_page_def)

section \<open>The invariant of a stream\<close>

definition ps_live :: "'p pageStream \<Rightarrow> bool" where
  "ps_live ps \<longleftrightarrow> \<not> ps_done ps \<and> ps_err ps = None"

definition ps_finished :: "'p srow list list \<Rightarrow> gerror option \<Rightarrow> 'p pageStream \<Rightarrow> bool" where
  "ps_finished ahead e ps \<longleftrightarrow> ps_rows ps = [] \<and> ahead = [] \<and> e = ps_err ps \<and> (ps_done ps \<longleftrightarrow> ps_err ps = None)"

text \<open>\<open>ahead\<close> are the pages not yet installed by the consumer, \<open>e\<close> how the stream will end.\<close>

definition stream_inv :: "'p fetcher \<Rightarrow> 'p srow list list \<Rightarrow> gerror option \<Rightarrow> 'p pageStream \<Rightarrow> bool" where
  "stream_inv fetch ahead e ps \<longleftrightarrow> \<not> ps_stopped ps \<and> ps_idx ps \<le> length (ps_rows ps) \<and>
     (case ps_nextCh ps of
        Some pg \<Rightarrow> ps_live ps \<and> \<not> ps_reqNextCh ps \<and> page_serves fetch pg ahead e \<and>
          (ps_pf ps = PfWake pg \<or> ps_pf ps = (if last_page pg then PfExit else PfWait (pg_cursor pg)))
      | None \<Rightarrow>
          (case ps_pf ps of
             PfFetch c \<Rightarrow> ps_live ps \<and> \<not> ps_reqNextCh ps \<and> serves fetch c ahead e
           | PfPark pg \<Rightarrow> ps_live ps \<and> \<not> ps_reqNextCh ps \<and> page_serves fetch pg ahead e
           | PfWake pg \<Rightarrow> ps_reqNextCh ps \<and>
               (if last_page pg then ps_finished ahead e ps else ps_live ps \<and> serves fetch (pg_cursor pg) ahead e)
           | PfWait c \<Rightarrow> ps_reqNextCh ps \<and> ps_live ps \<and> serves fetch c ahead e
           | PfExit \<Rightarrow> ps_finished ahead e ps))"

text \<open>The rows still to be delivered, and the steps the prefetcher has left.\<close>

definition rest_rows :: "'p srow list list \<Rightarrow> 'p pageStream \<Rightarrow> 'p srow list" where
  "rest_rows ahead ps = drop (ps_idx ps) (ps_rows ps) @ concat ahead"

definition pf_left :: "nat \<Rightarrow> 'p pageStream \<Rightarrow> nat" where
  "pf_left n ps =
     (case ps_pf ps of
        PfFetch c \<Rightarrow> 4 * n + 3
      | PfPark pg \<Rightarrow> 4 * n + 2
      | PfWake pg \<Rightarrow> if ps_nextCh ps \<noteq> None then 4 * n + 1 else if last_page pg then 1 else 4 * n + 5
      | PfWait c \<Rightarrow> if ps_nextCh ps \<noteq> None then 4 * n else 4 * n + 4
      | PfExit \<Rightarrow> 0)"

lemma newPageStream_inv:
  "serves fetch c ahead e \<Longrightarrow> stream_inv fetch ahead e (newPageStream c)"
  by (simp add: stream_inv_def newPageStream_def ps_live_def)

lemma prefetch_inv:
  assumes inv: "stream_inv fetch ahead e ps" and step: "prefetch_step fetch False stop ps = Some ps'"
  shows "stream_inv fetch ahead e ps'" "rest_rows ahead ps' = rest_rows ahead ps"
    "pf_left (length ahead) ps' < pf_left (length ahead) ps"
    "ps_err ps' = ps_err ps" "ps_done ps' = ps_done ps" "ps_idx ps' = ps_idx ps" "ps_rows ps' = ps_rows ps"
    "ps_wakeCh ps \<Longrightarrow> ps_wakeCh ps'"
proof -
  have st: "\<not> ps_stopped ps" using inv by (simp add: stream_inv_def)
  have "stream_inv fetch ahead e ps' \<and> pf_left (length ahead) ps' < pf_left (length ahead) ps \<and>
    ps_rows ps' = ps_rows ps \<and> ps_idx ps' = ps_idx ps \<and> ps_err ps' = ps_err ps \<and> ps_done ps' = ps_done ps \<and>
    (ps_wakeCh ps \<longrightarrow> ps_wakeCh ps')"
  proof (cases "ps_pf ps")
    case (PfFetch c)
    then show ?thesis using inv step
      by (auto simp: prefetch_step_def stream_inv_def ps_live_def pf_left_def page_serves_fetched split: option.splits if_splits)
  next
    case (PfPark pg)
    then show ?thesis using inv step st
      by (auto simp: prefetch_step_def stream_inv_def ps_live_def pf_left_def split: option.splits if_splits)
  next
    case (PfWake pg)
    then show ?thesis using inv step
      by (auto simp: prefetch_step_def stream_inv_def ps_live_def ps_finished_def pf_left_def page_serves_def split: option.splits if_splits)
  next
    case (PfWait c)
    then show ?thesis using inv step st
      by (auto simp: prefetch_step_def stream_inv_def ps_live_def pf_left_def split: option.splits if_splits)
  next
    case PfExit
    then show ?thesis using step by (simp add: prefetch_step_def)
  qed
  then show "stream_inv fetch ahead e ps'" "rest_rows ahead ps' = rest_rows ahead ps"
    "pf_left (length ahead) ps' < pf_left (length ahead) ps"
    "ps_err ps' = ps_err ps" "ps_done ps' = ps_done ps" "ps_idx ps' = ps_idx ps" "ps_rows ps' = ps_rows ps"
    "ps_wakeCh ps \<Longrightarrow> ps_wakeCh ps'"
    by (simp_all add: rest_rows_def)
qed

lemma drain_inv:
  assumes inv: "stream_inv fetch ahead e ps"
  obtains ahead' where "stream_inv fetch ahead' e (drain ps)" "rest_rows ahead' (drain ps) = rest_rows ahead ps"
    "pf_left (length ahead') (drain ps) = pf_left (length ahead) ps"
    "ps_pf (drain ps) = ps_pf ps" "ps_wakeCh (drain ps) = ps_wakeCh ps" "ps_idx ps < length (ps_rows ps) \<longrightarrow> drain ps = ps \<and> ahead' = ahead"
    "length (ps_rows (drain ps)) \<le> ps_idx (drain ps) \<longrightarrow> ps_nextCh (drain ps) = None"
proof (cases "length (ps_rows ps) \<le> ps_idx ps \<and> ps_nextCh ps \<noteq> None")
  case False
  then have "drain ps = ps" by (auto simp: drain_def split: option.splits)
  moreover have "length (ps_rows ps) \<le> ps_idx ps \<longrightarrow> ps_nextCh ps = None" using False by auto
  ultimately show thesis using that [of ahead] inv by simp
next
  case True
  then obtain pg where pg: "ps_nextCh ps = Some pg" "length (ps_rows ps) \<le> ps_idx ps" by auto
  have d: "drain ps = installPage pg (ps\<lparr>ps_nextCh := None\<rparr>)" using pg by (simp add: drain_def)
  show thesis
  proof (cases "last_page pg")
    case True
    then show thesis using inv pg
      by (intro that [of ahead]; auto simp: d stream_inv_def installPage_def page_serves_def ps_finished_def
          rest_rows_def pf_left_def)
  next
    case False
    then obtain qs where "ahead = pg_rows pg # qs" "pg_rows pg \<noteq> []" "serves fetch (pg_cursor pg) qs e"
      using inv pg by (auto simp: stream_inv_def page_serves_def)
    then show thesis using False inv pg
      by (intro that [of qs]; auto simp: d stream_inv_def installPage_def ps_live_def last_page_def
          rest_rows_def pf_left_def)
  qed
qed

section \<open>Pending wake-ups\<close>

text \<open>A stream the merge waits for: a wake-up is pending or about to be sent, or nothing has arrived yet.\<close>

definition waiting :: "'p pageStream \<Rightarrow> bool" where
  "waiting ps \<longleftrightarrow> ps_wakeCh ps \<or> (\<exists>pg. ps_pf ps = PfWake pg) \<or>
     (ps_live ps \<and> length (ps_rows ps) \<le> ps_idx ps \<and> ps_nextCh ps = None)"

lemma waiting_prefetch:
  assumes "waiting ps" "prefetch_step fetch False stop ps = Some ps'" "\<not> ps_stopped ps"
  shows "waiting ps'"
  using assms by (cases "ps_pf ps") (auto simp: waiting_def prefetch_step_def ps_live_def split: if_splits)

lemma waiting_drain: "waiting ps \<Longrightarrow> waiting (drain ps)"
  by (auto simp: waiting_def drain_def installPage_def split: option.splits)

lemma waiting_enabled:
  assumes "stream_inv fetch ahead e ps" "waiting ps" "\<not> ps_wakeCh ps"
  shows "prefetch_step fetch False False ps \<noteq> None"
  using assms by (cases "ps_pf ps")
    (auto simp: waiting_def stream_inv_def prefetch_step_def ps_live_def ps_finished_def split: option.splits if_splits)

lemma not_live_finished:
  assumes "stream_inv fetch ahead e ps" "\<not> ps_live ps"
  shows "ps_finished ahead e ps"
  using assms by (auto simp: stream_inv_def split: option.splits prefetcher.splits if_splits)

lemma finished_rest: "ps_finished ahead e ps \<Longrightarrow> rest_rows ahead ps = []"
  by (simp add: ps_finished_def rest_rows_def)

lemma done_rest:
  assumes "stream_inv fetch ahead e ps" "ps_done ps"
  shows "rest_rows ahead ps = []" "e = None"
  using not_live_finished [OF assms(1)] assms(2) by (auto simp: ps_live_def ps_finished_def rest_rows_def)

lemma err_rest:
  assumes "stream_inv fetch ahead e ps" "ps_err ps = Some x"
  shows "rest_rows ahead ps = []" "e = Some x"
  using not_live_finished [OF assms(1)] assms(2) by (auto simp: ps_live_def ps_finished_def rest_rows_def)

lemma row_live:
  assumes "stream_inv fetch ahead e ps" "ps_idx ps < length (ps_rows ps)"
  shows "\<not> ps_done ps" "ps_err ps = None" "rest_rows ahead ps = ps_rows ps ! ps_idx ps # rest_rows ahead (consume ps)"
proof -
  have "ps_live ps" using not_live_finished [OF assms(1)] assms(2) by (cases "ps_live ps") (auto simp: ps_finished_def)
  then show "\<not> ps_done ps" "ps_err ps = None" by (simp_all add: ps_live_def)
  show "rest_rows ahead ps = ps_rows ps ! ps_idx ps # rest_rows ahead (consume ps)"
    using assms(2) by (simp add: rest_rows_def consume_def Cons_nth_drop_Suc)
qed

lemma consume_inv:
  assumes "stream_inv fetch ahead e ps" "ps_idx ps < length (ps_rows ps)"
  shows "stream_inv fetch ahead e (consume ps)" "pf_left n (consume ps) = pf_left n ps"
    "ps_wakeCh (consume ps) = ps_wakeCh ps" "ps_done (consume ps) = ps_done ps"
  using assms by (auto simp: stream_inv_def consume_def ps_live_def ps_finished_def pf_left_def
      split: option.splits prefetcher.splits if_splits)

lemma wake_inv:
  "stream_inv fetch ahead e (ps\<lparr>ps_wakeCh := False\<rparr>) = stream_inv fetch ahead e ps"
  "rest_rows ahead (ps\<lparr>ps_wakeCh := False\<rparr>) = rest_rows ahead ps" "pf_left n (ps\<lparr>ps_wakeCh := False\<rparr>) = pf_left n ps"
  by (auto simp: stream_inv_def rest_rows_def pf_left_def ps_live_def ps_finished_def
      split: option.splits prefetcher.splits if_splits)

section \<open>The order of the merge\<close>

instantiation eventKind :: linorder
begin

definition less_eventKind :: "eventKind \<Rightarrow> eventKind \<Rightarrow> bool" where
  "less_eventKind j k \<longleftrightarrow> j = kindCandle \<and> k \<noteq> kindCandle \<or> j = kindTrade \<and> k = kindPrice"

definition less_eq_eventKind :: "eventKind \<Rightarrow> eventKind \<Rightarrow> bool" where
  "less_eq_eventKind j k \<longleftrightarrow> j = k \<or> j < (k :: eventKind)"

instance
  by standard (auto simp: less_eq_eventKind_def less_eventKind_def, (metis eventKind.exhaust)+)

end

lemma kind_less [simp]:
  "kindCandle < kindTrade" "kindCandle < kindPrice" "kindTrade < kindPrice"
  "\<not> k < kindCandle" "\<not> kindPrice < k" "\<not> kindTrade < kindCandle"
  by (cases k; simp add: less_eventKind_def)+

lemma all_kinds: "(\<forall>k. P k) \<longleftrightarrow> P kindCandle \<and> P kindTrade \<and> P kindPrice"
  by (metis eventKind.exhaust)

definition ev_ns :: "'p event \<Rightarrow> int" where
  "ev_ns ev = t_ns (sr_ts (snd ev))"

definition row_ns :: "'p srow \<Rightarrow> int" where
  "row_ns r = t_ns (sr_ts r)"

lemma ev_ns_pair [simp]: "ev_ns (k, r) = row_ns r"
  by (simp add: ev_ns_def row_ns_def)

text \<open>The reference: all rows with their kind, sorted by time; the sort is stable, so that at the same
  time candles come before trades and trades before prices.\<close>

definition all_events :: "(eventKind \<Rightarrow> 'p srow list) \<Rightarrow> 'p event list" where
  "all_events R = concat (map (\<lambda>k. map (Pair k) (R k)) [kindCandle, kindTrade, kindPrice])"

definition merged :: "(eventKind \<Rightarrow> 'p srow list) \<Rightarrow> 'p event list" where
  "merged R = sort_key ev_ns (all_events R)"

lemma sort_key_head:
  assumes "\<forall>a\<in>set as. f x < f a" "\<forall>b\<in>set bs. f x \<le> f b"
  shows "sort_key f (as @ x # bs) = x # sort_key f (as @ bs)"
  using assms(1)
proof (induction as)
  case Nil
  have "insort_key f x ys = x # ys" if "\<forall>y\<in>set ys. f x \<le> f y" for ys using that by (cases ys) simp_all
  then show ?case using assms(2) by simp
qed auto

end
