(* ===== verification/Page_Stream_Correct.thy ===== *)
theory Page_Stream_Correct
  imports Page_Stream_Props
begin

text \<open>
  The merge delivers the rows of the three streams in the order of a stable sort by time and then
  ends, under every schedule of the three prefetchers; no schedule blocks it, and every schedule is
  finite.
\<close>

section \<open>A scan finds the next row\<close>

definition best :: "eventKind list \<Rightarrow> (eventKind \<Rightarrow> 'p srow list) \<Rightarrow> 'p event option \<Rightarrow> bool" where
  "best ks R x \<longleftrightarrow>
     (case x of
        None \<Rightarrow> \<forall>j\<in>set ks. R j = []
      | Some (k, row) \<Rightarrow> k \<in> set ks \<and> (\<exists>rs. R k = row # rs) \<and>
          (\<forall>j\<in>set ks. R j \<noteq> [] \<longrightarrow> (j < k \<longrightarrow> row_ns row < row_ns (hd (R j))) \<and>
             (k < j \<longrightarrow> row_ns row \<le> row_ns (hd (R j)))))"

fun first_err :: "eventKind list \<Rightarrow> (eventKind \<Rightarrow> gerror option) \<Rightarrow> gerror option" where
  "first_err [] e = None"
| "first_err (k # ks) e = (case e k of None \<Rightarrow> first_err ks e | Some x \<Rightarrow> Some x)"

fun before :: "eventKind \<Rightarrow> eventKind list" where
  "before kindCandle = []"
| "before kindTrade = [kindCandle]"
| "before kindPrice = [kindCandle, kindTrade]"

abbreviation kinds :: "eventKind list" where
  "kinds \<equiv> [kindCandle, kindTrade, kindPrice]"

lemma best_skip: "best ks R x \<Longrightarrow> R k = [] \<Longrightarrow> best (ks @ [k]) R x"
  by (auto simp: best_def split: option.splits)

lemma best_note:
  assumes "best ks R (sc_pick sc)" "R k = row # rs" "\<forall>j\<in>set ks. j < k"
  shows "best (ks @ [k]) R (sc_pick (note_row k row sc))"
  using assms by (cases "sc_pick sc")
    (auto simp: best_def note_row_def time_Before_def row_ns_def split: prod.splits)

lemma first_err_snoc: "first_err (ks @ [k]) e = (case first_err ks e of None \<Rightarrow> e k | Some x \<Rightarrow> Some x)"
  by (induction ks) (auto split: option.splits)

lemma merged_empty: "(\<forall>k. R k = []) \<Longrightarrow> merged R = []"
  by (simp add: merged_def all_events_def)

lemma merged_pick:
  assumes best: "best kinds R (Some (k, row))" and srt: "\<forall>k. sorted (map row_ns (R k))" and rs: "R k = row # rs"
  shows "merged R = (k, row) # merged (R(k := rs))"
proof -
  have hd: "\<forall>x\<in>set (R j). row_ns (hd (R j)) \<le> row_ns x" for j
    using spec [OF srt, of j] by (cases "R j") auto
  have lt: "\<forall>x\<in>set (R j). row_ns row < row_ns x" if "j < k" for j
    using best that hd [of j] by (cases "R j"; cases j) (auto simp: best_def)
  have le: "\<forall>x\<in>set (R j). row_ns row \<le> row_ns x" if "k < j" for j
    using best that hd [of j] by (cases "R j"; cases j) (auto simp: best_def)
  have own: "\<forall>x\<in>set rs. row_ns row \<le> row_ns x" using hd [of k] rs by simp
  let ?tag = "\<lambda>j. map (Pair j) (R j)"
  obtain as bs where ab: "all_events R = as @ (k, row) # bs" "all_events (R(k := rs)) = as @ bs"
    "\<forall>a\<in>set as. row_ns row < ev_ns a" "\<forall>b\<in>set bs. row_ns row \<le> ev_ns b"
  proof (cases k)
    case kindCandle
    then show thesis using le [of kindTrade] le [of kindPrice] own rs
      by (intro that [of "[]" "map (Pair k) rs @ ?tag kindTrade @ ?tag kindPrice"]) (auto simp: all_events_def)
  next
    case kindTrade
    then show thesis using lt [of kindCandle] le [of kindPrice] own rs
      by (intro that [of "?tag kindCandle" "map (Pair k) rs @ ?tag kindPrice"]) (auto simp: all_events_def)
  next
    case kindPrice
    then show thesis using lt [of kindCandle] lt [of kindTrade] own rs
      by (intro that [of "?tag kindCandle @ ?tag kindTrade" "map (Pair k) rs"]) (auto simp: all_events_def)
  qed
  then show ?thesis using sort_key_head [of as ev_ns "(k, row)" bs] by (simp add: merged_def)
qed

section \<open>The invariant of the merge\<close>

definition has_row :: "'p pageStream \<Rightarrow> bool" where
  "has_row ps \<longleftrightarrow> ps_idx ps < length (ps_rows ps)"

definition scan_ok :: "(eventKind \<Rightarrow> 'p srow list) \<Rightarrow> (eventKind \<Rightarrow> gerror option) \<Rightarrow> (eventKind \<Rightarrow> 'p pageStream) \<Rightarrow>
    eventKind list \<Rightarrow> eventKind list \<Rightarrow> 'p scan \<Rightarrow> bool" where
  "scan_ok R e st ks fs sc \<longleftrightarrow>
     (\<not> sc_liveWait sc \<longrightarrow> best ks R (sc_pick sc)) \<and>
     (\<forall>k row. sc_pick sc = Some (k, row) \<longrightarrow> has_row (st k)) \<and>
     (sc_liveWait sc \<longrightarrow> (\<exists>j. waiting (st j))) \<and>
     (if sc_allFin sc then (\<forall>j\<in>set fs. R j = []) \<and> sc_firstErr sc = first_err fs e
      else sc_liveWait sc \<or> (\<exists>j\<in>set fs. R j \<noteq> []))"

definition pc_ok :: "(eventKind \<Rightarrow> 'p srow list) \<Rightarrow> (eventKind \<Rightarrow> gerror option) \<Rightarrow> (eventKind \<Rightarrow> 'p pageStream) \<Rightarrow>
    'p mergePc \<Rightarrow> bool" where
  "pc_ok R e st pc \<longleftrightarrow>
     (case pc of
        MPeek k sc \<Rightarrow> scan_ok R e st (before k) (before k) sc
      | MLive k sc \<Rightarrow> scan_ok R e st (before k) (before k) sc \<and> (ps_done (st k) \<or> waiting (st k))
      | MFin k sc \<Rightarrow> scan_ok R e st (before k @ [k]) (before k) sc \<and>
          (has_row (st k) \<or> ps_done (st k) \<or> sc_liveWait sc)
      | MDecide sc \<Rightarrow> scan_ok R e st kinds kinds sc
      | MBlock \<Rightarrow> \<exists>j. waiting (st j)
      | MReturn (Inr (Some ev)) \<Rightarrow> True
      | MReturn (Inr None) \<Rightarrow> (\<forall>k. R k = []) \<and> first_err kinds e = None
      | MReturn (Inl x) \<Rightarrow> (\<forall>k. R k = []) \<and> first_err kinds e = Some x)"

definition rest :: "(eventKind \<Rightarrow> 'p srow list list) \<Rightarrow> (eventKind \<Rightarrow> 'p pageStream) \<Rightarrow> eventKind \<Rightarrow> 'p srow list" where
  "rest ahead st k = rest_rows (ahead k) (st k)"

definition streams_inv :: "(eventKind \<Rightarrow> 'p fetcher) \<Rightarrow> (eventKind \<Rightarrow> gerror option) \<Rightarrow>
    (eventKind \<Rightarrow> 'p srow list list) \<Rightarrow> (eventKind \<Rightarrow> 'p pageStream) \<Rightarrow> bool" where
  "streams_inv fetch e ahead st \<longleftrightarrow> (\<forall>k. stream_inv (fetch k) (ahead k) (e k) (st k))"

definition merge_inv :: "(eventKind \<Rightarrow> 'p fetcher) \<Rightarrow> (eventKind \<Rightarrow> gerror option) \<Rightarrow> 'p event list \<Rightarrow>
    (eventKind \<Rightarrow> 'p srow list list) \<Rightarrow> 'p mergeStream \<Rightarrow> bool" where
  "merge_inv fetch e evs ahead m \<longleftrightarrow>
     streams_inv fetch e ahead (ms_stream m) \<and> (\<forall>k. sorted (map row_ns (rest ahead (ms_stream m) k))) \<and>
     evs = ms_out m @ merged (rest ahead (ms_stream m)) \<and> \<not> ms_ctxDone m \<and>
     pc_ok (rest ahead (ms_stream m)) e (ms_stream m) (ms_pc m)"

text \<open>The measure: what the prefetchers have left, pending wake-ups, rows to deliver, and the position
  of the scan.\<close>

definition scan_pos :: "'p mergePc \<Rightarrow> nat" where
  "scan_pos pc =
     (case pc of
        MPeek k sc \<Rightarrow> 10 - 3 * length (before k)
      | MLive k sc \<Rightarrow> 9 - 3 * length (before k)
      | MFin k sc \<Rightarrow> 8 - 3 * length (before k)
      | MDecide sc \<Rightarrow> 1
      | MBlock \<Rightarrow> 0
      | MReturn r \<Rightarrow> (case r of Inr (Some _) \<Rightarrow> 11 | _ \<Rightarrow> 0))"

definition stream_left :: "'p srow list list \<Rightarrow> 'p pageStream \<Rightarrow> nat" where
  "stream_left ahead ps = 2 * pf_left (length ahead) ps + (if ps_wakeCh ps then 1 else 0) + length (rest_rows ahead ps)"

definition streams_left :: "(eventKind \<Rightarrow> 'p srow list list) \<Rightarrow> (eventKind \<Rightarrow> 'p pageStream) \<Rightarrow> nat" where
  "streams_left ahead st = (\<Sum>k\<leftarrow>kinds. stream_left (ahead k) (st k))"

definition merge_left :: "(eventKind \<Rightarrow> 'p srow list list) \<Rightarrow> 'p mergeStream \<Rightarrow> nat" where
  "merge_left ahead m = 16 * streams_left ahead (ms_stream m) + scan_pos (ms_pc m)"

lemma streams_left_upd:
  "streams_left (ahead(k := a)) (st(k := ps)) + stream_left (ahead k) (st k) = streams_left ahead st + stream_left a ps"
  "streams_left ahead (st(k := ps)) + stream_left (ahead k) (st k) = streams_left ahead st + stream_left (ahead k) ps"
  by (cases k; simp add: streams_left_def)+

text \<open>A change of the streams that takes away neither a reason to wake up nor a row.\<close>

definition grows :: "(eventKind \<Rightarrow> 'p pageStream) \<Rightarrow> (eventKind \<Rightarrow> 'p pageStream) \<Rightarrow> bool" where
  "grows st st' \<longleftrightarrow> (\<forall>j. (waiting (st j) \<longrightarrow> waiting (st' j)) \<and> (has_row (st j) \<longrightarrow> has_row (st' j)))"

lemma scan_ok_mono: "scan_ok R e st ks fs sc \<Longrightarrow> grows st st' \<Longrightarrow> scan_ok R e st' ks fs sc"
  unfolding scan_ok_def grows_def by (cases "sc_allFin sc") (simp, blast)+

lemma pc_ok_mono:
  assumes "pc_ok R e st pc" "grows st st'" "\<And>k. ps_done (st k) \<Longrightarrow> ps_done (st' k)"
  shows "pc_ok R e st' pc"
proof (cases pc)
  case (MLive k sc)
  then show ?thesis using assms scan_ok_mono [OF _ assms(2)] by (auto simp: pc_ok_def grows_def)
next
  case (MFin k sc)
  then show ?thesis using assms scan_ok_mono [OF _ assms(2)] by (auto simp: pc_ok_def grows_def)
next
  case MBlock
  then show ?thesis using assms by (auto simp: pc_ok_def grows_def)
qed (use assms scan_ok_mono [OF _ assms(2)] in \<open>auto simp: pc_ok_def\<close>)

lemma streams_drain:
  assumes inv: "streams_inv fetch e ahead st" and st': "st' = st(k := drain (st k))"
  obtains ahead' where "streams_inv fetch e ahead' st'" "rest ahead' st' = rest ahead st"
    "streams_left ahead' st' = streams_left ahead st" "grows st st'"
    "has_row (st k) \<Longrightarrow> st' k = st k" "\<not> has_row (st' k) \<Longrightarrow> ps_nextCh (st' k) = None"
proof -
  have "stream_inv (fetch k) (ahead k) (e k) (st k)" using inv by (simp add: streams_inv_def)
  then obtain a where a: "stream_inv (fetch k) a (e k) (drain (st k))" "rest_rows a (drain (st k)) = rest_rows (ahead k) (st k)"
    "pf_left (length a) (drain (st k)) = pf_left (length (ahead k)) (st k)" "ps_wakeCh (drain (st k)) = ps_wakeCh (st k)"
    "has_row (st k) \<longrightarrow> drain (st k) = st k" "\<not> has_row (drain (st k)) \<longrightarrow> ps_nextCh (drain (st k)) = None"
    by (rule drain_inv) (auto simp: has_row_def)
  show thesis
  proof (rule that [of "ahead(k := a)"])
    show "streams_inv fetch e (ahead(k := a)) st'" using inv a(1) by (simp add: streams_inv_def st')
    show "rest (ahead(k := a)) st' = rest ahead st" using a(2) by (auto simp: rest_def st')
    show "streams_left (ahead(k := a)) st' = streams_left ahead st"
      using a(2-4) streams_left_upd(1) [of ahead k a st "drain (st k)"] by (simp add: st' stream_left_def)
    have "waiting (st j) \<longrightarrow> waiting (st' j)" "has_row (st j) \<longrightarrow> has_row (st' j)" for j
      using a(5) by (cases "j = k"; simp add: st' waiting_drain)+
    then show "grows st st'" by (simp add: grows_def)
  qed (use a(5,6) in \<open>simp_all add: st'\<close>)
qed

section \<open>Every action keeps the invariant\<close>

lemma stream_row:
  assumes "streams_inv fetch e ahead st" "has_row (st k)"
  shows "\<not> ps_done (st k)" "ps_err (st k) = None" "rest ahead st k = ps_rows (st k) ! ps_idx (st k) # rest ahead (st(k := consume (st k))) k"
  using row_live [of "fetch k" "ahead k" "e k" "st k"] assms by (simp_all add: streams_inv_def has_row_def rest_def)

lemma stream_done:
  assumes "streams_inv fetch e ahead st" "ps_done (st k)"
  shows "rest ahead st k = []" "e k = None"
  using done_rest [of "fetch k" "ahead k" "e k" "st k"] assms by (simp_all add: streams_inv_def rest_def)

lemma stream_err:
  assumes "streams_inv fetch e ahead st" "ps_err (st k) = Some x"
  shows "rest ahead st k = []" "e k = Some x"
  using err_rest [of "fetch k" "ahead k" "e k" "st k"] assms by (simp_all add: streams_inv_def rest_def)

lemma before_less: "j \<in> set (before k) \<Longrightarrow> j < k"
  by (cases k) auto

lemma pc_after:
  assumes "scan_ok R e st (before k @ [k]) (before k @ [k]) sc"
  shows "pc_ok R e st (after_stream k sc)" "scan_pos (after_stream k sc) \<le> 7 - 3 * length (before k)"
  using assms by (cases k; simp add: pc_ok_def after_stream_def scan_pos_def)+

lemma prefetch_step_inv:
  assumes inv: "merge_inv fetch e evs ahead m" and step: "merge_act fetch (APrefetch k stop) m = Some m'"
  shows "merge_inv fetch e evs ahead m'" "merge_left ahead m' < merge_left ahead m"
proof -
  let ?st = "ms_stream m"
  have I: "streams_inv fetch e ahead ?st" "\<not> ms_ctxDone m" using inv by (simp_all add: merge_inv_def)
  obtain ps where ps: "prefetch_step (fetch k) False stop (?st k) = Some ps" "m' = m\<lparr>ms_stream := ?st(k := ps)\<rparr>"
    using step I(2) by auto
  have Ik: "stream_inv (fetch k) (ahead k) (e k) (?st k)" using I(1) by (simp add: streams_inv_def)
  note P = prefetch_inv [OF Ik ps(1)]
  have st: "\<not> ps_stopped (?st k)" using Ik by (simp add: stream_inv_def)
  have R: "rest ahead (?st(k := ps)) = rest ahead ?st" using P(2) by (auto simp: rest_def)
  have W: "waiting (?st k) \<Longrightarrow> waiting ps" by (rule waiting_prefetch [OF _ ps(1) st])
  have grows: "grows ?st (?st(k := ps))" using W P(6,7) by (simp add: grows_def has_row_def)
  have dn: "ps_done (?st j) \<Longrightarrow> ps_done ((?st(k := ps)) j)" for j using P(5) by (cases "j = k") simp_all
  have "pc_ok (rest ahead ?st) e ?st (ms_pc m)" using inv by (simp add: merge_inv_def)
  from pc_ok_mono [OF this grows dn] have "pc_ok (rest ahead ?st) e (?st(k := ps)) (ms_pc m)" .
  then show "merge_inv fetch e evs ahead m'" using inv P(1) I(1)
    by (simp add: merge_inv_def R ps(2) streams_inv_def)
  show "merge_left ahead m' < merge_left ahead m"
    using P(2,3) streams_left_upd(2) [of ahead ?st k ps] by (simp add: merge_left_def ps(2) stream_left_def split: if_splits)
qed


lemma next_step_inv:
  assumes inv: "merge_inv fetch e evs ahead m" and step: "next_step m = Some m'"
  shows "\<exists>ahead'. merge_inv fetch e evs ahead' m' \<and> merge_left ahead' m' < merge_left ahead m"
proof -
  let ?st = "ms_stream m" and ?R = "rest ahead (ms_stream m)"
  have I: "streams_inv fetch e ahead ?st" "\<forall>k. sorted (map row_ns (?R k))" "evs = ms_out m @ merged ?R"
    "\<not> ms_ctxDone m" "pc_ok ?R e ?st (ms_pc m)" using inv by (simp_all add: merge_inv_def)
  text \<open>A step that only drains stream \<open>k\<close> and moves to \<open>pc\<close>.\<close>
  have move: ?thesis if m': "m' = set_stream k (drain (?st k)) pc m" and pos: "scan_pos pc < scan_pos (ms_pc m)"
    and ok: "\<And>a. streams_inv fetch e a (?st(k := drain (?st k))) \<Longrightarrow> rest a (?st(k := drain (?st k))) = ?R \<Longrightarrow>
      grows ?st (?st(k := drain (?st k))) \<Longrightarrow> (has_row (?st k) \<Longrightarrow> drain (?st k) = ?st k) \<Longrightarrow>
      (\<not> has_row (drain (?st k)) \<Longrightarrow> ps_nextCh (drain (?st k)) = None) \<Longrightarrow> pc_ok ?R e (?st(k := drain (?st k))) pc" for k pc
  proof -
    obtain a where a: "streams_inv fetch e a (?st(k := drain (?st k)))" "rest a (?st(k := drain (?st k))) = ?R"
      "streams_left a (?st(k := drain (?st k))) = streams_left ahead ?st" "grows ?st (?st(k := drain (?st k)))"
      "has_row (?st k) \<Longrightarrow> drain (?st k) = ?st k" "\<not> has_row (drain (?st k)) \<Longrightarrow> ps_nextCh (drain (?st k)) = None"
      using streams_drain [OF I(1) refl, of k] by (metis fun_upd_same)
    from ok [OF a(1,2,4-6)] have "merge_inv fetch e evs a m'" using I a(1,2) by (simp add: merge_inv_def m' set_stream_def)
    then show ?thesis using pos a(3) by (auto simp: merge_left_def m' set_stream_def)
  qed
  show ?thesis
  proof (cases "ms_pc m")
    case (MPeek k sc)
    let ?d = "drain (?st k)" and ?st' = "?st(k := drain (?st k))"
    have S: "scan_ok ?R e ?st (before k) (before k) sc" using I(5) MPeek by (simp add: pc_ok_def)
    show ?thesis
    proof (cases "head_row ?d")
      case (PeekErr x)
      have err: "ps_err ?d = Some x" using PeekErr by (auto simp: head_row_def split: option.splits if_splits)
      show ?thesis
      proof (rule move)
        show "m' = set_stream k ?d (after_stream k (note_err x sc)) m"
          using step MPeek PeekErr by (simp add: next_step_def peek_def Let_def)
        show "scan_pos (after_stream k (note_err x sc)) < scan_pos (ms_pc m)"
          by (cases k; simp add: MPeek scan_pos_def after_stream_def)
        fix a assume a: "streams_inv fetch e a ?st'" "rest a ?st' = ?R" "grows ?st ?st'"
        have E: "?R k = []" "e k = Some x" using stream_err [OF a(1), of k x] err a(2) by simp_all
        have "scan_ok ?R e ?st' (before k @ [k]) (before k @ [k]) (note_err x sc)"
          using scan_ok_mono [OF S a(3)] E best_skip [of "before k" ?R "sc_pick sc" k]
          by (auto simp: scan_ok_def note_err_def first_err_snoc split: option.splits if_splits)
        then show "pc_ok ?R e ?st' (after_stream k (note_err x sc))" by (rule pc_after)
      qed
    next
      case (PeekRow row)
      have row: "has_row ?d" "row = ps_rows ?d ! ps_idx ?d" using PeekRow
        by (auto simp: head_row_def has_row_def split: option.splits if_splits)
      show ?thesis
      proof (rule move)
        show "m' = set_stream k ?d (MFin k (note_row k row sc)) m"
          using step MPeek PeekRow by (simp add: next_step_def peek_def Let_def)
        show "scan_pos (MFin k (note_row k row sc)) < scan_pos (ms_pc m)"
          by (cases k; simp add: MPeek scan_pos_def)
        fix a assume a: "streams_inv fetch e a ?st'" "rest a ?st' = ?R" "grows ?st ?st'"
        obtain rs where "?R k = row # rs" using stream_row(3) [OF a(1), of k] row a(2) by simp
        then have "\<not> sc_liveWait sc \<Longrightarrow> best (before k @ [k]) ?R (sc_pick (note_row k row sc))"
          using S before_less by (intro best_note) (auto simp: scan_ok_def)
        moreover have "sc_liveWait (note_row k row sc) = sc_liveWait sc" "sc_allFin (note_row k row sc) = sc_allFin sc"
          "sc_firstErr (note_row k row sc) = sc_firstErr sc" by (auto simp: note_row_def split: option.splits)
        ultimately show "pc_ok ?R e ?st' (MFin k (note_row k row sc))"
          using scan_ok_mono [OF S a(3)] row(1)
          by (auto simp: pc_ok_def scan_ok_def note_row_def split: if_splits option.splits)
      qed
    next
      case PeekNone
      have none: "\<not> has_row ?d" "ps_err ?d = None" using PeekNone
        by (auto simp: head_row_def has_row_def split: option.splits if_splits)
      show ?thesis
      proof (rule move)
        show "m' = set_stream k ?d (MLive k sc) m" using step MPeek PeekNone by (simp add: next_step_def peek_def Let_def)
        show "scan_pos (MLive k sc) < scan_pos (ms_pc m)" by (cases k; simp add: MPeek scan_pos_def)
        fix a assume a: "grows ?st ?st'" "\<not> has_row ?d \<Longrightarrow> ps_nextCh ?d = None"
        have "ps_done ?d \<or> waiting ?d" using none a(2) by (auto simp: waiting_def ps_live_def has_row_def)
        then show "pc_ok ?R e ?st' (MLive k sc)" using scan_ok_mono [OF S a(1)] by (simp add: pc_ok_def)
      qed
    qed
  next
    case (MLive k sc)
    let ?d = "drain (?st k)" and ?st' = "?st(k := drain (?st k))"
    let ?sc = "if ps_done ?d then sc else sc\<lparr>sc_liveWait := True\<rparr>"
    have S: "scan_ok ?R e ?st (before k) (before k) sc" "ps_done (?st k) \<or> waiting (?st k)"
      using I(5) MLive by (simp_all add: pc_ok_def)
    show ?thesis
    proof (rule move)
      show "m' = set_stream k ?d (MFin k ?sc) m" using step MLive by (simp add: next_step_def isDone_def Let_def)
      show "scan_pos (MFin k ?sc) < scan_pos (ms_pc m)" by (cases k; simp add: MLive scan_pos_def)
      fix a assume a: "streams_inv fetch e a ?st'" "rest a ?st' = ?R" "grows ?st ?st'"
      have D: "ps_done ?d \<Longrightarrow> ?R k = []" using stream_done [OF a(1), of k] a(2) by simp
      have "ps_done (?st k) \<Longrightarrow> ps_done ?d"
        using stream_done [OF I(1), of k] I(1) not_live_finished [of "fetch k" "ahead k" "e k" "?st k"]
        by (auto simp: streams_inv_def stream_inv_def drain_def ps_live_def split: option.splits)
      then have "\<not> ps_done ?d \<Longrightarrow> waiting (?st' k)" using S(2) a(3) by (auto simp: grows_def)
      then show "pc_ok ?R e ?st' (MFin k ?sc)"
        using scan_ok_mono [OF S(1) a(3)] D best_skip [of "before k" ?R "sc_pick sc" k]
        by (auto simp: pc_ok_def scan_ok_def split: if_splits)
    qed
  next
    case (MFin k sc)
    let ?d = "drain (?st k)" and ?st' = "?st(k := drain (?st k))"
    let ?sc = "if ps_done ?d then sc else sc\<lparr>sc_allFin := False\<rparr>"
    have S: "scan_ok ?R e ?st (before k @ [k]) (before k) sc" "has_row (?st k) \<or> ps_done (?st k) \<or> sc_liveWait sc"
      using I(5) MFin by (simp_all add: pc_ok_def)
    show ?thesis
    proof (rule move)
      show "m' = set_stream k ?d (after_stream k ?sc) m" using step MFin by (simp add: next_step_def isDone_def Let_def)
      show "scan_pos (after_stream k ?sc) < scan_pos (ms_pc m)" by (cases k; simp add: MFin scan_pos_def after_stream_def)
      fix a assume a: "streams_inv fetch e a ?st'" "rest a ?st' = ?R" "grows ?st ?st'"
        "has_row (?st k) \<Longrightarrow> ?d = ?st k"
      have D: "ps_done ?d \<Longrightarrow> ?R k = [] \<and> e k = None" using stream_done [OF a(1), of k] a(2) by simp
      have "ps_done (?st k) \<Longrightarrow> ps_done ?d"
        using stream_done [OF I(1), of k] I(1) not_live_finished [of "fetch k" "ahead k" "e k" "?st k"]
        by (auto simp: streams_inv_def stream_inv_def drain_def ps_live_def split: option.splits)
      moreover have "has_row (?st k) \<Longrightarrow> ?R k \<noteq> []" using stream_row(3) [OF I(1), of k] by simp
      ultimately have "scan_ok ?R e ?st' (before k @ [k]) (before k @ [k]) ?sc"
        using scan_ok_mono [OF S(1) a(3)] S(2) D
        by (auto simp: scan_ok_def first_err_snoc split: if_splits option.splits)
      then show "pc_ok ?R e ?st' (after_stream k ?sc)" by (rule pc_after)
    qed
  next
    case (MDecide sc)
    have S: "scan_ok ?R e ?st kinds kinds sc" using I(5) MDecide by (simp add: pc_ok_def)
    show ?thesis
    proof (cases "\<exists>k row. sc_pick sc = Some (k, row) \<and> \<not> sc_liveWait sc")
      case True
      then obtain k row where pick: "sc_pick sc = Some (k, row)" "\<not> sc_liveWait sc" by blast
      have B: "best kinds ?R (Some (k, row))" using S pick by (simp add: scan_ok_def)
      then obtain rs where rs: "?R k = row # rs" by (auto simp: best_def)
      have row: "has_row (?st k)" using S pick by (simp add: scan_ok_def)
      let ?c = "?st(k := consume (?st k))"
      have m': "m' = set_stream k (consume (?st k)) (MReturn (Inr (Some (k, row)))) m\<lparr>ms_out := ms_out m @ [(k, row)]\<rparr>"
        using step MDecide pick by (simp add: next_step_def)
      have C: "stream_inv (fetch k) (ahead k) (e k) (consume (?st k))" "pf_left (length (ahead k)) (consume (?st k)) = pf_left (length (ahead k)) (?st k)"
        "ps_wakeCh (consume (?st k)) = ps_wakeCh (?st k)"
        using consume_inv [of "fetch k" "ahead k" "e k" "?st k"] I(1) row by (simp_all add: streams_inv_def has_row_def)
      have rest: "rest ahead ?c = ?R(k := rs)" using stream_row(3) [OF I(1) row] rs by (auto simp: rest_def)
      have "merged ?R = (k, row) # merged (rest ahead ?c)" unfolding rest by (rule merged_pick [OF B I(2) rs])
      moreover have "sorted (map row_ns rs)" using spec [OF I(2), of k] rs by simp
      ultimately have "merge_inv fetch e evs ahead m'" using I C(1)
        by (simp add: merge_inv_def m' set_stream_def streams_inv_def pc_ok_def rest)
      moreover have "Suc (length (rest_rows (ahead k) (consume (?st k)))) = length (rest_rows (ahead k) (?st k))"
        using stream_row(3) [OF I(1) row] by (simp add: rest_def)
      then have "merge_left ahead m' < merge_left ahead m"
        using C(2,3) streams_left_upd(2) [of ahead ?st k "consume (?st k)"]
        by (simp add: merge_left_def m' set_stream_def stream_left_def MDecide scan_pos_def)
      ultimately show ?thesis by blast
    next
      case False
      have stop: "m' = m\<lparr>ms_pc := (if sc_allFin sc
          then MReturn (case sc_firstErr sc of Some e \<Rightarrow> Inl e | None \<Rightarrow> Inr None) else MBlock)\<rparr>"
        using step MDecide False by (auto simp: next_step_def split: option.splits if_splits)
      have "pc_ok ?R e ?st (ms_pc m')"
      proof (cases "sc_allFin sc")
        case True
        then have "\<forall>k\<in>set kinds. ?R k = []" and first: "sc_firstErr sc = first_err kinds e"
          using S by (simp_all add: scan_ok_def del: first_err.simps)
        then have "\<forall>k. ?R k = []" by (simp add: all_kinds)
        then show ?thesis using True first by (simp add: stop pc_ok_def del: first_err.simps split: option.splits)
      next
        case block: False
        have "\<exists>j. waiting (?st j)"
        proof (cases "sc_liveWait sc")
          case False
          then obtain j where "j \<in> set kinds" "?R j \<noteq> []" using S block by (auto simp: scan_ok_def)
          moreover have "sc_pick sc = None" using \<open>\<nexists>k row. sc_pick sc = Some (k, row) \<and> \<not> sc_liveWait sc\<close> False by (cases "sc_pick sc") auto
          ultimately show ?thesis using S False by (auto simp: scan_ok_def best_def)
        qed (use S in \<open>simp add: scan_ok_def\<close>)
        then show ?thesis using block by (simp add: stop pc_ok_def)
      qed
      then have "merge_inv fetch e evs ahead m'" using I by (simp add: merge_inv_def stop)
      moreover have "scan_pos (ms_pc m') < scan_pos (ms_pc m)" by (simp add: stop MDecide scan_pos_def split: option.splits)
      ultimately show ?thesis by (auto simp: merge_left_def stop)
    qed
  qed (use step in \<open>simp_all add: next_step_def\<close>)
qed

lemma wake_step_inv:
  assumes inv: "merge_inv fetch e evs ahead m" and step: "merge_act fetch (AWake k) m = Some m'"
  shows "merge_inv fetch e evs ahead m'" "merge_left ahead m' < merge_left ahead m"
proof -
  let ?st = "ms_stream m" and ?ps = "(ms_stream m k)\<lparr>ps_wakeCh := False\<rparr>"
  have m': "m' = set_stream k ?ps (MPeek kindCandle scan_start) m" and b: "ms_pc m = MBlock" "ps_wakeCh (?st k)"
    using step by (auto split: if_splits)
  have R: "rest ahead (?st(k := ?ps)) = rest ahead ?st" by (auto simp: rest_def wake_inv)
  show "merge_inv fetch e evs ahead m'" using inv
    by (simp add: merge_inv_def m' set_stream_def R streams_inv_def wake_inv pc_ok_def scan_ok_def scan_start_def best_def)
  have "stream_left (ahead k) ?ps + 1 = stream_left (ahead k) (?st k)" using b(2) by (simp add: stream_left_def wake_inv)
  then show "merge_left ahead m' < merge_left ahead m"
    using streams_left_upd(2) [of ahead ?st k ?ps] b(1) by (simp add: merge_left_def m' set_stream_def scan_pos_def)
qed

lemma call_step_inv:
  assumes inv: "merge_inv fetch e evs ahead m" and step: "merge_act fetch ACall m = Some m'"
  shows "merge_inv fetch e evs ahead m'" "merge_left ahead m' < merge_left ahead m"
proof -
  obtain ev where m': "m' = m\<lparr>ms_pc := MPeek kindCandle scan_start\<rparr>" "ms_pc m = MReturn (Inr (Some ev))"
    using step by (auto split: mergePc.splits sum.splits option.splits)
  show "merge_inv fetch e evs ahead m'" using inv
    by (simp add: merge_inv_def m' pc_ok_def scan_ok_def scan_start_def best_def)
  show "merge_left ahead m' < merge_left ahead m" by (simp add: merge_left_def m' scan_pos_def)
qed

section \<open>Every schedule\<close>

lemma merge_act_inv:
  assumes "merge_inv fetch e evs ahead m" "merge_act fetch a m = Some m'" "a \<notin> {ACancel, AClose}"
  shows "\<exists>ahead'. merge_inv fetch e evs ahead' m' \<and> merge_left ahead' m' < merge_left ahead m"
proof (cases a)
  case ACtxDone
  then show ?thesis using assms(1,2) by (simp add: merge_inv_def)
next
  case (APrefetch k stop)
  then show ?thesis using assms(1,2) prefetch_step_inv by blast
next
  case ANext
  then show ?thesis using assms(1,2) next_step_inv by simp
next
  case (AWake k)
  then show ?thesis using assms(1,2) wake_step_inv by blast
next
  case ACall
  then show ?thesis using assms(1,2) call_step_inv by blast
qed (use assms(3) in simp_all)

lemma merge_acts_inv:
  assumes "merge_inv fetch e evs ahead m" "merge_acts fetch as m = Some m'" "set as \<inter> {ACancel, AClose} = {}"
  shows "\<exists>ahead'. merge_inv fetch e evs ahead' m' \<and> length as + merge_left ahead' m' \<le> merge_left ahead m"
  using assms
proof (induction as arbitrary: ahead m)
  case (Cons a as)
  obtain m1 where m1: "merge_act fetch a m = Some m1" "merge_acts fetch as m1 = Some m'"
    using Cons.prems(2) by (auto simp: bind_eq_Some_conv)
  have "a \<notin> {ACancel, AClose}" using Cons.prems(3) by auto
  from merge_act_inv [OF Cons.prems(1) m1(1) this] obtain ahead1 where
    1: "merge_inv fetch e evs ahead1 m1" "merge_left ahead1 m1 < merge_left ahead m" by blast
  have "set as \<inter> {ACancel, AClose} = {}" using Cons.prems(3) by auto
  from Cons.IH [OF 1(1) m1(2) this] 1(2) show ?case by fastforce
qed auto

lemma merge_stuck:
  assumes inv: "merge_inv fetch e evs ahead m" and stuck: "\<And>a. a \<notin> {ACancel, AClose} \<Longrightarrow> merge_act fetch a m = None"
  shows "ms_out m = evs" "ms_pc m = MReturn (case first_err kinds e of None \<Rightarrow> Inr None | Some x \<Rightarrow> Inl x)"
proof -
  have I: "streams_inv fetch e ahead (ms_stream m)" "\<not> ms_ctxDone m" "pc_ok (rest ahead (ms_stream m)) e (ms_stream m) (ms_pc m)"
    "evs = ms_out m @ merged (rest ahead (ms_stream m))" using inv by (simp_all add: merge_inv_def)
  have "next_step m = None" using stuck [of ANext] by simp
  then consider "ms_pc m = MBlock" | r where "ms_pc m = MReturn r"
    by (cases "ms_pc m") (auto simp: next_step_def isDone_def peek_def Let_def split: peeked.splits option.splits if_splits)
  then have "\<exists>r. ms_pc m = MReturn r \<and> (\<forall>k. rest ahead (ms_stream m) k = []) \<and>
    r = (case first_err kinds e of None \<Rightarrow> Inr None | Some x \<Rightarrow> Inl x)"
  proof cases
    case 1
    then obtain j where j: "waiting (ms_stream m j)" using I(3) by (auto simp: pc_ok_def)
    have "\<not> ps_wakeCh (ms_stream m j)" using stuck [of "AWake j"] 1 by (auto split: if_splits)
    moreover have "prefetch_step (fetch j) False False (ms_stream m j) = None" using stuck [of "APrefetch j False"] I(2) by simp
    moreover have "stream_inv (fetch j) (ahead j) (e j) (ms_stream m j)" using I(1) by (simp add: streams_inv_def)
    ultimately show ?thesis using waiting_enabled [OF _ j] by blast
  next
    case 2
    have "r \<noteq> Inr (Some ev)" for ev using stuck [of ACall] 2 by auto
    then show ?thesis using I(3) 2 by (auto simp: pc_ok_def simp del: first_err.simps split: sum.splits option.splits)
  qed
  then show "ms_out m = evs" "ms_pc m = MReturn (case first_err kinds e of None \<Rightarrow> Inr None | Some x \<Rightarrow> Inl x)"
    using I(4) merged_empty [of "rest ahead (ms_stream m)"] by (auto simp del: first_err.simps)
qed

lemma merge_reached:
  fixes fetch :: "eventKind \<Rightarrow> 'p fetcher"
  assumes pages: "\<forall>k. serves (fetch k) '''' (pages k) (e k)" and srt: "\<forall>k. sorted (map row_ns (concat (pages k)))"
    and run: "merge_acts fetch as newMergeStream = Some m" and live: "set as \<inter> {ACancel, AClose} = {}"
  shows "\<exists>ahead. merge_inv fetch e (merged (\<lambda>k. concat (pages k))) ahead m \<and>
    length as + merge_left ahead m \<le> merge_left pages (newMergeStream :: 'p mergeStream)"
proof -
  let ?evs = "merged (\<lambda>k. concat (pages k))" and ?m = "newMergeStream :: 'p mergeStream"
  have R: "rest pages (ms_stream ?m) = (\<lambda>k. concat (pages k))"
    by (auto simp: rest_def newMergeStream_def newPageStream_def rest_rows_def)
  have "merge_inv fetch e ?evs pages ?m"
    using srt newPageStream_inv [OF spec [OF pages]] unfolding merge_inv_def R
    by (simp add: newMergeStream_def streams_inv_def pc_ok_def scan_ok_def scan_start_def best_def)
  from merge_acts_inv [OF this run live] show ?thesis by blast
qed

lemma merge_returned:
  assumes pages: "\<forall>k. serves (fetch k) '''' (pages k) (e k)" and srt: "\<forall>k. sorted (map row_ns (concat (pages k)))"
    and run: "merge_acts fetch as newMergeStream = Some m" and live: "set as \<inter> {ACancel, AClose} = {}"
    and ret: "ms_pc m = MReturn r" "\<And>ev. r \<noteq> Inr (Some ev)"
  shows "ms_out m = merged (\<lambda>k. concat (pages k))" "r = (case first_err kinds e of None \<Rightarrow> Inr None | Some x \<Rightarrow> Inl x)"
proof -
  obtain ahead where I: "merge_inv fetch e (merged (\<lambda>k. concat (pages k))) ahead m" using merge_reached [OF assms(1-4)] by blast
  then have "pc_ok (rest ahead (ms_stream m)) e (ms_stream m) (MReturn r)"
    "merged (\<lambda>k. concat (pages k)) = ms_out m @ merged (rest ahead (ms_stream m))" using ret(1) by (simp_all add: merge_inv_def)
  then show "ms_out m = merged (\<lambda>k. concat (pages k))" "r = (case first_err kinds e of None \<Rightarrow> Inr None | Some x \<Rightarrow> Inl x)"
    using ret(2) merged_empty [of "rest ahead (ms_stream m)"]
    by (auto simp: pc_ok_def simp del: first_err.simps split: sum.splits option.splits)
qed

lemma merge_replays:
  assumes pages: "\<forall>k. serves (fetch k) '''' (pages k) (e k)" and srt: "\<forall>k. sorted (map row_ns (concat (pages k)))"
    and run: "merge_acts fetch as newMergeStream = Some m" and live: "set as \<inter> {ACancel, AClose} = {}"
  shows "(\<exists>later. merged (\<lambda>k. concat (pages k)) = ms_out m @ later) \<and>
    length as \<le> 16 * (\<Sum>k\<leftarrow>kinds. 8 * length (pages k) + 6 + length (concat (pages k))) + 10 \<and>
    ((\<forall>a. a \<notin> {ACancel, AClose} \<longrightarrow> merge_act fetch a m = None) \<longrightarrow>
       ms_out m = merged (\<lambda>k. concat (pages k)) \<and>
       ms_pc m = MReturn (case first_err kinds e of None \<Rightarrow> Inr None | Some x \<Rightarrow> Inl x))"
proof -
  let ?evs = "merged (\<lambda>k. concat (pages k))" and ?m = "newMergeStream :: 'a mergeStream"
  obtain ahead where A: "merge_inv fetch e ?evs ahead m" "length as + merge_left ahead m \<le> merge_left pages ?m"
    using merge_reached [OF assms] by blast
  have "merge_left pages ?m = 16 * (\<Sum>k\<leftarrow>kinds. 8 * length (pages k) + 6 + length (concat (pages k))) + 10"
    by (simp add: merge_left_def newMergeStream_def newPageStream_def streams_left_def stream_left_def pf_left_def
        rest_rows_def scan_pos_def)
  then have "length as \<le> 16 * (\<Sum>k\<leftarrow>kinds. 8 * length (pages k) + 6 + length (concat (pages k))) + 10" using A(2) by linarith
  moreover have "\<exists>later. ?evs = ms_out m @ later" using A(1) by (auto simp: merge_inv_def)
  ultimately show ?thesis using merge_stuck [OF A(1)] by blast
qed

text \<open>C15: Whatever the schedule of the plugin and the three prefetchers, as long as nobody cancels: the events
  the plugin has received are a prefix of the rows of the three histories sorted by time (candles
  first, then trades, then prices at the same time); the schedule has at most as many actions as the
  bound says; and when no action is possible any more, the plugin has received all of them and
  been told the end, or the first error if a stream ended with one.\<close>

theorem merge_replays_history:
  assumes pages: "\<forall>k. serves (fetch k) '''' (pages k) (e k)" and srt: "\<forall>k. sorted (map row_ns (concat (pages k)))"
    and run: "merge_acts fetch as newMergeStream = Some m" and live: "set as \<inter> {ACancel, AClose} = {}"
  shows "(\<exists>later. merged (\<lambda>k. concat (pages k)) = ms_out m @ later) \<and>
    length as \<le> 16 * (\<Sum>k\<leftarrow>kinds. 8 * length (pages k) + 6 + length (concat (pages k))) + 10 \<and>
    ((\<forall>a. a \<notin> {ACancel, AClose} \<longrightarrow> merge_act fetch a m = None) \<longrightarrow>
       ms_out m = merged (\<lambda>k. concat (pages k)) \<and>
       ms_pc m = MReturn (case first_err kinds e of None \<Rightarrow> Inr None | Some x \<Rightarrow> Inl x))"
  by (rule merge_replays [OF assms])

section \<open>Example\<close>

text \<open>A candle at time 2 and a trade at time 1, each on a page of its own, and no price.\<close>

definition sample_row_at :: "int \<Rightarrow> string srow" where
  "sample_row_at t = \<lparr>sr_ts = \<lparr>t_ns = t, t_off = 0\<rparr>, sr_payload = ''x''\<rparr>"

definition sample_fetch :: "eventKind \<Rightarrow> string fetcher" where
  "sample_fetch k c =
     (if c = '''' then (case k of kindCandle \<Rightarrow> Inr ([sample_row_at 2], ''c'') | kindTrade \<Rightarrow> Inr ([sample_row_at 1], ''t'')
        | kindPrice \<Rightarrow> Inr ([], ''''))
      else Inr ([], ''''))"

definition sample_schedule :: "merge_action list" where
  "sample_schedule = concat (map (\<lambda>k. replicate 3 (APrefetch k False)) kinds) @ replicate 8 ANext"

theorem merge_replays_history_witness:
  "\<exists>m. merge_acts sample_fetch sample_schedule newMergeStream = Some m \<and> ms_out m = [(kindTrade, sample_row_at 1)] \<and>
     (\<exists>later. merged (\<lambda>k. case k of kindCandle \<Rightarrow> [sample_row_at 2] | kindTrade \<Rightarrow> [sample_row_at 1] | kindPrice \<Rightarrow> []) =
        ms_out m @ later)"
proof -
  let ?pages = "\<lambda>k. case k of kindCandle \<Rightarrow> [[sample_row_at 2]] | kindTrade \<Rightarrow> [[sample_row_at 1]] | kindPrice \<Rightarrow> []"
  have s: "serves (sample_fetch k) '''' (?pages k) None" for k
    by (cases k) (auto simp: sample_fetch_def intro!: serves_more serves_end)
  have srt: "sorted (map row_ns (concat (?pages k)))" for k by (cases k) simp_all
  have out: "map_option ms_out (merge_acts sample_fetch sample_schedule newMergeStream) = Some [(kindTrade, sample_row_at 1)]"
    by code_simp
  then obtain m where m: "merge_acts sample_fetch sample_schedule newMergeStream = Some m" "ms_out m = [(kindTrade, sample_row_at 1)]"
    by auto
  have "set sample_schedule \<inter> {ACancel, AClose} = {}" by (auto simp: sample_schedule_def)
  from merge_replays_history [of sample_fetch ?pages "\<lambda>_. None", OF _ _ m(1) this] s srt
  have "\<exists>later. merged (\<lambda>k. concat (?pages k)) = ms_out m @ later" by blast
  moreover have "(\<lambda>k. concat (?pages k)) = (\<lambda>k. case k of kindCandle \<Rightarrow> [sample_row_at 2] | kindTrade \<Rightarrow> [sample_row_at 1] | kindPrice \<Rightarrow> [])"
    by (auto split: eventKind.splits)
  ultimately show ?thesis using m by auto
qed

end
