(* ===== verification/History_Props.thy ===== *)
theory History_Props
  imports History_Store Page_Stream_Correct "HOL-Library.Multiset"
begin

text \<open>
  Properties of the history store: cursors round-trip, following them serves every row of a window
  exactly once and in order, and folded candles have no gaps, if the first bucket is not empty.
\<close>

section \<open>Cursors round-trip\<close>

lemma be64_range: "list_all (\<lambda>b. 0 \<le> b \<and> b < 256) (be64 u)"
  by (simp add: be64_def)

lemma be64_horner: "(u::int) div 256 ^ Suc k * 256 + u div 256 ^ k mod 256 = u div 256 ^ k"
proof -
  have "u div 256 ^ Suc k = u div 256 ^ k div 256" by (simp only: power_Suc2 zdiv_zmult2_eq)
  then show ?thesis by (simp only: div_mult_mod_eq)
qed

lemma unbe64_steps: "n \<le> 8 \<Longrightarrow> 0 \<le> (u::int) \<Longrightarrow> u < 2 ^ 64 \<Longrightarrow>
    foldl (\<lambda>u b. u * 256 + b) 0 (map (\<lambda>k. u div 256 ^ k mod 256) (map (\<lambda>i. 7 - i) [0..<n])) = u div 256 ^ (8 - n)"
proof (induction n)
  case (Suc n)
  have "8 - n = Suc (7 - n)" using Suc.prems(1) by simp
  then show ?case using Suc be64_horner [of u "7 - n"] by simp
qed simp

lemma unbe64_be64:
  assumes "0 \<le> u" "u < 2 ^ 64"
  shows "unbe64 (be64 u) = u"
proof -
  have "[7, 6, 5, 4, 3, 2, 1, 0] = map (\<lambda>i. 7 - i) [0..<8::nat]" by (simp add: upt_rec)
  then show ?thesis using unbe64_steps [of 8 u] assms by (simp add: unbe64_def be64_def del: upt_rec_numeral list.map)
qed

lemma length_be64 [simp]: "length (be64 u) = 8"
  by (simp add: be64_def)

definition codec_laws :: "(int list \<Rightarrow> string) \<Rightarrow> (string \<Rightarrow> int list option) \<Rightarrow> bool" where
  "codec_laws b64 unb64 \<longleftrightarrow> (\<forall>bs. list_all (\<lambda>b. 0 \<le> b \<and> b < 256) bs \<longrightarrow> unb64 (b64 bs) = Some bs) \<and>
     (\<forall>bs. bs \<noteq> [] \<longrightarrow> b64 bs \<noteq> '''')"

text \<open>Instants the 64-bit nanoseconds since 1970 can hold.\<close>

definition unix_time :: "gtime \<Rightarrow> bool" where
  "unix_time t \<longleftrightarrow> unix_epoch_ns \<le> t_ns t \<and> t_ns t < unix_epoch_ns + 2 ^ 63"

lemma bytes_range: "list_all (\<lambda>b. 0 \<le> b \<and> b < 256) (bytes_of i)"
proof -
  have "0 \<le> (of_char c :: int) \<and> (of_char c :: int) < 256" for c
    using pos_mod_sign [of 256 "of_char c :: int"] pos_mod_bound [of 256 "of_char c :: int"] by (simp add: of_char_mod_256)
  then show ?thesis by (simp add: bytes_of_def list_all_iff)
qed

lemma string_of_bytes [simp]: "string_of (bytes_of i) = i"
  by (simp add: string_of_def bytes_of_def o_def)

text \<open>Decoding the cursor of a row gives its instant and its identifier, for instants since 1970 and
  identifiers of 36 bytes, as a UUID has.\<close>

lemma cursor_back:
  assumes codec: "codec_laws b64 unb64" and t: "unix_time t" and i: "length i \<le> 36"
  shows "decodeCursor unb64 (encodeCursor b64 t i) = Inr (\<lparr>t_ns = t_ns t, t_off = 0\<rparr>, i @ replicate (36 - length i) (char_of (0::int)))"
proof -
  let ?u = "t_ns t - unix_epoch_ns"
  have u: "UnixNano t = ?u" "0 \<le> ?u" "?u < 2 ^ 63"
    using t by (simp_all add: UnixNano_def unix_time_def wrap64_id int64_ok_def)
  let ?bs = "be64 ?u @ bytes_of i @ replicate (36 - length i) 0"
  have len: "length ?bs = 44" using i by (simp add: bytes_of_def)
  have bs: "take cursorBytes (be64 (UnixNano t mod 2 ^ 64) @ bytes_of i @ replicate 36 0) = ?bs"
    using u i by (simp add: cursorBytes_def bytes_of_def)
  have "list_all (\<lambda>b. 0 \<le> b \<and> b < 256) ?bs" using be64_range [of ?u] bytes_range [of i] by (auto simp: list_all_iff)
  then have dec: "unb64 (encodeCursor b64 t i) = Some ?bs" using codec unfolding codec_laws_def encodeCursor_def bs by blast
  have "take cursorBytes ?bs = ?bs" using len by (simp add: cursorBytes_def)
  moreover have "take 8 ?bs = be64 ?u" "drop 8 ?bs = bytes_of i @ replicate (36 - length i) 0" by simp_all
  moreover have "string_of (bytes_of i @ replicate (36 - length i) 0) = i @ replicate (36 - length i) (char_of (0::int))"
    using string_of_bytes [of i] by (simp add: string_of_def)
  ultimately show ?thesis using u unbe64_be64 [of ?u] len
    by (simp add: decodeCursor_def dec cursorBytes_def Let_def del: take_append drop_append)
qed

lemma encodeCursor_nonempty: "codec_laws b64 unb64 \<Longrightarrow> encodeCursor b64 t i \<noteq> ''''"
proof -
  assume "codec_laws b64 unb64"
  moreover have "take cursorBytes (be64 (UnixNano t mod 2 ^ 64) @ bytes_of i @ replicate 36 0) \<noteq> []"
    by (simp add: be64_def cursorBytes_def)
  ultimately show ?thesis by (simp add: codec_laws_def encodeCursor_def)
qed

section \<open>Keyset paging\<close>

text \<open>A fetch that serves the strictly sorted list \<open>L\<close> in pages of \<open>n\<close>: from the empty cursor its first
  rows, from the cursor of a row the rows after it.\<close>

definition keyset_fetch :: "(string \<Rightarrow> ('r list \<times> string) res) \<Rightarrow> ('r \<Rightarrow> 'k::linorder) \<Rightarrow> ('r \<Rightarrow> string) \<Rightarrow> nat \<Rightarrow> 'r list \<Rightarrow> bool" where
  "keyset_fetch page key cur n L \<longleftrightarrow> 0 < n \<and> sorted_wrt (<) (map key L) \<and> (\<forall>r\<in>set L. cur r \<noteq> '''') \<and>
     (\<exists>nx. nx [] = '''' \<and> (\<forall>rs. rs \<noteq> [] \<longrightarrow> nx rs = cur (last rs)) \<and> page '''' = Inr (take n L, nx (take n L)) \<and>
       (\<forall>r\<in>set L. page (cur r) =
          Inr (take n (filter (\<lambda>x. key r < key x) L), nx (take n (filter (\<lambda>x. key r < key x) L)))))"

lemma filter_after:
  fixes key :: "'r \<Rightarrow> 'k::linorder"
  assumes "sorted_wrt (<) (map key L)" "i < length L"
  shows "filter (\<lambda>x. key (L ! i) < key x) L = drop (Suc i) L"
  using filter_beyond [of "\<lambda>a b. key a < key b" L i] assms by (simp add: sorted_wrt_map)

fun chunks :: "nat \<Rightarrow> nat \<Rightarrow> 'r list \<Rightarrow> 'r list list" where
  "chunks 0 n L = []"
| "chunks (Suc m) n L = (if L = [] then [] else take n L # chunks m n (drop n L))"

lemma concat_chunks: "length L \<le> m \<Longrightarrow> 0 < n \<Longrightarrow> concat (chunks m n L) = L"
  by (induction m n L rule: chunks.induct) auto

lemma chunks_nonempty: "0 < n \<Longrightarrow> p \<in> set (chunks m n L) \<Longrightarrow> p \<noteq> []"
  by (induction m n L rule: chunks.induct) (auto split: if_splits)

lemma keyset_page_at:
  assumes K: "keyset_fetch page key cur n L" and i: "0 < i" "i \<le> length L"
  shows "\<exists>nx. page (cur (L ! (i - 1))) = Inr (take n (drop i L), nx) \<and>
    (if drop i L = [] then nx = '''' else nx = cur (L ! (min (i + n) (length L) - 1)))"
proof -
  obtain nx where nx: "nx [] = ''''" "\<forall>rs. rs \<noteq> [] \<longrightarrow> nx rs = cur (last rs)"
    "\<forall>r\<in>set L. page (cur r) = Inr (take n (filter (\<lambda>x. key r < key x) L), nx (take n (filter (\<lambda>x. key r < key x) L)))"
    and srt: "sorted_wrt (<) (map key L)" and n: "0 < n"
    using K by (auto simp: keyset_fetch_def)
  have "L ! (i - 1) \<in> set L" "filter (\<lambda>x. key (L ! (i - 1)) < key x) L = drop i L"
    using i filter_after [OF srt, of "i - 1"] by simp_all
  then have p: "page (cur (L ! (i - 1))) = Inr (take n (drop i L), nx (take n (drop i L)))" using nx(3) by simp
  show ?thesis
  proof (cases "i = length L")
    case False
    then have ne: "take n (drop i L) \<noteq> []" using i n by simp
    have "last (take n (drop i L)) = L ! (min (i + n) (length L) - 1)"
      using ne i False n by (subst last_conv_nth) (auto simp: min_def intro: arg_cong [where f = "(!) L"])
    then show ?thesis using p nx(2) ne i False n by auto
  qed (use p nx(1) in auto)
qed

text \<open>The fetcher that turns the rows of a page into stream rows.\<close>

definition rows_as :: "('r \<Rightarrow> 's) \<Rightarrow> (string \<Rightarrow> ('r list \<times> string) res) \<Rightarrow> string \<Rightarrow> ('s list \<times> string) res" where
  "rows_as f page c = (case page c of Inl e \<Rightarrow> Inl e | Inr (rs, n) \<Rightarrow> Inr (map f rs, n))"

lemma rows_as_Inr [simp]: "page c = Inr (rs, n) \<Longrightarrow> rows_as f page c = Inr (map f rs, n)"
  by (simp add: rows_as_def)

lemma serves_from:
  assumes K: "keyset_fetch page key cur n L" and i: "0 < i" "i \<le> length L" and m: "length L - i \<le> m"
  shows "serves (rows_as f page) (cur (L ! (i - 1))) (map (map f) (chunks m n (drop i L))) None"
  using i m
proof (induction m arbitrary: i)
  case 0
  then show ?case using keyset_page_at [OF K, of i] by (auto intro: serves_end)
next
  case (Suc m)
  have n: "0 < n" using K by (simp add: keyset_fetch_def)
  obtain nx where nx: "page (cur (L ! (i - 1))) = Inr (take n (drop i L), nx)"
    "if drop i L = [] then nx = '''' else nx = cur (L ! (min (i + n) (length L) - 1))"
    using keyset_page_at [OF K Suc.prems(1,2)] by blast
  show ?case
  proof (cases "i = length L")
    case True
    then show ?thesis using nx by (auto intro: serves_end)
  next
    case False
    let ?j = "min (i + n) (length L)"
    have "drop ?j L = drop n (drop i L)" by (simp add: min_def add.commute)
    moreover have "serves (rows_as f page) (cur (L ! (?j - 1))) (map (map f) (chunks m n (drop ?j L))) None"
      using Suc.prems n False by (intro Suc.IH) auto
    ultimately show ?thesis using nx False Suc.prems n by (auto intro!: serves_more)
  qed
qed

lemma keyset_serves:
  assumes K: "keyset_fetch page key cur n L"
  obtains pages where "serves (rows_as f page) '''' pages None" "concat pages = map f L"
proof -
  obtain nx where nx: "nx [] = ''''" "\<forall>rs. rs \<noteq> [] \<longrightarrow> nx rs = cur (last rs)" "page '''' = Inr (take n L, nx (take n L))"
    and n: "0 < n" using K by (auto simp: keyset_fetch_def)
  show thesis
  proof (cases "L = []")
    case True
    then have "serves (rows_as f page) '''' [] None" using nx by (auto intro: serves_end)
    then show thesis using True that [of "[]"] by simp
  next
    case False
    let ?j = "min n (length L)"
    have "last (take n L) = L ! (?j - 1)" using False n by (subst last_conv_nth) (auto simp: min.commute)
    then have "page '''' = Inr (take n L, cur (L ! (?j - 1)))" using nx False n by simp
    moreover have "serves (rows_as f page) (cur (L ! (?j - 1))) (map (map f) (chunks (length L) n (drop ?j L))) None"
      using False n by (intro serves_from [OF K]) auto
    ultimately have "serves (rows_as f page) '''' (map f (take n L) # map (map f) (chunks (length L) n (drop ?j L))) None"
      using False n by (intro serves_more) auto
    moreover have "concat (map f (take n L) # map (map f) (chunks (length L) n (drop ?j L))) = map f L"
    proof -
      have "take n L @ drop ?j L = L" by (simp add: min_def)
      moreover have "concat (chunks (length L) n (drop ?j L)) = drop ?j L" using n by (intro concat_chunks) auto
      ultimately show ?thesis by (metis concat.simps(2) map_append map_concat)
    qed
    ultimately show thesis by (rule that)
  qed
qed

section \<open>Draining a keyset fetch\<close>

lemma fetchAll_from_at:
  assumes K: "keyset_fetch page key cur n L" and i: "0 < i" "i \<le> length L" and m: "length L - i \<le> m"
  shows "fetchAll_from page (cur (L ! (i - 1))) all = Some (Inr (all @ drop i L))"
  using i m
proof (induction m arbitrary: i all)
  case 0
  then show ?case using keyset_page_at [OF K, of i] by (subst fetchAll_from.simps) auto
next
  case (Suc m)
  have n: "0 < n" using K by (simp add: keyset_fetch_def)
  obtain nx where nx: "page (cur (L ! (i - 1))) = Inr (take n (drop i L), nx)"
    "if drop i L = [] then nx = '''' else nx = cur (L ! (min (i + n) (length L) - 1))"
    using keyset_page_at [OF K Suc.prems(1,2)] by blast
  show ?case
  proof (cases "i = length L")
    case True
    then show ?thesis using nx by (subst fetchAll_from.simps) auto
  next
    case False
    let ?j = "min (i + n) (length L)"
    have "L ! (?j - 1) \<in> set L" using Suc.prems n by (intro nth_mem) linarith
    then have ne: "cur (L ! (?j - 1)) \<noteq> ''''" using K by (simp add: keyset_fetch_def)
    have "fetchAll_from page (cur (L ! (?j - 1))) (all @ take n (drop i L)) = Some (Inr ((all @ take n (drop i L)) @ drop ?j L))"
      using Suc.prems n False by (intro Suc.IH) auto
    moreover have "take n (drop i L) @ drop ?j L = drop i L"
      by (metis append_take_drop_id drop_drop add.commute drop_all min_def nle_le)
    ultimately show ?thesis using nx ne False Suc.prems by (subst fetchAll_from.simps) auto
  qed
qed

lemma keyset_fetchAll:
  assumes K: "keyset_fetch page key cur n L"
  shows "fetchAll page = Some (Inr L)"
proof -
  obtain nx where nx: "nx [] = ''''" "\<forall>rs. rs \<noteq> [] \<longrightarrow> nx rs = cur (last rs)" "page '''' = Inr (take n L, nx (take n L))"
    and n: "0 < n" and ne: "\<forall>r\<in>set L. cur r \<noteq> ''''" using K by (auto simp: keyset_fetch_def)
  show ?thesis
  proof (cases "L = []")
    case True
    then show ?thesis using nx by (simp add: fetchAll_def fetchAll_from.simps)
  next
    case False
    let ?j = "min n (length L)"
    have l: "last (take n L) = L ! (?j - 1)" using False n by (subst last_conv_nth) (auto simp: min.commute)
    have "fetchAll_from page (cur (L ! (?j - 1))) ([] @ take n L) = Some (Inr (([] @ take n L) @ drop ?j L))"
      using False n by (intro fetchAll_from_at [OF K]) auto
    moreover have "take n L @ drop ?j L = L" by (simp add: min_def)
    moreover have "last (take n L) \<in> set L" using False n by (metis in_set_takeD last_in_set take_eq_Nil not_gr_zero)
    ultimately show ?thesis using nx ne l False n unfolding fetchAll_def by (subst fetchAll_from.simps) simp
  qed
qed

section \<open>Trades and prices\<close>

lemma sorted_key_strict: "distinct (map key xs) \<Longrightarrow> sorted_wrt (<) (map key (sort_key key xs))"
  for key :: "'r \<Rightarrow> 'k::linorder"
  by (simp add: strict_sorted_iff distinct_map)

lemma filter_window:
  assumes "t_ns start \<le> fst (key r)" "key r = inst_id (fst from) (snd from)"
  shows "filter (\<lambda>x. t_ns start \<le> fst (key x) \<and> fst (key x) < hi \<and> inst_id (fst from) (snd from) < key x) rows =
    filter (\<lambda>x. key r < key x) (filter (\<lambda>x. t_ns start \<le> fst (key x) \<and> fst (key x) < hi) rows)"
  using assms by (auto intro!: filter_cong)

lemma sort_key_filter: "sort_key key (filter P xs) = filter P (sort_key key xs)"
  by (simp add: filter_sort)

definition in_history :: "('r \<Rightarrow> int \<times> string) \<Rightarrow> gtime \<Rightarrow> gtime \<Rightarrow> 'r list \<Rightarrow> 'r list" where
  "in_history key start end rows = sort_key key (filter (\<lambda>x. t_ns start \<le> fst (key x) \<and> fst (key x) < t_ns end) rows)"

text \<open>Any fetch that decodes its cursor and serves \<open>keyset_page\<close> is a keyset fetch.\<close>

lemma keyset_page_fetch:
  fixes ts :: "'r \<Rightarrow> gtime" and i :: "'r \<Rightarrow> string"
  defines "key \<equiv> \<lambda>r. inst_id (ts r) (i r)"
  assumes codec: "codec_laws b64 unb64" and n: "0 < n" and dist: "distinct (map key rows)"
    and ok: "\<forall>r\<in>set rows. unix_time (ts r) \<and> length (i r) = 36"
    and page: "\<And>c. page c = rbind (page_from unb64 start c) (\<lambda>from.
      Inr (keyset_page key start end from n rows, next_cursor b64 ts i (keyset_page key start end from n rows)))"
  shows "keyset_fetch page key (\<lambda>r. encodeCursor b64 (ts r) (i r)) n (in_history key start end rows)"
proof -
  let ?L = "in_history key start end rows" and ?cur = "\<lambda>r. encodeCursor b64 (ts r) (i r)"
  have first: "keyset_page key start end (time_Add start (- 1), nilUUID) n rows = take n ?L"
    unfolding keyset_page_def in_history_def
    by (intro arg_cong [where f = "take n"] arg_cong [where f = "sort_key key"] filter_cong) (auto simp: key_def inst_id_def time_Add_def)
  have srt: "sorted_wrt (<) (map key ?L)"
    unfolding in_history_def using dist by (intro sorted_key_strict) (simp add: distinct_map_filter)
  have later: "page (?cur r) = Inr (take n (filter (\<lambda>x. key r < key x) ?L), next_cursor b64 ts i (take n (filter (\<lambda>x. key r < key x) ?L)))"
    if r: "r \<in> set ?L" for r
  proof -
    have rr: "unix_time (ts r)" "length (i r) = 36" "t_ns start \<le> fst (key r)" using r ok by (auto simp: in_history_def)
    have f: "page_from unb64 start (?cur r) = Inr (\<lparr>t_ns = t_ns (ts r), t_off = 0\<rparr>, i r)"
      using cursor_back [OF codec rr(1), of "i r"] rr(2) encodeCursor_nonempty [OF codec] by (simp add: page_from_def)
    have "keyset_page key start end (\<lparr>t_ns = t_ns (ts r), t_off = 0\<rparr>, i r) n rows = take n (filter (\<lambda>x. key r < key x) ?L)"
      unfolding keyset_page_def in_history_def filter_sort
      by (subst filter_window [where r = r]) (use rr(3) in \<open>auto simp: key_def inst_id_def filter_sort\<close>)
    then show ?thesis by (simp add: page f)
  qed
  show ?thesis unfolding keyset_fetch_def
    using n srt encodeCursor_nonempty [OF codec] later page [of "''''"] first
    by (auto simp: page_from_def next_cursor_def intro!: exI [where x = "next_cursor b64 ts i"])
qed

definition trade_key :: "hist_trade \<Rightarrow> int \<times> string" where
  "trade_key t = inst_id (ht_CreatedAt t) (ht_TransactionID t)"

definition price_key :: "hist_price \<Rightarrow> int \<times> string" where
  "price_key p = inst_id (hp_Timestamp p) (hp_AssetID p)"

definition candle_id_key :: "hist_candle \<Rightarrow> string \<times> int" where
  "candle_id_key c = (hc_OrderBookID c, t_ns (hc_Start c))"

text \<open>What the tables guarantee: their primary keys, UUIDs of 36 characters, instants since 1970.\<close>

definition hist_wf :: "hist_db \<Rightarrow> bool" where
  "hist_wf db \<longleftrightarrow> codec_laws (hd_b64 db) (hd_unb64 db) \<and>
     distinct (map ht_TransactionID (hd_trades db)) \<and> distinct (map price_key (hd_prices db)) \<and>
     distinct (map candle_id_key (hd_candles db)) \<and>
     (\<forall>t\<in>set (hd_trades db). unix_time (ht_CreatedAt t) \<and> length (ht_TransactionID t) = 36) \<and>
     (\<forall>p\<in>set (hd_prices db). unix_time (hp_Timestamp p) \<and> length (hp_AssetID p) = 36) \<and>
     (\<forall>c\<in>set (hd_candles db). unix_time (hc_Start c))"

lemma distinct_trade_key: "distinct (map ht_TransactionID ts) \<Longrightarrow> distinct (map trade_key ts)"
  by (induction ts) (auto simp: trade_key_def inst_id_def)

lemma FetchTrades_keyset:
  assumes wf: "hist_wf db" and up: "hd_up db" and n: "0 < n"
  shows "keyset_fetch (\<lambda>c. FetchTrades db book start end c n) trade_key
    (\<lambda>t. encodeCursor (hd_b64 db) (ht_CreatedAt t) (ht_TransactionID t)) n
    (in_history trade_key start end (filter (\<lambda>t. ht_OrderBookID t = book) (hd_trades db)))"
  unfolding trade_key_def
proof (rule keyset_page_fetch [OF _ n])
  have "distinct (map trade_key (filter (\<lambda>t. ht_OrderBookID t = book) (hd_trades db)))"
    using wf distinct_trade_key by (auto simp: hist_wf_def distinct_map_filter)
  then show "distinct (map (\<lambda>r. inst_id (ht_CreatedAt r) (ht_TransactionID r)) (filter (\<lambda>t. ht_OrderBookID t = book) (hd_trades db)))"
    unfolding trade_key_def .
qed (use wf up in \<open>auto simp: hist_wf_def FetchTrades_def Let_def\<close>)

lemma FetchPrices_keyset:
  assumes wf: "hist_wf db" and up: "hd_up db" and n: "0 < n"
    and ytm: "\<forall>p\<in>set (hd_prices db). hp_AssetID p = asset \<longrightarrow> price_complete p"
  shows "keyset_fetch (\<lambda>c. FetchPrices db asset start end c n) price_key
    (\<lambda>p. encodeCursor (hd_b64 db) (hp_Timestamp p) (hp_AssetID p)) n
    (in_history price_key start end (filter (\<lambda>p. hp_AssetID p = asset) (hd_prices db)))"
  unfolding price_key_def
proof (rule keyset_page_fetch [OF _ n])
  have "distinct (map price_key (filter (\<lambda>p. hp_AssetID p = asset) (hd_prices db)))"
    using wf by (auto simp: hist_wf_def distinct_map_filter)
  then show "distinct (map (\<lambda>r. inst_id (hp_Timestamp r) (hp_AssetID r)) (filter (\<lambda>p. hp_AssetID p = asset) (hd_prices db)))"
    unfolding price_key_def .
next
  have "list_all price_complete (keyset_page key start end fr n (filter (\<lambda>p. hp_AssetID p = asset) (hd_prices db)))" for key fr
    using ytm by (auto simp: keyset_page_def list_all_iff dest!: in_set_takeD)
  then show "FetchPrices db asset start end c n = rbind (page_from (hd_unb64 db) start c) (\<lambda>from.
      Inr (keyset_page (\<lambda>r. inst_id (hp_Timestamp r) (hp_AssetID r)) start end from n (filter (\<lambda>p. hp_AssetID p = asset) (hd_prices db)),
        next_cursor (hd_b64 db) hp_Timestamp hp_AssetID
          (keyset_page (\<lambda>r. inst_id (hp_Timestamp r) (hp_AssetID r)) start end from n (filter (\<lambda>p. hp_AssetID p = asset) (hd_prices db)))))" for c
    using up by (simp add: FetchPrices_def Let_def)
qed (use wf in \<open>auto simp: hist_wf_def\<close>)

section \<open>Folded candles\<close>

abbreviation candle_ns :: "hist_candle \<Rightarrow> int" where
  "candle_ns c \<equiv> t_ns (hc_Start c)"

lemma fill_buckets_starts: "map candle_ns (fill_buckets book s raw prev gs) = gs"
  by (induction gs arbitrary: prev) (auto simp: forward_fill_def fold_bucket_def Let_def)

lemma sorted_arith: "0 < (d::int) \<Longrightarrow> sorted_wrt (<) (map (\<lambda>i. b + int i * d) [0..<m])"
  by (auto simp: sorted_wrt_iff_nth_less)

lemma bucket_grid_sorted: "0 < s \<Longrightarrow> sorted_wrt (<) (bucket_grid s start end)"
  using sorted_arith [of "s * second_ns"] by (simp add: bucket_grid_def Let_def del: upt_Suc)

lemma resolutionSeconds_pos: "resolutionSeconds r = Some s \<Longrightarrow> 0 < s"
  by (auto simp: resolutionSeconds_def split: if_splits)

lemma candle_rows_sorted:
  assumes "hist_wf db" "0 < s"
  shows "sorted_wrt (<) (map candle_ns (candle_rows db book s start end))"
proof -
  have "distinct (map candle_ns (filter (\<lambda>c. hc_OrderBookID c = book \<and> t_ns start \<le> candle_ns c \<and> candle_ns c < t_ns end) (hd_candles db)))"
    using assms(1) unfolding hist_wf_def
    by (intro distinct_map [THEN iffD2] conjI distinct_filter) (auto simp: distinct_map inj_on_def candle_id_key_def)
  from sorted_key_strict [OF this] show ?thesis using bucket_grid_sorted [OF assms(2)]
    by (simp add: candle_rows_def Let_def fill_buckets_starts)
qed

definition served_candles :: "hist_db \<Rightarrow> string \<Rightarrow> int \<Rightarrow> gtime \<Rightarrow> gtime \<Rightarrow> hist_candle list" where
  "served_candles db book s start end = filter (\<lambda>c. t_ns start \<le> candle_ns c) (candle_rows db book s start end)"

lemma FetchCandles_keyset:
  assumes wf: "hist_wf db" and up: "hd_up db" and n: "0 < n" and s: "resolutionSeconds r = Some s"
    and ok: "\<forall>c\<in>set (served_candles db book s start end). candle_complete c \<and> unix_time (hc_Start c)"
  shows "keyset_fetch (\<lambda>c. FetchCandles db book start end r c n) candle_ns
    (\<lambda>c. encodeCursor (hd_b64 db) (hc_Start c) '''') n (served_candles db book s start end)"
proof -
  let ?L = "served_candles db book s start end" and ?R = "candle_rows db book s start end"
  let ?nx = "next_cursor (hd_b64 db) hc_Start (\<lambda>_. '''')"
  have codec: "codec_laws (hd_b64 db) (hd_unb64 db)" using wf by (simp add: hist_wf_def)
  have R: "sorted_wrt (<) (map candle_ns ?R)" using candle_rows_sorted [OF wf] resolutionSeconds_pos [OF s] by blast
  have L: "sorted_wrt (<) (map candle_ns ?L)"
    using R unfolding served_candles_def sorted_wrt_map by (rule sorted_wrt_filter)
  have page: "FetchCandles db book start end r c n = Inr (take n (filter (\<lambda>x. t < candle_ns x) ?R), ?nx (take n (filter (\<lambda>x. t < candle_ns x) ?R)))"
    if f: "page_from (hd_unb64 db) start c = Inr (a, i)" "t_ns a = t" "t_ns start - 1 \<le> t" for c t a i
  proof -
    have "list_all candle_complete (take n (filter (\<lambda>x. t < candle_ns x) ?R))"
      using ok f(3) by (auto simp: list_all_iff served_candles_def dest!: in_set_takeD)
    then show ?thesis using up s f by (simp add: FetchCandles_def Let_def)
  qed
  have first: "FetchCandles db book start end r '''' n = Inr (take n ?L, ?nx (take n ?L))"
  proof -
    have "filter (\<lambda>x. t_ns start - 1 < candle_ns x) ?R = ?L" unfolding served_candles_def by (intro filter_cong) auto
    then show ?thesis using page [of "''''" "time_Add start (- 1)" nilUUID "t_ns start - 1"] by (simp add: page_from_def time_Add_def)
  qed
  have later: "FetchCandles db book start end r (encodeCursor (hd_b64 db) (hc_Start c) '''') n =
      Inr (take n (filter (\<lambda>x. candle_ns c < candle_ns x) ?L), ?nx (take n (filter (\<lambda>x. candle_ns c < candle_ns x) ?L)))"
    if c: "c \<in> set ?L" for c
  proof -
    have t: "unix_time (hc_Start c)" "t_ns start \<le> candle_ns c" using c ok by (auto simp: served_candles_def)
    have "filter (\<lambda>x. candle_ns c < candle_ns x) ?R = filter (\<lambda>x. candle_ns c < candle_ns x) ?L"
      using t(2) by (auto simp: served_candles_def intro!: filter_cong)
    then show ?thesis
      using page cursor_back [OF codec t(1), of "''''"] encodeCursor_nonempty [OF codec] t(2) by (simp add: page_from_def)
  qed
  show ?thesis unfolding keyset_fetch_def using n L encodeCursor_nonempty [OF codec] first later
    by (auto intro!: exI [where x = ?nx] simp: next_cursor_def)
qed

definition raw_candles :: "hist_db \<Rightarrow> string \<Rightarrow> gtime \<Rightarrow> gtime \<Rightarrow> hist_candle list" where
  "raw_candles db book start end =
     filter (\<lambda>c. hc_OrderBookID c = book \<and> t_ns start \<le> candle_ns c \<and> candle_ns c < t_ns end) (hd_candles db)"

lemma candle_rows_folded: "60 < s \<Longrightarrow>
    candle_rows db book s start end = fill_buckets book s (raw_candles db book start end) None (bucket_grid s start end)"
  by (simp add: candle_rows_def raw_candles_def)

lemma map_filter_Some: "list_all (\<lambda>c. f c \<noteq> None) rs \<Longrightarrow> List.map_filter id (map f rs) = map (\<lambda>c. the (f c)) rs"
  by (induction rs) (auto simp: List.map_filter_simps)

lemma candle_completeD:
  assumes "candle_complete c"
  shows "hc_Open c \<noteq> None" "hc_High c \<noteq> None" "hc_Low c \<noteq> None" "hc_Close c \<noteq> None" "hc_Volume c \<noteq> None"
    "hc_OpenYtm c \<noteq> None" "hc_HighYtm c \<noteq> None" "hc_LowYtm c \<noteq> None" "hc_CloseYtm c \<noteq> None"
  using assms unfolding candle_complete_def by blast+

lemma sql_agg_Some:
  assumes "list_all (\<lambda>c. f c \<noteq> None) rs" "rs \<noteq> []"
  shows "sql_max (map f rs) \<noteq> None" "sql_min (map f rs) \<noteq> None" "sql_sum (map f rs) = Some (\<Sum>c\<leftarrow>rs. the (f c))"
proof -
  obtain r rs' where r: "rs = r # rs'" using assms(2) by (cases rs) auto
  have m: "List.map_filter id (map f rs) = the (f r) # map (\<lambda>c. the (f c)) rs'" using map_filter_Some [OF assms(1)] r by simp
  have "foldl (+) (a::rat) xs = a + sum_list xs" for a xs by (induction xs arbitrary: a) simp_all
  then show "sql_max (map f rs) \<noteq> None" "sql_min (map f rs) \<noteq> None" "sql_sum (map f rs) = Some (\<Sum>c\<leftarrow>rs. the (f c))"
    unfolding sql_max_def sql_min_def sql_sum_def m by (simp_all add: r)
qed

lemma fold_bucket_complete:
  assumes "list_all candle_complete rs" "rs \<noteq> []"
  shows "candle_complete (fold_bucket book g rs)"
proof -
  have l: "list_all (\<lambda>c. hc_High c \<noteq> None) rs" "list_all (\<lambda>c. hc_Low c \<noteq> None) rs" "list_all (\<lambda>c. hc_Volume c \<noteq> None) rs"
    "list_all (\<lambda>c. hc_HighYtm c \<noteq> None) rs" "list_all (\<lambda>c. hc_LowYtm c \<noteq> None) rs"
    using assms(1) by (auto simp: list_all_iff dest: candle_completeD)
  have "candle_complete (hd rs)" "candle_complete (last rs)" using assms by (simp_all add: list_all_iff)
  then show ?thesis using assms(2) l sql_agg_Some [OF _ assms(2)]
    by (simp add: candle_complete_def fold_bucket_def)
qed

lemma bucket_rows_set: "c \<in> set (bucket_rows s raw g) \<Longrightarrow> c \<in> set raw"
  by (simp add: bucket_rows_def)

text \<open>What the row of a bucket holds, given the row before it.\<close>

definition bucket_row_ok :: "int \<Rightarrow> hist_candle list \<Rightarrow> hist_candle option \<Rightarrow> hist_candle \<Rightarrow> bool" where
  "bucket_row_ok s raw p c \<longleftrightarrow>
     (let rs = bucket_rows s raw (candle_ns c) in
      if rs \<noteq> [] then hc_Open c = hc_Open (hd rs) \<and> hc_Close c = hc_Close (last rs) \<and>
         hc_Volume c = Some (\<Sum>r\<leftarrow>rs. the (hc_Volume r))
      else hc_Volume c = Some 0 \<and> (case p of None \<Rightarrow> False
         | Some q \<Rightarrow> hc_Open c = hc_Open q \<and> hc_High c = hc_High q \<and> hc_Low c = hc_Low q \<and> hc_Close c = hc_Close q))"

fun rows_follow :: "(hist_candle option \<Rightarrow> hist_candle \<Rightarrow> bool) \<Rightarrow> hist_candle option \<Rightarrow> hist_candle list \<Rightarrow> bool" where
  "rows_follow R p [] = True"
| "rows_follow R p (c # cs) \<longleftrightarrow> R p c \<and> rows_follow R (Some c) cs"

definition same_prices :: "hist_candle \<Rightarrow> hist_candle \<Rightarrow> bool" where
  "same_prices p q \<longleftrightarrow> hc_Open p = hc_Open q \<and> hc_High p = hc_High q \<and> hc_Low p = hc_Low q \<and> hc_Close p = hc_Close q"

lemma forward_fill_complete:
  assumes "candle_complete a"
  shows "candle_complete (forward_fill None a)" "same_prices a (forward_fill None a)" "hc_Volume (forward_fill None a) = hc_Volume a"
  using assms by (auto simp: forward_fill_def candle_complete_def same_prices_def coalesce_def split: option.splits)

lemma forward_fill_empty:
  assumes "candle_complete p"
  shows "candle_complete (forward_fill (Some p) (fold_bucket book g []))"
    "same_prices p (forward_fill (Some p) (fold_bucket book g []))" "hc_Volume (forward_fill (Some p) (fold_bucket book g [])) = Some 0"
  using assms
  by (auto simp: forward_fill_def candle_complete_def same_prices_def coalesce_def fold_bucket_def sql_max_def sql_min_def
      sql_sum_def List.map_filter_simps)

lemma fill_buckets_follow:
  assumes "list_all candle_complete raw" "case prev of None \<Rightarrow> gs \<noteq> [] \<longrightarrow> bucket_rows s raw (hd gs) \<noteq> []
      | Some p \<Rightarrow> candle_complete p \<and> (\<exists>q. lst = Some q \<and> same_prices p q)"
  shows "list_all candle_complete (fill_buckets book s raw prev gs) \<and> rows_follow (bucket_row_ok s raw) lst (fill_buckets book s raw prev gs)"
  using assms(2)
proof (induction gs arbitrary: prev lst)
  case (Cons g gs)
  let ?rs = "bucket_rows s raw g" and ?a = "fold_bucket book g (bucket_rows s raw g)"
  have rs: "list_all candle_complete ?rs" using assms(1) by (auto simp: list_all_iff dest: bucket_rows_set)
  have st: "candle_ns (forward_fill p (fold_bucket book g x)) = g" for p x by (simp add: forward_fill_def fold_bucket_def)
  show ?case
  proof (cases "?rs = []")
    case True
    then obtain p q where p: "prev = Some p" "candle_complete p" "lst = Some q" "same_prices p q"
      using Cons.prems by (cases prev) auto
    let ?c = "forward_fill (Some p) (fold_bucket book g [])"
    have "bucket_row_ok s raw lst ?c" using True p forward_fill_empty [OF p(2), of book g] st [of "Some p" "[]"]
      by (simp add: bucket_row_ok_def same_prices_def)
    moreover have "list_all candle_complete (fill_buckets book s raw prev gs) \<and> rows_follow (bucket_row_ok s raw) (Some ?c) (fill_buckets book s raw prev gs)"
      using p forward_fill_empty [OF p(2), of book g] by (intro Cons.IH) simp
    ultimately show ?thesis using True p forward_fill_empty [OF p(2), of book g] by simp
  next
    case False
    have a: "candle_complete ?a" by (rule fold_bucket_complete [OF rs False])
    let ?c = "forward_fill None ?a"
    have vols: "list_all (\<lambda>c. hc_Volume c \<noteq> None) ?rs" using rs by (auto simp: list_all_iff dest: candle_completeD)
    have "hc_Open ?a = hc_Open (hd ?rs)" "hc_Close ?a = hc_Close (last ?rs)" "hc_Volume ?a = Some (\<Sum>r\<leftarrow>?rs. the (hc_Volume r))"
      using False sql_agg_Some(3) [OF vols False] by (simp_all add: fold_bucket_def)
    then have "bucket_row_ok s raw lst ?c" using False forward_fill_complete [OF a] st [of None ?rs]
      by (simp add: bucket_row_ok_def same_prices_def)
    moreover have "list_all candle_complete (fill_buckets book s raw (Some ?a) gs) \<and>
        rows_follow (bucket_row_ok s raw) (Some ?c) (fill_buckets book s raw (Some ?a) gs)"
      using a forward_fill_complete [OF a] by (intro Cons.IH) simp
    ultimately show ?thesis using False forward_fill_complete [OF a] by (simp add: Let_def)
  qed
qed simp

lemma sum_partition:
  assumes "distinct gs" "\<forall>x\<in>set raw. f x \<in> set gs"
  shows "(\<Sum>g\<leftarrow>gs. \<Sum>x\<leftarrow>filter (\<lambda>x. f x = g) raw. v x) = (\<Sum>x\<leftarrow>raw. (v x :: rat))"
  using assms(2)
proof (induction raw)
  case (Cons x xs)
  have "(\<Sum>g\<leftarrow>gs. \<Sum>y\<leftarrow>filter (\<lambda>y. f y = g) (x # xs). v y) =
      (\<Sum>g\<leftarrow>gs. (if f x = g then v x else 0) + (\<Sum>y\<leftarrow>filter (\<lambda>y. f y = g) xs. v y))"
    by (intro arg_cong [where f = sum_list] map_cong) auto
  also have "\<dots> = (\<Sum>g\<leftarrow>gs. if f x = g then v x else 0) + (\<Sum>g\<leftarrow>gs. \<Sum>y\<leftarrow>filter (\<lambda>y. f y = g) xs. v y)"
    by (rule sum_list_addf)
  also have "(\<Sum>g\<leftarrow>gs. if f x = g then v x else 0) = v x"
    using Cons.prems assms(1) by (simp add: sum_list_distinct_conv_sum_set)
  finally show ?case using Cons by simp
qed simp

lemma bucket_start_bounds:
  assumes "0 < s"
  shows "bucket_start s t \<le> t" "t < bucket_start s t + s * second_ns"
proof -
  have "(t - unix_epoch_ns) div (s * second_ns) * (s * second_ns) + (t - unix_epoch_ns) mod (s * second_ns) = t - unix_epoch_ns"
    by (rule div_mult_mod_eq)
  moreover have "0 \<le> (t - unix_epoch_ns) mod (s * second_ns)" "(t - unix_epoch_ns) mod (s * second_ns) < s * second_ns"
    using assms by simp_all
  ultimately show "bucket_start s t \<le> t" "t < bucket_start s t + s * second_ns" unfolding bucket_start_def by linarith+
qed

lemma bucket_start_mono: "0 < s \<Longrightarrow> a \<le> b \<Longrightarrow> bucket_start s a \<le> bucket_start s b"
  by (simp add: bucket_start_def zdiv_mono1)

lemma bucket_in_grid:
  assumes s: "0 < s" and t: "t_ns start \<le> t" "t \<le> t_ns end - 1000"
  shows "bucket_start s t \<in> set (bucket_grid s start end)"
proof -
  let ?d = "s * second_ns" and ?q = "\<lambda>t. (t - unix_epoch_ns) div (s * second_ns)"
  have d: "0 < ?d" using s by simp
  have q: "?q (t_ns start) \<le> ?q t" "?q t \<le> ?q (t_ns end - 1000)" using t d by (simp_all add: zdiv_mono1)
  have b: "bucket_start s x = unix_epoch_ns + ?q x * ?d" for x by (simp add: bucket_start_def)
  have diff: "(bucket_start s (t_ns end - 1000) - bucket_start s (t_ns start)) div ?d = ?q (t_ns end - 1000) - ?q (t_ns start)"
    using d by (simp add: b flip: left_diff_distrib)
  have "bucket_start s t = bucket_start s (t_ns start) + int (nat (?q t - ?q (t_ns start))) * ?d"
    using q by (simp add: b left_diff_distrib)
  moreover have "nat (?q t - ?q (t_ns start)) < nat (?q (t_ns end - 1000) - ?q (t_ns start)) + 1" using q by linarith
  moreover have "\<not> bucket_start s (t_ns end - 1000) < bucket_start s (t_ns start)"
    using bucket_start_mono [OF s, of "t_ns start" "t_ns end - 1000"] t by simp
  ultimately show ?thesis unfolding bucket_grid_def Let_def diff by (auto simp del: upt_Suc intro!: image_eqI)
qed

lemma bucket_grid_hd: "bucket_grid s start end \<noteq> [] \<Longrightarrow> hd (bucket_grid s start end) = bucket_start s (t_ns start)"
  by (simp add: bucket_grid_def Let_def hd_map del: upt_Suc split: if_splits)

text \<open>A window at a bucket boundary, whose instants are whole microseconds as the database keeps them,
  with complete candles.\<close>

definition fold_window :: "hist_db \<Rightarrow> string \<Rightarrow> int \<Rightarrow> gtime \<Rightarrow> gtime \<Rightarrow> bool" where
  "fold_window db book s start end \<longleftrightarrow> hist_wf db \<and> hd_up db \<and> unix_time start \<and> unix_time end \<and>
     bucket_start s (t_ns start) = t_ns start \<and> t_ns start < t_ns end \<and> 1000 dvd t_ns start \<and> 1000 dvd t_ns end \<and>
     (\<forall>c\<in>set (hd_candles db). 1000 dvd candle_ns c) \<and> list_all candle_complete (raw_candles db book start end)"

lemma dvd_less_le: "k dvd a \<Longrightarrow> k dvd b \<Longrightarrow> a < b \<Longrightarrow> a \<le> b - (k::int)"
  by (metis dvd_diff zdvd_imp_le diff_gt_0_iff_gt le_diff_eq add.commute)

lemma fold_window_grid:
  assumes w: "fold_window db book s start end" and s: "60 < s"
  shows "hd (bucket_grid s start end) = t_ns start" "bucket_grid s start end \<noteq> []"
    "c \<in> set (raw_candles db book start end) \<Longrightarrow> bucket_start s (candle_ns c) \<in> set (bucket_grid s start end)"
    "g \<in> set (bucket_grid s start end) \<Longrightarrow> t_ns start \<le> g \<and> g < t_ns end"
proof -
  have le: "t_ns start \<le> t_ns end - 1000" using w by (auto simp: fold_window_def intro: dvd_less_le)
  have b: "bucket_start s (t_ns start) = t_ns start" using w by (simp add: fold_window_def)
  have "bucket_start s (t_ns start) \<in> set (bucket_grid s start end)" using s le by (intro bucket_in_grid) auto
  then show ne: "bucket_grid s start end \<noteq> []" by auto
  then show "hd (bucket_grid s start end) = t_ns start"
    using b bucket_grid_hd by metis
  show "bucket_start s (candle_ns c) \<in> set (bucket_grid s start end)" if c: "c \<in> set (raw_candles db book start end)"
    using c s w by (intro bucket_in_grid) (auto simp: raw_candles_def fold_window_def intro: dvd_less_le)
  show "t_ns start \<le> g \<and> g < t_ns end" if g: "g \<in> set (bucket_grid s start end)"
  proof -
    let ?b1 = "bucket_start s (t_ns end - 1000)" and ?d = "s * second_ns"
    have "\<exists>i. g = t_ns start + int i * ?d \<and> i < nat ((?b1 - t_ns start) div ?d) + 1 \<and> \<not> ?b1 < t_ns start"
      using g b by (auto simp: bucket_grid_def Let_def simp del: upt_Suc split: if_splits)
    then obtain i where i: "g = t_ns start + int i * ?d" "i < nat ((?b1 - t_ns start) div ?d) + 1" "\<not> ?b1 < t_ns start"
      by blast
    have d: "0 < ?d" using s by simp
    have "0 \<le> (?b1 - t_ns start) div ?d" using i(3) d by (intro pos_imp_zdiv_nonneg_iff [THEN iffD2]) simp_all
    then have "int i \<le> (?b1 - t_ns start) div ?d" using i(2) by linarith
    then have "int i * ?d \<le> (?b1 - t_ns start) div ?d * ?d" using d by (intro mult_right_mono) auto
    moreover have "(?b1 - t_ns start) div ?d * ?d + (?b1 - t_ns start) mod ?d = ?b1 - t_ns start" by (rule div_mult_mod_eq)
    moreover have "0 \<le> (?b1 - t_ns start) mod ?d" using d by simp
    ultimately have "int i * ?d \<le> ?b1 - t_ns start" by linarith
    moreover have "?b1 \<le> t_ns end - 1000" using bucket_start_bounds(1) s by simp
    ultimately show ?thesis using i(1) d by simp
  qed
qed

lemma rows_follow_volumes:
  "rows_follow (bucket_row_ok s raw) p cs \<Longrightarrow>
    map hc_Volume cs = map (\<lambda>c. Some (\<Sum>r\<leftarrow>bucket_rows s raw (candle_ns c). the (hc_Volume r))) cs"
  by (induction cs arbitrary: p) (auto simp: bucket_row_ok_def Let_def split: if_splits)

lemma sum_bucket_rows:
  "(\<Sum>r\<leftarrow>bucket_rows s raw g. v r) = (\<Sum>r\<leftarrow>filter (\<lambda>r. bucket_start s (candle_ns r) = g) raw. (v r :: rat))"
proof -
  have "mset (map v (sort_key candle_ns xs)) = mset (map v xs)" for xs by simp
  then show ?thesis unfolding bucket_rows_def by (metis sum_mset_sum_list)
qed

section \<open>Theorems\<close>

text \<open>C34: Decoding the cursor a page ends with gives back its row's instant, in UTC, and identifier, a UUID
  for trades and prices; the empty identifier of a candle comes back padded.\<close>

theorem cursor_round_trip:
  assumes "codec_laws b64 unb64" "unix_time t" "length i \<le> 36"
  shows "decodeCursor unb64 (encodeCursor b64 t i) =
      Inr (\<lparr>t_ns = t_ns t, t_off = 0\<rparr>, i @ replicate (36 - length i) (char_of (0::int))) \<and> encodeCursor b64 t i \<noteq> ''''"
  using cursor_back [OF assms] encodeCursor_nonempty [OF assms(1)] by blast

definition sample_b64 :: "int list \<Rightarrow> string" where
  "sample_b64 bs = map char_of bs"

definition sample_unb64 :: "string \<Rightarrow> int list option" where
  "sample_unb64 s = Some (map of_char s)"

lemma sample_codec: "codec_laws sample_b64 sample_unb64"
proof -
  have "map (\<lambda>b. of_char (char_of b :: char)) bs = bs" if "list_all (\<lambda>b. 0 \<le> b \<and> b < 256) bs" for bs :: "int list"
    using that by (induction bs) auto
  then show ?thesis by (simp add: codec_laws_def sample_b64_def sample_unb64_def o_def)
qed

lemma unix_time_sample: "0 \<le> x \<Longrightarrow> x < 2 ^ 60 \<Longrightarrow> unix_time \<lparr>t_ns = unix_epoch_ns + x, t_off = 0\<rparr>"
  by (simp add: unix_time_def)

theorem cursor_round_trip_witness:
  "decodeCursor sample_unb64 (encodeCursor sample_b64 \<lparr>t_ns = unix_epoch_ns + 5, t_off = 0\<rparr> nilUUID) =
     Inr (\<lparr>t_ns = unix_epoch_ns + 5, t_off = 0\<rparr>, nilUUID)"
  using cursor_round_trip [OF sample_codec unix_time_sample [of 5], of nilUUID] by (simp add: nilUUID_def)

text \<open>Following cursors to the end serves every trade of a book in the window, once and in order: the
  drain of \<open>fetchAll\<close> returns, and the pages a stream asks for hold the same rows.\<close>

theorem trade_pages_complete:
  assumes "hist_wf db" "hd_up db" "0 < n"
  shows "fetchAll (\<lambda>c. FetchTrades db book start end c n) =
      Some (Inr (in_history trade_key start end (filter (\<lambda>t. ht_OrderBookID t = book) (hd_trades db)))) \<and>
    (\<exists>pages. serves (rows_as f (\<lambda>c. FetchTrades db book start end c n)) '''' pages None \<and>
      concat pages = map f (in_history trade_key start end (filter (\<lambda>t. ht_OrderBookID t = book) (hd_trades db))))"
  using keyset_fetchAll [OF FetchTrades_keyset [OF assms]] keyset_serves [OF FetchTrades_keyset [OF assms], of f] by metis

text \<open>A folded series over a window at a bucket boundary, whose first bucket has a candle, is gapless: it
  has a row per bucket, each row holds the first open, the last close and the sum of the volumes of its
  bucket, an empty bucket repeats the prices of the row before it with no volume, and the volume of the
  window is preserved.\<close>

theorem folded_candles_gapless:
  assumes w: "fold_window db book s start end" and s: "resolutionSeconds r = Some s" "60 < s" and n: "0 < n"
    and first: "bucket_rows s (raw_candles db book start end) (t_ns start) \<noteq> []"
  shows "\<exists>cs. fetchAll (\<lambda>c. FetchCandles db book start end r c n) = Some (Inr cs) \<and>
    map candle_ns cs = bucket_grid s start end \<and> list_all candle_complete cs \<and>
    rows_follow (bucket_row_ok s (raw_candles db book start end)) None cs \<and>
    (\<Sum>c\<leftarrow>cs. the (hc_Volume c)) = (\<Sum>c\<leftarrow>raw_candles db book start end. the (hc_Volume c))"
proof -
  let ?raw = "raw_candles db book start end" and ?grid = "bucket_grid s start end"
  let ?cs = "fill_buckets book s ?raw None ?grid"
  have rows: "candle_rows db book s start end = ?cs" by (rule candle_rows_folded [OF s(2)])
  have starts: "map candle_ns ?cs = ?grid" by (rule fill_buckets_starts)
  have F: "list_all candle_complete ?cs" "rows_follow (bucket_row_ok s ?raw) None ?cs"
    using fill_buckets_follow [where raw = ?raw and prev = None and gs = ?grid and s = s and lst = None and book = book] w first fold_window_grid(1) [OF w s(2)]
    by (simp_all add: fold_window_def)
  have inside: "t_ns start \<le> candle_ns c \<and> candle_ns c < t_ns end" if "c \<in> set ?cs" for c
    using that starts fold_window_grid(4) [OF w s(2)] by (metis image_eqI list.set_map)
  have served: "served_candles db book s start end = ?cs" unfolding served_candles_def rows using inside by (simp add: filter_id_conv)
  have "candle_complete c \<and> unix_time (hc_Start c)" if "c \<in> set ?cs" for c
    using that inside [OF that] F(1) w by (auto simp: list_all_iff unix_time_def fold_window_def)
  then have K: "fetchAll (\<lambda>c. FetchCandles db book start end r c n) = Some (Inr ?cs)"
    using keyset_fetchAll [OF FetchCandles_keyset [OF _ _ n s(1)]] w unfolding served [symmetric] fold_window_def by blast
  have "(\<Sum>c\<leftarrow>?cs. the (hc_Volume c)) = (\<Sum>c\<leftarrow>?cs. \<Sum>r\<leftarrow>bucket_rows s ?raw (candle_ns c). the (hc_Volume r))"
    using arg_cong [OF rows_follow_volumes [OF F(2)], of "\<lambda>xs. sum_list (map the xs)"] by (simp add: o_def)
  also have "\<dots> = (\<Sum>g\<leftarrow>?grid. \<Sum>r\<leftarrow>filter (\<lambda>r. bucket_start s (candle_ns r) = g) ?raw. the (hc_Volume r))"
    using arg_cong [OF starts, of "\<lambda>gs. \<Sum>g\<leftarrow>gs. \<Sum>r\<leftarrow>filter (\<lambda>r. bucket_start s (candle_ns r) = g) ?raw. the (hc_Volume r)"]
    by (simp add: sum_bucket_rows o_def)
  also have "\<dots> = (\<Sum>c\<leftarrow>?raw. the (hc_Volume c))"
    using bucket_grid_sorted [of s start "end"] s(2) fold_window_grid(3) [OF w s(2)]
    by (intro sum_partition) (auto simp: strict_sorted_iff)
  finally show ?thesis using K starts F by blast
qed

text \<open>The same fetch fails when the first bucket of the window is empty: there is nothing to forward-fill
  it from, its columns are null, and they do not scan into strings.\<close>

theorem empty_first_bucket_fails:
  assumes "hd_up db" "resolutionSeconds r = Some s" "60 < s" "0 < n" "t_ns start < t_ns end" "1000 dvd t_ns start" "1000 dvd t_ns end"
    and "bucket_start s (t_ns start) = t_ns start" "bucket_rows s (raw_candles db book start end) (t_ns start) = []"
  shows "FetchCandles db book start end r '''' n = Inl scan_null"
proof -
  have "t_ns start \<le> t_ns end - 1000" using assms by (intro dvd_less_le) auto
  then have "bucket_start s (t_ns start) \<in> set (bucket_grid s start end)" using assms by (intro bucket_in_grid) auto
  then have "bucket_grid s start end \<noteq> []" by auto
  then obtain gs where gs: "bucket_grid s start end = t_ns start # gs"
    using bucket_grid_hd [of s start "end"] assms(8) by (metis list.exhaust_sel)
  have "\<exists>c cs. candle_rows db book s start end = c # cs \<and> candle_ns c = t_ns start \<and> hc_Open c = None"
    unfolding candle_rows_folded [OF assms(3)] gs using assms(9) by (simp add: forward_fill_def fold_bucket_def coalesce_def)
  then obtain c cs where c: "candle_rows db book s start end = c # cs" "candle_ns c = t_ns start" "hc_Open c = None" by blast
  have "\<not> list_all candle_complete (take n (filter (\<lambda>c. t_ns start - 1 < candle_ns c) (c # cs)))"
    using c assms(4) by (cases n) (auto simp: candle_complete_def)
  then show ?thesis using assms(1,2) c(1)
    by (simp add: FetchCandles_def page_from_def time_Add_def Let_def del: filter.simps)
qed

section \<open>Examples\<close>

text \<open>Two five-minute buckets, the second empty; its single candle moved to the second bucket empties the first.\<close>

definition sample_instant :: "int \<Rightarrow> gtime" where
  "sample_instant x = \<lparr>t_ns = unix_epoch_ns + x * second_ns, t_off = 0\<rparr>"

definition sample_hist_candle :: "int \<Rightarrow> hist_candle" where
  "sample_hist_candle x = \<lparr>hc_OrderBookID = ''b'', hc_Start = sample_instant x, hc_Open = Some 1, hc_High = Some 3,
     hc_Low = Some 1, hc_Close = Some 2, hc_Volume = Some 5, hc_OpenYtm = Some 0, hc_HighYtm = Some 0,
     hc_LowYtm = Some 0, hc_CloseYtm = Some 0\<rparr>"

definition sample_hist_trade :: "int \<Rightarrow> string \<Rightarrow> hist_trade" where
  "sample_hist_trade x i = \<lparr>ht_TransactionID = i, ht_OrderBookID = ''b'', ht_OrderID = ''o'', ht_OrderSeq = 1, ht_UserID = ''u'',
     ht_Asset0 = ''a'', ht_Price = 1, ht_Quantity0 = 2, ht_Side = ''BUY'', ht_Aggressor = True, ht_CreatedAt = sample_instant x\<rparr>"

definition sample_uuid :: string where
  "sample_uuid = ''aaaaaaaa-0000-0000-0000-000000000000''"

definition sample_hist_db :: "int \<Rightarrow> hist_db" where
  "sample_hist_db x = \<lparr>hd_up = True, hd_trades = [sample_hist_trade 7 sample_uuid, sample_hist_trade 3 nilUUID],
     hd_prices = [], hd_candles = [sample_hist_candle x], hd_b64 = sample_b64, hd_unb64 = sample_unb64\<rparr>"

lemma sample_unix_time: "0 \<le> x \<Longrightarrow> x < 1000 \<Longrightarrow> unix_time (sample_instant x)"
  by (simp add: unix_time_def sample_instant_def)

lemma sample_hist_wf: "0 \<le> x \<Longrightarrow> x < 1000 \<Longrightarrow> hist_wf (sample_hist_db x)"
  using sample_unix_time [of 7] sample_unix_time [of 3]
  by (simp add: hist_wf_def sample_hist_db_def sample_codec sample_unix_time sample_hist_candle_def sample_hist_trade_def nilUUID_def sample_uuid_def)

theorem trade_pages_complete_witness:
  "fetchAll (\<lambda>c. FetchTrades (sample_hist_db 60) ''b'' (sample_instant 0) (sample_instant 10) c 1) =
     Some (Inr [sample_hist_trade 3 nilUUID, sample_hist_trade 7 sample_uuid])"
proof -
  have "in_history trade_key (sample_instant 0) (sample_instant 10)
      (filter (\<lambda>t. ht_OrderBookID t = ''b'') (hd_trades (sample_hist_db 60))) =
      [sample_hist_trade 3 nilUUID, sample_hist_trade 7 sample_uuid]"
    by (simp add: in_history_def sample_hist_db_def sample_hist_trade_def trade_key_def inst_id_def sample_instant_def)
  then show ?thesis
    using trade_pages_complete [OF sample_hist_wf [of 60], of 1 "''b''" "sample_instant 0" "sample_instant 10" "\<lambda>t. \<lparr>sr_ts = ht_CreatedAt t, sr_payload = t\<rparr>"]
    by (simp add: sample_hist_db_def)
qed

lemma sample_raw_row: "0 \<le> x \<Longrightarrow> x < 600 \<Longrightarrow>
    raw_candles (sample_hist_db x) ''b'' (sample_instant 0) (sample_instant 600) = [sample_hist_candle x]"
  by (simp add: raw_candles_def sample_hist_db_def sample_hist_candle_def sample_instant_def)

lemma sample_hist_start: "t_ns (sample_instant 0) = unix_epoch_ns" "bucket_start 300 unix_epoch_ns = unix_epoch_ns"
  by (simp_all add: sample_instant_def bucket_start_def)

theorem folded_candles_gapless_witness:
  "\<exists>cs. fetchAll (\<lambda>c. FetchCandles (sample_hist_db 60) ''b'' (sample_instant 0) (sample_instant 600) ''5m'' c 7) = Some (Inr cs) \<and>
    (\<Sum>c\<leftarrow>cs. the (hc_Volume c)) = 5"
proof -
  have "fold_window (sample_hist_db 60) ''b'' 300 (sample_instant 0) (sample_instant 600)"
    unfolding fold_window_def using sample_hist_wf [of 60] sample_unix_time [of 0] sample_unix_time [of 600] sample_raw_row [of 60] sample_hist_start
    by (simp add: sample_hist_db_def sample_hist_candle_def candle_complete_def) (simp add: sample_instant_def unix_epoch_ns_def)
  moreover have "resolutionSeconds ''5m'' = Some 300" by (simp add: resolutionSeconds_def)
  moreover have "bucket_rows 300 (raw_candles (sample_hist_db 60) ''b'' (sample_instant 0) (sample_instant 600)) (t_ns (sample_instant 0)) \<noteq> []"
    by (simp add: sample_raw_row sample_hist_start bucket_rows_def sample_hist_candle_def) (simp add: sample_instant_def bucket_start_def)
  ultimately show ?thesis
    using folded_candles_gapless [of "sample_hist_db 60" "''b''" 300 "sample_instant 0" "sample_instant 600" "''5m''" 7] sample_raw_row [of 60]
    by (auto simp: sample_hist_candle_def)
qed

theorem empty_first_bucket_fails_witness:
  "FetchCandles (sample_hist_db 360) ''b'' (sample_instant 0) (sample_instant 600) ''5m'' '''' 7 = Inl scan_null"
proof (rule empty_first_bucket_fails [where s = 300])
  show "bucket_rows 300 (raw_candles (sample_hist_db 360) ''b'' (sample_instant 0) (sample_instant 600)) (t_ns (sample_instant 0)) = []"
    by (simp add: sample_raw_row sample_hist_start bucket_rows_def sample_hist_candle_def) (simp add: sample_instant_def bucket_start_def)
qed (simp_all add: sample_hist_start resolutionSeconds_def, simp_all add: sample_hist_db_def sample_instant_def unix_epoch_ns_def)

end
