(* ===== verification/Plugin_Backtest.thy ===== *)
theory Plugin_Backtest
  imports Agent_Host History_Props Go_Strings
begin

text \<open>
  A plugin backtest, \<open>internal/agent/backtest/wasm_starter.go\<close>: the windows it fetches, the conversion of
  history rows, and the host functions the plugin calls while the streams of \<open>Page_Stream\<close> replay the
  window.

  \<^item> \<open>jobState\<close> is the state the host functions share. The plugin is any sequence of calls: \<open>job_act\<close>
    performs one call, or one step of the merged stream; a \<open>host_next_event\<close> waits until the stream's
    \<open>next\<close> has returned.
  \<^item> Numbers and times travel as text: \<open>be_num\<close> prints a numeric column, \<open>be_time\<close> is
    \<open>Format(RFC3339Nano)\<close>, \<open>be_setString\<close> reads a \<open>big.Rat\<close>, \<open>be_parseFloat\<close> a float. JSON codecs are
    arguments; what is written must fit the plugin's buffer.
  \<^item> The cursors of the warm-up pages are numbers in decimal (\<open>Go_Strings\<close>).
\<close>

section \<open>Windows\<close>

definition candlesPerChunk :: nat where "candlesPerChunk = 1500"
definition warmupTradesPerCandle :: int where "warmupTradesPerCandle = 60"
definition warmupPricesPerCandle :: int where "warmupPricesPerCandle = 100"
definition warmupMinTicks :: int where "warmupMinTicks = 1000"
definition warmupTradesReplay :: nat where "warmupTradesReplay = 1000"
definition warmupPricesReplay :: nat where "warmupPricesReplay = 1000"

definition resolutionDuration :: "string \<Rightarrow> int" where
  "resolutionDuration res =
     (if res = ''1m'' then minute_ns else if res = ''5m'' then 5 * minute_ns else if res = ''15m'' then 15 * minute_ns
      else if res = ''1h'' then hour_ns else if res = ''4h'' then 4 * hour_ns else if res = ''1d'' then 24 * hour_ns else 0)"

text \<open>The product is a 64-bit multiplication.\<close>

definition warmupStart :: "gtime \<Rightarrow> int \<Rightarrow> string \<Rightarrow> gtime" where
  "warmupStart windowStart warmupCandles resolution =
     (if warmupCandles \<le> 0 then windowStart
      else let d = resolutionDuration resolution in
           if d = 0 then windowStart else time_Add windowStart (wrap64 (- warmupCandles * d)))"

record Backtest =
  bt_ID :: string
  bt_OrderBookID :: string
  bt_WindowStart :: gtime
  bt_WindowEnd :: gtime
  bt_Resolution :: string
  bt_WarmupCandles :: int
  bt_Params :: "string \<rightharpoonup> string"

section \<open>Rows of the framework\<close>

record fw_candle =
  fc_OrderBookID :: string
  fc_StartTimestamp :: string
  fc_Open :: string
  fc_High :: string
  fc_Low :: string
  fc_Close :: string
  fc_OpenYtm :: string
  fc_HighYtm :: string
  fc_LowYtm :: string
  fc_CloseYtm :: string
  fc_Volume :: string

record fw_trade =
  ft_TransactionID :: string
  ft_OrderBookID :: string
  ft_OrderID :: string
  ft_OrderSeq :: int
  ft_UserID :: string
  ft_Asset0 :: string
  ft_Price :: string
  ft_Quantity0 :: string
  ft_Side :: string
  ft_AggressorIndicator :: bool
  ft_CreatedAt :: string

record fw_price =
  fp_AssetID :: string
  fp_Price :: string
  fp_YTM :: string
  fp_Time :: string

datatype payload = PlCandle fw_candle | PlTrade fw_trade | PlPrice fw_price

record bt_env =
  be_num :: "rat \<Rightarrow> string"
  be_time :: "gtime \<Rightarrow> string"
  be_setString :: "string \<Rightarrow> rat option"
  be_parseFloat :: "string \<Rightarrow> f64 res"
  be_now :: gtime
  be_candle :: "fw_candle \<Rightarrow> string"
  be_trade :: "fw_trade \<Rightarrow> string"
  be_price :: "fw_price \<Rightarrow> string"
  be_envelope :: "string \<Rightarrow> string \<Rightarrow> string"
  be_fill :: "Fill \<Rightarrow> string"
  be_decodeIntent :: "string \<Rightarrow> Intent res"
  be_decodeFill :: "string \<Rightarrow> Fill res"
  be_decodeFetchReq :: "string \<Rightarrow> (string \<times> int) res"

definition num :: "bt_env \<Rightarrow> rat option \<Rightarrow> string" where
  "num env x = (case x of None \<Rightarrow> '''' | Some q \<Rightarrow> be_num env q)"

definition historyCandleToFramework :: "bt_env \<Rightarrow> hist_candle \<Rightarrow> fw_candle" where
  "historyCandleToFramework env c = \<lparr>fc_OrderBookID = hc_OrderBookID c, fc_StartTimestamp = be_time env (hc_Start c),
     fc_Open = num env (hc_Open c), fc_High = num env (hc_High c), fc_Low = num env (hc_Low c),
     fc_Close = num env (hc_Close c), fc_OpenYtm = num env (hc_OpenYtm c), fc_HighYtm = num env (hc_HighYtm c),
     fc_LowYtm = num env (hc_LowYtm c), fc_CloseYtm = num env (hc_CloseYtm c), fc_Volume = num env (hc_Volume c)\<rparr>"

definition historyTradeToFramework :: "bt_env \<Rightarrow> hist_trade \<Rightarrow> fw_trade" where
  "historyTradeToFramework env t = \<lparr>ft_TransactionID = ht_TransactionID t, ft_OrderBookID = ht_OrderBookID t,
     ft_OrderID = ht_OrderID t, ft_OrderSeq = ht_OrderSeq t, ft_UserID = ht_UserID t, ft_Asset0 = ht_Asset0 t,
     ft_Price = be_num env (ht_Price t), ft_Quantity0 = be_num env (ht_Quantity0 t), ft_Side = ht_Side t,
     ft_AggressorIndicator = ht_Aggressor t, ft_CreatedAt = be_time env (ht_CreatedAt t)\<rparr>"

definition historyPriceToFramework :: "bt_env \<Rightarrow> hist_price \<Rightarrow> fw_price" where
  "historyPriceToFramework env p = \<lparr>fp_AssetID = hp_AssetID p, fp_Price = num env (hp_Price p),
     fp_YTM = num env (hp_YTM p), fp_Time = be_time env (hp_Timestamp p)\<rparr>"

definition candleRow :: "bt_env \<Rightarrow> hist_candle \<Rightarrow> payload srow" where
  "candleRow env c = \<lparr>sr_ts = hc_Start c, sr_payload = PlCandle (historyCandleToFramework env c)\<rparr>"

definition tradeRow :: "bt_env \<Rightarrow> hist_trade \<Rightarrow> payload srow" where
  "tradeRow env t = \<lparr>sr_ts = ht_CreatedAt t, sr_payload = PlTrade (historyTradeToFramework env t)\<rparr>"

definition priceRow :: "bt_env \<Rightarrow> hist_price \<Rightarrow> payload srow" where
  "priceRow env p = \<lparr>sr_ts = hp_Timestamp p, sr_payload = PlPrice (historyPriceToFramework env p)\<rparr>"

section \<open>Fetching\<close>

record historyWindow =
  hw_candles :: "fw_candle list"
  hw_trades :: "fw_trade list"
  hw_prices :: "fw_price list"

text \<open>The price fetch is skipped for an unknown asset. The result is \<open>None\<close> when a drain never ends.\<close>

definition fetchHistoryWindow :: "bt_env \<Rightarrow> hist_db \<Rightarrow> string \<Rightarrow> Backtest \<Rightarrow> historyWindow res option" where
  "fetchHistoryWindow env db assetID b =
     (let ws = warmupStart (bt_WindowStart b) (bt_WarmupCandles b) (bt_Resolution b);
          warmupTrades = max (wrap64 (bt_WarmupCandles b * warmupTradesPerCandle)) warmupMinTicks;
          warmupPrices = max (wrap64 (bt_WarmupCandles b * warmupPricesPerCandle)) warmupMinTicks in
      case fetchAll (\<lambda>c. FetchCandles db (bt_OrderBookID b) ws (bt_WindowStart b) (bt_Resolution b) c candlesPerChunk) of
        None \<Rightarrow> None
      | Some (Inl e) \<Rightarrow> Some (Inl e)
      | Some (Inr hcandles) \<Rightarrow>
        (case fetchAll (\<lambda>c. FetchTrades db (bt_OrderBookID b) ws (bt_WindowStart b) c (nat warmupTrades)) of
           None \<Rightarrow> None
         | Some (Inl e) \<Rightarrow> Some (Inl e)
         | Some (Inr htrades) \<Rightarrow>
           (case (if assetID = '''' then Some (Inr [])
                  else fetchAll (\<lambda>c. FetchPrices db assetID ws (bt_WindowStart b) c (nat warmupPrices))) of
              None \<Rightarrow> None
            | Some (Inl e) \<Rightarrow> Some (Inl e)
            | Some (Inr hprices) \<Rightarrow>
                Some (Inr \<lparr>hw_candles = map (historyCandleToFramework env) hcandles,
                  hw_trades = map (historyTradeToFramework env) htrades,
                  hw_prices = map (historyPriceToFramework env) hprices\<rparr>))))"

definition newReplayStream :: "bt_env \<Rightarrow> hist_db \<Rightarrow> string \<Rightarrow> Backtest \<Rightarrow> eventKind \<Rightarrow> payload fetcher" where
  "newReplayStream env db assetID b k =
     (case k of
        kindCandle \<Rightarrow> rows_as (candleRow env) (\<lambda>c. FetchCandles db (bt_OrderBookID b) (bt_WindowStart b) (bt_WindowEnd b)
          (bt_Resolution b) c candlesPerChunk)
      | kindTrade \<Rightarrow> rows_as (tradeRow env) (\<lambda>c. FetchTrades db (bt_OrderBookID b) (bt_WindowStart b) (bt_WindowEnd b) c
          warmupTradesReplay)
      | kindPrice \<Rightarrow> rows_as (priceRow env) (\<lambda>c. if assetID = '''' then Inr ([], '''')
          else FetchPrices db assetID (bt_WindowStart b) (bt_WindowEnd b) c warmupPricesReplay))"

text \<open>Without a history store candles come from the REST API: \<open>api\<close> answers a window. The context may be
  cancelled before any chunk, \<open>ctxErr\<close> by the chunk's start.\<close>

function chunk_windows :: "int \<Rightarrow> gtime \<Rightarrow> gtime \<Rightarrow> (gtime \<times> gtime) list" where
  "chunk_windows chunkSpan s e =
     (if 0 < chunkSpan \<and> time_Before s e
      then (let ce = time_Add s chunkSpan in (s, if time_After ce e then e else ce) # chunk_windows chunkSpan ce e)
      else [])"
  by auto

termination
  by (relation "measure (\<lambda>(chunkSpan, s, e). nat (t_ns e - t_ns s))") (auto simp: time_Before_def time_Add_def)

declare chunk_windows.simps [simp del]

fun fetch_chunks :: "(gtime \<Rightarrow> gerror option) \<Rightarrow> (gtime \<Rightarrow> gtime \<Rightarrow> fw_candle list res) \<Rightarrow> (gtime \<times> gtime) list \<Rightarrow> fw_candle list \<Rightarrow>
    fw_candle list res" where
  "fetch_chunks ctxErr api [] out = Inr out"
| "fetch_chunks ctxErr api ((s, e) # ws) out =
     (case ctxErr s of
        Some err \<Rightarrow> Inl err
      | None \<Rightarrow> rbind (api s e) (\<lambda>chunk. fetch_chunks ctxErr api ws (out @ chunk)))"

definition fetchCandles :: "(gtime \<Rightarrow> gerror option) \<Rightarrow> (gtime \<Rightarrow> gtime \<Rightarrow> fw_candle list res) \<Rightarrow> Backtest \<Rightarrow> fw_candle list res" where
  "fetchCandles ctxErr api b =
     (let chunkDur = resolutionDuration (bt_Resolution b) in
      if chunkDur = 0 then api (bt_WindowStart b) (bt_WindowEnd b)
      else rbind (fetch_chunks ctxErr api (chunk_windows (int candlesPerChunk * chunkDur) (bt_WindowStart b) (bt_WindowEnd b)) [])
             (\<lambda>out. Inr (sort_key fc_StartTimestamp out)))"

section \<open>The state of a job\<close>

record bt_fill =
  bf_Timestamp :: gtime
  bf_Side :: string
  bf_Quantity :: f64
  bf_Price :: f64
  bf_OrderID :: string
  bf_SimulatedAt :: gtime

record jobState =
  js_lastCandle :: "fw_candle option"
  js_lastCandleDelivered :: bool
  js_preambleCandles :: "fw_candle list"
  js_preambleTrades :: "fw_trade list"
  js_preamblePrices :: "fw_price list"
  js_replayCandles :: "fw_candle list"
  js_eventCandleIdx :: nat
  js_configJSON :: string
  js_fills :: "bt_fill list"
  js_fillSeq :: nat
  js_currentSide :: string
  js_errored :: bool
  js_errorMsg :: string

definition bt_hostGetConfig :: "nat \<Rightarrow> jobState \<Rightarrow> host_result" where
  "bt_hostGetConfig bufLen st = fit bufLen (js_configJSON st) ''config JSON exceeds buffer''"

definition deliver_candle :: "fw_candle \<Rightarrow> jobState \<Rightarrow> jobState" where
  "deliver_candle c st = st\<lparr>js_lastCandle := Some c, js_lastCandleDelivered := False\<rparr>"

text \<open>\<open>streaming\<close> tells whether there is a replay stream.\<close>

definition hostNextCandle :: "bt_env \<Rightarrow> bool \<Rightarrow> nat \<Rightarrow> jobState \<Rightarrow> jobState \<times> host_result" where
  "hostNextCandle env streaming bufLen st =
     (if \<not> streaming
      then if length (js_replayCandles st) \<le> js_eventCandleIdx st then (st, HDone)
           else let c = js_replayCandles st ! js_eventCandleIdx st in
                (deliver_candle c st\<lparr>js_eventCandleIdx := Suc (js_eventCandleIdx st)\<rparr>,
                 fit bufLen (be_candle env c) ''candle JSON exceeds buffer'')
      else case js_lastCandle st of
             None \<Rightarrow> (st, HDone)
           | Some c \<Rightarrow>
               if js_lastCandleDelivered st then (st, HDone)
               else (st\<lparr>js_lastCandleDelivered := True\<rparr>, fit bufLen (be_candle env c) ''candle JSON exceeds buffer''))"

definition preambleBatchSize :: int where "preambleBatchSize = 500"
definition maxFetchBatchSize :: int where "maxFetchBatchSize = 5000"

definition clampFetchBatchSize :: "int \<Rightarrow> int" where
  "clampFetchBatchSize n = (if n \<le> 0 then preambleBatchSize else min n maxFetchBatchSize)"

text \<open>A page: its items, whether it is the last, and the cursor of the next.\<close>

definition preamblePage :: "'a list \<Rightarrow> string \<times> int \<Rightarrow> ('a list \<times> bool \<times> string) res" where
  "preamblePage items req =
     (case req of (cursor, batchSize) \<Rightarrow>
        let page = (\<lambda>start.
              let e = min (start + nat (clampFetchBatchSize batchSize)) (length items); done = (length items \<le> e) in
              (take (e - start) (drop start items), done, if done then '''' else Itoa (int e)))
        in if cursor = '''' then Inr (page 0)
           else case Atoi cursor of
                  None \<Rightarrow> Inl ''invalid fetch cursor''
                | Some start \<Rightarrow>
                    if start < 0 \<or> int (length items) < start then Inl ''invalid fetch cursor'' else Inr (page (nat start)))"

text \<open>\<open>host_fetch_candles\<close>, \<open>host_fetch_trades\<close> and \<open>host_fetch_prices\<close>, by their preamble and the codec of
  their batch.\<close>

definition hostFetch :: "bt_env \<Rightarrow> 'a list \<Rightarrow> ('a list \<times> bool \<times> string \<Rightarrow> string) \<Rightarrow> nat \<Rightarrow> string option \<Rightarrow> host_result" where
  "hostFetch env items batchJSON outLen mem =
     (case mem of
        None \<Rightarrow> HError ''read fetch request buffer''
      | Some buf \<Rightarrow>
          (case rbind (be_decodeFetchReq env buf) (preamblePage items) of
             Inl e \<Rightarrow> HError e
           | Inr batch \<Rightarrow> fit outLen (batchJSON batch) ''batch JSON exceeds buffer''))"

definition streamEventEnvelope :: "bt_env \<Rightarrow> payload event \<Rightarrow> jobState \<Rightarrow> jobState \<times> (string \<times> string) res" where
  "streamEventEnvelope env ev st =
     (case (fst ev, sr_payload (snd ev)) of
        (kindCandle, PlCandle c) \<Rightarrow> (deliver_candle c st, Inr (''candle'', be_candle env c))
      | (kindTrade, PlTrade t) \<Rightarrow> (st, Inr (''trade'', be_trade env t))
      | (kindPrice, PlPrice p) \<Rightarrow> (st, Inr (''price'', be_price env p))
      | _ \<Rightarrow> (st, Inl ''event kind carried another row''))"

text \<open>\<open>next\<close> is what the replay stream's \<open>next\<close> returned, \<open>None\<close> without a stream.\<close>

definition bt_hostNextEvent :: "bt_env \<Rightarrow> payload event option res option \<Rightarrow> nat \<Rightarrow> jobState \<Rightarrow> jobState \<times> host_result" where
  "bt_hostNextEvent env next outLen st =
     (case next of
        None \<Rightarrow>
          if length (js_replayCandles st) \<le> js_eventCandleIdx st then (st, HDone)
          else let c = js_replayCandles st ! js_eventCandleIdx st in
               (deliver_candle c (st\<lparr>js_eventCandleIdx := Suc (js_eventCandleIdx st)\<rparr>),
                fit outLen (be_envelope env ''candle'' (be_candle env c)) ''event JSON exceeds buffer'')
      | Some (Inl e) \<Rightarrow> (st, HError e)
      | Some (Inr None) \<Rightarrow> (st, HDone)
      | Some (Inr (Some ev)) \<Rightarrow>
          (case streamEventEnvelope env ev st of
             (st1, Inl e) \<Rightarrow> (st1, HError e)
           | (st1, Inr (ty, data)) \<Rightarrow> (st1, fit outLen (be_envelope env ty data) ''event JSON exceeds buffer'')))"

section \<open>Simulated orders\<close>

definition limitWithinRange :: "bt_env \<Rightarrow> string \<Rightarrow> string \<Rightarrow> string \<Rightarrow> bool res" where
  "limitWithinRange env price low high =
     (case (be_setString env price, be_setString env low, be_setString env high) of
        (Some p, Some l, Some h) \<Rightarrow> Inr (l \<le> p \<and> p \<le> h)
      | _ \<Rightarrow> Inl ''non-numeric price/low/high'')"

definition simulateFill :: "bt_env \<Rightarrow> Intent \<Rightarrow> jobState \<Rightarrow> jobState \<times> Fill res" where
  "simulateFill env intent st =
     (case js_lastCandle st of
        None \<Rightarrow> (st, Inl ''no current candle for fill simulation'')
      | Some candle \<Rightarrow>
          (let st1 = st\<lparr>js_currentSide := it_Side intent, js_fillSeq := Suc (js_fillSeq st)\<rparr>;
               fill = (\<lambda>price. \<lparr>fl_OrderID = ''sim-'' @ pad4 (js_fillSeq st1), fl_Price = price, fl_Quantity = it_Quantity intent\<rparr>)
           in (st1,
               if it_Type intent = ''market'' then Inr (fill (fc_Close candle))
               else if it_Type intent = ''limit''
               then rbind (limitWithinRange env (it_Price intent) (fc_Low candle) (fc_High candle)) (\<lambda>inRange.
                      if inRange then Inr (fill (it_Price intent)) else Inl ''limit price not within candle range'')
               else Inl ''unsupported order type'')))"

definition bt_hostSubmitOrder :: "bt_env \<Rightarrow> nat \<Rightarrow> string option \<Rightarrow> jobState \<Rightarrow> jobState \<times> host_result" where
  "bt_hostSubmitOrder env outLen mem st =
     (case mem of
        None \<Rightarrow> (st, HError ''invalid input memory'')
      | Some inBytes \<Rightarrow>
          (case be_decodeIntent env inBytes of
             Inl e \<Rightarrow> (st, HError e)
           | Inr intent \<Rightarrow>
               (case simulateFill env intent st of
                  (st1, Inl e) \<Rightarrow> (st1, HError e)
                | (st1, Inr fill) \<Rightarrow> (st1, fit outLen (be_fill env fill) ''fill JSON exceeds buffer''))))"

definition frameworkFillToBacktest :: "bt_env \<Rightarrow> Fill \<Rightarrow> string \<Rightarrow> bt_fill res" where
  "frameworkFillToBacktest env fw side =
     rbind (be_parseFloat env (fl_Price fw)) (\<lambda>price.
     rbind (be_parseFloat env (fl_Quantity fw)) (\<lambda>qty.
       Inr \<lparr>bf_Timestamp = be_now env, bf_Side = side, bf_Quantity = qty, bf_Price = price, bf_OrderID = fl_OrderID fw,
         bf_SimulatedAt = be_now env\<rparr>))"

definition hostRecordFill :: "bt_env \<Rightarrow> string option \<Rightarrow> jobState \<Rightarrow> jobState" where
  "hostRecordFill env mem st =
     (case mem of
        None \<Rightarrow> st
      | Some b \<Rightarrow>
          (case rbind (be_decodeFill env b) (\<lambda>fw. frameworkFillToBacktest env fw (js_currentSide st)) of
             Inl e \<Rightarrow> st
           | Inr btFill \<Rightarrow> st\<lparr>js_fills := js_fills st @ [btFill]\<rparr>))"

definition hostBacktestError :: "string option \<Rightarrow> jobState \<Rightarrow> jobState" where
  "hostBacktestError mem st =
     st\<lparr>js_errored := True, js_errorMsg := (case mem of None \<Rightarrow> ''unknown wasm error'' | Some msg \<Rightarrow> msg)\<rparr>"

section \<open>A running job\<close>

text \<open>The job with its replay stream. Two fields only record: \<open>bj_seen\<close> lists the events that \<open>hostNextEvent\<close> took from
  the stream, whether or not they then fitted the plugin's buffer, and \<open>bj_sims\<close> the orders filled, each with the
  number of events taken before it. What the plugin gets is \<open>event_answers\<close>.\<close>

record bt_job =
  bj_state :: jobState
  bj_replay :: "payload mergeStream option"
  bj_seen :: "payload event list"
  bj_sims :: "(nat \<times> Intent \<times> Fill) list"

datatype job_action =
    JStream merge_action
  | JGetConfig nat
  | JNextEvent nat
  | JNextCandle nat
  | JFetchCandles nat "string option"
  | JFetchTrades nat "string option"
  | JFetchPrices nat "string option"
  | JSubmitOrder nat "string option"
  | JRecordFill "string option"
  | JBacktestError "string option"

record batch_json =
  bj_candles :: "fw_candle list \<times> bool \<times> string \<Rightarrow> string"
  bj_trades :: "fw_trade list \<times> bool \<times> string \<Rightarrow> string"
  bj_prices :: "fw_price list \<times> bool \<times> string \<Rightarrow> string"

definition new_sims :: "bt_env \<Rightarrow> string option \<Rightarrow> nat \<Rightarrow> jobState \<Rightarrow> (nat \<times> Intent \<times> Fill) list" where
  "new_sims env mem n st =
     (case mem of
        None \<Rightarrow> []
      | Some b \<Rightarrow>
          (case be_decodeIntent env b of
             Inl _ \<Rightarrow> []
           | Inr intent \<Rightarrow> (case snd (simulateFill env intent st) of Inr f \<Rightarrow> [(n, intent, f)] | Inl _ \<Rightarrow> [])))"

text \<open>\<open>next\<close> has been called when the stream is not waiting for a call; a host call for an event returns
  once it has returned, and the next one starts then. After the end or an error the stream is not called
  again: the plugin's loop stops there, and a further call finds the same answer.\<close>

fun job_act :: "bt_env \<Rightarrow> batch_json \<Rightarrow> (eventKind \<Rightarrow> payload fetcher) \<Rightarrow> job_action \<Rightarrow> bt_job \<Rightarrow> (bt_job \<times> host_result option) option" where
  "job_act env J fetch (JStream a) j =
     (case bj_replay j of
        None \<Rightarrow> None
      | Some m \<Rightarrow> if a = ACall then None
                  else map_option (\<lambda>m1. (j\<lparr>bj_replay := Some m1\<rparr>, None)) (merge_act fetch a m))"
| "job_act env J fetch (JGetConfig n) j = Some (j, Some (bt_hostGetConfig n (bj_state j)))"
| "job_act env J fetch (JNextEvent n) j =
     (case bj_replay j of
        None \<Rightarrow> (case bt_hostNextEvent env None n (bj_state j) of (st, r) \<Rightarrow> Some (j\<lparr>bj_state := st\<rparr>, Some r))
      | Some m \<Rightarrow>
          (case ms_pc m of
             MReturn nx \<Rightarrow>
               (case bt_hostNextEvent env (Some nx) n (bj_state j) of
                  (st, r) \<Rightarrow> Some (j\<lparr>bj_state := st,
                     bj_replay := Some (case merge_act fetch ACall m of None \<Rightarrow> m | Some m1 \<Rightarrow> m1),
                     bj_seen := bj_seen j @ (case nx of Inr (Some ev) \<Rightarrow> [ev] | _ \<Rightarrow> [])\<rparr>, Some r))
           | _ \<Rightarrow> None))"
| "job_act env J fetch (JNextCandle n) j =
     (case hostNextCandle env (bj_replay j \<noteq> None) n (bj_state j) of (st, r) \<Rightarrow> Some (j\<lparr>bj_state := st\<rparr>, Some r))"
| "job_act env J fetch (JFetchCandles n mem) j = Some (j, Some (hostFetch env (js_preambleCandles (bj_state j)) (bj_candles J) n mem))"
| "job_act env J fetch (JFetchTrades n mem) j = Some (j, Some (hostFetch env (js_preambleTrades (bj_state j)) (bj_trades J) n mem))"
| "job_act env J fetch (JFetchPrices n mem) j = Some (j, Some (hostFetch env (js_preamblePrices (bj_state j)) (bj_prices J) n mem))"
| "job_act env J fetch (JSubmitOrder n mem) j =
     (case bt_hostSubmitOrder env n mem (bj_state j) of
        (st, r) \<Rightarrow> Some (j\<lparr>bj_state := st, bj_sims := bj_sims j @ new_sims env mem (length (bj_seen j)) (bj_state j)\<rparr>, Some r))"
| "job_act env J fetch (JRecordFill mem) j = Some (j\<lparr>bj_state := hostRecordFill env mem (bj_state j)\<rparr>, None)"
| "job_act env J fetch (JBacktestError mem) j = Some (j\<lparr>bj_state := hostBacktestError mem (bj_state j)\<rparr>, None)"

fun job_acts :: "bt_env \<Rightarrow> batch_json \<Rightarrow> (eventKind \<Rightarrow> payload fetcher) \<Rightarrow> job_action list \<Rightarrow> bt_job \<Rightarrow> bt_job option" where
  "job_acts env J fetch [] j = Some j"
| "job_acts env J fetch (a # as) j =
     (case job_act env J fetch a j of None \<Rightarrow> None | Some (j1, _) \<Rightarrow> job_acts env J fetch as j1)"

text \<open>The answers to the calls for an event, each with the length of the buffer of its call.\<close>

fun event_answers :: "bt_env \<Rightarrow> batch_json \<Rightarrow> (eventKind \<Rightarrow> payload fetcher) \<Rightarrow> job_action list \<Rightarrow> bt_job \<Rightarrow>
    (nat \<times> host_result) list" where
  "event_answers env J fetch [] j = []"
| "event_answers env J fetch (a # as) j =
     (case job_act env J fetch a j of
        None \<Rightarrow> []
      | Some (j1, r) \<Rightarrow>
          (case (a, r) of (JNextEvent n, Some x) \<Rightarrow> [(n, x)] | _ \<Rightarrow> []) @ event_answers env J fetch as j1)"

definition new_jobState :: "historyWindow \<Rightarrow> fw_candle list \<Rightarrow> string \<Rightarrow> jobState" where
  "new_jobState win replayCandles configJSON = \<lparr>js_lastCandle = None, js_lastCandleDelivered = False,
     js_preambleCandles = hw_candles win, js_preambleTrades = hw_trades win, js_preamblePrices = hw_prices win,
     js_replayCandles = replayCandles, js_eventCandleIdx = 0, js_configJSON = configJSON, js_fills = [], js_fillSeq = 0,
     js_currentSide = '''', js_errored = False, js_errorMsg = ''''\<rparr>"

definition streaming_job :: "historyWindow \<Rightarrow> string \<Rightarrow> bt_job" where
  "streaming_job win configJSON = \<lparr>bj_state = new_jobState win [] configJSON, bj_replay = Some newMergeStream,
     bj_seen = [], bj_sims = []\<rparr>"

end
