(* ===== verification/Backtest_Summary.thy ===== *)
theory Backtest_Summary
  imports Plugin_Backtest
begin

text \<open>
  The statistics of a plugin backtest, \<open>internal/agent/backtest/summary.go\<close>, and what is stored at its
  end.

  \<^item> Floats are those of \<open>Agent_Host\<close>: a rational, an infinity or NaN, with the rounding \<open>rnd\<close> of a
    rational result and \<open>sq\<close> of a square root as arguments. Zeros have no sign: no division by zero is
    reached.
  \<^item> \<open>computeState\<close> holds the local variables of the loop of \<open>Compute\<close>.
\<close>

section \<open>Float operations\<close>

fun f_neg :: "f64 \<Rightarrow> f64" where
  "f_neg (Fin a) = Fin (- a)"
| "f_neg PInf = NInf"
| "f_neg NInf = PInf"
| "f_neg NaN = NaN"

fun f_add :: "(rat \<Rightarrow> f64) \<Rightarrow> f64 \<Rightarrow> f64 \<Rightarrow> f64" where
  "f_add rnd (Fin a) (Fin b) = rnd (a + b)"
| "f_add rnd NaN y = NaN"
| "f_add rnd x NaN = NaN"
| "f_add rnd PInf NInf = NaN"
| "f_add rnd NInf PInf = NaN"
| "f_add rnd PInf y = PInf"
| "f_add rnd x PInf = PInf"
| "f_add rnd NInf y = NInf"
| "f_add rnd x NInf = NInf"

definition f_sub :: "(rat \<Rightarrow> f64) \<Rightarrow> f64 \<Rightarrow> f64 \<Rightarrow> f64" where
  "f_sub rnd x y = f_add rnd x (f_neg y)"

fun f_div :: "(rat \<Rightarrow> f64) \<Rightarrow> f64 \<Rightarrow> f64 \<Rightarrow> f64" where
  "f_div rnd (Fin a) (Fin b) =
     (if b = 0 then if a = 0 then NaN else if 0 < a then PInf else NInf else rnd (a / b))"
| "f_div rnd NaN y = NaN"
| "f_div rnd x NaN = NaN"
| "f_div rnd (Fin a) y = Fin 0"
| "f_div rnd PInf (Fin b) = (if b < 0 then NInf else PInf)"
| "f_div rnd NInf (Fin b) = (if b < 0 then PInf else NInf)"
| "f_div rnd x y = NaN"

definition f_sqrt :: "(rat \<Rightarrow> f64) \<Rightarrow> f64 \<Rightarrow> f64" where
  "f_sqrt sq x = (case x of Fin a \<Rightarrow> if a < 0 then NaN else sq a | PInf \<Rightarrow> PInf | _ \<Rightarrow> NaN)"

section \<open>The summary\<close>

definition defaultInitialEquity :: f64 where "defaultInitialEquity = Fin 1000"
definition tradingDaysPerYear :: rat where "tradingDaysPerYear = 252"

record BacktestSummary =
  sm_TotalReturn :: f64
  sm_Sharpe :: f64
  sm_MaxDrawdown :: f64
  sm_TradeCount :: nat
  sm_WinRate :: f64
  sm_StartEquity :: f64
  sm_EndEquity :: f64

definition f_sum :: "(rat \<Rightarrow> f64) \<Rightarrow> f64 list \<Rightarrow> f64" where
  "f_sum rnd xs = foldl (f_add rnd) (Fin 0) xs"

definition meanStd :: "(rat \<Rightarrow> f64) \<Rightarrow> (rat \<Rightarrow> f64) \<Rightarrow> f64 list \<Rightarrow> f64 \<times> f64" where
  "meanStd rnd sq v =
     (if v = [] then (Fin 0, Fin 0)
      else let n = rnd (of_nat (length v)); mean = f_div rnd (f_sum rnd v) n;
               sqSum = f_sum rnd (map (\<lambda>x. f_mul rnd (f_sub rnd x mean) (f_sub rnd x mean)) v)
           in (mean, f_sqrt sq (f_div rnd sqSum n)))"

record computeState =
  cs_equity :: f64
  cs_peak :: f64
  cs_maxDD :: f64
  cs_wins :: nat
  cs_buys :: nat
  cs_returns :: "f64 list"
  cs_prev :: "string \<times> f64"

definition compute_fill :: "(rat \<Rightarrow> f64) \<Rightarrow> f64 \<Rightarrow> computeState \<Rightarrow> bt_fill \<Rightarrow> computeState" where
  "compute_fill rnd initialEquity st f =
     (let cash = f_mul rnd (bf_Price f) (bf_Quantity f);
          st1 = (if bf_Side f = ''buy'' then st\<lparr>cs_equity := f_sub rnd (cs_equity st) cash, cs_buys := Suc (cs_buys st)\<rparr>
                 else if bf_Side f = ''sell''
                 then st\<lparr>cs_equity := f_add rnd (cs_equity st) cash,
                   cs_wins := (if fst (cs_prev st) = ''buy'' \<and> f_gt (bf_Price f) (snd (cs_prev st))
                               then Suc (cs_wins st) else cs_wins st)\<rparr>
                 else st);
          st2 = st1\<lparr>cs_prev := (bf_Side f, bf_Price f)\<rparr>;
          st3 = (if f_gt (cs_equity st2) (cs_peak st2) then st2\<lparr>cs_peak := cs_equity st2\<rparr> else st2);
          dd = f_div rnd (f_sub rnd (cs_peak st3) (cs_equity st3)) (cs_peak st3);
          st4 = (if f_gt (cs_peak st3) (Fin 0) \<and> f_gt dd (cs_maxDD st3) then st3\<lparr>cs_maxDD := dd\<rparr> else st3)
      in st4\<lparr>cs_returns := cs_returns st4 @ [f_div rnd (f_sub rnd (cs_equity st4) initialEquity) initialEquity]\<rparr>)"

definition compute_start :: "f64 \<Rightarrow> computeState" where
  "compute_start initialEquity = \<lparr>cs_equity = initialEquity, cs_peak = initialEquity, cs_maxDD = Fin 0, cs_wins = 0, cs_buys = 0,
     cs_returns = [], cs_prev = ('''', Fin 0)\<rparr>"

definition start_equity :: "f64 \<Rightarrow> f64" where
  "start_equity initialEquity = (if f_gt initialEquity (Fin 0) \<or> initialEquity = NaN then initialEquity else defaultInitialEquity)"

definition Compute :: "(rat \<Rightarrow> f64) \<Rightarrow> (rat \<Rightarrow> f64) \<Rightarrow> bt_fill list \<Rightarrow> f64 \<Rightarrow> BacktestSummary" where
  "Compute rnd sq fills initial =
     (let initialEquity = start_equity initial;
          st = foldl (compute_fill rnd initialEquity) (compute_start initialEquity) fills;
          (mean, std) = meanStd rnd sq (cs_returns st);
          sharpe = (if 1 < length (cs_returns st) \<and> f_gt std (Fin 0)
                    then f_mul rnd (f_div rnd mean std) (f_sqrt sq (Fin tradingDaysPerYear)) else Fin 0);
          winRate = (if 0 < cs_buys st then f_div rnd (rnd (of_nat (cs_wins st))) (rnd (of_nat (cs_buys st))) else Fin 0)
      in \<lparr>sm_TotalReturn = f_div rnd (f_sub rnd (cs_equity st) initialEquity) initialEquity, sm_Sharpe = sharpe,
           sm_MaxDrawdown = cs_maxDD st, sm_TradeCount = length fills, sm_WinRate = winRate,
           sm_StartEquity = initialEquity, sm_EndEquity = cs_equity st\<rparr>)"

text \<open>The initial capital of \<open>persistSuccess\<close>: the parameter, if it reads as a positive number.\<close>

definition initial_capital :: "bt_env \<Rightarrow> (string \<rightharpoonup> string) \<Rightarrow> f64" where
  "initial_capital env params =
     (case params ''initial_capital'' of
        None \<Rightarrow> defaultInitialEquity
      | Some v \<Rightarrow> (case be_parseFloat env v of Inr f \<Rightarrow> if f_gt f (Fin 0) then f else defaultInitialEquity
                   | Inl e \<Rightarrow> defaultInitialEquity))"

section \<open>The loop\<close>

definition cash_flow :: "bt_fill \<Rightarrow> rat \<Rightarrow> rat \<Rightarrow> rat" where
  "cash_flow f p q = (if bf_Side f = ''buy'' then - (p * q) else if bf_Side f = ''sell'' then p * q else 0)"

lemma wins_le_buys_step:
  assumes "cs_wins st + (if fst (cs_prev st) = ''buy'' then 1 else 0) \<le> cs_buys st"
  shows "cs_wins (compute_fill rnd e st f) + (if fst (cs_prev (compute_fill rnd e st f)) = ''buy'' then 1 else 0) \<le>
    cs_buys (compute_fill rnd e st f)"
  using assms by (auto simp: compute_fill_def Let_def)

lemma wins_le_buys: "cs_wins (foldl (compute_fill rnd e) (compute_start e) fills) \<le> cs_buys (foldl (compute_fill rnd e) (compute_start e) fills)"
proof -
  have "cs_wins (foldl (compute_fill rnd e) st fills) +
      (if fst (cs_prev (foldl (compute_fill rnd e) st fills)) = ''buy'' then 1 else 0) \<le> cs_buys (foldl (compute_fill rnd e) st fills)"
    if "cs_wins st + (if fst (cs_prev st) = ''buy'' then 1 else 0) \<le> cs_buys st" for st
    using that wins_le_buys_step by (induction fills arbitrary: st) auto
  from this [of "compute_start e"] show ?thesis by (simp add: compute_start_def)
qed

text \<open>What is used of float rounding: it keeps order and fixes 0, 1 and the counts of a loop.\<close>

definition float_rounding :: "(rat \<Rightarrow> f64) \<Rightarrow> bool" where
  "float_rounding rnd \<longleftrightarrow> (\<forall>n. n \<le> 2 ^ 53 \<longrightarrow> rnd (of_nat n) = Fin (of_nat n)) \<and>
     (\<forall>q. 0 \<le> q \<and> q \<le> 1 \<longrightarrow> (\<exists>r. rnd q = Fin r \<and> 0 \<le> r \<and> r \<le> 1))"

lemma f_gt_trans0: "f_gt x y \<Longrightarrow> f_gt y (Fin 0) \<or> y = Fin 0 \<Longrightarrow> f_gt x (Fin 0)"
  by (cases x; cases y) auto

lemma maxDD_step:
  "cs_maxDD st = Fin 0 \<or> f_gt (cs_maxDD st) (Fin 0) \<Longrightarrow>
    cs_maxDD (compute_fill rnd e st f) = Fin 0 \<or> f_gt (cs_maxDD (compute_fill rnd e st f)) (Fin 0)"
  using f_gt_trans0 by (auto simp: compute_fill_def Let_def)

lemma maxDD_nonneg:
  "cs_maxDD (foldl (compute_fill rnd e) (compute_start e) fills) = Fin 0 \<or>
    f_gt (cs_maxDD (foldl (compute_fill rnd e) (compute_start e) fills)) (Fin 0)"
proof -
  have "cs_maxDD (foldl (compute_fill rnd e) st fills) = Fin 0 \<or> f_gt (cs_maxDD (foldl (compute_fill rnd e) st fills)) (Fin 0)"
    if "cs_maxDD st = Fin 0 \<or> f_gt (cs_maxDD st) (Fin 0)" for st
    using that maxDD_step by (induction fills arbitrary: st) auto
  then show ?thesis by (simp add: compute_start_def)
qed

lemma returns_length: "length (cs_returns (foldl (compute_fill rnd e) st fills)) = length (cs_returns st) + length fills"
  by (induction fills arbitrary: st) (auto simp: compute_fill_def Let_def)

section \<open>Exact reference\<close>

fun f_val :: "f64 \<Rightarrow> rat" where
  "f_val (Fin a) = a"
| "f_val _ = 0"

definition finite_fill :: "bt_fill \<Rightarrow> bool" where
  "finite_fill f \<longleftrightarrow> bf_Price f = Fin (f_val (bf_Price f)) \<and> bf_Quantity f = Fin (f_val (bf_Quantity f))"

definition equity_after :: "rat \<Rightarrow> bt_fill list \<Rightarrow> rat" where
  "equity_after e fills = e + (\<Sum>f\<leftarrow>fills. cash_flow f (f_val (bf_Price f)) (f_val (bf_Quantity f)))"

definition peak_after :: "rat \<Rightarrow> bt_fill list \<Rightarrow> rat" where
  "peak_after e fills = Max ((\<lambda>k. equity_after e (take k fills)) ` {..length fills})"

definition drawdown_after :: "rat \<Rightarrow> bt_fill list \<Rightarrow> rat" where
  "drawdown_after e fills = (peak_after e fills - equity_after e fills) / peak_after e fills"

definition max_drawdown :: "rat \<Rightarrow> bt_fill list \<Rightarrow> rat" where
  "max_drawdown e fills = Max ((\<lambda>k. drawdown_after e (take k fills)) ` {..length fills})"

lemma prefix_image_snoc:
  "(\<lambda>k. g (take k (xs @ [x]))) ` {..length (xs @ [x])} = insert (g (xs @ [x])) ((\<lambda>k. g (take k xs)) ` {..length xs})"
proof -
  have "{..length (xs @ [x])} = insert (Suc (length xs)) {..length xs}" by (simp add: atMost_Suc)
  moreover have "(\<lambda>k. g (take k (xs @ [x]))) ` {..length xs} = (\<lambda>k. g (take k xs)) ` {..length xs}" by (intro image_cong) auto
  ultimately show ?thesis by simp
qed

lemma peak_snoc: "peak_after e (xs @ [x]) = max (equity_after e (xs @ [x])) (peak_after e xs)"
  unfolding peak_after_def prefix_image_snoc [of "equity_after e"] by (subst Max_insert) auto

lemma max_drawdown_snoc: "max_drawdown e (xs @ [x]) = max (drawdown_after e (xs @ [x])) (max_drawdown e xs)"
  unfolding max_drawdown_def prefix_image_snoc [of "drawdown_after e"] by (subst Max_insert) auto

lemma peak_pos: "0 < e \<Longrightarrow> e \<le> peak_after e xs"
  by (induction xs rule: rev_induct) (auto simp: peak_snoc peak_after_def [of e "[]"] equity_after_def)

lemma f_gt_Fin [simp]: "f_gt (Fin a) (Fin b) \<longleftrightarrow> b < a"
  by simp

lemma compute_fill_maxDD:
  "cs_maxDD (compute_fill rnd e st f) =
    (if f_gt (cs_peak (compute_fill rnd e st f)) (Fin 0) \<and>
        f_gt (f_div rnd (f_sub rnd (cs_peak (compute_fill rnd e st f)) (cs_equity (compute_fill rnd e st f)))
          (cs_peak (compute_fill rnd e st f))) (cs_maxDD st)
     then f_div rnd (f_sub rnd (cs_peak (compute_fill rnd e st f)) (cs_equity (compute_fill rnd e st f)))
       (cs_peak (compute_fill rnd e st f)) else cs_maxDD st)"
  by (auto simp: compute_fill_def Let_def)

lemma compute_exact:
  assumes e: "0 < e" and fin: "list_all finite_fill fills"
  shows "cs_equity (foldl (compute_fill Fin (Fin e)) (compute_start (Fin e)) fills) = Fin (equity_after e fills) \<and>
    cs_peak (foldl (compute_fill Fin (Fin e)) (compute_start (Fin e)) fills) = Fin (peak_after e fills) \<and>
    cs_maxDD (foldl (compute_fill Fin (Fin e)) (compute_start (Fin e)) fills) = Fin (max_drawdown e fills)"
  using fin
proof (induction fills rule: rev_induct)
  case Nil
  then show ?case using e
    by (simp add: compute_start_def equity_after_def peak_after_def max_drawdown_def drawdown_after_def)
next
  case (snoc f fs)
  let ?st = "foldl (compute_fill Fin (Fin e)) (compute_start (Fin e)) fs"

  have IH: "cs_equity ?st = Fin (equity_after e fs)" "cs_peak ?st = Fin (peak_after e fs)" "cs_maxDD ?st = Fin (max_drawdown e fs)"
    using snoc by auto
  obtain p q where fv: "bf_Price f = Fin p" "bf_Quantity f = Fin q" using snoc.prems by (auto simp: finite_fill_def)
  have cash: "f_mul Fin (bf_Price f) (bf_Quantity f) = Fin (p * q)" unfolding fv by (simp add: f_mul_def)
  have eq: "equity_after e (fs @ [f]) = equity_after e fs + cash_flow f p q" by (simp add: equity_after_def fv)
  have pos: "0 < peak_after e (fs @ [f])" using peak_pos [OF e, of "fs @ [f]"] e by linarith
  have dd: "drawdown_after e (fs @ [f]) = (peak_after e (fs @ [f]) - equity_after e (fs @ [f])) / peak_after e (fs @ [f])"
    by (rule drawdown_after_def)
  let ?new = "compute_fill Fin (Fin e) ?st f"
  have E: "cs_equity ?new = Fin (equity_after e (fs @ [f]))"
    by (simp add: compute_fill_def Let_def IH cash eq cash_flow_def f_sub_def)
  have P: "cs_peak ?new = Fin (peak_after e (fs @ [f]))"
    by (auto simp: compute_fill_def Let_def IH cash eq cash_flow_def f_sub_def peak_snoc max_def)
  have D: "cs_maxDD ?new = Fin (max_drawdown e (fs @ [f]))"
    unfolding compute_fill_maxDD E P IH max_drawdown_snoc dd using pos by (simp add: f_sub_def max_def)
  show ?case using E P D by simp
qed

section \<open>Theorems\<close>

text \<open>C32: In exact arithmetic the summary is what it says: the final equity is the initial one plus the cash flow
  of all fills, the return is that relative to the start, and the maximal drawdown is the largest relative
  fall below the highest equity so far, over all prefixes of the fills.\<close>

theorem summary_exact:
  assumes "0 < e" "list_all finite_fill fills"
  shows "sm_EndEquity (Compute Fin sq fills (Fin e)) = Fin (equity_after e fills) \<and>
    sm_TotalReturn (Compute Fin sq fills (Fin e)) = Fin ((equity_after e fills - e) / e) \<and>
    sm_MaxDrawdown (Compute Fin sq fills (Fin e)) = Fin (max_drawdown e fills)"
  using compute_exact [OF assms] assms(1)
  by (simp add: Compute_def Let_def start_equity_def case_prod_beta f_sub_def)

text \<open>With rounded floats too, the win rate lies between 0 and 1, the drawdown is not negative, and the trade
  count is the number of fills.\<close>

theorem summary_bounds:
  assumes "float_rounding rnd" "length fills \<le> 2 ^ 53"
  shows "(\<exists>r. sm_WinRate (Compute rnd sq fills e) = Fin r \<and> 0 \<le> r \<and> r \<le> 1) \<and>
    (sm_MaxDrawdown (Compute rnd sq fills e) = Fin 0 \<or> f_gt (sm_MaxDrawdown (Compute rnd sq fills e)) (Fin 0)) \<and>
    sm_TradeCount (Compute rnd sq fills e) = length fills"
proof -
  let ?st = "foldl (compute_fill rnd (start_equity e)) (compute_start (start_equity e)) fills"
  have le: "cs_wins ?st \<le> cs_buys ?st" by (rule wins_le_buys)
  have "cs_buys (foldl (compute_fill rnd x) st fills) \<le> cs_buys st + length fills" for x st
  proof (induction fills arbitrary: st)
    case (Cons f fs)
    have "cs_buys (compute_fill rnd x st f) \<le> Suc (cs_buys st)" by (simp add: compute_fill_def Let_def)
    then show ?case using Cons [of "compute_fill rnd x st f"] by simp
  qed simp
  from this [of "start_equity e" "compute_start (start_equity e)"] have "cs_buys ?st \<le> 2 ^ 53"
    using assms(2) by (simp add: compute_start_def)
  then have n: "rnd (of_nat (cs_buys ?st)) = Fin (of_nat (cs_buys ?st))" "rnd (of_nat (cs_wins ?st)) = Fin (of_nat (cs_wins ?st))"
    using le assms(1) by (auto simp: float_rounding_def)
  have "\<exists>r. sm_WinRate (Compute rnd sq fills e) = Fin r \<and> 0 \<le> r \<and> r \<le> 1"
  proof (cases "cs_buys ?st = 0")
    case False
    have "0 \<le> (of_nat (cs_wins ?st) :: rat) / of_nat (cs_buys ?st)" "(of_nat (cs_wins ?st) :: rat) / of_nat (cs_buys ?st) \<le> 1"
      using le False by (simp_all add: divide_le_eq)
    then have "\<exists>r. rnd (of_nat (cs_wins ?st) / of_nat (cs_buys ?st)) = Fin r \<and> 0 \<le> r \<and> r \<le> 1"
      using assms(1) by (simp add: float_rounding_def)
    then show ?thesis using False n by (simp add: Compute_def Let_def case_prod_beta)
  qed (simp add: Compute_def Let_def case_prod_beta)
  then show ?thesis using maxDD_nonneg [of rnd "start_equity e" fills] by (simp add: Compute_def Let_def case_prod_beta)
qed

text \<open>Only lower-case sides count: fills whose sides are written otherwise, which a live deployment accepts as
  buys and sells, leave the equity unchanged and the win rate at zero.\<close>

lemma other_sides_ignored:
  assumes "\<forall>f\<in>set fills. bf_Side f \<noteq> ''buy'' \<and> bf_Side f \<noteq> ''sell''"
  shows "sm_EndEquity (Compute rnd sq fills e) = sm_StartEquity (Compute rnd sq fills e) \<and>
    sm_WinRate (Compute rnd sq fills e) = Fin 0 \<and> EqualFold ''BUY'' ''buy''"
proof -
  have "cs_equity (foldl (compute_fill rnd x) st fills) = cs_equity st \<and> cs_buys (foldl (compute_fill rnd x) st fills) = cs_buys st"
    for x st using assms
  proof (induction fills arbitrary: st)
    case (Cons f fs)
    have "cs_equity (compute_fill rnd x st f) = cs_equity st" "cs_buys (compute_fill rnd x st f) = cs_buys st"
      using Cons.prems by (auto simp: compute_fill_def Let_def)
    then show ?case using Cons by simp
  qed simp
  moreover have "EqualFold ''BUY'' ''buy''" by code_simp
  ultimately show ?thesis by (simp add: Compute_def Let_def case_prod_beta compute_start_def)
qed

definition sample_fill :: "string \<Rightarrow> rat \<Rightarrow> bt_fill" where
  "sample_fill side p = \<lparr>bf_Timestamp = time_zero, bf_Side = side, bf_Quantity = Fin 2, bf_Price = Fin p, bf_OrderID = ''o'',
     bf_SimulatedAt = time_zero\<rparr>"

theorem summary_exact_witness:
  "sm_EndEquity (Compute Fin Fin [sample_fill ''buy'' 100, sample_fill ''sell'' 110] (Fin 1000)) = Fin 1020"
  using summary_exact [of 1000 "[sample_fill ''buy'' 100, sample_fill ''sell'' 110]" Fin]
  by (simp add: sample_fill_def finite_fill_def equity_after_def cash_flow_def)

theorem summary_bounds_witness:
  "\<exists>r. sm_WinRate (Compute Fin Fin [sample_fill ''buy'' 100, sample_fill ''sell'' 110] (Fin 1000)) = Fin r \<and> 0 \<le> r \<and> r \<le> 1"
  using summary_bounds [of Fin "[sample_fill ''buy'' 100, sample_fill ''sell'' 110]" Fin "Fin 1000"]
  by (simp add: float_rounding_def)

end
