(* ===== verification/Backtest_Jobs.thy ===== *)
theory Backtest_Jobs
  imports Backtest_Summary
begin

text \<open>
  The jobs of plugin backtests: validation (\<open>internal/agent/backtest/validate.go\<close>), the table and its
  operations (\<open>postgres.go\<close>), submission, cancellation and the goroutine of a job (\<open>orchestrator.go\<close>,
  \<open>Start\<close> of \<open>wasm_starter.go\<close>), the start-up janitor and polling (\<open>janitor.go\<close>, \<open>poll.go\<close>).

  \<^item> The table is a list of rows with its primary key and the partial unique index on active rows per
    user; a statement that would break one is an error. \<open>ok\<close> tells whether the database answers.
  \<^item> \<open>job_sys\<close> is the agent: the table, the registry of cancel functions, which contexts are
    cancelled, where each goroutine stands (\<open>job_pc\<close>), and the cancel requests that have changed
    the row but not yet signalled the goroutine. \<open>sys_act\<close> performs one step of one of them.
  \<^item> What the plugin does between two database statements is the outcome of its run: an error
    message, a panic, or the fills of its \<open>jobState\<close>.
\<close>

section \<open>Requests\<close>

record Request =
  rq_Start :: gtime
  rq_End :: gtime
  rq_Resolution :: string
  rq_OrderBookID :: string
  rq_Params :: "string \<rightharpoonup> string"
  rq_WarmupCandles :: int

definition maxWindowDays :: int where "maxWindowDays = 365"
definition MaxWarmupCandles :: int where "MaxWarmupCandles = 2 ^ 31 - 1"

definition errInvalidWindow :: gerror where "errInvalidWindow = ''backtest: end must be after start''"
definition errInvalidResolution :: gerror where "errInvalidResolution = ''backtest: unsupported resolution''"
definition errWindowTooLong :: gerror where "errWindowTooLong = ''backtest: window exceeds 365 days''"
definition errMissingOrderBookID :: gerror where "errMissingOrderBookID = ''backtest: order_book_id is required''"
definition errWarmupOutOfRange :: gerror where "errWarmupOutOfRange = ''backtest: warmup_candles out of range''"

definition ParseRequest :: "Request option \<Rightarrow> gerror option" where
  "ParseRequest req =
     (case req of
        None \<Rightarrow> Some errInvalidWindow
      | Some r \<Rightarrow>
          if rq_OrderBookID r = '''' then Some errMissingOrderBookID
          else if \<not> time_After (rq_End r) (rq_Start r) then Some errInvalidWindow
          else if maxWindowDays * 24 * hour_ns < time_Sub (rq_End r) (rq_Start r) then Some errWindowTooLong
          else if rq_WarmupCandles r < 0 \<or> MaxWarmupCandles < rq_WarmupCandles r then Some errWarmupOutOfRange
          else if rq_Resolution r \<in> {''1m'', ''5m'', ''15m'', ''1h'', ''4h'', ''1d''} then None
          else Some errInvalidResolution)"

section \<open>The table\<close>

datatype bt_status = StQueued | StRunning | StSucceeded | StFailed | StCancelled

definition active :: "bt_status \<Rightarrow> bool" where
  "active s \<longleftrightarrow> s = StQueued \<or> s = StRunning"

definition isTerminal :: "bt_status \<Rightarrow> bool" where
  "isTerminal s \<longleftrightarrow> s = StSucceeded \<or> s = StFailed \<or> s = StCancelled"

record bt_row =
  br_ID :: string
  br_StrategyID :: string
  br_UserID :: string
  br_Status :: bt_status
  br_RequestedAt :: gtime
  br_StartedAt :: "gtime option"
  br_FinishedAt :: "gtime option"
  br_ErrorMessage :: "string option"
  br_WindowStart :: gtime
  br_WindowEnd :: gtime
  br_Resolution :: string
  br_OrderBookID :: string
  br_Params :: "string \<rightharpoonup> string"
  br_Summary :: "BacktestSummary option"
  br_FillCount :: "nat option"

record bt_db =
  bd_rows :: "bt_row list"
  bd_fills :: "(string \<times> string \<times> bt_fill) list"

definition db_down :: gerror where "db_down = ''database unavailable''"
definition unique_violation :: gerror where "unique_violation = ''23505''"
definition check_violation :: gerror where "check_violation = ''23514''"
definition bt_not_found :: gerror where "bt_not_found = ''backtest: not found''"

definition active_other :: "string \<Rightarrow> string \<Rightarrow> bt_db \<Rightarrow> bool" where
  "active_other i user db \<longleftrightarrow> (\<exists>r\<in>set (bd_rows db). br_ID r \<noteq> i \<and> br_UserID r = user \<and> active (br_Status r))"

definition bt_Create :: "bool \<Rightarrow> gtime \<Rightarrow> string \<Rightarrow> string \<Rightarrow> Backtest \<Rightarrow> bt_db \<Rightarrow> bt_db res" where
  "bt_Create ok now strategyID user b db =
     (if \<not> ok then Inl db_down
      else if bt_ID b \<in> br_ID ` set (bd_rows db) \<or> active_other (bt_ID b) user db then Inl unique_violation
      else Inr (db\<lparr>bd_rows := bd_rows db @ [\<lparr>br_ID = bt_ID b, br_StrategyID = strategyID, br_UserID = user, br_Status = StQueued,
        br_RequestedAt = now, br_StartedAt = None, br_FinishedAt = None, br_ErrorMessage = None,
        br_WindowStart = bt_WindowStart b, br_WindowEnd = bt_WindowEnd b, br_Resolution = bt_Resolution b,
        br_OrderBookID = bt_OrderBookID b, br_Params = bt_Params b, br_Summary = None, br_FillCount = None\<rparr>]\<rparr>))"

definition find_row :: "string \<Rightarrow> bt_db \<Rightarrow> bt_row option" where
  "find_row i db = find (\<lambda>r. br_ID r = i) (bd_rows db)"

definition bt_Get :: "bool \<Rightarrow> string \<Rightarrow> bt_db \<Rightarrow> bt_row res" where
  "bt_Get ok i db = (if \<not> ok then Inl db_down else case find_row i db of None \<Rightarrow> Inl bt_not_found | Some r \<Rightarrow> Inr r)"

definition update_row :: "string \<Rightarrow> (bt_row \<Rightarrow> bt_row) \<Rightarrow> bt_db \<Rightarrow> bt_db" where
  "update_row i f db = db\<lparr>bd_rows := map (\<lambda>r. if br_ID r = i then f r else r) (bd_rows db)\<rparr>"

definition nullif_empty :: "string \<Rightarrow> string option" where
  "nullif_empty s = (if s = '''' then None else Some s)"

definition or_keep :: "'a option \<Rightarrow> 'a option \<Rightarrow> 'a option" where
  "or_keep new old = (case new of None \<Rightarrow> old | Some x \<Rightarrow> Some x)"

definition bt_UpdateStatus :: "bool \<Rightarrow> string \<Rightarrow> bt_status \<Rightarrow> gtime option \<Rightarrow> gtime option \<Rightarrow> string \<Rightarrow> bt_db \<Rightarrow> bt_db res" where
  "bt_UpdateStatus ok i status startedAt finishedAt errorMsg db =
     (if \<not> ok then Inl db_down
      else case find_row i db of
             None \<Rightarrow> Inr db
           | Some r \<Rightarrow>
               if active status \<and> active_other i (br_UserID r) db then Inl unique_violation
               else Inr (update_row i (\<lambda>r. r\<lparr>br_Status := status, br_StartedAt := or_keep startedAt (br_StartedAt r),
                 br_FinishedAt := or_keep finishedAt (br_FinishedAt r), br_ErrorMessage := nullif_empty errorMsg\<rparr>) db))"

text \<open>JSON has no NaN and no infinity.\<close>

definition summary_json :: "BacktestSummary \<Rightarrow> bool" where
  "summary_json s \<longleftrightarrow> list_all (\<lambda>x. x \<notin> {PInf, NInf, NaN})
     [sm_TotalReturn s, sm_Sharpe s, sm_MaxDrawdown s, sm_WinRate s, sm_StartEquity s, sm_EndEquity s]"

definition bt_SetSummary :: "bool \<Rightarrow> gtime \<Rightarrow> string \<Rightarrow> BacktestSummary \<Rightarrow> nat \<Rightarrow> bt_db \<Rightarrow> bt_db res" where
  "bt_SetSummary ok now i summary fillCount db =
     (if \<not> summary_json summary then Inl ''marshal summary''
      else if \<not> ok then Inl db_down
      else Inr (update_row i (\<lambda>r. r\<lparr>br_Summary := Some summary, br_FillCount := Some fillCount, br_Status := StSucceeded,
        br_FinishedAt := Some now\<rparr>) db))"

text \<open>The columns of a fill: the side is checked, quantity and price are \<open>numeric(20,8)\<close> (\<open>num8\<close>, \<open>None\<close>
  when out of range). \<open>ids\<close> are the identifiers drawn for the rows.\<close>

definition storable :: "(f64 \<Rightarrow> f64 option) \<Rightarrow> bt_fill \<Rightarrow> bt_fill option" where
  "storable num8 f =
     (if bf_Side f = ''buy'' \<or> bf_Side f = ''sell''
      then (case (num8 (bf_Quantity f), num8 (bf_Price f)) of
              (Some q, Some p) \<Rightarrow> Some (f\<lparr>bf_Quantity := q, bf_Price := p\<rparr>)
            | _ \<Rightarrow> None)
      else None)"

definition bt_InsertFills :: "bool \<Rightarrow> (f64 \<Rightarrow> f64 option) \<Rightarrow> string list \<Rightarrow> string \<Rightarrow> bt_fill list \<Rightarrow> bt_db \<Rightarrow> bt_db res" where
  "bt_InsertFills ok num8 ids i fills db =
     (if fills = [] then Inr db
      else if \<not> ok then Inl db_down
      else if \<exists>f\<in>set fills. storable num8 f = None then Inl check_violation
      else Inr (db\<lparr>bd_fills := bd_fills db @ map (\<lambda>(u, f). (u, i, the (storable num8 f))) (zip ids fills)\<rparr>))"

definition bt_GetFills :: "bool \<Rightarrow> string \<Rightarrow> bt_db \<Rightarrow> bt_fill list res" where
  "bt_GetFills ok i db =
     (if \<not> ok then Inl db_down
      else Inr (map (\<lambda>(u, j, f). f) (sort_key (\<lambda>(u, j, f). (t_ns (bf_Timestamp f), u)) (filter (\<lambda>(u, j, f). j = i) (bd_fills db)))))"

definition bt_CancelIfRunning :: "bool \<Rightarrow> gtime \<Rightarrow> string \<Rightarrow> bt_db \<Rightarrow> (bt_db \<times> bool) res" where
  "bt_CancelIfRunning ok now i db =
     (if \<not> ok then Inl db_down
      else case find_row i db of
             None \<Rightarrow> Inr (db, False)
           | Some r \<Rightarrow>
               if active (br_Status r)
               then Inr (update_row i (\<lambda>r. r\<lparr>br_Status := StCancelled, br_FinishedAt := Some now, br_ErrorMessage := None\<rparr>) db, True)
               else Inr (db, False))"

definition FailOrphaned :: "bool \<Rightarrow> gtime \<Rightarrow> bt_db \<Rightarrow> (bt_db \<times> nat) res" where
  "FailOrphaned ok now db =
     (if \<not> ok then Inl db_down
      else Inr (db\<lparr>bd_rows := map (\<lambda>r. if active (br_Status r)
          then r\<lparr>br_Status := StFailed, br_FinishedAt := Some now, br_ErrorMessage := Some ''agent restarted''\<rparr> else r) (bd_rows db)\<rparr>,
        length (filter (\<lambda>r. active (br_Status r)) (bd_rows db))))"

definition page_limit :: "int \<Rightarrow> nat" where
  "page_limit limit = (if limit \<le> 0 \<or> 100 < limit then 50 else nat limit)"

definition created_first :: "bt_row list \<Rightarrow> bt_row list" where
  "created_first rs = rev (sort_key (\<lambda>r. (t_ns (br_RequestedAt r), br_ID r)) rs)"

definition bt_List :: "bool \<Rightarrow> string \<Rightarrow> int \<Rightarrow> bt_db \<Rightarrow> bt_row list res" where
  "bt_List ok strategyID limit db =
     (if \<not> ok then Inl db_down
      else Inr (take (page_limit limit) (created_first (filter (\<lambda>r. br_StrategyID r = strategyID) (bd_rows db)))))"

definition ListBacktests :: "bool \<Rightarrow> string \<Rightarrow> string option \<Rightarrow> bt_status option \<Rightarrow> int \<Rightarrow> bt_db \<Rightarrow> bt_row list res" where
  "ListBacktests ok userID strategyID status limit db =
     (if \<not> ok then Inl db_down
      else Inr (take (page_limit limit) (created_first (filter (\<lambda>r. br_UserID r = userID \<and>
        (case strategyID of None \<Rightarrow> True | Some s \<Rightarrow> br_StrategyID r = s) \<and>
        (case status of None \<Rightarrow> True | Some s \<Rightarrow> br_Status r = s)) (bd_rows db)))))"

section \<open>Polling\<close>

text \<open>One round reads the clock and the row: \<open>get k\<close> and \<open>clock k\<close> are those of round \<open>k\<close>, \<open>gone k\<close> tells
  whether the context ended while it slept. The loop may run forever, which is \<open>None\<close>.\<close>

partial_function (option) poll_from :: "(nat \<Rightarrow> bt_row res) \<Rightarrow> (nat \<Rightarrow> int) \<Rightarrow> (nat \<Rightarrow> bool) \<Rightarrow> int \<Rightarrow> int \<Rightarrow> nat \<Rightarrow> bt_row res option" where
  "poll_from get clock gone deadline interval k =
     (case get k of
        Inl e \<Rightarrow> Some (Inl e)
      | Inr b \<Rightarrow>
          if isTerminal (br_Status b) then Some (Inr b)
          else if deadline - clock k \<le> interval then Some (Inr b)
          else if gone k then Some (Inl ''context canceled'')
          else poll_from get clock gone deadline interval (Suc k))"

definition PollForTerminal :: "(nat \<Rightarrow> bt_row res) \<Rightarrow> (nat \<Rightarrow> int) \<Rightarrow> (nat \<Rightarrow> bool) \<Rightarrow> int \<Rightarrow> int \<Rightarrow> int \<Rightarrow> bt_row res option" where
  "PollForTerminal get clock gone start budget interval = poll_from get clock gone (start + budget) interval 0"

section \<open>Jobs\<close>

text \<open>Where the goroutine of a job stands: about to be registered, to mark its row running, running the
  plugin, to store its fills, its summary, or its failure, recovering from a panic, or to deregister.\<close>

datatype job_pc =
    PcRegister
  | PcStart
  | PcRun
  | PcFills "bt_fill list"
  | PcSummary "bt_fill list"
  | PcFail string
  | PcPanic string
  | PcEnd

datatype run_outcome = RunError string | RunPanic string | RunDone jobState

record job_sys =
  sy_db :: bt_db
  sy_jobs :: "string set"
  sy_cancelled :: "string \<Rightarrow> bool"
  sy_pc :: "string \<rightharpoonup> job_pc"
  sy_bt :: "string \<Rightarrow> Backtest"
  sy_signals :: "string list"

record sys_env =
  se_bt :: bt_env
  se_rnd :: "rat \<Rightarrow> f64"
  se_sqrt :: "rat \<Rightarrow> f64"
  se_num8 :: "f64 \<Rightarrow> f64 option"

datatype submit_result = Submitted string | Rejected gerror

definition ErrInvalidRequest :: gerror where "ErrInvalidRequest = ''backtest: invalid request''"
definition ErrVersionNotBuilt :: gerror where "ErrVersionNotBuilt = ''backtest: version has no compiled wasm''"
definition ErrSingleInflight :: gerror where "ErrSingleInflight = ''backtest: user already has an active backtest''"

definition request_backtest :: "string \<Rightarrow> Request \<Rightarrow> Backtest" where
  "request_backtest i req = \<lparr>bt_ID = i, bt_OrderBookID = rq_OrderBookID req, bt_WindowStart = rq_Start req,
     bt_WindowEnd = rq_End req, bt_Resolution = rq_Resolution req, bt_WarmupCandles = rq_WarmupCandles req, bt_Params = rq_Params req\<rparr>"

text \<open>\<open>Submit\<close> up to the start of the goroutine, with the runtime wired; \<open>i\<close> is the identifier drawn.\<close>

definition Submit :: "bool \<Rightarrow> gtime \<Rightarrow> string \<Rightarrow> string \<Rightarrow> string \<Rightarrow> string \<Rightarrow> Request option \<Rightarrow> job_sys \<Rightarrow> job_sys \<times> submit_result" where
  "Submit ok now i user strategyID wasmRef req sy =
     (case (ParseRequest req, req) of
        (None, Some r) \<Rightarrow>
          if wasmRef = '''' then (sy, Rejected ErrVersionNotBuilt)
          else (case bt_Create ok now strategyID user (request_backtest i r) (sy_db sy) of
                  Inl e \<Rightarrow> (sy, Rejected (if e = unique_violation then ErrSingleInflight else e))
                | Inr db \<Rightarrow> (sy\<lparr>sy_db := db, sy_pc := (sy_pc sy)(i \<mapsto> PcRegister), sy_bt := (sy_bt sy)(i := request_backtest i r)\<rparr>,
                            Submitted i))
      | _ \<Rightarrow> (sy, Rejected ErrInvalidRequest))"

definition RegisterJob :: "string \<Rightarrow> job_sys \<Rightarrow> job_sys" where
  "RegisterJob i sy = sy\<lparr>sy_jobs := insert i (sy_jobs sy), sy_cancelled := (sy_cancelled sy)(i := False)\<rparr>"

text \<open>\<open>Cancel\<close> of the orchestrator and the deregistration at the end both cancel and forget the job.\<close>

definition cancel_job :: "string \<Rightarrow> job_sys \<Rightarrow> job_sys" where
  "cancel_job i sy =
     (if i \<in> sy_jobs sy then sy\<lparr>sy_jobs := sy_jobs sy - {i}, sy_cancelled := (sy_cancelled sy)(i := True)\<rparr> else sy)"

definition CancelAll :: "job_sys \<Rightarrow> job_sys" where
  "CancelAll sy = sy\<lparr>sy_jobs := {}, sy_cancelled := (\<lambda>i. i \<in> sy_jobs sy \<or> sy_cancelled sy i)\<rparr>"

definition goto :: "string \<Rightarrow> job_pc \<Rightarrow> job_sys \<Rightarrow> job_sys" where
  "goto i pc sy = sy\<lparr>sy_pc := (sy_pc sy)(i \<mapsto> pc)\<rparr>"

text \<open>A statement on the job's context fails once that is cancelled.\<close>

definition on_ctx :: "string \<Rightarrow> bool \<Rightarrow> job_sys \<Rightarrow> bool" where
  "on_ctx i ok sy \<longleftrightarrow> ok \<and> \<not> sy_cancelled sy i"

definition after_db :: "bt_db res \<Rightarrow> (job_sys \<Rightarrow> job_sys) \<Rightarrow> (job_sys \<Rightarrow> job_sys) \<Rightarrow> job_sys \<Rightarrow> job_sys" where
  "after_db r bad good sy = (case r of Inl e \<Rightarrow> bad sy | Inr db \<Rightarrow> good (sy\<lparr>sy_db := db\<rparr>))"

text \<open>One step of the goroutine of job \<open>i\<close>: \<open>Start\<close>, the deferred recovery and the deregistration.\<close>

definition job_step :: "sys_env \<Rightarrow> bool \<Rightarrow> gtime \<Rightarrow> string list \<Rightarrow> run_outcome \<Rightarrow> string \<Rightarrow> job_sys \<Rightarrow> job_sys option" where
  "job_step env ok now ids outcome i sy =
     (case sy_pc sy i of
        None \<Rightarrow> None
      | Some PcRegister \<Rightarrow> Some (goto i PcStart (RegisterJob i sy))
      | Some PcStart \<Rightarrow>
          Some (after_db (bt_UpdateStatus (on_ctx i ok sy) i StRunning (Some now) None '''' (sy_db sy)) (goto i PcEnd) (goto i PcRun) sy)
      | Some PcRun \<Rightarrow>
          Some (case outcome of
                  RunError msg \<Rightarrow> goto i (PcFail msg) sy
                | RunPanic msg \<Rightarrow> goto i (PcPanic (''backtest panic: '' @ msg)) sy
                | RunDone st \<Rightarrow>
                    if js_errored st then goto i (PcFail (js_errorMsg st)) sy
                    else if sy_cancelled sy i then goto i PcEnd sy else goto i (PcFills (js_fills st)) sy)
      | Some (PcFills fills) \<Rightarrow>
          Some (after_db (bt_InsertFills (on_ctx i ok sy) (se_num8 env) ids i fills (sy_db sy))
                 (goto i (PcFail ''persist fills'')) (goto i (PcSummary fills)) sy)
      | Some (PcSummary fills) \<Rightarrow>
          Some (after_db (bt_SetSummary (on_ctx i ok sy) now i
                   (Compute (se_rnd env) (se_sqrt env) fills (initial_capital (se_bt env) (bt_Params (sy_bt sy i)))) (length fills) (sy_db sy))
                 (goto i (PcFail ''persist summary'')) (goto i PcEnd) sy)
      | Some (PcFail msg) \<Rightarrow>
          Some (after_db (bt_UpdateStatus (on_ctx i ok sy) i StFailed None (Some now) msg (sy_db sy)) (goto i PcEnd) (goto i PcEnd) sy)
      | Some (PcPanic msg) \<Rightarrow>
          Some (after_db (bt_UpdateStatus ok i StFailed None None msg (sy_db sy)) (goto i PcEnd) (goto i PcEnd) sy)
      | Some PcEnd \<Rightarrow> (let sy1 = cancel_job i sy in Some (sy1\<lparr>sy_pc := (sy_pc sy1)(i := None)\<rparr>)))"

text \<open>The actions: a submission, a step of a job, the two halves of a cancel request of the owner, a shutdown, and
  a restart of the agent, which runs the janitor.\<close>

datatype sys_action =
    ASubmit bool gtime string string string string "Request option"
  | AStep bool gtime "string list" run_outcome string
  | ACancelRow bool gtime string string
  | ACancelSignal string
  | AShutdown
  | ARestart bool gtime

definition cancel_row :: "bool \<Rightarrow> gtime \<Rightarrow> string \<Rightarrow> string \<Rightarrow> job_sys \<Rightarrow> job_sys" where
  "cancel_row ok now user i sy =
     (case bt_Get ok i (sy_db sy) of
        Inl e \<Rightarrow> sy
      | Inr r \<Rightarrow>
          if br_UserID r \<noteq> user then sy
          else (case bt_CancelIfRunning ok now i (sy_db sy) of
                  Inl e \<Rightarrow> sy
                | Inr (db, wasRunning) \<Rightarrow> sy\<lparr>sy_db := db, sy_signals := i # sy_signals sy\<rparr>))"

definition restart :: "bool \<Rightarrow> gtime \<Rightarrow> job_sys \<Rightarrow> job_sys" where
  "restart ok now sy =
     (let sy1 = sy\<lparr>sy_jobs := {}, sy_cancelled := (\<lambda>_. False), sy_pc := (\<lambda>_. None), sy_signals := []\<rparr> in
      case FailOrphaned ok now (sy_db sy1) of Inl e \<Rightarrow> sy1 | Inr (db, n) \<Rightarrow> sy1\<lparr>sy_db := db\<rparr>)"

fun sys_act :: "sys_env \<Rightarrow> sys_action \<Rightarrow> job_sys \<Rightarrow> job_sys option" where
  "sys_act env (ASubmit ok now i user strategyID wasmRef req) sy = Some (fst (Submit ok now i user strategyID wasmRef req sy))"
| "sys_act env (AStep ok now ids outcome i) sy = job_step env ok now ids outcome i sy"
| "sys_act env (ACancelRow ok now user i) sy = Some (cancel_row ok now user i sy)"
| "sys_act env (ACancelSignal i) sy =
     (if i \<in> set (sy_signals sy) then Some ((cancel_job i sy)\<lparr>sy_signals := remove1 i (sy_signals sy)\<rparr>) else None)"
| "sys_act env AShutdown sy = Some (CancelAll sy)"
| "sys_act env (ARestart ok now) sy = Some (restart ok now sy)"

fun sys_acts :: "sys_env \<Rightarrow> sys_action list \<Rightarrow> job_sys \<Rightarrow> job_sys option" where
  "sys_acts env [] sy = Some sy"
| "sys_acts env (a # as) sy = Option.bind (sys_act env a sy) (sys_acts env as)"

definition empty_sys :: job_sys where
  "empty_sys = \<lparr>sy_db = \<lparr>bd_rows = [], bd_fills = []\<rparr>, sy_jobs = {}, sy_cancelled = (\<lambda>_. False), sy_pc = (\<lambda>_. None),
     sy_bt = (\<lambda>i. request_backtest i \<lparr>rq_Start = time_zero, rq_End = time_zero, rq_Resolution = '''', rq_OrderBookID = '''',
       rq_Params = (\<lambda>_. None), rq_WarmupCandles = 0\<rparr>), sy_signals = []\<rparr>"

end
