(* ===== verification/Plugin_Backtest_Props.thy ===== *)
theory Plugin_Backtest_Props
  imports Plugin_Backtest
begin

text \<open>
  Properties of plugin backtests: decimal texts round-trip, following the cursors of a warm-up serves it
  once, the replay delivers the history of the window in order, and simulated orders fill on the last
  candle delivered, which is not yet over when it is delivered.
\<close>

section \<open>Decimal texts\<close>

lemma digit_of_digit: "d < 10 \<Longrightarrow> digit_of (digit d) = Some d"
  by (simp add: digit_of_def digit_def)

lemma read_digits_append: "read_digits acc (xs @ ys) = Option.bind (read_digits acc xs) (\<lambda>a. read_digits a ys)"
  by (induction acc xs rule: read_digits.induct) (auto split: option.splits)

lemma read_digits_digits: "read_digits 0 (digits n) = Some n"
proof (induction n rule: digits.induct)
  case (1 n)
  show ?case
  proof (cases "n < 10")
    case True
    then show ?thesis by (subst digits.simps) (simp add: digit_of_digit)
  next
    case False
    then have "read_digits 0 (digits (n div 10)) = Some (n div 10)" by (rule 1)
    then show ?thesis using False by (subst digits.simps) (simp add: read_digits_append digit_of_digit)
  qed
qed

lemma digits_nonempty [simp]: "digits n \<noteq> []"
  by (subst digits.simps) simp

lemma digits_digit: "c \<in> set (digits n) \<Longrightarrow> digit_of c \<noteq> None"
proof (induction n rule: digits.induct)
  case (1 n)
  then show ?case by (subst (asm) digits.simps) (auto split: if_splits simp: digit_of_digit)
qed

lemma Atoi_Itoa: "int64_ok i \<Longrightarrow> Atoi (Itoa i) = Some i"
proof -
  assume i: "int64_ok i"
  have h: "hd (digits n) \<noteq> CHR ''-'' \<and> hd (digits n) \<noteq> CHR ''+''" for n
    using digits_digit [of "hd (digits n)" n] by (auto simp: digit_of_def)
  obtain c cs where d: "digits (nat i) = c # cs" by (cases "digits (nat i)") auto
  show ?thesis
  proof (cases "i < 0")
    case True
    then show ?thesis using i by (simp add: Itoa_def Atoi_def Let_def read_digits_digits)
  next
    case False
    then show ?thesis using i h [of "nat i"] read_digits_digits [of "nat i"]
      by (simp add: Itoa_def Atoi_def Let_def d del: read_digits.simps)
  qed
qed

lemma Itoa_nonempty [simp]: "Itoa i \<noteq> ''''"
  by (simp add: Itoa_def)

lemma digits_inj: "digits m = digits n \<Longrightarrow> m = n"
  by (metis read_digits_digits option.inject)

lemma read_digits_zeros: "read_digits 0 (replicate k CHR ''0'' @ ds) = read_digits 0 ds"
  by (induction k) (simp_all add: digit_of_def)

lemma pad4_inj: "pad4 m = pad4 n \<Longrightarrow> m = n"
proof -
  have "read_digits 0 (pad4 k) = Some k" for k by (simp add: pad4_def read_digits_zeros read_digits_digits)
  then show "pad4 m = pad4 n \<Longrightarrow> m = n" by (metis option.inject)
qed

section \<open>The pages of a warm-up\<close>

definition preamble_fetch :: "'a list \<Rightarrow> int \<Rightarrow> string \<Rightarrow> ('a list \<times> string) res" where
  "preamble_fetch items n c = (case preamblePage items (c, n) of Inl e \<Rightarrow> Inl e | Inr (rows, done, next) \<Rightarrow> Inr (rows, next))"

lemma clamp_pos: "1 \<le> clampFetchBatchSize n" "clampFetchBatchSize n \<le> 5000"
  by (auto simp: clampFetchBatchSize_def preambleBatchSize_def maxFetchBatchSize_def)

lemma preamble_at:
  assumes "int64_ok (int (length items))" "k \<le> length items" "0 < k \<or> c = ''''" "c = '''' \<longrightarrow> k = 0" "c \<noteq> '''' \<longrightarrow> c = Itoa (int k)"
  shows "preamble_fetch items n c =
    (let e = min (k + nat (clampFetchBatchSize n)) (length items) in
     Inr (take (e - k) (drop k items), if length items \<le> e then '''' else Itoa (int e)))"
proof (cases "c = ''''")
  case True
  then show ?thesis using assms by (simp add: preamble_fetch_def preamblePage_def Let_def)
next
  case False
  then have "Atoi c = Some (int k)" using assms by (auto simp: int64_ok_def intro: Atoi_Itoa)
  then show ?thesis using False assms by (simp add: preamble_fetch_def preamblePage_def Let_def)
qed

lemma fetch_preamble_from:
  assumes ok: "int64_ok (int (length items))" and m: "length items - k \<le> m"
    and k: "k \<le> length items" "0 < k \<or> c = ''''" "c = '''' \<longrightarrow> k = 0" "c \<noteq> '''' \<longrightarrow> c = Itoa (int k)"
  shows "fetchAll_from (preamble_fetch items n) c all = Some (Inr (all @ drop k items))"
  using m k
proof (induction m arbitrary: k c all rule: less_induct)
  case (less m)
  let ?e = "min (k + nat (clampFetchBatchSize n)) (length items)"
  have page: "preamble_fetch items n c = Inr (take (?e - k) (drop k items), if length items \<le> ?e then '''' else Itoa (int ?e))"
    using preamble_at [OF ok less.prems(2-)] by (simp add: Let_def)
  show ?case
  proof (cases "length items \<le> ?e")
    case True
    then show ?thesis using page by (subst fetchAll_from.simps) simp
  next
    case False
    have step: "k < ?e" "?e < length items" using False clamp_pos(1) [of n] by linarith+
    have "fetchAll_from (preamble_fetch items n) (Itoa (int ?e)) (all @ take (?e - k) (drop k items)) =
        Some (Inr ((all @ take (?e - k) (drop k items)) @ drop ?e items))"
      using less.prems(1) step by (intro less.IH [of "length items - ?e"]) auto
    moreover have "take (?e - k) (drop k items) @ drop ?e items = drop k items"
      using step by (metis append_take_drop_id drop_drop le_add_diff_inverse2 less_imp_le_nat)
    ultimately show ?thesis using page False by (subst fetchAll_from.simps) simp
  qed
qed

text \<open>A plugin that follows the cursors of a warm-up fetch gets every item once, in order, whatever batch
  size it asks for; a page never exceeds 5000 items.\<close>

theorem preamble_pages_complete:
  assumes "int64_ok (int (length items))"
  shows "fetchAll (preamble_fetch items n) = Some (Inr items) \<and>
    (case preamble_fetch items n c of Inl e \<Rightarrow> True | Inr (rows, next) \<Rightarrow> length rows \<le> 5000)"
  using fetch_preamble_from [OF assms, of 0 "length items" "''''" n "[]"] clamp_pos(2) [of n]
  by (auto simp: fetchAll_def preamble_fetch_def preamblePage_def Let_def min_def split: sum.splits option.splits if_splits)

theorem preamble_pages_complete_witness:
  "fetchAll (preamble_fetch [1, 2, 3 :: nat] 2) = Some (Inr [1, 2, 3])"
  using preamble_pages_complete [of "[1, 2, 3 :: nat]" 2 "''''"] by (simp add: int64_ok_def)

section \<open>Windows\<close>

definition max_warmup :: "string \<Rightarrow> int" where
  "max_warmup r = (2 ^ 63) div max 1 (resolutionDuration r)"

lemma warmupStart_exact:
  assumes w: "0 \<le> w" "w \<le> max_warmup r"
  shows "t_ns (warmupStart t w r) = t_ns t - w * resolutionDuration r"
proof (cases "w = 0 \<or> resolutionDuration r = 0")
  case False
  let ?d = "resolutionDuration r"
  have pos: "0 < ?d" "0 < w" using False w by (auto simp: resolutionDuration_def split: if_splits)
  have "w * ?d \<le> 2 ^ 63 div ?d * ?d" using w pos by (intro mult_right_mono) (simp_all add: max_warmup_def max_def split: if_splits)
  also have "\<dots> \<le> 2 ^ 63" using pos by (metis div_mult_mod_eq le_add_same_cancel1 pos_mod_sign)
  moreover have "0 < w * ?d" using pos by simp
  ultimately have "int64_ok (- w * ?d)" by (simp add: int64_ok_def)
  then show ?thesis using pos by (simp add: warmupStart_def Let_def time_Add_def wrap64_id)
qed (auto simp: warmupStart_def Let_def)

text \<open>The warm-up window starts its number of candles before the window as long as their duration fits in
  64 bits, which is 106,751 daily candles; one more, and the product wraps around and the warm-up would
  start after the window, although the request validation accepts up to \<open>2 ^ 31 - 1\<close>.\<close>

theorem warmup_window_bounds:
  assumes "0 \<le> w" "w \<le> max_warmup r"
  shows "t_ns (warmupStart t w r) = t_ns t - w * resolutionDuration r \<and>
    max_warmup ''1d'' = 106751 \<and> t_ns t < t_ns (warmupStart t 106752 ''1d'')"
  using warmupStart_exact [OF assms]
  by (simp add: max_warmup_def resolutionDuration_def warmupStart_def time_Add_def wrap64_def)

theorem warmup_window_bounds_witness:
  "t_ns (warmupStart time_zero 24 ''1h'') = - (24 * hour_ns) \<and> max_warmup ''1d'' = 106751"
  using warmup_window_bounds [of 24 "''1h''" time_zero] by (simp add: max_warmup_def resolutionDuration_def time_zero_def)

text \<open>The windows of the REST fetch follow each other from the start of the window to its end, none longer
  than a chunk.\<close>

fun linked :: "gtime \<Rightarrow> gtime \<Rightarrow> (gtime \<times> gtime) list \<Rightarrow> bool" where
  "linked s e [] \<longleftrightarrow> t_ns e \<le> t_ns s"
| "linked s e ((a, b) # ws) \<longleftrightarrow> t_ns a = t_ns s \<and> t_ns a < t_ns b \<and> linked b e ws"

lemma chunk_windows_linked:
  assumes "0 < d"
  shows "linked s e (chunk_windows d s e) \<and> (\<forall>(a, b)\<in>set (chunk_windows d s e). t_ns b - t_ns a \<le> d \<and> t_ns b \<le> t_ns e)"
  using assms
proof (induction d s e rule: chunk_windows.induct)
  case (1 d s e)
  show ?case
  proof (cases "time_Before s e")
    case True
    let ?ce = "time_Add s d"
    have tail: "linked ?ce e (chunk_windows d ?ce e)"
      "\<forall>(a, b)\<in>set (chunk_windows d ?ce e). t_ns b - t_ns a \<le> d \<and> t_ns b \<le> t_ns e"
      using 1(1)[of ?ce] 1(2) True by auto
    have w: "chunk_windows d s e = (s, if time_After ?ce e then e else ?ce) # chunk_windows d ?ce e"
      using True 1(2) by (subst chunk_windows.simps) (simp add: Let_def)
    show ?thesis
    proof (cases "time_After ?ce e")
      case late: True
      then have "chunk_windows d ?ce e = []" by (subst chunk_windows.simps) (simp add: time_Before_def time_After_def)
      then show ?thesis using w late True by (simp add: time_Before_def time_After_def time_Add_def)
    next
      case False
      then show ?thesis using w tail True 1(2) by (simp add: time_Before_def time_After_def time_Add_def)
    qed
  next
    case False
    then show ?thesis by (subst (1 2) chunk_windows.simps) (simp add: time_Before_def)
  qed
qed

definition answers :: "(gtime \<Rightarrow> gtime \<Rightarrow> fw_candle list res) \<Rightarrow> gtime \<times> gtime \<Rightarrow> fw_candle list \<Rightarrow> bool" where
  "answers api w chunk \<longleftrightarrow> api (fst w) (snd w) = Inr chunk"

lemma fetch_chunks_ok:
  "fetch_chunks ctxErr api ws out = Inr all \<Longrightarrow> \<exists>chunks. list_all2 (answers api) ws chunks \<and> all = out @ concat chunks"
proof (induction ws arbitrary: out)
  case (Cons w ws)
  obtain s e where w: "w = (s, e)" by (cases w)
  obtain chunk where c: "api s e = Inr chunk" "fetch_chunks ctxErr api ws (out @ chunk) = Inr all"
    using Cons.prems by (auto simp: w split: option.splits)
  from Cons.IH [OF c(2)] obtain chunks where "list_all2 (answers api) ws chunks" "all = (out @ chunk) @ concat chunks" by blast
  moreover have "answers api w chunk" using c(1) by (simp add: w answers_def)
  ultimately show ?case by (intro exI [of _ "chunk # chunks"]) simp
qed simp

text \<open>Without a history store, the candles are those of consecutive windows that cover the backtest, at most
  1500 candles long each, put in the order of their timestamps.\<close>

theorem rest_candles_cover_window:
  assumes "fetchCandles ctxErr api b = Inr out" "resolutionDuration (bt_Resolution b) \<noteq> 0"
  shows "\<exists>ws chunks. linked (bt_WindowStart b) (bt_WindowEnd b) ws \<and>
    (\<forall>(s, e)\<in>set ws. t_ns e - t_ns s \<le> 1500 * resolutionDuration (bt_Resolution b) \<and> t_ns e \<le> t_ns (bt_WindowEnd b)) \<and>
    list_all2 (answers api) ws chunks \<and> mset out = mset (concat chunks) \<and> sorted (map fc_StartTimestamp out)"
proof -
  let ?d = "int candlesPerChunk * resolutionDuration (bt_Resolution b)"
  let ?ws = "chunk_windows ?d (bt_WindowStart b) (bt_WindowEnd b)"
  have "0 \<le> resolutionDuration (bt_Resolution b)" by (simp add: resolutionDuration_def)
  then have "0 < resolutionDuration (bt_Resolution b)" using assms(2) by linarith
  then have d: "0 < ?d" by (simp add: candlesPerChunk_def)
  obtain all where all: "fetch_chunks ctxErr api ?ws [] = Inr all" "out = sort_key fc_StartTimestamp all"
    using assms by (auto simp: fetchCandles_def Let_def)
  obtain chunks where "list_all2 (answers api) ?ws chunks" "all = concat chunks" using fetch_chunks_ok [OF all(1)] by auto
  then show ?thesis using chunk_windows_linked [OF d, of "bt_WindowStart b" "bt_WindowEnd b"] all(2)
    by (intro exI [of _ ?ws] exI [of _ chunks]) (auto simp: candlesPerChunk_def)
qed

definition sample_bt :: Backtest where
  "sample_bt = \<lparr>bt_ID = ''1'', bt_OrderBookID = ''b'', bt_WindowStart = sample_instant 0, bt_WindowEnd = sample_instant 600,
     bt_Resolution = ''5m'', bt_WarmupCandles = 0, bt_Params = (\<lambda>_. None)\<rparr>"

definition sample_fw_candle :: fw_candle where
  "sample_fw_candle = \<lparr>fc_OrderBookID = ''b'', fc_StartTimestamp = ''1970'', fc_Open = ''1'', fc_High = ''3'', fc_Low = ''1'',
     fc_Close = ''2'', fc_OpenYtm = '''', fc_HighYtm = '''', fc_LowYtm = '''', fc_CloseYtm = '''', fc_Volume = ''5''\<rparr>"

theorem rest_candles_cover_window_witness:
  "\<exists>ws chunks. linked (sample_instant 0) (sample_instant 600) ws \<and>
     list_all2 (answers (\<lambda>s e. Inr [sample_fw_candle])) ws chunks \<and> mset [sample_fw_candle] = mset (concat chunks)"
proof -
  have w: "chunk_windows (1500 * (5 * minute_ns)) (sample_instant 0) (sample_instant 600) = [(sample_instant 0, sample_instant 600)]"
    by (subst chunk_windows.simps; subst chunk_windows.simps) (simp add: sample_instant_def time_Before_def time_After_def time_Add_def)
  have "fetchCandles (\<lambda>_. None) (\<lambda>s e. Inr [sample_fw_candle]) sample_bt = Inr [sample_fw_candle]"
    using w by (simp add: fetchCandles_def sample_bt_def resolutionDuration_def candlesPerChunk_def)
  from rest_candles_cover_window [OF this] show ?thesis by (force simp: sample_bt_def resolutionDuration_def)
qed

section \<open>The replay\<close>

definition pending :: "'p mergeStream \<Rightarrow> 'p event list" where
  "pending m = (case ms_pc m of MReturn (Inr (Some ev)) \<Rightarrow> [ev] | _ \<Rightarrow> [])"

lemma after_stream_pending: "pending (m\<lparr>ms_pc := after_stream k sc\<rparr>) = []"
  by (cases k) (simp_all add: pending_def after_stream_def)

lemma next_step_out:
  assumes "next_step m = Some m1"
  shows "\<exists>xs. ms_out m1 = ms_out m @ xs \<and> pending m1 = xs \<and> pending m = []"
  using assms
  by (auto simp: next_step_def pending_def set_stream_def after_stream_def
      split: mergePc.splits prod.splits peeked.splits option.splits if_splits eventKind.splits sum.splits)

lemma merge_act_out:
  assumes "merge_act fetch a m = Some m1" "a \<noteq> ACall"
  shows "\<exists>xs. ms_out m1 = ms_out m @ xs \<and> pending m1 = pending m @ xs"
proof (cases a)
  case ANext
  then show ?thesis using next_step_out [of m m1] assms by auto
qed (use assms in \<open>auto simp: pending_def set_stream_def split: if_splits mergePc.splits option.splits sum.splits\<close>)

lemma merge_acts_snoc:
  "merge_acts fetch as m = Some m1 \<Longrightarrow> merge_act fetch a m1 = Some m2 \<Longrightarrow> merge_acts fetch (as @ [a]) m = Some m2"
  by (induction as arbitrary: m) (auto simp: bind_eq_Some_conv)

text \<open>The stream of a running job is reached by actions of its goroutines, and everything it has delivered
  but the event of a call not yet answered has been handed to the plugin.\<close>

definition job_inv :: "(eventKind \<Rightarrow> payload fetcher) \<Rightarrow> bt_job \<Rightarrow> bool" where
  "job_inv fetch j \<longleftrightarrow> (\<exists>m as. bj_replay j = Some m \<and> merge_acts fetch as newMergeStream = Some m \<and>
     set as \<inter> {ACancel, AClose} = {} \<and> ms_out m = bj_seen j @ pending m)"

definition no_cancel :: "job_action \<Rightarrow> bool" where
  "no_cancel a \<longleftrightarrow> a \<noteq> JStream ACancel \<and> a \<noteq> JStream AClose"

lemma job_inv_state: "job_inv fetch j \<Longrightarrow> bj_replay j1 = bj_replay j \<Longrightarrow> bj_seen j1 = bj_seen j \<Longrightarrow> job_inv fetch j1"
  by (simp add: job_inv_def)

lemma job_act_inv:
  assumes inv: "job_inv fetch j" and act: "job_act env J fetch a j = Some (j1, r)" and a: "no_cancel a"
  shows "job_inv fetch j1"
proof -
  obtain m as where m: "bj_replay j = Some m" "merge_acts fetch as newMergeStream = Some m" "set as \<inter> {ACancel, AClose} = {}"
    "ms_out m = bj_seen j @ pending m" using inv by (auto simp: job_inv_def)
  show ?thesis
  proof (cases a)
    case (JStream b)
    then obtain m1 where b: "b \<noteq> ACall" "merge_act fetch b m = Some m1" "j1 = j\<lparr>bj_replay := Some m1\<rparr>"
      using act m(1) by (auto split: if_splits)
    obtain xs where "ms_out m1 = ms_out m @ xs" "pending m1 = pending m @ xs" using merge_act_out [OF b(2,1)] by blast
    then show ?thesis using m merge_acts_snoc [OF m(2) b(2)] a JStream b(3)
      by (auto simp: job_inv_def no_cancel_def intro!: exI [of _ "as @ [b]"])
  next
    case (JNextEvent n)
    then obtain nx where nx: "ms_pc m = MReturn nx" "bj_replay j1 = Some (case merge_act fetch ACall m of None \<Rightarrow> m | Some m1 \<Rightarrow> m1)"
      "bj_seen j1 = bj_seen j @ (case nx of Inr (Some ev) \<Rightarrow> [ev] | _ \<Rightarrow> [])"
      using act m(1) by (auto split: mergePc.splits prod.splits)
    show ?thesis
    proof (cases "\<exists>ev. nx = Inr (Some ev)")
      case True
      then obtain ev where ev: "nx = Inr (Some ev)" by blast
      let ?m1 = "m\<lparr>ms_pc := MPeek kindCandle scan_start\<rparr>"
      have c: "merge_act fetch ACall m = Some ?m1" using nx(1) ev by simp
      show ?thesis unfolding job_inv_def
        using nx ev m merge_acts_snoc [OF m(2) c] c
        by (intro exI [of _ ?m1] exI [of _ "as @ [ACall]"]) (auto simp: pending_def)
    next
      case False
      then have "merge_act fetch ACall m = None" "(case nx of Inr (Some ev) \<Rightarrow> [ev] | _ \<Rightarrow> []) = []"
        using nx(1) by (auto split: sum.splits option.splits)
      then show ?thesis using nx m inv by (simp add: job_inv_def)
    qed
  qed (use act inv in \<open>auto intro!: job_inv_state [OF inv] split: prod.splits\<close>)
qed

lemma job_acts_inv:
  "job_inv fetch j \<Longrightarrow> job_acts env J fetch as j = Some j1 \<Longrightarrow> list_all no_cancel as \<Longrightarrow> job_inv fetch j1"
proof (induction as arbitrary: j)
  case (Cons a as)
  obtain j2 r where a: "job_act env J fetch a j = Some (j2, r)" "job_acts env J fetch as j2 = Some j1"
    using Cons.prems(2) by (auto split: option.splits)
  show ?case using Cons.IH [OF job_act_inv [OF Cons.prems(1) a(1)] a(2)] Cons.prems(3) by simp
qed simp

lemma streaming_job_inv: "job_inv fetch (streaming_job win cfg)"
  by (auto simp: job_inv_def streaming_job_def pending_def newMergeStream_def intro!: exI [of _ "[]"])

lemma streaming_run:
  assumes "job_acts env J fetch as (streaming_job win cfg) = Some j" "list_all no_cancel as"
  shows "job_inv fetch j"
  using job_acts_inv [OF streaming_job_inv assms] .

section \<open>Simulated orders\<close>

definition candle_of :: "payload event \<Rightarrow> fw_candle option" where
  "candle_of ev = (case (fst ev, sr_payload (snd ev)) of (kindCandle, PlCandle c) \<Rightarrow> Some c | _ \<Rightarrow> None)"

definition current_candle :: "payload event list \<Rightarrow> fw_candle option" where
  "current_candle evs = fold (\<lambda>ev cur. case candle_of ev of None \<Rightarrow> cur | Some c \<Rightarrow> Some c) evs None"

lemma current_candle_snoc:
  "current_candle (evs @ [ev]) = (case candle_of ev of None \<Rightarrow> current_candle evs | Some c \<Rightarrow> Some c)"
  by (simp add: current_candle_def split: option.split)

definition fill_ok :: "bt_env \<Rightarrow> fw_candle \<Rightarrow> Intent \<Rightarrow> Fill \<Rightarrow> bool" where
  "fill_ok env c i f \<longleftrightarrow> fl_Quantity f = it_Quantity i \<and>
     (it_Type i = ''market'' \<and> fl_Price f = fc_Close c \<or>
      it_Type i = ''limit'' \<and> fl_Price f = it_Price i \<and>
        (\<exists>p l h. be_setString env (it_Price i) = Some p \<and> be_setString env (fc_Low c) = Some l \<and>
           be_setString env (fc_High c) = Some h \<and> l \<le> p \<and> p \<le> h))"

lemma simulateFill_ok:
  assumes "snd (simulateFill env i st) = Inr f"
  obtains c where "js_lastCandle st = Some c" "fill_ok env c i f" "fl_OrderID f = ''sim-'' @ pad4 (Suc (js_fillSeq st))"
proof -
  obtain c where c: "js_lastCandle st = Some c" using assms by (auto simp: simulateFill_def split: option.splits)
  have "fill_ok env c i f \<and> fl_OrderID f = ''sim-'' @ pad4 (Suc (js_fillSeq st))"
    using assms c by (auto simp: simulateFill_def Let_def fill_ok_def limitWithinRange_def split: if_splits option.splits)
  then show thesis using that c by blast
qed

lemma simulateFill_seq: "js_fillSeq st \<le> js_fillSeq (fst (simulateFill env i st))"
  "snd (simulateFill env i st) = Inr f \<Longrightarrow> js_fillSeq (fst (simulateFill env i st)) = Suc (js_fillSeq st)"
  "js_lastCandle (fst (simulateFill env i st)) = js_lastCandle st"
  by (auto simp: simulateFill_def Let_def split: option.splits)

definition sim_ids :: "(nat \<times> Intent \<times> Fill) list \<Rightarrow> string list" where
  "sim_ids sims = map (\<lambda>(n, i, f). fl_OrderID f) sims"

definition ids_ok :: "string list \<Rightarrow> nat \<Rightarrow> bool" where
  "ids_ok xs seq \<longleftrightarrow> (\<exists>ks. xs = map (\<lambda>k. ''sim-'' @ pad4 k) ks \<and> distinct ks \<and> (\<forall>k\<in>set ks. k \<le> seq))"

lemma ids_ok_mono: "ids_ok xs n \<Longrightarrow> n \<le> m \<Longrightarrow> ids_ok xs m"
proof -
  assume "ids_ok xs n" and le: "n \<le> m"
  then obtain ks where "xs = map (\<lambda>k. ''sim-'' @ pad4 k) ks" "distinct ks" "\<forall>k\<in>set ks. k \<le> n" by (auto simp: ids_ok_def)
  then show ?thesis unfolding ids_ok_def using le by (intro exI [of _ ks]) auto
qed

lemma ids_ok_snoc: "ids_ok xs n \<Longrightarrow> ids_ok (xs @ [''sim-'' @ pad4 (Suc n)]) (Suc n)"
proof -
  assume "ids_ok xs n"
  then obtain ks where "xs = map (\<lambda>k. ''sim-'' @ pad4 k) ks" "distinct ks" "\<forall>k\<in>set ks. k \<le> n" by (auto simp: ids_ok_def)
  then show ?thesis unfolding ids_ok_def by (intro exI [of _ "ks @ [Suc n]"]) auto
qed

lemma ids_ok_distinct: "ids_ok xs n \<Longrightarrow> distinct xs"
  by (auto simp: ids_ok_def distinct_map inj_on_def dest: pad4_inj)

definition sim_ok :: "bt_env \<Rightarrow> payload event list \<Rightarrow> nat \<times> Intent \<times> Fill \<Rightarrow> bool" where
  "sim_ok env evs s \<longleftrightarrow> (case s of (n, i, f) \<Rightarrow> n \<le> length evs \<and> (\<exists>c. current_candle (take n evs) = Some c \<and> fill_ok env c i f))"

lemma sim_ok_append: "sim_ok env evs s \<Longrightarrow> sim_ok env (evs @ evs1) s"
  by (auto simp: sim_ok_def)

definition fills_inv :: "bt_env \<Rightarrow> bt_job \<Rightarrow> bool" where
  "fills_inv env j \<longleftrightarrow> bj_replay j \<noteq> None \<and> js_lastCandle (bj_state j) = current_candle (bj_seen j) \<and>
     ids_ok (sim_ids (bj_sims j)) (js_fillSeq (bj_state j)) \<and> list_all (sim_ok env (bj_seen j)) (bj_sims j)"

lemma fills_inv_state:
  assumes "fills_inv env j" "bj_replay j1 \<noteq> None" "bj_seen j1 = bj_seen j" "bj_sims j1 = bj_sims j"
    and "js_lastCandle (bj_state j1) = js_lastCandle (bj_state j)" "js_fillSeq (bj_state j1) = js_fillSeq (bj_state j)"
  shows "fills_inv env j1"
  using assms by (simp add: fills_inv_def)

lemma envelope_last:
  "js_lastCandle (fst (streamEventEnvelope env ev st)) = (case candle_of ev of None \<Rightarrow> js_lastCandle st | Some c \<Rightarrow> Some c) \<and>
   js_fillSeq (fst (streamEventEnvelope env ev st)) = js_fillSeq st"
  by (cases "fst ev"; cases "sr_payload (snd ev)") (simp_all add: streamEventEnvelope_def candle_of_def deliver_candle_def)

lemma next_event_last:
  "js_lastCandle (fst (bt_hostNextEvent env (Some nx) n st)) =
     (case nx of Inr (Some ev) \<Rightarrow> (case candle_of ev of None \<Rightarrow> js_lastCandle st | Some c \<Rightarrow> Some c) | _ \<Rightarrow> js_lastCandle st) \<and>
   js_fillSeq (fst (bt_hostNextEvent env (Some nx) n st)) = js_fillSeq st"
proof (cases "\<exists>ev. nx = Inr (Some ev)")
  case True
  then obtain ev where ev: "nx = Inr (Some ev)" by blast
  have "fst (bt_hostNextEvent env (Some nx) n st) = fst (streamEventEnvelope env ev st)"
    by (simp add: bt_hostNextEvent_def ev split: prod.splits sum.splits)
  then show ?thesis using envelope_last [of env ev st] ev by simp
qed (auto simp: bt_hostNextEvent_def split: sum.splits option.splits)

lemma record_last:
  "js_lastCandle (hostRecordFill env mem st) = js_lastCandle st" "js_fillSeq (hostRecordFill env mem st) = js_fillSeq st"
  "js_lastCandle (hostBacktestError mem st) = js_lastCandle st" "js_fillSeq (hostBacktestError mem st) = js_fillSeq st"
  by (auto simp: hostRecordFill_def hostBacktestError_def split: option.splits sum.splits)

lemma next_candle_last:
  "js_lastCandle (fst (hostNextCandle env True n st)) = js_lastCandle st"
  "js_fillSeq (fst (hostNextCandle env True n st)) = js_fillSeq st"
  by (auto simp: hostNextCandle_def split: option.splits)

lemma submit_inv:
  assumes "fills_inv env j"
  shows "fills_inv env (j\<lparr>bj_state := fst (bt_hostSubmitOrder env n mem (bj_state j)),
    bj_sims := bj_sims j @ new_sims env mem (length (bj_seen j)) (bj_state j)\<rparr>)"
proof (cases "\<exists>b i. mem = Some b \<and> be_decodeIntent env b = Inr i")
  case True
  then obtain b i where b: "mem = Some b" "be_decodeIntent env b = Inr i" by blast
  let ?st = "bj_state j"
  have st: "fst (bt_hostSubmitOrder env n mem ?st) = fst (simulateFill env i ?st)"
    by (simp add: bt_hostSubmitOrder_def b split: prod.splits sum.splits)
  show ?thesis
  proof (cases "snd (simulateFill env i ?st)")
    case (Inl e)
    then have "new_sims env mem (length (bj_seen j)) ?st = []" by (simp add: new_sims_def b)
    then show ?thesis using assms simulateFill_seq(1) [of ?st env i] simulateFill_seq(3) [of env i ?st] st
      by (auto simp: fills_inv_def intro: ids_ok_mono)
  next
    case (Inr f)
    then obtain c where c: "js_lastCandle ?st = Some c" "fill_ok env c i f" "fl_OrderID f = ''sim-'' @ pad4 (Suc (js_fillSeq ?st))"
      by (rule simulateFill_ok)
    have new: "new_sims env mem (length (bj_seen j)) ?st = [(length (bj_seen j), i, f)]" using Inr by (simp add: new_sims_def b)
    have "current_candle (bj_seen j) = Some c" using c(1) assms by (simp add: fills_inv_def)
    then have "sim_ok env (bj_seen j) (length (bj_seen j), i, f)" using c(2) by (simp add: sim_ok_def)
    moreover have "ids_ok (sim_ids (bj_sims j @ [(length (bj_seen j), i, f)])) (Suc (js_fillSeq ?st))"
      using ids_ok_snoc assms c(3) by (simp add: fills_inv_def sim_ids_def)
    ultimately show ?thesis using assms st new simulateFill_seq(2) [OF Inr] simulateFill_seq(3) [of env i ?st]
      by (simp add: fills_inv_def)
  qed
next
  case False
  then have "fst (bt_hostSubmitOrder env n mem (bj_state j)) = bj_state j" "new_sims env mem (length (bj_seen j)) (bj_state j) = []"
    by (auto simp: bt_hostSubmitOrder_def new_sims_def split: option.splits sum.splits)
  then show ?thesis using assms by (simp add: fills_inv_def)
qed

lemma job_act_fills:
  assumes inv: "fills_inv env j" and act: "job_act env J fetch a j = Some (j1, r)"
  shows "fills_inv env j1"
proof (cases a)
  case (JStream b)
  then show ?thesis using act inv by (auto simp: fills_inv_def split: option.splits if_splits)
next
  case (JNextEvent n)
  then obtain m nx where nx: "bj_replay j = Some m" "ms_pc m = MReturn nx"
    using act inv by (auto simp: fills_inv_def split: option.splits mergePc.splits)
  then have j1: "j1 = j\<lparr>bj_state := fst (bt_hostNextEvent env (Some nx) n (bj_state j)),
      bj_replay := Some (case merge_act fetch ACall m of None \<Rightarrow> m | Some m1 \<Rightarrow> m1),
      bj_seen := bj_seen j @ (case nx of Inr (Some ev) \<Rightarrow> [ev] | _ \<Rightarrow> [])\<rparr>"
    using act JNextEvent by (simp split: prod.splits)
  show ?thesis using inv next_event_last [of env nx n "bj_state j"]
    by (auto simp: fills_inv_def j1 current_candle_snoc list_all_iff intro: sim_ok_append split: sum.splits option.splits)
next
  case (JNextCandle n)
  then have "j1 = j\<lparr>bj_state := fst (hostNextCandle env True n (bj_state j))\<rparr>"
    using act inv by (auto simp: fills_inv_def split: prod.splits)
  then show ?thesis using inv next_candle_last by (intro fills_inv_state [OF inv]) (auto simp: fills_inv_def)
next
  case (JSubmitOrder n mem)
  then have "j1 = j\<lparr>bj_state := fst (bt_hostSubmitOrder env n mem (bj_state j)),
      bj_sims := bj_sims j @ new_sims env mem (length (bj_seen j)) (bj_state j)\<rparr>"
    using act by (simp split: prod.splits)
  then show ?thesis using submit_inv [OF inv] by simp
qed (use act inv in \<open>auto simp: record_last intro!: fills_inv_state [OF inv] simp: fills_inv_def\<close>)

lemma job_acts_fills:
  "fills_inv env j \<Longrightarrow> job_acts env J fetch as j = Some j1 \<Longrightarrow> fills_inv env j1"
proof (induction as arbitrary: j)
  case (Cons a as)
  obtain j2 r where "job_act env J fetch a j = Some (j2, r)" "job_acts env J fetch as j2 = Some j1"
    using Cons.prems(2) by (auto split: option.splits)
  then show ?case using Cons.IH job_act_fills [OF Cons.prems(1)] by blast
qed simp

section \<open>The history a job replays\<close>

definition replay_history :: "bt_env \<Rightarrow> hist_db \<Rightarrow> string \<Rightarrow> int \<Rightarrow> Backtest \<Rightarrow> eventKind \<Rightarrow> payload srow list" where
  "replay_history env db asset s b k =
     (case k of
        kindCandle \<Rightarrow> map (candleRow env) (served_candles db (bt_OrderBookID b) s (bt_WindowStart b) (bt_WindowEnd b))
      | kindTrade \<Rightarrow> map (tradeRow env) (in_history trade_key (bt_WindowStart b) (bt_WindowEnd b)
          (filter (\<lambda>t. ht_OrderBookID t = bt_OrderBookID b) (hd_trades db)))
      | kindPrice \<Rightarrow> if asset = '''' then [] else map (priceRow env) (in_history price_key (bt_WindowStart b) (bt_WindowEnd b)
          (filter (\<lambda>p. hp_AssetID p = asset) (hd_prices db))))"

text \<open>The tables answer and hold what the queries of the job can read.\<close>

definition replayable :: "hist_db \<Rightarrow> string \<Rightarrow> int \<Rightarrow> Backtest \<Rightarrow> bool" where
  "replayable db asset s b \<longleftrightarrow> hist_wf db \<and> hd_up db \<and> resolutionSeconds (bt_Resolution b) = Some s \<and>
     (\<forall>c\<in>set (served_candles db (bt_OrderBookID b) s (bt_WindowStart b) (bt_WindowEnd b)).
        candle_complete c \<and> unix_time (hc_Start c)) \<and>
     (\<forall>p\<in>set (hd_prices db). hp_AssetID p = asset \<longrightarrow> price_complete p)"

lemma in_history_sorted: "sorted (map (\<lambda>r. fst (key r)) (in_history key s e rows))"
proof -
  have "sorted (map key (in_history key s e rows))" by (simp add: in_history_def)
  then have "sorted (map fst (map key (in_history key s e rows)))"
    by (rule sorted_map_mono) (auto simp: mono_on_def less_eq_prod_def)
  then show ?thesis by (simp add: o_def)
qed

lemma keyset_pages:
  "keyset_fetch page key cur n L \<Longrightarrow> \<exists>pages. serves (rows_as f page) '''' pages None \<and> concat pages = map f L"
  using keyset_serves by metis

lemma replay_served:
  assumes "replayable db asset s b"
  shows "\<exists>pages. serves (newReplayStream env db asset b k) '''' pages None \<and> concat pages = replay_history env db asset s b k"
    "sorted (map row_ns (replay_history env db asset s b k))"
proof -
  have A: "hist_wf db" "hd_up db" "resolutionSeconds (bt_Resolution b) = Some s" using assms by (simp_all add: replayable_def)
  show "\<exists>pages. serves (newReplayStream env db asset b k) '''' pages None \<and> concat pages = replay_history env db asset s b k"
  proof (cases k)
    case kindCandle
    have "0 < candlesPerChunk" by (simp add: candlesPerChunk_def)
    from FetchCandles_keyset [OF A(1,2) this A(3)]
    have "keyset_fetch (\<lambda>c. FetchCandles db (bt_OrderBookID b) (bt_WindowStart b) (bt_WindowEnd b) (bt_Resolution b) c candlesPerChunk)
        candle_ns (\<lambda>c. encodeCursor (hd_b64 db) (hc_Start c) '''') candlesPerChunk
        (served_candles db (bt_OrderBookID b) s (bt_WindowStart b) (bt_WindowEnd b))"
      using assms unfolding replayable_def by blast
    from keyset_pages [OF this] show ?thesis by (simp add: kindCandle newReplayStream_def replay_history_def)
  next
    case kindTrade
    have "0 < warmupTradesReplay" by (simp add: warmupTradesReplay_def)
    from keyset_pages [OF FetchTrades_keyset [OF A(1,2) this]] show ?thesis
      by (simp add: kindTrade newReplayStream_def replay_history_def)
  next
    case kindPrice
    show ?thesis
    proof (cases "asset = ''''")
      case True
      then have "serves (newReplayStream env db asset b k) '''' [] None"
        by (intro serves_end [where n = "''''"]) (simp add: newReplayStream_def kindPrice rows_as_def)
      then show ?thesis using True kindPrice by (intro exI [of _ "[]"]) (simp add: replay_history_def)
    next
      case False
      have "0 < warmupPricesReplay" by (simp add: warmupPricesReplay_def)
      from FetchPrices_keyset [OF A(1,2) this]
      have "keyset_fetch (\<lambda>c. FetchPrices db asset (bt_WindowStart b) (bt_WindowEnd b) c warmupPricesReplay) price_key
          (\<lambda>p. encodeCursor (hd_b64 db) (hp_Timestamp p) (hp_AssetID p)) warmupPricesReplay
          (in_history price_key (bt_WindowStart b) (bt_WindowEnd b) (filter (\<lambda>p. hp_AssetID p = asset) (hd_prices db)))"
        using assms unfolding replayable_def by blast
      from keyset_pages [OF this] show ?thesis using False by (simp add: kindPrice newReplayStream_def replay_history_def)
    qed
  qed
  have "sorted (map candle_ns (candle_rows db (bt_OrderBookID b) s (bt_WindowStart b) (bt_WindowEnd b)))"
    using candle_rows_sorted [OF A(1)] resolutionSeconds_pos [OF A(3)] strict_sorted_iff by blast
  then have "sorted (map candle_ns (served_candles db (bt_OrderBookID b) s (bt_WindowStart b) (bt_WindowEnd b)))"
    unfolding served_candles_def by (rule sorted_filter)
  then show "sorted (map row_ns (replay_history env db asset s b k))"
    using in_history_sorted [of trade_key] in_history_sorted [of price_key]
    by (cases k) (auto simp: replay_history_def row_ns_def candleRow_def tradeRow_def priceRow_def o_def trade_key_def price_key_def inst_id_def)
qed

lemma next_done: "snd (bt_hostNextEvent env (Some nx) n st) = HDone \<Longrightarrow> nx = Inr None"
  by (auto simp: bt_hostNextEvent_def fit_def split: sum.splits option.splits prod.splits if_splits)

lemma plugin_replay:
  assumes R: "replayable db asset s b"
    and run: "job_acts env J (newReplayStream env db asset b) as (streaming_job win cfg) = Some j" and live: "list_all no_cancel as"
  shows "\<exists>later. merged (replay_history env db asset s b) = bj_seen j @ later"
    "job_act env J (newReplayStream env db asset b) (JNextEvent n) j = Some (j1, Some HDone) \<Longrightarrow>
      bj_seen j = merged (replay_history env db asset s b)"
proof -
  let ?F = "newReplayStream env db asset b"
  obtain pages where P: "serves (?F k) '''' (pages k) None" "concat (pages k) = replay_history env db asset s b k" for k
    using replay_served(1) [OF R] by metis
  have hist: "(\<lambda>k. concat (pages k)) = replay_history env db asset s b" using P(2) by blast
  have S: "\<forall>k. serves (?F k) '''' (pages k) ((\<lambda>_. None) k)" "\<forall>k. sorted (map row_ns (concat (pages k)))"
    using P(1) replay_served(2) [OF R] by (simp_all add: P(2))
  obtain m ms where m: "bj_replay j = Some m" "merge_acts ?F ms newMergeStream = Some m" "set ms \<inter> {ACancel, AClose} = {}"
    "ms_out m = bj_seen j @ pending m" using streaming_run [OF run live] by (auto simp: job_inv_def)
  obtain later where later: "merged (replay_history env db asset s b) = ms_out m @ later"
    using merge_replays [OF S m(2,3)] unfolding hist by blast
  then show "\<exists>later. merged (replay_history env db asset s b) = bj_seen j @ later" using m(4) by simp
  assume act: "job_act env J ?F (JNextEvent n) j = Some (j1, Some HDone)"
  then obtain nx where nx: "ms_pc m = MReturn nx" "snd (bt_hostNextEvent env (Some nx) n (bj_state j)) = HDone"
    using m(1) by (auto split: mergePc.splits prod.splits)
  then have "nx = Inr None" using next_done by blast
  then have "ms_out m = merged (\<lambda>k. concat (pages k))" "pending m = []"
    using merge_returned(1) [OF S m(2,3) nx(1)] nx(1) by (simp_all add: pending_def)
  then show "bj_seen j = merged (replay_history env db asset s b)" using m(4) hist by simp
qed

text \<open>A replay that is not cancelled returns no error.\<close>

lemma replay_never_fails:
  assumes R: "replayable db asset s b"
    and run: "job_acts env J (newReplayStream env db asset b) as (streaming_job win cfg) = Some j" and live: "list_all no_cancel as"
    and m: "bj_replay j = Some m" "ms_pc m = MReturn nx"
  shows "nx = Inr None \<or> (\<exists>ev. nx = Inr (Some ev))"
proof (cases "\<exists>ev. nx = Inr (Some ev)")
  case False
  let ?F = "newReplayStream env db asset b"
  obtain pages where P: "serves (?F k) '''' (pages k) None" "concat (pages k) = replay_history env db asset s b k" for k
    using replay_served(1) [OF R] by metis
  have S: "\<forall>k. serves (?F k) '''' (pages k) ((\<lambda>_. None) k)" "\<forall>k. sorted (map row_ns (concat (pages k)))"
    using P(1) replay_served(2) [OF R] by (simp_all add: P(2))
  obtain ms where "merge_acts ?F ms newMergeStream = Some m" "set ms \<inter> {ACancel, AClose} = {}"
    using streaming_run [OF run live] m(1) by (auto simp: job_inv_def)
  from merge_returned(2) [OF S this m(2)] False have "nx = (case first_err kinds (\<lambda>_. None) of None \<Rightarrow> Inr None | Some x \<Rightarrow> Inl x)" by blast
  then show ?thesis by simp
qed simp

text \<open>The text of an event, and the answer to a call that takes it with a buffer of length \<open>n\<close>.\<close>

definition event_text :: "bt_env \<Rightarrow> payload event \<Rightarrow> string" where
  "event_text env ev =
     (case sr_payload (snd ev) of
        PlCandle c \<Rightarrow> be_envelope env ''candle'' (be_candle env c)
      | PlTrade t \<Rightarrow> be_envelope env ''trade'' (be_trade env t)
      | PlPrice p \<Rightarrow> be_envelope env ''price'' (be_price env p))"

definition event_answer :: "bt_env \<Rightarrow> nat \<Rightarrow> payload event \<Rightarrow> host_result" where
  "event_answer env n ev = fit n (event_text env ev) ''event JSON exceeds buffer''"

lemma history_kinds:
  assumes "(k, r) \<in> set (merged (replay_history env db asset s b))"
  shows "(case k of kindCandle \<Rightarrow> \<exists>c. sr_payload r = PlCandle c | kindTrade \<Rightarrow> \<exists>t. sr_payload r = PlTrade t
    | kindPrice \<Rightarrow> \<exists>p. sr_payload r = PlPrice p)"
  using assms by (auto simp: merged_def all_events_def replay_history_def candleRow_def tradeRow_def priceRow_def split: if_splits)

lemma history_answer:
  assumes "ev \<in> set (merged (replay_history env db asset s b))"
  shows "snd (bt_hostNextEvent env (Some (Inr (Some ev))) n st) = event_answer env n ev"
  using history_kinds [of "fst ev" "snd ev" env db asset s b, unfolded prod.collapse, OF assms]
  by (cases "fst ev") (auto simp: bt_hostNextEvent_def streamEventEnvelope_def event_answer_def event_text_def)

lemma event_answers_snoc:
  "job_acts env J fetch as j = Some j1 \<Longrightarrow> event_answers env J fetch (as @ [a]) j = event_answers env J fetch as j @
     (case job_act env J fetch a j1 of Some (j2, Some x) \<Rightarrow> (case a of JNextEvent n \<Rightarrow> [(n, x)] | _ \<Rightarrow> []) | _ \<Rightarrow> [])"
  by (induction as arbitrary: j) (auto split: option.splits job_action.splits)

lemma job_acts_snoc:
  "job_acts env J fetch (as @ [a]) j = (case job_acts env J fetch as j of None \<Rightarrow> None
     | Some j1 \<Rightarrow> map_option fst (job_act env J fetch a j1))"
  by (induction as arbitrary: j) (auto split: option.splits)

text \<open>Calls other than \<open>hostNextEvent\<close> take no event.\<close>

lemma job_act_seen: "job_act env J fetch a j = Some (j1, r) \<Longrightarrow> (\<And>n. a \<noteq> JNextEvent n) \<Longrightarrow> bj_seen j1 = bj_seen j"
  by (cases a) (auto split: option.splits if_splits prod.splits)

definition answered :: "bt_env \<Rightarrow> nat \<times> host_result \<Rightarrow> payload event \<Rightarrow> bool" where
  "answered env x ev \<longleftrightarrow> snd x = event_answer env (fst x) ev"

lemma answered_snoc:
  "list_all2 (answered env) A evs \<Longrightarrow> list_all2 (answered env) (A @ [(n, event_answer env n ev)]) (evs @ [ev])"
  by (rule list_all2_appendI) (simp_all add: answered_def)

lemma answers_of_run:
  assumes R: "replayable db asset s b"
    and run: "job_acts env J (newReplayStream env db asset b) as (streaming_job win cfg) = Some j" and live: "list_all no_cancel as"
  shows "\<exists>A ns. event_answers env J (newReplayStream env db asset b) as (streaming_job win cfg) = A @ map (\<lambda>n. (n, HDone)) ns \<and>
    list_all2 (answered env) A (bj_seen j) \<and> (ns \<noteq> [] \<longrightarrow> bj_seen j = merged (replay_history env db asset s b))"
  using run live
proof (induction as arbitrary: j rule: rev_induct)
  case Nil
  then show ?case by (auto simp: streaming_job_def)
next
  case (snoc a as)
  let ?F = "newReplayStream env db asset b" and ?j0 = "streaming_job win cfg" and ?H = "merged (replay_history env db asset s b)"
  obtain j1 r where run1: "job_acts env J ?F as ?j0 = Some j1" and act: "job_act env J ?F a j1 = Some (j, r)"
    using snoc.prems(1) by (auto simp: job_acts_snoc split: option.splits)
  have live1: "list_all no_cancel as" using snoc.prems(2) by simp
  obtain A ns where A: "event_answers env J ?F as ?j0 = A @ map (\<lambda>n. (n, HDone)) ns" "list_all2 (answered env) A (bj_seen j1)"
    "ns \<noteq> [] \<longrightarrow> bj_seen j1 = ?H" using snoc.IH [OF run1 live1] by blast
  note ans = event_answers_snoc [OF run1, of a]
  show ?case
  proof (cases "\<exists>n. a = JNextEvent n")
    case False
    then have "bj_seen j = bj_seen j1" using job_act_seen [OF act] by blast
    moreover have "event_answers env J ?F (as @ [a]) ?j0 = event_answers env J ?F as ?j0"
      using ans act False by (cases a) (auto split: option.splits)
    ultimately show ?thesis using A by auto
  next
    case True
    then obtain n where n: "a = JNextEvent n" by blast
    obtain m where m: "bj_replay j1 = Some m" using streaming_run [OF run1 live1] by (auto simp: job_inv_def)
    obtain nx where nx: "ms_pc m = MReturn nx" using act m n by (auto split: mergePc.splits)
    let ?x = "snd (bt_hostNextEvent env (Some nx) n (bj_state j1))"
    have r: "r = Some ?x" "bj_seen j = bj_seen j1 @ (case nx of Inr (Some ev) \<Rightarrow> [ev] | _ \<Rightarrow> [])"
      using act m n nx by (auto split: prod.splits)
    have step: "event_answers env J ?F (as @ [a]) ?j0 = A @ map (\<lambda>n. (n, HDone)) ns @ [(n, ?x)]"
      using ans act n r(1) A(1) by simp
    show ?thesis
    proof (cases "\<exists>ev. nx = Inr (Some ev)")
      case True
      then obtain ev where ev: "nx = Inr (Some ev)" by blast
      obtain later where later: "?H = bj_seen j @ later" using plugin_replay(1) [OF R snoc.prems] by blast
      then have "ns = []" "ev \<in> set ?H" using A(3) r(2) ev by auto
      then show ?thesis using step A(2) r(2) ev history_answer [of ev env db asset s b n "bj_state j1"]
        by (intro exI [of _ "A @ [(n, ?x)]"] exI [of _ "[]"]) (simp add: answered_snoc)
    next
      case False
      then have none: "nx = Inr None" using replay_never_fails [OF R run1 live1 m nx] by blast
      then have over: "?x = HDone" by (simp add: bt_hostNextEvent_def)
      have seen: "bj_seen j = bj_seen j1" using r(2) none by simp
      have "bj_seen j1 = ?H" using plugin_replay(2) [OF R run1 live1, of n j] act n r(1) over by simp
      then show ?thesis using step A(2) seen over by (intro exI [of _ A] exI [of _ "ns @ [n]"]) simp
    qed
  qed
qed

text \<open>C9: Whatever a plugin calls and however the three prefetchers are scheduled, as long as the run is not cancelled: its
  calls for an event are answered with the candles, trades and prices of its window in the database, merged by time, each
  once and none missing, as their text; an event whose text is longer than the buffer of its call is answered by an error
  instead and not offered again. After them every call is answered that the replay is over, which no call is before all of
  them. The tables answer, and the candles and prices they hold for the window have all their columns.\<close>

theorem plugin_replays_database:
  assumes "replayable db asset s b"
    and "job_acts env J (newReplayStream env db asset b) as (streaming_job win cfg) = Some j" "list_all no_cancel as"
  shows "\<exists>got later A ns. merged (replay_history env db asset s b) = got @ later \<and>
    event_answers env J (newReplayStream env db asset b) as (streaming_job win cfg) = A @ map (\<lambda>n. (n, HDone)) ns \<and>
    list_all2 (\<lambda>(n, x) ev. x = event_answer env n ev) A got \<and> (ns \<noteq> [] \<longrightarrow> later = [])"
proof -
  have "answered env = (\<lambda>(n, x) ev. x = event_answer env n ev)" by (simp add: fun_eq_iff answered_def)
  then show ?thesis using answers_of_run [OF assms] plugin_replay(1) [OF assms] by (metis append_self_conv)
qed

text \<open>C14: Every order a replayed plugin gets filled is filled at the close of the candle that its last call for an event took
  from the replay, or at its limit if that lies in the range of that candle, for the quantity ordered and under an identifier
  of its own.\<close>

theorem simulated_fills_on_current_candle:
  assumes "job_acts env J fetch as (streaming_job win cfg) = Some j"
  shows "distinct (sim_ids (bj_sims j)) \<and> list_all (sim_ok env (bj_seen j)) (bj_sims j)"
proof -
  have "fills_inv env (streaming_job win cfg)"
    by (simp add: fills_inv_def streaming_job_def new_jobState_def current_candle_def sim_ids_def ids_ok_def)
  from job_acts_fills [OF this assms] show ?thesis using ids_ok_distinct by (auto simp: fills_inv_def)
qed

section \<open>Candles are delivered before they are over\<close>

definition ev_before :: "payload event \<Rightarrow> payload event \<Rightarrow> bool" where
  "ev_before x y \<longleftrightarrow> ev_ns x < ev_ns y \<or> ev_ns x = ev_ns y \<and> fst x \<le> fst y"

lemma insort_before:
  assumes "sorted_wrt ev_before ys" "\<forall>y\<in>set ys. fst x \<le> fst y"
  shows "sorted_wrt ev_before (insort_key ev_ns x ys)"
  using assms
proof (induction ys)
  case (Cons y ys)
  show ?case
  proof (cases "ev_ns x \<le> ev_ns y")
    case True
    have y: "ev_ns y \<le> ev_ns z" if "z \<in> set ys" for z using Cons.prems(1) that by (auto simp: ev_before_def)
    have "ev_before x z" if z: "z \<in> set (y # ys)" for z
    proof -
      have "ev_ns x \<le> ev_ns z" using z True y [of z] by auto
      then show ?thesis using z Cons.prems(2) by (auto simp: ev_before_def)
    qed
    then show ?thesis using True Cons.prems(1) by simp
  next
    case False
    then have "ev_before y x" by (simp add: ev_before_def)
    then show ?thesis using False Cons by (auto simp: set_insort_key)
  qed
qed simp

lemma sort_before: "sorted (map fst xs) \<Longrightarrow> sorted_wrt ev_before (sort_key ev_ns xs)"
proof (induction xs)
  case (Cons x xs)
  then show ?case by (auto intro!: insort_before)
qed simp

lemma merged_before: "sorted_wrt ev_before (merged R)"
proof -
  have const: "sorted (map (\<lambda>x. k) xs)" for k :: eventKind and xs :: "payload srow list" by (induction xs) auto
  have "sorted (map fst (all_events R))"
    using const by (auto simp: all_events_def sorted_append o_def less_imp_le)
  then show ?thesis unfolding merged_def by (rule sort_before)
qed

text \<open>Look-ahead. When the plugin gets a candle, none of the trades since the candle's start have been delivered
  yet, but an order placed at once is filled at the candle's close.\<close>

theorem candle_fill_looks_ahead:
  assumes "replayable db asset s b"
    and "job_acts env J (newReplayStream env db asset b) as (streaming_job win cfg) = Some j" "list_all no_cancel as"
    and seen: "bj_seen j = evs @ [(kindCandle, r)]" "sr_payload r = PlCandle c" and i: "it_Type i = ''market''"
  shows "(\<forall>x\<in>set (bj_seen j). fst x = kindTrade \<longrightarrow> ev_ns x < row_ns r) \<and>
    (\<exists>f. snd (simulateFill env i (bj_state j)) = Inr f \<and> fl_Price f = fc_Close c)"
proof -
  obtain later where "merged (replay_history env db asset s b) = bj_seen j @ later" using plugin_replay(1) [OF assms(1-3)] by blast
  then have "sorted_wrt ev_before (evs @ [(kindCandle, r)])"
    using merged_before [of "replay_history env db asset s b"] seen(1) by (simp add: sorted_wrt_append)
  then have "ev_before x (kindCandle, r)" if "x \<in> set evs" for x using that by (simp add: sorted_wrt_append)
  then have trades: "\<forall>x\<in>set (bj_seen j). fst x = kindTrade \<longrightarrow> ev_ns x < row_ns r"
    by (force simp: seen(1) ev_before_def less_eq_eventKind_def)
  have "fills_inv env (streaming_job win cfg)"
    by (simp add: fills_inv_def streaming_job_def new_jobState_def current_candle_def sim_ids_def ids_ok_def)
  from job_acts_fills [OF this assms(2)] have "js_lastCandle (bj_state j) = Some c"
    by (simp add: fills_inv_def seen current_candle_snoc candle_of_def)
  then show ?thesis using trades i by (simp add: simulateFill_def Let_def)
qed

section \<open>The side of a recorded fill\<close>

text \<open>A recorded fill gets the side of the last order submitted, even if that order was not the one filled: an
  order that fails after it changes its side.\<close>

theorem failed_order_changes_fill_side:
  assumes "simulateFill env i1 st = (st1, Inr f)" "simulateFill env i2 st1 = (st2, Inl e)"
    and "be_decodeFill env mem = Inr f" "be_parseFloat env (fl_Price f) = Inr p" "be_parseFloat env (fl_Quantity f) = Inr q"
  shows "\<exists>bf. js_fills (hostRecordFill env (Some mem) st2) = js_fills st @ [bf] \<and> bf_OrderID bf = fl_OrderID f \<and>
    bf_Price bf = p \<and> bf_Quantity bf = q \<and> bf_Side bf = it_Side i2"
proof -
  obtain c where c: "js_lastCandle st = Some c" using assms(1) by (auto simp: simulateFill_def split: option.splits)
  then have "st1 = st\<lparr>js_currentSide := it_Side i1, js_fillSeq := Suc (js_fillSeq st)\<rparr>"
    using assms(1) by (auto simp: simulateFill_def Let_def)
  moreover from this c have "st2 = st1\<lparr>js_currentSide := it_Side i2, js_fillSeq := Suc (js_fillSeq st1)\<rparr>"
    using assms(2) by (auto simp: simulateFill_def Let_def)
  ultimately show ?thesis using assms(3-5) by (simp add: hostRecordFill_def frameworkFillToBacktest_def)
qed

section \<open>Examples\<close>

definition sample_num :: "rat \<Rightarrow> string" where
  "sample_num q = Itoa (fst (quotient_of q))"

definition sample_intent :: "string \<Rightarrow> string \<Rightarrow> string \<Rightarrow> Intent" where
  "sample_intent side ty price = \<lparr>it_OrderBookID = ''b'', it_Side = side, it_Quantity = ''1'', it_Type = ty, it_Price = price,
     it_InverseLeverage = '''', it_FromGlobalPosition = False\<rparr>"

definition sample_bt_env :: bt_env where
  "sample_bt_env = \<lparr>be_num = sample_num, be_time = (\<lambda>t. ''''), be_setString = (\<lambda>s. map_option of_int (Atoi s)),
     be_parseFloat = (\<lambda>s. case Atoi s of None \<Rightarrow> Inl ''float'' | Some n \<Rightarrow> Inr (Fin (of_int n))), be_now = time_zero,
     be_candle = fc_Close, be_trade = ft_Price, be_price = fp_Price, be_envelope = (\<lambda>ty d. ty @ d), be_fill = fl_OrderID,
     be_decodeIntent = (\<lambda>s. Inr (sample_intent ''buy'' ''market'' '''')),
     be_decodeFill = (\<lambda>s. Inr \<lparr>fl_OrderID = ''sim-0001'', fl_Price = ''2'', fl_Quantity = ''1''\<rparr>),
     be_decodeFetchReq = (\<lambda>s. Inr ('''', 0))\<rparr>"

definition sample_batch :: batch_json where
  "sample_batch = \<lparr>bj_candles = (\<lambda>_. ''''), bj_trades = (\<lambda>_. ''''), bj_prices = (\<lambda>_. '''')\<rparr>"

definition sample_win :: historyWindow where
  "sample_win = \<lparr>hw_candles = [], hw_trades = [], hw_prices = []\<rparr>"

definition sample_job_acts :: "job_action list" where
  "sample_job_acts = map (\<lambda>k. JStream (APrefetch k False)) (concat (map (replicate 3) kinds)) @
     replicate 8 (JStream ANext) @ [JNextEvent 100, JSubmitOrder 100 (Some '''')]"

abbreviation sample_fetch_db :: "eventKind \<Rightarrow> payload fetcher" where
  "sample_fetch_db \<equiv> newReplayStream sample_bt_env (sample_hist_db 60) '''' sample_bt"

lemma sample_replayable: "replayable (sample_hist_db 60) '''' 300 sample_bt"
proof -
  have "list_all (\<lambda>c. candle_complete c \<and> unix_time (hc_Start c))
      (served_candles (sample_hist_db 60) (bt_OrderBookID sample_bt) 300 (bt_WindowStart sample_bt) (bt_WindowEnd sample_bt))"
    by code_simp
  then show ?thesis using sample_hist_wf [of 60]
    by (simp add: replayable_def list_all_iff) (simp add: sample_hist_db_def sample_bt_def resolutionSeconds_def)
qed

lemma sample_job:
  "map_option (\<lambda>j. (bj_seen j, map (\<lambda>(n, i, f). (n, fl_OrderID f)) (bj_sims j)))
     (job_acts sample_bt_env sample_batch sample_fetch_db sample_job_acts (streaming_job sample_win '''')) =
   Some ([(kindCandle, candleRow sample_bt_env (sample_hist_candle 0))], [(1, ''sim-0001'')])"
  by code_simp

lemma sample_job_run:
  obtains j where "job_acts sample_bt_env sample_batch sample_fetch_db sample_job_acts (streaming_job sample_win '''') = Some j"
    "bj_seen j = [(kindCandle, candleRow sample_bt_env (sample_hist_candle 0))]" "sim_ids (bj_sims j) = [''sim-0001'']"
proof -
  obtain j where j: "job_acts sample_bt_env sample_batch sample_fetch_db sample_job_acts (streaming_job sample_win '''') = Some j"
    "(bj_seen j, map (\<lambda>(n, i, f). (n, fl_OrderID f)) (bj_sims j)) =
      ([(kindCandle, candleRow sample_bt_env (sample_hist_candle 0))], [(1, ''sim-0001'')])"
    using sample_job by (auto simp del: map_eq_Cons_conv)
  have s: "map (\<lambda>(n, i, f). (n, fl_OrderID f)) (bj_sims j) = [(1, ''sim-0001'')]" using j(2) by (simp only: prod.inject)
  have "sim_ids (bj_sims j) = map snd (map (\<lambda>(n, i, f). (n, fl_OrderID f)) (bj_sims j))" by (auto simp: sim_ids_def)
  then have "sim_ids (bj_sims j) = [''sim-0001'']" unfolding s by simp
  then show thesis using that [OF j(1)] j(2) by simp
qed

lemma sample_acts_live: "list_all no_cancel sample_job_acts"
  by code_simp

text \<open>Its one call for an event is answered with the candle, which fits.\<close>

theorem plugin_replays_database_witness:
  "\<exists>ev later. merged (replay_history sample_bt_env (sample_hist_db 60) '''' 300 sample_bt) = ev # later \<and>
     event_answers sample_bt_env sample_batch sample_fetch_db sample_job_acts (streaming_job sample_win '''') =
       [(100, HBytes (event_text sample_bt_env ev))]"
proof -
  obtain j where j: "job_acts sample_bt_env sample_batch sample_fetch_db sample_job_acts (streaming_job sample_win '''') = Some j"
    by (rule sample_job_run)
  have ans: "event_answers sample_bt_env sample_batch sample_fetch_db sample_job_acts (streaming_job sample_win '''') =
      [(100, HBytes ''candle2'')]" by code_simp
  obtain got later A ns where g: "merged (replay_history sample_bt_env (sample_hist_db 60) '''' 300 sample_bt) = got @ later"
    "[(100, HBytes ''candle2'')] = A @ map (\<lambda>n. (n, HDone)) ns" "list_all2 (\<lambda>(n, x) ev. x = event_answer sample_bt_env n ev) A got"
    using plugin_replays_database [OF sample_replayable j sample_acts_live] unfolding ans by blast
  have "ns = []" using g(2) by (cases ns rule: rev_cases) auto
  then have A: "A = [(100, HBytes ''candle2'')]" using g(2) by simp
  then obtain ev where "got = [ev]" "event_answer sample_bt_env 100 ev = HBytes ''candle2''"
    using g(3) by (auto simp: list_all2_Cons1)
  then show ?thesis using g(1) ans by (auto simp: event_answer_def fit_def split: if_splits)
qed

theorem simulated_fills_on_current_candle_witness:
  "\<exists>j. job_acts sample_bt_env sample_batch sample_fetch_db sample_job_acts (streaming_job sample_win '''') = Some j \<and>
     sim_ids (bj_sims j) = [''sim-0001''] \<and> list_all (sim_ok sample_bt_env (bj_seen j)) (bj_sims j)"
proof -
  obtain j where "job_acts sample_bt_env sample_batch sample_fetch_db sample_job_acts (streaming_job sample_win '''') = Some j"
    "sim_ids (bj_sims j) = [''sim-0001'']" by (rule sample_job_run)
  then show ?thesis using simulated_fills_on_current_candle by blast
qed

theorem candle_fill_looks_ahead_witness:
  "\<exists>j f. job_acts sample_bt_env sample_batch sample_fetch_db sample_job_acts (streaming_job sample_win '''') = Some j \<and>
     snd (simulateFill sample_bt_env (sample_intent ''buy'' ''market'' '''') (bj_state j)) = Inr f \<and> fl_Price f = ''2''"
proof -
  obtain j where j: "job_acts sample_bt_env sample_batch sample_fetch_db sample_job_acts (streaming_job sample_win '''') = Some j"
    "bj_seen j = [] @ [(kindCandle, candleRow sample_bt_env (sample_hist_candle 0))]" by (rule sample_job_run) auto
  have "sr_payload (candleRow sample_bt_env (sample_hist_candle 0)) =
      PlCandle (historyCandleToFramework sample_bt_env (sample_hist_candle 0))" by (simp add: candleRow_def)
  moreover have "fc_Close (historyCandleToFramework sample_bt_env (sample_hist_candle 0)) = ''2''" by code_simp
  ultimately show ?thesis
    using candle_fill_looks_ahead [OF sample_replayable j(1) sample_acts_live j(2), of _ "sample_intent ''buy'' ''market'' ''''"] j(1)
    by (auto simp: sample_intent_def)
qed

definition sample_candle_state :: jobState where
  "sample_candle_state = deliver_candle sample_fw_candle (new_jobState sample_win [] '''')"

theorem failed_order_changes_fill_side_witness:
  "\<exists>st2 bf. js_fills (hostRecordFill sample_bt_env (Some '''') st2) = [bf] \<and> bf_OrderID bf = ''sim-0001'' \<and> bf_Side bf = ''sell''"
proof -
  let ?i1 = "sample_intent ''buy'' ''market'' ''''" and ?i2 = "sample_intent ''sell'' ''limit'' ''9''"
  let ?f = "\<lparr>fl_OrderID = ''sim-0001'', fl_Price = ''2'', fl_Quantity = ''1''\<rparr>"
  let ?st1 = "fst (simulateFill sample_bt_env ?i1 sample_candle_state)"
  let ?st2 = "fst (simulateFill sample_bt_env ?i2 ?st1)"
  have "simulateFill sample_bt_env ?i1 sample_candle_state = (?st1, Inr ?f)" by code_simp
  moreover have "simulateFill sample_bt_env ?i2 ?st1 = (?st2, Inl ''limit price not within candle range'')" by code_simp
  moreover have "be_decodeFill sample_bt_env '''' = Inr ?f" "be_parseFloat sample_bt_env (fl_Price ?f) = Inr (Fin 2)"
    "be_parseFloat sample_bt_env (fl_Quantity ?f) = Inr (Fin 1)" by code_simp+
  moreover have "js_fills sample_candle_state = []" "it_Side ?i2 = ''sell''" by code_simp+
  ultimately show ?thesis using failed_order_changes_fill_side by fastforce
qed

end
