(* ===== verification/Backtest_Jobs_Props.thy ===== *)
theory Backtest_Jobs_Props
  imports Backtest_Jobs Plugin_Backtest_Props
begin

text \<open>
  Properties of backtest jobs: one active job per user, the life of a job that is not cancelled, when a
  cancellation holds and when it is lost, lists, stored fills and polling.
\<close>

section \<open>Rows\<close>

definition inflight :: "bt_db \<Rightarrow> bool" where
  "inflight db \<longleftrightarrow> distinct (map br_ID (bd_rows db)) \<and>
     (\<forall>r\<in>set (bd_rows db). \<forall>r'\<in>set (bd_rows db). active (br_Status r) \<and> active (br_Status r') \<and>
        br_UserID r = br_UserID r' \<longrightarrow> br_ID r = br_ID r')"

lemma find_rowD: "find_row i db = Some r \<Longrightarrow> r \<in> set (bd_rows db) \<and> br_ID r = i"
  by (auto simp: find_row_def find_Some_iff)

lemma find_rowI: "distinct (map br_ID (bd_rows db)) \<Longrightarrow> r \<in> set (bd_rows db) \<Longrightarrow> find_row (br_ID r) db = Some r"
proof -
  have "distinct (map br_ID rs) \<Longrightarrow> r \<in> set rs \<Longrightarrow> find (\<lambda>x. br_ID x = br_ID r) rs = Some r" for rs
    by (induction rs) auto
  then show "distinct (map br_ID (bd_rows db)) \<Longrightarrow> r \<in> set (bd_rows db) \<Longrightarrow> find_row (br_ID r) db = Some r"
    by (simp add: find_row_def)
qed

lemma find_row_None: "find_row i db = None \<longleftrightarrow> i \<notin> br_ID ` set (bd_rows db)"
  by (auto simp: find_row_def find_None_iff)

lemma find_map:
  "\<forall>r. br_ID (f r) = br_ID r \<Longrightarrow> find (\<lambda>r. br_ID r = i) (map f rs) = map_option f (find (\<lambda>r. br_ID r = i) rs)"
  by (induction rs) auto

lemma find_row_update:
  assumes "\<forall>r. br_ID (f r) = br_ID r"
  shows "find_row j (update_row i f db) = (if i = j then map_option f (find_row j db) else find_row j db)"
proof -
  have "find_row j (update_row i f db) = map_option (\<lambda>r. if br_ID r = i then f r else r) (find_row j db)"
    unfolding find_row_def update_row_def using assms by (simp add: find_map)
  then show ?thesis by (cases "find_row j db") (auto dest: find_rowD)
qed

lemma update_row_ids: "\<forall>r. br_ID (f r) = br_ID r \<Longrightarrow> map br_ID (bd_rows (update_row i f db)) = map br_ID (bd_rows db)"
  by (simp add: update_row_def o_def)

lemma inflightD:
  "inflight db \<Longrightarrow> r \<in> set (bd_rows db) \<Longrightarrow> r' \<in> set (bd_rows db) \<Longrightarrow> active (br_Status r) \<Longrightarrow> active (br_Status r') \<Longrightarrow>
    br_UserID r = br_UserID r' \<Longrightarrow> br_ID r = br_ID r'"
  unfolding inflight_def by meson

lemma inflightI:
  assumes "distinct (map br_ID (bd_rows db))"
    and "\<And>r r'. r \<in> set (bd_rows db) \<Longrightarrow> r' \<in> set (bd_rows db) \<Longrightarrow> active (br_Status r) \<Longrightarrow> active (br_Status r') \<Longrightarrow>
      br_UserID r = br_UserID r' \<Longrightarrow> br_ID r = br_ID r'"
  shows "inflight db"
  unfolding inflight_def using assms by meson

lemma inflight_distinct: "inflight db \<Longrightarrow> distinct (map br_ID (bd_rows db))"
  by (simp add: inflight_def)

lemma active_otherI: "r \<in> set (bd_rows db) \<Longrightarrow> br_ID r \<noteq> i \<Longrightarrow> br_UserID r = u \<Longrightarrow> active (br_Status r) \<Longrightarrow> active_other i u db"
  by (auto simp: active_other_def)

definition keeps_key :: "(bt_row \<Rightarrow> bt_row) \<Rightarrow> bool" where
  "keeps_key f \<longleftrightarrow> (\<forall>r. br_ID (f r) = br_ID r \<and> br_UserID (f r) = br_UserID r)"

lemma inflight_update:
  assumes inv: "inflight db" and f: "keeps_key f"
    and act: "\<And>r. find_row i db = Some r \<Longrightarrow> active (br_Status (f r)) \<Longrightarrow> active (br_Status r) \<or> \<not> active_other i (br_UserID r) db"
  shows "inflight (update_row i f db)"
proof -
  define g where "g r = (if br_ID r = i then f r else r)" for r
  have g: "br_ID (g r) = br_ID r" "br_UserID (g r) = br_UserID r" for r using f by (simp_all add: g_def keeps_key_def)
  have clash: False
    if x: "x \<in> set (bd_rows db)" "y \<in> set (bd_rows db)" "br_ID x = i" "br_ID y \<noteq> i" "active (br_Status (f x))"
      "active (br_Status y)" "br_UserID x = br_UserID y" for x y
  proof -
    have fx: "find_row i db = Some x" using find_rowI [OF inflight_distinct [OF inv] x(1)] x(3) by simp
    have "active_other i (br_UserID x) db" using active_otherI [OF x(2,4) _ x(6)] x(7) by simp
    then have "active (br_Status x)" using act [OF fx x(5)] by simp
    from inflightD [OF inv x(1,2) this x(6,7)] show False using x(3,4) by simp
  qed
  have same: "br_ID r = br_ID r'"
    if r: "r \<in> set (bd_rows db)" "r' \<in> set (bd_rows db)" "active (br_Status (g r))" "active (br_Status (g r'))" "br_UserID r = br_UserID r'" for r r'
  proof (cases "br_ID r = i"; cases "br_ID r' = i")
    assume "br_ID r = i" "br_ID r' \<noteq> i"
    then show ?thesis using clash [OF r(1,2)] r by (simp add: g_def)
  next
    assume "br_ID r \<noteq> i" "br_ID r' = i"
    then show ?thesis using clash [OF r(2,1)] r by (simp add: g_def)
  next
    assume "br_ID r \<noteq> i" "br_ID r' \<noteq> i"
    then show ?thesis using inflightD [OF inv r(1,2)] r by (simp add: g_def)
  qed simp
  have rows: "bd_rows (update_row i f db) = map g (bd_rows db)" by (simp add: update_row_def g_def [abs_def])
  show ?thesis
  proof (rule inflightI)
    show "distinct (map br_ID (bd_rows (update_row i f db)))" using inflight_distinct [OF inv] g by (simp add: rows o_def)
    fix x y
    assume "x \<in> set (bd_rows (update_row i f db))" "y \<in> set (bd_rows (update_row i f db))"
    then obtain r r' where r: "r \<in> set (bd_rows db)" "x = g r" "r' \<in> set (bd_rows db)" "y = g r'" by (auto simp: rows)
    assume "active (br_Status x)" "active (br_Status y)" "br_UserID x = br_UserID y"
    then have "br_ID r = br_ID r'" using same [OF r(1,3)] r(2,4) g by simp
    then show "br_ID x = br_ID y" using r(2,4) g by simp
  qed
qed

lemma Create_inflight:
  assumes inv: "inflight db" and c: "bt_Create ok now s user b db = Inr db1"
  shows "inflight db1"
proof -
  obtain N where N: "bd_rows db1 = bd_rows db @ [N]" "br_ID N = bt_ID b" "br_UserID N = user"
    and new: "bt_ID b \<notin> br_ID ` set (bd_rows db)" "\<not> active_other (bt_ID b) user db"
    using c by (auto simp: bt_Create_def split: if_splits)
  have other: False if "r \<in> set (bd_rows db)" "active (br_Status r)" "br_UserID r = user" for r
  proof -
    have "br_ID r \<noteq> bt_ID b" using new(1) that(1) by (metis imageI)
    from active_otherI [OF that(1) this that(3,2)] show False using new(2) by simp
  qed
  show ?thesis
  proof (rule inflightI)
    show "distinct (map br_ID (bd_rows db1))" using inflight_distinct [OF inv] new(1) by (simp add: N)
    fix r r'
    assume r: "r \<in> set (bd_rows db1)" "r' \<in> set (bd_rows db1)" "active (br_Status r)" "active (br_Status r')" "br_UserID r = br_UserID r'"
    show "br_ID r = br_ID r'"
    proof (cases "r = N \<or> r' = N")
      case True
      then show ?thesis using other [of r] other [of r'] r N by auto
    next
      case False
      then have "r \<in> set (bd_rows db)" "r' \<in> set (bd_rows db)" using r(1,2) N(1) by auto
      from inflightD [OF inv this r(3-5)] show ?thesis .
    qed
  qed
qed

lemma UpdateStatus_inflight:
  assumes inv: "inflight db" and c: "bt_UpdateStatus ok i st s f m db = Inr db1"
  shows "inflight db1"
proof (cases "find_row i db")
  case None
  then show ?thesis using assms by (auto simp: bt_UpdateStatus_def split: if_splits)
next
  case (Some r)
  let ?f = "\<lambda>r. r\<lparr>br_Status := st, br_StartedAt := or_keep s (br_StartedAt r), br_FinishedAt := or_keep f (br_FinishedAt r),
    br_ErrorMessage := nullif_empty m\<rparr>"
  have "db1 = update_row i ?f db" "\<not> (active st \<and> active_other i (br_UserID r) db)"
    using c Some by (auto simp: bt_UpdateStatus_def split: if_splits)
  moreover have "keeps_key ?f" by (simp add: keeps_key_def)
  ultimately show ?thesis using Some by (auto intro!: inflight_update [OF inv])
qed

lemma inactive_update_inflight:
  assumes "inflight db" "keeps_key f" "\<And>r. \<not> active (br_Status (f r))"
  shows "inflight (update_row i f db)"
  using assms by (intro inflight_update) auto

lemma SetSummary_inflight: "inflight db \<Longrightarrow> bt_SetSummary ok now i s n db = Inr db1 \<Longrightarrow> inflight db1"
  by (auto simp: bt_SetSummary_def keeps_key_def active_def split: if_splits intro!: inactive_update_inflight)

lemma Cancel_inflight: "inflight db \<Longrightarrow> bt_CancelIfRunning ok now i db = Inr (db1, w) \<Longrightarrow> inflight db1"
  by (auto simp: bt_CancelIfRunning_def keeps_key_def active_def split: if_splits option.splits intro!: inactive_update_inflight)

lemma InsertFills_rows: "bt_InsertFills ok num8 ids i fills db = Inr db1 \<Longrightarrow> bd_rows db1 = bd_rows db"
  by (auto simp: bt_InsertFills_def split: if_splits)

lemma inflight_rows: "bd_rows db1 = bd_rows db \<Longrightarrow> inflight db1 = inflight db"
  by (simp add: inflight_def)

definition orphaned_row :: "gtime \<Rightarrow> bt_row \<Rightarrow> bt_row" where
  "orphaned_row now r = (if active (br_Status r)
     then r\<lparr>br_Status := StFailed, br_FinishedAt := Some now, br_ErrorMessage := Some ''agent restarted''\<rparr> else r)"

lemma FailOrphaned_rows:
  "FailOrphaned ok now db = Inr (db1, n) \<Longrightarrow> bd_rows db1 = map (orphaned_row now) (bd_rows db)"
  by (auto simp: FailOrphaned_def orphaned_row_def split: if_splits)

lemma orphaned_row_simps [simp]: "br_ID (orphaned_row now r) = br_ID r" "\<not> active (br_Status (orphaned_row now r))"
  by (auto simp: orphaned_row_def active_def)

lemma FailOrphaned_inflight: "inflight db \<Longrightarrow> FailOrphaned ok now db = Inr (db1, n) \<Longrightarrow> inflight db1"
  using FailOrphaned_rows [of ok now db db1 n] by (auto simp: inflight_def o_def)

section \<open>Reachable states\<close>

lemma goto_db [simp]: "sy_db (goto i pc sy) = sy_db sy" "sy_cancelled (goto i pc sy) = sy_cancelled sy" "sy_jobs (goto i pc sy) = sy_jobs sy"
  "sy_signals (goto i pc sy) = sy_signals sy" "sy_bt (goto i pc sy) = sy_bt sy"
  by (simp_all add: goto_def)

lemma cancel_job_db [simp]: "sy_db (cancel_job i sy) = sy_db sy" "sy_pc (cancel_job i sy) = sy_pc sy" "sy_signals (cancel_job i sy) = sy_signals sy"
  by (simp_all add: cancel_job_def)

lemma RegisterJob_db [simp]: "sy_db (RegisterJob i sy) = sy_db sy" "sy_pc (RegisterJob i sy) = sy_pc sy"
  by (simp_all add: RegisterJob_def)

lemma after_db_inflight:
  assumes "inflight (sy_db sy)" "\<And>db. r = Inr db \<Longrightarrow> inflight db"
  shows "inflight (sy_db (after_db r (goto i a) (goto i b) sy))"
  using assms by (auto simp: after_db_def split: sum.splits)

lemma job_step_inflight:
  assumes inv: "inflight (sy_db sy)" and step: "job_step env ok now ids outcome i sy = Some sy1"
  shows "inflight (sy_db sy1)"
proof -
  obtain pc where pc: "sy_pc sy i = Some pc" using step by (auto simp: job_step_def split: option.splits)
  note A = after_db_inflight [OF inv]
  show ?thesis
  proof (cases pc)
    case PcRun
    then show ?thesis using step inv pc by (cases outcome) (auto simp: job_step_def split: if_splits)
  next
    case (PcFills fills)
    show ?thesis using step pc PcFills A [OF inflight_rows [OF InsertFills_rows, THEN iffD2, OF _ inv]]
      by (auto simp: job_step_def)
  next
    case (PcSummary fills)
    show ?thesis using step pc PcSummary A [OF SetSummary_inflight [OF inv]] by (auto simp: job_step_def)
  qed (use step pc inv A [OF UpdateStatus_inflight [OF inv]] in \<open>auto simp: job_step_def Let_def\<close>)
qed

lemma sys_act_inflight: "inflight (sy_db sy) \<Longrightarrow> sys_act env a sy = Some sy1 \<Longrightarrow> inflight (sy_db sy1)"
proof (cases a)
  case (ARestart ok now)
  assume inv: "inflight (sy_db sy)" and "sys_act env a sy = Some sy1"
  then have "sy1 = restart ok now sy" using ARestart by simp
  then show ?thesis using inv FailOrphaned_inflight [OF inv]
    by (auto simp: restart_def Let_def split: sum.splits)
next
  case (ASubmit ok now i user s w req)
  assume "inflight (sy_db sy)" "sys_act env a sy = Some sy1"
  then show ?thesis using Create_inflight [of "sy_db sy"] ASubmit
    by (auto simp: Submit_def split: option.splits if_splits sum.splits)
next
  case (ACancelRow ok now user i)
  assume "inflight (sy_db sy)" "sys_act env a sy = Some sy1"
  then show ?thesis using Cancel_inflight [of "sy_db sy"] ACancelRow
    by (auto simp: cancel_row_def split: if_splits sum.splits)
next
  case (AStep ok now ids outcome i)
  assume "inflight (sy_db sy)" "sys_act env a sy = Some sy1"
  then show ?thesis using job_step_inflight AStep by simp
qed (auto simp: CancelAll_def split: if_splits)

lemma sys_acts_inflight: "inflight (sy_db sy) \<Longrightarrow> sys_acts env as sy = Some sy1 \<Longrightarrow> inflight (sy_db sy1)"
proof (induction as arbitrary: sy)
  case (Cons a as)
  then obtain sy2 where "sys_act env a sy = Some sy2" "sys_acts env as sy2 = Some sy1" by (auto simp: bind_eq_Some_conv)
  then show ?case using Cons.IH sys_act_inflight Cons.prems(1) by blast
qed simp

text \<open>C13: Whatever is submitted, cancelled, restarted and in whatever order the goroutines move, a user never has two
  active backtests, and identifiers stay unique.\<close>

theorem single_inflight_backtest:
  assumes "sys_acts env as empty_sys = Some sy"
  shows "inflight (sy_db sy)"
  by (rule sys_acts_inflight [OF _ assms]) (simp add: empty_sys_def inflight_def)

section \<open>The life of a job\<close>

definition finished_row :: "bt_row \<Rightarrow> bool" where
  "finished_row r \<longleftrightarrow> br_Status r = StSucceeded \<and> br_Summary r \<noteq> None \<and> br_FillCount r \<noteq> None \<and> br_FinishedAt r \<noteq> None \<or>
     br_Status r = StFailed"

definition pc_row :: "job_pc \<Rightarrow> bt_row \<Rightarrow> bool" where
  "pc_row pc r \<longleftrightarrow>
     (case pc of
        PcRegister \<Rightarrow> br_Status r = StQueued
      | PcStart \<Rightarrow> br_Status r = StQueued
      | PcEnd \<Rightarrow> finished_row r
      | _ \<Rightarrow> br_Status r = StRunning)"

definition life_inv :: "job_sys \<Rightarrow> bool" where
  "life_inv sy \<longleftrightarrow> inflight (sy_db sy) \<and>
     (\<forall>i pc. sy_pc sy i = Some pc \<longrightarrow> (\<exists>r. find_row i (sy_db sy) = Some r \<and> pc_row pc r) \<and> (pc = PcRegister \<or> \<not> sy_cancelled sy i)) \<and>
     (\<forall>i r. sy_pc sy i = None \<longrightarrow> find_row i (sy_db sy) = Some r \<longrightarrow> finished_row r)"

text \<open>No cancellation, no restart, and the database answers the statements of the jobs.\<close>

fun undisturbed :: "sys_action \<Rightarrow> bool" where
  "undisturbed (ASubmit ok now i user strategyID wasmRef req) = True"
| "undisturbed (AStep ok now ids outcome i) = ok"
| "undisturbed _ = False"

lemma life_step:
  assumes inv: "life_inv sy" and db: "inflight (sy_db sy1)" "\<And>j. j \<noteq> i \<Longrightarrow> find_row j (sy_db sy1) = find_row j (sy_db sy)"
    and pc: "sy_pc sy1 = (sy_pc sy)(i \<mapsto> pc1)" and row: "find_row i (sy_db sy1) = Some r1" "pc_row pc1 r1"
    and ctx: "\<And>j. j \<noteq> i \<Longrightarrow> sy_cancelled sy1 j = sy_cancelled sy j" "pc1 = PcRegister \<or> \<not> sy_cancelled sy1 i"
  shows "life_inv sy1"
  unfolding life_inv_def
proof (intro conjI allI impI)
  fix j p
  assume j: "sy_pc sy1 j = Some p"
  show "\<exists>r. find_row j (sy_db sy1) = Some r \<and> pc_row p r"
    using j pc row db(2) [of j] inv by (cases "j = i") (auto simp: life_inv_def)
  show "p = PcRegister \<or> \<not> sy_cancelled sy1 j" using j pc ctx inv by (cases "j = i") (auto simp: life_inv_def)
next
  fix j r
  assume "sy_pc sy1 j = None" "find_row j (sy_db sy1) = Some r"
  then show "finished_row r" using pc db(2) [of j] inv by (cases "j = i") (auto simp: life_inv_def)
qed (rule db(1))

lemma UpdateStatus_row:
  assumes "bt_UpdateStatus ok i st s f m db = Inr db1" "find_row i db = Some r"
  shows "\<exists>r1. find_row i db1 = Some r1 \<and> br_Status r1 = st" "j \<noteq> i \<Longrightarrow> find_row j db1 = find_row j db"
  using assms by (auto simp: bt_UpdateStatus_def find_row_update split: if_splits)

lemma SetSummary_row:
  assumes "bt_SetSummary ok now i s n db = Inr db1" "find_row i db = Some r"
  shows "\<exists>r1. find_row i db1 = Some r1 \<and> finished_row r1 \<and> br_Status r1 = StSucceeded" "j \<noteq> i \<Longrightarrow> find_row j db1 = find_row j db"
  using assms by (auto simp: bt_SetSummary_def find_row_update finished_row_def split: if_splits)

lemma no_other_active:
  assumes inv: "inflight db" and r: "find_row i db = Some r" "active (br_Status r)"
  shows "\<not> active_other i (br_UserID r) db"
  unfolding active_other_def using inflightD [OF inv] find_rowD [OF r(1)] r(2) by metis

lemma UpdateStatus_ok:
  assumes "inflight db" "find_row i db = Some r" "active (br_Status r)"
  shows "\<exists>db1. bt_UpdateStatus True i st s f m db = Inr db1"
  using no_other_active [OF assms] assms(2) by (simp add: bt_UpdateStatus_def)

lemma same_find: "bd_rows db1 = bd_rows db \<Longrightarrow> find_row i db1 = find_row i db"
  by (simp add: find_row_def)

lemma job_step_life:
  assumes inv: "life_inv sy" and step: "job_step env True now ids outcome i sy = Some sy1"
  shows "life_inv sy1"
proof -
  obtain pc where pc: "sy_pc sy i = Some pc" using step by (auto simp: job_step_def split: option.splits)
  have I: "inflight (sy_db sy)" using inv by (simp add: life_inv_def)
  obtain r where r: "find_row i (sy_db sy) = Some r" "pc_row pc r" and live: "pc = PcRegister \<or> \<not> sy_cancelled sy i"
    using inv pc unfolding life_inv_def by blast
  have I1: "inflight (sy_db sy1)" by (rule job_step_inflight [OF I step])
  note L = life_step [OF inv I1]
  show ?thesis
  proof (cases pc)
    case PcRegister
    then have "sy1 = goto i PcStart (RegisterJob i sy)" using step pc by (simp add: job_step_def)
    then show ?thesis using r PcRegister by (intro L [of i PcStart r]) (auto simp: goto_def RegisterJob_def pc_row_def)
  next
    case PcStart
    then have a: "active (br_Status r)" using r(2) by (simp add: pc_row_def active_def)
    obtain db1 where u: "bt_UpdateStatus True i StRunning (Some now) None '''' (sy_db sy) = Inr db1"
      using UpdateStatus_ok [OF I r(1) a] by blast
    have sy1: "sy1 = goto i PcRun (sy\<lparr>sy_db := db1\<rparr>)" using step pc PcStart live u by (simp add: job_step_def after_db_def on_ctx_def)
    obtain r1 where "find_row i db1 = Some r1" "br_Status r1 = StRunning" using UpdateStatus_row(1) [OF u r(1)] by blast
    then show ?thesis using UpdateStatus_row(2) [OF u r(1)] live PcStart
      by (intro L [of i PcRun r1]) (auto simp: sy1 goto_def pc_row_def)
  next
    case PcRun
    obtain pc1 where "sy1 = goto i pc1 sy" "pc_row pc1 r"
      using step pc PcRun r(2) live by (cases outcome) (auto simp: job_step_def pc_row_def split: if_splits)
    then show ?thesis using r live PcRun by (intro L [of i pc1 r]) (auto simp: goto_def)
  next
    case (PcFills fills)
    show ?thesis
    proof (cases "bt_InsertFills True (se_num8 env) ids i fills (sy_db sy)")
      case (Inl e)
      then have "sy1 = goto i (PcFail ''persist fills'') sy" using step pc PcFills live by (simp add: job_step_def after_db_def on_ctx_def)
      then show ?thesis using r live PcFills by (intro L [of i "PcFail ''persist fills''" r]) (auto simp: goto_def pc_row_def)
    next
      case (Inr db1)
      then have sy1: "sy1 = goto i (PcSummary fills) (sy\<lparr>sy_db := db1\<rparr>)" using step pc PcFills live by (simp add: job_step_def after_db_def on_ctx_def)
      have "find_row j db1 = find_row j (sy_db sy)" for j by (rule same_find [OF InsertFills_rows [OF Inr]])
      then show ?thesis using r live PcFills by (intro L [of i "PcSummary fills" r]) (auto simp: sy1 goto_def pc_row_def)
    qed
  next
    case (PcSummary fills)
    let ?S = "Compute (se_rnd env) (se_sqrt env) fills (initial_capital (se_bt env) (bt_Params (sy_bt sy i)))"
    show ?thesis
    proof (cases "bt_SetSummary True now i ?S (length fills) (sy_db sy)")
      case (Inl e)
      then have "sy1 = goto i (PcFail ''persist summary'') sy" using step pc PcSummary live by (simp add: job_step_def after_db_def on_ctx_def)
      then show ?thesis using r live PcSummary by (intro L [of i "PcFail ''persist summary''" r]) (auto simp: goto_def pc_row_def)
    next
      case (Inr db1)
      then have sy1: "sy1 = goto i PcEnd (sy\<lparr>sy_db := db1\<rparr>)" using step pc PcSummary live by (simp add: job_step_def after_db_def on_ctx_def)
      obtain r1 where "find_row i db1 = Some r1" "finished_row r1" using SetSummary_row(1) [OF Inr r(1)] by blast
      then show ?thesis using SetSummary_row(2) [OF Inr r(1)] live PcSummary
        by (intro L [of i PcEnd r1]) (auto simp: sy1 goto_def pc_row_def)
    qed
  next
    case PcEnd
    then have sy1: "sy_pc sy1 = (sy_pc sy)(i := None)" "sy_db sy1 = sy_db sy" "\<And>j. j \<noteq> i \<Longrightarrow> sy_cancelled sy1 j = sy_cancelled sy j"
      using step pc by (cases "i \<in> sy_jobs sy"; auto simp: job_step_def Let_def cancel_job_def)+
    have "finished_row r" using r(2) PcEnd by (simp add: pc_row_def)
    then show ?thesis using inv r(1) unfolding life_inv_def sy1 by (metis fun_upd_apply option.distinct(1) option.inject sy1(3))
  next
    case (PcFail msg)
    then have a: "active (br_Status r)" using r(2) by (simp add: pc_row_def active_def)
    obtain db1 where u: "bt_UpdateStatus True i StFailed None (Some now) msg (sy_db sy) = Inr db1"
      using UpdateStatus_ok [OF I r(1) a] by blast
    have sy1: "sy1 = goto i PcEnd (sy\<lparr>sy_db := db1\<rparr>)" using step pc PcFail live u by (simp add: job_step_def after_db_def on_ctx_def)
    obtain r1 where "find_row i db1 = Some r1" "br_Status r1 = StFailed" using UpdateStatus_row(1) [OF u r(1)] by blast
    then show ?thesis using UpdateStatus_row(2) [OF u r(1)] live PcFail
      by (intro L [of i PcEnd r1]) (auto simp: sy1 goto_def pc_row_def finished_row_def)
  next
    case (PcPanic msg)
    then have a: "active (br_Status r)" using r(2) by (simp add: pc_row_def active_def)
    obtain db1 where u: "bt_UpdateStatus True i StFailed None None msg (sy_db sy) = Inr db1"
      using UpdateStatus_ok [OF I r(1) a] by blast
    have sy1: "sy1 = goto i PcEnd (sy\<lparr>sy_db := db1\<rparr>)" using step pc PcPanic u by (simp add: job_step_def after_db_def)
    obtain r1 where "find_row i db1 = Some r1" "br_Status r1 = StFailed" using UpdateStatus_row(1) [OF u r(1)] by blast
    then show ?thesis using UpdateStatus_row(2) [OF u r(1)] live PcPanic
      by (intro L [of i PcEnd r1]) (auto simp: sy1 goto_def pc_row_def finished_row_def)
  qed
qed

lemma Create_row:
  assumes "bt_Create ok now s user b db = Inr db1"
  shows "find_row (bt_ID b) db = None" "\<exists>r. find_row (bt_ID b) db1 = Some r \<and> br_Status r = StQueued"
    "j \<noteq> bt_ID b \<Longrightarrow> find_row j db1 = find_row j db"
proof -
  obtain N where N: "bd_rows db1 = bd_rows db @ [N]" "br_ID N = bt_ID b" "br_Status N = StQueued" and new: "bt_ID b \<notin> br_ID ` set (bd_rows db)"
    using assms by (auto simp: bt_Create_def split: if_splits)
  show none: "find_row (bt_ID b) db = None" using new find_row_None by blast
  have app: "find P (xs @ [x]) = (case find P xs of None \<Rightarrow> if P x then Some x else None | Some y \<Rightarrow> Some y)" for P xs and x :: bt_row
    by (induction xs) auto
  show "\<exists>r. find_row (bt_ID b) db1 = Some r \<and> br_Status r = StQueued"
    using none N by (simp add: find_row_def app)
  show "find_row j db1 = find_row j db" if "j \<noteq> bt_ID b"
    using that N by (simp add: find_row_def app split: option.splits)
qed

lemma submit_life:
  assumes inv: "life_inv sy"
  shows "life_inv (fst (Submit ok now i user s w req sy))"
proof (cases "fst (Submit ok now i user s w req sy) = sy")
  case False
  then obtain r db where d: "req = Some r" "bt_Create ok now s user (request_backtest i r) (sy_db sy) = Inr db"
    "fst (Submit ok now i user s w req sy) =
      sy\<lparr>sy_db := db, sy_pc := (sy_pc sy)(i \<mapsto> PcRegister), sy_bt := (sy_bt sy)(i := request_backtest i r)\<rparr>"
    by (auto simp: Submit_def split: option.splits if_splits sum.splits)
  have i: "bt_ID (request_backtest i r) = i" by (simp add: request_backtest_def)
  have "inflight db" using Create_inflight [OF _ d(2)] inv by (simp add: life_inv_def)
  moreover obtain r1 where "find_row i db = Some r1" "br_Status r1 = StQueued" using Create_row(2) [OF d(2)] i by auto
  ultimately show ?thesis using Create_row(3) [OF d(2)] i
    by (intro life_step [OF inv, of _ i PcRegister r1]) (auto simp: d(3) pc_row_def)
qed (use inv in simp)

lemma sys_act_life: "life_inv sy \<Longrightarrow> undisturbed a \<Longrightarrow> sys_act env a sy = Some sy1 \<Longrightarrow> life_inv sy1"
  by (cases a) (auto simp: submit_life job_step_life)

lemma sys_acts_life: "life_inv sy \<Longrightarrow> list_all undisturbed as \<Longrightarrow> sys_acts env as sy = Some sy1 \<Longrightarrow> life_inv sy1"
proof (induction as arbitrary: sy)
  case (Cons a as)
  then obtain sy2 where "sys_act env a sy = Some sy2" "sys_acts env as sy2 = Some sy1" by (auto simp: bind_eq_Some_conv)
  then show ?case using Cons.IH sys_act_life Cons.prems(1,2) by simp blast
qed simp

text \<open>Every step of a goroutine brings it closer to its end.\<close>

definition pc_rank :: "job_pc option \<Rightarrow> nat" where
  "pc_rank p = (case p of None \<Rightarrow> 0 | Some PcRegister \<Rightarrow> 7 | Some PcStart \<Rightarrow> 6 | Some PcRun \<Rightarrow> 5 | Some (PcFills _) \<Rightarrow> 4
     | Some (PcSummary _) \<Rightarrow> 3 | Some (PcFail _) \<Rightarrow> 2 | Some (PcPanic _) \<Rightarrow> 2 | Some PcEnd \<Rightarrow> 1)"

lemma job_step_rank:
  assumes "sy_pc sy i = Some pc"
  shows "\<exists>sy1. job_step env ok now ids outcome i sy = Some sy1 \<and> pc_rank (sy_pc sy1 i) < pc_rank (sy_pc sy i)"
proof (cases pc)
  case PcRun
  then show ?thesis using assms by (cases outcome) (auto simp: job_step_def pc_rank_def goto_def)
qed (use assms in \<open>auto simp: job_step_def pc_rank_def goto_def after_db_def Let_def split: sum.splits\<close>)

text \<open>In a history without cancellations and restarts, whose database answers, every job goes from queued to running
  to an end: while its goroutine is alive the row is queued or running, each of its at most seven steps is
  possible and brings it closer to the end, and when it is gone the job has failed, or has succeeded
  with its summary, fill count and time of completion.\<close>

theorem backtest_job_life:
  assumes "list_all undisturbed as" "sys_acts env as empty_sys = Some sy" "find_row i (sy_db sy) = Some r"
  shows "(case sy_pc sy i of
       None \<Rightarrow> finished_row r
     | Some pc \<Rightarrow> pc_row pc r \<and> pc_rank (sy_pc sy i) \<le> 7 \<and>
         (\<forall>ok now ids outcome. \<exists>sy1. job_step env ok now ids outcome i sy = Some sy1 \<and>
            pc_rank (sy_pc sy1 i) < pc_rank (sy_pc sy i)))"
proof -
  have "life_inv empty_sys" by (simp add: life_inv_def empty_sys_def inflight_def find_row_def)
  from sys_acts_life [OF this assms(1,2)] have inv: "life_inv sy" .
  show ?thesis
  proof (cases "sy_pc sy i")
    case None
    then show ?thesis using inv assms(3) by (simp add: life_inv_def)
  next
    case (Some pc)
    then obtain r1 where "find_row i (sy_db sy) = Some r1" "pc_row pc r1" using inv unfolding life_inv_def by blast
    then have "pc_row pc r" using assms(3) by simp
    moreover have "pc_rank (Some pc) \<le> 7" by (cases pc) (simp_all add: pc_rank_def)
    ultimately show ?thesis using job_step_rank [OF Some] Some by simp
  qed
qed

section \<open>Cancellation\<close>

text \<open>A cancellation has taken hold when the row is cancelled and the goroutine, if any, can no longer write: it is past
  its registration, its context is cancelled, and it has not panicked.\<close>

definition ctx_held :: "string \<Rightarrow> job_sys \<Rightarrow> bool" where
  "ctx_held i sy \<longleftrightarrow> (\<exists>r. find_row i (sy_db sy) = Some r \<and> br_Status r = StCancelled) \<and>
     (case sy_pc sy i of None \<Rightarrow> True | Some PcRegister \<Rightarrow> False | Some (PcPanic _) \<Rightarrow> False | Some _ \<Rightarrow> sy_cancelled sy i)"

fun no_panic :: "string \<Rightarrow> sys_action \<Rightarrow> bool" where
  "no_panic i (AStep ok now ids (RunPanic msg) j) \<longleftrightarrow> j \<noteq> i"
| "no_panic i _ \<longleftrightarrow> True"

lemma UpdateStatus_other:
  "bt_UpdateStatus ok j st s f m db = Inr db1 \<Longrightarrow> i \<noteq> j \<Longrightarrow> find_row i db1 = find_row i db"
  by (auto simp: bt_UpdateStatus_def find_row_update split: if_splits option.splits)

lemma SetSummary_other: "bt_SetSummary ok now j s n db = Inr db1 \<Longrightarrow> i \<noteq> j \<Longrightarrow> find_row i db1 = find_row i db"
  by (auto simp: bt_SetSummary_def find_row_update split: if_splits)

definition untouched :: "string \<Rightarrow> job_sys \<Rightarrow> job_sys \<Rightarrow> bool" where
  "untouched i sy sy1 \<longleftrightarrow> find_row i (sy_db sy1) = find_row i (sy_db sy) \<and> sy_pc sy1 i = sy_pc sy i \<and>
     (sy_cancelled sy i \<longrightarrow> sy_cancelled sy1 i)"

lemma held_untouched: "ctx_held i sy \<Longrightarrow> untouched i sy sy1 \<Longrightarrow> ctx_held i sy1"
  by (auto simp: ctx_held_def untouched_def split: option.splits job_pc.splits)

lemma job_step_other:
  assumes "job_step env ok now ids outcome j sy = Some sy1" "i \<noteq> j"
  shows "untouched i sy sy1"
proof -
  obtain pc where pc: "sy_pc sy j = Some pc" using assms(1) by (auto simp: job_step_def split: option.splits)
  show ?thesis
  proof (cases pc)
    case PcRun
    then show ?thesis using assms pc by (cases outcome) (auto simp: job_step_def untouched_def goto_def split: if_splits)
  next
    case (PcFills fills)
    then show ?thesis using assms pc same_find [OF InsertFills_rows]
      by (auto simp: job_step_def after_db_def untouched_def goto_def split: sum.splits)
  next
    case (PcSummary fills)
    then show ?thesis using assms pc SetSummary_other
      by (auto simp: job_step_def after_db_def untouched_def goto_def split: sum.splits)
  next
    case PcEnd
    then show ?thesis using assms pc by (cases "j \<in> sy_jobs sy") (auto simp: job_step_def Let_def cancel_job_def untouched_def)
  qed (use assms pc UpdateStatus_other in
      \<open>auto simp: job_step_def after_db_def untouched_def goto_def RegisterJob_def split: sum.splits\<close>)
qed

lemma job_step_held:
  assumes "ctx_held i sy" "job_step env ok now ids outcome i sy = Some sy1" "\<And>msg. outcome \<noteq> RunPanic msg"
  shows "ctx_held i sy1"
proof -
  obtain pc where pc: "sy_pc sy i = Some pc" using assms(2) by (auto simp: job_step_def split: option.splits)
  have c: "sy_cancelled sy i" "pc \<noteq> PcRegister" "\<And>msg. pc \<noteq> PcPanic msg"
    using assms(1) pc by (auto simp: ctx_held_def split: job_pc.splits)
  have row: "\<exists>r. find_row i (sy_db sy) = Some r \<and> br_Status r = StCancelled" using assms(1) by (simp add: ctx_held_def)
  show ?thesis
  proof (cases pc)
    case PcRun
    then show ?thesis using assms pc c row
      by (cases outcome) (auto simp: job_step_def ctx_held_def goto_def split: if_splits)
  next
    case (PcFills fills)
    then show ?thesis using assms pc c row
      by (auto simp: job_step_def ctx_held_def goto_def after_db_def on_ctx_def bt_InsertFills_def split: if_splits)
  next
    case (PcSummary fills)
    then show ?thesis using assms pc c row
      by (auto simp: job_step_def ctx_held_def goto_def after_db_def on_ctx_def bt_SetSummary_def split: if_splits)
  next
    case PcEnd
    then show ?thesis using assms pc c row by (auto simp: job_step_def ctx_held_def Let_def)
  qed (use assms pc c row in \<open>auto simp: job_step_def ctx_held_def goto_def after_db_def on_ctx_def bt_UpdateStatus_def\<close>)
qed

lemma submit_untouched:
  assumes "find_row i (sy_db sy) \<noteq> None"
  shows "untouched i sy (fst (Submit ok now j user s w req sy))"
proof (cases "fst (Submit ok now j user s w req sy) = sy")
  case False
  then obtain r db where d: "bt_Create ok now s user (request_backtest j r) (sy_db sy) = Inr db"
    "fst (Submit ok now j user s w req sy) =
      sy\<lparr>sy_db := db, sy_pc := (sy_pc sy)(j \<mapsto> PcRegister), sy_bt := (sy_bt sy)(j := request_backtest j r)\<rparr>"
    by (auto simp: Submit_def split: option.splits if_splits sum.splits)
  have "bt_ID (request_backtest j r) = j" by (simp add: request_backtest_def)
  then show ?thesis using Create_row(1,3) [OF d(1)] assms by (cases "i = j") (auto simp: d(2) untouched_def)
qed (simp add: untouched_def)

lemma restart_held: "ctx_held i sy \<Longrightarrow> ctx_held i (restart ok now sy)"
proof -
  assume h: "ctx_held i sy"
  then obtain r where r: "find_row i (sy_db sy) = Some r" "br_Status r = StCancelled" by (auto simp: ctx_held_def)
  have "find_row i db = Some (orphaned_row now r)" if "FailOrphaned ok now (sy_db sy) = Inr (db, n)" for db n
    using r FailOrphaned_rows [OF that] by (simp add: find_row_def find_map)
  then show ?thesis using r by (auto simp: ctx_held_def restart_def Let_def orphaned_row_def active_def split: sum.splits)
qed

lemma cancel_row_held: "ctx_held i sy \<Longrightarrow> ctx_held i (cancel_row ok now user j sy)"
proof -
  assume h: "ctx_held i sy"
  have "untouched i sy (cancel_row ok now user j sy)"
    using h by (auto simp: ctx_held_def cancel_row_def bt_Get_def bt_CancelIfRunning_def untouched_def find_row_update active_def
        split: option.splits if_splits sum.splits)
  then show ?thesis using h held_untouched by blast
qed

lemma sys_act_held:
  assumes h: "ctx_held i sy" and act: "sys_act env a sy = Some sy1" and p: "no_panic i a"
  shows "ctx_held i sy1"
proof (cases a)
  case (ASubmit ok now j user s w req)
  have "find_row i (sy_db sy) \<noteq> None" using h by (auto simp: ctx_held_def)
  from submit_untouched [OF this] show ?thesis using act ASubmit held_untouched [OF h] by auto
next
  case (AStep ok now ids outcome j)
  show ?thesis
  proof (cases "i = j")
    case True
    have "outcome \<noteq> RunPanic msg" for msg using p AStep True by auto
    then show ?thesis using job_step_held [OF h] act AStep True by auto
  next
    case False
    then show ?thesis using job_step_other act AStep held_untouched [OF h] by auto
  qed
next
  case (ACancelSignal j)
  then have "untouched i sy sy1" using act by (auto simp: untouched_def cancel_job_def split: if_splits)
  then show ?thesis using held_untouched [OF h] by blast
next
  case AShutdown
  then have "untouched i sy sy1" using act by (auto simp: untouched_def CancelAll_def)
  then show ?thesis using held_untouched [OF h] by blast
qed (use act h restart_held cancel_row_held in auto)

lemma sys_acts_held: "ctx_held i sy \<Longrightarrow> list_all (no_panic i) as \<Longrightarrow> sys_acts env as sy = Some sy1 \<Longrightarrow> ctx_held i sy1"
proof (induction as arbitrary: sy)
  case (Cons a as)
  then obtain sy2 where "sys_act env a sy = Some sy2" "sys_acts env as sy2 = Some sy1" by (auto simp: bind_eq_Some_conv)
  then show ?case using Cons.IH [OF sys_act_held] Cons.prems(1,2) by auto
qed simp

text \<open>A goroutine past its registration is registered or cancelled.\<close>

definition registered :: "string \<Rightarrow> job_sys \<Rightarrow> bool" where
  "registered j sy \<longleftrightarrow>
     (case sy_pc sy j of None \<Rightarrow> True | Some PcRegister \<Rightarrow> True | Some _ \<Rightarrow> j \<in> sy_jobs sy \<or> sy_cancelled sy j)"

lemma registered_same:
  "sy_pc sy1 j = sy_pc sy j \<Longrightarrow> (j \<in> sy_jobs sy \<Longrightarrow> j \<in> sy_jobs sy1 \<or> sy_cancelled sy1 j) \<Longrightarrow>
    (sy_cancelled sy j \<Longrightarrow> sy_cancelled sy1 j) \<Longrightarrow> registered j sy \<Longrightarrow> registered j sy1"
  by (auto simp: registered_def split: option.splits job_pc.splits)

lemma after_db_parts [simp]:
  "sy_jobs (after_db r (goto i a) (goto i b) sy) = sy_jobs sy" "sy_cancelled (after_db r (goto i a) (goto i b) sy) = sy_cancelled sy"
  "sy_pc (after_db r (goto i a) (goto i b) sy) = (sy_pc sy)(i \<mapsto> (case r of Inl e \<Rightarrow> a | Inr db \<Rightarrow> b))"
  by (auto simp: after_db_def goto_def split: sum.splits)

lemma job_step_frame:
  assumes "job_step env ok now ids outcome i sy = Some sy1" "i \<noteq> j"
  shows "sy_pc sy1 j = sy_pc sy j \<and> (j \<in> sy_jobs sy1 \<longleftrightarrow> j \<in> sy_jobs sy) \<and> sy_cancelled sy1 j = sy_cancelled sy j"
proof -
  obtain pc where pc: "sy_pc sy i = Some pc" using assms(1) by (auto simp: job_step_def split: option.splits)
  show ?thesis
  proof (cases pc)
    case PcRun
    then show ?thesis using assms pc by (cases outcome) (auto simp: job_step_def goto_def split: if_splits)
  next
    case PcEnd
    then show ?thesis using assms pc by (cases "i \<in> sy_jobs sy") (auto simp: job_step_def Let_def cancel_job_def)
  qed (use assms pc in \<open>auto simp: job_step_def goto_def RegisterJob_def\<close>)
qed

lemma job_step_registered:
  assumes "registered j sy" "job_step env ok now ids outcome i sy = Some sy1"
  shows "registered j sy1"
proof (cases "i = j")
  case False
  from job_step_frame [OF assms(2) this] assms(1) show ?thesis by (intro registered_same [OF _ _ _ assms(1)]) auto
next
  case True
  obtain pc where pc: "sy_pc sy i = Some pc" using assms(2) by (auto simp: job_step_def split: option.splits)
  show ?thesis
  proof (cases pc)
    case PcRegister
    then show ?thesis using assms pc True by (auto simp: job_step_def registered_def goto_def RegisterJob_def)
  next
    case PcRun
    then show ?thesis using assms pc True by (cases outcome) (auto simp: job_step_def registered_def goto_def split: if_splits)
  next
    case PcEnd
    then show ?thesis using assms pc True by (auto simp: job_step_def registered_def Let_def)
  qed (use assms pc True in \<open>auto simp: job_step_def registered_def split: sum.splits\<close>)
qed

lemma sys_act_registered:
  assumes "registered i sy" "sys_act env a sy = Some sy1"
  shows "registered i sy1"
proof (cases a)
  case (ASubmit ok now j user s w req)
  show ?thesis
  proof (cases "fst (Submit ok now j user s w req sy) = sy")
    case False
    then obtain r db where d: "fst (Submit ok now j user s w req sy) =
        sy\<lparr>sy_db := db, sy_pc := (sy_pc sy)(j \<mapsto> PcRegister), sy_bt := (sy_bt sy)(j := request_backtest j r)\<rparr>"
      by (auto simp: Submit_def split: option.splits if_splits sum.splits)
    show ?thesis
    proof (cases "i = j")
      case True
      then show ?thesis using assms(2) ASubmit d by (auto simp: registered_def)
    next
      case False
      then show ?thesis using assms(2) ASubmit d by (intro registered_same [OF _ _ _ assms(1)]) auto
    qed
  qed (use assms ASubmit in simp)
next
  case (AStep ok now ids outcome j)
  then show ?thesis using assms job_step_registered by auto
next
  case (ACancelRow ok now user j)
  then show ?thesis using assms(2)
    by (intro registered_same [OF _ _ _ assms(1)]) (auto simp: cancel_row_def split: if_splits sum.splits)
next
  case (ACancelSignal j)
  then show ?thesis using assms(2)
    by (intro registered_same [OF _ _ _ assms(1)]) (auto simp: cancel_job_def split: if_splits)
next
  case AShutdown
  then show ?thesis using assms(2) by (intro registered_same [OF _ _ _ assms(1)]) (auto simp: CancelAll_def)
next
  case (ARestart ok now)
  then show ?thesis using assms by (auto simp: restart_def registered_def Let_def split: sum.splits)
qed

lemma sys_acts_registered: "registered i sy \<Longrightarrow> sys_acts env as sy = Some sy1 \<Longrightarrow> registered i sy1"
proof (induction as arbitrary: sy)
  case (Cons a as)
  then obtain sy2 where "sys_act env a sy = Some sy2" "sys_acts env as sy2 = Some sy1" by (auto simp: bind_eq_Some_conv)
  then show ?case using Cons.IH [OF sys_act_registered] Cons.prems(1) by auto
qed simp

text \<open>A cancel request of the owner holds if its two halves are not separated by a step of the job: from then on
  the row stays cancelled, whatever else happens, unless the plugin runtime panics.\<close>

theorem cancellation_holds:
  assumes reach: "sys_acts env as0 empty_sys = Some sy0"
    and row: "find_row i (sy_db sy0) = Some r" "active (br_Status r)" "br_UserID r = user"
    and pc: "sy_pc sy0 i \<noteq> Some PcRegister" "\<And>msg. sy_pc sy0 i \<noteq> Some (PcPanic msg)"
    and run: "sys_acts env (ACancelRow True now user i # ACancelSignal i # as) sy0 = Some sy" and np: "list_all (no_panic i) as"
  shows "\<exists>r1. find_row i (sy_db sy) = Some r1 \<and> br_Status r1 = StCancelled"
proof -
  have reg: "registered i sy0" by (rule sys_acts_registered [OF _ reach]) (simp add: registered_def empty_sys_def)
  let ?f = "\<lambda>r. r\<lparr>br_Status := StCancelled, br_FinishedAt := Some now, br_ErrorMessage := None\<rparr>"
  let ?sy1 = "sy0\<lparr>sy_db := update_row i ?f (sy_db sy0), sy_signals := i # sy_signals sy0\<rparr>"
  let ?sy2 = "(cancel_job i ?sy1)\<lparr>sy_signals := sy_signals sy0\<rparr>"
  have "cancel_row True now user i sy0 = ?sy1" using row by (simp add: cancel_row_def bt_Get_def bt_CancelIfRunning_def)
  then have "sys_acts env as ?sy2 = Some sy" using run by simp
  moreover have "ctx_held i ?sy2"
  proof -
    have "\<exists>r1. find_row i (sy_db ?sy2) = Some r1 \<and> br_Status r1 = StCancelled" using row(1) by (simp add: find_row_update)
    moreover have "sy_cancelled ?sy2 i" if "sy_pc sy0 i \<noteq> None"
      using that reg pc(1) unfolding registered_def cancel_job_def by (auto split: job_pc.splits)
    ultimately show ?thesis using pc by (auto simp: ctx_held_def split: option.splits job_pc.splits)
  qed
  ultimately show ?thesis using sys_acts_held [OF _ np] unfolding ctx_held_def by blast
qed

section \<open>Runs for the examples\<close>

definition sample_request :: Request where
  "sample_request = \<lparr>rq_Start = sample_instant 0, rq_End = sample_instant 600, rq_Resolution = ''5m'', rq_OrderBookID = ''b'',
     rq_Params = (\<lambda>_. None), rq_WarmupCandles = 0\<rparr>"

definition sample_sys_env :: sys_env where
  "sample_sys_env = \<lparr>se_bt = sample_bt_env, se_rnd = Fin, se_sqrt = Fin, se_num8 = Some\<rparr>"

definition submit_j :: "string \<Rightarrow> sys_action" where
  "submit_j i = ASubmit True time_zero i ''u'' ''s'' ''w'' (Some sample_request)"

definition step_j :: sys_action where
  "step_j = AStep True time_zero [] (RunDone (new_jobState sample_win [] '''')) ''j''"

definition cancel_j :: "sys_action list" where
  "cancel_j = [ACancelRow True time_zero ''u'' ''j'', ACancelSignal ''j'']"

definition row_states :: "job_sys \<Rightarrow> (string \<times> bt_status) list" where
  "row_states sy = map (\<lambda>r. (br_ID r, br_Status r)) (bd_rows (sy_db sy))"

theorem single_inflight_backtest_witness:
  "\<exists>sy. sys_acts sample_sys_env [submit_j ''j'', step_j, submit_j ''k''] empty_sys = Some sy \<and> inflight (sy_db sy)"
proof -
  have "sys_acts sample_sys_env [submit_j ''j'', step_j, submit_j ''k''] empty_sys \<noteq> None" by code_simp
  then obtain sy where sy: "sys_acts sample_sys_env [submit_j ''j'', step_j, submit_j ''k''] empty_sys = Some sy" by auto
  from single_inflight_backtest [OF this] sy show ?thesis by blast
qed

theorem backtest_job_life_witness:
  "\<exists>sy r. sys_acts sample_sys_env (submit_j ''j'' # replicate 6 step_j) empty_sys = Some sy \<and>
     find_row ''j'' (sy_db sy) = Some r \<and> sy_pc sy ''j'' = None \<and> finished_row r"
proof -
  have "map_option (\<lambda>sy. (map_option br_Status (find_row ''j'' (sy_db sy)), sy_pc sy ''j'' = None))
      (sys_acts sample_sys_env (submit_j ''j'' # replicate 6 step_j) empty_sys) = Some (Some StSucceeded, True)" by code_simp
  then obtain sy r where sy: "sys_acts sample_sys_env (submit_j ''j'' # replicate 6 step_j) empty_sys = Some sy"
    "find_row ''j'' (sy_db sy) = Some r" "sy_pc sy ''j'' = None" by auto
  have "list_all undisturbed (submit_j ''j'' # replicate 6 step_j)" by code_simp
  from backtest_job_life [OF this sy(1,2)] sy show ?thesis by auto
qed

theorem cancellation_holds_witness:
  "\<exists>sy r. sys_acts sample_sys_env (submit_j ''j'' # replicate 3 step_j @ cancel_j @ replicate 2 step_j) empty_sys = Some sy \<and>
     find_row ''j'' (sy_db sy) = Some r \<and> br_Status r = StCancelled"
proof -
  have app: "sys_acts env (xs @ ys) s = Option.bind (sys_acts env xs s) (sys_acts env ys)" for env xs ys s
  proof (induction xs arbitrary: s)
    case (Cons x xs)
    then show ?case by (cases "sys_act env x s") simp_all
  qed simp
  let ?as0 = "submit_j ''j'' # replicate 3 step_j" and ?as1 = "cancel_j @ replicate 2 step_j"
  have "map_option (\<lambda>sy. (map_option (\<lambda>r. (br_Status r, br_UserID r)) (find_row ''j'' (sy_db sy)), sy_pc sy ''j'' = Some (PcFills [])))
      (sys_acts sample_sys_env ?as0 empty_sys) = Some (Some (StRunning, ''u''), True)" by code_simp
  then obtain sy0 r where sy0: "sys_acts sample_sys_env ?as0 empty_sys = Some sy0" "find_row ''j'' (sy_db sy0) = Some r"
    "br_Status r = StRunning" "br_UserID r = ''u''" "sy_pc sy0 ''j'' = Some (PcFills [])" by auto
  have "sys_acts sample_sys_env (?as0 @ ?as1) empty_sys \<noteq> None" by code_simp
  moreover have "sys_acts sample_sys_env (?as0 @ ?as1) empty_sys = sys_acts sample_sys_env ?as1 sy0"
    unfolding app [of _ ?as0 ?as1] sy0(1) by simp
  ultimately obtain sy where sy: "sys_acts sample_sys_env ?as1 sy0 = Some sy" "sys_acts sample_sys_env (?as0 @ ?as1) empty_sys = Some sy"
    by (metis not_None_eq)
  have np: "list_all (no_panic ''j'') (replicate 2 step_j)" by code_simp
  have "sys_acts sample_sys_env (ACancelRow True time_zero ''u'' ''j'' # ACancelSignal ''j'' # replicate 2 step_j) sy0 = Some sy"
    using sy(1) by (simp add: cancel_j_def)
  from cancellation_holds [OF sy0(1,2) _ sy0(4) _ _ this np] sy0 sy(2) show ?thesis by (auto simp: active_def)
qed

text \<open>Steps of the job between the two halves defeat a cancellation: the summary written then turns the cancelled
  row into a succeeded one; and if the job marks its row running then, the row stays running after the
  goroutine has stopped, and the user's next submission is refused.\<close>

theorem cancellation_lost:
  "map_option row_states (sys_acts sample_sys_env
     (submit_j ''j'' # replicate 4 step_j @ [hd cancel_j] @ replicate 2 step_j) empty_sys) = Some [(''j'', StSucceeded)] \<and>
   map_option (\<lambda>sy. (row_states sy, sy_pc sy ''j'' = None, snd (Submit True time_zero ''k'' ''u'' ''s'' ''w'' (Some sample_request) sy)))
     (sys_acts sample_sys_env (submit_j ''j'' # step_j # [hd cancel_j] @ step_j # [last cancel_j] @ replicate 2 step_j) empty_sys) =
     Some ([(''j'', StRunning)], True, Rejected ErrSingleInflight)"
proof (intro conjI)
  show "map_option row_states (sys_acts sample_sys_env
      (submit_j ''j'' # replicate 4 step_j @ [hd cancel_j] @ replicate 2 step_j) empty_sys) = Some [(''j'', StSucceeded)]" by code_simp
  show "map_option (\<lambda>sy. (row_states sy, sy_pc sy ''j'' = None, snd (Submit True time_zero ''k'' ''u'' ''s'' ''w'' (Some sample_request) sy)))
      (sys_acts sample_sys_env (submit_j ''j'' # step_j # [hd cancel_j] @ step_j # [last cancel_j] @ replicate 2 step_j) empty_sys) =
      Some ([(''j'', StRunning)], True, Rejected ErrSingleInflight)" by code_simp
qed

section \<open>Fills, lists and polling\<close>

lemma storable_sides: "storable num8 f \<noteq> None \<Longrightarrow> bf_Side f = ''buy'' \<or> bf_Side f = ''sell''"
  by (auto simp: storable_def split: if_splits)

text \<open>A finished run with a recorded fill whose side is not the lower-case \<open>buy\<close> or \<open>sell\<close> fails: the table refuses
  its fills, although a live deployment accepts any case.\<close>

theorem other_side_fails_backtest:
  assumes "sy_pc sy i = Some (PcFills fills)" "f \<in> set fills" "bf_Side f \<noteq> ''buy''" "bf_Side f \<noteq> ''sell''"
  shows "job_step env ok now ids outcome i sy = Some (goto i (PcFail ''persist fills'') sy) \<and> EqualFold ''BUY'' ''buy''"
proof -
  have "storable (se_num8 env) f = None" using storable_sides [of "se_num8 env" f] assms(3,4) by blast
  then have "\<exists>e. bt_InsertFills (on_ctx i ok sy) (se_num8 env) ids i fills (sy_db sy) = Inl e"
    using assms(2) by (auto simp: bt_InsertFills_def)
  moreover have "EqualFold ''BUY'' ''buy''" by code_simp
  ultimately show ?thesis using assms(1) by (auto simp: job_step_def after_db_def)
qed

theorem other_side_fails_backtest_witness:
  "job_step sample_sys_env True time_zero [''x''] (RunError '''') ''j'' (goto ''j'' (PcFills [sample_fill ''BUY'' 100]) empty_sys) =
     Some (goto ''j'' (PcFail ''persist fills'') (goto ''j'' (PcFills [sample_fill ''BUY'' 100]) empty_sys))"
  using other_side_fails_backtest [of "goto ''j'' (PcFills [sample_fill ''BUY'' 100]) empty_sys" "''j''" "[sample_fill ''BUY'' 100]"
      "sample_fill ''BUY'' 100"] by (simp add: goto_def sample_fill_def)

text \<open>The stored fills of a job are those inserted, in the order of their timestamps.\<close>

theorem stored_fills_round_trip:
  assumes "bt_InsertFills True num8 ids i fills db = Inr db1" "length ids = length fills" "\<forall>(u, j, f)\<in>set (bd_fills db). j \<noteq> i"
  shows "\<exists>out. bt_GetFills True i db1 = Inr out \<and> mset out = mset (map (\<lambda>f. the (storable num8 f)) fills) \<and>
    sorted (map (\<lambda>f. t_ns (bf_Timestamp f)) out)"
proof -
  let ?st = "\<lambda>f. the (storable num8 f)"
  have db1: "bd_fills db1 = bd_fills db @ map (\<lambda>(u, f). (u, i, ?st f)) (zip ids fills)"
    using assms(1) by (auto simp: bt_InsertFills_def split: if_splits)
  have old: "filter (\<lambda>(u, j, f). j = i) (bd_fills db) = []" using assms(3) by (auto simp: filter_empty_conv)
  let ?new = "map (\<lambda>(u, f). (u, i, ?st f)) (zip ids fills)"
  have new: "filter (\<lambda>(u, j, f). j = i) ?new = ?new" by (auto simp: filter_id_conv)
  let ?key = "\<lambda>(u :: string, j :: string, f). (t_ns (bf_Timestamp f), u)"
  let ?out = "map (\<lambda>(u, j, f). f) (sort_key ?key ?new)"
  have get: "bt_GetFills True i db1 = Inr ?out" using old new by (simp add: bt_GetFills_def db1)
  have "map (\<lambda>(u, j, f). f) ?new = map ?st (map snd (zip ids fills))" by (auto simp: o_def split: prod.splits)
  then have sorted_new: "map (\<lambda>(u, j, f). f) ?new = map ?st fills" using assms(2) by simp
  have "mset (map (\<lambda>(u, j, f). f) (sort_key ?key xs)) = mset (map (\<lambda>(u, j, f). f) xs)" for xs by (simp only: mset_map mset_sort)
  then have "mset ?out = mset (map ?st fills)" unfolding sorted_new [symmetric] .
  moreover have "sorted (map (\<lambda>f. t_ns (bf_Timestamp f)) ?out)"
  proof -
    have "sorted (map ?key (sort_key ?key ?new))" by simp
    then have "sorted (map fst (map ?key (sort_key ?key ?new)))"
      by (rule sorted_map_mono) (auto simp: mono_on_def less_eq_prod_def)
    moreover have "map fst (map ?key xs) = map (\<lambda>f. t_ns (bf_Timestamp f)) (map (\<lambda>(u, j, f). f) xs)" for xs
      by (induction xs) auto
    ultimately show ?thesis by metis
  qed
  ultimately show ?thesis using get by blast
qed

theorem stored_fills_round_trip_witness:
  "\<exists>db1 out. bt_InsertFills True Some [''x'', ''y''] ''j'' [sample_fill ''buy'' 100, sample_fill ''sell'' 110] (sy_db empty_sys) = Inr db1 \<and>
     bt_GetFills True ''j'' db1 = Inr out \<and> mset out = {#sample_fill ''buy'' 100, sample_fill ''sell'' 110#}"
proof -
  have "\<exists>db1. bt_InsertFills True Some [''x'', ''y''] ''j'' [sample_fill ''buy'' 100, sample_fill ''sell'' 110] (sy_db empty_sys) = Inr db1"
    by (simp add: bt_InsertFills_def storable_def sample_fill_def)
  then obtain db1 where d: "bt_InsertFills True Some [''x'', ''y''] ''j'' [sample_fill ''buy'' 100, sample_fill ''sell'' 110] (sy_db empty_sys) = Inr db1" by blast
  have s: "storable Some (sample_fill ''buy'' 100) = Some (sample_fill ''buy'' 100)"
    "storable Some (sample_fill ''sell'' 110) = Some (sample_fill ''sell'' 110)" by (simp_all add: storable_def sample_fill_def)
  obtain out where "bt_GetFills True ''j'' db1 = Inr out"
    "mset out = mset (map (\<lambda>f. the (storable Some f)) [sample_fill ''buy'' 100, sample_fill ''sell'' 110])"
    using stored_fills_round_trip [OF d] by (auto simp: empty_sys_def)
  then show ?thesis using d s by auto
qed

text \<open>The list of a user's backtests holds only rows of that user that pass the filters, newest first, and at most
  fifty of them unless a limit between 1 and 100 was asked for.\<close>

theorem list_backtests_owned:
  assumes "ListBacktests True user strategyID status limit db = Inr out"
  shows "set out \<subseteq> {r \<in> set (bd_rows db). br_UserID r = user} \<and> length out \<le> page_limit limit \<and>
    sorted_wrt (\<ge>) (map (\<lambda>r. (t_ns (br_RequestedAt r), br_ID r)) out) \<and>
    (\<forall>s. status = Some s \<longrightarrow> (\<forall>r\<in>set out. br_Status r = s)) \<and> page_limit 101 = 50"
proof -
  let ?key = "\<lambda>r. (t_ns (br_RequestedAt r), br_ID r)"
  let ?keep = "\<lambda>r. br_UserID r = user \<and> (case strategyID of None \<Rightarrow> True | Some s \<Rightarrow> br_StrategyID r = s) \<and>
    (case status of None \<Rightarrow> True | Some s \<Rightarrow> br_Status r = s)"
  have out: "out = take (page_limit limit) (rev (sort_key ?key (filter ?keep (bd_rows db))))"
    using assms by (simp add: ListBacktests_def created_first_def)
  have "sorted_wrt (\<ge>) (map ?key (rev (sort_key ?key (filter ?keep (bd_rows db)))))"
    by (simp add: sorted_wrt_rev flip: rev_map)
  then have "sorted_wrt (\<ge>) (map ?key out)" unfolding out take_map [symmetric] by (rule sorted_wrt_take)
  then show ?thesis using out by (auto simp: page_limit_def dest!: in_set_takeD split: option.splits)
qed

theorem list_backtests_owned_witness:
  "\<exists>out. ListBacktests True ''u'' None None 3 (sy_db empty_sys) = Inr out \<and> length out \<le> 3"
proof -
  have "ListBacktests True ''u'' None None 3 (sy_db empty_sys) = Inr []" by (simp add: ListBacktests_def empty_sys_def created_first_def)
  from list_backtests_owned [OF this] show ?thesis by (simp add: ListBacktests_def empty_sys_def created_first_def)
qed

lemma poll_ends:
  assumes adv: "\<forall>k. clock k + interval \<le> clock (Suc k)" and iv: "0 < interval" and m: "nat (deadline - clock k) \<le> m"
  shows "\<exists>n r. k \<le> n \<and> poll_from get clock gone deadline interval k = Some r \<and>
    (case r of Inr b \<Rightarrow> get n = Inr b \<and> (isTerminal (br_Status b) \<or> deadline - clock n \<le> interval)
     | Inl e \<Rightarrow> get n = Inl e \<or> gone n)"
  using m
proof (induction m arbitrary: k rule: less_induct)
  case (less m)
  show ?case
  proof (cases "get k")
    case (Inl e)
    then show ?thesis by (intro exI [of _ k]) (simp add: poll_from.simps)
  next
    case (Inr b)
    show ?thesis
    proof (cases "isTerminal (br_Status b) \<or> deadline - clock k \<le> interval \<or> gone k")
      case True
      then show ?thesis using Inr by (intro exI [of _ k]) (auto simp: poll_from.simps)
    next
      case False
      have "clock k + interval \<le> clock (Suc k)" using adv by blast
      then have "deadline - clock (Suc k) < deadline - clock k" "0 < deadline - clock k" using iv False by linarith+
      then have "nat (deadline - clock (Suc k)) < m" using less.prems by linarith
      from less.IH [OF this, of "Suc k"] obtain n r where "Suc k \<le> n"
        "poll_from get clock gone deadline interval (Suc k) = Some r"
        "case r of Inr b \<Rightarrow> get n = Inr b \<and> (isTerminal (br_Status b) \<or> deadline - clock n \<le> interval)
         | Inl e \<Rightarrow> get n = Inl e \<or> gone n" by blast
      then show ?thesis using Inr False by (intro exI [of _ n] exI [of _ r]) (simp add: poll_from.simps [of _ _ _ _ _ k])
    qed
  qed
qed

text \<open>Polling ends when a round takes at least its interval: with a row read in its last round that is terminal, or
  with the budget used up to less than another round, or with an error of that round.\<close>

theorem poll_returns:
  assumes "\<forall>k. clock k + interval \<le> clock (Suc k)" "0 < interval"
  shows "\<exists>n r. PollForTerminal get clock gone start budget interval = Some r \<and>
    (case r of Inr b \<Rightarrow> get n = Inr b \<and> (isTerminal (br_Status b) \<or> start + budget - clock n \<le> interval)
     | Inl e \<Rightarrow> get n = Inl e \<or> gone n)"
  using poll_ends [OF assms, of "start + budget" 0 "nat (start + budget - clock 0)" get gone] unfolding PollForTerminal_def by blast

theorem poll_returns_witness:
  "\<exists>r. PollForTerminal (\<lambda>k. Inl bt_not_found) (\<lambda>k. 2 * int k) (\<lambda>k. False) 0 10 2 = Some r"
  using poll_returns [of "\<lambda>k. 2 * int k" 2 "\<lambda>k. Inl bt_not_found" "\<lambda>k. False" 0 10] by auto

end
