(* ===== verification/MO_Model.thy ===== *)
theory MO_Model
  imports BO_Loop
begin

text \<open>
  The momentum strategy: \<open>src/strategy/momentum/strategy.go\<close> up to its orders, the types of \<open>types.go\<close>,
  \<open>balances.go\<close> and the benchmark cache of \<open>historical_data.go\<close>.

  \<^item> The \<open>Strategy\<close> struct is the record \<open>MOStrategy\<close>; \<open>MO_Update\<close> returns the record it leaves behind also
    when one of its windows fails.
  \<^item> The exchange, the decision store, the FRED client and the clock answer through \<open>MREnv\<close>, as for the
    other strategies. The market client is taken to be wired, which \<open>Run\<close> checks.
\<close>

section \<open>Configuration, decisions and state\<close>

record 'd MOConfig =
  mf_SignalSource :: string
  mf_FastWindow :: int
  mf_SlowWindow :: int
  mf_Resolution :: Resolution
  mf_ATRWindow :: int
  mf_VolumeAvgWindow :: int
  mf_VolumeRatioThreshold :: 'd
  mf_StopLossATR :: 'd
  mf_TakeProfitATR :: 'd
  mf_MinOrderSize :: 'd
  mf_MaxOrderSize :: 'd
  mf_MaxPositionSize :: 'd
  mf_OrderBookID :: string
  mf_Tenor :: string
  mf_InitialBalance :: 'd
  mf_Leverage :: 'd

record 'd MODecision =
  od_time :: gtime
  od_bondID :: string
  od_price :: 'd
  od_signal :: Signal
  od_positionSize :: 'd
  od_reason :: string
  od_FastMA :: 'd
  od_SlowMA :: 'd
  od_ATR :: 'd
  od_SeriesValue :: 'd
  od_Trend :: string

record 'd MOStrategy =
  mo_cfg :: "'d MOConfig"
  mo_fastWin :: "'d Rolling"
  mo_slowWin :: "'d Rolling"
  mo_atrWin :: "'d Rolling"
  mo_volWin :: "'d Rolling option"
  mo_lastPrice :: 'd
  mo_sourceSign :: 'd
  mo_baseAssetID :: string
  mo_collateralWeight :: 'd
  mo_benchmarkObservations :: "'d Observation list"
  mo_lastBenchmarkFetchAt :: gtime
  mo_runID :: string
  mo_cancelled :: bool
  mo_isRunning :: bool
  mo_paused :: bool
  mo_balancesInitialized :: bool
  mo_bondQty :: 'd
  mo_usdBal :: 'd
  mo_openSignal :: Signal
  mo_entryPrice :: 'd
  mo_entryATR :: 'd
  mo_decisionStore :: bool
  mo_decisionSeq :: int
  mo_errs :: "gerror list"

definition sourceSign :: "'d decimal_ops \<Rightarrow> string \<Rightarrow> 'd" where
  "sourceSign D source = (if source = ''price'' then d_one D else d_new D (- 1))"

definition MO_New :: "'d decimal_ops \<Rightarrow> 'd MOConfig \<Rightarrow> bool \<Rightarrow> int \<Rightarrow> 'd MOStrategy" where
  "MO_New D cfg store seq =
     (let cfg = (if d_IsZero D (mf_Leverage cfg) then cfg\<lparr>mf_Leverage := d_one D\<rparr> else cfg)
      in \<lparr>mo_cfg = cfg, mo_fastWin = NewRollingWindow D (mf_FastWindow cfg), mo_slowWin = NewRollingWindow D (mf_SlowWindow cfg),
          mo_atrWin = NewRollingWindow D (mf_ATRWindow cfg),
          mo_volWin = (if mf_VolumeAvgWindow cfg > 0 then Some (NewRollingWindow D (mf_VolumeAvgWindow cfg)) else None),
          mo_lastPrice = d_zero D, mo_sourceSign = sourceSign D (mf_SignalSource cfg), mo_baseAssetID = [],
          mo_collateralWeight = d_one D, mo_benchmarkObservations = [], mo_lastBenchmarkFetchAt = time_zero,
          mo_runID = uuid_Nil, mo_cancelled = False, mo_isRunning = False, mo_paused = False,
          mo_balancesInitialized = False, mo_bondQty = d_zero D, mo_usdBal = d_zero D, mo_openSignal = SignalHold,
          mo_entryPrice = d_zero D, mo_entryATR = d_zero D, mo_decisionStore = store, mo_decisionSeq = seq, mo_errs = []\<rparr>)"

definition MO_DefaultConfig :: "'d decimal_ops \<Rightarrow> 'd MOConfig" where
  "MO_DefaultConfig D =
     \<lparr>mf_SignalSource = ''price'', mf_FastWindow = 8, mf_SlowWindow = 96, mf_Resolution = ''15m'', mf_ATRWindow = 24,
      mf_VolumeAvgWindow = 20, mf_VolumeRatioThreshold = d_one D, mf_StopLossATR = d_new D 20, mf_TakeProfitATR = d_zero D,
      mf_MinOrderSize = d_zero D, mf_MaxOrderSize = d_zero D, mf_MaxPositionSize = d_one D, mf_OrderBookID = uuid_Nil,
      mf_Tenor = [], mf_InitialBalance = d_one D, mf_Leverage = d_one D\<rparr>"

section \<open>Signals\<close>

text \<open>The series value of a bar, \<open>None\<close> when the bar is dropped.\<close>

definition seriesValue :: "'d decimal_ops \<Rightarrow> 'd MOConfig \<Rightarrow> 'd Bar \<Rightarrow> 'd option res" where
  "seriesValue D cfg bar =
     (if mf_SignalSource cfg = ''price'' then Inr (Some (bar_Close bar))
      else if mf_SignalSource cfg = ''ytm''
      then Inr (if d_IsZero D (bar_CloseYTM bar) then None else Some (bar_CloseYTM bar))
      else if d_IsZero D (bar_CloseYTM bar) then Inr None
      else rbind (tryv (d_sub D (bar_CloseYTM bar) (bar_BenchmarkYield bar))) (\<lambda>spread. Inr (Some spread)))"

text \<open>Adding one value to each window, stopping at the first that fails.\<close>

definition MO_ingest ::
  "'d decimal_ops \<Rightarrow> 'd Bar \<Rightarrow> 'd \<Rightarrow> 'd MOStrategy \<Rightarrow> 'd MOStrategy \<times> gerror option" where
  "MO_ingest D bar value s =
     (case Bar_TrueRange D bar (mo_lastPrice s) of
        Inl err \<Rightarrow> (s, Some err)
      | Inr tr \<Rightarrow>
          (case Rolling_Add D tr (mo_atrWin s) of
             (w, Some err) \<Rightarrow> (s\<lparr>mo_atrWin := w\<rparr>, Some err)
           | (w, None) \<Rightarrow>
               let s = s\<lparr>mo_atrWin := w\<rparr> in
               (case Rolling_Add D value (mo_fastWin s) of
                  (w, Some err) \<Rightarrow> (s\<lparr>mo_fastWin := w\<rparr>, Some err)
                | (w, None) \<Rightarrow>
                    let s = s\<lparr>mo_fastWin := w\<rparr> in
                    (case Rolling_Add D value (mo_slowWin s) of
                       (w, Some err) \<Rightarrow> (s\<lparr>mo_slowWin := w\<rparr>, Some err)
                     | (w, None) \<Rightarrow>
                         let s = s\<lparr>mo_slowWin := w\<rparr> in
                         (case mo_volWin s of
                            None \<Rightarrow> (s\<lparr>mo_lastPrice := bar_Close bar\<rparr>, None)
                          | Some v \<Rightarrow>
                              (case Rolling_Add D (bar_Volume bar) v of
                                 (w, Some err) \<Rightarrow> (s\<lparr>mo_volWin := Some w\<rparr>, Some err)
                               | (w, None) \<Rightarrow> (s\<lparr>mo_volWin := Some w, mo_lastPrice := bar_Close bar\<rparr>, None)))))))"

definition MODecision_zero :: "'d decimal_ops \<Rightarrow> 'd MODecision" where
  "MODecision_zero D =
     \<lparr>od_time = time_zero, od_bondID = [], od_price = d_zero D, od_signal = SignalHold, od_positionSize = d_zero D,
      od_reason = [], od_FastMA = d_zero D, od_SlowMA = d_zero D, od_ATR = d_zero D, od_SeriesValue = d_zero D,
      od_Trend = []\<rparr>"

text \<open>The switch of \<open>Update\<close>: the crossover, from the difference of the means times the direction.\<close>

definition crossover :: "'d decimal_ops \<Rightarrow> bool \<Rightarrow> 'd \<Rightarrow> 'd MODecision \<Rightarrow> 'd MODecision" where
  "crossover D ready sdiff d =
     (if \<not> ready then d\<lparr>od_reason := ''warming_up''\<rparr>
      else if d_cmp D sdiff (d_zero D) = 0 then d\<lparr>od_reason := ''flat''\<rparr>
      else if d_cmp D sdiff (d_zero D) > 0
      then d\<lparr>od_signal := SignalBuy, od_Trend := ''up'', od_reason := ''ma_crossover_up''\<rparr>
      else d\<lparr>od_signal := SignalSell, od_Trend := ''down'', od_reason := ''ma_crossover_down''\<rparr>)"

definition volumeGate :: "'d decimal_ops \<Rightarrow> 'd MOStrategy \<Rightarrow> 'd Bar \<Rightarrow> 'd MODecision \<Rightarrow> 'd MODecision" where
  "volumeGate D s bar d =
     (case mo_volWin s of
        None \<Rightarrow> d
      | Some w \<Rightarrow>
          if od_signal d \<noteq> SignalHold \<and> Rolling_Ready w
          then (case d_mul D (mf_VolumeRatioThreshold (mo_cfg s)) (Rolling_Mean w) of
                  (threshold, None) \<Rightarrow>
                    if d_cmp D (bar_Volume bar) threshold < 0
                    then d\<lparr>od_signal := SignalHold, od_Trend := [], od_reason := ''volume_not_confirmed''\<rparr> else d
                | (_, Some _) \<Rightarrow> d)
          else d)"

definition windowsReady :: "'d MOStrategy \<Rightarrow> bool" where
  "windowsReady s \<longleftrightarrow> Rolling_Ready (mo_fastWin s) \<and> Rolling_Ready (mo_slowWin s)"

definition signed_diff :: "'d decimal_ops \<Rightarrow> 'd MOStrategy \<Rightarrow> 'd res" where
  "signed_diff D s =
     rbind (tryv (d_sub D (Rolling_Mean (mo_fastWin s)) (Rolling_Mean (mo_slowWin s)))) (\<lambda>diff.
     tryv (d_mul D diff (mo_sourceSign s)))"

definition MO_Update :: "'d decimal_ops \<Rightarrow> 'd Bar \<Rightarrow> 'd MOStrategy \<Rightarrow> 'd MOStrategy \<times> 'd MODecision res" where
  "MO_Update D bar s0 =
     (case seriesValue D (mo_cfg s0) bar of
        Inl err \<Rightarrow> (s0, Inl err)
      | Inr None \<Rightarrow>
          (s0, Inr ((MODecision_zero D)\<lparr>od_time := bar_Time bar, od_price := bar_Close bar, od_reason := ''warming_up''\<rparr>))
      | Inr (Some value) \<Rightarrow>
          (case MO_ingest D bar value s0 of
             (s, Some err) \<Rightarrow> (s, Inl err)
           | (s, None) \<Rightarrow>
               (s, rbind (signed_diff D s) (\<lambda>sdiff.
                     let d = \<lparr>od_time = bar_Time bar, od_bondID = mo_baseAssetID s, od_price = bar_Close bar,
                       od_signal = SignalHold, od_positionSize = mf_MaxPositionSize (mo_cfg s), od_reason = ''warming_up'',
                       od_FastMA = Rolling_Mean (mo_fastWin s), od_SlowMA = Rolling_Mean (mo_slowWin s),
                       od_ATR = Rolling_Mean (mo_atrWin s), od_SeriesValue = value, od_Trend = []\<rparr>
                     in Inr (volumeGate D s bar (crossover D (windowsReady s) sdiff d))))))"

section \<open>Exit bands\<close>

text \<open>A band level: \<open>None\<close> without a level. A failing multiplication also hides the bands after it.\<close>

definition stop_level :: "'d decimal_ops \<Rightarrow> 'd MOConfig \<Rightarrow> Signal \<Rightarrow> 'd \<Rightarrow> 'd \<Rightarrow> 'd option" where
  "stop_level D cfg openSignal entryPrice stopDist =
     (case (case openSignal of
              SignalBuy \<Rightarrow> d_sub D entryPrice stopDist
            | SignalSell \<Rightarrow> d_add D entryPrice stopDist
            | SignalHold \<Rightarrow> (d_zero D, None)) of
        (l, None) \<Rightarrow> Some l | (_, Some _) \<Rightarrow> None)"

definition tp_level :: "'d decimal_ops \<Rightarrow> 'd MOConfig \<Rightarrow> Signal \<Rightarrow> 'd \<Rightarrow> 'd \<Rightarrow> 'd option" where
  "tp_level D cfg openSignal entryPrice tpDist =
     (case (case openSignal of
              SignalBuy \<Rightarrow> d_add D entryPrice tpDist
            | SignalSell \<Rightarrow> d_sub D entryPrice tpDist
            | SignalHold \<Rightarrow> (d_zero D, None)) of
        (l, None) \<Rightarrow> Some l | (_, Some _) \<Rightarrow> None)"

definition take_band :: "'d decimal_ops \<Rightarrow> 'd MOConfig \<Rightarrow> Signal \<Rightarrow> 'd \<Rightarrow> 'd \<Rightarrow> 'd option" where
  "take_band D cfg openSignal entryPrice entryATR =
     (if \<not> d_IsPos D (mf_TakeProfitATR cfg) then None
      else case d_mul D (mf_TakeProfitATR cfg) entryATR of
             (_, Some _) \<Rightarrow> None
           | (tpDist, None) \<Rightarrow> tp_level D cfg openSignal entryPrice tpDist)"

definition bandLevels :: "'d decimal_ops \<Rightarrow> 'd MOConfig \<Rightarrow> Signal \<Rightarrow> 'd \<Rightarrow> 'd \<Rightarrow> 'd option \<times> 'd option" where
  "bandLevels D cfg openSignal entryPrice entryATR =
     (if \<not> d_IsPos D entryATR then (None, None)
      else if \<not> d_IsPos D (mf_StopLossATR cfg) then (None, take_band D cfg openSignal entryPrice entryATR)
      else case d_mul D (mf_StopLossATR cfg) entryATR of
             (_, Some _) \<Rightarrow> (None, None)
           | (stopDist, None) \<Rightarrow>
               (stop_level D cfg openSignal entryPrice stopDist, take_band D cfg openSignal entryPrice entryATR))"

definition crosses_stop :: "'d decimal_ops \<Rightarrow> Signal \<Rightarrow> 'd \<Rightarrow> 'd option \<Rightarrow> bool" where
  "crosses_stop D openSignal price stop =
     (case stop of
        None \<Rightarrow> False
      | Some l \<Rightarrow> (case openSignal of SignalBuy \<Rightarrow> d_cmp D price l \<le> 0 | SignalSell \<Rightarrow> d_cmp D price l \<ge> 0 | SignalHold \<Rightarrow> False))"

definition crosses_tp :: "'d decimal_ops \<Rightarrow> Signal \<Rightarrow> 'd \<Rightarrow> 'd option \<Rightarrow> bool" where
  "crosses_tp D openSignal price tp =
     (case tp of
        None \<Rightarrow> False
      | Some l \<Rightarrow> (case openSignal of SignalBuy \<Rightarrow> d_cmp D price l \<ge> 0 | SignalSell \<Rightarrow> d_cmp D price l \<le> 0 | SignalHold \<Rightarrow> False))"

definition bandExit :: "'d decimal_ops \<Rightarrow> 'd MOConfig \<Rightarrow> Signal \<Rightarrow> 'd \<Rightarrow> 'd \<Rightarrow> 'd \<Rightarrow> string option" where
  "bandExit D cfg openSignal entryPrice entryATR price =
     (case bandLevels D cfg openSignal entryPrice entryATR of
        (stop, tp) \<Rightarrow>
          if crosses_stop D openSignal price stop then Some ''stop_loss''
          else if crosses_tp D openSignal price tp then Some ''take_profit'' else None)"

definition MO_ShouldExit :: "'d decimal_ops \<Rightarrow> 'd MOConfig \<Rightarrow> Signal \<Rightarrow> 'd MODecision \<Rightarrow> 'd \<Rightarrow> 'd \<Rightarrow> string option" where
  "MO_ShouldExit D cfg openSignal d entryPrice entryATR =
     (case bandExit D cfg openSignal entryPrice entryATR (od_price d) of
        Some reason \<Rightarrow> Some reason
      | None \<Rightarrow>
          if openSignal = SignalBuy \<and> od_signal d = SignalSell then Some ''reversal''
          else if openSignal = SignalSell \<and> od_signal d = SignalBuy then Some ''reversal''
          else None)"

section \<open>Benchmark yields\<close>

definition MO_cachedYield :: "'d decimal_ops \<Rightarrow> 'd Observation list \<Rightarrow> gtime \<Rightarrow> 'd option" where
  "MO_cachedYield D cache ts =
     (case cachedBenchmarkYield D cache ts of (yield, _, ok) \<Rightarrow> if ok then Some yield else None)"

definition latestCachedBenchmarkDate :: "'d Observation list \<Rightarrow> gtime option" where
  "latestCachedBenchmarkDate cache = (if cache = [] then None else Some (ob_Date (last cache)))"

definition fetchMinInterval :: int where
  "fetchMinInterval = 5 * minute_ns"

definition recordErr_MO :: "gerror \<Rightarrow> 'd MOStrategy \<Rightarrow> 'd MOStrategy" where
  "recordErr_MO err s = s\<lparr>mo_errs := mo_errs s @ [err]\<rparr>"

definition noteBenchmarkFetch :: "gtime \<Rightarrow> 'd MOStrategy \<Rightarrow> 'd MOStrategy" where
  "noteBenchmarkFetch ts s = s\<lparr>mo_lastBenchmarkFetchAt := ts\<rparr>"

definition MO_getBenchmarkYield ::
  "'d decimal_ops \<Rightarrow> 'd MREnv \<Rightarrow> gtime \<Rightarrow> 'd MOStrategy \<Rightarrow> 'd MOStrategy \<times> 'd option" where
  "MO_getBenchmarkYield D E ts s =
     (let cache = mo_benchmarkObservations s; normedTS = NormalizeDate ts; cached = MO_cachedYield D cache ts in
      if cached \<noteq> None \<and> (case latestCachedBenchmarkDate cache of None \<Rightarrow> False | Some d \<Rightarrow> \<not> time_Before d normedTS)
      then (s, cached)
      else if \<not> time_IsZero (mo_lastBenchmarkFetchAt s) \<and> time_Sub ts (mo_lastBenchmarkFetchAt s) < fetchMinInterval
      then (s, cached)
      else case ParseBenchmarkTenor (mf_Tenor (mo_cfg s)) of
          Inl err \<Rightarrow> (noteBenchmarkFetch ts (recordErr_MO (''get benchmark yield: parse tenor: '' @ err) s), cached)
        | Inr tenor \<Rightarrow>
            (case me_fredClient E of
               Some err \<Rightarrow> (noteBenchmarkFetch ts (recordErr_MO (''get benchmark yield: get client: '' @ err) s), cached)
             | None \<Rightarrow>
                 let s = noteBenchmarkFetch ts s in
                 (case me_fredFetch E tenor (time_Add normedTS (- (10 * day_ns))) normedTS of
                    (_, Some err) \<Rightarrow> (recordErr_MO (''get benchmark yield: fred fetch: '' @ err) s, cached)
                  | (obs, None) \<Rightarrow>
                      if obs = [] then (s, cached)
                      else
                        let s = s\<lparr>mo_benchmarkObservations := mergeBenchmarkObservations cache obs\<rparr> in
                        (s, case MO_cachedYield D (mo_benchmarkObservations s) ts of
                              Some fresh \<Rightarrow> Some fresh | None \<Rightarrow> cached))))"

end
