(* ===== verification/MO_Loop.thy ===== *)
theory MO_Loop
  imports MO_Model
begin

text \<open>
  Sizing, orders, starting balances and the live loop of the momentum strategy: \<open>cappedOrderQuantity\<close> to
  \<open>closePosition\<close>, \<open>executeDecision\<close>, \<open>Run\<close> and \<open>run\<close> of \<open>src/strategy/momentum/strategy.go\<close>,
  \<open>balances.go\<close> and \<open>requireCandleCoverage\<close> of \<open>historical_data.go\<close>.

  \<^item> \<open>mo_step\<close> is one pass of the \<open>select\<close>, \<open>MO_Run\<close> everything before the loop; a prices message is the list
    of its entries in the order the map iteration takes them, each with its own answers.
  \<^item> The answers of the exchange and the feed while a run starts are the fields of \<open>MRSetup\<close>.
\<close>

section \<open>Sizing\<close>

definition MO_effective_capital :: "'d decimal_ops \<Rightarrow> 'd MOStrategy \<Rightarrow> 'd res" where
  "MO_effective_capital D s =
     rbind (tryv (d_mul D (mf_InitialBalance (mo_cfg s)) (mo_collateralWeight s))) (\<lambda>c.
     tryv (d_mul D c (mf_Leverage (mo_cfg s))))"

text \<open>The limits on the size of an order at the end of \<open>cappedOrderQuantity\<close>.\<close>

definition limit_quantity :: "'d decimal_ops \<Rightarrow> 'd MOConfig \<Rightarrow> 'd \<Rightarrow> 'd option" where
  "limit_quantity D cfg quantity =
     (let quantity = (if d_IsPos D (mf_MaxOrderSize cfg) \<and> d_cmp D quantity (mf_MaxOrderSize cfg) > 0
                      then mf_MaxOrderSize cfg else quantity) in
      if d_IsPos D (mf_MinOrderSize cfg) \<and> d_cmp D quantity (mf_MinOrderSize cfg) < 0 then None
      else if d_IsZero D quantity \<or> d_IsNeg D quantity then None
      else Some quantity)"

definition MO_cappedOrderQuantity ::
  "'d decimal_ops \<Rightarrow> 'd MOStrategy \<Rightarrow> 'd \<Rightarrow> 'd \<Rightarrow> 'd \<Rightarrow> 'd option res" where
  "MO_cappedOrderQuantity D s positionSize position price =
     (if d_IsNeg D positionSize then Inl ''position size must be non-negative''
      else if d_IsZero D price then Inl ''price is zero''
      else
        rbind (MO_effective_capital D s) (\<lambda>effectiveCapital.
        rbind (tryv (d_mul D effectiveCapital positionSize)) (\<lambda>budget.
        if \<not> d_IsPos D budget then Inr None
        else
          rbind (tryv (d_mul D position price)) (\<lambda>value.
          let positionValue = (if d_IsNeg D value then d_zero D else value) in
          if d_cmp D positionValue effectiveCapital \<ge> 0 then Inr None
          else
            rbind (tryv (d_sub D effectiveCapital positionValue)) (\<lambda>remainingBudget.
            let budget = (if d_cmp D budget remainingBudget > 0 then remainingBudget else budget) in
            rbind (tryv (d_quo D budget price)) (\<lambda>quantity. Inr (limit_quantity D (mo_cfg s) quantity)))))))"

section \<open>Orders\<close>

definition MO_currentPosition :: "'d decimal_ops \<Rightarrow> 'd MREnv \<Rightarrow> string \<Rightarrow> 'd res" where
  "MO_currentPosition D E assetID =
     (if TrimSpace assetID = [] then Inl ''asset ID is required''
      else rbind (tryv (me_AssetPosition E assetID)) (\<lambda>(long, short).
        Inr (if d_IsZero D long \<and> d_IsZero D short then d_zero D
             else if d_IsZero D short then long
             else d_neg D short)))"

definition MO_recordDecision :: "'d MREnv \<Rightarrow> 'd DecisionRow \<Rightarrow> 'd MOStrategy \<Rightarrow> 'd MOStrategy \<times> 'd Effect list" where
  "MO_recordDecision E d s =
     (if \<not> mo_decisionStore s then (s, [])
      else
        let s = s\<lparr>mo_decisionSeq := wrap64 (mo_decisionSeq s + 1)\<rparr>;
            d = d\<lparr>dr_RunID := mo_runID s, dr_Seq := mo_decisionSeq s, dr_StrategyType := ''momentum'',
                  dr_CreatedAt := (if time_IsZero (dr_CreatedAt d) then time_UTC (me_Now E) else dr_CreatedAt d)\<rparr>
        in (s, [EDecision d (me_SaveDecision E d)]))"

definition MO_decision_row ::
  "'d MREnv \<Rightarrow> 'd MOStrategy \<Rightarrow> string \<Rightarrow> string \<Rightarrow> 'd \<Rightarrow> DecisionKind \<Rightarrow> string \<Rightarrow> string \<Rightarrow> 'd OrderRequest \<Rightarrow>
     'd DecisionRow" where
  "MO_decision_row E s assetID sig price kind reason detail req =
     \<lparr>dr_RunID = [], dr_Seq = 0, dr_StrategyType = [], dr_OrderBookID = mf_OrderBookID (mo_cfg s),
      dr_Asset = MustParseUUID (me_ParseUUID E) assetID, dr_Side = Side_string (oreq_Side req), dr_Signal = sig,
      dr_Quantity = oreq_Quantity req, dr_Price = price, dr_Leverage = mf_Leverage (mo_cfg s),
      dr_InverseLeverage = oreq_InverseLeverage req, dr_FromGlobal = False, dr_Kind = kind, dr_Reason = reason,
      dr_ReasonDetail = detail, dr_CreatedAt = time_zero, dr_ClientOrderID = oreq_ClientOrderID req\<rparr>"

definition MO_request :: "'d MREnv \<Rightarrow> 'd MOStrategy \<Rightarrow> Side \<Rightarrow> 'd \<Rightarrow> 'd \<Rightarrow> 'd OrderRequest" where
  "MO_request E s side qty il =
     \<lparr>oreq_Book = mf_OrderBookID (mo_cfg s), oreq_Side = side, oreq_Quantity = qty, oreq_InverseLeverage = il,
      oreq_FromGlobal = False, oreq_ClientOrderID = BuildClientOrderID ''momentum'' (mo_runID s) (me_NewV7 E)\<rparr>"

definition MO_set_flat :: "'d decimal_ops \<Rightarrow> 'd MOStrategy \<Rightarrow> 'd MOStrategy" where
  "MO_set_flat D s =
     (if mo_balancesInitialized s then s\<lparr>mo_bondQty := d_zero D\<rparr> else s)
       \<lparr>mo_openSignal := SignalHold, mo_entryPrice := d_zero D, mo_entryATR := d_zero D\<rparr>"

definition MO_close_request :: "'d decimal_ops \<Rightarrow> 'd MREnv \<Rightarrow> 'd MOStrategy \<Rightarrow> 'd \<Rightarrow> 'd OrderRequest" where
  "MO_close_request D E s qty =
     MO_request E s (if d_IsNeg D qty then SIDE_BUY else SIDE_SELL) (if d_IsNeg D qty then d_neg D qty else qty)
       (case d_quo D (d_one D) (mf_Leverage (mo_cfg s)) of (v, None) \<Rightarrow> v | (_, Some _) \<Rightarrow> d_one D)"

text \<open>Sending the closing order: a failed order heals the tracking state when the live position is zero.\<close>

definition MO_close_order ::
  "'d decimal_ops \<Rightarrow> 'd MREnv \<Rightarrow> string \<Rightarrow> 'd OrderRequest \<Rightarrow> 'd MOStrategy \<Rightarrow>
     'd MOStrategy \<times> gerror option \<times> 'd Effect list" where
  "MO_close_order D E assetID req s =
     (let resp = me_CreateMarketOrder E req in
      case snd resp of
        Some err \<Rightarrow>
          (case MO_currentPosition D E assetID of
             Inr liveQty \<Rightarrow>
               if d_IsZero D liveQty then (MO_set_flat D s, None, [EOrder req resp])
               else (s, Some err, [EOrder req resp])
           | Inl _ \<Rightarrow> (s, Some err, [EOrder req resp]))
      | None \<Rightarrow>
          let closeSignal = (if oreq_Side req = SIDE_BUY then SignalBuy else SignalSell) in
          (case MO_recordDecision E (MO_decision_row E s assetID (Signal_String closeSignal) (mo_lastPrice s)
               DecisionKindClose ''trend_exit'' ''close: trend reversal or stop/take hit'' req) s of
             (s, eff) \<Rightarrow> (MO_set_flat D s, None, EOrder req resp # eff)))"

definition MO_position :: "'d decimal_ops \<Rightarrow> 'd MREnv \<Rightarrow> string \<Rightarrow> 'd MOStrategy \<Rightarrow> 'd res" where
  "MO_position D E assetID s = (if mo_balancesInitialized s then Inr (mo_bondQty s) else MO_currentPosition D E assetID)"

definition MO_closePosition ::
  "'d decimal_ops \<Rightarrow> 'd MREnv \<Rightarrow> string \<Rightarrow> 'd MOStrategy \<Rightarrow> 'd MOStrategy \<times> gerror option \<times> 'd Effect list" where
  "MO_closePosition D E assetID s =
     (case MO_position D E assetID s of
        Inl err \<Rightarrow> (s, Some err, [])
      | Inr qty \<Rightarrow>
          if d_IsZero D qty then (MO_set_flat D s, None, [])
          else MO_close_order D E assetID (MO_close_request D E s qty) s)"

text \<open>Booking an accepted opening order and anchoring the exit bands.\<close>

definition MO_apply_fill :: "'d decimal_ops \<Rightarrow> Side \<Rightarrow> 'd \<Rightarrow> 'd MODecision \<Rightarrow> 'd MOStrategy \<Rightarrow> 'd MOStrategy" where
  "MO_apply_fill D side quantity decision s =
     (let price = od_price decision;
          s = (if mo_balancesInitialized s then
                 let s = (if side = SIDE_BUY
                          then s\<lparr>mo_bondQty := fst (d_add D (mo_bondQty s) quantity),
                                 mo_usdBal := fst (d_sub D (mo_usdBal s) (fst (d_mul D quantity price)))\<rparr>
                          else s\<lparr>mo_bondQty := fst (d_sub D (mo_bondQty s) quantity),
                                 mo_usdBal := fst (d_add D (mo_usdBal s) (fst (d_mul D quantity price)))\<rparr>)
                 in s\<lparr>mo_openSignal := signalFromBondQty D (mo_bondQty s)\<rparr>
               else s\<lparr>mo_openSignal := od_signal decision\<rparr>)
      in s\<lparr>mo_entryPrice := price, mo_entryATR := od_ATR decision\<rparr>)"

definition MO_open_order ::
  "'d decimal_ops \<Rightarrow> 'd MREnv \<Rightarrow> 'd MODecision \<Rightarrow> string \<Rightarrow> 'd OrderRequest \<Rightarrow> 'd MOStrategy \<Rightarrow>
     'd MOStrategy \<times> bool res \<times> 'd Effect list" where
  "MO_open_order D E decision assetID req s =
     (let resp = me_CreateMarketOrder E req in
      case snd resp of
        Some err \<Rightarrow> (s, Inl err, [EOrder req resp])
      | None \<Rightarrow>
          (case MO_recordDecision E (MO_decision_row E s assetID (Signal_String (od_signal decision)) (od_price decision)
               DecisionKindOpen ''ma_crossover_entry''
               (''ma crossover entry: fastMA='' @ me_String E (od_FastMA decision) @ '' slowMA='' @
                  me_String E (od_SlowMA decision) @ '' signal='' @ Signal_String (od_signal decision)) req) s of
             (s, eff) \<Rightarrow> (MO_apply_fill D (oreq_Side req) (oreq_Quantity req) decision s, Inr True, EOrder req resp # eff)))"

definition MO_open_quantity ::
  "'d decimal_ops \<Rightarrow> 'd MREnv \<Rightarrow> 'd MODecision \<Rightarrow> string \<Rightarrow> 'd MOStrategy \<Rightarrow> 'd option res" where
  "MO_open_quantity D E decision assetID s =
     rbind (MO_position D E assetID s) (\<lambda>position.
     if d_IsZero D (od_price decision) then Inl ''cannot execute decision: price is zero''
     else MO_cappedOrderQuantity D s (od_positionSize decision) position (od_price decision))"

definition MO_executeDecision ::
  "'d decimal_ops \<Rightarrow> 'd MREnv \<Rightarrow> 'd MODecision \<Rightarrow> string \<Rightarrow> 'd MOStrategy \<Rightarrow>
     'd MOStrategy \<times> bool res \<times> 'd Effect list" where
  "MO_executeDecision D E decision assetID s =
     (if od_signal decision = SignalHold then (s, Inr False, [])
      else
        case MO_open_quantity D E decision assetID s of
          Inl err \<Rightarrow> (s, Inl err, [])
        | Inr None \<Rightarrow> (s, Inr False, [])
        | Inr (Some quantity) \<Rightarrow>
            if d_IsZero D quantity then (s, Inr False, [])
            else
              let side = (if od_signal decision = SignalSell then SIDE_SELL else SIDE_BUY) in
              (case tryv (d_quo D (d_one D) (mf_Leverage (mo_cfg s))) of
                 Inl err \<Rightarrow> (s, Inl (''compute inverse leverage: '' @ err), [])
               | Inr inverseLeverage \<Rightarrow>
                   MO_open_order D E decision assetID (MO_request E s side quantity inverseLeverage) s))"

section \<open>Starting balances and the anchor of an inherited position\<close>

text \<open>The result tells whether the portfolio converged.\<close>

definition MO_initializeBalancesFromPortfolio ::
  "'d decimal_ops \<Rightarrow> (string \<times> AccountV2) list \<Rightarrow> string \<Rightarrow> string \<Rightarrow> bool \<Rightarrow> 'd MOStrategy \<Rightarrow> 'd MOStrategy \<times> bool" where
  "MO_initializeBalancesFromPortfolio D accounts base quote fromGlobal s =
     (case InitialBalancesFromPortfolio D accounts fromGlobal base quote of
        Inl err \<Rightarrow> (recordErr_MO (''initialise balances: '' @ err) s, False)
      | Inr None \<Rightarrow> (s, False)
      | Inr (Some (bal, sig)) \<Rightarrow>
          (s\<lparr>mo_usdBal := ab_USD bal, mo_bondQty := ab_Bond bal,
             mo_cfg := (mo_cfg s)\<lparr>mf_InitialBalance := ab_USD bal\<rparr>, mo_openSignal := sig\<rparr>, True))"

definition legacyBalances :: "'d decimal_ops \<Rightarrow> 'd MREnv \<Rightarrow> string \<Rightarrow> string \<Rightarrow> 'd MOStrategy \<Rightarrow> 'd MOStrategy" where
  "legacyBalances D E base quote s =
     (let s = (case me_AssetPosition E base of
                 (_, Some err) \<Rightarrow> recordErr_MO (''initialise balances: get bond position: '' @ err) s
               | ((bondAvailable, bondBorrowed), None) \<Rightarrow>
                   s\<lparr>mo_bondQty := (if \<not> d_IsZero D bondBorrowed then d_neg D bondBorrowed else bondAvailable)\<rparr>);
          s = (case me_AssetPosition E quote of
                 (_, Some err) \<Rightarrow> recordErr_MO (''initialise balances: get USD balance: '' @ err) s
               | ((usdAvailable, _), None) \<Rightarrow>
                   s\<lparr>mo_usdBal := usdAvailable, mo_cfg := (mo_cfg s)\<lparr>mf_InitialBalance := usdAvailable\<rparr>\<rparr>)
      in s\<lparr>mo_balancesInitialized := True, mo_openSignal := signalFromBondQty D (mo_bondQty s)\<rparr>)"

definition MO_initializeBalances :: "'d decimal_ops \<Rightarrow> 'd MREnv \<Rightarrow> string \<Rightarrow> 'd MOStrategy \<Rightarrow> 'd MOStrategy" where
  "MO_initializeBalances D E base s =
     (case me_QuoteAssetID E of
        (_, Some err) \<Rightarrow> recordErr_MO (''initialise balances: get quote asset: '' @ err) s
      | (quote, None) \<Rightarrow>
          (case me_GetPortfolioV2 E of
             (Some accounts, None) \<Rightarrow>
               (case MO_initializeBalancesFromPortfolio D accounts base quote False s of
                  (s, converged) \<Rightarrow>
                    if converged then s\<lparr>mo_balancesInitialized := True\<rparr> else legacyBalances D E base quote s)
           | _ \<Rightarrow> legacyBalances D E base quote s))"

definition seedResumeAnchor :: "'d decimal_ops \<Rightarrow> 'd MOStrategy \<Rightarrow> 'd MOStrategy" where
  "seedResumeAnchor D s =
     (if mo_openSignal s = SignalHold \<or> \<not> d_IsZero D (mo_entryPrice s) \<or> d_IsPos D (mo_entryATR s) then s
      else if d_IsZero D (mo_lastPrice s) \<or> \<not> Rolling_Ready (mo_atrWin s) then s
      else s\<lparr>mo_entryPrice := mo_lastPrice s, mo_entryATR := Rolling_Mean (mo_atrWin s)\<rparr>)"

section \<open>The loop\<close>

datatype 'd MOEvent =
    MOCtxDone
  | MOMsg Message
  | MOBar "'d MREnv" "'d Bar"
  | MOPrices "('d MREnv \<times> 'd AssetPrice) list"
  | MOTick

record 'd MOLoop =
  mol_strat :: "'d MOStrategy"
  mol_assetID :: string
  mol_done :: bool

definition MO_log_err :: "gerror option \<Rightarrow> 'd MOStrategy \<Rightarrow> 'd MOStrategy" where
  "MO_log_err err s = (case err of None \<Rightarrow> s | Some e \<Rightarrow> recordErr_MO e s)"

definition MO_close :: "'d decimal_ops \<Rightarrow> 'd MREnv \<Rightarrow> string \<Rightarrow> 'd MOStrategy \<Rightarrow> 'd MOStrategy \<times> 'd Effect list" where
  "MO_close D E assetID s = (case MO_closePosition D E assetID s of (s, err, eff) \<Rightarrow> (MO_log_err err s, eff))"

text \<open>The benchmark of a bar in spread mode: \<open>None\<close> skips the bar.\<close>

definition bar_benchmark :: "'d decimal_ops \<Rightarrow> 'd MREnv \<Rightarrow> 'd Bar \<Rightarrow> 'd MOStrategy \<Rightarrow> 'd MOStrategy \<times> 'd Bar option" where
  "bar_benchmark D E bar s =
     (if mf_SignalSource (mo_cfg s) = ''spread''
      then (case MO_getBenchmarkYield D E (time_Add (bar_Time bar) (ResolutionDuration (mf_Resolution (mo_cfg s)))) s of
              (s, bench) \<Rightarrow> (s, map_option (\<lambda>y. bar\<lparr>bar_BenchmarkYield := y\<rparr>) bench))
      else (s, Some bar))"

text \<open>After \<open>Update\<close>: \<open>s0\<close> is the snapshot taken before it.\<close>

definition MO_act ::
  "'d decimal_ops \<Rightarrow> 'd MREnv \<Rightarrow> string \<Rightarrow> 'd MOStrategy \<Rightarrow> 'd MODecision \<Rightarrow> 'd MOStrategy \<Rightarrow> 'd MOStrategy \<times> 'd Effect list" where
  "MO_act D E assetID s0 decision s =
     (if mo_paused s0 then (s, [])
      else if mo_openSignal s0 \<noteq> SignalHold then
        if windowsReady s0 \<and> MO_ShouldExit D (mo_cfg s) (mo_openSignal s0) decision (mo_entryPrice s0) (mo_entryATR s0) \<noteq> None
        then MO_close D E assetID s
        else (s, [])
      else if od_signal decision = SignalHold then (s, [])
      else (case MO_executeDecision D E decision assetID s of
          (s, Inl err, eff) \<Rightarrow> (recordErr_MO err s, eff)
        | (s, Inr _, eff) \<Rightarrow> (s, eff)))"

definition MO_handle_bar ::
  "'d decimal_ops \<Rightarrow> 'd MREnv \<Rightarrow> string \<Rightarrow> 'd Bar \<Rightarrow> 'd MOStrategy \<Rightarrow> 'd MOStrategy \<times> 'd Effect list" where
  "MO_handle_bar D E assetID bar0 s =
     (case bar_benchmark D E bar0 s of
        (s0, None) \<Rightarrow> (s0, [])
      | (s0, Some bar) \<Rightarrow>
          (case MO_Update D bar s0 of
             (s, Inl err) \<Rightarrow> (s, [])
           | (s, Inr decision) \<Rightarrow> MO_act D E assetID s0 decision (seedResumeAnchor D s)))"

definition MO_handle_price ::
  "'d decimal_ops \<Rightarrow> 'd MREnv \<Rightarrow> string \<Rightarrow> 'd AssetPrice \<Rightarrow> 'd MOStrategy \<Rightarrow> 'd MOStrategy \<times> 'd Effect list" where
  "MO_handle_price D E assetID px s =
     (if ap_AssetID px \<noteq> assetID then (s, [])
      else if mo_paused s \<or> mo_openSignal s = SignalHold then (s, [])
      else if bandExit D (mo_cfg s) (mo_openSignal s) (mo_entryPrice s) (mo_entryATR s) (ap_Price px) \<noteq> None
      then MO_close D E assetID s
      else (s, []))"

definition MO_handle_prices ::
  "'d decimal_ops \<Rightarrow> string \<Rightarrow> ('d MREnv \<times> 'd AssetPrice) list \<Rightarrow> 'd MOStrategy \<Rightarrow> 'd MOStrategy \<times> 'd Effect list" where
  "MO_handle_prices D assetID pxs s = run_events (\<lambda>(E, px). MO_handle_price D E assetID px) pxs s"

definition mo_message :: "Message \<Rightarrow> 'd MOStrategy \<Rightarrow> 'd MOStrategy" where
  "mo_message msg s =
     (case msg of
        Pause \<Rightarrow> s\<lparr>mo_paused := True\<rparr>
      | Resume \<Rightarrow> s\<lparr>mo_paused := False\<rparr>
      | Stop \<Rightarrow> s\<lparr>mo_cancelled := True\<rparr>)"

definition mo_step :: "'d decimal_ops \<Rightarrow> 'd MOEvent \<Rightarrow> 'd MOLoop \<Rightarrow> 'd MOLoop \<times> 'd Effect list" where
  "mo_step D ev l =
     (if mol_done l then (l, [])
      else
        case ev of
          MOCtxDone \<Rightarrow> (l\<lparr>mol_done := True, mol_strat := (mol_strat l)\<lparr>mo_isRunning := False\<rparr>\<rparr>, [])
        | MOMsg msg \<Rightarrow> (l\<lparr>mol_strat := mo_message msg (mol_strat l)\<rparr>, [])
        | MOBar E bar \<Rightarrow>
            (case MO_handle_bar D E (mol_assetID l) bar (mol_strat l) of (s, eff) \<Rightarrow> (l\<lparr>mol_strat := s\<rparr>, eff))
        | MOPrices pxs \<Rightarrow>
            (case MO_handle_prices D (mol_assetID l) pxs (mol_strat l) of (s, eff) \<Rightarrow> (l\<lparr>mol_strat := s\<rparr>, eff))
        | MOTick \<Rightarrow> (l, []))"

section \<open>Starting a run\<close>

definition MO_run_setup :: "'d decimal_ops \<Rightarrow> 'd MRSetup \<Rightarrow> 'd MOStrategy \<Rightarrow> 'd MOStrategy \<times> 'd MOLoop res" where
  "MO_run_setup D S s =
     (let ob = mf_OrderBookID (mo_cfg s) in
      case LookupAssetID (su_client S) (su_BaseAssetID S) ob of
        Inl err \<Rightarrow> (s, Inl (''error looking up asset ID: '' @ err))
      | Inr assetID \<Rightarrow>
          let s = s\<lparr>mo_baseAssetID := assetID\<rparr>;
              s = (case su_AssetCollateralWeight S assetID of
                     (_, Some _) \<Rightarrow> s | (cw, None) \<Rightarrow> s\<lparr>mo_collateralWeight := cw\<rparr>)
          in if \<not> su_candleFeed S then (s, Inl ''candle feed not configured'')
             else (case requireCandleCoverage S of
                 Some err \<Rightarrow> (s, Inl err)
               | None \<Rightarrow>
                   let warmup = wrap64 (wrap64 (mf_SlowWindow (mo_cfg s) + 1) * ResolutionDuration (mf_Resolution (mo_cfg s))) in
                   (case su_SubscribeBars S ob (mf_Resolution (mo_cfg s))
                        (time_Add (time_UTC (me_Now (su_env S))) (wrap64 (- warmup))) of
                      Some err \<Rightarrow> (s, Inl (''failed to subscribe to bars: '' @ err))
                    | None \<Rightarrow>
                        let s = seedResumeAnchor D (MO_initializeBalances D (su_env S) assetID s) in
                        (s, Inr \<lparr>mol_strat = s, mol_assetID = assetID, mol_done = False\<rparr>))))"

definition MO_Run :: "'d decimal_ops \<Rightarrow> 'd MRSetup \<Rightarrow> string \<Rightarrow> 'd MOStrategy \<Rightarrow> 'd MOStrategy \<times> 'd MOLoop res" where
  "MO_Run D S runID s0 =
     (let s = s0\<lparr>mo_runID := runID\<rparr> in
      if mo_isRunning s then (s, Inl ''strategy is already running'')
      else if \<not> su_client S then (s, Inl ''momentum: market API client not configured: use WithMarketAPIClient'')
      else
        let s = s\<lparr>mo_cancelled := False\<rparr> in
        case su_subscribePrices S of
          Some err \<Rightarrow> (s, Inl (''failed to subscribe to prices: '' @ err))
        | None \<Rightarrow>
            (case MO_run_setup D S (s\<lparr>mo_isRunning := True\<rparr>) of
               (s, Inl err) \<Rightarrow> (s\<lparr>mo_isRunning := False\<rparr>, Inl err)
             | (s, Inr l) \<Rightarrow> (s, Inr l)))"

end
