(* ===== verification/MO_Backtest.thy ===== *)
theory MO_Backtest
  imports MO_Loop MR_Backtest
begin

text \<open>
  The momentum backtest: \<open>src/strategy/momentum/backtest.go\<close>, its record types (\<open>types.go\<close>), and the
  loading of its inputs (\<open>Backtest\<close> in \<open>strategy.go\<close>, \<open>getBars\<close>, \<open>PreflightBacktest\<close> and \<open>loadTicks\<close> in
  \<open>historical_data.go\<close>).

  The layout is that of the mean-reversion backtest, whose \<open>tickWindow\<close>, trading window and
  \<open>checkCandleCoverage\<close> are the same text in this package and share their definitions. Copying the
  result rows to a store (\<open>streamTrades\<close>) is left out.
\<close>

section \<open>Records\<close>

record 'd MOTradeRecord =
  otr_Time :: gtime
  otr_BondID :: string
  otr_Signal :: Signal
  otr_Price :: 'd
  otr_Quantity :: 'd
  otr_PositionSize :: 'd
  otr_FastMA :: 'd
  otr_SlowMA :: 'd
  otr_EntryATR :: 'd

record 'd MOClosedTrade =
  oct_BondID :: string
  oct_OpenTime :: gtime
  oct_CloseTime :: gtime
  oct_Signal :: Signal
  oct_ExitSignal :: Signal
  oct_EntryPrice :: 'd
  oct_ExitPrice :: 'd
  oct_EntryATR :: 'd
  oct_Quantity :: 'd
  oct_PositionSize :: 'd
  oct_PnL :: 'd
  oct_ExitReason :: string

record 'd MOResult =
  mor_ClosedTrades :: "'d MOClosedTrade list"
  mor_TradeRecords :: "'d MOTradeRecord list"
  mor_Summary :: "'d Summary"

record 'd MOState =
  ox_strat :: "'d MOStrategy"
  ox_closed :: "'d MOClosedTrade list"
  ox_records :: "'d MOTradeRecord list"
  ox_open :: "'d MOTradeRecord option"
  ox_last :: "'d MODecision"
  ox_ticks :: "'d AssetPrice list"
  ox_prevTicks :: bool

section \<open>Exits\<close>

definition stopFill :: "'d decimal_ops \<Rightarrow> Signal \<Rightarrow> 'd \<Rightarrow> 'd \<Rightarrow> 'd" where
  "stopFill D openSignal level opn =
     (if openSignal = SignalBuy then (if d_cmp D opn level < 0 then opn else level)
      else if d_cmp D opn level > 0 then opn else level)"

definition tpFill :: "'d decimal_ops \<Rightarrow> Signal \<Rightarrow> 'd \<Rightarrow> 'd \<Rightarrow> 'd" where
  "tpFill D openSignal level opn =
     (if openSignal = SignalBuy then (if d_cmp D opn level > 0 then opn else level)
      else if d_cmp D opn level < 0 then opn else level)"

definition MO_exitForBar ::
  "'d decimal_ops \<Rightarrow> 'd MOConfig \<Rightarrow> 'd MOTradeRecord \<Rightarrow> 'd Bar \<Rightarrow> 'd MODecision \<Rightarrow> ('d \<times> string) option" where
  "MO_exitForBar D cfg tr bar decision =
     (let sig = otr_Signal tr;
          adverse = (if sig = SignalSell then bar_High bar else bar_Low bar);
          favorable = (if sig = SignalSell then bar_Low bar else bar_High bar)
      in case bandLevels D cfg sig (otr_Price tr) (otr_EntryATR tr) of
           (stop, tp) \<Rightarrow>
             if crosses_stop D sig adverse stop then Some (stopFill D sig (the stop) (bar_Open bar), ''stop_loss'')
             else if crosses_tp D sig favorable tp then Some (tpFill D sig (the tp) (bar_Open bar), ''take_profit'')
             else map_option (\<lambda>reason. (od_price decision, reason))
                    (MO_ShouldExit D cfg sig decision (otr_Price tr) (otr_EntryATR tr)))"

definition MO_computePnL :: "'d decimal_ops \<Rightarrow> 'd MOClosedTrade \<Rightarrow> 'd res" where
  "MO_computePnL D ct =
     rbind (tryv (d_mul D (oct_EntryPrice ct) (oct_Quantity ct))) (\<lambda>cost.
     rbind (tryv (d_mul D (oct_ExitPrice ct) (oct_Quantity ct))) (\<lambda>proceeds.
     case oct_Signal ct of
       SignalBuy \<Rightarrow> tryv (d_sub D proceeds cost)
     | SignalSell \<Rightarrow> tryv (d_sub D cost proceeds)
     | SignalHold \<Rightarrow> Inr (d_zero D)))"

definition MO_closeAtPrice ::
  "'d decimal_ops \<Rightarrow> 'd MOTradeRecord \<Rightarrow> 'd MODecision \<Rightarrow> string \<Rightarrow> 'd MOClosedTrade res" where
  "MO_closeAtPrice D tr d reason =
     (let ct = \<lparr>oct_BondID = otr_BondID tr, oct_OpenTime = otr_Time tr, oct_CloseTime = od_time d,
        oct_Signal = otr_Signal tr, oct_ExitSignal = od_signal d, oct_EntryPrice = otr_Price tr,
        oct_ExitPrice = od_price d, oct_EntryATR = otr_EntryATR tr, oct_Quantity = otr_Quantity tr,
        oct_PositionSize = otr_PositionSize tr, oct_PnL = d_zero D, oct_ExitReason = reason\<rparr>
      in rbind (MO_computePnL D ct) (\<lambda>pnl. Inr (ct\<lparr>oct_PnL := pnl\<rparr>)))"

definition exitRecord :: "'d MOTradeRecord \<Rightarrow> 'd MODecision \<Rightarrow> 'd MOTradeRecord" where
  "exitRecord tr d = \<lparr>otr_Time = od_time d, otr_BondID = otr_BondID tr, otr_Signal = otr_Signal tr, otr_Price = od_price d,
     otr_Quantity = otr_Quantity tr, otr_PositionSize = otr_PositionSize tr, otr_FastMA = od_FastMA d,
     otr_SlowMA = od_SlowMA d, otr_EntryATR = otr_EntryATR tr\<rparr>"

definition MO_close_trade ::
  "'d decimal_ops \<Rightarrow> 'd MOTradeRecord \<Rightarrow> 'd MODecision \<Rightarrow> string \<Rightarrow> 'd MOState \<Rightarrow> 'd MOState res" where
  "MO_close_trade D tr d reason st =
     rbind (MO_closeAtPrice D tr d reason) (\<lambda>ct.
     Inr (st\<lparr>ox_closed := ox_closed st @ [ct], ox_records := ox_records st @ [exitRecord tr d], ox_open := None\<rparr>))"

section \<open>The phases of a bar\<close>

definition MO_bt_update :: "'d decimal_ops \<Rightarrow> 'd Bar \<Rightarrow> 'd MOState \<Rightarrow> 'd MOState res" where
  "MO_bt_update D bar st =
     (case MO_Update D bar (ox_strat st) of
        (s, Inl err) \<Rightarrow> Inl err
      | (s, Inr decision) \<Rightarrow> Inr (st\<lparr>ox_strat := s, ox_last := decision\<rparr>))"

definition MO_bar_exit :: "'d decimal_ops \<Rightarrow> int \<Rightarrow> 'd Bar \<Rightarrow> 'd MOTradeRecord \<Rightarrow> 'd MOState \<Rightarrow> 'd MOState res" where
  "MO_bar_exit D res bar tr st =
     (let decision = ox_last st; cfg = mo_cfg (ox_strat st);
          choice = (if ox_prevTicks st
                    then map_option (\<lambda>reason. (od_price decision, reason))
                           (MO_ShouldExit D cfg (otr_Signal tr) decision (otr_Price tr) (otr_EntryATR tr))
                    else MO_exitForBar D cfg tr bar decision)
      in case choice of
           None \<Rightarrow> Inr st
         | Some (fillPrice, reason) \<Rightarrow>
             MO_close_trade D tr (decision\<lparr>od_price := fillPrice, od_time := time_Add (bar_Time bar) res\<rparr>) reason st)"

definition MO_entry_record :: "int \<Rightarrow> 'd MODecision \<Rightarrow> 'd \<Rightarrow> 'd MOTradeRecord" where
  "MO_entry_record res decision quantity =
     \<lparr>otr_Time = time_Add (od_time decision) res, otr_BondID = od_bondID decision, otr_Signal = od_signal decision,
      otr_Price = od_price decision, otr_Quantity = quantity, otr_PositionSize = od_positionSize decision,
      otr_FastMA = od_FastMA decision, otr_SlowMA = od_SlowMA decision, otr_EntryATR = od_ATR decision\<rparr>"

definition MO_bar_entry :: "'d decimal_ops \<Rightarrow> 'd Backtester \<Rightarrow> int \<Rightarrow> 'd Bar \<Rightarrow> 'd MOState \<Rightarrow> 'd MOState res" where
  "MO_bar_entry D b res bar st =
     (let decision = ox_last st in
      if od_signal decision \<noteq> SignalHold \<and> in_window b res bar
      then if d_IsZero D (od_price decision) then Inr st
           else
             rbind (MO_cappedOrderQuantity D (ox_strat st) (od_positionSize decision) (d_zero D) (od_price decision)) (\<lambda>q.
             case q of
               None \<Rightarrow> Inr st
             | Some quantity \<Rightarrow>
                 if d_IsZero D quantity then Inr st
                 else let rec = MO_entry_record res decision quantity in
                      Inr (st\<lparr>ox_records := ox_records st @ [rec], ox_open := Some rec\<rparr>))
      else Inr st)"

fun MO_tick_loop :: "'d decimal_ops \<Rightarrow> 'd MOTradeRecord \<Rightarrow> 'd AssetPrice list \<Rightarrow> 'd MOState \<Rightarrow> 'd MOState res" where
  "MO_tick_loop D tr [] st = Inr st"
| "MO_tick_loop D tr (tick # ticks) st =
     (case bandExit D (mo_cfg (ox_strat st)) (otr_Signal tr) (otr_Price tr) (otr_EntryATR tr) (ap_Price tick) of
        Some reason \<Rightarrow> MO_close_trade D tr ((ox_last st)\<lparr>od_price := ap_Price tick, od_time := ap_Time tick\<rparr>) reason st
      | None \<Rightarrow> MO_tick_loop D tr ticks st)"

definition MO_bar_ticks :: "'d decimal_ops \<Rightarrow> int \<Rightarrow> 'd Bar \<Rightarrow> gtime \<Rightarrow> 'd MOState \<Rightarrow> 'd MOState res" where
  "MO_bar_ticks D res bar nextClose st =
     (case ox_open st of
        None \<Rightarrow> Inr st
      | Some tr \<Rightarrow>
          (case tickWindow (ox_ticks st) (time_Add (bar_Time bar) res) nextClose of
             (rest, win) \<Rightarrow> MO_tick_loop D tr win (st\<lparr>ox_ticks := rest, ox_prevTicks := win \<noteq> []\<rparr>)))"

section \<open>The run\<close>

definition MO_bt_bar ::
  "'d decimal_ops \<Rightarrow> 'd Backtester \<Rightarrow> int \<Rightarrow> 'd Bar \<Rightarrow> 'd Bar list \<Rightarrow> 'd MOState \<Rightarrow> 'd MOState res" where
  "MO_bt_bar D b res bar later st =
     rbind (MO_bt_update D bar st) (\<lambda>st.
     rbind (case ox_open st of Some tr \<Rightarrow> MO_bar_exit D res bar tr st | None \<Rightarrow> MO_bar_entry D b res bar st) (\<lambda>st.
     MO_bar_ticks D res bar (next_close res bar later) st))"

fun MO_bt_loop ::
  "'d decimal_ops \<Rightarrow> 'd Backtester \<Rightarrow> int \<Rightarrow> (nat \<Rightarrow> bool) \<Rightarrow> nat \<Rightarrow> 'd Bar list \<Rightarrow> 'd MOState \<Rightarrow> 'd MOState res" where
  "MO_bt_loop D b res cancelled i [] st = Inr st"
| "MO_bt_loop D b res cancelled i (bar # later) st =
     (if cancelled i then Inl ''backtest cancelled by user''
      else rbind (MO_bt_bar D b res bar later st) (MO_bt_loop D b res cancelled (i + 1) later))"

definition MO_force_close :: "'d decimal_ops \<Rightarrow> int \<Rightarrow> 'd Bar list \<Rightarrow> 'd MOState \<Rightarrow> 'd MOState res" where
  "MO_force_close D res bars st =
     (case ox_open st of
        None \<Rightarrow> Inr st
      | Some tr \<Rightarrow>
          let lastBar = last bars; lastDecision = ox_last st;
              d = (MODecision_zero D)\<lparr>od_time := time_Add (bar_Time lastBar) res, od_bondID := otr_BondID tr,
                od_price := bar_Close lastBar, od_signal := od_signal lastDecision, od_FastMA := od_FastMA lastDecision,
                od_SlowMA := od_SlowMA lastDecision, od_ATR := od_ATR lastDecision\<rparr>
          in MO_close_trade D tr d ''strategy_exit'' st)"

definition MO_summarise ::
  "'d decimal_ops \<Rightarrow> 'd MOClosedTrade list \<Rightarrow> 'd MOTradeRecord list \<Rightarrow> gtime \<Rightarrow> gtime \<Rightarrow> 'd MOResult res" where
  "MO_summarise D trades records start finish =
     rbind (Summarise D (map (\<lambda>t. \<lparr>pp_PnL = oct_PnL t, pp_CloseTime = oct_CloseTime t\<rparr>) trades) start finish) (\<lambda>summary.
     Inr \<lparr>mor_ClosedTrades = trades, mor_TradeRecords = records, mor_Summary = summary\<rparr>)"

definition MO_bt_start :: "'d decimal_ops \<Rightarrow> 'd Backtester \<Rightarrow> 'd MOStrategy \<Rightarrow> 'd MOState" where
  "MO_bt_start D b s =
     \<lparr>ox_strat = s, ox_closed = [], ox_records = [], ox_open = None, ox_last = MODecision_zero D,
      ox_ticks = bt_ticks b, ox_prevTicks = False\<rparr>"

definition MO_Backtester_Run ::
  "'d decimal_ops \<Rightarrow> 'd Backtester \<Rightarrow> (nat \<Rightarrow> bool) \<Rightarrow> 'd MOStrategy \<Rightarrow> 'd Bar list \<Rightarrow> 'd MOResult res" where
  "MO_Backtester_Run D b cancelled s bars =
     (let res = ResolutionDuration (mf_Resolution (mo_cfg s)) in
      rbind (MO_bt_loop D b res cancelled 0 bars (MO_bt_start D b s)) (\<lambda>st.
      rbind (MO_force_close D res bars st) (\<lambda>st.
      if bars = []
      then Inr \<lparr>mor_ClosedTrades = [], mor_TradeRecords = [],
        mor_Summary = \<lparr>TotalPnL = d_zero D, WinCount = 0, LossCount = 0, MaxDrawdown = d_zero D, SharpeRatio = d_zero D\<rparr>\<rparr>
      else
        let start = (if time_IsZero (bt_TradeFrom b) then bar_Time (hd bars) else bt_TradeFrom b);
            finish = (if time_IsZero (bt_TradeTo b) then bar_Time (last bars) else bt_TradeTo b)
        in MO_summarise D (ox_closed st) (ox_records st) start finish)))"

section \<open>Loading the inputs\<close>

definition MO_warmup_start :: "'d MOConfig \<Rightarrow> int \<Rightarrow> gtime \<Rightarrow> gtime" where
  "MO_warmup_start cfg res start = time_Add start (wrap64 (wrap64 (- wrap64 (mf_SlowWindow cfg + 1)) * res))"

definition MO_PreflightBacktest :: "'d MRHistory \<Rightarrow> 'd MOConfig \<Rightarrow> gtime \<Rightarrow> gtime \<Rightarrow> gerror option" where
  "MO_PreflightBacktest H cfg start finish =
     (if \<not> hi_injectedStore H then None
      else
        let res = ResolutionDuration (mf_Resolution cfg) in
        if res = 0 then Some ''unknown resolution''
        else checkCandleCoverage H (MO_warmup_start cfg res start) (load_end res finish))"

definition usable_bar :: "'d decimal_ops \<Rightarrow> 'd MOConfig \<Rightarrow> 'd Observation list \<Rightarrow> int \<Rightarrow> 'd Candle \<Rightarrow> 'd Bar option" where
  "usable_bar D cfg cache res c =
     (if mf_SignalSource cfg \<noteq> ''price'' \<and> d_IsZero D (cd_CloseYTM c) then None
      else
        let bar = BarFromCandle D c in
        if mf_SignalSource cfg = ''spread''
        then map_option (\<lambda>y. bar\<lparr>bar_BenchmarkYield := y\<rparr>) (MO_cachedYield D cache (time_Add (bar_Time bar) res))
        else Some bar)"

text \<open>The benchmark observations of the whole window, in spread mode.\<close>

definition load_benchmark ::
  "'d MRHistory \<Rightarrow> gtime \<Rightarrow> gtime \<Rightarrow> 'd MOConfig \<Rightarrow> 'd Observation list \<Rightarrow> 'd Observation list res" where
  "load_benchmark H dataStart loadEnd cfg cache =
     (if mf_SignalSource cfg \<noteq> ''spread'' then Inr cache
      else
        rbind (ParseBenchmarkTenor (mf_Tenor cfg)) (\<lambda>tenor.
        case me_fredClient (hi_env H) of
          Some err \<Rightarrow> Inl err
        | None \<Rightarrow>
            (case me_fredFetch (hi_env H) tenor dataStart loadEnd of
               (_, Some err) \<Rightarrow> Inl (''fetch historical benchmark yields: '' @ err)
             | (obs, None) \<Rightarrow> Inr (setBenchmarkObservations obs))))"

definition MO_getBars :: "'d decimal_ops \<Rightarrow> 'd MRHistory \<Rightarrow> gtime \<Rightarrow> gtime \<Rightarrow> 'd MOStrategy \<Rightarrow> ('d MOStrategy \<times> 'd Bar list) res" where
  "MO_getBars D H start finish s =
     (let cfg = mo_cfg s; res = ResolutionDuration (mf_Resolution cfg) in
      if res = 0 then Inl ''unknown resolution''
      else
        let dataStart = MO_warmup_start cfg res start; loadEnd = load_end res finish in
        rbind (case hi_candleStore H of Some err \<Rightarrow> Inl err | None \<Rightarrow> Inr ()) (\<lambda>_.
        rbind (case checkCandleCoverage H dataStart loadEnd of Some err \<Rightarrow> Inl err | None \<Rightarrow> Inr ()) (\<lambda>_.
        case hi_LoadCandlesBucketed H (mf_OrderBookID cfg) (mf_Resolution cfg) dataStart loadEnd of
          (_, Some err) \<Rightarrow> Inl (''load candles: '' @ err)
        | (loaded, None) \<Rightarrow>
            rbind (load_benchmark H dataStart loadEnd cfg (mo_benchmarkObservations s)) (\<lambda>cache.
            let bars = List.map_filter (usable_bar D cfg cache res) loaded in
            if loaded \<noteq> [] \<and> bars = [] then Inl ''no usable candles for order book''
            else Inr (s\<lparr>mo_benchmarkObservations := cache\<rparr>, bars)))))"

definition MO_loadTicks :: "'d MRHistory \<Rightarrow> 'd MOConfig \<Rightarrow> string \<Rightarrow> 'd Bar list \<Rightarrow> 'd AssetPrice list" where
  "MO_loadTicks H cfg assetID bars =
     (if bars = [] \<or> hi_priceStore H \<noteq> None then []
      else
        let res = ResolutionDuration (mf_Resolution cfg) in
        (case hi_LoadHistoricalPrices H assetID (bar_Time (hd bars)) (time_Add (bar_Time (last bars)) res) of
           (_, Some _) \<Rightarrow> [] | (ticks, None) \<Rightarrow> ticks))"

definition MO_Backtest ::
  "'d decimal_ops \<Rightarrow> 'd MRHistory \<Rightarrow> (nat \<Rightarrow> bool) \<Rightarrow> gtime \<Rightarrow> gtime \<Rightarrow> 'd MOStrategy \<Rightarrow> 'd MOResult res" where
  "MO_Backtest D H cancelled start finish s =
     (let now = time_UTC (me_Now (hi_env H)) in
      if time_Before (time_UTC finish) (time_UTC start) then Inl ''end date must be after start date''
      else if time_After (time_UTC start) now \<or> time_After (time_UTC finish) now
      then Inl ''start and end date must be in the past''
      else
        rbind (MO_getBars D H start finish s) (\<lambda>(s, bars).
        case LookupAssetID (hi_client H) (hi_BaseAssetID H) (mf_OrderBookID (mo_cfg s)) of
          Inl err \<Rightarrow> Inl (''backtest requires the order book base asset: '' @ err)
        | Inr assetID \<Rightarrow>
            let s = s\<lparr>mo_baseAssetID := assetID\<rparr> in
            MO_Backtester_Run D \<lparr>bt_ticks = MO_loadTicks H (mo_cfg s) assetID bars, bt_TradeFrom = start, bt_TradeTo = finish\<rparr>
              cancelled s bars))"

end
