(* ===== verification/MO_Props.thy ===== *)
theory MO_Props
  imports MO_Backtest
begin

text \<open>
  Lemmas on the momentum strategy and its backtest: what \<open>Update\<close> reads and leaves, sizing, the order paths
  on every branch, and the bands.

  \<open>track\<close> overwrites the fields the order paths keep (position, open signal, anchor, decision counter,
  errors): \<open>Update\<close> and sizing neither read nor write them, so the live strategy is the strategy of the
  backtest with other tracking fields.
\<close>

section \<open>What Update reads\<close>

record 'd MOTrack =
  tk_bondQty :: 'd
  tk_usdBal :: 'd
  tk_openSignal :: Signal
  tk_entryPrice :: 'd
  tk_entryATR :: 'd
  tk_decisionSeq :: int
  tk_errs :: "gerror list"

definition track :: "'d MOTrack \<Rightarrow> 'd MOStrategy \<Rightarrow> 'd MOStrategy" where
  "track t s = s\<lparr>mo_bondQty := tk_bondQty t, mo_usdBal := tk_usdBal t, mo_openSignal := tk_openSignal t,
     mo_entryPrice := tk_entryPrice t, mo_entryATR := tk_entryATR t, mo_decisionSeq := tk_decisionSeq t, mo_errs := tk_errs t\<rparr>"

definition tracked :: "'d MOStrategy \<Rightarrow> 'd MOTrack" where
  "tracked s = \<lparr>tk_bondQty = mo_bondQty s, tk_usdBal = mo_usdBal s, tk_openSignal = mo_openSignal s,
     tk_entryPrice = mo_entryPrice s, tk_entryATR = mo_entryATR s, tk_decisionSeq = mo_decisionSeq s, tk_errs = mo_errs s\<rparr>"

lemma track_simps [simp]:
  "mo_cfg (track t s) = mo_cfg s" "mo_fastWin (track t s) = mo_fastWin s" "mo_slowWin (track t s) = mo_slowWin s"
  "mo_atrWin (track t s) = mo_atrWin s" "mo_volWin (track t s) = mo_volWin s" "mo_lastPrice (track t s) = mo_lastPrice s"
  "mo_sourceSign (track t s) = mo_sourceSign s" "mo_baseAssetID (track t s) = mo_baseAssetID s"
  "mo_collateralWeight (track t s) = mo_collateralWeight s" "mo_balancesInitialized (track t s) = mo_balancesInitialized s"
  "mo_paused (track t s) = mo_paused s" "mo_runID (track t s) = mo_runID s"
  "mo_bondQty (track t s) = tk_bondQty t" "mo_openSignal (track t s) = tk_openSignal t"
  "mo_entryPrice (track t s) = tk_entryPrice t" "mo_entryATR (track t s) = tk_entryATR t"
  by (simp_all add: track_def)

lemma track_tracked [simp]: "track (tracked s) s = s"
  by (simp add: track_def tracked_def)

lemma track_track [simp]: "track t (track u s) = track t s"
  by (simp add: track_def)

lemma windowsReady_track [simp]: "windowsReady (track t s) = windowsReady s"
  by (simp add: windowsReady_def)

lemma MO_ingest_track: "MO_ingest D bar v (track t s) = map_prod (track t) id (MO_ingest D bar v s)"
  by (auto simp: MO_ingest_def track_def Let_def split: sum.split prod.split option.split)

lemma volumeGate_track [simp]: "volumeGate D (track t s) bar d = volumeGate D s bar d"
  by (cases "mo_volWin s") (simp_all add: volumeGate_def)

lemma signed_diff_track [simp]: "signed_diff D (track t s) = signed_diff D s"
  by (simp add: signed_diff_def)

lemma MO_Update_track: "MO_Update D bar (track t s) = map_prod (track t) id (MO_Update D bar s)"
proof (cases "MO_ingest D bar (the (projr (seriesValue D (mo_cfg s) bar))) s")
  case (Pair s1 e)
  then show ?thesis
    by (auto simp: MO_Update_def MO_ingest_track split: sum.split option.split)
qed

text \<open>What a successful \<open>Update\<close> is, and what it keeps.\<close>

lemma Rolling_Add_ready: "Rolling_Add D v w = (w', None) \<Longrightarrow> Rolling_Ready w \<Longrightarrow> Rolling_Ready w'"
  by (auto simp: Rolling_Add_def Rolling_Ready_def elim!: Rolling_Add_full_ok)

lemma MO_ingest_ok:
  assumes "MO_ingest D bar value s = (s1, None)"
  obtains tr wa wf ws wv where "Bar_TrueRange D bar (mo_lastPrice s) = Inr tr" "Rolling_Add D tr (mo_atrWin s) = (wa, None)"
    "Rolling_Add D value (mo_fastWin s) = (wf, None)" "Rolling_Add D value (mo_slowWin s) = (ws, None)"
    "case mo_volWin s of None \<Rightarrow> wv = None | Some v \<Rightarrow> (\<exists>w. Rolling_Add D (bar_Volume bar) v = (w, None) \<and> wv = Some w)"
    "s1 = s\<lparr>mo_atrWin := wa, mo_fastWin := wf, mo_slowWin := ws, mo_volWin := wv, mo_lastPrice := bar_Close bar\<rparr>"
proof -
  from assms obtain tr wa where a: "Bar_TrueRange D bar (mo_lastPrice s) = Inr tr" "Rolling_Add D tr (mo_atrWin s) = (wa, None)"
    by (auto simp: MO_ingest_def Let_def split: sum.splits prod.splits option.splits)
  from assms a obtain wf where f: "Rolling_Add D value (mo_fastWin s) = (wf, None)"
    by (auto simp: MO_ingest_def Let_def split: prod.splits option.splits)
  from assms a f obtain ws where w: "Rolling_Add D value (mo_slowWin s) = (ws, None)"
    by (auto simp: MO_ingest_def Let_def split: prod.splits option.splits)
  show thesis
  proof (cases "mo_volWin s")
    case None
    then show ?thesis using assms a f w by (intro that [of tr wa wf ws None]) (auto simp: MO_ingest_def Let_def)
  next
    case (Some v)
    then obtain wv where "Rolling_Add D (bar_Volume bar) v = (wv, None)"
      using assms a f w by (auto simp: MO_ingest_def Let_def split: prod.splits option.splits)
    then show ?thesis using assms a f w Some by (intro that [of tr wa wf ws "Some wv"]) (auto simp: MO_ingest_def Let_def)
  qed
qed

lemma MO_Update_ok:
  assumes "MO_Update D bar s = (s1, Inr d)"
  obtains (dropped) "seriesValue D (mo_cfg s) bar = Inr None" "s1 = s" "od_signal d = SignalHold" "od_price d = bar_Close bar"
      "od_time d = bar_Time bar"
  | (added) x sdiff where "seriesValue D (mo_cfg s) bar = Inr (Some x)" "MO_ingest D bar x s = (s1, None)"
      "signed_diff D s1 = Inr sdiff"
      "d = volumeGate D s1 bar (crossover D (windowsReady s1) sdiff \<lparr>od_time = bar_Time bar, od_bondID = mo_baseAssetID s1,
         od_price = bar_Close bar, od_signal = SignalHold, od_positionSize = mf_MaxPositionSize (mo_cfg s1),
         od_reason = ''warming_up'', od_FastMA = Rolling_Mean (mo_fastWin s1), od_SlowMA = Rolling_Mean (mo_slowWin s1),
         od_ATR = Rolling_Mean (mo_atrWin s1), od_SeriesValue = x, od_Trend = []\<rparr>)"
proof (cases "seriesValue D (mo_cfg s) bar")
  case (Inr v)
  show thesis
  proof (cases v)
    case None
    then show thesis using assms Inr by (intro dropped) (auto simp: MO_Update_def MODecision_zero_def)
  next
    case (Some x)
    obtain s2 e where i: "MO_ingest D bar x s = (s2, e)" by (rule prod.exhaust)
    from assms Inr Some i have "e = None" "s2 = s1" by (auto simp: MO_Update_def split: option.splits)
    then show thesis using assms Inr Some i by (auto simp: MO_Update_def Let_def intro: added)
  qed
qed (use assms in \<open>simp add: MO_Update_def\<close>)

lemma gate_fields [simp]:
  "od_time (volumeGate D s bar d) = od_time d" "od_price (volumeGate D s bar d) = od_price d"
  "od_ATR (volumeGate D s bar d) = od_ATR d" "od_positionSize (volumeGate D s bar d) = od_positionSize d"
  "od_bondID (volumeGate D s bar d) = od_bondID d" "od_FastMA (volumeGate D s bar d) = od_FastMA d"
  "od_SlowMA (volumeGate D s bar d) = od_SlowMA d"
  by (auto simp: volumeGate_def split: option.split prod.split)

lemma crossover_fields [simp]:
  "od_time (crossover D r x d) = od_time d" "od_price (crossover D r x d) = od_price d"
  "od_ATR (crossover D r x d) = od_ATR d" "od_positionSize (crossover D r x d) = od_positionSize d"
  "od_bondID (crossover D r x d) = od_bondID d" "od_FastMA (crossover D r x d) = od_FastMA d"
  "od_SlowMA (crossover D r x d) = od_SlowMA d"
  by (simp_all add: crossover_def)

lemma gate_signal: "od_signal (volumeGate D s bar d) \<noteq> SignalHold \<Longrightarrow> od_signal (volumeGate D s bar d) = od_signal d"
  by (auto simp: volumeGate_def split: option.splits prod.splits if_splits)

lemma MO_Update_keeps:
  assumes "MO_Update D bar s = (s1, Inr d)"
  shows "mo_cfg s1 = mo_cfg s" "mo_collateralWeight s1 = mo_collateralWeight s" "tracked s1 = tracked s"
    "mo_balancesInitialized s1 = mo_balancesInitialized s" "mo_paused s1 = mo_paused s"
    "od_price d = bar_Close bar" "od_time d = bar_Time bar" "windowsReady s \<Longrightarrow> windowsReady s1"
    "od_signal d \<noteq> SignalHold \<Longrightarrow> windowsReady s1"
proof -
  have "mo_cfg s1 = mo_cfg s \<and> mo_collateralWeight s1 = mo_collateralWeight s \<and> tracked s1 = tracked s \<and>
    mo_balancesInitialized s1 = mo_balancesInitialized s \<and> mo_paused s1 = mo_paused s \<and>
    od_price d = bar_Close bar \<and> od_time d = bar_Time bar \<and> (windowsReady s \<longrightarrow> windowsReady s1) \<and>
    (od_signal d \<noteq> SignalHold \<longrightarrow> windowsReady s1)"
    using assms
  proof (cases rule: MO_Update_ok)
    case (added x sdiff)
    let ?d = "crossover D (windowsReady s1) sdiff \<lparr>od_time = bar_Time bar, od_bondID = mo_baseAssetID s1,
         od_price = bar_Close bar, od_signal = SignalHold, od_positionSize = mf_MaxPositionSize (mo_cfg s1),
         od_reason = ''warming_up'', od_FastMA = Rolling_Mean (mo_fastWin s1), od_SlowMA = Rolling_Mean (mo_slowWin s1),
         od_ATR = Rolling_Mean (mo_atrWin s1), od_SeriesValue = x, od_Trend = []\<rparr>"
    have "od_signal ?d \<noteq> SignalHold \<longrightarrow> windowsReady s1" by (simp add: crossover_def)
    then have g: "od_signal d \<noteq> SignalHold \<longrightarrow> windowsReady s1" using gate_signal [of D s1 bar ?d] unfolding added(4) by metis
    have t: "od_price d = bar_Close bar" "od_time d = bar_Time bar" by (simp_all add: added(4))
    obtain tr wa wf ws wv where i: "Rolling_Add D x (mo_fastWin s) = (wf, None)" "Rolling_Add D x (mo_slowWin s) = (ws, None)"
      "s1 = s\<lparr>mo_atrWin := wa, mo_fastWin := wf, mo_slowWin := ws, mo_volWin := wv, mo_lastPrice := bar_Close bar\<rparr>"
      using added(2) by (rule MO_ingest_ok)
    have "windowsReady s \<longrightarrow> windowsReady s1"
      using i by (auto simp: windowsReady_def dest: Rolling_Add_ready)
    with g t show ?thesis by (simp add: i(3) tracked_def)
  qed simp
  then show "mo_cfg s1 = mo_cfg s" "mo_collateralWeight s1 = mo_collateralWeight s" "tracked s1 = tracked s"
    "mo_balancesInitialized s1 = mo_balancesInitialized s" "mo_paused s1 = mo_paused s"
    "od_price d = bar_Close bar" "od_time d = bar_Time bar" "windowsReady s \<Longrightarrow> windowsReady s1"
    "od_signal d \<noteq> SignalHold \<Longrightarrow> windowsReady s1" by blast+
qed

section \<open>Sizing\<close>

lemma MO_effective_capital_track [simp]: "MO_effective_capital D (track t s) = MO_effective_capital D s"
  by (simp add: MO_effective_capital_def)

lemma MO_capped_track [simp]: "MO_cappedOrderQuantity D (track t s) ps p x = MO_cappedOrderQuantity D s ps p x"
  unfolding MO_cappedOrderQuantity_def track_simps MO_effective_capital_track ..

lemma limit_quantity_SomeD:
  assumes "decimal_laws D val rnd" "limit_quantity D cfg q = Some r"
  shows "0 < val r" "r = q \<or> r = mf_MaxOrderSize cfg \<and> val r < val q"
    "0 < val (mf_MaxOrderSize cfg) \<Longrightarrow> val r \<le> val (mf_MaxOrderSize cfg)"
    "0 < val (mf_MinOrderSize cfg) \<Longrightarrow> val (mf_MinOrderSize cfg) \<le> val r"
  using assms(2) by (auto simp: limit_quantity_def Let_def dec_exact [OF assms(1)] split: if_splits)

lemma MO_capped_SomeD:
  assumes L: "decimal_laws D val rnd" and R: "MO_cappedOrderQuantity D s ps p x = Inr (Some q)"
  obtains ec budget v remaining quantity where "MO_effective_capital D s = Inr ec" "d_mul D ec ps = (budget, None)"
    "0 < val budget" "d_mul D p x = (v, None)" "max 0 (val v) < val ec"
    "d_sub D ec (if d_IsNeg D v then d_zero D else v) = (remaining, None)"
    "d_quo D (if d_cmp D budget remaining > 0 then remaining else budget) x = (quantity, None)"
    "limit_quantity D (mo_cfg s) quantity = Some q" "0 \<le> val ps" "val x \<noteq> 0"
proof -
  have p: "0 \<le> val ps" "val x \<noteq> 0" using R by (auto simp: MO_cappedOrderQuantity_def dec_exact [OF L] split: if_splits)
  with R obtain ec budget where 1: "MO_effective_capital D s = Inr ec" "d_mul D ec ps = (budget, None)"
    by (auto simp: MO_cappedOrderQuantity_def dec_exact [OF L] rbind_eq_Inr tryv_eq_Inr)
  have 2: "0 < val budget" using R p 1 by (auto simp: MO_cappedOrderQuantity_def dec_exact [OF L] split: if_splits)
  obtain v where 3: "d_mul D p x = (v, None)"
    using R p 1 2 by (auto simp: MO_cappedOrderQuantity_def dec_exact [OF L] tryv_eq_Inr)
  let ?pv = "if d_IsNeg D v then d_zero D else v"
  have 4: "\<not> d_cmp D ?pv ec \<ge> 0"
    using R p 1 2 3 by (auto simp: MO_cappedOrderQuantity_def dec_exact(9,10,11) [OF L] Let_def split: if_split_asm)
  have lt: "max 0 (val v) < val ec" using 4 by (auto simp: dec_exact [OF L] max_def split: if_splits)
  have "rbind (tryv (d_sub D ec ?pv)) (\<lambda>remaining.
      rbind (tryv (d_quo D (if d_cmp D budget remaining > 0 then remaining else budget) x)) (\<lambda>quantity.
        Inr (limit_quantity D (mo_cfg s) quantity))) = Inr (Some q)"
    using R 1 2 3 4 p(2) p(1) [THEN leD]
    unfolding MO_cappedOrderQuantity_def Let_def
    by (simp only: dec_exact(9,10,11) [OF L] tryv_simps rbind_Inr if_True if_False not_not simp_thms)
  then show thesis using that [OF 1 2 3 lt _ _ _ p] by (auto simp: tryv_eq_Inr)
qed

lemma MO_capped_pos:
  assumes "decimal_laws D val rnd" "MO_cappedOrderQuantity D s ps p x = Inr (Some q)"
  shows "0 < val q"
  using assms(2) by (rule MO_capped_SomeD [OF assms(1)]) (rule limit_quantity_SomeD(1) [OF assms(1)])

section \<open>The order paths\<close>

definition orders_of :: "'d Effect list \<Rightarrow> (Side \<times> 'd) list" where
  "orders_of fs = concat (map (\<lambda>f. case f of EOrder req _ \<Rightarrow> [(oreq_Side req, oreq_Quantity req)] | _ \<Rightarrow> []) fs)"

lemma orders_of_simps [simp]:
  "orders_of [] = []" "orders_of (fs @ gs) = orders_of fs @ orders_of gs"
  "orders_of (EOrder req resp # fs) = (oreq_Side req, oreq_Quantity req) # orders_of fs"
  "orders_of (EDecision d r # fs) = orders_of fs"
  by (simp_all add: orders_of_def)

lemma MO_recordDecision_result:
  assumes "MO_recordDecision E d s = (s', eff)"
  obtains n where "s' = s\<lparr>mo_decisionSeq := n\<rparr>" "orders_of eff = []"
proof (cases "mo_decisionStore s")
  case False
  then show thesis using assms by (intro that [of "mo_decisionSeq s"]) (simp_all add: MO_recordDecision_def)
next
  case True
  let ?s = "s\<lparr>mo_decisionSeq := wrap64 (mo_decisionSeq s + 1)\<rparr>"
  have "s' = ?s" "orders_of eff = []" using assms True by (auto simp: MO_recordDecision_def Let_def)
  then show thesis by (rule that)
qed

definition accepting :: "'d MREnv \<Rightarrow> bool" where
  "accepting E \<longleftrightarrow> (\<forall>req. snd (me_CreateMarketOrder E req) = None)"

lemma MO_close_accepted:
  assumes E: "accepting E" and s: "mo_balancesInitialized s" "\<not> d_IsZero D (mo_bondQty s)"
  obtains n eff where "MO_close D E a s = (MO_set_flat D (s\<lparr>mo_decisionSeq := n\<rparr>), eff)"
    "orders_of eff = [(if d_IsNeg D (mo_bondQty s) then SIDE_BUY else SIDE_SELL,
                       if d_IsNeg D (mo_bondQty s) then d_neg D (mo_bondQty s) else mo_bondQty s)]"
proof -
  let ?req = "MO_close_request D E s (mo_bondQty s)"
  let ?row = "MO_decision_row E s a (Signal_String (if oreq_Side ?req = SIDE_BUY then SignalBuy else SignalSell)) (mo_lastPrice s)
               DecisionKindClose ''trend_exit'' ''close: trend reversal or stop/take hit'' ?req"
  obtain s1 f where r: "MO_recordDecision E ?row s = (s1, f)" by (rule prod.exhaust)
  from r obtain n where "s1 = s\<lparr>mo_decisionSeq := n\<rparr>" "orders_of f = []" by (rule MO_recordDecision_result)
  then show thesis
    using E s r
    by (intro that [of n "EOrder ?req (me_CreateMarketOrder E ?req) # f"])
      (simp_all add: accepting_def MO_close_def MO_closePosition_def MO_position_def MO_close_order_def Let_def MO_log_err_def
        MO_close_request_def MO_request_def)
qed

lemma MO_execute_accepted:
  assumes E: "accepting E" and s: "mo_balancesInitialized s" "od_signal d \<noteq> SignalHold" "\<not> d_IsZero D (od_price d)"
    and q: "MO_cappedOrderQuantity D s (od_positionSize d) (mo_bondQty s) (od_price d) = Inr (Some q)" "\<not> d_IsZero D q"
    and l: "snd (d_quo D (d_one D) (mf_Leverage (mo_cfg s))) = None"
  obtains n eff where "MO_executeDecision D E d a s =
      (MO_apply_fill D (if od_signal d = SignalSell then SIDE_SELL else SIDE_BUY) q d (s\<lparr>mo_decisionSeq := n\<rparr>), Inr True, eff)"
    "orders_of eff = [(if od_signal d = SignalSell then SIDE_SELL else SIDE_BUY, q)]"
proof -
  obtain il where il: "d_quo D (d_one D) (mf_Leverage (mo_cfg s)) = (il, None)" using l by (metis prod.collapse)
  let ?req = "MO_request E s (if od_signal d = SignalSell then SIDE_SELL else SIDE_BUY) q il"
  let ?row = "MO_decision_row E s a (Signal_String (od_signal d)) (od_price d)
               DecisionKindOpen ''ma_crossover_entry''
               (''ma crossover entry: fastMA='' @ me_String E (od_FastMA d) @ '' slowMA='' @
                  me_String E (od_SlowMA d) @ '' signal='' @ Signal_String (od_signal d)) ?req"
  obtain s1 f where r: "MO_recordDecision E ?row s = (s1, f)" by (rule prod.exhaust)
  from r obtain n where "s1 = s\<lparr>mo_decisionSeq := n\<rparr>" "orders_of f = []" by (rule MO_recordDecision_result)
  moreover have "MO_open_quantity D E d a s = Inr (Some q)" using s q by (simp add: MO_open_quantity_def MO_position_def)
  moreover have "?req = MO_request E s (oreq_Side ?req) (oreq_Quantity ?req) il" by (simp add: MO_request_def)
  ultimately show thesis
    using E s q r il
    by (intro that [of n "EOrder ?req (me_CreateMarketOrder E ?req) # f"])
      (simp_all add: accepting_def MO_executeDecision_def MO_open_order_def Let_def, simp_all add: MO_request_def)
qed

end
