(* ===== verification/MO_Live.thy ===== *)
theory MO_Live
  imports MO_Props BO_Correct
begin

text \<open>
  What every live run of the momentum strategy keeps: the frame of each handler, the interpretation \<open>mo\<close> of
  \<open>guarded_loop\<close> for the loop, and the states a run starts in.
\<close>

section \<open>Frames\<close>

definition mo_synced :: "'d decimal_ops \<Rightarrow> 'd MOStrategy \<Rightarrow> bool" where
  "mo_synced D s \<longleftrightarrow> (signalFromBondQty D (d_zero D) = SignalHold \<longrightarrow> mo_balancesInitialized s \<longrightarrow>
     mo_openSignal s = signalFromBondQty D (mo_bondQty s))"

definition MO_frame where
  "MO_frame s = (mo_cfg s, mo_openSignal s, mo_balancesInitialized s, mo_bondQty s, mo_paused s)"

lemma MO_frame_synced: "MO_frame s' = MO_frame s \<Longrightarrow> mo_synced D s' = mo_synced D s"
  by (simp add: MO_frame_def mo_synced_def)

definition mo_tame :: "'d decimal_ops \<Rightarrow> 'd MOStrategy \<Rightarrow> 'd MOStrategy \<times> 'd Effect list \<Rightarrow> bool" where
  "mo_tame D s r \<longleftrightarrow> (mo_synced D s \<longrightarrow> mo_synced D (fst r)) \<and> mo_paused (fst r) = mo_paused s \<and> mo_cfg (fst r) = mo_cfg s \<and>
     length (order_qtys (snd r)) \<le> 1 \<and> (mo_paused s \<longrightarrow> order_qtys (snd r) = [])"

lemma mo_tame_nil: "MO_frame s' = MO_frame s \<Longrightarrow> mo_tame D s (s', [])"
  using MO_frame_synced [of s' s D] by (simp add: mo_tame_def MO_frame_def)

lemma mo_tame_frame: "MO_frame s1 = MO_frame s \<Longrightarrow> mo_tame D s1 r \<Longrightarrow> mo_tame D s r"
  using MO_frame_synced [of s1 s D] by (simp add: mo_tame_def MO_frame_def)

lemma MO_frame_simps [simp]:
  "MO_frame (recordErr_MO e s) = MO_frame s" "MO_frame (noteBenchmarkFetch ts s) = MO_frame s"
  "MO_frame (s\<lparr>mo_decisionSeq := n\<rparr>) = MO_frame s" "MO_frame (s\<lparr>mo_benchmarkObservations := obs\<rparr>) = MO_frame s"
  "MO_frame (seedResumeAnchor D s) = MO_frame s" "MO_frame (MO_log_err er s) = MO_frame s"
  "MO_frame (s\<lparr>mo_isRunning := r\<rparr>) = MO_frame s"
  by (auto simp: MO_frame_def recordErr_MO_def noteBenchmarkFetch_def seedResumeAnchor_def MO_log_err_def split: option.split)

lemma MO_ingest_frame: "MO_frame (fst (MO_ingest D bar v s)) = MO_frame s"
  by (auto simp: MO_ingest_def MO_frame_def Let_def split: sum.split prod.split option.split)

lemma MO_Update_frame: "MO_Update D bar s = (s', r) \<Longrightarrow> MO_frame s' = MO_frame s"
  using MO_ingest_frame [of D bar _ s] by (auto simp: MO_Update_def split: sum.splits option.splits prod.splits) (metis fst_conv)+

lemma bar_benchmark_frame: "bar_benchmark D E bar s = (s', r) \<Longrightarrow> MO_frame s' = MO_frame s"
  by (auto simp: bar_benchmark_def MO_getBenchmarkYield_def Let_def split: if_splits sum.splits option.splits prod.splits)

section \<open>Handlers\<close>

lemma set_flat_synced:
  "mo_synced D (MO_set_flat D s)" "mo_paused (MO_set_flat D s) = mo_paused s" "mo_cfg (MO_set_flat D s) = mo_cfg s"
  by (simp_all add: MO_set_flat_def mo_synced_def)

lemma fill_synced:
  "mo_synced D (MO_apply_fill D side q d s)" "mo_paused (MO_apply_fill D side q d s) = mo_paused s"
  "mo_cfg (MO_apply_fill D side q d s) = mo_cfg s"
  by (simp_all add: MO_apply_fill_def mo_synced_def Let_def)

lemma recordDecision_MO_frame [simp]:
  "mo_paused (fst (MO_recordDecision E d s)) = mo_paused s" "mo_cfg (fst (MO_recordDecision E d s)) = mo_cfg s"
  "order_qtys (snd (MO_recordDecision E d s)) = []"
  by (simp_all add: MO_recordDecision_def Let_def)

lemma MO_close_tame: "\<not> mo_paused s \<Longrightarrow> mo_tame D s (MO_close D E a s)"
proof -
  assume p: "\<not> mo_paused s"
  have o: "mo_tame D s (case MO_close_order D E a req s of (s, err, eff) \<Rightarrow> (MO_log_err err s, eff))" for req
  proof (cases "snd (me_CreateMarketOrder E req)")
    case None
    then show ?thesis using p
      by (simp add: MO_close_order_def Let_def mo_tame_def set_flat_synced MO_log_err_def split_beta)
  next
    case (Some err)
    have f: "mo_synced D (s\<lparr>mo_errs := es\<rparr>) = mo_synced D s" for es by (simp add: mo_synced_def)
    show ?thesis using p Some f
      by (auto simp: MO_close_order_def Let_def mo_tame_def set_flat_synced MO_log_err_def recordErr_MO_def split: sum.split)
  qed
  show ?thesis
  proof (cases "MO_position D E a s")
    case (Inl e)
    then show ?thesis by (simp add: MO_close_def MO_closePosition_def mo_tame_nil)
  next
    case (Inr q)
    then show ?thesis using o
      by (simp add: MO_close_def MO_closePosition_def) (simp add: mo_tame_def set_flat_synced MO_log_err_def)
  qed
qed

lemma MO_execute_tame:
  assumes "\<not> mo_paused s"
  shows "mo_tame D s (case MO_executeDecision D E d a s of
    (s, Inl err, eff) \<Rightarrow> (recordErr_MO err s, eff) | (s, Inr _, eff) \<Rightarrow> (s, eff))"
proof -
  have o: "mo_tame D s (case MO_open_order D E d a req s of
    (s, Inl err, eff) \<Rightarrow> (recordErr_MO err s, eff) | (s, Inr _, eff) \<Rightarrow> (s, eff))" for req
  proof (cases "snd (me_CreateMarketOrder E req)")
    case None
    then show ?thesis using assms
      by (simp add: MO_open_order_def Let_def mo_tame_def fill_synced split_beta)
  next
    case (Some err)
    have f: "mo_synced D (s\<lparr>mo_errs := es\<rparr>) = mo_synced D s" for es by (simp add: mo_synced_def)
    show ?thesis using assms Some f
      by (simp add: MO_open_order_def Let_def mo_tame_def recordErr_MO_def)
  qed
  show ?thesis
    using o by (auto simp: MO_executeDecision_def Let_def mo_tame_nil split: sum.split option.split)
qed

lemma MO_act_tame: "mo_paused s0 = mo_paused s \<Longrightarrow> mo_tame D s (MO_act D E a s0 d s)"
  using MO_close_tame [of s D E a] MO_execute_tame [of s D E d a] by (simp add: MO_act_def mo_tame_nil)

lemma MO_handle_bar_tame: "mo_tame D s (MO_handle_bar D E a bar s)"
proof (cases "bar_benchmark D E bar s")
  case (Pair s0 ob)
  then have f0: "MO_frame s0 = MO_frame s" by (rule bar_benchmark_frame)
  show ?thesis
  proof (cases ob)
    case None
    then show ?thesis using Pair f0 by (simp add: MO_handle_bar_def mo_tame_nil)
  next
    case (Some b)
    obtain s1 r where u: "MO_Update D b s0 = (s1, r)" by (rule prod.exhaust)
    have f1: "MO_frame s1 = MO_frame s" using MO_Update_frame [OF u] f0 by simp
    show ?thesis
    proof (cases r)
      case (Inl e)
      then show ?thesis using Pair Some u f1 by (simp add: MO_handle_bar_def mo_tame_nil)
    next
      case (Inr d)
      have "mo_paused s0 = mo_paused (seedResumeAnchor D s1)" using f0 f1 by (simp add: MO_frame_def seedResumeAnchor_def)
      then have "mo_tame D (seedResumeAnchor D s1) (MO_act D E a s0 d (seedResumeAnchor D s1))" by (rule MO_act_tame)
      then have "mo_tame D s (MO_act D E a s0 d (seedResumeAnchor D s1))"
        by (rule mo_tame_frame [rotated]) (simp add: f1)
      then show ?thesis using Pair Some u Inr by (simp add: MO_handle_bar_def)
    qed
  qed
qed

lemma MO_handle_price_tame: "mo_tame D s (MO_handle_price D E a px s)"
  using MO_close_tame [of s D E a] by (simp add: MO_handle_price_def mo_tame_nil)

lemma MO_handle_prices_result:
  assumes "MO_handle_prices D a pxs s = (s', eff)"
  shows "mo_synced D s \<longrightarrow> mo_synced D s'" "mo_paused s' = mo_paused s" "mo_cfg s' = mo_cfg s"
    "length (order_qtys eff) \<le> length pxs" "mo_paused s \<longrightarrow> order_qtys eff = []"
proof -
  have "(mo_synced D s \<longrightarrow> mo_synced D s') \<and> mo_paused s' = mo_paused s \<and> mo_cfg s' = mo_cfg s \<and>
    length (order_qtys eff) \<le> length pxs \<and> (mo_paused s \<longrightarrow> order_qtys eff = [])"
    using assms
  proof (induction pxs arbitrary: s s' eff)
    case (Cons x pxs)
    obtain E p where x: "x = (E, p)" by (rule prod.exhaust)
    obtain s1 f1 where 1: "MO_handle_price D E a p s = (s1, f1)" by (rule prod.exhaust)
    obtain s2 f2 where 2: "MO_handle_prices D a pxs s1 = (s2, f2)" by (rule prod.exhaust)
    have "s' = s2" "eff = f1 @ f2" using Cons.prems 1 2 by (simp_all add: x MO_handle_prices_def)
    then show ?case using Cons.IH [OF 2] MO_handle_price_tame [of D s E a p] 1 by (simp add: mo_tame_def)
  qed (simp add: MO_handle_prices_def)
  then show "mo_synced D s \<longrightarrow> mo_synced D s'" "mo_paused s' = mo_paused s" "mo_cfg s' = mo_cfg s"
    "length (order_qtys eff) \<le> length pxs" "mo_paused s \<longrightarrow> order_qtys eff = []" by blast+
qed

section \<open>The loop\<close>

definition mo_weight :: "'d MOEvent \<Rightarrow> nat" where
  "mo_weight ev = (case ev of MOBar _ _ \<Rightarrow> 1 | MOPrices pxs \<Rightarrow> length pxs | _ \<Rightarrow> 0)"

definition mo_quiet :: "'d MOLoop \<Rightarrow> bool" where
  "mo_quiet l \<longleftrightarrow> mol_done l \<or> mo_paused (mol_strat l)"

definition mo_wakes :: "'d MOEvent \<Rightarrow> bool" where
  "mo_wakes ev \<longleftrightarrow> (case ev of MOMsg Resume \<Rightarrow> True | _ \<Rightarrow> False)"

lemma mo_step_result:
  shows "mo_synced D (mol_strat l) \<Longrightarrow> mo_synced D (mol_strat (fst (mo_step D e l)))"
    and "length (order_qtys (snd (mo_step D e l))) \<le> mo_weight e"
    and "mo_quiet l \<Longrightarrow> \<not> mo_wakes e \<Longrightarrow> mo_quiet (fst (mo_step D e l)) \<and> order_qtys (snd (mo_step D e l)) = []"
  using MO_handle_bar_tame [where D = D] MO_handle_prices_result [where D = D, OF surjective_pairing]
  by (auto simp: mo_step_def mo_weight_def mo_quiet_def mo_wakes_def mo_message_def mo_tame_def split_beta mo_synced_def
      split: MOEvent.splits Message.splits)

interpretation mo: guarded_loop "mo_step D" "\<lambda>l. mo_synced D (mol_strat l)" mo_weight mo_quiet mo_wakes
  for D :: "'d decimal_ops"
  using mo_step_result [where D = D] by unfold_locales auto

section \<open>Starting a run\<close>

lemma MO_initializeBalances_synced:
  assumes "mo_openSignal s = signalFromBondQty D (mo_bondQty s)"
  shows "mo_synced D (MO_initializeBalances D E base s)"
proof -
  have pf: "mo_openSignal (fst (MO_initializeBalancesFromPortfolio D acc base q g s)) =
      signalFromBondQty D (mo_bondQty (fst (MO_initializeBalancesFromPortfolio D acc base q g s)))" for acc q g
    using assms by (auto simp: MO_initializeBalancesFromPortfolio_def InitialBalancesFromPortfolio_def rbind_eq_Inr recordErr_MO_def
        split: sum.split option.split if_split_asm)
  have lg: "mo_synced D (legacyBalances D E base q t)" for q t by (simp add: legacyBalances_def Let_def mo_synced_def)
  have er: "mo_synced D (recordErr_MO e s)" for e using assms by (simp add: mo_synced_def recordErr_MO_def)
  show ?thesis
    using er pf lg by (auto simp: MO_initializeBalances_def mo_synced_def split_beta split: option.split prod.split)
qed

lemma MO_New_fields [simp]:
  "mo_openSignal (MO_New D cfg store seq) = SignalHold" "mo_bondQty (MO_New D cfg store seq) = d_zero D"
  by (simp_all add: MO_New_def Let_def)

lemma MO_Run_ok:
  assumes "MO_Run D S r s0 = (s, Inr l)" "mo_openSignal s0 = signalFromBondQty D (mo_bondQty s0)"
  shows "mo_synced D (mol_strat l)" "\<not> mol_done l"
proof -
  have "MO_run_setup D S (s0\<lparr>mo_runID := r, mo_cancelled := False, mo_isRunning := True\<rparr>) = (s, Inr l)"
    using assms(1) by (auto simp: MO_Run_def Let_def split: if_split_asm option.splits sum.splits prod.splits)
  then obtain a cw where l: "mol_strat l = seedResumeAnchor D (MO_initializeBalances D (su_env S) a
      (s0\<lparr>mo_runID := r, mo_cancelled := False, mo_isRunning := True, mo_baseAssetID := a, mo_collateralWeight := cw\<rparr>))"
    and d: "\<not> mol_done l"
    by (auto simp: MO_run_setup_def Let_def split: sum.splits prod.splits option.splits if_split_asm)
      (metis MOStrategy.surjective MOStrategy.update_convs(9))
  show "mo_synced D (mol_strat l)"
    unfolding l MO_frame_synced [OF MO_frame_simps(5)] by (rule MO_initializeBalances_synced) (simp add: assms(2))
  show "\<not> mol_done l" by (rule d)
qed

end
