(* ===== verification/MO_Correct.thy ===== *)
theory MO_Correct
  imports MO_Live
begin

text \<open>
  The momentum strategy: the live loop trades what the backtest trades, the signal and the bands, and what
  holds over every live run.
\<close>

section \<open>Replaying a backtest through the live loop\<close>

definition side_of :: "Signal \<Rightarrow> Side" where
  "side_of sig = (if sig = SignalSell then SIDE_SELL else SIDE_BUY)"

definition closing_side :: "Signal \<Rightarrow> Side" where
  "closing_side sig = (if sig = SignalSell then SIDE_BUY else SIDE_SELL)"

text \<open>The orders of a backtest, with their times: two for a closed trade, one for the open one.\<close>

definition backtest_orders :: "('d \<Rightarrow> rat) \<Rightarrow> 'd MOState \<Rightarrow> (gtime \<times> Side \<times> rat) list" where
  "backtest_orders val st =
     concat (map (\<lambda>ct. [(oct_OpenTime ct, side_of (oct_Signal ct), val (oct_Quantity ct)),
                        (oct_CloseTime ct, closing_side (oct_Signal ct), val (oct_Quantity ct))]) (ox_closed st)) @
     (case ox_open st of None \<Rightarrow> [] | Some tr \<Rightarrow> [(otr_Time tr, side_of (otr_Signal tr), val (otr_Quantity tr))])"

text \<open>The orders of the live loop over events that happen at given times.\<close>

primrec timed_run ::
  "('d \<Rightarrow> rat) \<Rightarrow> 'd decimal_ops \<Rightarrow> (gtime \<times> 'd MOEvent) list \<Rightarrow> 'd MOLoop \<Rightarrow> 'd MOLoop \<times> (gtime \<times> Side \<times> rat) list" where
  "timed_run val D [] l = (l, [])"
| "timed_run val D (e # es) l =
     (case mo_step D (snd e) l of (l1, fs) \<Rightarrow>
        case timed_run val D es l1 of (l2, os) \<Rightarrow> (l2, map (\<lambda>(sd, q). (fst e, sd, val q)) (orders_of fs) @ os))"

lemma timed_run_append:
  "timed_run val D (es @ fs) l =
     (case timed_run val D es l of (l1, os) \<Rightarrow> case timed_run val D fs l1 of (l2, ps) \<Rightarrow> (l2, os @ ps))"
  by (induction es arbitrary: l) (auto split: prod.split)

text \<open>The live events of a history: each bar when it closes, then the ticks until the next one closes.\<close>

definition ticks_of :: "int \<Rightarrow> 'd Bar \<Rightarrow> 'd Bar list \<Rightarrow> 'd AssetPrice list \<Rightarrow> 'd AssetPrice list" where
  "ticks_of res bar later ticks = filter (\<lambda>t. time_After (ap_Time t) (time_Add (bar_Time bar) res) \<and>
     \<not> time_After (ap_Time t) (next_close res bar later)) ticks"

definition tick_event :: "(gtime \<Rightarrow> 'd MREnv) \<Rightarrow> 'd AssetPrice \<Rightarrow> gtime \<times> 'd MOEvent" where
  "tick_event E t = (ap_Time t, MOPrices [(E (ap_Time t), t)])"

fun live_events :: "int \<Rightarrow> (gtime \<Rightarrow> 'd MREnv) \<Rightarrow> 'd AssetPrice list \<Rightarrow> 'd Bar list \<Rightarrow> (gtime \<times> 'd MOEvent) list" where
  "live_events res E ticks [] = []"
| "live_events res E ticks (bar # later) =
     (time_Add (bar_Time bar) res, MOBar (E (time_Add (bar_Time bar) res)) bar) #
     map (tick_event E) (ticks_of res bar later ticks) @ live_events res E ticks later"

section \<open>The simulation\<close>

text \<open>The live position is the open trade of the backtest.\<close>

definition holds :: "'d decimal_ops \<Rightarrow> ('d \<Rightarrow> rat) \<Rightarrow> 'd MOTradeRecord option \<Rightarrow> 'd MOTrack \<Rightarrow> bool" where
  "holds D val opn t \<longleftrightarrow>
     (case opn of
        None \<Rightarrow> tk_openSignal t = SignalHold \<and> tk_bondQty t = d_zero D
      | Some tr \<Rightarrow> otr_Signal tr \<noteq> SignalHold \<and> tk_openSignal t = otr_Signal tr \<and> tk_entryPrice t = otr_Price tr \<and>
          val (otr_Price tr) \<noteq> 0 \<and> tk_entryATR t = otr_EntryATR tr \<and> 0 < val (otr_Quantity tr) \<and>
          val (tk_bondQty t) = (if otr_Signal tr = SignalSell then - val (otr_Quantity tr) else val (otr_Quantity tr)))"

definition live_ready :: "'d decimal_ops \<Rightarrow> 'd MOStrategy \<Rightarrow> bool" where
  "live_ready D s \<longleftrightarrow> mo_balancesInitialized s \<and> \<not> mo_paused s \<and> mf_SignalSource (mo_cfg s) \<noteq> ''spread'' \<and>
     snd (d_quo D (d_one D) (mf_Leverage (mo_cfg s))) = None"

definition mirrors :: "'d decimal_ops \<Rightarrow> ('d \<Rightarrow> rat) \<Rightarrow> 'd MOState \<Rightarrow> 'd MOLoop \<Rightarrow> bool" where
  "mirrors D val st l \<longleftrightarrow> \<not> mol_done l \<and> live_ready D (ox_strat st) \<and>
     (ox_open st \<noteq> None \<longrightarrow> windowsReady (ox_strat st)) \<and>
     (\<exists>t. mol_strat l = track t (ox_strat st) \<and> holds D val (ox_open st) t)"

lemma live_ready_track [simp]: "live_ready D (track t s) = live_ready D s"
  by (simp add: live_ready_def)

text \<open>Adding to or subtracting from zero never fails: the decimals document it.\<close>

definition zero_sums :: "'d decimal_ops \<Rightarrow> bool" where
  "zero_sums D \<longleftrightarrow> (\<forall>q. snd (d_add D (d_zero D) q) = None \<and> snd (d_sub D (d_zero D) q) = None)"

lemma set_flat_track:
  assumes "live_ready D s"
  shows "\<exists>u. MO_set_flat D ((track t s)\<lparr>mo_decisionSeq := n\<rparr>) = track u s \<and> holds D val None u"
proof -
  let ?u = "t\<lparr>tk_bondQty := d_zero D, tk_openSignal := SignalHold, tk_entryPrice := d_zero D, tk_entryATR := d_zero D, tk_decisionSeq := n\<rparr>"
  have "MO_set_flat D ((track t s)\<lparr>mo_decisionSeq := n\<rparr>) = track ?u s"
    using assms by (simp add: MO_set_flat_def track_def live_ready_def)
  then show ?thesis by (intro exI [of _ ?u]) (simp add: holds_def)
qed

lemma close_mirrors:
  assumes L: "decimal_laws D val rnd" and E: "accepting E" and s: "live_ready D s" "holds D val (Some tr) t"
  obtains u eff where "MO_close D E a (track t s) = (track u s, eff)" "holds D val None u"
    "map (\<lambda>(sd, q). (tm, sd, val q)) (orders_of eff) = [(tm, closing_side (otr_Signal tr), val (otr_Quantity tr))]"
proof -
  have q: "val (tk_bondQty t) = (if otr_Signal tr = SignalSell then - val (otr_Quantity tr) else val (otr_Quantity tr))"
    "0 < val (otr_Quantity tr)" using s(2) by (simp_all add: holds_def)
  then have nz: "\<not> d_IsZero D (tk_bondQty t)" using dec_exact(9) [OF L] by auto
  have pre: "mo_balancesInitialized (track t s)" "\<not> d_IsZero D (mo_bondQty (track t s))"
    using s(1) nz by (simp_all add: live_ready_def)
  obtain n eff where c: "MO_close D E a (track t s) = (MO_set_flat D ((track t s)\<lparr>mo_decisionSeq := n\<rparr>), eff)"
    "orders_of eff = [(if d_IsNeg D (tk_bondQty t) then SIDE_BUY else SIDE_SELL,
       if d_IsNeg D (tk_bondQty t) then d_neg D (tk_bondQty t) else tk_bondQty t)]"
    by (rule MO_close_accepted [OF E pre, where a = a, unfolded track_simps])
  obtain u where u: "MO_set_flat D ((track t s)\<lparr>mo_decisionSeq := n\<rparr>) = track u s" "holds D val None u"
    using set_flat_track [OF s(1)] by blast
  moreover have "map (\<lambda>(sd, q). (tm, sd, val q)) (orders_of eff) = [(tm, closing_side (otr_Signal tr), val (otr_Quantity tr))]"
    using q by (simp add: c(2) closing_side_def dec_exact [OF L])
  ultimately show thesis using c(1) by (intro that [of u eff]) simp_all
qed

lemma MO_close_trade_ok:
  assumes "MO_close_trade D tr d reason st = Inr st'" "ox_open st = Some tr"
  shows "ox_open st' = None" "ox_strat st' = ox_strat st" "ox_ticks st' = ox_ticks st" "ox_prevTicks st' = ox_prevTicks st"
    "backtest_orders val st' = backtest_orders val st @ [(od_time d, closing_side (otr_Signal tr), val (otr_Quantity tr))]"
  using assms by (auto simp: MO_close_trade_def MO_closeAtPrice_def Let_def rbind_eq_Inr backtest_orders_def)

section \<open>Ticks\<close>

lemma tick_flat:
  assumes "\<not> mol_done l" "mo_openSignal (mol_strat l) = SignalHold"
  shows "mo_step D (MOPrices [(E, t)]) l = (l, [])"
  using assms by (simp add: mo_step_def MO_handle_prices_def MO_handle_price_def)

lemma ticks_flat:
  assumes "\<not> mol_done l" "mo_openSignal (mol_strat l) = SignalHold"
  shows "timed_run val D (map (tick_event E) ts) l = (l, [])"
  using tick_flat [OF assms] by (induction ts) (simp_all add: tick_event_def)

lemma ticks_mirror:
  assumes L: "decimal_laws D val rnd" and E: "\<And>t. accepting (E t)"
    and tr: "ox_open st = Some tr" and m: "mirrors D val st l" and R: "MO_tick_loop D tr ts st = Inr st'"
    and a: "\<forall>t\<in>set ts. ap_AssetID t = mol_assetID l"
  shows "\<exists>l' os. timed_run val D (map (tick_event E) ts) l = (l', os) \<and> mirrors D val st' l' \<and> mol_assetID l' = mol_assetID l \<and>
    backtest_orders val st' = backtest_orders val st @ os \<and> ox_ticks st' = ox_ticks st \<and> ox_prevTicks st' = ox_prevTicks st"
  using R a
proof (induction ts)
  case Nil
  then show ?case using m by simp
next
  case (Cons x ts)
  obtain t where t: "mol_strat l = track t (ox_strat st)" "holds D val (Some tr) t" and nd: "\<not> mol_done l"
    and lr: "live_ready D (ox_strat st)" using m tr by (auto simp: mirrors_def)
  have opn: "tk_openSignal t = otr_Signal tr" "otr_Signal tr \<noteq> SignalHold" "tk_entryPrice t = otr_Price tr"
    "tk_entryATR t = otr_EntryATR tr" using t(2) by (auto simp: holds_def)
  have x: "ap_AssetID x = mol_assetID l" using Cons.prems by simp
  show ?case
  proof (cases "bandExit D (mo_cfg (ox_strat st)) (otr_Signal tr) (otr_Price tr) (otr_EntryATR tr) (ap_Price x)")
    case None
    have "mo_step D (MOPrices [(E (ap_Time x), x)]) l = (l, [])"
      using nd t opn x None lr by (simp add: mo_step_def MO_handle_prices_def MO_handle_price_def live_ready_def)
    then show ?thesis using Cons None by (simp add: tick_event_def)
  next
    case (Some reason)
    let ?tm = "ap_Time x" and ?E = "E (ap_Time x)"
    obtain u eff where c: "MO_close D ?E (mol_assetID l) (track t (ox_strat st)) = (track u (ox_strat st), eff)" "holds D val None u"
      "map (\<lambda>(sd, q). (?tm, sd, val q)) (orders_of eff) = [(?tm, closing_side (otr_Signal tr), val (otr_Quantity tr))]"
      by (rule close_mirrors [OF L E lr t(2)])
    let ?l = "l\<lparr>mol_strat := track u (ox_strat st)\<rparr>"
    have step: "mo_step D (MOPrices [(?E, x)]) l = (?l, eff)"
      using nd t opn x Some lr c(1) by (simp add: mo_step_def MO_handle_prices_def MO_handle_price_def live_ready_def)
    have "MO_close_trade D tr ((ox_last st)\<lparr>od_price := ap_Price x, od_time := ap_Time x\<rparr>) reason st = Inr st'"
      using Cons.prems Some by simp
    note ct = MO_close_trade_ok [OF this tr]
    have "timed_run val D (map (tick_event E) ts) ?l = (?l, [])"
      using nd c(2) by (intro ticks_flat) (simp_all add: holds_def)
    then have "timed_run val D (map (tick_event E) (x # ts)) l = (?l, [(?tm, closing_side (otr_Signal tr), val (otr_Quantity tr))])"
      using step c(3) by (simp add: tick_event_def)
    moreover have "mirrors D val st' ?l" using nd lr c(2) ct(1,2) by (auto simp: mirrors_def)
    ultimately show ?thesis using ct by simp
  qed
qed

section \<open>Bars\<close>

lemma apply_fill_track:
  assumes L: "decimal_laws D val rnd" and Z: "zero_sums D" and s: "live_ready D s" "tk_bondQty t = d_zero D"
    and d: "od_signal d \<noteq> SignalHold" "val (od_price d) \<noteq> 0" "0 < val q"
  obtains u where "MO_apply_fill D (side_of (od_signal d)) q d ((track t s)\<lparr>mo_decisionSeq := n\<rparr>) = track u s"
    "holds D val (Some (MO_entry_record res d q)) u"
proof -
  let ?b = "if od_signal d = SignalSell then fst (d_sub D (d_zero D) q) else fst (d_add D (d_zero D) q)"
  have z: "d_add D (d_zero D) q = (fst (d_add D (d_zero D) q), None)" "d_sub D (d_zero D) q = (fst (d_sub D (d_zero D) q), None)"
    using Z by (metis prod.collapse zero_sums_def)+
  have b: "val ?b = (if od_signal d = SignalSell then - val q else val q)"
  proof (cases "od_signal d = SignalSell")
    case True
    have "val (fst (d_sub D (d_zero D) q)) = rnd (- val q)" using val_sub [OF L z(2)] dec_exact(1) [OF L] by simp
    also have "\<dots> = - val q" using rnd_val [OF L, of "d_neg D q"] by (simp add: dec_exact [OF L])
    finally show ?thesis using True by simp
  next
    case False
    have "val (fst (d_add D (d_zero D) q)) = rnd (val q)" using val_add [OF L z(1)] dec_exact(1) [OF L] by simp
    then show ?thesis using False rnd_val [OF L] by simp
  qed
  define s2 where "s2 = MO_apply_fill D (side_of (od_signal d)) q d ((track t s)\<lparr>mo_decisionSeq := n\<rparr>)"
  have "s2 = track (tracked s2) s"
    using s(1) by (simp add: s2_def MO_apply_fill_def Let_def track_def tracked_def live_ready_def)
  moreover have "mo_bondQty s2 = ?b" "mo_openSignal s2 = signalFromBondQty D ?b" "mo_entryPrice s2 = od_price d"
    "mo_entryATR s2 = od_ATR d"
    using s by (simp_all add: s2_def MO_apply_fill_def Let_def track_def side_of_def live_ready_def)
  moreover have "signalFromBondQty D ?b = od_signal d"
    using b d by (cases "od_signal d") (simp_all add: signalFromBondQty_def dec_exact [OF L])
  ultimately show thesis
    using b d by (intro that [of "tracked s2"]) (simp_all add: s2_def holds_def tracked_def MO_entry_record_def)
qed

text \<open>The bar event: what \<open>Update\<close> decides, both sides do.\<close>

lemma bar_event:
  assumes "\<not> mol_done l" "mol_strat l = track t s" "live_ready D s" "MO_Update D bar s = (s1, Inr d)"
    and "tk_openSignal t = SignalHold \<or> \<not> d_IsZero D (tk_entryPrice t)"
  shows "mo_step D (MOBar E bar) l =
    (case MO_act D E (mol_assetID l) (track t s) d (track t s1) of (s2, eff) \<Rightarrow> (l\<lparr>mol_strat := s2\<rparr>, eff))"
proof -
  have "seedResumeAnchor D (track t s1) = track t s1" using assms(5) by (auto simp: seedResumeAnchor_def)
  moreover have "MO_Update D bar (track t s) = (track t s1, Inr d)" using assms(4) by (simp add: MO_Update_track)
  ultimately show ?thesis
    using assms(1-3) by (simp add: mo_step_def MO_handle_bar_def bar_benchmark_def live_ready_def)
qed

lemma bar_open_mirror:
  assumes L: "decimal_laws D val rnd" and E: "accepting E" and m: "mirrors D val st l" and tr: "ox_open st = Some tr"
    and pt: "ox_prevTicks st" and u: "MO_bt_update D bar st = Inr st1" and x: "MO_bar_exit D res bar tr st1 = Inr st2"
  shows "\<exists>l2 fs. mo_step D (MOBar E bar) l = (l2, fs) \<and> mirrors D val st2 l2 \<and> mol_assetID l2 = mol_assetID l \<and>
    ox_ticks st2 = ox_ticks st \<and>
    backtest_orders val st2 = backtest_orders val st @ map (\<lambda>(sd, q). (time_Add (bar_Time bar) res, sd, val q)) (orders_of fs)"
proof -
  let ?tm = "time_Add (bar_Time bar) res"
  obtain s1 d where s1: "MO_Update D bar (ox_strat st) = (s1, Inr d)" and st1: "st1 = st\<lparr>ox_strat := s1, ox_last := d\<rparr>"
    using u by (auto simp: MO_bt_update_def split: prod.splits sum.splits)
  note kp = MO_Update_keeps [OF s1]
  obtain t where t: "mol_strat l = track t (ox_strat st)" "holds D val (Some tr) t" and nd: "\<not> mol_done l"
    and lr: "live_ready D (ox_strat st)" and wr: "windowsReady (ox_strat st)"
    using m tr by (auto simp: mirrors_def)
  have lr1: "live_ready D s1" and wr1: "windowsReady s1" using lr wr kp by (auto simp: live_ready_def)
  have opn: "tk_openSignal t = otr_Signal tr" "otr_Signal tr \<noteq> SignalHold" "tk_entryPrice t = otr_Price tr"
    "tk_entryATR t = otr_EntryATR tr" "\<not> d_IsZero D (otr_Price tr)" using t(2) by (auto simp: holds_def dec_exact [OF L])
  let ?ex = "MO_ShouldExit D (mo_cfg s1) (otr_Signal tr) d (otr_Price tr) (otr_EntryATR tr)"
  have step: "mo_step D (MOBar E bar) l =
    (case (if ?ex \<noteq> None then MO_close D E (mol_assetID l) (track t s1) else (track t s1, [])) of
       (s2, eff) \<Rightarrow> (l\<lparr>mol_strat := s2\<rparr>, eff))"
    using bar_event [OF nd t(1) lr s1] opn lr wr by (simp add: MO_act_def live_ready_def)
  have open1: "ox_open st1 = Some tr" using tr by (simp add: st1)
  have bo1: "backtest_orders val st1 = backtest_orders val st" by (simp add: st1 backtest_orders_def)
  show ?thesis
  proof (cases ?ex)
    case None
    then have "st2 = st1" using x pt by (simp add: MO_bar_exit_def st1)
    then show ?thesis using None step nd lr1 wr1 t(2) bo1 tr
      by (auto simp: mirrors_def st1 intro!: exI [of _ t])
  next
    case (Some reason)
    then have c: "MO_close_trade D tr (d\<lparr>od_price := od_price d, od_time := ?tm\<rparr>) reason st1 = Inr st2"
      using x pt by (simp add: MO_bar_exit_def st1)
    note ct = MO_close_trade_ok [OF c open1]
    obtain v eff where v: "MO_close D E (mol_assetID l) (track t s1) = (track v s1, eff)" "holds D val None v"
      "map (\<lambda>(sd, q). (?tm, sd, val q)) (orders_of eff) = [(?tm, closing_side (otr_Signal tr), val (otr_Quantity tr))]"
      by (rule close_mirrors [OF L E lr1 t(2)])
    have "mirrors D val st2 (l\<lparr>mol_strat := track v s1\<rparr>)" using nd lr1 v(2) ct(1,2) by (auto simp: mirrors_def st1)
    then show ?thesis using step Some v ct(3,5) bo1 by (simp add: st1)
  qed
qed

lemma bar_flat_mirror:
  assumes L: "decimal_laws D val rnd" and Z: "zero_sums D" and E: "accepting E" and m: "mirrors D val st l"
    and tr: "ox_open st = None" and u: "MO_bt_update D bar st = Inr st1" and w: "in_window b res bar"
    and x: "MO_bar_entry D b res bar st1 = Inr st2"
  shows "\<exists>l2 fs. mo_step D (MOBar E bar) l = (l2, fs) \<and> mirrors D val st2 l2 \<and> mol_assetID l2 = mol_assetID l \<and>
    ox_ticks st2 = ox_ticks st \<and>
    backtest_orders val st2 = backtest_orders val st @ map (\<lambda>(sd, q). (time_Add (bar_Time bar) res, sd, val q)) (orders_of fs)"
proof -
  let ?tm = "time_Add (bar_Time bar) res"
  obtain s1 d where s1: "MO_Update D bar (ox_strat st) = (s1, Inr d)" and st1: "st1 = st\<lparr>ox_strat := s1, ox_last := d\<rparr>"
    using u by (auto simp: MO_bt_update_def split: prod.splits sum.splits)
  note kp = MO_Update_keeps [OF s1]
  obtain t where t: "mol_strat l = track t (ox_strat st)" "tk_openSignal t = SignalHold" "tk_bondQty t = d_zero D"
    and nd: "\<not> mol_done l" and lr: "live_ready D (ox_strat st)"
    using m tr by (auto simp: mirrors_def holds_def)
  have lr1: "live_ready D s1" using lr kp by (auto simp: live_ready_def)
  have step: "mo_step D (MOBar E bar) l =
    (case (if od_signal d = SignalHold then (track t s1, [])
           else case MO_executeDecision D E d (mol_assetID l) (track t s1) of
             (s, Inl err, eff) \<Rightarrow> (recordErr_MO err s, eff) | (s, Inr _, eff) \<Rightarrow> (s, eff)) of
       (s2, eff) \<Rightarrow> (l\<lparr>mol_strat := s2\<rparr>, eff))"
    using bar_event [OF nd t(1) lr s1] t lr by (simp add: MO_act_def live_ready_def)
  have err: "recordErr_MO e (track t s1) = track (t\<lparr>tk_errs := tk_errs t @ [e]\<rparr>) s1" for e
    by (simp add: recordErr_MO_def track_def)
  have quiet: ?thesis if "st2 = st1" "mo_step D (MOBar E bar) l = (l\<lparr>mol_strat := track v s1\<rparr>, [])" "tk_openSignal v = SignalHold"
    "tk_bondQty v = d_zero D" for v
    using that nd lr1 tr by (auto simp: mirrors_def holds_def st1 backtest_orders_def intro!: exI [of _ v])
  show ?thesis
  proof (cases "od_signal d = SignalHold")
    case True
    then have "st2 = st1" using x by (simp add: MO_bar_entry_def st1)
    then show ?thesis using quiet [of t] step True t by simp
  next
    case sig: False
    have f: "ox_last st1 = d" "ox_strat st1 = s1" by (simp_all add: st1)
    have entry: "MO_bar_entry D b res bar st1 =
      (if d_IsZero D (od_price d) then Inr st1
       else rbind (MO_cappedOrderQuantity D s1 (od_positionSize d) (d_zero D) (od_price d)) (\<lambda>q.
         case q of None \<Rightarrow> Inr st1
         | Some q \<Rightarrow> if d_IsZero D q then Inr st1
             else Inr (st1\<lparr>ox_records := ox_records st1 @ [MO_entry_record res d q], ox_open := Some (MO_entry_record res d q)\<rparr>)))"
      using sig w unfolding MO_bar_entry_def Let_def f by simp
    show ?thesis
    proof (cases "d_IsZero D (od_price d)")
      case True
      then have "st2 = st1" using entry x by (simp add: st1)
      moreover have "MO_executeDecision D E d (mol_assetID l) (track t s1) =
          (track t s1, Inl ''cannot execute decision: price is zero'', [])"
        using sig True lr1 by (simp add: MO_executeDecision_def MO_open_quantity_def MO_position_def live_ready_def)
      ultimately show ?thesis using quiet step sig t err by simp
    next
      case price: False
      let ?cap = "MO_cappedOrderQuantity D s1 (od_positionSize d) (d_zero D) (od_price d)"
      obtain oq where oq: "?cap = Inr oq" using x price unfolding entry by (auto simp: rbind_eq_Inr)
      have open_q: "MO_open_quantity D E d (mol_assetID l) (track t s1) = Inr oq"
        using oq price lr1 t by (simp add: MO_open_quantity_def MO_position_def live_ready_def)
      show ?thesis
      proof (cases oq)
        case None
        then have "st2 = st1" using x oq price unfolding entry by simp
        then show ?thesis using quiet [of t] step sig t open_q None by (simp add: MO_executeDecision_def)
      next
        case (Some q)
        have q: "0 < val q" using MO_capped_pos [OF L] oq Some by simp
        then have qz: "\<not> d_IsZero D q" by (simp add: dec_exact [OF L])
        let ?rec = "MO_entry_record res d q"
        have st2: "st2 = st1\<lparr>ox_records := ox_records st1 @ [?rec], ox_open := Some ?rec\<rparr>"
          using x oq Some price qz unfolding entry by simp
        have pre: "mo_balancesInitialized (track t s1)"
          "MO_cappedOrderQuantity D (track t s1) (od_positionSize d) (mo_bondQty (track t s1)) (od_price d) = Inr (Some q)"
          "snd (d_quo D (d_one D) (mf_Leverage (mo_cfg (track t s1)))) = None"
          using lr1 oq Some t by (simp_all add: live_ready_def)
        obtain n eff where ex: "MO_executeDecision D E d (mol_assetID l) (track t s1) =
            (MO_apply_fill D (side_of (od_signal d)) q d ((track t s1)\<lparr>mo_decisionSeq := n\<rparr>), Inr True, eff)"
          "orders_of eff = [(side_of (od_signal d), q)]"
          unfolding side_of_def by (rule MO_execute_accepted [OF E pre(1) sig price pre(2) qz pre(3)])
        obtain v where v: "MO_apply_fill D (side_of (od_signal d)) q d ((track t s1)\<lparr>mo_decisionSeq := n\<rparr>) = track v s1"
          "holds D val (Some ?rec) v"
          by (rule apply_fill_track [OF L Z lr1 t(3) sig _ q]) (use price in \<open>simp_all add: dec_exact [OF L]\<close>)
        have "mirrors D val st2 (l\<lparr>mol_strat := track v s1\<rparr>)"
          using nd lr1 v(2) kp(9) [OF sig] by (auto simp: mirrors_def st2 st1)
        moreover have "mo_step D (MOBar E bar) l = (l\<lparr>mol_strat := track v s1\<rparr>, eff)" using step sig ex v by simp
        ultimately show ?thesis
          using tr kp(7) ex(2) by (simp add: st2 st1 backtest_orders_def MO_entry_record_def)
      qed
    qed
  qed
qed

section \<open>The run\<close>

definition by_time :: "'d AssetPrice list \<Rightarrow> bool" where
  "by_time = sorted_wrt (\<lambda>a b. t_ns (ap_Time a) \<le> t_ns (ap_Time b))"

lemma tickWindow_sorted:
  "by_time ts \<Longrightarrow> tickWindow ts since till =
     (dropWhile (\<lambda>t. \<not> time_After (ap_Time t) till) ts,
      filter (\<lambda>t. time_After (ap_Time t) since \<and> \<not> time_After (ap_Time t) till) ts)"
proof (induction ts)
  case (Cons t ts)
  then show ?case by (fastforce simp: by_time_def time_After_def filter_empty_conv eq_commute [of "[]"])
qed simp

text \<open>Every bar is followed by a tick before the next one closes.\<close>

fun dense_ticks :: "int \<Rightarrow> 'd AssetPrice list \<Rightarrow> 'd Bar list \<Rightarrow> bool" where
  "dense_ticks res ticks [] \<longleftrightarrow> True"
| "dense_ticks res ticks (bar # later) \<longleftrightarrow> ticks_of res bar later ticks \<noteq> [] \<and> dense_ticks res ticks later"

lemma bar_ticks_mirror:
  assumes L: "decimal_laws D val rnd" and E: "\<And>t. accepting (E t)" and m: "mirrors D val st l"
    and R: "MO_bar_ticks D res bar (next_close res bar later) st = Inr st'"
    and a: "\<forall>t\<in>set ticks. ap_AssetID t = mol_assetID l" and srt: "by_time ticks"
    and seen: "ticks = pre @ ox_ticks st" "\<forall>t\<in>set pre. \<not> time_After (ap_Time t) (time_Add (bar_Time bar) res)"
    and ne: "ticks_of res bar later ticks \<noteq> []"
  shows "\<exists>l' os pre'. timed_run val D (map (tick_event E) (ticks_of res bar later ticks)) l = (l', os) \<and>
    mirrors D val st' l' \<and> mol_assetID l' = mol_assetID l \<and> backtest_orders val st' = backtest_orders val st @ os \<and>
    (ox_open st' \<noteq> None \<longrightarrow> ox_prevTicks st') \<and> ticks = pre' @ ox_ticks st' \<and>
    (pre' = pre \<or> (\<forall>t\<in>set pre'. \<not> time_After (ap_Time t) (next_close res bar later)))"
proof (cases "ox_open st")
  case None
  have "mo_openSignal (mol_strat l) = SignalHold" "\<not> mol_done l" using m None by (auto simp: mirrors_def holds_def)
  then have "timed_run val D (map (tick_event E) (ticks_of res bar later ticks)) l = (l, [])" by (intro ticks_flat)
  moreover have "st' = st" using R None by (simp add: MO_bar_ticks_def)
  ultimately show ?thesis using m None seen(1) by auto
next
  case (Some tr)
  let ?till = "next_close res bar later" and ?close = "time_Add (bar_Time bar) res"
  let ?late = "\<lambda>t. time_After (ap_Time t) ?close \<and> \<not> time_After (ap_Time t) ?till"
  have rest: "by_time (ox_ticks st)" using srt by (simp add: seen(1) by_time_def sorted_wrt_append)
  have win: "ticks_of res bar later ticks = filter ?late (ox_ticks st)"
    using seen(2) by (auto simp: ticks_of_def seen(1) filter_empty_conv)
  define w where "w = ticks_of res bar later ticks"
  define st1 where "st1 = st\<lparr>ox_ticks := dropWhile (\<lambda>t. \<not> time_After (ap_Time t) ?till) (ox_ticks st), ox_prevTicks := True\<rparr>"
  have run: "MO_tick_loop D tr w st1 = Inr st'"
    using R Some ne win by (simp add: MO_bar_ticks_def tickWindow_sorted [OF rest] st1_def w_def)
  have m1: "mirrors D val st1 l" "ox_open st1 = Some tr" using m Some by (auto simp: mirrors_def st1_def)
  have bo1: "backtest_orders val st1 = backtest_orders val st" by (simp add: st1_def backtest_orders_def)
  have aw: "\<forall>t\<in>set w. ap_AssetID t = mol_assetID l" using a by (simp add: w_def ticks_of_def)
  obtain l' os where x: "timed_run val D (map (tick_event E) w) l = (l', os)" "mirrors D val st' l'"
    "mol_assetID l' = mol_assetID l" "backtest_orders val st' = backtest_orders val st1 @ os"
    "ox_ticks st' = ox_ticks st1" "ox_prevTicks st' = ox_prevTicks st1"
    using ticks_mirror [where E = E, OF L E m1(2) m1(1) run aw] by blast
  let ?p = "pre @ takeWhile (\<lambda>t. \<not> time_After (ap_Time t) ?till) (ox_ticks st)"
  have "ticks = ?p @ ox_ticks st'" by (simp add: x(5) st1_def seen(1))
  moreover have "\<not> time_After (ap_Time t) ?till" if t: "t \<in> set ?p" for t
  proof -
    obtain u where u: "u \<in> set (ox_ticks st)" "time_After (ap_Time u) ?close" "\<not> time_After (ap_Time u) ?till"
      using ne unfolding win filter_empty_conv by blast
    then show ?thesis using t seen(2) by (auto simp: time_After_def dest!: set_takeWhileD bspec)
  qed
  ultimately have "ticks = ?p @ ox_ticks st' \<and> (?p = pre \<or> (\<forall>t\<in>set ?p. \<not> time_After (ap_Time t) ?till))" by blast
  moreover have "ox_prevTicks st'" by (simp add: x(6) st1_def)
  ultimately show ?thesis using x(1-4) bo1 unfolding w_def
    by (intro exI [of _ l'] exI [of _ os] exI [of _ ?p] conjI) simp_all
qed

lemma bar_mirror:
  assumes L: "decimal_laws D val rnd" and Z: "zero_sums D" and E: "accepting E" and m: "mirrors D val st l"
    and pt: "ox_open st \<noteq> None \<Longrightarrow> ox_prevTicks st" and u: "MO_bt_update D bar st = Inr st1" and w: "in_window b res bar"
    and x: "(case ox_open st1 of Some tr \<Rightarrow> MO_bar_exit D res bar tr st1 | None \<Rightarrow> MO_bar_entry D b res bar st1) = Inr st2"
  obtains l2 fs where "mo_step D (MOBar E bar) l = (l2, fs)" "mirrors D val st2 l2" "mol_assetID l2 = mol_assetID l"
    "ox_ticks st2 = ox_ticks st"
    "backtest_orders val st2 = backtest_orders val st @ map (\<lambda>(sd, q). (time_Add (bar_Time bar) res, sd, val q)) (orders_of fs)"
proof -
  have o: "ox_open st1 = ox_open st" using u by (auto simp: MO_bt_update_def split: prod.splits sum.splits)
  show thesis
  proof (cases "ox_open st")
    case None
    then show thesis using bar_flat_mirror [OF L Z E m None u w] x o that by auto
  next
    case (Some tr)
    then show thesis using bar_open_mirror [OF L E m Some _ u] x o pt that by auto
  qed
qed

lemma loop_mirror:
  assumes L: "decimal_laws D val rnd" and Z: "zero_sums D" and E: "\<And>t. accepting (E t)"
    and ticks: "\<forall>t\<in>set ticks. ap_AssetID t = a" "by_time ticks"
  shows "\<lbrakk>MO_bt_loop D b res cancelled i bars st = Inr st'; mirrors D val st l; mol_assetID l = a;
    ox_open st \<noteq> None \<longrightarrow> ox_prevTicks st; ticks = pre @ ox_ticks st;
    \<forall>bar\<in>set (take 1 bars). \<forall>t\<in>set pre. \<not> time_After (ap_Time t) (time_Add (bar_Time bar) res);
    sorted_wrt (\<lambda>x y. t_ns (bar_Time x) \<le> t_ns (bar_Time y)) bars; \<forall>bar\<in>set bars. in_window b res bar; dense_ticks res ticks bars\<rbrakk> \<Longrightarrow>
    \<exists>l' os. timed_run val D (live_events res E ticks bars) l = (l', os) \<and> mirrors D val st' l' \<and>
      backtest_orders val st' = backtest_orders val st @ os"
proof (induction bars arbitrary: i st l pre)
  case (Cons bar later)
  from Cons.prems(1) obtain st1 st2 st3 where s: "MO_bt_update D bar st = Inr st1"
    "(case ox_open st1 of Some tr \<Rightarrow> MO_bar_exit D res bar tr st1 | None \<Rightarrow> MO_bar_entry D b res bar st1) = Inr st2"
    "MO_bar_ticks D res bar (next_close res bar later) st2 = Inr st3" "MO_bt_loop D b res cancelled (i + 1) later st3 = Inr st'"
    by (auto simp: MO_bt_bar_def rbind_eq_Inr split: if_split_asm)
  have w: "in_window b res bar" and ne: "ticks_of res bar later ticks \<noteq> []" using Cons.prems by auto
  obtain l2 fs where 2: "mo_step D (MOBar (E (time_Add (bar_Time bar) res)) bar) l = (l2, fs)" "mirrors D val st2 l2"
    "mol_assetID l2 = mol_assetID l" "ox_ticks st2 = ox_ticks st"
    "backtest_orders val st2 = backtest_orders val st @ map (\<lambda>(sd, q). (time_Add (bar_Time bar) res, sd, val q)) (orders_of fs)"
    by (rule bar_mirror [OF L Z E [of "time_Add (bar_Time bar) res"] Cons.prems(2) _ s(1) w s(2)]) (use Cons.prems(4) in simp_all)
  have a2: "\<forall>t\<in>set ticks. ap_AssetID t = mol_assetID l2" and p2: "ticks = pre @ ox_ticks st2"
    using ticks(1) Cons.prems(3,5) 2(3,4) by simp_all
  have p3: "\<forall>t\<in>set pre. \<not> time_After (ap_Time t) (time_Add (bar_Time bar) res)" using Cons.prems(6) by simp
  obtain l3 os pre3 where 3: "timed_run val D (map (tick_event E) (ticks_of res bar later ticks)) l2 = (l3, os)"
    "mirrors D val st3 l3" "mol_assetID l3 = mol_assetID l2" "backtest_orders val st3 = backtest_orders val st2 @ os"
    "ox_open st3 \<noteq> None \<longrightarrow> ox_prevTicks st3" "ticks = pre3 @ ox_ticks st3"
    "pre3 = pre \<or> (\<forall>t\<in>set pre3. \<not> time_After (ap_Time t) (next_close res bar later))"
    using bar_ticks_mirror [where E = E, OF L E 2(2) s(3) a2 ticks(2) p2 p3 ne] by blast
  have nx: "\<not> time_After (ap_Time t) (time_Add (bar_Time nb) res)" if "nb \<in> set (take 1 later)" "t \<in> set pre3" for nb t
  proof (cases later)
    case (Cons c more)
    then have lt: "later = nb # more" using that(1) by simp
    have "t_ns (bar_Time bar) \<le> t_ns (bar_Time nb)" using Cons.prems(7) lt by simp
    then show ?thesis using 3(7) p3 that(2) lt by (auto simp: next_close_def time_After_def time_Add_def dest!: bspec)
  qed (use that in simp)
  have a3: "mol_assetID l3 = a" using 2(3) 3(3) Cons.prems(3) by simp
  have srt: "sorted_wrt (\<lambda>x y. t_ns (bar_Time x) \<le> t_ns (bar_Time y)) later" "\<forall>bar\<in>set later. in_window b res bar"
    "dense_ticks res ticks later" using Cons.prems(7-9) by auto
  obtain l4 os4 where 4: "timed_run val D (live_events res E ticks later) l3 = (l4, os4)" "mirrors D val st' l4"
    "backtest_orders val st' = backtest_orders val st3 @ os4"
    using Cons.IH [OF s(4) 3(2) a3 3(5,6) _ srt] nx by blast
  then show ?case using 2 3 by (simp add: timed_run_append)
qed simp

section \<open>The claims\<close>

text \<open>C2: The live momentum loop trades what the backtest trades. Whatever a backtest over a window (price or
  yield source, unit of leverage dividing, no cancellation) does up to its forced close at the end, a live
  strategy that is flat and initialised, fed the same bars at their closes and the same ticks in between by
  an exchange that accepts its orders, sends the same market orders, at the same times and in the same
  sizes, and holds the same position at the end. The ticks are sorted and belong to the bond, every bar is
  followed by a tick before the next close (else the backtest falls back on the extremes of the bar, which
  the live loop never looks at), and every bar lies in the traded window.\<close>

theorem momentum_live_matches_backtest:
  assumes "decimal_laws D val rnd" "zero_sums D" "\<And>t. accepting (E t)"
    and "live_ready D s" "mo_openSignal s = SignalHold" "mo_bondQty s = d_zero D"
    and "\<forall>t\<in>set (bt_ticks b). ap_AssetID t = a" "by_time (bt_ticks b)" "dense_ticks res (bt_ticks b) bars"
    and "sorted_wrt (\<lambda>x y. t_ns (bar_Time x) \<le> t_ns (bar_Time y)) bars" "\<forall>bar\<in>set bars. in_window b res bar"
    and "MO_bt_loop D b res cancelled 0 bars (MO_bt_start D b s) = Inr st"
  shows "\<exists>l. timed_run val D (live_events res E (bt_ticks b) bars) \<lparr>mol_strat = s, mol_assetID = a, mol_done = False\<rparr> =
      (l, backtest_orders val st) \<and>
    mo_openSignal (mol_strat l) = (case ox_open st of None \<Rightarrow> SignalHold | Some tr \<Rightarrow> otr_Signal tr) \<and>
    \<bar>val (mo_bondQty (mol_strat l))\<bar> = (case ox_open st of None \<Rightarrow> 0 | Some tr \<Rightarrow> val (otr_Quantity tr))"
proof -
  let ?l = "\<lparr>mol_strat = s, mol_assetID = a, mol_done = False\<rparr>"
  have m: "mirrors D val (MO_bt_start D b s) ?l"
    using assms(4-6) by (auto simp: mirrors_def MO_bt_start_def holds_def tracked_def intro!: exI [of _ "tracked s"])
      (simp add: track_def)
  have start: "ox_open (MO_bt_start D b s) = None" "ox_ticks (MO_bt_start D b s) = bt_ticks b" by (simp_all add: MO_bt_start_def)
  obtain l os where 1: "timed_run val D (live_events res E (bt_ticks b) bars) ?l = (l, os)" "mirrors D val st l"
    "backtest_orders val st = backtest_orders val (MO_bt_start D b s) @ os"
    using loop_mirror [where E = E and pre = "[]", OF assms(1-3,7,8,12) m _ _ _ _ assms(10,11,9)] start by auto
  have "backtest_orders val (MO_bt_start D b s) = []" by (simp add: MO_bt_start_def backtest_orders_def)
  then show ?thesis
    using 1 dec_exact(1) [OF assms(1)] by (auto simp: mirrors_def holds_def split: option.splits)
qed

text \<open>Over every live run and every sequence of events, the open signal is the sign of the tracked bond
  position as soon as balances are tracked, at most one order is sent per bar and per price entry, and after
  a pause nothing is sent until a resume.\<close>

theorem momentum_live_invariants:
  assumes L: "decimal_laws D val rnd" and run: "MO_Run D S runID (MO_New D cfg store seq) = (s, Inr l)"
    and evs: "run_events (mo_step D) evs l = (l1, f1)" and later: "\<forall>e\<in>set later. \<not> mo_wakes e"
    and all: "run_events (mo_step D) (evs @ MOMsg Pause # later) l = (l2, f2)"
  shows "(mo_balancesInitialized (mol_strat l1) \<longrightarrow> mo_openSignal (mol_strat l1) =
      (if 0 < val (mo_bondQty (mol_strat l1)) then SignalBuy
       else if val (mo_bondQty (mol_strat l1)) < 0 then SignalSell else SignalHold)) \<and>
    length (order_qtys f1) \<le> sum_list (map mo_weight evs) \<and> order_qtys f2 = order_qtys f1"
proof -
  have "mo_synced D (mol_strat l)" by (rule MO_Run_ok(1) [OF run]) (simp add: signal_of_zero [OF L])
  then have 1: "mo_synced D (mol_strat l1)" using mo.run_inv [of D l evs] evs by simp
  have q: "mo_quiet (fst (mo_step D (MOMsg Pause) l1))" "snd (mo_step D (MOMsg Pause) l1) = []"
    by (simp_all add: mo_step_def mo_quiet_def mo_message_def)
  have "order_qtys (snd (run_events (mo_step D) (MOMsg Pause # later) l1)) = []"
    using mo.run_quiet [OF q(1) later] q(2) by (simp add: split_beta)
  then have "order_qtys f2 = order_qtys f1" using evs all by (auto simp: run_events_append split_beta)
  then show ?thesis
    using 1 mo.run_orders [of D evs l] evs signal_of_zero [OF L] by (simp add: mo_synced_def signalFromBondQty_def dec_exact [OF L])
qed

section \<open>Bands\<close>

text \<open>C7: When a backtest has no tick data and falls back on the extremes of the bar, it misses no exit: if
  any price the bar spans is one the live loop would have closed the position at, the fallback closes it in
  that bar, on the stop whenever that price was a stop, and a stop is never filled better than its level.\<close>

theorem momentum_bar_covers_ticks:
  assumes L: "decimal_laws D val rnd" and p: "val (bar_Low bar) \<le> val p" "val p \<le> val (bar_High bar)"
    and hit: "bandExit D cfg (otr_Signal tr) (otr_Price tr) (otr_EntryATR tr) p = Some why"
  shows "\<exists>fill reason. MO_exitForBar D cfg tr bar d = Some (fill, reason) \<and>
    (reason = ''stop_loss'' \<or> why = ''take_profit'' \<and> reason = ''take_profit'') \<and>
    (reason = ''stop_loss'' \<longrightarrow> (\<exists>lv. fst (bandLevels D cfg (otr_Signal tr) (otr_Price tr) (otr_EntryATR tr)) = Some lv \<and>
       (if otr_Signal tr = SignalBuy then val fill \<le> val lv else val lv \<le> val fill)))"
proof -
  let ?sig = "otr_Signal tr"
  obtain stop tp where b: "bandLevels D cfg ?sig (otr_Price tr) (otr_EntryATR tr) = (stop, tp)" by (rule prod.exhaust)
  note c = dec_cmp [OF L]
  let ?adv = "if ?sig = SignalSell then bar_High bar else bar_Low bar"
  let ?fav = "if ?sig = SignalSell then bar_Low bar else bar_High bar"
  have st: "crosses_stop D ?sig p stop \<Longrightarrow> crosses_stop D ?sig ?adv stop"
    using p by (auto simp: crosses_stop_def c split: option.splits Signal.splits)
  have tk: "crosses_tp D ?sig p tp \<Longrightarrow> crosses_tp D ?sig ?fav tp"
    using p by (auto simp: crosses_tp_def c split: option.splits Signal.splits)
  show ?thesis
  proof (cases "crosses_stop D ?sig ?adv stop")
    case True
    then obtain lv where lv: "stop = Some lv" by (auto simp: crosses_stop_def split: option.splits)
    have "MO_exitForBar D cfg tr bar d = Some (stopFill D ?sig lv (bar_Open bar), ''stop_loss'')"
      using True b lv by (simp add: MO_exitForBar_def Let_def)
    then show ?thesis using b lv by (auto simp: stopFill_def c)
  next
    case False
    then have h: "crosses_tp D ?sig p tp" "why = ''take_profit''"
      using hit b st by (auto simp: bandExit_def split: if_splits)
    have "MO_exitForBar D cfg tr bar d = Some (tpFill D ?sig (the tp) (bar_Open bar), ''take_profit'')"
      using tk [OF h(1)] False b by (simp add: MO_exitForBar_def Let_def)
    then show ?thesis using h(2) by simp
  qed
qed

text \<open>A backtest never closes at a price that did not trade: for a bar whose open and close lie between
  its low and its high, every exit the fallback takes fills between the low and the high.\<close>

theorem momentum_exit_fill_in_bar:
  assumes L: "decimal_laws D val rnd" and e: "MO_exitForBar D cfg tr bar d = Some (fill, reason)"
    and d: "od_price d = bar_Close bar" and b: "val (bar_Low bar) \<le> val (bar_Open bar)" "val (bar_Open bar) \<le> val (bar_High bar)"
      "val (bar_Low bar) \<le> val (bar_Close bar)" "val (bar_Close bar) \<le> val (bar_High bar)"
  shows "val (bar_Low bar) \<le> val fill \<and> val fill \<le> val (bar_High bar)"
proof -
  note c = dec_cmp [OF L]
  obtain stop tp where lv: "bandLevels D cfg (otr_Signal tr) (otr_Price tr) (otr_EntryATR tr) = (stop, tp)" by (rule prod.exhaust)
  let ?adv = "if otr_Signal tr = SignalSell then bar_High bar else bar_Low bar"
  let ?fav = "if otr_Signal tr = SignalSell then bar_Low bar else bar_High bar"
  consider (stop) l where "stop = Some l" "crosses_stop D (otr_Signal tr) ?adv (Some l)" "fill = stopFill D (otr_Signal tr) l (bar_Open bar)"
    | (take) l where "tp = Some l" "crosses_tp D (otr_Signal tr) ?fav (Some l)" "fill = tpFill D (otr_Signal tr) l (bar_Open bar)"
    | (rev) "fill = od_price d"
    using e lv by (cases stop; cases tp) (auto simp: MO_exitForBar_def Let_def crosses_stop_def crosses_tp_def split: if_splits)
  then show ?thesis
  proof cases
    case stop
    then show ?thesis using b by (auto simp: stopFill_def crosses_stop_def c split: Signal.splits if_splits)
  next
    case take
    then show ?thesis using b by (auto simp: tpFill_def crosses_tp_def c split: Signal.splits if_splits)
  qed (use b d in simp)
qed

section \<open>The signal\<close>

text \<open>The volume gate lets the bar through.\<close>

definition volume_ok :: "'d decimal_ops \<Rightarrow> ('d \<Rightarrow> rat) \<Rightarrow> 'd MOStrategy \<Rightarrow> 'd Bar \<Rightarrow> bool" where
  "volume_ok D val s bar \<longleftrightarrow>
     (case mo_volWin s of
        None \<Rightarrow> True
      | Some w \<Rightarrow>
          Rolling_Ready w \<longrightarrow>
          (case d_mul D (mf_VolumeRatioThreshold (mo_cfg s)) (Rolling_Mean w) of
             (threshold, None) \<Rightarrow> val threshold \<le> val (bar_Volume bar) | (_, Some _) \<Rightarrow> True))"

text \<open>The signal rule. After a bar that is not dropped, the decision is to buy exactly when both windows
  are full, the fast mean less the slow mean, turned by the direction of the source, is positive, and the
  volume gate lets the bar through; to sell when it is negative; and the decision carries the price of the
  bar, the configured size and the means it was taken on.\<close>

theorem momentum_signal_rule:
  assumes L: "decimal_laws D val rnd" and u: "MO_Update D bar s = (s1, Inr d)"
    and x: "seriesValue D (mo_cfg s) bar = Inr (Some x)"
  shows "(let edge = rnd (rnd (val (Rolling_Mean (mo_fastWin s1)) - val (Rolling_Mean (mo_slowWin s1))) * val (mo_sourceSign s1));
      go = windowsReady s1 \<and> volume_ok D val s1 bar in
      (od_signal d = SignalBuy \<longleftrightarrow> go \<and> 0 < edge) \<and> (od_signal d = SignalSell \<longleftrightarrow> go \<and> edge < 0)) \<and>
    od_price d = bar_Close bar \<and> od_time d = bar_Time bar \<and> od_positionSize d = mf_MaxPositionSize (mo_cfg s1) \<and>
    od_FastMA d = Rolling_Mean (mo_fastWin s1) \<and> od_SlowMA d = Rolling_Mean (mo_slowWin s1)"
  using u
proof (cases rule: MO_Update_ok)
  case dropped
  then show ?thesis using x by simp
next
  case (added y sdiff)
  let ?d = "crossover D (windowsReady s1) sdiff \<lparr>od_time = bar_Time bar, od_bondID = mo_baseAssetID s1,
    od_price = bar_Close bar, od_signal = SignalHold, od_positionSize = mf_MaxPositionSize (mo_cfg s1),
    od_reason = ''warming_up'', od_FastMA = Rolling_Mean (mo_fastWin s1), od_SlowMA = Rolling_Mean (mo_slowWin s1),
    od_ATR = Rolling_Mean (mo_atrWin s1), od_SeriesValue = y, od_Trend = []\<rparr>"
  obtain diff where "d_sub D (Rolling_Mean (mo_fastWin s1)) (Rolling_Mean (mo_slowWin s1)) = (diff, None)"
    "d_mul D diff (mo_sourceSign s1) = (sdiff, None)"
    using added(3) by (auto simp: signed_diff_def rbind_eq_Inr tryv_eq_Inr)
  then have edge: "val sdiff = rnd (rnd (val (Rolling_Mean (mo_fastWin s1)) - val (Rolling_Mean (mo_slowWin s1))) * val (mo_sourceSign s1))"
    by (simp add: val_sub [OF L] val_mul [OF L])
  have cr: "od_signal ?d = (if windowsReady s1 \<and> 0 < val sdiff then SignalBuy
      else if windowsReady s1 \<and> val sdiff < 0 then SignalSell else SignalHold)"
    by (auto simp: crossover_def dec_cmp [OF L] dec_exact(1) [OF L])
  have gate: "od_signal (volumeGate D s1 bar e) = (if volume_ok D val s1 bar then od_signal e else SignalHold)" for e
    by (auto simp: volumeGate_def volume_ok_def dec_cmp [OF L] split: option.split prod.split)
  have "od_signal d = (if volume_ok D val s1 bar then od_signal ?d else SignalHold)" unfolding added(4) by (rule gate)
  then show ?thesis using cr edge by (simp add: Let_def added(4))
qed

section \<open>Concrete runs\<close>

definition mo_cfg0 :: "rat MOConfig" where
  "mo_cfg0 = (MO_DefaultConfig rat_ops)\<lparr>mf_FastWindow := 2, mf_SlowWindow := 3, mf_Resolution := ''1h'', mf_ATRWindow := 2,
     mf_VolumeAvgWindow := 0, mf_StopLossATR := 1, mf_OrderBookID := ''book'', mf_InitialBalance := 100\<rparr>"

definition mo_env :: "gtime \<Rightarrow> rat MREnv" where
  "mo_env t = bo_env 0 0"

definition mo_tick :: "int \<Rightarrow> rat \<Rightarrow> rat AssetPrice" where
  "mo_tick m p = \<lparr>ap_AssetID = ''bond'', ap_Price = p, ap_YTM = None, ap_Time = \<lparr>t_ns = m * minute_ns, t_off = 0\<rparr>\<rparr>"

definition mo_flat :: "rat MOStrategy" where
  "mo_flat = (MO_New rat_ops mo_cfg0 False 0)\<lparr>mo_balancesInitialized := True\<rparr>"

text \<open>The third bar opens a long position at 12; the tick after it falls through the stop.\<close>

definition mo_bars :: "rat Bar list" where
  "mo_bars = [bo_bar 24 10 10, bo_bar 25 10 10, bo_bar 26 10 12]"

definition mo_sample :: "rat Backtester" where
  "mo_sample = \<lparr>bt_ticks = [mo_tick (25 * 60 + 30) 10, mo_tick (26 * 60 + 30) 11, mo_tick (27 * 60 + 30) 9],
     bt_TradeFrom = \<lparr>t_ns = 24 * hour_ns, t_off = 0\<rparr>, bt_TradeTo = \<lparr>t_ns = 28 * hour_ns, t_off = 0\<rparr>\<rparr>"

lemma bo_bar_fields: "bar_Low (bo_bar h lo c) = lo" "bar_Open (bo_bar h lo c) = lo" "bar_High (bo_bar h lo c) = c" "bar_Close (bo_bar h lo c) = c"
  by (simp_all add: bo_bar_def)

lemma accepting_mo_env: "accepting (mo_env t)"
  by (simp add: accepting_def mo_env_def bo_env_def)

lemma zero_sums_rat_ops: "zero_sums rat_ops"
  by (simp add: zero_sums_def rat_ops_def)

lemma mo_sample_value:
  "(case MO_bt_loop rat_ops mo_sample hour_ns (\<lambda>_. False) 0 mo_bars (MO_bt_start rat_ops mo_sample mo_flat) of
      Inl _ \<Rightarrow> False
    | Inr st \<Rightarrow> map (\<lambda>(t, sd, q). (t_ns t, sd, q)) (backtest_orders id st) =
        [(27 * hour_ns, SIDE_BUY, 25 / 3), ((27 * 60 + 30) * minute_ns, SIDE_SELL, 25 / 3)] \<and> ox_open st = None)"
  by code_simp

theorem momentum_live_matches_backtest_witness:
  "map (\<lambda>(t, sd, q). (t_ns t, sd, q)) (snd (timed_run id rat_ops (live_events hour_ns mo_env (bt_ticks mo_sample) mo_bars)
       \<lparr>mol_strat = mo_flat, mol_assetID = ''bond'', mol_done = False\<rparr>)) =
     [(27 * hour_ns, SIDE_BUY, 25 / 3), ((27 * 60 + 30) * minute_ns, SIDE_SELL, 25 / 3)]"
proof -
  obtain st where st: "MO_bt_loop rat_ops mo_sample hour_ns (\<lambda>_. False) 0 mo_bars (MO_bt_start rat_ops mo_sample mo_flat) = Inr st"
    "map (\<lambda>(t, sd, q). (t_ns t, sd, q)) (backtest_orders id st) =
       [(27 * hour_ns, SIDE_BUY, 25 / 3), ((27 * 60 + 30) * minute_ns, SIDE_SELL, 25 / 3)]"
    using mo_sample_value by (auto split: sum.splits)
  have 1: "live_ready rat_ops mo_flat" "mo_openSignal mo_flat = SignalHold" "mo_bondQty mo_flat = d_zero rat_ops"
    "\<forall>t\<in>set (bt_ticks mo_sample). ap_AssetID t = ''bond''" "by_time (bt_ticks mo_sample)"
    "dense_ticks hour_ns (bt_ticks mo_sample) mo_bars" "\<forall>bar\<in>set mo_bars. in_window mo_sample hour_ns bar"
    by (code_simp, code_simp, code_simp, code_simp, simp add: by_time_def mo_sample_def mo_tick_def, code_simp, code_simp)
  have 2: "sorted_wrt (\<lambda>x y. t_ns (bar_Time x) \<le> t_ns (bar_Time y)) mo_bars" by (simp add: mo_bars_def bo_bar_def)
  show ?thesis
    using momentum_live_matches_backtest [where E = mo_env, OF rat_ops_laws zero_sums_rat_ops accepting_mo_env 1(1-6) 2 1(7) st(1)] st(2)
    by auto
qed

lemma mo_setup_runs:
  "\<exists>s l. MO_Run rat_ops bo_setup ''r'' (MO_New rat_ops mo_cfg0 False 0) = (s, Inr l)"
proof -
  have n: "''book'' \<noteq> uuid_Nil" by (simp add: uuid_Nil_def)
  show ?thesis
    by (simp add: MO_Run_def MO_run_setup_def Let_def LookupAssetID_def requireCandleCoverage_def bo_setup_def bo_env_def
        MO_New_def mo_cfg0_def MO_DefaultConfig_def n rat_ops_def)
qed

theorem momentum_live_invariants_witness:
  "\<exists>s l. MO_Run rat_ops bo_setup ''r'' (MO_New rat_ops mo_cfg0 False 0) = (s, Inr l) \<and>
     order_qtys (snd (run_events (mo_step rat_ops)
       ([MOBar (bo_env 0 0) (bo_bar 24 10 10)] @ MOMsg Pause # [MOBar (bo_env 0 0) (bo_bar 25 10 10)]) l)) =
     order_qtys (snd (run_events (mo_step rat_ops) [MOBar (bo_env 0 0) (bo_bar 24 10 10)] l))"
proof -
  obtain s l where r: "MO_Run rat_ops bo_setup ''r'' (MO_New rat_ops mo_cfg0 False 0) = (s, Inr l)"
    using mo_setup_runs by blast
  have "\<forall>e\<in>set [MOBar (bo_env 0 0) (bo_bar 25 10 10)]. \<not> mo_wakes e" by (simp add: mo_wakes_def)
  from momentum_live_invariants [OF rat_ops_laws r surjective_pairing this surjective_pairing] r show ?thesis by blast
qed

definition mo_long :: "rat MOTradeRecord" where
  "mo_long = \<lparr>otr_Time = time_zero, otr_BondID = ''bond'', otr_Signal = SignalBuy, otr_Price = 12, otr_Quantity = 1,
     otr_PositionSize = 1, otr_FastMA = 0, otr_SlowMA = 0, otr_EntryATR = 1\<rparr>"

theorem momentum_bar_covers_ticks_witness:
  "\<exists>fill. MO_exitForBar rat_ops mo_cfg0 mo_long (bo_bar 0 9 13) (MODecision_zero rat_ops) = Some (fill, ''stop_loss'')"
proof -
  have h: "bandExit rat_ops mo_cfg0 (otr_Signal mo_long) (otr_Price mo_long) (otr_EntryATR mo_long) 10 = Some ''stop_loss''"
    by code_simp
  have b: "id (bar_Low (bo_bar 0 9 13)) \<le> id (10::rat)" "id (10::rat) \<le> id (bar_High (bo_bar 0 9 13))"
    by (simp_all add: bo_bar_def)
  from momentum_bar_covers_ticks [OF rat_ops_laws b h, of "MODecision_zero rat_ops"] show ?thesis by auto
qed

theorem momentum_exit_fill_in_bar_witness:
  "case MO_exitForBar rat_ops mo_cfg0 mo_long (bo_bar 0 9 13) ((MODecision_zero rat_ops)\<lparr>od_price := 13\<rparr>) of
     None \<Rightarrow> False | Some (fill, reason) \<Rightarrow> 9 \<le> fill \<and> fill \<le> 13"
proof -
  have "MO_exitForBar rat_ops mo_cfg0 mo_long (bo_bar 0 9 13) ((MODecision_zero rat_ops)\<lparr>od_price := 13\<rparr>) \<noteq> None"
    by code_simp
  then obtain fill reason where
    e: "MO_exitForBar rat_ops mo_cfg0 mo_long (bo_bar 0 9 13) ((MODecision_zero rat_ops)\<lparr>od_price := 13\<rparr>) = Some (fill, reason)"
    by auto
  have "id (bar_Low (bo_bar 0 9 13)) \<le> id fill \<and> id fill \<le> id (bar_High (bo_bar 0 9 13))"
    by (rule momentum_exit_fill_in_bar [OF rat_ops_laws e]) (simp_all add: bo_bar_fields)
  then show ?thesis by (simp add: e bo_bar_fields)
qed

definition mo_warm :: "rat MOStrategy" where
  "mo_warm = fst (MO_Update rat_ops (bo_bar 25 10 10) (fst (MO_Update rat_ops (bo_bar 24 10 10) mo_flat)))"

theorem momentum_signal_rule_witness:
  "case MO_Update rat_ops (bo_bar 26 10 12) mo_warm of
     (s1, Inl _) \<Rightarrow> False | (s1, Inr d) \<Rightarrow> od_signal d = SignalBuy \<and> od_price d = 12"
proof -
  have "\<not> isl (snd (MO_Update rat_ops (bo_bar 26 10 12) mo_warm))" by code_simp
  then obtain s1 d where u: "MO_Update rat_ops (bo_bar 26 10 12) mo_warm = (s1, Inr d)"
    by (metis prod.collapse isl_def sum.collapse(2) sum.disc_eq_case(1))
  have x: "seriesValue rat_ops (mo_cfg mo_warm) (bo_bar 26 10 12) = Inr (Some 12)" by code_simp
  have s1: "s1 = fst (MO_Update rat_ops (bo_bar 26 10 12) mo_warm)" by (simp add: u)
  have "windowsReady s1" "volume_ok rat_ops id s1 (bo_bar 26 10 12)" unfolding s1 by code_simp+
  moreover have "0 < (Rolling_Mean (mo_fastWin s1) - Rolling_Mean (mo_slowWin s1)) * mo_sourceSign s1" unfolding s1 by code_simp
  ultimately show ?thesis
    using momentum_signal_rule [OF rat_ops_laws u x] by (simp add: u Let_def bo_bar_fields)
qed

end
