(* ===== verification/CT_Model.thy ===== *)
theory CT_Model
  imports Exec_Loop Portfolio Benchmark
begin

text \<open>
  The live copy trading strategy, \<open>src/strategy/copytrading/strategy.go\<close>: the loop over the trades of the
  followed trader, the account an order is sized and closed against, and the decisions it records.

  \<^item> The portfolio is the list of the asset maps of its accounts, in the order the maps iterate. Go may
    iterate differently each time, so \<open>ce_iter k\<close> is the order of the k-th iteration while one trade is handled.
  \<^item> The exchange and the decision store answer through \<open>CTEnv\<close>, one for each trade.
\<close>

section \<open>Configuration and state\<close>

record 'd CTConfig =
  cf_FollowedTrader :: string
  cf_PercentageOfAvailable :: 'd
  cf_Leverage :: 'd
  cf_MinOrderSize :: int
  cf_MaxOrderSize :: int
  cf_DisallowedBonds :: "string list"
  cf_InitialBalance :: 'd

record 'd CTStrategy =
  ct_cfg :: "'d CTConfig"
  ct_runID :: string
  ct_paused :: bool
  ct_marketAPI :: bool
  ct_tradeStream :: bool
  ct_decisionStore :: bool
  ct_decisionSeq :: int

definition CT_New :: "'d CTConfig \<Rightarrow> bool \<Rightarrow> bool \<Rightarrow> bool \<Rightarrow> int \<Rightarrow> 'd CTStrategy" where
  "CT_New cfg api stream store seq =
     \<lparr>ct_cfg = cfg, ct_runID = uuid_Nil, ct_paused = False, ct_marketAPI = api, ct_tradeStream = stream,
      ct_decisionStore = store, ct_decisionSeq = seq\<rparr>"

type_synonym account_map = "string \<Rightarrow> AccountV2 option"

record 'd CTTrade =
  cte_TraderID :: string
  cte_OrderBookID :: string
  cte_AssetID :: string
  cte_Side :: string
  cte_Quantity :: 'd
  cte_Price :: 'd
  cte_Timestamp :: gtime
  cte_ExecutionID :: string

record 'd CTEnv =
  ce_GetPortfolioV2 :: "account_map list option \<times> gerror option"
  ce_iter :: "nat \<Rightarrow> account_map list \<Rightarrow> account_map list"
  ce_QuoteAssetID :: "string \<Rightarrow> string gopair"
  ce_CreateMarketOrder :: "'d OrderRequest \<Rightarrow> string gopair"
  ce_SaveDecision :: "'d DecisionRow \<Rightarrow> gerror option"
  ce_NewV7 :: string
  ce_Now :: gtime

section \<open>Positions and accounts\<close>

datatype positionDirection = positionFlat | positionLong | positionShort

definition positionForAsset :: "'d decimal_ops \<Rightarrow> 'd \<Rightarrow> 'd \<Rightarrow> positionDirection" where
  "positionForAsset D available borrowed =
     (let net = fst (d_sub D available borrowed) in
      if d_IsPos D net then positionLong else if d_IsNeg D net then positionShort else positionFlat)"

definition isClose :: "Side \<Rightarrow> positionDirection \<Rightarrow> bool" where
  "isClose side current \<longleftrightarrow> current = positionLong \<and> side = SIDE_SELL \<or> current = positionShort \<and> side = SIDE_BUY"

definition balanceAssetFor :: "Side \<Rightarrow> positionDirection \<Rightarrow> string \<Rightarrow> string \<Rightarrow> string" where
  "balanceAssetFor side current bondAssetID quoteAssetID =
     (if current = positionLong \<and> side = SIDE_SELL \<or> current = positionShort \<and> side = SIDE_BUY
      then bondAssetID else quoteAssetID)"

text \<open>\<open>decimal.Parse\<close> where an error counts as zero.\<close>

definition parse_or_zero :: "'d decimal_ops \<Rightarrow> string \<Rightarrow> 'd" where
  "parse_or_zero D s = (case d_parse D s of (v, None) \<Rightarrow> v | (_, Some _) \<Rightarrow> d_zero D)"

definition add_parsed :: "'d decimal_ops \<Rightarrow> 'd \<Rightarrow> string \<Rightarrow> 'd" where
  "add_parsed D acc s = (case d_parse D s of (v, None) \<Rightarrow> fst (d_add D acc v) | (_, Some _) \<Rightarrow> acc)"

text \<open>The accounts of one kind that hold an asset, in iteration order.\<close>

definition holding_accounts :: "bool \<Rightarrow> string \<Rightarrow> account_map list \<Rightarrow> (account_map \<times> AccountV2) list" where
  "holding_accounts wantGlobal asset accounts =
     List.map_filter (\<lambda>m. case m asset of None \<Rightarrow> None | Some a \<Rightarrow> if ac_IsGlobal a = wantGlobal then Some (m, a) else None) accounts"

definition sumAvailableByAccountType :: "'d decimal_ops \<Rightarrow> account_map list \<Rightarrow> bool \<Rightarrow> string \<Rightarrow> 'd" where
  "sumAvailableByAccountType D accounts wantGlobal asset =
     foldl (\<lambda>acc (_, a). add_parsed D acc (ac_Available a)) (d_zero D) (holding_accounts wantGlobal asset accounts)"

definition availableBalanceFor ::
  "'d decimal_ops \<Rightarrow> account_map list option \<Rightarrow> string \<Rightarrow> string \<Rightarrow> bool \<Rightarrow> 'd" where
  "availableBalanceFor D portfolio balanceAsset bondAssetID fromGlobal =
     (case portfolio of
        None \<Rightarrow> d_zero D
      | Some accounts \<Rightarrow>
          if accounts = [] then d_zero D
          else if fromGlobal then sumAvailableByAccountType D accounts True balanceAsset
          else
            (case holding_accounts False bondAssetID accounts of
               [] \<Rightarrow> d_zero D
             | (m, _) # _ \<Rightarrow> (case m balanceAsset of None \<Rightarrow> d_zero D | Some a \<Rightarrow> parse_or_zero D (ac_Available a))))"

record 'd bondBalances =
  bb_available :: 'd
  bb_borrowed :: 'd

definition bondBalancesFor :: "'d decimal_ops \<Rightarrow> account_map list option \<Rightarrow> string \<Rightarrow> bool \<Rightarrow> 'd bondBalances" where
  "bondBalancesFor D portfolio bondAssetID fromGlobal =
     (case portfolio of
        None \<Rightarrow> \<lparr>bb_available = d_zero D, bb_borrowed = d_zero D\<rparr>
      | Some accounts \<Rightarrow>
          if fromGlobal then
            foldl (\<lambda>b (_, a). \<lparr>bb_available = add_parsed D (bb_available b) (ac_Available a),
                               bb_borrowed = add_parsed D (bb_borrowed b) (ac_Borrowed a)\<rparr>)
              \<lparr>bb_available = d_zero D, bb_borrowed = d_zero D\<rparr> (holding_accounts True bondAssetID accounts)
          else
            (case holding_accounts False bondAssetID accounts of
               [] \<Rightarrow> \<lparr>bb_available = d_zero D, bb_borrowed = d_zero D\<rparr>
             | (_, a) # _ \<Rightarrow> \<lparr>bb_available = parse_or_zero D (ac_Available a), bb_borrowed = parse_or_zero D (ac_Borrowed a)\<rparr>))"

section \<open>Order size\<close>

text \<open>The errors of the multiplications are dropped.\<close>

definition calculateOrderSize :: "'d decimal_ops \<Rightarrow> 'd \<Rightarrow> 'd \<Rightarrow> 'd \<Rightarrow> int \<Rightarrow> int \<Rightarrow> 'd" where
  "calculateOrderSize D available percentage leverage minOrderSize maxOrderSize =
     (let orderSize = fst (d_mul D (fst (d_mul D available percentage)) leverage) in
      if minOrderSize > 0 \<and> d_cmp D orderSize (d_new D minOrderSize) < 0 then d_zero D
      else if maxOrderSize > 0 \<and> d_cmp D orderSize (d_new D maxOrderSize) > 0 then d_new D maxOrderSize
      else orderSize)"

section \<open>Handling a trade\<close>

definition ToLower :: "string \<Rightarrow> string" where
  "ToLower s = map (\<lambda>c. let n = of_char c :: nat in if 65 \<le> n \<and> n \<le> 90 then char_of (n + 32) else c) s"

definition CT_recordDecision :: "'d CTEnv \<Rightarrow> 'd DecisionRow \<Rightarrow> 'd CTStrategy \<Rightarrow> 'd CTStrategy \<times> 'd Effect list" where
  "CT_recordDecision E d s =
     (if \<not> ct_decisionStore s then (s, [])
      else
        let s = s\<lparr>ct_decisionSeq := wrap64 (ct_decisionSeq s + 1)\<rparr>;
            d = d\<lparr>dr_RunID := ct_runID s, dr_Seq := ct_decisionSeq s, dr_StrategyType := ''copy_trading'',
                  dr_CreatedAt := (if time_IsZero (dr_CreatedAt d) then time_UTC (ce_Now E) else dr_CreatedAt d)\<rparr>
        in (s, [EDecision d (ce_SaveDecision E d)]))"

definition trade_side :: "string \<Rightarrow> Side option" where
  "trade_side s =
     (if ToLower s = ''buy'' then Some SIDE_BUY else if ToLower s = ''sell'' then Some SIDE_SELL else None)"

text \<open>The quantity of the order: the whole position for a close, else a share of the available balance.\<close>

definition CT_order_size ::
  "'d decimal_ops \<Rightarrow> 'd CTEnv \<Rightarrow> account_map list option \<Rightarrow> 'd CTTrade \<Rightarrow> Side \<Rightarrow> positionDirection \<Rightarrow> string \<Rightarrow> 'd CTStrategy \<Rightarrow> 'd" where
  "CT_order_size D E portfolio trade side current quoteAssetID s =
     (let leverage = (if isClose side current then d_one D else cf_Leverage (ct_cfg s));
          balanceAsset = balanceAssetFor side current (cte_AssetID trade) quoteAssetID;
          available = availableBalanceFor D (map_option (ce_iter E 1) portfolio) balanceAsset (cte_AssetID trade) False
      in if isClose side current then
           let b = bondBalancesFor D (map_option (ce_iter E 2) portfolio) (cte_AssetID trade) False
           in if current = positionLong then bb_available b else bb_borrowed b
         else calculateOrderSize D available (cf_PercentageOfAvailable (ct_cfg s)) leverage
                (cf_MinOrderSize (ct_cfg s)) (cf_MaxOrderSize (ct_cfg s)))"

definition CT_request :: "'d decimal_ops \<Rightarrow> 'd CTEnv \<Rightarrow> 'd CTTrade \<Rightarrow> Side \<Rightarrow> 'd \<Rightarrow> 'd \<Rightarrow> 'd CTStrategy \<Rightarrow> 'd OrderRequest" where
  "CT_request D E trade side orderSize leverage s =
     \<lparr>oreq_Book = cte_OrderBookID trade, oreq_Side = side, oreq_Quantity = orderSize,
      oreq_InverseLeverage = (if d_IsPos D leverage \<and> d_cmp D leverage (d_one D) > 0
                              then fst (d_quo D (d_one D) leverage) else d_one D),
      oreq_FromGlobal = False, oreq_ClientOrderID = BuildClientOrderID ''copy_trading'' (ct_runID s) (ce_NewV7 E)\<rparr>"

definition CT_decision_row :: "'d CTTrade \<Rightarrow> positionDirection \<Rightarrow> 'd \<Rightarrow> 'd OrderRequest \<Rightarrow> 'd DecisionRow" where
  "CT_decision_row trade current leverage req =
     \<lparr>dr_RunID = [], dr_Seq = 0, dr_StrategyType = [], dr_OrderBookID = cte_OrderBookID trade, dr_Asset = cte_AssetID trade,
      dr_Side = Side_string (oreq_Side req), dr_Signal = ToLower (cte_Side trade), dr_Quantity = oreq_Quantity req,
      dr_Price = cte_Price trade, dr_Leverage = leverage, dr_InverseLeverage = oreq_InverseLeverage req,
      dr_FromGlobal = oreq_FromGlobal req,
      dr_Kind = (if isClose (oreq_Side req) current then DecisionKindClose
                 else if current \<noteq> positionFlat then DecisionKindExtend else DecisionKindOpen),
      dr_Reason = ''follow_trade'',
      dr_ReasonDetail = ''followed trader '' @ cte_TraderID trade @ '' execution '' @ cte_ExecutionID trade,
      dr_CreatedAt = time_zero, dr_ClientOrderID = oreq_ClientOrderID req\<rparr>"

definition CT_place ::
  "'d CTEnv \<Rightarrow> 'd CTTrade \<Rightarrow> positionDirection \<Rightarrow> 'd \<Rightarrow> 'd OrderRequest \<Rightarrow> 'd CTStrategy \<Rightarrow>
     'd CTStrategy \<times> gerror option \<times> 'd Effect list" where
  "CT_place E trade current leverage req s =
     (let resp = ce_CreateMarketOrder E req in
      case snd resp of
        Some err \<Rightarrow> (s, Some (''create market order: '' @ err), [EOrder req resp])
      | None \<Rightarrow>
          (case CT_recordDecision E (CT_decision_row trade current leverage req) s of
             (s, eff) \<Rightarrow> (s, None, EOrder req resp # eff)))"

definition handleTrade ::
  "'d decimal_ops \<Rightarrow> 'd CTEnv \<Rightarrow> 'd CTTrade \<Rightarrow> 'd CTStrategy \<Rightarrow> 'd CTStrategy \<times> gerror option \<times> 'd Effect list" where
  "handleTrade D E trade s =
     (if cte_AssetID trade \<in> set (cf_DisallowedBonds (ct_cfg s)) then (s, None, [])
      else case trade_side (cte_Side trade) of
        None \<Rightarrow> (s, Some (''unknown trade side '' @ cte_Side trade), [])
      | Some side \<Rightarrow>
          (case ce_GetPortfolioV2 E of
             (_, Some err) \<Rightarrow> (s, Some (''get portfolio: '' @ err), [])
           | (portfolio, None) \<Rightarrow>
               let bondAccount = bondBalancesFor D (map_option (ce_iter E 0) portfolio) (cte_AssetID trade) False;
                   current = positionForAsset D (bb_available bondAccount) (bb_borrowed bondAccount)
               in (case ce_QuoteAssetID E (cte_OrderBookID trade) of
                     (_, Some err) \<Rightarrow> (s, Some (''quote asset ID for order book '' @ cte_OrderBookID trade @ '': '' @ err), [])
                   | (quote, None) \<Rightarrow>
                       let orderSize = CT_order_size D E portfolio trade side current quote s;
                           leverage = (if isClose side current then d_one D else cf_Leverage (ct_cfg s))
                       in if d_IsZero D orderSize \<or> d_IsNeg D orderSize then (s, None, [])
                          else CT_place E trade current leverage (CT_request D E trade side orderSize leverage s) s)))"

section \<open>The loop\<close>

text \<open>A message or a trade is absent when its channel was closed.\<close>

datatype 'd CTEvent =
    CTCtxDone
  | CTMsg "Message option"
  | CTTradeEvent "'d CTEnv" "'d CTTrade"
  | CTTradesClosed

record 'd CTLoop =
  ctl_strat :: "'d CTStrategy"
  ctl_done :: bool

definition ct_message :: "Message \<Rightarrow> 'd CTLoop \<Rightarrow> 'd CTLoop" where
  "ct_message msg l =
     (case msg of
        Stop \<Rightarrow> l\<lparr>ctl_done := True\<rparr>
      | Pause \<Rightarrow> l\<lparr>ctl_strat := (ctl_strat l)\<lparr>ct_paused := True\<rparr>\<rparr>
      | Resume \<Rightarrow> l\<lparr>ctl_strat := (ctl_strat l)\<lparr>ct_paused := False\<rparr>\<rparr>)"

definition ct_step :: "'d decimal_ops \<Rightarrow> 'd CTEvent \<Rightarrow> 'd CTLoop \<Rightarrow> 'd CTLoop \<times> 'd Effect list" where
  "ct_step D ev l =
     (if ctl_done l then (l, [])
      else
        case ev of
          CTCtxDone \<Rightarrow> (l\<lparr>ctl_done := True\<rparr>, [])
        | CTMsg None \<Rightarrow> (l\<lparr>ctl_done := True\<rparr>, [])
        | CTMsg (Some msg) \<Rightarrow> (ct_message msg l, [])
        | CTTradesClosed \<Rightarrow> (l\<lparr>ctl_done := True\<rparr>, [])
        | CTTradeEvent E trade \<Rightarrow>
            if ct_paused (ctl_strat l) then (l, [])
            else (case handleTrade D E trade (ctl_strat l) of (s, _, eff) \<Rightarrow> (l\<lparr>ctl_strat := s\<rparr>, eff)))"

text \<open>\<open>Run\<close>: the trader the stream is subscribed to and the loop that follows.\<close>

definition CT_Run :: "string \<Rightarrow> 'd CTStrategy \<Rightarrow> 'd CTStrategy \<times> (string \<times> 'd CTLoop) res" where
  "CT_Run runID s0 =
     (let s = s0\<lparr>ct_runID := runID\<rparr> in
      if \<not> ct_tradeStream s then (s, Inl ''trade stream not configured: use WithTradeStream'')
      else if \<not> ct_marketAPI s then (s, Inl ''market API client not configured: use WithMarketAPIClient'')
      else (s, Inr (cf_FollowedTrader (ct_cfg s), \<lparr>ctl_strat = s, ctl_done = False\<rparr>)))"

end
