(* ===== verification/CT_Backtest.thy ===== *)
theory CT_Backtest
  imports CT_Model Stats_Model "HOL-Library.List_Lexorder" "HOL-Library.Char_ord" "HOL-Library.Product_Lexorder"
begin

text \<open>
  The copy trading backtest: the stream of the trades of the followed trader from \<open>trades_history.go\<close> and the
  simulation of \<open>backtest.go\<close>.

  \<^item> The map of open positions is an association list with one entry for each asset. Go iterates over it in
    any order: \<open>it i\<close> is the order taken at the i-th trade.
  \<^item> The rows of \<open>trades_history\<close> hold quantity and price as strings, which a query may fail to parse.
\<close>

section \<open>The stored trades\<close>

record 'd CopyTrade =
  ctr_TransactionID :: string
  ctr_OrderID :: string
  ctr_OrderSeq :: int
  ctr_OrderBookID :: string
  ctr_UserID :: string
  ctr_Asset :: string
  ctr_Quantity :: 'd
  ctr_Price :: 'd
  ctr_Side :: string
  ctr_AggressorIndicator :: bool
  ctr_CreatedAt :: gtime

record history_row =
  hr_TransactionID :: string
  hr_OrderID :: string
  hr_OrderSeq :: int
  hr_OrderBookID :: string
  hr_UserID :: string
  hr_Asset :: string
  hr_Quantity :: string
  hr_Price :: string
  hr_Side :: string
  hr_AggressorIndicator :: bool
  hr_CreatedAt :: gtime

definition scanTradeRow :: "'d decimal_ops \<Rightarrow> history_row \<Rightarrow> 'd CopyTrade res" where
  "scanTradeRow D r =
     (case d_parse D (hr_Quantity r) of
        (_, Some err) \<Rightarrow> Inl (''parse quantity: '' @ err)
      | (q, None) \<Rightarrow>
          (case d_parse D (hr_Price r) of
             (_, Some err) \<Rightarrow> Inl (''parse price: '' @ err)
           | (p, None) \<Rightarrow>
               Inr \<lparr>ctr_TransactionID = hr_TransactionID r, ctr_OrderID = hr_OrderID r, ctr_OrderSeq = hr_OrderSeq r,
                 ctr_OrderBookID = hr_OrderBookID r, ctr_UserID = hr_UserID r, ctr_Asset = hr_Asset r, ctr_Quantity = q,
                 ctr_Price = p, ctr_Side = hr_Side r, ctr_AggressorIndicator = hr_AggressorIndicator r,
                 ctr_CreatedAt = hr_CreatedAt r\<rparr>))"

text \<open>The order of the query: by time, then by transaction.\<close>

definition history_key :: "history_row \<Rightarrow> int \<times> string" where
  "history_key r = (t_ns (hr_CreatedAt r), hr_TransactionID r)"

definition window_rows :: "history_row list \<Rightarrow> string \<Rightarrow> gtime \<Rightarrow> gtime \<Rightarrow> history_row list" where
  "window_rows db user start finish =
     sort_key history_key (filter (\<lambda>r. hr_UserID r = user \<and> \<not> time_Before (hr_CreatedAt r) start \<and>
       \<not> time_After (hr_CreatedAt r) finish) db)"

definition streamBatchSize :: nat where
  "streamBatchSize = 1000"

text \<open>One query: the first rows of the window, or those after the cursor.\<close>

definition queryTradesBatch :: "history_row list \<Rightarrow> string \<Rightarrow> gtime \<Rightarrow> gtime \<Rightarrow> (int \<times> string) option \<Rightarrow> history_row list" where
  "queryTradesBatch db user start finish cursor =
     take streamBatchSize (filter (\<lambda>r. case cursor of None \<Rightarrow> True | Some k \<Rightarrow> k < history_key r)
       (window_rows db user start finish))"

text \<open>The trades of a batch up to the first row that does not parse.\<close>

fun consumeTradesBatch :: "'d decimal_ops \<Rightarrow> history_row list \<Rightarrow> 'd CopyTrade list \<times> gerror option" where
  "consumeTradesBatch D [] = ([], None)"
| "consumeTradesBatch D (r # rs) =
     (case scanTradeRow D r of
        Inl err \<Rightarrow> ([], Some err)
      | Inr t \<Rightarrow> (case consumeTradesBatch D rs of (ts, e) \<Rightarrow> (t # ts, e)))"

text \<open>\<open>None\<close> when the batches never end; \<open>fail k\<close> is the error of the k-th query.\<close>

partial_function (option) stream_from ::
  "'d decimal_ops \<Rightarrow> history_row list \<Rightarrow> string \<Rightarrow> gtime \<Rightarrow> gtime \<Rightarrow> (nat \<Rightarrow> gerror option) \<Rightarrow> nat \<Rightarrow> (int \<times> string) option \<Rightarrow>
     ('d CopyTrade list \<times> gerror option) option" where
  "stream_from D db user start finish fail k cursor =
     (case fail k of
        Some err \<Rightarrow> Some ([], Some (''query trades history: '' @ err))
      | None \<Rightarrow>
          let rows = queryTradesBatch db user start finish cursor in
          (case consumeTradesBatch D rows of
             (ts, Some err) \<Rightarrow> Some (ts, Some err)
           | (ts, None) \<Rightarrow>
               if length rows < streamBatchSize then Some (ts, None)
               else
                 Option.bind (stream_from D db user start finish fail (k + 1) (Some (history_key (last rows))))
                   (\<lambda>(us, e). Some (ts @ us, e))))"

definition StreamTrades ::
  "'d decimal_ops \<Rightarrow> history_row list \<Rightarrow> (nat \<Rightarrow> gerror option) \<Rightarrow> string \<Rightarrow> gtime \<Rightarrow> gtime \<Rightarrow>
     ('d CopyTrade list \<times> gerror option) option" where
  "StreamTrades D db fail user start finish =
     (if user = [] then Some ([], Some ''userID is required'') else stream_from D db user start finish fail 0 None)"

text \<open>\<open>TradeBounds\<close>: the earliest and the latest time and the number of the user's rows.\<close>

definition TradeBounds :: "history_row list \<Rightarrow> gerror option \<Rightarrow> string \<Rightarrow> (gtime \<times> gtime \<times> int) res" where
  "TradeBounds db err user =
     (case err of
        Some e \<Rightarrow> Inl (''query trades history bounds: '' @ e)
      | None \<Rightarrow>
          let ts = map hr_CreatedAt (filter (\<lambda>r. hr_UserID r = user) db) in
          if ts = [] then Inr (time_zero, time_zero, 0)
          else Inr (hd (sort_key t_ns ts), last (sort_key t_ns ts), int (length ts)))"

section \<open>Positions and records\<close>

record 'd Position =
  po_qty :: 'd
  po_avgEntry :: 'd
  po_openTime :: gtime
  po_openTradeID :: string

record 'd CTTradeRecord =
  ctt_Time :: gtime
  ctt_BondID :: string
  ctt_Signal :: Signal
  ctt_Price :: 'd
  ctt_Quantity :: 'd
  ctt_OrderSize :: 'd
  ctt_Cash :: 'd
  ctt_OpenPosition :: 'd
  ctt_TradeID :: string

record 'd CTClosedTrade =
  ctc_OpenTime :: gtime
  ctc_CloseTime :: gtime
  ctc_BondID :: string
  ctc_OpenSignal :: Signal
  ctc_CloseSignal :: Signal
  ctc_Quantity :: 'd
  ctc_EntryPrice :: 'd
  ctc_ExitPrice :: 'd
  ctc_PnL :: 'd
  ctc_EntryBalance :: 'd
  ctc_OpenTradeID :: string
  ctc_CloseTradeID :: string

record 'd CTSim =
  cs_cash :: 'd
  cs_positions :: "(string \<times> 'd Position) list"
  cs_running :: 'd
  cs_records :: "'d CTTradeRecord list"
  cs_closed :: "'d CTClosedTrade list"

record 'd CTResult =
  ctres_TradeRecords :: "'d CTTradeRecord list"
  ctres_ClosedTrades :: "'d CTClosedTrade list"
  ctres_Summary :: "'d Summary"

definition del_pos :: "string \<Rightarrow> (string \<times> 'd Position) list \<Rightarrow> (string \<times> 'd Position) list" where
  "del_pos a ps = filter (\<lambda>(k, _). k \<noteq> a) ps"

definition set_pos :: "string \<Rightarrow> 'd Position \<Rightarrow> (string \<times> 'd Position) list \<Rightarrow> (string \<times> 'd Position) list" where
  "set_pos a p ps = (a, p) # del_pos a ps"

definition startingBalance :: "'d decimal_ops \<Rightarrow> 'd CTConfig \<Rightarrow> 'd" where
  "startingBalance D cfg = (if \<not> d_IsZero D (cf_InitialBalance cfg) then cf_InitialBalance cfg else d_new D 10000)"

definition availableForNewPos :: "'d decimal_ops \<Rightarrow> 'd \<Rightarrow> 'd Position list \<Rightarrow> 'd \<Rightarrow> 'd" where
  "availableForNewPos D runningBalance positions leverage =
     (let maxNotional = fst (d_mul D runningBalance leverage);
          deployed = foldl (\<lambda>d p. fst (d_add D d (fst (d_mul D (d_abs D (po_qty p)) (po_avgEntry p))))) (d_zero D) positions;
          avail = fst (d_sub D maxNotional deployed)
      in if d_IsNeg D avail then d_zero D else avail)"

definition emitTradeRecord ::
  "'d decimal_ops \<Rightarrow> 'd CopyTrade \<Rightarrow> string \<Rightarrow> Signal \<Rightarrow> 'd \<Rightarrow> 'd \<Rightarrow> 'd \<Rightarrow> 'd \<Rightarrow> 'd CTTradeRecord" where
  "emitTradeRecord D trade tradeID signal qty price cash openPos =
     \<lparr>ctt_Time = ctr_CreatedAt trade, ctt_BondID = ctr_Asset trade, ctt_Signal = signal, ctt_Price = price,
      ctt_Quantity = qty, ctt_OrderSize = fst (d_mul D qty price), ctt_Cash = cash, ctt_OpenPosition = openPos,
      ctt_TradeID = tradeID\<rparr>"

text \<open>The closed trade of a position closed in full, the cash after it and what is left of the position.\<close>

definition ct_closed_trade :: "'d decimal_ops \<Rightarrow> 'd CopyTrade \<Rightarrow> string \<Rightarrow> Signal \<Rightarrow> 'd Position \<Rightarrow> 'd \<Rightarrow> 'd \<Rightarrow> 'd CTClosedTrade" where
  "ct_closed_trade D trade tradeID openSignal pos closeQty price =
     \<lparr>ctc_OpenTime = po_openTime pos, ctc_CloseTime = ctr_CreatedAt trade, ctc_BondID = ctr_Asset trade,
      ctc_OpenSignal = openSignal, ctc_CloseSignal = (if openSignal = SignalBuy then SignalSell else SignalBuy),
      ctc_Quantity = closeQty, ctc_EntryPrice = po_avgEntry pos, ctc_ExitPrice = price,
      ctc_PnL = fst (d_mul D (fst (d_sub D price (po_avgEntry pos))) closeQty), ctc_EntryBalance = d_zero D,
      ctc_OpenTradeID = po_openTradeID pos, ctc_CloseTradeID = tradeID\<rparr>"

definition closeLongPosition ::
  "'d decimal_ops \<Rightarrow> 'd CopyTrade \<Rightarrow> string \<Rightarrow> 'd Position \<Rightarrow> 'd \<Rightarrow> 'd \<Rightarrow> 'd \<Rightarrow> 'd \<times> 'd \<times> 'd CTClosedTrade" where
  "closeLongPosition D trade tradeID pos closeQty price cash =
     (fst (d_add D cash (fst (d_mul D closeQty price))), fst (d_sub D (po_qty pos) closeQty),
      ct_closed_trade D trade tradeID SignalBuy pos closeQty price)"

definition closeShortPosition ::
  "'d decimal_ops \<Rightarrow> 'd CopyTrade \<Rightarrow> string \<Rightarrow> 'd Position \<Rightarrow> 'd \<Rightarrow> 'd \<Rightarrow> 'd \<Rightarrow> 'd \<times> 'd \<times> 'd CTClosedTrade" where
  "closeShortPosition D trade tradeID pos closeQty price cash =
     (fst (d_sub D cash (fst (d_mul D closeQty price))), fst (d_add D (po_qty pos) closeQty),
      ct_closed_trade D trade tradeID SignalSell pos closeQty price)"

section \<open>Applying a trade\<close>

definition buyClosesShort ::
  "'d decimal_ops \<Rightarrow> 'd CopyTrade \<Rightarrow> string \<Rightarrow> 'd \<Rightarrow> 'd Position \<Rightarrow> 'd CTSim \<Rightarrow> 'd CTSim" where
  "buyClosesShort D trade tradeID price pos st =
     (let absQty = d_abs D (po_qty pos) in
      case closeShortPosition D trade tradeID pos absQty price (cs_cash st) of
        (cash, qty, ct) \<Rightarrow>
          st\<lparr>cs_cash := cash, cs_closed := cs_closed st @ [ct],
             cs_records := cs_records st @ [emitTradeRecord D trade tradeID SignalBuy absQty price (cs_cash st) qty],
             cs_positions := del_pos (ctr_Asset trade) (cs_positions st)\<rparr>)"

definition sellClosesLong ::
  "'d decimal_ops \<Rightarrow> 'd CopyTrade \<Rightarrow> string \<Rightarrow> 'd \<Rightarrow> 'd Position \<Rightarrow> 'd CTSim \<Rightarrow> 'd CTSim" where
  "sellClosesLong D trade tradeID price pos st =
     (case closeLongPosition D trade tradeID pos (po_qty pos) price (cs_cash st) of
        (cash, qty, ct) \<Rightarrow>
          st\<lparr>cs_cash := cash, cs_closed := cs_closed st @ [ct],
             cs_records := cs_records st @ [emitTradeRecord D trade tradeID SignalSell (po_qty pos) price (cs_cash st) qty],
             cs_positions := del_pos (ctr_Asset trade) (cs_positions st)\<rparr>)"

definition opened :: "'d CopyTrade \<Rightarrow> string \<Rightarrow> 'd \<Rightarrow> 'd \<Rightarrow> 'd Position" where
  "opened trade tradeID qty price =
     \<lparr>po_qty = qty, po_avgEntry = price, po_openTime = ctr_CreatedAt trade, po_openTradeID = tradeID\<rparr>"

definition averaged :: "'d decimal_ops \<Rightarrow> 'd \<Rightarrow> 'd \<Rightarrow> 'd \<Rightarrow> 'd \<Rightarrow> 'd \<times> 'd" where
  "averaged D absQty avgEntry ourQty price =
     (let totalCost = fst (d_add D (fst (d_mul D absQty avgEntry)) (fst (d_mul D ourQty price)));
          totalQty = fst (d_add D absQty ourQty)
      in (totalQty, fst (d_quo D totalCost totalQty)))"

definition buyOpensOrAddsLong ::
  "'d decimal_ops \<Rightarrow> 'd CopyTrade \<Rightarrow> string \<Rightarrow> 'd \<Rightarrow> 'd \<Rightarrow> 'd Position option \<Rightarrow> 'd CTSim \<Rightarrow> 'd CTSim" where
  "buyOpensOrAddsLong D trade tradeID ourQty price pos st =
     (let p = (case pos of
                 None \<Rightarrow> opened trade tradeID ourQty price
               | Some p \<Rightarrow>
                   if d_IsZero D (po_qty p) then opened trade tradeID ourQty price
                   else (case averaged D (po_qty p) (po_avgEntry p) ourQty price of
                           (q, avg) \<Rightarrow> p\<lparr>po_qty := q, po_avgEntry := avg\<rparr>))
      in st\<lparr>cs_cash := fst (d_sub D (cs_cash st) (fst (d_mul D ourQty price))),
            cs_records := cs_records st @ [emitTradeRecord D trade tradeID SignalBuy ourQty price (cs_cash st) (po_qty p)],
            cs_positions := set_pos (ctr_Asset trade) p (cs_positions st)\<rparr>)"

definition sellOpensOrAddsShort ::
  "'d decimal_ops \<Rightarrow> 'd CopyTrade \<Rightarrow> string \<Rightarrow> 'd \<Rightarrow> 'd \<Rightarrow> 'd Position option \<Rightarrow> 'd CTSim \<Rightarrow> 'd CTSim" where
  "sellOpensOrAddsShort D trade tradeID ourQty price pos st =
     (let p = (case pos of
                 None \<Rightarrow> opened trade tradeID (d_neg D ourQty) price
               | Some p \<Rightarrow>
                   if d_IsZero D (po_qty p) then opened trade tradeID (d_neg D ourQty) price
                   else (case averaged D (d_abs D (po_qty p)) (po_avgEntry p) ourQty price of
                           (q, avg) \<Rightarrow> p\<lparr>po_qty := d_neg D q, po_avgEntry := avg\<rparr>))
      in st\<lparr>cs_cash := fst (d_add D (cs_cash st) (fst (d_mul D ourQty price))),
            cs_records := cs_records st @ [emitTradeRecord D trade tradeID SignalSell ourQty price (cs_cash st) (po_qty p)],
            cs_positions := set_pos (ctr_Asset trade) p (cs_positions st)\<rparr>)"

definition applyTrade_CT ::
  "'d decimal_ops \<Rightarrow> 'd CopyTrade \<Rightarrow> string \<Rightarrow> Signal \<Rightarrow> 'd \<Rightarrow> 'd \<Rightarrow> 'd CTSim \<Rightarrow> 'd CTSim" where
  "applyTrade_CT D trade tradeID ourSignal ourQty price st =
     (let pos = map_of (cs_positions st) (ctr_Asset trade) in
      if ourSignal = SignalBuy then
        (case pos of
           Some p \<Rightarrow> if d_IsNeg D (po_qty p) then buyClosesShort D trade tradeID price p st
                     else buyOpensOrAddsLong D trade tradeID ourQty price pos st
         | None \<Rightarrow> buyOpensOrAddsLong D trade tradeID ourQty price pos st)
      else
        (case pos of
           Some p \<Rightarrow> if d_IsPos D (po_qty p) then sellClosesLong D trade tradeID price p st
                     else sellOpensOrAddsShort D trade tradeID ourQty price pos st
         | None \<Rightarrow> sellOpensOrAddsShort D trade tradeID ourQty price pos st))"

section \<open>The simulation\<close>

text \<open>The quantity of a close, when the trade closes a position.\<close>

definition close_qty :: "'d decimal_ops \<Rightarrow> Signal \<Rightarrow> 'd Position option \<Rightarrow> 'd option" where
  "close_qty D ourSignal pos =
     (case pos of
        None \<Rightarrow> None
      | Some p \<Rightarrow>
          if ourSignal = SignalBuy \<and> d_IsNeg D (po_qty p) then Some (d_abs D (po_qty p))
          else if ourSignal = SignalSell \<and> d_IsPos D (po_qty p) then Some (po_qty p)
          else None)"

text \<open>The quantity of an open or an extension within the headroom, \<open>None\<close> to skip the trade.\<close>

definition open_qty :: "'d decimal_ops \<Rightarrow> 'd CTConfig \<Rightarrow> 'd \<Rightarrow> 'd Position list \<Rightarrow> 'd \<Rightarrow> 'd option" where
  "open_qty D cfg runningBalance positions price =
     (let headroom = availableForNewPos D runningBalance positions (cf_Leverage cfg) in
      if d_IsZero D headroom then None
      else
        let size = calculateOrderSize D headroom (cf_PercentageOfAvailable cfg) (cf_Leverage cfg)
                     (cf_MinOrderSize cfg) (cf_MaxOrderSize cfg);
            q = fst (d_quo D size price)
        in if d_cmp D (fst (d_mul D q price)) headroom > 0 then None else Some q)"

text \<open>The entry balances of the trades closed since: the running balance, moved by each profit.\<close>

fun settle_balances :: "'d decimal_ops \<Rightarrow> 'd \<Rightarrow> 'd CTClosedTrade list \<Rightarrow> 'd \<times> 'd CTClosedTrade list" where
  "settle_balances D running [] = (running, [])"
| "settle_balances D running (c # cs) =
     (case settle_balances D (fst (d_add D running (ctc_PnL c))) cs of
        (r, ds) \<Rightarrow> (r, c\<lparr>ctc_EntryBalance := running\<rparr> # ds))"

definition source_signal :: "'d CopyTrade \<Rightarrow> Signal" where
  "source_signal trade = (if ctr_Side trade = ''BUY'' then SignalBuy else SignalSell)"

definition sim_trade ::
  "'d decimal_ops \<Rightarrow> (string \<Rightarrow> string) \<Rightarrow> 'd CTConfig \<Rightarrow> ((string \<times> 'd Position) list \<Rightarrow> (string \<times> 'd Position) list) \<Rightarrow>
     'd CopyTrade \<Rightarrow> 'd CTSim \<Rightarrow> 'd CTSim" where
  "sim_trade D parseID cfg it trade st =
     (if d_IsZero D (ctr_Price trade) then st
      else
        let sig = source_signal trade;
            pos = map_of (cs_positions st) (ctr_Asset trade);
            qty = (case close_qty D sig pos of
                     Some q \<Rightarrow> Some q
                   | None \<Rightarrow> open_qty D cfg (cs_running st) (map snd (it (cs_positions st))) (ctr_Price trade))
        in (case qty of
             None \<Rightarrow> st
           | Some q \<Rightarrow>
               if d_IsZero D q \<or> d_IsNeg D q then st
               else
                 let st' = applyTrade_CT D trade (parseID (ctr_TransactionID trade)) sig q (ctr_Price trade) st;
                     n = length (cs_closed st)
                 in (case settle_balances D (cs_running st) (drop n (cs_closed st')) of
                      (running, new) \<Rightarrow> st'\<lparr>cs_closed := take n (cs_closed st') @ new, cs_running := running\<rparr>)))"

fun sim_loop ::
  "'d decimal_ops \<Rightarrow> (string \<Rightarrow> string) \<Rightarrow> 'd CTConfig \<Rightarrow> (nat \<Rightarrow> (string \<times> 'd Position) list \<Rightarrow> (string \<times> 'd Position) list) \<Rightarrow>
     (nat \<Rightarrow> bool) \<Rightarrow> nat \<Rightarrow> 'd CopyTrade list \<Rightarrow> 'd CTSim \<Rightarrow> 'd CTSim res" where
  "sim_loop D parseID cfg it cancelled i [] st = Inr st"
| "sim_loop D parseID cfg it cancelled i (t # ts) st =
     (if cancelled i then Inl ''backtest cancelled''
      else sim_loop D parseID cfg it cancelled (i + 1) ts (sim_trade D parseID cfg (it i) t st))"

definition sim_start :: "'d decimal_ops \<Rightarrow> 'd CTConfig \<Rightarrow> 'd CTSim" where
  "sim_start D cfg =
     \<lparr>cs_cash = startingBalance D cfg, cs_positions = [], cs_running = startingBalance D cfg, cs_records = [], cs_closed = []\<rparr>"

definition CT_summarise ::
  "'d decimal_ops \<Rightarrow> 'd CTTradeRecord list \<Rightarrow> 'd CTClosedTrade list \<Rightarrow> gtime \<Rightarrow> gtime \<Rightarrow> 'd CTResult res" where
  "CT_summarise D records trades start finish =
     rbind (Summarise D (map (\<lambda>t. \<lparr>pp_PnL = ctc_PnL t, pp_CloseTime = ctc_CloseTime t\<rparr>) trades) start finish) (\<lambda>summary.
     Inr \<lparr>ctres_TradeRecords = records, ctres_ClosedTrades = trades, ctres_Summary = summary\<rparr>)"

definition simulate ::
  "'d decimal_ops \<Rightarrow> (string \<Rightarrow> string) \<Rightarrow> 'd CTConfig \<Rightarrow> (nat \<Rightarrow> (string \<times> 'd Position) list \<Rightarrow> (string \<times> 'd Position) list) \<Rightarrow>
     (nat \<Rightarrow> bool) \<Rightarrow> 'd CopyTrade list \<Rightarrow> gtime \<Rightarrow> gtime \<Rightarrow> 'd CTResult res" where
  "simulate D parseID cfg it cancelled ts start finish =
     rbind (sim_loop D parseID cfg it cancelled 0 ts (sim_start D cfg)) (\<lambda>st.
     CT_summarise D (cs_records st) (cs_closed st) start finish)"

text \<open>The store answers with the bounds of the user's trades and with the stream of a window.\<close>

record 'd TradesStore =
  ts_TradeBounds :: "string \<Rightarrow> (gtime \<times> gtime \<times> int) res"
  ts_StreamTrades :: "string \<Rightarrow> gtime \<Rightarrow> gtime \<Rightarrow> 'd CopyTrade list \<times> gerror option"

definition CT_Backtester_Run ::
  "'d decimal_ops \<Rightarrow> (string \<Rightarrow> string) \<Rightarrow> 'd CTConfig \<Rightarrow> 'd TradesStore \<Rightarrow>
     (nat \<Rightarrow> (string \<times> 'd Position) list \<Rightarrow> (string \<times> 'd Position) list) \<Rightarrow> (nat \<Rightarrow> bool) \<Rightarrow> gtime \<Rightarrow> gtime \<Rightarrow> 'd CTResult res" where
  "CT_Backtester_Run D parseID cfg H it cancelled start finish =
     (let user = cf_FollowedTrader cfg in
      case ts_TradeBounds H user of
        Inl err \<Rightarrow> Inl (''trades history bounds: '' @ err)
      | Inr (mn, mx, n) \<Rightarrow>
          if n = 0 then Inl ''no trades in trades_history for user; sync required''
          else if time_Before start mn \<or> time_After finish mx then Inl ''window outside available data for user''
          else
            (case ts_StreamTrades H user start finish of
               (ts, prodErr) \<Rightarrow>
                 let result = simulate D parseID cfg it cancelled ts start finish 
                 in (case prodErr of Some err \<Rightarrow> Inl (''stream trades: '' @ err) | None \<Rightarrow> result)))"

definition CT_Backtest ::
  "'d decimal_ops \<Rightarrow> (string \<Rightarrow> string) \<Rightarrow> 'd TradesStore option \<Rightarrow>
     (nat \<Rightarrow> (string \<times> 'd Position) list \<Rightarrow> (string \<times> 'd Position) list) \<Rightarrow> (nat \<Rightarrow> bool) \<Rightarrow> gtime \<Rightarrow> gtime \<Rightarrow> 'd CTStrategy \<Rightarrow>
     'd CTResult res" where
  "CT_Backtest D parseID store it cancelled start finish s =
     (case store of
        None \<Rightarrow> Inl ''backtest store not configured: use WithBacktestStore''
      | Some H \<Rightarrow> CT_Backtester_Run D parseID (ct_cfg s) H it cancelled start finish)"

end
