(* ===== verification/CT_Props.thy ===== *)
theory CT_Props
  imports CT_Backtest MR_Loop
begin

text \<open>
  Lemmas on copy trading: the book of the simulation in exact arithmetic, the frame of the live handler and
  the interpretation \<open>ct\<close> of \<open>guarded_loop\<close> for the live loop.
\<close>

section \<open>Exact arithmetic\<close>

text \<open>Decimals whose results never need rounding and always fit.\<close>

definition exact_ops :: "'d decimal_ops \<Rightarrow> ('d \<Rightarrow> rat) \<Rightarrow> bool" where
  "exact_ops D val \<longleftrightarrow> decimal_laws D val id \<and>
     (\<forall>a b. snd (d_add D a b) = None \<and> snd (d_sub D a b) = None \<and> snd (d_mul D a b) = None \<and>
       (val b \<noteq> 0 \<longrightarrow> snd (d_quo D a b) = None))"

lemma exact_laws: "exact_ops D val \<Longrightarrow> decimal_laws D val id"
  by (simp add: exact_ops_def)

lemma exact_arith:
  assumes "exact_ops D val"
  shows "val (fst (d_add D a b)) = val a + val b" "val (fst (d_sub D a b)) = val a - val b"
    "val (fst (d_mul D a b)) = val a * val b" "val b \<noteq> 0 \<Longrightarrow> val (fst (d_quo D a b)) = val a / val b"
proof -
  note L = exact_laws [OF assms]
  show "val (fst (d_add D a b)) = val a + val b" "val (fst (d_sub D a b)) = val a - val b"
    "val (fst (d_mul D a b)) = val a * val b"
    using val_add [OF L, of a b] val_sub [OF L, of a b] val_mul [OF L, of a b] assms
    by (metis exact_ops_def id_apply prod.collapse)+
  show "val b \<noteq> 0 \<Longrightarrow> val (fst (d_quo D a b)) = val a / val b"
    using val_quo [OF L, of a b] assms by (metis exact_ops_def id_apply prod.collapse)
qed

lemma exact_rat_ops: "exact_ops rat_ops id"
  using rat_ops_laws by (simp add: exact_ops_def rat_ops_def)

section \<open>The book\<close>

text \<open>What is deployed, the cost of the open positions with the sign of the position, and the profits with
  the sign in which they reach the cash.\<close>

definition deployed :: "('d \<Rightarrow> rat) \<Rightarrow> (string \<times> 'd Position) list \<Rightarrow> rat" where
  "deployed val ps = sum_list (map (\<lambda>(_, p). \<bar>val (po_qty p)\<bar> * val (po_avgEntry p)) ps)"

definition open_cost :: "('d \<Rightarrow> rat) \<Rightarrow> (string \<times> 'd Position) list \<Rightarrow> rat" where
  "open_cost val ps = sum_list (map (\<lambda>(_, p). val (po_qty p) * val (po_avgEntry p)) ps)"

definition cash_pnl :: "('d \<Rightarrow> rat) \<Rightarrow> 'd CTClosedTrade list \<Rightarrow> rat" where
  "cash_pnl val cs = sum_list (map (\<lambda>c. if ctc_OpenSignal c = SignalBuy then val (ctc_PnL c) else - val (ctc_PnL c)) cs)"

definition reported_pnl :: "('d \<Rightarrow> rat) \<Rightarrow> 'd CTClosedTrade list \<Rightarrow> rat" where
  "reported_pnl val cs = sum_list (map (\<lambda>c. val (ctc_PnL c)) cs)"

lemma pnl_append [simp]:
  "cash_pnl val (cs @ ds) = cash_pnl val cs + cash_pnl val ds" "cash_pnl val [] = 0"
  "reported_pnl val (cs @ ds) = reported_pnl val cs + reported_pnl val ds" "reported_pnl val [] = 0"
  by (simp_all add: cash_pnl_def reported_pnl_def)

definition good_pos :: "('d \<Rightarrow> rat) \<Rightarrow> (string \<times> 'd Position) list \<Rightarrow> bool" where
  "good_pos val ps \<longleftrightarrow> distinct (map fst ps) \<and> (\<forall>p\<in>set (map snd ps). val (po_qty p) \<noteq> 0)"

lemma del_pos_good: "good_pos val ps \<Longrightarrow> good_pos val (del_pos a ps)"
  by (auto simp: good_pos_def del_pos_def distinct_map intro: inj_on_subset)

lemma del_pos_fst: "a \<notin> fst ` set (del_pos a ps)"
  by (auto simp: del_pos_def)

lemma set_pos_good: "good_pos val ps \<Longrightarrow> val (po_qty p) \<noteq> 0 \<Longrightarrow> good_pos val (set_pos a p ps)"
  using del_pos_good [of val ps a] del_pos_fst [of a ps] by (simp add: good_pos_def set_pos_def)

lemma del_pos_sum:
  assumes "distinct (map fst ps)"
  shows "sum_list (map (\<lambda>(_, p). f p) ps) = sum_list (map (\<lambda>(_, p). f p) (del_pos a ps)) +
    (case map_of ps a of None \<Rightarrow> 0 | Some p \<Rightarrow> (f p :: rat))"
  using assms
proof (induction ps)
  case (Cons x ps)
  obtain k p where x: "x = (k, p)" by (rule prod.exhaust)
  show ?case
  proof (cases "k = a")
    case True
    then have "map_of ps a = None" using Cons.prems by (simp add: x map_of_eq_None_iff)
    moreover have "del_pos a ps = ps"
      using True Cons.prems by (force simp: x del_pos_def filter_id_conv)
    ultimately show ?thesis using True by (simp add: x del_pos_def)
  next
    case False
    then show ?thesis using Cons by (simp add: x del_pos_def)
  qed
qed (simp add: del_pos_def)

lemma book_sums:
  "open_cost val (set_pos a p ps) = val (po_qty p) * val (po_avgEntry p) + open_cost val (del_pos a ps)"
  "deployed val (set_pos a p ps) = \<bar>val (po_qty p)\<bar> * val (po_avgEntry p) + deployed val (del_pos a ps)"
  "distinct (map fst ps) \<Longrightarrow> open_cost val ps = open_cost val (del_pos a ps) +
     (case map_of ps a of None \<Rightarrow> 0 | Some p \<Rightarrow> val (po_qty p) * val (po_avgEntry p))"
  "distinct (map fst ps) \<Longrightarrow> deployed val ps = deployed val (del_pos a ps) +
     (case map_of ps a of None \<Rightarrow> 0 | Some p \<Rightarrow> \<bar>val (po_qty p)\<bar> * val (po_avgEntry p))"
  using del_pos_sum [of ps "\<lambda>p. val (po_qty p) * val (po_avgEntry p)" a]
    del_pos_sum [of ps "\<lambda>p. \<bar>val (po_qty p)\<bar> * val (po_avgEntry p)" a]
  by (simp_all add: open_cost_def deployed_def set_pos_def)

lemma map_of_good: "good_pos val ps \<Longrightarrow> map_of ps a = Some p \<Longrightarrow> val (po_qty p) \<noteq> 0"
  by (force simp: good_pos_def dest: map_of_SomeD)

section \<open>A trade\<close>

text \<open>What applying a trade does: it closes the position of the asset, or opens or extends it.\<close>

definition closes_pos :: "('d \<Rightarrow> rat) \<Rightarrow> Signal \<Rightarrow> 'd Position option \<Rightarrow> bool" where
  "closes_pos val sig pos \<longleftrightarrow>
     (case pos of None \<Rightarrow> False | Some p \<Rightarrow> if sig = SignalBuy then val (po_qty p) < 0 else 0 < val (po_qty p))"

lemma averaged_exact:
  assumes X: "exact_ops D val" and q: "0 < val q" "0 < val a"
  shows "averaged D q e a p = (q', e') \<Longrightarrow> val q' = val q + val a \<and> val q' * val e' = val q * val e + val a * val p"
proof -
  assume av: "averaged D q e a p = (q', e')"
  have q': "val q' = val q + val a" using av by (auto simp: averaged_def Let_def exact_arith [OF X])
  then have "val q' \<noteq> 0" using q by simp
  then have "val e' = (val q * val e + val a * val p) / val q'"
    using av by (auto simp: averaged_def Let_def exact_arith [OF X])
  then show ?thesis using q' \<open>val q' \<noteq> 0\<close> by (simp add: field_simps)
qed

lemma applyTrade_close:
  assumes X: "exact_ops D val" and c: "closes_pos val sig (map_of (cs_positions st) (ctr_Asset t))"
    and s: "sig \<noteq> SignalHold" and g: "good_pos val (cs_positions st)"
  obtains p ct r where "map_of (cs_positions st) (ctr_Asset t) = Some p"
    "cs_positions (applyTrade_CT D t tid sig q price st) = del_pos (ctr_Asset t) (cs_positions st)"
    "cs_closed (applyTrade_CT D t tid sig q price st) = cs_closed st @ [ct]"
    "cs_records (applyTrade_CT D t tid sig q price st) = cs_records st @ [r]"
    "cs_running (applyTrade_CT D t tid sig q price st) = cs_running st"
    "val (ctc_PnL ct) = (val price - val (po_avgEntry p)) * \<bar>val (po_qty p)\<bar>"
    "ctc_OpenSignal ct = (if 0 < val (po_qty p) then SignalBuy else SignalSell)"
    "ctc_Quantity ct = ctt_Quantity r" "val (ctt_Quantity r) = \<bar>val (po_qty p)\<bar>" "val (ctt_OpenPosition r) = 0"
    "val (cs_cash (applyTrade_CT D t tid sig q price st)) = val (cs_cash st) + val (po_qty p) * val price"
proof -
  obtain p where p: "map_of (cs_positions st) (ctr_Asset t) = Some p" using c by (auto simp: closes_pos_def split: option.splits)
  note L = exact_laws [OF X]
  note x = dec_exact [OF L] exact_arith [OF X]
  show thesis
  proof (cases "sig = SignalBuy")
    case True
    then have n: "val (po_qty p) < 0" using c p by (simp add: closes_pos_def)
    show thesis
      by (rule that [OF p, of "ct_closed_trade D t tid SignalSell p (d_abs D (po_qty p)) price"
          "emitTradeRecord D t tid SignalBuy (d_abs D (po_qty p)) price (cs_cash st) (fst (d_add D (po_qty p) (d_abs D (po_qty p))))"])
        (use True n p in \<open>simp_all add: applyTrade_CT_def Let_def buyClosesShort_def closeShortPosition_def ct_closed_trade_def
          emitTradeRecord_def x\<close>)
  next
    case False
    then have n: "0 < val (po_qty p)" using c p by (simp add: closes_pos_def)
    show thesis
      by (rule that [OF p, of "ct_closed_trade D t tid SignalBuy p (po_qty p) price"
          "emitTradeRecord D t tid SignalSell (po_qty p) price (cs_cash st) (fst (d_sub D (po_qty p) (po_qty p)))"])
        (use False n p in \<open>simp_all add: applyTrade_CT_def Let_def sellClosesLong_def closeLongPosition_def ct_closed_trade_def
          emitTradeRecord_def x\<close>)
  qed
qed

lemma applyTrade_open:
  assumes X: "exact_ops D val" and c: "\<not> closes_pos val sig (map_of (cs_positions st) (ctr_Asset t))"
    and s: "sig \<noteq> SignalHold" and g: "good_pos val (cs_positions st)" and q: "0 < val q"
  obtains p r where "cs_positions (applyTrade_CT D t tid sig q price st) = set_pos (ctr_Asset t) p (cs_positions st)"
    "cs_closed (applyTrade_CT D t tid sig q price st) = cs_closed st"
    "cs_records (applyTrade_CT D t tid sig q price st) = cs_records st @ [r]"
    "cs_running (applyTrade_CT D t tid sig q price st) = cs_running st"
    "if sig = SignalBuy then 0 < val (po_qty p) else val (po_qty p) < 0"
    "\<And>p0. map_of (cs_positions st) (ctr_Asset t) = Some p0 \<Longrightarrow> if sig = SignalBuy then 0 < val (po_qty p0) else val (po_qty p0) < 0"
    "\<bar>val (po_qty p)\<bar> * val (po_avgEntry p) = (case map_of (cs_positions st) (ctr_Asset t) of None \<Rightarrow> 0
       | Some p \<Rightarrow> \<bar>val (po_qty p)\<bar> * val (po_avgEntry p)) + val q * val price"
    "val (cs_cash (applyTrade_CT D t tid sig q price st)) = val (cs_cash st) - (if sig = SignalBuy then 1 else - 1) * (val q * val price)"
proof -
  note L = exact_laws [OF X]
  note x = dec_exact [OF L] exact_arith [OF X]
  let ?a = "ctr_Asset t" and ?st = "applyTrade_CT D t tid sig q price st"
  show thesis
  proof (cases "map_of (cs_positions st) ?a")
    case None
    let ?p = "opened t tid (if sig = SignalBuy then q else d_neg D q) price"
    show thesis
      by (rule that [of ?p "emitTradeRecord D t tid (if sig = SignalBuy then SignalBuy else SignalSell) q price (cs_cash st) (po_qty ?p)"])
        (use None q s in \<open>simp_all add: applyTrade_CT_def Let_def buyOpensOrAddsLong_def sellOpensOrAddsShort_def opened_def x\<close>)
  next
    case (Some p)
    have nz: "val (po_qty p) \<noteq> 0" using g Some by (rule map_of_good)
    then have sg: "if sig = SignalBuy then 0 < val (po_qty p) else val (po_qty p) < 0"
      using c Some by (auto simp: closes_pos_def split: if_splits)
    obtain q' e' where av: "averaged D (if sig = SignalBuy then po_qty p else d_abs D (po_qty p)) (po_avgEntry p) q price = (q', e')"
      by (rule prod.exhaust)
    have "0 < val (if sig = SignalBuy then po_qty p else d_abs D (po_qty p))" using sg nz by (simp add: x)
    note e = averaged_exact [OF X this q av]
    let ?p = "p\<lparr>po_qty := if sig = SignalBuy then q' else d_neg D q', po_avgEntry := e'\<rparr>"
    have pos: "0 < val q'" using e sg q by (auto simp: x split: if_splits)
    show thesis
      by (rule that [of ?p "emitTradeRecord D t tid (if sig = SignalBuy then SignalBuy else SignalSell) q price (cs_cash st) (po_qty ?p)"])
        (use Some q s sg av e pos nz in \<open>auto simp: applyTrade_CT_def Let_def buyOpensOrAddsLong_def sellOpensOrAddsShort_def x\<close>)
  qed
qed

section \<open>The simulation\<close>

lemma source_signal_cases: "source_signal t \<noteq> SignalHold"
  by (simp add: source_signal_def)

lemma close_qty_exact:
  assumes "exact_ops D val" "sig \<noteq> SignalHold"
  shows "close_qty D sig pos = None \<longleftrightarrow> \<not> closes_pos val sig pos"
    "close_qty D sig pos = Some q \<Longrightarrow> 0 < val q"
  using assms(2) dec_exact [OF exact_laws [OF assms(1)]]
  by (cases sig; auto simp: close_qty_def closes_pos_def split: option.splits if_splits)+

lemma sim_trade_cases:
  assumes X: "exact_ops D val" and g: "good_pos val (cs_positions st)"
  obtains (skip) "sim_trade D parseID cfg it t st = st"
  | (close) p ct r where "map_of (cs_positions st) (ctr_Asset t) = Some p" "closes_pos val (source_signal t) (Some p)"
      "cs_positions (sim_trade D parseID cfg it t st) = del_pos (ctr_Asset t) (cs_positions st)"
      "cs_closed (sim_trade D parseID cfg it t st) = cs_closed st @ [ct\<lparr>ctc_EntryBalance := cs_running st\<rparr>]"
      "cs_records (sim_trade D parseID cfg it t st) = cs_records st @ [r]"
      "val (cs_running (sim_trade D parseID cfg it t st)) = val (cs_running st) + val (ctc_PnL ct)"
      "val (ctc_PnL ct) = (val (ctr_Price t) - val (po_avgEntry p)) * \<bar>val (po_qty p)\<bar>"
      "ctc_OpenSignal ct = (if 0 < val (po_qty p) then SignalBuy else SignalSell)"
      "val (cs_cash (sim_trade D parseID cfg it t st)) = val (cs_cash st) + val (po_qty p) * val (ctr_Price t)"
  | (opens) p r q where "open_qty D cfg (cs_running st) (map snd (it (cs_positions st))) (ctr_Price t) = Some q" "0 < val q"
      "cs_positions (sim_trade D parseID cfg it t st) = set_pos (ctr_Asset t) p (cs_positions st)"
      "cs_closed (sim_trade D parseID cfg it t st) = cs_closed st"
      "cs_records (sim_trade D parseID cfg it t st) = cs_records st @ [r]"
      "cs_running (sim_trade D parseID cfg it t st) = cs_running st"
      "if source_signal t = SignalBuy then 0 < val (po_qty p) else val (po_qty p) < 0"
      "\<And>p0. map_of (cs_positions st) (ctr_Asset t) = Some p0 \<Longrightarrow> if source_signal t = SignalBuy then 0 < val (po_qty p0) else val (po_qty p0) < 0"
      "\<bar>val (po_qty p)\<bar> * val (po_avgEntry p) = (case map_of (cs_positions st) (ctr_Asset t) of None \<Rightarrow> 0
         | Some p \<Rightarrow> \<bar>val (po_qty p)\<bar> * val (po_avgEntry p)) + val q * val (ctr_Price t)"
      "val (cs_cash (sim_trade D parseID cfg it t st)) =
         val (cs_cash st) - (if source_signal t = SignalBuy then 1 else - 1) * (val q * val (ctr_Price t))"
      "val (ctr_Price t) \<noteq> 0"
proof -
  note L = exact_laws [OF X]
  let ?sig = "source_signal t" and ?pos = "map_of (cs_positions st) (ctr_Asset t)" and ?price = "ctr_Price t"
  let ?oq = "open_qty D cfg (cs_running st) (map snd (it (cs_positions st))) ?price"
  let ?qty = "case close_qty D ?sig ?pos of Some q \<Rightarrow> Some q | None \<Rightarrow> ?oq"
  show thesis
  proof (cases "d_IsZero D ?price \<or> ?qty = None \<or> (\<exists>q. ?qty = Some q \<and> (d_IsZero D q \<or> d_IsNeg D q))")
    case True
    then show thesis by (intro skip) (auto simp: sim_trade_def Let_def split: option.splits)
  next
    case False
    then obtain q where price: "\<not> d_IsZero D ?price" and q: "?qty = Some q" "\<not> d_IsZero D q" "\<not> d_IsNeg D q" by auto
    have q0: "0 < val q" using q(2,3) by (simp add: dec_exact [OF L])
    let ?st = "applyTrade_CT D t (parseID (ctr_TransactionID t)) ?sig q ?price st"
    have st': "sim_trade D parseID cfg it t st = (case settle_balances D (cs_running st) (drop (length (cs_closed st)) (cs_closed ?st)) of
        (running, new) \<Rightarrow> ?st\<lparr>cs_closed := take (length (cs_closed st)) (cs_closed ?st) @ new, cs_running := running\<rparr>)"
      using price q unfolding sim_trade_def Let_def by simp
    show thesis
    proof (cases "closes_pos val ?sig ?pos")
      case True
      obtain p ct r where a: "?pos = Some p" "cs_positions ?st = del_pos (ctr_Asset t) (cs_positions st)"
        "cs_closed ?st = cs_closed st @ [ct]" "cs_records ?st = cs_records st @ [r]"
        "val (ctc_PnL ct) = (val ?price - val (po_avgEntry p)) * \<bar>val (po_qty p)\<bar>"
        "ctc_OpenSignal ct = (if 0 < val (po_qty p) then SignalBuy else SignalSell)"
        "val (cs_cash ?st) = val (cs_cash st) + val (po_qty p) * val ?price"
        by (rule applyTrade_close [OF X True source_signal_cases g, of "parseID (ctr_TransactionID t)" q ?price]) blast
      show thesis
        by (rule close [of p ct r]) (use a True in \<open>simp_all add: st' exact_arith [OF X]\<close>)
    next
      case ncl: False
      then have "close_qty D ?sig ?pos = None" using close_qty_exact(1) [OF X source_signal_cases [of t]] by blast
      then have oq: "?oq = Some q" using q(1) by simp
      have vp: "val ?price \<noteq> 0" using price by (simp add: dec_exact [OF L])
      obtain p r where a: "cs_positions ?st = set_pos (ctr_Asset t) p (cs_positions st)"
        "cs_closed ?st = cs_closed st" "cs_records ?st = cs_records st @ [r]" "cs_running ?st = cs_running st"
        "if ?sig = SignalBuy then 0 < val (po_qty p) else val (po_qty p) < 0"
        "\<And>p0. ?pos = Some p0 \<Longrightarrow> if ?sig = SignalBuy then 0 < val (po_qty p0) else val (po_qty p0) < 0"
        "\<bar>val (po_qty p)\<bar> * val (po_avgEntry p) = (case ?pos of None \<Rightarrow> 0
           | Some p \<Rightarrow> \<bar>val (po_qty p)\<bar> * val (po_avgEntry p)) + val q * val ?price"
        "val (cs_cash ?st) = val (cs_cash st) - (if ?sig = SignalBuy then 1 else - 1) * (val q * val ?price)"
        by (rule applyTrade_open [OF X ncl source_signal_cases g q0, of "parseID (ctr_TransactionID t)" ?price]) blast
      show thesis
        by (rule opens [OF oq q0, of p r]) (use a(1-4,8) a(5,7) a(6) vp in \<open>simp_all add: st'\<close>)
    qed
  qed
qed

text \<open>The book: cash is what the capital, the closed trades and the open positions account for.\<close>

definition book_ok :: "('d \<Rightarrow> rat) \<Rightarrow> 'd \<Rightarrow> 'd CTSim \<Rightarrow> bool" where
  "book_ok val start st \<longleftrightarrow> good_pos val (cs_positions st) \<and>
     val (cs_cash st) = val start + cash_pnl val (cs_closed st) - open_cost val (cs_positions st) \<and>
     val (cs_running st) = val start + reported_pnl val (cs_closed st) \<and>
     (\<forall>i<length (cs_closed st). val (ctc_EntryBalance (cs_closed st ! i)) = val start + reported_pnl val (take i (cs_closed st)))"

lemma sim_trade_book:
  assumes X: "exact_ops D val" and b: "book_ok val start st"
  shows "book_ok val start (sim_trade D parseID cfg it t st)"
proof -
  have g: "good_pos val (cs_positions st)" and dis: "distinct (map fst (cs_positions st))"
    using b by (simp_all add: book_ok_def good_pos_def)
  from X g show ?thesis
  proof (cases rule: sim_trade_cases [where parseID = parseID and cfg = cfg and it = it and t = t])
    case skip
    then show ?thesis using b by simp
  next
    case (close p ct r)
    let ?ct = "ct\<lparr>ctc_EntryBalance := cs_running st\<rparr>"
    have "open_cost val (cs_positions st) = open_cost val (del_pos (ctr_Asset t) (cs_positions st)) + val (po_qty p) * val (po_avgEntry p)"
      using book_sums(3) [OF dis, of val "ctr_Asset t"] close(1) by simp
    moreover have "cash_pnl val [?ct] = val (po_qty p) * (val (ctr_Price t) - val (po_avgEntry p))"
    proof (cases "0 < val (po_qty p)")
      case False
      then have "val (po_qty p) < 0" using map_of_good [OF g close(1)] by simp
      then show ?thesis using close(7,8) False by (simp add: cash_pnl_def algebra_simps)
    qed (use close(7,8) in \<open>simp add: cash_pnl_def algebra_simps\<close>)
    moreover have "\<forall>i<Suc (length (cs_closed st)). val (ctc_EntryBalance ((cs_closed st @ [?ct]) ! i)) =
        val start + reported_pnl val (take i (cs_closed st @ [?ct]))"
      using b by (auto simp: book_ok_def nth_append less_Suc_eq)
    ultimately show ?thesis
      using b close del_pos_good [OF g, of "ctr_Asset t"]
      by (simp add: book_ok_def algebra_simps) (simp add: reported_pnl_def)
  next
    case (opens p r q)
    have sg: "val (po_qty p) \<noteq> 0" using opens(7) by (auto split: if_splits)
    have sum: "open_cost val (cs_positions st) = open_cost val (del_pos (ctr_Asset t) (cs_positions st)) +
        (case map_of (cs_positions st) (ctr_Asset t) of None \<Rightarrow> 0 | Some p \<Rightarrow> val (po_qty p) * val (po_avgEntry p))"
      "open_cost val (set_pos (ctr_Asset t) p (cs_positions st)) =
        val (po_qty p) * val (po_avgEntry p) + open_cost val (del_pos (ctr_Asset t) (cs_positions st))"
      using book_sums(3) [OF dis, of val "ctr_Asset t"] by (simp_all add: book_sums(1))
    have "val (po_qty p) * val (po_avgEntry p) = (case map_of (cs_positions st) (ctr_Asset t) of None \<Rightarrow> 0
        | Some p \<Rightarrow> val (po_qty p) * val (po_avgEntry p)) + (if source_signal t = SignalBuy then 1 else - 1) * (val q * val (ctr_Price t))"
      using opens(7,8,9) by (cases "map_of (cs_positions st) (ctr_Asset t)") (auto split: if_splits)
    then have "val (cs_cash st) - (if source_signal t = SignalBuy then 1 else - 1) * (val q * val (ctr_Price t)) =
        val start + cash_pnl val (cs_closed st) - open_cost val (set_pos (ctr_Asset t) p (cs_positions st))"
      using b sum by (simp add: book_ok_def)
    then show ?thesis
      using b opens(3-6,10) set_pos_good [OF g sg, of "ctr_Asset t"] by (simp add: book_ok_def)
  qed
qed

lemma sim_start_book: "book_ok val (startingBalance D cfg) (sim_start D cfg)"
  by (simp add: sim_start_def book_ok_def good_pos_def open_cost_def)

lemma sim_loop_book:
  assumes X: "exact_ops D val"
  shows "sim_loop D parseID cfg it cancelled i ts st = Inr st' \<Longrightarrow> book_ok val start st \<Longrightarrow> book_ok val start st'"
proof (induction ts arbitrary: i st)
  case (Cons t ts)
  then show ?case using sim_trade_book [OF X] by (auto split: if_splits)
qed simp

section \<open>Headroom\<close>

lemma foldl_deployed:
  assumes X: "exact_ops D val"
  shows "val (foldl (\<lambda>d p. fst (d_add D d (fst (d_mul D (d_abs D (po_qty p)) (po_avgEntry p))))) d ps) =
    val d + sum_list (map (\<lambda>p. \<bar>val (po_qty p)\<bar> * val (po_avgEntry p)) ps)"
  by (induction ps arbitrary: d) (simp_all add: exact_arith [OF X] dec_exact [OF exact_laws [OF X]])

lemma availableForNewPos_exact:
  assumes X: "exact_ops D val" and it: "mset (it ps) = mset ps"
  shows "val (availableForNewPos D running (map snd (it ps)) lev) = max 0 (val running * val lev - deployed val ps)"
proof -
  have "sum_list (map (\<lambda>p. \<bar>val (po_qty p)\<bar> * val (po_avgEntry p)) (map snd (it ps))) =
      sum_mset (image_mset (\<lambda>(_, p). \<bar>val (po_qty p)\<bar> * val (po_avgEntry p)) (mset (it ps)))"
    by (simp add: sum_mset_sum_list [symmetric] case_prod_unfold comp_def)
  also have "\<dots> = deployed val ps" unfolding it by (simp add: deployed_def sum_mset_sum_list [symmetric])
  finally show ?thesis
    using foldl_deployed [OF X, of "d_zero D" "map snd (it ps)"]
    by (simp add: availableForNewPos_def Let_def exact_arith [OF X] dec_exact [OF exact_laws [OF X]])
qed

lemma open_qty_exact:
  assumes X: "exact_ops D val" and it: "mset (it ps) = mset ps"
    and q: "open_qty D cfg running (map snd (it ps)) price = Some q"
  shows "deployed val ps < val running * val (cf_Leverage cfg)"
    "val q * val price \<le> val running * val (cf_Leverage cfg) - deployed val ps"
proof -
  note x = dec_exact [OF exact_laws [OF X]] exact_arith(1-3) [OF X] availableForNewPos_exact [where it = it, OF X it]
  show "deployed val ps < val running * val (cf_Leverage cfg)"
    using q by (auto simp: open_qty_def Let_def x split: if_splits)
  then show "val q * val price \<le> val running * val (cf_Leverage cfg) - deployed val ps"
    using q by (auto simp: open_qty_def Let_def x split: if_splits)
qed

section \<open>The live handler\<close>

lemma CT_recordDecision_frame:
  "ct_cfg (fst (CT_recordDecision E d s)) = ct_cfg s" "ct_paused (fst (CT_recordDecision E d s)) = ct_paused s"
  "order_qtys (snd (CT_recordDecision E d s)) = []" "EOrder req resp \<notin> set (snd (CT_recordDecision E d s))"
  by (simp_all add: CT_recordDecision_def Let_def)

lemma CT_place_result:
  "ct_cfg (fst (CT_place E t c l req s)) = ct_cfg s" "ct_paused (fst (CT_place E t c l req s)) = ct_paused s"
  "order_qtys (snd (snd (CT_place E t c l req s))) = [oreq_Quantity req]"
  "EOrder r resp \<in> set (snd (snd (CT_place E t c l req s))) \<longleftrightarrow> r = req \<and> resp = ce_CreateMarketOrder E req"
  using CT_recordDecision_frame [where E = E and d = "CT_decision_row t c l req" and s = s]
  by (auto simp: CT_place_def Let_def split_beta split: option.split)

lemma handleTrade_cases:
  obtains (none) err where "handleTrade D E t s = (s, err, [])"
  | (order) side portfolio quote where "cte_AssetID t \<notin> set (cf_DisallowedBonds (ct_cfg s))" "trade_side (cte_Side t) = Some side"
    "ce_GetPortfolioV2 E = (portfolio, None)" "ce_QuoteAssetID E (cte_OrderBookID t) = (quote, None)"
    "let b = bondBalancesFor D (map_option (ce_iter E 0) portfolio) (cte_AssetID t) False;
         current = positionForAsset D (bb_available b) (bb_borrowed b);
         size = CT_order_size D E portfolio t side current quote s;
         leverage = (if isClose side current then d_one D else cf_Leverage (ct_cfg s)) in
       \<not> d_IsZero D size \<and> \<not> d_IsNeg D size \<and>
       handleTrade D E t s = CT_place E t current leverage (CT_request D E t side size leverage s) s"
proof (cases "cte_AssetID t \<in> set (cf_DisallowedBonds (ct_cfg s))")
  case True
  then show thesis by (intro none) (simp add: handleTrade_def)
next
  case asset: False
  obtain portfolio pe where p: "ce_GetPortfolioV2 E = (portfolio, pe)" by (rule prod.exhaust)
  obtain quote qe where q: "ce_QuoteAssetID E (cte_OrderBookID t) = (quote, qe)" by (rule prod.exhaust)
  show thesis
  proof (cases "trade_side (cte_Side t)")
    case None
    then show thesis using asset by (intro none) (simp add: handleTrade_def)
  next
    case (Some side)
    consider (pe) err where "pe = Some err" | (qe) err where "pe = None" "qe = Some err" | (ok) "pe = None" "qe = None"
      by (cases pe; cases qe) auto
    then show thesis
    proof cases
      case pe
      then show thesis using asset Some p by (intro none) (simp add: handleTrade_def)
    next
      case qe
      then show thesis using asset Some p q by (intro none) (simp add: handleTrade_def)
    next
      case ok
      let ?b = "bondBalancesFor D (map_option (ce_iter E 0) portfolio) (cte_AssetID t) False"
      let ?cur = "positionForAsset D (bb_available ?b) (bb_borrowed ?b)"
      let ?size = "CT_order_size D E portfolio t side ?cur quote s"
      let ?lev = "if isClose side ?cur then d_one D else cf_Leverage (ct_cfg s)"
      have h: "handleTrade D E t s = (if d_IsZero D ?size \<or> d_IsNeg D ?size then (s, None, [])
          else CT_place E t ?cur ?lev (CT_request D E t side ?size ?lev s) s)"
        using asset Some p q ok by (simp add: handleTrade_def Let_def)
      show thesis
      proof (cases "d_IsZero D ?size \<or> d_IsNeg D ?size")
        case True
        then show thesis using h by (intro none) simp
      next
        case False
        then show thesis using asset Some p q ok h by (intro order [of side portfolio quote]) (simp_all add: Let_def)
      qed
    qed
  qed
qed

lemma handleTrade_frame:
  "ct_cfg (fst (handleTrade D E t s)) = ct_cfg s" "ct_paused (fst (handleTrade D E t s)) = ct_paused s"
  "length (order_qtys (snd (snd (handleTrade D E t s)))) \<le> Suc 0"
  by (rule handleTrade_cases [of D E t s]; simp add: Let_def CT_place_result)+

section \<open>The live loop\<close>

definition ct_weight :: "'d CTEvent \<Rightarrow> nat" where
  "ct_weight ev = (case ev of CTTradeEvent _ _ \<Rightarrow> 1 | _ \<Rightarrow> 0)"

definition ct_quiet :: "'d CTLoop \<Rightarrow> bool" where
  "ct_quiet l \<longleftrightarrow> ctl_done l \<or> ct_paused (ctl_strat l)"

definition ct_wakes :: "'d CTEvent \<Rightarrow> bool" where
  "ct_wakes ev \<longleftrightarrow> (case ev of CTMsg (Some Resume) \<Rightarrow> True | _ \<Rightarrow> False)"

interpretation ct: guarded_loop "ct_step D" "\<lambda>l. ct_cfg (ctl_strat l) = cfg" ct_weight ct_quiet ct_wakes
  for D :: "'d decimal_ops" and cfg
  by unfold_locales
    (auto simp: ct_step_def ct_weight_def ct_quiet_def ct_wakes_def ct_message_def handleTrade_frame split_beta
      split: CTEvent.splits option.splits Message.splits)

section \<open>The stream of trades\<close>

definition scanned :: "'d decimal_ops \<Rightarrow> history_row \<Rightarrow> 'd CopyTrade" where
  "scanned D r = (case scanTradeRow D r of Inr t \<Rightarrow> t | Inl _ \<Rightarrow> undefined)"

lemma consume_all:
  "\<forall>r\<in>set rs. \<not> isl (scanTradeRow D r) \<Longrightarrow> consumeTradesBatch D rs = (map (scanned D) rs, None)"
  by (induction rs) (auto simp: scanned_def split: sum.splits)

lemma window_sorted:
  assumes "distinct (map hr_TransactionID db)"
  shows "sorted_wrt (\<lambda>a b. history_key a < history_key b) (window_rows db user start finish)"
proof -
  let ?P = "\<lambda>r. hr_UserID r = user \<and> \<not> time_Before (hr_CreatedAt r) start \<and> \<not> time_After (hr_CreatedAt r) finish"
  have "inj_on history_key (set db)"
    using assms by (auto simp: distinct_map inj_on_def history_key_def)
  then have "distinct (map history_key (filter ?P db))"
    using assms by (auto simp: distinct_map intro: inj_on_subset)
  then have "distinct (map history_key (window_rows db user start finish))"
    by (simp add: window_rows_def distinct_map)
  moreover have "sorted (map history_key (window_rows db user start finish))" unfolding window_rows_def by (rule sorted_sort_key)
  ultimately have "sorted_wrt (<) (map history_key (window_rows db user start finish))" unfolding strict_sorted_iff by blast
  then show ?thesis by (simp add: sorted_wrt_map)
qed

text \<open>From the row after the cursor on, the stream gives the rest of the window.\<close>

lemma stream_rest:
  fixes db user start finish
  defines "L \<equiv> window_rows db user start finish"
  assumes d: "distinct (map hr_TransactionID db)" and ok: "\<forall>r\<in>set db. \<not> isl (scanTradeRow D r)"
  shows "\<lbrakk>filter (\<lambda>r. case c of None \<Rightarrow> True | Some k \<Rightarrow> k < history_key r) L = drop i L; length L - i \<le> m\<rbrakk> \<Longrightarrow>
    stream_from D db user start finish (\<lambda>_. None) k c = Some (map (scanned D) (drop i L), None)"
proof (induction m arbitrary: c i k rule: less_induct)
  case (less m)
  let ?b = "take streamBatchSize (drop i L)"
  have q: "queryTradesBatch db user start finish c = ?b" using less.prems(1) by (simp add: queryTradesBatch_def L_def)
  have "set ?b \<subseteq> set db" by (auto simp: L_def window_rows_def dest!: in_set_takeD in_set_dropD)
  then have co: "consumeTradesBatch D ?b = (map (scanned D) ?b, None)" using ok by (intro consume_all) auto
  show ?case
  proof (cases "length ?b < streamBatchSize")
    case True
    then have "?b = drop i L" by simp
    then show ?thesis using q co True by (subst stream_from.simps) (simp add: Let_def)
  next
    case False
    have pos: "0 < streamBatchSize" by (simp add: streamBatchSize_def)
    then have len: "length ?b = streamBatchSize" "i + streamBatchSize \<le> length L" using False by (auto simp: min_def split: if_splits)
    let ?j = "i + streamBatchSize"
    have last: "last ?b = L ! (?j - 1)"
      using len pos by (subst last_conv_nth) (auto simp: nth_append min_def)
    have "filter (\<lambda>r. history_key (L ! (?j - 1)) < history_key r) L = drop (Suc (?j - 1)) L"
      using filter_beyond [OF window_sorted [OF d, of user start finish, folded L_def], of "?j - 1"] len pos by auto
    then have f: "filter (\<lambda>r. case Some (history_key (last ?b)) of None \<Rightarrow> True | Some k \<Rightarrow> k < history_key r) L = drop ?j L"
      using pos by (simp add: last)
    have "length L - ?j < m" using less.prems(2) len pos by linarith
    then have "stream_from D db user start finish (\<lambda>_. None) (k + 1) (Some (history_key (last ?b))) =
        Some (map (scanned D) (drop ?j L), None)"
      using less.IH [OF _ f order_refl] by blast
    moreover have "drop i L = ?b @ drop ?j L" by (simp add: add.commute flip: drop_drop)
    ultimately show ?thesis using q co False by (subst stream_from.simps) (simp add: Let_def flip: map_append)
  qed
qed

end
