(* ===== verification/CT_Correct.thy ===== *)
theory CT_Correct
  imports CT_Props
begin

text \<open>
  The correctness theorems of copy trading, each with its witness: the cash and the exposure of a backtest,
  the stream it reads, the orders of the live strategy and what every live run keeps.
\<close>

section \<open>The backtest\<close>

text \<open>C8: The cash of a copy backtest in exact arithmetic, that is, when no operation on decimals rounds. After any trades the cash
  is the starting balance, plus the profit reported for each closed long, minus the profit reported for each closed short,
  minus the cost of the open positions: reported profits of shorts have the wrong sign. The balance that sizes later
  orders, and the entry balance of every closed trade, follow the reported profits instead.\<close>

theorem copy_backtest_cash:
  assumes "exact_ops D val" "sim_loop D parseID cfg it cancelled i ts (sim_start D cfg) = Inr st"
  shows "val (cs_cash st) = val (startingBalance D cfg) + cash_pnl val (cs_closed st) - open_cost val (cs_positions st) \<and>
    val (cs_running st) = val (startingBalance D cfg) + reported_pnl val (cs_closed st) \<and>
    (\<forall>k<length (cs_closed st). val (ctc_EntryBalance (cs_closed st ! k)) =
      val (startingBalance D cfg) + reported_pnl val (take k (cs_closed st)))"
  using sim_loop_book [OF assms sim_start_book] by (simp add: book_ok_def)

text \<open>C19: The exposure of a copy backtest in exact arithmetic, that is, when no operation on decimals rounds. Whatever the order
  in which Go iterates over the open positions, after every trade that opens or extends a position the notional deployed at
  entry prices, over all positions, is at most the running balance times the leverage.\<close>

theorem copy_exposure_bounded:
  assumes X: "exact_ops D val" and run: "sim_loop D parseID cfg it cancelled i ts (sim_start D cfg) = Inr st"
    and it': "mset (it' (cs_positions st)) = mset (cs_positions st)"
    and step: "sim_trade D parseID cfg it' t st = st'" "cs_records st' \<noteq> cs_records st" "cs_closed st' = cs_closed st"
  shows "deployed val (cs_positions st') \<le> val (cs_running st') * val (cf_Leverage cfg)"
proof -
  have g: "good_pos val (cs_positions st)" and dis: "distinct (map fst (cs_positions st))"
    using sim_loop_book [OF X run sim_start_book] by (simp_all add: book_ok_def good_pos_def)
  from X g show ?thesis
  proof (cases rule: sim_trade_cases [where parseID = parseID and cfg = cfg and it = it' and t = t])
    case (opens p r q)
    have "deployed val (cs_positions st') = deployed val (cs_positions st) + val q * val (ctr_Price t)"
      using book_sums(4) [OF dis, of val "ctr_Asset t"] opens(3,9) step(1) by (simp add: book_sums(2))
    also have "\<dots> \<le> val (cs_running st) * val (cf_Leverage cfg)"
      using open_qty_exact(2) [where it = it', OF X it' opens(1)] by simp
    finally show ?thesis using opens(6) step(1) by simp
  qed (use step in auto)
qed

text \<open>C23: The stream of the followed trader's trades is complete. When every query answers and every row can
  be read, the paged query ends and delivers exactly the rows of the trader in the window, each once, by
  time and transaction, whatever the number of pages.\<close>

theorem copy_stream_complete:
  assumes "user \<noteq> []" "distinct (map hr_TransactionID db)" "\<forall>r\<in>set db. \<not> isl (scanTradeRow D r)"
  shows "\<exists>rows. StreamTrades D db (\<lambda>_. None) user start finish = Some (map (scanned D) rows, None) \<and>
    sorted_wrt (\<lambda>a b. history_key a < history_key b) rows \<and>
    set rows = {r \<in> set db. hr_UserID r = user \<and> t_ns start \<le> t_ns (hr_CreatedAt r) \<and> t_ns (hr_CreatedAt r) \<le> t_ns finish}"
proof (intro exI conjI)
  let ?L = "window_rows db user start finish"
  show "StreamTrades D db (\<lambda>_. None) user start finish = Some (map (scanned D) ?L, None)"
    using stream_rest [where c = None and i = 0, OF assms(2,3) _ order_refl] assms(1) by (simp add: StreamTrades_def)
  show "sorted_wrt (\<lambda>a b. history_key a < history_key b) ?L" by (rule window_sorted [OF assms(2)])
  show "set ?L = {r \<in> set db. hr_UserID r = user \<and> t_ns start \<le> t_ns (hr_CreatedAt r) \<and> t_ns (hr_CreatedAt r) \<le> t_ns finish}"
    by (auto simp: window_rows_def time_Before_def time_After_def)
qed

section \<open>The live strategy\<close>

definition isolated :: "string \<Rightarrow> account_map \<Rightarrow> bool" where
  "isolated asset m \<longleftrightarrow> (\<exists>a. m asset = Some a \<and> \<not> ac_IsGlobal a)"

lemma holding_isolated:
  assumes "mset accs' = mset accs"
  shows "holding_accounts False asset accs' = [] \<longleftrightarrow> (\<forall>m\<in>set accs. \<not> isolated asset m)"
    and "holding_accounts False asset accs' = (m, a) # rest \<Longrightarrow> m \<in> set accs \<and> m asset = Some a \<and> \<not> ac_IsGlobal a"
proof -
  have set: "set accs' = set accs" by (rule mset_eq_setD [OF assms])
  have mem: "(m, a) \<in> set (holding_accounts False asset accs') \<longleftrightarrow> m \<in> set accs \<and> m asset = Some a \<and> \<not> ac_IsGlobal a" for m a
    unfolding set [symmetric] holding_accounts_def
    by (induction accs') (auto simp: List.map_filter_simps split: option.splits)
  show "holding_accounts False asset accs' = (m, a) # rest \<Longrightarrow> m \<in> set accs \<and> m asset = Some a \<and> \<not> ac_IsGlobal a"
    using mem [of m a] by simp
  show "holding_accounts False asset accs' = [] \<longleftrightarrow> (\<forall>m\<in>set accs. \<not> isolated asset m)"
    using mem by (cases "holding_accounts False asset accs'") (auto simp: isolated_def)
qed

text \<open>With one isolated account for the bond, every iteration finds it.\<close>

lemma holding_unique:
  assumes "mset accs' = mset accs" "m \<in> set accs" "m asset = Some a" "\<not> ac_IsGlobal a"
    and "\<And>m'. m' \<in> set accs \<Longrightarrow> isolated asset m' \<Longrightarrow> m' = m"
  obtains rest where "holding_accounts False asset accs' = (m, a) # rest"
proof (cases "holding_accounts False asset accs'")
  case Nil
  then show thesis using holding_isolated(1) [OF assms(1)] assms(2-4) by (auto simp: isolated_def)
next
  case (Cons x rest)
  obtain m' a' where x: "x = (m', a')" by (rule prod.exhaust)
  then have "m' \<in> set accs" "m' asset = Some a'" "\<not> ac_IsGlobal a'"
    using holding_isolated(2) [OF assms(1)] Cons by auto
  then have "m' = m" "a' = a" using assms(3) assms(5) [of m'] by (auto simp: isolated_def)
  then show thesis using that Cons x by simp
qed

text \<open>C24: The orders of the live copy trading strategy, when the bond has one isolated margin account. An order
  answers a trade in an allowed bond, on the side of that trade and in its book, never from the global
  account, for a positive quantity. If it runs against the position of that account it closes all of it
  without leverage. Otherwise its quantity is the configured share of the cash of the account, times the
  leverage, within the limits, with no regard to the price: an amount of cash is sent as a number of bonds.\<close>

theorem copy_order_rule:
  assumes L: "decimal_laws D val rnd" and it: "\<And>k. mset (ce_iter E k accs) = mset accs"
    and pf: "ce_GetPortfolioV2 E = (Some accs, None)"
    and m: "m \<in> set accs" "m (cte_AssetID t) = Some a" "\<not> ac_IsGlobal a"
    and uniq: "\<And>m'. m' \<in> set accs \<Longrightarrow> isolated (cte_AssetID t) m' \<Longrightarrow> m' = m"
    and ps: "d_parse D (ac_Available a) = (held, None)" "d_parse D (ac_Borrowed a) = (owed, None)"
      "snd (d_sub D held owed) = None"
    and h: "handleTrade D E t s = (s', err, eff)" "EOrder req resp \<in> set eff"
  shows "cte_AssetID t \<notin> set (cf_DisallowedBonds (ct_cfg s)) \<and> trade_side (cte_Side t) = Some (oreq_Side req) \<and>
    oreq_Book req = cte_OrderBookID t \<and> \<not> oreq_FromGlobal req \<and> 0 < val (oreq_Quantity req) \<and>
    (let net = rnd (val held - val owed) in
      if 0 < net \<and> oreq_Side req = SIDE_SELL then oreq_Quantity req = held \<and> oreq_InverseLeverage req = d_one D
      else if net < 0 \<and> oreq_Side req = SIDE_BUY then oreq_Quantity req = owed \<and> oreq_InverseLeverage req = d_one D
      else oreq_Quantity req = calculateOrderSize D
        (case m (fst (ce_QuoteAssetID E (cte_OrderBookID t))) of None \<Rightarrow> d_zero D | Some c \<Rightarrow> parse_or_zero D (ac_Available c))
        (cf_PercentageOfAvailable (ct_cfg s)) (cf_Leverage (ct_cfg s)) (cf_MinOrderSize (ct_cfg s)) (cf_MaxOrderSize (ct_cfg s)))"
proof -
  have hold: "\<exists>rest. holding_accounts False (cte_AssetID t) (ce_iter E k accs) = (m, a) # rest" for k
    using holding_unique [OF it m uniq] by blast
  have ne: "ce_iter E k accs \<noteq> []" for k using it [of k] m(1) by auto
  have bond: "bondBalancesFor D (map_option (ce_iter E k) (Some accs)) (cte_AssetID t) False = \<lparr>bb_available = held, bb_borrowed = owed\<rparr>" for k
    using hold [of k] ps by (auto simp: bondBalancesFor_def parse_or_zero_def)
  have cash: "availableBalanceFor D (map_option (ce_iter E 1) (Some accs)) c (cte_AssetID t) False =
      (case m c of None \<Rightarrow> d_zero D | Some b \<Rightarrow> parse_or_zero D (ac_Available b))" for c
    using hold [of 1] ne [of 1] by (auto simp: availableBalanceFor_def)
  let ?net = "rnd (val held - val owed)"
  let ?cur = "positionForAsset D held owed"
  have net: "val (fst (d_sub D held owed)) = ?net" using val_sub [OF L] ps(3) by (metis prod.collapse)
  have cur: "?cur = (if 0 < ?net then positionLong else if ?net < 0 then positionShort else positionFlat)"
    by (simp add: positionForAsset_def Let_def dec_exact [OF L] net)
  show ?thesis
  proof (rule handleTrade_cases [of D E t s])
    fix err assume "handleTrade D E t s = (s, err, [])"
    then show ?thesis using h by simp
  next
    fix side portfolio quote
    assume c: "cte_AssetID t \<notin> set (cf_DisallowedBonds (ct_cfg s))" "trade_side (cte_Side t) = Some side"
      "ce_GetPortfolioV2 E = (portfolio, None)" "ce_QuoteAssetID E (cte_OrderBookID t) = (quote, None)"
      and o: "let b = bondBalancesFor D (map_option (ce_iter E 0) portfolio) (cte_AssetID t) False;
         current = positionForAsset D (bb_available b) (bb_borrowed b);
         size = CT_order_size D E portfolio t side current quote s;
         leverage = (if isClose side current then d_one D else cf_Leverage (ct_cfg s)) in
       \<not> d_IsZero D size \<and> \<not> d_IsNeg D size \<and>
       handleTrade D E t s = CT_place E t current leverage (CT_request D E t side size leverage s) s"
    let ?size = "CT_order_size D E (Some accs) t side ?cur quote s"
    let ?lev = "if isClose side ?cur then d_one D else cf_Leverage (ct_cfg s)"
    have pfo: "portfolio = Some accs" using c(3) pf by simp
    have o': "\<not> d_IsZero D ?size" "\<not> d_IsNeg D ?size"
      "handleTrade D E t s = CT_place E t ?cur ?lev (CT_request D E t side ?size ?lev s) s"
      using o unfolding pfo bond Let_def by simp_all
    have req: "req = CT_request D E t side ?size ?lev s"
      using h o'(3) CT_place_result(4) [of req resp E t ?cur ?lev "CT_request D E t side ?size ?lev s" s] by simp
    have size: "?size = (if isClose side ?cur then (if ?cur = positionLong then held else owed)
        else calculateOrderSize D (case m quote of None \<Rightarrow> d_zero D | Some b \<Rightarrow> parse_or_zero D (ac_Available b))
          (cf_PercentageOfAvailable (ct_cfg s)) (cf_Leverage (ct_cfg s)) (cf_MinOrderSize (ct_cfg s)) (cf_MaxOrderSize (ct_cfg s)))"
      unfolding CT_order_size_def Let_def bond cash by (simp add: balanceAssetFor_def isClose_def)
    have fields: "oreq_Quantity req = ?size" "oreq_Side req = side" "oreq_Book req = cte_OrderBookID t" "\<not> oreq_FromGlobal req"
      "isClose side ?cur \<Longrightarrow> oreq_InverseLeverage req = d_one D"
      by (simp_all add: req CT_request_def dec_cmp [OF L] dec_exact [OF L])
    have cl: "isClose side ?cur \<longleftrightarrow> 0 < ?net \<and> side = SIDE_SELL \<or> ?net < 0 \<and> side = SIDE_BUY" by (simp add: isClose_def cur)
    have pos: "0 < val ?size" using o'(1,2) by (simp add: dec_exact [OF L])
    show ?thesis
      using c fields size cl pos cur by (cases side) (auto simp: Let_def)
  qed
qed

text \<open>Without an isolated margin account for the bond no order is ever sent, so a bond whose account the
  exchange would create with the first order is never copied.\<close>

theorem copy_needs_isolated_account:
  assumes L: "decimal_laws D val rnd" and it: "\<And>k. mset (ce_iter E k accs) = mset accs"
    and pf: "fst (ce_GetPortfolioV2 E) = Some accs" and no: "\<forall>m\<in>set accs. \<not> isolated (cte_AssetID t) m"
    and mx: "int64_ok (cf_MaxOrderSize (ct_cfg s))"
  shows "fst (handleTrade D E t s) = s \<and> snd (snd (handleTrade D E t s)) = []"
proof (rule handleTrade_cases [of D E t s])
  fix side portfolio quote
  assume p: "ce_GetPortfolioV2 E = (portfolio, None)"
    and o: "let b = bondBalancesFor D (map_option (ce_iter E 0) portfolio) (cte_AssetID t) False;
         current = positionForAsset D (bb_available b) (bb_borrowed b);
         size = CT_order_size D E portfolio t side current quote s;
         leverage = (if isClose side current then d_one D else cf_Leverage (ct_cfg s)) in
       \<not> d_IsZero D size \<and> \<not> d_IsNeg D size \<and>
       handleTrade D E t s = CT_place E t current leverage (CT_request D E t side size leverage s) s"
  have pfo: "portfolio = Some accs" using p pf by simp
  have hold: "holding_accounts False (cte_AssetID t) (ce_iter E k accs) = []" for k
    using holding_isolated(1) [OF it] no by blast
  have bond: "bondBalancesFor D (map_option (ce_iter E k) (Some accs)) (cte_AssetID t) False = \<lparr>bb_available = d_zero D, bb_borrowed = d_zero D\<rparr>" for k
    using hold [of k] by (simp add: bondBalancesFor_def)
  have cash: "availableBalanceFor D (map_option (ce_iter E 1) (Some accs)) c (cte_AssetID t) False = d_zero D" for c
    using hold [of 1] by (simp add: availableBalanceFor_def)
  have z: "val (fst (d_mul D x y)) = 0" if "val x = 0" for x y
    using mul_exact [OF L, of x y] that by auto
  have cs: "val (calculateOrderSize D (d_zero D) pc lev mn mx) = 0" if "int64_ok mx" for pc lev mn mx
    using z that dec_exact [OF L] by (auto simp: calculateOrderSize_def Let_def)
  have "snd (d_sub D (d_zero D) (d_zero D)) = None \<and> val (fst (d_sub D (d_zero D) (d_zero D))) = 0"
    using sub_exact [OF L, of "d_zero D" "d_zero D"] dec_exact(1) [OF L] by auto
  then have cur: "positionForAsset D (d_zero D) (d_zero D) = positionFlat"
    by (simp add: positionForAsset_def Let_def dec_exact [OF L])
  have "val (CT_order_size D E (Some accs) t side positionFlat quote s) = 0"
    unfolding CT_order_size_def Let_def cash using cs [OF assms(5)] by (simp add: isClose_def)
  then show ?thesis using o unfolding pfo bond Let_def bondBalances.simps cur by (simp add: dec_exact [OF L])
qed simp

text \<open>Over every live run the configuration stays as it was, at most one order is sent per trade of the
  followed trader, and after a pause nothing is sent until a resume.\<close>

theorem copy_live_run:
  assumes run: "CT_Run runID s0 = (s, Inr (trader, l))" and evs: "run_events (ct_step D) evs l = (l1, f1)"
    and later: "\<forall>e\<in>set later. \<not> ct_wakes e"
    and all: "run_events (ct_step D) (evs @ CTMsg (Some Pause) # later) l = (l2, f2)"
  shows "trader = cf_FollowedTrader (ct_cfg s0) \<and> ct_runID (ctl_strat l) = runID \<and> ct_cfg (ctl_strat l1) = ct_cfg s0 \<and>
    length (order_qtys f1) \<le> sum_list (map ct_weight evs) \<and> order_qtys f2 = order_qtys f1"
proof -
  have l: "trader = cf_FollowedTrader (ct_cfg s0)" "ct_runID (ctl_strat l) = runID" "ct_cfg (ctl_strat l) = ct_cfg s0"
    using run by (auto simp: CT_Run_def Let_def split: if_splits)
  have q: "ct_quiet (fst (ct_step D (CTMsg (Some Pause)) l1))" "snd (ct_step D (CTMsg (Some Pause)) l1) = []"
    by (simp_all add: ct_step_def ct_quiet_def ct_message_def)
  have "order_qtys (snd (run_events (ct_step D) (CTMsg (Some Pause) # later) l1)) = []"
    using ct.run_quiet [OF q(1) later] q(2) by (simp add: split_beta)
  then have "order_qtys f2 = order_qtys f1" using evs all by (auto simp: run_events_append split_beta)
  then show ?thesis
    using l ct.run_orders [of D evs l] ct.run_inv [of l "ct_cfg s0" D evs] evs by simp
qed

section \<open>Concrete runs\<close>

definition ct_cfg0 :: "rat CTConfig" where
  "ct_cfg0 = \<lparr>cf_FollowedTrader = ''trader'', cf_PercentageOfAvailable = 1 / 2, cf_Leverage = 1, cf_MinOrderSize = 0,
     cf_MaxOrderSize = 0, cf_DisallowedBonds = [], cf_InitialBalance = 1000\<rparr>"

definition ct_copied :: "int \<Rightarrow> string \<Rightarrow> rat \<Rightarrow> rat CopyTrade" where
  "ct_copied h side p = \<lparr>ctr_TransactionID = ''tx'', ctr_OrderID = ''o'', ctr_OrderSeq = 1, ctr_OrderBookID = ''book'',
     ctr_UserID = ''trader'', ctr_Asset = ''bond'', ctr_Quantity = 7, ctr_Price = p, ctr_Side = side,
     ctr_AggressorIndicator = False, ctr_CreatedAt = \<lparr>t_ns = h * hour_ns, t_off = 0\<rparr>\<rparr>"

text \<open>The trader sells at 10 and buys back at 8.\<close>

definition ct_tape :: "rat CopyTrade list" where
  "ct_tape = [ct_copied 1 ''SELL'' 10, ct_copied 2 ''BUY'' 8]"

lemma ct_sample_value:
  "(case sim_loop rat_ops id ct_cfg0 (\<lambda>_ ps. ps) (\<lambda>_. False) 0 ct_tape (sim_start rat_ops ct_cfg0) of
      Inl _ \<Rightarrow> False
    | Inr st \<Rightarrow> cs_cash st = 1100 \<and> map ctc_PnL (cs_closed st) = [- 100] \<and> map ctc_OpenSignal (cs_closed st) = [SignalSell])"
  by code_simp

theorem copy_backtest_cash_witness:
  "\<exists>st. sim_loop rat_ops id ct_cfg0 (\<lambda>_ ps. ps) (\<lambda>_. False) 0 ct_tape (sim_start rat_ops ct_cfg0) = Inr st \<and>
     cs_cash st = 1000 + cash_pnl id (cs_closed st) - open_cost id (cs_positions st) \<and> cash_pnl id (cs_closed st) = 100"
proof -
  obtain st where st: "sim_loop rat_ops id ct_cfg0 (\<lambda>_ ps. ps) (\<lambda>_. False) 0 ct_tape (sim_start rat_ops ct_cfg0) = Inr st"
    "map ctc_PnL (cs_closed st) = [- 100]" "map ctc_OpenSignal (cs_closed st) = [SignalSell]"
    using ct_sample_value by (auto split: sum.splits)
  have "startingBalance rat_ops ct_cfg0 = 1000" by code_simp
  moreover obtain c where "cs_closed st = [c]" using st(2) by auto
  ultimately show ?thesis using copy_backtest_cash [OF exact_rat_ops st(1)] st by (auto simp: cash_pnl_def)
qed

theorem copy_exposure_bounded_witness:
  "deployed id (cs_positions (sim_trade rat_ops id ct_cfg0 id (ct_copied 1 ''SELL'' 10) (sim_start rat_ops ct_cfg0))) \<le> 1000"
proof -
  let ?st = "sim_start rat_ops ct_cfg0"
  let ?st' = "sim_trade rat_ops id ct_cfg0 id (ct_copied 1 ''SELL'' 10) ?st"
  have 1: "sim_loop rat_ops id ct_cfg0 (\<lambda>_ ps. ps) (\<lambda>_. False) 0 [] ?st = Inr ?st" by simp
  have 2: "cs_records ?st' \<noteq> cs_records ?st" "cs_closed ?st' = cs_closed ?st" by code_simp+
  have 3: "cs_running ?st' * cf_Leverage ct_cfg0 = 1000" by code_simp
  show ?thesis using copy_exposure_bounded [OF exact_rat_ops 1 _ refl 2] 3 by simp
qed

definition ct_row :: "string \<Rightarrow> int \<Rightarrow> history_row" where
  "ct_row i h = \<lparr>hr_TransactionID = i, hr_OrderID = ''o'', hr_OrderSeq = 1, hr_OrderBookID = ''book'', hr_UserID = ''trader'',
     hr_Asset = ''bond'', hr_Quantity = ''7'', hr_Price = ''10'', hr_Side = ''SELL'', hr_AggressorIndicator = False,
     hr_CreatedAt = \<lparr>t_ns = h * hour_ns, t_off = 0\<rparr>\<rparr>"

theorem copy_stream_complete_witness:
  "\<exists>rows. StreamTrades rat_ops [ct_row ''b'' 2, ct_row ''a'' 1] (\<lambda>_. None) ''trader'' time_zero \<lparr>t_ns = day_ns, t_off = 0\<rparr> =
     Some (map (scanned rat_ops) rows, None) \<and> set rows = {ct_row ''a'' 1, ct_row ''b'' 2}"
proof -
  let ?db = "[ct_row ''b'' 2, ct_row ''a'' 1]"
  have "distinct (map hr_TransactionID ?db)" "\<forall>r\<in>set ?db. \<not> isl (scanTradeRow rat_ops r)"
    by (simp_all add: ct_row_def scanTradeRow_def rat_ops_def)
  from copy_stream_complete [of "''trader''", OF _ this, of time_zero "\<lparr>t_ns = day_ns, t_off = 0\<rparr>"]
  obtain rows where "StreamTrades rat_ops ?db (\<lambda>_. None) ''trader'' time_zero \<lparr>t_ns = day_ns, t_off = 0\<rparr> =
      Some (map (scanned rat_ops) rows, None)"
    "set rows = {r \<in> set ?db. hr_UserID r = ''trader'' \<and> t_ns time_zero \<le> t_ns (hr_CreatedAt r) \<and> t_ns (hr_CreatedAt r) \<le> day_ns}"
    by auto
  moreover have "{r \<in> set ?db. hr_UserID r = ''trader'' \<and> t_ns time_zero \<le> t_ns (hr_CreatedAt r) \<and> t_ns (hr_CreatedAt r) \<le> day_ns} =
      {ct_row ''a'' 1, ct_row ''b'' 2}"
    by (auto simp: ct_row_def time_zero_def)
  ultimately show ?thesis by blast
qed

text \<open>A portfolio with one isolated account: ten bonds and cash.\<close>

definition ct_account :: account_map where
  "ct_account = [''bond'' \<mapsto> \<lparr>ac_IsGlobal = False, ac_Available = replicate 10 CHR ''1'', ac_Borrowed = []\<rparr>,
     ''usd'' \<mapsto> \<lparr>ac_IsGlobal = False, ac_Available = replicate 20 CHR ''1'', ac_Borrowed = []\<rparr>]"

definition ct_env :: "account_map list \<Rightarrow> rat CTEnv" where
  "ct_env accs = \<lparr>ce_GetPortfolioV2 = (Some accs, None), ce_iter = (\<lambda>_ ms. ms), ce_QuoteAssetID = (\<lambda>_. (''usd'', None)),
     ce_CreateMarketOrder = (\<lambda>_. (''oid'', None)), ce_SaveDecision = (\<lambda>_. None), ce_NewV7 = ''u'', ce_Now = time_zero\<rparr>"

definition ct_event :: "string \<Rightarrow> rat CTTrade" where
  "ct_event side = \<lparr>cte_TraderID = ''trader'', cte_OrderBookID = ''book'', cte_AssetID = ''bond'', cte_Side = side,
     cte_Quantity = 3, cte_Price = 50, cte_Timestamp = time_zero, cte_ExecutionID = ''x''\<rparr>"

definition ct_strat :: "rat CTStrategy" where
  "ct_strat = CT_New ct_cfg0 True True False 0"

lemma ct_sample_order:
  "list_all (\<lambda>f. case f of EOrder req _ \<Rightarrow> oreq_Quantity req = 10 \<and> oreq_Side req = SIDE_BUY | _ \<Rightarrow> False)
     (snd (snd (handleTrade rat_ops (ct_env [ct_account]) (ct_event ''Buy'') ct_strat))) \<and>
   snd (snd (handleTrade rat_ops (ct_env [ct_account]) (ct_event ''Buy'') ct_strat)) \<noteq> []"
  by code_simp

theorem copy_order_rule_witness:
  "\<exists>req resp. EOrder req resp \<in> set (snd (snd (handleTrade rat_ops (ct_env [ct_account]) (ct_event ''Buy'') ct_strat))) \<and>
     oreq_Quantity req = calculateOrderSize rat_ops 20 (1 / 2) 1 0 0"
proof -
  obtain s' err eff where h: "handleTrade rat_ops (ct_env [ct_account]) (ct_event ''Buy'') ct_strat = (s', err, eff)"
    by (rule prod_cases3)
  obtain f fs where "eff = f # fs" using ct_sample_order h by (cases eff) auto
  moreover then obtain req resp where "f = EOrder req resp" "oreq_Side req = SIDE_BUY"
    using ct_sample_order h by (cases f) auto
  ultimately have o: "EOrder req resp \<in> set eff" and sd: "oreq_Side req = SIDE_BUY" by simp_all
  let ?a = "\<lparr>ac_IsGlobal = False, ac_Available = replicate 10 CHR ''1'', ac_Borrowed = []\<rparr>"
  have e: "\<And>k. mset (ce_iter (ct_env [ct_account]) k [ct_account]) = mset [ct_account]"
    "ce_GetPortfolioV2 (ct_env [ct_account]) = (Some [ct_account], None)" "ct_account \<in> set [ct_account]"
    "ct_account (cte_AssetID (ct_event ''Buy'')) = Some ?a" "\<not> ac_IsGlobal ?a"
    "\<And>m'. m' \<in> set [ct_account] \<Longrightarrow> isolated (cte_AssetID (ct_event ''Buy'')) m' \<Longrightarrow> m' = ct_account"
    "d_parse rat_ops (ac_Available ?a) = (10, None)" "d_parse rat_ops (ac_Borrowed ?a) = (0, None)" "snd (d_sub rat_ops 10 0) = None"
    by (simp_all add: ct_env_def ct_account_def ct_event_def rat_ops_def)
  have "(case ct_account (fst (ce_QuoteAssetID (ct_env [ct_account]) (cte_OrderBookID (ct_event ''Buy'')))) of
      None \<Rightarrow> d_zero rat_ops | Some c \<Rightarrow> parse_or_zero rat_ops (ac_Available c)) = 20" by code_simp
  then show ?thesis
    using copy_order_rule [OF rat_ops_laws e h o] sd o h
    by (intro exI [of _ req] exI [of _ resp]) (simp add: Let_def ct_strat_def CT_New_def ct_cfg0_def)
qed

theorem copy_needs_isolated_account_witness:
  "snd (snd (handleTrade rat_ops (ct_env [Map.empty]) (ct_event ''Buy'') ct_strat)) = []"
proof -
  have "\<And>k. mset (ce_iter (ct_env [Map.empty]) k [Map.empty]) = mset [Map.empty]"
    "fst (ce_GetPortfolioV2 (ct_env [Map.empty])) = Some [Map.empty]"
    "\<forall>m\<in>set [Map.empty]. \<not> isolated (cte_AssetID (ct_event ''Buy'')) m" "int64_ok (cf_MaxOrderSize (ct_cfg ct_strat))"
    by (simp_all add: ct_env_def isolated_def ct_strat_def CT_New_def ct_cfg0_def int64_ok_def)
  from copy_needs_isolated_account [OF rat_ops_laws this] show ?thesis by blast
qed

theorem copy_live_run_witness:
  "\<exists>s trader l. CT_Run ''r'' ct_strat = (s, Inr (trader, l)) \<and> trader = ''trader'' \<and>
     order_qtys (snd (run_events (ct_step rat_ops)
       ([CTTradeEvent (ct_env [ct_account]) (ct_event ''Buy'')] @ CTMsg (Some Pause) # [CTTradeEvent (ct_env [ct_account]) (ct_event ''Buy'')]) l)) =
     order_qtys (snd (run_events (ct_step rat_ops) [CTTradeEvent (ct_env [ct_account]) (ct_event ''Buy'')] l))"
proof -
  obtain s trader l where r: "CT_Run ''r'' ct_strat = (s, Inr (trader, l))"
    by (simp add: CT_Run_def ct_strat_def CT_New_def Let_def)
  have t: "trader = ''trader''" using r by (simp add: CT_Run_def ct_strat_def CT_New_def ct_cfg0_def Let_def)
  have "\<forall>e\<in>set [CTTradeEvent (ct_env [ct_account]) (ct_event ''Buy'')]. \<not> ct_wakes e" by (simp add: ct_wakes_def)
  note c = copy_live_run [OF r surjective_pairing this surjective_pairing]
  show ?thesis
    by (rule exI [of _ s], rule exI [of _ trader], rule exI [of _ l])
      (rule conjI [OF r conjI [OF t conjunct2 [OF conjunct2 [OF conjunct2 [OF conjunct2 [OF c]]]]]])
qed

end
