(* ===== verification/Notify_Bus.thy ===== *)
theory Notify_Bus
  imports Decision_Model "HOL-Library.List_Lexorder" "HOL-Library.Char_ord"
begin

text \<open>
  Notifications: the events, the hub that fans them out to the subscriptions of a user
  (\<open>src/notifications/hub.go\<close>), the bus with its log (\<open>notifier.go\<close>, \<open>log.go\<close>), the session of a
  websocket client (\<open>handler.go\<close>), and \<open>publishEvent\<close> of \<open>src/strategy/http/notify.go\<close>.

  \<^item> A subscription is a number; its channel is a bounded queue. A send to a full channel drops the event.
  \<^item> The rows of \<open>notification_log\<close> are a list of events with the primary key on the identifier. Identifiers
    are canonical UUIDs, whose order is the order of their text. The column \<open>created_at\<close> keeps microseconds, so a
    replayed event carries the truncated time (\<open>stored_time\<close>). \<open>ok\<close> tells whether the database answers.
  \<^item> \<open>parse\<close> is \<open>uuid.Parse\<close> followed by \<open>String\<close>, \<open>None\<close> on an error.
\<close>

section \<open>Events\<close>

text \<open>What the code distinguishes in a decoded JSON value.\<close>

datatype jval = JvString string | JvMap "(string \<times> jval) list" | JvOther

datatype EventType =
    EventBacktestStarted
  | EventBacktestCompleted
  | EventBacktestFailed
  | EventRunStarted
  | EventRunPaused
  | EventRunResumed
  | EventRunStopped
  | EventRunCompleted
  | EventRunFailed
  | EventRunStopLoss
  | EventOrderUpdate

definition EventType_string :: "EventType \<Rightarrow> string" where
  "EventType_string t =
     (case t of
        EventBacktestStarted \<Rightarrow> ''backtest.started''
      | EventBacktestCompleted \<Rightarrow> ''backtest.completed''
      | EventBacktestFailed \<Rightarrow> ''backtest.failed''
      | EventRunStarted \<Rightarrow> ''run.started''
      | EventRunPaused \<Rightarrow> ''run.paused''
      | EventRunResumed \<Rightarrow> ''run.resumed''
      | EventRunStopped \<Rightarrow> ''run.stopped''
      | EventRunCompleted \<Rightarrow> ''run.completed''
      | EventRunFailed \<Rightarrow> ''run.failed''
      | EventRunStopLoss \<Rightarrow> ''run.stop_loss''
      | EventOrderUpdate \<Rightarrow> ''dora.order_update'')"

record Event =
  ev_ID :: string
  ev_Type :: EventType
  ev_UserID :: string
  ev_RunID :: string
  ev_BacktestID :: string
  ev_Timestamp :: gtime
  ev_Payload :: "(string \<times> jval) list"

section \<open>Hub\<close>

record hub_sub =
  hs_user :: string
  hs_queue :: "Event list"
  hs_closed :: bool

record Hub =
  hub_buffer :: nat
  hub_users :: "string \<Rightarrow> nat list"
  hub_subs :: "nat \<Rightarrow> hub_sub option"
  hub_closed :: bool
  hub_next :: nat

definition NewHub :: "nat \<Rightarrow> Hub" where
  "NewHub buffer = \<lparr>hub_buffer = buffer, hub_users = (\<lambda>_. []), hub_subs = Map.empty, hub_closed = False, hub_next = 0\<rparr>"

definition errHubClosed :: gerror where
  "errHubClosed = ''notifications: hub is closed''"

definition hub_Subscribe :: "string \<Rightarrow> Hub \<Rightarrow> Hub \<times> nat res" where
  "hub_Subscribe user h =
     (if hub_closed h then (h, Inl errHubClosed)
      else let n = hub_next h in
        (h\<lparr>hub_users := (hub_users h)(user := hub_users h user @ [n]),
           hub_subs := (hub_subs h)(n \<mapsto> \<lparr>hs_user = user, hs_queue = [], hs_closed = False\<rparr>), hub_next := n + 1\<rparr>, Inr n))"

definition hub_deliver :: "Event \<Rightarrow> nat \<Rightarrow> Hub \<Rightarrow> Hub" where
  "hub_deliver evt n h =
     (case hub_subs h n of
        None \<Rightarrow> h
      | Some s \<Rightarrow>
          if length (hs_queue s) < hub_buffer h
          then h\<lparr>hub_subs := (hub_subs h)(n \<mapsto> s\<lparr>hs_queue := hs_queue s @ [evt]\<rparr>)\<rparr> else h)"

definition Broadcast :: "Event \<Rightarrow> Hub \<Rightarrow> Hub" where
  "Broadcast evt h = (if hub_closed h then h else fold (hub_deliver evt) (hub_users h (ev_UserID evt)) h)"

definition hub_Close :: "Hub \<Rightarrow> Hub" where
  "hub_Close h = h\<lparr>hub_closed := True\<rparr>"

definition hub_remove :: "nat \<Rightarrow> string \<Rightarrow> Hub \<Rightarrow> Hub" where
  "hub_remove n user h = h\<lparr>hub_users := (hub_users h)(user := removeAll n (hub_users h user))\<rparr>"

text \<open>\<open>Close\<close> of a subscription runs once.\<close>

definition sub_Close :: "nat \<Rightarrow> Hub \<Rightarrow> Hub" where
  "sub_Close n h =
     (case hub_subs h n of
        None \<Rightarrow> h
      | Some s \<Rightarrow>
          if hs_closed s then h
          else let h = hub_remove n (hs_user s) h in h\<lparr>hub_subs := (hub_subs h)(n \<mapsto> s\<lparr>hs_closed := True\<rparr>)\<rparr>)"

text \<open>Receiving: the event taken from the channel, \<open>None\<close> when it is empty.\<close>

definition sub_receive :: "nat \<Rightarrow> Hub \<Rightarrow> Hub \<times> Event option" where
  "sub_receive n h =
     (case hub_subs h n of
        None \<Rightarrow> (h, None)
      | Some s \<Rightarrow>
          (case hs_queue s of
             [] \<Rightarrow> (h, None)
           | e # q \<Rightarrow> (h\<lparr>hub_subs := (hub_subs h)(n \<mapsto> s\<lparr>hs_queue := q\<rparr>)\<rparr>, Some e)))"

section \<open>Log\<close>

definition stored_id :: "(string \<Rightarrow> string option) \<Rightarrow> string \<Rightarrow> string" where
  "stored_id parse i = (if i = [] then [] else case parse i of None \<Rightarrow> [] | Some v \<Rightarrow> v)"

text \<open>A \<open>timestamp\<close> column keeps whole microseconds; the driver drops the rest.\<close>

definition stored_time :: "gtime \<Rightarrow> gtime" where
  "stored_time t = (let u = time_UTC t in u\<lparr>t_ns := t_ns u - t_ns u mod 1000\<rparr>)"

definition log_Insert :: "bool \<Rightarrow> (string \<Rightarrow> string option) \<Rightarrow> Event \<Rightarrow> Event list \<Rightarrow> Event list res" where
  "log_Insert ok parse evt rows =
     (case parse (ev_ID evt) of
        None \<Rightarrow> Inl ''notifications: invalid event id''
      | Some i \<Rightarrow>
          if \<not> ok \<or> i \<in> ev_ID ` set rows then Inl ''notifications: insert log''
          else Inr (rows @ [evt\<lparr>ev_ID := i, ev_RunID := stored_id parse (ev_RunID evt),
            ev_BacktestID := stored_id parse (ev_BacktestID evt), ev_Timestamp := stored_time (ev_Timestamp evt)\<rparr>]))"

definition log_Replay :: "bool \<Rightarrow> (string \<Rightarrow> string option) \<Rightarrow> string \<Rightarrow> string \<Rightarrow> int \<Rightarrow> Event list \<Rightarrow> Event list res" where
  "log_Replay ok parse user afterID limit rows =
     (let limit = (if limit \<le> 0 \<or> limit > 1000 then 1000 else limit) in
      rbind (if afterID = [] then Inr None
             else case parse afterID of None \<Rightarrow> Inl ''notifications: invalid Last-Event-ID'' | Some v \<Rightarrow> Inr (Some v)) (\<lambda>after.
      if \<not> ok then Inl ''notifications: replay log''
      else Inr (take (nat limit) (sort_key ev_ID (filter (\<lambda>e. ev_UserID e = user \<and>
             (case after of None \<Rightarrow> True | Some v \<Rightarrow> v < ev_ID e)) rows)))))"

text \<open>\<open>created_at < now() - age\<close>\<close>

definition log_DeleteOlderThan :: "bool \<Rightarrow> gtime \<Rightarrow> int \<Rightarrow> Event list \<Rightarrow> (Event list \<times> int) res" where
  "log_DeleteOlderThan ok now age rows =
     (if \<not> ok then Inl ''notifications: delete old log''
      else let kept = filter (\<lambda>e. \<not> time_Before (ev_Timestamp e) (time_Add now (- age))) rows
           in Inr (kept, int (length rows) - int (length kept)))"

section \<open>Bus\<close>

record Bus =
  bus_log :: "Event list"
  bus_hub :: Hub
  bus_replay :: "string \<Rightarrow> Event list"
  bus_replayN :: nat

definition last_k :: "nat \<Rightarrow> 'a list \<Rightarrow> 'a list" where
  "last_k n xs = drop (length xs - n) xs"

definition cacheForReplay :: "Event \<Rightarrow> Bus \<Rightarrow> Bus" where
  "cacheForReplay evt b =
     (let ring = bus_replay b (ev_UserID evt) @ [evt];
          ring = (if length ring > bus_replayN b then last_k (bus_replayN b) ring else ring)
      in b\<lparr>bus_replay := (bus_replay b)(ev_UserID evt := ring)\<rparr>)"

definition Publish :: "bool \<Rightarrow> (string \<Rightarrow> string option) \<Rightarrow> Event \<Rightarrow> Bus \<Rightarrow> Bus" where
  "Publish ok parse evt b =
     (let b = (case log_Insert ok parse evt (bus_log b) of Inl _ \<Rightarrow> b | Inr rows \<Rightarrow> b\<lparr>bus_log := rows\<rparr>);
          b = cacheForReplay evt b
      in b\<lparr>bus_hub := Broadcast evt (bus_hub b)\<rparr>)"

definition bus_Subscribe :: "string \<Rightarrow> Bus \<Rightarrow> Bus \<times> nat res" where
  "bus_Subscribe user b = (case hub_Subscribe user (bus_hub b) of (h, r) \<Rightarrow> (b\<lparr>bus_hub := h\<rparr>, r))"

text \<open>The handler's \<open>publishEvent\<close>: no notifier or no user, no event; a missing identifier is filled in.\<close>

definition publishEvent :: "bool \<Rightarrow> (string \<Rightarrow> string option) \<Rightarrow> string \<Rightarrow> Event \<Rightarrow> Bus option \<Rightarrow> Bus option" where
  "publishEvent ok parse fresh evt notifier =
     (case notifier of
        None \<Rightarrow> None
      | Some b \<Rightarrow>
          if ev_UserID evt = [] then Some b
          else Some (Publish ok parse (if ev_ID evt = [] then evt\<lparr>ev_ID := fresh\<rparr> else evt) b))"

section \<open>Sessions\<close>

definition replayLimit :: int where
  "replayLimit = 1000"

definition trim_spaces :: "string \<Rightarrow> string" where
  "trim_spaces s = (let f = dropWhile (\<lambda>c. c \<in> {CHR '' '', CHR 0x09, CHR 0x0A, CHR 0x0B, CHR 0x0C, CHR 0x0D}) in List.rev (f (List.rev (f s))))"

fun split_commas :: "string \<Rightarrow> string list" where
  "split_commas [] = [[]]"
| "split_commas (c # cs) =
     (if c = CHR '','' then [] # split_commas cs
      else case split_commas cs of [] \<Rightarrow> [[c]] | w # ws \<Rightarrow> (c # w) # ws)"

definition typeAllowed_WS :: "string \<Rightarrow> EventType \<Rightarrow> bool" where
  "typeAllowed_WS wanted t \<longleftrightarrow> wanted = [] \<or> (\<exists>w\<in>set (split_commas wanted). trim_spaces w = EventType_string t)"

text \<open>What a session writes first: the history after the identifier its client names.\<close>

definition session_history :: "bool \<Rightarrow> (string \<Rightarrow> string option) \<Rightarrow> string \<Rightarrow> string \<Rightarrow> Bus \<Rightarrow> Event list" where
  "session_history ok parse user lastID b =
     (if lastID = [] then []
      else case log_Replay ok parse user lastID replayLimit (bus_log b) of Inl _ \<Rightarrow> [] | Inr history \<Rightarrow> history)"

text \<open>One turn of its loop: the bus after a receive and the event written, if any.\<close>

definition session_step :: "string \<Rightarrow> nat \<Rightarrow> Bus \<Rightarrow> Bus \<times> Event list" where
  "session_step types n b =
     (case sub_receive n (bus_hub b) of
        (h, None) \<Rightarrow> (b\<lparr>bus_hub := h\<rparr>, [])
      | (h, Some e) \<Rightarrow> (b\<lparr>bus_hub := h\<rparr>, if typeAllowed_WS types (ev_Type e) then [e] else []))"

fun session_live :: "string \<Rightarrow> nat \<Rightarrow> nat \<Rightarrow> Bus \<Rightarrow> Bus \<times> Event list" where
  "session_live types n 0 b = (b, [])"
| "session_live types n (Suc k) b =
     (case session_step types n b of (b, out) \<Rightarrow> (case session_live types n k b of (b, outs) \<Rightarrow> (b, out @ outs)))"

definition publish_all :: "(string \<Rightarrow> string option) \<Rightarrow> Event list \<Rightarrow> Bus \<Rightarrow> Bus" where
  "publish_all parse evts b = fold (Publish True parse) evts b"

section \<open>Lemmas\<close>

definition storable_event :: "(string \<Rightarrow> string option) \<Rightarrow> Event \<Rightarrow> bool" where
  "storable_event parse e \<longleftrightarrow> parse (ev_ID e) = Some (ev_ID e) \<and> stored_id parse (ev_RunID e) = ev_RunID e \<and>
     stored_id parse (ev_BacktestID e) = ev_BacktestID e"

text \<open>What a replay gives back of an event.\<close>

definition as_stored :: "Event \<Rightarrow> Event" where
  "as_stored e = e\<lparr>ev_Timestamp := stored_time (ev_Timestamp e)\<rparr>"

lemma as_stored_simps [simp]: "ev_ID (as_stored e) = ev_ID e" "ev_UserID (as_stored e) = ev_UserID e"
  by (simp_all add: as_stored_def)

definition of_user :: "string \<Rightarrow> Event list \<Rightarrow> Event list" where
  "of_user user es = filter (\<lambda>e. ev_UserID e = user) es"

lemma of_user_simps [simp]:
  "of_user u [] = []" "of_user u (e # es) = (if ev_UserID e = u then e # of_user u es else of_user u es)"
  "of_user u (es @ fs) = of_user u es @ of_user u fs"
  by (simp_all add: of_user_def)

lemma Publish_log:
  "bus_log (Publish True parse e b) =
     (if storable_event parse e \<and> ev_ID e \<notin> ev_ID ` set (bus_log b) then bus_log b @ [as_stored e] else bus_log (Publish True parse e b))"
  by (auto simp: Publish_def Let_def cacheForReplay_def log_Insert_def storable_event_def as_stored_def)

lemma publish_all_log:
  "\<forall>e\<in>set es. storable_event parse e \<Longrightarrow> distinct (map ev_ID (bus_log b @ es)) \<Longrightarrow>
     bus_log (publish_all parse es b) = bus_log b @ map as_stored es"
proof (induction es arbitrary: b)
  case (Cons e es)
  have "bus_log (Publish True parse e b) = bus_log b @ [as_stored e]"
    using Cons.prems by (subst Publish_log) auto
  then show ?case using Cons.IH [of "Publish True parse e b"] Cons.prems by (simp add: publish_all_def)
qed (simp add: publish_all_def)

text \<open>The queue of one subscription, and the others untouched.\<close>

definition hub_queue :: "nat \<Rightarrow> Hub \<Rightarrow> Event list" where
  "hub_queue n h = (case hub_subs h n of None \<Rightarrow> [] | Some s \<Rightarrow> hs_queue s)"

lemma deliver_frame [simp]:
  "hub_users (hub_deliver e m h) = hub_users h" "hub_buffer (hub_deliver e m h) = hub_buffer h"
  "hub_closed (hub_deliver e m h) = hub_closed h" "hub_next (hub_deliver e m h) = hub_next h"
  "(hub_subs (hub_deliver e m h) n = None) = (hub_subs h n = None)"
  by (auto simp: hub_deliver_def split: option.splits)

lemma deliver_all_frame [simp]:
  "hub_users (fold (hub_deliver e) ms h) = hub_users h" "hub_buffer (fold (hub_deliver e) ms h) = hub_buffer h"
  "hub_closed (fold (hub_deliver e) ms h) = hub_closed h" "hub_next (fold (hub_deliver e) ms h) = hub_next h"
  "(hub_subs (fold (hub_deliver e) ms h) n = None) = (hub_subs h n = None)"
  by (induction ms arbitrary: h) simp_all

lemma deliver_queue:
  "hub_queue n (hub_deliver e m h) =
     (if m = n \<and> hub_subs h n \<noteq> None \<and> length (hub_queue n h) < hub_buffer h then hub_queue n h @ [e] else hub_queue n h)"
  by (auto simp: hub_deliver_def hub_queue_def split: option.splits)

lemma deliver_all_queue:
  "distinct ms \<Longrightarrow> hub_queue n (fold (hub_deliver e) ms h) =
     (if n \<in> set ms \<and> hub_subs h n \<noteq> None \<and> length (hub_queue n h) < hub_buffer h then hub_queue n h @ [e] else hub_queue n h)"
  by (induction ms arbitrary: h) (auto simp: deliver_queue simp del: not_None_eq)

lemma Publish_hub [simp]: "bus_hub (Publish ok parse e b) = Broadcast e (bus_hub b)"
  by (auto simp: Publish_def Let_def cacheForReplay_def split: sum.splits)

text \<open>A subscription is listed once, under its user only.\<close>

definition listed :: "nat \<Rightarrow> string \<Rightarrow> Hub \<Rightarrow> bool" where
  "listed n user h \<longleftrightarrow> hub_subs h n \<noteq> None \<and> \<not> hub_closed h \<and> (\<forall>u. distinct (hub_users h u)) \<and> (\<forall>u. n \<in> set (hub_users h u) \<longleftrightarrow> u = user)"

lemma Broadcast_listed: "listed n user h \<Longrightarrow> listed n user (Broadcast e h)"
  by (simp add: listed_def Broadcast_def)

lemma Broadcast_buffer [simp]: "hub_buffer (Broadcast e h) = hub_buffer h"
  by (simp add: Broadcast_def)

lemma Broadcast_queue:
  "listed n user h \<Longrightarrow> hub_queue n (Broadcast e h) =
     (if ev_UserID e = user \<and> length (hub_queue n h) < hub_buffer h then hub_queue n h @ [e] else hub_queue n h)"
  by (auto simp: Broadcast_def listed_def deliver_all_queue)

text \<open>A queue that nobody reads keeps the first events that fit.\<close>

lemma publish_all_queue:
  "listed n user (bus_hub b) \<Longrightarrow> length (hub_queue n (bus_hub b)) \<le> hub_buffer (bus_hub b) \<Longrightarrow>
     listed n user (bus_hub (publish_all parse es b)) \<and>
     hub_queue n (bus_hub (publish_all parse es b)) = take (hub_buffer (bus_hub b)) (hub_queue n (bus_hub b) @ of_user user es)"
proof (induction es arbitrary: b)
  case (Cons e es)
  let ?b = "Publish True parse e b" and ?k = "hub_buffer (bus_hub b)"
  have q: "hub_queue n (bus_hub ?b) =
      (if ev_UserID e = user \<and> length (hub_queue n (bus_hub b)) < ?k then hub_queue n (bus_hub b) @ [e] else hub_queue n (bus_hub b))"
    using Broadcast_queue [OF Cons.prems(1)] by simp
  have IH: "listed n user (bus_hub (publish_all parse es ?b)) \<and>
      hub_queue n (bus_hub (publish_all parse es ?b)) = take ?k (hub_queue n (bus_hub ?b) @ of_user user es)"
    using Cons.IH [of ?b] Cons.prems Broadcast_listed [OF Cons.prems(1)] q by (simp split: if_splits)
  have "publish_all parse (e # es) b = publish_all parse es ?b" by (simp add: publish_all_def)
  then show ?case using IH Cons.prems(2) unfolding q by (auto simp: not_less take_Cons' Suc_diff_Suc)
qed (simp add: publish_all_def)

lemma hub_Subscribe_listed:
  assumes "hub_Subscribe user h = (h', Inr n)" "\<And>u. distinct (hub_users h u)" "\<And>u. \<forall>m\<in>set (hub_users h u). m < hub_next h"
  shows "listed n user h' \<and> hub_queue n h' = [] \<and> hub_buffer h' = hub_buffer h"
proof -
  have h: "\<not> hub_closed h" "n = hub_next h" "h' = h\<lparr>hub_users := (hub_users h)(user := hub_users h user @ [n]),
      hub_subs := (hub_subs h)(n \<mapsto> \<lparr>hs_user = user, hs_queue = [], hs_closed = False\<rparr>), hub_next := n + 1\<rparr>"
    using assms(1) by (auto simp: hub_Subscribe_def Let_def split: if_splits)
  have "\<And>u. n \<notin> set (hub_users h u)" using assms(3) h(2) by fastforce
  then show ?thesis using h assms(2) by (simp add: listed_def hub_queue_def)
qed

lemma session_live_all:
  assumes "hub_subs (bus_hub b) n \<noteq> None"
  shows "snd (session_live types n (length (hub_queue n (bus_hub b))) b) =
    filter (\<lambda>e. typeAllowed_WS types (ev_Type e)) (hub_queue n (bus_hub b))"
  using assms
proof (induction "length (hub_queue n (bus_hub b))" arbitrary: b)
  case (Suc k)
  then obtain s where s0: "hub_subs (bus_hub b) n = Some s" by blast
  then obtain e q where s: "hub_subs (bus_hub b) n = Some s" "hs_queue s = e # q" "length q = k"
    using Suc.hyps(2) by (cases "hs_queue s") (auto simp: hub_queue_def)
  let ?b = "b\<lparr>bus_hub := (bus_hub b)\<lparr>hub_subs := (hub_subs (bus_hub b))(n \<mapsto> s\<lparr>hs_queue := q\<rparr>)\<rparr>\<rparr>"
  have "session_step types n b = (?b, if typeAllowed_WS types (ev_Type e) then [e] else [])"
    using s by (simp add: session_step_def sub_receive_def)
  moreover have "hub_queue n (bus_hub ?b) = q" using s by (simp add: hub_queue_def)
  ultimately show ?case using Suc.hyps(1) [of ?b] s Suc.hyps(2) by (simp add: hub_queue_def split_beta)
qed simp

lemma sort_key_strict: "sorted_wrt (<) (map f xs) \<Longrightarrow> sort_key f xs = xs"
  for f :: "'a \<Rightarrow> 'b::linorder"
  by (simp add: sorted_sort_id strict_sorted_imp_sorted sort_key_id_if_sorted)

section \<open>What a client receives\<close>

text \<open>C30: What a client that reconnects with the last event it saw receives, while the database answers and the identifiers
  increase in the order of publication. Let \<open>gone\<close> be what was published until it subscribed again, \<open>race\<close> what
  came between its subscription and the query of the history, and \<open>live\<close> what came before it reads on. It receives the
  first thousand events of its user of \<open>gone\<close> and \<open>race\<close>, with their times cut to microseconds and whatever its filter of
  types, and then those of \<open>race\<close> and \<open>live\<close> that its filter allows, of the first that fit the buffer; the hub drops the
  others. So within both limits it misses none, sees those of \<open>race\<close> twice, and beyond them has a gap.\<close>

theorem reconnect_complete:
  assumes ids: "sorted_wrt (<) (map ev_ID (bus_log b @ gone @ race @ live))" "lastID = ev_ID (last (bus_log b))" "bus_log b \<noteq> []"
    and parse: "\<forall>e\<in>set (gone @ race @ live). storable_event parse e" "lastID \<noteq> []" "parse lastID = Some lastID"
    and sub: "bus_Subscribe user (publish_all parse gone b) = (b1, Inr n)"
    and hub: "\<forall>u. distinct (hub_users (bus_hub b) u) \<and> (\<forall>m\<in>set (hub_users (bus_hub b) u). m < hub_next (bus_hub b))"
    and b2: "b2 = publish_all parse race b1" and b3: "b3 = publish_all parse live b2"
  shows "session_history True parse user lastID b2 @ snd (session_live types n (length (hub_queue n (bus_hub b3))) b3) =
    map as_stored (take 1000 (of_user user (gone @ race))) @
    filter (\<lambda>e. typeAllowed_WS types (ev_Type e)) (take (hub_buffer (bus_hub b)) (of_user user (race @ live)))"
proof -
  have frame: "hub_users (bus_hub (publish_all parse es c)) = hub_users (bus_hub c) \<and> hub_next (bus_hub (publish_all parse es c)) = hub_next (bus_hub c) \<and>
      hub_buffer (bus_hub (publish_all parse es c)) = hub_buffer (bus_hub c)" for es c
    by (induction es arbitrary: c) (simp_all add: publish_all_def Broadcast_def)
  let ?b0 = "publish_all parse gone b"
  have dist: "distinct (map ev_ID (bus_log b @ gone @ race @ live))" using ids(1) by (simp only: strict_sorted_iff)
  have "distinct (map ev_ID (bus_log b @ gone))" using dist by auto
  then have l0: "bus_log ?b0 = bus_log b @ map as_stored gone" using publish_all_log [of gone parse b] parse by simp
  have s: "hub_Subscribe user (bus_hub ?b0) = (bus_hub b1, Inr n)" "bus_log b1 = bus_log ?b0"
    using sub by (auto simp: bus_Subscribe_def split: prod.splits)
  have ids_kept: "map ev_ID (map as_stored es) = map ev_ID es" for es by simp
  have "distinct (map ev_ID (bus_log b1 @ race))" using dist unfolding s(2) l0 map_append ids_kept by auto
  then have l2: "bus_log b2 = bus_log b @ map as_stored (gone @ race)" unfolding b2 using publish_all_log [of race parse b1] parse s(2) l0 by simp
  have li: "listed n user (bus_hub b1)" "hub_queue n (bus_hub b1) = []" "hub_buffer (bus_hub b1) = hub_buffer (bus_hub b)"
    using hub_Subscribe_listed [OF s(1)] hub frame [of gone b] by simp_all
  have q: "publish_all parse live b2 = publish_all parse (race @ live) b1" by (simp add: publish_all_def b2)
  have q3: "listed n user (bus_hub b3) \<and> hub_queue n (bus_hub b3) =
      take (hub_buffer (bus_hub b)) (of_user user (race @ live))"
    unfolding b3 q using publish_all_queue [OF li(1), of parse "race @ live"] li(2,3) by simp
  then have live: "snd (session_live types n (length (hub_queue n (bus_hub b3))) b3) =
      filter (\<lambda>e. typeAllowed_WS types (ev_Type e)) (take (hub_buffer (bus_hub b)) (of_user user (race @ live)))"
    using session_live_all [of b3 n types] by (simp add: listed_def)
  have ord: "\<forall>e\<in>set (bus_log b). \<not> lastID < ev_ID e" "\<forall>e\<in>set (gone @ race). lastID < ev_ID e"
  proof -
    obtain xs x where x: "bus_log b = xs @ [x]" using ids(3) by (metis append_butlast_last_id)
    then show "\<forall>e\<in>set (bus_log b). \<not> lastID < ev_ID e" using ids(1,2) by (auto simp: sorted_wrt_append dest: less_asym)
    show "\<forall>e\<in>set (gone @ race). lastID < ev_ID e" using x ids(1,2) by (auto simp: sorted_wrt_append)
  qed
  let ?p = "\<lambda>e. ev_UserID e = user \<and> lastID < ev_ID e"
  have "filter ?p (bus_log b2) = map as_stored (of_user user (gone @ race))"
  proof -
    have "filter ?p (map as_stored (gone @ race)) = map as_stored (filter ?p (gone @ race))" by (simp add: filter_map comp_def)
    moreover have "filter ?p (gone @ race) = filter (\<lambda>e. ev_UserID e = user) (gone @ race)"
      using ord(2) by (intro filter_cong) auto
    moreover have "filter ?p (bus_log b) = []" using ord(1) by (simp add: filter_empty_conv)
    ultimately show ?thesis unfolding l2 of_user_def by (simp only: filter_append append_Nil)
  qed
  moreover have "sorted_wrt (<) (map ev_ID (map as_stored (of_user user (gone @ race))))"
    unfolding of_user_def ids_kept using ids(1) by (simp add: sorted_wrt_append sorted_wrt_map sorted_wrt_filter)
  ultimately have "sort_key ev_ID (filter ?p (bus_log b2)) = map as_stored (of_user user (gone @ race))"
    using sort_key_strict [of ev_ID] by metis
  then have "session_history True parse user lastID b2 = map as_stored (take 1000 (of_user user (gone @ race)))"
    using parse(2,3) by (simp add: session_history_def log_Replay_def replayLimit_def take_map)
  then show ?thesis using live by simp
qed

text \<open>Every subscription only ever receives events of its own user.\<close>

definition hub_ok :: "Hub \<Rightarrow> bool" where
  "hub_ok h \<longleftrightarrow> (\<forall>n s. hub_subs h n = Some s \<longrightarrow> (\<forall>e\<in>set (hs_queue s). ev_UserID e = hs_user s)) \<and>
     (\<forall>u. \<forall>n\<in>set (hub_users h u). \<exists>s. hub_subs h n = Some s \<and> hs_user s = u)"

lemma deliver_ok:
  assumes "hub_ok h" "\<forall>s. hub_subs h n = Some s \<longrightarrow> hs_user s = ev_UserID e"
  shows "hub_ok (hub_deliver e n h)"
proof (cases "hub_subs h n")
  case (Some s)
  then have s: "\<forall>e'\<in>set (hs_queue s). ev_UserID e' = hs_user s" "hs_user s = ev_UserID e" using assms by (auto simp: hub_ok_def)
  have "\<And>u. n \<in> set (hub_users h u) \<Longrightarrow> ev_UserID e = u" using assms(1) Some s(2) by (fastforce simp: hub_ok_def)
  then show ?thesis using assms(1) s Some by (auto simp: hub_ok_def hub_deliver_def)
qed (use assms(1) in \<open>simp add: hub_deliver_def\<close>)

lemma deliver_user: "\<forall>s. hub_subs h n = Some s \<longrightarrow> hs_user s = u \<Longrightarrow> \<forall>s. hub_subs (hub_deliver e m h) n = Some s \<longrightarrow> hs_user s = u"
  by (auto simp: hub_deliver_def split: option.splits)

lemma deliver_all_ok:
  "hub_ok h \<Longrightarrow> \<forall>n\<in>set ns. \<forall>s. hub_subs h n = Some s \<longrightarrow> hs_user s = ev_UserID e \<Longrightarrow> hub_ok (fold (hub_deliver e) ns h)"
proof (induction ns arbitrary: h)
  case (Cons m ns)
  have "\<forall>n\<in>set ns. \<forall>s. hub_subs (hub_deliver e m h) n = Some s \<longrightarrow> hs_user s = ev_UserID e"
    by (intro ballI deliver_user) (use Cons.prems(2) in auto)
  then show ?case using Cons.IH deliver_ok Cons.prems by simp
qed simp

lemma Broadcast_ok:
  assumes "hub_ok h"
  shows "hub_ok (Broadcast e h)"
proof -
  have "\<forall>n\<in>set (hub_users h (ev_UserID e)). \<forall>s. hub_subs h n = Some s \<longrightarrow> hs_user s = ev_UserID e"
    using assms by (fastforce simp: hub_ok_def)
  then show ?thesis using assms deliver_all_ok by (simp add: Broadcast_def)
qed

text \<open>Everything that happens to the hub.\<close>

datatype hub_op = HubSubscribe string | HubBroadcast Event | HubUnsubscribe nat | HubReceive nat | HubClose

fun hub_step :: "hub_op \<Rightarrow> Hub \<Rightarrow> Hub \<times> (nat \<times> Event) list" where
  "hub_step (HubSubscribe user) h = (fst (hub_Subscribe user h), [])"
| "hub_step (HubBroadcast e) h = (Broadcast e h, [])"
| "hub_step (HubUnsubscribe n) h = (sub_Close n h, [])"
| "hub_step (HubReceive n) h = (case sub_receive n h of (h', e) \<Rightarrow> (h', case e of None \<Rightarrow> [] | Some e \<Rightarrow> [(n, e)]))"
| "hub_step HubClose h = (hub_Close h, [])"

fun hub_run :: "hub_op list \<Rightarrow> Hub \<Rightarrow> Hub \<times> (nat \<times> Event) list" where
  "hub_run [] h = (h, [])"
| "hub_run (a # as) h = (case hub_step a h of (h1, out) \<Rightarrow> (case hub_run as h1 of (h2, outs) \<Rightarrow> (h2, out @ outs)))"

definition hub_fresh :: "Hub \<Rightarrow> bool" where
  "hub_fresh h \<longleftrightarrow> (\<forall>n. hub_next h \<le> n \<longrightarrow> hub_subs h n = None)"

lemma deliver_sub:
  "hub_subs h n = Some s \<Longrightarrow> \<exists>s'. hub_subs (hub_deliver e m h) n = Some s' \<and> hs_user s' = hs_user s"
  by (auto simp: hub_deliver_def split: option.splits)

lemma deliver_all_sub:
  "hub_subs h n = Some s \<Longrightarrow> \<exists>s'. hub_subs (fold (hub_deliver e) ms h) n = Some s' \<and> hs_user s' = hs_user s"
proof (induction ms arbitrary: h s)
  case (Cons m ms)
  obtain s1 where "hub_subs (hub_deliver e m h) n = Some s1" "hs_user s1 = hs_user s" using deliver_sub [OF Cons.prems] by blast
  then show ?case using Cons.IH [of "hub_deliver e m h" s1] by simp
qed simp

lemma hub_step_users: "hub_subs h n = Some s \<Longrightarrow> hub_fresh h \<Longrightarrow> \<exists>s'. hub_subs (fst (hub_step a h)) n = Some s' \<and> hs_user s' = hs_user s"
proof (cases a)
  case (HubBroadcast e)
  then show "hub_subs h n = Some s \<Longrightarrow> ?thesis" using deliver_all_sub by (simp add: Broadcast_def)
qed (auto simp: hub_Subscribe_def sub_Close_def hub_remove_def sub_receive_def hub_Close_def hub_fresh_def Let_def
    split: option.splits list.splits)

lemma hub_step_ok:
  assumes "hub_ok h" "hub_fresh h"
  shows "hub_ok (fst (hub_step a h))" "hub_fresh (fst (hub_step a h))"
    "\<forall>(n, e)\<in>set (snd (hub_step a h)). \<exists>s. hub_subs (fst (hub_step a h)) n = Some s \<and> ev_UserID e = hs_user s"
proof -
  show "hub_ok (fst (hub_step a h))"
  proof (cases a)
    case (HubReceive n)
    show ?thesis
    proof (cases "hub_subs h n")
      case (Some s)
      then have "\<And>u. n \<in> set (hub_users h u) \<Longrightarrow> hs_user s = u" "\<forall>e\<in>set (hs_queue s). ev_UserID e = hs_user s"
        using assms(1) by (fastforce simp: hub_ok_def)+
      then show ?thesis using assms(1) HubReceive Some by (auto simp: hub_ok_def sub_receive_def split: list.splits)
    qed (use assms(1) HubReceive in \<open>simp add: sub_receive_def\<close>)
  next
    case (HubBroadcast e)
    then show ?thesis using assms(1) Broadcast_ok by simp
  next
    case (HubSubscribe user)
    have "n \<noteq> hub_next h" if "hub_subs h n = Some s" for n s using that assms(2) by (auto simp: hub_fresh_def)
    then have "n \<noteq> hub_next h" if "n \<in> set (hub_users h u)" for n u using that assms(1) by (fastforce simp: hub_ok_def)
    then show ?thesis using assms(1) HubSubscribe by (simp add: hub_ok_def hub_Subscribe_def Let_def)
  next
    case (HubUnsubscribe n)
    show ?thesis
    proof (cases "hub_subs h n")
      case (Some s)
      have u: "\<exists>t. hub_subs h m = Some t \<and> hs_user t = u" if "m \<in> set (hub_users h u)" for m u
        using that assms(1) by (auto simp: hub_ok_def)
      have "\<exists>t. ((hub_subs h)(n \<mapsto> s\<lparr>hs_closed := True\<rparr>)) m = Some t \<and> hs_user t = u" if "m \<in> set (hub_users h u)" for m u
        using u [OF that] Some by (cases "m = n") auto
      then show ?thesis using assms(1) HubUnsubscribe Some by (auto simp: hub_ok_def sub_Close_def hub_remove_def Let_def)
    qed (use assms(1) HubUnsubscribe in \<open>simp add: sub_Close_def\<close>)
  next
    case HubClose
    then show ?thesis using assms(1) by (simp add: hub_ok_def hub_Close_def)
  qed
  show "hub_fresh (fst (hub_step a h))"
    using assms(2) by (cases a) (auto simp: hub_fresh_def hub_Subscribe_def sub_Close_def hub_remove_def sub_receive_def hub_Close_def
      Broadcast_def Let_def split: option.splits list.splits)
  show "\<forall>(n, e)\<in>set (snd (hub_step a h)). \<exists>s. hub_subs (fst (hub_step a h)) n = Some s \<and> ev_UserID e = hs_user s"
    using assms(1) by (cases a) (auto simp: hub_ok_def sub_receive_def split: option.splits list.splits)
qed

lemma hub_run_users: "hub_subs h n = Some s \<Longrightarrow> hub_ok h \<Longrightarrow> hub_fresh h \<Longrightarrow> \<exists>s'. hub_subs (fst (hub_run as h)) n = Some s' \<and> hs_user s' = hs_user s"
proof (induction as arbitrary: h s)
  case (Cons a as)
  obtain s1 where "hub_subs (fst (hub_step a h)) n = Some s1" "hs_user s1 = hs_user s" using hub_step_users [OF Cons.prems(1,3)] by blast
  then show ?case using Cons.IH [of "fst (hub_step a h)" s1] hub_step_ok(1,2) [OF Cons.prems(2,3)] by (simp add: split_beta)
qed simp

lemma hub_run_isolated:
  "hub_ok h \<Longrightarrow> hub_fresh h \<Longrightarrow>
     \<forall>(n, e)\<in>set (snd (hub_run as h)). \<exists>s. hub_subs (fst (hub_run as h)) n = Some s \<and> ev_UserID e = hs_user s"
proof (induction as arbitrary: h)
  case (Cons a as)
  note ok = hub_step_ok [OF Cons.prems, of a]
  have "\<exists>s. hub_subs (fst (hub_run as (fst (hub_step a h)))) n = Some s \<and> ev_UserID e = hs_user s"
    if "(n, e) \<in> set (snd (hub_step a h))" for n e
    using that ok(3) hub_run_users [OF _ ok(1,2), of n] by fastforce
  then show ?case using Cons.IH [OF ok(1,2)] by (auto simp: split_beta)
qed simp

text \<open>C31: Whatever the hub is asked to do, and in whatever order, every event a subscription receives belongs
  to the user who subscribed.\<close>

theorem bus_isolates_users:
  "list_all (\<lambda>(n, e). case hub_subs (fst (hub_run ops (NewHub buffer))) n of None \<Rightarrow> False | Some s \<Rightarrow> ev_UserID e = hs_user s)
     (snd (hub_run ops (NewHub buffer)))"
proof -
  have "hub_ok (NewHub buffer)" "hub_fresh (NewHub buffer)" by (simp_all add: hub_ok_def hub_fresh_def NewHub_def)
  from hub_run_isolated [OF this, of ops] show ?thesis by (fastforce simp: list_all_iff)
qed

section \<open>A concrete client\<close>

definition nb_event :: "string \<Rightarrow> string \<Rightarrow> Event" where
  "nb_event i user = \<lparr>ev_ID = i, ev_Type = EventRunStarted, ev_UserID = user, ev_RunID = [], ev_BacktestID = [],
     ev_Timestamp = time_zero, ev_Payload = []\<rparr>"

definition nb_bus :: Bus where
  "nb_bus = \<lparr>bus_log = [nb_event ''a'' ''u''], bus_hub = NewHub 2, bus_replay = (\<lambda>_. []), bus_replayN = 4\<rparr>"

lemmas nb_event_defs = nb_bus_def nb_event_def storable_event_def stored_id_def as_stored_def stored_time_def time_UTC_def time_zero_def
  NewHub_def of_user_def typeAllowed_WS_def EventType_string_def trim_spaces_def

theorem reconnect_complete_witness:
  "\<exists>b1 b2 b3. bus_Subscribe ''u'' (publish_all Some [nb_event ''b'' ''u'', nb_event ''c'' ''v''] nb_bus) = (b1, Inr 0) \<and>
     b2 = publish_all Some [nb_event ''d'' ''u''] b1 \<and> b3 = publish_all Some [nb_event ''e'' ''u''] b2 \<and>
     session_history True Some ''u'' ''a'' b2 @ snd (session_live ''run.started'' 0 (length (hub_queue 0 (bus_hub b3))) b3) =
       [nb_event ''b'' ''u'', nb_event ''d'' ''u'', nb_event ''d'' ''u'', nb_event ''e'' ''u'']"
proof -
  let ?gone = "[nb_event ''b'' ''u'', nb_event ''c'' ''v'']"
  have "snd (bus_Subscribe ''u'' (publish_all Some ?gone nb_bus)) = Inr 0" by code_simp
  then obtain b1 where b1: "bus_Subscribe ''u'' (publish_all Some ?gone nb_bus) = (b1, Inr 0)" by (cases "bus_Subscribe ''u'' (publish_all Some ?gone nb_bus)") auto
  have "sorted_wrt (<) (map ev_ID (bus_log nb_bus @ ?gone @ [nb_event ''d'' ''u''] @ [nb_event ''e'' ''u'']))" by code_simp
  from reconnect_complete [OF this _ _ _ _ _ b1 _ refl refl, of "''a''" "''run.started''"]
  show ?thesis using b1 by (simp add: nb_event_defs)
qed

end
