(* ===== verification/Order_Updates.thy ===== *)
theory Order_Updates
  imports Notify_Bus
begin

text \<open>
  The order updates of the users with running strategies, \<open>src/notifications/orderupdates\<close>: the cache of
  runs (\<open>run_cache.go\<close>), the filter that routes an update to its run (\<open>filter.go\<close>), the manager that counts
  the subscriptions of a user and tears them down after a grace delay (\<open>manager.go\<close>), and the cursor and
  backoff of the stream (\<open>stream.go\<close>).

  \<^item> A subscription and a timer are numbers. The timer that \<open>scheduleGraceTeardown\<close> starts is its goroutine,
    its stop channel and its done channel; the goroutine closes the done channel its subscription holds at
    that moment.
  \<^item> Closing a closed channel panics. In \<open>EnsureSubscribed\<close> it ends the call, which releases the lock, and the
    server recovers from it (\<open>om_panics\<close> counts these); in a goroutine of a timer it ends the process
    (\<open>om_crashed\<close>).
  \<^item> The reference count is a 32-bit atomic, which the number of runs of a user does not exceed.
\<close>

section \<open>Cache of runs\<close>

type_synonym run_lookup = "string \<Rightarrow> (string \<times> string) option"
type_synonym run_cache = "string \<Rightarrow> (string \<times> string) option"

definition live_status :: "string \<Rightarrow> bool" where
  "live_status s \<longleftrightarrow> s = ''running'' \<or> s = ''paused''"

definition cache_Lookup :: "run_lookup option \<Rightarrow> string \<Rightarrow> run_cache \<Rightarrow> run_cache \<times> (string \<times> string) option" where
  "cache_Lookup fallback runID c =
     (case c runID of
        Some slot \<Rightarrow> (c, Some slot)
      | None \<Rightarrow>
          (case fallback of
             None \<Rightarrow> (c, None)
           | Some f \<Rightarrow> (case f runID of None \<Rightarrow> (c, None) | Some slot \<Rightarrow> (c(runID \<mapsto> slot), Some slot))))"

definition cache_Set :: "string \<Rightarrow> string \<Rightarrow> string \<Rightarrow> run_cache \<Rightarrow> run_cache" where
  "cache_Set runID user status c = c(runID \<mapsto> (user, status))"

definition cache_UpdateStatus :: "string \<Rightarrow> string \<Rightarrow> run_cache \<Rightarrow> run_cache" where
  "cache_UpdateStatus runID status c = (case c runID of None \<Rightarrow> c | Some (user, _) \<Rightarrow> c(runID \<mapsto> (user, status)))"

definition cache_Remove :: "string \<Rightarrow> run_cache \<Rightarrow> run_cache" where
  "cache_Remove runID c = c(runID := None)"

definition reconcile_entry :: "run_lookup \<Rightarrow> string \<times> string \<times> string \<Rightarrow> run_cache \<Rightarrow> run_cache" where
  "reconcile_entry f entry c =
     (case entry of (i, cached_user, cached_status) \<Rightarrow>
        (case f i of
           None \<Rightarrow> cache_Remove i c
         | Some (user, status) \<Rightarrow>
             if \<not> live_status status then cache_Remove i c
             else if user \<noteq> cached_user \<or> status \<noteq> cached_status then cache_Set i user status c
             else c))"

text \<open>\<open>ids\<close> is the order in which the snapshot of the cache is iterated.\<close>

definition snapshotAndReconcile :: "run_lookup option \<Rightarrow> string list \<Rightarrow> run_cache \<Rightarrow> run_cache" where
  "snapshotAndReconcile fallback ids c =
     (case fallback of
        None \<Rightarrow> c
      | Some f \<Rightarrow> fold (reconcile_entry f) (List.map_filter (\<lambda>i. map_option (\<lambda>(u, s). (i, u, s)) (c i)) ids) c)"

section \<open>Filter\<close>

text \<open>\<open>strings.SplitN(s, ".", 3)\<close>.\<close>

definition cut_dot :: "string \<Rightarrow> string \<times> string option" where
  "cut_dot s =
     (takeWhile (\<lambda>c. c \<noteq> CHR ''.'') s,
      case dropWhile (\<lambda>c. c \<noteq> CHR ''.'') s of [] \<Rightarrow> None | _ # r \<Rightarrow> Some r)"

definition SplitN3 :: "string \<Rightarrow> string list" where
  "SplitN3 s =
     (case cut_dot s of
        (a, None) \<Rightarrow> [a]
      | (a, Some r) \<Rightarrow> (case cut_dot r of (b, None) \<Rightarrow> [a, b] | (b, Some r) \<Rightarrow> [a, b, r]))"

definition string_field :: "string \<Rightarrow> (string \<times> jval) list \<Rightarrow> string option" where
  "string_field k val = (case map_of val k of Some (JvString s) \<Rightarrow> Some s | _ \<Rightarrow> None)"

text \<open>The run a client order identifier names, if its prefix is a known strategy.\<close>

definition order_run :: "(string \<Rightarrow> string option) \<Rightarrow> string list \<Rightarrow> string \<Rightarrow> string option" where
  "order_run parse known raw =
     (case SplitN3 raw of [name, run, _] \<Rightarrow> if name \<in> set known then parse run else None | _ \<Rightarrow> None)"

definition Translate ::
  "(string \<Rightarrow> string option) \<Rightarrow> string list \<Rightarrow> run_lookup option \<Rightarrow> string \<Rightarrow> gtime \<Rightarrow> (string \<times> jval) list \<Rightarrow> string \<Rightarrow>
     run_cache \<Rightarrow> run_cache \<times> Event option" where
  "Translate parse known fallback fresh now val user c =
     (case string_field ''client_order_id'' val of
        None \<Rightarrow> (c, None)
      | Some raw \<Rightarrow>
          if raw = [] then (c, None)
          else
            (case order_run parse known raw of
               None \<Rightarrow> (c, None)
             | Some runID \<Rightarrow>
                 (case cache_Lookup fallback runID c of
                    (c, None) \<Rightarrow> (c, None)
                  | (c, Some (owner, status)) \<Rightarrow>
                      if owner \<noteq> user \<or> \<not> live_status status then (c, None)
                      else (c, Some \<lparr>ev_ID = fresh, ev_Type = EventOrderUpdate, ev_UserID = user, ev_RunID = runID,
                        ev_BacktestID = [], ev_Timestamp = time_UTC now, ev_Payload = val\<rparr>))))"

text \<open>The object under \<open>Val\<close>, or the entry itself when there is none.\<close>

definition entry_value :: "(string \<times> jval) list \<Rightarrow> (string \<times> jval) list" where
  "entry_value entry = (case map_of entry ''Val'' of Some (JvMap m) \<Rightarrow> m | _ \<Rightarrow> entry)"

text \<open>A message is the list of entries it decodes to, \<open>None\<close> when it does not.\<close>

fun decodeAndFilter ::
  "(string \<Rightarrow> string option) \<Rightarrow> string list \<Rightarrow> run_lookup option \<Rightarrow> string list \<Rightarrow> gtime \<Rightarrow> (string \<times> jval) list list \<Rightarrow> string \<Rightarrow>
     run_cache \<Rightarrow> run_cache \<times> Event list" where
  "decodeAndFilter parse known fallback fresh now [] user c = (c, [])"
| "decodeAndFilter parse known fallback fresh now (entry # entries) user c =
     (case Translate parse known fallback (hd (fresh @ [[]])) now (entry_value entry) user c of
        (c, e) \<Rightarrow>
          (case decodeAndFilter parse known fallback (tl fresh) now entries user c of
             (c, evts) \<Rightarrow> (c, (case e of None \<Rightarrow> evts | Some evt \<Rightarrow> evt # evts))))"

definition decode_message ::
  "(string \<Rightarrow> string option) \<Rightarrow> string list \<Rightarrow> run_lookup option \<Rightarrow> string list \<Rightarrow> gtime \<Rightarrow> (string \<times> jval) list list option \<Rightarrow> string \<Rightarrow>
     run_cache \<Rightarrow> run_cache \<times> Event list" where
  "decode_message parse known fallback fresh now msg user c =
     (case msg of None \<Rightarrow> (c, []) | Some entries \<Rightarrow> decodeAndFilter parse known fallback fresh now entries user c)"

section \<open>Manager\<close>

text \<open>\<open>os_grace\<close> is the timer whose \<open>graceStop\<close> and \<open>graceDone\<close> the subscription holds.\<close>

record ou_sub =
  os_user :: string
  os_key :: string
  os_count :: int
  os_grace :: "nat option"
  os_cancelled :: bool
  os_reading :: bool

text \<open>Where the goroutine of a timer stands: at its select, about to take the lock, or gone.\<close>

datatype timer_pc = TmWaiting | TmFired | TmGone

record ou_timer =
  tm_user :: string
  tm_sub :: nat
  tm_pc :: timer_pc
  tm_stopped :: bool
  tm_done :: bool

record ou_mgr =
  om_subs :: "string \<Rightarrow> nat option"
  om_sub :: "nat \<Rightarrow> ou_sub option"
  om_timer :: "nat \<Rightarrow> ou_timer option"
  om_cache :: run_cache
  om_next :: nat
  om_closed :: bool
  om_crashed :: bool
  om_panics :: nat

definition NewManager :: ou_mgr where
  "NewManager = \<lparr>om_subs = Map.empty, om_sub = Map.empty, om_timer = Map.empty, om_cache = Map.empty, om_next = 0,
     om_closed = False, om_crashed = False, om_panics = 0\<rparr>"

datatype ou_result = OuOK | OuErr gerror | OuPanic

definition set_sub :: "nat \<Rightarrow> ou_sub \<Rightarrow> ou_mgr \<Rightarrow> ou_mgr" where
  "set_sub n s m = m\<lparr>om_sub := (om_sub m)(n \<mapsto> s)\<rparr>"

definition set_timer :: "nat \<Rightarrow> ou_timer \<Rightarrow> ou_mgr \<Rightarrow> ou_mgr" where
  "set_timer t tm m = m\<lparr>om_timer := (om_timer m)(t \<mapsto> tm)\<rparr>"

text \<open>\<open>close(sub.graceDone)\<close> by the goroutine of a timer, which then stands at \<open>pc\<close>.\<close>

definition close_done :: "nat \<Rightarrow> timer_pc \<Rightarrow> ou_mgr \<Rightarrow> ou_mgr" where
  "close_done t pc m =
     (case om_timer m t of
        None \<Rightarrow> m
      | Some tm \<Rightarrow>
          (case Option.bind (om_sub m (tm_sub tm)) os_grace of
             None \<Rightarrow> m
           | Some d \<Rightarrow>
               (case om_timer m d of
                  None \<Rightarrow> m
                | Some dm \<Rightarrow>
                    if tm_done dm then m\<lparr>om_crashed := True\<rparr>
                    else
                      let m = set_timer d (dm\<lparr>tm_done := True\<rparr>) m
                      in (case om_timer m t of None \<Rightarrow> m | Some tm \<Rightarrow> set_timer t (tm\<lparr>tm_pc := pc\<rparr>) m))))"

text \<open>\<open>graceStop\<close>: closes the stop channel, then waits for the goroutine unless it is past that.\<close>

definition grace_stop :: "nat \<Rightarrow> ou_mgr \<Rightarrow> ou_mgr option" where
  "grace_stop t m =
     (case om_timer m t of
        None \<Rightarrow> None
      | Some tm \<Rightarrow>
          if tm_stopped tm then None
          else
            let m = set_timer t (tm\<lparr>tm_stopped := True\<rparr>) m
            in Some (if tm_done tm then m else close_done t TmGone m))"

definition EnsureSubscribed :: "string \<Rightarrow> string \<Rightarrow> string \<Rightarrow> string \<Rightarrow> ou_mgr \<Rightarrow> ou_mgr \<times> ou_result" where
  "EnsureSubscribed user apiKey runID status m =
     (if user = [] then (m, OuErr ''orderupdates: doraUserID is required'')
      else if apiKey = [] then (m, OuErr ''orderupdates: apiKey is required'')
      else if runID = uuid_Nil then (m, OuErr ''orderupdates: runID is required'')
      else
        (case Option.bind (om_subs m user) (\<lambda>n. map_option (Pair n) (om_sub m n)) of
           Some (n, s) \<Rightarrow>
             (case (case os_grace s of None \<Rightarrow> Some m | Some t \<Rightarrow> grace_stop t m) of
                None \<Rightarrow> (m\<lparr>om_panics := om_panics m + 1\<rparr>, OuPanic)
              | Some m \<Rightarrow>
                  (let m = set_sub n (s\<lparr>os_count := os_count s + 1\<rparr>) m
                   in (m\<lparr>om_cache := cache_Set runID user status (om_cache m)\<rparr>, OuOK)))
         | None \<Rightarrow>
             (let n = om_next m;
                  m = set_sub n \<lparr>os_user = user, os_key = apiKey, os_count = 1, os_grace = None, os_cancelled = False,
                        os_reading = True\<rparr> m
              in (m\<lparr>om_subs := (om_subs m)(user \<mapsto> n), om_next := n + 1, om_cache := cache_Set runID user status (om_cache m)\<rparr>,
                  OuOK))))"

definition UpdateRunStatus :: "string \<Rightarrow> string \<Rightarrow> ou_mgr \<Rightarrow> ou_mgr" where
  "UpdateRunStatus runID status m = m\<lparr>om_cache := cache_UpdateStatus runID status (om_cache m)\<rparr>"

definition scheduleGraceTeardown :: "string \<Rightarrow> nat \<Rightarrow> ou_sub \<Rightarrow> ou_mgr \<Rightarrow> ou_mgr" where
  "scheduleGraceTeardown user n s m =
     (let t = om_next m;
          m = set_timer t \<lparr>tm_user = user, tm_sub = n, tm_pc = TmWaiting, tm_stopped = False, tm_done = False\<rparr> m
      in set_sub n (s\<lparr>os_grace := Some t\<rparr>) (m\<lparr>om_next := t + 1\<rparr>))"

definition Unsubscribe_OU :: "string \<Rightarrow> ou_mgr \<Rightarrow> ou_mgr" where
  "Unsubscribe_OU user m =
     (case Option.bind (om_subs m user) (\<lambda>n. map_option (Pair n) (om_sub m n)) of
        None \<Rightarrow> m
      | Some (n, s) \<Rightarrow>
          let s = s\<lparr>os_count := os_count s - 1\<rparr>
          in if os_count s > 0 then set_sub n s m else scheduleGraceTeardown user n s m)"

text \<open>The timer elapses and its goroutine takes that branch.\<close>

definition timer_fires :: "nat \<Rightarrow> ou_mgr \<Rightarrow> ou_mgr" where
  "timer_fires t m =
     (case om_timer m t of
        None \<Rightarrow> m
      | Some tm \<Rightarrow> if tm_pc tm = TmWaiting \<and> \<not> tm_stopped tm then close_done t TmFired m else m)"

text \<open>The goroutine sees its stop channel closed.\<close>

definition timer_stopped :: "nat \<Rightarrow> ou_mgr \<Rightarrow> ou_mgr" where
  "timer_stopped t m =
     (case om_timer m t of
        None \<Rightarrow> m
      | Some tm \<Rightarrow> if tm_pc tm = TmWaiting \<and> tm_stopped tm then close_done t TmGone m else m)"

definition cancel_sub :: "nat \<Rightarrow> ou_mgr \<Rightarrow> ou_mgr" where
  "cancel_sub n m = (case om_sub m n of None \<Rightarrow> m | Some s \<Rightarrow> set_sub n (s\<lparr>os_cancelled := True\<rparr>) m)"

text \<open>With the lock: the teardown, unless the count rose again.\<close>

definition timer_teardown :: "nat \<Rightarrow> ou_mgr \<Rightarrow> ou_mgr" where
  "timer_teardown t m =
     (case om_timer m t of
        None \<Rightarrow> m
      | Some tm \<Rightarrow>
          if tm_pc tm \<noteq> TmFired then m
          else
            let m = set_timer t (tm\<lparr>tm_pc := TmGone\<rparr>) m
            in (case om_sub m (tm_sub tm) of
                  None \<Rightarrow> m
                | Some s \<Rightarrow>
                    if os_count s > 0 then m
                    else let m = cancel_sub (tm_sub tm) m in m\<lparr>om_subs := (om_subs m)(tm_user tm := None)\<rparr>))"

text \<open>\<open>runSubscription\<close> returns when its context is cancelled or when the stream closes its channel, as after a
  rejected key.\<close>

definition reader_ends :: "nat \<Rightarrow> ou_mgr \<Rightarrow> ou_mgr" where
  "reader_ends n m = (case om_sub m n of None \<Rightarrow> m | Some s \<Rightarrow> set_sub n (s\<lparr>os_reading := False\<rparr>) m)"

text \<open>\<open>Close\<close> cancels the listed subscriptions and the poll.\<close>

definition close_mgr :: "ou_mgr \<Rightarrow> ou_mgr" where
  "close_mgr m =
     m\<lparr>om_sub := (\<lambda>n. case om_sub m n of None \<Rightarrow> None
        | Some s \<Rightarrow> Some (if om_subs m (os_user s) = Some n then s\<lparr>os_cancelled := True\<rparr> else s)),
       om_subs := Map.empty, om_closed := True\<rparr>"

definition poll_cache :: "run_lookup option \<Rightarrow> string list \<Rightarrow> ou_mgr \<Rightarrow> ou_mgr" where
  "poll_cache fallback ids m = (if om_closed m then m else m\<lparr>om_cache := snapshotAndReconcile fallback ids (om_cache m)\<rparr>)"

section \<open>Steps\<close>

datatype ou_ev =
    OuEnsure string string string string
  | OuUnsubscribe string
  | OuStatus string string
  | OuFires nat
  | OuStopped nat
  | OuTeardown nat
  | OuReaderEnds nat
  | OuPoll run_lookup "string list"
  | OuClose

definition ou_step :: "ou_ev \<Rightarrow> ou_mgr \<Rightarrow> ou_mgr" where
  "ou_step ev m =
     (if om_crashed m then m
      else case ev of
        OuEnsure user key run status \<Rightarrow> fst (EnsureSubscribed user key run status m)
      | OuUnsubscribe user \<Rightarrow> Unsubscribe_OU user m
      | OuStatus run status \<Rightarrow> UpdateRunStatus run status m
      | OuFires t \<Rightarrow> timer_fires t m
      | OuStopped t \<Rightarrow> timer_stopped t m
      | OuTeardown t \<Rightarrow> timer_teardown t m
      | OuReaderEnds n \<Rightarrow> reader_ends n m
      | OuPoll f ids \<Rightarrow> poll_cache (Some f) ids m
      | OuClose \<Rightarrow> close_mgr m)"

definition ou_run :: "ou_ev list \<Rightarrow> ou_mgr \<Rightarrow> ou_mgr" where
  "ou_run evs m = fold ou_step evs m"

section \<open>Stream\<close>

definition initialBackoff :: int where "initialBackoff = second_ns"
definition maxBackoff :: int where "maxBackoff = 60 * second_ns"

text \<open>\<open>nextDelay\<close>: doubled up to the bound, with a jitter of at most a fifth from one random byte, \<open>None\<close> when
  none could be read.\<close>

definition nextDelay :: "int \<Rightarrow> int \<Rightarrow> int option \<Rightarrow> int" where
  "nextDelay current bound byte =
     (let b = min (wrap64 (current * 2)) bound in
      case byte of
        None \<Rightarrow> b
      | Some r \<Rightarrow>
          let offset = go_div (wrap64 (r * go_div b 5)) 256
          in if r mod 2 = 0 then wrap64 (b - offset) else wrap64 (b + offset))"

text \<open>The cursor of each user: the latest \<open>updated_at\<close> of the last message that had one.\<close>

definition latest_time :: "gtime list \<Rightarrow> gtime" where
  "latest_time ts = foldl (\<lambda>m t. if time_After t m then t else m) time_zero ts"

definition extractUpdatedAtAndAdvance :: "string \<Rightarrow> gtime list option \<Rightarrow> (string \<Rightarrow> gtime option) \<Rightarrow> (string \<Rightarrow> gtime option) \<times> bool" where
  "extractUpdatedAtAndAdvance user entries since =
     (case entries of
        None \<Rightarrow> (since, False)
      | Some ts \<Rightarrow>
          let m = latest_time ts in if time_IsZero m then (since, False) else (since(user \<mapsto> m), True))"

text \<open>One turn of the read loop for what \<open>dialOnce\<close> returned: rejected, failed, or a connection that delivered
  some messages. \<open>None\<close> ends the loop, else the delay before the next dial, and the messages forwarded.\<close>

datatype 'm dial = DialRejected | DialFailed | DialConnected "(gtime list option \<times> 'm) list"

definition forward_messages :: "string \<Rightarrow> (gtime list option \<times> 'm) list \<Rightarrow> (string \<Rightarrow> gtime option) \<Rightarrow> (string \<Rightarrow> gtime option) \<times> 'm list" where
  "forward_messages user msgs since =
     (fold (\<lambda>(ts, _) s. fst (extractUpdatedAtAndAdvance user ts s)) msgs since, map snd msgs)"

definition read_turn ::
  "string \<Rightarrow> int option \<Rightarrow> 'm dial \<Rightarrow> int \<Rightarrow> (string \<Rightarrow> gtime option) \<Rightarrow> (int \<times> int) option \<times> (string \<Rightarrow> gtime option) \<times> 'm list" where
  "read_turn user byte d backoff since =
     (case d of
        DialRejected \<Rightarrow> (None, since, [])
      | DialFailed \<Rightarrow> (Some (backoff, nextDelay backoff maxBackoff byte), since, [])
      | DialConnected msgs \<Rightarrow>
          (case forward_messages user msgs since of (since, out) \<Rightarrow> (Some (0, initialBackoff), since, out)))"

end
