(* ===== verification/Order_Updates_Props.thy ===== *)
theory Order_Updates_Props
  imports Order_Updates
begin

text \<open>
  What the order updates promise: the cache agrees with the table after a poll, an update reaches the user
  and the run its order belongs to, the delays of the reconnects are bounded, and the manager neither
  crashes nor drops a subscription in use as long as it is released as often as it was taken.
  The two ways in which it breaks are at the end.
\<close>

section \<open>Cache\<close>

lemma reconcile_entry_other: "i \<noteq> j \<Longrightarrow> reconcile_entry f (i, us) c j = c j"
  by (auto simp: reconcile_entry_def cache_Remove_def cache_Set_def split: option.splits prod.splits)

definition table_slot :: "run_lookup \<Rightarrow> string \<Rightarrow> (string \<times> string) option" where
  "table_slot f i = (case f i of None \<Rightarrow> None | Some (user, status) \<Rightarrow> if live_status status then Some (user, status) else None)"

lemma reconcile_entry_same: "c i = Some us \<Longrightarrow> reconcile_entry f (i, us) c i = table_slot f i"
  by (auto simp: reconcile_entry_def table_slot_def cache_Remove_def cache_Set_def split: option.splits prod.splits)

lemma reconcile_fold_other:
  "i \<notin> set (map fst es) \<Longrightarrow> fold (reconcile_entry f) es c i = c i"
  by (induction es arbitrary: c) (auto simp: reconcile_entry_other)

lemma reconcile_fold_same:
  "distinct (map fst es) \<Longrightarrow> (i, us) \<in> set es \<Longrightarrow> \<forall>(j, vs)\<in>set es. c j = Some vs \<Longrightarrow> fold (reconcile_entry f) es c i = table_slot f i"
proof (induction es arbitrary: c)
  case (Cons e es)
  obtain j vs where e: "e = (j, vs)" by (cases e)
  have keep: "\<forall>(k, ws)\<in>set es. reconcile_entry f e c k = Some ws"
  proof (clarify)
    fix k w1 w2
    assume "(k, w1, w2) \<in> set es"
    then have k: "k \<in> fst ` set es" and c: "c k = Some (w1, w2)" using Cons.prems(3) by (force, fastforce)
    have "j \<notin> fst ` set es" using Cons.prems(1) e by simp
    then have "j \<noteq> k" using k by blast
    then show "reconcile_entry f e c k = Some (w1, w2)" using e c by (simp add: reconcile_entry_other)
  qed
  show ?case
  proof (cases "(i, us) = e")
    case True
    have "i \<notin> set (map fst es)" using Cons.prems(1) unfolding True [symmetric] by simp
    then have "fold (reconcile_entry f) es (reconcile_entry f e c) i = reconcile_entry f e c i" by (rule reconcile_fold_other)
    moreover have "c i = Some us" using Cons.prems(3) True by auto
    ultimately show ?thesis using True by (auto simp: reconcile_entry_same)
  next
    case False
    then show ?thesis using Cons.IH [OF _ _ keep] Cons.prems by simp
  qed
qed simp

text \<open>After a poll the cache holds, for every run it held before, exactly what the table says of it if the run
  is running or paused, and nothing otherwise; a run that ended without the manager being told is forgotten.\<close>

theorem poll_agrees_with_table:
  assumes "distinct ids" "set ids = dom c"
  shows "snapshotAndReconcile (Some f) ids c i =
    (if i \<in> dom c then (case f i of Some (user, status) \<Rightarrow> if live_status status then Some (user, status) else None | None \<Rightarrow> None)
     else None)"
proof -
  let ?es = "List.map_filter (\<lambda>i. map_option (\<lambda>(u, s). (i, u, s)) (c i)) ids"
  have es: "?es = map (\<lambda>i. (i, the (c i))) ids"
  proof -
    have "\<forall>i\<in>set ids. c i \<noteq> None" using assms(2) by auto
    then show ?thesis by (induction ids) (auto simp: map_filter_simps split: option.splits)
  qed
  have fsts: "map fst ?es = ids" unfolding es by (simp add: comp_def)
  show ?thesis
  proof (cases "i \<in> dom c")
    case True
    then have "fold (reconcile_entry f) ?es c i = table_slot f i"
      using assms fsts unfolding es by (intro reconcile_fold_same [of _ _ "the (c i)"]) (auto simp: comp_def)
    then show ?thesis using True by (auto simp: snapshotAndReconcile_def table_slot_def split: option.splits)
  next
    case False
    then have "fold (reconcile_entry f) ?es c i = c i" using assms fsts by (intro reconcile_fold_other) simp
    then show ?thesis using False by (auto simp: snapshotAndReconcile_def)
  qed
qed

section \<open>Routing\<close>

lemma cut_dot_append: "CHR ''.'' \<notin> set a \<Longrightarrow> cut_dot (a @ CHR ''.'' # r) = (a, Some r)"
  by (induction a) (auto simp: cut_dot_def split: list.splits)

lemma SplitN3_BuildClientOrderID:
  "CHR ''.'' \<notin> set name \<Longrightarrow> CHR ''.'' \<notin> set run \<Longrightarrow> SplitN3 (BuildClientOrderID name run fresh) = [name, run, fresh]"
  by (simp add: SplitN3_def BuildClientOrderID_def cut_dot_append)

lemma Translate_owner:
  "Translate parse known fallback fresh now val user c = (c', Some e) \<Longrightarrow> \<exists>status.
     ev_UserID e = user \<and> ev_Payload e = val \<and> ev_Type e = EventOrderUpdate \<and> c' (ev_RunID e) = Some (user, status) \<and> live_status status"
  by (auto simp: Translate_def cache_Lookup_def split: option.splits if_splits prod.splits)

text \<open>C29: An update of an order that a strategy placed is forwarded to the user it was read for, under the run whose
  identifier the order carries, when that run belongs to the user and is running or paused; an update of an
  order of another user's run, of a finished run or of an unknown one is dropped.\<close>

theorem order_update_routed:
  assumes "string_field ''client_order_id'' val = Some (BuildClientOrderID name run order)"
    and "name \<in> set known" "CHR ''.'' \<notin> set name" "CHR ''.'' \<notin> set run" "parse run = Some run"
  shows "snd (Translate parse known (Some f) fresh now val user c) =
    (case (case c run of None \<Rightarrow> f run | Some slot \<Rightarrow> Some slot) of
       Some (owner, status) \<Rightarrow>
         if owner = user \<and> (status = ''running'' \<or> status = ''paused'')
         then Some \<lparr>ev_ID = fresh, ev_Type = EventOrderUpdate, ev_UserID = user, ev_RunID = run, ev_BacktestID = [],
           ev_Timestamp = time_UTC now, ev_Payload = val\<rparr>
         else None
     | None \<Rightarrow> None)"
proof -
  have "BuildClientOrderID name run order \<noteq> []" by (simp add: BuildClientOrderID_def)
  moreover have "order_run parse known (BuildClientOrderID name run order) = Some run"
    using assms by (simp add: order_run_def SplitN3_BuildClientOrderID)
  ultimately show ?thesis using assms(1)
    by (auto simp: Translate_def cache_Lookup_def live_status_def split: option.splits prod.splits)
qed

section \<open>Delays\<close>

text \<open>The delay before a reconnect is at least four fifths and at most six fifths of the doubled delay, capped at
  a minute before the jitter; so from the first second on it never exceeds 72 seconds.\<close>

theorem backoff_bounds:
  assumes "5 \<le> current" "current \<le> 2 ^ 61" "\<And>r. byte = Some r \<Longrightarrow> 0 \<le> r \<and> r < 256"
  shows "4 * min (2 * current) maxBackoff \<le> 5 * nextDelay current maxBackoff byte \<and>
    5 * nextDelay current maxBackoff byte \<le> 6 * min (2 * current) maxBackoff"
proof -
  define b where "b = min (2 * current) maxBackoff"
  have b: "wrap64 (current * 2) = 2 * current" "0 \<le> b" "b \<le> 60000000000"
    using assms(1,2) by (auto simp: b_def maxBackoff_def int64_ok_def wrap64_id mult.commute)
  have min: "min (wrap64 (current * 2)) maxBackoff = b" using b(1) by (simp add: b_def)
  show ?thesis
  proof (cases byte)
    case None
    then show ?thesis using min b by (simp add: nextDelay_def b_def)
  next
    case (Some r)
    then have r: "0 \<le> r" "r < 256" using assms(3) by blast+
    have d5: "go_div b 5 = b div 5" using b by (intro go_div_nonneg) (auto simp: int64_ok_def)
    have q: "0 \<le> r * (b div 5)" "r * (b div 5) \<le> 256 * (b div 5)" using r b(2) by (auto intro: mult_right_mono)
    have "b div 5 \<le> 12000000000" using b(3) by simp
    then have w: "wrap64 (r * (b div 5)) = r * (b div 5)" using q by (intro wrap64_id) (simp add: int64_ok_def)
    have o: "go_div (r * (b div 5)) 256 = r * (b div 5) div 256"
      using q \<open>b div 5 \<le> 12000000000\<close> by (intro go_div_nonneg) (auto simp: int64_ok_def)
    define z where "z = r * (b div 5) div 256"
    have z: "0 \<le> z" "z \<le> b div 5" using q using zdiv_mono1 [OF q(2), of 256] by (auto simp: z_def)
    then have z5: "5 * z \<le> b" using b(2) by simp
    have "wrap64 (b - z) = b - z" "wrap64 (b + z) = b + z" using z z5 b by (auto intro!: wrap64_id simp: int64_ok_def)
    then have "nextDelay current maxBackoff byte = (if r mod 2 = 0 then b - z else b + z)"
      using Some by (simp add: nextDelay_def min Let_def d5 w o z_def)
    then show ?thesis using z z5 by (auto simp: b_def [symmetric])
  qed
qed

section \<open>Manager\<close>

text \<open>Every release finds the subscription of its user taken.\<close>

definition in_use :: "string \<Rightarrow> ou_mgr \<Rightarrow> bool" where
  "in_use user m \<longleftrightarrow> (case Option.bind (om_subs m user) (om_sub m) of None \<Rightarrow> True | Some s \<Rightarrow> 0 < os_count s)"

fun released_once :: "ou_ev list \<Rightarrow> ou_mgr \<Rightarrow> bool" where
  "released_once [] m \<longleftrightarrow> True"
| "released_once (ev # evs) m \<longleftrightarrow>
     (case ev of OuUnsubscribe user \<Rightarrow> in_use user m | _ \<Rightarrow> True) \<and> released_once evs (ou_step ev m)"

definition timers_ok :: "ou_mgr \<Rightarrow> bool" where
  "timers_ok m \<longleftrightarrow> (\<forall>t tm. om_timer m t = Some tm \<longrightarrow> t < om_next m \<and>
     (\<exists>s. om_sub m (tm_sub tm) = Some s \<and> os_user s = tm_user tm \<and>
        (if tm_pc tm = TmWaiting then os_grace s = Some t \<and> \<not> tm_done tm \<and> \<not> tm_stopped tm \<and> os_count s = 0 else tm_done tm)))"

definition subs_ok :: "ou_mgr \<Rightarrow> bool" where
  "subs_ok m \<longleftrightarrow> (\<forall>n s. om_sub m n = Some s \<longrightarrow> n < om_next m \<and> 0 \<le> os_count s \<and>
     (\<forall>d. os_grace s = Some d \<longrightarrow> (\<exists>dm. om_timer m d = Some dm \<and> tm_sub dm = n)) \<and>
     (os_cancelled s \<and> \<not> om_closed m \<longrightarrow> os_count s = 0 \<and> om_subs m (os_user s) \<noteq> Some n)) \<and>
   (\<forall>u n. om_subs m u = Some n \<longrightarrow> (\<exists>s. om_sub m n = Some s \<and> os_user s = u))"

definition mgr_ok :: "ou_mgr \<Rightarrow> bool" where
  "mgr_ok m \<longleftrightarrow> \<not> om_crashed m \<and> timers_ok m \<and> subs_ok m"

lemmas mgr_ok_defs = mgr_ok_def timers_ok_def subs_ok_def

lemma NewManager_ok: "mgr_ok NewManager"
  by (simp add: mgr_ok_defs NewManager_def)

lemma close_done_eq:
  assumes "om_timer m t = Some tm" "om_sub m (tm_sub tm) = Some s" "os_grace s = Some t" "\<not> tm_done tm"
  shows "close_done t pc m = set_timer t (tm\<lparr>tm_done := True, tm_pc := pc\<rparr>) m"
  using assms by (simp add: close_done_def set_timer_def Let_def)

text \<open>What the operations change, as updates of one timer and one subscription.\<close>

lemma mgr_ok_timer_leaves:
  assumes "mgr_ok m" "om_timer m t = Some tm" "pc \<noteq> TmWaiting"
  shows "mgr_ok (set_timer t (tm\<lparr>tm_stopped := b, tm_done := True, tm_pc := pc\<rparr>) m)"
  using assms by (fastforce simp: mgr_ok_defs set_timer_def)

lemma mgr_ok_waiting:
  assumes "mgr_ok m" "om_timer m t = Some tm" "tm_pc tm = TmWaiting"
  obtains s where "om_sub m (tm_sub tm) = Some s" "os_grace s = Some t" "\<not> tm_done tm" "\<not> tm_stopped tm" "os_count s = 0"
  using assms by (fastforce simp: mgr_ok_def timers_ok_def)

lemma mgr_ok_past: "mgr_ok m \<Longrightarrow> om_timer m t = Some tm \<Longrightarrow> tm_pc tm \<noteq> TmWaiting \<Longrightarrow> tm_done tm"
  by (fastforce simp: mgr_ok_def timers_ok_def)

lemma tm_done_idem [simp]: "tm_done tm \<Longrightarrow> tm\<lparr>tm_done := True\<rparr> = tm"
  by simp

lemma timer_fires_ok:
  assumes "mgr_ok m"
  shows "mgr_ok (timer_fires t m)"
proof (cases "om_timer m t")
  case (Some tm)
  show ?thesis
  proof (cases "tm_pc tm = TmWaiting")
    case True
    then obtain s where s: "om_sub m (tm_sub tm) = Some s" "os_grace s = Some t" "\<not> tm_done tm" "\<not> tm_stopped tm"
      using mgr_ok_waiting [OF assms Some] by metis
    then have "timer_fires t m = set_timer t (tm\<lparr>tm_done := True, tm_pc := TmFired\<rparr>) m"
      using close_done_eq [OF Some s(1,2,3)] Some True by (simp add: timer_fires_def)
    then show ?thesis using mgr_ok_timer_leaves [OF assms Some, of TmFired "tm_stopped tm"] by simp
  qed (use assms Some in \<open>simp add: timer_fires_def\<close>)
qed (use assms in \<open>simp add: timer_fires_def\<close>)

lemma timer_stopped_ok:
  assumes "mgr_ok m"
  shows "mgr_ok (timer_stopped t m)"
proof (cases "om_timer m t")
  case (Some tm)
  then have "\<not> (tm_pc tm = TmWaiting \<and> tm_stopped tm)" using mgr_ok_waiting [OF assms Some] by metis
  then show ?thesis using assms Some by (cases "tm_pc tm = TmWaiting") (simp_all add: timer_stopped_def)
qed (use assms in \<open>simp add: timer_stopped_def\<close>)

lemma timer_teardown_ok:
  assumes "mgr_ok m"
  shows "mgr_ok (timer_teardown t m)"
proof (cases "om_timer m t")
  case (Some tm)
  show ?thesis
  proof (cases "tm_pc tm = TmFired")
    case True
    let ?m = "set_timer t (tm\<lparr>tm_pc := TmGone\<rparr>) m"
    have d: "tm_done tm" using mgr_ok_past [OF assms Some] True by simp
    then have ok: "mgr_ok ?m" using mgr_ok_timer_leaves [OF assms Some, of TmGone "tm_stopped tm"] by simp
    obtain s where s: "om_sub m (tm_sub tm) = Some s" "os_user s = tm_user tm"
      using assms Some by (fastforce simp: mgr_ok_def timers_ok_def)
    have frame: "om_sub ?m = om_sub m" "om_subs ?m = om_subs m" by (simp_all add: set_timer_def)
    show ?thesis
    proof (cases "os_count s > 0")
      case False
      have c: "os_count s = 0" using ok s frame False by (fastforce simp: mgr_ok_def subs_ok_def)
      have "timer_teardown t m = (set_sub (tm_sub tm) (s\<lparr>os_cancelled := True\<rparr>) ?m)\<lparr>om_subs := (om_subs m)(tm_user tm := None)\<rparr>"
        using Some True False s frame by (simp add: timer_teardown_def cancel_sub_def Let_def) (simp add: set_sub_def set_timer_def)
      moreover have "mgr_ok \<dots>" using ok s c frame by (fastforce simp: mgr_ok_defs set_sub_def)
      ultimately show ?thesis by simp
    qed (use ok s frame Some True in \<open>simp add: timer_teardown_def Let_def\<close>)
  qed (use assms Some in \<open>simp add: timer_teardown_def\<close>)
qed (use assms in \<open>simp add: timer_teardown_def\<close>)

lemma grace_stop_ok:
  assumes "mgr_ok m" "om_sub m n = Some s" "os_grace s = Some t" "grace_stop t m = Some m'"
  shows "mgr_ok m' \<and> om_sub m' = om_sub m \<and> om_subs m' = om_subs m \<and> om_next m' = om_next m \<and> om_closed m' = om_closed m \<and>
    (\<forall>t' tm. om_timer m' t' = Some tm \<longrightarrow> tm_sub tm = n \<longrightarrow> tm_pc tm \<noteq> TmWaiting)"
proof -
  obtain tm where tm: "om_timer m t = Some tm" "tm_sub tm = n" using assms(1,2,3) by (fastforce simp: mgr_ok_def subs_ok_def)
  have other: "tm_pc tm' \<noteq> TmWaiting" if "om_timer m t' = Some tm'" "tm_sub tm' = n" "t' \<noteq> t" for t' tm'
    using that assms(1,2,3) by (fastforce simp: mgr_ok_def timers_ok_def split: if_splits)
  have stop: "\<not> tm_stopped tm" using assms(4) tm(1) by (auto simp: grace_stop_def split: if_splits)
  show ?thesis
  proof (cases "tm_done tm")
    case True
    then have pc: "tm_pc tm \<noteq> TmWaiting" using mgr_ok_waiting [OF assms(1) tm(1)] by metis
    have m': "m' = set_timer t (tm\<lparr>tm_stopped := True, tm_done := True, tm_pc := tm_pc tm\<rparr>) m"
      using assms(4) tm(1) stop True by (simp add: grace_stop_def Let_def)
    then show ?thesis using mgr_ok_timer_leaves [OF assms(1) tm(1) pc, of True] other tm pc
      by (auto simp: set_timer_def)
  next
    case False
    have m': "m' = set_timer t (tm\<lparr>tm_stopped := True, tm_done := True, tm_pc := TmGone\<rparr>) m"
    proof -
      let ?m = "set_timer t (tm\<lparr>tm_stopped := True\<rparr>) m"
      have "close_done t TmGone ?m = set_timer t (tm\<lparr>tm_stopped := True, tm_done := True, tm_pc := TmGone\<rparr>) ?m"
        using close_done_eq [of ?m t "tm\<lparr>tm_stopped := True\<rparr>" s TmGone] tm assms(2,3) False by (simp add: set_timer_def)
      then show ?thesis using assms(4) tm(1) stop False by (simp add: grace_stop_def Let_def set_timer_def)
    qed
    then show ?thesis using mgr_ok_timer_leaves [OF assms(1) tm(1), of TmGone True] other tm
      by (auto simp: set_timer_def)
  qed
qed

lemma set_sub_ok:
  assumes "mgr_ok m" "om_sub m n = Some s" "om_subs m (os_user s) = Some n" "0 \<le> k"
    and "\<forall>t tm. om_timer m t = Some tm \<longrightarrow> tm_sub tm = n \<longrightarrow> tm_pc tm \<noteq> TmWaiting"
  shows "mgr_ok (set_sub n (s\<lparr>os_count := k\<rparr>) m)"
proof -
  have "timers_ok (set_sub n (s\<lparr>os_count := k\<rparr>) m)"
    unfolding timers_ok_def
  proof (intro allI impI)
    fix t tm
    assume "om_timer (set_sub n (s\<lparr>os_count := k\<rparr>) m) t = Some tm"
    then have t: "om_timer m t = Some tm" by (simp add: set_sub_def)
    then show "t < om_next (set_sub n (s\<lparr>os_count := k\<rparr>) m) \<and> (\<exists>s'. om_sub (set_sub n (s\<lparr>os_count := k\<rparr>) m) (tm_sub tm) = Some s' \<and>
        os_user s' = tm_user tm \<and> (if tm_pc tm = TmWaiting then os_grace s' = Some t \<and> \<not> tm_done tm \<and> \<not> tm_stopped tm \<and> os_count s' = 0
          else tm_done tm))"
      using assms(1,2,5) by (cases "tm_sub tm = n") (fastforce simp: mgr_ok_def timers_ok_def set_sub_def)+
  qed
  moreover have "subs_ok (set_sub n (s\<lparr>os_count := k\<rparr>) m)"
    using assms(1-4) by (fastforce simp: mgr_ok_def subs_ok_def set_sub_def)
  moreover have "\<not> om_crashed (set_sub n (s\<lparr>os_count := k\<rparr>) m)" using assms(1) by (simp add: mgr_ok_def set_sub_def)
  ultimately show ?thesis by (simp add: mgr_ok_def)
qed

lemma cache_irrelevant: "mgr_ok (m\<lparr>om_cache := c\<rparr>) = mgr_ok m" "mgr_ok (m\<lparr>om_panics := k\<rparr>) = mgr_ok m"
  by (simp_all add: mgr_ok_defs)

lemma listed_sub:
  assumes "mgr_ok m" "om_subs m user = Some n"
  obtains s where "om_sub m n = Some s" "os_user s = user"
proof -
  have "\<exists>s. om_sub m n = Some s \<and> os_user s = user" using assms by (simp add: mgr_ok_def subs_ok_def)
  then show thesis using that by blast
qed

lemma EnsureSubscribed_ok:
  assumes "mgr_ok m"
  shows "mgr_ok (fst (EnsureSubscribed user key run status m))"
proof (cases "user = [] \<or> key = [] \<or> run = uuid_Nil")
  case False
  show ?thesis
  proof (cases "om_subs m user")
    case None
    let ?n = "om_next m"
    have "\<And>t tm. om_timer m t = Some tm \<Longrightarrow> tm_sub tm \<noteq> ?n" "\<And>u n. om_subs m u = Some n \<Longrightarrow> n \<noteq> ?n"
      using assms by (fastforce simp: mgr_ok_def timers_ok_def subs_ok_def)+
    then have "mgr_ok (m\<lparr>om_sub := (om_sub m)(?n \<mapsto> \<lparr>os_user = user, os_key = key, os_count = 1, os_grace = None, os_cancelled = False,
        os_reading = True\<rparr>), om_subs := (om_subs m)(user \<mapsto> ?n), om_next := ?n + 1\<rparr>)"
      using assms by (fastforce simp: mgr_ok_defs)
    then show ?thesis using False None by (simp add: EnsureSubscribed_def Let_def set_sub_def mgr_ok_defs)
  next
    case (Some n)
    then obtain s where s: "om_sub m n = Some s" "os_user s = user" using listed_sub [OF assms] by blast
    have c0: "0 \<le> os_count s" using assms s by (auto simp: mgr_ok_def subs_ok_def)
    show ?thesis
    proof (cases "os_grace s")
      case None
      then have "\<forall>t tm. om_timer m t = Some tm \<longrightarrow> tm_sub tm = n \<longrightarrow> tm_pc tm \<noteq> TmWaiting"
        using assms s by (fastforce simp: mgr_ok_def timers_ok_def)
      then have "mgr_ok (set_sub n (s\<lparr>os_count := os_count s + 1\<rparr>) m)"
        using set_sub_ok [OF assms s(1)] s Some c0 by simp
      then show ?thesis using False Some s None by (simp add: EnsureSubscribed_def Let_def cache_irrelevant)
    next
      case (Some t)
      show ?thesis
      proof (cases "grace_stop t m")
        case None
        then show ?thesis using False \<open>om_subs m user = Some n\<close> s Some assms
          by (simp add: EnsureSubscribed_def cache_irrelevant)
      next
        case m': (Some m')
        note g = grace_stop_ok [OF assms s(1) Some m']
        then have "mgr_ok (set_sub n (s\<lparr>os_count := os_count s + 1\<rparr>) m')"
          using set_sub_ok [of m' n s "os_count s + 1"] s \<open>om_subs m user = Some n\<close> c0 by simp
        then show ?thesis using False \<open>om_subs m user = Some n\<close> s Some m' by (simp add: EnsureSubscribed_def Let_def cache_irrelevant)
      qed
    qed
  qed
qed (use assms in \<open>auto simp: EnsureSubscribed_def\<close>)

lemma schedule_ok:
  assumes "mgr_ok m" "om_sub m n = Some s" "om_subs m (os_user s) = Some n" "0 < os_count s"
  shows "mgr_ok (scheduleGraceTeardown (os_user s) n (s\<lparr>os_count := 0\<rparr>) m)"
proof -
  let ?t = "om_next m"
  have w: "\<forall>t tm. om_timer m t = Some tm \<longrightarrow> tm_sub tm = n \<longrightarrow> tm_pc tm \<noteq> TmWaiting \<and> tm_done tm"
    using assms(1,2,4) by (fastforce simp: mgr_ok_def timers_ok_def split: if_splits)
  have "timers_ok (scheduleGraceTeardown (os_user s) n (s\<lparr>os_count := 0\<rparr>) m)"
    unfolding timers_ok_def
  proof (intro allI impI)
    fix t tm
    assume t: "om_timer (scheduleGraceTeardown (os_user s) n (s\<lparr>os_count := 0\<rparr>) m) t = Some tm"
    show "t < om_next (scheduleGraceTeardown (os_user s) n (s\<lparr>os_count := 0\<rparr>) m) \<and>
        (\<exists>s'. om_sub (scheduleGraceTeardown (os_user s) n (s\<lparr>os_count := 0\<rparr>) m) (tm_sub tm) = Some s' \<and> os_user s' = tm_user tm \<and>
          (if tm_pc tm = TmWaiting then os_grace s' = Some t \<and> \<not> tm_done tm \<and> \<not> tm_stopped tm \<and> os_count s' = 0 else tm_done tm))"
    proof (cases "t = ?t")
      case True
      then show ?thesis using t by (auto simp: scheduleGraceTeardown_def set_sub_def set_timer_def Let_def)
    next
      case False
      then have tm: "om_timer m t = Some tm" using t by (simp add: scheduleGraceTeardown_def set_sub_def set_timer_def Let_def)
      then show ?thesis using assms(1,2) w
        by (cases "tm_sub tm = n") (fastforce simp: mgr_ok_def timers_ok_def scheduleGraceTeardown_def set_sub_def set_timer_def Let_def)+
    qed
  qed
  moreover have "subs_ok (scheduleGraceTeardown (os_user s) n (s\<lparr>os_count := 0\<rparr>) m)"
  proof -
    have "\<And>d dm. om_timer m d = Some dm \<Longrightarrow> d \<noteq> ?t" using assms(1) by (fastforce simp: mgr_ok_def timers_ok_def)
    then show ?thesis using assms by (fastforce simp: mgr_ok_def subs_ok_def scheduleGraceTeardown_def set_sub_def set_timer_def Let_def)
  qed
  moreover have "\<not> om_crashed (scheduleGraceTeardown (os_user s) n (s\<lparr>os_count := 0\<rparr>) m)"
    using assms(1) by (simp add: mgr_ok_def scheduleGraceTeardown_def set_sub_def set_timer_def Let_def)
  ultimately show ?thesis by (simp add: mgr_ok_def)
qed

lemma Unsubscribe_ok:
  assumes "mgr_ok m" "in_use user m"
  shows "mgr_ok (Unsubscribe_OU user m)"
proof (cases "om_subs m user")
  case (Some n)
  then obtain s where s: "om_sub m n = Some s" "os_user s = user" using listed_sub [OF assms(1)] by blast
  have c: "0 < os_count s" using assms(2) Some s by (simp add: in_use_def)
  show ?thesis
  proof (cases "os_count s = 1")
    case True
    then show ?thesis using schedule_ok [OF assms(1) s(1)] s Some c by (simp add: Unsubscribe_OU_def Let_def)
  next
    case False
    have "\<forall>t tm. om_timer m t = Some tm \<longrightarrow> tm_sub tm = n \<longrightarrow> tm_pc tm \<noteq> TmWaiting"
      using assms(1) s c by (fastforce simp: mgr_ok_def timers_ok_def split: if_splits)
    then show ?thesis using set_sub_ok [OF assms(1) s(1), of "os_count s - 1"] s Some c False
      by (simp add: Unsubscribe_OU_def Let_def)
  qed
qed (use assms in \<open>simp add: Unsubscribe_OU_def\<close>)

lemma close_ok:
  assumes "mgr_ok m"
  shows "mgr_ok (close_mgr m)"
proof -
  let ?f = "\<lambda>n s. if om_subs m (os_user s) = Some n then s\<lparr>os_cancelled := True\<rparr> else s"
  have sub: "om_sub (close_mgr m) n = map_option (?f n) (om_sub m n)" for n
    by (simp add: close_mgr_def split: option.splits)
  have frame: "om_timer (close_mgr m) = om_timer m" "om_next (close_mgr m) = om_next m" "om_subs (close_mgr m) = Map.empty"
    "om_closed (close_mgr m)" "om_crashed (close_mgr m) = om_crashed m"
    by (simp_all add: close_mgr_def)
  have f: "os_user (?f n s) = os_user s" "os_grace (?f n s) = os_grace s" "os_count (?f n s) = os_count s" for n s by simp_all
  have "timers_ok (close_mgr m)"
    using assms unfolding timers_ok_def mgr_ok_def sub frame by (metis (no_types, lifting) f option.simps(9))
  moreover have "subs_ok (close_mgr m)"
    using assms unfolding subs_ok_def mgr_ok_def sub frame
    by (auto simp: f frame(4) simp del: not_None_eq split: if_splits)
  ultimately show ?thesis using assms by (simp add: mgr_ok_def frame)
qed

lemma ou_step_ok:
  assumes "mgr_ok m" "case ev of OuUnsubscribe user \<Rightarrow> in_use user m | _ \<Rightarrow> True"
  shows "mgr_ok (ou_step ev m)"
proof (cases ev)
  case (OuReaderEnds n)
  show ?thesis
  proof (cases "om_sub m n")
    case (Some s)
    have "mgr_ok (set_sub n (s\<lparr>os_reading := False\<rparr>) m)" using assms(1) Some by (fastforce simp: mgr_ok_defs set_sub_def)
    then show ?thesis using OuReaderEnds Some by (simp add: ou_step_def reader_ends_def assms(1))
  qed (use assms(1) OuReaderEnds in \<open>simp add: ou_step_def reader_ends_def\<close>)
next
  case OuClose
  then show ?thesis using close_ok assms(1) by (simp add: ou_step_def)
qed (use assms EnsureSubscribed_ok Unsubscribe_ok timer_fires_ok timer_stopped_ok timer_teardown_ok cache_irrelevant
    in \<open>simp_all add: ou_step_def UpdateRunStatus_def poll_cache_def\<close>)

lemma ou_run_ok: "mgr_ok m \<Longrightarrow> released_once evs m \<Longrightarrow> mgr_ok (ou_run evs m)"
  by (induction evs arbitrary: m) (auto simp: ou_run_def ou_step_ok)

text \<open>The last timer of a user's subscription was stopped before, by a call that took the subscription again.\<close>

definition rearmed :: "string \<Rightarrow> ou_mgr \<Rightarrow> bool" where
  "rearmed user m \<longleftrightarrow> (\<exists>n s t tm. om_subs m user = Some n \<and> om_sub m n = Some s \<and> os_grace s = Some t \<and>
     om_timer m t = Some tm \<and> tm_stopped tm)"

lemma Ensure_panics_iff:
  assumes "mgr_ok m" "user \<noteq> []" "key \<noteq> []" "run \<noteq> uuid_Nil"
  shows "snd (EnsureSubscribed user key run status m) = OuPanic \<longleftrightarrow> rearmed user m"
proof (cases "om_subs m user")
  case (Some n)
  then obtain s where s: "om_sub m n = Some s" using listed_sub [OF assms(1)] by blast
  show ?thesis
  proof (cases "os_grace s")
    case None
    then show ?thesis using assms(2-4) Some s by (simp add: EnsureSubscribed_def rearmed_def Let_def)
  next
    case t: (Some t)
    then obtain tm where tm: "om_timer m t = Some tm" using assms(1) s by (fastforce simp: mgr_ok_def subs_ok_def)
    have "snd (EnsureSubscribed user key run status m) = OuPanic \<longleftrightarrow> grace_stop t m = None"
      using assms(2-4) Some s t by (simp add: EnsureSubscribed_def Let_def split: option.splits)
    also have "\<dots> \<longleftrightarrow> tm_stopped tm" using tm by (simp add: grace_stop_def Let_def)
    also have "\<dots> \<longleftrightarrow> rearmed user m" using Some s t tm by (simp add: rearmed_def)
    finally show ?thesis .
  qed
qed (use assms in \<open>simp add: EnsureSubscribed_def rearmed_def Let_def\<close>)

text \<open>C22: As long as the subscription of a user is released as often as it is taken, no goroutine of the manager panics,
  whatever the order of requests, timers and polls, so the process goes on; a count is never negative, and until
  \<open>Close\<close> no subscription that is in use is cancelled. What can panic is a call of \<open>EnsureSubscribed\<close>, and exactly when
  the last timer of the user's subscription was stopped by an earlier call.\<close>

theorem order_updates_safe:
  assumes "released_once evs NewManager"
  shows "\<not> om_crashed (ou_run evs NewManager) \<and>
    (\<forall>n s. om_sub (ou_run evs NewManager) n = Some s \<longrightarrow> 0 \<le> os_count s \<and>
       (0 < os_count s \<and> \<not> om_closed (ou_run evs NewManager) \<longrightarrow> \<not> os_cancelled s)) \<and>
    (\<forall>user key run status. user \<noteq> [] \<longrightarrow> key \<noteq> [] \<longrightarrow> run \<noteq> uuid_Nil \<longrightarrow>
       (snd (EnsureSubscribed user key run status (ou_run evs NewManager)) = OuPanic \<longleftrightarrow> rearmed user (ou_run evs NewManager)))"
proof -
  have ok: "mgr_ok (ou_run evs NewManager)" by (rule ou_run_ok [OF NewManager_ok assms])
  then show ?thesis using Ensure_panics_iff [OF ok] by (fastforce simp: mgr_ok_def subs_ok_def)
qed

text \<open>Releasing a subscription once too often, twice within the grace delay, ends the whole server: both timers
  close the same channel.\<close>

theorem released_twice_crashes:
  assumes "user \<noteq> []" "key \<noteq> []" "run \<noteq> uuid_Nil"
  shows "om_crashed (ou_run [OuEnsure user key run ''running'', OuUnsubscribe user, OuUnsubscribe user, OuFires 1, OuFires 2] NewManager)"
  using assms
  by (simp add: ou_run_def ou_step_def NewManager_def EnsureSubscribed_def Unsubscribe_OU_def scheduleGraceTeardown_def
      timer_fires_def close_done_def set_sub_def set_timer_def Let_def)

text \<open>After a user's last run was stopped and another started within the grace delay, starting a third run panics:
  the stop channel of the old timer is closed a second time.\<close>

theorem restart_then_start_panics:
  assumes "user \<noteq> []" "key \<noteq> []" "r1 \<noteq> uuid_Nil" "r2 \<noteq> uuid_Nil" "r3 \<noteq> uuid_Nil"
  shows "snd (EnsureSubscribed user key r3 ''running''
    (ou_run [OuEnsure user key r1 ''running'', OuUnsubscribe user, OuEnsure user key r2 ''running''] NewManager)) = OuPanic"
  using assms
  by (simp add: ou_run_def ou_step_def NewManager_def EnsureSubscribed_def Unsubscribe_OU_def scheduleGraceTeardown_def
      grace_stop_def close_done_def set_sub_def set_timer_def Let_def)

text \<open>After the stream of a user ended with a rejected key, the next run only raises the count: its new key is
  never used.\<close>

lemma rejected_key_sticks:
  assumes "user \<noteq> []" "k1 \<noteq> []" "k2 \<noteq> []" "r1 \<noteq> uuid_Nil" "r2 \<noteq> uuid_Nil"
  shows "map_option os_reading (om_sub (ou_run [OuEnsure user k1 r1 ''running'', OuReaderEnds 0, OuEnsure user k2 r2 ''running''] NewManager) 0) = Some False"
  using assms
  by (simp add: ou_run_def ou_step_def NewManager_def EnsureSubscribed_def reader_ends_def set_sub_def Let_def)

section \<open>Concrete values\<close>

lemma no_nil: "''r'' \<noteq> uuid_Nil" "''s'' \<noteq> uuid_Nil" "''t'' \<noteq> uuid_Nil"
  by (simp_all add: uuid_Nil_def)

theorem poll_agrees_with_table_witness:
  "snapshotAndReconcile (Some (\<lambda>_. Some (''u'', ''completed''))) [''r''] [''r'' \<mapsto> (''u'', ''running'')] ''r'' = None"
proof -
  have "distinct [''r'']" "set [''r''] = dom [''r'' \<mapsto> (''u'', ''running'')]" by simp_all
  from poll_agrees_with_table [OF this, of "\<lambda>_. Some (''u'', ''completed'')" "''r''"] show ?thesis
    by (simp add: live_status_def)
qed

theorem order_update_routed_witness:
  "\<exists>e. snd (Translate Some [''twap''] (Some (\<lambda>_. Some (''u'', ''running''))) ''e'' time_zero [(''client_order_id'', JvString ''twap.r.1'')] ''u'' Map.empty) = Some e \<and>
     ev_RunID e = ''r''"
proof -
  have "string_field ''client_order_id'' [(''client_order_id'', JvString ''twap.r.1'')] = Some (BuildClientOrderID ''twap'' ''r'' ''1'')"
    by (simp add: string_field_def BuildClientOrderID_def)
  from order_update_routed [OF this, of "[''twap'']" Some "\<lambda>_. Some (''u'', ''running'')" "''e''" time_zero "''u''" Map.empty]
  show ?thesis by simp
qed

theorem backoff_bounds_witness: "nextDelay 1000000000 maxBackoff (Some 255) \<le> 2400000000"
  using backoff_bounds [of 1000000000 "Some 255"] by (simp add: maxBackoff_def)

theorem order_updates_safe_witness:
  "\<not> om_crashed (ou_run [OuEnsure ''u'' ''k'' ''r'' ''running'', OuUnsubscribe ''u'', OuFires 1, OuTeardown 1] NewManager)"
proof -
  have "released_once [OuEnsure ''u'' ''k'' ''r'' ''running'', OuUnsubscribe ''u'', OuFires 1, OuTeardown 1] NewManager"
    by (simp add: in_use_def ou_step_def NewManager_def EnsureSubscribed_def set_sub_def Let_def no_nil)
  from order_updates_safe [OF this] show ?thesis by blast
qed

theorem released_twice_crashes_witness:
  "om_crashed (ou_run [OuEnsure ''u'' ''k'' ''r'' ''running'', OuUnsubscribe ''u'', OuUnsubscribe ''u'', OuFires 1, OuFires 2] NewManager)"
  by (rule released_twice_crashes) (simp_all add: no_nil)

theorem restart_then_start_panics_witness:
  "snd (EnsureSubscribed ''u'' ''k'' ''t'' ''running''
    (ou_run [OuEnsure ''u'' ''k'' ''r'' ''running'', OuUnsubscribe ''u'', OuEnsure ''u'' ''k'' ''s'' ''running''] NewManager)) = OuPanic"
  by (rule restart_then_start_panics) (simp_all add: no_nil)

end
