(* ===== verification/Run_Service.thy ===== *)
theory Run_Service
  imports Go_Base
begin

text \<open>
  The service that runs strategies and backtests in the background, \<open>src/strategy/service.go\<close>.

  \<^item> A \<open>runState\<close> and its goroutine are a number; a context's cancel function is the number whose context it
    cancels. \<open>sv_runs\<close> keeps for each goroutine its run and, once \<open>Run\<close> returned, what it returned.
  \<^item> The channel of messages has no buffer: a send succeeds when the strategy receives it, or fails when the
    context of the request ends first (\<open>delivered\<close>).
\<close>

record goroutine =
  gr_run :: string
  gr_exit :: "gerror option option"

record bt_goroutine =
  bg_id :: string
  bg_sent :: bool

record Rsvc =
  sv_strategies :: "string \<Rightarrow> nat option"
  sv_backtests :: "string \<Rightarrow> nat option"
  sv_runs :: "nat \<Rightarrow> goroutine option"
  sv_bts :: "nat \<Rightarrow> bt_goroutine option"
  sv_cancelled :: "nat set"
  sv_next :: nat

definition NewService :: Rsvc where
  "NewService = \<lparr>sv_strategies = Map.empty, sv_backtests = Map.empty, sv_runs = Map.empty, sv_bts = Map.empty,
     sv_cancelled = {}, sv_next = 0\<rparr>"

definition ErrRunIDNotFound :: gerror where "ErrRunIDNotFound = ''run ID not found''"
definition ErrBacktestNotFound :: gerror where "ErrBacktestNotFound = ''backtest not found''"
definition context_ended :: gerror where "context_ended = ''context canceled''"

definition IsRunActive :: "string \<Rightarrow> Rsvc \<Rightarrow> bool" where
  "IsRunActive i s \<longleftrightarrow> sv_strategies s i \<noteq> None"

definition RunStrategyWithID :: "bool \<Rightarrow> string \<Rightarrow> Rsvc \<Rightarrow> Rsvc \<times> nat res" where
  "RunStrategyWithID ended i s =
     (if ended then (s, Inl context_ended)
      else if sv_strategies s i \<noteq> None then (s, Inl (''run ID '' @ i @ '' already exists''))
      else let n = sv_next s in
        (s\<lparr>sv_strategies := (sv_strategies s)(i \<mapsto> n), sv_runs := (sv_runs s)(n \<mapsto> \<lparr>gr_run = i, gr_exit = None\<rparr>),
           sv_next := n + 1\<rparr>, Inr n))"

definition RunStrategy :: "bool \<Rightarrow> string \<Rightarrow> Rsvc \<Rightarrow> Rsvc \<times> string res" where
  "RunStrategy ended fresh s =
     (case RunStrategyWithID ended fresh s of (s, Inl err) \<Rightarrow> (s, Inl err) | (s, Inr _) \<Rightarrow> (s, Inr fresh))"

text \<open>\<open>strategy.Run\<close> of a goroutine returns.\<close>

definition run_returns :: "nat \<Rightarrow> gerror option \<Rightarrow> Rsvc \<Rightarrow> Rsvc" where
  "run_returns n err s =
     (case sv_runs s n of
        None \<Rightarrow> s
      | Some g \<Rightarrow> (case gr_exit g of Some _ \<Rightarrow> s | None \<Rightarrow> s\<lparr>sv_runs := (sv_runs s)(n \<mapsto> g\<lparr>gr_exit := Some err\<rparr>)\<rparr>))"

text \<open>Its goroutine then deletes its own entry and cancels its context.\<close>

definition run_gone :: "nat \<Rightarrow> Rsvc \<Rightarrow> Rsvc" where
  "run_gone n s =
     (case sv_runs s n of
        None \<Rightarrow> s
      | Some g \<Rightarrow>
          if gr_exit g = None then s
          else s\<lparr>sv_strategies := (if sv_strategies s (gr_run g) = Some n then (sv_strategies s)(gr_run g := None) else sv_strategies s),
                 sv_cancelled := insert n (sv_cancelled s)\<rparr>)"

definition StopStrategy :: "bool \<Rightarrow> string \<Rightarrow> Rsvc \<Rightarrow> Rsvc \<times> gerror option" where
  "StopStrategy delivered i s =
     (case sv_strategies s i of
        None \<Rightarrow> (s, Some ErrRunIDNotFound)
      | Some n \<Rightarrow> if delivered then (s\<lparr>sv_cancelled := insert n (sv_cancelled s)\<rparr>, None) else (s, Some context_ended))"

definition PauseStrategy :: "bool \<Rightarrow> string \<Rightarrow> Rsvc \<Rightarrow> gerror option" where
  "PauseStrategy delivered i s =
     (case sv_strategies s i of None \<Rightarrow> Some ErrRunIDNotFound | Some n \<Rightarrow> if delivered then None else Some context_ended)"

definition ResumeStrategy :: "bool \<Rightarrow> string \<Rightarrow> Rsvc \<Rightarrow> gerror option" where
  "ResumeStrategy delivered i s =
     (case sv_strategies s i of None \<Rightarrow> Some ErrRunIDNotFound | Some n \<Rightarrow> if delivered then None else Some context_ended)"

definition RunBacktest :: "string \<Rightarrow> Rsvc \<Rightarrow> Rsvc \<times> nat" where
  "RunBacktest i s =
     (let n = sv_next s in
      (s\<lparr>sv_backtests := (sv_backtests s)(i \<mapsto> n), sv_bts := (sv_bts s)(n \<mapsto> \<lparr>bg_id = i, bg_sent = False\<rparr>), sv_next := n + 1\<rparr>, n))"

text \<open>The caller receives the result of a backtest.\<close>

definition backtest_received :: "nat \<Rightarrow> Rsvc \<Rightarrow> Rsvc" where
  "backtest_received n s =
     (case sv_bts s n of None \<Rightarrow> s | Some g \<Rightarrow> s\<lparr>sv_bts := (sv_bts s)(n \<mapsto> g\<lparr>bg_sent := True\<rparr>)\<rparr>)"

text \<open>Then its goroutine deletes the entry of its identifier, whoever put it there.\<close>

definition backtest_gone :: "nat \<Rightarrow> Rsvc \<Rightarrow> Rsvc" where
  "backtest_gone n s =
     (case sv_bts s n of
        None \<Rightarrow> s
      | Some g \<Rightarrow>
          if bg_sent g then s\<lparr>sv_backtests := (sv_backtests s)(bg_id g := None), sv_cancelled := insert n (sv_cancelled s)\<rparr> else s)"

definition StopBacktest :: "string \<Rightarrow> Rsvc \<Rightarrow> Rsvc \<times> gerror option" where
  "StopBacktest i s =
     (case sv_backtests s i of
        None \<Rightarrow> (s, Some ErrBacktestNotFound)
      | Some n \<Rightarrow> (s\<lparr>sv_cancelled := insert n (sv_cancelled s)\<rparr>, None))"

section \<open>Lemmas\<close>

text \<open>An entry names the goroutine of its own run, which has not been removed.\<close>

definition svc_ok :: "Rsvc \<Rightarrow> bool" where
  "svc_ok s \<longleftrightarrow> (\<forall>i n. sv_strategies s i = Some n \<longrightarrow> (\<exists>g. sv_runs s n = Some g \<and> gr_run g = i)) \<and>
     (\<forall>n g. sv_runs s n = Some g \<longrightarrow> n < sv_next s)"

lemma NewService_ok: "svc_ok NewService"
  by (simp add: svc_ok_def NewService_def)

lemma RunStrategyWithID_cases:
  obtains (failed) err where "RunStrategyWithID ended i s = (s, Inl err)" "ended \<or> IsRunActive i s"
  | (started) n where "n = sv_next s" "\<not> ended" "\<not> IsRunActive i s" "RunStrategyWithID ended i s =
      (s\<lparr>sv_strategies := (sv_strategies s)(i \<mapsto> n), sv_runs := (sv_runs s)(n \<mapsto> \<lparr>gr_run = i, gr_exit = None\<rparr>),
         sv_next := n + 1\<rparr>, Inr n)"
proof (cases "ended \<or> IsRunActive i s")
  case True
  then show thesis using failed by (cases ended) (simp_all add: RunStrategyWithID_def IsRunActive_def)
next
  case False
  then show thesis using started by (simp add: RunStrategyWithID_def IsRunActive_def Let_def)
qed

lemma svc_ok_steps:
  assumes "svc_ok s"
  shows "svc_ok (fst (RunStrategyWithID ended i s))" "svc_ok (run_returns n err s)" "svc_ok (run_gone n s)"
    "svc_ok (fst (StopStrategy d i s))" "svc_ok (fst (RunBacktest i s))" "svc_ok (backtest_received n s)"
    "svc_ok (backtest_gone n s)" "svc_ok (fst (StopBacktest i s))"
proof -
  have "sv_runs s n = Some g \<Longrightarrow> n \<noteq> sv_next s" for n g using assms by (auto simp: svc_ok_def)
  then show "svc_ok (fst (RunStrategyWithID ended i s))"
    using assms by (cases rule: RunStrategyWithID_cases [of ended i s]) (fastforce simp: svc_ok_def)+
  show "svc_ok (run_returns n err s)" "svc_ok (run_gone n s)"
    using assms by (fastforce simp: svc_ok_def run_returns_def run_gone_def split: option.splits)+
  show "svc_ok (fst (StopStrategy d i s))" "svc_ok (fst (RunBacktest i s))" "svc_ok (backtest_received n s)"
    "svc_ok (backtest_gone n s)" "svc_ok (fst (StopBacktest i s))"
    using assms by (fastforce simp: svc_ok_def StopStrategy_def RunBacktest_def backtest_received_def backtest_gone_def
      StopBacktest_def Let_def split: option.splits)+
qed

end
