(* ===== verification/Run_Handler.thy ===== *)
theory Run_Handler
  imports Run_Service Order_Updates
begin

text \<open>
  The runs of the strategy server, \<open>src/strategy/http/handler.go\<close>: creating, stopping, pausing, resuming and
  restoring a run, with the service that runs its strategy, the table of runs (\<open>run_store.go\<close>), the order
  updates of its user, the events published, and the goroutines that watch for its end.

  \<^item> A request is a composition of stages, each a definition. A creation takes the lock twice, to look for an active
    run on the order book and to enter the new one: its two halves are events of their own (\<open>HCheck\<close>, \<open>HLaunch\<close>), with
    anything in between, and \<open>h_checked\<close> holds the creations that stand there. \<open>HCreate\<close> is a creation without
    interruption. Stop, pause and resume are one event each. \<open>HEnv\<close> is what a request meets: who the
    caller is, the clock, fresh identifiers, whether the table answers, whether a message is received.
  \<^item> \<open>runOrderUpdater\<close> is called, not started as a goroutine: a request that reaches it for TWAP or VWAP stays there
    until its context is cancelled (\<open>h_blocked\<close>, with what is left to do).
  \<^item> The maps hold pointers: the detail a request of a known run works on is the entry of \<open>h_runs\<close>.
  \<^item> The configuration is its JSON text; \<open>hc_OrderBook\<close> and \<open>hc_EndTime\<close> read it, and \<open>hc_Strategies\<close> are the
    definitions of the strategies with their decoders. Encryption is a pair of functions. Messages of answers are
    kept without the values they quote. What the updater forwards to the channel of its strategy is not modelled.
\<close>

section \<open>Strategies\<close>

datatype StratKind = KMeanReversion | KCopyTrading | KBreakout | KMomentum | KTWAP | KVWAP | KOther

record Strat =
  st_kind :: StratKind
  st_client :: "string option"
  st_decisions :: bool
  st_state :: bool
  st_decisionSeq :: int

definition isExec :: "Strat \<Rightarrow> bool" where
  "isExec s \<longleftrightarrow> st_kind s = KTWAP \<or> st_kind s = KVWAP"

definition applyUserAPIKey :: "string \<Rightarrow> Strat \<Rightarrow> Strat" where
  "applyUserAPIKey key s = (if key = [] \<or> st_kind s = KOther then s else s\<lparr>st_client := Some key\<rparr>)"

definition canPlaceOrders :: "Strat \<Rightarrow> bool" where
  "canPlaceOrders s \<longleftrightarrow> st_kind s \<noteq> KOther \<and> st_client s \<noteq> None"

definition requireMarketClient :: "Strat \<Rightarrow> string \<Rightarrow> gerror option" where
  "requireMarketClient s type =
     (if canPlaceOrders s then None
      else Some (''strategy type '' @ type @ '' places live orders and requires a DORA API key (Authorization: ApiKey <key>)''))"

definition attachDecisionStore :: "bool \<Rightarrow> Strat \<Rightarrow> Strat" where
  "attachDecisionStore store s = (if store \<and> st_kind s \<noteq> KOther then s\<lparr>st_decisions := True\<rparr> else s)"

definition attachStateStore :: "bool \<Rightarrow> Strat \<Rightarrow> Strat" where
  "attachStateStore store s = (if store \<and> isExec s then s\<lparr>st_state := True\<rparr> else s)"

record StrategyDefinition =
  sd_Available :: bool
  sd_SupportsRun :: bool
  sd_SupportsBacktest :: bool
  sd_DecodeConfig :: "(string \<Rightarrow> string \<Rightarrow> (string \<times> Strat) res) option"

datatype capability = capabilityRun | capabilityBacktest

definition resolveStrategy ::
  "(string \<Rightarrow> StrategyDefinition option) \<Rightarrow> string \<Rightarrow> string \<Rightarrow> capability \<Rightarrow> (int \<times> gerror) + (string \<times> Strat)" where
  "resolveStrategy defs type config cap =
     (if type = [] then Inl (400, ''strategy_type is required'')
      else case defs type of
        None \<Rightarrow> Inl (400, ''unsupported strategy_type'')
      | Some d \<Rightarrow>
          if \<not> sd_Available d then Inl (501, ''strategy_type is not implemented'')
          else if cap = capabilityRun \<and> \<not> sd_SupportsRun d then Inl (501, ''strategy_type is not implemented for runs'')
          else if cap = capabilityBacktest \<and> \<not> sd_SupportsBacktest d then Inl (501, ''strategy_type is not implemented for backtests'')
          else
            (case sd_DecodeConfig d of
               None \<Rightarrow> Inl (501, ''strategy_type has no config decoder'')
             | Some f \<Rightarrow>
                 (case f config (if cap = capabilityRun then ''run'' else ''backtest'') of
                    Inl err \<Rightarrow> Inl (400, err)
                  | Inr r \<Rightarrow> Inr r)))"

section \<open>State\<close>

record RunDetail =
  rd_ID :: string
  rd_DORAUserID :: string
  rd_StrategyType :: string
  rd_Status :: string
  rd_CreatedAt :: gtime
  rd_UpdatedAt :: gtime
  rd_StoppedAt :: "gtime option"
  rd_Config :: string
  rd_EncryptedAPIKey :: string
  rd_Error :: string

datatype watch_pc = WtPolling | WtFound | WtGone

record watcher =
  wt_run :: string
  wt_stopLoss :: bool
  wt_pc :: watch_pc

text \<open>What a blocked request does when its updater returns.\<close>

datatype pending =
    PendCreate string Strat
  | PendResume string Strat string
  | PendRestore string Strat string "string list"

record HConfig =
  hc_Strategies :: "string \<Rightarrow> StrategyDefinition option"
  hc_runStore :: bool
  hc_decisionStore :: bool
  hc_stateStore :: bool
  hc_encKey :: string
  hc_OrderBook :: "string \<Rightarrow> string"
  hc_EndTime :: "string \<Rightarrow> gtime option"

record Handler =
  h_cfg :: HConfig
  h_runs :: "string \<Rightarrow> RunDetail option"
  h_exitErrs :: "string \<Rightarrow> gerror option option"
  h_completion :: "string \<Rightarrow> nat option"
  h_observers :: "string \<Rightarrow> nat option"
  h_watch :: "nat \<Rightarrow> watcher option"
  h_blocked :: "nat \<Rightarrow> (nat \<times> pending) option"
  h_cancelled :: "nat set"
  h_next :: nat
  h_svc :: Rsvc
  h_ou :: "ou_mgr option"
  h_bus :: "Bus option"
  h_table :: "string \<Rightarrow> RunDetail option"
  h_checked :: "(RunDetail \<times> Strat) list"

record HEnv =
  hq_user :: "string res"
  hq_apiKey :: "string option"
  hq_now :: gtime
  hq_newID :: string
  hq_eventID :: string
  hq_parseUUID :: "string \<Rightarrow> string option"
  hq_logOK :: bool
  hq_saveOK :: bool
  hq_ctxEnded :: bool
  hq_delivered :: bool
  hq_MaxSeq :: "int gopair"
  hq_Encrypt :: "string \<Rightarrow> string \<Rightarrow> string res"
  hq_Decrypt :: "string \<Rightarrow> string \<Rightarrow> string res"

definition NewHandler :: "HConfig \<Rightarrow> ou_mgr option \<Rightarrow> Bus option \<Rightarrow> (string \<Rightarrow> RunDetail option) \<Rightarrow> Handler" where
  "NewHandler cfg ou bus table =
     \<lparr>h_cfg = cfg, h_runs = Map.empty, h_exitErrs = Map.empty, h_completion = Map.empty, h_observers = Map.empty,
      h_watch = Map.empty, h_blocked = Map.empty, h_cancelled = {}, h_next = 0, h_svc = NewService, h_ou = ou, h_bus = bus,
      h_table = table, h_checked = []\<rparr>"

text \<open>A response, a request that has not answered yet, or a panic from which the server recovers.\<close>

datatype reply = Answer int string | AnswerRun int RunDetail | Blocked nat | Panicked

section \<open>Helpers\<close>

definition saveRun :: "HEnv \<Rightarrow> RunDetail \<Rightarrow> Handler \<Rightarrow> Handler \<times> gerror option" where
  "saveRun E d h =
     (if \<not> hc_runStore (h_cfg h) then (h, None)
      else if hq_saveOK E then (h\<lparr>h_table := (h_table h)(rd_ID d \<mapsto> d)\<rparr>, None)
      else (h, Some (''save strategy run '' @ rd_ID d)))"

definition run_event :: "EventType \<Rightarrow> string \<Rightarrow> string \<Rightarrow> gtime \<Rightarrow> (string \<times> jval) list \<Rightarrow> Event" where
  "run_event t user run now payload =
     \<lparr>ev_ID = [], ev_Type = t, ev_UserID = user, ev_RunID = run, ev_BacktestID = [], ev_Timestamp = now, ev_Payload = payload\<rparr>"

definition publish_h :: "HEnv \<Rightarrow> Event \<Rightarrow> Handler \<Rightarrow> Handler" where
  "publish_h E evt h = h\<lparr>h_bus := publishEvent (hq_logOK E) (hq_parseUUID E) (hq_eventID E) evt (h_bus h)\<rparr>"

definition set_run :: "string \<Rightarrow> (RunDetail \<Rightarrow> RunDetail) \<Rightarrow> Handler \<Rightarrow> Handler" where
  "set_run i f h = h\<lparr>h_runs := (case h_runs h i of None \<Rightarrow> h_runs h | Some d \<Rightarrow> (h_runs h)(i \<mapsto> f d))\<rparr>"

definition active_run :: "RunDetail \<Rightarrow> bool" where
  "active_run d \<longleftrightarrow> rd_Status d = ''running'' \<or> rd_Status d = ''paused''"

text \<open>\<open>findActiveRunForOrderBook\<close>; \<open>ids\<close> are the keys of the map in its order of iteration.\<close>

definition findActiveRunForOrderBook :: "string list \<Rightarrow> string \<Rightarrow> string \<Rightarrow> Handler \<Rightarrow> string option" where
  "findActiveRunForOrderBook ids user book h =
     map_option rd_ID (find (\<lambda>d. rd_DORAUserID d = user \<and> active_run d \<and> hc_OrderBook (h_cfg h) (rd_Config d) = book)
       (List.map_filter (h_runs h) ids))"

definition update_ou :: "(ou_mgr \<Rightarrow> ou_mgr) \<Rightarrow> Handler \<Rightarrow> Handler" where
  "update_ou f h = h\<lparr>h_ou := map_option f (h_ou h)\<rparr>"

text \<open>\<open>EnsureSubscribed\<close> as the handler calls it: an error is only logged, a panic is not.\<close>

definition ensure_h :: "string \<Rightarrow> string \<Rightarrow> string \<Rightarrow> string \<Rightarrow> Handler \<Rightarrow> Handler \<times> bool" where
  "ensure_h user key run status h =
     (case h_ou h of
        None \<Rightarrow> (h, False)
      | Some m \<Rightarrow>
          if om_crashed m then (h, False)
          else (case EnsureSubscribed user key run status m of (m, r) \<Rightarrow> (h\<lparr>h_ou := Some m\<rparr>, r = OuPanic)))"

section \<open>Goroutines of a run\<close>

definition start_watcher :: "string \<Rightarrow> bool \<Rightarrow> Handler \<Rightarrow> Handler" where
  "start_watcher i stopLoss h =
     (let n = h_next h in
      h\<lparr>h_watch := (h_watch h)(n \<mapsto> \<lparr>wt_run = i, wt_stopLoss = stopLoss, wt_pc = WtPolling\<rparr>), h_next := n + 1\<rparr>)"

definition startCompletionWatcher :: "string \<Rightarrow> Handler \<Rightarrow> Handler" where
  "startCompletionWatcher i h = (start_watcher i False h)\<lparr>h_completion := (h_completion h)(i \<mapsto> h_next h)\<rparr>"

text \<open>Only mean reversion has a stop-loss trigger.\<close>

definition startStopLossObserver :: "string \<Rightarrow> Strat \<Rightarrow> Handler \<Rightarrow> Handler" where
  "startStopLossObserver i s h =
     (if st_kind s \<noteq> KMeanReversion then h
      else (start_watcher i True h)\<lparr>h_observers := (h_observers h)(i \<mapsto> h_next h)\<rparr>)"

text \<open>\<open>startOrderUpdater\<close>: the number the request blocks on, \<open>None\<close> when it returns at once.\<close>

definition startOrderUpdater :: "string \<Rightarrow> string \<Rightarrow> Strat \<Rightarrow> pending \<Rightarrow> Handler \<Rightarrow> Handler \<times> nat option" where
  "startOrderUpdater i user s rest h =
     (case h_bus h of
        None \<Rightarrow> (h, None)
      | Some b \<Rightarrow>
          if user = [] \<or> \<not> isExec s then (h, None)
          else
            let n = h_next h;
                h = h\<lparr>h_observers := (h_observers h)(i \<mapsto> n), h_next := n + 1\<rparr>
            in (case bus_Subscribe user b of
                  (b, Inl _) \<Rightarrow> (h\<lparr>h_bus := Some b, h_cancelled := insert n (h_cancelled h)\<rparr>, None)
                | (b, Inr sub) \<Rightarrow> (h\<lparr>h_bus := Some b, h_blocked := (h_blocked h)(n \<mapsto> (sub, rest))\<rparr>, Some n)))"

text \<open>\<open>startRun\<close> on an entry of the map.\<close>

definition startRun :: "HEnv \<Rightarrow> string \<Rightarrow> Handler \<Rightarrow> Handler \<times> gerror option" where
  "startRun E i h =
     (let h = set_run i (\<lambda>d. d\<lparr>rd_Error := []\<rparr>) h in
      case RunStrategyWithID (hq_ctxEnded E) i (h_svc h) of
        (s, Inl err) \<Rightarrow> (h\<lparr>h_svc := s\<rparr>, Some err)
      | (s, Inr _) \<Rightarrow> (h\<lparr>h_svc := s\<rparr>, None))"

section \<open>Creating a run\<close>

record CreateRunRequest =
  cr_StrategyType :: string
  cr_Config :: string
  cr_ids :: "string list"

text \<open>Up to the new detail: the strategy, the caller, the order book, the keys.\<close>

definition create_check :: "HEnv \<Rightarrow> CreateRunRequest \<Rightarrow> Handler \<Rightarrow> reply + (RunDetail \<times> Strat)" where
  "create_check E req h =
     (case resolveStrategy (hc_Strategies (h_cfg h)) (cr_StrategyType req) (cr_Config req) capabilityRun of
        Inl (code, err) \<Rightarrow> Inl (Answer code err)
      | Inr (cfg, strat) \<Rightarrow>
          (case hq_user E of
             Inl err \<Rightarrow> Inl (Answer 500 (''resolve dora user: '' @ err))
           | Inr user \<Rightarrow>
               let book = hc_OrderBook (h_cfg h) cfg;
                   key = (case hq_apiKey E of None \<Rightarrow> [] | Some k \<Rightarrow> k);
                   strat = applyUserAPIKey key strat
               in if book \<noteq> [] \<and> findActiveRunForOrderBook (cr_ids req) user book h \<noteq> None
                  then Inl (Answer 409 ''a strategy is already active for this order book'')
                  else
                    (case requireMarketClient strat (cr_StrategyType req) of
                       Some err \<Rightarrow> Inl (Answer 400 err)
                     | None \<Rightarrow>
                         let strat = attachStateStore (hc_stateStore (h_cfg h)) (attachDecisionStore (hc_decisionStore (h_cfg h)) strat)
                         in (case (if key \<noteq> [] \<and> hc_encKey (h_cfg h) \<noteq> [] then hq_Encrypt E key (hc_encKey (h_cfg h)) else Inr []) of
                               Inl err \<Rightarrow> Inl (Answer 500 (''encrypt api key: '' @ err))
                             | Inr enc \<Rightarrow>
                                 Inr (\<lparr>rd_ID = hq_newID E, rd_DORAUserID = user, rd_StrategyType = cr_StrategyType req,
                                       rd_Status = ''running'', rd_CreatedAt = time_UTC (hq_now E), rd_UpdatedAt = time_UTC (hq_now E),
                                       rd_StoppedAt = None, rd_Config = cfg, rd_EncryptedAPIKey = enc, rd_Error = []\<rparr>, strat)))))"

text \<open>The strategy starts; the run is saved and only then entered in the map; its user's order updates are taken.\<close>

definition create_start :: "HEnv \<Rightarrow> RunDetail \<Rightarrow> Handler \<Rightarrow> Handler \<times> reply option" where
  "create_start E d h =
     (case RunStrategyWithID (hq_ctxEnded E) (rd_ID d) (h_svc h) of
        (s, Inl err) \<Rightarrow> (h\<lparr>h_svc := s\<rparr>, Some (Answer 500 (''run strategy: '' @ err)))
      | (s, Inr _) \<Rightarrow>
          (case saveRun E d (h\<lparr>h_svc := s\<rparr>) of
             (h, Some err) \<Rightarrow> (h, Some (Answer 500 (''save run: '' @ err)))
           | (h, None) \<Rightarrow>
               let h = h\<lparr>h_runs := (h_runs h)(rd_ID d \<mapsto> d)\<rparr>;
                   key = (case hq_apiKey E of None \<Rightarrow> [] | Some k \<Rightarrow> k)
               in if rd_DORAUserID d \<noteq> [] \<and> key \<noteq> []
                  then (case ensure_h (rd_DORAUserID d) key (rd_ID d) (rd_Status d) h of
                          (h, panicked) \<Rightarrow> (h, if panicked then Some Panicked else None))
                  else (h, None)))"

text \<open>After the updater: the observers, the event and the response.\<close>

definition create_finish :: "HEnv \<Rightarrow> string \<Rightarrow> Strat \<Rightarrow> Handler \<Rightarrow> Handler \<times> reply" where
  "create_finish E i strat h =
     (case h_runs h i of
        None \<Rightarrow> (h, Panicked)
      | Some d \<Rightarrow>
          let h = startCompletionWatcher i (startStopLossObserver i strat h);
              h = publish_h E (run_event EventRunStarted (rd_DORAUserID d) i (time_UTC (hq_now E)) [(''strategy_type'', JvString (rd_StrategyType d))]) h
          in (h, AnswerRun 201 d))"

text \<open>What follows the check.\<close>

definition create_launch :: "HEnv \<Rightarrow> RunDetail \<Rightarrow> Strat \<Rightarrow> Handler \<Rightarrow> Handler \<times> reply" where
  "create_launch E d strat h =
     (case create_start E d h of
        (h, Some r) \<Rightarrow> (h, r)
      | (h, None) \<Rightarrow>
          (case startOrderUpdater (rd_ID d) (rd_DORAUserID d) strat (PendCreate (rd_ID d) strat) h of
             (h, Some n) \<Rightarrow> (h, Blocked n)
           | (h, None) \<Rightarrow> create_finish E (rd_ID d) strat h))"

definition createRun :: "HEnv \<Rightarrow> CreateRunRequest \<Rightarrow> Handler \<Rightarrow> Handler \<times> reply" where
  "createRun E req h =
     (case create_check E req h of
        Inl r \<Rightarrow> (h, r)
      | Inr (d, strat) \<Rightarrow> create_launch E d strat h)"

text \<open>The two halves when other requests come in between.\<close>

definition createRun_check :: "HEnv \<Rightarrow> CreateRunRequest \<Rightarrow> Handler \<Rightarrow> Handler" where
  "createRun_check E req h =
     (case create_check E req h of Inl r \<Rightarrow> h | Inr c \<Rightarrow> h\<lparr>h_checked := c # h_checked h\<rparr>)"

definition createRun_launch :: "HEnv \<Rightarrow> RunDetail \<times> Strat \<Rightarrow> Handler \<Rightarrow> Handler \<times> reply option" where
  "createRun_launch E c h =
     (if c \<in> set (h_checked h)
      then (case create_launch E (fst c) (snd c) (h\<lparr>h_checked := remove1 c (h_checked h)\<rparr>) of (h, r) \<Rightarrow> (h, Some r))
      else (h, None))"

section \<open>Stopping, pausing, reading\<close>

definition getRun :: "HEnv \<Rightarrow> string \<Rightarrow> Handler \<Rightarrow> reply" where
  "getRun E i h =
     (case hq_user E of
        Inl err \<Rightarrow> Answer 500 (''resolve dora user: '' @ err)
      | Inr user \<Rightarrow>
          (case h_runs h i of
             None \<Rightarrow> Answer 404 ''run not found''
           | Some d \<Rightarrow> if rd_DORAUserID d \<noteq> user then Answer 403 ''access denied'' else AnswerRun 200 d))"

text \<open>The run of a request, if the caller owns it.\<close>

definition owned_run :: "HEnv \<Rightarrow> string \<Rightarrow> Handler \<Rightarrow> reply + (string \<times> RunDetail)" where
  "owned_run E i h =
     (case h_runs h i of
        None \<Rightarrow> Inl (Answer 404 ''run not found'')
      | Some d \<Rightarrow>
          (case hq_user E of
             Inl err \<Rightarrow> Inl (Answer 500 (''resolve dora user: '' @ err))
           | Inr user \<Rightarrow> if rd_DORAUserID d \<noteq> user then Inl (Answer 404 ''run not found'') else Inr (user, d)))"

definition service_error :: "string \<Rightarrow> gerror \<Rightarrow> reply" where
  "service_error what err =
     (if err = ErrRunIDNotFound then Answer 404 ''run not found'' else Answer 500 (what @ err))"

text \<open>Until the strategy has taken the message.\<close>

definition stop_send :: "HEnv \<Rightarrow> string \<Rightarrow> Handler \<Rightarrow> Handler \<times> (reply + string)" where
  "stop_send E i h =
     (case owned_run E i h of
        Inl r \<Rightarrow> (h, Inl r)
      | Inr (user, d) \<Rightarrow>
          if rd_Status d = ''stopped'' then (h, Inr user)
          else (case StopStrategy (hq_delivered E) i (h_svc h) of
                  (s, Some err) \<Rightarrow> (h, Inl (service_error ''stop run: '' err))
                | (s, None) \<Rightarrow> (h\<lparr>h_svc := s\<rparr>, Inr user)))"

definition cancel_of :: "(string \<Rightarrow> nat option) \<Rightarrow> string \<Rightarrow> nat set" where
  "cancel_of m i = (case m i of None \<Rightarrow> {} | Some n \<Rightarrow> {n})"

text \<open>The transition, the cancellations and the release of the order updates.\<close>

definition stop_mark :: "HEnv \<Rightarrow> string \<Rightarrow> string \<Rightarrow> Handler \<Rightarrow> Handler" where
  "stop_mark E i user h =
     (let now = time_UTC (hq_now E);
          h = set_run i (\<lambda>d. d\<lparr>rd_Status := ''stopped'', rd_UpdatedAt := now, rd_StoppedAt := Some now\<rparr>) h;
          h = h\<lparr>h_cancelled := h_cancelled h \<union> cancel_of (h_observers h) i \<union> cancel_of (h_completion h) i\<rparr>
      in if user = [] then h else update_ou (ou_step (OuUnsubscribe user)) (update_ou (UpdateRunStatus i ''stopped'') h))"

definition announce :: "HEnv \<Rightarrow> EventType \<Rightarrow> string \<Rightarrow> string \<Rightarrow> Handler \<Rightarrow> Handler \<times> reply" where
  "announce E t i user h =
     (case h_runs h i of
        None \<Rightarrow> (h, Panicked)
      | Some d \<Rightarrow>
          (case saveRun E d h of
             (h, Some err) \<Rightarrow> (h, Answer 500 (''save run: '' @ err))
           | (h, None) \<Rightarrow>
               let h = publish_h E (run_event t user i (time_UTC (hq_now E)) []) h in (h, getRun E i h)))"

definition stopRun :: "HEnv \<Rightarrow> string \<Rightarrow> Handler \<Rightarrow> Handler \<times> reply" where
  "stopRun E i h =
     (case stop_send E i h of
        (h, Inl r) \<Rightarrow> (h, r)
      | (h, Inr user) \<Rightarrow> announce E EventRunStopped i user (stop_mark E i user h))"

definition pause_send :: "HEnv \<Rightarrow> string \<Rightarrow> Handler \<Rightarrow> reply + string" where
  "pause_send E i h =
     (case owned_run E i h of
        Inl r \<Rightarrow> Inl r
      | Inr (user, d) \<Rightarrow>
          if rd_Status d = ''stopped'' then Inl (Answer 409 ''run is stopped'')
          else (case PauseStrategy (hq_delivered E) i (h_svc h) of
                  Some err \<Rightarrow> Inl (service_error ''stop run: '' err)
                | None \<Rightarrow> Inr user))"

definition pause_mark :: "HEnv \<Rightarrow> string \<Rightarrow> Handler \<Rightarrow> Handler" where
  "pause_mark E i h =
     update_ou (UpdateRunStatus i ''paused'')
       (set_run i (\<lambda>d. d\<lparr>rd_Status := ''paused'', rd_UpdatedAt := time_UTC (hq_now E)\<rparr>) h)"

definition pauseRun :: "HEnv \<Rightarrow> string \<Rightarrow> Handler \<Rightarrow> Handler \<times> reply" where
  "pauseRun E i h =
     (case pause_send E i h of
        Inl r \<Rightarrow> (h, r)
      | Inr user \<Rightarrow> announce E EventRunPaused i user (pause_mark E i h))"

section \<open>Resuming\<close>

definition errRunUnusableAPIKey :: gerror where
  "errRunUnusableAPIKey = ''run has no usable stored DORA API key''"

definition failUnusableAPIKeyRun :: "HEnv \<Rightarrow> string \<Rightarrow> string \<Rightarrow> Handler \<Rightarrow> Handler" where
  "failUnusableAPIKeyRun E i reason h =
     (let now = time_UTC (hq_now E);
          user = (case h_runs h i of None \<Rightarrow> [] | Some d \<Rightarrow> rd_DORAUserID d);
          h = set_run i (\<lambda>d. d\<lparr>rd_Status := ''failed'', rd_Error := reason, rd_UpdatedAt := now, rd_StoppedAt := Some now\<rparr>) h;
          h = (case h_runs h i of None \<Rightarrow> h | Some d \<Rightarrow> fst (saveRun E d h))
      in publish_h E (run_event EventRunFailed user i now [(''error'', JvString reason)]) h)"

text \<open>The key the run trades with: the caller's, which replaces the stored one, or the stored one.\<close>

definition resume_key :: "HEnv \<Rightarrow> string \<Rightarrow> string \<Rightarrow> Handler \<Rightarrow> Handler \<times> string res" where
  "resume_key E i callerKey h =
     (let encKey = hc_encKey (h_cfg h);
          stored = (case h_runs h i of None \<Rightarrow> [] | Some d \<Rightarrow> rd_EncryptedAPIKey d)
      in if callerKey \<noteq> [] then
           if encKey \<noteq> [] then
             (case hq_Encrypt E callerKey encKey of
                Inl err \<Rightarrow> (h, Inl (''encrypt api key for run '' @ i @ '': '' @ err))
              | Inr enc \<Rightarrow> (set_run i (\<lambda>d. d\<lparr>rd_EncryptedAPIKey := enc\<rparr>) h, Inr callerKey))
           else (h, Inr callerKey)
         else if stored \<noteq> [] \<and> encKey \<noteq> [] then
           (case hq_Decrypt E stored encKey of
              Inl _ \<Rightarrow> (failUnusableAPIKeyRun E i ''stored DORA API key cannot be decrypted; resume with a valid API key to replace it'' h,
                        Inl errRunUnusableAPIKey)
            | Inr key \<Rightarrow> (h, Inr key))
         else (h, Inr []))"

definition seedDecisionSeq :: "HEnv \<Rightarrow> HConfig \<Rightarrow> Strat \<Rightarrow> Strat" where
  "seedDecisionSeq E cfg s =
     (if hc_decisionStore cfg \<and> snd (hq_MaxSeq E) = None \<and> st_kind s \<noteq> KOther then s\<lparr>st_decisionSeq := fst (hq_MaxSeq E)\<rparr> else s)"

text \<open>Up to the strategy with its key, its stores and its counter.\<close>

definition resume_prepare :: "HEnv \<Rightarrow> string \<Rightarrow> string \<Rightarrow> Handler \<Rightarrow> Handler \<times> (Strat \<times> string) res" where
  "resume_prepare E i callerKey h =
     (case h_runs h i of
        None \<Rightarrow> (h, Inl ''no such run'')
      | Some d \<Rightarrow>
          (case resolveStrategy (hc_Strategies (h_cfg h)) (rd_StrategyType d) (rd_Config d) capabilityRun of
             Inl (_, err) \<Rightarrow> (h, Inl err)
           | Inr (_, strat) \<Rightarrow>
               (case resume_key E i callerKey h of
                  (h, Inl err) \<Rightarrow> (h, Inl err)
                | (h, Inr key) \<Rightarrow>
                    let strat = applyUserAPIKey key strat in
                    if \<not> canPlaceOrders strat
                    then (failUnusableAPIKeyRun E i ''run has no stored DORA API key; resume with a valid API key to replace it'' h,
                          Inl errRunUnusableAPIKey)
                    else (h, Inr (seedDecisionSeq E (h_cfg h)
                      (attachStateStore (hc_stateStore (h_cfg h)) (attachDecisionStore (hc_decisionStore (h_cfg h)) strat)), key)))))"

text \<open>After the updater: the run is marked running and its strategy starts.\<close>

definition resume_launch :: "HEnv \<Rightarrow> string \<Rightarrow> Strat \<Rightarrow> string \<Rightarrow> Handler \<Rightarrow> Handler \<times> (reply + gerror option)" where
  "resume_launch E i strat key h =
     (case startRun E i (set_run i (\<lambda>d. d\<lparr>rd_Status := ''running'', rd_UpdatedAt := time_UTC (hq_now E), rd_StoppedAt := None\<rparr>) h) of
        (h, Some err) \<Rightarrow> (h, Inr (Some err))
      | (h, None) \<Rightarrow>
          (case h_runs h i of
             None \<Rightarrow> (h, Inl Panicked)
           | Some d \<Rightarrow>
               (case (if rd_DORAUserID d \<noteq> [] \<and> key \<noteq> [] then ensure_h (rd_DORAUserID d) key i (rd_Status d) h else (h, False)) of
                  (h, True) \<Rightarrow> (h, Inl Panicked)
                | (h, False) \<Rightarrow> (startCompletionWatcher i (startStopLossObserver i strat h), Inr None))))"

text \<open>\<open>resumePersistedRun\<close>: it may block before the strategy is started.\<close>

definition resumePersistedRun ::
  "HEnv \<Rightarrow> string \<Rightarrow> string \<Rightarrow> (Strat \<Rightarrow> string \<Rightarrow> pending) \<Rightarrow> Handler \<Rightarrow> Handler \<times> (reply + gerror option)" where
  "resumePersistedRun E i callerKey rest h =
     (case resume_prepare E i callerKey h of
        (h, Inl err) \<Rightarrow> (h, Inr (Some err))
      | (h, Inr (strat, key)) \<Rightarrow>
          (let user = (case h_runs h i of None \<Rightarrow> [] | Some d \<Rightarrow> rd_DORAUserID d) in
           case startOrderUpdater i user strat (rest strat key) h of
             (h, Some n) \<Rightarrow> (h, Inl (Blocked n))
           | (h, None) \<Rightarrow> resume_launch E i strat key h))"

definition writeResumeError :: "gerror \<Rightarrow> reply" where
  "writeResumeError err =
     (if err = errRunUnusableAPIKey
      then Answer 409 ''run has no usable stored DORA API key; resume with a valid DORA API key (Authorization: ApiKey <key>) to replace it''
      else Answer 500 (''resume run: '' @ err))"

text \<open>The transition and its effects, in one critical section.\<close>

definition resume_mark :: "HEnv \<Rightarrow> string \<Rightarrow> Handler \<Rightarrow> Handler \<times> reply" where
  "resume_mark E i h =
     (case h_runs h i of
        None \<Rightarrow> (h, getRun E i h)
      | Some d \<Rightarrow>
          if rd_Status d = ''failed'' \<or> rd_Status d = ''completed'' \<or> rd_Status d = ''stopped'' then (h, getRun E i h)
          else
            let h = update_ou (UpdateRunStatus i ''running'')
                      (set_run i (\<lambda>d. d\<lparr>rd_Status := ''running'', rd_UpdatedAt := time_UTC (hq_now E), rd_StoppedAt := None\<rparr>) h)
            in (case saveRun E (d\<lparr>rd_Status := ''running'', rd_UpdatedAt := time_UTC (hq_now E), rd_StoppedAt := None\<rparr>) h of
                  (h, Some err) \<Rightarrow> (h, Answer 500 (''save run: '' @ err))
                | (h, None) \<Rightarrow>
                    let h = publish_h E (run_event EventRunResumed (rd_DORAUserID d) i (time_UTC (hq_now E)) []) h
                    in (h, getRun E i h)))"

definition resume_continue :: "HEnv \<Rightarrow> string \<Rightarrow> Handler \<times> (reply + gerror option) \<Rightarrow> Handler \<times> reply" where
  "resume_continue E i r =
     (case r of
        (h, Inl rep) \<Rightarrow> (h, rep)
      | (h, Inr (Some err)) \<Rightarrow> (h, writeResumeError err)
      | (h, Inr None) \<Rightarrow> resume_mark E i h)"

definition resumeRun :: "HEnv \<Rightarrow> string \<Rightarrow> Handler \<Rightarrow> Handler \<times> reply" where
  "resumeRun E i h =
     (case owned_run E i h of
        Inl r \<Rightarrow> (h, r)
      | Inr (user, d) \<Rightarrow>
          if rd_Status d = ''stopped'' then (h, Answer 409 ''run is stopped'')
          else
            (case ResumeStrategy (hq_delivered E) i (h_svc h) of
               None \<Rightarrow> resume_mark E i h
             | Some err \<Rightarrow>
                 if err \<noteq> ErrRunIDNotFound then (h, Answer 500 (''resume run: '' @ err))
                 else resume_continue E i
                        (resumePersistedRun E i (case hq_apiKey E of None \<Rightarrow> [] | Some k \<Rightarrow> k) (PendResume i) h)))"

section \<open>Restoring\<close>

definition runWindowExpired :: "HEnv \<Rightarrow> RunDetail \<Rightarrow> Handler \<Rightarrow> bool" where
  "runWindowExpired E d h =
     (case hc_EndTime (h_cfg h) (rd_Config d) of None \<Rightarrow> False | Some t \<Rightarrow> \<not> time_IsZero t \<and> time_After (hq_now E) t)"

definition expireRun :: "HEnv \<Rightarrow> string \<Rightarrow> Handler \<Rightarrow> Handler" where
  "expireRun E i h =
     (let now = time_UTC (hq_now E);
          user = (case h_runs h i of None \<Rightarrow> [] | Some d \<Rightarrow> rd_DORAUserID d);
          h = set_run i (\<lambda>d. d\<lparr>rd_Status := ''completed'', rd_UpdatedAt := now, rd_StoppedAt := Some now\<rparr>) h;
          h = (case h_runs h i of None \<Rightarrow> h | Some d \<Rightarrow> fst (saveRun E d h))
      in publish_h E (run_event EventRunCompleted user i now []) h)"

text \<open>The loop over the loaded runs; \<open>None\<close> when it ended without an error.\<close>

fun restore_loop :: "HEnv \<Rightarrow> string list \<Rightarrow> Handler \<Rightarrow> Handler \<times> (reply + gerror option)" where
  "restore_loop E [] h = (h, Inr None)"
| "restore_loop E (i # ids) h =
     (case h_runs h i of
        None \<Rightarrow> restore_loop E ids h
      | Some d \<Rightarrow>
          if rd_Status d \<noteq> ''running'' then restore_loop E ids h
          else if runWindowExpired E d h then restore_loop E ids (expireRun E i h)
          else
            (case resumePersistedRun E i [] (\<lambda>s k. PendRestore i s k ids) h of
               (h, Inl r) \<Rightarrow> (h, Inl r)
             | (h, Inr None) \<Rightarrow> restore_loop E ids h
             | (h, Inr (Some err)) \<Rightarrow>
                 if err = errRunUnusableAPIKey then restore_loop E ids h
                 else (h, Inr (Some (''restore run '' @ i @ '': '' @ err)))))"

text \<open>\<open>LoadRuns\<close> returns every row but the stopped ones; \<open>ids\<close> is the order of the query.\<close>

definition loaded_run :: "(string \<Rightarrow> RunDetail option) \<Rightarrow> string \<Rightarrow> RunDetail option" where
  "loaded_run table i = (case table i of None \<Rightarrow> None | Some d \<Rightarrow> if rd_Status d \<noteq> ''stopped'' then Some d else None)"

definition RestoreRuns :: "HEnv \<Rightarrow> bool \<Rightarrow> string list \<Rightarrow> Handler \<Rightarrow> Handler \<times> (reply + gerror option)" where
  "RestoreRuns E loadOK ids h =
     (if \<not> hc_runStore (h_cfg h) then (h, Inr None)
      else if \<not> loadOK then (h, Inr (Some ''load runs''))
      else
        let ids = filter (\<lambda>i. loaded_run (h_table h) i \<noteq> None) ids
        in restore_loop E ids (h\<lparr>h_runs := h_runs h ++ (\<lambda>i. if i \<in> set ids then loaded_run (h_table h) i else None)\<rparr>))"

section \<open>The end of a run\<close>

text \<open>\<open>Run\<close> of a strategy returns: the recorder stores the result, then the service removes the run.\<close>

definition strategy_exits :: "nat \<Rightarrow> gerror option \<Rightarrow> Handler \<Rightarrow> Handler" where
  "strategy_exits n err h =
     (case sv_runs (h_svc h) n of
        None \<Rightarrow> h
      | Some g \<Rightarrow>
          if gr_exit g \<noteq> None then h
          else h\<lparr>h_exitErrs := (h_exitErrs h)(gr_run g \<mapsto> err), h_svc := run_returns n err (h_svc h)\<rparr>)"

definition strategy_gone :: "nat \<Rightarrow> Handler \<Rightarrow> Handler" where
  "strategy_gone n h = h\<lparr>h_svc := run_gone n (h_svc h)\<rparr>"

definition maybePublishNaturalCompletion :: "HEnv \<Rightarrow> string \<Rightarrow> Handler \<Rightarrow> Handler" where
  "maybePublishNaturalCompletion E i h =
     (let exitErr = (case h_exitErrs h i of None \<Rightarrow> None | Some e \<Rightarrow> e);
          h = h\<lparr>h_exitErrs := (h_exitErrs h)(i := None)\<rparr>
      in case h_runs h i of
           None \<Rightarrow> h
         | Some d \<Rightarrow>
             if rd_Status d \<noteq> ''running'' then h
             else
               let now = time_UTC (hq_now E);
                   d = (case exitErr of
                          None \<Rightarrow> d\<lparr>rd_Status := ''completed'', rd_UpdatedAt := now, rd_StoppedAt := Some now\<rparr>
                        | Some e \<Rightarrow> d\<lparr>rd_Status := ''failed'', rd_Error := e, rd_UpdatedAt := now, rd_StoppedAt := Some now\<rparr>);
                   h = fst (saveRun E d (h\<lparr>h_runs := (h_runs h)(i \<mapsto> d)\<rparr>))
               in publish_h E (run_event (if exitErr = None then EventRunCompleted else EventRunFailed) (rd_DORAUserID d) i now
                    (case exitErr of None \<Rightarrow> [] | Some e \<Rightarrow> [(''error'', JvString e)])) h)"

definition watcher_exit :: "nat \<Rightarrow> watcher \<Rightarrow> Handler \<Rightarrow> Handler" where
  "watcher_exit n w h =
     (let h = h\<lparr>h_watch := (h_watch h)(n \<mapsto> w\<lparr>wt_pc := WtGone\<rparr>), h_cancelled := insert n (h_cancelled h)\<rparr>
      in if wt_stopLoss w then h\<lparr>h_observers := (h_observers h)(wt_run w := None)\<rparr>
         else h\<lparr>h_completion := (h_completion h)(wt_run w := None)\<rparr>)"

text \<open>A tick: the run is gone, or it is there; a stop-loss observer may see the trigger and end.\<close>

definition watcher_tick :: "HEnv \<Rightarrow> bool \<Rightarrow> nat \<Rightarrow> Handler \<Rightarrow> Handler" where
  "watcher_tick E triggered n h =
     (case h_watch h n of
        None \<Rightarrow> h
      | Some w \<Rightarrow>
          if wt_pc w \<noteq> WtPolling then h
          else if \<not> IsRunActive (wt_run w) (h_svc h) then h\<lparr>h_watch := (h_watch h)(n \<mapsto> w\<lparr>wt_pc := WtFound\<rparr>)\<rparr>
          else if wt_stopLoss w \<and> triggered
          then watcher_exit n w (publish_h E (run_event EventRunStopLoss
                 (case h_runs h (wt_run w) of None \<Rightarrow> [] | Some d \<Rightarrow> rd_DORAUserID d) (wt_run w) time_zero
                 [(''z_score'', JvOther), (''pnl'', JvOther)]) h)
          else h)"

definition watcher_done :: "nat \<Rightarrow> Handler \<Rightarrow> Handler" where
  "watcher_done n h =
     (case h_watch h n of
        None \<Rightarrow> h
      | Some w \<Rightarrow> if wt_pc w = WtPolling \<and> n \<in> h_cancelled h then watcher_exit n w h else h)"

definition watcher_publish :: "HEnv \<Rightarrow> nat \<Rightarrow> Handler \<Rightarrow> Handler" where
  "watcher_publish E n h =
     (case h_watch h n of
        None \<Rightarrow> h
      | Some w \<Rightarrow>
          if wt_pc w = WtFound then watcher_exit n w (maybePublishNaturalCompletion E (wt_run w) h) else h)"

text \<open>The updater a request is blocked in closes its subscription and returns: the request goes on.\<close>

definition unblock :: "HEnv \<Rightarrow> nat \<Rightarrow> Handler \<Rightarrow> Handler \<times> reply option" where
  "unblock E n h =
     (if n \<notin> h_cancelled h then (h, None)
      else
        (case h_blocked h n of
           None \<Rightarrow> (h, None)
         | Some (sub, p) \<Rightarrow>
             let h = h\<lparr>h_blocked := (h_blocked h)(n := None),
                        h_bus := map_option (\<lambda>b. b\<lparr>bus_hub := sub_Close sub (bus_hub b)\<rparr>) (h_bus h)\<rparr>
             in (case p of
                   PendCreate i strat \<Rightarrow> (case create_finish E i strat h of (h, r) \<Rightarrow> (h, Some r))
                 | PendResume i strat key \<Rightarrow> (case resume_continue E i (resume_launch E i strat key h) of (h, r) \<Rightarrow> (h, Some r))
                 | PendRestore i strat key ids \<Rightarrow>
                     (case resume_launch E i strat key h of
                        (h, Inl r) \<Rightarrow> (h, Some r)
                      | (h, Inr (Some err)) \<Rightarrow> (h, None)
                      | (h, Inr None) \<Rightarrow>
                          (case restore_loop E ids h of (h, Inl r) \<Rightarrow> (h, Some r) | (h, Inr _) \<Rightarrow> (h, None))))))"

section \<open>Everything that happens\<close>

datatype h_ev =
    HCreate HEnv CreateRunRequest
  | HCheck HEnv CreateRunRequest
  | HLaunch HEnv "RunDetail \<times> Strat"
  | HStop HEnv string
  | HPause HEnv string
  | HResume HEnv string
  | HExits nat "gerror option"
  | HGone nat
  | HTick HEnv bool nat
  | HWatchDone nat
  | HWatchPublish HEnv nat
  | HUnblock HEnv nat
  | HOrderUpdates ou_ev

text \<open>A crashed process does nothing.\<close>

definition h_crashed :: "Handler \<Rightarrow> bool" where
  "h_crashed h \<longleftrightarrow> (case h_ou h of None \<Rightarrow> False | Some m \<Rightarrow> om_crashed m)"

definition h_step :: "h_ev \<Rightarrow> Handler \<Rightarrow> Handler" where
  "h_step ev h =
     (if h_crashed h then h
      else case ev of
        HCreate E req \<Rightarrow> fst (createRun E req h)
      | HCheck E req \<Rightarrow> createRun_check E req h
      | HLaunch E c \<Rightarrow> fst (createRun_launch E c h)
      | HStop E i \<Rightarrow> fst (stopRun E i h)
      | HPause E i \<Rightarrow> fst (pauseRun E i h)
      | HResume E i \<Rightarrow> fst (resumeRun E i h)
      | HExits n err \<Rightarrow> strategy_exits n err h
      | HGone n \<Rightarrow> strategy_gone n h
      | HTick E b n \<Rightarrow> watcher_tick E b n h
      | HWatchDone n \<Rightarrow> watcher_done n h
      | HWatchPublish E n \<Rightarrow> watcher_publish E n h
      | HUnblock E n \<Rightarrow> fst (unblock E n h)
      | HOrderUpdates e \<Rightarrow> update_ou (ou_step e) h)"

definition h_run :: "h_ev list \<Rightarrow> Handler \<Rightarrow> Handler" where
  "h_run evs h = fold h_step evs h"

end
