(* ===== verification/Run_Handler_Props.thy ===== *)
theory Run_Handler_Props
  imports Run_Handler
begin

text \<open>
  The invariant of the runs of the server, over every order of requests and goroutines that does not
  resume a run: \<open>statuses_ok\<close>, \<open>books_ok\<close>, \<open>exits_ok\<close> and \<open>watch_ok\<close>, each kept by every step.
\<close>

section \<open>Frames\<close>

named_theorems h_frame \<open>what the helpers of the handler leave alone\<close>

lemma saveRun_frame [h_frame]:
  "h_runs (fst (saveRun E d h)) = h_runs h" "h_exitErrs (fst (saveRun E d h)) = h_exitErrs h" "h_svc (fst (saveRun E d h)) = h_svc h"
  "h_watch (fst (saveRun E d h)) = h_watch h" "h_blocked (fst (saveRun E d h)) = h_blocked h" "h_cfg (fst (saveRun E d h)) = h_cfg h"
  "h_ou (fst (saveRun E d h)) = h_ou h" "h_bus (fst (saveRun E d h)) = h_bus h"
  "h_checked (fst (saveRun E d h)) = h_checked h"
  by (simp_all add: saveRun_def)

lemma publish_frame [h_frame]:
  "h_runs (publish_h E e h) = h_runs h" "h_exitErrs (publish_h E e h) = h_exitErrs h" "h_svc (publish_h E e h) = h_svc h"
  "h_watch (publish_h E e h) = h_watch h" "h_blocked (publish_h E e h) = h_blocked h" "h_cfg (publish_h E e h) = h_cfg h"
  "h_checked (publish_h E e h) = h_checked h"
  by (simp_all add: publish_h_def)

lemma update_ou_frame [h_frame]:
  "h_runs (update_ou f h) = h_runs h" "h_exitErrs (update_ou f h) = h_exitErrs h" "h_svc (update_ou f h) = h_svc h"
  "h_watch (update_ou f h) = h_watch h" "h_blocked (update_ou f h) = h_blocked h" "h_cfg (update_ou f h) = h_cfg h"
  "h_checked (update_ou f h) = h_checked h"
  by (simp_all add: update_ou_def)

lemma set_run_frame [h_frame]:
  "h_exitErrs (set_run i f h) = h_exitErrs h" "h_svc (set_run i f h) = h_svc h" "h_watch (set_run i f h) = h_watch h"
  "h_blocked (set_run i f h) = h_blocked h" "h_cfg (set_run i f h) = h_cfg h" "h_checked (set_run i f h) = h_checked h"
  "h_runs (set_run i f h) = (case h_runs h i of None \<Rightarrow> h_runs h | Some d \<Rightarrow> (h_runs h)(i \<mapsto> f d))"
  by (simp_all add: set_run_def)

lemma ensure_frame [h_frame]:
  "h_runs (fst (ensure_h u k i st h)) = h_runs h" "h_exitErrs (fst (ensure_h u k i st h)) = h_exitErrs h"
  "h_svc (fst (ensure_h u k i st h)) = h_svc h" "h_watch (fst (ensure_h u k i st h)) = h_watch h"
  "h_blocked (fst (ensure_h u k i st h)) = h_blocked h" "h_cfg (fst (ensure_h u k i st h)) = h_cfg h"
  "h_checked (fst (ensure_h u k i st h)) = h_checked h"
  by (simp_all add: ensure_h_def split: option.splits prod.splits)

section \<open>Invariant\<close>

definition known_status :: "string \<Rightarrow> bool" where
  "known_status s \<longleftrightarrow> s \<in> {''running'', ''paused'', ''stopped'', ''completed'', ''failed''}"

definition ended_run :: "RunDetail \<Rightarrow> bool" where
  "ended_run d \<longleftrightarrow> rd_Status d = ''completed'' \<or> rd_Status d = ''failed''"

definition status_ok :: "Rsvc \<Rightarrow> string \<Rightarrow> RunDetail \<Rightarrow> bool" where
  "status_ok svc i d \<longleftrightarrow> rd_ID d = i \<and> known_status (rd_Status d) \<and> (ended_run d \<longrightarrow> \<not> IsRunActive i svc)"

definition statuses_ok :: "Rsvc \<Rightarrow> (string \<Rightarrow> RunDetail option) \<Rightarrow> bool" where
  "statuses_ok svc runs \<longleftrightarrow> (\<forall>i d. runs i = Some d \<longrightarrow> status_ok svc i d)"

text \<open>Two active runs of a user on one order book.\<close>

definition same_book :: "HConfig \<Rightarrow> RunDetail \<Rightarrow> RunDetail \<Rightarrow> bool" where
  "same_book cfg d e \<longleftrightarrow> active_run d \<and> active_run e \<and> rd_DORAUserID d = rd_DORAUserID e \<and>
     hc_OrderBook cfg (rd_Config d) = hc_OrderBook cfg (rd_Config e) \<and> hc_OrderBook cfg (rd_Config d) \<noteq> []"

definition books_ok :: "HConfig \<Rightarrow> (string \<Rightarrow> RunDetail option) \<Rightarrow> bool" where
  "books_ok cfg runs \<longleftrightarrow> (\<forall>i j d e. runs i = Some d \<longrightarrow> runs j = Some e \<longrightarrow> same_book cfg d e \<longrightarrow> i = j)"

text \<open>What a run's goroutine returned, what is recorded of it, and what the run reports.\<close>

definition exit_agrees :: "RunDetail \<Rightarrow> gerror option option \<Rightarrow> gerror option option \<Rightarrow> bool" where
  "exit_agrees d recorded exit \<longleftrightarrow>
     (rd_Status d = ''running'' \<and> exit \<noteq> None \<longrightarrow> recorded = exit) \<and>
     (rd_Status d = ''completed'' \<longrightarrow> exit = Some None) \<and> (rd_Status d = ''failed'' \<longrightarrow> exit = Some (Some (rd_Error d)))"

definition goroutine_of :: "Rsvc \<Rightarrow> string \<Rightarrow> nat \<Rightarrow> goroutine \<Rightarrow> bool" where
  "goroutine_of svc i n g \<longleftrightarrow> sv_runs svc n = Some g \<and> gr_run g = i \<and> (sv_strategies svc i = Some n \<or> gr_exit g \<noteq> None)"

definition exit_ok :: "Rsvc \<Rightarrow> gerror option option \<Rightarrow> string \<Rightarrow> RunDetail \<Rightarrow> bool" where
  "exit_ok svc recorded i d \<longleftrightarrow> (\<exists>n g. goroutine_of svc i n g \<and> exit_agrees d recorded (gr_exit g))"

definition exits_ok :: "Rsvc \<Rightarrow> (string \<Rightarrow> gerror option option) \<Rightarrow> (string \<Rightarrow> RunDetail option) \<Rightarrow> bool" where
  "exits_ok svc errs runs \<longleftrightarrow> (\<forall>i d. runs i = Some d \<longrightarrow> exit_ok svc (errs i) i d)"

definition one_goroutine :: "Rsvc \<Rightarrow> bool" where
  "one_goroutine svc \<longleftrightarrow> (\<forall>n g n' g'. sv_runs svc n = Some g \<longrightarrow> sv_runs svc n' = Some g' \<longrightarrow> gr_run g = gr_run g' \<longrightarrow> n = n')"

definition watch_ok :: "Rsvc \<Rightarrow> (nat \<Rightarrow> watcher option) \<Rightarrow> bool" where
  "watch_ok svc watch \<longleftrightarrow> (\<forall>n w. watch n = Some w \<longrightarrow> wt_pc w = WtFound \<longrightarrow> \<not> IsRunActive (wt_run w) svc)"

definition blocked_ok :: "(nat \<Rightarrow> (nat \<times> pending) option) \<Rightarrow> bool" where
  "blocked_ok blocked \<longleftrightarrow> (\<forall>n sub p. blocked n = Some (sub, p) \<longrightarrow> (\<exists>i s. p = PendCreate i s))"

definition runs_ok :: "Handler \<Rightarrow> bool" where
  "runs_ok h \<longleftrightarrow> svc_ok (h_svc h) \<and> one_goroutine (h_svc h) \<and> statuses_ok (h_svc h) (h_runs h) \<and> books_ok (h_cfg h) (h_runs h) \<and>
     exits_ok (h_svc h) (h_exitErrs h) (h_runs h) \<and> watch_ok (h_svc h) (h_watch h) \<and> blocked_ok (h_blocked h)"

lemma runs_ok_cong:
  "h_runs h' = h_runs h \<Longrightarrow> h_exitErrs h' = h_exitErrs h \<Longrightarrow> h_svc h' = h_svc h \<Longrightarrow> h_watch h' = h_watch h \<Longrightarrow>
     h_blocked h' = h_blocked h \<Longrightarrow> h_cfg h' = h_cfg h \<Longrightarrow> runs_ok h' = runs_ok h"
  by (simp add: runs_ok_def)

lemma runs_ok_frame [simp]:
  "runs_ok (fst (saveRun E d h)) = runs_ok h" "runs_ok (publish_h E e h) = runs_ok h" "runs_ok (update_ou f h) = runs_ok h"
  "runs_ok (fst (ensure_h u k i st h)) = runs_ok h"
  by (rule runs_ok_cong; simp add: h_frame)+

lemma NewHandler_ok: "runs_ok (NewHandler cfg ou bus table)"
  by (simp add: runs_ok_def NewHandler_def NewService_ok one_goroutine_def statuses_ok_def books_ok_def exits_ok_def watch_ok_def
      blocked_ok_def) (simp add: NewService_def)

text \<open>Replacing the entry of one run.\<close>

lemma statuses_upd: "statuses_ok svc runs \<Longrightarrow> status_ok svc i d \<Longrightarrow> statuses_ok svc (runs(i \<mapsto> d))"
  by (simp add: statuses_ok_def)

lemma exits_upd: "exits_ok svc errs runs \<Longrightarrow> exit_ok svc (errs i) i d \<Longrightarrow> exits_ok svc errs (runs(i \<mapsto> d))"
  by (simp add: exits_ok_def)

lemma books_upd:
  assumes "books_ok cfg runs" "runs i = Some d" "\<And>e. same_book cfg d' e \<Longrightarrow> same_book cfg d e" "\<And>e. same_book cfg e d' \<Longrightarrow> same_book cfg e d"
  shows "books_ok cfg (runs(i \<mapsto> d'))"
  unfolding books_ok_def
proof (intro allI impI)
  fix j k e f
  assume j: "(runs(i \<mapsto> d')) j = Some e" and k: "(runs(i \<mapsto> d')) k = Some f" and s: "same_book cfg e f"
  have old: "\<And>i j d e. runs i = Some d \<Longrightarrow> runs j = Some e \<Longrightarrow> same_book cfg d e \<Longrightarrow> i = j"
    using assms(1) unfolding books_ok_def by blast
  show "j = k"
  proof (cases "j = i"; cases "k = i")
    assume "j = i" "k \<noteq> i"
    then show ?thesis using j k s assms(3) old [OF assms(2), of k f] by simp
  next
    assume "j \<noteq> i" "k = i"
    then show ?thesis using j k s assms(4) old [OF _ assms(2), of j e] by simp
  next
    assume "j \<noteq> i" "k \<noteq> i"
    then show ?thesis using j k s old [of j e k f] by simp
  qed simp
qed

lemma runs_okD:
  assumes "runs_ok h"
  shows "svc_ok (h_svc h)" "one_goroutine (h_svc h)" "statuses_ok (h_svc h) (h_runs h)" "books_ok (h_cfg h) (h_runs h)"
    "exits_ok (h_svc h) (h_exitErrs h) (h_runs h)" "watch_ok (h_svc h) (h_watch h)" "blocked_ok (h_blocked h)"
  using assms by (simp_all add: runs_ok_def)

lemma exit_okD:
  assumes "runs_ok h" "h_runs h i = Some d"
  obtains n g where "goroutine_of (h_svc h) i n g" "exit_agrees d (h_exitErrs h i) (gr_exit g)"
  using runs_okD(5) [OF assms(1)] assms(2) unfolding exits_ok_def exit_ok_def by blast

text \<open>A status that is never more active than before.\<close>

lemma set_run_ok:
  assumes ok: "runs_ok h" and d: "h_runs h i = Some d"
    and same: "rd_ID (f d) = rd_ID d" "rd_DORAUserID (f d) = rd_DORAUserID d" "rd_Config (f d) = rd_Config d"
    and status: "known_status (rd_Status (f d))" "active_run (f d) \<Longrightarrow> active_run d" "ended_run (f d) \<Longrightarrow> \<not> IsRunActive i (h_svc h)"
    and exits: "\<And>n g. goroutine_of (h_svc h) i n g \<Longrightarrow> exit_agrees d (h_exitErrs h i) (gr_exit g) \<Longrightarrow>
      exit_agrees (f d) (h_exitErrs h i) (gr_exit g)"
  shows "runs_ok (set_run i f h)"
proof -
  have "status_ok (h_svc h) i d" using runs_okD(3) [OF ok] d by (simp add: statuses_ok_def)
  then have "status_ok (h_svc h) i (f d)" using same(1) status(1,3) by (simp add: status_ok_def)
  then have 1: "statuses_ok (h_svc h) ((h_runs h)(i \<mapsto> f d))" by (rule statuses_upd [OF runs_okD(3) [OF ok]])
  have 2: "books_ok (h_cfg h) ((h_runs h)(i \<mapsto> f d))"
    by (rule books_upd [OF runs_okD(4) [OF ok] d]) (use status(2) in \<open>unfold same_book_def same(2,3), blast+\<close>)
  obtain n g where "goroutine_of (h_svc h) i n g" "exit_agrees d (h_exitErrs h i) (gr_exit g)" using exit_okD [OF ok d] .
  then have "exit_ok (h_svc h) (h_exitErrs h i) i (f d)" using exits unfolding exit_ok_def by blast
  then have 3: "exits_ok (h_svc h) (h_exitErrs h) ((h_runs h)(i \<mapsto> f d))" by (rule exits_upd [OF runs_okD(5) [OF ok]])
  show ?thesis using 1 2 3 ok d by (simp add: runs_ok_def set_run_def)
qed

section \<open>Goroutines\<close>

lemma watch_upd:
  "watch_ok svc watch \<Longrightarrow> (wt_pc w = WtFound \<Longrightarrow> \<not> IsRunActive (wt_run w) svc) \<Longrightarrow> watch_ok svc (watch(n \<mapsto> w))"
  by (simp add: watch_ok_def)

lemma set_watch_ok:
  assumes "runs_ok h" "wt_pc w = WtFound \<Longrightarrow> \<not> IsRunActive (wt_run w) (h_svc h)"
    "h_runs h' = h_runs h" "h_exitErrs h' = h_exitErrs h" "h_svc h' = h_svc h" "h_watch h' = (h_watch h)(n \<mapsto> w)"
    "h_blocked h' = h_blocked h" "h_cfg h' = h_cfg h"
  shows "runs_ok h'"
  using assms(1) watch_upd [OF runs_okD(6) [OF assms(1)] assms(2)] unfolding runs_ok_def assms(3-) by blast

lemma start_watcher_ok: "runs_ok h \<Longrightarrow> runs_ok (start_watcher i b h)"
  by (rule set_watch_ok [of h "\<lparr>wt_run = i, wt_stopLoss = b, wt_pc = WtPolling\<rparr>" _ "h_next h"]) (simp_all add: start_watcher_def Let_def)

lemma startCompletionWatcher_ok: "runs_ok h \<Longrightarrow> runs_ok (startCompletionWatcher i h)"
  by (subst runs_ok_cong [of _ "start_watcher i False h"]) (simp_all add: startCompletionWatcher_def start_watcher_ok)

lemma startStopLossObserver_ok:
  assumes "runs_ok h"
  shows "runs_ok (startStopLossObserver i s h)"
proof (cases "st_kind s = KMeanReversion")
  case True
  then show ?thesis
    by (subst runs_ok_cong [of _ "start_watcher i True h"]) (simp_all add: startStopLossObserver_def start_watcher_ok assms)
qed (use assms in \<open>simp add: startStopLossObserver_def\<close>)

lemma watcher_exit_ok: "runs_ok h \<Longrightarrow> runs_ok (watcher_exit n w h)"
  by (rule set_watch_ok [of h "w\<lparr>wt_pc := WtGone\<rparr>" _ n]) (simp_all add: watcher_exit_def Let_def)

lemma watcher_tick_ok:
  assumes "runs_ok h"
  shows "runs_ok (watcher_tick E b n h)"
proof (cases "h_watch h n")
  case (Some w)
  have "runs_ok (h\<lparr>h_watch := (h_watch h)(n \<mapsto> w\<lparr>wt_pc := WtFound\<rparr>)\<rparr>)" if "\<not> IsRunActive (wt_run w) (h_svc h)"
    by (rule set_watch_ok [of h "w\<lparr>wt_pc := WtFound\<rparr>" _ n]) (use assms that in simp_all)
  then show ?thesis using assms Some by (simp add: watcher_tick_def watcher_exit_ok)
qed (use assms in \<open>simp add: watcher_tick_def\<close>)

lemma watcher_done_ok: "runs_ok h \<Longrightarrow> runs_ok (watcher_done n h)"
  by (simp add: watcher_done_def watcher_exit_ok split: option.splits)

lemma forget_exit_ok:
  assumes "runs_ok h" "\<And>d. h_runs h i = Some d \<Longrightarrow> rd_Status d \<noteq> ''running''"
  shows "runs_ok (h\<lparr>h_exitErrs := (h_exitErrs h)(i := None)\<rparr>)"
proof -
  have "exit_ok (h_svc h) (((h_exitErrs h)(i := None)) j) j d" if j: "h_runs h j = Some d" for j d
  proof -
    obtain n g where g: "goroutine_of (h_svc h) j n g" "exit_agrees d (h_exitErrs h j) (gr_exit g)" using exit_okD [OF assms(1) j] .
    then have "exit_agrees d (((h_exitErrs h)(i := None)) j) (gr_exit g)" using assms(2) j by (auto simp: exit_agrees_def)
    then show ?thesis using g unfolding exit_ok_def by blast
  qed
  then have "exits_ok (h_svc h) ((h_exitErrs h)(i := None)) (h_runs h)" unfolding exits_ok_def by blast
  then show ?thesis using assms(1) by (simp add: runs_ok_def)
qed

text \<open>The classification of a run that is gone: what its strategy returned.\<close>

definition classified :: "gerror option \<Rightarrow> gtime \<Rightarrow> RunDetail \<Rightarrow> RunDetail" where
  "classified x now d =
     (case x of
        None \<Rightarrow> d\<lparr>rd_Status := ''completed'', rd_UpdatedAt := now, rd_StoppedAt := Some now\<rparr>
      | Some e \<Rightarrow> d\<lparr>rd_Status := ''failed'', rd_Error := e, rd_UpdatedAt := now, rd_StoppedAt := Some now\<rparr>)"

lemma classified_simps [simp]:
  "rd_ID (classified x now d) = rd_ID d" "rd_DORAUserID (classified x now d) = rd_DORAUserID d" "rd_Config (classified x now d) = rd_Config d"
  "known_status (rd_Status (classified x now d))" "rd_Status (classified x now d) \<noteq> ''running''" "exit_agrees (classified x now d) r (Some x)"
  by (simp_all add: classified_def known_status_def exit_agrees_def split: option.splits)

lemma classify_ok:
  assumes ok: "runs_ok h" and d: "h_runs h i = Some d" "rd_Status d = ''running''" and gone: "\<not> IsRunActive i (h_svc h)"
  shows "runs_ok (h\<lparr>h_exitErrs := (h_exitErrs h)(i := None), h_runs := (h_runs h)(i \<mapsto>
    classified (case h_exitErrs h i of None \<Rightarrow> None | Some e \<Rightarrow> e) now d)\<rparr>)"
proof -
  let ?x = "case h_exitErrs h i of None \<Rightarrow> None | Some e \<Rightarrow> e"
  have ex: "gr_exit g = Some ?x" if "goroutine_of (h_svc h) i n g" "exit_agrees d (h_exitErrs h i) (gr_exit g)" for n g
  proof -
    have "gr_exit g \<noteq> None" using that(1) gone by (auto simp: goroutine_of_def IsRunActive_def)
    then have "h_exitErrs h i = gr_exit g" using that(2) d(2) by (simp add: exit_agrees_def)
    then show ?thesis using \<open>gr_exit g \<noteq> None\<close> by auto
  qed
  have 1: "runs_ok (set_run i (classified ?x now) h)"
  proof (rule set_run_ok [OF ok d(1)])
    show "active_run d" using d(2) by (simp add: active_run_def)
    show "exit_agrees (classified ?x now d) (h_exitErrs h i) (gr_exit g)"
      if "goroutine_of (h_svc h) i n g" "exit_agrees d (h_exitErrs h i) (gr_exit g)" for n g
      unfolding ex [OF that] by simp
  qed (use gone in simp_all)
  have "runs_ok ((set_run i (classified ?x now) h)\<lparr>h_exitErrs := (h_exitErrs (set_run i (classified ?x now) h))(i := None)\<rparr>)"
    by (rule forget_exit_ok [OF 1]) (use d(1) in \<open>auto simp: h_frame\<close>)
  then show ?thesis using d(1) by (simp add: runs_ok_def set_run_def)
qed

lemma exit_cases:
  fixes x :: "'a option option"
  obtains "x = None" | "x = Some None" | e where "x = Some (Some e)"
  by (metis option.exhaust)

lemma maybePublish_eq:
  "maybePublishNaturalCompletion E i h =
     (let exitErr = (case h_exitErrs h i of None \<Rightarrow> None | Some e \<Rightarrow> e);
          h = h\<lparr>h_exitErrs := (h_exitErrs h)(i := None)\<rparr>
      in case h_runs h i of
           None \<Rightarrow> h
         | Some d \<Rightarrow>
             if rd_Status d \<noteq> ''running'' then h
             else
               let d = classified exitErr (time_UTC (hq_now E)) d
               in publish_h E (run_event (if exitErr = None then EventRunCompleted else EventRunFailed) (rd_DORAUserID d) i (time_UTC (hq_now E))
                    (case exitErr of None \<Rightarrow> [] | Some e \<Rightarrow> [(''error'', JvString e)]))
                    (fst (saveRun E d (h\<lparr>h_runs := (h_runs h)(i \<mapsto> d)\<rparr>))))"
  by (cases "h_runs h i"; cases "h_exitErrs h i" rule: exit_cases)
    (simp_all add: maybePublishNaturalCompletion_def classified_def Let_def)

lemma maybePublish_ok:
  assumes "runs_ok h" "\<not> IsRunActive i (h_svc h)"
  shows "runs_ok (maybePublishNaturalCompletion E i h)"
proof (cases "h_runs h i")
  case None
  then have "runs_ok (h\<lparr>h_exitErrs := (h_exitErrs h)(i := None)\<rparr>)" by (intro forget_exit_ok [OF assms(1)]) simp
  then show ?thesis using None by (simp add: maybePublish_eq Let_def)
next
  case (Some d)
  show ?thesis
  proof (cases "rd_Status d = ''running''")
    case True
    then show ?thesis using classify_ok [OF assms(1) Some True assms(2), of "time_UTC (hq_now E)"] Some
      by (simp add: maybePublish_eq Let_def)
  next
    case False
    then have "runs_ok (h\<lparr>h_exitErrs := (h_exitErrs h)(i := None)\<rparr>)" using Some by (intro forget_exit_ok [OF assms(1)]) simp
    then show ?thesis using Some False by (simp add: maybePublish_eq Let_def)
  qed
qed

lemma watcher_publish_ok:
  assumes "runs_ok h"
  shows "runs_ok (watcher_publish E n h)"
proof (cases "h_watch h n")
  case (Some w)
  have "wt_pc w = WtFound \<Longrightarrow> \<not> IsRunActive (wt_run w) (h_svc h)"
    using runs_okD(6) [OF assms] Some by (simp add: watch_ok_def)
  then show ?thesis using assms Some by (simp add: watcher_publish_def watcher_exit_ok maybePublish_ok)
qed (use assms in \<open>simp add: watcher_publish_def\<close>)

lemma strategy_exits_ok:
  assumes "runs_ok h"
  shows "runs_ok (strategy_exits n err h)"
proof (cases "\<exists>g. sv_runs (h_svc h) n = Some g \<and> gr_exit g = None")
  case True
  then obtain g where g: "sv_runs (h_svc h) n = Some g" "gr_exit g = None" by blast
  let ?svc = "(h_svc h)\<lparr>sv_runs := (sv_runs (h_svc h))(n \<mapsto> g\<lparr>gr_exit := Some err\<rparr>)\<rparr>"
  let ?errs = "(h_exitErrs h)(gr_run g \<mapsto> err)"
  have uniq: "\<And>n' g'. sv_runs (h_svc h) n' = Some g' \<Longrightarrow> gr_run g' = gr_run g \<Longrightarrow> n' = n"
    using runs_okD(2) [OF assms] g(1) unfolding one_goroutine_def by blast
  have act: "IsRunActive i ?svc = IsRunActive i (h_svc h)" for i by (simp add: IsRunActive_def)
  have "exit_ok ?svc (?errs i) i d" if d: "h_runs h i = Some d" for i d
  proof -
    obtain m k where k: "goroutine_of (h_svc h) i m k" "exit_agrees d (h_exitErrs h i) (gr_exit k)" using exit_okD [OF assms d] .
    show ?thesis
    proof (cases "m = n")
      case True
      then have kg: "k = g" "i = gr_run g" using k g by (auto simp: goroutine_of_def)
      then have "exit_agrees d (Some err) (Some err)" using k(2) g(2) by (simp add: exit_agrees_def)
      moreover have "goroutine_of ?svc i n (g\<lparr>gr_exit := Some err\<rparr>)" using kg by (simp add: goroutine_of_def)
      ultimately show ?thesis using kg by (intro exit_ok_def [THEN iffD2] exI [of _ n] exI [of _ "g\<lparr>gr_exit := Some err\<rparr>"]) simp
    next
      case False
      then have "i \<noteq> gr_run g" using uniq k(1) unfolding goroutine_of_def by blast
      moreover have "goroutine_of ?svc i m k" using k(1) False by (simp add: goroutine_of_def)
      ultimately show ?thesis using k(2) by (intro exit_ok_def [THEN iffD2] exI [of _ m] exI [of _ k]) simp
    qed
  qed
  then have "exits_ok ?svc ?errs (h_runs h)" unfolding exits_ok_def by blast
  moreover have "svc_ok ?svc" using svc_ok_steps(2) [OF runs_okD(1) [OF assms], of n err] g by (simp add: run_returns_def)
  moreover have "one_goroutine ?svc"
    using runs_okD(2) [OF assms] g(1) unfolding one_goroutine_def by (simp split: if_splits) blast
  moreover have "statuses_ok ?svc (h_runs h)" "watch_ok ?svc (h_watch h)"
    using runs_okD(3,6) [OF assms] by (simp_all add: statuses_ok_def status_ok_def watch_ok_def act)
  ultimately have "runs_ok (h\<lparr>h_exitErrs := ?errs, h_svc := ?svc\<rparr>)" using assms by (simp add: runs_ok_def)
  then show ?thesis using g by (simp add: strategy_exits_def run_returns_def)
qed (use assms in \<open>auto simp: strategy_exits_def split: option.splits\<close>)

lemma strategy_gone_ok:
  assumes "runs_ok h"
  shows "runs_ok (strategy_gone n h)"
proof -
  let ?svc = "run_gone n (h_svc h)"
  have act: "IsRunActive i ?svc \<Longrightarrow> IsRunActive i (h_svc h)" for i
    by (auto simp: run_gone_def IsRunActive_def split: option.splits if_splits)
  have runs: "sv_runs ?svc = sv_runs (h_svc h)" by (simp add: run_gone_def split: option.splits)
  have keep: "goroutine_of ?svc i m g" if "goroutine_of (h_svc h) i m g" for i m g
    using that by (auto simp: goroutine_of_def run_gone_def split: option.splits if_splits)
  have "exits_ok ?svc (h_exitErrs h) (h_runs h)"
    using runs_okD(5) [OF assms] keep unfolding exits_ok_def exit_ok_def by blast
  moreover have "statuses_ok ?svc (h_runs h)" "watch_ok ?svc (h_watch h)"
    using runs_okD(3,6) [OF assms] act unfolding statuses_ok_def status_ok_def watch_ok_def by blast+
  moreover have "one_goroutine ?svc" using runs_okD(2) [OF assms] by (simp add: one_goroutine_def runs)
  ultimately show ?thesis using assms svc_ok_steps(3) [of "h_svc h" n] by (simp add: runs_ok_def strategy_gone_def)
qed

end
