(* ===== verification/Run_Handler_Correct.thy ===== *)
theory Run_Handler_Correct
  imports Run_Handler_Props
begin

text \<open>
  The requests keep the invariant of \<open>Run_Handler_Props\<close>, and what follows from it: one active run per order
  book and user, a run that is completed or failed reports what its strategy returned. Then the cases in which
  a request goes wrong: an execution run is never answered, a run whose row could not be saved cannot be
  stopped, a second stop crashes the process.
\<close>

section \<open>Requests keep the invariant\<close>

definition fresh_id :: "string \<Rightarrow> Handler \<Rightarrow> bool" where
  "fresh_id i h \<longleftrightarrow> h_runs h i = None \<and> (\<forall>n g. sv_runs (h_svc h) n = Some g \<longrightarrow> gr_run g \<noteq> i) \<and>
     (\<forall>n w. h_watch h n = Some w \<longrightarrow> wt_run w \<noteq> i) \<and> (\<forall>n sub s. h_blocked h n \<noteq> Some (sub, PendCreate i s))"

lemma fresh_inactive:
  assumes "runs_ok h" "fresh_id i h"
  shows "\<not> IsRunActive i (h_svc h)"
proof
  assume "IsRunActive i (h_svc h)"
  then obtain n where n: "sv_strategies (h_svc h) i = Some n" by (auto simp: IsRunActive_def)
  obtain g where "sv_runs (h_svc h) n = Some g" "gr_run g = i"
    using runs_okD(1) [OF assms(1)] n unfolding svc_ok_def by blast
  then show False using assms(2) unfolding fresh_id_def by blast
qed

text \<open>The strategy of a new run starts.\<close>

lemma launch_ok:
  assumes ok: "runs_ok h" and new: "fresh_id i h" and s: "RunStrategyWithID b i (h_svc h) = (s, Inr n)"
  shows "runs_ok (h\<lparr>h_svc := s\<rparr>)" "goroutine_of s i n \<lparr>gr_run = i, gr_exit = None\<rparr>"
proof -
  let ?g = "\<lparr>gr_run = i, gr_exit = None\<rparr>"
  have s_def: "n = sv_next (h_svc h)" "s = (h_svc h)\<lparr>sv_strategies := (sv_strategies (h_svc h))(i \<mapsto> n),
      sv_runs := (sv_runs (h_svc h))(n \<mapsto> ?g), sv_next := n + 1\<rparr>"
    using s by (cases rule: RunStrategyWithID_cases [of b i "h_svc h"]; simp)+
  have old: "sv_runs (h_svc h) m = Some g \<Longrightarrow> m \<noteq> n \<and> gr_run g \<noteq> i" for m g
    using runs_okD(1) [OF ok] new unfolding svc_ok_def fresh_id_def s_def(1) by blast
  have act: "j \<noteq> i \<Longrightarrow> IsRunActive j s = IsRunActive j (h_svc h)" for j by (simp add: IsRunActive_def s_def)
  have keep: "goroutine_of s j m g" if "goroutine_of (h_svc h) j m g" for j m g
    using that old [of m g] by (auto simp: goroutine_of_def s_def)
  show "goroutine_of s i n ?g" by (simp add: goroutine_of_def s_def)
  have "svc_ok s" using svc_ok_steps(1) [OF runs_okD(1) [OF ok], of b i] s by simp
  moreover have "one_goroutine s"
    using runs_okD(2) [OF ok] old unfolding one_goroutine_def by (simp add: s_def(2)) (metis option.inject goroutine.select_convs(1))
  moreover have "statuses_ok s (h_runs h)"
    using runs_okD(3) [OF ok] new act unfolding statuses_ok_def status_ok_def fresh_id_def by (metis option.distinct(1))
  moreover have "exits_ok s (h_exitErrs h) (h_runs h)"
    using runs_okD(5) [OF ok] keep unfolding exits_ok_def exit_ok_def by blast
  moreover have "watch_ok s (h_watch h)"
    using runs_okD(6) [OF ok] new act unfolding watch_ok_def fresh_id_def by metis
  ultimately show "runs_ok (h\<lparr>h_svc := s\<rparr>)" using ok by (simp add: runs_ok_def)
qed

definition book_free :: "HConfig \<Rightarrow> (string \<Rightarrow> RunDetail option) \<Rightarrow> RunDetail \<Rightarrow> bool" where
  "book_free cfg runs d \<longleftrightarrow> (\<forall>j e. runs j = Some e \<longrightarrow> \<not> same_book cfg d e)"

lemma same_book_sym: "same_book cfg d e = same_book cfg e d"
  by (auto simp: same_book_def)

lemma enter_run_ok:
  assumes ok: "runs_ok h" and d: "rd_ID d = i" "rd_Status d = ''running''" "book_free (h_cfg h) (h_runs h) d"
    and g: "goroutine_of (h_svc h) i n g" "gr_exit g = None"
  shows "runs_ok (h\<lparr>h_runs := (h_runs h)(i \<mapsto> d)\<rparr>)"
proof -
  have "status_ok (h_svc h) i d" using d by (simp add: status_ok_def known_status_def ended_run_def)
  moreover have "exit_ok (h_svc h) (h_exitErrs h i) i d"
    using g d(2) unfolding exit_ok_def by (intro exI [of _ n] exI [of _ g]) (simp add: exit_agrees_def)
  moreover have "books_ok (h_cfg h) ((h_runs h)(i \<mapsto> d))"
    using runs_okD(4) [OF ok] d(3) same_book_sym [of "h_cfg h"] unfolding books_ok_def book_free_def
    by (metis fun_upd_other fun_upd_same option.inject)
  ultimately show ?thesis
    using ok statuses_upd [OF runs_okD(3) [OF ok]] exits_upd [OF runs_okD(5) [OF ok]] by (simp add: runs_ok_def)
qed

lemma ensure_ok: "ensure_h u k i st h = (h', p) \<Longrightarrow> runs_ok h \<Longrightarrow> runs_ok h'"
  by (metis fst_conv runs_ok_frame(4))

lemma create_start_ok:
  assumes ok: "runs_ok h" and new: "fresh_id (rd_ID d) h" and d: "rd_Status d = ''running''" "book_free (h_cfg h) (h_runs h) d"
  shows "runs_ok (fst (create_start E d h))"
proof (cases "RunStrategyWithID (hq_ctxEnded E) (rd_ID d) (h_svc h)" rule: prod.exhaust)
  case (Pair s r)
  show ?thesis
  proof (cases r)
    case (Inl err)
    then have "s = h_svc h" using Pair by (cases rule: RunStrategyWithID_cases [of "hq_ctxEnded E" "rd_ID d" "h_svc h"]) simp_all
    then show ?thesis using Pair Inl ok by (simp add: create_start_def)
  next
    case (Inr n)
    note s = launch_ok [OF ok new, of "hq_ctxEnded E" s n, OF Pair [unfolded Inr]]
    obtain h1 e where h1: "saveRun E d (h\<lparr>h_svc := s\<rparr>) = (h1, e)" by fastforce
    then have f: "h1 = fst (saveRun E d (h\<lparr>h_svc := s\<rparr>))" by simp
    have ok1: "runs_ok h1" using s(1) by (simp add: f)
    have "runs_ok (h1\<lparr>h_runs := (h_runs h1)(rd_ID d \<mapsto> d)\<rparr>)"
      by (rule enter_run_ok [OF ok1 refl d(1), of n "\<lparr>gr_run = rd_ID d, gr_exit = None\<rparr>"]) (use d(2) s(2) in \<open>simp_all add: f h_frame\<close>)
    then show ?thesis using Pair Inr h1 ok1
      by (auto simp: create_start_def Let_def split: option.splits prod.splits dest: ensure_ok)
  qed
qed

text \<open>The check of the order book finds every active run of the caller.\<close>

lemma find_active_none:
  assumes "findActiveRunForOrderBook ids user book h = None" "set ids = dom (h_runs h)"
    and "h_runs h j = Some e" "rd_DORAUserID e = user" "active_run e"
  shows "hc_OrderBook (h_cfg h) (rd_Config e) \<noteq> book"
proof -
  have "e \<in> set (List.map_filter (h_runs h) ids)"
    using assms(2,3) by (force simp: List.map_filter_def)
  then show ?thesis using assms(1,4,5) by (auto simp: findActiveRunForOrderBook_def find_None_iff)
qed

lemma create_check_sound:
  assumes "create_check E req h = Inr (d, strat)"
  shows "rd_ID d = hq_newID E" "rd_Status d = ''running''" "set (cr_ids req) = dom (h_runs h) \<Longrightarrow> book_free (h_cfg h) (h_runs h) d"
proof -
  obtain cfg s0 where r: "resolveStrategy (hc_Strategies (h_cfg h)) (cr_StrategyType req) (cr_Config req) capabilityRun = Inr (cfg, s0)"
    using assms by (auto simp: create_check_def split: sum.splits prod.splits)
  obtain user where u: "hq_user E = Inr user" using assms r by (auto simp: create_check_def split: sum.splits)
  have d: "rd_ID d = hq_newID E \<and> rd_Status d = ''running'' \<and> rd_DORAUserID d = user \<and> rd_Config d = cfg \<and>
      (hc_OrderBook (h_cfg h) cfg = [] \<or> findActiveRunForOrderBook (cr_ids req) user (hc_OrderBook (h_cfg h) cfg) h = None)"
    using assms r u by (auto simp: create_check_def Let_def split: if_splits option.splits sum.splits)
  then show "rd_ID d = hq_newID E" "rd_Status d = ''running''" by simp_all
  show "book_free (h_cfg h) (h_runs h) d" if ids: "set (cr_ids req) = dom (h_runs h)"
    unfolding book_free_def
  proof (intro allI impI)
    fix j e
    assume e: "h_runs h j = Some e"
    show "\<not> same_book (h_cfg h) d e"
    proof
      assume s: "same_book (h_cfg h) d e"
      then have b: "hc_OrderBook (h_cfg h) cfg \<noteq> []" "rd_DORAUserID e = user" "active_run e"
        "hc_OrderBook (h_cfg h) (rd_Config e) = hc_OrderBook (h_cfg h) cfg" using d by (auto simp: same_book_def)
      then have "findActiveRunForOrderBook (cr_ids req) user (hc_OrderBook (h_cfg h) cfg) h = None" using d by simp
      from find_active_none [OF this ids e b(2,3)] show False using b(4) by simp
    qed
  qed
qed

lemma create_finish_ok: "runs_ok h \<Longrightarrow> runs_ok (fst (create_finish E i s h))"
  by (simp add: create_finish_def Let_def startCompletionWatcher_ok startStopLossObserver_ok split: option.splits)

lemma startOrderUpdater_ok:
  assumes "runs_ok h"
  shows "runs_ok (fst (startOrderUpdater i u s (PendCreate j t) h))"
proof -
  have "blocked_ok ((h_blocked h)(n \<mapsto> (sub, PendCreate j t)))" for n sub
    using runs_okD(7) [OF assms] by (auto simp: blocked_ok_def)
  then show ?thesis using assms
    by (auto simp: startOrderUpdater_def Let_def runs_ok_def split: option.splits prod.splits sum.splits)
qed

lemma create_launch_ok:
  assumes "runs_ok h" "fresh_id (rd_ID d) h" "rd_Status d = ''running''" "book_free (h_cfg h) (h_runs h) d"
  shows "runs_ok (fst (create_launch E d s h))"
proof (cases "create_start E d h" rule: prod.exhaust)
  case (Pair h1 a)
  then have ok1: "runs_ok h1" using create_start_ok [OF assms] by (metis fst_conv)
  show ?thesis
  proof (cases a)
    case None
    obtain h2 b where h2: "startOrderUpdater (rd_ID d) (rd_DORAUserID d) s (PendCreate (rd_ID d) s) h1 = (h2, b)" by fastforce
    then have "runs_ok h2" using startOrderUpdater_ok [OF ok1, of "rd_ID d" "rd_DORAUserID d" s "rd_ID d" s] by simp
    then show ?thesis using Pair None h2 by (simp add: create_launch_def create_finish_ok split: option.splits)
  next
    case (Some x)
    then show ?thesis using Pair ok1 by (simp add: create_launch_def)
  qed
qed

lemma createRun_ok:
  assumes "runs_ok h" "fresh_id (hq_newID E) h" "set (cr_ids req) = dom (h_runs h)"
  shows "runs_ok (fst (createRun E req h))"
proof (cases "create_check E req h")
  case (Inr r)
  obtain d s where r: "r = (d, s)" by fastforce
  note sound = create_check_sound [OF Inr [unfolded r]]
  have "runs_ok (fst (create_launch E d s h))"
    by (rule create_launch_ok [OF assms(1) _ sound(2) sound(3) [OF assms(3)]]) (use assms(2) sound(1) in simp)
  then show ?thesis using Inr r by (simp add: createRun_def)
qed (use assms in \<open>simp add: createRun_def\<close>)

lemma announce_ok: "runs_ok h \<Longrightarrow> runs_ok (fst (announce E t i u h))"
proof -
  assume ok: "runs_ok h"
  have "runs_ok h1" if "saveRun E d h = (h1, r)" for d h1 r
    using ok runs_ok_frame(1) [of E d h] that by simp
  then show ?thesis using ok by (auto simp: announce_def Let_def split: option.splits prod.splits)
qed

text \<open>A stop keeps the invariant whatever the run was; a pause because only a run whose strategy is there is paused.\<close>

lemma owned_run_known: "owned_run E i h = Inr (user, d) \<Longrightarrow> h_runs h i = Some d \<and> rd_DORAUserID d = user"
  by (auto simp: owned_run_def split: option.splits sum.splits if_splits)

lemma stop_send_ok:
  assumes "runs_ok h"
  shows "runs_ok (fst (stop_send E i h))"
proof -
  let ?s = "\<lambda>n. (h_svc h)\<lparr>sv_cancelled := insert n (sv_cancelled (h_svc h))\<rparr>"
  have "svc_ok (?s n) \<and> one_goroutine (?s n) \<and> statuses_ok (?s n) (h_runs h) \<and> exits_ok (?s n) (h_exitErrs h) (h_runs h) \<and>
      watch_ok (?s n) (h_watch h)" for n
    using runs_okD [OF assms]
    by (simp add: svc_ok_def one_goroutine_def statuses_ok_def status_ok_def exits_ok_def exit_ok_def goroutine_of_def watch_ok_def
        IsRunActive_def)
  then have "runs_ok (h\<lparr>h_svc := ?s n\<rparr>)" for n using assms by (simp add: runs_ok_def)
  then show ?thesis using assms
    by (auto simp: stop_send_def StopStrategy_def split: sum.splits prod.splits option.splits if_splits)
qed

lemma stop_mark_ok:
  assumes "runs_ok h"
  shows "runs_ok (stop_mark E i user h)"
proof -
  let ?f = "\<lambda>d. d\<lparr>rd_Status := ''stopped'', rd_UpdatedAt := time_UTC (hq_now E), rd_StoppedAt := Some (time_UTC (hq_now E))\<rparr>"
  have 1: "runs_ok (set_run i ?f h)"
  proof (cases "h_runs h i")
    case None
    then have "runs_ok (set_run i ?f h) = runs_ok h" by (intro runs_ok_cong) (simp_all add: h_frame)
    then show ?thesis using assms by blast
  next
    case (Some d)
    show ?thesis
      by (rule set_run_ok [OF assms Some]) (simp_all add: known_status_def active_run_def ended_run_def exit_agrees_def)
  qed
  have "runs_ok (g\<lparr>h_cancelled := c\<rparr>) = runs_ok g" for g c by (rule runs_ok_cong) simp_all
  then show ?thesis using 1 by (simp add: stop_mark_def Let_def)
qed

lemma stopRun_ok:
  assumes "runs_ok h"
  shows "runs_ok (fst (stopRun E i h))"
proof -
  obtain h1 r where "stop_send E i h = (h1, r)" by fastforce
  moreover from this have "runs_ok h1" using stop_send_ok [OF assms, of E i] by simp
  ultimately show ?thesis by (simp add: stopRun_def announce_ok stop_mark_ok split: sum.splits)
qed

lemma pause_mark_ok:
  assumes "runs_ok h" "IsRunActive i (h_svc h)" "h_runs h i = Some d" "rd_Status d \<noteq> ''stopped''"
  shows "runs_ok (pause_mark E i h)"
proof -
  have "status_ok (h_svc h) i d" using runs_okD(3) [OF assms(1)] assms(3) unfolding statuses_ok_def by blast
  then have act: "active_run d"
    using assms(2,4) by (auto simp: status_ok_def known_status_def active_run_def ended_run_def)
  have "runs_ok (set_run i (\<lambda>d. d\<lparr>rd_Status := ''paused'', rd_UpdatedAt := time_UTC (hq_now E)\<rparr>) h)"
    by (rule set_run_ok [OF assms(1,3)]) (use act in \<open>simp_all add: known_status_def ended_run_def exit_agrees_def\<close>)
  then show ?thesis by (simp add: pause_mark_def)
qed

lemma pauseRun_ok:
  assumes "runs_ok h"
  shows "runs_ok (fst (pauseRun E i h))"
proof (cases "pause_send E i h")
  case (Inr user)
  then obtain d where d: "owned_run E i h = Inr (user, d)" "rd_Status d \<noteq> ''stopped''" "IsRunActive i (h_svc h)"
    by (auto simp: pause_send_def PauseStrategy_def IsRunActive_def split: sum.splits prod.splits option.splits if_splits)
  then have "runs_ok (pause_mark E i h)" using owned_run_known [OF d(1)] by (intro pause_mark_ok [OF assms d(3) _ d(2)]) simp
  then show ?thesis using Inr by (simp add: pauseRun_def announce_ok)
qed (use assms in \<open>simp add: pauseRun_def\<close>)

lemma unblock_ok:
  assumes "runs_ok h"
  shows "runs_ok (fst (unblock E n h))"
proof (cases "n \<in> h_cancelled h \<and> h_blocked h n \<noteq> None")
  case True
  then obtain sub p where p: "h_blocked h n = Some (sub, p)" by force
  then obtain i s where i: "p = PendCreate i s" using runs_okD(7) [OF assms] unfolding blocked_ok_def by blast
  let ?h = "h\<lparr>h_blocked := (h_blocked h)(n := None), h_bus := map_option (\<lambda>b. b\<lparr>bus_hub := sub_Close sub (bus_hub b)\<rparr>) (h_bus h)\<rparr>"
  have "blocked_ok ((h_blocked h)(n := None))" using runs_okD(7) [OF assms] by (simp add: blocked_ok_def)
  then have "runs_ok ?h" using assms by (simp add: runs_ok_def)
  from create_finish_ok [OF this, of E i s] show ?thesis using True p i by (auto simp: unblock_def Let_def split: prod.splits)
qed (use assms in \<open>auto simp: unblock_def split: option.splits\<close>)

text \<open>A creation enters its run and changes no other.\<close>

lemma saveRun_runs: "saveRun E d h = (h', r) \<Longrightarrow> h_runs h' = h_runs h"
  by (metis fst_conv saveRun_frame(1))


lemma start_runs [h_frame]:
  "h_runs (startCompletionWatcher i h) = h_runs h" "h_runs (startStopLossObserver i s h) = h_runs h"
  by (simp_all add: startCompletionWatcher_def startStopLossObserver_def start_watcher_def Let_def)

lemma create_finish_runs [h_frame]: "h_runs (fst (create_finish E i s h)) = h_runs h"
  by (simp add: create_finish_def Let_def h_frame split: option.splits)

lemma updater_runs [h_frame]: "h_runs (fst (startOrderUpdater i u s p h)) = h_runs h"
  by (simp add: startOrderUpdater_def Let_def split: option.splits prod.splits sum.splits)

lemma create_start_runs:
  "h_runs (fst (create_start E d h)) = h_runs h \<or> h_runs (fst (create_start E d h)) = (h_runs h)(rd_ID d \<mapsto> d)"
proof (cases "RunStrategyWithID (hq_ctxEnded E) (rd_ID d) (h_svc h)" rule: prod.exhaust)
  case (Pair s r)
  obtain h1 e where "saveRun E d (h\<lparr>h_svc := s\<rparr>) = (h1, e)" by fastforce
  moreover from this have "h_runs h1 = h_runs h" using saveRun_runs by fastforce
  ultimately show ?thesis using Pair
    by (cases r; cases e) (simp_all add: create_start_def Let_def h_frame case_prod_unfold)
qed

lemma create_launch_runs:
  "h_runs (fst (create_launch E d s h)) = h_runs h \<or> h_runs (fst (create_launch E d s h)) = (h_runs h)(rd_ID d \<mapsto> d)"
proof -
  obtain h1 a where h1: "create_start E d h = (h1, a)" by fastforce
  then have 1: "h_runs h1 = h_runs h \<or> h_runs h1 = (h_runs h)(rd_ID d \<mapsto> d)" using create_start_runs [of E d h] by simp
  obtain h2 b where h2: "startOrderUpdater (rd_ID d) (rd_DORAUserID d) s (PendCreate (rd_ID d) s) h1 = (h2, b)" by fastforce
  then have "h_runs h2 = h_runs h1" using updater_runs by (metis fst_conv)
  then show ?thesis using h1 h2 1 by (simp add: create_launch_def h_frame split: option.splits)
qed

section \<open>Creations that stand between their check and their launch\<close>

text \<open>What no step but a creation changes, and that no step but a launch makes a run active.\<close>

definition static :: "Handler \<Rightarrow> HConfig \<times> (RunDetail \<times> Strat) list" where
  "static h = (h_cfg h, h_checked h)"

named_theorems static_frame \<open>steps that keep the configuration and the creations under way\<close>

lemma static_updates [static_frame]:
  "static (h\<lparr>h_runs := r\<rparr>) = static h" "static (h\<lparr>h_exitErrs := x\<rparr>) = static h" "static (h\<lparr>h_svc := s\<rparr>) = static h"
  "static (h\<lparr>h_ou := m\<rparr>) = static h" "static (h\<lparr>h_bus := b\<rparr>) = static h" "static (h\<lparr>h_cancelled := n\<rparr>) = static h"
  "static (h\<lparr>h_blocked := k\<rparr>) = static h" "static (h\<lparr>h_watch := w\<rparr>) = static h" "static (h\<lparr>h_observers := p\<rparr>) = static h"
  "static (h\<lparr>h_completion := q\<rparr>) = static h" "static (h\<lparr>h_next := z\<rparr>) = static h"
  by (simp_all add: static_def)

lemma static_helpers [static_frame]:
  "static (fst (saveRun E d h)) = static h" "static (publish_h E e h) = static h" "static (update_ou f h) = static h"
  "static (set_run i g h) = static h" "static (fst (ensure_h u k i st h)) = static h"
  by (simp_all add: static_def h_frame)

lemma static_saveRun [static_frame]: "saveRun E d h = (h', r) \<Longrightarrow> static h' = static h"
  by (metis fst_conv static_helpers(1))

lemma static_ensure [static_frame]: "ensure_h u k i st h = (h', r) \<Longrightarrow> static h' = static h"
  by (metis fst_conv static_helpers(5))

lemma static_watchers [static_frame]:
  "static (startCompletionWatcher i h) = static h" "static (startStopLossObserver i s h) = static h" "static (watcher_exit n w h) = static h"
  by (simp_all add: startCompletionWatcher_def startStopLossObserver_def start_watcher_def watcher_exit_def Let_def static_def)

lemma static_create_finish [static_frame]: "static (fst (create_finish E i s h)) = static h"
  by (simp add: create_finish_def Let_def static_frame split: option.splits)

lemma static_updater [static_frame]: "static (fst (startOrderUpdater i u s p h)) = static h"
  by (simp add: startOrderUpdater_def Let_def static_def split: option.splits prod.splits sum.splits)

lemma static_create_start [static_frame]: "static (fst (create_start E d h)) = static h"
proof (cases "RunStrategyWithID (hq_ctxEnded E) (rd_ID d) (h_svc h)" rule: prod.exhaust)
  case (Pair s r)
  obtain h1 e where "saveRun E d (h\<lparr>h_svc := s\<rparr>) = (h1, e)" by fastforce
  moreover from this have "static h1 = static h" by (simp add: static_frame)
  ultimately show ?thesis using Pair
    by (cases r; cases e) (simp_all add: create_start_def Let_def static_frame case_prod_unfold)
qed

lemma static_create_launch [static_frame]: "static (fst (create_launch E d s h)) = static h"
proof -
  obtain h1 a where h1: "create_start E d h = (h1, a)" by fastforce
  then have n: "static h1 = static h" using static_create_start [of E d h] by simp
  obtain h2 b where h2: "startOrderUpdater (rd_ID d) (rd_DORAUserID d) s (PendCreate (rd_ID d) s) h1 = (h2, b)" by fastforce
  then have "static h2 = static h" using static_updater [of "rd_ID d" "rd_DORAUserID d" s "PendCreate (rd_ID d) s" h1] n by simp
  then show ?thesis using h1 h2 n by (simp add: create_launch_def static_frame split: option.splits)
qed

lemma static_announce [static_frame]: "static (fst (announce E t i u h)) = static h"
proof (cases "h_runs h i")
  case (Some d)
  obtain h1 e where "saveRun E d h = (h1, e)" by fastforce
  moreover from this have "static h1 = static h" by (rule static_saveRun)
  ultimately show ?thesis using Some by (cases e) (simp_all add: announce_def Let_def static_frame)
qed (simp add: announce_def)

lemma static_stop [static_frame]: "static (fst (stop_send E i h)) = static h" "static (stop_mark E i u h) = static h"
  by (simp_all add: stop_send_def stop_mark_def Let_def static_frame split: sum.splits prod.splits option.splits)

lemma static_stopRun [static_frame]: "static (fst (stopRun E i h)) = static h"
proof (cases "stop_send E i h")
  case (Pair h1 r)
  then have "static h1 = static h" using static_stop(1) [of E i h] by simp
  then show ?thesis using Pair by (cases r) (simp_all add: stopRun_def static_frame)
qed

lemma static_steps [static_frame]:
  "static (fst (pauseRun E i h)) = static h" "static (strategy_exits n err h) = static h" "static (strategy_gone n h) = static h"
  by (simp_all add: pauseRun_def pause_mark_def strategy_exits_def strategy_gone_def static_frame split: option.splits sum.splits)

lemma static_maybePublish [static_frame]: "static (maybePublishNaturalCompletion E i h) = static h"
  by (simp add: maybePublish_eq Let_def static_frame split: option.splits)

lemma static_watcher_steps [static_frame]:
  "static (watcher_tick E b n h) = static h" "static (watcher_done n h) = static h" "static (watcher_publish E n h) = static h"
  by (simp_all add: watcher_tick_def watcher_done_def watcher_publish_def static_frame split: option.splits)

lemma static_unblock:
  assumes "runs_ok h"
  shows "static (fst (unblock E n h)) = static h"
proof (cases "n \<in> h_cancelled h \<and> h_blocked h n \<noteq> None")
  case True
  then obtain sub p where p: "h_blocked h n = Some (sub, p)" by force
  then obtain i s where "p = PendCreate i s" using runs_okD(7) [OF assms] unfolding blocked_ok_def by blast
  then show ?thesis using True p by (simp add: unblock_def Let_def case_prod_unfold static_frame)
qed (auto simp: unblock_def split: option.splits)

definition no_new_active :: "(string \<Rightarrow> RunDetail option) \<Rightarrow> (string \<Rightarrow> RunDetail option) \<Rightarrow> bool" where
  "no_new_active runs runs' \<longleftrightarrow> (\<forall>j e'. runs' j = Some e' \<longrightarrow> active_run e' \<longrightarrow>
     (\<exists>e. runs j = Some e \<and> active_run e \<and> rd_DORAUserID e = rd_DORAUserID e' \<and> rd_Config e = rd_Config e'))"

lemma no_new_active_refl [simp]: "no_new_active runs runs"
  by (simp add: no_new_active_def)

lemma no_new_active_upd:
  assumes "runs i = Some d" "active_run d' \<Longrightarrow> active_run d" "rd_DORAUserID d' = rd_DORAUserID d" "rd_Config d' = rd_Config d"
  shows "no_new_active runs (runs(i \<mapsto> d'))"
  using assms by (auto simp: no_new_active_def)

lemma book_free_mono:
  assumes "book_free cfg runs d" "no_new_active runs runs'"
  shows "book_free cfg runs' d"
  unfolding book_free_def
proof (intro allI impI notI)
  fix j e'
  assume e': "runs' j = Some e'" "same_book cfg d e'"
  then obtain e where "runs j = Some e" "active_run e" "rd_DORAUserID e = rd_DORAUserID e'" "rd_Config e = rd_Config e'"
    using assms(2) unfolding no_new_active_def same_book_def by blast
  then have "same_book cfg d e" using e'(2) unfolding same_book_def by metis
  then show False using assms(1) \<open>runs j = Some e\<close> unfolding book_free_def by blast
qed

lemma stopRun_no_new: "no_new_active (h_runs h) (h_runs (fst (stopRun E i h)))"
proof (cases "stop_send E i h")
  case (Pair h1 r)
  then have 1: "h_runs h1 = h_runs h" by (auto simp: stop_send_def split: sum.splits prod.splits option.splits if_splits)
  have "no_new_active (h_runs h) (h_runs (stop_mark E i u h1))" for u
    by (cases "h_runs h i") (auto simp: stop_mark_def Let_def h_frame 1 active_run_def intro!: no_new_active_upd)
  moreover have "h_runs (fst (announce E t i u g)) = h_runs g" for t u g
    by (auto simp: announce_def Let_def h_frame saveRun_def split: option.splits prod.splits)
  ultimately show ?thesis using Pair 1 by (cases r) (simp_all add: stopRun_def)
qed

lemma pauseRun_no_new:
  assumes "runs_ok h"
  shows "no_new_active (h_runs h) (h_runs (fst (pauseRun E i h)))"
proof (cases "pause_send E i h")
  case (Inr user)
  then obtain d where d: "owned_run E i h = Inr (user, d)" "rd_Status d \<noteq> ''stopped''" "IsRunActive i (h_svc h)"
    by (auto simp: pause_send_def PauseStrategy_def IsRunActive_def split: sum.splits prod.splits option.splits if_splits)
  have e: "h_runs h i = Some d" using owned_run_known [OF d(1)] by simp
  then have "status_ok (h_svc h) i d" using runs_okD(3) [OF assms] unfolding statuses_ok_def by blast
  then have act: "active_run d" using d(2,3) by (auto simp: status_ok_def known_status_def active_run_def ended_run_def)
  have "h_runs (fst (announce E t i u g)) = h_runs g" for t u g
    by (auto simp: announce_def Let_def h_frame saveRun_def split: option.splits prod.splits)
  then show ?thesis using Inr e act by (simp add: pauseRun_def pause_mark_def h_frame no_new_active_upd)
qed (simp add: pauseRun_def)

lemma maybePublish_no_new: "no_new_active (h_runs h) (h_runs (maybePublishNaturalCompletion E i h))"
proof (cases "h_runs h i")
  case (Some d)
  have "active_run d" if "rd_Status d = ''running''" using that by (simp add: active_run_def)
  then show ?thesis using Some by (simp add: maybePublish_eq Let_def h_frame no_new_active_upd)
qed (simp add: maybePublish_eq Let_def)

lemma watcher_no_new:
  "no_new_active (h_runs h) (h_runs (watcher_tick E b n h))" "no_new_active (h_runs h) (h_runs (watcher_done n h))"
  "no_new_active (h_runs h) (h_runs (watcher_publish E n h))"
  using maybePublish_no_new
  by (simp_all add: watcher_tick_def watcher_done_def watcher_publish_def watcher_exit_def Let_def h_frame split: option.splits)

lemma unblock_no_new:
  assumes "runs_ok h"
  shows "no_new_active (h_runs h) (h_runs (fst (unblock E n h)))"
proof (cases "n \<in> h_cancelled h \<and> h_blocked h n \<noteq> None")
  case True
  then obtain sub p where p: "h_blocked h n = Some (sub, p)" by force
  then obtain i s where "p = PendCreate i s" using runs_okD(7) [OF assms] unfolding blocked_ok_def by blast
  then show ?thesis using True p
    by (simp add: unblock_def create_finish_def startCompletionWatcher_def startStopLossObserver_def start_watcher_def Let_def
        case_prod_unfold h_frame split: option.splits)
qed (auto simp: unblock_def split: option.splits)

text \<open>The creations under way are for different books, and no active run is on any of them.\<close>

definition apart :: "HConfig \<Rightarrow> RunDetail \<times> Strat \<Rightarrow> RunDetail \<times> Strat \<Rightarrow> bool" where
  "apart cfg c c' \<longleftrightarrow> \<not> same_book cfg (fst c) (fst c')"

definition checked_ok :: "Handler \<Rightarrow> bool" where
  "checked_ok h \<longleftrightarrow> sorted_wrt (apart (h_cfg h)) (h_checked h) \<and>
     (\<forall>c\<in>set (h_checked h). rd_Status (fst c) = ''running'' \<and> book_free (h_cfg h) (h_runs h) (fst c))"

definition handler_ok :: "Handler \<Rightarrow> bool" where
  "handler_ok h \<longleftrightarrow> runs_ok h \<and> checked_ok h"

lemma handler_runs: "handler_ok h \<Longrightarrow> runs_ok h"
  by (simp add: handler_ok_def)

lemma NewHandler_checked: "handler_ok (NewHandler cfg ou bus table)"
  by (simp add: handler_ok_def NewHandler_ok checked_ok_def) (simp add: NewHandler_def)

lemma checked_keep:
  assumes "handler_ok h" "runs_ok h'" "static h' = static h" "no_new_active (h_runs h) (h_runs h')"
  shows "handler_ok h'"
  using assms book_free_mono unfolding handler_ok_def checked_ok_def static_def by fastforce

lemma apart_remove1:
  "sorted_wrt (apart cfg) cs \<Longrightarrow> c \<in> set cs \<Longrightarrow>
     sorted_wrt (apart cfg) (remove1 c cs) \<and> (\<forall>c'\<in>set (remove1 c cs). apart cfg c c')"
proof (induction cs)
  case (Cons x cs)
  then show ?case using set_remove1_subset [of c cs] by (auto simp: apart_def same_book_sym)
qed simp

lemma same_book_active: "rd_Status d = ''running'' \<Longrightarrow> same_book cfg e d \<Longrightarrow> same_book cfg d e"
  by (simp add: same_book_sym)

text \<open>A new run takes its book from no creation under way that is for another one.\<close>

lemma launch_checked:
  assumes "handler_ok h" "runs_ok (fst (create_launch E d s h))" "\<forall>c\<in>set (h_checked h). apart (h_cfg h) (d, s) c"
  shows "handler_ok (fst (create_launch E d s h))"
proof -
  let ?h = "fst (create_launch E d s h)"
  have st: "h_cfg ?h = h_cfg h" "h_checked ?h = h_checked h" using static_create_launch [of E d s h] by (simp_all add: static_def)
  have "book_free (h_cfg h) (h_runs ?h) (fst c)" if c: "c \<in> set (h_checked h)" for c
  proof -
    have "book_free (h_cfg h) (h_runs h) (fst c)" using assms(1) c by (simp add: handler_ok_def checked_ok_def)
    moreover have "\<not> same_book (h_cfg h) (fst c) d" using assms(3) c same_book_sym by (auto simp: apart_def)
    ultimately show ?thesis using create_launch_runs [of E d s h] by (fastforce simp: book_free_def split: if_splits)
  qed
  then show ?thesis using assms(1,2) st by (simp add: handler_ok_def checked_ok_def)
qed

section \<open>Traces\<close>

text \<open>New identifiers are new, the iteration over the map of runs meets every run, no run is resumed, and no creation is
  checked while another one for the same user and order book is under way.\<close>

definition book_alone :: "HEnv \<Rightarrow> CreateRunRequest \<Rightarrow> Handler \<Rightarrow> bool" where
  "book_alone E req h \<longleftrightarrow>
     (case create_check E req h of Inl _ \<Rightarrow> True | Inr c \<Rightarrow> list_all (apart (h_cfg h) c) (h_checked h))"

definition ev_ok :: "h_ev \<Rightarrow> Handler \<Rightarrow> bool" where
  "ev_ok ev h \<longleftrightarrow>
     (case ev of
        HCreate E req \<Rightarrow> fresh_id (hq_newID E) h \<and> set (cr_ids req) = dom (h_runs h) \<and> book_alone E req h
      | HCheck E req \<Rightarrow> set (cr_ids req) = dom (h_runs h) \<and> book_alone E req h
      | HLaunch E c \<Rightarrow> fresh_id (rd_ID (fst c)) h
      | HResume E i \<Rightarrow> False
      | _ \<Rightarrow> True)"

fun trace_ok :: "h_ev list \<Rightarrow> Handler \<Rightarrow> bool" where
  "trace_ok [] h \<longleftrightarrow> True"
| "trace_ok (ev # evs) h \<longleftrightarrow> ev_ok ev h \<and> trace_ok evs (h_step ev h)"

lemma createRun_handler_ok:
  assumes "handler_ok h" "fresh_id (hq_newID E) h" "set (cr_ids req) = dom (h_runs h)" "book_alone E req h"
  shows "handler_ok (fst (createRun E req h))"
proof (cases "create_check E req h")
  case (Inr c)
  have "runs_ok (fst (createRun E req h))" using createRun_ok assms by (simp add: handler_ok_def)
  then show ?thesis using Inr assms(1,4) launch_checked [of h E "fst c" "snd c"]
    by (simp add: createRun_def book_alone_def list_all_iff case_prod_unfold)
qed (use assms in \<open>simp add: createRun_def\<close>)

lemma createRun_check_ok:
  assumes "handler_ok h" "set (cr_ids req) = dom (h_runs h)" "book_alone E req h"
  shows "handler_ok (createRun_check E req h)"
proof (cases "create_check E req h")
  case (Inr c)
  have "runs_ok (h\<lparr>h_checked := c # h_checked h\<rparr>) = runs_ok h" by (rule runs_ok_cong) simp_all
  moreover have "rd_Status (fst c) = ''running''" "book_free (h_cfg h) (h_runs h) (fst c)"
    using create_check_sound(2,3) [of E req h "fst c" "snd c"] Inr assms(2) by simp_all
  ultimately show ?thesis using Inr assms(1,3)
    by (simp add: createRun_check_def handler_ok_def checked_ok_def book_alone_def list_all_iff)
qed (use assms in \<open>simp add: createRun_check_def\<close>)

lemma createRun_launch_ok:
  assumes "handler_ok h" "fresh_id (rd_ID (fst c)) h"
  shows "handler_ok (fst (createRun_launch E c h))"
proof (cases "c \<in> set (h_checked h)")
  case True
  let ?h = "h\<lparr>h_checked := remove1 c (h_checked h)\<rparr>"
  have c: "rd_Status (fst c) = ''running''" "book_free (h_cfg h) (h_runs h) (fst c)" "sorted_wrt (apart (h_cfg h)) (h_checked h)"
    using assms(1) True by (simp_all add: handler_ok_def checked_ok_def)
  note ap = apart_remove1 [OF c(3) True]
  have r: "runs_ok ?h = runs_ok h" by (rule runs_ok_cong) simp_all
  have "handler_ok ?h" using assms(1) ap set_remove1_subset [of c "h_checked h"] unfolding handler_ok_def r checked_ok_def by auto
  moreover have "runs_ok (fst (create_launch E (fst c) (snd c) ?h))"
    using create_launch_ok [of ?h "fst c" E "snd c"] r c(1,2) assms by (simp add: handler_ok_def fresh_id_def)
  ultimately have "handler_ok (fst (create_launch E (fst c) (snd c) ?h))" using launch_checked [of ?h E "fst c" "snd c"] ap by simp
  then show ?thesis using True by (simp add: createRun_launch_def case_prod_unfold)
qed (use assms in \<open>simp add: createRun_launch_def\<close>)

lemma h_step_ok:
  assumes "handler_ok h" "ev_ok ev h"
  shows "handler_ok (h_step ev h)"
proof (cases "h_crashed h")
  case False
  have ok: "runs_ok h" using assms(1) by (rule handler_runs)
  note keep = checked_keep [OF assms(1)]
  show ?thesis
  proof (cases ev)
    case (HCreate E req)
    then show ?thesis using False assms createRun_handler_ok by (simp add: h_step_def ev_ok_def)
  next
    case (HCheck E req)
    then show ?thesis using False assms createRun_check_ok by (simp add: h_step_def ev_ok_def)
  next
    case (HLaunch E c)
    then show ?thesis using False assms createRun_launch_ok by (simp add: h_step_def ev_ok_def)
  next
    case (HExits n err)
    then have "h_runs (h_step ev h) = h_runs h" using False by (simp add: h_step_def strategy_exits_def split: option.splits)
    then show ?thesis using HExits False ok strategy_exits_ok by (intro keep) (simp_all add: h_step_def static_frame)
  next
    case (HGone n)
    then show ?thesis using False ok strategy_gone_ok
      by (intro keep) (simp_all add: h_step_def static_frame, simp add: strategy_gone_def)
  next
    case (HOrderUpdates e)
    then show ?thesis using False ok by (intro keep) (simp_all add: h_step_def static_frame h_frame)
  qed (use False assms(2) ok in \<open>auto simp: h_step_def ev_ok_def static_frame static_unblock stopRun_ok pauseRun_ok watcher_tick_ok
      watcher_done_ok watcher_publish_ok unblock_ok stopRun_no_new pauseRun_no_new watcher_no_new unblock_no_new intro!: keep\<close>)
qed (use assms in \<open>simp add: h_step_def\<close>)

lemma h_run_ok: "handler_ok h \<Longrightarrow> trace_ok evs h \<Longrightarrow> handler_ok (h_run evs h)"
  by (induction evs arbitrary: h) (simp_all add: h_run_def h_step_ok)

section \<open>Numbers of goroutines\<close>

text \<open>The part of the state that names goroutines by number; what no request to the table or the bus changes.\<close>

record gnums =
  gn_watch :: "nat \<Rightarrow> watcher option"
  gn_blocked :: "nat \<Rightarrow> (nat \<times> pending) option"
  gn_cancelled :: "nat set"
  gn_observers :: "string \<Rightarrow> nat option"
  gn_completion :: "string \<Rightarrow> nat option"
  gn_next :: nat

definition nums :: "Handler \<Rightarrow> gnums" where
  "nums h = \<lparr>gn_watch = h_watch h, gn_blocked = h_blocked h, gn_cancelled = h_cancelled h, gn_observers = h_observers h,
     gn_completion = h_completion h, gn_next = h_next h\<rparr>"

named_theorems nums_frame \<open>steps that name no new goroutine\<close>

lemma nums_updates [nums_frame]:
  "nums (h\<lparr>h_runs := r\<rparr>) = nums h" "nums (h\<lparr>h_exitErrs := x\<rparr>) = nums h" "nums (h\<lparr>h_svc := s\<rparr>) = nums h"
  "nums (h\<lparr>h_ou := m\<rparr>) = nums h" "nums (h\<lparr>h_bus := b\<rparr>) = nums h" "nums (h\<lparr>h_table := t\<rparr>) = nums h"
  "nums (h\<lparr>h_checked := c\<rparr>) = nums h" "nums (createRun_check E req h) = nums h"
  by (simp_all add: nums_def createRun_check_def split: sum.splits)

lemma nums_helpers [nums_frame]:
  "nums (fst (saveRun E d h)) = nums h" "nums (publish_h E e h) = nums h" "nums (update_ou f h) = nums h"
  "nums (set_run i g h) = nums h" "nums (fst (ensure_h u k i st h)) = nums h"
  by (simp_all add: saveRun_def publish_h_def update_ou_def set_run_def ensure_h_def nums_frame split: option.splits prod.splits)

lemma nums_saveRun [nums_frame]: "saveRun E d h = (h', r) \<Longrightarrow> nums h' = nums h"
  by (metis fst_conv nums_helpers(1))

lemma nums_ensure [nums_frame]: "ensure_h u k i st h = (h', r) \<Longrightarrow> nums h' = nums h"
  by (metis fst_conv nums_helpers(5))


lemma nums_announce [nums_frame]: "nums (fst (announce E t i u h)) = nums h"
proof (cases "h_runs h i")
  case (Some d)
  obtain h1 e where "saveRun E d h = (h1, e)" by fastforce
  moreover from this have "nums h1 = nums h" by (rule nums_saveRun)
  ultimately show ?thesis using Some by (cases e) (simp_all add: announce_def Let_def nums_frame)
qed (simp add: announce_def)


lemma nums_steps [nums_frame]:
  "nums (pause_mark E i h) = nums h" "nums (strategy_exits n err h) = nums h" "nums (strategy_gone n h) = nums h"
  by (simp_all add: pause_mark_def strategy_exits_def strategy_gone_def nums_frame split: option.splits)

lemma nums_maybePublish [nums_frame]: "nums (maybePublishNaturalCompletion E i h) = nums h"
  by (simp add: maybePublish_eq Let_def nums_frame split: option.splits)









section \<open>Steps on the numbers\<close>









lemma pauseRun_nums [nums_frame]: "nums (fst (pauseRun E i h)) = nums h"
  by (simp add: pauseRun_def nums_frame split: sum.splits)







section \<open>A run whose request waits\<close>



lemma createRun_check_runs [h_frame]: "h_runs (createRun_check E req h) = h_runs h"
  by (simp add: createRun_check_def split: sum.splits)

lemma announce_runs [h_frame]: "h_runs (fst (announce E t i u h)) = h_runs h"
proof (cases "h_runs h i")
  case (Some d)
  obtain h1 e where "saveRun E d h = (h1, e)" by fastforce
  moreover from this have "h_runs h1 = h_runs h" by (rule saveRun_runs)
  ultimately show ?thesis using Some by (cases e) (simp_all add: announce_def Let_def h_frame)
qed (simp add: announce_def)




lemma watcher_exit_runs [h_frame]: "h_runs (watcher_exit n w h) = h_runs h"
  by (simp add: watcher_exit_def Let_def)



lemma exits_runs [h_frame]: "h_runs (strategy_exits n err h) = h_runs h" "h_runs (strategy_gone n h) = h_runs h"
  by (simp_all add: strategy_exits_def strategy_gone_def split: option.splits)




section \<open>Properties\<close>


text \<open>C11: After any such sequence - creations, stops, pauses and goroutine steps, no run resumed or restored and none failed
  for its API key - a run that is reported completed or failed is one whose strategy has returned, without an error or
  with the error reported, exactly once under its identifier; it is never one that still trades.\<close>

theorem exit_classified:
  assumes "trace_ok evs (NewHandler cfg ou bus table)" "h = h_run evs (NewHandler cfg ou bus table)" "h_runs h i = Some d"
  shows "\<exists>n g. sv_runs (h_svc h) n = Some g \<and> gr_run g = i \<and> (\<forall>n' g'. sv_runs (h_svc h) n' = Some g' \<longrightarrow> gr_run g' = i \<longrightarrow> n' = n) \<and>
    (rd_Status d = ''completed'' \<longrightarrow> gr_exit g = Some None \<and> \<not> IsRunActive i (h_svc h)) \<and>
    (rd_Status d = ''failed'' \<longrightarrow> gr_exit g = Some (Some (rd_Error d)) \<and> \<not> IsRunActive i (h_svc h))"
proof -
  have ok: "runs_ok h" using handler_runs [OF h_run_ok [OF NewHandler_checked assms(1)]] assms(2) by simp
  obtain n g where g: "goroutine_of (h_svc h) i n g" "exit_agrees d (h_exitErrs h i) (gr_exit g)" using exit_okD [OF ok assms(3)] .
  have "status_ok (h_svc h) i d" using runs_okD(3) [OF ok] assms(3) unfolding statuses_ok_def by blast
  then have "rd_Status d = ''completed'' \<or> rd_Status d = ''failed'' \<longrightarrow> \<not> IsRunActive i (h_svc h)"
    by (simp add: status_ok_def ended_run_def)
  moreover have "sv_runs (h_svc h) n = Some g" "gr_run g = i" using g(1) by (simp_all add: goroutine_of_def)
  moreover from this have "\<forall>n' g'. sv_runs (h_svc h) n' = Some g' \<longrightarrow> gr_run g' = i \<longrightarrow> n' = n"
    using runs_okD(2) [OF ok] unfolding one_goroutine_def by blast
  ultimately show ?thesis using g(2) unfolding exit_agrees_def by blast
qed


text \<open>C20: When the row of a new run cannot be saved, its strategy stays alive behind the error: it is in the service and
  in no request's reach, so that every stop, pause and read of it answers that there is no such run.\<close>

theorem unsaved_run_unreachable:
  assumes "runs_ok h" "fresh_id (hq_newID E) h" "create_check E req h = Inr (d, strat)" "\<not> hq_ctxEnded E"
    and "hc_runStore (h_cfg h)" "\<not> hq_saveOK E"
  shows "\<exists>h' msg. createRun E req h = (h', Answer 500 msg) \<and> IsRunActive (rd_ID d) (h_svc h') \<and>
    (\<forall>E' u. hq_user E' = Inr u \<longrightarrow> stopRun E' (rd_ID d) h' = (h', Answer 404 ''run not found'') \<and>
      pauseRun E' (rd_ID d) h' = (h', Answer 404 ''run not found'') \<and>
      resumeRun E' (rd_ID d) h' = (h', Answer 404 ''run not found'') \<and> getRun E' (rd_ID d) h' = Answer 404 ''run not found'')"
proof -
  note sound = create_check_sound(1) [OF assms(3)]
  have "\<not> IsRunActive (rd_ID d) (h_svc h)" using fresh_inactive [OF assms(1,2)] sound by simp
  then have "sv_strategies (h_svc h) (rd_ID d) = None" by (simp add: IsRunActive_def)
  moreover have "h_runs h (rd_ID d) = None" using assms(2) sound by (simp add: fresh_id_def)
  ultimately show ?thesis using assms(3-6)
    by (simp add: createRun_def create_launch_def create_start_def RunStrategyWithID_def saveRun_def IsRunActive_def stopRun_def stop_send_def
        pauseRun_def pause_send_def resumeRun_def owned_run_def getRun_def Let_def)
qed

text \<open>C21: Stopping a run that is stopped releases its user's order updates once more. When it happens within the grace
  delay, both timers elapse and the second closes a closed channel: the process ends, for every user.\<close>

theorem second_stop_crashes:
  assumes "h_runs h i = Some d" "rd_Status d = ''stopped''" "hq_user E = Inr (rd_DORAUserID d)" "rd_DORAUserID d \<noteq> []"
    and "h_ou h = Some m" "\<not> om_crashed m" "om_subs m (rd_DORAUserID d) = Some n" "om_sub m n = Some s" "os_count s \<le> 0"
    and "om_timer m t = Some \<lparr>tm_user = rd_DORAUserID d, tm_sub = n, tm_pc = TmWaiting, tm_stopped = False, tm_done = False\<rparr>"
    and "t < om_next m"
  shows "h_crashed (h_run [HStop E i, HOrderUpdates (OuFires t), HOrderUpdates (OuFires (om_next m))] h)"
proof -
  let ?m = "UpdateRunStatus i ''stopped'' m"
  let ?u = "Unsubscribe_OU (rd_DORAUserID d) ?m"
  have a: "h_ou (fst (announce E ty i u g)) = h_ou g" for ty u g
    by (auto simp: announce_def saveRun_def publish_h_def Let_def split: option.splits prod.splits)
  have "fst (stopRun E i h) = fst (announce E EventRunStopped i (rd_DORAUserID d) (stop_mark E i (rd_DORAUserID d) h))"
    using assms(1-3) by (simp add: stopRun_def stop_send_def owned_run_def)
  then have "h_ou (fst (stopRun E i h)) = Some (ou_step (OuUnsubscribe (rd_DORAUserID d)) ?m)"
    using assms(4,5) by (simp add: a stop_mark_def Let_def update_ou_def set_run_def)
  then have st: "h_ou (fst (stopRun E i h)) = Some ?u" using assms(6) by (simp add: ou_step_def UpdateRunStatus_def)
  have u: "om_crashed ?u = False" "om_timer ?u t = om_timer m t" "om_timer ?u (om_next m) =
      Some \<lparr>tm_user = rd_DORAUserID d, tm_sub = n, tm_pc = TmWaiting, tm_stopped = False, tm_done = False\<rparr>"
      "om_sub ?u n = Some (s\<lparr>os_count := os_count s - 1, os_grace := Some (om_next m)\<rparr>)"
    using assms(6-9,11) by (simp_all add: Unsubscribe_OU_def UpdateRunStatus_def scheduleGraceTeardown_def set_sub_def set_timer_def Let_def)
  have f1: "timer_fires t ?u = set_timer t \<lparr>tm_user = rd_DORAUserID d, tm_sub = n, tm_pc = TmFired, tm_stopped = False, tm_done = False\<rparr>
      (set_timer (om_next m) \<lparr>tm_user = rd_DORAUserID d, tm_sub = n, tm_pc = TmWaiting, tm_stopped = False, tm_done = True\<rparr> ?u)"
    using u assms(10,11) by (simp add: timer_fires_def close_done_def set_timer_def Let_def)
  define v where "v = timer_fires t ?u"
  have v: "om_crashed v = False" "om_sub v n = Some (s\<lparr>os_count := os_count s - 1, os_grace := Some (om_next m)\<rparr>)" "om_timer v (om_next m) =
      Some \<lparr>tm_user = rd_DORAUserID d, tm_sub = n, tm_pc = TmWaiting, tm_stopped = False, tm_done = True\<rparr>"
    using u assms(11) by (simp_all add: v_def f1 set_timer_def)
  then have "om_crashed (timer_fires (om_next m) v)" by (simp add: timer_fires_def close_done_def)
  then show ?thesis
    using st u(1) v(1) assms(5,6) by (simp add: h_run_def h_step_def h_crashed_def update_ou_def ou_step_def v_def)
qed

section \<open>Concrete values\<close>

definition demo_strategy :: "StratKind \<Rightarrow> StrategyDefinition" where
  "demo_strategy k = \<lparr>sd_Available = True, sd_SupportsRun = True, sd_SupportsBacktest = True, sd_DecodeConfig =
     Some (\<lambda>c _. Inr (c, \<lparr>st_kind = k, st_client = None, st_decisions = False, st_state = False, st_decisionSeq = 0\<rparr>))\<rparr>"

definition demo_cfg :: HConfig where
  "demo_cfg = \<lparr>hc_Strategies = [''mr'' \<mapsto> demo_strategy KMeanReversion, ''twap'' \<mapsto> demo_strategy KTWAP], hc_runStore = True,
     hc_decisionStore = False, hc_stateStore = False, hc_encKey = [], hc_OrderBook = (\<lambda>c. c), hc_EndTime = (\<lambda>_. None)\<rparr>"

definition demo_henv :: "bool \<Rightarrow> string \<Rightarrow> HEnv" where
  "demo_henv saved i = \<lparr>hq_user = Inr ''u'', hq_apiKey = Some ''k'', hq_now = time_zero, hq_newID = i, hq_eventID = ''e'',
     hq_parseUUID = Some, hq_logOK = True, hq_saveOK = saved, hq_ctxEnded = False, hq_delivered = True, hq_MaxSeq = (0, None),
     hq_Encrypt = (\<lambda>k _. Inr k), hq_Decrypt = (\<lambda>k _. Inr k)\<rparr>"

definition demo_req :: "string \<Rightarrow> CreateRunRequest" where
  "demo_req t = \<lparr>cr_StrategyType = t, cr_Config = ''b'', cr_ids = []\<rparr>"

definition demo_bus :: Bus where
  "demo_bus = \<lparr>bus_log = [], bus_hub = NewHub 4, bus_replay = (\<lambda>_. []), bus_replayN = 4\<rparr>"

abbreviation demo_server :: "ou_mgr option \<Rightarrow> Bus option \<Rightarrow> Handler" where
  "demo_server ou bus \<equiv> NewHandler demo_cfg ou bus Map.empty"

lemmas demo_defs = demo_strategy_def demo_cfg_def demo_henv_def demo_req_def demo_bus_def NewHandler_def NewService_def NewHub_def NewManager_def

lemmas create_defs = createRun_def create_launch_def create_check_def create_start_def create_finish_def resolveStrategy_def applyUserAPIKey_def
  requireMarketClient_def canPlaceOrders_def attachStateStore_def attachDecisionStore_def isExec_def findActiveRunForOrderBook_def
  RunStrategyWithID_def saveRun_def ensure_h_def startOrderUpdater_def startStopLossObserver_def startCompletionWatcher_def
  start_watcher_def publish_h_def publishEvent_def bus_Subscribe_def hub_Subscribe_def

lemma demo_new: "ev_ok (HCreate (demo_henv b i) (demo_req t)) (demo_server ou bus)"
  by (simp add: ev_ok_def fresh_id_def book_alone_def demo_defs split: sum.splits)

lemmas demo_eval = h_run_def h_step_def h_crashed_def create_defs demo_defs Let_def

text \<open>Two creations for one user and order book that are checked before either is launched both launch.\<close>

definition demo_created :: "string \<Rightarrow> RunDetail \<times> Strat" where
  "demo_created i = (case create_check (demo_henv True i) (demo_req ''mr'') (demo_server None None) of Inr c \<Rightarrow> c)"

theorem concurrent_creates_race:
  fixes h :: Handler
  defines "h \<equiv> h_run [HCheck (demo_henv True ''r'') (demo_req ''mr''), HCheck (demo_henv True ''s'') (demo_req ''mr''),
    HLaunch (demo_henv True ''r'') (demo_created ''r''), HLaunch (demo_henv True ''s'') (demo_created ''s'')] (demo_server None None)"
  shows "\<exists>d e. h_runs h ''r'' = Some d \<and> h_runs h ''s'' = Some e \<and> same_book (h_cfg h) d e \<and>
    IsRunActive ''r'' (h_svc h) \<and> IsRunActive ''s'' (h_svc h)"
  by (simp add: h_def demo_created_def demo_eval createRun_check_def createRun_launch_def same_book_def active_run_def IsRunActive_def)


text \<open>The strategy returns an error, its goroutine is gone, the watcher sees it and classifies the run.\<close>

theorem exit_classified_witness:
  "\<exists>g. sv_runs (h_svc (h_run [HCreate (demo_henv True ''r'') (demo_req ''mr''), HExits 0 (Some ''boom''), HGone 0,
      HTick (demo_henv True ''r'') False 1, HWatchPublish (demo_henv True ''r'') 1] (demo_server None None))) 0 = Some g \<and>
    gr_exit g = Some (Some ''boom'')"
proof -
  let ?evs = "[HCreate (demo_henv True ''r'') (demo_req ''mr''), HExits 0 (Some ''boom''), HGone 0,
      HTick (demo_henv True ''r'') False 1, HWatchPublish (demo_henv True ''r'') 1]"
  let ?h = "h_run ?evs (demo_server None None)"
  have t: "trace_ok ?evs (demo_server None None)" using demo_new by (simp add: ev_ok_def [of "HExits _ _"]
      ev_ok_def [of "HGone _"] ev_ok_def [of "HTick _ _ _"] ev_ok_def [of "HWatchPublish _ _"])
  obtain d where d: "h_runs ?h ''r'' = Some d" "rd_Status d = ''failed''" "rd_Error d = ''boom''"
    by (simp add: demo_eval strategy_exits_def run_returns_def strategy_gone_def run_gone_def watcher_tick_def watcher_publish_def
        watcher_exit_def maybePublishNaturalCompletion_def IsRunActive_def)
  obtain n g where g: "sv_runs (h_svc ?h) n = Some g" "gr_exit g = Some (Some ''boom'')"
    using exit_classified [OF t refl d(1)] d(2,3) by auto
  moreover have "n = 0" using g(1) by (simp add: demo_eval strategy_exits_def run_returns_def strategy_gone_def run_gone_def
      watcher_tick_def watcher_publish_def watcher_exit_def maybePublishNaturalCompletion_def IsRunActive_def split: if_splits)
  ultimately show ?thesis by blast
qed


theorem unsaved_run_unreachable_witness:
  "IsRunActive ''r'' (h_svc (fst (createRun (demo_henv False ''r'') (demo_req ''mr'') (demo_server None None)))) \<and>
   fst (stopRun (demo_henv True ''r'') ''r'' (fst (createRun (demo_henv False ''r'') (demo_req ''mr'') (demo_server None None)))) =
     fst (createRun (demo_henv False ''r'') (demo_req ''mr'') (demo_server None None))"
proof -
  obtain d strat where k: "create_check (demo_henv False ''r'') (demo_req ''mr'') (demo_server None None) = Inr (d, strat)" "rd_ID d = ''r''"
    by (simp add: demo_eval)
  have "fresh_id (hq_newID (demo_henv False ''r'')) (demo_server None None)" using demo_new [of False "''r''" "''mr''"] by (simp add: ev_ok_def)
  from unsaved_run_unreachable [OF NewHandler_ok this k(1)] obtain h' msg where h:
      "createRun (demo_henv False ''r'') (demo_req ''mr'') (demo_server None None) = (h', Answer 500 msg)" "IsRunActive (rd_ID d) (h_svc h')"
      "\<forall>E' u. hq_user E' = Inr u \<longrightarrow> stopRun E' (rd_ID d) h' = (h', Answer 404 ''run not found'')"
    by (auto simp: demo_defs)
  have "hq_user (demo_henv True ''r'') = Inr ''u''" by (simp add: demo_defs)
  then show ?thesis using h k(2) by simp
qed

theorem second_stop_crashes_witness:
  "h_crashed (h_run [HCreate (demo_henv True ''r'') (demo_req ''mr''), HStop (demo_henv True ''r'') ''r'', HStop (demo_henv True ''r'') ''r'',
     HOrderUpdates (OuFires 1), HOrderUpdates (OuFires 2)] (demo_server (Some NewManager) None))"
proof -
  let ?E = "demo_henv True ''r''"
  let ?h = "h_run [HCreate ?E (demo_req ''mr''), HStop ?E ''r''] (demo_server (Some NewManager) None)"
  note stop_eval = demo_eval stopRun_def stop_send_def stop_mark_def announce_def owned_run_def StopStrategy_def set_run_def update_ou_def
    EnsureSubscribed_def Unsubscribe_OU_def UpdateRunStatus_def scheduleGraceTeardown_def set_sub_def set_timer_def ou_step_def uuid_Nil_def
  obtain d where d: "h_runs ?h ''r'' = Some d" "rd_Status d = ''stopped''" "rd_DORAUserID d = ''u''" by (simp add: stop_eval)
  obtain m where m: "h_ou ?h = Some m" "\<not> om_crashed m" "om_subs m ''u'' = Some 0" "om_next m = 2"
    "map_option os_count (om_sub m 0) = Some 0" "om_timer m 1 = Some \<lparr>tm_user = ''u'', tm_sub = 0, tm_pc = TmWaiting, tm_stopped = False, tm_done = False\<rparr>"
    by (simp add: stop_eval)
  then obtain s where s: "om_sub m 0 = Some s" "os_count s = 0" by auto
  have "h_crashed (h_run [HStop ?E ''r'', HOrderUpdates (OuFires 1), HOrderUpdates (OuFires (om_next m))] ?h)"
    by (rule second_stop_crashes [OF d(1,2) _ _ m(1,2) _ s(1)]) (use d(3) m s(2) in \<open>simp_all add: demo_henv_def\<close>)
  then show ?thesis by (simp add: m(4) h_run_def)
qed

end
