(* ===== verification/Config_Decode.thy ===== *)
theory Config_Decode
  imports MR_Model BO_Model MO_Model CT_Model Twap_Model Vwap_Model Benchmark Go_Strings
begin

text \<open>
  The configurations of runs and backtests as the strategy server reads and stores them: the decoders of
  \<open>src/strategy/http/handler.go\<close> with the defaults of each strategy.

  \<^item> A payload is the record the JSON text is unmarshalled into; an omitted pointer field is \<open>None\<close>. The text
    codec is a pair of functions, \<open>unmarshal\<close> and \<open>marshal\<close>. Floats are finite, as JSON has no others, and are
    rational numbers; \<open>to_float\<close> is \<open>mustFloat64\<close>, \<open>d_of_float\<close> the conversion back. \<open>parse\<close> is \<open>uuid.Parse\<close>.
  \<^item> Every decoder returns the configuration the strategy gets and the normalised payload, which is what the row
    of a run keeps and what a resume decodes again.
\<close>

section \<open>Shared parts\<close>

text \<open>A check that returns an error, before what follows.\<close>

definition reject :: "bool \<Rightarrow> gerror \<Rightarrow> 'a res \<Rightarrow> 'a res" where
  "reject bad err k = (if bad then Inl err else k)"

definition float_field :: "'d decimal_ops \<Rightarrow> string \<Rightarrow> rat \<Rightarrow> 'd res" where
  "float_field D field x =
     (case d_of_float D x of (d, None) \<Rightarrow> Inr d | (_, Some err) \<Rightarrow> Inl (''config.'' @ field @ '': '' @ err))"

definition uuid_field :: "(string \<Rightarrow> string res) \<Rightarrow> string \<Rightarrow> string \<Rightarrow> string res" where
  "uuid_field parse field x =
     (case parse x of Inr i \<Rightarrow> Inr i | Inl err \<Rightarrow> Inl (''config.'' @ field @ '': '' @ err))"

definition or_default :: "'a \<Rightarrow> 'a option \<Rightarrow> 'a" where
  "or_default x y = (case y of None \<Rightarrow> x | Some z \<Rightarrow> z)"

definition zero_default :: "'a \<Rightarrow> 'a \<Rightarrow> ('a::zero)" where
  "zero_default x y = (if y = 0 then x else y)"

definition MustNew :: "'d decimal_ops \<Rightarrow> int \<Rightarrow> nat \<Rightarrow> 'd" where
  "MustNew D coef scale = fst (d_quo D (d_new D coef) (d_new D (10 ^ scale)))"

definition ParseResolution :: "string \<Rightarrow> Resolution res" where
  "ParseResolution s =
     (let r = TrimSpace s in
      if r = [] then Inr ''1m'' else case Resolution_Validate r of Some err \<Rightarrow> Inl err | None \<Rightarrow> Inr r)"

definition resolution_field :: "string \<Rightarrow> Resolution res" where
  "resolution_field s = (case ParseResolution s of Inr r \<Rightarrow> Inr r | Inl err \<Rightarrow> Inl (''config.resolution: '' @ err))"

definition tenor_field :: "string \<Rightarrow> nat res" where
  "tenor_field s = (case ParseBenchmarkTenor s of Inr m \<Rightarrow> Inr m | Inl err \<Rightarrow> Inl (''config.tenor: '' @ err))"

text \<open>The starting capital and the leverage; \<open>zero\<close> is what a run gets for an explicit zero.\<close>

definition balance_field :: "'d decimal_ops \<Rightarrow> bool \<Rightarrow> 'd \<Rightarrow> 'd \<Rightarrow> rat option \<Rightarrow> 'd res" where
  "balance_field D forRun std zero b =
     (case b of
        None \<Rightarrow> Inr std
      | Some x \<Rightarrow>
          reject (x < 0) ''config.initial_balance must be non-negative'' (
          if x = 0 then reject (\<not> forRun) ''config.initial_balance must be greater than 0 for backtests'' (Inr zero)
          else float_field D ''initial_balance'' x))"

definition leverage_field :: "'d decimal_ops \<Rightarrow> 'd \<Rightarrow> rat option \<Rightarrow> 'd res" where
  "leverage_field D std l =
     (case l of
        None \<Rightarrow> Inr std
      | Some x \<Rightarrow> reject (x \<le> 0) ''config.leverage must be greater than 0'' (float_field D ''leverage'' x))"

definition optional_book :: "(string \<Rightarrow> string res) \<Rightarrow> string \<Rightarrow> string res" where
  "optional_book parse s = (if s = [] then Inr uuid_Nil else uuid_field parse ''order_book_id'' (TrimSpace s))"

text \<open>\<open>decodeRawConfig\<close>, a decoder on its payload, and the normalised text.\<close>

definition decodeRawConfig :: "(string \<Rightarrow> 'p res) \<Rightarrow> string \<Rightarrow> 'p res" where
  "decodeRawConfig unmarshal raw =
     (if raw = [] \<or> raw = ''null'' then Inl ''config is required''
      else case unmarshal raw of Inl err \<Rightarrow> Inl (''invalid config: '' @ err) | Inr p \<Rightarrow> Inr p)"

definition decode_text ::
  "(string \<Rightarrow> 'p res) \<Rightarrow> ('p \<Rightarrow> string res) \<Rightarrow> ('p \<Rightarrow> ('c \<times> 'p) res) \<Rightarrow> string \<Rightarrow> ('c \<times> string) res" where
  "decode_text unmarshal marshal decode raw =
     rbind (decodeRawConfig unmarshal raw) (\<lambda>p.
     rbind (decode p) (\<lambda>(cfg, q).
     (case marshal q of Inl err \<Rightarrow> Inl (''marshal normalised config: '' @ err) | Inr text \<Rightarrow> Inr (cfg, text))))"

section \<open>Mean reversion\<close>

record meanReversionConfigPayload =
  mp_LookbackWindow :: int
  mp_Resolution :: string
  mp_EntryZScore :: rat
  mp_ExitZScore :: rat
  mp_StopLossZScore :: rat
  mp_MinStdDev :: rat
  mp_MaxPositionSize :: rat
  mp_OrderBookID :: string
  mp_Tenor :: string
  mp_InitialBalance :: "rat option"
  mp_Leverage :: "rat option"
  mp_ImbalanceWindow :: "int option"
  mp_ImbalanceThreshold :: rat

definition MR_DefaultConfig :: "'d decimal_ops \<Rightarrow> 'd MRConfig" where
  "MR_DefaultConfig D =
     \<lparr>mc_LookbackWindow = 24, mc_Resolution = ''1h'', mc_EntryZScore = d_new D 2, mc_ExitZScore = MustNew D 5 1,
      mc_StopLossZScore = MustNew D 35 1, mc_MinStdDev = MustNew D 5 4, mc_MaxPositionSize = d_one D,
      mc_OrderBookID = uuid_Nil, mc_Tenor = [], mc_InitialBalance = d_one D, mc_Leverage = d_one D,
      mc_ImbalanceWindow = 100, mc_ImbalanceThreshold = d_zero D\<rparr>"

text \<open>The payload with the defaults for what is missing or zero, and then the trimmed texts.\<close>

definition MR_defaults :: "('d \<Rightarrow> rat) \<Rightarrow> 'd MRConfig \<Rightarrow> meanReversionConfigPayload \<Rightarrow> meanReversionConfigPayload" where
  "MR_defaults to_float c p =
     p\<lparr>mp_LookbackWindow := zero_default (mc_LookbackWindow c) (mp_LookbackWindow p),
       mp_ImbalanceWindow := Some (or_default (mc_ImbalanceWindow c) (mp_ImbalanceWindow p)),
       mp_EntryZScore := zero_default (to_float (mc_EntryZScore c)) (mp_EntryZScore p),
       mp_ExitZScore := zero_default (to_float (mc_ExitZScore c)) (mp_ExitZScore p),
       mp_StopLossZScore := zero_default (to_float (mc_StopLossZScore c)) (mp_StopLossZScore p),
       mp_MinStdDev := zero_default (to_float (mc_MinStdDev c)) (mp_MinStdDev p),
       mp_MaxPositionSize := zero_default (to_float (mc_MaxPositionSize c)) (mp_MaxPositionSize p)\<rparr>"

definition MR_texts :: "'d MRConfig \<Rightarrow> meanReversionConfigPayload \<Rightarrow> meanReversionConfigPayload" where
  "MR_texts c p =
     (let r = TrimSpace (mp_Resolution p)
      in p\<lparr>mp_Tenor := TrimSpace (mp_Tenor p), mp_Resolution := (if r = [] then mc_Resolution c else r)\<rparr>)"

definition decodeMeanReversion ::
  "'d decimal_ops \<Rightarrow> ('d \<Rightarrow> rat) \<Rightarrow> (string \<Rightarrow> string res) \<Rightarrow> bool \<Rightarrow> meanReversionConfigPayload \<Rightarrow>
     ('d MRConfig \<times> meanReversionConfigPayload) res" where
  "decodeMeanReversion D to_float parse forRun p0 =
     (let c = MR_DefaultConfig D; p = MR_defaults to_float c p0; w = or_default (mc_ImbalanceWindow c) (mp_ImbalanceWindow p0) in
      reject (mp_LookbackWindow p < 2) ''config.lookback_window must be at least 2'' (
      reject (w < 0) ''config.imbalance_window must be non-negative'' (
      reject (mp_ImbalanceThreshold p < 0) ''config.imbalance_threshold must be non-negative'' (
      rbind (float_field D ''imbalance_threshold'' (mp_ImbalanceThreshold p)) (\<lambda>imbalanceThreshold.
      reject (mp_EntryZScore p \<le> 0) ''config.entry_z_score must be greater than 0'' (
      reject (mp_ExitZScore p < 0) ''config.exit_z_score must be non-negative'' (
      reject (mp_StopLossZScore p < 0) ''config.stop_loss_z_score must be non-negative'' (
      reject (mp_MinStdDev p < 0) ''config.min_std_dev must be non-negative'' (
      reject (mp_MaxPositionSize p \<le> 0 \<or> mp_MaxPositionSize p > 1) ''config.max_position_size must be in (0,1]'' (
      reject (mp_Tenor p = []) ''config.tenor is required for mean_reversion'' (
      rbind (tenor_field (mp_Tenor p)) (\<lambda>_.
      rbind (float_field D ''entry_z_score'' (mp_EntryZScore p)) (\<lambda>entry.
      rbind (float_field D ''exit_z_score'' (mp_ExitZScore p)) (\<lambda>exit.
      rbind (float_field D ''stop_loss_z_score'' (mp_StopLossZScore p)) (\<lambda>stopLoss.
      rbind (float_field D ''min_std_dev'' (mp_MinStdDev p)) (\<lambda>minStdDev.
      rbind (float_field D ''max_position_size'' (mp_MaxPositionSize p)) (\<lambda>maxPositionSize.
      rbind (balance_field D forRun (mc_InitialBalance c) (mc_InitialBalance c) (mp_InitialBalance p)) (\<lambda>amount.
      rbind (leverage_field D (mc_Leverage c) (mp_Leverage p)) (\<lambda>leverage.
      rbind (optional_book parse (mp_OrderBookID p)) (\<lambda>book.
      let q = MR_texts c p in
      rbind (resolution_field (mp_Resolution q)) (\<lambda>r.
      Inr (\<lparr>mc_LookbackWindow = mp_LookbackWindow q, mc_Resolution = r, mc_EntryZScore = entry, mc_ExitZScore = exit,
            mc_StopLossZScore = stopLoss, mc_MinStdDev = minStdDev, mc_MaxPositionSize = maxPositionSize, mc_OrderBookID = book,
            mc_Tenor = mp_Tenor q, mc_InitialBalance = amount, mc_Leverage = leverage, mc_ImbalanceWindow = w,
            mc_ImbalanceThreshold = imbalanceThreshold\<rparr>, q))))))))))))))))))))))"

section \<open>Breakout\<close>

record breakoutConfigPayload =
  bp_ShortVolWindow :: int
  bp_LongVolWindow :: int
  bp_CompressionThreshold :: rat
  bp_ATRWindow :: int
  bp_BreakoutATRMultiple :: rat
  bp_ConfirmationBars :: int
  bp_StopLossATR :: "rat option"
  bp_TakeProfitATR :: "rat option"
  bp_MinLongVolFloor :: rat
  bp_OBVTrendThreshold :: rat
  bp_OBVWindow :: int
  bp_Resolution :: string
  bp_OrderBookID :: string
  bp_InitialBalance :: "rat option"
  bp_Leverage :: "rat option"

definition BO_DefaultConfig :: "'d decimal_ops \<Rightarrow> 'd BOConfig" where
  "BO_DefaultConfig D =
     \<lparr>bc_ShortVolWindow = 12, bc_LongVolWindow = 96, bc_CompressionThreshold = MustNew D 3 1, bc_ATRWindow = 12,
      bc_BreakoutATRMultiple = MustNew D 15 1, bc_ConfirmationBars = 3, bc_StopLossATR = MustNew D 20 0, bc_TakeProfitATR = d_zero D,
      bc_MinLongVolFloor = d_zero D, bc_OBVTrendThreshold = d_zero D, bc_OBVWindow = 0, bc_Resolution = ''5m'',
      bc_OrderBookID = uuid_Nil, bc_InitialBalance = d_one D, bc_Leverage = d_one D\<rparr>"

definition BO_defaults :: "('d \<Rightarrow> rat) \<Rightarrow> 'd BOConfig \<Rightarrow> breakoutConfigPayload \<Rightarrow> breakoutConfigPayload" where
  "BO_defaults to_float c p =
     (let r = TrimSpace (bp_Resolution p) in
      p\<lparr>bp_ShortVolWindow := zero_default (bc_ShortVolWindow c) (bp_ShortVolWindow p),
        bp_LongVolWindow := zero_default (bc_LongVolWindow c) (bp_LongVolWindow p),
        bp_ATRWindow := zero_default (bc_ATRWindow c) (bp_ATRWindow p),
        bp_ConfirmationBars := zero_default (bc_ConfirmationBars c) (bp_ConfirmationBars p),
        bp_Resolution := (if r = [] then bc_Resolution c else r),
        bp_CompressionThreshold := zero_default (to_float (bc_CompressionThreshold c)) (bp_CompressionThreshold p),
        bp_BreakoutATRMultiple := zero_default (to_float (bc_BreakoutATRMultiple c)) (bp_BreakoutATRMultiple p),
        bp_StopLossATR := Some (or_default (to_float (bc_StopLossATR c)) (bp_StopLossATR p)),
        bp_TakeProfitATR := Some (or_default (to_float (bc_TakeProfitATR c)) (bp_TakeProfitATR p)),
        bp_MinLongVolFloor := zero_default (to_float (bc_MinLongVolFloor c)) (bp_MinLongVolFloor p),
        bp_OBVTrendThreshold := zero_default (to_float (bc_OBVTrendThreshold c)) (bp_OBVTrendThreshold p)\<rparr>)"

definition decodeBreakout ::
  "'d decimal_ops \<Rightarrow> ('d \<Rightarrow> rat) \<Rightarrow> (string \<Rightarrow> string res) \<Rightarrow> bool \<Rightarrow> breakoutConfigPayload \<Rightarrow>
     ('d BOConfig \<times> breakoutConfigPayload) res" where
  "decodeBreakout D to_float parse forRun p0 =
     (let c = BO_DefaultConfig D; p = BO_defaults to_float c p0;
          stop = or_default (to_float (bc_StopLossATR c)) (bp_StopLossATR p0);
          profit = or_default (to_float (bc_TakeProfitATR c)) (bp_TakeProfitATR p0) in
      rbind (resolution_field (bp_Resolution p)) (\<lambda>r.
      reject (bp_ShortVolWindow p < 2) ''config.short_vol_window must be at least 2'' (
      reject (bp_LongVolWindow p \<le> bp_ShortVolWindow p) ''config.long_vol_window must be greater than short_vol_window'' (
      reject (bp_ATRWindow p < 2) ''config.atr_window must be at least 2'' (
      reject (bp_ConfirmationBars p < 1) ''config.confirmation_bars must be at least 1'' (
      reject (bp_OBVTrendThreshold p < 0) ''config.obv_trend_threshold must be non-negative'' (
      reject (bp_OBVWindow p < 0) ''config.obv_window must be non-negative'' (
      reject (bp_CompressionThreshold p \<le> 0 \<or> bp_CompressionThreshold p > 1) ''config.compression_threshold must be in (0, 1]'' (
      reject (bp_BreakoutATRMultiple p < 0) ''config.breakout_atr_multiple must be non-negative'' (
      reject (stop < 0) ''config.stop_loss_atr must be non-negative'' (
      reject (profit < 0) ''config.take_profit_atr must be non-negative'' (
      reject (bp_MinLongVolFloor p < 0) ''config.min_long_vol_floor must be non-negative'' (
      rbind (float_field D ''compression_threshold'' (bp_CompressionThreshold p)) (\<lambda>compression.
      rbind (float_field D ''breakout_atr_multiple'' (bp_BreakoutATRMultiple p)) (\<lambda>breakoutATR.
      rbind (float_field D ''stop_loss_atr'' stop) (\<lambda>stopLoss.
      rbind (float_field D ''take_profit_atr'' profit) (\<lambda>takeProfit.
      rbind (float_field D ''obv_trend_threshold'' (bp_OBVTrendThreshold p)) (\<lambda>obvThreshold.
      rbind (float_field D ''min_long_vol_floor'' (bp_MinLongVolFloor p)) (\<lambda>minFloor.
      rbind (balance_field D forRun (bc_InitialBalance c) (bc_InitialBalance c) (bp_InitialBalance p)) (\<lambda>amount.
      rbind (leverage_field D (bc_Leverage c) (bp_Leverage p)) (\<lambda>leverage.
      rbind (optional_book parse (bp_OrderBookID p)) (\<lambda>book.
      Inr (\<lparr>bc_ShortVolWindow = bp_ShortVolWindow p, bc_LongVolWindow = bp_LongVolWindow p, bc_CompressionThreshold = compression,
            bc_ATRWindow = bp_ATRWindow p, bc_BreakoutATRMultiple = breakoutATR, bc_ConfirmationBars = bp_ConfirmationBars p,
            bc_StopLossATR = stopLoss, bc_TakeProfitATR = takeProfit, bc_MinLongVolFloor = minFloor, bc_OBVTrendThreshold = obvThreshold,
            bc_OBVWindow = bp_OBVWindow p, bc_Resolution = r, bc_OrderBookID = book, bc_InitialBalance = amount,
            bc_Leverage = leverage\<rparr>, p)))))))))))))))))))))))"

section \<open>Momentum\<close>

record momentumConfigPayload =
  op_SignalSource :: string
  op_FastWindow :: "int option"
  op_SlowWindow :: "int option"
  op_ATRWindow :: "int option"
  op_Resolution :: string
  op_VolumeAvgWindow :: "int option"
  op_VolumeRatioThreshold :: "rat option"
  op_StopLossATR :: "rat option"
  op_TakeProfitATR :: "rat option"
  op_MinOrderSize :: rat
  op_MaxOrderSize :: rat
  op_MaxPositionSize :: "rat option"
  op_Tenor :: string
  op_OrderBookID :: string
  op_InitialBalance :: "rat option"
  op_Leverage :: "rat option"

definition signal_sources :: "string list" where
  "signal_sources = [''price'', ''ytm'', ''spread'']"

text \<open>The values with their defaults, and then the checks and conversions on them.\<close>

record momentum_values =
  mv_source :: string
  mv_fast :: int
  mv_slow :: int
  mv_atr :: int
  mv_resolution :: string
  mv_volume :: int
  mv_ratio :: rat
  mv_position :: rat
  mv_stop :: rat
  mv_profit :: rat

definition momentum_defaults :: "('d \<Rightarrow> rat) \<Rightarrow> 'd MOConfig \<Rightarrow> momentumConfigPayload \<Rightarrow> momentum_values" where
  "momentum_defaults to_float c p =
     \<lparr>mv_source = (if op_SignalSource p = [] then mf_SignalSource c else op_SignalSource p),
      mv_fast = or_default (mf_FastWindow c) (op_FastWindow p), mv_slow = or_default (mf_SlowWindow c) (op_SlowWindow p),
      mv_atr = or_default (mf_ATRWindow c) (op_ATRWindow p),
      mv_resolution = (if TrimSpace (op_Resolution p) = [] then mf_Resolution c else TrimSpace (op_Resolution p)),
      mv_volume = or_default (mf_VolumeAvgWindow c) (op_VolumeAvgWindow p),
      mv_ratio = or_default (to_float (mf_VolumeRatioThreshold c)) (op_VolumeRatioThreshold p),
      mv_position = or_default (to_float (mf_MaxPositionSize c)) (op_MaxPositionSize p),
      mv_stop = or_default (to_float (mf_StopLossATR c)) (op_StopLossATR p),
      mv_profit = or_default (to_float (mf_TakeProfitATR c)) (op_TakeProfitATR p)\<rparr>"

definition momentum_checked ::
  "'d decimal_ops \<Rightarrow> (string \<Rightarrow> string res) \<Rightarrow> bool \<Rightarrow> 'd MOConfig \<Rightarrow> momentumConfigPayload \<Rightarrow> momentum_values \<Rightarrow> 'd MOConfig res" where
  "momentum_checked D parse forRun c p v =
     rbind (resolution_field (mv_resolution v)) (\<lambda>r.
      reject (op_VolumeAvgWindow p \<noteq> None \<and> mv_volume v < 0) ''config.volume_avg_window must be non-negative'' (
      reject (op_VolumeRatioThreshold p \<noteq> None \<and> mv_ratio v < 0) ''config.volume_ratio_threshold must be non-negative'' (
      reject (mv_source v \<notin> set signal_sources) ''config.signal_source must be one of price, ytm, spread'' (
      reject (mv_fast v < 2) ''config.fast_window must be at least 2'' (
      reject (mv_slow v \<le> mv_fast v) ''config.slow_window must be greater than fast_window'' (
      reject (mv_atr v < 2) ''config.atr_window must be at least 2'' (
      reject (mv_stop v < 0) ''config.stop_loss_atr must be non-negative'' (
      reject (mv_profit v < 0) ''config.take_profit_atr must be non-negative'' (
      reject (op_MinOrderSize p < 0) ''config.min_order_size must be non-negative'' (
      reject (op_MaxOrderSize p < 0) ''config.max_order_size must be non-negative'' (
      reject (mv_position v \<le> 0 \<or> mv_position v > 1) ''config.max_position_size must be in (0,1]'' (
      reject (mv_source v = ''spread'' \<and> op_Tenor p = []) ''config.tenor is required when signal_source is spread'' (
      rbind (if mv_source v = ''spread'' then tenor_field (op_Tenor p) else Inr 0) (\<lambda>_.
      rbind (float_field D ''stop_loss_atr'' (mv_stop v)) (\<lambda>stopLoss.
      rbind (float_field D ''take_profit_atr'' (mv_profit v)) (\<lambda>takeProfit.
      rbind (float_field D ''min_order_size'' (op_MinOrderSize p)) (\<lambda>minOrder.
      rbind (float_field D ''max_order_size'' (op_MaxOrderSize p)) (\<lambda>maxOrder.
      rbind (float_field D ''max_position_size'' (mv_position v)) (\<lambda>maxPosition.
      rbind (float_field D ''volume_ratio_threshold'' (mv_ratio v)) (\<lambda>volumeRatio.
      rbind (balance_field D forRun (mf_InitialBalance c) (d_zero D) (op_InitialBalance p)) (\<lambda>amount.
      rbind (leverage_field D (mf_Leverage c) (op_Leverage p)) (\<lambda>leverage.
      reject (op_MinOrderSize p > 0 \<and> op_MaxOrderSize p > 0 \<and> op_MaxOrderSize p < op_MinOrderSize p)
        ''config.max_order_size must be greater than or equal to min_order_size'' (
      reject (op_OrderBookID p = []) ''config.order_book_id is required'' (
      rbind (uuid_field parse ''order_book_id'' (op_OrderBookID p)) (\<lambda>book.
      Inr \<lparr>mf_SignalSource = mv_source v, mf_FastWindow = mv_fast v, mf_SlowWindow = mv_slow v, mf_Resolution = r, mf_ATRWindow = mv_atr v,
                 mf_VolumeAvgWindow = mv_volume v, mf_VolumeRatioThreshold = volumeRatio, mf_StopLossATR = stopLoss,
                 mf_TakeProfitATR = takeProfit, mf_MinOrderSize = minOrder, mf_MaxOrderSize = maxOrder,
                 mf_MaxPositionSize = maxPosition, mf_OrderBookID = book, mf_Tenor = op_Tenor p, mf_InitialBalance = amount,
                 mf_Leverage = leverage\<rparr>)))))))))))))))))))))))))"

text \<open>The normalised payload is built from the configuration, not from the payload that was read.\<close>

definition momentum_out ::
  "('d \<Rightarrow> rat) \<Rightarrow> momentumConfigPayload \<Rightarrow> 'd MOConfig \<Rightarrow> momentum_values \<Rightarrow> momentumConfigPayload" where
  "momentum_out to_float p cfg v =
     \<lparr>op_SignalSource = mf_SignalSource cfg, op_FastWindow = Some (mf_FastWindow cfg), op_SlowWindow = Some (mf_SlowWindow cfg),
      op_ATRWindow = Some (mf_ATRWindow cfg), op_Resolution = mv_resolution v, op_VolumeAvgWindow = Some (mf_VolumeAvgWindow cfg),
      op_VolumeRatioThreshold = Some (mv_ratio v), op_StopLossATR = Some (to_float (mf_StopLossATR cfg)),
      op_TakeProfitATR = Some (to_float (mf_TakeProfitATR cfg)), op_MinOrderSize = to_float (mf_MinOrderSize cfg),
      op_MaxOrderSize = to_float (mf_MaxOrderSize cfg), op_MaxPositionSize = Some (mv_position v), op_Tenor = op_Tenor p,
      op_OrderBookID = op_OrderBookID p, op_InitialBalance = Some (to_float (mf_InitialBalance cfg)),
      op_Leverage = Some (to_float (mf_Leverage cfg))\<rparr>"

definition decodeMomentum ::
  "'d decimal_ops \<Rightarrow> ('d \<Rightarrow> rat) \<Rightarrow> (string \<Rightarrow> string res) \<Rightarrow> bool \<Rightarrow> momentumConfigPayload \<Rightarrow>
     ('d MOConfig \<times> momentumConfigPayload) res" where
  "decodeMomentum D to_float parse forRun p =
     (let v = momentum_defaults to_float (MO_DefaultConfig D) p in
      rbind (momentum_checked D parse forRun (MO_DefaultConfig D) p v) (\<lambda>cfg. Inr (cfg, momentum_out to_float p cfg v)))"

section \<open>Copy trading, TWAP, VWAP\<close>

record copyTradingConfigPayload =
  cp_FollowedTrader :: string
  cp_PercentageOfAvailable :: rat
  cp_Leverage :: rat
  cp_MinOrderSize :: int
  cp_MaxOrderSize :: int
  cp_DisallowedBonds :: "string list"
  cp_InitialBalance :: "rat option"

fun parse_bonds :: "(string \<Rightarrow> string res) \<Rightarrow> nat \<Rightarrow> string list \<Rightarrow> string list res" where
  "parse_bonds parse i [] = Inr []"
| "parse_bonds parse i (b # bs) =
     (case parse b of
        Inl err \<Rightarrow> Inl (''config.disallowed_bonds['' @ Itoa (int i) @ '']: '' @ err)
      | Inr bond \<Rightarrow> rbind (parse_bonds parse (Suc i) bs) (\<lambda>bonds. Inr (bond # bonds)))"

definition decodeCopyTrading ::
  "'d decimal_ops \<Rightarrow> (string \<Rightarrow> string res) \<Rightarrow> copyTradingConfigPayload \<Rightarrow> ('d CTConfig \<times> copyTradingConfigPayload) res" where
  "decodeCopyTrading D parse p =
     reject (cp_FollowedTrader p = []) ''config.followed_trader is required'' (
     rbind (uuid_field parse ''followed_trader'' (TrimSpace (cp_FollowedTrader p))) (\<lambda>trader.
     reject (cp_PercentageOfAvailable p \<le> 0 \<or> cp_PercentageOfAvailable p > 1) ''config.percentage_of_available must be in (0,1]'' (
     reject (cp_Leverage p \<le> 0) ''config.leverage must be greater than 0'' (
     reject (cp_MinOrderSize p < 0) ''config.min_order_size must be non-negative'' (
     reject (cp_MaxOrderSize p < cp_MinOrderSize p) ''config.max_order_size must be greater than or equal to min_order_size'' (
     rbind (parse_bonds parse 0 (cp_DisallowedBonds p)) (\<lambda>bonds.
     rbind (float_field D ''percentage_of_available'' (cp_PercentageOfAvailable p)) (\<lambda>poa.
     rbind (float_field D ''leverage'' (cp_Leverage p)) (\<lambda>lev.
     rbind (case cp_InitialBalance p of
              None \<Rightarrow> Inr (d_zero D)
            | Some x \<Rightarrow> reject (x < 0) ''config.initial_balance must be non-negative'' (
                if x > 0 then float_field D ''initial_balance'' x else Inr (d_zero D))) (\<lambda>balance.
     Inr (\<lparr>cf_FollowedTrader = trader, cf_PercentageOfAvailable = poa, cf_Leverage = lev, cf_MinOrderSize = cp_MinOrderSize p,
           cf_MaxOrderSize = cp_MaxOrderSize p, cf_DisallowedBonds = bonds, cf_InitialBalance = balance\<rparr>, p)))))))))))"

text \<open>The execution strategies are configured by their own records.\<close>

definition decodeTWAP :: "'d decimal_ops \<Rightarrow> gtime \<Rightarrow> 'd TwapConfig \<Rightarrow> ('d TwapConfig \<times> 'd TwapConfig) res" where
  "decodeTWAP D now cfg = (case Twap_Validate D cfg (time_UTC now) of Some err \<Rightarrow> Inl err | None \<Rightarrow> Inr (cfg, cfg))"

definition decodeVWAP :: "'d decimal_ops \<Rightarrow> gtime \<Rightarrow> 'd VwapConfig \<Rightarrow> ('d VwapConfig \<times> 'd VwapConfig) res" where
  "decodeVWAP D now cfg = (case Vwap_Validate D cfg (time_UTC now) of Some err \<Rightarrow> Inl err | None \<Rightarrow> Inr (cfg, cfg))"

section \<open>Lemmas\<close>

lemma reject_Inr [simp]: "reject bad err k = Inr x \<longleftrightarrow> \<not> bad \<and> k = Inr x"
  by (simp add: reject_def)

lemma reject_ok [simp]: "reject False err k = k"
  by (simp add: reject_def)

lemma defaults_simps [simp]:
  "zero_default x (zero_default x y) = zero_default x y" "or_default x (Some y) = y" "or_default x None = x"
  by (simp_all add: zero_default_def or_default_def)

lemma float_field_Inr: "float_field D f x = Inr d \<longleftrightarrow> d_of_float D x = (d, None)"
  by (auto simp: float_field_def split: prod.splits option.splits)

lemma float_field_any: "float_field D f x = Inr d \<Longrightarrow> float_field D g x = Inr d"
  by (simp add: float_field_Inr)

lemma dropWhile_fixed: "(xs = [] \<or> \<not> P (hd xs)) \<Longrightarrow> dropWhile P xs = xs"
  by (cases xs) auto

lemma TrimSpace_ends: "TrimSpace s = [] \<or> \<not> is_space (hd (TrimSpace s)) \<and> \<not> is_space (last (TrimSpace s))"
proof -
  let ?a = "dropWhile is_space s" let ?b = "dropWhile is_space (rev ?a)"
  have b: "?b = [] \<or> \<not> is_space (hd ?b)" using hd_dropWhile by blast
  have a: "?a = [] \<or> \<not> is_space (hd ?a)" using hd_dropWhile by blast
  show ?thesis
  proof (cases "?b = []")
    case False
    then have l: "last ?b = last (rev ?a)" by (metis append_is_Nil_conv dropWhile_eq_drop last_drop length_greater_0_conv drop_eq_Nil not_le)
    have "?a \<noteq> []" using False by (metis dropWhile.simps(1) rev.simps(1))
    then have "last (rev ?a) = hd ?a" by (simp add: last_rev)
    then show ?thesis using a b l False \<open>?a \<noteq> []\<close> by (simp add: TrimSpace_def hd_rev last_rev del: dropWhile_eq_Nil_conv)
  qed (simp add: TrimSpace_def)
qed

lemma TrimSpace_Nil [simp]: "TrimSpace [] = []"
  by (simp add: TrimSpace_def)

lemma TrimSpace_idem [simp]: "TrimSpace (TrimSpace s) = TrimSpace s"
proof (cases "TrimSpace s = []")
  case False
  then have "dropWhile is_space (TrimSpace s) = TrimSpace s" "dropWhile is_space (rev (TrimSpace s)) = rev (TrimSpace s)"
    using TrimSpace_ends [of s] by (simp_all add: dropWhile_fixed hd_rev)
  then show ?thesis by (subst TrimSpace_def) simp
qed simp

lemma tenor_trimmed: "ParseBenchmarkTenor (TrimSpace t) = ParseBenchmarkTenor t"
  by (simp add: ParseBenchmarkTenor_def NormalizeTenor_def)

lemma tenor_nonempty: "tenor_field t = Inr m \<Longrightarrow> TrimSpace t \<noteq> []"
  by (auto simp: tenor_field_def ParseBenchmarkTenor_def NormalizeTenor_def TrimSuffixS_def benchmarkTenors_def split: sum.splits)

lemma ParseResolution_trimmed: "ParseResolution (TrimSpace s) = ParseResolution s"
  by (simp add: ParseResolution_def)

lemma resolution_field_Inr: "resolution_field s = Inr r \<Longrightarrow> Resolution_Validate r = None \<and> (TrimSpace s = [] \<or> r = TrimSpace s)"
  by (auto simp: resolution_field_def ParseResolution_def Resolution_Validate_def Let_def split: sum.splits option.splits if_splits)

end
