(* ===== verification/Config_Props.thy ===== *)
theory Config_Props
  imports Config_Decode Run_Handler
begin

text \<open>
  What an accepted configuration guarantees to the strategy it starts, and that the stored configuration of a
  run decodes to the one the run was started with.
\<close>

section \<open>Normalising is idempotent\<close>

lemma MR_normal:
  assumes "decodeMeanReversion D to_float parse forRun p = Inr (cfg, q)"
  shows "q = MR_texts (MR_DefaultConfig D) (MR_defaults to_float (MR_DefaultConfig D) p)"
    "tenor_field (mp_Tenor p) = Inr m \<Longrightarrow> mp_Tenor q \<noteq> []"
  using assms tenor_nonempty [of "mp_Tenor p" m]
  by (auto simp: decodeMeanReversion_def Let_def rbind_eq_Inr MR_texts_def MR_defaults_def)

lemma MR_defaults_idem:
  "MR_defaults to_float c (MR_texts c (MR_defaults to_float c p)) = MR_texts c (MR_defaults to_float c p)"
  by (simp add: MR_defaults_def MR_texts_def Let_def)

lemma MR_texts_idem: "TrimSpace (mc_Resolution c) = mc_Resolution c \<Longrightarrow> MR_texts c (MR_texts c p) = MR_texts c p"
  by (simp add: MR_texts_def Let_def)

lemma MR_fixed:
  assumes "decodeMeanReversion D to_float parse forRun p = Inr (cfg, q)"
  shows "decodeMeanReversion D to_float parse forRun q = Inr (cfg, q)"
proof -
  define c where "c = MR_DefaultConfig D"
  define P where "P = MR_defaults to_float c p"
  note dec = assms [unfolded decodeMeanReversion_def Let_def, folded c_def, folded P_def]
  have q: "q = MR_texts c P" using MR_normal(1) [OF assms] by (simp add: P_def c_def)
  have r: "TrimSpace (mc_Resolution c) = mc_Resolution c" by (simp add: c_def MR_DefaultConfig_def TrimSpace_def is_space_def)
  have idem: "MR_defaults to_float c q = q" "MR_texts c q = q" by (simp_all add: q P_def MR_defaults_idem MR_texts_idem [OF r])
  have w: "or_default (mc_ImbalanceWindow c) (mp_ImbalanceWindow q) = or_default (mc_ImbalanceWindow c) (mp_ImbalanceWindow p)"
    by (simp add: q P_def MR_texts_def MR_defaults_def Let_def)
  have same: "mp_LookbackWindow q = mp_LookbackWindow P" "mp_ImbalanceThreshold q = mp_ImbalanceThreshold P"
    "mp_EntryZScore q = mp_EntryZScore P" "mp_ExitZScore q = mp_ExitZScore P" "mp_StopLossZScore q = mp_StopLossZScore P"
    "mp_MinStdDev q = mp_MinStdDev P" "mp_MaxPositionSize q = mp_MaxPositionSize P" "mp_InitialBalance q = mp_InitialBalance P"
    "mp_Leverage q = mp_Leverage P" "mp_OrderBookID q = mp_OrderBookID P"
    by (simp_all add: q MR_texts_def Let_def)
  have tenor: "tenor_field (mp_Tenor q) = tenor_field (mp_Tenor P)"
    by (simp add: q MR_texts_def Let_def tenor_field_def tenor_trimmed)
  obtain m where "tenor_field (mp_Tenor P) = Inr m" using dec by (auto simp: rbind_eq_Inr)
  then have ne: "mp_Tenor q \<noteq> []" using tenor_nonempty [of "mp_Tenor P" m] by (simp add: q MR_texts_def Let_def)
  show ?thesis
    unfolding decodeMeanReversion_def Let_def c_def [symmetric] idem same tenor w
    using dec ne by (auto simp: rbind_eq_Inr q [symmetric] same w)
qed

lemma BO_fixed:
  assumes "decodeBreakout D to_float parse forRun p = Inr (cfg, q)"
  shows "decodeBreakout D to_float parse forRun q = Inr (cfg, q)"
proof -
  let ?c = "BO_DefaultConfig D"
  have q: "q = BO_defaults to_float ?c p" using assms by (auto simp: decodeBreakout_def Let_def rbind_eq_Inr)
  have r: "TrimSpace (bc_Resolution ?c) = bc_Resolution ?c" by (simp add: BO_DefaultConfig_def TrimSpace_def is_space_def)
  have "BO_defaults to_float ?c q = q" by (simp add: q BO_defaults_def Let_def r)
  moreover have "or_default (to_float (bc_StopLossATR ?c)) (bp_StopLossATR q) = or_default (to_float (bc_StopLossATR ?c)) (bp_StopLossATR p)"
    "or_default (to_float (bc_TakeProfitATR ?c)) (bp_TakeProfitATR q) = or_default (to_float (bc_TakeProfitATR ?c)) (bp_TakeProfitATR p)"
    by (simp_all add: q BO_defaults_def Let_def)
  ultimately show ?thesis using assms
    by (simp add: decodeBreakout_def Let_def rbind_eq_Inr) (simp add: q)
qed

text \<open>The floats that survive their decimal: \<open>Float64\<close> gives back the float the decimal was made of.\<close>

definition exact_float :: "'d decimal_ops \<Rightarrow> ('d \<Rightarrow> rat) \<Rightarrow> rat \<Rightarrow> bool" where
  "exact_float D to_float x \<longleftrightarrow> (\<forall>d. d_of_float D x = (d, None) \<longrightarrow> to_float d = x)"

definition exact_payload :: "'d decimal_ops \<Rightarrow> ('d \<Rightarrow> rat) \<Rightarrow> momentumConfigPayload \<Rightarrow> bool" where
  "exact_payload D to_float p \<longleftrightarrow>
     list_all (exact_float D to_float) [or_default (to_float (d_new D 20)) (op_StopLossATR p),
       or_default (to_float (d_zero D)) (op_TakeProfitATR p), op_MinOrderSize p, op_MaxOrderSize p,
       or_default 1 (op_InitialBalance p), or_default 1 (op_Leverage p)] \<and>
     d_of_float D 1 = (d_one D, None) \<and> to_float (d_one D) = 1 \<and> to_float (d_zero D) = 0"

lemma exact_floatD: "exact_float D to_float x \<Longrightarrow> float_field D f x = Inr d \<Longrightarrow> to_float d = x"
  by (simp add: exact_float_def float_field_Inr)

lemma balance_fixed:
  assumes "balance_field D forRun (d_one D) (d_zero D) b = Inr a" "exact_float D to_float (or_default 1 b)"
    and "d_of_float D 1 = (d_one D, None)" "to_float (d_one D) = 1" "to_float (d_zero D) = 0"
  shows "balance_field D forRun (d_one D) (d_zero D) (Some (to_float a)) = Inr a"
proof (cases b)
  case None
  then show ?thesis using assms by (simp add: balance_field_def float_field_Inr)
next
  case (Some x)
  show ?thesis
  proof (cases "x = 0")
    case True
    then show ?thesis using assms Some by (simp add: balance_field_def)
  next
    case False
    then have "float_field D ''initial_balance'' x = Inr a" "\<not> x < 0" using assms(1) Some by (simp_all add: balance_field_def)
    moreover from this have "to_float a = x" using exact_floatD assms(2) Some by fastforce
    ultimately show ?thesis using False by (simp add: balance_field_def)
  qed
qed

lemma leverage_fixed:
  assumes "leverage_field D (d_one D) l = Inr a" "exact_float D to_float (or_default 1 l)"
    and "d_of_float D 1 = (d_one D, None)" "to_float (d_one D) = 1"
  shows "leverage_field D (d_one D) (Some (to_float a)) = Inr a"
proof (cases l)
  case None
  then show ?thesis using assms by (simp add: leverage_field_def float_field_Inr)
next
  case (Some x)
  then have "float_field D ''leverage'' x = Inr a" "\<not> x \<le> 0" using assms(1) by (simp_all add: leverage_field_def)
  moreover from this have "to_float a = x" using exact_floatD assms(2) Some by fastforce
  ultimately show ?thesis by (simp add: leverage_field_def)
qed

lemma uuid_field_Inr: "uuid_field parse f x = Inr i \<longleftrightarrow> parse x = Inr i"
  by (auto simp: uuid_field_def split: sum.splits)

lemma tenor_field_Inr: "tenor_field t = Inr m \<longleftrightarrow> ParseBenchmarkTenor t = Inr m"
  by (auto simp: tenor_field_def split: sum.splits)

lemma spread_tenor:
  "(\<exists>x. (if b then tenor_field t else Inr 0) = Inr x \<and> R) \<longleftrightarrow> (b \<longrightarrow> (\<exists>m. ParseBenchmarkTenor t = Inr m)) \<and> R"
  by (auto simp: tenor_field_Inr)

lemmas momentum_checked_simps = momentum_checked_def rbind_eq_Inr float_field_Inr uuid_field_Inr spread_tenor

text \<open>What a momentum configuration was made of: its windows, the floats its decimals come from, the rest.\<close>

definition momentum_windows :: "momentumConfigPayload \<Rightarrow> momentum_values \<Rightarrow> 'd MOConfig \<Rightarrow> bool" where
  "momentum_windows p v cfg \<longleftrightarrow>
     mf_FastWindow cfg = mv_fast v \<and> 2 \<le> mv_fast v \<and> mf_SlowWindow cfg = mv_slow v \<and> mv_fast v < mv_slow v \<and>
     mf_ATRWindow cfg = mv_atr v \<and> 2 \<le> mv_atr v \<and> mf_VolumeAvgWindow cfg = mv_volume v \<and>
     \<not> (op_VolumeAvgWindow p \<noteq> None \<and> mv_volume v < 0)"

definition momentum_decimals :: "'d decimal_ops \<Rightarrow> momentumConfigPayload \<Rightarrow> momentum_values \<Rightarrow> 'd MOConfig \<Rightarrow> bool" where
  "momentum_decimals D p v cfg \<longleftrightarrow>
     d_of_float D (mv_stop v) = (mf_StopLossATR cfg, None) \<and> \<not> mv_stop v < 0 \<and>
     d_of_float D (mv_profit v) = (mf_TakeProfitATR cfg, None) \<and> \<not> mv_profit v < 0 \<and>
     d_of_float D (op_MinOrderSize p) = (mf_MinOrderSize cfg, None) \<and> \<not> op_MinOrderSize p < 0 \<and>
     d_of_float D (op_MaxOrderSize p) = (mf_MaxOrderSize cfg, None) \<and> \<not> op_MaxOrderSize p < 0 \<and>
     \<not> (op_MinOrderSize p > 0 \<and> op_MaxOrderSize p > 0 \<and> op_MaxOrderSize p < op_MinOrderSize p) \<and>
     d_of_float D (mv_position v) = (mf_MaxPositionSize cfg, None) \<and> \<not> (mv_position v \<le> 0 \<or> mv_position v > 1) \<and>
     d_of_float D (mv_ratio v) = (mf_VolumeRatioThreshold cfg, None) \<and> \<not> (op_VolumeRatioThreshold p \<noteq> None \<and> mv_ratio v < 0)"

definition momentum_rest ::
  "'d decimal_ops \<Rightarrow> (string \<Rightarrow> string res) \<Rightarrow> bool \<Rightarrow> 'd MOConfig \<Rightarrow> momentumConfigPayload \<Rightarrow> momentum_values \<Rightarrow> 'd MOConfig \<Rightarrow> bool" where
  "momentum_rest D parse forRun c p v cfg \<longleftrightarrow>
     mf_SignalSource cfg = mv_source v \<and> \<not> mv_source v \<notin> set signal_sources \<and>
     resolution_field (mv_resolution v) = Inr (mf_Resolution cfg) \<and>
     balance_field D forRun (mf_InitialBalance c) (d_zero D) (op_InitialBalance p) = Inr (mf_InitialBalance cfg) \<and>
     leverage_field D (mf_Leverage c) (op_Leverage p) = Inr (mf_Leverage cfg) \<and>
     op_OrderBookID p \<noteq> [] \<and> parse (op_OrderBookID p) = Inr (mf_OrderBookID cfg) \<and> mf_Tenor cfg = op_Tenor p \<and>
     \<not> (mv_source v = ''spread'' \<and> op_Tenor p = []) \<and> (mv_source v = ''spread'' \<longrightarrow> (\<exists>m. ParseBenchmarkTenor (op_Tenor p) = Inr m))"

lemma momentum_checkedD:
  assumes "momentum_checked D parse forRun c p v = Inr cfg"
  shows "momentum_windows p v cfg \<and> momentum_decimals D p v cfg \<and> momentum_rest D parse forRun c p v cfg"
  using assms unfolding momentum_windows_def momentum_decimals_def momentum_rest_def momentum_checked_simps reject_Inr sum.inject
  apply (elim exE conjE)
  apply hypsubst
  apply (simp only: MOConfig.select_convs simp_thms not_less not_le)
  done

lemma momentum_checkedI:
  assumes "momentum_windows p v cfg" "momentum_decimals D p v cfg" "momentum_rest D parse forRun c p v cfg"
  shows "momentum_checked D parse forRun c p v = Inr cfg"
proof -
  have bad: "\<not> mv_fast v < 2" "\<not> mv_slow v \<le> mv_fast v" "\<not> mv_atr v < 2" using assms(1) by (simp_all add: momentum_windows_def)
  have cfg: "cfg = \<lparr>mf_SignalSource = mv_source v, mf_FastWindow = mv_fast v, mf_SlowWindow = mv_slow v,
      mf_Resolution = mf_Resolution cfg, mf_ATRWindow = mv_atr v, mf_VolumeAvgWindow = mv_volume v,
      mf_VolumeRatioThreshold = mf_VolumeRatioThreshold cfg, mf_StopLossATR = mf_StopLossATR cfg,
      mf_TakeProfitATR = mf_TakeProfitATR cfg, mf_MinOrderSize = mf_MinOrderSize cfg, mf_MaxOrderSize = mf_MaxOrderSize cfg,
      mf_MaxPositionSize = mf_MaxPositionSize cfg, mf_OrderBookID = mf_OrderBookID cfg, mf_Tenor = op_Tenor p,
      mf_InitialBalance = mf_InitialBalance cfg, mf_Leverage = mf_Leverage cfg\<rparr>"
    using assms(1,3) by (simp add: momentum_windows_def momentum_rest_def)
  have tenor: "\<exists>x. (if mv_source v = ''spread'' then tenor_field (op_Tenor p) else Inr 0) = Inr x"
    using assms(3) by (auto simp: momentum_rest_def tenor_field_Inr)
  show ?thesis
    using assms(2,3) bad tenor assms(1) [unfolded momentum_windows_def] unfolding momentum_decimals_def momentum_rest_def
    apply (elim exE conjE)
    apply (subst cfg)
    apply (simp only: momentum_checked_def reject_ok float_field_def uuid_field_def rbind_Inr sum.case prod.case option.case simp_thms)
    done
qed

lemma momentum_values_stored:
  assumes "momentum_windows p v cfg" "momentum_decimals D p v cfg" "momentum_rest D parse forRun c p v cfg"
    and "v = momentum_defaults to_float (MO_DefaultConfig D) p" "exact_payload D to_float p"
  shows "momentum_defaults to_float (MO_DefaultConfig D) (momentum_out to_float p cfg v) = v"
proof -
  have "mv_source v \<noteq> []" using assms(3) by (auto simp: momentum_rest_def signal_sources_def)
  moreover have "TrimSpace ''15m'' = ''15m''" by (simp add: TrimSpace_def is_space_def)
  then have "TrimSpace (mv_resolution v) = mv_resolution v" "mv_resolution v \<noteq> []"
    by (simp_all add: assms(4) momentum_defaults_def MO_DefaultConfig_def)
  moreover note this
  moreover have "to_float (mf_StopLossATR cfg) = mv_stop v" "to_float (mf_TakeProfitATR cfg) = mv_profit v"
    using assms(2,5) by (simp_all add: assms(4) momentum_defaults_def MO_DefaultConfig_def momentum_decimals_def exact_payload_def exact_float_def)
  ultimately show ?thesis using assms(1,3)
    by (simp add: momentum_defaults_def momentum_out_def momentum_windows_def momentum_rest_def)
qed

lemma MO_fixed:
  assumes dec: "decodeMomentum D to_float parse forRun p = Inr (cfg, q)" and exact: "exact_payload D to_float p"
  shows "decodeMomentum D to_float parse forRun q = Inr (cfg, q)"
proof -
  define c where "c = MO_DefaultConfig D"
  define v where "v = momentum_defaults to_float c p"
  have chk: "momentum_checked D parse forRun c p v = Inr cfg" and q: "q = momentum_out to_float p cfg v"
    using dec by (auto simp: decodeMomentum_def Let_def rbind_eq_Inr c_def v_def)
  have w: "momentum_windows p v cfg" and d: "momentum_decimals D p v cfg" and r: "momentum_rest D parse forRun c p v cfg"
    using momentum_checkedD [OF chk] by blast+
  have v: "momentum_defaults to_float c q = v"
    using momentum_values_stored [OF w d r v_def [unfolded c_def] exact] by (simp add: q c_def)
  have ex: "to_float (mf_MinOrderSize cfg) = op_MinOrderSize p" "to_float (mf_MaxOrderSize cfg) = op_MaxOrderSize p"
    using d exact by (simp_all add: momentum_decimals_def exact_payload_def exact_float_def)
  have one: "to_float (d_one D) = 1" "to_float (d_zero D) = 0" "d_of_float D 1 = (d_one D, None)" using exact by (simp_all add: exact_payload_def)
  have same: "op_MinOrderSize q = op_MinOrderSize p" "op_MaxOrderSize q = op_MaxOrderSize p" "op_OrderBookID q = op_OrderBookID p"
    "op_Tenor q = op_Tenor p" "op_VolumeAvgWindow q = Some (mf_VolumeAvgWindow cfg)" "op_VolumeRatioThreshold q = Some (mv_ratio v)"
    "op_InitialBalance q = Some (to_float (mf_InitialBalance cfg))" "op_Leverage q = Some (to_float (mf_Leverage cfg))"
    by (simp_all add: q momentum_out_def ex)
  have vol: "\<not> mv_volume v < 0" using w by (cases "op_VolumeAvgWindow p")
      (simp_all add: momentum_windows_def v_def momentum_defaults_def c_def MO_DefaultConfig_def)
  have ratio: "\<not> mv_ratio v < 0" using d one by (cases "op_VolumeRatioThreshold p")
      (simp_all add: momentum_decimals_def v_def momentum_defaults_def c_def MO_DefaultConfig_def)
  have bal: "balance_field D forRun (mf_InitialBalance c) (d_zero D) (Some (to_float (mf_InitialBalance cfg))) = Inr (mf_InitialBalance cfg)"
    using balance_fixed [of D forRun "op_InitialBalance p" "mf_InitialBalance cfg" to_float] r exact one
    by (simp add: momentum_rest_def c_def MO_DefaultConfig_def exact_payload_def)
  have lev: "leverage_field D (mf_Leverage c) (Some (to_float (mf_Leverage cfg))) = Inr (mf_Leverage cfg)"
    using leverage_fixed [of D "op_Leverage p" "mf_Leverage cfg" to_float] r exact one
    by (simp add: momentum_rest_def c_def MO_DefaultConfig_def exact_payload_def)
  have "momentum_checked D parse forRun c q v = Inr cfg"
  proof (rule momentum_checkedI)
    show "momentum_windows q v cfg" using w vol by (simp add: momentum_windows_def same)
    show "momentum_decimals D q v cfg" using d ratio by (simp add: momentum_decimals_def same)
    show "momentum_rest D parse forRun c q v cfg" using r bal lev by (simp add: momentum_rest_def same)
  qed
  moreover have "momentum_out to_float q cfg v = q" by (simp add: momentum_out_def same) (simp add: q momentum_out_def ex)
  ultimately show ?thesis by (simp add: decodeMomentum_def Let_def c_def [symmetric] v)
qed

section \<open>Stored configurations\<close>

lemma decode_text_Inr:
  "decode_text unmarshal marshal decode raw = Inr (cfg, text) \<longleftrightarrow>
     (\<exists>p q. decodeRawConfig unmarshal raw = Inr p \<and> decode p = Inr (cfg, q) \<and> marshal q = Inr text)"
proof -
  have m: "(case marshal q of Inl err \<Rightarrow> Inl (''marshal normalised config: '' @ err) | Inr t \<Rightarrow> Inr (c, t)) = Inr (cfg, text)
      \<longleftrightarrow> c = cfg \<and> marshal q = Inr text" for q c
    by (cases "marshal q") auto
  show ?thesis by (simp add: decode_text_def rbind_eq_Inr m split_paired_Ex case_prod_beta)
qed

lemma stored_text_fixed:
  assumes "\<And>q t. marshal q = Inr t \<Longrightarrow> decodeRawConfig unmarshal t = Inr q"
    and "\<And>p cfg q. decodeRawConfig unmarshal raw = Inr p \<Longrightarrow> decode p = Inr (cfg, q) \<Longrightarrow> decode q = Inr (cfg, q)"
    and "decode_text unmarshal marshal decode raw = Inr (cfg, text)"
  shows "decode_text unmarshal marshal decode text = Inr (cfg, text)"
proof -
  obtain p q where p: "decodeRawConfig unmarshal raw = Inr p" "decode p = Inr (cfg, q)" "marshal q = Inr text"
    using assms(3) unfolding decode_text_Inr by blast
  show ?thesis unfolding decode_text_Inr using assms(1) [OF p(3)] assms(2) [OF p(1,2)] p(3) by blast
qed

text \<open>The configuration text that a mean reversion or breakout run stores decodes, when the run is resumed or
  restored, to the configuration the run was created with, and to the same text: no default, trimming or float
  conversion is applied twice.\<close>

theorem stored_config_unchanged:
  assumes "\<And>q t. marshal q = Inr t \<Longrightarrow> decodeRawConfig unmarshal t = Inr q"
    and "\<And>q t. marshal' q = Inr t \<Longrightarrow> decodeRawConfig unmarshal' t = Inr q"
    and "decode_text unmarshal marshal (decodeMeanReversion D to_float parse forRun) raw = Inr (cfg, text)"
    and "decode_text unmarshal' marshal' (decodeBreakout D to_float parse forRun) raw' = Inr (cfg', text')"
  shows "decode_text unmarshal marshal (decodeMeanReversion D to_float parse forRun) text = Inr (cfg, text) \<and>
    decode_text unmarshal' marshal' (decodeBreakout D to_float parse forRun) text' = Inr (cfg', text')"
proof
  show "decode_text unmarshal marshal (decodeMeanReversion D to_float parse forRun) text = Inr (cfg, text)"
    by (rule stored_text_fixed [OF _ _ assms(3)]) (erule assms(1), erule MR_fixed)
  show "decode_text unmarshal' marshal' (decodeBreakout D to_float parse forRun) text' = Inr (cfg', text')"
    by (rule stored_text_fixed [OF _ _ assms(4)]) (erule assms(2), erule BO_fixed)
qed

text \<open>The same for momentum, whose stored text is written from the decimals of the configuration: it decodes to the
  same configuration when the floats of the request survive their decimals, as those of up to 15 digits do.\<close>

theorem stored_momentum_unchanged:
  assumes "\<And>q t. marshal q = Inr t \<Longrightarrow> decodeRawConfig unmarshal t = Inr q"
    and "decodeRawConfig unmarshal raw = Inr p" "exact_payload D to_float p"
    and "decode_text unmarshal marshal (decodeMomentum D to_float parse forRun) raw = Inr (cfg, text)"
  shows "decode_text unmarshal marshal (decodeMomentum D to_float parse forRun) text = Inr (cfg, text)"
  using assms(1) MO_fixed assms(2,3) by (intro stored_text_fixed [OF assms(1) _ assms(4)]) auto

section \<open>Accepted configurations\<close>











section \<open>The order book of a run\<close>

lemma MR_other_book:
  assumes "decodeMeanReversion D to_float parse forRun p = Inr (cfg, q)"
    and "TrimSpace b = TrimSpace (mp_OrderBookID p)" "b \<noteq> []" "mp_OrderBookID p \<noteq> []"
  shows "decodeMeanReversion D to_float parse forRun (p\<lparr>mp_OrderBookID := b\<rparr>) = Inr (cfg, q\<lparr>mp_OrderBookID := b\<rparr>)"
    "mp_OrderBookID q = mp_OrderBookID p"
proof -
  define c where "c = MR_DefaultConfig D"
  define P where "P = MR_defaults to_float c p"
  note dec = assms(1) [unfolded decodeMeanReversion_def Let_def, folded c_def, folded P_def]
  have q: "q = MR_texts c P" using MR_normal(1) [OF assms(1)] by (simp add: P_def c_def)
  have P: "mp_OrderBookID P = mp_OrderBookID p" by (simp add: P_def MR_defaults_def Let_def)
  have P': "MR_defaults to_float c (p\<lparr>mp_OrderBookID := b\<rparr>) = P\<lparr>mp_OrderBookID := b\<rparr>" by (simp add: P_def MR_defaults_def Let_def)
  have q': "MR_texts c (P\<lparr>mp_OrderBookID := b\<rparr>) = (MR_texts c P)\<lparr>mp_OrderBookID := b\<rparr>" by (simp add: MR_texts_def Let_def)
  have book: "optional_book parse b = optional_book parse (mp_OrderBookID P)" using assms(2-4) by (simp add: optional_book_def P)
  show "decodeMeanReversion D to_float parse forRun (p\<lparr>mp_OrderBookID := b\<rparr>) = Inr (cfg, q\<lparr>mp_OrderBookID := b\<rparr>)"
    unfolding decodeMeanReversion_def Let_def c_def [symmetric] P' q' using dec
    by (auto simp: rbind_eq_Inr book q [symmetric])
  show "mp_OrderBookID q = mp_OrderBookID p" by (simp add: q MR_texts_def Let_def P)
qed

lemma TrimSpace_blank: "TrimSpace ('' '' @ s) = TrimSpace s"
  by (simp add: TrimSpace_def is_space_def)

text \<open>The check for an active run on the same order book compares the text of the request: when every active run of a user
  trades one order book, the same configuration with a blank before the identifier of the order book is accepted, makes the
  same strategy on the same order book, and is not found to be a second run of it.\<close>

theorem blank_book_bypasses_check:
  assumes "decodeMeanReversion D to_float parse True p = Inr (cfg, q)" "mp_OrderBookID p \<noteq> []" "marshal q = Inr text"
    and "\<And>r t. marshal r = Inr t \<Longrightarrow> hc_OrderBook (h_cfg h) t = mp_OrderBookID r"
    and "\<And>i d. h_runs h i = Some d \<Longrightarrow> rd_DORAUserID d = user \<Longrightarrow> active_run d \<Longrightarrow> rd_Config d = text"
    and "marshal (q\<lparr>mp_OrderBookID := '' '' @ mp_OrderBookID p\<rparr>) = Inr text'"
  shows "decodeMeanReversion D to_float parse True (p\<lparr>mp_OrderBookID := '' '' @ mp_OrderBookID p\<rparr>) =
      Inr (cfg, q\<lparr>mp_OrderBookID := '' '' @ mp_OrderBookID p\<rparr>) \<and>
    findActiveRunForOrderBook ids user (hc_OrderBook (h_cfg h) text') h = None"
proof
  note d = MR_other_book [OF assms(1) TrimSpace_blank _ assms(2)]
  show "decodeMeanReversion D to_float parse True (p\<lparr>mp_OrderBookID := '' '' @ mp_OrderBookID p\<rparr>) =
      Inr (cfg, q\<lparr>mp_OrderBookID := '' '' @ mp_OrderBookID p\<rparr>)" by (rule d) simp
  have "mp_OrderBookID q = mp_OrderBookID p" by (rule d) simp
  then have "hc_OrderBook (h_cfg h) text \<noteq> hc_OrderBook (h_cfg h) text'" using assms(4) [OF assms(3)] assms(4) [OF assms(6)] by simp
  then have "\<forall>d\<in>set (List.map_filter (h_runs h) ids).
      \<not> (rd_DORAUserID d = user \<and> active_run d \<and> hc_OrderBook (h_cfg h) (rd_Config d) = hc_OrderBook (h_cfg h) text')"
    using assms(5) by (auto simp: List.map_filter_def)
  then show "findActiveRunForOrderBook ids user (hc_OrderBook (h_cfg h) text') h = None"
    by (simp add: findActiveRunForOrderBook_def find_None_iff)
qed

section \<open>Witnesses\<close>

definition demo_MR :: meanReversionConfigPayload where
  "demo_MR = \<lparr>mp_LookbackWindow = 0, mp_Resolution = '' 5m '', mp_EntryZScore = 3, mp_ExitZScore = 0, mp_StopLossZScore = 5,
     mp_MinStdDev = 0, mp_MaxPositionSize = 0, mp_OrderBookID = ''book'', mp_Tenor = '' 10Y'', mp_InitialBalance = Some 100,
     mp_Leverage = Some 2, mp_ImbalanceWindow = None, mp_ImbalanceThreshold = 0\<rparr>"

definition demo_BO :: breakoutConfigPayload where
  "demo_BO = \<lparr>bp_ShortVolWindow = 0, bp_LongVolWindow = 50, bp_CompressionThreshold = 0, bp_ATRWindow = 5, bp_BreakoutATRMultiple = 0,
     bp_ConfirmationBars = 0, bp_StopLossATR = Some 0, bp_TakeProfitATR = None, bp_MinLongVolFloor = 0, bp_OBVTrendThreshold = 0,
     bp_OBVWindow = 0, bp_Resolution = [], bp_OrderBookID = [], bp_InitialBalance = None, bp_Leverage = None\<rparr>"

definition demo_MO :: momentumConfigPayload where
  "demo_MO = \<lparr>op_SignalSource = ''spread'', op_FastWindow = None, op_SlowWindow = Some 20, op_ATRWindow = None, op_Resolution = [],
     op_VolumeAvgWindow = Some 0, op_VolumeRatioThreshold = None, op_StopLossATR = None, op_TakeProfitATR = None, op_MinOrderSize = 1,
     op_MaxOrderSize = 10, op_MaxPositionSize = None, op_Tenor = ''10Y'', op_OrderBookID = ''book'', op_InitialBalance = Some 0,
     op_Leverage = Some 3\<rparr>"

text \<open>A codec that knows one request and one stored configuration.\<close>

definition demo_unmarshal :: "'p \<Rightarrow> 'p \<Rightarrow> string \<Rightarrow> 'p res" where
  "demo_unmarshal p q t = Inr (if t = ''request'' then p else q)"

definition demo_marshal :: "'p \<Rightarrow> 'p \<Rightarrow> string res" where
  "demo_marshal q r = (if r = q then Inr ''stored'' else Inl ''unknown'')"

lemma demo_codec: "demo_marshal q r = Inr t \<Longrightarrow> decodeRawConfig (demo_unmarshal p q) t = Inr r"
  by (auto simp: demo_marshal_def demo_unmarshal_def decodeRawConfig_def split: if_splits)

lemma demo_text: "decode p = Inr (cfg, q) \<Longrightarrow> decode_text (demo_unmarshal p q) (demo_marshal q) decode ''request'' = Inr (cfg, ''stored'')"
  by (simp add: decode_text_Inr decodeRawConfig_def demo_unmarshal_def demo_marshal_def)

lemma demo_accepted:
  "\<exists>cfg q. decodeMeanReversion rat_ops id Inr True demo_MR = Inr (cfg, q) \<and> mc_LookbackWindow cfg = 24 \<and> mc_Leverage cfg = 2"
  "\<exists>cfg q. decodeBreakout rat_ops id Inr True demo_BO = Inr (cfg, q) \<and> bc_ShortVolWindow cfg = 12 \<and> bc_StopLossATR cfg = 0"
  "\<exists>cfg q. decodeMomentum rat_ops id Inr True demo_MO = Inr (cfg, q) \<and> mf_SlowWindow cfg = 20 \<and> mf_Leverage cfg = 3"
proof -
  have "case decodeMeanReversion rat_ops id Inr True demo_MR of Inl _ \<Rightarrow> False | Inr (cfg, q) \<Rightarrow> mc_LookbackWindow cfg = 24 \<and> mc_Leverage cfg = 2"
    by code_simp
  then show "\<exists>cfg q. decodeMeanReversion rat_ops id Inr True demo_MR = Inr (cfg, q) \<and> mc_LookbackWindow cfg = 24 \<and> mc_Leverage cfg = 2"
    by (simp split: sum.split_asm prod.split_asm)
  have "case decodeBreakout rat_ops id Inr True demo_BO of Inl _ \<Rightarrow> False | Inr (cfg, q) \<Rightarrow> bc_ShortVolWindow cfg = 12 \<and> bc_StopLossATR cfg = 0"
    by code_simp
  then show "\<exists>cfg q. decodeBreakout rat_ops id Inr True demo_BO = Inr (cfg, q) \<and> bc_ShortVolWindow cfg = 12 \<and> bc_StopLossATR cfg = 0"
    by (simp split: sum.split_asm prod.split_asm)
  have "case decodeMomentum rat_ops id Inr True demo_MO of Inl _ \<Rightarrow> False | Inr (cfg, q) \<Rightarrow> mf_SlowWindow cfg = 20 \<and> mf_Leverage cfg = 3"
    by code_simp
  then show "\<exists>cfg q. decodeMomentum rat_ops id Inr True demo_MO = Inr (cfg, q) \<and> mf_SlowWindow cfg = 20 \<and> mf_Leverage cfg = 3"
    by (simp split: sum.split_asm prod.split_asm)
qed

theorem stored_config_unchanged_witness:
  "\<exists>cfg q cfg' q'. mc_LookbackWindow cfg = 24 \<and> bc_ShortVolWindow cfg' = 12 \<and>
     decode_text (demo_unmarshal demo_MR q) (demo_marshal q) (decodeMeanReversion rat_ops id Inr True) ''stored'' = Inr (cfg, ''stored'') \<and>
     decode_text (demo_unmarshal demo_BO q') (demo_marshal q') (decodeBreakout rat_ops id Inr True) ''stored'' = Inr (cfg', ''stored'')"
proof -
  obtain cfg q cfg' q' where m: "decodeMeanReversion rat_ops id Inr True demo_MR = Inr (cfg, q)" "mc_LookbackWindow cfg = 24"
    and b: "decodeBreakout rat_ops id Inr True demo_BO = Inr (cfg', q')" "bc_ShortVolWindow cfg' = 12"
    using demo_accepted(1,2) by blast
  show ?thesis using stored_config_unchanged [OF demo_codec demo_codec demo_text [where decode = "decodeMeanReversion rat_ops id Inr True", OF m(1)]
      demo_text [where decode = "decodeBreakout rat_ops id Inr True", OF b(1)]] m(2) b(2) by blast
qed

lemma demo_MO_exact: "exact_payload rat_ops id demo_MO"
  by (simp add: exact_payload_def exact_float_def rat_ops_def demo_MO_def)

theorem stored_momentum_unchanged_witness:
  "\<exists>cfg q. mf_SlowWindow cfg = 20 \<and>
     decode_text (demo_unmarshal demo_MO q) (demo_marshal q) (decodeMomentum rat_ops id Inr True) ''stored'' = Inr (cfg, ''stored'')"
proof -
  obtain cfg q where m: "decodeMomentum rat_ops id Inr True demo_MO = Inr (cfg, q)" "mf_SlowWindow cfg = 20" using demo_accepted(3) by blast
  have "decodeRawConfig (demo_unmarshal demo_MO q) ''request'' = Inr demo_MO" by (simp add: decodeRawConfig_def demo_unmarshal_def)
  from stored_momentum_unchanged [OF demo_codec this demo_MO_exact demo_text [where decode = "decodeMomentum rat_ops id Inr True", OF m(1)]] m(2)
  show ?thesis by blast
qed


definition demo_book_handler :: "string \<Rightarrow> Handler" where
  "demo_book_handler text =
     (NewHandler \<lparr>hc_Strategies = Map.empty, hc_runStore = True, hc_decisionStore = False, hc_stateStore = False, hc_encKey = [],
        hc_OrderBook = (\<lambda>c. c), hc_EndTime = (\<lambda>_. None)\<rparr> None None Map.empty)
     \<lparr>h_runs := [''r'' \<mapsto> \<lparr>rd_ID = ''r'', rd_DORAUserID = ''u'', rd_StrategyType = ''mr'', rd_Status = ''running'', rd_CreatedAt = time_zero,
        rd_UpdatedAt = time_zero, rd_StoppedAt = None, rd_Config = text, rd_EncryptedAPIKey = [], rd_Error = []\<rparr>]\<rparr>"

theorem blank_book_bypasses_check_witness:
  "findActiveRunForOrderBook [''r''] ''u'' ''book'' (demo_book_handler ''book'') = Some ''r'' \<and>
   findActiveRunForOrderBook [''r''] ''u'' '' book'' (demo_book_handler ''book'') = None"
proof -
  obtain cfg q where m: "decodeMeanReversion rat_ops id Inr True demo_MR = Inr (cfg, q)" using demo_accepted(1) by blast
  have b: "mp_OrderBookID q = ''book''" "mp_OrderBookID demo_MR \<noteq> []"
    using MR_other_book(2) [OF m refl] by (simp_all add: demo_MR_def)
  let ?h = "demo_book_handler ''book''" and ?marshal = "\<lambda>r. Inr (mp_OrderBookID r) :: string res"
  have "findActiveRunForOrderBook [''r''] ''u'' (hc_OrderBook (h_cfg ?h) '' book'') ?h = None"
    by (rule conjunct2 [OF blank_book_bypasses_check [of rat_ops id Inr demo_MR cfg q ?marshal "''book''" ?h "''u''", OF m b(2)]])
      (auto simp: b demo_book_handler_def NewHandler_def demo_MR_def split: if_splits)
  then show ?thesis
    by (simp add: demo_book_handler_def NewHandler_def findActiveRunForOrderBook_def active_run_def List.map_filter_def)
qed

end
