(* ===== verification/Spec2Isabelle.thy ===== *)
theory Spec2Isabelle
  imports Exec_Props Stats_Model Twap_Props Vwap_Props Bar_Feed Portfolio Benchmark MR_Correct
    MR_Backtest_Correct BO_Backtest_Correct Deployment_Props Agent_Host_Props Orchestrator_Correct
    Backtest_Jobs_Props MO_Correct CT_Correct Order_Updates_Props Run_Handler_Correct Config_Props Plugin_Backtest_Props
begin

text \<open>
  A verification library for the bond trading strategies and the strategy agent of this repository. It
  translates the Go code under \<open>src/\<close> into HOL definitions, one theory per component, and proves what
  makes each component correct.

  \<^bold>\<open>The program.\<close> Strategies trade one bond over the exchange API. Mean reversion, momentum and breakout
  listen to bars and price updates and open and close positions by market orders; copy trading repeats the
  trades of another user; TWAP and VWAP work off a target amount in slices. All of them record decisions and orders, and read market data from the
  bar feed, the rolling statistics and the benchmark yields. Backtests replay historical bars, ticks and
  trades through the same rules with simulated fills. The strategy server starts, stops and restores runs for its users,
  watches for their end, publishes events over a bus to websocket clients and feeds runs with the updates of
  their orders. Beside them an agent runs user plugins (WASM
  modules) as deployments: the orchestrator subscribes them to the websocket broker, which turns the
  notifications of the exchange into frames, and the host functions pass frames to the plugin and its
  orders, through the safety kernel, to the order broker. Deployments are rows of a store, from which
  they are recovered on boot. Plugins are backtested by jobs that replay a database of trades, prices and candles.

  \<^bold>\<open>Conventions\<close> (\<open>Go_Base\<close>, \<open>Decimal_Ops\<close>). An error is a text, a fallible result \<open>'a res\<close> is
  an error or a value, and a Go pair of value and error is a pair; a panic is an error that names it.
  Integers and durations that can overflow are wrapped to 64 bits (\<open>wrap64\<close>); times are instants with
  a zone offset. The decimal package is not part of the repository: its operations are the
  record \<open>decimal_ops\<close>, and \<open>decimal_laws\<close> states their documented behaviour, rounding by \<open>rnd\<close>
  included; \<open>decimal_laws D val id\<close> is the case without rounding, and \<open>rat_ops\<close> is an instance that every
  witness computes with. Clients of the exchange, clocks, identifiers, SQL statements, JSON and the
  WASM runtime are arguments of the definitions. Logging is left out throughout. State is passed
  explicitly; a handler returns the new state and the list of its effects (orders, records).

  \<^bold>\<open>Theories and code\<close>

  \<^item> \<open>Market_Types\<close>, \<open>Rolling_Window\<close>: \<open>strategy/types\<close>, \<open>strategy/window/rolling.go\<close>. The circular
    buffer holds the most recent values; mean and variance are those of its values.
  \<^item> \<open>Decision_Model\<close>: \<open>strategy/decision.go\<close>, client order ids.
  \<^item> \<open>Exec_Model\<close>, \<open>Exec_Props\<close>: \<open>strategy/exec/exec.go\<close>. The total of fills agrees with the settled
    orders over every history; import of orphaned orders.
  \<^item> \<open>Exec_Loop\<close>, \<open>Twap_Model\<close>, \<open>Twap_Props\<close>, \<open>Vwap_Model\<close>, \<open>Vwap_Props\<close>: \<open>strategy/twap\<close>,
    \<open>strategy/vwap\<close>. Schedules sum to the target, slices stay within what remains, at most one order
    per slot.
  \<^item> \<open>Bar_Feed\<close>, \<open>Portfolio\<close>, \<open>Benchmark\<close>, \<open>Stats_Model\<close>: \<open>strategy/barfeed.go\<close> and
    \<open>candle_registry.go\<close>, \<open>portfolio.go\<close>, \<open>fred/benchmark.go\<close> and \<open>tenor.go\<close>, \<open>strategy/stats\<close>.
  \<^item> \<open>MR_Model\<close>, \<open>MR_Loop\<close>, \<open>MR_Props\<close>, \<open>MR_Correct\<close>: \<open>strategy/meanreversion/strategy.go\<close>,
    \<open>imbalance.go\<close>, \<open>balances.go\<close>. When a position opens and closes, for which quantity, and what
    holds over every run.
  \<^item> \<open>MR_Backtest\<close>, \<open>MR_Backtest_Props\<close>, \<open>MR_Backtest_Correct\<close>: \<open>strategy/meanreversion/backtest.go\<close>
    and \<open>historical_data.go\<close>. Accounting, round trips, trading window, no look-ahead.
  \<^item> \<open>BO_Model\<close>, \<open>BO_Loop\<close>, \<open>BO_Props\<close>, \<open>BO_Correct\<close>, \<open>BO_Backtest\<close>, \<open>BO_Backtest_Correct\<close>:
    \<open>strategy/breakout\<close>, live and backtest; \<open>Trade_Book\<close> is the abstract account that the backtest refines.
  \<^item> \<open>MO_Model\<close>, \<open>MO_Loop\<close>, \<open>MO_Backtest\<close>, \<open>MO_Props\<close>, \<open>MO_Live\<close>, \<open>MO_Correct\<close>: \<open>strategy/momentum\<close>. The
    signal and the bands of an exit, live runs, and the agreement of live trading with the backtest.
  \<^item> \<open>CT_Model\<close>, \<open>CT_Backtest\<close>, \<open>CT_Props\<close>, \<open>CT_Correct\<close>: \<open>strategy/copytrading\<close>. The account an
    order is sized against, the keyset stream of trades, cash and exposure of the backtest.
  \<^item> \<open>Run_Service\<close>, \<open>Run_Handler\<close>, \<open>Run_Handler_Props\<close>, \<open>Run_Handler_Correct\<close>: \<open>strategy/service.go\<close> and the
    runs of \<open>strategy/http/handler.go\<close> with \<open>run_store.go\<close>. Requests, goroutines of strategies and watchers as
    steps of one state; one active run per order book, the classification of a run's end, and three ways in which
    a request goes wrong. A creation is one step or, when other requests come in between, two (\<open>HCheck\<close>, \<open>HLaunch\<close>); two
    creations for one order book at once can both start (\<open>concurrent_creates_race\<close>).
  \<^item> \<open>Config_Decode\<close>, \<open>Config_Props\<close>: the decoders of configurations in \<open>strategy/http/handler.go\<close>. The text that a run
    stores decodes to the configuration it was started with; what a strategy may rely on.
  \<^item> \<open>Notify_Bus\<close>, \<open>Order_Updates\<close>, \<open>Order_Updates_Props\<close>: \<open>notifications\<close> and \<open>notifications/orderupdates\<close>. The hub,
    the log and the sessions of clients; the subscriptions to a user's order updates with their counts and grace
    timers, the cache of runs, the filter and the backoff.
  \<^item> \<open>Ws_Broker\<close>, \<open>Ws_Broker_Props\<close>, \<open>Ws_Broker_Correct\<close>: \<open>internal/agent/wsbroker/broker.go\<close>. The
    slice of subscribers with its shared array, the candle machine, dispatch and reconnects. It refines
    a plain list of subscribers, and a candle subscription receives the reference feed of closed candles.
  \<^item> \<open>Deployment_Store\<close>, \<open>Deployment_Props\<close>: \<open>internal/agent/deployment\<close>. Rows, constraints, statements
    and keyset pages.
  \<^item> \<open>Agent_Host\<close>, \<open>Agent_Host_Props\<close>: \<open>internal/agent/safety/caps.go\<close>, \<open>orderbroker/broker.go\<close>,
    \<open>orchestrator/livehost.go\<close>. Which orders of a plugin reach the exchange, the kill switch, the
    event loop (a function with a termination proof) and the persisted candle count.
  \<^item> \<open>Orchestrator\<close>, \<open>Orchestrator_Props\<close>, \<open>Orchestrator_Correct\<close>: \<open>internal/agent/orchestrator\<close>.
    Deploy, run ends, restart, Stop, Resume, HotSwap, Recover, the restart budget; subscriptions and
    instances agree over every history.
  \<^item> \<open>Page_Stream\<close>, \<open>Page_Stream_Props\<close>, \<open>Page_Stream_Correct\<close>: \<open>pagestream.go\<close> and \<open>mergestream.go\<close> of
    \<open>internal/agent/backtest\<close>. The consumer and its prefetching goroutines as interleaved steps; the merge is the
    history in time order and ends.
  \<^item> \<open>History_Store\<close>, \<open>History_Props\<close>: the keyset pages of the histories, the candle buckets, the cursor.
  \<^item> \<open>Plugin_Backtest\<close>, \<open>Plugin_Backtest_Props\<close>, \<open>Backtest_Summary\<close>: \<open>wasm_starter.go\<close> and \<open>summary.go\<close>. What a plugin
    is answered in a backtest, how its orders are filled, and the summary. \<open>Go_Strings\<close> prints and reads numbers.
  \<^item> \<open>Backtest_Jobs\<close>, \<open>Backtest_Jobs_Props\<close>: requests, rows, goroutines and cancellation of backtest jobs, with one job
    in flight per user.
  \<^item> This theory: properties that span components, from the exchange to the plugin.

  \<^bold>\<open>Interfaces.\<close> Locales state what one component relies on of another; each is
  interpreted on the model: \<open>ledger_invariant\<close> (an invariant of a backtest account under its steps),
  the trade book and its refinement, the run loops, the fan-out of the broker as the orchestrator uses it, and the decimal laws on
  \<open>rat_ops\<close>.

  \<^bold>\<open>Loops and fuel.\<close> Loops over data are structural recursions or folds. The event loop of the host
  is a function whose measure is the number of buffered frames and open channels. Page walks of the
  deployment list take fuel: one page per deployment and one more is enough, and the theorem proves
  that. The walks of the histories (\<open>fetchAll_from\<close>), of the trades of a followed user (\<open>stream_from\<close>) and the polling
  of a job (\<open>poll_from\<close>) may not end and are \<open>partial_function\<close>s; where they end, that is proved as a result.
  Live loops, which run until they are stopped, are folds over a finite sequence of events, and
  their properties hold for every such sequence. Concurrency appears where the code's correctness
  depends on it: as interleaved steps in the candle registry, in the dispatch of the broker (other
  operations run between two sends), between the two critical sections of \<open>Deploy\<close>, in the page streams, in the
  backtest jobs, in the grace timers of the order updates, in the creations of runs and in the watchers of a run. The
  operations of the orchestrator are one step each in its invariant (\<open>concurrent_deploys_orphan\<close> is what two deployments at
  once do), as are a stop, a pause and the order of a plugin: one whose check has passed is sent although a halt comes
  between.

  \<^bold>\<open>Rounding.\<close> A property over \<open>decimal_laws D val rnd\<close> holds whatever the decimals round. Those of accounts - the cash and
  exposure of copy trading, the accounting of the mean reversion and breakout backtests - and of running means hold in exact
  arithmetic, when no operation rounds (\<open>decimal_laws D val id\<close>, \<open>exact_ops\<close>), as their texts say: rounding adds
  to both sides of such an equation differently.

  \<^bold>\<open>Not modelled.\<close> The HTTP interface of the agent and that of the strategy server apart from its runs, the MCP
  server, the language model agent and its tools, the SQL stores other than those of deployments, histories, backtest
  jobs, events and runs, the market data clients, the rate limiter, secrets (calls of the standard library), the WASM
  runtime (calls of wazero) and the programs' start-up: they decode, forward and encode. Sequences of requests in the
  properties of runs leave out \<open>resumeRun\<close>, under which two of them fail: it starts a run that has ended once more and does
  not look at the order book. The list of components with their status is part of the manifest.
\<close>

section \<open>From the exchange to a plugin\<close>

text \<open>C17: End to end, when the exchange sends the candles of a book and resolution in the order of their start, and none of them
  was seen before the deployment: once a deployment has been started, and before its plugin has asked for an event, the queue from
  which its plugin will be served holds exactly candles of the order book and resolution of the deployment, in strictly
  increasing order of their start and each once, the first 64 of those sent. Other notifications may come in between.
  Two times of candles are the same only as the same text, and identifiers of order books have no separator in them.\<close>

theorem deployed_plugin_candles:
  assumes "orch_ok o1" "Deploy cfg env dc o1 = (o2, None)" "dc_OrderBookID dc \<noteq> SubscribeAllOrderBooks"
    and "candle_view (or_broker o1) (candle_key (dc_OrderBookID dc) (dc_Resolution dc)) = (None, [], [])"
    and "plain_id (dc_OrderBookID dc)" "list_all plain_note ns"
    and "inj tm" "feed_ok tm {} (updates_for (dc_OrderBookID dc) (dc_Resolution dc) ns)"
  shows "\<exists>tag li b sent. or_live o2 (dc_DeploymentID dc) = Some tag \<and> or_insts o2 tag = Some li \<and>
    hs_preamble (li_state li) \<and> read_notes quiet ns (or_broker o2) = Inr b \<and>
    queue SelCandle (li_state li) b =
      take defaultFrameBuffer (map (candle_frame (dc_OrderBookID dc) (dc_Resolution dc)) sent) \<and>
    sorted_wrt (<) (map (tm \<circ> ts_of) sent)"
proof -
  obtain tag li s where L: "or_live o2 (dc_DeploymentID dc) = Some tag" "or_insts o2 tag = Some li" "hs_preamble (li_state li)"
    "hs_candleCh (li_state li) = Some (li_sub li)" "li_sub li \<in> set (subs_of (or_broker o2))"
    "br_heap (or_broker o2) (li_sub li) = Some s" "candle_sub (dc_OrderBookID dc) (dc_Resolution dc) s" "sub_buf s = []"
    "candle_view (or_broker o2) (candle_key (dc_OrderBookID dc) (dc_Resolution dc)) = (None, [], [])"
    using Deploy_candle_channel [OF assms(1-3)] assms(4) by metis
  have "orch_ok o2" using Deploy_ok [OF assms(1), of cfg env dc] assms(2) by simp
  from feed_of_subscription [OF orch_okD(1) [OF this] L(5-9) assms(5-8)] L(1-4) show ?thesis
    by (auto simp: queue_def sel_chan_def)
qed

theorem deployed_plugin_candles_witness:
  "\<exists>o2 b li sent. Deploy sample_cfg sample_deploy_env sample_dc sample_orch = (o2, None) \<and>
     read_notes quiet sample_notes (or_broker o2) = Inr b \<and> or_insts o2 0 = Some li \<and>
     queue SelCandle (li_state li) b = take defaultFrameBuffer (map (candle_frame ''B'' ''1m'') sent)"
proof -
  obtain o2 li where R: "Deploy sample_cfg sample_deploy_env sample_dc sample_orch = (o2, None)"
    "started sample_dc sample_orch li o2" by (rule sample_running)
  have live: "or_live o2 ''d'' = Some 0" using R(2) by (auto simp: started_def sample_orch_def sample_dc_def)
  have dc: "dc_OrderBookID sample_dc = ''B''" "dc_Resolution sample_dc = ''1m''" "dc_DeploymentID sample_dc = ''d''"
    by (simp_all add: sample_dc_def)
  have "plain_id ''B''" "''B'' \<noteq> SubscribeAllOrderBooks" by (simp_all add: plain_id_def SubscribeAllOrderBooks_def)
  moreover have "candle_view (or_broker sample_orch) k = (None, [], [])" for k
    using sample_broker_ok(5) [of k] by (simp add: sample_orch_def)
  ultimately show ?thesis
    using deployed_plugin_candles [OF idle_ok [OF sample_orch_idle] R(1), unfolded dc, OF _ _ _ sample_notes_ok(1)
        inj_sample_clock sample_notes_ok(2)] R(1) live by fastforce
qed

end
